(* ===== verification/Prelude.thy ===== *)
theory Prelude
  imports
    Main
    "HOL-Library.Char_ord"
    "HOL-Library.List_Lexorder"
    "HOL-Library.Product_Lexorder"
    "HOL-Library.AList"
    "HOL-Library.Multiset"
begin

text \<open>
  Shared vocabulary of the development.  Python values are rendered as follows.

  \<^item> A function that may raise returns \<open>'e + 'a\<close>: \<open>Inl\<close> carries the exception, \<open>Inr\<close> the
    returned value (type synonym \<open>result\<close>).
  \<^item> A \<^verbatim>\<open>dict\<close> is an association list with distinct keys (type synonym \<open>dict\<close>): assigning to a
    present key keeps its position and assigning to an absent key appends it, which is exactly
    \<open>AList.update\<close>; \<^verbatim>\<open>pop\<close> and \<^verbatim>\<open>del\<close> are \<open>AList.delete\<close>.
  \<^item> \<^verbatim>\<open>sorted(xs, key=f)\<close> is the stable \<open>sort_key f xs\<close>; Python compares text by code point and
    tuples lexicographically, as the orders of \<open>Char_ord\<close>, \<open>List_Lexorder\<close> and
    \<open>Product_Lexorder\<close> do.

  A stateful object is a record and each of its operations a function from the record to a result
  and the updated record.  The locales \<open>guarded_machine\<close>, \<open>object_machine\<close> and \<open>queue_machine\<close> state what such an object
  promises of one operation, and prove what follows for every sequence of operations, that is for
  every interleaving of the threads that take its lock.
\<close>

named_theorems dict_simps \<open>lookups after updates of association-list dictionaries\<close>

type_synonym ('e, 'a) result = "'e + 'a"
type_synonym ('k, 'v) dict = "('k \<times> 'v) list"

subsection \<open>Dictionaries\<close>

abbreviation keys :: "('k, 'v) dict \<Rightarrow> 'k list" where
  "keys d \<equiv> map fst d"

abbreviation well_keyed :: "('k, 'v) dict \<Rightarrow> bool" where
  "well_keyed d \<equiv> distinct (keys d)"

lemma dict_map_of_update [dict_simps]: "map_of (AList.update k v d) = (map_of d)(k \<mapsto> v)"
  by (simp add: update_conv')

lemma dict_map_of_delete [dict_simps]: "map_of (AList.delete k d) = (map_of d)(k := None)"
  by (simp add: delete_conv')

lemma well_keyed_update [intro]: "well_keyed d \<Longrightarrow> well_keyed (AList.update k v d)"
  by (rule distinct_update)

lemma well_keyed_delete [intro]: "well_keyed d \<Longrightarrow> well_keyed (AList.delete k d)"
  by (rule distinct_delete)

lemma keys_update_present [dict_simps]:
  "k \<in> set (keys d) \<Longrightarrow> keys (AList.update k v d) = keys d"
  by (induction d) auto

lemma set_keys_update [dict_simps]:
  "set (keys (AList.update k v d)) = insert k (set (keys d))"
  by (induction d) auto

lemma set_keys_delete [dict_simps]:
  "set (keys (AList.delete k d)) = set (keys d) - {k}"
  by (auto simp: AList.delete_eq)

lemma map_of_eq_Some_in_keys: "map_of d k = Some v \<Longrightarrow> k \<in> set (keys d)"
  by (metis image_set map_of_SomeD fst_conv image_eqI)

lemma in_keys_iff_map_of: "k \<in> set (keys d) \<longleftrightarrow> map_of d k \<noteq> None"
  by (simp add: map_of_eq_None_iff)

lemma map_of_update_other: "k \<noteq> j \<Longrightarrow> map_of (AList.update k v d) j = map_of d j"
  by (simp add: dict_simps)

text \<open>Sorting keeps keys distinct, and with distinct keys it does not depend on the order of its input.\<close>

lemma distinct_map_sort_key [simp]: "distinct (map f (sort_key g xs)) = distinct (map f xs)"
  by (rule mset_eq_imp_distinct_iff) simp

lemma sort_key_unique:
  assumes "distinct (map f xs)" "distinct (map f ys)" "set xs = set ys"
  shows "sort_key f xs = sort_key f ys"
proof -
  have "mset xs = mset ys" using assms by (metis distinct_map set_eq_iff_mset_eq_distinct)
  then show ?thesis
    using assms by (intro sort_key_inj_key_eq) (simp_all add: distinct_map)
qed

subsection \<open>Code that may raise\<close>

text \<open>Python statements in sequence: the first exception ends the function.\<close>

primrec bind_result :: "('e, 'a) result \<Rightarrow> ('a \<Rightarrow> ('e, 'b) result) \<Rightarrow> ('e, 'b) result" where
  "bind_result (Inl e) f = Inl e"
| "bind_result (Inr a) f = f a"

text \<open>\<^verbatim>\<open>if not c: raise e\<close>.\<close>

definition require :: "bool \<Rightarrow> 'e \<Rightarrow> ('e, unit) result" where
  "require c e = (if c then Inr () else Inl e)"

text \<open>A tuple built by a comprehension whose element may raise.\<close>

primrec map_result :: "('a \<Rightarrow> ('e, 'b) result) \<Rightarrow> 'a list \<Rightarrow> ('e, 'b list) result" where
  "map_result f [] = Inr []"
| "map_result f (x # xs) =
     bind_result (f x) (\<lambda>y. bind_result (map_result f xs) (\<lambda>ys. Inr (y # ys)))"

text \<open>A loop that only checks.\<close>

primrec check_all :: "('a \<Rightarrow> ('e, unit) result) \<Rightarrow> 'a list \<Rightarrow> ('e, unit) result" where
  "check_all f [] = Inr ()"
| "check_all f (x # xs) = bind_result (f x) (\<lambda>_. check_all f xs)"

named_theorems result_simps \<open>when a sequence of raising statements returns\<close>

lemma bind_result_eq_Inr [result_simps]:
  "bind_result r f = Inr b \<longleftrightarrow> (\<exists>a. r = Inr a \<and> f a = Inr b)"
  by (cases r) auto

lemma bind_result_eq_Inl [result_simps]:
  "bind_result r f = Inl e \<longleftrightarrow> r = Inl e \<or> (\<exists>a. r = Inr a \<and> f a = Inl e)"
  by (cases r) auto

lemma require_eq_Inr [result_simps]: "require c e = Inr x \<longleftrightarrow> c"
  by (simp add: require_def)

lemma require_eq_Inl [result_simps]: "require c e = Inl e' \<longleftrightarrow> \<not> c \<and> e' = e"
  by (auto simp: require_def)

lemma require_True [simp]: "require True e = Inr ()" and require_False [simp]: "require False e = Inl e"
  by (simp_all add: require_def)

lemma check_all_eq_Inr [result_simps]: "check_all f xs = Inr x \<longleftrightarrow> (\<forall>x \<in> set xs. f x = Inr ())"
  by (induction xs) (auto simp: result_simps)

lemma check_all_eq_Inl: "check_all f xs = Inl e \<Longrightarrow> \<exists>x \<in> set xs. f x = Inl e"
  by (induction xs) (auto simp: result_simps)

lemma map_result_eq_Inr [result_simps]:
  "map_result f xs = Inr ys \<longleftrightarrow> map f xs = map Inr ys"
  by (induction xs arbitrary: ys) (auto simp: result_simps Cons_eq_map_conv)

lemma map_result_list_all2: "map_result f xs = Inr ys \<longleftrightarrow> list_all2 (\<lambda>x y. f x = Inr y) xs ys"
  by (induction xs arbitrary: ys) (auto simp: result_simps list_all2_Cons1)

lemma list_all2_map_eq:
  "list_all2 P xs ys \<Longrightarrow> (\<And>x y. P x y \<Longrightarrow> g y = h x) \<Longrightarrow> map g ys = map h xs"
  by (induction rule: list_all2_induct) auto

lemma list_all2_in_right: "list_all2 P xs ys \<Longrightarrow> y \<in> set ys \<Longrightarrow> \<exists>x \<in> set xs. P x y"
  by (induction rule: list_all2_induct) auto

lemma map_result_eq_Inl: "map_result f xs = Inl e \<Longrightarrow> \<exists>x \<in> set xs. f x = Inl e"
  by (induction xs) (auto simp: result_simps)

lemma map_result_Inr_map:
  assumes "map_result f xs = Inr ys" and "\<And>x y. x \<in> set xs \<Longrightarrow> f x = Inr y \<Longrightarrow> y = g x"
  shows "ys = map g xs" and "\<And>x. x \<in> set xs \<Longrightarrow> f x = Inr (g x)"
proof -
  have *: "ys = map g xs \<and> (\<forall>x \<in> set xs. f x = Inr (g x))"
    using assms
  proof (induction xs arbitrary: ys)
    case (Cons x xs)
    then obtain y zs where y: "f x = Inr y" "map_result f xs = Inr zs" "ys = y # zs"
      by (auto simp: bind_result_eq_Inr)
    moreover have "y = g x" using Cons.prems(2) y(1) by simp
    moreover have "zs = map g xs \<and> (\<forall>x \<in> set xs. f x = Inr (g x))"
      by (rule Cons.IH [OF y(2)]) (simp add: Cons.prems(2))
    ultimately show ?case by simp
  qed simp
  then show "ys = map g xs" by blast
  show "f x = Inr (g x)" if "x \<in> set xs" for x using * that by blast
qed

lemma map_result_map: "(\<And>x. x \<in> set xs \<Longrightarrow> f x = Inr (g x)) \<Longrightarrow> map_result f xs = Inr (map g xs)"
  by (induction xs) auto

text \<open>Reading back what a comprehension wrote.\<close>

lemma map_result_rows: "(\<And>x. x \<in> set xs \<Longrightarrow> f (g x) = Inr x) \<Longrightarrow> map_result f (map g xs) = Inr xs"
  by (induction xs) auto

subsection \<open>Sequences of atomic operations\<close>

text \<open>Running a sequence of operations on an object: the outcomes in order and the final state.\<close>

primrec perform :: "('op \<Rightarrow> 's \<Rightarrow> 'out \<times> 's) \<Rightarrow> 'op list \<Rightarrow> 's \<Rightarrow> 'out list \<times> 's" where
  "perform exec [] s = ([], s)"
| "perform exec (x # xs) s =
     (let (r, s') = exec x s; (rs, s'') = perform exec xs s' in (r # rs, s''))"

lemma perform_Cons [simp]:
  "perform exec (x # xs) s =
     (fst (exec x s) # fst (perform exec xs (snd (exec x s))), snd (perform exec xs (snd (exec x s))))"
  by (simp add: Let_def case_prod_beta)

declare perform.simps(2) [simp del]

lemma perform_append:
  "perform exec (xs @ ys) s =
     (let (rs, t) = perform exec xs s; (qs, u) = perform exec ys t in (rs @ qs, u))"
  by (induction xs arbitrary: s) (auto simp: Let_def case_prod_beta)

lemma length_perform [simp]: "length (fst (perform exec xs s)) = length xs"
  by (induction xs arbitrary: s) (auto simp: Let_def case_prod_beta)

text \<open>An object whose operations keep an invariant when they are called as its callers may call them.\<close>

locale guarded_machine =
  fixes exec :: "'op \<Rightarrow> 's \<Rightarrow> 'out \<times> 's"
    and inv :: "'s \<Rightarrow> bool"
    and allowed :: "'op \<Rightarrow> bool"
  assumes guarded_inv: "inv s \<Longrightarrow> allowed x \<Longrightarrow> inv (snd (exec x s))"
begin

lemma perform_guarded: "inv s \<Longrightarrow> list_all allowed xs \<Longrightarrow> inv (snd (perform exec xs s))"
proof (induction xs arbitrary: s)
  case (Cons x xs)
  then show ?case
    using guarded_inv [of s x] by simp
qed simp

end

text \<open>An object whose operations keep its invariant whatever their arguments.\<close>

locale object_machine =
  fixes exec :: "'op \<Rightarrow> 's \<Rightarrow> 'out \<times> 's"
    and inv :: "'s \<Rightarrow> bool"
  assumes exec_inv: "inv s \<Longrightarrow> inv (snd (exec x s))"

sublocale object_machine \<subseteq> guarded: guarded_machine exec inv "\<lambda>_. True"
  by unfold_locales (rule exec_inv)

context object_machine
begin

lemma perform_inv: "inv s \<Longrightarrow> inv (snd (perform exec xs s))"
  by (rule guarded.perform_guarded) (simp_all add: list_all_iff)

end

text \<open>Two states no operation tells apart: every operation gives the same outcome on both and keeps
  them alike.\<close>

locale bisimulation =
  fixes exec :: "'op \<Rightarrow> 's \<Rightarrow> 'out \<times> 's"
    and alike :: "'s \<Rightarrow> 's \<Rightarrow> bool"
    and allowed :: "'op \<Rightarrow> bool"
  assumes exec_alike:
    "alike s t \<Longrightarrow> allowed x \<Longrightarrow>
       fst (exec x s) = fst (exec x t) \<and> alike (snd (exec x s)) (snd (exec x t))"
begin

lemma perform_alike:
  "alike s t \<Longrightarrow> list_all allowed xs \<Longrightarrow>
     fst (perform exec xs s) = fst (perform exec xs t) \<and>
     alike (snd (perform exec xs s)) (snd (perform exec xs t))"
proof (induction xs arbitrary: s t)
  case (Cons x xs)
  then show ?case
    using exec_alike [of s t x] by simp
qed simp

end

text \<open>An object that queues items: what an operation takes in joins the back, what it gives out
  leaves the front.\<close>

locale queue_machine = object_machine exec inv
  for exec :: "'op \<Rightarrow> 's \<Rightarrow> 'out \<times> 's" and inv :: "'s \<Rightarrow> bool" +
  fixes contents :: "'s \<Rightarrow> 'a list"
    and taken :: "'op \<Rightarrow> 'out \<Rightarrow> 'a list"
    and given :: "'out \<Rightarrow> 'a list"
  assumes exec_queue:
    "inv s \<Longrightarrow> contents s @ taken x (fst (exec x s)) = given (fst (exec x s)) @ contents (snd (exec x s))"
begin

lemma perform_queue:
  assumes "inv s"
  shows "contents s @ concat (map2 taken xs (fst (perform exec xs s))) =
           concat (map given (fst (perform exec xs s))) @ contents (snd (perform exec xs s))"
  using assms
proof (induction xs arbitrary: s)
  case (Cons x xs)
  obtain r s' where rs: "exec x s = (r, s')" by fastforce
  have "inv s'" and q: "contents s @ taken x r = given r @ contents s'"
    using exec_inv [OF Cons.prems, of x] exec_queue [OF Cons.prems, of x] rs by auto
  let ?p = "perform exec xs s'"
  have "contents s @ taken x r @ concat (map2 taken xs (fst ?p)) =
          (given r @ contents s') @ concat (map2 taken xs (fst ?p))"
    using q by (metis append.assoc)
  also have "\<dots> = given r @ concat (map given (fst ?p)) @ contents (snd ?p)"
    using Cons.IH [OF \<open>inv s'\<close>] by simp
  finally show ?case
    using rs by simp
qed simp

end

end
