(* ===== verification/Lifecycle.thy ===== *)
theory Lifecycle
  imports Prelude
begin

text \<open>
  The run and work-item lifecycles (\<^verbatim>\<open>domain/execution/states.py\<close>) and the closed failure
  classifications with their dispositions (\<^verbatim>\<open>domain/execution/failures.py\<close>).

  Both lifecycles are an enum with a table of exact arrows and the same three methods.  The
  locale \<open>lifecycle\<close> states what those methods promise about the table and proves, once, what
  a client that only moves through \<^verbatim>\<open>transition_to\<close> can rely on; it is interpreted on both enums.
\<close>

subsection \<open>Run lifecycle\<close>

datatype RunState =
    Run_QUEUED | Run_RUNNING | Run_PAUSING | Run_PAUSED | Run_RESUMING | Run_SUCCEEDED
  | Run_PARTIALLY_SUCCEEDED | Run_FAILED | Run_CANCELLING | Run_CANCELLED

fun RunState_value :: "RunState \<Rightarrow> string" where
  "RunState_value Run_QUEUED = ''queued''"
| "RunState_value Run_RUNNING = ''running''"
| "RunState_value Run_PAUSING = ''pausing''"
| "RunState_value Run_PAUSED = ''paused''"
| "RunState_value Run_RESUMING = ''resuming''"
| "RunState_value Run_SUCCEEDED = ''succeeded''"
| "RunState_value Run_PARTIALLY_SUCCEEDED = ''partially_succeeded''"
| "RunState_value Run_FAILED = ''failed''"
| "RunState_value Run_CANCELLING = ''cancelling''"
| "RunState_value Run_CANCELLED = ''cancelled''"

fun RUN_TRANSITIONS :: "RunState \<Rightarrow> RunState set" where
  "RUN_TRANSITIONS Run_QUEUED = {Run_RUNNING, Run_CANCELLED}"
| "RUN_TRANSITIONS Run_RUNNING =
     {Run_PAUSING, Run_SUCCEEDED, Run_PARTIALLY_SUCCEEDED, Run_FAILED, Run_CANCELLING}"
| "RUN_TRANSITIONS Run_PAUSING = {Run_PAUSED}"
| "RUN_TRANSITIONS Run_PAUSED = {Run_RESUMING}"
| "RUN_TRANSITIONS Run_RESUMING = {Run_RUNNING}"
| "RUN_TRANSITIONS Run_SUCCEEDED = {}"
| "RUN_TRANSITIONS Run_PARTIALLY_SUCCEEDED = {}"
| "RUN_TRANSITIONS Run_FAILED = {}"
| "RUN_TRANSITIONS Run_CANCELLING = {Run_CANCELLED}"
| "RUN_TRANSITIONS Run_CANCELLED = {}"

datatype InvalidTransitionError =
  InvalidTransitionError (lifecycle_name: string) (current_state: string) (target_state: string)

definition RunState_is_terminal :: "RunState \<Rightarrow> bool" where
  "RunState_is_terminal s \<longleftrightarrow> Set.is_empty (RUN_TRANSITIONS s)"

definition RunState_can_transition_to :: "RunState \<Rightarrow> RunState \<Rightarrow> bool" where
  "RunState_can_transition_to s target \<longleftrightarrow> target \<in> RUN_TRANSITIONS s"

definition RunState_transition_to ::
  "RunState \<Rightarrow> RunState \<Rightarrow> (InvalidTransitionError, RunState) result" where
  "RunState_transition_to s target =
     (if \<not> RunState_can_transition_to s target
      then Inl (InvalidTransitionError ''run'' (RunState_value s) (RunState_value target))
      else Inr target)"

subsection \<open>Work-item lifecycle\<close>

datatype WorkItemState =
    Work_PENDING | Work_LEASED | Work_RUNNING | Work_SUCCEEDED | Work_RETRY_WAIT
  | Work_QUARANTINED | Work_FAILED | Work_CANCELLED

fun WorkItemState_value :: "WorkItemState \<Rightarrow> string" where
  "WorkItemState_value Work_PENDING = ''pending''"
| "WorkItemState_value Work_LEASED = ''leased''"
| "WorkItemState_value Work_RUNNING = ''running''"
| "WorkItemState_value Work_SUCCEEDED = ''succeeded''"
| "WorkItemState_value Work_RETRY_WAIT = ''retry_wait''"
| "WorkItemState_value Work_QUARANTINED = ''quarantined''"
| "WorkItemState_value Work_FAILED = ''failed''"
| "WorkItemState_value Work_CANCELLED = ''cancelled''"

fun WORK_ITEM_TRANSITIONS :: "WorkItemState \<Rightarrow> WorkItemState set" where
  "WORK_ITEM_TRANSITIONS Work_PENDING = {Work_LEASED}"
| "WORK_ITEM_TRANSITIONS Work_LEASED = {Work_RUNNING}"
| "WORK_ITEM_TRANSITIONS Work_RUNNING =
     {Work_SUCCEEDED, Work_RETRY_WAIT, Work_QUARANTINED, Work_FAILED, Work_CANCELLED}"
| "WORK_ITEM_TRANSITIONS Work_SUCCEEDED = {}"
| "WORK_ITEM_TRANSITIONS Work_RETRY_WAIT = {Work_LEASED}"
| "WORK_ITEM_TRANSITIONS Work_QUARANTINED = {}"
| "WORK_ITEM_TRANSITIONS Work_FAILED = {}"
| "WORK_ITEM_TRANSITIONS Work_CANCELLED = {}"

definition WorkItemState_is_terminal :: "WorkItemState \<Rightarrow> bool" where
  "WorkItemState_is_terminal s \<longleftrightarrow> Set.is_empty (WORK_ITEM_TRANSITIONS s)"

definition WorkItemState_can_transition_to :: "WorkItemState \<Rightarrow> WorkItemState \<Rightarrow> bool" where
  "WorkItemState_can_transition_to s target \<longleftrightarrow> target \<in> WORK_ITEM_TRANSITIONS s"

definition WorkItemState_transition_to ::
  "WorkItemState \<Rightarrow> WorkItemState \<Rightarrow> (InvalidTransitionError, WorkItemState) result" where
  "WorkItemState_transition_to s target =
     (if \<not> WorkItemState_can_transition_to s target
      then Inl (InvalidTransitionError ''work item''
                  (WorkItemState_value s) (WorkItemState_value target))
      else Inr target)"

subsection \<open>Failure classifications\<close>

datatype FailureClassification =
    CONNECTION | TIMEOUT | HTTP_429 | HTTP_5XX | HTTP_4XX | VALIDATION
  | IDEMPOTENCY_CONFLICT | SQLITE_CONTENTION | USER_CANCELLATION | UNKNOWN

datatype FailureDisposition = RETRY | QUARANTINE | CONFLICT | CANCEL | PERMANENT

fun disposition_for :: "FailureClassification \<Rightarrow> FailureDisposition" where
  "disposition_for CONNECTION = RETRY"
| "disposition_for TIMEOUT = RETRY"
| "disposition_for HTTP_429 = RETRY"
| "disposition_for HTTP_5XX = RETRY"
| "disposition_for HTTP_4XX = PERMANENT"
| "disposition_for VALIDATION = QUARANTINE"
| "disposition_for IDEMPOTENCY_CONFLICT = CONFLICT"
| "disposition_for SQLITE_CONTENTION = RETRY"
| "disposition_for USER_CANCELLATION = CANCEL"
| "disposition_for UNKNOWN = PERMANENT"

subsection \<open>The lifecycle interface\<close>

fun move_all :: "('s \<Rightarrow> 's \<Rightarrow> 'e + 's) \<Rightarrow> 's \<Rightarrow> 's list \<Rightarrow> 'e + 's" where
  "move_all f s [] = Inr s"
| "move_all f s (t # ts) = (case f s t of Inl e \<Rightarrow> Inl e | Inr s' \<Rightarrow> move_all f s' ts)"

locale lifecycle =
  fixes arrows :: "'s \<Rightarrow> 's set"
    and terminal :: "'s \<Rightarrow> bool"
    and transition_to :: "'s \<Rightarrow> 's \<Rightarrow> 'e + 's"
  assumes terminal_iff: "terminal s \<longleftrightarrow> arrows s = {}"
    and transition_to_ok: "t \<in> arrows s \<Longrightarrow> transition_to s t = Inr t"
    and transition_to_error: "t \<notin> arrows s \<Longrightarrow> \<exists>e. transition_to s t = Inl e"
begin

definition arrow :: "'s \<Rightarrow> 's \<Rightarrow> bool" where
  "arrow s t \<longleftrightarrow> t \<in> arrows s"

lemma transition_to_Inr_iff: "transition_to s t = Inr u \<longleftrightarrow> t \<in> arrows s \<and> u = t"
  using transition_to_ok transition_to_error by (metis Inl_Inr_False Inr_inject)

lemma terminal_absorbing: "terminal s \<Longrightarrow> move_all transition_to s ts = Inr u \<Longrightarrow> ts = [] \<and> u = s"
  by (cases ts) (auto simp: terminal_iff transition_to_Inr_iff split: sum.splits)

lemma move_all_reaches: "move_all transition_to s ts = Inr u \<Longrightarrow> arrow\<^sup>*\<^sup>* s u"
proof (induction ts arbitrary: s)
  case (Cons t ts)
  then have "t \<in> arrows s" and "move_all transition_to t ts = Inr u"
    by (auto simp: transition_to_Inr_iff split: sum.splits)
  with Cons.IH show ?case
    by (metis arrow_def converse_rtranclp_into_rtranclp)
qed simp

lemma reaches_move_all: "arrow\<^sup>*\<^sup>* s u \<Longrightarrow> \<exists>ts. move_all transition_to s ts = Inr u"
proof (induction rule: converse_rtranclp_induct)
  case base
  show ?case by (rule exI [of _ "[]"]) simp
next
  case (step s t)
  then obtain ts where "move_all transition_to t ts = Inr u" by blast
  moreover from step(1) have "transition_to s t = Inr t"
    by (simp add: arrow_def transition_to_ok)
  ultimately have "move_all transition_to s (t # ts) = Inr u" by simp
  then show ?case by blast
qed

lemma move_all_closed:
  assumes "move_all transition_to s ts = Inr u" and "P s"
    and "\<And>s t. P s \<Longrightarrow> t \<in> arrows s \<Longrightarrow> P t"
  shows "P u"
  using move_all_reaches [OF assms(1)] assms(2,3)
  by (induction rule: rtranclp_induct) (auto simp: arrow_def)

end

interpretation run: lifecycle RUN_TRANSITIONS RunState_is_terminal RunState_transition_to
  by unfold_locales
    (auto simp: RunState_is_terminal_def RunState_transition_to_def RunState_can_transition_to_def)

interpretation work: lifecycle WORK_ITEM_TRANSITIONS WorkItemState_is_terminal
  WorkItemState_transition_to
  by unfold_locales
    (auto simp: WorkItemState_is_terminal_def WorkItemState_transition_to_def
      WorkItemState_can_transition_to_def)

subsection \<open>Properties\<close>

text \<open>The four ways in which a run is to end.\<close>

definition ended_states :: "RunState set" where
  "ended_states = {Run_SUCCEEDED, Run_PARTIALLY_SUCCEEDED, Run_FAILED, Run_CANCELLED}"

text \<open>Every unfinished run can still end: through running in any way, once cancelling as cancelled.\<close>

lemma run_ends_from_running:
  assumes "u \<in> {Run_SUCCEEDED, Run_PARTIALLY_SUCCEEDED, Run_FAILED, Run_CANCELLED}"
  shows "run.arrow\<^sup>*\<^sup>* Run_RUNNING u"
proof -
  have "run.arrow Run_RUNNING Run_CANCELLING" "run.arrow Run_CANCELLING Run_CANCELLED"
    by (simp_all add: run.arrow_def)
  moreover have "run.arrow Run_RUNNING u" if "u \<noteq> Run_CANCELLED"
    using assms that by (auto simp: run.arrow_def)
  ultimately show ?thesis by (metis converse_rtranclp_into_rtranclp rtranclp.rtrancl_refl)
qed

lemma run_ends:
  assumes u: "u \<in> {Run_SUCCEEDED, Run_PARTIALLY_SUCCEEDED, Run_FAILED, Run_CANCELLED}"
    and s: "s \<in> {Run_QUEUED, Run_RUNNING, Run_PAUSING, Run_PAUSED, Run_RESUMING}"
  shows "run.arrow\<^sup>*\<^sup>* s u"
proof -
  have "run.arrow Run_QUEUED Run_RUNNING" "run.arrow Run_PAUSING Run_PAUSED" "run.arrow Run_PAUSED Run_RESUMING"
    "run.arrow Run_RESUMING Run_RUNNING"
    by (simp_all add: run.arrow_def)
  then have "run.arrow\<^sup>*\<^sup>* s Run_RUNNING"
    using s by (elim insertE emptyE) (auto intro: converse_rtranclp_into_rtranclp)
  then show ?thesis using run_ends_from_running [OF u] by simp
qed

lemma cancelling_ends:
  "move_all RunState_transition_to Run_CANCELLING ts = Inr u \<Longrightarrow> u \<in> {Run_CANCELLING, Run_CANCELLED}"
  by (rule run.move_all_closed [where P = "\<lambda>s. s \<in> {Run_CANCELLING, Run_CANCELLED}"]) auto

text \<open>
  C35.  The run lifecycle is never stuck and ends for good.  Exactly \<open>SUCCEEDED\<close>, \<open>PARTIALLY_SUCCEEDED\<close>, \<open>FAILED\<close> and
  \<open>CANCELLED\<close> are terminal; from every other state each of the four is reached by some sequence of accepted
  \<^verbatim>\<open>transition_to\<close> calls, except that a cancelling run can only end as cancelled; and from a terminal state
  every sequence of at least one call is refused.
\<close>

theorem run_lifecycle_live_and_final:
  "(RunState_is_terminal s \<longleftrightarrow> s \<in> ended_states) \<and>
    (u \<in> ended_states \<longrightarrow> ((\<exists>ts. move_all RunState_transition_to s ts = Inr u) \<longleftrightarrow>
       (if s \<in> ended_states then u = s else s \<noteq> Run_CANCELLING \<or> u = Run_CANCELLED))) \<and>
    (s \<in> ended_states \<and> ts \<noteq> [] \<longrightarrow> (\<exists>e. move_all RunState_transition_to s ts = Inl e))"
proof -
  have terminal: "RunState_is_terminal s \<longleftrightarrow> s \<in> ended_states"
    unfolding ended_states_def by (cases s) (simp_all add: RunState_is_terminal_def)
  have stays: "ts = [] \<and> v = s" if "s \<in> ended_states" "move_all RunState_transition_to s ts = Inr v" for ts v
    using run.terminal_absorbing that terminal by blast
  have "(\<exists>ts. move_all RunState_transition_to s ts = Inr u) \<longleftrightarrow>
      (if s \<in> ended_states then u = s else s \<noteq> Run_CANCELLING \<or> u = Run_CANCELLED)" if u: "u \<in> ended_states"
  proof (cases "s \<in> ended_states")
    case True
    then show ?thesis using stays by (auto intro: exI [of _ "[]"])
  next
    case False
    then consider "s = Run_CANCELLING" | "s \<in> {Run_QUEUED, Run_RUNNING, Run_PAUSING, Run_PAUSED, Run_RESUMING}"
      unfolding ended_states_def by (cases s) auto
    then show ?thesis
    proof cases
      case 1
      have "\<exists>ts. move_all RunState_transition_to Run_CANCELLING ts = Inr Run_CANCELLED"
        by (rule exI [of _ "[Run_CANCELLED]"]) code_simp
      then show ?thesis using 1 False u cancelling_ends by (auto simp: ended_states_def)
    next
      case 2
      then show ?thesis
        using False run.reaches_move_all [OF run_ends [OF u [unfolded ended_states_def] 2]] by auto
    qed
  qed
  moreover have "\<exists>e. move_all RunState_transition_to s ts = Inl e" if "s \<in> ended_states" "ts \<noteq> []"
    using stays [OF that(1), of ts] that(2) by (cases "move_all RunState_transition_to s ts") auto
  ultimately show ?thesis using terminal by blast
qed

theorem run_lifecycle_live_and_final_witness:
  "(\<exists>ts. move_all RunState_transition_to Run_PAUSED ts = Inr Run_PARTIALLY_SUCCEEDED) \<and>
   (\<exists>e. move_all RunState_transition_to Run_SUCCEEDED [Run_RUNNING] = Inl e)"
  using run_lifecycle_live_and_final [where s = Run_PAUSED and u = Run_PARTIALLY_SUCCEEDED]
    run_lifecycle_live_and_final [where s = Run_SUCCEEDED and ts = "[Run_RUNNING]"]
  by (simp add: ended_states_def)

text \<open>The attempts in progress of a work item: one once leased, none before or while waiting.\<close>

fun open_attempts :: "WorkItemState \<Rightarrow> int" where
  "open_attempts Work_PENDING = 0"
| "open_attempts Work_RETRY_WAIT = 0"
| "open_attempts _ = 1"

lemma work_attempt_balance:
  "move_all WorkItemState_transition_to s ts = Inr u \<Longrightarrow>
   open_attempts s + int (count_list ts Work_LEASED)
     = int (count_list ts Work_RETRY_WAIT) + open_attempts u"
proof (induction ts arbitrary: s)
  case (Cons t ts)
  then have arrow: "t \<in> WORK_ITEM_TRANSITIONS s"
    and "move_all WorkItemState_transition_to t ts = Inr u"
    by (auto simp: work.transition_to_Inr_iff split: sum.splits)
  with Cons.IH have "open_attempts t + int (count_list ts Work_LEASED)
      = int (count_list ts Work_RETRY_WAIT) + open_attempts u"
    by blast
  with arrow show ?case by (cases s) auto
qed simp

lemma work_started_attempts:
  "move_all WorkItemState_transition_to s ts = Inr u \<Longrightarrow>
   int (count_list ts Work_LEASED) + (if s = Work_LEASED then 1 else 0)
     = int (count_list ts Work_RUNNING) + (if u = Work_LEASED then 1 else 0)"
proof (induction ts arbitrary: s)
  case (Cons t ts)
  then have arrow: "t \<in> WORK_ITEM_TRANSITIONS s"
    and "move_all WorkItemState_transition_to t ts = Inr u"
    by (auto simp: work.transition_to_Inr_iff split: sum.splits)
  with Cons.IH have "int (count_list ts Work_LEASED) + (if t = Work_LEASED then 1 else 0)
     = int (count_list ts Work_RUNNING) + (if u = Work_LEASED then 1 else 0)"
    by blast
  with arrow show ?case by (cases s) auto
qed simp

text \<open>
  A work item that goes from pending to a terminal state was leased exactly once more than
  it waited for a retry, and every lease was started: no attempt is skipped and none runs
  without its own lease.
\<close>

theorem work_item_attempts_accounted:
  assumes "move_all WorkItemState_transition_to Work_PENDING ts = Inr u"
    and "WorkItemState_is_terminal u"
  shows "count_list ts Work_LEASED = Suc (count_list ts Work_RETRY_WAIT) \<and>
    count_list ts Work_RUNNING = count_list ts Work_LEASED"
proof -
  from assms(2) have "open_attempts u = 1" and "u \<noteq> Work_LEASED"
    by (cases u; simp add: WorkItemState_is_terminal_def)+
  with work_attempt_balance [OF assms(1)] work_started_attempts [OF assms(1)] show ?thesis
    by simp
qed

theorem work_item_attempts_accounted_witness:
  "count_list [Work_LEASED, Work_RUNNING, Work_RETRY_WAIT, Work_LEASED, Work_RUNNING,
     Work_SUCCEEDED] Work_LEASED = Suc (count_list [Work_LEASED, Work_RUNNING, Work_RETRY_WAIT,
     Work_LEASED, Work_RUNNING, Work_SUCCEEDED] Work_RETRY_WAIT)"
  using work_item_attempts_accounted
    [of "[Work_LEASED, Work_RUNNING, Work_RETRY_WAIT, Work_LEASED, Work_RUNNING, Work_SUCCEEDED]"
      Work_SUCCEEDED]
  by (simp add: WorkItemState_transition_to_def WorkItemState_can_transition_to_def
      WorkItemState_is_terminal_def)

end
