(* ===== verification/Text_Forms.thy ===== *)
theory Text_Forms
  imports Prelude
begin

text \<open>
  The text forms the sources use: decimal numerals (\<^verbatim>\<open>str(n)\<close>, \<^verbatim>\<open>int(text)\<close>, \<^verbatim>\<open>f"{n:06d}"\<close>),
  the regular expressions made of separated segments, and the printable-ASCII checks.  A regular
  expression \<^verbatim>\<open>H B* (S B+)*\<close> with disjoint body and separator classes is its deterministic
  automaton (\<open>seg_start\<close>, \<open>seg_tail\<close>); \<open>seg_start_iff\<close> gives back the reading as segments.
\<close>

datatype py_error = TypeError string | ValueError string

subsection \<open>Character classes\<close>

abbreviation code :: "char \<Rightarrow> nat" where
  "code c \<equiv> of_char c"

definition is_digit :: "char \<Rightarrow> bool" where
  "is_digit c \<longleftrightarrow> 48 \<le> code c \<and> code c \<le> 57"

definition is_lower :: "char \<Rightarrow> bool" where
  "is_lower c \<longleftrightarrow> 97 \<le> code c \<and> code c \<le> 122"

definition is_upper :: "char \<Rightarrow> bool" where
  "is_upper c \<longleftrightarrow> 65 \<le> code c \<and> code c \<le> 90"

definition is_ascii :: "char \<Rightarrow> bool" where
  "is_ascii c \<longleftrightarrow> code c < 128"

definition is_printable_ascii :: "char \<Rightarrow> bool" where
  "is_printable_ascii c \<longleftrightarrow> 32 \<le> code c \<and> code c \<le> 126"

subsection \<open>Segmented patterns\<close>

fun seg_tail :: "(char \<Rightarrow> bool) \<Rightarrow> (char \<Rightarrow> bool) \<Rightarrow> string \<Rightarrow> bool"
  and seg_start :: "(char \<Rightarrow> bool) \<Rightarrow> (char \<Rightarrow> bool) \<Rightarrow> string \<Rightarrow> bool" where
  "seg_tail body sep [] = True"
| "seg_tail body sep (c # cs) =
     (if body c then seg_tail body sep cs else sep c \<and> seg_start body sep cs)"
| "seg_start body sep [] = False"
| "seg_start body sep (c # cs) = (body c \<and> seg_tail body sep cs)"

fun seg_headed :: "(char \<Rightarrow> bool) \<Rightarrow> (char \<Rightarrow> bool) \<Rightarrow> (char \<Rightarrow> bool) \<Rightarrow> string \<Rightarrow> bool" where
  "seg_headed head body sep [] = False"
| "seg_headed head body sep (c # cs) = (head c \<and> seg_tail body sep cs)"

text \<open>A match is a nonempty body segment followed by separated nonempty body segments.\<close>

inductive segments :: "(char \<Rightarrow> bool) \<Rightarrow> (char \<Rightarrow> bool) \<Rightarrow> string \<Rightarrow> bool"
  for body sep where
  one: "s \<noteq> [] \<Longrightarrow> list_all body s \<Longrightarrow> segments body sep s"
| more: "s \<noteq> [] \<Longrightarrow> list_all body s \<Longrightarrow> sep c \<Longrightarrow> segments body sep t \<Longrightarrow>
    segments body sep (s @ c # t)"

lemma seg_tail_append_body:
  "list_all body s \<Longrightarrow> seg_tail body sep (s @ t) = seg_tail body sep t"
  by (induction s) auto

lemma segments_seg_start:
  assumes disjoint: "\<And>c. body c \<Longrightarrow> \<not> sep c"
  shows "segments body sep s \<Longrightarrow> seg_start body sep s"
proof (induction rule: segments.induct)
  case (one s)
  then show ?case
    using seg_tail_append_body [of body "tl s" sep "[]"] by (cases s) auto
next
  case (more s c t)
  then show ?case
    using seg_tail_append_body [of body "tl s" sep "c # t"] disjoint [of c] by (cases s) auto
qed

lemma seg_start_segments:
  "(seg_tail body sep s \<longrightarrow> s = [] \<or> (\<forall>p. p \<noteq> [] \<and> list_all body p \<longrightarrow> segments body sep (p @ s)))
   \<and> (seg_start body sep s \<longrightarrow> segments body sep s)"
proof (induction s)
  case Nil
  show ?case by simp
next
  case (Cons c cs)
  have tail: "segments body sep (p @ c # cs)"
    if t: "seg_tail body sep (c # cs)" and p: "p \<noteq> []" "list_all body p" for p
  proof (cases "body c")
    case True
    with p have pc: "p @ [c] \<noteq> []" "list_all body (p @ [c])" by simp_all
    show ?thesis
    proof (cases "cs = []")
      case True
      with pc show ?thesis by (simp add: segments.one)
    next
      case False
      with t True Cons have "\<forall>p. p \<noteq> [] \<and> list_all body p \<longrightarrow> segments body sep (p @ cs)" by simp
      with pc have "segments body sep ((p @ [c]) @ cs)" by blast
      then show ?thesis by simp
    qed
  next
    case False
    with t p Cons show ?thesis by (simp add: segments.more)
  qed
  have "segments body sep (c # cs)" if start: "seg_start body sep (c # cs)"
  proof (cases "cs = []")
    case True
    with start show ?thesis by (simp add: segments.one)
  next
    case False
    from start have "[c] \<noteq> []" "list_all body [c]" by simp_all
    moreover from False start Cons
    have "\<forall>p. p \<noteq> [] \<and> list_all body p \<longrightarrow> segments body sep (p @ cs)" by simp
    ultimately have "segments body sep ([c] @ cs)" by blast
    then show ?thesis by simp
  qed
  with tail show ?case by blast
qed

lemma seg_start_iff:
  assumes "\<And>c. body c \<Longrightarrow> \<not> sep c"
  shows "seg_start body sep s \<longleftrightarrow> segments body sep s"
proof
  show "segments body sep s" if "seg_start body sep s"
    using seg_start_segments [of body sep s] that by simp
  show "seg_start body sep s" if "segments body sep s"
    using assms that by (rule segments_seg_start)
qed

subsection \<open>Decimal numerals\<close>

definition digit_char :: "nat \<Rightarrow> char" where
  "digit_char d = char_of (48 + d)"

definition digit_value :: "char \<Rightarrow> nat" where
  "digit_value c = code c - 48"

fun nat_str :: "nat \<Rightarrow> string" where
  "nat_str n = (if n < 10 then [digit_char n] else nat_str (n div 10) @ [digit_char (n mod 10)])"

declare nat_str.simps [simp del]

definition nat_of_text :: "string \<Rightarrow> nat" where
  "nat_of_text s = foldl (\<lambda>acc c. 10 * acc + digit_value c) 0 s"

text \<open>\<^verbatim>\<open>f"{n:0wd}"\<close>: at least \<open>w\<close> digits, padded with zeros on the left.\<close>

definition zero_padded :: "nat \<Rightarrow> nat \<Rightarrow> string" where
  "zero_padded w n = replicate (w - length (nat_str n)) (digit_char 0) @ nat_str n"

lemma code_digit_char: "d < 10 \<Longrightarrow> code (digit_char d) = 48 + d"
  by (simp add: digit_char_def of_char_of)

lemma digit_value_char [simp]: "d < 10 \<Longrightarrow> digit_value (digit_char d) = d"
  by (simp add: digit_value_def code_digit_char)

lemma is_digit_char [simp]: "d < 10 \<Longrightarrow> is_digit (digit_char d)"
  by (simp add: is_digit_def code_digit_char)

lemma digit_value_less: "is_digit c \<Longrightarrow> digit_value c < 10"
  unfolding is_digit_def digit_value_def by linarith

lemma digit_char_value [simp]: "is_digit c \<Longrightarrow> digit_char (digit_value c) = c"
  by (simp add: is_digit_def digit_value_def digit_char_def)

lemma nat_of_text_snoc: "nat_of_text (s @ [c]) = 10 * nat_of_text s + digit_value c"
  by (simp add: nat_of_text_def)

lemma nat_of_text_Nil [simp]: "nat_of_text [] = 0"
  by (simp add: nat_of_text_def)

lemma nat_str_digits: "list_all is_digit (nat_str n)"
proof (induction n rule: nat_str.induct)
  case (1 n)
  then show ?case by (cases "n < 10") (simp_all add: nat_str.simps [of n])
qed

lemma nat_str_nonempty [simp]: "nat_str n \<noteq> []"
  by (simp add: nat_str.simps [of n])

lemma nat_of_text_nat_str [simp]: "nat_of_text (nat_str n) = n"
proof (induction n rule: nat_str.induct)
  case (1 n)
  show ?case
  proof (cases "n < 10")
    case True
    then show ?thesis
      using nat_of_text_snoc [of "[]" "digit_char n"] by (simp add: nat_str.simps [of n])
  next
    case False
    with 1 show ?thesis by (simp add: nat_str.simps [of n] nat_of_text_snoc)
  qed
qed

lemma hd_nat_str: "0 < n \<Longrightarrow> hd (nat_str n) \<noteq> digit_char 0"
proof (induction n rule: nat_str.induct)
  case (1 n)
  show ?case
  proof (cases "n < 10")
    case True
    with 1 have "code (digit_char n) \<noteq> code (digit_char 0)" by (simp add: code_digit_char)
    with True show ?thesis by (auto simp: nat_str.simps [of n])
  next
    case False
    then have "0 < n div 10" by (simp add: div_greater_zero_iff)
    with 1 False show ?thesis by (simp add: nat_str.simps [of n])
  qed
qed

text \<open>A numeral without a leading zero is the one \<^verbatim>\<open>str\<close> prints.\<close>

lemma nat_of_text_pos:
  "list_all is_digit s \<Longrightarrow> s \<noteq> [] \<Longrightarrow> hd s \<noteq> digit_char 0 \<Longrightarrow> 0 < nat_of_text s"
proof (induction s rule: rev_induct)
  case (snoc c s)
  show ?case
  proof (cases "s = []")
    case True
    with snoc have "is_digit c" "c \<noteq> digit_char 0" by auto
    then have "digit_value c \<noteq> 0" by (metis digit_char_value)
    with True show ?thesis using nat_of_text_snoc [of "[]" c] by simp
  next
    case False
    with snoc show ?thesis by (simp add: nat_of_text_snoc)
  qed
qed simp

lemma nat_str_nat_of_text:
  "list_all is_digit s \<Longrightarrow> s \<noteq> [] \<Longrightarrow> hd s \<noteq> digit_char 0 \<or> length s = 1 \<Longrightarrow>
   nat_str (nat_of_text s) = s"
proof (induction s rule: rev_induct)
  case (snoc c s)
  then have c: "is_digit c" by simp
  show ?case
  proof (cases "s = []")
    case True
    with c show ?thesis
      using digit_value_less [OF c] nat_of_text_snoc [of "[]" c]
      by (simp add: nat_str.simps [of "digit_value c"])
  next
    case False
    with snoc have s: "list_all is_digit s" "hd s \<noteq> digit_char 0" by auto
    with False have "0 < nat_of_text s" by (simp add: nat_of_text_pos)
    moreover have "nat_str (nat_of_text s) = s" using snoc s False by simp
    ultimately show ?thesis
      using digit_value_less [OF c] c
      by (simp add: nat_of_text_snoc nat_str.simps [of "10 * nat_of_text s + digit_value c"])
  qed
qed simp

lemma nat_of_text_zeros [simp]:
  "nat_of_text (replicate k (digit_char 0) @ s) = nat_of_text s"
proof (induction s rule: rev_induct)
  case Nil
  then show ?case
    by (induction k) (simp_all add: nat_of_text_snoc flip: replicate_append_same)
next
  case (snoc c s)
  then show ?case using nat_of_text_snoc [of "replicate k (digit_char 0) @ s" c]
    by (simp add: nat_of_text_snoc)
qed

lemma nat_of_text_zero_padded [simp]: "nat_of_text (zero_padded w n) = n"
  by (simp add: zero_padded_def)

lemma zero_padded_digits: "list_all is_digit (zero_padded w n)"
  using is_digit_char [of 0] nat_str_digits [of n] by (auto simp: zero_padded_def list_all_iff)

lemma length_nat_str_le: "n < 10 ^ w \<Longrightarrow> 0 < w \<Longrightarrow> length (nat_str n) \<le> w"
proof (induction n arbitrary: w rule: nat_str.induct)
  case (1 n)
  show ?case
  proof (cases "n < 10")
    case True
    with 1 show ?thesis by (simp add: nat_str.simps [of n])
  next
    case False
    with "1.prems" have "w \<noteq> 1" by auto
    with "1.prems" obtain v where v: "w = Suc v" "0 < v"
      by (cases w) auto
    with "1.prems" have "n div 10 < 10 ^ v" by (simp add: less_mult_imp_div_less mult.commute)
    with 1 False v have "length (nat_str (n div 10)) \<le> v" by simp
    with False v show ?thesis by (simp add: nat_str.simps [of n])
  qed
qed

lemma length_zero_padded: "n < 10 ^ w \<Longrightarrow> 0 < w \<Longrightarrow> length (zero_padded w n) = w"
  using length_nat_str_le [of n w] by (simp add: zero_padded_def)

lemma nat_of_text_less: "list_all is_digit s \<Longrightarrow> nat_of_text s < 10 ^ length s"
proof (induction s rule: rev_induct)
  case (snoc c s)
  then have "nat_of_text s < 10 ^ length s" and "digit_value c < 10"
    by (auto intro: digit_value_less)
  then show ?case by (simp add: nat_of_text_snoc)
qed simp

lemma nat_of_text_inj:
  "length s = length t \<Longrightarrow> list_all is_digit s \<Longrightarrow> list_all is_digit t \<Longrightarrow>
   nat_of_text s = nat_of_text t \<Longrightarrow> s = t"
proof (induction s arbitrary: t rule: rev_induct)
  case (snoc c s)
  then obtain d t' where t: "t = t' @ [d]" by (cases t rule: rev_cases) auto
  with snoc.prems have digits: "digit_value c < 10" "digit_value d < 10"
    by (auto intro: digit_value_less)
  from snoc.prems t
  have eq: "10 * nat_of_text s + digit_value c = 10 * nat_of_text t' + digit_value d"
    by (simp add: nat_of_text_snoc)
  with digits have same: "nat_of_text s = nat_of_text t'" by linarith
  with eq have "digit_value c = digit_value d" by simp
  with same snoc t show ?case
    by (auto dest: arg_cong [of _ _ digit_char])
qed simp

lemma zero_padded_nat_of_text:
  assumes "list_all is_digit s" and "s \<noteq> []"
  shows "zero_padded (length s) (nat_of_text s) = s"
proof (rule nat_of_text_inj)
  show "length (zero_padded (length s) (nat_of_text s)) = length s"
    using assms by (simp add: length_zero_padded nat_of_text_less)
qed (use assms zero_padded_digits in auto)

lemma digit_char_0: "digit_char 0 = CHR ''0''"
  by code_simp

lemma foldl_digits:
  "foldl (\<lambda>acc c. 10 * acc + digit_value c) a s = a * 10 ^ length s + nat_of_text s"
proof (induction s arbitrary: a)
  case (Cons c s)
  show ?case
    using Cons.IH [of "10 * a + digit_value c"] Cons.IH [of "digit_value c"]
    by (simp add: nat_of_text_def algebra_simps)
qed simp

lemma nat_of_text_Cons: "nat_of_text (c # s) = digit_value c * 10 ^ length s + nat_of_text s"
  using foldl_digits [of "digit_value c" s] by (simp add: nat_of_text_def)

text \<open>Equally long numerals compare as texts the way their values do.\<close>

lemma nat_of_text_less_imp:
  assumes "length s = length t" and "list_all is_digit s" and "list_all is_digit t"
    and "nat_of_text s < nat_of_text t"
  shows "s < t"
  using assms
proof (induction s t rule: list_induct2)
  case (Cons c s d t)
  show ?case
  proof (cases "c = d")
    case True
    with Cons show ?thesis by (simp add: nat_of_text_Cons)
  next
    case False
    have "\<not> digit_value d < digit_value c"
    proof
      assume "digit_value d < digit_value c"
      then have "(digit_value d + 1) * 10 ^ length t \<le> digit_value c * 10 ^ length t"
        by (intro mult_right_mono) auto
      moreover have "nat_of_text t < 10 ^ length t"
        using Cons.prems by (simp add: nat_of_text_less)
      ultimately show False
        using Cons.prems(3) Cons.hyps by (simp add: nat_of_text_Cons)
    qed
    moreover have "digit_value c \<noteq> digit_value d"
      using False Cons.prems(1,2) by (metis digit_char_value list.pred_inject(2))
    ultimately have "c < d"
      using Cons.prems(1,2) by (auto simp: less_char_def digit_value_def is_digit_def)
    then show ?thesis by simp
  qed
qed simp

lemma zero_padded_less:
  assumes "m < n" and "n < 10 ^ w" and "0 < w"
  shows "zero_padded w m < zero_padded w n"
  using assms by (intro nat_of_text_less_imp) (simp_all add: length_zero_padded zero_padded_digits)

subsection \<open>Hexadecimal digits\<close>

definition hex_char :: "nat \<Rightarrow> char" where
  "hex_char n = (if n < 10 then char_of (48 + n) else char_of (87 + n))"

lemma hex_char_cases:
  assumes "n < 16"
  shows "hex_char n \<in> set ''0123456789abcdef''"
proof -
  have "list_all (\<lambda>n. hex_char n \<in> set ''0123456789abcdef'') [0..<16]" by code_simp
  with assms show ?thesis by (simp only: list_all_iff set_upt) simp
qed

lemma hex_char_inj: "m < 16 \<Longrightarrow> n < 16 \<Longrightarrow> hex_char m = hex_char n \<longleftrightarrow> m = n"
  by (auto simp: hex_char_def split: if_splits)

end
