(* ===== verification/Identifiers.thy ===== *)
theory Identifiers
  imports Text_Forms
begin

text \<open>
  Canonical identifiers and one-based sequence values (\<^verbatim>\<open>domain/models/identifiers.py\<close>).  Text that the
  source accepts only when it is ASCII is a \<open>string\<close>; \<^verbatim>\<open>bytes\<close> are the same 8-bit characters, so
  \<^verbatim>\<open>decode("ascii")\<close> is a check that every byte is below 128.
\<close>

type_synonym bytes = "char list"

definition decode_ascii :: "bytes \<Rightarrow> string \<Rightarrow> (py_error, string) result" where
  "decode_ascii value subject =
     (if list_all is_ascii value then Inr value
      else Inl (ValueError (subject @ '' encoding must contain only ASCII'')))"

subsection \<open>Prefixed identifiers\<close>

datatype id_kind =
    PipelineId | NodeId | ConnectorId | RunId | WorkItemId | ArtifactId | ConflictId
  | RepairPlanId | RepairActionId | TargetVerificationId

fun id_prefix :: "id_kind \<Rightarrow> string" where
  "id_prefix PipelineId = ''pip''"
| "id_prefix NodeId = ''nod''"
| "id_prefix ConnectorId = ''con''"
| "id_prefix RunId = ''run''"
| "id_prefix WorkItemId = ''wrk''"
| "id_prefix ArtifactId = ''art''"
| "id_prefix ConflictId = ''cnf''"
| "id_prefix RepairPlanId = ''rpl''"
| "id_prefix RepairActionId = ''rac''"
| "id_prefix TargetVerificationId = ''tgv''"

datatype prefixed_id = Identifier (id_kind_of: id_kind) (id_value: string)

definition MIN_PAYLOAD_LENGTH :: nat where "MIN_PAYLOAD_LENGTH = 3"
definition MAX_PAYLOAD_LENGTH :: nat where "MAX_PAYLOAD_LENGTH = 64"
definition MAX_SEQUENCE_NUMBER :: int where "MAX_SEQUENCE_NUMBER = 2147483647"

definition payload_pattern :: "string \<Rightarrow> bool" where
  "payload_pattern = seg_start (\<lambda>c. is_lower c \<or> is_digit c) (\<lambda>c. c = CHR ''-'')"

definition validate_identifier :: "string \<Rightarrow> string \<Rightarrow> (py_error, string) result" where
  "validate_identifier prefix value =
     (if value = [] then Inl (ValueError ''identifier must not be blank'')
      else if \<not> list_all is_ascii value
        then Inl (ValueError ''identifier must contain only ASCII'')
      else let marker = prefix @ ''_'' in
        if take (length marker) value \<noteq> marker
          then Inl (ValueError (''identifier must use the '' @ prefix @ ''_ prefix''))
        else let payload = drop (length marker) value in
          if \<not> (MIN_PAYLOAD_LENGTH \<le> length payload \<and> length payload \<le> MAX_PAYLOAD_LENGTH)
            then Inl (ValueError ''identifier payload must be between 3 and 64 characters'')
          else if \<not> payload_pattern payload
            then Inl (ValueError ''identifier payload must be canonical lowercase ASCII'')
          else Inr value)"

definition identifier_parse :: "id_kind \<Rightarrow> string \<Rightarrow> (py_error, prefixed_id) result" where
  "identifier_parse k value =
     (case validate_identifier (id_prefix k) value of
        Inl e \<Rightarrow> Inl e
      | Inr canonical \<Rightarrow> Inr (Identifier k canonical))"

definition identifier_from_bytes :: "id_kind \<Rightarrow> bytes \<Rightarrow> (py_error, prefixed_id) result" where
  "identifier_from_bytes k value =
     (case decode_ascii value ''identifier'' of
        Inl e \<Rightarrow> Inl e
      | Inr t \<Rightarrow> identifier_parse k t)"

definition identifier_to_bytes :: "prefixed_id \<Rightarrow> bytes" where
  "identifier_to_bytes i = id_value i"

lemma validate_identifier_Inr:
  "validate_identifier prefix value = Inr v \<longleftrightarrow>
     v = value \<and> list_all is_ascii value \<and>
     (\<exists>payload. value = prefix @ ''_'' @ payload \<and>
        MIN_PAYLOAD_LENGTH \<le> length payload \<and> length payload \<le> MAX_PAYLOAD_LENGTH \<and>
        payload_pattern payload)"
  (is "?accepts \<longleftrightarrow> ?form")
proof
  let ?m = "prefix @ ''_''"
  assume ?accepts
  then have "take (length ?m) value = ?m" and rest: "v = value" "list_all is_ascii value"
    "MIN_PAYLOAD_LENGTH \<le> length (drop (length ?m) value)"
    "length (drop (length ?m) value) \<le> MAX_PAYLOAD_LENGTH"
    "payload_pattern (drop (length ?m) value)"
    by (auto simp: validate_identifier_def Let_def split: if_splits)
  then have "value = prefix @ ''_'' @ drop (length ?m) value"
    by (metis append_assoc append_take_drop_id)
  with rest show ?form by blast
qed (auto simp: validate_identifier_def)

lemma validate_identifier_value: "validate_identifier prefix value = Inr v \<Longrightarrow> v = value"
  by (simp add: validate_identifier_Inr)

lemma id_prefix_length: "length (id_prefix k) = 3"
  by (cases k) simp_all

lemma id_prefix_inj: "id_prefix k = id_prefix k' \<longleftrightarrow> k = k'"
  by (cases k; cases k'; simp)

lemma identifier_parse_Inr:
  "identifier_parse k value = Inr i \<longleftrightarrow>
     i = Identifier k value \<and> validate_identifier (id_prefix k) value = Inr value"
  by (auto simp: identifier_parse_def dest: validate_identifier_value split: sum.splits)

lemma validate_identifier_ascii:
  "validate_identifier prefix value = Inr v \<Longrightarrow> list_all is_ascii value"
  by (simp add: validate_identifier_Inr)

text \<open>
  Identifiers survive their byte form, and the byte form fixes the kind: the bytes of a
  parsed identifier decode to the same identifier, and no byte string decodes under two
  different identifier kinds.
\<close>

theorem identifier_bytes_roundtrip:
  "(identifier_parse k value = Inr i \<longrightarrow>
      identifier_from_bytes k (identifier_to_bytes i) = Inr i \<and> identifier_to_bytes i = value) \<and>
   (identifier_from_bytes k b = Inr i \<and> identifier_from_bytes k' b = Inr i' \<longrightarrow> k = k')"
proof (intro conjI impI)
  assume "identifier_parse k value = Inr i"
  then show "identifier_from_bytes k (identifier_to_bytes i) = Inr i"
    and "identifier_to_bytes i = value"
    by (auto simp: identifier_parse_Inr identifier_from_bytes_def identifier_to_bytes_def
        decode_ascii_def validate_identifier_ascii)
next
  assume "identifier_from_bytes k b = Inr i \<and> identifier_from_bytes k' b = Inr i'"
  then have "validate_identifier (id_prefix k) b = Inr b"
    and "validate_identifier (id_prefix k') b = Inr b"
    by (auto simp: identifier_from_bytes_def identifier_parse_Inr decode_ascii_def
        split: if_splits)
  then obtain p p' where "b = id_prefix k @ ''_'' @ p" "b = id_prefix k' @ ''_'' @ p'"
    unfolding validate_identifier_Inr by blast
  then have "id_prefix k = id_prefix k'"
    using append_eq_append_conv [of "id_prefix k" "id_prefix k'"] by (simp add: id_prefix_length)
  then show "k = k'" by (simp add: id_prefix_inj)
qed

theorem identifier_bytes_roundtrip_witness:
  "identifier_parse RunId ''run_demo-1'' = Inr (Identifier RunId ''run_demo-1'') \<and>
   identifier_from_bytes RunId (identifier_to_bytes (Identifier RunId ''run_demo-1''))
     = Inr (Identifier RunId ''run_demo-1'')"
proof -
  have "identifier_parse RunId ''run_demo-1'' = Inr (Identifier RunId ''run_demo-1'')"
    by code_simp
  with identifier_bytes_roundtrip [of RunId "''run_demo-1''" "Identifier RunId ''run_demo-1''"]
  show ?thesis by blast
qed

subsection \<open>Positive sequences\<close>

definition validate_sequence_number :: "int \<Rightarrow> (py_error, int) result" where
  "validate_sequence_number value =
     (if \<not> (1 \<le> value \<and> value \<le> MAX_SEQUENCE_NUMBER)
      then Inl (ValueError ''sequence number must be between 1 and 2147483647'')
      else Inr value)"

fun sequence_pattern :: "string \<Rightarrow> bool" where
  "sequence_pattern [] = False"
| "sequence_pattern (c # cs) = (is_digit c \<and> c \<noteq> CHR ''0'' \<and> list_all is_digit cs)"

definition parse_sequence_text :: "string \<Rightarrow> (py_error, int) result" where
  "parse_sequence_text value =
     (if \<not> sequence_pattern value
      then Inl (ValueError ''sequence representation must be canonical positive decimal text'')
      else Inr (int (nat_of_text value)))"

definition sequence_parse :: "string \<Rightarrow> (py_error, int) result" where
  "sequence_parse value =
     (case parse_sequence_text value of
        Inl e \<Rightarrow> Inl e
      | Inr n \<Rightarrow> validate_sequence_number n)"

definition sequence_str :: "int \<Rightarrow> string" where
  "sequence_str n = nat_str (nat n)"

definition sequence_from_bytes :: "bytes \<Rightarrow> (py_error, int) result" where
  "sequence_from_bytes value =
     (case decode_ascii value ''sequence'' of
        Inl e \<Rightarrow> Inl e
      | Inr t \<Rightarrow> sequence_parse t)"

lemma sequence_pattern_iff:
  "sequence_pattern s \<longleftrightarrow> s \<noteq> [] \<and> list_all is_digit s \<and> hd s \<noteq> digit_char 0"
  by (cases s) (auto simp: digit_char_0)

lemma sequence_pattern_nat_str: "0 < n \<Longrightarrow> sequence_pattern (nat_str n)"
  by (simp add: sequence_pattern_iff nat_str_digits hd_nat_str)

lemma digits_ascii: "list_all is_digit s \<Longrightarrow> list_all is_ascii s"
  by (auto simp: list_all_iff is_digit_def is_ascii_def intro: le_less_trans)

text \<open>
  Sequence values and their decimal text determine each other: every number in range is
  read back from its text, and any text the parser accepts is exactly the text of the number it
  returns, which is in range (so leading zeros, signs and blanks are all refused).
\<close>

theorem sequence_text_roundtrip:
  "(1 \<le> n \<and> n \<le> MAX_SEQUENCE_NUMBER \<longrightarrow>
      sequence_parse (sequence_str n) = Inr n \<and> sequence_from_bytes (sequence_str n) = Inr n) \<and>
   (sequence_parse t = Inr m \<longrightarrow> sequence_str m = t \<and> 1 \<le> m \<and> m \<le> MAX_SEQUENCE_NUMBER)"
proof (intro conjI impI)
  assume n: "1 \<le> n \<and> n \<le> MAX_SEQUENCE_NUMBER"
  then have pat: "sequence_pattern (nat_str (nat n))" by (simp add: sequence_pattern_nat_str)
  with n show parse: "sequence_parse (sequence_str n) = Inr n"
    by (simp add: sequence_parse_def parse_sequence_text_def sequence_str_def
        validate_sequence_number_def)
  with pat show "sequence_from_bytes (sequence_str n) = Inr n"
    by (simp add: sequence_from_bytes_def decode_ascii_def sequence_str_def digits_ascii
        sequence_pattern_iff)
next
  assume "sequence_parse t = Inr m"
  then have t: "sequence_pattern t" "m = int (nat_of_text t)" "1 \<le> m" "m \<le> MAX_SEQUENCE_NUMBER"
    by (auto simp: sequence_parse_def parse_sequence_text_def validate_sequence_number_def
        split: if_splits sum.splits)
  then show "sequence_str m = t" "1 \<le> m" "m \<le> MAX_SEQUENCE_NUMBER"
    using nat_str_nat_of_text [of t] by (simp_all add: sequence_str_def sequence_pattern_iff)
qed

theorem sequence_text_roundtrip_witness:
  "sequence_parse ''42'' = Inr 42 \<and> sequence_str 42 = ''42'' \<and> sequence_from_bytes ''42'' = Inr 42"
proof -
  have parse: "sequence_parse ''42'' = Inr 42" by code_simp
  then have str: "sequence_str 42 = ''42''" using sequence_text_roundtrip [of 42 "''42''" 42] by simp
  have "sequence_from_bytes (sequence_str 42) = Inr 42"
    using sequence_text_roundtrip [of 42 "''42''" 42] by (simp add: MAX_SEQUENCE_NUMBER_def)
  with parse str show ?thesis by simp
qed

end
