(* ===== verification/Temporal.thy ===== *)
theory Temporal
  imports Identifiers
begin

text \<open>
  Bounded temporal values (\<^verbatim>\<open>domain/models/temporal.py\<close>).  A \<^verbatim>\<open>Duration\<close> is its number of
  microseconds.  A \<^verbatim>\<open>UtcTimestamp\<close> is an instant of the proleptic Gregorian years 1 to 9999; it is
  represented by its microseconds since 1970-01-01T00:00Z, and datetime arithmetic that leaves
  that range raises, which \<open>utc_add\<close> returns as an error.
\<close>

subsection \<open>Instants\<close>

type_synonym UtcTimestamp = int

definition UTC_MIN :: int where "UTC_MIN = -62135596800000000"
definition UTC_MAX :: int where "UTC_MAX = 253402300799999999"

definition valid_utc :: "UtcTimestamp \<Rightarrow> bool" where
  "valid_utc t \<longleftrightarrow> UTC_MIN \<le> t \<and> t \<le> UTC_MAX"

datatype overflow_error = OverflowError

definition utc_add :: "UtcTimestamp \<Rightarrow> int \<Rightarrow> (overflow_error, UtcTimestamp) result" where
  "utc_add t micros = (if valid_utc (t + micros) then Inr (t + micros) else Inl OverflowError)"

subsection \<open>Durations\<close>

type_synonym Duration = int

definition MICROSECONDS_PER_SECOND :: int where "MICROSECONDS_PER_SECOND = 1000000"
definition SECONDS_PER_DAY :: int where "SECONDS_PER_DAY = 86400"

definition MAX_MICROSECONDS :: int where
  "MAX_MICROSECONDS = 365 * SECONDS_PER_DAY * MICROSECONDS_PER_SECOND"

definition validate_duration :: "int \<Rightarrow> (py_error, Duration) result" where
  "validate_duration value =
     (if \<not> (0 \<le> value \<and> value \<le> MAX_MICROSECONDS)
      then Inl (ValueError ''duration must be between zero and one year'')
      else Inr value)"

text \<open>\<^verbatim>\<open>PT(0|[1-9][0-9]*)[.]([0-9]{6})S\<close>: the matched seconds and microseconds groups.\<close>

definition duration_pattern :: "string \<Rightarrow> (string \<times> string) option" where
  "duration_pattern s =
     (if take 2 s = ''PT'' then
        let rest = drop 2 s; secs = takeWhile is_digit rest; tail = dropWhile is_digit rest in
        if (secs = ''0'' \<or> sequence_pattern secs) \<and> take 1 tail = ''.'' then
          let micros = take 6 (drop 1 tail) in
          if length micros = 6 \<and> list_all is_digit micros \<and> drop 7 tail = ''S''
          then Some (secs, micros) else None
        else None
      else None)"

definition duration_parse :: "string \<Rightarrow> (py_error, Duration) result" where
  "duration_parse text =
     (case duration_pattern text of
        None \<Rightarrow> Inl (ValueError ''duration must use canonical PT<seconds>.<microseconds>S form'')
      | Some (secs, micros) \<Rightarrow>
          if length secs > length (nat_str (nat (MAX_MICROSECONDS div MICROSECONDS_PER_SECOND)))
          then Inl (ValueError ''duration exceeds the supported maximum'')
          else validate_duration
            (int (nat_of_text secs) * MICROSECONDS_PER_SECOND + int (nat_of_text micros)))"

definition duration_str :: "Duration \<Rightarrow> string" where
  "duration_str d =
     ''PT'' @ nat_str (nat (d div MICROSECONDS_PER_SECOND)) @ ''.''
       @ zero_padded 6 (nat (d mod MICROSECONDS_PER_SECOND)) @ ''S''"

text \<open>A normalised \<^verbatim>\<open>timedelta\<close>: days, seconds within the day, microseconds within the second.\<close>

record timedelta =
  td_days :: int
  td_seconds :: int
  td_microseconds :: int

definition duration_from_timedelta :: "timedelta \<Rightarrow> (py_error, Duration) result" where
  "duration_from_timedelta value =
     validate_duration
       ((td_days value * SECONDS_PER_DAY + td_seconds value) * MICROSECONDS_PER_SECOND
          + td_microseconds value)"

definition duration_to_timedelta :: "Duration \<Rightarrow> timedelta" where
  "duration_to_timedelta d =
     \<lparr>td_days = d div (SECONDS_PER_DAY * MICROSECONDS_PER_SECOND),
      td_seconds = d mod (SECONDS_PER_DAY * MICROSECONDS_PER_SECOND) div MICROSECONDS_PER_SECOND,
      td_microseconds = d mod MICROSECONDS_PER_SECOND\<rparr>"

definition duration_from_bytes :: "bytes \<Rightarrow> (py_error, Duration) result" where
  "duration_from_bytes value =
     (case decode_ascii value ''duration'' of
        Inl e \<Rightarrow> Inl e
      | Inr t \<Rightarrow> duration_parse t)"

lemmas duration_bounds = MAX_MICROSECONDS_def SECONDS_PER_DAY_def MICROSECONDS_PER_SECOND_def

lemma duration_pattern_str:
  "duration_pattern (duration_str d) =
     Some (nat_str (nat (d div MICROSECONDS_PER_SECOND)),
           zero_padded 6 (nat (d mod MICROSECONDS_PER_SECOND)))"
proof -
  let ?secs = "nat_str (nat (d div MICROSECONDS_PER_SECOND))"
  let ?micros = "zero_padded 6 (nat (d mod MICROSECONDS_PER_SECOND))"
  have not_digit: "\<not> is_digit CHR ''.''" by code_simp
  have secs: "?secs = ''0'' \<or> sequence_pattern ?secs"
  proof (cases "nat (d div MICROSECONDS_PER_SECOND)")
    case 0
    then show ?thesis by (simp add: nat_str.simps [of 0] digit_char_0)
  next
    case (Suc n)
    then show ?thesis using sequence_pattern_nat_str [of "Suc n"] by simp
  qed
  have len: "length ?micros = 6"
    by (rule length_zero_padded) (simp_all add: MICROSECONDS_PER_SECOND_def)
  have split: "takeWhile is_digit (?secs @ ''.'' @ ?micros @ ''S'') = ?secs"
    "dropWhile is_digit (?secs @ ''.'' @ ?micros @ ''S'') = ''.'' @ ?micros @ ''S''"
    using nat_str_digits [of "nat (d div MICROSECONDS_PER_SECOND)"] not_digit
    by (simp_all add: list_all_iff)
  then show ?thesis
    using secs len zero_padded_digits [of 6 "nat (d mod MICROSECONDS_PER_SECOND)"]
    by (simp add: duration_pattern_def duration_str_def numeral_2_eq_2)
qed

lemma duration_pattern_Some:
  assumes "duration_pattern t = Some (secs, micros)"
  shows "t = ''PT'' @ secs @ ''.'' @ micros @ ''S''"
    and "secs = ''0'' \<or> sequence_pattern secs"
    and "length micros = 6" and "list_all is_digit micros"
proof -
  define tail where "tail = dropWhile is_digit (drop 2 t)"
  from assms have pt: "take 2 t = ''PT''" and secs: "secs = takeWhile is_digit (drop 2 t)"
    and dot: "take 1 tail = ''.''" and micros: "micros = take 6 (drop 1 tail)"
    and fin: "drop 7 tail = ''S''"
    by (auto simp: duration_pattern_def tail_def Let_def split: if_splits)
  have "drop 6 (drop 1 tail) = drop 7 tail" by simp
  then have "tail = take 1 tail @ take 6 (drop 1 tail) @ drop 7 tail"
    by (metis append_take_drop_id)
  then have "tail = ''.'' @ micros @ ''S''" using dot micros fin by metis
  moreover have "t = take 2 t @ takeWhile is_digit (drop 2 t) @ tail"
    by (simp add: tail_def)
  ultimately show "t = ''PT'' @ secs @ ''.'' @ micros @ ''S''" using pt secs by simp
  from assms show "secs = ''0'' \<or> sequence_pattern secs" "length micros = 6"
    "list_all is_digit micros"
    by (auto simp: duration_pattern_def Let_def split: if_splits)
qed

lemma nat_str_canonical_seconds:
  "secs = ''0'' \<or> sequence_pattern secs \<Longrightarrow> nat_str (nat_of_text secs) = secs"
  using is_digit_char [of 0]
  by (auto intro!: nat_str_nat_of_text simp: sequence_pattern_iff digit_char_0)

lemma duration_str_compose:
  assumes "m < 1000000"
  shows "duration_str (int s * MICROSECONDS_PER_SECOND + int m)
    = ''PT'' @ nat_str s @ ''.'' @ zero_padded 6 m @ ''S''"
proof -
  have "(int s * 1000000 + int m) div 1000000 = int s" and "(int s * 1000000 + int m) mod 1000000 = int m"
    using assms by simp_all
  then show ?thesis by (simp add: duration_str_def MICROSECONDS_PER_SECOND_def)
qed

text \<open>
  Durations in range survive both their text and their \<^verbatim>\<open>timedelta\<close> form, and the text the
  parser accepts for a duration is the one it prints: no duration has two accepted texts.
\<close>

theorem duration_roundtrip:
  "(0 \<le> d \<and> d \<le> MAX_MICROSECONDS \<longrightarrow>
      duration_parse (duration_str d) = Inr d \<and>
      duration_from_timedelta (duration_to_timedelta d) = Inr d) \<and>
   (duration_parse t = Inr e \<longrightarrow> duration_str e = t \<and> 0 \<le> e \<and> e \<le> MAX_MICROSECONDS)"
proof (intro conjI impI)
  assume d: "0 \<le> d \<and> d \<le> MAX_MICROSECONDS"
  define s where "s = nat (d div MICROSECONDS_PER_SECOND)"
  define m where "m = nat (d mod MICROSECONDS_PER_SECOND)"
  have split: "d = int s * MICROSECONDS_PER_SECOND + int m"
    using d by (simp add: s_def m_def MICROSECONDS_PER_SECOND_def)
  have max: "nat (MAX_MICROSECONDS div MICROSECONDS_PER_SECOND) = 31536000"
    by (simp add: duration_bounds)
  have "d div 1000000 \<le> MAX_MICROSECONDS div 1000000" using d by (simp add: zdiv_mono1)
  then have "d div 1000000 < 100000000" by (simp add: duration_bounds)
  then have "s < 10 ^ 8" by (simp add: s_def MICROSECONDS_PER_SECOND_def)
  then have "length (nat_str s) \<le> 8" by (rule length_nat_str_le) simp
  moreover have "length (nat_str 31536000) = 8" by (simp add: nat_str.simps)
  ultimately have "\<not> length (nat_str (nat (MAX_MICROSECONDS div MICROSECONDS_PER_SECOND)))
      < length (nat_str s)"
    by (simp add: max)
  then have "duration_parse (duration_str d) =
      validate_duration (int s * MICROSECONDS_PER_SECOND + int m)"
    by (simp add: duration_parse_def duration_pattern_str s_def m_def)
  with d split show "duration_parse (duration_str d) = Inr d"
    by (simp add: validate_duration_def)
  have "d div 86400000000 = d div 1000000 div 86400"
    using zdiv_zmult2_eq [of 86400 d 1000000] by simp
  moreover have "d mod 86400000000 div 1000000 = d div 1000000 mod 86400"
    using zmod_zmult2_eq [of 86400 d 1000000] by simp
  ultimately have
    "(d div 86400000000 * 86400 + d mod 86400000000 div 1000000) * 1000000 + d mod 1000000 = d"
    by simp
  with d show "duration_from_timedelta (duration_to_timedelta d) = Inr d"
    by (simp add: duration_from_timedelta_def duration_to_timedelta_def validate_duration_def
        SECONDS_PER_DAY_def MICROSECONDS_PER_SECOND_def)
next
  assume parse: "duration_parse t = Inr e"
  then obtain secs micros where pat: "duration_pattern t = Some (secs, micros)"
    and e: "validate_duration
        (int (nat_of_text secs) * MICROSECONDS_PER_SECOND + int (nat_of_text micros)) = Inr e"
    by (auto simp: duration_parse_def split: option.splits prod.splits if_splits)
  note form = duration_pattern_Some [OF pat]
  from form(3) have "micros \<noteq> []" by auto
  with form(3,4) have "nat_of_text micros < 1000000" and
    "zero_padded 6 (nat_of_text micros) = micros"
    using nat_of_text_less [of micros] zero_padded_nat_of_text [of micros] by simp_all
  with e form nat_str_canonical_seconds [OF form(2)]
  show "duration_str e = t" "0 \<le> e" "e \<le> MAX_MICROSECONDS"
    by (auto simp: duration_str_compose validate_duration_def split: if_splits)
qed

theorem duration_roundtrip_witness:
  "duration_parse (duration_str 90000250) = Inr 90000250 \<and>
   duration_from_timedelta (duration_to_timedelta 90000250) = Inr 90000250"
proof -
  have "(0::int) \<le> 90000250 \<and> (90000250::int) \<le> MAX_MICROSECONDS"
    by (simp add: duration_bounds)
  with duration_roundtrip [of 90000250] show ?thesis by blast
qed

end
