(* ===== verification/Retry.thy ===== *)
theory Retry
  imports Lifecycle Temporal
begin

text \<open>
  The bounded exponential retry policy (\<^verbatim>\<open>application/execution/retry_policy.py\<close>).  The clock and
  the jitter source are borrowed collaborators: a clock reading is an \<open>option\<close> (\<open>None\<close> is a clock
  that raised or did not return a \<^verbatim>\<open>UtcTimestamp\<close>) and a jitter source is a function whose
  \<open>None\<close> is a source that raised or returned no \<^verbatim>\<open>Duration\<close>.  The seeded source takes SHA-256 as
  a parameter.  The decision constructors re-check the policy arithmetic; \<open>decide\<close> goes through
  them exactly as the code does, and the properties show that those checks never fire there.
\<close>

subsection \<open>Policy constants and values\<close>

definition MAX_RETRY_ATTEMPTS :: int where "MAX_RETRY_ATTEMPTS = 3"
definition STANDARD_RETRY_INITIAL_MICROSECONDS :: int where
  "STANDARD_RETRY_INITIAL_MICROSECONDS = 1000000"
definition STANDARD_RETRY_MAX_MICROSECONDS :: int where
  "STANDARD_RETRY_MAX_MICROSECONDS = 60000000"
definition SQLITE_RETRY_INITIAL_MICROSECONDS :: int where
  "SQLITE_RETRY_INITIAL_MICROSECONDS = 10000"
definition SQLITE_RETRY_MAX_MICROSECONDS :: int where
  "SQLITE_RETRY_MAX_MICROSECONDS = 1000000"
definition MAX_HTTP_429_RETRY_DELAY_MICROSECONDS :: int where
  "MAX_HTTP_429_RETRY_DELAY_MICROSECONDS = 86400000000"
definition RETRY_JITTER_DIVISOR :: int where "RETRY_JITTER_DIVISOR = 4"
definition MAX_RETRY_JITTER_SEED :: int where "MAX_RETRY_JITTER_SEED = 9223372036854775807"

lemmas retry_constants =
  MAX_RETRY_ATTEMPTS_def STANDARD_RETRY_INITIAL_MICROSECONDS_def
  STANDARD_RETRY_MAX_MICROSECONDS_def SQLITE_RETRY_INITIAL_MICROSECONDS_def
  SQLITE_RETRY_MAX_MICROSECONDS_def MAX_HTTP_429_RETRY_DELAY_MICROSECONDS_def
  RETRY_JITTER_DIVISOR_def

datatype retry_error =
    RetryPolicyInvalidRequestError string
  | RetryPolicyClockError string
  | RetryPolicyJitterError string
  | DurationError py_error

record RetryPolicyRequest =
  req_work_item_id :: string
  req_attempt_number :: int
  req_classification :: FailureClassification
  req_failed_at :: UtcTimestamp
  req_http_429_delay :: "Duration option"

record RetryScheduledDecision =
  sch_work_item_id :: string
  sch_attempt_number :: int
  sch_classification :: FailureClassification
  sch_failed_at :: UtcTimestamp
  sch_observed_at :: UtcTimestamp
  sch_http_429_delay :: "Duration option"
  sch_jitter :: Duration
  sch_delay :: Duration
  sch_retry_available_at :: UtcTimestamp

record RetryStoppedDecision =
  stp_work_item_id :: string
  stp_attempt_number :: int
  stp_classification :: FailureClassification
  stp_failed_at :: UtcTimestamp
  stp_disposition :: FailureDisposition
  stp_exhausted :: bool

datatype RetryDecision = Scheduled RetryScheduledDecision | Stopped RetryStoppedDecision

type_synonym jitter_source =
  "string \<Rightarrow> FailureClassification \<Rightarrow> int \<Rightarrow> Duration \<Rightarrow> Duration option"

subsection \<open>Snapshots: re-validation of each field\<close>

definition snapshot_work_item_id :: "string \<Rightarrow> (retry_error, string) result" where
  "snapshot_work_item_id value =
     (case validate_identifier (id_prefix WorkItemId) value of
        Inl _ \<Rightarrow> Inl (RetryPolicyInvalidRequestError ''retry work-item identity is invalid'')
      | Inr v \<Rightarrow> Inr v)"

definition snapshot_attempt_number :: "int \<Rightarrow> (retry_error, int) result" where
  "snapshot_attempt_number value =
     (case validate_sequence_number value of
        Inl _ \<Rightarrow> Inl (RetryPolicyInvalidRequestError ''retry attempt number is invalid'')
      | Inr v \<Rightarrow> Inr v)"

definition snapshot_duration :: "Duration \<Rightarrow> string \<Rightarrow> (retry_error, Duration) result" where
  "snapshot_duration value subject =
     (case validate_duration value of
        Inl _ \<Rightarrow> Inl (RetryPolicyInvalidRequestError (subject @ '' is invalid''))
      | Inr v \<Rightarrow> Inr v)"

definition make_http_429_delay :: "Duration \<Rightarrow> (retry_error, Duration) result" where
  "make_http_429_delay value =
     (case snapshot_duration value ''HTTP 429 retry delay'' of
        Inl e \<Rightarrow> Inl e
      | Inr d \<Rightarrow>
          if d > MAX_HTTP_429_RETRY_DELAY_MICROSECONDS
          then Inl (RetryPolicyInvalidRequestError ''HTTP 429 retry delay exceeds the policy bound'')
          else Inr d)"

definition snapshot_http_429_delay ::
  "Duration option \<Rightarrow> FailureClassification \<Rightarrow> (retry_error, Duration option) result" where
  "snapshot_http_429_delay value classification =
     (case value of
        None \<Rightarrow> Inr None
      | Some delay \<Rightarrow>
          if classification \<noteq> HTTP_429
          then Inl (RetryPolicyInvalidRequestError
                      ''HTTP 429 retry delay requires the HTTP_429 classification'')
          else (case make_http_429_delay delay of Inl e \<Rightarrow> Inl e | Inr d \<Rightarrow> Inr (Some d)))"

definition validate_request :: "RetryPolicyRequest \<Rightarrow> (retry_error, RetryPolicyRequest) result" where
  "validate_request r =
     (case snapshot_work_item_id (req_work_item_id r) of
        Inl e \<Rightarrow> Inl e
      | Inr i \<Rightarrow> (case snapshot_attempt_number (req_attempt_number r) of
          Inl e \<Rightarrow> Inl e
        | Inr n \<Rightarrow> (case snapshot_http_429_delay (req_http_429_delay r) (req_classification r) of
            Inl e \<Rightarrow> Inl e
          | Inr d \<Rightarrow> Inr (r\<lparr>req_work_item_id := i, req_attempt_number := n,
                             req_http_429_delay := d\<rparr>))))"

subsection \<open>Policy arithmetic\<close>

definition profile_for :: "FailureClassification \<Rightarrow> int \<times> int" where
  "profile_for classification =
     (if classification = SQLITE_CONTENTION
      then (SQLITE_RETRY_INITIAL_MICROSECONDS, SQLITE_RETRY_MAX_MICROSECONDS)
      else (STANDARD_RETRY_INITIAL_MICROSECONDS, STANDARD_RETRY_MAX_MICROSECONDS))"

definition retry_envelope ::
  "FailureClassification \<Rightarrow> int \<Rightarrow> Duration option \<Rightarrow> int \<times> int" where
  "retry_envelope classification attempt_number http_429_delay =
     (let (initial, profile_cap) = profile_for classification;
          exponent = attempt_number - 1;
          base0 = min profile_cap (initial * 2 ^ nat exponent);
          (base, overall_cap) =
            (case http_429_delay of
               None \<Rightarrow> (base0, profile_cap)
             | Some d \<Rightarrow> (max base0 d, MAX_HTTP_429_RETRY_DELAY_MICROSECONDS))
      in (base, min (overall_cap - base) (base div RETRY_JITTER_DIVISOR)))"

definition add_delay :: "UtcTimestamp \<Rightarrow> Duration \<Rightarrow> (retry_error, UtcTimestamp) result" where
  "add_delay observed_at delay =
     (case utc_add observed_at delay of
        Inl _ \<Rightarrow> Inl (RetryPolicyInvalidRequestError ''retry availability exceeds timestamp bounds'')
      | Inr t \<Rightarrow> Inr t)"

subsection \<open>Decision constructors\<close>

definition validate_decision_identity :: "string \<Rightarrow> int \<Rightarrow> (retry_error, int) result" where
  "validate_decision_identity work_item_id attempt_number =
     (case snapshot_work_item_id work_item_id of
        Inl e \<Rightarrow> Inl e
      | Inr _ \<Rightarrow> snapshot_attempt_number attempt_number)"

definition make_scheduled ::
  "RetryScheduledDecision \<Rightarrow> (retry_error, RetryScheduledDecision) result" where
  "make_scheduled s =
     (case validate_decision_identity (sch_work_item_id s) (sch_attempt_number s) of
        Inl e \<Rightarrow> Inl e
      | Inr attempt \<Rightarrow>
     (case snapshot_http_429_delay (sch_http_429_delay s) (sch_classification s) of
        Inl e \<Rightarrow> Inl e
      | Inr http_429_delay \<Rightarrow>
     (case snapshot_duration (sch_jitter s) ''retry jitter'' of
        Inl e \<Rightarrow> Inl e
      | Inr jitter \<Rightarrow>
     (case snapshot_duration (sch_delay s) ''retry delay'' of
        Inl e \<Rightarrow> Inl e
      | Inr delay \<Rightarrow>
          if disposition_for (sch_classification s) \<noteq> RETRY
            then Inl (RetryPolicyInvalidRequestError
                        ''scheduled retry classification is not retryable'')
          else if attempt \<ge> MAX_RETRY_ATTEMPTS
            then Inl (RetryPolicyInvalidRequestError
                        ''scheduled retry exceeds the attempt bound'')
          else if sch_observed_at s < sch_failed_at s
            then Inl (RetryPolicyInvalidRequestError ''retry observation cannot precede failure'')
          else let (base, jitter_bound) =
                 retry_envelope (sch_classification s) attempt http_429_delay in
            if jitter > jitter_bound
              then Inl (RetryPolicyInvalidRequestError
                          ''retry jitter exceeds the v1 policy envelope'')
            else if delay \<noteq> base + jitter
              then Inl (RetryPolicyInvalidRequestError
                          ''scheduled retry delay violates v1 policy arithmetic'')
            else (case add_delay (sch_observed_at s) delay of
                    Inl e \<Rightarrow> Inl e
                  | Inr t \<Rightarrow>
                      if t \<noteq> sch_retry_available_at s
                      then Inl (RetryPolicyInvalidRequestError
                             ''retry availability must equal observation time plus delay'')
                      else Inr s)))))"

definition make_stopped ::
  "RetryStoppedDecision \<Rightarrow> (retry_error, RetryStoppedDecision) result" where
  "make_stopped s =
     (case validate_decision_identity (stp_work_item_id s) (stp_attempt_number s) of
        Inl e \<Rightarrow> Inl e
      | Inr attempt \<Rightarrow>
          let base_disposition = disposition_for (stp_classification s) in
          if base_disposition = RETRY then
            (if \<not> stp_exhausted s \<or> stp_disposition s \<noteq> PERMANENT \<or> attempt < MAX_RETRY_ATTEMPTS
             then Inl (RetryPolicyInvalidRequestError
                         ''retryable failure may stop only after attempt exhaustion'')
             else Inr s)
          else if stp_exhausted s \<or> stp_disposition s \<noteq> base_disposition
            then Inl (RetryPolicyInvalidRequestError
                        ''non-retryable failure must preserve its domain disposition'')
          else Inr s)"

subsection \<open>The policy\<close>

definition policy_now ::
  "UtcTimestamp option \<Rightarrow> UtcTimestamp \<Rightarrow> (retry_error, UtcTimestamp) result" where
  "policy_now reading failed_at =
     (case reading of
        None \<Rightarrow> Inl (RetryPolicyClockError ''retry policy clock failed'')
      | Some observed_at \<Rightarrow>
          if observed_at < failed_at
          then Inl (RetryPolicyClockError ''retry policy clock precedes the failed attempt'')
          else Inr observed_at)"

definition policy_jitter ::
  "jitter_source \<Rightarrow> string \<Rightarrow> FailureClassification \<Rightarrow> int \<Rightarrow> Duration
     \<Rightarrow> (retry_error, Duration) result" where
  "policy_jitter sample work_item_id classification attempt_number upper_bound =
     (case sample work_item_id classification attempt_number upper_bound of
        None \<Rightarrow> Inl (RetryPolicyJitterError ''retry jitter source failed'')
      | Some value \<Rightarrow>
          (case validate_duration value of
             Inl _ \<Rightarrow> Inl (RetryPolicyJitterError ''retry jitter source failed'')
           | Inr jitter \<Rightarrow>
               if jitter > upper_bound
               then Inl (RetryPolicyJitterError ''retry jitter exceeds its requested bound'')
               else Inr jitter))"

definition policy_delay ::
  "jitter_source \<Rightarrow> RetryPolicyRequest \<Rightarrow> (retry_error, Duration \<times> Duration) result" where
  "policy_delay sample r =
     (let (base, jitter_bound) =
        retry_envelope (req_classification r) (req_attempt_number r) (req_http_429_delay r) in
      case validate_duration jitter_bound of
        Inl e \<Rightarrow> Inl (DurationError e)
      | Inr upper_bound \<Rightarrow> (case policy_jitter sample (req_work_item_id r) (req_classification r)
             (req_attempt_number r) upper_bound of
          Inl e \<Rightarrow> Inl e
        | Inr jitter \<Rightarrow> (case validate_duration (base + jitter) of
            Inl e \<Rightarrow> Inl (DurationError e)
          | Inr delay \<Rightarrow> Inr (delay, jitter))))"

definition policy_available_at ::
  "UtcTimestamp \<Rightarrow> Duration \<Rightarrow> (retry_error, UtcTimestamp) result" where
  "policy_available_at observed_at delay =
     (case add_delay observed_at delay of
        Inl _ \<Rightarrow> Inl (RetryPolicyClockError ''retry availability exceeds timestamp bounds'')
      | Inr t \<Rightarrow> Inr t)"

definition decide ::
  "UtcTimestamp option \<Rightarrow> jitter_source \<Rightarrow> RetryPolicyRequest
     \<Rightarrow> (retry_error, RetryDecision) result" where
  "decide reading sample request =
     (case validate_request request of
        Inl e \<Rightarrow> Inl e
      | Inr r \<Rightarrow>
        let base_disposition = disposition_for (req_classification r);
            stop = (\<lambda>disposition exhausted.
              map_sum id Stopped
                (make_stopped \<lparr>stp_work_item_id = req_work_item_id r,
                   stp_attempt_number = req_attempt_number r,
                   stp_classification = req_classification r, stp_failed_at = req_failed_at r,
                   stp_disposition = disposition, stp_exhausted = exhausted\<rparr>)) in
        if base_disposition \<noteq> RETRY then stop base_disposition False
        else if req_attempt_number r \<ge> MAX_RETRY_ATTEMPTS then stop PERMANENT True
        else (case policy_now reading (req_failed_at r) of
            Inl e \<Rightarrow> Inl e
          | Inr observed_at \<Rightarrow> (case policy_delay sample r of
              Inl e \<Rightarrow> Inl e
            | Inr (delay, jitter) \<Rightarrow> (case policy_available_at observed_at delay of
                Inl e \<Rightarrow> Inl e
              | Inr available_at \<Rightarrow>
                  map_sum id Scheduled
                    (make_scheduled \<lparr>sch_work_item_id = req_work_item_id r,
                       sch_attempt_number = req_attempt_number r,
                       sch_classification = req_classification r,
                       sch_failed_at = req_failed_at r, sch_observed_at = observed_at,
                       sch_http_429_delay = req_http_429_delay r, sch_jitter = jitter,
                       sch_delay = delay, sch_retry_available_at = available_at\<rparr>)))))"

subsection \<open>The seeded jitter source\<close>

fun FailureClassification_value :: "FailureClassification \<Rightarrow> string" where
  "FailureClassification_value CONNECTION = ''connection''"
| "FailureClassification_value TIMEOUT = ''timeout''"
| "FailureClassification_value HTTP_429 = ''http_429''"
| "FailureClassification_value HTTP_5XX = ''http_5xx''"
| "FailureClassification_value HTTP_4XX = ''http_4xx''"
| "FailureClassification_value VALIDATION = ''validation''"
| "FailureClassification_value IDEMPOTENCY_CONFLICT = ''idempotency_conflict''"
| "FailureClassification_value SQLITE_CONTENTION = ''sqlite_contention''"
| "FailureClassification_value USER_CANCELLATION = ''user_cancellation''"
| "FailureClassification_value UNKNOWN = ''unknown''"

definition big_endian :: "bytes \<Rightarrow> nat" where
  "big_endian b = foldl (\<lambda>acc c. 256 * acc + code c) 0 b"

fun join_bytes :: "bytes \<Rightarrow> bytes list \<Rightarrow> bytes" where
  "join_bytes sep [] = []"
| "join_bytes sep [p] = p"
| "join_bytes sep (p # q # ps) = p @ sep @ join_bytes sep (q # ps)"

definition validate_jitter_seed :: "int \<Rightarrow> (retry_error, int) result" where
  "validate_jitter_seed seed =
     (if \<not> (0 \<le> seed \<and> seed \<le> MAX_RETRY_JITTER_SEED)
      then Inl (RetryPolicyInvalidRequestError ''retry jitter seed is outside policy bounds'')
      else Inr seed)"

definition seeded_sample :: "(bytes \<Rightarrow> bytes) \<Rightarrow> int \<Rightarrow> jitter_source" where
  "seeded_sample sha256 seed work_item_id classification attempt_number upper_bound =
     (case (validate_jitter_seed seed, snapshot_work_item_id work_item_id,
            snapshot_attempt_number attempt_number,
            snapshot_duration upper_bound ''retry jitter upper bound'') of
        (Inr _, Inr identity, Inr attempt, Inr bound) \<Rightarrow>
          let payload = join_bytes [CHR 0x00]
                [''paritygrid-retry-jitter-v1'', nat_str (nat seed), identity,
                 FailureClassification_value classification, sequence_str attempt,
                 nat_str (nat bound)]
          in Some (int (big_endian (take 8 (sha256 payload))) mod (bound + 1))
      | _ \<Rightarrow> None)"

subsection \<open>Policy arithmetic stays inside its envelope\<close>

lemma snapshot_duration_Inr [simp]:
  "snapshot_duration d subject = Inr v \<longleftrightarrow> v = d \<and> 0 \<le> d \<and> d \<le> MAX_MICROSECONDS"
  by (auto simp: snapshot_duration_def validate_duration_def)

lemma snapshot_http_429_delay_Inr:
  "snapshot_http_429_delay value c = Inr v \<longleftrightarrow>
     v = value \<and> (\<forall>d. value = Some d \<longrightarrow>
       c = HTTP_429 \<and> 0 \<le> d \<and> d \<le> MAX_HTTP_429_RETRY_DELAY_MICROSECONDS)"
  by (auto simp: snapshot_http_429_delay_def make_http_429_delay_def snapshot_duration_def
      validate_duration_def duration_bounds retry_constants split: option.splits)

lemma snapshot_attempt_number_Inr:
  "snapshot_attempt_number n = Inr v \<longleftrightarrow> v = n \<and> 1 \<le> n \<and> n \<le> MAX_SEQUENCE_NUMBER"
  by (auto simp: snapshot_attempt_number_def validate_sequence_number_def)

lemma snapshot_work_item_id_value: "snapshot_work_item_id w = Inr v \<Longrightarrow> v = w"
  by (auto simp: snapshot_work_item_id_def dest: validate_identifier_value split: sum.splits)

lemma validate_request_Inr:
  assumes "validate_request q = Inr r"
  shows "r = q" and "snapshot_work_item_id (req_work_item_id q) = Inr (req_work_item_id q)"
    and "1 \<le> req_attempt_number q" and "req_attempt_number q \<le> MAX_SEQUENCE_NUMBER"
    and "snapshot_http_429_delay (req_http_429_delay q) (req_classification q)
      = Inr (req_http_429_delay q)"
  using assms
  by (auto simp: validate_request_def snapshot_attempt_number_Inr snapshot_http_429_delay_Inr
      dest: snapshot_work_item_id_value split: sum.splits)

definition delay_cap :: "FailureClassification \<Rightarrow> Duration option \<Rightarrow> int" where
  "delay_cap c http_429_delay =
     (if http_429_delay \<noteq> None then MAX_HTTP_429_RETRY_DELAY_MICROSECONDS
      else if c = SQLITE_CONTENTION then SQLITE_RETRY_MAX_MICROSECONDS
      else STANDARD_RETRY_MAX_MICROSECONDS)"

lemma retry_envelope_bounds:
  assumes "retry_envelope c n h = (base, bound)"
    and "snapshot_http_429_delay h c = Inr h"
  shows "0 < base" and "0 \<le> bound" and "base + bound \<le> delay_cap c h" and "4 * bound \<le> base"
    and "h = Some d \<Longrightarrow> d \<le> base"
proof -
  obtain initial cap where profile: "profile_for c = (initial, cap)" by (cases "profile_for c")
  then have pos: "0 < initial" "initial \<le> cap" "cap \<le> MAX_HTTP_429_RETRY_DELAY_MICROSECONDS"
    and cap: "h = None \<Longrightarrow> delay_cap c h = cap"
    by (auto simp: profile_for_def delay_cap_def retry_constants split: if_splits)
  define base0 where "base0 = min cap (initial * 2 ^ nat (n - 1))"
  have base0: "0 < base0" "base0 \<le> cap" using pos by (simp_all add: base0_def)
  have base: "base = (case h of None \<Rightarrow> base0 | Some d \<Rightarrow> max base0 d)"
    and bound: "bound = min (delay_cap c h - base) (base div 4)"
    using assms(1) profile cap
    by (auto simp: retry_envelope_def base0_def Let_def delay_cap_def RETRY_JITTER_DIVISOR_def
        split: option.splits)
  have limit: "base \<le> delay_cap c h"
    using assms(2) base0 pos base cap
    by (cases h) (auto simp: snapshot_http_429_delay_Inr delay_cap_def)
  show "0 < base" using base base0 by (auto split: option.splits)
  with bound limit show "0 \<le> bound" "base + bound \<le> delay_cap c h" by auto
  from bound have "bound \<le> base div 4" by simp
  then show "4 * bound \<le> base" by linarith
  show "d \<le> base" if "h = Some d" using that base by simp
qed

lemma delay_cap_le_max: "delay_cap c h \<le> MAX_MICROSECONDS"
  by (simp add: delay_cap_def retry_constants duration_bounds)

lemma policy_jitter_Inr:
  "policy_jitter sample w c n bound = Inr j \<Longrightarrow> 0 \<le> j \<and> j \<le> bound"
  by (auto simp: policy_jitter_def validate_duration_def split: option.splits sum.splits if_splits)

lemma policy_delay_Inr:
  assumes "policy_delay sample r = Inr (delay, jitter)"
    and "retry_envelope (req_classification r) (req_attempt_number r) (req_http_429_delay r)
      = (base, bound)"
  shows "delay = base + jitter" and "0 \<le> jitter" and "jitter \<le> bound"
  using assms
  by (auto simp: policy_delay_def validate_duration_def dest!: policy_jitter_Inr
      split: sum.splits if_splits)

text \<open>What a retry that reaches the clock and jitter source needs, and what it then returns.\<close>

definition retryable_request :: "RetryPolicyRequest \<Rightarrow> bool" where
  "retryable_request q \<longleftrightarrow>
     disposition_for (req_classification q) = RETRY \<and> req_attempt_number q < MAX_RETRY_ATTEMPTS"

lemma validate_decision_identity_ok:
  "validate_request q = Inr r \<Longrightarrow>
   validate_decision_identity (req_work_item_id q) (req_attempt_number q)
     = Inr (req_attempt_number q)"
  using validate_request_Inr [of q r]
  by (simp add: validate_decision_identity_def snapshot_attempt_number_Inr)

lemma make_scheduled_ok:
  assumes valid: "validate_request q = Inr q" and retry: "retryable_request q"
    and obs: "req_failed_at q \<le> observed_at"
    and delay: "policy_delay sample q = Inr (delay, jitter)"
    and avail: "policy_available_at observed_at delay = Inr available_at"
  shows "make_scheduled \<lparr>sch_work_item_id = req_work_item_id q,
           sch_attempt_number = req_attempt_number q, sch_classification = req_classification q,
           sch_failed_at = req_failed_at q, sch_observed_at = observed_at,
           sch_http_429_delay = req_http_429_delay q, sch_jitter = jitter, sch_delay = delay,
           sch_retry_available_at = available_at\<rparr> = Inr \<lparr>sch_work_item_id = req_work_item_id q,
           sch_attempt_number = req_attempt_number q, sch_classification = req_classification q,
           sch_failed_at = req_failed_at q, sch_observed_at = observed_at,
           sch_http_429_delay = req_http_429_delay q, sch_jitter = jitter, sch_delay = delay,
           sch_retry_available_at = available_at\<rparr>" (is "make_scheduled ?s = Inr ?s")
proof -
  obtain base bound where env: "retry_envelope (req_classification q) (req_attempt_number q)
      (req_http_429_delay q) = (base, bound)"
    by fastforce
  note h = validate_request_Inr(5) [OF valid]
  note eb = retry_envelope_bounds(1-4) [OF env h] and pd = policy_delay_Inr [OF delay env]
  have range: "0 \<le> jitter" "jitter \<le> MAX_MICROSECONDS" "0 \<le> delay" "delay \<le> MAX_MICROSECONDS"
    using eb pd delay_cap_le_max [of "req_classification q" "req_http_429_delay q"] by auto
  have "add_delay observed_at delay = Inr available_at"
    using avail by (auto simp: policy_available_at_def split: sum.splits)
  with range env pd retry obs h validate_decision_identity_ok [OF valid] show ?thesis
    by (simp add: make_scheduled_def retryable_request_def snapshot_duration_def
        validate_duration_def)
qed

lemma decide_stopped:
  assumes valid: "validate_request q = Inr q" and "\<not> retryable_request q"
  shows "decide reading sample q = Inr (Stopped \<lparr>stp_work_item_id = req_work_item_id q,
           stp_attempt_number = req_attempt_number q,
           stp_classification = req_classification q, stp_failed_at = req_failed_at q,
           stp_disposition = (if disposition_for (req_classification q) = RETRY then PERMANENT
                              else disposition_for (req_classification q)),
           stp_exhausted = (disposition_for (req_classification q) = RETRY)\<rparr>)"
  using assms validate_decision_identity_ok [OF valid]
  by (auto simp: decide_def make_stopped_def retryable_request_def Let_def)

lemma decide_retryable:
  assumes valid: "validate_request q = Inr q" and retry: "retryable_request q"
  shows "decide reading sample q =
    (case policy_now reading (req_failed_at q) of
       Inl e \<Rightarrow> Inl e
     | Inr observed_at \<Rightarrow> (case policy_delay sample q of
         Inl e \<Rightarrow> Inl e
       | Inr (delay, jitter) \<Rightarrow> (case policy_available_at observed_at delay of
           Inl e \<Rightarrow> Inl e
         | Inr available_at \<Rightarrow> Inr (Scheduled \<lparr>sch_work_item_id = req_work_item_id q,
             sch_attempt_number = req_attempt_number q,
             sch_classification = req_classification q, sch_failed_at = req_failed_at q,
             sch_observed_at = observed_at, sch_http_429_delay = req_http_429_delay q,
             sch_jitter = jitter, sch_delay = delay,
             sch_retry_available_at = available_at\<rparr>))))"
proof -
  have "req_failed_at q \<le> observed_at"
    if "policy_now reading (req_failed_at q) = Inr observed_at" for observed_at
    using that by (auto simp: policy_now_def split: option.splits if_splits)
  with assms show ?thesis
    by (auto simp: decide_def retryable_request_def make_scheduled_ok Let_def
        split: sum.splits prod.splits)
qed

lemma policy_delay_no_duration_error:
  assumes "validate_request q = Inr q"
  shows "policy_delay sample q \<noteq> Inl (DurationError e)"
    and "policy_delay sample q \<noteq> Inl (RetryPolicyInvalidRequestError m)"
proof -
  obtain base bound where env: "retry_envelope (req_classification q) (req_attempt_number q)
      (req_http_429_delay q) = (base, bound)"
    by fastforce
  note eb = retry_envelope_bounds(1-4) [OF env validate_request_Inr(5) [OF assms]]
  note cap = delay_cap_le_max [of "req_classification q" "req_http_429_delay q"]
  have range: "validate_duration bound = Inr bound"
    "\<And>j. 0 \<le> j \<Longrightarrow> j \<le> bound \<Longrightarrow> validate_duration (base + j) = Inr (base + j)"
    using eb cap by (auto simp: validate_duration_def)
  have "\<And>j. policy_jitter sample (req_work_item_id q) (req_classification q)
      (req_attempt_number q) bound = Inr j \<Longrightarrow> validate_duration (base + j) = Inr (base + j)"
    using range(2) policy_jitter_Inr by blast
  then show "policy_delay sample q \<noteq> Inl (DurationError e)"
    and "policy_delay sample q \<noteq> Inl (RetryPolicyInvalidRequestError m)"
    using env range(1)
    by (auto simp: policy_delay_def policy_jitter_def split: sum.splits option.splits if_splits)
qed

subsection \<open>Properties\<close>

text \<open>
  A scheduled retry stays inside the policy: it is only ever issued for a retryable
  classification before the attempt bound, its delay is at least the requested \<^verbatim>\<open>Retry-After\<close> and
  at most the cap of its profile, the jitter is at most a quarter of the base delay, and the
  retry becomes available exactly that delay after an observation that does not precede the
  failure.
\<close>

theorem decide_scheduled_within_policy:
  assumes "decide reading sample q = Inr (Scheduled s)"
  shows "disposition_for (req_classification q) = RETRY \<and> req_attempt_number q < 3 \<and>
    req_failed_at q \<le> sch_observed_at s \<and>
    sch_retry_available_at s = sch_observed_at s + sch_delay s \<and>
    0 < sch_delay s \<and> sch_delay s \<le> delay_cap (req_classification q) (req_http_429_delay q) \<and>
    (\<forall>d. req_http_429_delay q = Some d \<longrightarrow> d \<le> sch_delay s) \<and>
    4 * sch_jitter s \<le> sch_delay s - sch_jitter s"
proof (intro conjI allI impI)
  from assms obtain r where r: "validate_request q = Inr r"
    by (auto simp: decide_def split: sum.splits)
  then have valid: "validate_request q = Inr q" using validate_request_Inr(1) by blast
  have retry: "retryable_request q"
    using assms decide_stopped [OF valid] by (cases "retryable_request q") auto
  obtain base bound where env: "retry_envelope (req_classification q) (req_attempt_number q)
      (req_http_429_delay q) = (base, bound)"
    by fastforce
  note h = validate_request_Inr(5) [OF valid]
  note eb = retry_envelope_bounds [OF env h]
  from assms obtain delay jitter observed_at where
    now: "policy_now reading (req_failed_at q) = Inr observed_at" and
    pd: "policy_delay sample q = Inr (delay, jitter)" and
    avail: "policy_available_at observed_at delay = Inr (sch_retry_available_at s)" and
    s: "sch_observed_at s = observed_at" "sch_delay s = delay" "sch_jitter s = jitter"
    unfolding decide_retryable [OF valid retry] by (auto split: sum.splits prod.splits)
  note pdi = policy_delay_Inr [OF pd env]
  show "disposition_for (req_classification q) = RETRY" "req_attempt_number q < 3"
    using retry by (simp_all add: retryable_request_def MAX_RETRY_ATTEMPTS_def)
  show "req_failed_at q \<le> sch_observed_at s"
    using now s by (auto simp: policy_now_def split: option.splits if_splits)
  show "sch_retry_available_at s = sch_observed_at s + sch_delay s"
    using avail s by (auto simp: policy_available_at_def add_delay_def utc_add_def
        split: sum.splits if_splits)
  show "0 < sch_delay s" "sch_delay s \<le> delay_cap (req_classification q) (req_http_429_delay q)"
    "4 * sch_jitter s \<le> sch_delay s - sch_jitter s"
    using eb(1-4) pdi s by auto
  show "d \<le> sch_delay s" if "req_http_429_delay q = Some d" for d
    using eb(5) [OF that] pdi s by simp
qed

text \<open>
  The policy only fails through its collaborators: once the request itself is valid,
  \<^verbatim>\<open>decide\<close> either returns a decision or reports a clock or jitter-source failure.  In particular
  the consistency checks of the two decision constructors never fire on a decision the policy
  builds, and no duration it computes is out of range.
\<close>

theorem decide_errors_are_external:
  assumes "validate_request q = Inr q" and "decide reading sample q = Inl e"
  shows "(\<exists>m. e = RetryPolicyClockError m) \<or> (\<exists>m. e = RetryPolicyJitterError m)"
proof -
  have retry: "retryable_request q"
    using assms decide_stopped [OF assms(1)] by (cases "retryable_request q") auto
  have clock: "\<exists>m. f = RetryPolicyClockError m"
    if "policy_now reading (req_failed_at q) = Inl f \<or> policy_available_at t d = Inl f" for f t d
    using that by (auto simp: policy_now_def policy_available_at_def
        split: option.splits if_splits sum.splits)
  have jitter: "\<exists>m. f = RetryPolicyJitterError m \<or> f = RetryPolicyClockError m"
    if "policy_delay sample q = Inl f" for f
    using that policy_delay_no_duration_error [OF assms(1)] by (cases f) auto
  show ?thesis
    using assms(2) clock jitter unfolding decide_retryable [OF assms(1) retry]
    by (auto split: sum.splits prod.splits)
qed

lemma seeded_sample_in_range:
  assumes "validate_request q = Inr q" and "0 \<le> seed" and "seed \<le> MAX_RETRY_JITTER_SEED"
    and "0 \<le> bound" and "bound \<le> MAX_MICROSECONDS"
  shows "\<exists>j. policy_jitter (seeded_sample sha256 seed) (req_work_item_id q) (req_classification q)
    (req_attempt_number q) bound = Inr j"
proof -
  have attempt: "snapshot_attempt_number (req_attempt_number q) = Inr (req_attempt_number q)"
    using validate_request_Inr [OF assms(1)] by (simp add: snapshot_attempt_number_Inr)
  obtain v where v: "seeded_sample sha256 seed (req_work_item_id q) (req_classification q)
      (req_attempt_number q) bound = Some (v mod (bound + 1))"
    using assms(2-) attempt validate_request_Inr(2) [OF assms(1)]
    by (simp add: seeded_sample_def validate_jitter_seed_def snapshot_duration_def
        validate_duration_def)
  have "0 \<le> v mod (bound + 1)" "v mod (bound + 1) \<le> bound"
    using assms(4) pos_mod_bound [of "bound + 1" v] by auto
  with v assms(5) show ?thesis by (simp add: policy_jitter_def validate_duration_def)
qed

text \<open>
  C34.  The policy decides: for a valid request, a clock reading not before the failure and at
  least one day before the end of the supported timeline, and the seeded jitter source with any
  hash function, \<^verbatim>\<open>decide\<close> returns a decision.  It is \<^verbatim>\<open>Scheduled\<close> exactly when the
  classification is retryable and fewer than three attempts were made; an exhausted retryable
  failure becomes permanent and every other failure keeps its domain disposition.
\<close>

theorem decide_total:
  assumes valid: "validate_request q = Inr q" and "0 \<le> seed" and "seed \<le> MAX_RETRY_JITTER_SEED"
    and obs: "valid_utc t" "req_failed_at q \<le> t" "t + 86400000000 \<le> UTC_MAX"
  shows "\<exists>dec. decide (Some t) (seeded_sample sha256 seed) q = Inr dec \<and>
    (case dec of
       Scheduled s \<Rightarrow> disposition_for (req_classification q) = RETRY \<and> req_attempt_number q < 3
     | Stopped s \<Rightarrow>
         (disposition_for (req_classification q) = RETRY \<longrightarrow>
            req_attempt_number q \<ge> 3 \<and> stp_exhausted s \<and> stp_disposition s = PERMANENT) \<and>
         (disposition_for (req_classification q) \<noteq> RETRY \<longrightarrow>
            \<not> stp_exhausted s \<and> stp_disposition s = disposition_for (req_classification q)))"
proof (cases "retryable_request q")
  case False
  then show ?thesis
    using decide_stopped [OF valid False] by (auto simp: retryable_request_def MAX_RETRY_ATTEMPTS_def)
next
  case True
  let ?sample = "seeded_sample sha256 seed"
  obtain base bound where env: "retry_envelope (req_classification q) (req_attempt_number q)
      (req_http_429_delay q) = (base, bound)"
    by fastforce
  note eb = retry_envelope_bounds(1-4) [OF env validate_request_Inr(5) [OF valid]]
  have cap: "delay_cap (req_classification q) (req_http_429_delay q) \<le> 86400000000"
    by (simp add: delay_cap_def retry_constants)
  then have max: "delay_cap (req_classification q) (req_http_429_delay q) \<le> MAX_MICROSECONDS"
    by (simp add: duration_bounds)
  from eb max have "bound \<le> MAX_MICROSECONDS" by linarith
  then obtain j where j: "policy_jitter ?sample (req_work_item_id q) (req_classification q)
      (req_attempt_number q) bound = Inr j"
    using seeded_sample_in_range [OF assms(1-3) eb(2), of sha256] by blast
  note jr = policy_jitter_Inr [OF j]
  have "validate_duration bound = Inr bound" "validate_duration (base + j) = Inr (base + j)"
    using eb jr max by (auto simp: validate_duration_def)
  with j env have pd: "policy_delay ?sample q = Inr (base + j, j)"
    by (simp add: policy_delay_def)
  have "valid_utc (t + (base + j))"
    using obs eb jr cap by (auto simp: valid_utc_def)
  then have "policy_available_at t (base + j) = Inr (t + (base + j))"
    by (simp add: policy_available_at_def add_delay_def utc_add_def)
  moreover have "policy_now (Some t) (req_failed_at q) = Inr t"
    using obs by (simp add: policy_now_def)
  ultimately show ?thesis
    using True pd unfolding decide_retryable [OF valid True]
    by (simp add: retryable_request_def MAX_RETRY_ATTEMPTS_def)
qed

subsection \<open>Witnesses\<close>

definition sample_request :: RetryPolicyRequest where
  "sample_request = \<lparr>req_work_item_id = ''wrk_demo-1'', req_attempt_number = 2,
     req_classification = HTTP_429, req_failed_at = 1000, req_http_429_delay = Some 30000000\<rparr>"

lemma sample_request_valid: "validate_request sample_request = Inr sample_request"
proof -
  have "snapshot_work_item_id ''wrk_demo-1'' = Inr ''wrk_demo-1''" by code_simp
  then show ?thesis
    by (simp add: validate_request_def sample_request_def snapshot_attempt_number_def
        validate_sequence_number_def MAX_SEQUENCE_NUMBER_def snapshot_http_429_delay_def
        make_http_429_delay_def snapshot_duration_def validate_duration_def duration_bounds
        retry_constants)
qed

theorem decide_total_witness:
  "\<exists>dec. decide (Some 2000) (seeded_sample (\<lambda>b. b) 7) sample_request = Inr dec \<and>
     (case dec of Scheduled s \<Rightarrow> req_attempt_number sample_request < 3 | Stopped s \<Rightarrow> False)"
  using decide_total [OF sample_request_valid, of 7 2000 "\<lambda>b. b"]
  by (fastforce simp: sample_request_def MAX_RETRY_JITTER_SEED_def valid_utc_def UTC_MIN_def
      UTC_MAX_def split: RetryDecision.splits)

lemma sample_decision:
  "decide (Some 2000) (\<lambda>_ _ _ _. Some 5) sample_request = Inr (Scheduled
     \<lparr>sch_work_item_id = ''wrk_demo-1'', sch_attempt_number = 2, sch_classification = HTTP_429,
      sch_failed_at = 1000, sch_observed_at = 2000, sch_http_429_delay = Some 30000000,
      sch_jitter = 5, sch_delay = 30000005, sch_retry_available_at = 30002005\<rparr>)"
  by (subst decide_retryable [OF sample_request_valid])
    (simp_all add: sample_request_def retryable_request_def policy_now_def policy_delay_def
      policy_jitter_def retry_envelope_def profile_for_def policy_available_at_def add_delay_def
      utc_add_def valid_utc_def UTC_MIN_def UTC_MAX_def validate_duration_def duration_bounds
      retry_constants)

theorem decide_scheduled_within_policy_witness:
  "(30000000::int) \<le> 30000005 \<and> (4::int) * 5 \<le> 30000005 - 5"
  using decide_scheduled_within_policy [OF sample_decision]
  by (simp add: sample_request_def)

theorem decide_errors_are_external_witness:
  "decide None (\<lambda>_ _ _ _. Some 5) sample_request
     = Inl (RetryPolicyClockError ''retry policy clock failed'') \<and>
   (\<exists>m. RetryPolicyClockError ''retry policy clock failed'' = RetryPolicyClockError m \<or>
        RetryPolicyClockError ''retry policy clock failed'' = RetryPolicyJitterError m)"
proof -
  have fail: "decide None (\<lambda>_ _ _ _. Some 5) sample_request
      = Inl (RetryPolicyClockError ''retry policy clock failed'')"
    by (subst decide_retryable [OF sample_request_valid])
      (simp_all add: retryable_request_def sample_request_def policy_now_def MAX_RETRY_ATTEMPTS_def)
  show ?thesis using fail decide_errors_are_external [OF sample_request_valid fail] by blast
qed

end
