(* ===== verification/Channels.thy ===== *)
theory Channels
  imports Text_Forms Complex_Main
begin

text \<open>
  The bounded closeable channels of \<^verbatim>\<open>application/execution/channels.py\<close>.

  A \<^verbatim>\<open>BoundedChannel\<close> is the record \<open>channel\<close>.  Every method takes the channel's lock once per attempt,
  so the atomic steps of any set of threads are the lock-held sections: one \<open>chan_op\<close> each.  The
  condition variable is the set \<open>parked\<close> of the threads asleep in \<^verbatim>\<open>wait\<close>, which \<^verbatim>\<open>notify_all\<close> empties.  The
  blocking \<^verbatim>\<open>send\<close> and \<^verbatim>\<open>recv\<close> are run against an explicit schedule, a list of events: a step of a
  peer, the end of a timed wait, or a turn of the caller with the clock reading it would take.  A caller that is asleep
  makes no use of its turn.  The value \<open>None\<close> says that the call has not returned after the last event.

  A message argument is an \<open>option\<close>, its \<open>None\<close> being Python's.  A finite number of seconds is rational;
  the rounding of the floating-point sum that forms a deadline is the parameter \<open>fadd\<close>.
\<close>

subsection \<open>Constants, errors and validation\<close>

definition CHANNEL_KIND_ASSIGNMENT :: string where "CHANNEL_KIND_ASSIGNMENT = ''assignment''"
definition CHANNEL_KIND_RESULT :: string where "CHANNEL_KIND_RESULT = ''result''"
definition CHANNEL_KIND_TELEMETRY :: string where "CHANNEL_KIND_TELEMETRY = ''telemetry''"
definition CHANNEL_KIND_WRITER :: string where "CHANNEL_KIND_WRITER = ''writer''"
definition MIN_CHANNEL_CAPACITY :: int where "MIN_CHANNEL_CAPACITY = 1"
definition MAX_CHANNEL_CAPACITY :: int where "MAX_CHANNEL_CAPACITY = 65536"
definition MAX_UNKNOWN_OUTCOME_REASON_LENGTH :: nat where "MAX_UNKNOWN_OUTCOME_REASON_LENGTH = 256"

definition CHANNEL_KINDS :: "string list" where
  "CHANNEL_KINDS =
     [CHANNEL_KIND_ASSIGNMENT, CHANNEL_KIND_RESULT, CHANNEL_KIND_TELEMETRY, CHANNEL_KIND_WRITER]"

text \<open>The exceptions, with \<^verbatim>\<open>accepted_remaining\<close> on the two that carry it.\<close>

datatype channel_error =
    ChannelValidationError string
  | ChannelClosedError string nat
  | ChannelTimeoutError string
  | ChannelLoopError string
  | ChannelUnknownOutcomeError string nat

type_synonym 'a chan_result = "(channel_error, 'a) result"

text \<open>A second count as Python passes it: a finite number, an infinity or a NaN.\<close>

datatype seconds = Finite rat | Infinity_seconds bool | NaN_seconds

definition reject_running_loop :: "bool \<Rightarrow> string \<Rightarrow> unit chan_result" where
  "reject_running_loop loop_active subject =
     (if loop_active
      then Inl (ChannelLoopError (subject @ '' must not block while an event loop is active''))
      else Inr ())"

definition validate_kind :: "string \<Rightarrow> string chan_result" where
  "validate_kind value =
     (if value \<notin> set CHANNEL_KINDS
      then Inl (ChannelValidationError ''channel kind must name a known channel kind'')
      else Inr value)"

definition validate_capacity :: "int \<Rightarrow> int chan_result" where
  "validate_capacity value =
     (if \<not> (MIN_CHANNEL_CAPACITY \<le> value \<and> value \<le> MAX_CHANNEL_CAPACITY)
      then Inl (ChannelValidationError ''channel capacity is outside the supported range'')
      else Inr value)"

definition validate_message :: "'m option \<Rightarrow> 'm chan_result" where
  "validate_message value =
     (case value of
        None \<Rightarrow> Inl (ChannelValidationError ''channel message must be a concrete object, not None'')
      | Some m \<Rightarrow> Inr m)"

definition validate_timeout :: "seconds option \<Rightarrow> string \<Rightarrow> rat option chan_result" where
  "validate_timeout value subject =
     (case value of
        None \<Rightarrow> Inr None
      | Some (Finite s) \<Rightarrow>
          (if s < 0
           then Inl (ChannelValidationError (subject @ '' must be a finite non-negative second count''))
           else Inr (Some s))
      | Some _ \<Rightarrow>
          Inl (ChannelValidationError (subject @ '' must be a finite non-negative second count'')))"

definition validate_iterations :: "int \<Rightarrow> nat chan_result" where
  "validate_iterations value =
     (if \<not> (1 \<le> value \<and> value \<le> MAX_CHANNEL_CAPACITY)
      then Inl (ChannelValidationError ''cooperation iteration count is outside the supported range'')
      else Inr (nat value))"

definition validate_unknown_reason :: "string \<Rightarrow> string chan_result" where
  "validate_unknown_reason reason =
     (if \<not> (1 \<le> length reason \<and> length reason \<le> MAX_UNKNOWN_OUTCOME_REASON_LENGTH)
      then Inl (ChannelValidationError
                  ''unknown-outcome reason length is outside the supported range'')
      else if \<not> list_all is_printable_ascii reason
      then Inl (ChannelValidationError
                  ''unknown-outcome reason must use printable ASCII characters'')
      else Inr reason)"

subsection \<open>The channel\<close>

record 'm channel =
  kind :: string
  capacity :: int
  buffer :: "'m list"
  accepted_count :: nat
  max_observed_queued :: nat
  is_closed :: bool
  is_recovery_closed :: bool
  parked :: "nat set"

text \<open>\<^verbatim>\<open>notify_all\<close>: every thread asleep on the condition leaves the wait set.\<close>

definition wake_all :: "'m channel \<Rightarrow> 'm channel" where
  "wake_all c = c\<lparr>parked := {}\<rparr>"

definition BoundedChannel :: "string \<Rightarrow> int \<Rightarrow> 'm channel chan_result" where
  "BoundedChannel k n =
     (case validate_kind k of
        Inl e \<Rightarrow> Inl e
      | Inr k' \<Rightarrow>
          (case validate_capacity n of
             Inl e \<Rightarrow> Inl e
           | Inr n' \<Rightarrow>
               Inr \<lparr>kind = k', capacity = n', buffer = [], accepted_count = 0,
                    max_observed_queued = 0, is_closed = False, is_recovery_closed = False,
                    parked = {}\<rparr>))"

definition queued :: "'m channel \<Rightarrow> nat" where
  "queued c = length (buffer c)"

definition try_send_locked :: "'m \<Rightarrow> 'm channel \<Rightarrow> bool chan_result \<times> 'm channel" where
  "try_send_locked m c =
     (if is_closed c
      then (Inl (ChannelClosedError ''channel is closed to sends'' (length (buffer c))), c)
      else if is_recovery_closed c
      then (Inl (ChannelUnknownOutcomeError
                   ''channel admission stopped after an unknown writer outcome''
                   (length (buffer c))), c)
      else if int (length (buffer c)) \<ge> capacity c then (Inr False, c)
      else
        let c1 = c\<lparr>buffer := buffer c @ [m], accepted_count := accepted_count c + 1\<rparr> in
        (Inr True, wake_all
         (if length (buffer c1) > max_observed_queued c1
          then c1\<lparr>max_observed_queued := length (buffer c1)\<rparr> else c1)))"

definition try_recv_locked :: "'m channel \<Rightarrow> 'm option chan_result \<times> 'm channel" where
  "try_recv_locked c =
     (case buffer c of
        item # rest \<Rightarrow> (Inr (Some item), wake_all (c\<lparr>buffer := rest\<rparr>))
      | [] \<Rightarrow>
          if is_closed c \<or> is_recovery_closed c
          then (Inl (ChannelClosedError ''channel is closed and fully drained'' 0), c)
          else (Inr None, c))"

definition try_send :: "bool \<Rightarrow> 'm option \<Rightarrow> 'm channel \<Rightarrow> bool chan_result \<times> 'm channel" where
  "try_send loop_active message c =
     (case reject_running_loop loop_active ''channel try_send'' of
        Inl e \<Rightarrow> (Inl e, c)
      | Inr _ \<Rightarrow>
          (case validate_message message of
             Inl e \<Rightarrow> (Inl e, c)
           | Inr m \<Rightarrow> try_send_locked m c))"

definition try_recv :: "bool \<Rightarrow> 'm channel \<Rightarrow> 'm option chan_result \<times> 'm channel" where
  "try_recv loop_active c =
     (case reject_running_loop loop_active ''channel try_recv'' of
        Inl e \<Rightarrow> (Inl e, c)
      | Inr _ \<Rightarrow> try_recv_locked c)"

definition close :: "'m channel \<Rightarrow> 'm channel" where
  "close c = (if is_closed c then c else wake_all (c\<lparr>is_closed := True\<rparr>))"

definition drain :: "bool \<Rightarrow> 'm channel \<Rightarrow> 'm list chan_result \<times> 'm channel" where
  "drain loop_active c =
     (case reject_running_loop loop_active ''channel drain'' of
        Inl e \<Rightarrow> (Inl e, c)
      | Inr _ \<Rightarrow> (Inr (buffer c), wake_all (c\<lparr>buffer := []\<rparr>)))"

definition mark_unknown_outcome :: "string \<Rightarrow> 'm channel \<Rightarrow> unit chan_result \<times> 'm channel" where
  "mark_unknown_outcome reason c =
     (case validate_unknown_reason reason of
        Inl e \<Rightarrow> (Inl e, c)
      | Inr _ \<Rightarrow>
          (Inr (), if is_recovery_closed c then c else wake_all (c\<lparr>is_recovery_closed := True\<rparr>)))"

subsection \<open>Atomic steps of the peers\<close>

datatype 'm chan_op =
    Attempt_send 'm
  | Attempt_recv
  | Close
  | Drain
  | Mark_unknown string

datatype 'm chan_out =
    Sent "bool chan_result"
  | Received "'m option chan_result"
  | Closed
  | Drained "'m list chan_result"
  | Marked "unit chan_result"

fun chan_exec :: "'m chan_op \<Rightarrow> 'm channel \<Rightarrow> 'm chan_out \<times> 'm channel" where
  "chan_exec (Attempt_send m) c = map_prod Sent id (try_send_locked m c)"
| "chan_exec Attempt_recv c = map_prod Received id (try_recv_locked c)"
| "chan_exec Close c = (Closed, close c)"
| "chan_exec Drain c = map_prod Drained id (drain False c)"
| "chan_exec (Mark_unknown reason) c = map_prod Marked id (mark_unknown_outcome reason c)"

text \<open>What a step put into the channel and what it took out of it.\<close>

fun accepted :: "'m chan_op \<Rightarrow> 'm chan_out \<Rightarrow> 'm list" where
  "accepted (Attempt_send m) (Sent (Inr True)) = [m]"
| "accepted _ _ = []"

fun delivered :: "'m chan_out \<Rightarrow> 'm list" where
  "delivered (Received (Inr (Some m))) = [m]"
| "delivered (Drained (Inr ms)) = ms"
| "delivered _ = []"

subsection \<open>Blocking operations\<close>

text \<open>What can happen while a call runs.\<close>

datatype 'm event =
    Peer "'m chan_op"
  | Elapse
  | Turn rat

text \<open>\<^verbatim>\<open>wait\<close> gives the lock back and goes to sleep in one step; a wait without timeout does not elapse.\<close>

definition park :: "nat \<Rightarrow> 'm channel \<Rightarrow> 'm channel" where
  "park me c = c\<lparr>parked := insert me (parked c)\<rparr>"

definition elapse :: "rat option \<Rightarrow> nat \<Rightarrow> 'm channel \<Rightarrow> 'm channel" where
  "elapse deadline me c = (if deadline = None then c else c\<lparr>parked := parked c - {me}\<rparr>)"

text \<open>The loop of \<^verbatim>\<open>send\<close> of the thread \<open>me\<close>.\<close>

fun send_loop ::
  "rat option \<Rightarrow> nat \<Rightarrow> 'm \<Rightarrow> 'm event list \<Rightarrow> 'm channel \<Rightarrow> unit chan_result option \<times> 'm channel"
where
  "send_loop deadline me m [] c = (None, c)"
| "send_loop deadline me m (Peer x # es) c = send_loop deadline me m es (snd (chan_exec x c))"
| "send_loop deadline me m (Elapse # es) c = send_loop deadline me m es (elapse deadline me c)"
| "send_loop deadline me m (Turn now # es) c =
     (if me \<in> parked c then send_loop deadline me m es c
      else case try_send_locked m c of
        (Inl e, c') \<Rightarrow> (Some (Inl e), c')
      | (Inr True, c') \<Rightarrow> (Some (Inr ()), c')
      | (Inr False, c') \<Rightarrow>
          (case deadline of
             None \<Rightarrow> send_loop deadline me m es (park me c')
           | Some d \<Rightarrow>
               if d - now \<le> 0
               then (Some (Inl (ChannelTimeoutError
                       ''channel send timed out while the bounded buffer stayed full'')), c')
               else send_loop deadline me m es (park me c')))"

text \<open>The loop of \<^verbatim>\<open>recv\<close>.\<close>

fun recv_loop ::
  "rat option \<Rightarrow> nat \<Rightarrow> 'm event list \<Rightarrow> 'm channel \<Rightarrow> 'm chan_result option \<times> 'm channel"
where
  "recv_loop deadline me [] c = (None, c)"
| "recv_loop deadline me (Peer x # es) c = recv_loop deadline me es (snd (chan_exec x c))"
| "recv_loop deadline me (Elapse # es) c = recv_loop deadline me es (elapse deadline me c)"
| "recv_loop deadline me (Turn now # es) c =
     (if me \<in> parked c then recv_loop deadline me es c
      else case try_recv_locked c of
        (Inl e, c') \<Rightarrow> (Some (Inl e), c')
      | (Inr (Some item), c') \<Rightarrow> (Some (Inr item), c')
      | (Inr None, c') \<Rightarrow>
          (case deadline of
             None \<Rightarrow> recv_loop deadline me es (park me c')
           | Some d \<Rightarrow>
               if d - now \<le> 0
               then (Some (Inl (ChannelTimeoutError
                       ''channel receive timed out while the channel stayed empty'')), c')
               else recv_loop deadline me es (park me c')))"

definition deadline_of ::
  "(rat \<Rightarrow> rat \<Rightarrow> rat) \<Rightarrow> rat \<Rightarrow> rat option \<Rightarrow> rat option" where
  "deadline_of fadd monotonic timeout = map_option (fadd monotonic) timeout"

definition send ::
  "(rat \<Rightarrow> rat \<Rightarrow> rat) \<Rightarrow> bool \<Rightarrow> rat \<Rightarrow> nat \<Rightarrow> 'm option \<Rightarrow> seconds option \<Rightarrow> 'm event list \<Rightarrow> 'm channel
    \<Rightarrow> unit chan_result option \<times> 'm channel"
where
  "send fadd loop_active monotonic me message timeout es c =
     (case reject_running_loop loop_active ''channel send'' of
        Inl e \<Rightarrow> (Some (Inl e), c)
      | Inr _ \<Rightarrow>
          (case validate_message message of
             Inl e \<Rightarrow> (Some (Inl e), c)
           | Inr m \<Rightarrow>
               (case validate_timeout timeout ''channel send timeout'' of
                  Inl e \<Rightarrow> (Some (Inl e), c)
                | Inr t \<Rightarrow> send_loop (deadline_of fadd monotonic t) me m es c)))"

definition recv ::
  "(rat \<Rightarrow> rat \<Rightarrow> rat) \<Rightarrow> bool \<Rightarrow> rat \<Rightarrow> nat \<Rightarrow> seconds option \<Rightarrow> 'm event list \<Rightarrow> 'm channel
    \<Rightarrow> 'm chan_result option \<times> 'm channel"
where
  "recv fadd loop_active monotonic me timeout es c =
     (case reject_running_loop loop_active ''channel recv'' of
        Inl e \<Rightarrow> (Some (Inl e), c)
      | Inr _ \<Rightarrow>
          (case validate_timeout timeout ''channel recv timeout'' of
             Inl e \<Rightarrow> (Some (Inl e), c)
           | Inr t \<Rightarrow> recv_loop (deadline_of fadd monotonic t) me es c))"

subsection \<open>Cooperative operations\<close>

text \<open>The loops of \<^verbatim>\<open>send_async\<close> and \<^verbatim>\<open>recv_async\<close>; \<open>turns i\<close> are the peers' steps during the
  \<^verbatim>\<open>asyncio.sleep(0)\<close> that follows the attempt with \<open>i\<close> further attempts left.\<close>

primrec send_async_loop ::
  "(nat \<Rightarrow> 'm chan_op list) \<Rightarrow> 'm \<Rightarrow> nat \<Rightarrow> 'm channel \<Rightarrow> unit chan_result \<times> 'm channel"
where
  "send_async_loop turns m 0 c =
     (Inl (ChannelTimeoutError
        ''channel send_async exhausted its cooperation budget while the buffer stayed full''), c)"
| "send_async_loop turns m (Suc i) c =
     (case try_send_locked m c of
        (Inl e, c') \<Rightarrow> (Inl e, c')
      | (Inr True, c') \<Rightarrow> (Inr (), c')
      | (Inr False, c') \<Rightarrow> send_async_loop turns m i (snd (perform chan_exec (turns i) c')))"

primrec recv_async_loop ::
  "(nat \<Rightarrow> 'm chan_op list) \<Rightarrow> nat \<Rightarrow> 'm channel \<Rightarrow> 'm chan_result \<times> 'm channel"
where
  "recv_async_loop turns 0 c =
     (Inl (ChannelTimeoutError
        ''channel recv_async exhausted its cooperation budget while the channel stayed empty''), c)"
| "recv_async_loop turns (Suc i) c =
     (case try_recv_locked c of
        (Inl e, c') \<Rightarrow> (Inl e, c')
      | (Inr (Some item), c') \<Rightarrow> (Inr item, c')
      | (Inr None, c') \<Rightarrow> recv_async_loop turns i (snd (perform chan_exec (turns i) c')))"

definition send_async ::
  "(nat \<Rightarrow> 'm chan_op list) \<Rightarrow> 'm option \<Rightarrow> int \<Rightarrow> 'm channel \<Rightarrow> unit chan_result \<times> 'm channel"
where
  "send_async turns message iterations c =
     (case validate_iterations iterations of
        Inl e \<Rightarrow> (Inl e, c)
      | Inr selected \<Rightarrow>
          (case validate_message message of
             Inl e \<Rightarrow> (Inl e, c)
           | Inr m \<Rightarrow> send_async_loop turns m selected c))"

definition recv_async ::
  "(nat \<Rightarrow> 'm chan_op list) \<Rightarrow> int \<Rightarrow> 'm channel \<Rightarrow> 'm chan_result \<times> 'm channel"
where
  "recv_async turns iterations c =
     (case validate_iterations iterations of
        Inl e \<Rightarrow> (Inl e, c)
      | Inr selected \<Rightarrow> recv_async_loop turns selected c)"

subsection \<open>The four channels of a run\<close>

text \<open>The tuple \<^verbatim>\<open>_report_order\<close> holds the four channels; \<^verbatim>\<open>_close_order\<close> holds the same objects in another
  order, so it is a list of positions in the first.\<close>

record 'm ChannelSet =
  report_order :: "'m channel list"
  close_order :: "nat list"

definition make_ChannelSet :: "int \<Rightarrow> int \<Rightarrow> int \<Rightarrow> int \<Rightarrow> 'm ChannelSet chan_result" where
  "make_ChannelSet assignment_capacity result_capacity telemetry_capacity writer_capacity =
     (case BoundedChannel CHANNEL_KIND_ASSIGNMENT assignment_capacity of
        Inl e \<Rightarrow> Inl e
      | Inr assignment \<Rightarrow>
     (case BoundedChannel CHANNEL_KIND_RESULT result_capacity of
        Inl e \<Rightarrow> Inl e
      | Inr result \<Rightarrow>
     (case BoundedChannel CHANNEL_KIND_TELEMETRY telemetry_capacity of
        Inl e \<Rightarrow> Inl e
      | Inr telemetry \<Rightarrow>
     (case BoundedChannel CHANNEL_KIND_WRITER writer_capacity of
        Inl e \<Rightarrow> Inl e
      | Inr writer \<Rightarrow>
          Inr \<lparr>report_order = [assignment, result, telemetry, writer],
               close_order = [3, 1, 0, 2]\<rparr>))))"

definition close_at :: "nat \<Rightarrow> 'm channel list \<Rightarrow> 'm channel list" where
  "close_at i cs = cs[i := close (cs ! i)]"

definition close_all :: "'m ChannelSet \<Rightarrow> 'm ChannelSet" where
  "close_all cs = cs\<lparr>report_order := fold close_at (close_order cs) (report_order cs)\<rparr>"

definition drain_at :: "bool \<Rightarrow> nat \<Rightarrow> 'm ChannelSet \<Rightarrow> 'm list chan_result \<times> 'm ChannelSet" where
  "drain_at loop_active i cs =
     (let (r, c) = drain loop_active (report_order cs ! i)
      in (r, cs\<lparr>report_order := (report_order cs)[i := c]\<rparr>))"

definition drain_results :: "bool \<Rightarrow> 'm ChannelSet \<Rightarrow> 'm list chan_result \<times> 'm ChannelSet" where
  "drain_results loop_active cs = drain_at loop_active 1 cs"

definition drain_writer :: "bool \<Rightarrow> 'm ChannelSet \<Rightarrow> 'm list chan_result \<times> 'm ChannelSet" where
  "drain_writer loop_active cs = drain_at loop_active 3 cs"

definition mark_writer_unknown_outcome ::
  "string \<Rightarrow> 'm ChannelSet \<Rightarrow> unit chan_result \<times> 'm ChannelSet" where
  "mark_writer_unknown_outcome reason cs =
     (let (r, c) = mark_unknown_outcome reason (report_order cs ! 3)
      in (r, cs\<lparr>report_order := (report_order cs)[3 := c]\<rparr>))"

definition snapshots :: "'m ChannelSet \<Rightarrow> (string \<times> int \<times> nat \<times> nat) list" where
  "snapshots cs =
     map (\<lambda>c. (kind c, capacity c, queued c, max_observed_queued c)) (report_order cs)"

subsection \<open>One atomic step\<close>

named_theorems channel_defs \<open>the bodies of the channel's lock-held sections\<close>

declare try_send_locked_def [channel_defs] try_recv_locked_def [channel_defs]
  wake_all_def [channel_defs] close_def [channel_defs] drain_def [channel_defs] mark_unknown_outcome_def [channel_defs]
  reject_running_loop_def [channel_defs] Let_def [channel_defs]

text \<open>The bound, the peak and the sign of the capacity.\<close>

definition channel_ok :: "'m channel \<Rightarrow> bool" where
  "channel_ok c \<longleftrightarrow>
     MIN_CHANNEL_CAPACITY \<le> capacity c \<and> capacity c \<le> MAX_CHANNEL_CAPACITY \<and>
     int (max_observed_queued c) \<le> capacity c \<and> length (buffer c) \<le> max_observed_queued c"

lemma chan_exec_ok: "channel_ok c \<Longrightarrow> channel_ok (snd (chan_exec x c))"
  by (cases x) (auto simp: channel_ok_def channel_defs split: list.splits sum.splits)

lemma chan_exec_queue:
  "buffer c @ accepted x (fst (chan_exec x c)) =
     delivered (fst (chan_exec x c)) @ buffer (snd (chan_exec x c))"
  by (cases x) (auto simp: channel_defs split: list.splits sum.splits)

lemma chan_exec_accepted_count:
  "accepted_count (snd (chan_exec x c)) = accepted_count c + length (accepted x (fst (chan_exec x c)))"
  by (cases x) (auto simp: channel_defs split: list.splits sum.splits)

lemma chan_exec_capacity [simp]: "capacity (snd (chan_exec x c)) = capacity c"
  by (cases x) (auto simp: channel_defs split: list.splits sum.splits)

lemma chan_exec_closed: "is_closed c \<Longrightarrow> is_closed (snd (chan_exec x c))"
  by (cases x) (auto simp: channel_defs split: list.splits sum.splits)

interpretation ch: queue_machine chan_exec channel_ok buffer accepted delivered
  by unfold_locales (auto simp: chan_exec_ok chan_exec_queue)

interpretation stays_closed: object_machine chan_exec is_closed
  by unfold_locales (rule chan_exec_closed)

subsection \<open>Sequences of steps\<close>

lemma perform_accepted_count:
  "accepted_count (snd (perform chan_exec xs c)) =
     accepted_count c + length (concat (map2 accepted xs (fst (perform chan_exec xs c))))"
  by (induction xs arbitrary: c) (simp_all add: chan_exec_accepted_count)

lemma perform_capacity [simp]: "capacity (snd (perform chan_exec xs c)) = capacity c"
  by (induction xs arbitrary: c) simp_all

lemma BoundedChannel_fresh:
  assumes "BoundedChannel k n = Inr c"
  shows "channel_ok c" and "buffer c = []" and "accepted_count c = 0" and "capacity c = n"
    and "\<not> is_closed c" and "\<not> is_recovery_closed c" and "kind c = k"
  using assms
  by (auto simp: BoundedChannel_def validate_kind_def validate_capacity_def channel_ok_def
      MIN_CHANNEL_CAPACITY_def MAX_CHANNEL_CAPACITY_def split: if_splits)

text \<open>C25.  A channel loses, duplicates and reorders nothing: whatever the interleaving of the attempts
  to send and to receive, closes, drains and unknown-outcome marks, what the channel accepted is, in
  order, what it delivered followed by what it still holds; it counts what it accepted, never holds
  more than its capacity, and its recorded peak is within the capacity and above what it holds.\<close>

theorem channel_no_loss:
  assumes "BoundedChannel k n = Inr c"
  shows "concat (map2 accepted ops (fst (perform chan_exec ops c))) =
           concat (map delivered (fst (perform chan_exec ops c))) @ buffer (snd (perform chan_exec ops c)) \<and>
         accepted_count (snd (perform chan_exec ops c)) =
           length (concat (map2 accepted ops (fst (perform chan_exec ops c)))) \<and>
         length (buffer (snd (perform chan_exec ops c))) \<le>
           max_observed_queued (snd (perform chan_exec ops c)) \<and>
         int (max_observed_queued (snd (perform chan_exec ops c))) \<le> n"
proof -
  note fresh = BoundedChannel_fresh [OF assms]
  from ch.perform_inv [OF fresh(1)] fresh(4)
  have "length (buffer (snd (perform chan_exec ops c))) \<le>
          max_observed_queued (snd (perform chan_exec ops c)) \<and>
        int (max_observed_queued (snd (perform chan_exec ops c))) \<le> n"
    by (metis channel_ok_def perform_capacity)
  with ch.perform_queue [OF fresh(1), of ops] fresh(2,3) perform_accepted_count [of ops c]
  show ?thesis by simp
qed

definition example_channel :: "nat channel" where
  "example_channel = \<lparr>kind = ''writer'', capacity = 1, buffer = [], accepted_count = 0, max_observed_queued = 0,
     is_closed = False, is_recovery_closed = False, parked = {}\<rparr>"

lemma example_channel_made: "BoundedChannel ''writer'' 1 = Inr example_channel"
  by (simp add: BoundedChannel_def validate_kind_def validate_capacity_def CHANNEL_KINDS_def example_channel_def
      CHANNEL_KIND_RESULT_def CHANNEL_KIND_ASSIGNMENT_def CHANNEL_KIND_TELEMETRY_def
      CHANNEL_KIND_WRITER_def MIN_CHANNEL_CAPACITY_def MAX_CHANNEL_CAPACITY_def)

theorem channel_no_loss_witness:
  "concat (map delivered (fst (perform chan_exec
       [Attempt_send 7, Attempt_send 8, Attempt_recv, Attempt_send 9, Close] example_channel))) @
     buffer (snd (perform chan_exec
       [Attempt_send 7, Attempt_send 8, Attempt_recv, Attempt_send 9, Close] example_channel)) = [7, 9]"
proof -
  let ?ops = "[Attempt_send (7::nat), Attempt_send 8, Attempt_recv, Attempt_send 9, Close]"
  have "concat (map2 accepted ?ops (fst (perform chan_exec ?ops example_channel))) = [7, 9]" by code_simp
  with channel_no_loss [OF example_channel_made, of ?ops] show ?thesis by metis
qed

lemma snd_perform_append: "snd (perform exec (xs @ ys) s) = snd (perform exec ys (snd (perform exec xs s)))"
  by (simp add: perform_append Let_def case_prod_beta)

subsection \<open>Blocked senders\<close>

text \<open>The peers' steps of a schedule, and a channel without its sleepers: no answer and no other field depends on
  them.\<close>

fun peer_steps :: "'m event list \<Rightarrow> 'm chan_op list" where
  "peer_steps [] = []"
| "peer_steps (Peer x # es) = x # peer_steps es"
| "peer_steps (_ # es) = peer_steps es"

definition content :: "'m channel \<Rightarrow> 'm channel" where
  "content c = c\<lparr>parked := {}\<rparr>"

lemma content_fields:
  assumes "content c = content c'"
  shows "kind c = kind c'" "capacity c = capacity c'" "buffer c = buffer c'" "accepted_count c = accepted_count c'"
    "max_observed_queued c = max_observed_queued c'" "is_closed c = is_closed c'" "is_recovery_closed c = is_recovery_closed c'"
  using assms by (cases c; cases c'; simp add: content_def)+

lemma content_simps [simp]:
  "content (park me c) = content c" "content (elapse d me c) = content c" "content (wake_all c) = content c"
  by (simp_all add: content_def park_def elapse_def wake_all_def)

lemma chan_exec_content:
  assumes "content c = content c'"
  shows "content (snd (chan_exec x c)) = content (snd (chan_exec x c'))" "fst (chan_exec x c) = fst (chan_exec x c')"
proof -
  obtain s where "c' = c\<lparr>parked := s\<rparr>" using assms by (cases c; cases c'; simp add: content_def)
  then show "content (snd (chan_exec x c)) = content (snd (chan_exec x c'))" "fst (chan_exec x c) = fst (chan_exec x c')"
    by (cases x; auto simp: channel_defs content_def split: list.splits sum.splits)+
qed

lemma perform_content:
  "content c = content c' \<Longrightarrow> content (snd (perform chan_exec xs c)) = content (snd (perform chan_exec xs c'))"
proof (induction xs arbitrary: c c')
  case (Cons x xs)
  from Cons.IH [OF chan_exec_content(1) [OF Cons.prems]] show ?case by simp
qed simp

lemma try_send_content:
  assumes "content c = content c'"
  shows "content (snd (try_send_locked m c)) = content (snd (try_send_locked m c'))"
    "fst (try_send_locked m c) = fst (try_send_locked m c')"
  using chan_exec_content [OF assms, of "Attempt_send m"] by (simp_all add: map_prod_def split_beta)

lemma try_send_refused: "try_send_locked m c = (r, c') \<Longrightarrow> r \<noteq> Inr True \<Longrightarrow> c' = c"
  by (auto simp: try_send_locked_def Let_def split: if_splits)

text \<open>Nobody who could go on is left asleep: a sleeping sender faces a channel that is open and full, since every step
  that changes this notifies.\<close>

definition full_and_open :: "'m channel \<Rightarrow> bool" where
  "full_and_open c \<longleftrightarrow> int (length (buffer c)) \<ge> capacity c \<and> \<not> is_closed c \<and> \<not> is_recovery_closed c"

definition rightly_asleep :: "nat \<Rightarrow> 'm channel \<Rightarrow> bool" where
  "rightly_asleep me c \<longleftrightarrow> (me \<in> parked c \<longrightarrow> full_and_open c)"

lemma chan_exec_notifies: "snd (chan_exec x c) = c \<or> parked (snd (chan_exec x c)) = {}"
  by (cases x) (auto simp: channel_defs split: list.splits sum.splits)

lemma rightly_asleep_exec: "rightly_asleep me c \<Longrightarrow> rightly_asleep me (snd (chan_exec x c))"
  using chan_exec_notifies [of x c] by (auto simp: rightly_asleep_def)

lemma full_and_open_iff: "fst (try_send_locked m c) = Inr False \<longleftrightarrow> full_and_open c"
  by (auto simp: try_send_locked_def full_and_open_def Let_def)

lemma full_and_open_content: "content c = content c' \<Longrightarrow> full_and_open c = full_and_open c'"
  using content_fields [of c c'] by (simp add: full_and_open_def)

lemma rightly_asleep_elapse: "rightly_asleep me c \<Longrightarrow> rightly_asleep me (elapse d me c)"
  using full_and_open_content [OF content_simps(2), of d me c] by (auto simp: rightly_asleep_def elapse_def)

lemma rightly_asleep_park: "full_and_open c \<Longrightarrow> rightly_asleep me (park me c)"
  using full_and_open_content [OF content_simps(1), of me c] by (simp add: rightly_asleep_def)

lemma send_loop_turn:
  assumes "me \<notin> parked c"
  shows "send_loop d me m (Turn now # es) c =
    (if full_and_open c
     then if d \<noteq> None \<and> the d \<le> now
       then (Some (Inl (ChannelTimeoutError ''channel send timed out while the bounded buffer stayed full'')), c)
       else send_loop d me m es (park me c)
     else (case fst (try_send_locked m c) of Inl e \<Rightarrow> (Some (Inl e), c) | Inr _ \<Rightarrow> (Some (Inr ()), snd (try_send_locked m c))))"
proof -
  obtain r c' where t: "try_send_locked m c = (r, c')" by (rule prod.exhaust)
  have "r \<noteq> Inr True \<Longrightarrow> c' = c" by (rule try_send_refused [OF t])
  then show ?thesis
    using assms t full_and_open_iff [of m c] by (auto split: sum.splits bool.splits option.splits)
qed

declare send_loop.simps(4) [simp del]

text \<open>What a call does to the channel: one successful attempt after the steps the peers made before it, or nothing.\<close>

definition call_effect :: "'m \<Rightarrow> unit chan_result option \<times> 'm channel \<Rightarrow> 'm channel \<Rightarrow> bool" where
  "call_effect m r p \<longleftrightarrow>
     (if fst r = Some (Inr ())
      then fst (try_send_locked m p) = Inr True \<and> content (snd r) = content (snd (try_send_locked m p))
      else content (snd r) = content p)"

lemma call_effect_content: "content p = content p' \<Longrightarrow> call_effect m r p = call_effect m r p'"
  using try_send_content [of p p' m] by (simp add: call_effect_def)

lemma call_effect_after:
  assumes "content c = content c'" "call_effect m r (snd (perform chan_exec xs c'))"
  shows "call_effect m r (snd (perform chan_exec xs c))"
  using call_effect_content [OF perform_content [OF assms(1)]] assms(2) by blast

lemma send_loop_effect:
  "\<exists>before later. es = before @ later \<and> (fst (send_loop d me m es c) = None \<longrightarrow> later = []) \<and>
     call_effect m (send_loop d me m es c) (snd (perform chan_exec (peer_steps before) c))"
proof (induction es arbitrary: c)
  case Nil
  show ?case by (simp add: call_effect_def)
next
  case (Cons ev es)
  have step: ?case
    if same: "send_loop d me m (ev # es) c = send_loop d me m es c'" and c': "content c' = content (snd (perform chan_exec (peer_steps [ev]) c))"
    for c'
  proof -
    obtain before later where b: "es = before @ later" "fst (send_loop d me m es c') = None \<longrightarrow> later = []"
      "call_effect m (send_loop d me m es c') (snd (perform chan_exec (peer_steps before) c'))"
      using Cons.IH by blast
    have "snd (perform chan_exec (peer_steps (ev # before)) c) =
        snd (perform chan_exec (peer_steps before) (snd (perform chan_exec (peer_steps [ev]) c)))"
      by (cases ev) simp_all
    then have "call_effect m (send_loop d me m es c') (snd (perform chan_exec (peer_steps (ev # before)) c))"
      using call_effect_after [OF c' [symmetric] b(3)] by simp
    then show ?thesis
      using b(1,2) unfolding same by (intro exI [of _ "ev # before"] exI [of _ later]) simp
  qed
  show ?case
  proof (cases ev)
    case (Peer x)
    then show ?thesis by (intro step [of "snd (chan_exec x c)"]) simp_all
  next
    case Elapse
    then show ?thesis by (intro step [of "elapse d me c"]) simp_all
  next
    case (Turn now)
    show ?thesis
    proof (cases "me \<in> parked c \<or> full_and_open c \<and> \<not> (d \<noteq> None \<and> the d \<le> now)")
      case True
      then show ?thesis
      proof (cases "me \<in> parked c")
        case True
        then show ?thesis unfolding Turn by (intro step [of c, unfolded Turn]) (simp_all add: send_loop.simps(4))
      next
        case False
        then show ?thesis
          using \<open>_ \<or> _\<close> unfolding Turn by (intro step [of "park me c", unfolded Turn]) (auto simp: send_loop_turn)
      qed
    next
      case False
      then have "fst (send_loop d me m (ev # es) c) \<noteq> None" "call_effect m (send_loop d me m (ev # es) c) c"
        using full_and_open_iff [of m c] unfolding Turn
        by (auto simp: send_loop_turn call_effect_def split: sum.splits)
      then show ?thesis by (intro exI [of _ "[]"] exI [of _ "ev # es"]) simp
    qed
  qed
qed

lemma send_loop_released:
  assumes "rightly_asleep me c" and "\<not> full_and_open (snd (perform chan_exec (peer_steps es1) c))"
  shows "fst (send_loop d me m (es1 @ Turn now # es2) c) \<noteq> None"
  using assms
proof (induction es1 arbitrary: c)
  case Nil
  then have "me \<notin> parked c" "\<not> full_and_open c" by (auto simp: rightly_asleep_def)
  then show ?case by (simp add: send_loop_turn split: sum.splits)
next
  case (Cons ev es1)
  have same: "\<not> full_and_open (snd (perform chan_exec (peer_steps es1) c'))"
    if "content c' = content c" "\<not> full_and_open (snd (perform chan_exec (peer_steps es1) c))" for c'
    using that full_and_open_content [OF perform_content [OF that(1)]] by blast
  show ?case
  proof (cases ev)
    case (Peer x)
    then show ?thesis using Cons.IH [OF rightly_asleep_exec [OF Cons.prems(1)], of x] Cons.prems(2) by simp
  next
    case Elapse
    then show ?thesis
      using Cons.IH [OF rightly_asleep_elapse [OF Cons.prems(1)] same] Cons.prems(2) by simp
  next
    case (Turn t)
    then have later: "\<not> full_and_open (snd (perform chan_exec (peer_steps es1) c))" using Cons.prems(2) by simp
    show ?thesis
    proof (cases "me \<in> parked c")
      case True
      then show ?thesis using Cons.IH [OF Cons.prems(1) later] by (simp add: Turn send_loop.simps(4))
    next
      case False
      have "fst (send_loop d me m (es1 @ Turn now # es2) (park me c)) \<noteq> None" if "full_and_open c"
        by (rule Cons.IH [OF rightly_asleep_park [OF that] same [OF content_simps(1) later]])
      then show ?thesis unfolding Turn append_Cons send_loop_turn [OF False] by (cases "fst (try_send_locked m c)") auto
    qed
  qed
qed

lemma send_loop_awake:
  assumes "me \<notin> parked c" and "\<forall>t. Turn t \<notin> set es" and "deadline \<le> now"
  shows "fst (send_loop (Some deadline) me m (es @ Turn now # es2) c) \<noteq> None"
  using assms(1,2)
proof (induction es arbitrary: c)
  case Nil
  then show ?case using assms(3) by (simp add: send_loop_turn split: sum.splits)
next
  case (Cons ev es)
  show ?case
  proof (cases ev)
    case (Peer x)
    have "me \<notin> parked (snd (chan_exec x c))" using chan_exec_notifies [of x c] Cons.prems(1) by auto
    then show ?thesis using Cons.IH Cons.prems(2) by (simp add: Peer)
  next
    case Elapse
    have "me \<notin> parked (elapse (Some deadline) me c)" by (simp add: elapse_def)
    then show ?thesis using Cons.IH Cons.prems(2) by (simp add: Elapse)
  next
    case (Turn u)
    then show ?thesis using Cons.prems(2) by auto
  qed
qed

lemma send_loop_later:
  assumes "\<And>c. fst (send_loop d me m es c) \<noteq> None"
  shows "fst (send_loop d me m (es1 @ es) c) \<noteq> None"
proof (induction es1 arbitrary: c)
  case (Cons ev es1)
  show ?case
  proof (cases ev)
    case (Turn now)
    then show ?thesis
      using Cons.IH
      by (cases "me \<in> parked c") (simp add: send_loop.simps(4), simp add: send_loop_turn split: sum.splits)
  qed (use Cons.IH in simp_all)
qed (use assms in simp)

lemma perform_Close:
  assumes "Close \<in> set xs"
  shows "is_closed (snd (perform chan_exec xs c))"
proof -
  obtain ys zs where "xs = ys @ Close # zs"
    using assms by (meson split_list)
  then show ?thesis
    by (simp add: snd_perform_append stays_closed.perform_inv close_def wake_all_def)
qed

lemma send_valid:
  assumes "\<not> loop_active" and "validate_timeout timeout ''channel send timeout'' = Inr t"
  shows "send fadd loop_active monotonic me (Some m) timeout es c =
           send_loop (deadline_of fadd monotonic t) me m es c"
  using assms by (simp add: send_def reject_running_loop_def validate_message_def)

text \<open>C29.  A blocking send outside an event loop, with a concrete message and a valid timeout, by a thread that is not
  asleep, puts its message into the channel exactly once when it returns and never when it raises or has not
  returned: apart from the sleepers the channel is as after the peers' steps before the return, followed by one
  attempt, which succeeds, exactly if the call returned.  And no wake-up is lost: the call has ended at the latest with the
  first turn it gets when the peers' steps have left the channel closed, marked or with room, in particular after
  a peer closed it, or after a timed wait elapsed and the clock shows the deadline.\<close>

theorem send_exactly_once_and_released:
  assumes "\<not> loop_active" and "validate_timeout timeout ''channel send timeout'' = Inr t" and "me \<notin> parked c"
  shows "(\<exists>before later. es = before @ later \<and>
            (fst (send fadd loop_active monotonic me (Some m) timeout es c) = None \<longrightarrow> later = []) \<and>
            (if fst (send fadd loop_active monotonic me (Some m) timeout es c) = Some (Inr ())
             then fst (try_send_locked m (snd (perform chan_exec (peer_steps before) c))) = Inr True \<and>
               content (snd (send fadd loop_active monotonic me (Some m) timeout es c)) =
                 content (snd (try_send_locked m (snd (perform chan_exec (peer_steps before) c))))
             else content (snd (send fadd loop_active monotonic me (Some m) timeout es c)) =
                 content (snd (perform chan_exec (peer_steps before) c)))) \<and>
         (\<forall>es1 now es2. es = es1 @ Turn now # es2 \<and>
              (\<not> full_and_open (snd (perform chan_exec (peer_steps es1) c)) \<or> Peer Close \<in> set es1) \<longrightarrow>
            fst (send fadd loop_active monotonic me (Some m) timeout es c) \<noteq> None) \<and>
         (\<forall>es1 es2 now es3 s. es = es1 @ Elapse # es2 @ Turn now # es3 \<and> (\<forall>u. Turn u \<notin> set es2) \<and>
              t = Some s \<and> fadd monotonic s \<le> now \<longrightarrow>
            fst (send fadd loop_active monotonic me (Some m) timeout es c) \<noteq> None)"
proof (unfold send_valid [OF assms(1,2)], intro conjI allI impI)
  let ?d = "deadline_of fadd monotonic t"
  show "\<exists>before later. es = before @ later \<and> (fst (send_loop ?d me m es c) = None \<longrightarrow> later = []) \<and>
      (if fst (send_loop ?d me m es c) = Some (Inr ())
       then fst (try_send_locked m (snd (perform chan_exec (peer_steps before) c))) = Inr True \<and>
         content (snd (send_loop ?d me m es c)) = content (snd (try_send_locked m (snd (perform chan_exec (peer_steps before) c))))
       else content (snd (send_loop ?d me m es c)) = content (snd (perform chan_exec (peer_steps before) c)))"
    using send_loop_effect [of es ?d me m c] unfolding call_effect_def .
  show "fst (send_loop ?d me m es c) \<noteq> None"
    if "es = es1 @ Turn now # es2 \<and>
      (\<not> full_and_open (snd (perform chan_exec (peer_steps es1) c)) \<or> Peer Close \<in> set es1)" for es1 now es2
  proof -
    have "Close \<in> set (peer_steps es1)" if "Peer Close \<in> set es1"
      using that by (induction es1 rule: peer_steps.induct) auto
    then have "\<not> full_and_open (snd (perform chan_exec (peer_steps es1) c))"
      using that perform_Close by (auto simp: full_and_open_def)
    moreover have "rightly_asleep me c" using assms(3) by (simp add: rightly_asleep_def)
    ultimately have "fst (send_loop ?d me m (es1 @ Turn now # es2) c) \<noteq> None" by (intro send_loop_released)
    then show ?thesis using that by blast
  qed
  show "fst (send_loop ?d me m es c) \<noteq> None"
    if e: "es = es1 @ Elapse # es2 @ Turn now # es3 \<and> (\<forall>u. Turn u \<notin> set es2) \<and> t = Some s \<and> fadd monotonic s \<le> now"
    for es1 es2 now es3 s
  proof -
    have d: "?d = Some (fadd monotonic s)" using e by (simp add: deadline_of_def)
    have "fst (send_loop ?d me m (Elapse # es2 @ Turn now # es3) c) \<noteq> None" for c
      unfolding d send_loop.simps(3) by (rule send_loop_awake) (use e in \<open>simp_all add: elapse_def\<close>)
    from send_loop_later [OF this, of es1 c] show ?thesis using e by blast
  qed
qed

text \<open>A sender that sleeps on a full channel until a peer closes it.\<close>

theorem send_exactly_once_and_released_witness:
  "fst (send (+) False 0 1 (Some 5) None [Peer (Attempt_send 4), Turn 0, Turn 1] example_channel) = None \<and>
   fst (send (+) False 0 1 (Some 5) None ([Peer (Attempt_send 4), Turn 0, Turn 1, Peer Close] @ Turn 2 # []) example_channel) \<noteq> None"
proof
  show "fst (send (+) False 0 1 (Some 5) None [Peer (Attempt_send 4), Turn 0, Turn 1] example_channel) = None" by code_simp
  have "validate_timeout None ''channel send timeout'' = Inr None" "1 \<notin> parked example_channel"
    by (simp_all add: validate_timeout_def example_channel_def)
  from send_exactly_once_and_released [of False None None 1 example_channel
      "[Peer (Attempt_send 4), Turn 0, Turn 1, Peer Close] @ Turn 2 # []" "(+)" 0 5, OF _ this]
  show "fst (send (+) False 0 1 (Some 5) None ([Peer (Attempt_send 4), Turn 0, Turn 1, Peer Close] @ Turn 2 # []) example_channel) \<noteq> None"
    by (metis insertI1 insert_commute list.simps(15))
qed

lemma closed_recvs:
  assumes "is_closed c \<or> is_recovery_closed c"
  shows "fst (perform chan_exec (replicate (length (buffer c)) Attempt_recv @ [Attempt_recv]) c) =
           map (\<lambda>m. Received (Inr (Some m))) (buffer c) @
              [Received (Inl (ChannelClosedError ''channel is closed and fully drained'' 0))]"
  using assms
proof (induction "buffer c" arbitrary: c)
  case Nil
  then show ?case by (simp add: try_recv_locked_def)
next
  case (Cons m ms)
  from Cons.hyps(1) [of "wake_all (c\<lparr>buffer := ms\<rparr>)"] Cons.prems Cons.hyps(2) [symmetric]
  show ?case by (simp add: try_recv_locked_def wake_all_def)
qed

lemma stopped_step:
  "is_closed c \<or> is_recovery_closed c \<Longrightarrow>
     accepted x (fst (chan_exec x c)) = [] \<and>
     (is_closed (snd (chan_exec x c)) \<or> is_recovery_closed (snd (chan_exec x c)))"
  by (cases x) (auto simp: channel_defs split: list.splits sum.splits)

lemma stopped_accepts_nothing:
  "is_closed c \<or> is_recovery_closed c \<Longrightarrow>
     concat (map2 accepted ops (fst (perform chan_exec ops c))) = []"
proof (induction ops arbitrary: c)
  case (Cons x ops)
  show ?case
    using stopped_step [OF Cons.prems, of x] Cons.IH [of "snd (chan_exec x c)"] by simp
qed simp

text \<open>Once a channel is closed or marked with an unknown outcome it accepts nothing more, under any
  further steps, and still delivers exactly what it holds, in order, before raising the closed
  error.\<close>

lemma stopped_channel_delivers_and_refuses:
  assumes "is_closed c \<or> is_recovery_closed c"
  shows "concat (map2 accepted ops (fst (perform chan_exec ops c))) = [] \<and>
         fst (perform chan_exec (replicate (length (buffer c)) Attempt_recv @ [Attempt_recv]) c) =
           map (\<lambda>m. Received (Inr (Some m))) (buffer c) @
              [Received (Inl (ChannelClosedError ''channel is closed and fully drained'' 0))]"
  using assms closed_recvs stopped_accepts_nothing by blast

subsection \<open>The channel set\<close>

lemma close_idem [simp]: "close (close c) = close c"
  by (simp add: close_def wake_all_def)

lemma close_fields [simp]:
  "is_closed (close c)" "buffer (close c) = buffer c" "kind (close c) = kind c"
  "capacity (close c) = capacity c" "max_observed_queued (close c) = max_observed_queued c"
  "accepted_count (close c) = accepted_count c"
  by (auto simp: close_def wake_all_def)

text \<open>A channel set built from valid capacities keeps its four channels in the reported order
  whatever happens to their states, \<^verbatim>\<open>close_all\<close> closes all four, is idempotent, loses no queued
  message and leaves the observable snapshots unchanged, and a later drain of the results and of the
  writer returns all they hold.\<close>

theorem close_all_loses_nothing:
  assumes "make_ChannelSet a r t w = Inr cs0" and "length chans = 4"
    and "cs = cs0\<lparr>report_order := chans\<rparr>"
  shows "list_all is_closed (report_order (close_all cs)) \<and>
         close_all (close_all cs) = close_all cs \<and>
         map buffer (report_order (close_all cs)) = map buffer chans \<and>
         snapshots (close_all cs) = snapshots cs \<and>
         fst (drain_results False (close_all cs)) = Inr (buffer (chans ! 1)) \<and>
         fst (drain_writer False (close_all cs)) = Inr (buffer (chans ! 3))"
proof -
  obtain c0 c1 c2 c3 where chans: "chans = [c0, c1, c2, c3]"
    using assms(2) by (auto simp: length_Suc_conv numeral_eq_Suc)
  have order: "close_order cs = [3, 1, 0, 2]"
    using assms(1,3) by (auto simp: make_ChannelSet_def split: sum.splits)
  have closed: "close_all cs = cs\<lparr>report_order := [close c0, close c1, close c2, close c3]\<rparr>"
    using assms(3) order chans by (simp add: close_all_def close_at_def)
  then have again: "close_all (close_all cs) = close_all cs"
    using order unfolding closed by (simp add: close_all_def close_at_def)
  show ?thesis
    using chans closed again assms(3)
    by (simp add: snapshots_def queued_def drain_results_def drain_writer_def drain_at_def drain_def
        reject_running_loop_def)
qed

theorem close_all_loses_nothing_witness:
  "\<exists>cs0 :: nat ChannelSet. make_ChannelSet 1 2 3 4 = Inr cs0 \<and>
     list_all is_closed (report_order (close_all cs0)) \<and>
     fst (drain_writer False (close_all cs0)) = Inr []"
proof -
  obtain cs0 :: "nat ChannelSet" where cs0: "make_ChannelSet 1 2 3 4 = Inr cs0"
    and four: "length (report_order cs0) = 4" and empty: "buffer (report_order cs0 ! 3) = []"
    by (simp add: make_ChannelSet_def BoundedChannel_def validate_kind_def validate_capacity_def
        CHANNEL_KINDS_def MIN_CHANNEL_CAPACITY_def MAX_CHANNEL_CAPACITY_def)
  show ?thesis
    using cs0 close_all_loses_nothing [OF cs0 four] empty by force
qed

end
