(* ===== verification/Pipeline.thy ===== *)
theory Pipeline
  imports Text_Forms
begin

text \<open>
  Pipeline values (\<^verbatim>\<open>domain/pipeline/values.py\<close>) and the structural contract of pipeline documents
  (\<^verbatim>\<open>application/planner/documents.py\<close>): the constructors with every check they make, in order.

  A stable text value (node kind, port name, partition key) and an identifier is its ASCII text.
  Configuration text is a list of code points (\<open>utext\<close>); \<open>u\<close> embeds ASCII literals.  A configuration
  document (\<^verbatim>\<open>application/ports/configuration.py\<close>) is the list of its items.
\<close>

subsection \<open>Errors of the planner\<close>

text \<open>The exception classes with their messages.  \<open>PlannerOutOfFuel\<close> is no exception: it marks a loop of
  the model that was given too few iterations, and the theorems on the loops exclude it.\<close>

datatype planner_error =
    PlannerTypeError string
  | InvalidPipelineDocumentError string
  | UnsupportedPipelineDocumentVersionError string
  | PortContractError string
  | InvalidPortConnectionError string
  | NodeRegistryError string
  | UnknownNodeKindError string
  | UnsupportedNodeConfigurationVersionError string
  | InvalidNodeConfigurationError string
  | PipelineGraphError string
  | PipelineCycleError string
  | PipelineReachabilityError string
  | DisconnectedPipelineError string
  | InvalidPipelineTerminalError string
  | RepairSafetyError string
  | UnapprovedRepairEffectError string
  | PartitionStrategyError string
  | InvalidPartitionIndexError string
  | ResourcePolicyError string
  | InvalidExecutionPlanError string
  | ConnectorValidationError string
  | MissingConnectorError string
  | MissingConnectorCapabilityError string
  | InvalidConnectorSnapshotError string
  | InvalidPublishedSpecificationError string
  | PlannerOutOfFuel

type_synonym 'a planner_result = "(planner_error, 'a) result"

subsection \<open>Stable text\<close>

text \<open>Separated segments that each start with a character of the head class.\<close>

fun headed_tail :: "(char \<Rightarrow> bool) \<Rightarrow> (char \<Rightarrow> bool) \<Rightarrow> (char \<Rightarrow> bool) \<Rightarrow> string \<Rightarrow> bool"
  and headed_start :: "(char \<Rightarrow> bool) \<Rightarrow> (char \<Rightarrow> bool) \<Rightarrow> (char \<Rightarrow> bool) \<Rightarrow> string \<Rightarrow> bool" where
  "headed_tail head body sep [] = True"
| "headed_tail head body sep (c # cs) =
     (if body c then headed_tail head body sep cs else sep c \<and> headed_start head body sep cs)"
| "headed_start head body sep [] = False"
| "headed_start head body sep (c # cs) = (head c \<and> headed_tail head body sep cs)"

abbreviation lower_or_digit :: "char \<Rightarrow> bool" where
  "lower_or_digit c \<equiv> is_lower c \<or> is_digit c"

definition NODE_KIND_PATTERN :: "string \<Rightarrow> bool" where
  "NODE_KIND_PATTERN = headed_start is_lower lower_or_digit (\<lambda>c. c = CHR ''.'')"

definition PORT_NAME_PATTERN :: "string \<Rightarrow> bool" where
  "PORT_NAME_PATTERN = seg_headed is_lower lower_or_digit (\<lambda>c. c = CHR ''-'')"

definition PARTITION_KEY_PATTERN :: "string \<Rightarrow> bool" where
  "PARTITION_KEY_PATTERN = seg_start lower_or_digit (\<lambda>c. c \<in> set ''-_.:'')"

definition validate_stable_text ::
  "string \<Rightarrow> string \<Rightarrow> (string \<Rightarrow> bool) \<Rightarrow> nat \<Rightarrow> nat \<Rightarrow> (py_error, string) result" where
  "validate_stable_text value subject pattern minimum_length maximum_length =
     (if \<not> list_all is_ascii value
      then Inl (ValueError (subject @ '' must contain only ASCII''))
      else if \<not> (minimum_length \<le> length value \<and> length value \<le> maximum_length)
      then Inl (ValueError (subject @ '' must be between '' @ nat_str minimum_length @ '' and '' @
                  nat_str maximum_length @ '' characters''))
      else if \<not> pattern value
      then Inl (ValueError (subject @ '' must use its canonical lowercase form''))
      else Inr value)"

definition NodeKind :: "string \<Rightarrow> (py_error, string) result" where
  "NodeKind value = validate_stable_text value ''node kind'' NODE_KIND_PATTERN 3 96"

definition PortName :: "string \<Rightarrow> (py_error, string) result" where
  "PortName value = validate_stable_text value ''port name'' PORT_NAME_PATTERN 1 64"

definition PartitionKey :: "string \<Rightarrow> (py_error, string) result" where
  "PartitionKey value = validate_stable_text value ''partition key'' PARTITION_KEY_PATTERN 1 128"

subsection \<open>Configuration documents\<close>

type_synonym utext = "nat list"

definition u :: "string \<Rightarrow> utext" where
  "u s = map of_char s"

lemma u_eq [simp]: "u s = u t \<longleftrightarrow> s = t"
  by (auto simp: u_def inj_map_eq_map inj_def)

datatype DocumentValue =
    DocumentNull
  | DocumentBool bool
  | DocumentInt int
  | DocumentText utext
  | DocumentArray "DocumentValue list"
  | NestedDocumentObject "(utext \<times> DocumentValue) list"

type_synonym ConfigurationDocument = "(utext, DocumentValue) dict"

subsection \<open>Pipeline documents\<close>

definition PIPELINE_DOCUMENT_SCHEMA_VERSION :: int where "PIPELINE_DOCUMENT_SCHEMA_VERSION = 1"
definition MAX_PIPELINE_NODES :: nat where "MAX_PIPELINE_NODES = 256"
definition MAX_PIPELINE_EDGES :: nat where "MAX_PIPELINE_EDGES = 4096"
definition MAX_PIPELINE_LAYOUT_COORDINATE :: int where "MAX_PIPELINE_LAYOUT_COORDINATE = 1000000"
definition MAX_PIPELINE_CONFIGURATION_VERSION :: int where
  "MAX_PIPELINE_CONFIGURATION_VERSION = 2147483647"

record PipelineEdge =
  source_node_id :: string
  source_port :: string
  target_node_id :: string
  target_port :: string

record PipelineNodeSpecification =
  node_id :: string
  kind :: string
  configuration_version :: int
  configuration :: ConfigurationDocument
  connector_id :: "string option"

definition make_node ::
  "string \<Rightarrow> string \<Rightarrow> int \<Rightarrow> ConfigurationDocument \<Rightarrow> string option \<Rightarrow>
     PipelineNodeSpecification planner_result" where
  "make_node nid k version config connector =
     bind_result (require (1 \<le> version \<and> version \<le> MAX_PIPELINE_CONFIGURATION_VERSION)
        (InvalidPipelineDocumentError
           ''pipeline node configuration version is outside the supported range''))
     (\<lambda>_. Inr \<lparr>node_id = nid, kind = k, configuration_version = version, configuration = config,
               connector_id = connector\<rparr>)"

record PipelineNodeLayout =
  layout_node_id :: string
  layout_x :: int
  layout_y :: int

definition validate_layout_coordinate :: "int \<Rightarrow> string \<Rightarrow> unit planner_result" where
  "validate_layout_coordinate value axis =
     require (- MAX_PIPELINE_LAYOUT_COORDINATE \<le> value \<and> value \<le> MAX_PIPELINE_LAYOUT_COORDINATE)
       (InvalidPipelineDocumentError
          (''pipeline layout '' @ axis @ '' coordinate is outside the supported range''))"

definition make_layout :: "string \<Rightarrow> int \<Rightarrow> int \<Rightarrow> PipelineNodeLayout planner_result" where
  "make_layout nid x y =
     bind_result (validate_layout_coordinate x ''x'') (\<lambda>_.
     bind_result (validate_layout_coordinate y ''y'') (\<lambda>_.
     Inr \<lparr>layout_node_id = nid, layout_x = x, layout_y = y\<rparr>))"

record PipelineDocument =
  nodes :: "PipelineNodeSpecification list"
  edges :: "PipelineEdge list"
  resource_policy :: ConfigurationDocument
  layout :: "PipelineNodeLayout list"
  schema_version :: int
  canonical_format_version :: int

definition edge_key :: "PipelineEdge \<Rightarrow> string \<times> string \<times> string \<times> string" where
  "edge_key e = (source_node_id e, source_port e, target_node_id e, target_port e)"

definition require_supported_version :: "int \<Rightarrow> int \<Rightarrow> string \<Rightarrow> unit planner_result" where
  "require_supported_version value supported subject =
     require (value = supported)
       (UnsupportedPipelineDocumentVersionError (subject @ '' is unsupported''))"

definition require_unique :: "'a list \<Rightarrow> string \<Rightarrow> unit planner_result" where
  "require_unique values subject =
     require (card (set values) = length values)
       (InvalidPipelineDocumentError (subject @ '' must be unique''))"

definition make_document ::
  "PipelineNodeSpecification list \<Rightarrow> PipelineEdge list \<Rightarrow> ConfigurationDocument \<Rightarrow>
     PipelineNodeLayout list \<Rightarrow> int \<Rightarrow> int \<Rightarrow> PipelineDocument planner_result" where
  "make_document ns es policy ls schema canonical =
     bind_result (require_supported_version schema PIPELINE_DOCUMENT_SCHEMA_VERSION
        ''pipeline document schema version'') (\<lambda>_.
     bind_result (require_supported_version canonical 1 ''pipeline canonical format version'') (\<lambda>_.
     bind_result (require (ns \<noteq> [])
        (InvalidPipelineDocumentError ''pipeline document requires at least one node'')) (\<lambda>_.
     bind_result (require (length ns \<le> MAX_PIPELINE_NODES)
        (InvalidPipelineDocumentError ''pipeline document exceeds the node limit'')) (\<lambda>_.
     bind_result (require (length es \<le> MAX_PIPELINE_EDGES)
        (InvalidPipelineDocumentError ''pipeline document exceeds the edge limit'')) (\<lambda>_.
     let node_ids = map node_id ns in
     bind_result (require_unique node_ids ''pipeline node identities'') (\<lambda>_.
     bind_result (require_unique (map edge_key es) ''pipeline edges'') (\<lambda>_.
     bind_result (require (\<not> list_ex (\<lambda>e. source_node_id e \<notin> set node_ids \<or>
                                         target_node_id e \<notin> set node_ids) es)
        (InvalidPipelineDocumentError ''pipeline edge references an unknown node'')) (\<lambda>_.
     let layout_ids = map layout_node_id ls in
     bind_result (require_unique layout_ids ''pipeline layout node identities'') (\<lambda>_.
     bind_result (require (\<not> list_ex (\<lambda>n. n \<notin> set node_ids) layout_ids)
        (InvalidPipelineDocumentError ''pipeline layout references an unknown node'')) (\<lambda>_.
     Inr \<lparr>nodes = sort_key node_id ns, edges = sort_key edge_key es, resource_policy = policy,
          layout = sort_key layout_node_id ls, schema_version = schema,
          canonical_format_version = canonical\<rparr>))))))))))"

subsection \<open>What a constructed document guarantees\<close>

text \<open>The edges of a document as pairs of nodes, in the document's order.\<close>

definition node_ids :: "PipelineDocument \<Rightarrow> string list" where
  "node_ids d = map node_id (nodes d)"

definition edge_pairs :: "PipelineDocument \<Rightarrow> (string \<times> string) list" where
  "edge_pairs d = map (\<lambda>e. (source_node_id e, target_node_id e)) (edges d)"

definition document_ok :: "PipelineDocument \<Rightarrow> bool" where
  "document_ok d \<longleftrightarrow>
     nodes d \<noteq> [] \<and> length (nodes d) \<le> MAX_PIPELINE_NODES \<and> length (edges d) \<le> MAX_PIPELINE_EDGES \<and>
     distinct (node_ids d) \<and> sorted (node_ids d) \<and>
     distinct (map edge_key (edges d)) \<and> sorted (map edge_key (edges d)) \<and>
     set (edge_pairs d) \<subseteq> set (node_ids d) \<times> set (node_ids d)"

lemma card_eq_length_iff: "card (set xs) = length xs \<longleftrightarrow> distinct xs"
  using card_distinct distinct_card by blast

lemma require_unique_eq_Inr [result_simps]: "require_unique values subject = Inr x \<longleftrightarrow> distinct values"
  by (simp add: require_unique_def result_simps card_eq_length_iff)

lemma sort_key_eq_Nil: "sort_key f xs = [] \<longleftrightarrow> xs = []"
  by (metis length_0_conv length_sort)

lemma make_document_ok:
  assumes "make_document ns es policy ls schema canonical = Inr d"
  shows "document_ok d"
  using assms
  by (auto simp: make_document_def result_simps Let_def document_ok_def node_ids_def edge_pairs_def
      distinct_map_sort_key list_ex_iff sort_key_eq_Nil)

end
