(* ===== verification/Registry.thy ===== *)
theory Registry
  imports Pipeline
begin

text \<open>
  The typed ports (\<^verbatim>\<open>application/planner/ports.py\<close>), the closed node registry
  (\<^verbatim>\<open>application/planner/registry.py\<close>) and the validation of port connections
  (\<^verbatim>\<open>application/planner/port_validation.py\<close>).  The module-level constants of the registry are built
  by the same constructors as in the code, so they are results; \<open>BUILTIN_NODE_REGISTRY_built\<close> shows
  that none of their checks fails.
\<close>

subsection \<open>Ports\<close>

definition MAX_NODE_INPUT_PORTS :: nat where "MAX_NODE_INPUT_PORTS = 32"
definition MAX_NODE_OUTPUT_PORTS :: nat where "MAX_NODE_OUTPUT_PORTS = 32"
definition MAX_INPUT_ACCEPTED_TYPES :: nat where "MAX_INPUT_ACCEPTED_TYPES = 16"
definition MAX_INPUT_CONNECTIONS :: int where "MAX_INPUT_CONNECTIONS = 256"

datatype PortValueType =
    RAW_RECORDS | NORMALIZED_RECORDS | VALIDATED_RECORDS | PARTITIONED_RECORDS
  | RECONCILIATION | REPAIR_PLAN | APPROVED_REPAIR_PLAN | REPAIR_RESULT | VERIFICATION

fun PortValueType_value :: "PortValueType \<Rightarrow> string" where
  "PortValueType_value RAW_RECORDS = ''records.raw''"
| "PortValueType_value NORMALIZED_RECORDS = ''records.normalized''"
| "PortValueType_value VALIDATED_RECORDS = ''records.validated''"
| "PortValueType_value PARTITIONED_RECORDS = ''records.partitioned''"
| "PortValueType_value RECONCILIATION = ''reconciliation.result''"
| "PortValueType_value REPAIR_PLAN = ''repair.plan''"
| "PortValueType_value APPROVED_REPAIR_PLAN = ''repair.plan.approved''"
| "PortValueType_value REPAIR_RESULT = ''repair.result''"
| "PortValueType_value VERIFICATION = ''verification.result''"

record InputPortDefinition =
  input_name :: string
  accepted_types :: "PortValueType list"
  required :: bool
  maximum_connections :: int

record OutputPortDefinition =
  output_name :: string
  value_type :: PortValueType

record NodePortSchema =
  inputs :: "InputPortDefinition list"
  outputs :: "OutputPortDefinition list"

definition port_require_unique :: "'a list \<Rightarrow> string \<Rightarrow> unit planner_result" where
  "port_require_unique values subject =
     require (card (set values) = length values) (PortContractError (subject @ '' must be unique''))"

definition make_InputPortDefinition ::
  "string \<Rightarrow> PortValueType list \<Rightarrow> bool \<Rightarrow> int \<Rightarrow> InputPortDefinition planner_result" where
  "make_InputPortDefinition name accepted req maximum =
     bind_result (require (accepted \<noteq> [])
        (PortContractError ''input port requires at least one accepted type'')) (\<lambda>_.
     bind_result (require (length accepted \<le> MAX_INPUT_ACCEPTED_TYPES)
        (PortContractError ''input port exceeds the accepted type limit'')) (\<lambda>_.
     bind_result (port_require_unique accepted ''input port accepted types'') (\<lambda>_.
     bind_result (require (1 \<le> maximum \<and> maximum \<le> MAX_INPUT_CONNECTIONS)
        (PortContractError ''input port maximum connections is outside the limit'')) (\<lambda>_.
     Inr \<lparr>input_name = name, accepted_types = sort_key PortValueType_value accepted,
          required = req, maximum_connections = maximum\<rparr>))))"

definition accepts :: "InputPortDefinition \<Rightarrow> PortValueType \<Rightarrow> bool" where
  "accepts port vt \<longleftrightarrow> vt \<in> set (accepted_types port)"

definition make_NodePortSchema ::
  "InputPortDefinition list \<Rightarrow> OutputPortDefinition list \<Rightarrow> NodePortSchema planner_result" where
  "make_NodePortSchema ins outs =
     bind_result (require (length ins \<le> MAX_NODE_INPUT_PORTS)
        (PortContractError ''node exceeds the input port limit'')) (\<lambda>_.
     bind_result (require (length outs \<le> MAX_NODE_OUTPUT_PORTS)
        (PortContractError ''node exceeds the output port limit'')) (\<lambda>_.
     bind_result (port_require_unique (map input_name ins) ''node input port names'') (\<lambda>_.
     bind_result (port_require_unique (map output_name outs) ''node output port names'') (\<lambda>_.
     Inr \<lparr>inputs = sort_key input_name ins, outputs = sort_key output_name outs\<rparr>))))"

definition schema_input :: "NodePortSchema \<Rightarrow> string \<Rightarrow> InputPortDefinition option" where
  "schema_input schema name = find (\<lambda>item. input_name item = name) (inputs schema)"

definition schema_output :: "NodePortSchema \<Rightarrow> string \<Rightarrow> OutputPortDefinition option" where
  "schema_output schema name = find (\<lambda>item. output_name item = name) (outputs schema)"

subsection \<open>Node definitions\<close>

definition NODE_REGISTRY_VERSION :: int where "NODE_REGISTRY_VERSION = 1"
definition MAX_NODE_REGISTRY_DEFINITIONS :: nat where "MAX_NODE_REGISTRY_DEFINITIONS = 128"
definition MAX_NODE_CONFIGURATION_FIELDS :: nat where "MAX_NODE_CONFIGURATION_FIELDS = 64"
definition MAX_NODE_CONFIGURATION_FIELD_LENGTH :: nat where
  "MAX_NODE_CONFIGURATION_FIELD_LENGTH = 64"

datatype NodeRole =
    Role_SOURCE | Role_TRANSFORM | Role_RECONCILIATION | Role_REPAIR_PLAN | Role_APPROVAL
  | Role_REPAIR_EFFECT | Role_VERIFICATION | Role_EXPORT

datatype ConnectorRequirement = Connector_NONE | Connector_SOURCE | Connector_TARGET

datatype RetryBehavior = Retry_NEVER | Retry_CONNECTOR

datatype PlannerRunnerKind =
    Runner_SEQUENTIAL | Runner_THREADED | Runner_ASYNCIO | Runner_PROCESS

fun PlannerRunnerKind_value :: "PlannerRunnerKind \<Rightarrow> string" where
  "PlannerRunnerKind_value Runner_SEQUENTIAL = ''sequential''"
| "PlannerRunnerKind_value Runner_THREADED = ''threaded''"
| "PlannerRunnerKind_value Runner_ASYNCIO = ''asyncio''"
| "PlannerRunnerKind_value Runner_PROCESS = ''process''"

datatype NodeConfigurationValueKind = Kind_BOOLEAN | Kind_INTEGER | Kind_TEXT

record NodeConfigurationField =
  field_name :: string
  value_kind :: NodeConfigurationValueKind
  field_required :: bool

definition CONFIGURATION_FIELD_PATTERN :: "string \<Rightarrow> bool" where
  "CONFIGURATION_FIELD_PATTERN = seg_headed is_lower lower_or_digit (\<lambda>c. c = CHR ''_'')"

definition make_NodeConfigurationField ::
  "string \<Rightarrow> NodeConfigurationValueKind \<Rightarrow> bool \<Rightarrow> NodeConfigurationField planner_result" where
  "make_NodeConfigurationField name vk req =
     bind_result (require (1 \<le> length name \<and> length name \<le> MAX_NODE_CONFIGURATION_FIELD_LENGTH)
        (NodeRegistryError ''node configuration field name is outside the size limit'')) (\<lambda>_.
     bind_result (require (list_all is_ascii name \<and> CONFIGURATION_FIELD_PATTERN name)
        (NodeRegistryError ''node configuration field name must use canonical snake case'')) (\<lambda>_.
     Inr \<lparr>field_name = name, value_kind = vk, field_required = req\<rparr>))"

record NodeConfigurationSchema =
  schema_config_version :: int
  config_fields :: "NodeConfigurationField list"

definition registry_require_unique :: "'a list \<Rightarrow> string \<Rightarrow> unit planner_result" where
  "registry_require_unique values subject =
     require (card (set values) = length values) (NodeRegistryError (subject @ '' must be unique''))"

definition make_NodeConfigurationSchema ::
  "int \<Rightarrow> NodeConfigurationField list \<Rightarrow> NodeConfigurationSchema planner_result" where
  "make_NodeConfigurationSchema version fs =
     bind_result (require (1 \<le> version \<and> version \<le> 2147483647)
        (NodeRegistryError ''node configuration schema version is outside the supported range''))
     (\<lambda>_.
     bind_result (require (length fs \<le> MAX_NODE_CONFIGURATION_FIELDS)
        (NodeRegistryError ''node configuration schema exceeds the field limit'')) (\<lambda>_.
     bind_result (registry_require_unique (map field_name fs) ''node configuration field names'')
     (\<lambda>_. Inr \<lparr>schema_config_version = version, config_fields = sort_key field_name fs\<rparr>)))"

definition matches_value_kind :: "DocumentValue \<Rightarrow> NodeConfigurationValueKind \<Rightarrow> bool" where
  "matches_value_kind value vk =
     (case vk of
        Kind_BOOLEAN \<Rightarrow> (case value of DocumentBool _ \<Rightarrow> True | _ \<Rightarrow> False)
      | Kind_INTEGER \<Rightarrow> (case value of DocumentInt _ \<Rightarrow> True | _ \<Rightarrow> False)
      | Kind_TEXT \<Rightarrow> (case value of DocumentText _ \<Rightarrow> True | _ \<Rightarrow> False))"

text \<open>\<^verbatim>\<open>definitions[name].value_kind\<close> is only reached for names that are known.\<close>

definition schema_validate :: "NodeConfigurationSchema \<Rightarrow> ConfigurationDocument \<Rightarrow> unit planner_result"
where
  "schema_validate schema document =
     (let definitions = map (\<lambda>f. (u (field_name f), f)) (config_fields schema) in
     bind_result (require
        (filter (\<lambda>f. field_required f \<and> u (field_name f) \<notin> set (keys document)) (config_fields schema) = [])
        (InvalidNodeConfigurationError ''node configuration is missing required fields'')) (\<lambda>_.
     bind_result (require (set (keys document) - set (keys definitions) = {})
        (InvalidNodeConfigurationError ''node configuration contains unknown fields'')) (\<lambda>_.
     require (\<not> list_ex (\<lambda>(name, value).
          \<not> matches_value_kind value (value_kind (the (map_of definitions name)))) document)
        (InvalidNodeConfigurationError ''node configuration contains an invalid field value''))))"

record NodeDefinition =
  def_kind :: string
  role :: NodeRole
  configuration_schema :: NodeConfigurationSchema
  port_schema :: NodePortSchema
  connector_requirement :: ConnectorRequirement
  supported_runners :: "PlannerRunnerKind list"
  retry_behavior :: RetryBehavior
  requires_idempotency :: bool

definition make_NodeDefinition ::
  "string \<Rightarrow> NodeRole \<Rightarrow> NodeConfigurationSchema \<Rightarrow> NodePortSchema \<Rightarrow> ConnectorRequirement \<Rightarrow>
     PlannerRunnerKind list \<Rightarrow> RetryBehavior \<Rightarrow> bool \<Rightarrow> NodeDefinition planner_result" where
  "make_NodeDefinition k r cs ps cr runners rb idem =
     bind_result (require (runners \<noteq> [])
        (NodeRegistryError ''node definition requires at least one supported runner'')) (\<lambda>_.
     bind_result (registry_require_unique runners ''node definition supported runners'') (\<lambda>_.
     bind_result (require (\<not> (r = Role_REPAIR_EFFECT \<and> \<not> idem))
        (NodeRegistryError ''repair effect nodes must require idempotency'')) (\<lambda>_.
     Inr \<lparr>def_kind = k, role = r, configuration_schema = cs, port_schema = ps,
          connector_requirement = cr,
          supported_runners = sort_key PlannerRunnerKind_value runners,
          retry_behavior = rb, requires_idempotency = idem\<rparr>)))"

record NodeRegistry =
  definitions :: "NodeDefinition list"
  registry_version :: int

definition make_NodeRegistry :: "NodeDefinition list \<Rightarrow> int \<Rightarrow> NodeRegistry planner_result" where
  "make_NodeRegistry defs version =
     bind_result (require (version = NODE_REGISTRY_VERSION)
        (NodeRegistryError ''node registry version is unsupported'')) (\<lambda>_.
     bind_result (require (defs \<noteq> [])
        (NodeRegistryError ''node registry requires at least one definition'')) (\<lambda>_.
     bind_result (require (length defs \<le> MAX_NODE_REGISTRY_DEFINITIONS)
        (NodeRegistryError ''node registry exceeds the definition limit'')) (\<lambda>_.
     bind_result (registry_require_unique (map def_kind defs) ''node registry kinds'') (\<lambda>_.
     Inr \<lparr>definitions = sort_key def_kind defs, registry_version = version\<rparr>))))"

definition registry_get :: "NodeRegistry \<Rightarrow> string \<Rightarrow> NodeDefinition option" where
  "registry_get reg k = find (\<lambda>d. def_kind d = k) (definitions reg)"

definition registry_require :: "NodeRegistry \<Rightarrow> string \<Rightarrow> int \<Rightarrow> NodeDefinition planner_result" where
  "registry_require reg k version =
     (case registry_get reg k of
        None \<Rightarrow> Inl (UnknownNodeKindError ''pipeline node kind is not registered'')
      | Some d \<Rightarrow>
          bind_result (require (version = schema_config_version (configuration_schema d))
            (UnsupportedNodeConfigurationVersionError
               ''pipeline node configuration version is unsupported''))
          (\<lambda>_. Inr d))"

subsection \<open>The built-in registry\<close>

definition STANDARD_RUNNERS :: "PlannerRunnerKind list" where
  "STANDARD_RUNNERS = [Runner_SEQUENTIAL, Runner_THREADED, Runner_ASYNCIO]"

definition CPU_RUNNERS :: "PlannerRunnerKind list" where
  "CPU_RUNNERS = STANDARD_RUNNERS @ [Runner_PROCESS]"

text \<open>A schema of version 1 with the listed fields.\<close>

definition config_v1 ::
  "(string \<times> NodeConfigurationValueKind) list \<Rightarrow> NodeConfigurationSchema planner_result" where
  "config_v1 fs =
     bind_result (map_result (\<lambda>(name, vk). make_NodeConfigurationField name vk False) fs)
       (make_NodeConfigurationSchema 1)"

definition EMPTY_CONFIGURATION_V1 :: "(string \<times> NodeConfigurationValueKind) list" where
  "EMPTY_CONFIGURATION_V1 = []"
definition HTTP_SOURCE_CONFIGURATION_V1 :: "(string \<times> NodeConfigurationValueKind) list" where
  "HTTP_SOURCE_CONFIGURATION_V1 = [(''page_size'', Kind_INTEGER)]"
definition CSV_SOURCE_CONFIGURATION_V1 :: "(string \<times> NodeConfigurationValueKind) list" where
  "CSV_SOURCE_CONFIGURATION_V1 = [(''encoding'', Kind_TEXT), (''header'', Kind_BOOLEAN)]"
definition JSONL_SOURCE_CONFIGURATION_V1 :: "(string \<times> NodeConfigurationValueKind) list" where
  "JSONL_SOURCE_CONFIGURATION_V1 = [(''encoding'', Kind_TEXT)]"
definition PARTITION_CONFIGURATION_V1 :: "(string \<times> NodeConfigurationValueKind) list" where
  "PARTITION_CONFIGURATION_V1 = [(''partition_count'', Kind_INTEGER)]"
definition EXPORT_CONFIGURATION_V1 :: "(string \<times> NodeConfigurationValueKind) list" where
  "EXPORT_CONFIGURATION_V1 = [(''compression'', Kind_TEXT)]"

text \<open>The schema of at most one input, with its accepted types, and at most one output.\<close>

definition ports ::
  "(string \<times> PortValueType list) list \<Rightarrow> (string \<times> PortValueType) list \<Rightarrow>
     NodePortSchema planner_result" where
  "ports ins outs =
     bind_result (map_result (\<lambda>(name, ts). make_InputPortDefinition name ts True 1) ins) (\<lambda>is.
     make_NodePortSchema is (map (\<lambda>(name, t). \<lparr>output_name = name, value_type = t\<rparr>) outs))"

definition SOURCE_PORTS where "SOURCE_PORTS = ports [] [(''records'', RAW_RECORDS)]"
definition NORMALIZE_PORTS where
  "NORMALIZE_PORTS = ports [(''records'', [RAW_RECORDS])] [(''records'', NORMALIZED_RECORDS)]"
definition VALIDATE_PORTS where
  "VALIDATE_PORTS = ports [(''records'', [NORMALIZED_RECORDS])] [(''records'', VALIDATED_RECORDS)]"
definition PARTITION_PORTS where
  "PARTITION_PORTS = ports [(''records'', [VALIDATED_RECORDS])] [(''records'', PARTITIONED_RECORDS)]"
definition RECONCILE_PORTS where
  "RECONCILE_PORTS =
     ports [(''records'', [NORMALIZED_RECORDS, VALIDATED_RECORDS, PARTITIONED_RECORDS])]
       [(''reconciliation'', RECONCILIATION)]"
definition REPAIR_GENERATE_PORTS where
  "REPAIR_GENERATE_PORTS =
     ports [(''reconciliation'', [RECONCILIATION])] [(''repair-plan'', REPAIR_PLAN)]"
definition REPAIR_APPROVAL_PORTS where
  "REPAIR_APPROVAL_PORTS =
     ports [(''repair-plan'', [REPAIR_PLAN])] [(''approved-plan'', APPROVED_REPAIR_PLAN)]"
definition REPAIR_APPLY_PORTS where
  "REPAIR_APPLY_PORTS =
     ports [(''approved-plan'', [APPROVED_REPAIR_PLAN])] [(''repair-result'', REPAIR_RESULT)]"
definition VERIFY_PORTS where
  "VERIFY_PORTS = ports [(''repair-result'', [REPAIR_RESULT])] [(''verification'', VERIFICATION)]"
definition EXPORT_PORTS where
  "EXPORT_PORTS =
     ports [(''records'',
             [RAW_RECORDS, NORMALIZED_RECORDS, VALIDATED_RECORDS, PARTITIONED_RECORDS])] []"

definition node_definition ::
  "string \<Rightarrow> NodeRole \<Rightarrow> (string \<times> NodeConfigurationValueKind) list \<Rightarrow>
     NodePortSchema planner_result \<Rightarrow> ConnectorRequirement \<Rightarrow> PlannerRunnerKind list \<Rightarrow>
     RetryBehavior \<Rightarrow> bool \<Rightarrow> NodeDefinition planner_result" where
  "node_definition k r config ps cr runners rb idem =
     bind_result (config_v1 config) (\<lambda>cs.
     bind_result ps (\<lambda>ps.
     bind_result (case NodeKind k of Inl (ValueError m) \<Rightarrow> Inl (NodeRegistryError m)
                    | Inl (TypeError m) \<Rightarrow> Inl (PlannerTypeError m) | Inr v \<Rightarrow> Inr v) (\<lambda>k.
     make_NodeDefinition k r cs ps cr runners rb idem)))"

definition builtin_definitions :: "NodeDefinition planner_result list" where
  "builtin_definitions =
    [node_definition ''source.http.async'' Role_SOURCE HTTP_SOURCE_CONFIGURATION_V1 SOURCE_PORTS
       Connector_SOURCE STANDARD_RUNNERS Retry_CONNECTOR False,
     node_definition ''source.http.blocking'' Role_SOURCE HTTP_SOURCE_CONFIGURATION_V1 SOURCE_PORTS
       Connector_SOURCE STANDARD_RUNNERS Retry_CONNECTOR False,
     node_definition ''source.csv'' Role_SOURCE CSV_SOURCE_CONFIGURATION_V1 SOURCE_PORTS
       Connector_SOURCE STANDARD_RUNNERS Retry_CONNECTOR False,
     node_definition ''source.jsonl'' Role_SOURCE JSONL_SOURCE_CONFIGURATION_V1 SOURCE_PORTS
       Connector_SOURCE STANDARD_RUNNERS Retry_CONNECTOR False,
     node_definition ''transform.normalize'' Role_TRANSFORM EMPTY_CONFIGURATION_V1 NORMALIZE_PORTS
       Connector_NONE CPU_RUNNERS Retry_NEVER False,
     node_definition ''transform.validate'' Role_TRANSFORM EMPTY_CONFIGURATION_V1 VALIDATE_PORTS
       Connector_NONE CPU_RUNNERS Retry_NEVER False,
     node_definition ''transform.partition'' Role_TRANSFORM PARTITION_CONFIGURATION_V1
       PARTITION_PORTS Connector_NONE CPU_RUNNERS Retry_NEVER False,
     node_definition ''reconcile.target'' Role_RECONCILIATION EMPTY_CONFIGURATION_V1 RECONCILE_PORTS
       Connector_TARGET STANDARD_RUNNERS Retry_CONNECTOR False,
     node_definition ''repair.generate'' Role_REPAIR_PLAN EMPTY_CONFIGURATION_V1
       REPAIR_GENERATE_PORTS Connector_NONE CPU_RUNNERS Retry_NEVER False,
     node_definition ''repair.approval'' Role_APPROVAL EMPTY_CONFIGURATION_V1 REPAIR_APPROVAL_PORTS
       Connector_NONE STANDARD_RUNNERS Retry_NEVER False,
     node_definition ''repair.apply'' Role_REPAIR_EFFECT EMPTY_CONFIGURATION_V1 REPAIR_APPLY_PORTS
       Connector_TARGET STANDARD_RUNNERS Retry_CONNECTOR True,
     node_definition ''verify.target'' Role_VERIFICATION EMPTY_CONFIGURATION_V1 VERIFY_PORTS
       Connector_TARGET STANDARD_RUNNERS Retry_CONNECTOR False,
     node_definition ''export.parquet'' Role_EXPORT EXPORT_CONFIGURATION_V1 EXPORT_PORTS
       Connector_NONE STANDARD_RUNNERS Retry_NEVER False]"

definition BUILTIN_NODE_REGISTRY :: "NodeRegistry planner_result" where
  "BUILTIN_NODE_REGISTRY =
     bind_result (map_result id builtin_definitions)
       (\<lambda>defs. make_NodeRegistry defs NODE_REGISTRY_VERSION)"

definition registered_node_definition :: "string \<Rightarrow> int \<Rightarrow> NodeDefinition planner_result" where
  "registered_node_definition k version =
     bind_result BUILTIN_NODE_REGISTRY (\<lambda>reg. registry_require reg k version)"

definition validate_registered_nodes :: "PipelineDocument \<Rightarrow> unit planner_result" where
  "validate_registered_nodes document =
     check_all (\<lambda>node.
       bind_result (registered_node_definition (kind node) (configuration_version node)) (\<lambda>d.
       schema_validate (configuration_schema d) (configuration node))) (nodes document)"

subsection \<open>Port validation\<close>

text \<open>The dictionary \<^verbatim>\<open>{node.node_id: registered_node_definition(...)}\<close> of a document.\<close>

definition document_definitions :: "PipelineDocument \<Rightarrow> (string, NodeDefinition) dict planner_result" where
  "document_definitions document =
     map_result (\<lambda>node.
       bind_result (registered_node_definition (kind node) (configuration_version node))
         (\<lambda>d. Inr (node_id node, d))) (nodes document)"

definition definition_at :: "(string, NodeDefinition) dict \<Rightarrow> string \<Rightarrow> NodeDefinition" where
  "definition_at defs n = the (map_of defs n)"

definition ports_are_compatible :: "OutputPortDefinition \<Rightarrow> InputPortDefinition \<Rightarrow> bool" where
  "ports_are_compatible source target = accepts target (value_type source)"

text \<open>The loop over the edges with its \<^verbatim>\<open>Counter\<close> of connections.\<close>

fun connect_edges ::
  "(string, NodeDefinition) dict \<Rightarrow> PipelineEdge list \<Rightarrow> (string \<times> string \<Rightarrow> int) \<Rightarrow>
     (string \<times> string \<Rightarrow> int) planner_result" where
  "connect_edges defs [] incoming = Inr incoming"
| "connect_edges defs (e # es) incoming =
     (case schema_output (port_schema (definition_at defs (source_node_id e))) (source_port e) of
        None \<Rightarrow> Inl (InvalidPortConnectionError ''pipeline edge source port is not declared'')
      | Some source \<Rightarrow>
     (case schema_input (port_schema (definition_at defs (target_node_id e))) (target_port e) of
        None \<Rightarrow> Inl (InvalidPortConnectionError ''pipeline edge target port is not declared'')
      | Some target \<Rightarrow>
          if \<not> ports_are_compatible source target
          then Inl (InvalidPortConnectionError ''pipeline edge port types are incompatible'')
          else
            let key = (target_node_id e, target_port e);
                incoming' = incoming(key := incoming key + 1) in
            if incoming' key > maximum_connections target
            then Inl (InvalidPortConnectionError ''pipeline input exceeds its connection limit'')
            else connect_edges defs es incoming'))"

definition missing_inputs ::
  "(string, NodeDefinition) dict \<Rightarrow> (string \<times> string \<Rightarrow> int) \<Rightarrow> PipelineDocument \<Rightarrow>
     (string \<times> string) list" where
  "missing_inputs defs incoming document =
     concat (map (\<lambda>node.
       map (\<lambda>port. (node_id node, input_name port))
         (filter (\<lambda>port. required port \<and> incoming (node_id node, input_name port) = 0)
            (inputs (port_schema (definition_at defs (node_id node)))))) (nodes document))"

definition validate_typed_ports :: "PipelineDocument \<Rightarrow> unit planner_result" where
  "validate_typed_ports document =
     bind_result (document_definitions document) (\<lambda>defs.
     bind_result (connect_edges defs (edges document) (\<lambda>_. 0)) (\<lambda>incoming.
     require (missing_inputs defs incoming document = [])
       (InvalidPortConnectionError ''pipeline node is missing a required input connection'')))"

subsection \<open>What the built-in registry guarantees\<close>

text \<open>The stage of a payload: every node turns its inputs into later payloads.\<close>

fun stage :: "PortValueType \<Rightarrow> nat" where
  "stage RAW_RECORDS = 0"
| "stage NORMALIZED_RECORDS = 1"
| "stage VALIDATED_RECORDS = 2"
| "stage PARTITIONED_RECORDS = 3"
| "stage RECONCILIATION = 4"
| "stage REPAIR_PLAN = 5"
| "stage APPROVED_REPAIR_PLAN = 6"
| "stage REPAIR_RESULT = 7"
| "stage VERIFICATION = 8"

text \<open>The facts of one definition that the planner's theorems use.\<close>

definition definition_facts :: "NodeDefinition \<Rightarrow> bool" where
  "definition_facts d \<longleftrightarrow>
     (let ps = port_schema d in
      list_all (\<lambda>i. list_all (\<lambda>t. list_all (\<lambda>q. stage t < stage (value_type q)) (outputs ps))
        (accepted_types i)) (inputs ps) \<and>
      list_all (\<lambda>q. value_type q = APPROVED_REPAIR_PLAN \<longrightarrow> role d = Role_APPROVAL) (outputs ps) \<and>
      (role d = Role_REPAIR_EFFECT \<longrightarrow>
         inputs ps \<noteq> [] \<and>
         list_all (\<lambda>i. required i \<and> accepted_types i = [APPROVED_REPAIR_PLAN]) (inputs ps)) \<and>
      list_all required (inputs ps) \<and> length (outputs ps) \<le> 1 \<and>
      (role d = Role_SOURCE \<longleftrightarrow> inputs ps = []) \<and>
      supported_runners d \<noteq> [] \<and> distinct (supported_runners d) \<and>
      sort_key PlannerRunnerKind_value (supported_runners d) = supported_runners d \<and>
      schema_config_version (configuration_schema d) = 1)"

text \<open>The registry that importing the module builds.\<close>

definition builtin_registry :: NodeRegistry where
  "builtin_registry =
    \<lparr>definitions = [
       \<lparr>def_kind = ''export.parquet'', role = Role_EXPORT, configuration_schema =
         \<lparr>schema_config_version = 1, config_fields = [\<lparr>field_name = ''compression'',
         value_kind = Kind_TEXT, field_required = False\<rparr>]\<rparr>, port_schema =
         \<lparr>inputs = [\<lparr>input_name = ''records'', accepted_types = [NORMALIZED_RECORDS,
         PARTITIONED_RECORDS, RAW_RECORDS, VALIDATED_RECORDS], required = True,
         maximum_connections = 1\<rparr>], outputs = []\<rparr>, connector_requirement =
         Connector_NONE, supported_runners = [Runner_ASYNCIO, Runner_SEQUENTIAL, Runner_THREADED],
         retry_behavior = Retry_NEVER, requires_idempotency = False\<rparr>,
       \<lparr>def_kind = ''reconcile.target'', role = Role_RECONCILIATION, configuration_schema =
         \<lparr>schema_config_version = 1, config_fields = []\<rparr>, port_schema =
         \<lparr>inputs = [\<lparr>input_name = ''records'', accepted_types = [NORMALIZED_RECORDS,
         PARTITIONED_RECORDS, VALIDATED_RECORDS], required = True, maximum_connections =
         1\<rparr>], outputs = [\<lparr>output_name = ''reconciliation'', value_type =
         RECONCILIATION\<rparr>]\<rparr>, connector_requirement = Connector_TARGET,
         supported_runners = [Runner_ASYNCIO, Runner_SEQUENTIAL, Runner_THREADED], retry_behavior
         = Retry_CONNECTOR, requires_idempotency = False\<rparr>,
       \<lparr>def_kind = ''repair.apply'', role = Role_REPAIR_EFFECT, configuration_schema =
         \<lparr>schema_config_version = 1, config_fields = []\<rparr>, port_schema =
         \<lparr>inputs = [\<lparr>input_name = ''approved-plan'', accepted_types =
         [APPROVED_REPAIR_PLAN], required = True, maximum_connections = 1\<rparr>], outputs =
         [\<lparr>output_name = ''repair-result'', value_type = REPAIR_RESULT\<rparr>]\<rparr>,
         connector_requirement = Connector_TARGET, supported_runners = [Runner_ASYNCIO,
         Runner_SEQUENTIAL, Runner_THREADED], retry_behavior = Retry_CONNECTOR,
         requires_idempotency = True\<rparr>,
       \<lparr>def_kind = ''repair.approval'', role = Role_APPROVAL, configuration_schema =
         \<lparr>schema_config_version = 1, config_fields = []\<rparr>, port_schema =
         \<lparr>inputs = [\<lparr>input_name = ''repair-plan'', accepted_types = [REPAIR_PLAN],
         required = True, maximum_connections = 1\<rparr>], outputs = [\<lparr>output_name =
         ''approved-plan'', value_type = APPROVED_REPAIR_PLAN\<rparr>]\<rparr>,
         connector_requirement = Connector_NONE, supported_runners = [Runner_ASYNCIO,
         Runner_SEQUENTIAL, Runner_THREADED], retry_behavior = Retry_NEVER, requires_idempotency =
         False\<rparr>,
       \<lparr>def_kind = ''repair.generate'', role = Role_REPAIR_PLAN, configuration_schema =
         \<lparr>schema_config_version = 1, config_fields = []\<rparr>, port_schema =
         \<lparr>inputs = [\<lparr>input_name = ''reconciliation'', accepted_types =
         [RECONCILIATION], required = True, maximum_connections = 1\<rparr>], outputs =
         [\<lparr>output_name = ''repair-plan'', value_type = REPAIR_PLAN\<rparr>]\<rparr>,
         connector_requirement = Connector_NONE, supported_runners = [Runner_ASYNCIO,
         Runner_PROCESS, Runner_SEQUENTIAL, Runner_THREADED], retry_behavior = Retry_NEVER,
         requires_idempotency = False\<rparr>,
       \<lparr>def_kind = ''source.csv'', role = Role_SOURCE, configuration_schema =
         \<lparr>schema_config_version = 1, config_fields = [\<lparr>field_name = ''encoding'',
         value_kind = Kind_TEXT, field_required = False\<rparr>, \<lparr>field_name = ''header'',
         value_kind = Kind_BOOLEAN, field_required = False\<rparr>]\<rparr>, port_schema =
         \<lparr>inputs = [], outputs = [\<lparr>output_name = ''records'', value_type =
         RAW_RECORDS\<rparr>]\<rparr>, connector_requirement = Connector_SOURCE, supported_runners
         = [Runner_ASYNCIO, Runner_SEQUENTIAL, Runner_THREADED], retry_behavior = Retry_CONNECTOR,
         requires_idempotency = False\<rparr>,
       \<lparr>def_kind = ''source.http.async'', role = Role_SOURCE, configuration_schema =
         \<lparr>schema_config_version = 1, config_fields = [\<lparr>field_name = ''page_size'',
         value_kind = Kind_INTEGER, field_required = False\<rparr>]\<rparr>, port_schema =
         \<lparr>inputs = [], outputs = [\<lparr>output_name = ''records'', value_type =
         RAW_RECORDS\<rparr>]\<rparr>, connector_requirement = Connector_SOURCE, supported_runners
         = [Runner_ASYNCIO, Runner_SEQUENTIAL, Runner_THREADED], retry_behavior = Retry_CONNECTOR,
         requires_idempotency = False\<rparr>,
       \<lparr>def_kind = ''source.http.blocking'', role = Role_SOURCE, configuration_schema =
         \<lparr>schema_config_version = 1, config_fields = [\<lparr>field_name = ''page_size'',
         value_kind = Kind_INTEGER, field_required = False\<rparr>]\<rparr>, port_schema =
         \<lparr>inputs = [], outputs = [\<lparr>output_name = ''records'', value_type =
         RAW_RECORDS\<rparr>]\<rparr>, connector_requirement = Connector_SOURCE, supported_runners
         = [Runner_ASYNCIO, Runner_SEQUENTIAL, Runner_THREADED], retry_behavior = Retry_CONNECTOR,
         requires_idempotency = False\<rparr>,
       \<lparr>def_kind = ''source.jsonl'', role = Role_SOURCE, configuration_schema =
         \<lparr>schema_config_version = 1, config_fields = [\<lparr>field_name = ''encoding'',
         value_kind = Kind_TEXT, field_required = False\<rparr>]\<rparr>, port_schema =
         \<lparr>inputs = [], outputs = [\<lparr>output_name = ''records'', value_type =
         RAW_RECORDS\<rparr>]\<rparr>, connector_requirement = Connector_SOURCE, supported_runners
         = [Runner_ASYNCIO, Runner_SEQUENTIAL, Runner_THREADED], retry_behavior = Retry_CONNECTOR,
         requires_idempotency = False\<rparr>,
       \<lparr>def_kind = ''transform.normalize'', role = Role_TRANSFORM, configuration_schema =
         \<lparr>schema_config_version = 1, config_fields = []\<rparr>, port_schema =
         \<lparr>inputs = [\<lparr>input_name = ''records'', accepted_types = [RAW_RECORDS],
         required = True, maximum_connections = 1\<rparr>], outputs = [\<lparr>output_name =
         ''records'', value_type = NORMALIZED_RECORDS\<rparr>]\<rparr>, connector_requirement =
         Connector_NONE, supported_runners = [Runner_ASYNCIO, Runner_PROCESS, Runner_SEQUENTIAL,
         Runner_THREADED], retry_behavior = Retry_NEVER, requires_idempotency = False\<rparr>,
       \<lparr>def_kind = ''transform.partition'', role = Role_TRANSFORM, configuration_schema =
         \<lparr>schema_config_version = 1, config_fields = [\<lparr>field_name =
         ''partition_count'', value_kind = Kind_INTEGER, field_required = False\<rparr>]\<rparr>,
         port_schema = \<lparr>inputs = [\<lparr>input_name = ''records'', accepted_types =
         [VALIDATED_RECORDS], required = True, maximum_connections = 1\<rparr>], outputs =
         [\<lparr>output_name = ''records'', value_type = PARTITIONED_RECORDS\<rparr>]\<rparr>,
         connector_requirement = Connector_NONE, supported_runners = [Runner_ASYNCIO,
         Runner_PROCESS, Runner_SEQUENTIAL, Runner_THREADED], retry_behavior = Retry_NEVER,
         requires_idempotency = False\<rparr>,
       \<lparr>def_kind = ''transform.validate'', role = Role_TRANSFORM, configuration_schema =
         \<lparr>schema_config_version = 1, config_fields = []\<rparr>, port_schema =
         \<lparr>inputs = [\<lparr>input_name = ''records'', accepted_types =
         [NORMALIZED_RECORDS], required = True, maximum_connections = 1\<rparr>], outputs =
         [\<lparr>output_name = ''records'', value_type = VALIDATED_RECORDS\<rparr>]\<rparr>,
         connector_requirement = Connector_NONE, supported_runners = [Runner_ASYNCIO,
         Runner_PROCESS, Runner_SEQUENTIAL, Runner_THREADED], retry_behavior = Retry_NEVER,
         requires_idempotency = False\<rparr>,
       \<lparr>def_kind = ''verify.target'', role = Role_VERIFICATION, configuration_schema =
         \<lparr>schema_config_version = 1, config_fields = []\<rparr>, port_schema =
         \<lparr>inputs = [\<lparr>input_name = ''repair-result'', accepted_types =
         [REPAIR_RESULT], required = True, maximum_connections = 1\<rparr>], outputs =
         [\<lparr>output_name = ''verification'', value_type = VERIFICATION\<rparr>]\<rparr>,
         connector_requirement = Connector_TARGET, supported_runners = [Runner_ASYNCIO,
         Runner_SEQUENTIAL, Runner_THREADED], retry_behavior = Retry_CONNECTOR,
         requires_idempotency = False\<rparr>], registry_version = 1\<rparr>"

text \<open>None of the checks of the constructors fails; evaluations use the result from here on.\<close>

lemma BUILTIN_NODE_REGISTRY_built [code]: "BUILTIN_NODE_REGISTRY = Inr builtin_registry"
  by code_simp

lemma builtin_registry_facts: "list_all definition_facts (definitions builtin_registry)"
  by code_simp

lemma registered_facts:
  assumes "registered_node_definition k version = Inr d"
  shows "definition_facts d" and "def_kind d = k"
    and "version = schema_config_version (configuration_schema d)"
proof -
  have get: "registry_get builtin_registry k = Some d"
    and "version = schema_config_version (configuration_schema d)"
    using assms by (auto simp: registered_node_definition_def BUILTIN_NODE_REGISTRY_built
        registry_require_def result_simps split: option.splits)
  then show "version = schema_config_version (configuration_schema d)" by simp
  from get have "d \<in> set (definitions builtin_registry)" and "def_kind d = k"
    by (auto simp: registry_get_def find_Some_iff)
  then show "definition_facts d" and "def_kind d = k"
    using builtin_registry_facts by (simp_all add: list_all_iff)
qed

subsection \<open>Two pipelines for the witnesses\<close>

text \<open>A source exported as it is, and the repair chain from a source to a verification.\<close>

definition export_pipeline :: "PipelineDocument planner_result" where
  "export_pipeline =
     make_document
       [\<lparr>node_id = ''node_a'', kind = ''source.csv'', configuration_version = 1, configuration = [],
         connector_id = Some ''connector_a''\<rparr>,
        \<lparr>node_id = ''node_b'', kind = ''export.parquet'', configuration_version = 1,
         configuration = [], connector_id = None\<rparr>]
       [\<lparr>source_node_id = ''node_a'', source_port = ''records'', target_node_id = ''node_b'',
         target_port = ''records''\<rparr>] [] [] 1 1"

definition repair_pipeline :: "PipelineDocument planner_result" where
  "repair_pipeline =
     bind_result (map_result (\<lambda>(n, k, c). make_node n k 1 [] c)
       [(''node_a'', ''source.csv'', Some ''connector_a''), (''node_b'', ''transform.normalize'', None),
        (''node_c'', ''reconcile.target'', Some ''connector_b''),
        (''node_d'', ''repair.generate'', None), (''node_e'', ''repair.approval'', None),
        (''node_f'', ''repair.apply'', Some ''connector_b''),
        (''node_g'', ''verify.target'', Some ''connector_b'')]) (\<lambda>ns.
     make_document ns
       (map (\<lambda>(s, p, t, q).
          \<lparr>source_node_id = s, source_port = p, target_node_id = t, target_port = q\<rparr>)
         [(''node_a'', ''records'', ''node_b'', ''records''),
          (''node_b'', ''records'', ''node_c'', ''records''),
          (''node_c'', ''reconciliation'', ''node_d'', ''reconciliation''),
          (''node_d'', ''repair-plan'', ''node_e'', ''repair-plan''),
          (''node_e'', ''approved-plan'', ''node_f'', ''approved-plan''),
          (''node_f'', ''repair-result'', ''node_g'', ''repair-result'')]) [] [] 1 1)"

subsection \<open>Consequences of port validation\<close>

lemma document_definitions_eq:
  assumes "document_definitions document = Inr defs"
  shows "keys defs = node_ids document"
    and "\<And>n d. (n, d) \<in> set defs \<Longrightarrow> definition_facts d"
proof -
  have defs: "list_all2 (\<lambda>node p. fst p = node_id node \<and> definition_facts (snd p))
      (nodes document) defs"
    using assms unfolding document_definitions_def map_result_list_all2
    by (rule list_all2_mono) (auto simp: result_simps registered_facts(1))
  then show "keys defs = node_ids document"
    unfolding node_ids_def by (rule list_all2_map_eq) simp
  show "definition_facts d" if "(n, d) \<in> set defs" for n d
    using defs that by (auto simp: list_all2_conv_all_nth in_set_conv_nth)
qed

lemma definition_at_facts:
  assumes "document_definitions document = Inr defs" and "n \<in> set (node_ids document)"
  shows "definition_facts (definition_at defs n)"
proof -
  obtain d where "map_of defs n = Some d"
    using assms document_definitions_eq(1) [OF assms(1)] in_keys_iff_map_of [of n defs] by auto
  then show ?thesis
    using document_definitions_eq(2) [OF assms(1)] map_of_SomeD
    by (fastforce simp: definition_at_def)
qed

text \<open>An edge between declared ports of compatible types.\<close>

definition edge_typed :: "(string, NodeDefinition) dict \<Rightarrow> PipelineEdge \<Rightarrow> bool" where
  "edge_typed defs e \<longleftrightarrow>
     (\<exists>q \<in> set (outputs (port_schema (definition_at defs (source_node_id e)))).
      \<exists>i \<in> set (inputs (port_schema (definition_at defs (target_node_id e)))).
        output_name q = source_port e \<and> input_name i = target_port e \<and>
        value_type q \<in> set (accepted_types i))"

lemma connect_edges_Inr:
  assumes "connect_edges defs es incoming = Inr incoming'"
  shows "\<forall>e \<in> set es. edge_typed defs e"
    and "incoming' =
           (\<lambda>k. incoming k + int (length (filter (\<lambda>e. (target_node_id e, target_port e) = k) es)))"
proof -
  have "(\<forall>e \<in> set es. edge_typed defs e) \<and>
    incoming' =
      (\<lambda>k. incoming k + int (length (filter (\<lambda>e. (target_node_id e, target_port e) = k) es)))"
    using assms
  proof (induction es arbitrary: incoming)
    case (Cons e es)
    let ?key = "(target_node_id e, target_port e)"
    obtain source target where st:
      "schema_output (port_schema (definition_at defs (source_node_id e))) (source_port e) = Some source"
      "schema_input (port_schema (definition_at defs (target_node_id e))) (target_port e) = Some target"
      "ports_are_compatible source target"
      and rest: "connect_edges defs es (incoming(?key := incoming ?key + 1)) = Inr incoming'"
      using Cons.prems by (auto simp: Let_def split: option.splits if_splits)
    then have "edge_typed defs e"
      by (fastforce simp: edge_typed_def schema_output_def schema_input_def find_Some_iff
          ports_are_compatible_def accepts_def)
    with Cons.IH [OF rest] show ?case by (auto simp: fun_eq_iff)
  qed (simp add: fun_eq_iff)
  then show "\<forall>e \<in> set es. edge_typed defs e"
    and "incoming' =
      (\<lambda>k. incoming k + int (length (filter (\<lambda>e. (target_node_id e, target_port e) = k) es)))"
    by blast+
qed

lemma validate_typed_ports_Inr:
  assumes "validate_typed_ports document = Inr ()"
  obtains defs where "document_definitions document = Inr defs"
    and "\<And>e. e \<in> set (edges document) \<Longrightarrow> edge_typed defs e"
    and "\<And>n i. n \<in> set (node_ids document) \<Longrightarrow>
          i \<in> set (inputs (port_schema (definition_at defs n))) \<Longrightarrow> required i \<Longrightarrow>
          \<exists>e \<in> set (edges document). target_node_id e = n \<and> target_port e = input_name i"
proof -
  obtain defs incoming where d: "document_definitions document = Inr defs"
    and c: "connect_edges defs (edges document) (\<lambda>_. 0) = Inr incoming"
    and m: "missing_inputs defs incoming document = []"
    using assms by (auto simp: validate_typed_ports_def result_simps)
  have "\<exists>e \<in> set (edges document). target_node_id e = n \<and> target_port e = input_name i"
    if "n \<in> set (node_ids document)" "i \<in> set (inputs (port_schema (definition_at defs n)))"
      "required i" for n i
  proof -
    have "incoming (n, input_name i) \<noteq> 0"
      using m that by (fastforce simp: missing_inputs_def node_ids_def filter_empty_conv)
    then show ?thesis
      unfolding connect_edges_Inr(2) [OF c] by (auto simp: filter_empty_conv)
  qed
  then show ?thesis
    using that d connect_edges_Inr(1) [OF c] by blast
qed

text \<open>The stage of what a node puts out, above that of everything it takes in.\<close>

definition node_stage :: "(string, NodeDefinition) dict \<Rightarrow> string \<Rightarrow> nat" where
  "node_stage defs n =
     (case outputs (port_schema (definition_at defs n)) of
        [] \<Rightarrow> 9 | q # _ \<Rightarrow> stage (value_type q))"

lemma stage_less_9: "stage t < 9"
  by (cases t) simp_all

lemma edge_typed_stage:
  assumes "edge_typed defs e"
    and "definition_facts (definition_at defs (source_node_id e))"
    and "definition_facts (definition_at defs (target_node_id e))"
  shows "node_stage defs (source_node_id e) < node_stage defs (target_node_id e)"
proof -
  let ?out = "\<lambda>n. outputs (port_schema (definition_at defs n))"
  obtain q i where q: "q \<in> set (?out (source_node_id e))"
    and i: "i \<in> set (inputs (port_schema (definition_at defs (target_node_id e))))"
    and t: "value_type q \<in> set (accepted_types i)"
    using assms(1) by (auto simp: edge_typed_def)
  have "length (?out (source_node_id e)) \<le> 1"
    using assms(2) by (simp add: definition_facts_def Let_def)
  then have "?out (source_node_id e) = [q]"
    using q by (cases "?out (source_node_id e)") auto
  moreover have "\<forall>q' \<in> set (?out (target_node_id e)). stage (value_type q) < stage (value_type q')"
    using assms(3) i t by (auto simp: definition_facts_def Let_def list_all_iff)
  ultimately show ?thesis
    using stage_less_9 by (auto simp: node_stage_def split: list.splits)
qed

lemma typed_ports_acyclic:
  assumes "document_ok document" and "validate_typed_ports document = Inr ()"
  shows "acyclic (set (edge_pairs document))"
proof -
  obtain defs where d: "document_definitions document = Inr defs"
    and typed: "\<And>e. e \<in> set (edges document) \<Longrightarrow> edge_typed defs e"
    using validate_typed_ports_Inr [OF assms(2)] by metis
  have "node_stage defs (source_node_id e) < node_stage defs (target_node_id e)"
    if e: "e \<in> set (edges document)" for e
  proof (rule edge_typed_stage [OF typed [OF e]])
    have "(source_node_id e, target_node_id e) \<in> set (edge_pairs document)"
      using e by (simp add: edge_pairs_def)
    then show "definition_facts (definition_at defs (source_node_id e))"
      and "definition_facts (definition_at defs (target_node_id e))"
      using assms(1) definition_at_facts [OF d] by (auto simp: document_ok_def)
  qed
  then have "set (edge_pairs document) \<subseteq> measure (node_stage defs)"
    by (auto simp: edge_pairs_def)
  then show ?thesis
    using wf_acyclic [OF wf_measure] acyclic_subset by blast
qed

text \<open>The connections of a node that may write to the target: only approvals, and at least one.\<close>

lemma typed_ports_effect_approved:
  assumes ok: "document_ok document" and typed: "validate_typed_ports document = Inr ()"
    and defs: "document_definitions document = Inr defs"
    and n: "n \<in> set (node_ids document)" "role (definition_at defs n) = Role_REPAIR_EFFECT"
  shows "\<exists>a. (a, n) \<in> set (edge_pairs document)"
    and "\<And>a. (a, n) \<in> set (edge_pairs document) \<Longrightarrow> role (definition_at defs a) = Role_APPROVAL"
proof -
  have edge: "\<And>e. e \<in> set (edges document) \<Longrightarrow> edge_typed defs e"
    and req: "\<And>i. i \<in> set (inputs (port_schema (definition_at defs n))) \<Longrightarrow> required i \<Longrightarrow>
      \<exists>e \<in> set (edges document). target_node_id e = n \<and> target_port e = input_name i"
    by (rule validate_typed_ports_Inr [OF typed]; use defs n(1) in simp)+
  have facts: "definition_facts (definition_at defs n)"
    by (rule definition_at_facts [OF defs n(1)])
  then obtain i where "i \<in> set (inputs (port_schema (definition_at defs n)))" "required i"
    using n(2) by (cases "inputs (port_schema (definition_at defs n))")
      (auto simp: definition_facts_def Let_def)
  from req [OF this] show "\<exists>a. (a, n) \<in> set (edge_pairs document)"
    by (auto simp: edge_pairs_def)
  show "role (definition_at defs a) = Role_APPROVAL" if a: "(a, n) \<in> set (edge_pairs document)" for a
  proof -
    obtain e where e: "e \<in> set (edges document)" "source_node_id e = a" "target_node_id e = n"
      using a unfolding edge_pairs_def by auto
    obtain q i where "q \<in> set (outputs (port_schema (definition_at defs a)))"
      "i \<in> set (inputs (port_schema (definition_at defs n)))" "value_type q \<in> set (accepted_types i)"
      using edge [OF e(1)] e(2,3) by (auto simp: edge_typed_def)
    moreover have "definition_facts (definition_at defs a)"
      using a ok by (intro definition_at_facts [OF defs]) (auto simp: document_ok_def)
    ultimately show ?thesis
      using facts n(2) by (auto simp: definition_facts_def Let_def list_all_iff)
  qed
qed

end
