(* ===== verification/Kahn.thy ===== *)
theory Kahn
  imports Prelude
begin

text \<open>
  The ordering loop that the planner (\<^verbatim>\<open>application/planner/graph.py\<close>) and the concurrent scheduler
  (\<^verbatim>\<open>_edges_contain_cycle\<close> of \<^verbatim>\<open>application/execution/concurrent_scheduler.py\<close>) both run: remove a node
  with no remaining incoming edge, decrement the counts of its successors, collect those that reach
  zero.  The two differ in the collection of ready nodes only, a heap in the planner and a stack in
  the scheduler, so the loop takes its \<^verbatim>\<open>pop\<close> and \<^verbatim>\<open>push\<close> as arguments.  The locale \<open>ready_pool\<close> says what
  it needs of them, \<open>least_pool\<close> that the least ready node is taken first; the interpretations
  \<open>stack\<close> and \<open>heap\<close> discharge both.

  The dictionaries of the loop are functions: every node has an entry in the code, and its lookups are
  of nodes.  Fuel counts iterations; \<open>Suc (length nodes)\<close> is always enough.
\<close>

subsection \<open>The loop\<close>

text \<open>\<^verbatim>\<open>outgoing[source].append(target)\<close> and \<^verbatim>\<open>incoming[target] += 1\<close> for every edge.\<close>

fun add_edge ::
  "('n \<Rightarrow> 'n list) \<times> ('n \<Rightarrow> int) \<Rightarrow> 'n \<times> 'n \<Rightarrow> ('n \<Rightarrow> 'n list) \<times> ('n \<Rightarrow> int)" where
  "add_edge (outgoing, incoming) (s, t) =
     (outgoing(s := outgoing s @ [t]), incoming(t := incoming t + 1))"

definition edge_tables :: "('n \<times> 'n) list \<Rightarrow> ('n \<Rightarrow> 'n list) \<times> ('n \<Rightarrow> int)" where
  "edge_tables edges = foldl add_edge (\<lambda>_. [], \<lambda>_. 0) edges"

fun relax ::
  "('n \<Rightarrow> 'p \<Rightarrow> 'p) \<Rightarrow> 'n list \<Rightarrow> ('n \<Rightarrow> int) \<Rightarrow> 'p \<Rightarrow> ('n \<Rightarrow> int) \<times> 'p" where
  "relax push [] incoming ready = (incoming, ready)"
| "relax push (t # ts) incoming ready =
     (let incoming' = incoming(t := incoming t - 1)
      in relax push ts incoming' (if incoming' t = 0 then push t ready else ready))"

fun kahn_loop ::
  "('p \<Rightarrow> ('n \<times> 'p) option) \<Rightarrow> ('n \<Rightarrow> 'p \<Rightarrow> 'p) \<Rightarrow> ('n \<Rightarrow> 'n list) \<Rightarrow> nat \<Rightarrow>
     ('n \<Rightarrow> int) \<Rightarrow> 'p \<Rightarrow> 'n list \<Rightarrow> 'n list option" where
  "kahn_loop pop push outgoing 0 incoming ready ordered = None"
| "kahn_loop pop push outgoing (Suc fuel) incoming ready ordered =
     (case pop ready of
        None \<Rightarrow> Some ordered
      | Some (n, ready') \<Rightarrow>
          let (incoming', ready'') = relax push (outgoing n) incoming ready'
          in kahn_loop pop push outgoing fuel incoming' ready'' (ordered @ [n]))"

text \<open>The two collections: a Python list popped at its end, and a binary heap of \<^verbatim>\<open>heapq\<close>, whose
  observable contents are the sorted list of its items.\<close>

definition stack_push :: "'n \<Rightarrow> 'n list \<Rightarrow> 'n list" where
  "stack_push n ready = ready @ [n]"

definition stack_pop :: "'n list \<Rightarrow> ('n \<times> 'n list) option" where
  "stack_pop ready = (if ready = [] then None else Some (last ready, butlast ready))"

definition heappush :: "'n :: linorder \<Rightarrow> 'n list \<Rightarrow> 'n list" where
  "heappush n ready = insort n ready"

definition heappop :: "'n list \<Rightarrow> ('n \<times> 'n list) option" where
  "heappop ready = (case ready of [] \<Rightarrow> None | n # rest \<Rightarrow> Some (n, rest))"

subsection \<open>Orders of a graph\<close>

text \<open>Every edge into a listed node comes from a node listed before it.\<close>

definition edge_ordered :: "('n \<times> 'n) list \<Rightarrow> 'n list \<Rightarrow> bool" where
  "edge_ordered edges xs \<longleftrightarrow>
     (\<forall>i < length xs. \<forall>e \<in> set edges. snd e = xs ! i \<longrightarrow> fst e \<in> set (take i xs))"

lemma edge_ordered_Nil [simp]: "edge_ordered edges []"
  by (simp add: edge_ordered_def)

lemma edge_ordered_snoc:
  "edge_ordered edges (xs @ [x]) \<longleftrightarrow>
     edge_ordered edges xs \<and> (\<forall>e \<in> set edges. snd e = x \<longrightarrow> fst e \<in> set xs)"
  by (auto simp: edge_ordered_def nth_append less_Suc_eq)

lemma edge_ordered_pred_in:
  assumes "edge_ordered edges xs" and "(a, b) \<in> set edges" and "b \<in> set xs"
  shows "a \<in> set xs"
proof -
  obtain i where "i < length xs" and "xs ! i = b"
    using assms(3) by (auto simp: in_set_conv_nth)
  then have "a \<in> set (take i xs)"
    using assms(1,2) unfolding edge_ordered_def by (metis fst_conv snd_conv)
  then show ?thesis by (rule in_set_takeD)
qed

text \<open>Positions in an order.\<close>

definition position :: "'n list \<Rightarrow> 'n \<Rightarrow> nat" where
  "position xs n = length (takeWhile (\<lambda>m. m \<noteq> n) xs)"

lemma position_less: "n \<in> set xs \<Longrightarrow> position xs n < length xs"
  by (induction xs) (auto simp: position_def)

lemma nth_position: "n \<in> set xs \<Longrightarrow> xs ! position xs n = n"
  by (induction xs) (auto simp: position_def)

lemma position_take: "a \<in> set (take i xs) \<Longrightarrow> position xs a < i"
proof (induction xs arbitrary: i)
  case (Cons x xs)
  then show ?case by (cases i) (auto simp: position_def)
qed simp

lemma edge_ordered_position:
  assumes "edge_ordered edges xs" and "(a, b) \<in> set edges" and "b \<in> set xs"
  shows "position xs a < position xs b"
  using assms position_less [OF assms(3)] nth_position [OF assms(3)]
  by (force simp: edge_ordered_def intro: position_take)

lemma edge_ordered_acyclic:
  assumes "edge_ordered edges xs" and "snd ` set edges \<subseteq> set xs"
  shows "acyclic (set edges)"
proof -
  have "set edges \<subseteq> measure (position xs)"
    using assms edge_ordered_position [OF assms(1)] by force
  then show ?thesis
    using wf_acyclic [OF wf_measure] acyclic_subset by blast
qed

subsection \<open>The tables\<close>

lemma edge_tables_snoc:
  "edge_tables (es @ [e]) = add_edge (edge_tables es) e"
  by (simp add: edge_tables_def)

lemma edge_tables_eq:
  "edge_tables edges =
     (\<lambda>n. map snd (filter (\<lambda>e. fst e = n) edges),
      \<lambda>n. int (length (filter (\<lambda>e. snd e = n) edges)))"
proof (induction edges rule: rev_induct)
  case (snoc e es)
  then show ?case
    by (cases e) (auto simp: edge_tables_snoc fun_eq_iff)
qed (simp add: edge_tables_def)

subsection \<open>The invariant of the loop\<close>

text \<open>The edges into \<open>n\<close> from nodes not yet ordered.\<close>

definition open_edges :: "('n \<times> 'n) list \<Rightarrow> 'n list \<Rightarrow> 'n \<Rightarrow> int" where
  "open_edges edges xs n = int (length (filter (\<lambda>e. snd e = n \<and> fst e \<notin> set xs) edges))"

lemma open_edges_eq_0: "open_edges edges xs n = 0 \<longleftrightarrow> (\<forall>e \<in> set edges. snd e = n \<longrightarrow> fst e \<in> set xs)"
  by (auto simp: open_edges_def filter_empty_conv)

lemma open_edges_nonneg [simp]: "0 \<le> open_edges edges xs n"
  by (simp add: open_edges_def)

lemma count_successors:
  "count_list (map snd (filter (\<lambda>e. fst e = x) edges)) n =
     length (filter (\<lambda>e. snd e = n \<and> fst e = x) edges)"
  by (induction edges) auto

lemma open_edges_snoc:
  assumes "x \<notin> set xs"
  shows "open_edges edges (xs @ [x]) n =
     open_edges edges xs n - int (count_list (map snd (filter (\<lambda>e. fst e = x) edges)) n)"
  using assms unfolding count_successors open_edges_def by (induction edges) auto

text \<open>The nodes that may come next after \<open>xs\<close>.\<close>

definition available :: "'n list \<Rightarrow> ('n \<times> 'n) list \<Rightarrow> 'n list \<Rightarrow> 'n set" where
  "available nodes edges xs = {n \<in> set nodes - set xs. open_edges edges xs n = 0}"

definition kahn_inv :: "'n list \<Rightarrow> ('n \<times> 'n) list \<Rightarrow> 'n list \<Rightarrow> bool" where
  "kahn_inv nodes edges xs \<longleftrightarrow> distinct xs \<and> set xs \<subseteq> set nodes \<and> edge_ordered edges xs"

lemma finite_available [simp]: "finite (available nodes edges xs)"
  by (simp add: available_def)

lemma available_snoc:
  fixes edges :: "('n \<times> 'n) list"
  assumes inv: "kahn_inv nodes edges xs" and x: "x \<in> available nodes edges xs"
    and edges: "set edges \<subseteq> set nodes \<times> set nodes"
  defines "succs \<equiv> map snd (filter (\<lambda>e. fst e = x) edges)"
  shows "mset_set (available nodes edges (xs @ [x])) =
           mset_set (available nodes edges xs - {x}) +
           mset_set {n \<in> set succs. open_edges edges xs n = int (count_list succs n)}"
proof -
  let ?N = "{n \<in> set succs. open_edges edges xs n = int (count_list succs n)}"
  have x': "x \<notin> set xs" "open_edges edges xs x = 0" "x \<in> set nodes"
    using x by (auto simp: available_def)
  have pend: "open_edges edges (xs @ [x]) n = open_edges edges xs n - int (count_list succs n)" for n
    unfolding succs_def by (rule open_edges_snoc [OF x'(1)])
  have count_0: "count_list succs n = 0 \<longleftrightarrow> n \<notin> set succs" for n
    by (simp add: count_list_0_iff)
  have xs_0: "open_edges edges xs n = 0" if "n \<in> set xs" for n
    using inv that by (fastforce simp: open_edges_eq_0 kahn_inv_def dest: edge_ordered_pred_in)
  have N: "open_edges edges xs n \<noteq> 0" if "n \<in> ?N" for n
    using that by (simp add: count_0)
  have nodes: "n \<in> set nodes" if "n \<in> ?N" for n
    using that edges by (auto simp: succs_def)
  have "available nodes edges (xs @ [x]) = (available nodes edges xs - {x}) \<union> ?N"
  proof (intro set_eqI iffI)
    fix n assume "n \<in> available nodes edges (xs @ [x])"
    then show "n \<in> (available nodes edges xs - {x}) \<union> ?N"
      by (cases "n \<in> set succs") (auto simp: available_def pend count_0)
  next
    fix n assume n: "n \<in> (available nodes edges xs - {x}) \<union> ?N"
    have "open_edges edges (xs @ [x]) n = 0"
    proof (cases "n \<in> ?N")
      case False
      then show ?thesis
        using n pend [of n] open_edges_nonneg [of edges "xs @ [x]" n] by (auto simp: available_def)
    qed (simp add: pend)
    then show "n \<in> available nodes edges (xs @ [x])"
      using n x' xs_0 N nodes by (auto simp: available_def count_0)
  qed
  moreover have "(available nodes edges xs - {x}) \<inter> ?N = {}"
    using N by (auto simp: available_def count_0)
  ultimately show ?thesis
    by (simp add: mset_set_Union)
qed

lemma kahn_inv_snoc:
  "kahn_inv nodes edges xs \<Longrightarrow> x \<in> available nodes edges xs \<Longrightarrow> kahn_inv nodes edges (xs @ [x])"
  by (auto simp: kahn_inv_def available_def edge_ordered_snoc open_edges_eq_0)

lemma kahn_inv_length: "kahn_inv nodes edges xs \<Longrightarrow> length xs \<le> length nodes"
  by (metis card_length card_mono distinct_card finite_set kahn_inv_def le_trans)

text \<open>A run of the loop ends with nothing available.  It has ordered every node exactly if the graph
  has no cycle.\<close>

lemma all_ordered_iff_acyclic:
  assumes inv: "kahn_inv nodes edges xs" and none: "available nodes edges xs = {}"
    and nodes: "distinct nodes" and edges: "set edges \<subseteq> set nodes \<times> set nodes"
  shows "length xs = length nodes \<longleftrightarrow> acyclic (set edges)"
proof
  assume "length xs = length nodes"
  then have "set xs = set nodes"
    using inv nodes by (metis card_subset_eq distinct_card finite_set kahn_inv_def)
  then show "acyclic (set edges)"
    using inv edges by (intro edge_ordered_acyclic [of edges xs]) (auto simp: kahn_inv_def)
next
  assume "acyclic (set edges)"
  then have wf: "wf (set edges)"
    by (simp add: finite_acyclic_wf)
  have "set nodes - set xs = {}"
  proof (rule ccontr)
    assume "set nodes - set xs \<noteq> {}"
    then obtain n where n: "n \<in> set nodes - set xs"
      and least: "\<And>m. (m, n) \<in> set edges \<Longrightarrow> m \<notin> set nodes - set xs"
      using wfE_min [OF wf] by (metis equals0I)
    have "open_edges edges xs n = 0"
      using least edges by (fastforce simp: open_edges_eq_0)
    then show False
      using n none by (auto simp: available_def)
  qed
  then have "set xs = set nodes"
    using inv by (auto simp: kahn_inv_def)
  then show "length xs = length nodes"
    using inv nodes by (metis distinct_card kahn_inv_def)
qed

subsection \<open>The loop over any pool of ready nodes\<close>

locale ready_pool =
  fixes pop :: "'p \<Rightarrow> ('n \<times> 'p) option"
    and push :: "'n \<Rightarrow> 'p \<Rightarrow> 'p"
    and items :: "'p \<Rightarrow> 'n multiset"
    and ok :: "'p \<Rightarrow> bool"
  assumes pop_None: "ok p \<Longrightarrow> pop p = None \<Longrightarrow> items p = {#}"
    and pop_Some: "ok p \<Longrightarrow> pop p = Some (x, q) \<Longrightarrow> items p = add_mset x (items q) \<and> ok q"
    and push_items: "ok p \<Longrightarrow> items (push x p) = add_mset x (items p) \<and> ok (push x p)"
begin

text \<open>Relaxing the successors \<open>ts\<close> lowers each count by its multiplicity and pushes, once, the nodes
  whose count is used up.\<close>

lemma relax_fst: "fst (relax push ts incoming ready) n = incoming n - int (count_list ts n)"
  by (induction ts arbitrary: incoming ready) (auto simp: Let_def)

lemma relax_items:
  assumes "ok ready" and "\<And>n. n \<in> set ts \<Longrightarrow> int (count_list ts n) \<le> incoming n"
  shows "items (snd (relax push ts incoming ready)) =
           items ready + mset_set {n \<in> set ts. incoming n = int (count_list ts n)} \<and>
         ok (snd (relax push ts incoming ready))"
  using assms
proof (induction ts arbitrary: incoming ready)
  case (Cons t ts)
  let ?inc = "incoming(t := incoming t - 1)"
  let ?ready = "if ?inc t = 0 then push t ready else ready"
  have le: "int (count_list ts n) \<le> ?inc n" if "n \<in> set ts" for n
    using Cons.prems(2) [of n] that by auto
  have ok: "ok ?ready"
    using push_items [OF Cons.prems(1)] Cons.prems(1) by simp
  let ?new = "{n \<in> set ts. ?inc n = int (count_list ts n)}"
  have "mset_set {n \<in> set (t # ts). incoming n = int (count_list (t # ts) n)} =
          mset_set ?new + (if ?inc t = 0 then {#t#} else {#})"
  proof (cases "?inc t = 0")
    case True
    then have "count_list ts t = 0"
      using le [of t] by (cases "t \<in> set ts") auto
    then have t: "t \<notin> set ts" by (simp add: count_list_0_iff)
    then have "{n \<in> set (t # ts). incoming n = int (count_list (t # ts) n)} = insert t ?new"
      using True by auto
    with t True show ?thesis by simp
  next
    case False
    have "incoming t \<noteq> 1 + int (count_list ts t)" if "t \<notin> set ts"
      using that False by (simp add: count_list_0_iff)
    then have "t \<in> set ts" if "incoming t = 1 + int (count_list ts t)"
      using that by blast
    then have "{n \<in> set (t # ts). incoming n = int (count_list (t # ts) n)} = ?new"
      by auto
    with False show ?thesis by simp
  qed
  moreover have "items (snd (relax push ts ?inc ?ready)) = items ?ready + mset_set ?new \<and>
      ok (snd (relax push ts ?inc ?ready))"
    by (rule Cons.IH [OF ok le])
  ultimately show ?case
    using push_items [OF Cons.prems(1)] by (auto simp: Let_def)
qed simp

lemma kahn_loop_ends:
  assumes "kahn_inv nodes edges xs" and "ok ready"
    and "items ready = mset_set (available nodes edges xs)"
    and "set edges \<subseteq> set nodes \<times> set nodes" and "length nodes < fuel + length xs" and "Q xs"
    and keep: "\<And>xs ready x q. ok ready \<Longrightarrow> items ready = mset_set (available nodes edges xs) \<Longrightarrow>
      pop ready = Some (x, q) \<Longrightarrow> Q xs \<Longrightarrow> Q (xs @ [x])"
  shows "\<exists>ys. kahn_loop pop push (\<lambda>n. map snd (filter (\<lambda>e. fst e = n) edges)) fuel
                (open_edges edges xs) ready xs = Some ys \<and>
              kahn_inv nodes edges ys \<and> available nodes edges ys = {} \<and> Q ys"
  using assms(1-6)
proof (induction fuel arbitrary: xs ready)
  case 0
  then show ?case using kahn_inv_length by fastforce
next
  case (Suc fuel)
  show ?case
  proof (cases "pop ready")
    case None
    then have "available nodes edges xs = {}"
      using pop_None [OF Suc.prems(2)] Suc.prems(3) by (simp add: mset_set_empty_iff)
    with None Suc.prems(1,6) show ?thesis by simp
  next
    case (Some nq)
    obtain x q where nq: "nq = (x, q)" by fastforce
    have items: "items ready = add_mset x (items q)" and okq: "ok q"
      using pop_Some [OF Suc.prems(2)] Some nq by auto
    then have x: "x \<in> available nodes edges xs"
      using Suc.prems(3) by (metis elem_mset_set finite_available union_single_eq_member)
    have q: "items q = mset_set (available nodes edges xs - {x})"
      using items Suc.prems(3) x by (simp add: mset_set_Diff)
    let ?succs = "map snd (filter (\<lambda>e. fst e = x) edges)"
    have le: "int (count_list ?succs n) \<le> open_edges edges xs n" for n
      using open_edges_snoc [of x xs edges n] x open_edges_nonneg [of edges "xs @ [x]" n]
      by (simp add: available_def)
    let ?r = "relax push ?succs (open_edges edges xs) q"
    have fst: "fst ?r = open_edges edges (xs @ [x])"
      using x by (auto simp: relax_fst open_edges_snoc available_def)
    have "items (snd ?r) = mset_set (available nodes edges (xs @ [x])) \<and> ok (snd ?r)"
      using relax_items [OF okq le] available_snoc [OF Suc.prems(1) x Suc.prems(4)] q by simp
    then show ?thesis
      using Suc.IH [of "xs @ [x]" "snd ?r"] kahn_inv_snoc [OF Suc.prems(1) x] Suc.prems(4,5)
        keep [OF Suc.prems(2,3) _ Suc.prems(6)] Some nq fst
      by (simp add: case_prod_beta Let_def)
  qed
qed

lemma kahn_loop_initial:
  assumes "distinct nodes" and "set edges \<subseteq> set nodes \<times> set nodes" and "ok ready"
    and "items ready = mset (filter (\<lambda>n. snd (edge_tables edges) n = 0) nodes)" and "Q []"
    and keep: "\<And>xs ready x q. ok ready \<Longrightarrow> items ready = mset_set (available nodes edges xs) \<Longrightarrow>
      pop ready = Some (x, q) \<Longrightarrow> Q xs \<Longrightarrow> Q (xs @ [x])"
  shows "\<exists>ys. kahn_loop pop push (fst (edge_tables edges)) (Suc (length nodes))
                (snd (edge_tables edges)) ready [] = Some ys \<and>
              kahn_inv nodes edges ys \<and> available nodes edges ys = {} \<and> Q ys"
proof -
  have tables: "edge_tables edges =
      (\<lambda>n. map snd (filter (\<lambda>e. fst e = n) edges), open_edges edges [])"
    by (simp add: edge_tables_eq open_edges_def fun_eq_iff)
  have "set (filter (\<lambda>n. open_edges edges [] n = 0) nodes) = available nodes edges []"
    by (auto simp: available_def)
  then have "items ready = mset_set (available nodes edges [])"
    using assms(1,4) unfolding tables by (metis distinct_filter mset_set_set snd_conv)
  moreover have "kahn_inv nodes edges []"
    by (simp add: kahn_inv_def)
  ultimately show ?thesis
    using kahn_loop_ends [of nodes edges "[]" ready "Suc (length nodes)" Q] assms(2,3,5) keep
    unfolding tables by simp
qed

end

subsection \<open>Pools that give the least node first\<close>

text \<open>Every node of \<open>xs\<close> was the least available one when it was taken.\<close>

definition least_first :: "'n :: linorder list \<Rightarrow> ('n \<times> 'n) list \<Rightarrow> 'n list \<Rightarrow> bool" where
  "least_first nodes edges xs \<longleftrightarrow>
     (\<forall>i < length xs. \<forall>n \<in> available nodes edges (take i xs). xs ! i \<le> n)"

lemma least_first_snoc:
  "least_first nodes edges (xs @ [x]) \<longleftrightarrow>
     least_first nodes edges xs \<and> (\<forall>n \<in> available nodes edges xs. x \<le> n)"
  by (auto simp: least_first_def nth_append less_Suc_eq)

text \<open>An order whose nodes were taken least first is the least of all orders of the graph.\<close>

lemma least_first_least:
  fixes xs ys :: "'n :: linorder list"
  assumes "least_first nodes edges xs" and "set ys \<subseteq> set nodes" and "distinct ys"
    and "edge_ordered edges ys" and len: "length xs = length ys"
  shows "xs \<le> ys"
proof (cases "xs = ys")
  case False
  then have "\<exists>i. i < length xs \<and> xs ! i \<noteq> ys ! i"
    using len nth_equalityI by blast
  then obtain i where i: "i < length xs" "xs ! i \<noteq> ys ! i" "\<forall>j < i. xs ! j = ys ! j"
    using exists_least_iff [of "\<lambda>i. i < length xs \<and> xs ! i \<noteq> ys ! i"] by (metis order_less_trans)
  then have same: "take i xs = take i ys"
    using len by (intro nth_take_lemma) auto
  have "ys ! i \<notin> set (take i ys)"
    using assms(3) i(1) len by (auto simp: in_set_conv_nth nth_eq_iff_index_eq)
  then have "ys ! i \<in> available nodes edges (take i ys)"
    using assms(2,4) i(1) len by (auto simp: available_def open_edges_eq_0 edge_ordered_def)
  then have "xs ! i < ys ! i"
    using assms(1) i(1,2) same by (auto simp: least_first_def order_less_le)
  then have "xs < ys"
    using i(1) len same by (auto simp: list_less_def lexord_take_index_conv)
  then show ?thesis by simp
qed simp

locale least_pool = ready_pool pop push items ok
  for pop :: "'p \<Rightarrow> ('n :: linorder \<times> 'p) option" and push :: "'n \<Rightarrow> 'p \<Rightarrow> 'p"
    and items :: "'p \<Rightarrow> 'n multiset" and ok :: "'p \<Rightarrow> bool" +
  assumes pop_least: "ok p \<Longrightarrow> pop p = Some (x, q) \<Longrightarrow> y \<in># items p \<Longrightarrow> x \<le> y"
begin

lemma kahn_loop_least:
  assumes "distinct nodes" and "set edges \<subseteq> set nodes \<times> set nodes" and "ok ready"
    and "items ready = mset (filter (\<lambda>n. snd (edge_tables edges) n = 0) nodes)"
  shows "\<exists>ys. kahn_loop pop push (fst (edge_tables edges)) (Suc (length nodes))
                (snd (edge_tables edges)) ready [] = Some ys \<and>
              kahn_inv nodes edges ys \<and> available nodes edges ys = {} \<and> least_first nodes edges ys"
proof (rule kahn_loop_initial [OF assms])
  show "least_first nodes edges []" by (simp add: least_first_def)
  fix xs ready x q
  assume "ok ready" "items ready = mset_set (available nodes edges xs)" "pop ready = Some (x, q)"
    "least_first nodes edges xs"
  then show "least_first nodes edges (xs @ [x])"
    using pop_least by (simp add: least_first_snoc)
qed

end

subsection \<open>The two pools of the code\<close>

interpretation stack: ready_pool stack_pop stack_push mset "\<lambda>_. True"
proof
  fix p q :: "'n list" and x
  assume "stack_pop p = Some (x, q)"
  then have "p = q @ [x]"
    by (auto simp: stack_pop_def split: if_splits)
  then show "mset p = add_mset x (mset q) \<and> True" by simp
qed (auto simp: stack_pop_def stack_push_def split: if_splits)

interpretation heap: least_pool heappop heappush mset sorted
  by unfold_locales (auto simp: heappop_def heappush_def sorted_insort split: list.splits)

subsection \<open>The cycle test of the scheduler\<close>

text \<open>The scheduler's test.  A run that does not end with every node counted reports a cycle.\<close>

definition edges_contain_cycle :: "'n list \<Rightarrow> ('n \<times> 'n) list \<Rightarrow> bool" where
  "edges_contain_cycle node_order es =
     (let (successors, in_degree) = edge_tables es;
          ready = filter (\<lambda>n. in_degree n = 0) node_order in
      map_option length
        (kahn_loop stack_pop stack_push successors (Suc (length node_order)) in_degree ready [])
      \<noteq> Some (length node_order))"

lemma kahn_order_complete:
  assumes "kahn_inv ns es xs" and "length xs = length ns" and "distinct ns"
  shows "set xs = set ns"
  using assms by (metis card_subset_eq distinct_card finite_set kahn_inv_def)

lemma edges_contain_cycle_iff:
  assumes "distinct ns" and "set es \<subseteq> set ns \<times> set ns"
  shows "edges_contain_cycle ns es \<longleftrightarrow> \<not> acyclic (set es)"
proof -
  let ?ready = "filter (\<lambda>n. snd (edge_tables es) n = 0) ns"
  obtain ys where run: "kahn_loop stack_pop stack_push (fst (edge_tables es)) (Suc (length ns))
      (snd (edge_tables es)) ?ready [] = Some ys"
    and inv: "kahn_inv ns es ys" "available ns es ys = {}"
    using stack.kahn_loop_initial [OF assms, of ?ready "\<lambda>_. True"] by auto
  show ?thesis
    using all_ordered_iff_acyclic [OF inv assms] run
    by (simp add: edges_contain_cycle_def case_prod_beta)
qed

end
