(* ===== verification/Graph.thy ===== *)
theory Graph
  imports Registry Kahn
begin

text \<open>
  Graph validation of the planner: the deterministic topological order
  (\<^verbatim>\<open>application/planner/graph.py\<close>), reachability from sources to terminals
  (\<^verbatim>\<open>application/planner/reachability.py\<close>).
  Node identities are compared through \<^verbatim>\<open>str\<close>, which is the identity on their text.
\<close>

subsection \<open>Topological order\<close>

definition MAX_TOPOLOGICAL_NODES :: nat where "MAX_TOPOLOGICAL_NODES = 256"

definition make_TopologicalOrder :: "string list \<Rightarrow> string list planner_result" where
  "make_TopologicalOrder values =
     bind_result (require (values \<noteq> [])
        (PipelineGraphError ''topological order requires at least one node'')) (\<lambda>_.
     bind_result (require (length values \<le> MAX_TOPOLOGICAL_NODES)
        (PipelineGraphError ''topological order exceeds the node limit'')) (\<lambda>_.
     bind_result (require (card (set values) = length values)
        (PipelineGraphError ''topological node identities must be unique'')) (\<lambda>_.
     Inr values)))"

definition topological_node_order :: "PipelineDocument \<Rightarrow> string list planner_result" where
  "topological_node_order document =
     (let ids = node_ids document;
          (outgoing, incoming) = edge_tables (edge_pairs document);
          ready = sort (filter (\<lambda>n. incoming n = 0) ids) in
      case kahn_loop heappop heappush outgoing (Suc (length ids)) incoming ready [] of
        None \<Rightarrow> Inl PlannerOutOfFuel
      | Some ordered \<Rightarrow>
          bind_result (require (length ordered = length ids)
            (PipelineCycleError ''pipeline graph contains a directed cycle''))
          (\<lambda>_. make_TopologicalOrder ordered))"

definition validate_acyclic_graph :: "PipelineDocument \<Rightarrow> unit planner_result" where
  "validate_acyclic_graph document = bind_result (topological_node_order document) (\<lambda>_. Inr ())"

lemma topological_node_order_run:
  assumes "document_ok d"
  obtains ys where "kahn_inv (node_ids d) (edge_pairs d) ys"
    and "available (node_ids d) (edge_pairs d) ys = {}"
    and "least_first (node_ids d) (edge_pairs d) ys"
    and "topological_node_order d =
           (if length ys = length (node_ids d) then Inr ys
            else Inl (PipelineCycleError ''pipeline graph contains a directed cycle''))"
proof -
  let ?es = "edge_pairs d"
  let ?ready = "sort (filter (\<lambda>n. snd (edge_tables ?es) n = 0) (node_ids d))"
  have ok: "distinct (node_ids d)" "set ?es \<subseteq> set (node_ids d) \<times> set (node_ids d)"
    using assms by (simp_all add: document_ok_def)
  obtain ys where run: "kahn_loop heappop heappush (fst (edge_tables ?es)) (Suc (length (node_ids d)))
      (snd (edge_tables ?es)) ?ready [] = Some ys"
    and ys: "kahn_inv (node_ids d) ?es ys" "available (node_ids d) ?es ys = {}"
      "least_first (node_ids d) ?es ys"
    using heap.kahn_loop_least [OF ok, of ?ready] by auto
  have len: "length (node_ids d) = length (nodes d)"
    by (simp add: node_ids_def)
  then have "make_TopologicalOrder ys = Inr ys" if "length ys = length (node_ids d)"
    using that ys(1) assms
    by (cases "ys = []") (auto simp: make_TopologicalOrder_def document_ok_def MAX_PIPELINE_NODES_def
        MAX_TOPOLOGICAL_NODES_def kahn_inv_def distinct_card)
  then show thesis
    using that [OF ys] run
    by (simp add: topological_node_order_def case_prod_beta Let_def)
qed

lemma topological_node_order_Inr:
  assumes ok: "document_ok d" and run: "topological_node_order d = Inr xs"
  shows "distinct xs" and "set xs = set (node_ids d)" and "edge_ordered (edge_pairs d) xs"
    and "acyclic (set (edge_pairs d))"
proof -
  have doc: "distinct (node_ids d)" "set (edge_pairs d) \<subseteq> set (node_ids d) \<times> set (node_ids d)"
    using ok by (simp_all add: document_ok_def)
  have inv: "kahn_inv (node_ids d) (edge_pairs d) xs" "available (node_ids d) (edge_pairs d) xs = {}"
    "length xs = length (node_ids d)"
    by (rule topological_node_order_run [OF ok]; use run in \<open>simp split: if_splits\<close>)+
  then show "distinct xs" and "edge_ordered (edge_pairs d) xs"
    by (simp_all add: kahn_inv_def)
  show "set xs = set (node_ids d)"
    using kahn_order_complete [OF inv(1,3) doc(1)] .
  show "acyclic (set (edge_pairs d))"
    using all_ordered_iff_acyclic [OF inv(1,2) doc] inv(3) by simp
qed

lemma topological_node_order_acyclic:
  assumes ok: "document_ok d" and "acyclic (set (edge_pairs d))"
  shows "\<exists>xs. topological_node_order d = Inr xs"
proof -
  have doc: "distinct (node_ids d)" "set (edge_pairs d) \<subseteq> set (node_ids d) \<times> set (node_ids d)"
    using ok by (simp_all add: document_ok_def)
  obtain ys where ys: "kahn_inv (node_ids d) (edge_pairs d) ys"
    "available (node_ids d) (edge_pairs d) ys = {}"
    and run: "topological_node_order d =
           (if length ys = length (node_ids d) then Inr ys
            else Inl (PipelineCycleError ''pipeline graph contains a directed cycle''))"
    using topological_node_order_run [OF ok] by blast
  have "length ys = length (node_ids d)"
    using all_ordered_iff_acyclic [OF ys doc] assms(2) by simp
  then show ?thesis using run by simp
qed

text \<open>C30.  The planner's topological order: on a constructed document it succeeds exactly if the graph
  is acyclic.  The result lists every node once, each after all its predecessors, and is the least
  such list in lexicographic order, so it does not depend on how the document was written down; a
  cyclic document gives the cycle error, and nothing else can go wrong.\<close>

theorem topological_node_order_least:
  assumes "document_ok d"
  shows "(acyclic (set (edge_pairs d)) \<longrightarrow>
            (\<exists>xs. topological_node_order d = Inr xs \<and> distinct xs \<and> set xs = set (node_ids d) \<and>
               edge_ordered (edge_pairs d) xs \<and>
               (\<forall>ys. distinct ys \<and> set ys = set (node_ids d) \<and> edge_ordered (edge_pairs d) ys
                  \<longrightarrow> xs \<le> ys))) \<and>
         (\<not> acyclic (set (edge_pairs d)) \<longrightarrow>
            topological_node_order d =
              Inl (PipelineCycleError ''pipeline graph contains a directed cycle''))"
proof -
  let ?ids = "node_ids d" and ?es = "edge_pairs d"
  have ok: "distinct ?ids" "set ?es \<subseteq> set ?ids \<times> set ?ids"
    using assms by (simp_all add: document_ok_def)
  obtain xs where xs: "kahn_inv ?ids ?es xs" "available ?ids ?es xs = {}" "least_first ?ids ?es xs"
    and run: "topological_node_order d =
           (if length xs = length ?ids then Inr xs
            else Inl (PipelineCycleError ''pipeline graph contains a directed cycle''))"
    using topological_node_order_run [OF assms] by blast
  note acyclic = all_ordered_iff_acyclic [OF xs(1,2) ok]
  have "xs \<le> ys" if "length xs = length ?ids" "distinct ys \<and> set ys = set ?ids \<and> edge_ordered ?es ys"
    for ys
  proof (rule least_first_least [OF xs(3)])
    show "length xs = length ys" using that ok(1) by (metis distinct_card)
  qed (use that in auto)
  then show ?thesis
    using acyclic run xs(1) kahn_order_complete [OF xs(1) _ ok(1)] by (auto simp: kahn_inv_def)
qed

lemma repair_pipeline_order:
  "case repair_pipeline of Inl _ \<Rightarrow> False
   | Inr d \<Rightarrow> topological_node_order d =
       Inr [''node_a'', ''node_b'', ''node_c'', ''node_d'', ''node_e'', ''node_f'', ''node_g'']"
  by code_simp

lemma repair_pipeline_built:
  obtains d where "repair_pipeline = Inr d" and "document_ok d"
    and "topological_node_order d =
       Inr [''node_a'', ''node_b'', ''node_c'', ''node_d'', ''node_e'', ''node_f'', ''node_g'']"
proof (cases repair_pipeline)
  case (Inr d)
  moreover from Inr have "document_ok d"
    by (auto simp: repair_pipeline_def result_simps make_document_ok)
  ultimately show thesis
    using that repair_pipeline_order unfolding Inr by simp
next
  case (Inl e)
  show thesis
    using repair_pipeline_order unfolding Inl by simp
qed

theorem topological_node_order_least_witness:
  "\<exists>d xs. repair_pipeline = Inr d \<and> topological_node_order d = Inr xs \<and>
     xs = [''node_a'', ''node_b'', ''node_c'', ''node_d'', ''node_e'', ''node_f'', ''node_g''] \<and>
     edge_ordered (edge_pairs d) xs"
proof -
  obtain d where d: "repair_pipeline = Inr d" "document_ok d"
    and order: "topological_node_order d =
       Inr [''node_a'', ''node_b'', ''node_c'', ''node_d'', ''node_e'', ''node_f'', ''node_g'']"
    by (rule repair_pipeline_built)
  have "acyclic (set (edge_pairs d))"
    using topological_node_order_least [OF d(2)] order by auto
  then show ?thesis
    using topological_node_order_least [OF d(2)] d(1) order by auto
qed

subsection \<open>Reachability\<close>

definition MAX_REACHABILITY_ENDPOINTS :: nat where "MAX_REACHABILITY_ENDPOINTS = 256"

record GraphReachabilitySummary =
  source_node_ids :: "string list"
  terminal_node_ids :: "string list"

definition reach_validate_node_ids :: "string list \<Rightarrow> string \<Rightarrow> string list planner_result" where
  "reach_validate_node_ids values subject =
     bind_result (require (values \<noteq> [])
        (PipelineReachabilityError (''reachability requires at least one '' @ subject @ '' node'')))
     (\<lambda>_.
     bind_result (require (length values \<le> MAX_REACHABILITY_ENDPOINTS)
        (PipelineReachabilityError (subject @ '' node identities exceed the limit''))) (\<lambda>_.
     bind_result (require (card (set values) = length values)
        (PipelineReachabilityError (subject @ '' node identities must be unique''))) (\<lambda>_.
     Inr values)))"

definition make_GraphReachabilitySummary ::
  "string list \<Rightarrow> string list \<Rightarrow> GraphReachabilitySummary planner_result" where
  "make_GraphReachabilitySummary sources terminals =
     bind_result (reach_validate_node_ids sources ''source'') (\<lambda>sources.
     bind_result (reach_validate_node_ids terminals ''terminal'') (\<lambda>terminals.
     bind_result (require (set sources \<inter> set terminals = {})
        (PipelineReachabilityError ''source and terminal identities must be disjoint'')) (\<lambda>_.
     Inr \<lparr>source_node_ids = sort sources, terminal_node_ids = sort terminals\<rparr>)))"

definition TERMINAL_ROLES :: "NodeRole set" where
  "TERMINAL_ROLES = {Role_EXPORT, Role_VERIFICATION}"

text \<open>\<^verbatim>\<open>table[a].add(b)\<close> for every listed pair: a dictionary of sets, each a list without repetitions.\<close>

definition set_table :: "('n \<times> 'n) list \<Rightarrow> 'n \<Rightarrow> 'n list" where
  "set_table ps = fold (\<lambda>(a, b) table. table(a := List.insert b (table a))) ps (\<lambda>_. [])"

fun walk_loop ::
  "('n :: linorder \<Rightarrow> 'n list) \<Rightarrow> nat \<Rightarrow> 'n list \<Rightarrow> 'n list \<Rightarrow> 'n list option" where
  "walk_loop adjacency 0 pending visited = None"
| "walk_loop adjacency (Suc fuel) pending visited =
     (if pending = [] then Some visited
      else
        let n = last pending; pending' = butlast pending in
        if n \<in> set visited then walk_loop adjacency fuel pending' visited
        else
          let visited' = n # visited in
          walk_loop adjacency fuel
            (pending' @ rev (sort (filter (\<lambda>m. m \<notin> set visited') (adjacency n)))) visited')"

text \<open>Fuel: one iteration per start and per entry of the adjacency table, and the last one.\<close>

definition walk :: "'n list \<Rightarrow> 'n :: linorder list \<Rightarrow> ('n \<Rightarrow> 'n list) \<Rightarrow> 'n list option" where
  "walk ids starts adjacency =
     walk_loop adjacency (Suc (length starts + sum_list (map (\<lambda>n. length (adjacency n)) ids)))
       (rev starts) []"

definition validate_graph_reachability ::
  "PipelineDocument \<Rightarrow> GraphReachabilitySummary planner_result" where
  "validate_graph_reachability document =
     bind_result (topological_node_order document) (\<lambda>_.
     bind_result (document_definitions document) (\<lambda>defs.
     let ids = node_ids document;
         pairs = edge_pairs document;
         role_of = (\<lambda>n. role (definition_at defs n));
         outgoing = set_table pairs;
         incoming = set_table (map (\<lambda>(s, t). (t, s)) pairs);
         adjacent = set_table (concat (map (\<lambda>(s, t). [(s, t), (t, s)]) pairs));
         sources = filter (\<lambda>n. role_of n = Role_SOURCE) ids in
     bind_result (require (sources \<noteq> [])
        (DisconnectedPipelineError ''pipeline graph requires at least one source node'')) (\<lambda>_.
     bind_result (require (\<not> list_ex (\<lambda>n. incoming n \<noteq> []) sources)
        (DisconnectedPipelineError ''pipeline source nodes cannot have incoming dependencies'')) (\<lambda>_.
     let roots = filter (\<lambda>n. incoming n = []) ids in
     bind_result (require (\<not> list_ex (\<lambda>n. role_of n \<noteq> Role_SOURCE) roots)
        (DisconnectedPipelineError ''pipeline graph roots must be source nodes'')) (\<lambda>_.
     case walk ids [hd ids] adjacent of
       None \<Rightarrow> Inl PlannerOutOfFuel
     | Some connected \<Rightarrow>
     bind_result (require (length connected = length ids)
        (DisconnectedPipelineError ''pipeline graph contains disconnected components'')) (\<lambda>_.
     let sinks = filter (\<lambda>n. outgoing n = []) ids in
     bind_result (require (\<not> list_ex (\<lambda>n. role_of n \<notin> TERMINAL_ROLES) sinks)
        (InvalidPipelineTerminalError ''pipeline graph contains a non-terminal dead end'')) (\<lambda>_.
     make_GraphReachabilitySummary sources sinks)))))))"

subsection \<open>The tables and the walk\<close>

lemma set_table_snoc:
  "set_table (ps @ [(a, b)]) = (set_table ps)(a := List.insert b (set_table ps a))"
  by (simp add: set_table_def)

lemma set_set_table: "set (set_table ps a) = {b. (a, b) \<in> set ps}"
proof (induction ps rule: rev_induct)
  case (snoc p ps)
  then show ?case by (cases p) (auto simp: set_table_snoc)
qed (simp add: set_table_def)

lemma distinct_set_table [simp]: "distinct (set_table ps a)"
proof (induction ps rule: rev_induct)
  case (snoc p ps)
  then show ?case by (cases p) (auto simp: set_table_snoc)
qed (simp add: set_table_def)

lemma set_table_eq_Nil: "set_table ps a = [] \<longleftrightarrow> (\<forall>b. (a, b) \<notin> set ps)"
  using set_set_table [of ps a] by (metis emptyE emptyI empty_set mem_Collect_eq set_empty
      equals0I)

abbreviation table_rel :: "('n \<Rightarrow> 'n list) \<Rightarrow> ('n \<times> 'n) set" where
  "table_rel adjacency \<equiv> {(a, b). b \<in> set (adjacency a)}"

lemma sum_list_remove_one:
  fixes f :: "'n \<Rightarrow> nat"
  assumes "n \<in> set ids" and "n \<notin> V"
  shows "sum_list (map f (filter (\<lambda>m. m \<notin> insert n V) ids)) + f n
           \<le> sum_list (map f (filter (\<lambda>m. m \<notin> V) ids))"
  using assms
proof (induction ids)
  case (Cons x ids)
  have "sum_list (map f (filter (\<lambda>m. m \<notin> insert n V) ids)) \<le> sum_list (map f (filter (\<lambda>m. m \<notin> V) ids))"
    by (induction ids) auto
  with Cons show ?case by (cases "x = n") auto
qed simp

lemma rtrancl_closed:
  assumes "\<And>v. v \<in> V \<Longrightarrow> r `` {v} \<subseteq> V \<union> P"
  shows "r\<^sup>* `` V \<subseteq> V \<union> r\<^sup>* `` P"
proof
  fix m assume "m \<in> r\<^sup>* `` V"
  then obtain v where "v \<in> V" "(v, m) \<in> r\<^sup>*" by auto
  from this(2,1) show "m \<in> V \<union> r\<^sup>* `` P"
  proof (induction rule: converse_rtrancl_induct)
    case (step a b)
    then show ?case using assms [of a] by blast
  qed simp
qed

text \<open>The walk visits exactly what is reachable.\<close>

lemma walk_loop_reachable:
  fixes adjacency :: "'n :: linorder \<Rightarrow> 'n list"
  assumes "length pending + sum_list (map (\<lambda>n. length (adjacency n))
             (filter (\<lambda>n. n \<notin> set visited) ids)) < fuel"
    and "distinct visited" and "set pending \<subseteq> set ids"
    and "\<And>a. set (adjacency a) \<subseteq> set ids"
    and "\<And>v. v \<in> set visited \<Longrightarrow> set (adjacency v) \<subseteq> set visited \<union> set pending"
  shows "\<exists>result. walk_loop adjacency fuel pending visited = Some result \<and> distinct result \<and>
           set result = set visited \<union> (table_rel adjacency)\<^sup>* `` set pending"
  using assms
proof (induction fuel arbitrary: pending visited)
  case (Suc fuel)
  let ?R = "table_rel adjacency"
  show ?case
  proof (cases "pending = []")
    case True
    with Suc.prems(2) show ?thesis by simp
  next
    case False
    then obtain pending' n where p: "pending = pending' @ [n]"
      by (metis rev_exhaust)
    show ?thesis
    proof (cases "n \<in> set visited")
      case True
      have "?R\<^sup>* `` set visited \<subseteq> set visited \<union> ?R\<^sup>* `` set pending'"
        using Suc.prems(5) True p by (intro rtrancl_closed) fastforce
      then have "?R\<^sup>* `` {n} \<subseteq> set visited \<union> ?R\<^sup>* `` set pending'"
        using True by blast
      moreover obtain result where "walk_loop adjacency fuel pending' visited = Some result"
        "distinct result" "set result = set visited \<union> ?R\<^sup>* `` set pending'"
        using Suc.IH [of pending' visited] Suc.prems True p by fastforce
      moreover have "?R\<^sup>* `` set pending = ?R\<^sup>* `` set pending' \<union> ?R\<^sup>* `` {n}"
        using p by auto
      ultimately show ?thesis
        using True p by (auto simp: Let_def)
    next
      case new: False
      let ?next = "rev (sort (filter (\<lambda>m. m \<notin> set (n # visited)) (adjacency n)))"
      have next_subset: "set ?next \<subseteq> set (adjacency n)" by auto
      have "?R\<^sup>* `` set (n # visited) \<subseteq> set (n # visited) \<union> ?R\<^sup>* `` set (pending' @ ?next)"
        using Suc.prems(5) p by (intro rtrancl_closed) fastforce
      moreover have "?R\<^sup>* `` set ?next \<subseteq> ?R\<^sup>* `` {n}"
        by (auto intro: converse_rtrancl_into_rtrancl)
      moreover have "length (pending' @ ?next) + sum_list (map (\<lambda>n. length (adjacency n))
             (filter (\<lambda>m. m \<notin> set (n # visited)) ids)) < fuel"
        using Suc.prems(1) p new Suc.prems(3)
          sum_list_remove_one [of n ids "set visited" "\<lambda>n. length (adjacency n)"]
          length_filter_le [of "\<lambda>m. m \<noteq> n \<and> m \<notin> set visited" "adjacency n"]
        by (simp del: length_filter_le)
      then have "\<exists>result. walk_loop adjacency fuel (pending' @ ?next) (n # visited) = Some result \<and>
          distinct result \<and> set result = set (n # visited) \<union> ?R\<^sup>* `` set (pending' @ ?next)"
      proof (rule Suc.IH)
        show "set (pending' @ ?next) \<subseteq> set ids"
          using Suc.prems(3) Suc.prems(4) [of n] p by auto
        show "set (adjacency v) \<subseteq> set (n # visited) \<union> set (pending' @ ?next)"
          if "v \<in> set (n # visited)" for v
          using that Suc.prems(5) [of v] p by auto
      qed (use new Suc.prems(2,4) in auto)
      ultimately obtain result where result:
        "walk_loop adjacency fuel (pending' @ ?next) (n # visited) = Some result" "distinct result"
        "set result = set (n # visited) \<union> ?R\<^sup>* `` set (pending' @ ?next)"
        and closed: "?R\<^sup>* `` set (n # visited) \<subseteq>
            set (n # visited) \<union> ?R\<^sup>* `` set (pending' @ ?next)"
        and below: "?R\<^sup>* `` set ?next \<subseteq> ?R\<^sup>* `` {n}"
        by blast
      have "set (n # visited) \<union> ?R\<^sup>* `` set (pending' @ ?next) = set visited \<union> ?R\<^sup>* `` set pending"
        using closed below unfolding p set_append Image_Un by (simp only: list.set) blast
      moreover have "walk_loop adjacency (Suc fuel) pending visited =
          walk_loop adjacency fuel (pending' @ ?next) (n # visited)"
        using new p by (simp add: Let_def)
      ultimately show ?thesis
        using result by metis
    qed
  qed
qed simp

lemma walk_reachable:
  fixes adjacency :: "'n :: linorder \<Rightarrow> 'n list"
  assumes "set starts \<subseteq> set ids" and "\<And>a. set (adjacency a) \<subseteq> set ids"
  shows "\<exists>result. walk ids starts adjacency = Some result \<and> distinct result \<and>
           set result = (table_rel adjacency)\<^sup>* `` set starts"
  using assms walk_loop_reachable [of "rev starts" adjacency "[]" ids]
  by (simp add: walk_def del: walk_loop.simps)

subsection \<open>What reachability guarantees\<close>

lemma wf_origin:
  assumes "wf r"
  shows "\<exists>s. (s, n) \<in> r\<^sup>* \<and> (\<forall>a. (a, s) \<notin> r)"
  using assms
proof (induction n rule: wf_induct_rule)
  case (less n)
  show ?case
  proof (cases "\<exists>a. (a, n) \<in> r")
    case True
    then show ?thesis using less by (meson rtrancl.rtrancl_into_rtrancl)
  qed auto
qed

lemma acyclic_origins:
  assumes "acyclic r" and "finite r"
  shows "\<exists>s. (s, n) \<in> r\<^sup>* \<and> (\<forall>a. (a, s) \<notin> r)" and "\<exists>t. (n, t) \<in> r\<^sup>* \<and> (\<forall>b. (t, b) \<notin> r)"
proof -
  show "\<exists>s. (s, n) \<in> r\<^sup>* \<and> (\<forall>a. (a, s) \<notin> r)"
    using assms by (simp add: finite_acyclic_wf wf_origin)
  have "wf (r\<inverse>)"
    using assms by (simp add: finite_acyclic_wf_converse)
  from wf_origin [OF this, of n] show "\<exists>t. (n, t) \<in> r\<^sup>* \<and> (\<forall>b. (t, b) \<notin> r)"
    by (auto simp: rtrancl_converse)
qed

text \<open>The three dictionaries of the reachability check.\<close>

lemma reach_tables:
  "set_table ps n = [] \<longleftrightarrow> (\<forall>b. (n, b) \<notin> set ps)"
  "set_table (map (\<lambda>(s, t). (t, s)) ps) n = [] \<longleftrightarrow> (\<forall>a. (a, n) \<notin> set ps)"
  "table_rel (set_table (concat (map (\<lambda>(s, t). [(s, t), (t, s)]) ps))) = set ps \<union> (set ps)\<inverse>"
  by (force simp: set_table_eq_Nil set_set_table)+

lemma swapped_pair: "(n, a) \<in> (\<lambda>(s, t). (t, s)) ` S \<longleftrightarrow> (a, n) \<in> S"
  by force

lemma edge_path_in:
  assumes "set es \<subseteq> V \<times> V" and "(a, b) \<in> (set es)\<^sup>*" and "a \<in> V \<or> b \<in> V"
  shows "a \<in> V \<and> b \<in> V"
  using assms(2,3)
proof (induction rule: converse_rtrancl_induct)
  case (step y z)
  then show ?case using assms(1) by blast
qed simp

text \<open>The success of the check, unfolded once.\<close>

lemma validate_graph_reachability_Inr:
  assumes ok: "document_ok d" and run: "validate_graph_reachability d = Inr summary"
  obtains defs where "document_definitions d = Inr defs" and "acyclic (set (edge_pairs d))"
    and "set (source_node_ids summary) =
           {n \<in> set (node_ids d). role (definition_at defs n) = Role_SOURCE}"
    and "set (terminal_node_ids summary) = {n \<in> set (node_ids d). \<forall>b. (n, b) \<notin> set (edge_pairs d)}"
    and "\<And>n. n \<in> set (node_ids d) \<Longrightarrow>
           role (definition_at defs n) = Role_SOURCE \<longleftrightarrow> (\<forall>a. (a, n) \<notin> set (edge_pairs d))"
    and "\<And>n. n \<in> set (terminal_node_ids summary) \<Longrightarrow> role (definition_at defs n) \<in> TERMINAL_ROLES"
    and "\<And>m n. m \<in> set (node_ids d) \<Longrightarrow> n \<in> set (node_ids d) \<Longrightarrow>
           (m, n) \<in> (set (edge_pairs d) \<union> (set (edge_pairs d))\<inverse>)\<^sup>*"
proof -
  let ?ids = "node_ids d" and ?es = "edge_pairs d" and ?adj = "set_table
    (concat (map (\<lambda>(s, t). [(s, t), (t, s)]) (edge_pairs d)))"
  have edges: "set ?es \<subseteq> set ?ids \<times> set ?ids" and ids: "?ids \<noteq> []" "distinct ?ids"
    using ok by (auto simp: document_ok_def node_ids_def)
  obtain order where order: "topological_node_order d = Inr order"
    using run by (auto simp: validate_graph_reachability_def result_simps)
  then have acyclic: "acyclic (set ?es)"
    by (rule topological_node_order_Inr(4) [OF ok])
  have adj: "set (?adj a) \<subseteq> set ?ids" for a
    using edges by (auto simp: set_set_table)
  obtain connected where walk: "walk ?ids [hd ?ids] ?adj = Some connected" "distinct connected"
    "set connected = (table_rel ?adj)\<^sup>* `` {hd ?ids}"
    using walk_reachable [of "[hd ?ids]" ?ids ?adj] adj ids by auto
  obtain defs where defs: "document_definitions d = Inr defs"
    using run by (auto simp: validate_graph_reachability_def result_simps)
  let ?role = "\<lambda>n. role (definition_at defs n)"
  let ?sources = "filter (\<lambda>n. ?role n = Role_SOURCE) ?ids"
  let ?sinks = "filter (\<lambda>n. set_table ?es n = []) ?ids"
  have checks: "\<not> list_ex (\<lambda>n. set_table (map (\<lambda>(s, t). (t, s)) ?es) n \<noteq> []) ?sources"
    "\<not> list_ex (\<lambda>n. ?role n \<noteq> Role_SOURCE)
        (filter (\<lambda>n. set_table (map (\<lambda>(s, t). (t, s)) ?es) n = []) ?ids)"
    "length connected = length ?ids"
    "\<not> list_ex (\<lambda>n. ?role n \<notin> TERMINAL_ROLES) ?sinks"
    "make_GraphReachabilitySummary ?sources ?sinks = Inr summary"
    using run order defs walk(1) by (simp_all add: validate_graph_reachability_def Let_def result_simps)
  then have summary: "set (source_node_ids summary) = set ?sources"
    "set (terminal_node_ids summary) = set ?sinks"
    by (auto simp: make_GraphReachabilitySummary_def reach_validate_node_ids_def result_simps)
  have sub: "set connected \<subseteq> set ?ids"
  proof -
    have "(table_rel ?adj)\<^sup>* `` {hd ?ids} \<subseteq> set ?ids"
      using rtrancl_closed [of "set ?ids" "table_rel ?adj" "{}"] adj ids by fastforce
    then show ?thesis using walk(3) by simp
  qed
  have all: "set connected = set ?ids"
    using sub checks(3) walk(2) ids(2) by (metis card_subset_eq distinct_card finite_set)
  have sym: "sym (set ?es \<union> (set ?es)\<inverse>)"
    by (auto intro: symI)
  have "(hd ?ids, n) \<in> (set ?es \<union> (set ?es)\<inverse>)\<^sup>*" if "n \<in> set ?ids" for n
    using that all walk(3) unfolding reach_tables(3) by auto
  then have connected: "(m, n) \<in> (set ?es \<union> (set ?es)\<inverse>)\<^sup>*"
    if "m \<in> set ?ids" "n \<in> set ?ids" for m n
    using that sym_rtrancl [OF sym] by (meson rtrancl_trans symD)
  show thesis
    by (rule that [OF defs acyclic])
      (use summary checks connected in \<open>auto simp: list_ex_iff reach_tables swapped_pair\<close>)
qed

text \<open>A document that passes the reachability check has no cycle, its nodes are connected, its
  sources are exactly the nodes without predecessors and the recorded terminals exactly those without
  successors, all of them exports or verifications; every node lies on a path from a recorded source
  to a recorded terminal.\<close>

theorem reachability_source_to_terminal:
  assumes "document_ok d" and "validate_graph_reachability d = Inr summary"
  shows "acyclic (set (edge_pairs d)) \<and>
         set (source_node_ids summary) = {n \<in> set (node_ids d). \<forall>a. (a, n) \<notin> set (edge_pairs d)} \<and>
         set (terminal_node_ids summary) = {n \<in> set (node_ids d). \<forall>b. (n, b) \<notin> set (edge_pairs d)} \<and>
         (\<forall>m \<in> set (node_ids d). \<forall>n \<in> set (node_ids d).
            (m, n) \<in> (set (edge_pairs d) \<union> (set (edge_pairs d))\<inverse>)\<^sup>*) \<and>
         (\<forall>n \<in> set (node_ids d).
            (\<exists>s \<in> set (source_node_ids summary). (s, n) \<in> (set (edge_pairs d))\<^sup>*) \<and>
            (\<exists>t \<in> set (terminal_node_ids summary). (n, t) \<in> (set (edge_pairs d))\<^sup>*))"
proof -
  let ?es = "set (edge_pairs d)"
  obtain defs where r: "acyclic ?es"
    "set (source_node_ids summary) =
       {n \<in> set (node_ids d). role (definition_at defs n) = Role_SOURCE}"
    "set (terminal_node_ids summary) = {n \<in> set (node_ids d). \<forall>b. (n, b) \<notin> ?es}"
    "\<And>n. n \<in> set (node_ids d) \<Longrightarrow>
       role (definition_at defs n) = Role_SOURCE \<longleftrightarrow> (\<forall>a. (a, n) \<notin> ?es)"
    "\<And>m n. m \<in> set (node_ids d) \<Longrightarrow> n \<in> set (node_ids d) \<Longrightarrow> (m, n) \<in> (?es \<union> ?es\<inverse>)\<^sup>*"
    by (rule validate_graph_reachability_Inr [OF assms]) (rule that)
  have sources: "set (source_node_ids summary) = {n \<in> set (node_ids d). \<forall>a. (a, n) \<notin> ?es}"
    using r(2,4) by auto
  have edges: "?es \<subseteq> set (node_ids d) \<times> set (node_ids d)"
    using assms(1) by (simp add: document_ok_def)
  have "(\<exists>s \<in> set (source_node_ids summary). (s, n) \<in> ?es\<^sup>*) \<and>
        (\<exists>t \<in> set (terminal_node_ids summary). (n, t) \<in> ?es\<^sup>*)" if "n \<in> set (node_ids d)" for n
  proof -
    obtain s t where s: "(s, n) \<in> ?es\<^sup>*" "\<forall>a. (a, s) \<notin> ?es" and t: "(n, t) \<in> ?es\<^sup>*" "\<forall>b. (t, b) \<notin> ?es"
      using acyclic_origins [OF r(1) finite_set, of n] by blast
    then have "s \<in> set (node_ids d)" "t \<in> set (node_ids d)"
      using edge_path_in [OF edges] that by blast+
    then show ?thesis using s t sources r(3) by auto
  qed
  then show ?thesis
    using r(1,3,5) sources by blast
qed

lemma export_pipeline_reachable:
  "case export_pipeline of Inl _ \<Rightarrow> False
   | Inr d \<Rightarrow> validate_graph_reachability d =
       Inr \<lparr>source_node_ids = [''node_a''], terminal_node_ids = [''node_b'']\<rparr>"
  by code_simp

theorem reachability_source_to_terminal_witness:
  "\<exists>d. export_pipeline = Inr d \<and>
     validate_graph_reachability d =
       Inr \<lparr>source_node_ids = [''node_a''], terminal_node_ids = [''node_b'']\<rparr> \<and>
     acyclic (set (edge_pairs d)) \<and>
     {n \<in> set (node_ids d). \<forall>a. (a, n) \<notin> set (edge_pairs d)} = {''node_a''}"
proof -
  obtain d where d: "export_pipeline = Inr d"
    and run: "validate_graph_reachability d =
       Inr \<lparr>source_node_ids = [''node_a''], terminal_node_ids = [''node_b'']\<rparr>"
    using export_pipeline_reachable by (auto split: sum.splits)
  have "document_ok d"
    using d unfolding export_pipeline_def by (rule make_document_ok)
  then show ?thesis
    using d run reachability_source_to_terminal [of d] by fastforce
qed

end
