(* ===== verification/Repair_Safety.thy ===== *)
theory Repair_Safety
  imports Graph
begin

text \<open>
  Approval before effect: \<^verbatim>\<open>application/planner/repair_safety.py\<close>.  The specification is the inductive
  predicate \<open>unapproved_path\<close>: a node reached from a root of the graph without passing an approval.
\<close>

definition MAX_REPAIR_SAFETY_NODES :: nat where "MAX_REPAIR_SAFETY_NODES = 256"

record RepairSafetySummary =
  approval_node_ids :: "string list"
  repair_effect_node_ids :: "string list"

definition repair_validate_node_ids :: "string list \<Rightarrow> string \<Rightarrow> string list planner_result" where
  "repair_validate_node_ids values subject =
     bind_result (require (card (set values) = length values)
        (RepairSafetyError (subject @ '' must be unique''))) (\<lambda>_. Inr values)"

definition make_RepairSafetySummary ::
  "string list \<Rightarrow> string list \<Rightarrow> RepairSafetySummary planner_result" where
  "make_RepairSafetySummary approvals effects =
     bind_result (repair_validate_node_ids approvals ''repair approval nodes'') (\<lambda>approvals.
     bind_result (repair_validate_node_ids effects ''repair effect nodes'') (\<lambda>effects.
     bind_result (require (length approvals + length effects \<le> MAX_REPAIR_SAFETY_NODES)
        (RepairSafetyError ''repair safety summary exceeds the node limit'')) (\<lambda>_.
     bind_result (require (set approvals \<inter> set effects = {})
        (RepairSafetyError ''repair approval and effect nodes must be disjoint'')) (\<lambda>_.
     Inr \<lparr>approval_node_ids = sort approvals, repair_effect_node_ids = sort effects\<rparr>))))"

text \<open>The loop over the ordered nodes, with the dictionary \<^verbatim>\<open>has_unapproved_path\<close>.\<close>

fun unapproved_loop ::
  "('n \<Rightarrow> NodeRole) \<Rightarrow> ('n \<Rightarrow> 'n list) \<Rightarrow> 'n list \<Rightarrow> ('n \<Rightarrow> bool) \<Rightarrow> ('n \<Rightarrow> bool) planner_result" where
  "unapproved_loop role_of incoming [] has_unapproved_path = Inr has_unapproved_path"
| "unapproved_loop role_of incoming (n # ns) has_unapproved_path =
     (let parents = incoming n;
          unapproved = (role_of n \<noteq> Role_APPROVAL \<and>
                        (parents = [] \<or> list_ex has_unapproved_path parents)) in
      if role_of n = Role_REPAIR_EFFECT \<and> unapproved
      then Inl (UnapprovedRepairEffectError
                  ''repair effect requires prior approval on every incoming path'')
      else unapproved_loop role_of incoming ns (has_unapproved_path(n := unapproved)))"

definition validate_repair_safety :: "PipelineDocument \<Rightarrow> RepairSafetySummary planner_result" where
  "validate_repair_safety document =
     bind_result (topological_node_order document) (\<lambda>ordered.
     bind_result (document_definitions document) (\<lambda>defs.
     let role_of = (\<lambda>n. role (definition_at defs n));
         incoming = fst (edge_tables (map (\<lambda>(s, t). (t, s)) (edge_pairs document))) in
     bind_result (unapproved_loop role_of incoming ordered (\<lambda>_. False)) (\<lambda>_.
     make_RepairSafetySummary
       (filter (\<lambda>n. role_of n = Role_APPROVAL) ordered)
       (filter (\<lambda>n. role_of n = Role_REPAIR_EFFECT) ordered))))"

subsection \<open>Paths without approval\<close>

inductive unapproved_path :: "('n \<times> 'n) set \<Rightarrow> ('n \<Rightarrow> NodeRole) \<Rightarrow> 'n \<Rightarrow> bool"
  for E :: "('n \<times> 'n) set" and role_of :: "'n \<Rightarrow> NodeRole" where
  root: "role_of n \<noteq> Role_APPROVAL \<Longrightarrow> (\<And>a. (a, n) \<notin> E) \<Longrightarrow> unapproved_path E role_of n"
| extend: "role_of n \<noteq> Role_APPROVAL \<Longrightarrow> (p, n) \<in> E \<Longrightarrow> unapproved_path E role_of p \<Longrightarrow>
    unapproved_path E role_of n"

inductive_simps unapproved_path_iff: "unapproved_path E role_of n"

lemma unapproved_loop_spec:
  fixes role_of :: "'n \<Rightarrow> NodeRole"
  assumes parents: "\<And>n. set (incoming n) = {a. (a, n) \<in> set es}"
    and "edge_ordered es (xs @ ns)"
    and "\<And>n. n \<in> set xs \<Longrightarrow> table n \<longleftrightarrow> unapproved_path (set es) role_of n"
  shows "(\<exists>table'. unapproved_loop role_of incoming ns table = Inr table') \<longleftrightarrow>
           (\<forall>n \<in> set ns. role_of n = Role_REPAIR_EFFECT \<longrightarrow> \<not> unapproved_path (set es) role_of n)"
    and "unapproved_loop role_of incoming ns table = Inl e \<Longrightarrow>
           e = UnapprovedRepairEffectError
                 ''repair effect requires prior approval on every incoming path''"
proof -
  have "((\<exists>table'. unapproved_loop role_of incoming ns table = Inr table') \<longleftrightarrow>
           (\<forall>n \<in> set ns. role_of n = Role_REPAIR_EFFECT \<longrightarrow> \<not> unapproved_path (set es) role_of n)) \<and>
        (\<forall>e. unapproved_loop role_of incoming ns table = Inl e \<longrightarrow>
           e = UnapprovedRepairEffectError
                 ''repair effect requires prior approval on every incoming path'')"
    using assms(2,3)
  proof (induction ns arbitrary: xs table)
    case (Cons n ns)
    let ?v = "role_of n \<noteq> Role_APPROVAL \<and> (incoming n = [] \<or> list_ex table (incoming n))"
    have preds: "a \<in> set xs" if "(a, n) \<in> set es" for a
      using Cons.prems(1) that unfolding edge_ordered_def
      by (auto dest!: spec [of _ "length xs"] simp: nth_append)
    have empty: "incoming n = [] \<longleftrightarrow> (\<forall>a. (a, n) \<notin> set es)"
      using parents [of n] by (metis empty_set mem_Collect_eq set_empty equals0I emptyE)
    have v: "?v \<longleftrightarrow> unapproved_path (set es) role_of n"
      unfolding unapproved_path_iff [of "set es" role_of n]
      using empty preds Cons.prems(2) parents [of n] by (auto simp: list_ex_iff)
    have "edge_ordered es ((xs @ [n]) @ ns)"
      using Cons.prems(1) by simp
    moreover have "(table(n := ?v)) m \<longleftrightarrow> unapproved_path (set es) role_of m"
      if "m \<in> set (xs @ [n])" for m
      using that v Cons.prems(2) by auto
    ultimately have IH: "((\<exists>table'. unapproved_loop role_of incoming ns (table(n := ?v)) = Inr table')
          \<longleftrightarrow> (\<forall>n \<in> set ns. role_of n = Role_REPAIR_EFFECT \<longrightarrow> \<not> unapproved_path (set es) role_of n)) \<and>
        (\<forall>e. unapproved_loop role_of incoming ns (table(n := ?v)) = Inl e \<longrightarrow>
           e = UnapprovedRepairEffectError
                 ''repair effect requires prior approval on every incoming path'')"
      by (rule Cons.IH)
    show ?case
    proof (cases "role_of n = Role_REPAIR_EFFECT \<and> ?v")
      case True
      then show ?thesis using v by (simp add: Let_def)
    next
      case False
      then have "unapproved_loop role_of incoming (n # ns) table =
          unapproved_loop role_of incoming ns (table(n := ?v))"
        unfolding unapproved_loop.simps Let_def by (rule if_not_P)
      then show ?thesis using IH v False by auto
    qed
  qed simp
  then show "(\<exists>table'. unapproved_loop role_of incoming ns table = Inr table') \<longleftrightarrow>
      (\<forall>n \<in> set ns. role_of n = Role_REPAIR_EFFECT \<longrightarrow> \<not> unapproved_path (set es) role_of n)"
    and "unapproved_loop role_of incoming ns table = Inl e \<Longrightarrow>
      e = UnapprovedRepairEffectError
            ''repair effect requires prior approval on every incoming path''"
    by blast+
qed

lemma repair_summary_built:
  assumes "distinct xs" and "length xs \<le> 256" and "\<And>n. \<not> (P n \<and> Q n)"
  shows "\<exists>s. make_RepairSafetySummary (filter P xs) (filter Q xs) = Inr s \<and>
           set (approval_node_ids s) = {n \<in> set xs. P n} \<and>
           set (repair_effect_node_ids s) = {n \<in> set xs. Q n}"
proof -
  have "length (filter P xs) + length (filter Q xs) \<le> length xs"
    using assms(3) by (induction xs) (auto simp: le_SucI)
  moreover have "set (filter P xs) \<inter> set (filter Q xs) = {}"
    using assms(3) by auto
  ultimately have "make_RepairSafetySummary (filter P xs) (filter Q xs) =
      Inr \<lparr>approval_node_ids = sort (filter P xs), repair_effect_node_ids = sort (filter Q xs)\<rparr>"
    using assms(1,2)
    by (simp add: make_RepairSafetySummary_def repair_validate_node_ids_def distinct_card
        MAX_REPAIR_SAFETY_NODES_def del: set_filter)
  then show ?thesis by auto
qed

lemma validate_repair_safety_run:
  assumes ok: "document_ok d" and acyclic: "acyclic (set (edge_pairs d))"
    and defs: "document_definitions d = Inr defs"
  shows "(\<exists>s. validate_repair_safety d = Inr s) \<longleftrightarrow>
           (\<forall>n \<in> set (node_ids d). role (definition_at defs n) = Role_REPAIR_EFFECT \<longrightarrow>
              \<not> unapproved_path (set (edge_pairs d)) (\<lambda>n. role (definition_at defs n)) n)"
    and "validate_repair_safety d = Inl e \<Longrightarrow>
           e = UnapprovedRepairEffectError
                 ''repair effect requires prior approval on every incoming path''"
    and "validate_repair_safety d = Inr s \<Longrightarrow>
           set (repair_effect_node_ids s) =
             {n \<in> set (node_ids d). role (definition_at defs n) = Role_REPAIR_EFFECT}"
proof -
  let ?role = "\<lambda>n. role (definition_at defs n)"
  let ?incoming = "fst (edge_tables (map (\<lambda>(s, t). (t, s)) (edge_pairs d)))"
  obtain xs where xs: "topological_node_order d = Inr xs"
    using topological_node_order_acyclic [OF ok acyclic] by blast
  note order = topological_node_order_Inr [OF ok xs]
  have "length xs = length (nodes d)"
    using order(1,2) ok by (metis distinct_card document_ok_def length_map node_ids_def)
  then have len: "length xs \<le> 256"
    using ok by (simp add: document_ok_def MAX_PIPELINE_NODES_def)
  obtain s0 where s0: "make_RepairSafetySummary (filter (\<lambda>n. ?role n = Role_APPROVAL) xs)
      (filter (\<lambda>n. ?role n = Role_REPAIR_EFFECT) xs) = Inr s0"
    "set (repair_effect_node_ids s0) = {n \<in> set xs. ?role n = Role_REPAIR_EFFECT}"
    using repair_summary_built [OF order(1) len, of "\<lambda>n. ?role n = Role_APPROVAL"
        "\<lambda>n. ?role n = Role_REPAIR_EFFECT"] by auto
  have parents: "set (?incoming n) = {a. (a, n) \<in> set (edge_pairs d)}" for n
    by (auto simp: edge_tables_eq swapped_pair image_iff) (force simp: image_iff)+
  have run: "validate_repair_safety d =
      bind_result (unapproved_loop ?role ?incoming xs (\<lambda>_. False)) (\<lambda>_. Inr s0)"
    using xs defs s0(1) by (simp add: validate_repair_safety_def Let_def)
  note loop = unapproved_loop_spec [OF parents, where xs = "[]" and ns = xs and table = "\<lambda>_. False"
    and role_of = ?role]
  show "(\<exists>s. validate_repair_safety d = Inr s) \<longleftrightarrow>
     (\<forall>n \<in> set (node_ids d). ?role n = Role_REPAIR_EFFECT \<longrightarrow>
        \<not> unapproved_path (set (edge_pairs d)) ?role n)"
    using loop(1) order(2,3) unfolding run by (auto simp: result_simps)
  show "e = UnapprovedRepairEffectError
        ''repair effect requires prior approval on every incoming path''"
    if "validate_repair_safety d = Inl e"
    using that loop(2) order(3) unfolding run by (auto simp: result_simps)
  show "set (repair_effect_node_ids s) = {n \<in> set (node_ids d). ?role n = Role_REPAIR_EFFECT}"
    if "validate_repair_safety d = Inr s"
    using that s0(2) order(2) unfolding run by (auto simp: result_simps)
qed

text \<open>C31.  The repair-safety check is exact: on an acyclic document of registered nodes it succeeds exactly
  if no repair effect can be reached from a root of the graph without passing an approval, and the
  only error it can raise is that of an unapproved repair effect.\<close>

theorem repair_safety_exact:
  assumes "document_ok d" and "acyclic (set (edge_pairs d))" and "document_definitions d = Inr defs"
  shows "(if \<exists>n \<in> set (node_ids d). role (definition_at defs n) = Role_REPAIR_EFFECT \<and>
              unapproved_path (set (edge_pairs d)) (\<lambda>n. role (definition_at defs n)) n
          then validate_repair_safety d =
                 Inl (UnapprovedRepairEffectError
                   ''repair effect requires prior approval on every incoming path'')
          else \<exists>s. validate_repair_safety d = Inr s \<and>
                 set (repair_effect_node_ids s) =
                   {n \<in> set (node_ids d). role (definition_at defs n) = Role_REPAIR_EFFECT})"
proof (cases "validate_repair_safety d")
  case (Inl e)
  then show ?thesis
    using validate_repair_safety_run(1) [OF assms] validate_repair_safety_run(2) [OF assms] by auto
next
  case (Inr s)
  then show ?thesis
    using validate_repair_safety_run(1) [OF assms] validate_repair_safety_run(3) [OF assms Inr] by auto
qed

lemma repair_pipeline_checks:
  "case repair_pipeline of Inl _ \<Rightarrow> False
   | Inr d \<Rightarrow> validate_typed_ports d = Inr () \<and>
       validate_repair_safety d =
         Inr \<lparr>approval_node_ids = [''node_e''], repair_effect_node_ids = [''node_f'']\<rparr>"
  by code_simp

theorem repair_safety_exact_witness:
  "\<exists>d defs. repair_pipeline = Inr d \<and> document_definitions d = Inr defs \<and>
     {n \<in> set (node_ids d). role (definition_at defs n) = Role_REPAIR_EFFECT} = {''node_f''}"
proof -
  obtain d where d: "repair_pipeline = Inr d" "document_ok d"
    and order: "topological_node_order d =
       Inr [''node_a'', ''node_b'', ''node_c'', ''node_d'', ''node_e'', ''node_f'', ''node_g'']"
    by (rule repair_pipeline_built)
  have run: "validate_repair_safety d =
      Inr \<lparr>approval_node_ids = [''node_e''], repair_effect_node_ids = [''node_f'']\<rparr>"
    using repair_pipeline_checks unfolding d(1) by simp
  then obtain defs where defs: "document_definitions d = Inr defs"
    by (auto simp: validate_repair_safety_def result_simps)
  show ?thesis
    using repair_safety_exact [OF d(2) topological_node_order_Inr(4) [OF d(2) order] defs] d(1) run defs
    by (auto split: if_splits)
qed

lemma typed_ports_repair_safe:
  assumes "document_ok d" and "validate_typed_ports d = Inr ()"
  shows "\<exists>s. validate_repair_safety d = Inr s"
proof -
  have acyclic: "acyclic (set (edge_pairs d))"
    by (rule typed_ports_acyclic [OF assms])
  obtain defs where defs: "document_definitions d = Inr defs"
    using assms(2) by (auto simp: validate_typed_ports_def result_simps)
  have "\<not> unapproved_path (set (edge_pairs d)) (\<lambda>n. role (definition_at defs n)) n"
    if n: "n \<in> set (node_ids d)" "role (definition_at defs n) = Role_REPAIR_EFFECT" for n
    using typed_ports_effect_approved [OF assms defs n] unapproved_path_iff
    by (metis (mono_tags, lifting))
  then show ?thesis
    using validate_repair_safety_run(1) [OF assms(1) acyclic defs] by blast
qed

text \<open>C32.  The typed ports of the built-in registry already rule out both graph failures: a document
  whose ports validate has no cycle, so it has a topological order, and every repair effect of it is
  fed by approvals only, so the repair-safety check succeeds.\<close>

theorem typed_ports_imply_safety:
  assumes "document_ok d" and "validate_typed_ports d = Inr ()"
  shows "(\<exists>xs. topological_node_order d = Inr xs) \<and> (\<exists>s. validate_repair_safety d = Inr s)"
  using topological_node_order_acyclic [OF assms(1) typed_ports_acyclic [OF assms]]
    typed_ports_repair_safe [OF assms] by blast

theorem typed_ports_imply_safety_witness:
  "\<exists>d s. repair_pipeline = Inr d \<and> validate_typed_ports d = Inr () \<and> validate_repair_safety d = Inr s"
proof -
  obtain d where d: "repair_pipeline = Inr d" "document_ok d"
    by (rule repair_pipeline_built)
  have typed: "validate_typed_ports d = Inr ()"
    using repair_pipeline_checks unfolding d(1) by simp
  show ?thesis
    using d(1) typed typed_ports_imply_safety [OF d(2) typed] by blast
qed

end
