(* ===== verification/Execution_Plan.thy ===== *)
theory Execution_Plan
  imports Repair_Safety
begin

text \<open>
  From a published pipeline to a logical execution plan: resource policies
  (\<^verbatim>\<open>application/planner/resources.py\<close>), partition strategies (\<^verbatim>\<open>application/planner/partitions.py\<close>),
  connector snapshots and capabilities (\<^verbatim>\<open>application/planner/connectors.py\<close>), the published
  specification (the value of \<^verbatim>\<open>application/planner/publication.py\<close>) and the compiler
  (\<^verbatim>\<open>application/planner/execution_plan.py\<close>).
\<close>

subsection \<open>Resource policies\<close>

definition MEBIBYTE :: int where "MEBIBYTE = 1048576"
definition MIN_RESOURCE_CONCURRENCY :: int where "MIN_RESOURCE_CONCURRENCY = 1"
definition MAX_RESOURCE_CONCURRENCY :: int where "MAX_RESOURCE_CONCURRENCY = 64"
definition MIN_RESOURCE_IN_FLIGHT :: int where "MIN_RESOURCE_IN_FLIGHT = 1"
definition MAX_RESOURCE_IN_FLIGHT :: int where "MAX_RESOURCE_IN_FLIGHT = 1024"
definition MIN_RESOURCE_MEMORY_BYTES :: int where "MIN_RESOURCE_MEMORY_BYTES = 64 * MEBIBYTE"
definition MAX_RESOURCE_MEMORY_BYTES :: int where "MAX_RESOURCE_MEMORY_BYTES = 16 * 1024 * MEBIBYTE"
definition MIN_RESOURCE_TIMEOUT_SECONDS :: int where "MIN_RESOURCE_TIMEOUT_SECONDS = 1"
definition MAX_RESOURCE_TIMEOUT_SECONDS :: int where "MAX_RESOURCE_TIMEOUT_SECONDS = 3600"
definition MIN_RESOURCE_QUEUE_CAPACITY :: int where "MIN_RESOURCE_QUEUE_CAPACITY = 1"
definition MAX_RESOURCE_QUEUE_CAPACITY :: int where "MAX_RESOURCE_QUEUE_CAPACITY = 65536"

record ResourcePolicy =
  max_concurrency :: int
  max_in_flight :: int
  memory_limit_bytes :: int
  operation_timeout_seconds :: int
  queue_capacity :: int

definition validate_integer :: "int \<Rightarrow> int \<Rightarrow> int \<Rightarrow> string \<Rightarrow> unit planner_result" where
  "validate_integer value minimum maximum subject =
     require (minimum \<le> value \<and> value \<le> maximum)
       (ResourcePolicyError (subject @ '' is outside the supported range''))"

definition make_ResourcePolicy :: "ResourcePolicy \<Rightarrow> ResourcePolicy planner_result" where
  "make_ResourcePolicy p =
     bind_result (validate_integer (max_concurrency p) MIN_RESOURCE_CONCURRENCY
        MAX_RESOURCE_CONCURRENCY ''resource maximum concurrency'') (\<lambda>_.
     bind_result (validate_integer (max_in_flight p) MIN_RESOURCE_IN_FLIGHT
        MAX_RESOURCE_IN_FLIGHT ''resource maximum in-flight work'') (\<lambda>_.
     bind_result (validate_integer (memory_limit_bytes p) MIN_RESOURCE_MEMORY_BYTES
        MAX_RESOURCE_MEMORY_BYTES ''resource memory limit'') (\<lambda>_.
     bind_result (validate_integer (operation_timeout_seconds p) MIN_RESOURCE_TIMEOUT_SECONDS
        MAX_RESOURCE_TIMEOUT_SECONDS ''resource operation timeout'') (\<lambda>_.
     bind_result (validate_integer (queue_capacity p) MIN_RESOURCE_QUEUE_CAPACITY
        MAX_RESOURCE_QUEUE_CAPACITY ''resource queue capacity'') (\<lambda>_.
     bind_result (require (\<not> max_in_flight p < max_concurrency p)
        (ResourcePolicyError ''resource maximum in-flight work must cover maximum concurrency''))
     (\<lambda>_.
     bind_result (require (\<not> queue_capacity p < max_in_flight p)
        (ResourcePolicyError ''resource queue capacity must cover in-flight work'')) (\<lambda>_.
     Inr p)))))))"

definition DEFAULT_RESOURCE_POLICY :: ResourcePolicy where
  "DEFAULT_RESOURCE_POLICY =
     \<lparr>max_concurrency = 4, max_in_flight = 16, memory_limit_bytes = 512 * MEBIBYTE,
      operation_timeout_seconds = 60, queue_capacity = 256\<rparr>"

definition policy_to_mapping :: "ResourcePolicy \<Rightarrow> (utext, int) dict" where
  "policy_to_mapping p =
     [(u ''max_concurrency'', max_concurrency p), (u ''max_in_flight'', max_in_flight p),
      (u ''memory_limit_bytes'', memory_limit_bytes p),
      (u ''operation_timeout_seconds'', operation_timeout_seconds p),
      (u ''queue_capacity'', queue_capacity p)]"

definition RESOURCE_POLICY_FIELDS :: "utext set" where
  "RESOURCE_POLICY_FIELDS = set (keys (policy_to_mapping DEFAULT_RESOURCE_POLICY))"

fun document_int :: "DocumentValue \<Rightarrow> int option" where
  "document_int (DocumentInt i) = Some i"
| "document_int _ = None"

text \<open>\<^verbatim>\<open>values = DEFAULT.to_mapping(); values.update(mapping)\<close>: the document's value where it has one.\<close>

definition updated_value :: "ConfigurationDocument \<Rightarrow> string \<Rightarrow> int \<Rightarrow> int" where
  "updated_value mapping name otherwise =
     (case map_of mapping (u name) of
        Some value \<Rightarrow> the (document_int value)
      | None \<Rightarrow> otherwise)"

definition parse_resource_policy :: "ConfigurationDocument \<Rightarrow> ResourcePolicy planner_result" where
  "parse_resource_policy mapping =
     bind_result (require (set (keys mapping) - RESOURCE_POLICY_FIELDS = {})
        (ResourcePolicyError ''resource policy contains unknown fields'')) (\<lambda>_.
     bind_result (require (\<not> list_ex (\<lambda>(_, value). document_int value = None) mapping)
        (PlannerTypeError ''resource policy values must be integers'')) (\<lambda>_.
     let d = DEFAULT_RESOURCE_POLICY in
     make_ResourcePolicy
       \<lparr>max_concurrency = updated_value mapping ''max_concurrency'' (max_concurrency d),
        max_in_flight = updated_value mapping ''max_in_flight'' (max_in_flight d),
        memory_limit_bytes = updated_value mapping ''memory_limit_bytes'' (memory_limit_bytes d),
        operation_timeout_seconds =
          updated_value mapping ''operation_timeout_seconds'' (operation_timeout_seconds d),
        queue_capacity = updated_value mapping ''queue_capacity'' (queue_capacity d)\<rparr>))"

definition validate_resource_policy :: "PipelineDocument \<Rightarrow> ResourcePolicy planner_result" where
  "validate_resource_policy document = parse_resource_policy (resource_policy document)"

subsection \<open>Partition strategies\<close>

definition PARTITION_STRATEGY_VERSION :: int where "PARTITION_STRATEGY_VERSION = 1"
definition MIN_PARTITION_COUNT :: int where "MIN_PARTITION_COUNT = 1"
definition MAX_PARTITION_COUNT :: int where "MAX_PARTITION_COUNT = 1024"
definition PARTITION_KEY_DIGITS :: nat where "PARTITION_KEY_DIGITS = 8"
definition PARTITION_NODE_KIND :: string where "PARTITION_NODE_KIND = ''transform.partition''"

datatype PartitionStrategyKind = Partition_SINGLE | Partition_FIXED

record PartitionStrategy =
  strategy_kind :: PartitionStrategyKind
  partition_count :: int
  strategy_version :: int

definition make_PartitionStrategy ::
  "PartitionStrategyKind \<Rightarrow> int \<Rightarrow> int \<Rightarrow> PartitionStrategy planner_result" where
  "make_PartitionStrategy k n version =
     bind_result (require (MIN_PARTITION_COUNT \<le> n \<and> n \<le> MAX_PARTITION_COUNT)
        (PartitionStrategyError ''partition count is outside the supported range'')) (\<lambda>_.
     bind_result (require (version = PARTITION_STRATEGY_VERSION)
        (PartitionStrategyError ''partition strategy version is unsupported'')) (\<lambda>_.
     bind_result (require (\<not> (k = Partition_SINGLE \<and> n \<noteq> 1))
        (PartitionStrategyError ''single partition strategy requires exactly one key'')) (\<lambda>_.
     bind_result (require (\<not> (k = Partition_FIXED \<and> n = 1))
        (PartitionStrategyError ''fixed partition strategy requires multiple keys'')) (\<lambda>_.
     Inr \<lparr>strategy_kind = k, partition_count = n, strategy_version = version\<rparr>))))"

definition partition_key :: "PartitionStrategy \<Rightarrow> int \<Rightarrow> string planner_result" where
  "partition_key strategy index =
     bind_result (require (0 \<le> index \<and> index < partition_count strategy)
        (InvalidPartitionIndexError ''partition index is outside the strategy range'')) (\<lambda>_.
     case PartitionKey (''partition-'' @ zero_padded PARTITION_KEY_DIGITS (nat index)) of
       Inl (ValueError m) \<Rightarrow> Inl (PartitionStrategyError m)
     | Inl (TypeError m) \<Rightarrow> Inl (PlannerTypeError m)
     | Inr key \<Rightarrow> Inr key)"

definition partition_keys :: "PartitionStrategy \<Rightarrow> string list planner_result" where
  "partition_keys strategy =
     map_result (\<lambda>i. partition_key strategy (int i)) [0..<nat (partition_count strategy)]"

definition SINGLE_PARTITION_STRATEGY :: PartitionStrategy where
  "SINGLE_PARTITION_STRATEGY =
     \<lparr>strategy_kind = Partition_SINGLE, partition_count = 1,
      strategy_version = PARTITION_STRATEGY_VERSION\<rparr>"

definition partition_strategy_from_configuration ::
  "string \<Rightarrow> ConfigurationDocument \<Rightarrow> PartitionStrategy planner_result" where
  "partition_strategy_from_configuration k config =
     (if k \<noteq> PARTITION_NODE_KIND then Inr SINGLE_PARTITION_STRATEGY
      else
        case (case map_of config (u ''partition_count'') of
                None \<Rightarrow> Some 1 | Some value \<Rightarrow> document_int value) of
          None \<Rightarrow> Inl (PlannerTypeError ''partition count must be an integer'')
        | Some n \<Rightarrow>
            if n = 1 then Inr SINGLE_PARTITION_STRATEGY
            else make_PartitionStrategy Partition_FIXED n PARTITION_STRATEGY_VERSION)"

subsection \<open>Connectors\<close>

definition MAX_CONNECTOR_SNAPSHOT_REFERENCES :: nat where "MAX_CONNECTOR_SNAPSHOT_REFERENCES = 64"
definition MAX_CONNECTOR_KIND_LENGTH :: nat where "MAX_CONNECTOR_KIND_LENGTH = 96"
definition MAX_CONNECTOR_REFERENCE_LENGTH :: nat where "MAX_CONNECTOR_REFERENCE_LENGTH = 128"

datatype ConnectorCapability =
    Cap_READ | Cap_WRITE | Cap_ASYNC_IO | Cap_BLOCKING_IO | Cap_IDEMPOTENCY | Cap_SCHEMA_DISCOVERY

fun ConnectorCapability_value :: "ConnectorCapability \<Rightarrow> string" where
  "ConnectorCapability_value Cap_READ = ''read''"
| "ConnectorCapability_value Cap_WRITE = ''write''"
| "ConnectorCapability_value Cap_ASYNC_IO = ''async_io''"
| "ConnectorCapability_value Cap_BLOCKING_IO = ''blocking_io''"
| "ConnectorCapability_value Cap_IDEMPOTENCY = ''idempotency''"
| "ConnectorCapability_value Cap_SCHEMA_DISCOVERY = ''schema_discovery''"

definition all_capabilities :: "ConnectorCapability list" where
  "all_capabilities =
     [Cap_READ, Cap_WRITE, Cap_ASYNC_IO, Cap_BLOCKING_IO, Cap_IDEMPOTENCY, Cap_SCHEMA_DISCOVERY]"

type_synonym ConnectorCapabilitySet = "ConnectorCapability list"

definition make_ConnectorCapabilitySet ::
  "ConnectorCapability list \<Rightarrow> ConnectorCapabilitySet planner_result" where
  "make_ConnectorCapabilitySet values =
     bind_result (require (card (set values) = length values)
        (ConnectorValidationError ''connector capabilities must be unique'')) (\<lambda>_.
     Inr (sort_key ConnectorCapability_value values))"

definition supports :: "ConnectorCapabilitySet \<Rightarrow> ConnectorCapability \<Rightarrow> bool" where
  "supports values capability \<longleftrightarrow> capability \<in> set values"

definition SEPARATED_PATTERN :: "string \<Rightarrow> bool" where
  "SEPARATED_PATTERN = seg_headed is_lower lower_or_digit (\<lambda>c. c \<in> set ''._-'')"

fun ENVIRONMENT_PATTERN :: "string \<Rightarrow> bool" where
  "ENVIRONMENT_PATTERN [] = False"
| "ENVIRONMENT_PATTERN (c # cs) =
     (is_upper c \<and> list_all (\<lambda>c. is_upper c \<or> is_digit c \<or> c = CHR ''_'') cs)"

definition connector_validate_text ::
  "string \<Rightarrow> (string \<Rightarrow> bool) \<Rightarrow> string \<Rightarrow> nat \<Rightarrow> unit planner_result" where
  "connector_validate_text value pattern subject maximum_length =
     bind_result (require (1 \<le> length value \<and> length value \<le> maximum_length)
        (InvalidConnectorSnapshotError (subject @ '' is outside the size limit''))) (\<lambda>_.
     require (list_all is_ascii value \<and> pattern value)
        (InvalidConnectorSnapshotError (subject @ '' is not canonical'')))"

record ConnectorReferenceSnapshot =
  reference_name :: string
  environment_variable_name :: string

definition make_ConnectorReferenceSnapshot ::
  "string \<Rightarrow> string \<Rightarrow> ConnectorReferenceSnapshot planner_result" where
  "make_ConnectorReferenceSnapshot name env =
     bind_result (connector_validate_text name SEPARATED_PATTERN ''connector reference name''
        MAX_CONNECTOR_REFERENCE_LENGTH) (\<lambda>_.
     bind_result (connector_validate_text env ENVIRONMENT_PATTERN
        ''connector environment variable name'' MAX_CONNECTOR_REFERENCE_LENGTH) (\<lambda>_.
     Inr \<lparr>reference_name = name, environment_variable_name = env\<rparr>))"

record ConnectorBindingSnapshot =
  binding_connector_id :: string
  binding_kind :: string
  revision :: int
  binding_configuration :: ConfigurationDocument
  capabilities :: ConnectorCapabilitySet
  schema_discovery :: "ConfigurationDocument option"
  secret_references :: "ConnectorReferenceSnapshot list"

definition make_ConnectorBindingSnapshot ::
  "ConnectorBindingSnapshot \<Rightarrow> ConnectorBindingSnapshot planner_result" where
  "make_ConnectorBindingSnapshot b =
     bind_result (connector_validate_text (binding_kind b) SEPARATED_PATTERN
        ''connector snapshot kind'' MAX_CONNECTOR_KIND_LENGTH) (\<lambda>_.
     bind_result (require (1 \<le> revision b \<and> revision b \<le> 2147483647)
        (InvalidConnectorSnapshotError ''connector snapshot revision is outside the limit'')) (\<lambda>_.
     bind_result (require (length (secret_references b) \<le> MAX_CONNECTOR_SNAPSHOT_REFERENCES)
        (InvalidConnectorSnapshotError ''connector snapshot exceeds the reference limit'')) (\<lambda>_.
     let names = map reference_name (secret_references b) in
     bind_result (require (card (set names) = length names)
        (InvalidConnectorSnapshotError ''connector snapshot reference names must be unique'')) (\<lambda>_.
     Inr (b\<lparr>secret_references :=
            sort_key (\<lambda>r. (reference_name r, environment_variable_name r)) (secret_references b)\<rparr>)))))"

definition required_connector_capabilities :: "string \<Rightarrow> ConnectorCapability list" where
  "required_connector_capabilities k =
     (case map_of
        [(''reconcile.target'', [Cap_READ]),
         (''repair.apply'', [Cap_IDEMPOTENCY, Cap_WRITE]),
         (''source.csv'', [Cap_READ]),
         (''source.http.async'', [Cap_ASYNC_IO, Cap_READ]),
         (''source.http.blocking'', [Cap_BLOCKING_IO, Cap_READ]),
         (''source.jsonl'', [Cap_READ]),
         (''verify.target'', [Cap_READ])] k of
        None \<Rightarrow> [] | Some cs \<Rightarrow> cs)"

fun is_document_bool :: "DocumentValue \<Rightarrow> bool" where
  "is_document_bool (DocumentBool _) = True"
| "is_document_bool _ = False"

definition connector_capabilities_from_document ::
  "ConfigurationDocument \<Rightarrow> ConnectorCapabilitySet planner_result" where
  "connector_capabilities_from_document mapping =
     bind_result (require (set (keys mapping) - set (map (u \<circ> ConnectorCapability_value) all_capabilities)
            = {})
        (InvalidConnectorSnapshotError ''connector capability document has unknown fields'')) (\<lambda>_.
     bind_result (require (\<not> list_ex (\<lambda>(_, value). \<not> is_document_bool value) mapping)
        (InvalidConnectorSnapshotError ''connector capabilities must be booleans'')) (\<lambda>_.
     make_ConnectorCapabilitySet
       (filter (\<lambda>c. map_of mapping (u (ConnectorCapability_value c)) = Some (DocumentBool True))
          all_capabilities)))"

text \<open>The fields of a repository's connector record that planning reads.\<close>

record ConnectorRecord =
  record_connector_id :: string
  record_kind :: string
  record_configuration :: ConfigurationDocument
  record_capabilities :: ConfigurationDocument
  record_schema_discovery :: "ConfigurationDocument option"
  record_secret_references :: "(string \<times> string) list"
  record_revision :: int
  record_archived :: bool

definition snapshot_record :: "ConnectorRecord \<Rightarrow> ConnectorBindingSnapshot planner_result" where
  "snapshot_record r =
     bind_result (connector_capabilities_from_document (record_capabilities r)) (\<lambda>caps.
     bind_result (require (\<not> (record_schema_discovery r \<noteq> None \<and> \<not> supports caps Cap_SCHEMA_DISCOVERY))
        (InvalidConnectorSnapshotError
           ''connector schema metadata requires schema discovery capability'')) (\<lambda>_.
     bind_result (map_result (\<lambda>(n, e). make_ConnectorReferenceSnapshot n e)
        (record_secret_references r)) (\<lambda>refs.
     make_ConnectorBindingSnapshot
       \<lparr>binding_connector_id = record_connector_id r, binding_kind = record_kind r,
        revision = record_revision r, binding_configuration = record_configuration r,
        capabilities = caps, schema_discovery = record_schema_discovery r,
        secret_references = refs\<rparr>)))"

text \<open>The loop over the nodes with its dictionary of snapshots.\<close>

fun capability_loop ::
  "(string, ConnectorRecord) dict \<Rightarrow> PipelineNodeSpecification list \<Rightarrow>
     (string, ConnectorBindingSnapshot) dict \<Rightarrow> (string, ConnectorBindingSnapshot) dict planner_result"
where
  "capability_loop by_id [] snapshots = Inr snapshots"
| "capability_loop by_id (node # rest) snapshots =
     bind_result (registered_node_definition (kind node) (configuration_version node)) (\<lambda>d.
     if connector_requirement d = Connector_NONE
     then bind_result (require (connector_id node = None)
            (ConnectorValidationError ''pipeline node does not permit a connector binding''))
            (\<lambda>_. capability_loop by_id rest snapshots)
     else
       case connector_id node of
         None \<Rightarrow> Inl (MissingConnectorError ''pipeline node requires a connector binding'')
       | Some cid \<Rightarrow>
           (case map_of by_id cid of
              None \<Rightarrow> Inl (MissingConnectorError ''pipeline connector binding is unavailable'')
            | Some r \<Rightarrow>
                bind_result (require (\<not> record_archived r)
                  (MissingConnectorError ''pipeline connector binding is unavailable'')) (\<lambda>_.
                bind_result (case map_of snapshots cid of
                               Some s \<Rightarrow> Inr (s, snapshots)
                             | None \<Rightarrow> bind_result (snapshot_record r)
                                 (\<lambda>s. Inr (s, AList.update cid s snapshots))) (\<lambda>(s, snapshots').
                bind_result (require (\<not> list_ex (\<lambda>c. \<not> supports (capabilities s) c)
                                         (required_connector_capabilities (kind node)))
                  (MissingConnectorCapabilityError
                     ''pipeline connector lacks a required capability'')) (\<lambda>_.
                capability_loop by_id rest snapshots')))))"

definition validate_connector_capabilities ::
  "PipelineDocument \<Rightarrow> ConnectorRecord list \<Rightarrow> ConnectorBindingSnapshot list planner_result" where
  "validate_connector_capabilities document records =
     (let identities = map record_connector_id records in
     bind_result (require (card (set identities) = length identities)
        (InvalidConnectorSnapshotError ''connector records contain duplicate identities'')) (\<lambda>_.
     bind_result (capability_loop (map (\<lambda>r. (record_connector_id r, r)) records)
        (nodes document) []) (\<lambda>snapshots.
     Inr (sort_key binding_connector_id (map snd snapshots)))))"

subsection \<open>Published specifications\<close>

definition PUBLISHED_PIPELINE_SPECIFICATION_VERSION :: int where
  "PUBLISHED_PIPELINE_SPECIFICATION_VERSION = 1"

record PublishedPipelineSpecification =
  pipeline :: PipelineDocument
  connector_bindings :: "ConnectorBindingSnapshot list"
  published_specification_version :: int

definition referenced_connectors :: "PipelineDocument \<Rightarrow> string set" where
  "referenced_connectors document = set (List.map_filter connector_id (nodes document))"

text \<open>\<^verbatim>\<open>resource_policy.to_mapping() != total_policy\<close> compares dictionaries, whatever their order.\<close>

definition make_PublishedPipelineSpecification ::
  "PipelineDocument \<Rightarrow> ConnectorBindingSnapshot list \<Rightarrow> int \<Rightarrow>
     PublishedPipelineSpecification planner_result" where
  "make_PublishedPipelineSpecification doc bindings version =
     bind_result (require (version = PUBLISHED_PIPELINE_SPECIFICATION_VERSION)
        (InvalidPublishedSpecificationError ''published specification version is unsupported'')) (\<lambda>_.
     let binding_ids = map binding_connector_id bindings in
     bind_result (require (card (set binding_ids) = length binding_ids)
        (InvalidPublishedSpecificationError ''published connector bindings must be unique'')) (\<lambda>_.
     bind_result (require (set binding_ids = referenced_connectors doc)
        (InvalidPublishedSpecificationError
           ''published connector bindings must exactly match pipeline references'')) (\<lambda>_.
     bind_result (validate_resource_policy doc) (\<lambda>total_policy.
     bind_result (require (set (resource_policy doc) =
          set (map (\<lambda>(k, v). (k, DocumentInt v)) (policy_to_mapping total_policy)))
        (InvalidPublishedSpecificationError
           ''published resource policy must materialize every field'')) (\<lambda>_.
     Inr \<lparr>pipeline = doc, connector_bindings = sort_key binding_connector_id bindings,
          published_specification_version = version\<rparr>)))))"

subsection \<open>Execution plans\<close>

definition EXECUTION_PLAN_VERSION :: int where "EXECUTION_PLAN_VERSION = 1"
definition MAX_EXECUTION_PLAN_NODES :: nat where "MAX_EXECUTION_PLAN_NODES = 256"
definition MAX_EXECUTION_PLAN_EDGES :: nat where "MAX_EXECUTION_PLAN_EDGES = 4096"

record ExecutionPlanNode =
  plan_node_id :: string
  plan_kind :: string
  plan_configuration_version :: int
  plan_configuration :: ConfigurationDocument
  plan_connector_id :: "string option"
  plan_role :: NodeRole
  plan_connector_requirement :: ConnectorRequirement
  plan_supported_runners :: "PlannerRunnerKind list"
  plan_retry_behavior :: RetryBehavior
  plan_requires_idempotency :: bool
  partition_strategy :: PartitionStrategy

definition make_ExecutionPlanNode :: "ExecutionPlanNode \<Rightarrow> ExecutionPlanNode planner_result" where
  "make_ExecutionPlanNode n =
     bind_result (require (1 \<le> plan_configuration_version n \<and> plan_configuration_version n \<le> 2147483647)
        (InvalidExecutionPlanError
           ''execution-plan node configuration version is outside the supported range'')) (\<lambda>_.
     bind_result (require (plan_supported_runners n \<noteq> [])
        (InvalidExecutionPlanError ''execution-plan node requires a supported runner'')) (\<lambda>_.
     bind_result (require (card (set (plan_supported_runners n)) = length (plan_supported_runners n))
        (InvalidExecutionPlanError ''execution-plan node runners must be unique'')) (\<lambda>_.
     bind_result (require (\<not> (plan_connector_requirement n = Connector_NONE \<and>
                               plan_connector_id n \<noteq> None))
        (InvalidExecutionPlanError ''execution-plan node does not permit a connector'')) (\<lambda>_.
     bind_result (require (\<not> (plan_connector_requirement n \<noteq> Connector_NONE \<and>
                               plan_connector_id n = None))
        (InvalidExecutionPlanError ''execution-plan node requires a connector'')) (\<lambda>_.
     Inr (n\<lparr>plan_supported_runners :=
            sort_key PlannerRunnerKind_value (plan_supported_runners n)\<rparr>))))))"

record ExecutionPlan =
  plan_nodes :: "ExecutionPlanNode list"
  plan_edges :: "PipelineEdge list"
  plan_resource_policy :: ResourcePolicy
  plan_connector_bindings :: "ConnectorBindingSnapshot list"
  plan_version :: int

definition make_ExecutionPlan ::
  "ExecutionPlanNode list \<Rightarrow> PipelineEdge list \<Rightarrow> ResourcePolicy \<Rightarrow> ConnectorBindingSnapshot list \<Rightarrow>
     int \<Rightarrow> ExecutionPlan planner_result" where
  "make_ExecutionPlan ns es policy bindings version =
     bind_result (require (version = EXECUTION_PLAN_VERSION)
        (InvalidExecutionPlanError ''execution-plan version is unsupported'')) (\<lambda>_.
     bind_result (require (ns \<noteq> [])
        (InvalidExecutionPlanError ''execution plan requires at least one node'')) (\<lambda>_.
     bind_result (require (length ns \<le> MAX_EXECUTION_PLAN_NODES)
        (InvalidExecutionPlanError ''execution plan exceeds the node limit'')) (\<lambda>_.
     bind_result (require (length es \<le> MAX_EXECUTION_PLAN_EDGES)
        (InvalidExecutionPlanError ''execution plan exceeds the edge limit'')) (\<lambda>_.
     let ids = map plan_node_id ns in
     bind_result (require (card (set ids) = length ids)
        (InvalidExecutionPlanError ''execution-plan node identities must be unique'')) (\<lambda>_.
     bind_result (require (card (set es) = length es)
        (InvalidExecutionPlanError ''execution-plan edges must be unique'')) (\<lambda>_.
     bind_result (require (\<not> list_ex (\<lambda>e. source_node_id e \<notin> set ids \<or> target_node_id e \<notin> set ids) es)
        (InvalidExecutionPlanError ''execution-plan edge references an unknown node'')) (\<lambda>_.
     bind_result (require (\<not> list_ex (\<lambda>e. position ids (source_node_id e) \<ge>
                                           position ids (target_node_id e)) es)
        (InvalidExecutionPlanError ''execution-plan nodes are not topologically ordered'')) (\<lambda>_.
     let binding_ids = map binding_connector_id bindings in
     bind_result (require (card (set binding_ids) = length binding_ids)
        (InvalidExecutionPlanError ''execution-plan connector bindings must be unique'')) (\<lambda>_.
     bind_result (require (set binding_ids = set (List.map_filter plan_connector_id ns))
        (InvalidExecutionPlanError
           ''execution-plan connector bindings must exactly match node references'')) (\<lambda>_.
     Inr \<lparr>plan_nodes = ns, plan_edges = sort_key edge_key es, plan_resource_policy = policy,
          plan_connector_bindings = sort_key binding_connector_id bindings,
          plan_version = version\<rparr>))))))))))"

definition validate_embedded_connector_capabilities ::
  "PublishedPipelineSpecification \<Rightarrow> unit planner_result" where
  "validate_embedded_connector_capabilities spec =
     (let bindings = map (\<lambda>b. (binding_connector_id b, b)) (connector_bindings spec) in
     bind_result (check_all (\<lambda>b. require
          (\<not> (schema_discovery b \<noteq> None \<and> \<not> supports (capabilities b) Cap_SCHEMA_DISCOVERY))
          (InvalidConnectorSnapshotError
             ''connector schema metadata requires schema discovery capability''))
        (connector_bindings spec)) (\<lambda>_.
     check_all (\<lambda>node.
       bind_result (registered_node_definition (kind node) (configuration_version node)) (\<lambda>d.
       if connector_requirement d = Connector_NONE
       then require (connector_id node = None)
              (ConnectorValidationError ''pipeline node does not permit a connector binding'')
       else
         case connector_id node of
           None \<Rightarrow> Inl (MissingConnectorError ''pipeline node requires a connector binding'')
         | Some cid \<Rightarrow>
             require (\<not> list_ex (\<lambda>c. \<not> supports (capabilities (the (map_of bindings cid))) c)
                            (required_connector_capabilities (kind node)))
               (MissingConnectorCapabilityError ''pipeline connector lacks a required capability'')))
       (nodes (pipeline spec))))"

definition compile_node :: "PipelineNodeSpecification \<Rightarrow> ExecutionPlanNode planner_result" where
  "compile_node node =
     bind_result (registered_node_definition (kind node) (configuration_version node)) (\<lambda>d.
     bind_result (partition_strategy_from_configuration (kind node) (configuration node)) (\<lambda>ps.
     make_ExecutionPlanNode
       \<lparr>plan_node_id = node_id node, plan_kind = kind node,
        plan_configuration_version = configuration_version node,
        plan_configuration = configuration node, plan_connector_id = connector_id node,
        plan_role = role d, plan_connector_requirement = connector_requirement d,
        plan_supported_runners = supported_runners d, plan_retry_behavior = retry_behavior d,
        plan_requires_idempotency = requires_idempotency d, partition_strategy = ps\<rparr>))"

definition compile_execution_plan ::
  "PublishedPipelineSpecification \<Rightarrow> ExecutionPlan planner_result" where
  "compile_execution_plan spec =
     (let doc = pipeline spec in
     bind_result (validate_registered_nodes doc) (\<lambda>_.
     bind_result (validate_typed_ports doc) (\<lambda>_.
     bind_result (validate_acyclic_graph doc) (\<lambda>_.
     bind_result (validate_graph_reachability doc) (\<lambda>_.
     bind_result (validate_resource_policy doc) (\<lambda>policy.
     bind_result (validate_repair_safety doc) (\<lambda>_.
     bind_result (validate_embedded_connector_capabilities spec) (\<lambda>_.
     let nodes_by_id = map (\<lambda>n. (node_id n, n)) (nodes doc) in
     bind_result (topological_node_order doc) (\<lambda>order.
     bind_result (map_result (\<lambda>n. compile_node (the (map_of nodes_by_id n))) order) (\<lambda>ns.
     make_ExecutionPlan ns (edges doc) policy (connector_bindings spec)
       EXECUTION_PLAN_VERSION))))))))))"

subsection \<open>The compiler on validated documents\<close>

lemma map_of_node_id:
  assumes "distinct (map node_id ns)" and "n \<in> set ns"
  shows "map_of (map (\<lambda>n. (node_id n, n)) ns) (node_id n) = Some n"
  using assms by (intro map_of_is_SomeI) (auto simp: comp_def)

lemma published_bindings:
  assumes "make_PublishedPipelineSpecification d bs version = Inr spec"
  shows "pipeline spec = d" and "distinct (map binding_connector_id (connector_bindings spec))"
    and "set (map binding_connector_id (connector_bindings spec)) = referenced_connectors d"
    and "sorted (map binding_connector_id (connector_bindings spec))"
    and "\<exists>policy. validate_resource_policy d = Inr policy"
  using assms
  by (auto simp: make_PublishedPipelineSpecification_def result_simps Let_def card_eq_length_iff
      distinct_map_sort_key card_distinct)

text \<open>A node whose kind is registered, whose connector fits and whose partition strategy exists
  compiles to a plan node with the registered role.\<close>

definition compiled_from :: "PipelineNodeSpecification \<Rightarrow> ExecutionPlanNode \<Rightarrow> bool" where
  "compiled_from node pn \<longleftrightarrow>
     (\<exists>d ps. registered_node_definition (kind node) (configuration_version node) = Inr d \<and>
        partition_strategy_from_configuration (kind node) (configuration node) = Inr ps \<and>
        pn = \<lparr>plan_node_id = node_id node, plan_kind = kind node,
              plan_configuration_version = configuration_version node,
              plan_configuration = configuration node, plan_connector_id = connector_id node,
              plan_role = role d, plan_connector_requirement = connector_requirement d,
              plan_supported_runners = supported_runners d, plan_retry_behavior = retry_behavior d,
              plan_requires_idempotency = requires_idempotency d, partition_strategy = ps\<rparr>)"

lemma compile_node_Inr:
  assumes "registered_node_definition (kind node) (configuration_version node) = Inr d"
    and "partition_strategy_from_configuration (kind node) (configuration node) = Inr ps"
    and "connector_requirement d = Connector_NONE \<longleftrightarrow> connector_id node = None"
  shows "\<exists>pn. compile_node node = Inr pn \<and> compiled_from node pn"
proof -
  have "definition_facts d" and "configuration_version node = 1"
    using registered_facts [OF assms(1)] by (auto simp: definition_facts_def Let_def)
  then show ?thesis
    using assms
    by (auto simp: compile_node_def make_ExecutionPlanNode_def definition_facts_def Let_def
        distinct_card compiled_from_def)
qed

lemma embedded_connector_fits:
  assumes "validate_embedded_connector_capabilities spec = Inr ()" and "node \<in> set (nodes (pipeline spec))"
    and "registered_node_definition (kind node) (configuration_version node) = Inr d"
  shows "connector_requirement d = Connector_NONE \<longleftrightarrow> connector_id node = None"
  using assms
  by (fastforce simp: validate_embedded_connector_capabilities_def result_simps Let_def
      split: if_splits option.splits)

lemma map_result_exists:
  assumes "\<And>x. x \<in> set xs \<Longrightarrow> \<exists>y. f x = Inr y \<and> P x y"
  shows "\<exists>ys. map_result f xs = Inr ys \<and> list_all2 P xs ys"
  using assms
proof (induction xs)
  case (Cons x xs)
  then obtain y ys where "f x = Inr y" "P x y" "map_result f xs = Inr ys" "list_all2 P xs ys"
    by (metis list.set_intros)
  then show ?case by auto
qed simp

lemma set_map_filter_option: "set (List.map_filter f xs) = {y. Some y \<in> f ` set xs}"
  by (induction xs) (auto simp: List.map_filter_simps image_iff split: option.splits)

lemma ordered_node_lookup:
  assumes ok: "document_ok d" and order: "topological_node_order d = Inr order" and n: "n \<in> set order"
  shows "the (map_of (map (\<lambda>n. (node_id n, n)) (nodes d)) n) \<in> set (nodes d)"
    and "node_id (the (map_of (map (\<lambda>n. (node_id n, n)) (nodes d)) n)) = n"
proof -
  obtain m where m: "m \<in> set (nodes d)" "node_id m = n"
    using n topological_node_order_Inr(2) [OF ok order] by (auto simp: node_ids_def)
  moreover have "distinct (map node_id (nodes d))"
    using ok by (simp add: document_ok_def node_ids_def)
  ultimately show "the (map_of (map (\<lambda>n. (node_id n, n)) (nodes d)) n) \<in> set (nodes d)"
    and "node_id (the (map_of (map (\<lambda>n. (node_id n, n)) (nodes d)) n)) = n"
    using map_of_node_id [of "nodes d" m] by auto
qed

lemma make_ExecutionPlan_Inr:
  assumes ok: "document_ok d" and order: "topological_node_order d = Inr order"
    and ns: "list_all2 (\<lambda>n pn. compiled_from (the (map_of (map (\<lambda>n. (node_id n, n)) (nodes d)) n)) pn)
      order ns"
    and spec: "make_PublishedPipelineSpecification d bs version = Inr spec"
  shows "map plan_node_id ns = order"
    and "make_ExecutionPlan ns (edges d) policy (connector_bindings spec) EXECUTION_PLAN_VERSION =
           Inr \<lparr>plan_nodes = ns, plan_edges = edges d, plan_resource_policy = policy,
                plan_connector_bindings = connector_bindings spec,
                plan_version = EXECUTION_PLAN_VERSION\<rparr>"
proof -
  let ?node = "\<lambda>n. the (map_of (map (\<lambda>n. (node_id n, n)) (nodes d)) n)"
  note o = topological_node_order_Inr [OF ok order]
  have doc: "nodes d \<noteq> []" "length (nodes d) \<le> 256" "length (edges d) \<le> 4096"
    "distinct (map edge_key (edges d))" "sorted (map edge_key (edges d))"
    "set (edge_pairs d) \<subseteq> set (node_ids d) \<times> set (node_ids d)" "distinct (map node_id (nodes d))"
    using ok by (auto simp: document_ok_def node_ids_def MAX_PIPELINE_NODES_def MAX_PIPELINE_EDGES_def)
  have lookup: "?node (node_id m) = m" if "m \<in> set (nodes d)" for m
    using map_of_node_id [OF doc(7) that] by simp
  note node = ordered_node_lookup [OF ok order]
  have rel: "list_all2 (\<lambda>n pn. plan_node_id pn = n \<and> plan_connector_id pn = connector_id (?node n)) order ns"
    using ns by (rule list.rel_mono_strong) (use node in \<open>auto simp: compiled_from_def\<close>)
  show ids: "map plan_node_id ns = order"
    using list_all2_map_eq [OF rel, of plan_node_id "\<lambda>n. n"] by simp
  have "map plan_connector_id ns = map (\<lambda>n. connector_id (?node n)) order"
    by (rule list_all2_map_eq [OF rel]) simp
  then have "set (map plan_connector_id ns) = (\<lambda>n. connector_id (?node n)) ` set order"
    by (metis image_set)
  also have "\<dots> = connector_id ` set (nodes d)"
    using lookup o(2) by (auto simp: node_ids_def image_image)
  finally have refs: "set (List.map_filter plan_connector_id ns) = referenced_connectors d"
    by (simp add: referenced_connectors_def set_map_filter_option)
  have len: "length ns = length (nodes d)"
    using o(1,2) doc(7) ids by (metis distinct_card length_map node_ids_def)
  have before: "position order (source_node_id e) < position order (target_node_id e)"
    if "e \<in> set (edges d)" for e
  proof -
    have "(source_node_id e, target_node_id e) \<in> set (edge_pairs d)"
      using that by (simp add: edge_pairs_def)
    then show ?thesis
      using edge_ordered_position [OF o(3)] o(2) doc(6) by blast
  qed
  have known: "source_node_id e \<in> set order \<and> target_node_id e \<in> set order"
    if "e \<in> set (edges d)" for e
    using that doc(6) o(2) by (auto simp: edge_pairs_def)
  have "distinct (edges d)"
    using doc(4) by (simp add: distinct_map)
  moreover have "ns \<noteq> []" using len doc(1) by auto
  ultimately show "make_ExecutionPlan ns (edges d) policy (connector_bindings spec)
      EXECUTION_PLAN_VERSION =
      Inr \<lparr>plan_nodes = ns, plan_edges = edges d, plan_resource_policy = policy,
           plan_connector_bindings = connector_bindings spec,
           plan_version = EXECUTION_PLAN_VERSION\<rparr>"
    using ids o(1) len doc(2,3,5) before known refs published_bindings(2-4) [OF spec]
    by (simp add: make_ExecutionPlan_def Let_def MAX_EXECUTION_PLAN_NODES_def
        MAX_EXECUTION_PLAN_EDGES_def card_eq_length_iff list_ex_iff sort_key_id_if_sorted not_le
        del: set_map)
qed

text \<open>C33.  Compilation of a published specification needs no check beyond these: if the nodes are
  registered, the ports connect, the graph reaches from sources to terminals, the connectors have
  their capabilities and every partition count is in range, the compiler returns a plan.  Its nodes
  are the document's in the planner's topological order, each with the role, runners and strategy the
  registry gives it, and its edges and bindings are the document's; none of the plan's own checks can
  fail, nor can the cycle and repair-safety checks.\<close>

theorem compile_execution_plan_total:
  assumes "document_ok d" and "make_PublishedPipelineSpecification d bs version = Inr spec"
    and "validate_registered_nodes d = Inr ()" and "validate_typed_ports d = Inr ()"
    and "validate_graph_reachability d = Inr summary"
    and "validate_embedded_connector_capabilities spec = Inr ()"
    and "\<forall>node \<in> set (nodes d).
           \<exists>ps. partition_strategy_from_configuration (kind node) (configuration node) = Inr ps"
  shows "\<exists>plan. compile_execution_plan spec = Inr plan \<and>
           topological_node_order d = Inr (map plan_node_id (plan_nodes plan)) \<and>
           (\<forall>pn \<in> set (plan_nodes plan). \<exists>node \<in> set (nodes d). compiled_from node pn) \<and>
           plan_edges plan = edges d \<and> plan_connector_bindings plan = connector_bindings spec"
proof -
  let ?node = "\<lambda>n. the (map_of (map (\<lambda>n. (node_id n, n)) (nodes d)) n)"
  have acyclic: "acyclic (set (edge_pairs d))"
    by (rule typed_ports_acyclic [OF assms(1,4)])
  obtain order where order: "topological_node_order d = Inr order"
    using topological_node_order_acyclic [OF assms(1) acyclic] by blast
  obtain safe where safe: "validate_repair_safety d = Inr safe"
    using typed_ports_repair_safe [OF assms(1,4)] by blast
  obtain policy where policy: "validate_resource_policy d = Inr policy"
    using published_bindings(5) [OF assms(2)] by blast
  have pipeline: "pipeline spec = d"
    by (rule published_bindings(1) [OF assms(2)])
  note in_doc = ordered_node_lookup(1) [OF assms(1) order]
  have compiled: "\<exists>pn. compile_node (?node n) = Inr pn \<and> compiled_from (?node n) pn"
    if n: "n \<in> set order" for n
  proof -
    obtain def where "registered_node_definition (kind (?node n)) (configuration_version (?node n)) = Inr def"
      using assms(3) in_doc [OF n] by (fastforce simp: validate_registered_nodes_def result_simps)
    then show ?thesis
      using compile_node_Inr embedded_connector_fits [OF assms(6)] in_doc [OF n] assms(7) pipeline
      by blast
  qed
  obtain ns where ns: "map_result (\<lambda>n. compile_node (?node n)) order = Inr ns"
    "list_all2 (\<lambda>n pn. compiled_from (?node n) pn) order ns"
    using map_result_exists [of order "\<lambda>n. compile_node (?node n)"
        "\<lambda>n pn. compiled_from (?node n) pn", OF compiled] by blast
  note plan = make_ExecutionPlan_Inr [OF assms(1) order ns(2) assms(2)]
  have run: "compile_execution_plan spec =
      make_ExecutionPlan ns (edges d) policy (connector_bindings spec) EXECUTION_PLAN_VERSION"
    using assms(3-6) order safe policy ns(1) pipeline
    by (simp add: compile_execution_plan_def Let_def validate_acyclic_graph_def)
  have "\<exists>node \<in> set (nodes d). compiled_from node pn" if "pn \<in> set ns" for pn
    using list_all2_in_right [OF ns(2) that] in_doc by blast
  then show ?thesis
    using run plan order by simp
qed

text \<open>The export pipeline with its whole policy and its one connector.\<close>

definition export_specification :: "PublishedPipelineSpecification planner_result" where
  "export_specification =
     bind_result export_pipeline (\<lambda>d.
     bind_result (make_document (nodes d) (edges d)
       (map (\<lambda>(k, v). (k, DocumentInt v)) (policy_to_mapping DEFAULT_RESOURCE_POLICY)) [] 1 1) (\<lambda>d.
     make_PublishedPipelineSpecification d
       [\<lparr>binding_connector_id = ''connector_a'', binding_kind = ''csv'', revision = 1,
         binding_configuration = [], capabilities = [Cap_READ], schema_discovery = None,
         secret_references = []\<rparr>] 1))"

lemma export_specification_checks:
  "case export_specification of Inl _ \<Rightarrow> False
   | Inr spec \<Rightarrow>
       validate_registered_nodes (pipeline spec) = Inr () \<and>
       validate_typed_ports (pipeline spec) = Inr () \<and>
       validate_graph_reachability (pipeline spec) =
         Inr \<lparr>source_node_ids = [''node_a''], terminal_node_ids = [''node_b'']\<rparr> \<and>
       validate_embedded_connector_capabilities spec = Inr () \<and>
       list_all (\<lambda>node. partition_strategy_from_configuration (kind node) (configuration node) =
         Inr SINGLE_PARTITION_STRATEGY) (nodes (pipeline spec))"
  by code_simp

theorem compile_execution_plan_total_witness:
  "\<exists>spec plan. export_specification = Inr spec \<and> compile_execution_plan spec = Inr plan \<and>
     topological_node_order (pipeline spec) = Inr (map plan_node_id (plan_nodes plan))"
proof (cases export_specification)
  case (Inl e)
  show ?thesis
    using export_specification_checks unfolding Inl by simp
next
  case (Inr spec)
  then obtain d bs where d: "document_ok d" "make_PublishedPipelineSpecification d bs 1 = Inr spec"
    unfolding export_specification_def bind_result_eq_Inr using make_document_ok by blast
  have "pipeline spec = d"
    by (rule published_bindings(1) [OF d(2)])
  then have checks: "validate_registered_nodes d = Inr ()" "validate_typed_ports d = Inr ()"
    "validate_graph_reachability d =
       Inr \<lparr>source_node_ids = [''node_a''], terminal_node_ids = [''node_b'']\<rparr>"
    "validate_embedded_connector_capabilities spec = Inr ()"
    "\<forall>node \<in> set (nodes d).
       \<exists>ps. partition_strategy_from_configuration (kind node) (configuration node) = Inr ps"
    using export_specification_checks unfolding Inr by (auto simp: list_all_iff)
  show ?thesis
    using compile_execution_plan_total [OF d checks] Inr \<open>pipeline spec = d\<close> by auto
qed

subsection \<open>Snapshots satisfy the compiler's connector check\<close>

lemma snapshot_record_Inr:
  assumes "snapshot_record r = Inr s"
  shows "binding_connector_id s = record_connector_id r"
    and "schema_discovery s \<noteq> None \<Longrightarrow> supports (capabilities s) Cap_SCHEMA_DISCOVERY"
  using assms
  by (auto simp: snapshot_record_def make_ConnectorBindingSnapshot_def result_simps Let_def)

definition node_bound ::
  "(string, ConnectorBindingSnapshot) dict \<Rightarrow> PipelineNodeSpecification \<Rightarrow> bool" where
  "node_bound snapshots node \<longleftrightarrow>
     (\<exists>d. registered_node_definition (kind node) (configuration_version node) = Inr d \<and>
        (if connector_requirement d = Connector_NONE then connector_id node = None
         else \<exists>cid s. connector_id node = Some cid \<and> map_of snapshots cid = Some s \<and>
           (\<forall>c \<in> set (required_connector_capabilities (kind node)). supports (capabilities s) c)))"

definition snapshot_fits :: "string \<times> ConnectorBindingSnapshot \<Rightarrow> bool" where
  "snapshot_fits p \<longleftrightarrow> binding_connector_id (snd p) = fst p \<and>
     (schema_discovery (snd p) \<noteq> None \<longrightarrow> supports (capabilities (snd p)) Cap_SCHEMA_DISCOVERY)"

lemma node_bound_mono: "node_bound D node \<Longrightarrow> map_of D \<subseteq>\<^sub>m map_of D' \<Longrightarrow> node_bound D' node"
  unfolding node_bound_def map_le_def by (metis domI)

lemma capability_step:
  assumes "capability_loop by_id (node # rest) D = Inr D'"
    and by_id: "\<And>c r. map_of by_id c = Some r \<Longrightarrow> record_connector_id r = c"
    and "well_keyed D" and "list_all snapshot_fits D"
  obtains E where "capability_loop by_id rest E = Inr D'" and "node_bound E node"
    and "map_of D \<subseteq>\<^sub>m map_of E" and "well_keyed E" and "list_all snapshot_fits E"
    and "set (keys E) = set (keys D) \<union> set_option (connector_id node)"
proof -
  obtain d where d: "registered_node_definition (kind node) (configuration_version node) = Inr d"
    using assms(1) by (auto simp: result_simps)
  show thesis
  proof (cases "connector_requirement d = Connector_NONE")
    case True
    then show ?thesis
      using assms d by (intro that [of D]) (auto simp: result_simps node_bound_def)
  next
    case False
    then obtain cid r s E where c: "connector_id node = Some cid" "map_of by_id cid = Some r"
      and step: "(case map_of D cid of Some s \<Rightarrow> Inr (s, D)
           | None \<Rightarrow> bind_result (snapshot_record r) (\<lambda>s. Inr (s, AList.update cid s D))) = Inr (s, E)"
      and caps: "\<forall>x \<in> set (required_connector_capabilities (kind node)). supports (capabilities s) x"
      and rest: "capability_loop by_id rest E = Inr D'"
      using assms(1) d by (auto simp: result_simps list_ex_iff split: option.splits)
    show ?thesis
    proof (cases "map_of D cid")
      case None
      then have s: "snapshot_record r = Inr s" and E: "E = AList.update cid s D"
        using step by (auto simp: result_simps)
      have absent: "cid \<notin> set (keys D)"
        using None by (simp add: map_of_eq_None_iff)
      then have "E = D @ [(cid, s)]"
        unfolding E by (induction D) auto
      moreover have "snapshot_fits (cid, s)"
        using snapshot_record_Inr [OF s] by_id [OF c(2)] by (simp add: snapshot_fits_def)
      moreover have "map_of D \<subseteq>\<^sub>m map_of E"
        using None by (auto simp: E dict_simps map_le_def)
      moreover have "node_bound E node"
        using d False c(1) caps by (auto simp: node_bound_def E dict_simps)
      ultimately show ?thesis
        using that [of E] rest absent assms(3,4) c(1) by auto
    next
      case (Some s')
      then have E: "E = D" "s' = s"
        using step by auto
      moreover have "node_bound D node"
        using d False c(1) caps Some E by (auto simp: node_bound_def)
      moreover have "cid \<in> set (keys D)"
        by (rule map_of_eq_Some_in_keys [OF Some])
      ultimately show ?thesis
        using that [of D] rest assms(3,4) c(1) by auto
    qed
  qed
qed

lemma capability_loop_Inr:
  assumes "capability_loop by_id ns D = Inr D'"
    and "\<And>c r. map_of by_id c = Some r \<Longrightarrow> record_connector_id r = c"
    and "well_keyed D" and "list_all snapshot_fits D"
  shows "map_of D \<subseteq>\<^sub>m map_of D' \<and> (\<forall>node \<in> set ns. node_bound D' node) \<and> well_keyed D' \<and>
         list_all snapshot_fits D' \<and>
         set (keys D') = set (keys D) \<union> set (List.map_filter connector_id ns)"
  using assms(1,3,4)
proof (induction ns arbitrary: D)
  case Nil
  then show ?case by (simp add: List.map_filter_simps)
next
  case (Cons node ns)
  obtain E where E: "capability_loop by_id ns E = Inr D'" "node_bound E node" "map_of D \<subseteq>\<^sub>m map_of E"
    "well_keyed E" "list_all snapshot_fits E"
    "set (keys E) = set (keys D) \<union> set_option (connector_id node)"
    by (rule capability_step [OF Cons.prems(1) assms(2) Cons.prems(2,3)])
  note IH = Cons.IH [OF E(1,4,5)]
  have "set (List.map_filter connector_id (node # ns)) =
      set_option (connector_id node) \<union> set (List.map_filter connector_id ns)"
    by (auto simp: List.map_filter_simps split: option.splits)
  then show ?case
    using IH E(2,3,6) node_bound_mono [OF E(2)] map_le_trans [OF E(3)] by auto
qed

lemma validated_snapshots:
  assumes "validate_connector_capabilities d records = Inr snaps"
  obtains D where "\<forall>node \<in> set (nodes d). node_bound D node" and "well_keyed D"
    and "list_all snapshot_fits D" and "set (keys D) = referenced_connectors d"
    and "snaps = sort_key binding_connector_id (map snd D)"
proof -
  let ?by_id = "map (\<lambda>r. (record_connector_id r, r)) records"
  obtain D where D: "capability_loop ?by_id (nodes d) [] = Inr D"
    and snaps: "snaps = sort_key binding_connector_id (map snd D)"
    using assms by (auto simp: validate_connector_capabilities_def result_simps Let_def)
  have "record_connector_id r = c" if "map_of ?by_id c = Some r" for c r
    using map_of_SomeD [OF that] by auto
  from capability_loop_Inr [OF D this] show thesis
    using that [OF _ _ _ _ snaps] by (simp add: referenced_connectors_def)
qed

lemma snapshot_ids:
  assumes "list_all snapshot_fits D"
  shows "map (\<lambda>b. (binding_connector_id b, b)) (map snd D) = D"
    and "map binding_connector_id (map snd D) = keys D"
  using assms by (induction D) (auto simp: snapshot_fits_def)

text \<open>What publication snapshots, compilation accepts: the connector snapshots that the capability
  check returns are one per referenced connector, in the order of their identities, and with them
  the compiler's own connector check succeeds.\<close>

theorem snapshots_pass_compiler:
  assumes "validate_connector_capabilities d records = Inr snaps"
    and "spec = \<lparr>pipeline = d, connector_bindings = snaps, published_specification_version = 1\<rparr>"
  shows "sorted (map binding_connector_id snaps) \<and> distinct (map binding_connector_id snaps) \<and>
         set (map binding_connector_id snaps) = referenced_connectors d \<and>
         validate_embedded_connector_capabilities spec = Inr ()"
proof -
  obtain D where D: "\<forall>node \<in> set (nodes d). node_bound D node" "well_keyed D"
    "list_all snapshot_fits D" "set (keys D) = referenced_connectors d"
    and snaps: "snaps = sort_key binding_connector_id (map snd D)"
    by (rule validated_snapshots [OF assms(1)])
  note ids = snapshot_ids [OF D(3)]
  have distinct: "distinct (map binding_connector_id snaps)"
    unfolding snaps distinct_map_sort_key ids(2) by (rule D(2))
  have set_ids: "set (map binding_connector_id snaps) = referenced_connectors d"
    using D(4) ids(2) unfolding snaps by (metis set_map set_sort)
  let ?B = "map (\<lambda>b. (binding_connector_id b, b)) snaps"
  have "set ?B = set D"
    using ids(1) unfolding snaps by (metis set_map set_sort)
  then have lookup: "map_of ?B = map_of D"
    using distinct D(2) by (subst map_of_inject_set) (simp_all add: comp_def)
  have "schema_discovery b \<noteq> None \<longrightarrow> supports (capabilities b) Cap_SCHEMA_DISCOVERY"
    if "b \<in> set snaps" for b
    using that D(3) by (auto simp: snaps list_all_iff snapshot_fits_def)
  then have "validate_embedded_connector_capabilities spec = Inr ()"
    using D(1) lookup unfolding assms(2) validate_embedded_connector_capabilities_def
    by (fastforce simp: result_simps Let_def node_bound_def list_ex_iff)
  moreover have "sorted (map binding_connector_id snaps)"
    unfolding snaps by simp
  ultimately show ?thesis
    using distinct set_ids by blast
qed

definition csv_connector :: ConnectorRecord where
  "csv_connector =
     \<lparr>record_connector_id = ''connector_a'', record_kind = ''csv'', record_configuration = [],
      record_capabilities = [(u ''read'', DocumentBool True)], record_schema_discovery = None,
      record_secret_references = [(''token'', ''CSV_TOKEN'')], record_revision = 3,
      record_archived = False\<rparr>"

lemma export_pipeline_snapshots:
  "case export_pipeline of Inl _ \<Rightarrow> False
   | Inr d \<Rightarrow> (case validate_connector_capabilities d [csv_connector] of Inl _ \<Rightarrow> False
              | Inr snaps \<Rightarrow> map binding_connector_id snaps = [''connector_a''])"
  by code_simp

theorem snapshots_pass_compiler_witness:
  "\<exists>d snaps. export_pipeline = Inr d \<and>
     validate_connector_capabilities d [csv_connector] = Inr snaps \<and>
     validate_embedded_connector_capabilities
       \<lparr>pipeline = d, connector_bindings = snaps, published_specification_version = 1\<rparr> = Inr ()"
proof -
  obtain d snaps where "export_pipeline = Inr d"
    and "validate_connector_capabilities d [csv_connector] = Inr snaps"
    using export_pipeline_snapshots by (auto split: sum.splits)
  then show ?thesis
    using snapshots_pass_compiler by blast
qed

subsection \<open>Resource policies and partition keys\<close>

text \<open>The stored form of a policy: its mapping with every value an integer.\<close>

definition policy_document :: "ResourcePolicy \<Rightarrow> ConfigurationDocument" where
  "policy_document p = map (\<lambda>(k, v). (k, DocumentInt v)) (policy_to_mapping p)"

lemma parse_policy_document: "parse_resource_policy (policy_document p) = make_ResourcePolicy p"
  by (cases p) (simp add: parse_resource_policy_def policy_document_def policy_to_mapping_def
      RESOURCE_POLICY_FIELDS_def updated_value_def Let_def)

lemma make_ResourcePolicy_same: "make_ResourcePolicy p = Inr q \<Longrightarrow> q = p"
  by (auto simp: make_ResourcePolicy_def result_simps)

text \<open>A parsed policy is total and stable: whatever partial document it was parsed from, its bounds
  are ordered (concurrency within in-flight work within queue capacity), storing it with every field
  and parsing that again gives the same policy.\<close>

theorem resource_policy_stable:
  assumes "parse_resource_policy mapping = Inr p"
  shows "parse_resource_policy (policy_document p) = Inr p \<and>
         1 \<le> max_concurrency p \<and> max_concurrency p \<le> max_in_flight p \<and>
         max_in_flight p \<le> queue_capacity p \<and> queue_capacity p \<le> 65536 \<and>
         (\<forall>v. map_of mapping (u ''max_in_flight'') = Some (DocumentInt v) \<longrightarrow> max_in_flight p = v)"
proof -
  obtain q where q: "make_ResourcePolicy q = Inr p"
    and v: "max_in_flight q =
      updated_value mapping ''max_in_flight'' (max_in_flight DEFAULT_RESOURCE_POLICY)"
    using assms by (auto simp: parse_resource_policy_def result_simps Let_def)
  have "p = q" by (rule make_ResourcePolicy_same [OF q])
  with q v show ?thesis
    by (auto simp: parse_policy_document make_ResourcePolicy_def result_simps validate_integer_def
        updated_value_def MIN_RESOURCE_CONCURRENCY_def MAX_RESOURCE_QUEUE_CAPACITY_def)
qed

theorem resource_policy_stable_witness:
  "\<exists>p. parse_resource_policy [(u ''max_in_flight'', DocumentInt 32)] = Inr p \<and>
     parse_resource_policy (policy_document p) = Inr p \<and> max_in_flight p = 32"
proof -
  have "case parse_resource_policy [(u ''max_in_flight'', DocumentInt 32)] of Inl _ \<Rightarrow> False | Inr _ \<Rightarrow> True"
    by code_simp
  then obtain p where "parse_resource_policy [(u ''max_in_flight'', DocumentInt 32)] = Inr p"
    by (auto split: sum.splits)
  then show ?thesis
    using resource_policy_stable by fastforce
qed

lemma seg_tail_digits: "list_all is_digit s \<Longrightarrow> seg_tail lower_or_digit sep s"
  by (induction s) auto

lemma seg_start_digits: "list_all is_digit s \<Longrightarrow> s \<noteq> [] \<Longrightarrow> seg_start lower_or_digit sep s"
  by (cases s) (auto simp: seg_tail_digits)

lemma partition_key_text:
  assumes "i < 1024"
  shows "PartitionKey (''partition-'' @ zero_padded PARTITION_KEY_DIGITS i) =
           Inr (''partition-'' @ zero_padded PARTITION_KEY_DIGITS i)"
proof -
  let ?z = "zero_padded PARTITION_KEY_DIGITS i"
  have len: "length ?z = 8"
    using assms by (simp add: PARTITION_KEY_DIGITS_def length_zero_padded)
  then have "?z \<noteq> []" by auto
  then have "PARTITION_KEY_PATTERN (''partition-'' @ ?z)"
    using seg_start_digits [OF zero_padded_digits, of PARTITION_KEY_DIGITS i]
    by (simp add: PARTITION_KEY_PATTERN_def is_lower_def is_digit_def)
  moreover have "list_all is_ascii ?z"
    using zero_padded_digits [of PARTITION_KEY_DIGITS i]
    by (auto simp: list_all_iff is_digit_def is_ascii_def)
  ultimately show ?thesis
    using len by (simp add: PartitionKey_def validate_stable_text_def is_ascii_def)
qed

text \<open>The keys of a strategy always exist, one per partition, and their text order is the order of
  their indices, so sorting work by partition key is sorting it by partition number.\<close>

theorem partition_keys_ordered:
  assumes "make_PartitionStrategy k n version = Inr strategy"
  shows "\<exists>ks. partition_keys strategy = Inr ks \<and> length ks = nat n \<and> sorted_wrt (<) ks \<and>
           (\<forall>i < length ks. partition_key strategy (int i) = Inr (ks ! i))"
proof -
  have n: "partition_count strategy = n" "1 \<le> n" "n \<le> 1024"
    using assms by (auto simp: make_PartitionStrategy_def result_simps MIN_PARTITION_COUNT_def
        MAX_PARTITION_COUNT_def)
  let ?key = "\<lambda>i. ''partition-'' @ zero_padded PARTITION_KEY_DIGITS i"
  have key: "partition_key strategy (int i) = Inr (?key i)" if "i < nat n" for i
  proof -
    have "int i < n" and "i < 1024"
      using that n by linarith+
    then show ?thesis
      using n partition_key_text [of i] by (simp add: partition_key_def)
  qed
  then have keys: "partition_keys strategy = Inr (map ?key [0..<nat n])"
    using n(1) by (auto simp: partition_keys_def result_simps)
  have "?key i < ?key j" if "i < j" "j < nat n" for i j
    using that n zero_padded_less [of i j PARTITION_KEY_DIGITS]
    by (simp add: PARTITION_KEY_DIGITS_def)
  then have "sorted_wrt (<) (map ?key [0..<nat n])"
    by (auto simp: sorted_wrt_iff_nth_less)
  then show ?thesis
    using keys key by auto
qed

theorem partition_keys_ordered_witness:
  "\<exists>strategy ks. make_PartitionStrategy Partition_FIXED 12 1 = Inr strategy \<and>
     partition_keys strategy = Inr ks \<and> length ks = 12 \<and> sorted_wrt (<) ks"
proof -
  obtain strategy where "make_PartitionStrategy Partition_FIXED 12 1 = Inr strategy"
    by (simp add: make_PartitionStrategy_def MIN_PARTITION_COUNT_def MAX_PARTITION_COUNT_def
        PARTITION_STRATEGY_VERSION_def)
  then show ?thesis
    using partition_keys_ordered by fastforce
qed

end
