(* ===== verification/Frontier.thy ===== *)
theory Frontier
  imports Text_Forms Kahn
begin

text \<open>
  The durable frontier of the concurrent scheduler, the values of
  \<^verbatim>\<open>application/execution/concurrent_scheduler.py\<close>: work identities and states, per-node aggregates,
  retry waits, the frontier with every check of its constructor, the dependency-barrier check, and the
  plain mapping it is stored as.

  Identity and reason text is ASCII by validation, so it is a \<open>string\<close>.  A payload read back from
  storage is a value of \<open>payload\<close>; the code's checks of its shape are branches of the model.
\<close>

subsection \<open>Constants and errors\<close>

definition SCHEDULER_FRONTIER_VERSION :: int where "SCHEDULER_FRONTIER_VERSION = 2"
definition MAX_FRONTIER_WORK_ITEMS :: nat where "MAX_FRONTIER_WORK_ITEMS = 65536"
definition MAX_FRONTIER_RETRY_ELIGIBILITY_MICROS :: int where
  "MAX_FRONTIER_RETRY_ELIGIBILITY_MICROS = 2 ^ 53 - 1"
definition MAX_FRONTIER_REASON_LENGTH :: nat where "MAX_FRONTIER_REASON_LENGTH = 256"
definition MAX_FRONTIER_IDENTITY_LENGTH :: nat where "MAX_FRONTIER_IDENTITY_LENGTH = 128"
definition MAX_FRONTIER_LEASE_FENCE :: int where "MAX_FRONTIER_LEASE_FENCE = 2 ^ 31 - 1"
definition MAX_METRIC_VALUE :: int where "MAX_METRIC_VALUE = 2 ^ 31 - 1"

datatype scheduler_error =
    InvalidStateError string
  | TransitionError string
  | FrontierVersionError string
  | FrontierCorruptError string
  | CapacityError string
  | ContractBoundError string

type_synonym 'a sched_result = "(scheduler_error, 'a) result"

definition is_fingerprint :: "string \<Rightarrow> bool" where
  "is_fingerprint s \<longleftrightarrow>
     length s = 64 \<and> list_all (\<lambda>c. is_digit c \<or> (97 \<le> code c \<and> code c \<le> 102)) s"

text \<open>The text checks; they differ in the bound and in the class of the error.\<close>

definition require_text ::
  "(string \<Rightarrow> scheduler_error) \<Rightarrow> string \<Rightarrow> string \<Rightarrow> nat \<Rightarrow> unit sched_result" where
  "require_text error value subject maximum =
     bind_result (require (1 \<le> length value \<and> length value \<le> maximum)
        (error (subject @ '' length is outside the supported range''))) (\<lambda>_.
     require (list_all is_printable_ascii value)
        (error (subject @ '' must use printable ASCII characters'')))"

definition require_identity_text :: "string \<Rightarrow> string \<Rightarrow> unit sched_result" where
  "require_identity_text value subject =
     require_text InvalidStateError value subject MAX_FRONTIER_IDENTITY_LENGTH"

definition require_reason_text :: "string \<Rightarrow> string \<Rightarrow> unit sched_result" where
  "require_reason_text value subject =
     require_text InvalidStateError value subject MAX_FRONTIER_REASON_LENGTH"

definition require_frontier_text :: "string \<Rightarrow> string \<Rightarrow> nat \<Rightarrow> unit sched_result" where
  "require_frontier_text value subject maximum = require_text FrontierCorruptError value subject maximum"

definition require_bounded_int :: "int \<Rightarrow> int \<Rightarrow> int \<Rightarrow> string \<Rightarrow> unit sched_result" where
  "require_bounded_int value minimum maximum subject =
     require (minimum \<le> value \<and> value \<le> maximum)
       (InvalidStateError (subject @ '' is outside the supported range''))"

definition require_plan_fingerprint :: "string \<Rightarrow> unit sched_result" where
  "require_plan_fingerprint value =
     require (is_fingerprint value)
       (InvalidStateError ''scheduler plan fingerprint must use 64 lowercase hexadecimal characters'')"

definition require_frontier_fingerprint :: "string \<Rightarrow> unit sched_result" where
  "require_frontier_fingerprint value =
     require (is_fingerprint value)
       (FrontierCorruptError
          ''frontier plan fingerprint must use 64 lowercase hexadecimal characters'')"

subsection \<open>Control states and generations\<close>

datatype ContractLifecycleState =
    NEW | OPEN | RUNNING | QUIESCING | PAUSED | CANCELLING | CLOSED | RECOVERY_REQUIRED

fun ContractLifecycleState_value :: "ContractLifecycleState \<Rightarrow> string" where
  "ContractLifecycleState_value NEW = ''new''"
| "ContractLifecycleState_value OPEN = ''open''"
| "ContractLifecycleState_value RUNNING = ''running''"
| "ContractLifecycleState_value QUIESCING = ''quiescing''"
| "ContractLifecycleState_value PAUSED = ''paused''"
| "ContractLifecycleState_value CANCELLING = ''cancelling''"
| "ContractLifecycleState_value CLOSED = ''closed''"
| "ContractLifecycleState_value RECOVERY_REQUIRED = ''recovery_required''"

definition all_lifecycle_states :: "ContractLifecycleState list" where
  "all_lifecycle_states =
     [NEW, OPEN, RUNNING, QUIESCING, PAUSED, CANCELLING, CLOSED, RECOVERY_REQUIRED]"

definition FRONTIER_CONTROL_STATES :: "ContractLifecycleState set" where
  "FRONTIER_CONTROL_STATES = {RUNNING, QUIESCING, PAUSED, CANCELLING, RECOVERY_REQUIRED}"

text \<open>A \<^verbatim>\<open>ControlGeneration\<close> is its value.\<close>

definition make_ControlGeneration :: "int \<Rightarrow> int sched_result" where
  "make_ControlGeneration value =
     bind_result (require (1 \<le> value \<and> value \<le> MAX_METRIC_VALUE)
        (ContractBoundError ''control generation is outside the supported range'')) (\<lambda>_. Inr value)"

subsection \<open>Work states\<close>

datatype FrontierWorkState =
    BLOCKED | READY | ADMITTED | AWAITING_COMMIT | RETRY_WAIT
  | SUCCEEDED | QUARANTINED | FAILED | CANCELLED

fun FrontierWorkState_value :: "FrontierWorkState \<Rightarrow> string" where
  "FrontierWorkState_value BLOCKED = ''blocked''"
| "FrontierWorkState_value READY = ''ready''"
| "FrontierWorkState_value ADMITTED = ''admitted''"
| "FrontierWorkState_value AWAITING_COMMIT = ''awaiting_commit''"
| "FrontierWorkState_value RETRY_WAIT = ''retry_wait''"
| "FrontierWorkState_value SUCCEEDED = ''succeeded''"
| "FrontierWorkState_value QUARANTINED = ''quarantined''"
| "FrontierWorkState_value FAILED = ''failed''"
| "FrontierWorkState_value CANCELLED = ''cancelled''"

definition all_work_states :: "FrontierWorkState list" where
  "all_work_states =
     [BLOCKED, READY, ADMITTED, AWAITING_COMMIT, RETRY_WAIT, SUCCEEDED, QUARANTINED, FAILED, CANCELLED]"

text \<open>The enum constructors \<^verbatim>\<open>FrontierWorkState(text)\<close> and \<^verbatim>\<open>ContractLifecycleState(text)\<close>; \<open>None\<close> is the
  \<^verbatim>\<open>ValueError\<close> of an unknown value.\<close>

definition work_state_of :: "string \<Rightarrow> FrontierWorkState option" where
  "work_state_of s = find (\<lambda>w. FrontierWorkState_value w = s) all_work_states"

definition lifecycle_state_of :: "string \<Rightarrow> ContractLifecycleState option" where
  "lifecycle_state_of s = find (\<lambda>w. ContractLifecycleState_value w = s) all_lifecycle_states"

lemma work_state_of_value [simp]: "work_state_of (FrontierWorkState_value w) = Some w"
  by (cases w) (simp_all add: work_state_of_def all_work_states_def)

lemma lifecycle_state_of_value [simp]: "lifecycle_state_of (ContractLifecycleState_value w) = Some w"
  by (cases w) (simp_all add: lifecycle_state_of_def all_lifecycle_states_def)

definition is_terminal :: "FrontierWorkState \<Rightarrow> bool" where
  "is_terminal w \<longleftrightarrow> w \<in> {SUCCEEDED, QUARANTINED, FAILED, CANCELLED}"

definition in_flight :: "FrontierWorkState \<Rightarrow> bool" where
  "in_flight w \<longleftrightarrow> w \<in> {ADMITTED, AWAITING_COMMIT}"

subsection \<open>Identities, aggregates and retry waits\<close>

record WorkIdentity =
  run_id :: string
  node_id :: string
  partition_key :: string

definition make_WorkIdentity :: "string \<Rightarrow> string \<Rightarrow> string \<Rightarrow> WorkIdentity sched_result" where
  "make_WorkIdentity r n p =
     bind_result (require_identity_text r ''work identity run'') (\<lambda>_.
     bind_result (require_identity_text n ''work identity node'') (\<lambda>_.
     bind_result (require_identity_text p ''work identity partition key'') (\<lambda>_.
     Inr \<lparr>run_id = r, node_id = n, partition_key = p\<rparr>)))"

definition identity_sort_key :: "WorkIdentity \<Rightarrow> string \<times> string \<times> string" where
  "identity_sort_key i = (node_id i, partition_key i, run_id i)"

lemma inj_identity_sort_key: "inj identity_sort_key"
  by (rule injI) (simp add: identity_sort_key_def)

record FrontierNodeAggregate =
  agg_node_id :: string
  total :: nat
  succeeded :: nat
  quarantined :: nat
  failed :: nat
  cancelled :: nat
  agg_in_flight :: nat
  agg_retry_wait :: nat

definition make_FrontierNodeAggregate ::
  "FrontierNodeAggregate \<Rightarrow> FrontierNodeAggregate sched_result" where
  "make_FrontierNodeAggregate a =
     bind_result (require_identity_text (agg_node_id a) ''frontier node aggregate identity'') (\<lambda>_.
     bind_result (check_all (\<lambda>(value, subject). require_bounded_int (int value) 0
          (int MAX_FRONTIER_WORK_ITEMS) subject)
        [(total a, ''frontier node aggregate total''),
         (succeeded a, ''frontier node aggregate succeeded''),
         (quarantined a, ''frontier node aggregate quarantined''),
         (failed a, ''frontier node aggregate failed''),
         (cancelled a, ''frontier node aggregate cancelled''),
         (agg_in_flight a, ''frontier node aggregate in flight''),
         (agg_retry_wait a, ''frontier node aggregate retry wait'')]) (\<lambda>_.
     let terminal = succeeded a + quarantined a + failed a + cancelled a in
     bind_result (require (\<not> terminal > total a)
        (InvalidStateError ''frontier node aggregate terminal count exceeds the node total'')) (\<lambda>_.
     bind_result (require (\<not> agg_in_flight a + agg_retry_wait a + terminal > total a)
        (InvalidStateError ''frontier node aggregate counts exceed the node total'')) (\<lambda>_.
     Inr a))))"

definition is_complete :: "FrontierNodeAggregate \<Rightarrow> bool" where
  "is_complete a \<longleftrightarrow>
     total a > 0 \<and> succeeded a + quarantined a + failed a + cancelled a = total a"

definition permits_continuation :: "FrontierNodeAggregate \<Rightarrow> bool" where
  "permits_continuation a \<longleftrightarrow>
     total a > 0 \<and> succeeded a = total a \<and> agg_in_flight a = 0 \<and> agg_retry_wait a = 0"

definition is_blocked_terminal :: "FrontierNodeAggregate \<Rightarrow> bool" where
  "is_blocked_terminal a \<longleftrightarrow> quarantined a + failed a + cancelled a > 0"

text \<open>The aggregate of the states of one node's work.\<close>

definition aggregate_of :: "string \<Rightarrow> FrontierWorkState list \<Rightarrow> FrontierNodeAggregate" where
  "aggregate_of n ws =
     \<lparr>agg_node_id = n, total = length ws,
      succeeded = count_list ws SUCCEEDED, quarantined = count_list ws QUARANTINED,
      failed = count_list ws FAILED, cancelled = count_list ws CANCELLED,
      agg_in_flight = length (filter in_flight ws), agg_retry_wait = count_list ws RETRY_WAIT\<rparr>"

record FrontierRetryWait =
  identity :: WorkIdentity
  eligible_at_micros :: int
  reason :: string

definition make_FrontierRetryWait ::
  "WorkIdentity \<Rightarrow> int \<Rightarrow> string \<Rightarrow> FrontierRetryWait sched_result" where
  "make_FrontierRetryWait i t r =
     bind_result (require_bounded_int t 0 MAX_FRONTIER_RETRY_ELIGIBILITY_MICROS
        ''frontier retry wait eligibility'') (\<lambda>_.
     bind_result (require_reason_text r ''frontier retry wait reason'') (\<lambda>_.
     Inr \<lparr>identity = i, eligible_at_micros = t, reason = r\<rparr>))"

subsection \<open>Dependency barriers\<close>

definition predecessors_in :: "(string \<times> string) list \<Rightarrow> string \<Rightarrow> string list" where
  "predecessors_in es n = map fst (filter (\<lambda>e. snd e = n) es)"

definition node_states_in :: "(WorkIdentity, FrontierWorkState) dict \<Rightarrow> string \<Rightarrow> FrontierWorkState list"
where
  "node_states_in states n = map snd (filter (\<lambda>p. node_id (fst p) = n) states)"

definition validate_frontier_dependency_barriers ::
  "string list \<Rightarrow> (string \<times> string) list \<Rightarrow> (WorkIdentity, FrontierWorkState) dict \<Rightarrow>
     unit sched_result" where
  "validate_frontier_dependency_barriers node_order es states =
     bind_result (map_result (\<lambda>n.
        bind_result (make_FrontierNodeAggregate (aggregate_of n (node_states_in states n)))
          (\<lambda>a. Inr (n, a))) node_order) (\<lambda>aggregates.
     check_all (\<lambda>n.
       let required = predecessors_in es n in
       if required = [] then Inr ()
       else
         let continuation_permitted =
               list_all (\<lambda>p. permits_continuation (the (map_of aggregates p))) required in
         check_all (\<lambda>state.
           bind_result (require (\<not> (continuation_permitted \<and> state = BLOCKED))
             (FrontierCorruptError
                ''frontier dependency barrier leaves work blocked after all predecessors succeeded''))
           (\<lambda>_.
           require (\<not> (\<not> continuation_permitted \<and> state \<noteq> BLOCKED))
             (FrontierCorruptError ''frontier work bypasses an unsatisfied dependency barrier'')))
           (node_states_in states n)) node_order)"

subsection \<open>The frontier\<close>

record SchedulerFrontierV2 =
  version :: int
  plan_fingerprint :: string
  control_generation :: int
  frontier_run_id :: string
  node_order :: "string list"
  edges :: "(string \<times> string) list"
  work_states :: "(WorkIdentity, FrontierWorkState) dict"
  lease_fences :: "(WorkIdentity, int) dict"
  retry_waits :: "FrontierRetryWait list"
  control_state :: ContractLifecycleState
  recovery_required_reason :: "string option"

abbreviation corrupt :: "bool \<Rightarrow> string \<Rightarrow> unit sched_result" where
  "corrupt good message \<equiv> require good (FrontierCorruptError message)"

definition frontier_edge_pairs :: "(string \<times> string) list \<Rightarrow> unit sched_result" where
  "frontier_edge_pairs es =
     bind_result (check_all (\<lambda>(s, t).
        bind_result (require_frontier_text s ''frontier edge source'' MAX_FRONTIER_IDENTITY_LENGTH) (\<lambda>_.
        require_frontier_text t ''frontier edge target'' MAX_FRONTIER_IDENTITY_LENGTH)) es) (\<lambda>_.
     bind_result (corrupt (card (set es) = length es) ''frontier edges must be unique'') (\<lambda>_.
     corrupt (es = sort es) ''frontier edges must be sorted''))"

definition make_frontier :: "SchedulerFrontierV2 \<Rightarrow> SchedulerFrontierV2 sched_result" where
  "make_frontier f =
     bind_result (require (version f = SCHEDULER_FRONTIER_VERSION)
        (FrontierVersionError ''frontier schema version is unsupported'')) (\<lambda>_.
     bind_result (require_frontier_fingerprint (plan_fingerprint f)) (\<lambda>_.
     bind_result (require_frontier_text (frontier_run_id f) ''frontier run identity''
        MAX_FRONTIER_IDENTITY_LENGTH) (\<lambda>_.
     let nodes = node_order f; es = edges f; states = work_states f;
         fences = lease_fences f; waits = map (\<lambda>w. (identity w, w)) (retry_waits f) in
     bind_result (check_all (\<lambda>n. require_frontier_text n ''frontier node identity''
        MAX_FRONTIER_IDENTITY_LENGTH) nodes) (\<lambda>_.
     bind_result (corrupt (nodes \<noteq> []) ''frontier node order must not be empty'') (\<lambda>_.
     bind_result (corrupt (card (set nodes) = length nodes) ''frontier node order must be unique'') (\<lambda>_.
     bind_result (frontier_edge_pairs es) (\<lambda>_.
     bind_result (check_all (\<lambda>(s, t).
        bind_result (corrupt (s \<in> set nodes \<and> t \<in> set nodes)
          ''frontier edge must identify a known node'') (\<lambda>_.
        corrupt (s \<noteq> t) ''frontier edge cannot be a self dependency'')) es) (\<lambda>_.
     bind_result (corrupt (\<not> edges_contain_cycle nodes es)
        ''frontier edges must not contain a directed cycle'') (\<lambda>_.
     bind_result (corrupt (length states \<le> MAX_FRONTIER_WORK_ITEMS)
        ''frontier exceeds the work item bound'') (\<lambda>_.
     bind_result (check_all (\<lambda>(_, fence).
        corrupt (1 \<le> fence \<and> fence \<le> MAX_FRONTIER_LEASE_FENCE)
          ''frontier lease fence is outside the supported range'') fences) (\<lambda>_.
     bind_result (check_all (\<lambda>(i, _).
        bind_result (corrupt (node_id i \<in> set nodes)
          ''frontier work item must reference a known node'') (\<lambda>_.
        corrupt (run_id i = frontier_run_id f)
          ''frontier work item must reference the frontier run'')) states) (\<lambda>_.
     bind_result (corrupt (card (set (keys states)) = length states)
        ''frontier work identities must be unique'') (\<lambda>_.
     bind_result (corrupt (keys states = sort_key identity_sort_key (keys states))
        ''frontier work states must be sorted'') (\<lambda>_.
     bind_result (corrupt (node_id ` set (keys states) = set nodes)
        ''every frontier node requires work items'') (\<lambda>_.
     bind_result (check_all (\<lambda>(i, _). corrupt (i \<in> set (keys states))
        ''frontier lease fence must reference known work'') fences) (\<lambda>_.
     bind_result (corrupt (card (set (keys fences)) = length fences)
        ''frontier lease fences must be unique'') (\<lambda>_.
     bind_result (corrupt (keys fences = sort_key identity_sort_key (keys fences))
        ''frontier lease fences must be sorted'') (\<lambda>_.
     bind_result (corrupt (card (set (keys waits)) = length waits)
        ''frontier retry waits must be unique'') (\<lambda>_.
     bind_result (corrupt (keys waits = sort_key identity_sort_key (keys waits))
        ''frontier retry waits must be sorted'') (\<lambda>_.
     bind_result (check_all (\<lambda>(i, state).
        if in_flight state
        then corrupt (i \<in> set (keys fences)) ''in-flight frontier work must hold a lease fence''
        else corrupt (i \<notin> set (keys fences))
               ''frontier lease fence is held by non-in-flight work'') states) (\<lambda>_.
     bind_result (corrupt
        (set (map fst (filter (\<lambda>(_, state). state = RETRY_WAIT) states)) = set (keys waits))
        ''frontier retry waits must match retry-wait work'') (\<lambda>_.
     bind_result (validate_frontier_dependency_barriers nodes es states) (\<lambda>_.
     bind_result (corrupt (control_state f \<in> FRONTIER_CONTROL_STATES)
        ''frontier control state is not durable'') (\<lambda>_.
     bind_result
       (if control_state f = RECOVERY_REQUIRED
        then (case recovery_required_reason f of
                None \<Rightarrow> Inl (FrontierCorruptError ''frontier recovery reason must be text'')
              | Some r \<Rightarrow> require_frontier_text r ''frontier recovery reason''
                  MAX_FRONTIER_REASON_LENGTH)
        else corrupt (recovery_required_reason f = None)
               ''frontier recovery reason requires recovery-required control state'') (\<lambda>_.
     Inr f)))))))))))))))))))))))))"

definition in_flight_identities :: "SchedulerFrontierV2 \<Rightarrow> WorkIdentity list" where
  "in_flight_identities f =
     filter (\<lambda>i. in_flight (the (map_of (work_states f) i)))
       (sort_key identity_sort_key (keys (work_states f)))"

definition ready_identities :: "SchedulerFrontierV2 \<Rightarrow> WorkIdentity list" where
  "ready_identities f =
     sort_key (\<lambda>i. (position (node_order f) (node_id i), partition_key i))
       (map fst (filter (\<lambda>(_, state). state = READY) (work_states f)))"

end
