(* ===== verification/Scheduler.thy ===== *)
theory Scheduler
  imports Frontier
begin

text \<open>
  The \<^verbatim>\<open>ConcurrentScheduler\<close> of \<^verbatim>\<open>application/execution/concurrent_scheduler.py\<close>: admission of ready work,
  results, commits with the release of dependent nodes, retry waits, pause, resume, cancellation,
  recovery and restoration from a frontier.

  The object is the record \<open>scheduler\<close>; its dictionaries of predecessors, successors and identities by
  node are functions, defined on every node.  A method that may raise after it changed the object
  returns the changed object beside the exception.
\<close>

subsection \<open>The object\<close>

record scheduler =
  s_run_id :: string
  s_plan_fingerprint :: string
  s_node_order :: "string list"
  s_edges :: "(string \<times> string) list"
  s_predecessors :: "string \<Rightarrow> string list"
  s_successors :: "string \<Rightarrow> string list"
  s_identities_by_node :: "string \<Rightarrow> WorkIdentity list"
  s_states :: "(WorkIdentity, FrontierWorkState) dict"
  s_fences :: "(WorkIdentity, int) dict"
  s_retry_waits :: "(WorkIdentity, FrontierRetryWait) dict"
  s_control_generation :: int
  s_control_state :: ContractLifecycleState
  s_recovery_reason :: "string option"

abbreviation invalid :: "bool \<Rightarrow> string \<Rightarrow> unit sched_result" where
  "invalid good message \<equiv> require good (InvalidStateError message)"

definition scheduler_edge_pairs :: "(string \<times> string) list \<Rightarrow> unit sched_result" where
  "scheduler_edge_pairs es =
     check_all (\<lambda>(s, t).
       bind_result (require_identity_text s ''scheduler edge source'') (\<lambda>_.
       require_identity_text t ''scheduler edge target'')) es"

text \<open>The partitions of one node, checked and sorted.\<close>

definition ordered_partitions :: "string list \<Rightarrow> string list sched_result" where
  "ordered_partitions partitions =
     bind_result (invalid (partitions \<noteq> []) ''scheduler node partitions must not be empty'') (\<lambda>_.
     bind_result (check_all (\<lambda>p. require_identity_text p ''scheduler partition key'') partitions) (\<lambda>_.
     let ordered = sort partitions in
     bind_result (invalid (card (set ordered) = length ordered)
        ''scheduler node partitions must be unique'') (\<lambda>_.
     Inr ordered)))"

text \<open>The work of one node, in its initial state.\<close>

definition node_identities :: "string \<Rightarrow> string \<times> string list \<Rightarrow> (string \<times> WorkIdentity list) sched_result"
where
  "node_identities r np =
     bind_result (map_result (\<lambda>p. make_WorkIdentity r (fst np) p) (snd np)) (\<lambda>is. Inr (fst np, is))"

definition make_scheduler ::
  "string \<Rightarrow> string \<Rightarrow> string list \<Rightarrow> (string \<times> string) list \<Rightarrow> (string, string list) dict \<Rightarrow> int \<Rightarrow>
     scheduler sched_result" where
  "make_scheduler r fingerprint nodes es partitions_by_node generation =
     bind_result (require_identity_text r ''scheduler run identity'') (\<lambda>_.
     bind_result (require_plan_fingerprint fingerprint) (\<lambda>_.
     bind_result (check_all (\<lambda>n. require_identity_text n ''scheduler node identity'') nodes) (\<lambda>_.
     bind_result (invalid (nodes \<noteq> []) ''scheduler node order must not be empty'') (\<lambda>_.
     bind_result (invalid (card (set nodes) = length nodes)
        ''scheduler node identities must be unique'') (\<lambda>_.
     bind_result (scheduler_edge_pairs es) (\<lambda>_.
     bind_result (check_all (\<lambda>(s, t).
        bind_result (invalid (s \<in> set nodes \<and> t \<in> set nodes)
          ''scheduler edge must identify a known node'') (\<lambda>_.
        invalid (s \<noteq> t) ''scheduler edge cannot be a self dependency'')) es) (\<lambda>_.
     bind_result (invalid (card (set es) = length es) ''scheduler edges must be unique'') (\<lambda>_.
     bind_result (invalid (\<not> edges_contain_cycle nodes es)
        ''scheduler edges must not contain a directed cycle'') (\<lambda>_.
     bind_result (invalid (set (keys partitions_by_node) = set nodes)
        ''scheduler partitions must cover every planned node'') (\<lambda>_.
     bind_result (map_result (\<lambda>n.
        bind_result (ordered_partitions (the (map_of partitions_by_node n))) (\<lambda>ps. Inr (n, ps))) nodes)
     (\<lambda>partitions.
     bind_result (invalid (sum_list (map (length \<circ> snd) partitions) \<le> MAX_FRONTIER_WORK_ITEMS)
        ''scheduler exceeds the work item bound'') (\<lambda>_.
     let preds = (\<lambda>n. sort (remdups (predecessors_in es n)));
         succs = (\<lambda>n. filter (\<lambda>c. n \<in> set (predecessors_in es c)) nodes) in
     bind_result (map_result (node_identities r) partitions) (\<lambda>identities.
     Inr \<lparr>s_run_id = r, s_plan_fingerprint = fingerprint, s_node_order = nodes, s_edges = sort es,
          s_predecessors = preds, s_successors = succs,
          s_identities_by_node = (\<lambda>n. case map_of identities n of None \<Rightarrow> [] | Some is \<Rightarrow> is),
          s_states = concat (map (\<lambda>(n, is).
            map (\<lambda>i. (i, if preds n \<noteq> [] then BLOCKED else READY)) is) identities),
          s_fences = [], s_retry_waits = [], s_control_generation = generation,
          s_control_state = RUNNING, s_recovery_reason = None\<rparr>)))))))))))))"

subsection \<open>Observations\<close>

definition frontier :: "scheduler \<Rightarrow> SchedulerFrontierV2 sched_result" where
  "frontier s =
     make_frontier
       \<lparr>version = SCHEDULER_FRONTIER_VERSION, plan_fingerprint = s_plan_fingerprint s,
        control_generation = s_control_generation s, frontier_run_id = s_run_id s,
        node_order = s_node_order s, edges = s_edges s,
        work_states = map (\<lambda>i. (i, the (map_of (s_states s) i)))
          (sort_key identity_sort_key (keys (s_states s))),
        lease_fences = map (\<lambda>i. (i, the (map_of (s_fences s) i)))
          (sort_key identity_sort_key (keys (s_fences s))),
        retry_waits = map (\<lambda>i. the (map_of (s_retry_waits s) i))
          (sort_key identity_sort_key (keys (s_retry_waits s))),
        control_state = s_control_state s, recovery_required_reason = s_recovery_reason s\<rparr>"

definition plan_position :: "scheduler \<Rightarrow> WorkIdentity \<Rightarrow> nat \<times> string" where
  "plan_position s i = (position (s_node_order s) (node_id i), partition_key i)"

definition next_ready :: "int \<Rightarrow> scheduler \<Rightarrow> WorkIdentity list sched_result" where
  "next_ready limit s =
     bind_result (invalid (\<not> limit < 1) ''admission limit must be positive'') (\<lambda>_.
     if s_control_state s \<noteq> RUNNING then Inr []
     else Inr (take (nat limit) (sort_key (plan_position s)
            (map fst (filter (\<lambda>(_, state). state = READY) (s_states s))))))"

definition is_finished :: "scheduler \<Rightarrow> bool" where
  "is_finished s \<longleftrightarrow> list_all is_terminal (map snd (s_states s))"

definition node_work :: "scheduler \<Rightarrow> string \<Rightarrow> FrontierWorkState list" where
  "node_work s n = map (\<lambda>i. the (map_of (s_states s) i)) (s_identities_by_node s n)"

definition node_aggregate :: "scheduler \<Rightarrow> string \<Rightarrow> FrontierNodeAggregate sched_result" where
  "node_aggregate s n = make_FrontierNodeAggregate (aggregate_of n (node_work s n))"

definition failed_node_ids :: "scheduler \<Rightarrow> string list sched_result" where
  "failed_node_ids s =
     bind_result (map_result (\<lambda>n. bind_result (node_aggregate s n) (\<lambda>a. Inr (n, a))) (s_node_order s))
       (\<lambda>as. Inr (map fst (filter (\<lambda>(_, a). is_blocked_terminal a) as)))"

subsection \<open>Work transitions\<close>

definition set_state :: "WorkIdentity \<Rightarrow> FrontierWorkState \<Rightarrow> scheduler \<Rightarrow> scheduler" where
  "set_state i w s = s\<lparr>s_states := AList.update i w (s_states s)\<rparr>"

definition register_admission :: "WorkIdentity \<Rightarrow> int \<Rightarrow> scheduler \<Rightarrow> unit sched_result \<times> scheduler" where
  "register_admission i lease_fence s =
     (if \<not> (1 \<le> lease_fence \<and> lease_fence \<le> MAX_FRONTIER_LEASE_FENCE)
      then (Inl (InvalidStateError ''admitted lease fence is outside the supported range''), s)
      else
        case map_of (s_states s) i of
          None \<Rightarrow> (Inl (InvalidStateError ''admitted work identity is unknown''), s)
        | Some state \<Rightarrow>
            if in_flight state
            then (Inl (CapacityError ''work identity is already admitted and still in flight''), s)
            else if state \<noteq> READY
            then (Inl (TransitionError ''only ready work can be admitted''), s)
            else if s_control_state s \<noteq> RUNNING
            then (Inl (TransitionError ''scheduler control state does not admit new work''), s)
            else
              (Inr (), (set_state i ADMITTED s)
                 \<lparr>s_fences := AList.update i lease_fence (s_fences s)\<rparr>))"

definition mark_result_received :: "WorkIdentity \<Rightarrow> scheduler \<Rightarrow> unit sched_result \<times> scheduler" where
  "mark_result_received i s =
     (case map_of (s_states s) i of
        None \<Rightarrow> (Inl (InvalidStateError ''received work identity is unknown''), s)
      | Some state \<Rightarrow>
          if state \<noteq> ADMITTED
          then (Inl (TransitionError ''only admitted work can receive a result''), s)
          else (Inr (), set_state i AWAITING_COMMIT s))"

text \<open>\<^verbatim>\<open>all(... permits_continuation for predecessor in ...)\<close> stops at the first that does not.\<close>

fun all_permit :: "scheduler \<Rightarrow> string list \<Rightarrow> bool sched_result" where
  "all_permit s [] = Inr True"
| "all_permit s (p # ps) =
     bind_result (node_aggregate s p)
       (\<lambda>a. if permits_continuation a then all_permit s ps else Inr False)"

definition release_node :: "string \<Rightarrow> scheduler \<Rightarrow> scheduler" where
  "release_node n s =
     fold (\<lambda>i s. if map_of (s_states s) i = Some BLOCKED then set_state i READY s else s)
       (s_identities_by_node s n) s"

fun release_loop :: "string list \<Rightarrow> scheduler \<Rightarrow> unit sched_result \<times> scheduler" where
  "release_loop [] s = (Inr (), s)"
| "release_loop (n # ns) s =
     (case all_permit s (s_predecessors s n) of
        Inl e \<Rightarrow> (Inl e, s)
      | Inr permitted \<Rightarrow> release_loop ns (if permitted then release_node n s else s))"

definition release_successors :: "string \<Rightarrow> scheduler \<Rightarrow> unit sched_result \<times> scheduler" where
  "release_successors n s = release_loop (s_successors s n) s"

definition commit_result :: "WorkIdentity \<Rightarrow> string \<Rightarrow> scheduler \<Rightarrow> unit sched_result \<times> scheduler" where
  "commit_result i outcome s =
     (case work_state_of outcome of
        None \<Rightarrow> (Inl (InvalidStateError ''committed outcome is unknown''), s)
      | Some terminal \<Rightarrow>
          if \<not> is_terminal terminal
          then (Inl (InvalidStateError ''committed outcome must be terminal''), s)
          else
            case map_of (s_states s) i of
              None \<Rightarrow> (Inl (InvalidStateError ''committed work identity is unknown''), s)
            | Some state \<Rightarrow>
                if \<not> in_flight state
                then (Inl (TransitionError ''only in-flight work can commit a result''), s)
                else
                  release_successors (node_id i)
                    ((set_state i terminal s)\<lparr>s_fences := AList.delete i (s_fences s)\<rparr>))"

text \<open>The retry wait is constructed after the state and the fence have changed.\<close>

definition schedule_retry ::
  "WorkIdentity \<Rightarrow> int \<Rightarrow> string \<Rightarrow> scheduler \<Rightarrow> unit sched_result \<times> scheduler" where
  "schedule_retry i eligible_at why s =
     (if eligible_at < 0
      then (Inl (InvalidStateError ''retry eligibility must not be negative''), s)
      else
        case require_reason_text why ''scheduler retry reason'' of
          Inl e \<Rightarrow> (Inl e, s)
        | Inr _ \<Rightarrow>
        case map_of (s_states s) i of
          None \<Rightarrow> (Inl (InvalidStateError ''retried work identity is unknown''), s)
        | Some state \<Rightarrow>
            if \<not> in_flight state
            then (Inl (TransitionError ''only in-flight work can wait for retry''), s)
            else
              let s1 = (set_state i RETRY_WAIT s)\<lparr>s_fences := AList.delete i (s_fences s)\<rparr> in
              case make_FrontierRetryWait i eligible_at why of
                Inl e \<Rightarrow> (Inl e, s1)
              | Inr wait \<Rightarrow>
                  (Inr (), s1\<lparr>s_retry_waits := AList.update i wait (s_retry_waits s1)\<rparr>))"

definition retry_eligible :: "int \<Rightarrow> scheduler \<Rightarrow> WorkIdentity list sched_result \<times> scheduler" where
  "retry_eligible now s =
     (if now < 0 then (Inl (InvalidStateError ''retry clock must not be negative''), s)
      else
        let due = sort_key (plan_position s)
              (map fst (filter (\<lambda>(_, wait). eligible_at_micros wait \<le> now) (s_retry_waits s))) in
        (Inr due,
         fold (\<lambda>i s. (set_state i READY s)\<lparr>s_retry_waits := AList.delete i (s_retry_waits s)\<rparr>) due s))"

subsection \<open>Control transitions\<close>

definition next_generation :: "scheduler \<Rightarrow> int sched_result" where
  "next_generation s =
     (let value = s_control_generation s + 1 in
     bind_result (require (\<not> value > MAX_FRONTIER_LEASE_FENCE)
        (TransitionError ''scheduler control generation space is exhausted'')) (\<lambda>_.
     make_ControlGeneration value))"

definition require_control :: "ContractLifecycleState \<Rightarrow> string \<Rightarrow> scheduler \<Rightarrow> unit sched_result" where
  "require_control expected action s =
     require (s_control_state s = expected)
       (TransitionError (''scheduler control state cannot '' @ action))"

text \<open>A control change from one state to another that takes a new generation.\<close>

definition change_control ::
  "ContractLifecycleState \<Rightarrow> string \<Rightarrow> ContractLifecycleState \<Rightarrow> scheduler \<Rightarrow>
     int sched_result \<times> scheduler" where
  "change_control expected action target s =
     (case bind_result (require_control expected action s) (\<lambda>_. next_generation s) of
        Inl e \<Rightarrow> (Inl e, s)
      | Inr g \<Rightarrow> (Inr g, s\<lparr>s_control_state := target, s_control_generation := g\<rparr>))"

definition request_pause :: "scheduler \<Rightarrow> int sched_result \<times> scheduler" where
  "request_pause s = change_control RUNNING ''request a pause'' QUIESCING s"

definition abort_pause :: "scheduler \<Rightarrow> int sched_result \<times> scheduler" where
  "abort_pause s = change_control QUIESCING ''abort a pause'' RUNNING s"

definition resume :: "scheduler \<Rightarrow> int sched_result \<times> scheduler" where
  "resume s = change_control PAUSED ''resume'' RUNNING s"

definition mark_paused :: "scheduler \<Rightarrow> unit sched_result \<times> scheduler" where
  "mark_paused s =
     (case require_control QUIESCING ''mark paused'' s of
        Inl e \<Rightarrow> (Inl e, s)
      | Inr _ \<Rightarrow> (Inr (), s\<lparr>s_control_state := PAUSED\<rparr>))"

definition request_cancel :: "scheduler \<Rightarrow> unit sched_result \<times> scheduler" where
  "request_cancel s =
     (case require_control RUNNING ''request cancellation'' s of
        Inl e \<Rightarrow> (Inl e, s)
      | Inr _ \<Rightarrow> (Inr (), s\<lparr>s_control_state := CANCELLING\<rparr>))"

definition mark_recovery_required :: "string \<Rightarrow> scheduler \<Rightarrow> unit sched_result \<times> scheduler" where
  "mark_recovery_required why s =
     (case require_reason_text why ''scheduler recovery reason'' of
        Inl e \<Rightarrow> (Inl e, s)
      | Inr _ \<Rightarrow>
          if s_control_state s \<notin> {RUNNING, QUIESCING, PAUSED, CANCELLING}
          then (Inl (TransitionError ''scheduler control state cannot require recovery again''), s)
          else (Inr (), s\<lparr>s_control_state := RECOVERY_REQUIRED, s_recovery_reason := Some why\<rparr>))"

definition restore :: "SchedulerFrontierV2 \<Rightarrow> scheduler \<Rightarrow> unit sched_result \<times> scheduler" where
  "restore f s =
     (case
       bind_result (corrupt (frontier_run_id f = s_run_id s)
          ''restored frontier run does not match the scheduler'') (\<lambda>_.
       bind_result (corrupt (plan_fingerprint f = s_plan_fingerprint s)
          ''restored frontier plan fingerprint does not match the scheduler'') (\<lambda>_.
       bind_result (corrupt (node_order f = s_node_order s)
          ''restored frontier nodes do not match the scheduler'') (\<lambda>_.
       bind_result (corrupt (edges f = s_edges s)
          ''restored frontier edges do not match the scheduler'') (\<lambda>_.
       bind_result (corrupt (set (keys (work_states f)) = set (keys (s_states s)))
          ''restored frontier work does not match the scheduler partitions'') (\<lambda>_.
       validate_frontier_dependency_barriers (node_order f) (edges f) (work_states f)))))) of
        Inl e \<Rightarrow> (Inl e, s)
      | Inr _ \<Rightarrow>
          (Inr (), s\<lparr>s_states := work_states f, s_fences := lease_fences f,
             s_retry_waits := map (\<lambda>w. (identity w, w)) (retry_waits f),
             s_control_state := control_state f, s_control_generation := control_generation f,
             s_recovery_reason := recovery_required_reason f\<rparr>))"

end
