(* ===== verification/Frontier_Validity.thy ===== *)
theory Frontier_Validity
  imports Frontier
begin

text \<open>
  What the constructor of a frontier accepts: \<open>frontier_valid\<close> states it without the order of the
  checks, and \<open>make_frontier_eq\<close> shows that the checks of the code are exactly that.
\<close>

subsection \<open>Text\<close>

definition id_text :: "string \<Rightarrow> bool" where
  "id_text v \<longleftrightarrow> 1 \<le> length v \<and> length v \<le> MAX_FRONTIER_IDENTITY_LENGTH \<and> list_all is_printable_ascii v"

definition reason_ok :: "string \<Rightarrow> bool" where
  "reason_ok v \<longleftrightarrow> 1 \<le> length v \<and> length v \<le> MAX_FRONTIER_REASON_LENGTH \<and> list_all is_printable_ascii v"

lemma require_identity_text_Inr [result_simps]: "require_identity_text v subject = Inr x \<longleftrightarrow> id_text v"
  by (auto simp: require_identity_text_def require_text_def result_simps id_text_def)

lemma require_reason_text_Inr [result_simps]: "require_reason_text v subject = Inr x \<longleftrightarrow> reason_ok v"
  by (auto simp: require_reason_text_def require_text_def result_simps reason_ok_def)

lemma require_frontier_text_Inr [result_simps]:
  "require_frontier_text v subject MAX_FRONTIER_IDENTITY_LENGTH = Inr x \<longleftrightarrow> id_text v"
  "require_frontier_text v subject MAX_FRONTIER_REASON_LENGTH = Inr x \<longleftrightarrow> reason_ok v"
  by (auto simp: require_frontier_text_def require_text_def result_simps id_text_def reason_ok_def)

subsection \<open>Aggregates\<close>

lemma aggregate_counts:
  "count_list ws SUCCEEDED + count_list ws QUARANTINED + count_list ws FAILED + count_list ws CANCELLED +
     length (filter in_flight ws) + count_list ws RETRY_WAIT \<le> length ws"
proof (induction ws)
  case (Cons w ws)
  then show ?case by (cases w) (auto simp: in_flight_def)
qed simp

lemma aggregate_built:
  assumes "id_text n" and "length ws \<le> MAX_FRONTIER_WORK_ITEMS"
  shows "make_FrontierNodeAggregate (aggregate_of n ws) = Inr (aggregate_of n ws)"
  using assms aggregate_counts [of ws]
  by (auto simp: make_FrontierNodeAggregate_def aggregate_of_def require_bounded_int_def result_simps
      Let_def require_def split: if_splits)

lemma count_list_eq_length: "count_list ws w = length ws \<longleftrightarrow> (\<forall>v \<in> set ws. v = w)"
proof (induction ws)
  case (Cons v ws)
  then show ?case using count_le_length [of ws w] by auto
qed simp

lemma permits_aggregate:
  "permits_continuation (aggregate_of n ws) \<longleftrightarrow> ws \<noteq> [] \<and> (\<forall>w \<in> set ws. w = SUCCEEDED)"
proof -
  have "filter in_flight ws = [] \<and> count_list ws RETRY_WAIT = 0" if "\<forall>w \<in> set ws. w = SUCCEEDED"
    using that by (auto simp: filter_empty_conv in_flight_def count_list_0_iff)
  then show ?thesis
    by (auto simp: permits_continuation_def aggregate_of_def count_list_eq_length)
qed

subsection \<open>Dependency barriers\<close>

definition succeeded_in :: "(WorkIdentity, FrontierWorkState) dict \<Rightarrow> string \<Rightarrow> bool" where
  "succeeded_in states n \<longleftrightarrow>
     node_states_in states n \<noteq> [] \<and> (\<forall>w \<in> set (node_states_in states n). w = SUCCEEDED)"

lemma validate_barriers_eq:
  assumes ids: "\<forall>n \<in> set nodes. id_text n" and len: "length states \<le> MAX_FRONTIER_WORK_ITEMS"
    and es: "fst ` set es \<subseteq> set nodes"
  shows "validate_frontier_dependency_barriers nodes es states = Inr u \<longleftrightarrow>
    (\<forall>n \<in> set nodes. predecessors_in es n \<noteq> [] \<longrightarrow>
       (\<forall>w \<in> set (node_states_in states n).
          w = BLOCKED \<longleftrightarrow> \<not> (\<forall>p \<in> set (predecessors_in es n). succeeded_in states p)))"
proof -
  let ?agg = "\<lambda>n. aggregate_of n (node_states_in states n)"
  have "length (node_states_in states n) \<le> MAX_FRONTIER_WORK_ITEMS" for n
    unfolding node_states_in_def length_map by (rule le_trans [OF length_filter_le len])
  then have "make_FrontierNodeAggregate (?agg n) = Inr (?agg n)" if "n \<in> set nodes" for n
    using ids that by (intro aggregate_built) auto
  then have aggs: "map_result (\<lambda>n. bind_result (make_FrontierNodeAggregate (?agg n)) (\<lambda>a. Inr (n, a))) nodes =
      Inr (map (\<lambda>n. (n, ?agg n)) nodes)"
    by (simp add: map_result_eq_Inr)
  have lookup: "map_of (map (\<lambda>n. (n, ?agg n)) nodes) p = Some (?agg p)" if "p \<in> set nodes" for p
    using that by (induction nodes) auto
  have "p \<in> set nodes" if "p \<in> set (predecessors_in es n)" for p n
    using that es by (auto simp: predecessors_in_def)
  then have "permits_continuation (the (map_of (map (\<lambda>n. (n, ?agg n)) nodes) p)) \<longleftrightarrow> succeeded_in states p"
    if "p \<in> set (predecessors_in es n)" for p n
    using that by (simp add: lookup permits_aggregate succeeded_in_def)
  then have permit: "list_all (\<lambda>p. permits_continuation (the (map_of (map (\<lambda>n. (n, ?agg n)) nodes) p)))
      (predecessors_in es n) \<longleftrightarrow> (\<forall>p \<in> set (predecessors_in es n). succeeded_in states p)" for n
    unfolding list_all_iff by (intro ball_cong) simp_all
  show ?thesis
    unfolding validate_frontier_dependency_barriers_def aggs bind_result.simps Let_def permit
    by (auto simp: result_simps)
qed

subsection \<open>Valid frontiers\<close>

definition sorted_unique :: "WorkIdentity list \<Rightarrow> bool" where
  "sorted_unique is \<longleftrightarrow> distinct is \<and> sorted (map identity_sort_key is)"

definition frontier_graph_ok :: "SchedulerFrontierV2 \<Rightarrow> bool" where
  "frontier_graph_ok f \<longleftrightarrow>
     node_order f \<noteq> [] \<and> distinct (node_order f) \<and> (\<forall>n \<in> set (node_order f). id_text n) \<and>
     distinct (edges f) \<and> sorted (edges f) \<and> acyclic (set (edges f)) \<and>
     (\<forall>(a, b) \<in> set (edges f). a \<in> set (node_order f) \<and> b \<in> set (node_order f) \<and> a \<noteq> b)"

definition frontier_work_ok :: "SchedulerFrontierV2 \<Rightarrow> bool" where
  "frontier_work_ok f \<longleftrightarrow>
     length (work_states f) \<le> MAX_FRONTIER_WORK_ITEMS \<and>
     sorted_unique (keys (work_states f)) \<and> sorted_unique (keys (lease_fences f)) \<and>
     sorted_unique (map identity (retry_waits f)) \<and>
     node_id ` set (keys (work_states f)) = set (node_order f) \<and>
     (\<forall>i \<in> set (keys (work_states f)). run_id i = frontier_run_id f) \<and>
     (\<forall>(i, x) \<in> set (lease_fences f). 1 \<le> x \<and> x \<le> MAX_FRONTIER_LEASE_FENCE) \<and>
     set (keys (lease_fences f)) = {i. \<exists>w. (i, w) \<in> set (work_states f) \<and> in_flight w} \<and>
     identity ` set (retry_waits f) = {i. (i, RETRY_WAIT) \<in> set (work_states f)}"

definition frontier_barriers_ok :: "SchedulerFrontierV2 \<Rightarrow> bool" where
  "frontier_barriers_ok f \<longleftrightarrow>
     (\<forall>n \<in> set (node_order f). predecessors_in (edges f) n \<noteq> [] \<longrightarrow>
       (\<forall>w \<in> set (node_states_in (work_states f) n).
          w = BLOCKED \<longleftrightarrow> \<not> (\<forall>p \<in> set (predecessors_in (edges f) n). succeeded_in (work_states f) p)))"

definition frontier_control_ok :: "SchedulerFrontierV2 \<Rightarrow> bool" where
  "frontier_control_ok f \<longleftrightarrow>
     control_state f \<in> FRONTIER_CONTROL_STATES \<and>
     (if control_state f = RECOVERY_REQUIRED
      then \<exists>r. recovery_required_reason f = Some r \<and> reason_ok r
      else recovery_required_reason f = None)"

definition frontier_valid :: "SchedulerFrontierV2 \<Rightarrow> bool" where
  "frontier_valid f \<longleftrightarrow>
     version f = SCHEDULER_FRONTIER_VERSION \<and> is_fingerprint (plan_fingerprint f) \<and>
     id_text (frontier_run_id f) \<and> frontier_graph_ok f \<and> frontier_work_ok f \<and>
     frontier_barriers_ok f \<and> frontier_control_ok f"

lemma card_eq_length: "card (set xs) = length xs \<longleftrightarrow> distinct xs"
  by (metis card_distinct distinct_card)

lemma eq_sort_key: "xs = sort_key k xs \<longleftrightarrow> sorted (map k xs)"
  by (metis sort_key_id_if_sorted sorted_sort_key)

lemma eq_sort: "xs = sort xs \<longleftrightarrow> sorted xs"
  using eq_sort_key [of xs "\<lambda>x. x"] by simp

lemma frontier_edge_pairs_eq:
  "frontier_edge_pairs es = Inr u \<longleftrightarrow>
     (\<forall>(a, b) \<in> set es. id_text a \<and> id_text b) \<and> distinct es \<and> sorted es"
  by (auto simp: frontier_edge_pairs_def result_simps card_eq_length eq_sort)

lemma barriers_checked:
  assumes "frontier_graph_ok f" and "length (work_states f) \<le> MAX_FRONTIER_WORK_ITEMS"
  shows "validate_frontier_dependency_barriers (node_order f) (edges f) (work_states f) = Inr u \<longleftrightarrow>
    frontier_barriers_ok f"
  unfolding frontier_barriers_ok_def
  by (rule validate_barriers_eq) (use assms in \<open>auto simp: frontier_graph_ok_def\<close>)

lemma graph_checked:
  "(\<forall>n \<in> set (node_order f). id_text n) \<and> node_order f \<noteq> [] \<and> distinct (node_order f) \<and>
   frontier_edge_pairs (edges f) = Inr () \<and>
   (\<forall>(s, t) \<in> set (edges f). s \<in> set (node_order f) \<and> t \<in> set (node_order f) \<and> s \<noteq> t) \<and>
   \<not> edges_contain_cycle (node_order f) (edges f) \<longleftrightarrow> frontier_graph_ok f"
    (is "?checks \<longleftrightarrow> _")
proof (cases "distinct (node_order f) \<and> set (edges f) \<subseteq> set (node_order f) \<times> set (node_order f)")
  case True
  then have "edges_contain_cycle (node_order f) (edges f) \<longleftrightarrow> \<not> acyclic (set (edges f))"
    by (intro edges_contain_cycle_iff) simp_all
  then show ?thesis
    by (auto simp: frontier_graph_ok_def frontier_edge_pairs_eq)
next
  case False
  then have "\<not> ?checks" "\<not> frontier_graph_ok f"
    by (auto simp: frontier_graph_ok_def)
  then show ?thesis by blast
qed

lemma fences_checked:
  assumes "distinct (map fst states)" and "set (keys fences) \<subseteq> set (keys states)"
  shows "(\<forall>(i, w) \<in> set states. if in_flight w then i \<in> set (keys fences) else i \<notin> set (keys fences)) \<longleftrightarrow>
    set (keys fences) = {i. \<exists>w. (i, w) \<in> set states \<and> in_flight w}" (is "?checks \<longleftrightarrow> ?exact")
proof
  assume checks: ?checks
  show ?exact
  proof (intro set_eqI iffI)
    fix i assume i: "i \<in> set (keys fences)"
    then obtain w where "(i, w) \<in> set states" using assms(2) by auto
    moreover from this have "in_flight w" using checks i by (auto split: if_splits)
    ultimately show "i \<in> {i. \<exists>w. (i, w) \<in> set states \<and> in_flight w}" by blast
  qed (use checks in \<open>auto split: if_splits\<close>)
next
  assume exact: ?exact
  have "w = v" if "(i, w) \<in> set states" "(i, v) \<in> set states" for i w v
    using that assms(1) by (metis map_of_is_SomeI option.inject)
  then show ?checks
    unfolding exact by (auto split: if_splits)
qed

lemma work_checked:
  "length (work_states f) \<le> MAX_FRONTIER_WORK_ITEMS \<and>
   (\<forall>(i, x) \<in> set (lease_fences f). 1 \<le> x \<and> x \<le> MAX_FRONTIER_LEASE_FENCE) \<and>
   (\<forall>(i, w) \<in> set (work_states f). node_id i \<in> set (node_order f) \<and> run_id i = frontier_run_id f) \<and>
   sorted_unique (keys (work_states f)) \<and>
   node_id ` set (keys (work_states f)) = set (node_order f) \<and>
   (\<forall>(i, x) \<in> set (lease_fences f). i \<in> set (keys (work_states f))) \<and>
   sorted_unique (keys (lease_fences f)) \<and> sorted_unique (map identity (retry_waits f)) \<and>
   (\<forall>(i, w) \<in> set (work_states f). if in_flight w then i \<in> set (keys (lease_fences f))
      else i \<notin> set (keys (lease_fences f))) \<and>
   set (map fst (filter (\<lambda>(_, state). state = RETRY_WAIT) (work_states f))) =
     set (map identity (retry_waits f)) \<longleftrightarrow> frontier_work_ok f" (is "?checks \<longleftrightarrow> _")
proof (cases "distinct (map fst (work_states f)) \<and> set (keys (lease_fences f)) \<subseteq> set (keys (work_states f)) \<and>
    node_id ` set (keys (work_states f)) = set (node_order f)")
  case True
  have waits: "set (map fst (filter (\<lambda>(_, state). state = RETRY_WAIT) (work_states f))) =
      set (map identity (retry_waits f)) \<longleftrightarrow>
      identity ` set (retry_waits f) = {i. (i, RETRY_WAIT) \<in> set (work_states f)}"
    by force
  have known: "(\<forall>(i, x) \<in> set (lease_fences f). i \<in> set (keys (work_states f))) \<longleftrightarrow> True"
    using True by force
  have "node_id i \<in> set (node_order f)" if "(i, w) \<in> set (work_states f)" for i w
    unfolding True [THEN conjunct2, THEN conjunct2, symmetric] using that by force
  then have runs:
    "(\<forall>(i, w) \<in> set (work_states f). node_id i \<in> set (node_order f) \<and> run_id i = frontier_run_id f)
      \<longleftrightarrow> (\<forall>i \<in> set (keys (work_states f)). run_id i = frontier_run_id f)"
    by auto
  show ?thesis
    unfolding waits known runs frontier_work_ok_def
      fences_checked [OF True [THEN conjunct1] True [THEN conjunct2, THEN conjunct1]]
    by (simp only: simp_thms conj_ac)
next
  case False
  moreover have "?checks \<Longrightarrow> distinct (map fst (work_states f)) \<and>
      set (keys (lease_fences f)) \<subseteq> set (keys (work_states f)) \<and>
      node_id ` set (keys (work_states f)) = set (node_order f)"
    unfolding sorted_unique_def by (elim conjE) auto
  moreover have "frontier_work_ok f \<Longrightarrow> distinct (map fst (work_states f)) \<and>
      set (keys (lease_fences f)) \<subseteq> set (keys (work_states f)) \<and>
      node_id ` set (keys (work_states f)) = set (node_order f)"
    unfolding frontier_work_ok_def sorted_unique_def by (elim conjE) (auto intro: rev_image_eqI)
  ultimately show ?thesis by blast
qed

lemma require_frontier_fingerprint_Inr [result_simps]:
  "require_frontier_fingerprint v = Inr u \<longleftrightarrow> is_fingerprint v"
  by (simp add: require_frontier_fingerprint_def result_simps)

lemma card_map_eq_length: "card (set (map h xs)) = length xs \<longleftrightarrow> distinct (map h xs)"
  using card_eq_length [of "map h xs"] by simp

lemma ex_unit: "(\<exists>u :: unit. P u) \<longleftrightarrow> P ()"
  by auto

lemma if_require_Inr: "(if b then require P e else require Q e') = Inr u \<longleftrightarrow> (if b then P else Q)"
  by (simp add: result_simps)

lemma make_frontier_eq: "make_frontier f = Inr g \<longleftrightarrow> g = f \<and> frontier_valid f"
proof -
  define control where "control =
    (if control_state f = RECOVERY_REQUIRED
     then (case recovery_required_reason f of
             None \<Rightarrow> Inl (FrontierCorruptError ''frontier recovery reason must be text'')
           | Some r \<Rightarrow> require_frontier_text r ''frontier recovery reason'' MAX_FRONTIER_REASON_LENGTH)
     else corrupt (recovery_required_reason f = None)
            ''frontier recovery reason requires recovery-required control state'')"
  have control: "control_state f \<in> FRONTIER_CONTROL_STATES \<and> control = Inr () \<longleftrightarrow> frontier_control_ok f"
    by (auto simp: control_def frontier_control_ok_def result_simps split: option.splits)
  have waits: "keys (map (\<lambda>w. (identity w, w)) (retry_waits f)) = map identity (retry_waits f)"
    by (simp add: comp_def)
  let ?work = "length (work_states f) \<le> MAX_FRONTIER_WORK_ITEMS \<and>
   (\<forall>(i, x) \<in> set (lease_fences f). 1 \<le> x \<and> x \<le> MAX_FRONTIER_LEASE_FENCE) \<and>
   (\<forall>(i, w) \<in> set (work_states f). node_id i \<in> set (node_order f) \<and> run_id i = frontier_run_id f) \<and>
   sorted_unique (keys (work_states f)) \<and>
   node_id ` set (keys (work_states f)) = set (node_order f) \<and>
   (\<forall>(i, x) \<in> set (lease_fences f). i \<in> set (keys (work_states f))) \<and>
   sorted_unique (keys (lease_fences f)) \<and> sorted_unique (map identity (retry_waits f)) \<and>
   (\<forall>(i, w) \<in> set (work_states f). if in_flight w then i \<in> set (keys (lease_fences f))
      else i \<notin> set (keys (lease_fences f))) \<and>
   set (map fst (filter (\<lambda>(_, state). state = RETRY_WAIT) (work_states f))) =
     set (map identity (retry_waits f))"
  let ?graph = "(\<forall>n \<in> set (node_order f). id_text n) \<and> node_order f \<noteq> [] \<and> distinct (node_order f) \<and>
   frontier_edge_pairs (edges f) = Inr () \<and>
   (\<forall>(s, t) \<in> set (edges f). s \<in> set (node_order f) \<and> t \<in> set (node_order f) \<and> s \<noteq> t) \<and>
   \<not> edges_contain_cycle (node_order f) (edges f)"
  have "make_frontier f = Inr g \<longleftrightarrow> version f = SCHEDULER_FRONTIER_VERSION \<and>
      is_fingerprint (plan_fingerprint f) \<and> id_text (frontier_run_id f) \<and> ?graph \<and> ?work \<and>
      validate_frontier_dependency_barriers (node_order f) (edges f) (work_states f) = Inr () \<and>
      (control_state f \<in> FRONTIER_CONTROL_STATES \<and> control = Inr ()) \<and> f = g"
    unfolding make_frontier_def Let_def waits sorted_unique_def control_def [symmetric]
    by (simp only: result_simps case_prod_unfold if_require_Inr card_eq_length card_map_eq_length
        eq_sort_key length_map ex_unit sum.inject simp_thms conj_assoc)
  then show ?thesis
    unfolding graph_checked work_checked control frontier_valid_def
    using barriers_checked [of f "()"] frontier_work_ok_def [of f] by blast
qed

end
