(* ===== verification/Scheduler_Invariant.thy ===== *)
theory Scheduler_Invariant
  imports Scheduler Frontier_Validity
begin

text \<open>
  The invariant of the concurrent scheduler and its preservation by every operation: the work of a
  node is blocked exactly while some predecessor has work that has not succeeded, a lease fence is
  held exactly by work in flight, a retry wait exists exactly for work that waits for retry.
\<close>

subsection \<open>The invariant\<close>

definition node_done :: "scheduler \<Rightarrow> string \<Rightarrow> bool" where
  "node_done s n \<longleftrightarrow> (\<forall>i \<in> set (s_identities_by_node s n). map_of (s_states s) i = Some SUCCEEDED)"

text \<open>What the constructor fixes for good.\<close>

definition plan_ok :: "scheduler \<Rightarrow> bool" where
  "plan_ok s \<longleftrightarrow>
     id_text (s_run_id s) \<and> is_fingerprint (s_plan_fingerprint s) \<and>
     s_node_order s \<noteq> [] \<and> distinct (s_node_order s) \<and> (\<forall>n \<in> set (s_node_order s). id_text n) \<and>
     (\<forall>(a, b) \<in> set (s_edges s). a \<in> set (s_node_order s) \<and> b \<in> set (s_node_order s) \<and> a \<noteq> b) \<and>
     distinct (s_edges s) \<and> sorted (s_edges s) \<and> acyclic (set (s_edges s)) \<and>
     (\<forall>n. set (s_predecessors s n) = {a. (a, n) \<in> set (s_edges s)}) \<and>
     (\<forall>n. set (s_successors s n) = {c. (n, c) \<in> set (s_edges s)}) \<and>
     (\<forall>n \<in> set (s_node_order s). s_identities_by_node s n \<noteq> [] \<and> distinct (s_identities_by_node s n) \<and>
        (\<forall>i \<in> set (s_identities_by_node s n). node_id i = n \<and> run_id i = s_run_id s))"

definition wait_ok :: "WorkIdentity \<Rightarrow> FrontierRetryWait \<Rightarrow> bool" where
  "wait_ok i w \<longleftrightarrow> identity w = i \<and> 0 \<le> eligible_at_micros w \<and>
     eligible_at_micros w \<le> MAX_FRONTIER_RETRY_ELIGIBILITY_MICROS \<and> reason_ok (reason w)"

definition keys_ok :: "scheduler \<Rightarrow> bool" where
  "keys_ok s \<longleftrightarrow>
     well_keyed (s_states s) \<and>
     set (keys (s_states s)) = (\<Union>n \<in> set (s_node_order s). set (s_identities_by_node s n)) \<and>
     length (s_states s) \<le> MAX_FRONTIER_WORK_ITEMS"

text \<open>What the work of an identity in state \<open>w\<close> holds: the fence \<open>f\<close> and the retry wait \<open>r\<close>.\<close>

definition holds_ok ::
  "WorkIdentity \<Rightarrow> FrontierWorkState option \<Rightarrow> int option \<Rightarrow> FrontierRetryWait option \<Rightarrow> bool" where
  "holds_ok i w f r \<longleftrightarrow>
     (f \<noteq> None \<longleftrightarrow> w = Some ADMITTED \<or> w = Some AWAITING_COMMIT) \<and>
     (\<forall>x. f = Some x \<longrightarrow> 1 \<le> x \<and> x \<le> MAX_FRONTIER_LEASE_FENCE) \<and>
     (r \<noteq> None \<longleftrightarrow> w = Some RETRY_WAIT) \<and> (\<forall>x. r = Some x \<longrightarrow> wait_ok i x)"

definition holders_ok :: "scheduler \<Rightarrow> bool" where
  "holders_ok s \<longleftrightarrow>
     well_keyed (s_fences s) \<and> well_keyed (s_retry_waits s) \<and>
     (\<forall>i. holds_ok i (map_of (s_states s) i) (map_of (s_fences s) i) (map_of (s_retry_waits s) i))"

definition barrier_ok :: "scheduler \<Rightarrow> bool" where
  "barrier_ok s \<longleftrightarrow>
     (\<forall>n \<in> set (s_node_order s). \<forall>i \<in> set (s_identities_by_node s n).
        map_of (s_states s) i = Some BLOCKED \<longleftrightarrow> (\<exists>p \<in> set (s_predecessors s n). \<not> node_done s p))"

definition control_ok :: "scheduler \<Rightarrow> bool" where
  "control_ok s \<longleftrightarrow>
     1 \<le> s_control_generation s \<and> s_control_generation s \<le> MAX_METRIC_VALUE \<and>
     s_control_state s \<in> FRONTIER_CONTROL_STATES \<and>
     (if s_control_state s = RECOVERY_REQUIRED then \<exists>r. s_recovery_reason s = Some r \<and> reason_ok r
      else s_recovery_reason s = None)"

definition sched_ok :: "scheduler \<Rightarrow> bool" where
  "sched_ok s \<longleftrightarrow> plan_ok s \<and> keys_ok s \<and> holders_ok s \<and> barrier_ok s \<and> control_ok s"

subsection \<open>Aggregates\<close>

lemma known_state:
  assumes "keys_ok s" and "n \<in> set (s_node_order s)" and "i \<in> set (s_identities_by_node s n)"
  shows "\<exists>w. map_of (s_states s) i = Some w"
proof -
  have "i \<in> set (keys (s_states s))"
    using assms by (auto simp: keys_ok_def)
  then show ?thesis using in_keys_iff_map_of [of i "s_states s"] by auto
qed

lemma node_aggregate_done:
  assumes plan: "plan_ok s" and keys: "keys_ok s" and n: "n \<in> set (s_node_order s)"
  shows "node_aggregate s n = Inr (aggregate_of n (node_work s n))"
    and "permits_continuation (aggregate_of n (node_work s n)) \<longleftrightarrow> node_done s n"
proof -
  let ?ids = "s_identities_by_node s n"
  have ids: "?ids \<noteq> []" "distinct ?ids" "id_text n" "set ?ids \<subseteq> set (keys (s_states s))"
    using plan keys n by (auto simp: plan_ok_def keys_ok_def)
  have "length ?ids = card (set ?ids)"
    using ids(2) by (simp add: distinct_card)
  also have "\<dots> \<le> card (set (keys (s_states s)))"
    using ids(4) by (intro card_mono) simp_all
  also have "\<dots> \<le> length (s_states s)"
    by (metis card_length length_map)
  finally have "length (node_work s n) \<le> MAX_FRONTIER_WORK_ITEMS"
    using keys by (simp add: node_work_def keys_ok_def)
  then show "node_aggregate s n = Inr (aggregate_of n (node_work s n))"
    unfolding node_aggregate_def by (rule aggregate_built [OF ids(3)])
  have "the (map_of (s_states s) i) = SUCCEEDED \<longleftrightarrow> map_of (s_states s) i = Some SUCCEEDED"
    if "i \<in> set ?ids" for i
    using known_state [OF keys n that] by auto
  then show "permits_continuation (aggregate_of n (node_work s n)) \<longleftrightarrow> node_done s n"
    using ids(1) by (auto simp: permits_aggregate node_work_def node_done_def)
qed

lemma all_permit_done:
  assumes "plan_ok s" and "keys_ok s" and "set ps \<subseteq> set (s_node_order s)"
  shows "all_permit s ps = Inr (\<forall>p \<in> set ps. node_done s p)"
  using assms(3) by (induction ps) (auto simp: node_aggregate_done [OF assms(1,2)])

subsection \<open>Releasing successors\<close>

text \<open>The states after blocked work of the listed nodes became ready.\<close>

definition released :: "scheduler \<Rightarrow> string set \<Rightarrow> WorkIdentity \<Rightarrow> FrontierWorkState option" where
  "released s N i =
     (if map_of (s_states s) i = Some BLOCKED \<and> (\<exists>n \<in> N. i \<in> set (s_identities_by_node s n))
      then Some READY else map_of (s_states s) i)"

text \<open>Two schedulers of one plan, and two that differ in the states of their work only.\<close>

definition same_plan :: "scheduler \<Rightarrow> scheduler \<Rightarrow> bool" where
  "same_plan s t \<longleftrightarrow>
     s_run_id t = s_run_id s \<and> s_plan_fingerprint t = s_plan_fingerprint s \<and>
     s_node_order t = s_node_order s \<and> s_edges t = s_edges s \<and> s_predecessors t = s_predecessors s \<and>
     s_successors t = s_successors s \<and> s_identities_by_node t = s_identities_by_node s \<and>
     keys (s_states t) = keys (s_states s)"

definition same_but_states :: "scheduler \<Rightarrow> scheduler \<Rightarrow> bool" where
  "same_but_states s t \<longleftrightarrow>
     same_plan s t \<and> s_fences t = s_fences s \<and> s_retry_waits t = s_retry_waits s \<and>
     s_control_state t = s_control_state s \<and> s_control_generation t = s_control_generation s \<and>
     s_recovery_reason t = s_recovery_reason s"

lemma same_but_states_refl: "same_but_states s s"
  by (simp add: same_but_states_def same_plan_def)

lemma same_but_states_trans: "same_but_states s t \<Longrightarrow> same_but_states t v \<Longrightarrow> same_but_states s v"
  by (simp add: same_but_states_def same_plan_def)

lemma same_plan_ok:
  assumes "same_plan s t"
  shows "plan_ok t = plan_ok s" and "keys_ok t = keys_ok s"
proof -
  have "length (s_states t) = length (s_states s)"
    using assms by (metis same_plan_def length_map)
  then show "plan_ok t = plan_ok s" "keys_ok t = keys_ok s"
    using assms by (simp_all add: same_plan_def plan_ok_def keys_ok_def)
qed

lemma same_but_states_set_state:
  "map_of (s_states s) i = Some w \<Longrightarrow> same_but_states s (set_state i v s)"
  using keys_update_present [OF map_of_eq_Some_in_keys, of "s_states s" i w v]
  by (simp add: same_but_states_def same_plan_def set_state_def)

lemma map_of_set_state [simp]: "map_of (s_states (set_state i v s)) = (map_of (s_states s))(i \<mapsto> v)"
  by (simp add: set_state_def dict_simps)

lemma release_fold:
  fixes js :: "WorkIdentity list"
  defines "step \<equiv> \<lambda>i s. if map_of (s_states s) i = Some BLOCKED then set_state i READY s else s"
  shows "same_but_states s (fold step js s) \<and>
    map_of (s_states (fold step js s)) j =
      (if map_of (s_states s) j = Some BLOCKED \<and> j \<in> set js then Some READY else map_of (s_states s) j)"
proof (induction js arbitrary: s)
  case (Cons i js)
  have "same_but_states s (step i s)"
    by (auto simp: step_def same_but_states_refl intro: same_but_states_set_state)
  then show ?case
    using Cons [of "step i s"] same_but_states_trans [of s "step i s" "fold step js (step i s)"]
    by (auto simp: step_def)
qed (simp add: same_but_states_refl)

lemma release_node_effect:
  "same_but_states s (release_node n s)"
  "map_of (s_states (release_node n s)) j = released s {n} j"
  using release_fold [where s = s and js = "s_identities_by_node s n" and j = j]
  by (simp_all add: release_node_def released_def)

lemma released_succeeded [simp]:
  "released s N i = Some SUCCEEDED \<longleftrightarrow> map_of (s_states s) i = Some SUCCEEDED"
  by (auto simp: released_def)

lemma released_blocked:
  "released s N i = Some BLOCKED \<longleftrightarrow>
     map_of (s_states s) i = Some BLOCKED \<and> \<not> (\<exists>n \<in> N. i \<in> set (s_identities_by_node s n))"
  by (auto simp: released_def)

lemma node_done_released:
  assumes "same_but_states s t" and "\<And>i. map_of (s_states t) i = released s N i"
  shows "node_done t n = node_done s n"
  using assms by (simp add: node_done_def same_but_states_def same_plan_def)

lemma released_released:
  assumes "same_but_states s t" and "map_of (s_states t) i = released s N i"
  shows "released t M i = released s (N \<union> M) i"
proof -
  have ids: "s_identities_by_node t = s_identities_by_node s"
    using assms(1) by (simp add: same_but_states_def same_plan_def)
  show ?thesis
    unfolding released_def [of t] assms(2) ids by (auto simp only: released_def bex_Un split: if_splits)
qed

definition permitted :: "scheduler \<Rightarrow> string \<Rightarrow> bool" where
  "permitted s n \<longleftrightarrow> (\<forall>p \<in> set (s_predecessors s n). node_done s p)"

lemma release_loop_effect:
  assumes "plan_ok s" and "keys_ok s"
  shows "\<exists>t. release_loop ns s = (Inr (), t) \<and> same_but_states s t \<and>
           (\<forall>i. map_of (s_states t) i = released s {n \<in> set ns. permitted s n} i)"
  using assms
proof (induction ns arbitrary: s)
  case (Cons n ns)
  have "set (s_predecessors s n) \<subseteq> set (s_node_order s)"
    using Cons.prems(1) by (auto simp: plan_ok_def)
  then have permit: "all_permit s (s_predecessors s n) = Inr (permitted s n)"
    using all_permit_done [OF Cons.prems] by (simp add: permitted_def)
  define u where "u = (if permitted s n then release_node n s else s)"
  have u: "same_but_states s u"
    "\<And>i. map_of (s_states u) i = released s (if permitted s n then {n} else {}) i"
    unfolding u_def using release_node_effect [where s = s and n = n] by (simp_all add: same_but_states_refl released_def)
  have ok: "plan_ok u" "keys_ok u"
    using u(1) Cons.prems same_plan_ok [of s u] by (simp_all add: same_but_states_def)
  have permitted: "permitted u m = permitted s m" for m
    using u(1) node_done_released [OF u] by (simp add: permitted_def same_but_states_def same_plan_def)
  obtain t where t: "release_loop ns u = (Inr (), t)" "same_but_states u t"
    "\<And>i. map_of (s_states t) i = released u {n \<in> set ns. permitted u n} i"
    using Cons.IH [OF ok] by blast
  have nodes: "(if permitted s n then {n} else {}) \<union> {m \<in> set ns. permitted s m} =
      {m \<in> set (n # ns). permitted s m}"
    by auto
  have "released u {m \<in> set ns. permitted u m} i = released s {m \<in> set (n # ns). permitted s m} i" for i
    using released_released [OF u(1) u(2), where i = i and M = "{m \<in> set ns. permitted s m}"]
    unfolding permitted nodes .
  then show ?case
    using permit t same_but_states_trans [OF u(1) t(2)] by (simp add: u_def)
qed (simp add: same_but_states_refl released_def)

subsection \<open>Preservation by the work transitions\<close>

lemma barrier_cong:
  assumes "same_plan s t"
    and "\<And>j. map_of (s_states t) j = Some BLOCKED \<longleftrightarrow> map_of (s_states s) j = Some BLOCKED"
    and "\<And>j. map_of (s_states t) j = Some SUCCEEDED \<longleftrightarrow> map_of (s_states s) j = Some SUCCEEDED"
  shows "barrier_ok t = barrier_ok s"
  using assms by (simp add: barrier_ok_def node_done_def same_plan_def)

lemma control_cong: "same_but_states s t \<Longrightarrow> control_ok t = control_ok s"
  by (simp add: control_ok_def same_but_states_def)

text \<open>Work moves between states that are neither blocked nor succeeded, and holds what its new state
  asks for.\<close>

lemma moved_ok:
  assumes ok: "sched_ok s" and i: "map_of (s_states s) i = Some w" "w \<notin> {BLOCKED, SUCCEEDED}"
    and v: "v \<notin> {BLOCKED, SUCCEEDED}"
    and F: "well_keyed F" "map_of F = (map_of (s_fences s))(i := f)"
    and W: "well_keyed W" "map_of W = (map_of (s_retry_waits s))(i := r)"
    and h: "holds_ok i (Some v) f r"
  shows "sched_ok ((set_state i v s)\<lparr>s_fences := F, s_retry_waits := W\<rparr>)" (is "sched_ok ?t")
proof -
  have p: "same_plan s ?t"
    using same_but_states_set_state [OF i(1), of v] by (simp add: same_but_states_def same_plan_def)
  moreover have "map_of (s_states ?t) = (map_of (s_states s))(i \<mapsto> v)"
    by simp
  ultimately have "barrier_ok ?t = barrier_ok s"
    using i v by (intro barrier_cong) auto
  moreover have "control_ok ?t = control_ok s"
    by (simp add: control_ok_def set_state_def)
  moreover have "holders_ok ?t"
    using ok F W h by (simp add: holders_ok_def sched_ok_def)
  ultimately show ?thesis
    using ok same_plan_ok [OF p] by (simp add: sched_ok_def)
qed

lemma holds:
  assumes "sched_ok s"
  shows "well_keyed (s_fences s)" and "well_keyed (s_retry_waits s)"
    and "holds_ok i (map_of (s_states s) i) (map_of (s_fences s) i) (map_of (s_retry_waits s) i)"
  using assms by (simp_all add: sched_ok_def holders_ok_def)

lemma register_admission_ok:
  assumes ok: "sched_ok s"
  shows "sched_ok (snd (register_admission i fence s))"
proof (cases "map_of (s_states s) i = Some READY \<and> 1 \<le> fence \<and> fence \<le> MAX_FRONTIER_LEASE_FENCE \<and>
    s_control_state s = RUNNING")
  case True
  then have "snd (register_admission i fence s) =
      (set_state i ADMITTED s)
        \<lparr>s_fences := AList.update i fence (s_fences s), s_retry_waits := s_retry_waits s\<rparr>"
    by (simp add: register_admission_def set_state_def in_flight_def)
  moreover have "map_of (s_retry_waits s) i = None"
    using holds(3) [OF ok, of i] True by (simp add: holds_ok_def)
  ultimately show ?thesis
    using True holds [OF ok]
    by (auto intro!: moved_ok [OF ok, where f = "Some fence" and r = None] simp: dict_simps holds_ok_def)
next
  case False
  then have "snd (register_admission i fence s) = s"
    by (auto simp: register_admission_def split: option.splits)
  then show ?thesis using ok by simp
qed

lemma mark_result_received_ok:
  assumes ok: "sched_ok s"
  shows "sched_ok (snd (mark_result_received i s))"
proof (cases "map_of (s_states s) i = Some ADMITTED")
  case True
  then have "snd (mark_result_received i s) =
      (set_state i AWAITING_COMMIT s)\<lparr>s_fences := s_fences s, s_retry_waits := s_retry_waits s\<rparr>"
    by (simp add: mark_result_received_def set_state_def)
  then show ?thesis
    using True holds(1,2) [OF ok] holds(3) [OF ok, of i]
    by (auto intro!: moved_ok [OF ok, where f = "map_of (s_fences s) i" and r = "map_of (s_retry_waits s) i"]
        simp: holds_ok_def)
next
  case False
  then have "snd (mark_result_received i s) = s"
    by (auto simp: mark_result_received_def split: option.splits)
  then show ?thesis using ok by simp
qed

lemma schedule_retry_ok:
  assumes ok: "sched_ok s" and e: "e \<le> MAX_FRONTIER_RETRY_ELIGIBILITY_MICROS"
  shows "sched_ok (snd (schedule_retry i e why s))"
proof (cases "\<exists>w. map_of (s_states s) i = Some w \<and> in_flight w \<and> 0 \<le> e \<and> reason_ok why")
  case True
  then obtain w where w: "map_of (s_states s) i = Some w" "in_flight w" "0 \<le> e" "reason_ok why" by blast
  let ?r = "\<lparr>identity = i, eligible_at_micros = e, reason = why\<rparr>"
  have built: "make_FrontierRetryWait i e why = Inr ?r"
    using w e by (auto simp: make_FrontierRetryWait_def require_bounded_int_def result_simps)
  have why: "require_reason_text why ''scheduler retry reason'' = Inr ()"
    using w(4) by (simp add: result_simps)
  have "snd (schedule_retry i e why s) =
      (set_state i RETRY_WAIT s)\<lparr>s_fences := AList.delete i (s_fences s),
         s_retry_waits := AList.update i ?r (s_retry_waits s)\<rparr>"
    using w by (simp add: schedule_retry_def built why set_state_def)
  then show ?thesis
    using w e holds(1,2) [OF ok]
    by (auto intro!: moved_ok [OF ok, where f = None and r = "Some ?r"]
        simp: dict_simps holds_ok_def wait_ok_def in_flight_def)
next
  case False
  then have "snd (schedule_retry i e why s) = s"
    by (auto simp: schedule_retry_def result_simps split: option.splits sum.splits)
  then show ?thesis using ok by simp
qed

lemma retry_fold_ok:
  assumes "sched_ok s" and "distinct js" and "\<And>j. j \<in> set js \<Longrightarrow> map_of (s_retry_waits s) j \<noteq> None"
  shows "sched_ok (fold (\<lambda>i s. (set_state i READY s)
           \<lparr>s_retry_waits := AList.delete i (s_retry_waits s)\<rparr>) js s)"
  using assms
proof (induction js arbitrary: s)
  case (Cons j js)
  let ?t = "(set_state j READY s)\<lparr>s_retry_waits := AList.delete j (s_retry_waits s)\<rparr>"
  have w: "map_of (s_states s) j = Some RETRY_WAIT" "map_of (s_fences s) j = None"
    using holds(3) [OF Cons.prems(1), of j] Cons.prems(3) [of j] by (auto simp: holds_ok_def)
  have "sched_ok ((set_state j READY s)
      \<lparr>s_fences := s_fences s, s_retry_waits := AList.delete j (s_retry_waits s)\<rparr>)"
    using w holds(1,2) [OF Cons.prems(1)]
    by (auto intro!: moved_ok [OF Cons.prems(1), where f = None and r = None] simp: dict_simps holds_ok_def)
  then have "sched_ok ?t" by (simp add: set_state_def)
  moreover have "map_of (s_retry_waits ?t) k \<noteq> None" if "k \<in> set js" for k
    using that Cons.prems(2,3) by (auto simp: dict_simps)
  ultimately show ?case
    using Cons.IH [of ?t] Cons.prems(2) by simp
qed simp

lemma retry_eligible_ok:
  assumes ok: "sched_ok s"
  shows "sched_ok (snd (retry_eligible now s))"
proof (cases "now < 0")
  case False
  let ?due = "map fst (filter (\<lambda>(_, wait). eligible_at_micros wait \<le> now) (s_retry_waits s))"
  have "distinct ?due"
    using holds(2) [OF ok] by (rule distinct_map_filter)
  moreover have "map_of (s_retry_waits s) j \<noteq> None" if "j \<in> set ?due" for j
    using that by (auto simp: map_of_eq_None_iff)
  ultimately show ?thesis
    using False retry_fold_ok [OF ok, of "sort_key (plan_position s) ?due"]
    by (simp add: retry_eligible_def Let_def)
qed (simp add: retry_eligible_def ok)

subsection \<open>Preservation by the control transitions\<close>

lemma control_change_ok:
  assumes ok: "sched_ok s"
    and c: "control_ok (s\<lparr>s_control_state := c, s_control_generation := g, s_recovery_reason := r\<rparr>)"
  shows "sched_ok (s\<lparr>s_control_state := c, s_control_generation := g, s_recovery_reason := r\<rparr>)"
    (is "sched_ok ?t")
proof -
  have p: "same_plan s ?t" by (simp add: same_plan_def)
  have "barrier_ok ?t = barrier_ok s"
    by (rule barrier_cong [OF p]) simp_all
  moreover have "holders_ok ?t = holders_ok s"
    by (simp add: holders_ok_def)
  ultimately show ?thesis
    using ok c same_plan_ok [OF p] by (simp add: sched_ok_def)
qed

lemma change_control_ok:
  assumes ok: "sched_ok s" and "target \<in> {RUNNING, QUIESCING}" "expected \<noteq> RECOVERY_REQUIRED"
  shows "sched_ok (snd (change_control expected action target s))"
proof (cases "fst (change_control expected action target s)")
  case (Inr g)
  then have "s_control_state s = expected" and g: "1 \<le> g" "g \<le> MAX_METRIC_VALUE"
    and t: "snd (change_control expected action target s) =
      s\<lparr>s_control_state := target, s_control_generation := g, s_recovery_reason := s_recovery_reason s\<rparr>"
    by (auto simp: change_control_def next_generation_def make_ControlGeneration_def require_control_def
        result_simps Let_def split: sum.splits)
  then have "control_ok (s\<lparr>s_control_state := target, s_control_generation := g,
      s_recovery_reason := s_recovery_reason s\<rparr>)"
    using ok assms(2,3) by (auto simp: sched_ok_def control_ok_def FRONTIER_CONTROL_STATES_def)
  then show ?thesis
    unfolding t by (rule control_change_ok [OF ok])
next
  case (Inl e)
  then have "snd (change_control expected action target s) = s"
    by (auto simp: change_control_def split: sum.splits)
  then show ?thesis using ok by simp
qed

lemma control_state_ok:
  assumes ok: "sched_ok s" and c: "c \<in> {PAUSED, CANCELLING}" "s_control_state s \<noteq> RECOVERY_REQUIRED"
  shows "sched_ok (s\<lparr>s_control_state := c\<rparr>)"
proof -
  have "control_ok (s\<lparr>s_control_state := c, s_control_generation := s_control_generation s,
      s_recovery_reason := s_recovery_reason s\<rparr>)"
    using ok c by (auto simp: sched_ok_def control_ok_def FRONTIER_CONTROL_STATES_def)
  from control_change_ok [OF ok this] show ?thesis by simp
qed

lemma control_operations_ok:
  assumes ok: "sched_ok s"
  shows "sched_ok (snd (request_pause s))" "sched_ok (snd (abort_pause s))" "sched_ok (snd (resume s))"
    "sched_ok (snd (mark_paused s))" "sched_ok (snd (request_cancel s))"
  using ok change_control_ok [OF ok] control_state_ok [OF ok]
  by (simp_all add: request_pause_def abort_pause_def resume_def mark_paused_def request_cancel_def
      require_control_def require_def)

lemma mark_recovery_required_ok:
  assumes ok: "sched_ok s"
  shows "sched_ok (snd (mark_recovery_required why s))"
proof (cases "require_reason_text why ''scheduler recovery reason''")
  case (Inr u)
  then have "reason_ok why" by (simp add: result_simps)
  then have "control_ok (s\<lparr>s_control_state := RECOVERY_REQUIRED,
      s_control_generation := s_control_generation s, s_recovery_reason := Some why\<rparr>)"
    using ok by (auto simp: sched_ok_def control_ok_def FRONTIER_CONTROL_STATES_def)
  from control_change_ok [OF ok this]
  have "sched_ok (s\<lparr>s_control_state := RECOVERY_REQUIRED, s_recovery_reason := Some why\<rparr>)"
    by simp
  then show ?thesis
    using Inr ok by (simp add: mark_recovery_required_def)
qed (simp add: mark_recovery_required_def ok)

subsection \<open>Commits\<close>

text \<open>What a commit does to the states: the work takes its outcome and, of the nodes that depend on
  its node, those whose predecessors have now all succeeded become ready.\<close>

definition committed :: "WorkIdentity \<Rightarrow> FrontierWorkState \<Rightarrow> scheduler \<Rightarrow> scheduler" where
  "committed i v s = (set_state i v s)\<lparr>s_fences := AList.delete i (s_fences s)\<rparr>"

lemma committed_plan:
  assumes "map_of (s_states s) i = Some w"
  shows "same_plan s (committed i v s)"
  using same_but_states_set_state [OF assms, of v]
  by (simp add: committed_def same_but_states_def same_plan_def)

lemma commit_result_effect:
  assumes ok: "plan_ok s" "keys_ok s" and i: "map_of (s_states s) i = Some w" "in_flight w"
    and v: "work_state_of outcome = Some v" "is_terminal v"
  shows "\<exists>t. commit_result i outcome s = (Inr (), t) \<and> same_but_states (committed i v s) t \<and>
           (\<forall>j. map_of (s_states t) j =
              released (committed i v s)
                {n. (node_id i, n) \<in> set (s_edges s) \<and> permitted (committed i v s) n} j)"
proof -
  let ?c = "committed i v s"
  have p: "same_plan s ?c" by (rule committed_plan [OF i(1)])
  then have c: "plan_ok ?c" "keys_ok ?c"
    using ok same_plan_ok [OF p] by simp_all
  have "commit_result i outcome s = release_loop (s_successors s (node_id i)) ?c"
    using i v p by (simp add: commit_result_def committed_def release_successors_def set_state_def)
  moreover have "set (s_successors s (node_id i)) = {n. (node_id i, n) \<in> set (s_edges s)}"
    using ok(1) by (simp add: plan_ok_def)
  ultimately show ?thesis
    using release_loop_effect [OF c, of "s_successors s (node_id i)"] by simp
qed

lemma identity_node:
  assumes "plan_ok s" and "keys_ok s" and "map_of (s_states s) i = Some w"
  shows "node_id i \<in> set (s_node_order s)" and "i \<in> set (s_identities_by_node s (node_id i))"
proof -
  have "i \<in> set (keys (s_states s))"
    using assms(3) by (rule map_of_eq_Some_in_keys)
  then obtain n where n: "n \<in> set (s_node_order s)" "i \<in> set (s_identities_by_node s n)"
    using assms(2) by (auto simp: keys_ok_def)
  then have "node_id i = n"
    using assms(1) by (simp add: plan_ok_def)
  then show "node_id i \<in> set (s_node_order s)" "i \<in> set (s_identities_by_node s (node_id i))"
    using n by simp_all
qed

lemma committed_permitted:
  assumes ok: "plan_ok s" "keys_ok s" and i: "map_of (s_states s) i = Some w" "in_flight w"
  shows "\<not> permitted (committed i v s) n \<longleftrightarrow>
    \<not> permitted s n \<and> \<not> ((node_id i, n) \<in> set (s_edges s) \<and> permitted (committed i v s) n)"
proof -
  let ?c = "committed i v s"
  have p: "same_plan s ?c" by (rule committed_plan [OF i(1)])
  have preds: "set (s_predecessors s n) = {a. (a, n) \<in> set (s_edges s)}" for n
    using ok(1) by (simp add: plan_ok_def)
  have nodes: "a \<in> set (s_node_order s)" if "(a, b) \<in> set (s_edges s)" for a b
    using ok(1) that by (auto simp: plan_ok_def)
  have busy: "\<not> node_done s (node_id i)"
    using identity_node(2) [OF ok i(1)] i
    by (auto simp: node_done_def in_flight_def intro!: bexI [of _ i])
  have others: "node_done ?c m = node_done s m" if m: "m \<in> set (s_node_order s)" "m \<noteq> node_id i" for m
  proof -
    have "map_of (s_states ?c) j = map_of (s_states s) j" if "j \<in> set (s_identities_by_node s m)" for j
      using that m ok(1) by (auto simp: plan_ok_def committed_def)
    then show ?thesis
      using p by (simp add: node_done_def same_plan_def)
  qed
  show ?thesis
  proof (cases "(node_id i, n) \<in> set (s_edges s)")
    case True
    then show ?thesis using busy preds by (auto simp: permitted_def)
  next
    case False
    then have "node_done ?c m = node_done s m" if "m \<in> set (s_predecessors s n)" for m
      using that others nodes unfolding preds by blast
    then have "permitted ?c n = permitted s n"
      using p by (simp add: permitted_def same_plan_def)
    then show ?thesis using False by simp
  qed
qed

lemma released_holds:
  "holds_ok j (released s N j) f r = holds_ok j (map_of (s_states s) j) f r"
  by (auto simp: holds_ok_def released_def)

lemma barrier_okD:
  "barrier_ok s \<Longrightarrow> n \<in> set (s_node_order s) \<Longrightarrow> j \<in> set (s_identities_by_node s n) \<Longrightarrow>
     map_of (s_states s) j = Some BLOCKED \<longleftrightarrow> \<not> permitted s n"
  unfolding barrier_ok_def permitted_def by blast

lemma barrier_okI:
  "(\<And>n j. n \<in> set (s_node_order s) \<Longrightarrow> j \<in> set (s_identities_by_node s n) \<Longrightarrow>
     map_of (s_states s) j = Some BLOCKED \<longleftrightarrow> \<not> permitted s n) \<Longrightarrow> barrier_ok s"
  unfolding barrier_ok_def permitted_def by blast

lemma commit_barrier:
  assumes ok: "plan_ok s" "keys_ok s" "barrier_ok s"
    and i: "map_of (s_states s) i = Some w" "in_flight w" and v: "is_terminal v"
    and t: "same_but_states (committed i v s) t"
      "\<And>j. map_of (s_states t) j = released (committed i v s)
         {n. (node_id i, n) \<in> set (s_edges s) \<and> permitted (committed i v s) n} j"
  shows "barrier_ok t"
proof (rule barrier_okI)
  let ?c = "committed i v s" let ?N = "{n. (node_id i, n) \<in> set (s_edges s) \<and> permitted (committed i v s) n}"
  fix n j assume "n \<in> set (s_node_order t)" "j \<in> set (s_identities_by_node t n)"
  moreover have p: "same_plan s ?c" "same_plan ?c t"
    using committed_plan [OF i(1)] t(1) by (simp_all add: same_but_states_def)
  ultimately have n: "n \<in> set (s_node_order s)" "j \<in> set (s_identities_by_node s n)"
    by (simp_all add: same_plan_def)
  have edge: "b \<in> set (s_node_order s)" if "(a, b) \<in> set (s_edges s)" for a b
    using ok(1) that by (auto simp: plan_ok_def)
  have "node_id j = n"
    using ok(1) n by (simp add: plan_ok_def)
  then have only: "m = n" if "m \<in> ?N" "j \<in> set (s_identities_by_node s m)" for m
    using ok(1) that edge by (auto simp: plan_ok_def)
  have ids: "s_identities_by_node ?c = s_identities_by_node s"
    using p(1) by (simp add: same_plan_def)
  have member: "(\<exists>m \<in> ?N. j \<in> set (s_identities_by_node ?c m)) \<longleftrightarrow> n \<in> ?N"
    unfolding ids using only n(2) by blast
  have "map_of (s_states ?c) j = Some BLOCKED \<longleftrightarrow> map_of (s_states s) j = Some BLOCKED"
    using i v by (auto simp: committed_def in_flight_def is_terminal_def)
  then have "map_of (s_states t) j = Some BLOCKED \<longleftrightarrow> \<not> permitted s n \<and> n \<notin> ?N"
    unfolding t(2) released_blocked member barrier_okD [OF ok(3) n, symmetric] by blast
  moreover have "permitted t n = permitted ?c n"
    using node_done_released [OF t] p(2) by (simp add: permitted_def same_plan_def)
  ultimately show "map_of (s_states t) j = Some BLOCKED \<longleftrightarrow> \<not> permitted t n"
    using committed_permitted [OF ok(1,2) i, of v n] by (simp only: mem_Collect_eq)
qed

lemma commit_result_ok:
  assumes ok: "sched_ok s"
  shows "sched_ok (snd (commit_result i outcome s))"
proof (cases "\<exists>w v. map_of (s_states s) i = Some w \<and> in_flight w \<and>
    work_state_of outcome = Some v \<and> is_terminal v")
  case True
  then obtain w v where i: "map_of (s_states s) i = Some w" "in_flight w"
    and v: "work_state_of outcome = Some v" "is_terminal v" by blast
  have s: "plan_ok s" "keys_ok s" "barrier_ok s" "control_ok s" using ok by (simp_all add: sched_ok_def)
  let ?c = "committed i v s"
  obtain t where t: "commit_result i outcome s = (Inr (), t)" "same_but_states ?c t"
    "\<And>j. map_of (s_states t) j = released ?c
       {n. (node_id i, n) \<in> set (s_edges s) \<and> permitted ?c n} j"
    using commit_result_effect [OF s(1,2) i v] by blast
  have c: "plan_ok ?c" "keys_ok ?c" "control_ok ?c"
    using s same_plan_ok [OF committed_plan [OF i(1), of v]]
    by (simp_all add: committed_def control_ok_def set_state_def)
  have "holds_ok j (map_of (s_states ?c) j) (map_of (s_fences ?c) j) (map_of (s_retry_waits ?c) j)" for j
    using holds(3) [OF ok, of j] holds(3) [OF ok, of i] i v(2)
    by (auto simp: committed_def set_state_def dict_simps holds_ok_def in_flight_def is_terminal_def)
  moreover have "s_fences t = AList.delete i (s_fences s)" "s_retry_waits t = s_retry_waits s"
    using t(2) by (simp_all add: same_but_states_def committed_def set_state_def)
  ultimately have "holders_ok t"
    using holds(1,2) [OF ok] t(2,3) released_holds
    by (auto simp: holders_ok_def same_but_states_def committed_def set_state_def)
  moreover have "barrier_ok t"
    by (rule commit_barrier [OF s(1,2,3) i v(2) t(2,3)])
  ultimately have "sched_ok t"
    using c t(2) same_plan_ok [of ?c t] control_cong [OF t(2)] by (simp add: sched_ok_def same_but_states_def)
  then show ?thesis using t(1) by simp
next
  case False
  then have "snd (commit_result i outcome s) = s"
    by (auto simp: commit_result_def split: option.splits)
  then show ?thesis using ok by simp
qed

end
