(* ===== verification/Scheduler_Frontier.thy ===== *)
theory Scheduler_Frontier
  imports Scheduler_Invariant
begin

text \<open>
  The frontier a scheduler takes of itself: in every state of the invariant it passes all checks of the
  frontier's constructor, and restoring it gives the scheduler back.
\<close>

subsection \<open>Entries in the order of the frontier\<close>

lemma entries_set:
  assumes "well_keyed d"
  shows "set (map (\<lambda>i. (i, the (map_of d i))) (sort_key k (keys d))) = set d"
  using assms by force

lemma entries_keys: "keys (map (\<lambda>i. (i, the (map_of d i))) (sort_key k (keys d))) = sort_key k (keys d)"
  by (simp add: comp_def)

lemma entries_map_of:
  assumes "well_keyed d"
  shows "map_of (map (\<lambda>i. (i, the (map_of d i))) (sort_key k (keys d))) = map_of d"
  using assms entries_set [OF assms, of k]
  by (intro map_of_inject_set [THEN iffD2]) (simp_all add: entries_keys comp_def)

lemma sorted_unique_sort:
  assumes "distinct is"
  shows "sorted_unique (sort_key identity_sort_key is)"
  using assms by (simp add: sorted_unique_def)

subsection \<open>Barriers\<close>

lemma node_states_set:
  assumes ok: "plan_ok s" "keys_ok s" and n: "n \<in> set (s_node_order s)"
    and W: "well_keyed W" "map_of W = map_of (s_states s)"
  shows "w \<in> set (node_states_in W n) \<longleftrightarrow>
    (\<exists>i \<in> set (s_identities_by_node s n). map_of (s_states s) i = Some w)"
proof -
  have "w \<in> set (node_states_in W n) \<longleftrightarrow> (\<exists>i. map_of W i = Some w \<and> node_id i = n)"
    using W(1) by (force simp: node_states_in_def)
  also have "\<dots> \<longleftrightarrow> (\<exists>i \<in> set (s_identities_by_node s n). map_of (s_states s) i = Some w)"
    unfolding W(2) using identity_node(2) [OF ok] ok(1) n by (auto simp: plan_ok_def)
  finally show ?thesis .
qed

lemma succeeded_in_done:
  assumes ok: "plan_ok s" "keys_ok s" and n: "n \<in> set (s_node_order s)"
    and W: "well_keyed W" "map_of W = map_of (s_states s)"
  shows "succeeded_in W n \<longleftrightarrow> node_done s n"
proof -
  have known: "\<exists>w. map_of (s_states s) i = Some w" if "i \<in> set (s_identities_by_node s n)" for i
    by (rule known_state [OF ok(2) n that])
  obtain i where i: "i \<in> set (s_identities_by_node s n)"
    using ok(1) n by (fastforce simp: plan_ok_def neq_Nil_conv)
  then have "node_states_in W n \<noteq> []"
    using known [OF i] node_states_set [OF assms] by (metis empty_iff empty_set)
  moreover have "(\<forall>w \<in> set (node_states_in W n). w = SUCCEEDED) \<longleftrightarrow> node_done s n"
    unfolding node_done_def using node_states_set [OF assms] known by (metis option.inject)
  ultimately show ?thesis
    unfolding succeeded_in_def by blast
qed

lemma predecessors_in_set:
  assumes "plan_ok s"
  shows "set (predecessors_in (s_edges s) n) = set (s_predecessors s n)"
proof -
  have "set (predecessors_in es n) = {a. (a, n) \<in> set es}" for es
    by (force simp: predecessors_in_def)
  then show ?thesis
    using assms by (simp add: plan_ok_def)
qed

definition roots_ok :: "scheduler \<Rightarrow> bool" where
  "roots_ok s \<longleftrightarrow> (\<forall>n \<in> set (s_node_order s). s_predecessors s n = [] \<longrightarrow>
     (\<forall>i \<in> set (s_identities_by_node s n). map_of (s_states s) i \<noteq> Some BLOCKED))"

lemma barriers_iff:
  assumes ok: "plan_ok s" "keys_ok s" and f: "node_order f = s_node_order s" "edges f = s_edges s"
    and W: "well_keyed (work_states f)" "map_of (work_states f) = map_of (s_states s)"
  shows "frontier_barriers_ok f \<and> roots_ok s \<longleftrightarrow> barrier_ok s"
proof -
  have complete: "(\<forall>p \<in> set (s_predecessors s n). succeeded_in (work_states f) p) \<longleftrightarrow> permitted s n" for n
  proof -
    have "set (s_predecessors s n) \<subseteq> set (s_node_order s)"
      using ok(1) by (auto simp: plan_ok_def)
    then show ?thesis
      using succeeded_in_done [OF ok _ W] unfolding permitted_def by blast
  qed
  have empty: "predecessors_in (s_edges s) n = [] \<longleftrightarrow> s_predecessors s n = []" for n
    using predecessors_in_set [OF ok(1), of n] by (metis empty_set set_empty2)
  have "frontier_barriers_ok f \<longleftrightarrow> (\<forall>n \<in> set (s_node_order s). s_predecessors s n \<noteq> [] \<longrightarrow>
      (\<forall>i \<in> set (s_identities_by_node s n). map_of (s_states s) i = Some BLOCKED \<longleftrightarrow> \<not> permitted s n))"
    unfolding frontier_barriers_ok_def f predecessors_in_set [OF ok(1)] empty complete
    using node_states_set [OF ok _ W] known_state [OF ok(2)] by (metis option.inject)
  moreover have "permitted s n" if "s_predecessors s n = []" for n
    using that by (simp add: permitted_def)
  ultimately show ?thesis
    unfolding roots_ok_def barrier_ok_def permitted_def by blast
qed

subsection \<open>The frontier of a scheduler\<close>

text \<open>The value \<open>frontier\<close> hands to the constructor.\<close>

definition frontier_of :: "scheduler \<Rightarrow> SchedulerFrontierV2" where
  "frontier_of s =
     \<lparr>version = SCHEDULER_FRONTIER_VERSION, plan_fingerprint = s_plan_fingerprint s,
      control_generation = s_control_generation s, frontier_run_id = s_run_id s,
      node_order = s_node_order s, edges = s_edges s,
      work_states = map (\<lambda>i. (i, the (map_of (s_states s) i)))
        (sort_key identity_sort_key (keys (s_states s))),
      lease_fences = map (\<lambda>i. (i, the (map_of (s_fences s) i)))
        (sort_key identity_sort_key (keys (s_fences s))),
      retry_waits = map (\<lambda>i. the (map_of (s_retry_waits s) i))
        (sort_key identity_sort_key (keys (s_retry_waits s))),
      control_state = s_control_state s, recovery_required_reason = s_recovery_reason s\<rparr>"

lemma frontier_eq: "frontier s = Inr f \<longleftrightarrow> f = frontier_of s \<and> frontier_valid (frontier_of s)"
  unfolding frontier_def frontier_of_def [symmetric] by (rule make_frontier_eq)

lemma wait_identities:
  assumes "holders_ok s"
  shows "map identity (retry_waits (frontier_of s)) = sort_key identity_sort_key (keys (s_retry_waits s))"
proof -
  have "identity (the (map_of (s_retry_waits s) i)) = i" if i: "i \<in> set (keys (s_retry_waits s))" for i
  proof -
    obtain w where w: "map_of (s_retry_waits s) i = Some w"
      using i in_keys_iff_map_of [of i "s_retry_waits s"] by auto
    then have "wait_ok i w"
      using assms by (simp add: holders_ok_def holds_ok_def)
    then show ?thesis using w by (simp add: wait_ok_def)
  qed
  then show ?thesis
    by (simp add: frontier_of_def comp_def) (rule map_idI, simp)
qed

lemma frontier_holders:
  assumes h: "holders_ok s" and k: "well_keyed (s_states s)"
  shows "set (keys (s_fences s)) = {i. \<exists>w. (i, w) \<in> set (s_states s) \<and> in_flight w}"
    and "set (keys (s_retry_waits s)) = {i. (i, RETRY_WAIT) \<in> set (s_states s)}"
    and "\<forall>(i, x) \<in> set (s_fences s). 1 \<le> x \<and> x \<le> MAX_FRONTIER_LEASE_FENCE"
proof -
  have entry: "(i, w) \<in> set (s_states s) \<longleftrightarrow> map_of (s_states s) i = Some w" for i w
    using k by simp
  have at: "holds_ok i (map_of (s_states s) i) (map_of (s_fences s) i) (map_of (s_retry_waits s) i)" for i
    using h by (simp add: holders_ok_def)
  show "set (keys (s_fences s)) = {i. \<exists>w. (i, w) \<in> set (s_states s) \<and> in_flight w}"
    unfolding entry in_flight_def using at in_keys_iff_map_of [of _ "s_fences s"]
    by (auto simp: holds_ok_def simp del: set_map)
  show "set (keys (s_retry_waits s)) = {i. (i, RETRY_WAIT) \<in> set (s_states s)}"
    unfolding entry using at in_keys_iff_map_of [of _ "s_retry_waits s"]
    by (auto simp: holds_ok_def simp del: set_map)
  have "well_keyed (s_fences s)" using h by (simp add: holders_ok_def)
  then show "\<forall>(i, x) \<in> set (s_fences s). 1 \<le> x \<and> x \<le> MAX_FRONTIER_LEASE_FENCE"
    using at by (auto simp: holds_ok_def)
qed

lemma frontier_work:
  assumes ok: "plan_ok s" "keys_ok s" "holders_ok s"
  shows "frontier_work_ok (frontier_of s)"
proof -
  have k: "well_keyed (s_states s)" "well_keyed (s_fences s)" "well_keyed (s_retry_waits s)"
    using ok by (simp_all add: keys_ok_def holders_ok_def)
  have "identity ` set (retry_waits (frontier_of s)) = set (keys (s_retry_waits s))"
    using arg_cong [OF wait_identities [OF ok(3)], of set] by simp
  moreover have "node_id ` set (keys (s_states s)) = set (s_node_order s)"
    using ok(1,2) by (force simp: plan_ok_def keys_ok_def neq_Nil_conv)
  moreover have "\<forall>i \<in> set (keys (s_states s)). run_id i = s_run_id s"
    using ok(1,2) by (auto simp: plan_ok_def keys_ok_def simp del: set_map)
  moreover note frontier_holders [OF ok(3) k(1)]
  moreover have "length (work_states (frontier_of s)) \<le> MAX_FRONTIER_WORK_ITEMS"
    using ok(2) by (simp add: frontier_of_def keys_ok_def)
  moreover have "set (work_states (frontier_of s)) = set (s_states s)"
    "set (lease_fences (frontier_of s)) = set (s_fences s)"
    "set (keys (work_states (frontier_of s))) = set (keys (s_states s))"
    "set (keys (lease_fences (frontier_of s))) = set (keys (s_fences s))"
    unfolding frontier_of_def by (simp_all add: entries_set [OF k(1)] entries_set [OF k(2)] comp_def
        del: set_map)
  moreover have "sorted_unique (keys (work_states (frontier_of s)))"
    "sorted_unique (keys (lease_fences (frontier_of s)))"
    "sorted_unique (map identity (retry_waits (frontier_of s)))"
    unfolding wait_identities [OF ok(3)] using k
    by (simp_all add: frontier_of_def entries_keys comp_def sorted_unique_sort)
  moreover have "frontier_run_id (frontier_of s) = s_run_id s" "node_order (frontier_of s) = s_node_order s"
    by (simp_all add: frontier_of_def)
  ultimately show ?thesis
    unfolding frontier_work_ok_def by (simp only: simp_thms)
qed

lemma frontier_of_valid:
  assumes "sched_ok s"
  shows "frontier_valid (frontier_of s)"
proof -
  have ok: "plan_ok s" "keys_ok s" "holders_ok s" "barrier_ok s" "control_ok s"
    using assms by (simp_all add: sched_ok_def)
  have k: "well_keyed (s_states s)" using ok(2) by (simp add: keys_ok_def)
  have "frontier_barriers_ok (frontier_of s) \<and> roots_ok s \<longleftrightarrow> barrier_ok s"
    using entries_map_of [OF k] k
    by (intro barriers_iff [OF ok(1,2)]) (simp_all add: frontier_of_def comp_def)
  moreover have "frontier_graph_ok (frontier_of s)"
    using ok(1) by (simp add: frontier_graph_ok_def frontier_of_def plan_ok_def)
  moreover have "frontier_control_ok (frontier_of s)"
    using ok(5) by (simp add: frontier_control_ok_def frontier_of_def control_ok_def)
  ultimately show ?thesis
    using frontier_work [OF ok(1,2,3)] ok(1,4)
    by (simp add: frontier_valid_def) (simp add: frontier_of_def plan_ok_def)
qed

subsection \<open>Restoring\<close>

text \<open>The values a frontier is built of pass their own constructors.\<close>

definition frontier_values_ok :: "SchedulerFrontierV2 \<Rightarrow> bool" where
  "frontier_values_ok f \<longleftrightarrow>
     (\<forall>w \<in> set (retry_waits f). wait_ok (identity w) w) \<and>
     1 \<le> control_generation f \<and> control_generation f \<le> MAX_METRIC_VALUE"

text \<open>Work of a node without predecessors is not blocked.\<close>

definition frontier_roots_ok :: "SchedulerFrontierV2 \<Rightarrow> bool" where
  "frontier_roots_ok f \<longleftrightarrow>
     (\<forall>(i, w) \<in> set (work_states f). w = BLOCKED \<longrightarrow> predecessors_in (edges f) (node_id i) \<noteq> [])"

definition restored :: "SchedulerFrontierV2 \<Rightarrow> scheduler \<Rightarrow> scheduler" where
  "restored f s = s\<lparr>s_states := work_states f, s_fences := lease_fences f,
     s_retry_waits := map (\<lambda>w. (identity w, w)) (retry_waits f),
     s_control_state := control_state f, s_control_generation := control_generation f,
     s_recovery_reason := recovery_required_reason f\<rparr>"

definition frontier_matches :: "SchedulerFrontierV2 \<Rightarrow> scheduler \<Rightarrow> bool" where
  "frontier_matches f s \<longleftrightarrow>
     frontier_run_id f = s_run_id s \<and> plan_fingerprint f = s_plan_fingerprint s \<and>
     node_order f = s_node_order s \<and> edges f = s_edges s \<and>
     set (keys (work_states f)) = set (keys (s_states s))"

lemma restore_eq:
  assumes "frontier_valid f"
  shows "restore f s = (if frontier_matches f s then (Inr (), restored f s)
    else (fst (restore f s), s)) \<and> (frontier_matches f s \<longleftrightarrow> fst (restore f s) = Inr ())"
proof -
  have "validate_frontier_dependency_barriers (node_order f) (edges f) (work_states f) = Inr ()"
    using assms barriers_checked [of f "()"] by (simp add: frontier_valid_def frontier_work_ok_def)
  then show ?thesis
    by (simp add: restore_def frontier_matches_def restored_def require_def)
qed

lemma entries_sorted:
  assumes "sorted_unique (keys d)"
  shows "map (\<lambda>i. (i, the (map_of d i))) (sort_key identity_sort_key (keys d)) = d"
proof -
  have "sort_key identity_sort_key (keys d) = keys d"
    using assms by (simp add: sorted_unique_def sort_key_id_if_sorted)
  moreover have "(fst e, the (map_of d (fst e))) = e" if "e \<in> set d" for e
  proof -
    have "map_of d (fst e) = Some (snd e)"
      by (rule map_of_is_SomeI) (use that assms in \<open>simp_all add: sorted_unique_def\<close>)
    then show ?thesis by simp
  qed
  ultimately show ?thesis
    by (simp add: comp_def map_idI)
qed

lemma frontier_of_restored:
  assumes v: "frontier_valid f" and m: "frontier_matches f s"
  shows "frontier_of (restored f s) = f"
proof -
  have u: "sorted_unique (keys (work_states f))" "sorted_unique (keys (lease_fences f))"
    "sorted_unique (map identity (retry_waits f))"
    using v by (simp_all add: frontier_valid_def frontier_work_ok_def)
  let ?waits = "map (\<lambda>w. (identity w, w)) (retry_waits f)"
  have k: "keys ?waits = map identity (retry_waits f)" by (simp add: comp_def)
  have "map snd (map (\<lambda>i. (i, the (map_of ?waits i))) (sort_key identity_sort_key (keys ?waits))) =
      map snd ?waits"
    using u(3) unfolding k [symmetric] by (simp only: entries_sorted)
  then have "map (\<lambda>i. the (map_of ?waits i)) (sort_key identity_sort_key (keys ?waits)) = retry_waits f"
    by (simp add: comp_def)
  then show ?thesis
    using m v entries_sorted [OF u(1)] entries_sorted [OF u(2)]
    by (simp add: frontier_of_def restored_def frontier_matches_def frontier_valid_def)
qed

lemma restored_holders:
  assumes v: "frontier_valid f" and w: "frontier_values_ok f"
  shows "holders_ok (restored f s)"
proof -
  have u: "well_keyed (work_states f)" "well_keyed (lease_fences f)" "distinct (map identity (retry_waits f))"
    and F: "set (keys (lease_fences f)) = {i. \<exists>w. (i, w) \<in> set (work_states f) \<and> in_flight w}"
    and W: "identity ` set (retry_waits f) = {i. (i, RETRY_WAIT) \<in> set (work_states f)}"
    and range: "\<forall>(i, x) \<in> set (lease_fences f). 1 \<le> x \<and> x \<le> MAX_FRONTIER_LEASE_FENCE"
    using v by (simp_all add: frontier_valid_def frontier_work_ok_def sorted_unique_def)
  let ?waits = "map (\<lambda>w. (identity w, w)) (retry_waits f)"
  have "holds_ok i (map_of (work_states f) i) (map_of (lease_fences f) i) (map_of ?waits i)" for i
    unfolding holds_ok_def
  proof (intro conjI allI impI)
    show "map_of (lease_fences f) i \<noteq> None \<longleftrightarrow>
        map_of (work_states f) i = Some ADMITTED \<or> map_of (work_states f) i = Some AWAITING_COMMIT"
      unfolding in_keys_iff_map_of [symmetric] F using u(1) by (auto simp: in_flight_def)
    show "map_of ?waits i \<noteq> None \<longleftrightarrow> map_of (work_states f) i = Some RETRY_WAIT"
      unfolding in_keys_iff_map_of [symmetric] using u(1) W by (simp add: comp_def image_image)
    fix x assume "map_of (lease_fences f) i = Some x"
    then have "(i, x) \<in> set (lease_fences f)" by (rule map_of_SomeD)
    then show "1 \<le> x" "x \<le> MAX_FRONTIER_LEASE_FENCE" using range by auto
  next
    fix x assume "map_of ?waits i = Some x"
    then have "x \<in> set (retry_waits f)" "identity x = i"
      by (auto dest!: map_of_SomeD)
    then show "wait_ok i x" using w by (auto simp: frontier_values_ok_def)
  qed
  then show ?thesis
    using u by (simp add: holders_ok_def restored_def comp_def)
qed

lemma restore_ok:
  assumes ok: "sched_ok s" and v: "frontier_valid f" and w: "frontier_values_ok f"
    and r: "frontier_roots_ok f"
  shows "sched_ok (snd (restore f s))"
proof (cases "frontier_matches f s")
  case True
  let ?t = "restored f s"
  have "plan_ok ?t"
    using ok by (simp add: sched_ok_def plan_ok_def restored_def)
  moreover have k: "well_keyed (work_states f)" and len: "length (work_states f) \<le> MAX_FRONTIER_WORK_ITEMS"
    using v by (simp_all add: frontier_valid_def frontier_work_ok_def sorted_unique_def)
  then have "keys_ok ?t"
    using ok True by (simp add: sched_ok_def keys_ok_def restored_def frontier_matches_def)
  moreover have "barrier_ok ?t"
  proof -
    have "predecessors_in (s_edges s) n = [] \<longleftrightarrow> s_predecessors s n = []" for n
      using ok predecessors_in_set [of s n] by (metis empty_set set_empty2 sched_ok_def)
    moreover have "node_id i = n" if "i \<in> set (s_identities_by_node s n)" "n \<in> set (s_node_order s)" for i n
      using ok that by (simp add: sched_ok_def plan_ok_def)
    ultimately have "roots_ok ?t"
      using r True k
      by (fastforce simp: roots_ok_def frontier_roots_ok_def restored_def frontier_matches_def)
    moreover have "frontier_barriers_ok f \<and> roots_ok ?t \<longleftrightarrow> barrier_ok ?t"
      using True k
      by (intro barriers_iff [OF \<open>plan_ok ?t\<close> \<open>keys_ok ?t\<close>])
        (simp_all add: restored_def frontier_matches_def)
    ultimately show ?thesis
      using v by (simp add: frontier_valid_def)
  qed
  moreover have "control_ok ?t"
    using v w by (simp add: control_ok_def restored_def frontier_valid_def frontier_control_ok_def
        frontier_values_ok_def)
  ultimately have "sched_ok ?t"
    using restored_holders [OF v w] by (simp add: sched_ok_def)
  then show ?thesis using restore_eq [OF v, of s] True by simp
next
  case False
  then have "snd (restore f s) = s" using restore_eq [OF v, of s] by (metis snd_conv)
  then show ?thesis using ok by simp
qed

end
