(* ===== verification/Scheduler_Start.thy ===== *)
theory Scheduler_Start
  imports Scheduler_Frontier
begin

text \<open>
  The constructor of the concurrent scheduler: what it accepts and that the scheduler it builds meets
  the invariant.
\<close>

definition identity_for :: "string \<Rightarrow> string \<Rightarrow> string \<Rightarrow> WorkIdentity" where
  "identity_for r n p = \<lparr>run_id = r, node_id = n, partition_key = p\<rparr>"

definition planned :: "string \<Rightarrow> (string, string list) dict \<Rightarrow> string \<Rightarrow> WorkIdentity list" where
  "planned r parts n = map (identity_for r n) (sort (the (map_of parts n)))"

lemma make_WorkIdentity_Inr:
  "make_WorkIdentity r n p = Inr i \<longleftrightarrow> i = identity_for r n p \<and> id_text r \<and> id_text n \<and> id_text p"
  by (auto simp: make_WorkIdentity_def result_simps identity_for_def)

lemma ordered_partitions_Inr:
  "ordered_partitions ps = Inr qs \<longleftrightarrow>
     qs = sort ps \<and> ps \<noteq> [] \<and> distinct ps \<and> (\<forall>p \<in> set ps. id_text p)"
  by (auto simp: ordered_partitions_def result_simps Let_def card_eq_length)

text \<open>What the constructor accepts, and the scheduler it builds.\<close>

definition start_ok ::
  "string \<Rightarrow> string \<Rightarrow> string list \<Rightarrow> (string \<times> string) list \<Rightarrow> (string, string list) dict \<Rightarrow> bool" where
  "start_ok r fingerprint nodes es parts \<longleftrightarrow>
     id_text r \<and> is_fingerprint fingerprint \<and> nodes \<noteq> [] \<and> distinct nodes \<and>
     (\<forall>n \<in> set nodes. id_text n) \<and> distinct es \<and>
     (\<forall>(a, b) \<in> set es. a \<in> set nodes \<and> b \<in> set nodes \<and> a \<noteq> b) \<and> acyclic (set es) \<and>
     set (keys parts) = set nodes \<and>
     (\<forall>n \<in> set nodes. the (map_of parts n) \<noteq> [] \<and> distinct (the (map_of parts n)) \<and>
        (\<forall>p \<in> set (the (map_of parts n)). id_text p)) \<and>
     sum_list (map (\<lambda>n. length (the (map_of parts n))) nodes) \<le> MAX_FRONTIER_WORK_ITEMS"

definition started ::
  "string \<Rightarrow> string \<Rightarrow> string list \<Rightarrow> (string \<times> string) list \<Rightarrow> (string, string list) dict \<Rightarrow> int \<Rightarrow>
     scheduler" where
  "started r fingerprint nodes es parts g =
     (let preds = (\<lambda>n. sort (remdups (predecessors_in es n))) in
      \<lparr>s_run_id = r, s_plan_fingerprint = fingerprint, s_node_order = nodes, s_edges = sort es,
       s_predecessors = preds,
       s_successors = (\<lambda>n. filter (\<lambda>c. n \<in> set (predecessors_in es c)) nodes),
       s_identities_by_node = (\<lambda>n. if n \<in> set nodes then planned r parts n else []),
       s_states = concat (map (\<lambda>n. map (\<lambda>i. (i, if preds n \<noteq> [] then BLOCKED else READY))
         (planned r parts n)) nodes),
       s_fences = [], s_retry_waits = [], s_control_generation = g,
       s_control_state = RUNNING, s_recovery_reason = None\<rparr>)"

lemma map_of_pairs: "map_of (map (\<lambda>n. (n, h n)) ns) n = (if n \<in> set ns then Some (h n) else None)"
  by (induction ns) auto

lemma make_scheduler_Inr:
  assumes "make_scheduler r fingerprint nodes es parts g = Inr s"
  shows "start_ok r fingerprint nodes es parts" and "s = started r fingerprint nodes es parts g"
proof -
  let ?preds = "\<lambda>n. sort (remdups (predecessors_in es n))"
  let ?order = "\<lambda>n. bind_result (ordered_partitions (the (map_of parts n))) (\<lambda>ps. Inr (n, ps))"
  obtain partitions identities where
    checks: "id_text r" "is_fingerprint fingerprint" "\<forall>n \<in> set nodes. id_text n" "nodes \<noteq> []" "distinct nodes"
      "\<forall>(a, b) \<in> set es. a \<in> set nodes \<and> b \<in> set nodes \<and> a \<noteq> b" "distinct es"
      "\<not> edges_contain_cycle nodes es" "set (keys parts) = set nodes"
    and parts: "map_result ?order nodes = Inr partitions"
    and bound: "sum_list (map (length \<circ> snd) partitions) \<le> MAX_FRONTIER_WORK_ITEMS"
    and ids: "map_result (node_identities r) partitions = Inr identities"
    and s: "s = \<lparr>s_run_id = r, s_plan_fingerprint = fingerprint, s_node_order = nodes, s_edges = sort es,
          s_predecessors = ?preds,
          s_successors = (\<lambda>n. filter (\<lambda>c. n \<in> set (predecessors_in es c)) nodes),
          s_identities_by_node = (\<lambda>n. case map_of identities n of None \<Rightarrow> [] | Some is \<Rightarrow> is),
          s_states = concat (map (\<lambda>(n, is).
            map (\<lambda>i. (i, if ?preds n \<noteq> [] then BLOCKED else READY)) is) identities),
          s_fences = [], s_retry_waits = [], s_control_generation = g,
          s_control_state = RUNNING, s_recovery_reason = None\<rparr>"
    using assms
    unfolding make_scheduler_def Let_def bind_result_eq_Inr require_eq_Inr check_all_eq_Inr
      require_identity_text_Inr card_eq_length
    by (elim exE conjE) (auto simp: result_simps require_plan_fingerprint_def split: prod.splits)
  have order: "q = (n, sort (the (map_of parts n)))" if "?order n = Inr q" for n q
    using that by (auto simp: bind_result_eq_Inr ordered_partitions_Inr)
  have ordered: "partitions = map (\<lambda>n. (n, sort (the (map_of parts n)))) nodes"
    by (rule map_result_Inr_map(1) [OF parts]) (rule order)
  have each: "?order n = Inr (n, sort (the (map_of parts n)))" if "n \<in> set nodes" for n
    by (rule map_result_Inr_map(2) [OF parts, of "\<lambda>n. (n, sort (the (map_of parts n)))"])
      (simp_all add: order that)
  have "set es \<subseteq> set nodes \<times> set nodes"
    using checks(6) by auto
  then have "acyclic (set es)"
    using checks(5,8) edges_contain_cycle_iff [of nodes es] by blast
  moreover have "the (map_of parts n) \<noteq> [] \<and> distinct (the (map_of parts n)) \<and>
      (\<forall>p \<in> set (the (map_of parts n)). id_text p)" if "n \<in> set nodes" for n
    using each [OF that] by (auto simp: bind_result_eq_Inr ordered_partitions_Inr)
  ultimately show "start_ok r fingerprint nodes es parts"
    using checks bound unfolding start_ok_def ordered by (simp add: comp_def)
  have "q = (fst np, map (identity_for r (fst np)) (snd np))" if np: "node_identities r np = Inr q" for np q
  proof -
    obtain js where js: "map_result (\<lambda>p. make_WorkIdentity r (fst np) p) (snd np) = Inr js" "q = (fst np, js)"
      using np by (auto simp: node_identities_def bind_result_eq_Inr)
    have "js = map (identity_for r (fst np)) (snd np)"
      by (rule map_result_Inr_map(1) [OF js(1)]) (simp add: make_WorkIdentity_Inr)
    then show ?thesis using js(2) by simp
  qed
  then have "identities = map (\<lambda>np. (fst np, map (identity_for r (fst np)) (snd np))) partitions"
    by (rule map_result_Inr_map(1) [OF ids])
  then have identities: "identities = map (\<lambda>n. (n, planned r parts n)) nodes"
    unfolding ordered by (simp add: planned_def)
  show "s = started r fingerprint nodes es parts g"
    unfolding s started_def identities Let_def map_of_pairs
    by (simp add: comp_def if_distrib [of "case_option _ _"] cong: if_cong)
qed

lemma make_scheduler_started:
  assumes "start_ok r fingerprint nodes es parts"
  shows "make_scheduler r fingerprint nodes es parts g = Inr (started r fingerprint nodes es parts g)"
proof -
  let ?parts = "map (\<lambda>n. (n, sort (the (map_of parts n)))) nodes"
  have ok: "id_text r" "is_fingerprint fingerprint" "nodes \<noteq> []" "distinct nodes"
    "\<forall>n \<in> set nodes. id_text n" "distinct es" "\<forall>(a, b) \<in> set es. a \<in> set nodes \<and> b \<in> set nodes \<and> a \<noteq> b"
    "acyclic (set es)" "set (keys parts) = set nodes"
    and parts: "\<And>n. n \<in> set nodes \<Longrightarrow> the (map_of parts n) \<noteq> [] \<and> distinct (the (map_of parts n)) \<and>
        (\<forall>p \<in> set (the (map_of parts n)). id_text p)"
    and bound: "sum_list (map (\<lambda>n. length (the (map_of parts n))) nodes) \<le> MAX_FRONTIER_WORK_ITEMS"
    using assms unfolding start_ok_def by blast+
  have cycle: "\<not> edges_contain_cycle nodes es"
    using ok(4,7,8) by (subst edges_contain_cycle_iff) auto
  have "bind_result (ordered_partitions (the (map_of parts n))) (\<lambda>ps. Inr (n, ps)) =
      Inr (n, sort (the (map_of parts n)))" if "n \<in> set nodes" for n
    using parts [OF that] by (simp add: bind_result_eq_Inr ordered_partitions_Inr)
  then have m: "map_result (\<lambda>n. bind_result (ordered_partitions (the (map_of parts n)))
      (\<lambda>ps. Inr (n, ps))) nodes = Inr ?parts"
    by (rule map_result_map)
  have "node_identities r np = Inr (fst np, map (identity_for r (fst np)) (snd np))"
    if "np \<in> set ?parts" for np
  proof -
    have "make_WorkIdentity r (fst np) p = Inr (identity_for r (fst np) p)" if "p \<in> set (snd np)" for p
      using that \<open>np \<in> set ?parts\<close> ok(1,5) parts by (auto simp: make_WorkIdentity_Inr)
    then show ?thesis
      by (simp add: node_identities_def map_result_map)
  qed
  then have "map_result (node_identities r) ?parts =
      Inr (map (\<lambda>np. (fst np, map (identity_for r (fst np)) (snd np))) ?parts)"
    by (rule map_result_map)
  then have i: "map_result (node_identities r) ?parts = Inr (map (\<lambda>n. (n, planned r parts n)) nodes)"
    by (simp add: planned_def comp_def)
  have checks: "require_identity_text r ''scheduler run identity'' = Inr ()"
    "require_plan_fingerprint fingerprint = Inr ()"
    "check_all (\<lambda>n. require_identity_text n ''scheduler node identity'') nodes = Inr ()"
    "scheduler_edge_pairs es = Inr ()"
    "check_all (\<lambda>(s, t). bind_result (invalid (s \<in> set nodes \<and> t \<in> set nodes)
          ''scheduler edge must identify a known node'') (\<lambda>_.
        invalid (s \<noteq> t) ''scheduler edge cannot be a self dependency'')) es = Inr ()"
    using ok by (auto simp: result_simps require_plan_fingerprint_def scheduler_edge_pairs_def)
  show ?thesis
    unfolding make_scheduler_def checks m
    using ok(3,4,6,9) bound cycle
    by (simp add: card_eq_length i started_def Let_def map_of_pairs comp_def
        if_distrib [of "case_option _ _"] cong: if_cong)
qed

subsection \<open>The invariant at the start\<close>

lemma planned_node: "i \<in> set (planned r parts n) \<Longrightarrow> node_id i = n \<and> run_id i = r"
  by (auto simp: planned_def identity_for_def)

lemma distinct_planned: "distinct (the (map_of parts n)) \<Longrightarrow> distinct (planned r parts n)"
  by (auto simp: planned_def distinct_map identity_for_def intro!: inj_onI)

lemma keys_started:
  "keys (s_states (started r fingerprint nodes es parts g)) = concat (map (planned r parts) nodes)"
  by (simp add: started_def Let_def map_concat comp_def)

lemma distinct_concat_planned:
  assumes "distinct nodes" and "\<And>n. n \<in> set nodes \<Longrightarrow> distinct (the (map_of parts n))"
  shows "distinct (concat (map (planned r parts) nodes))"
  using assms
proof (induction nodes)
  case (Cons n nodes)
  have "set (planned r parts n) \<inter> (\<Union>m \<in> set nodes. set (planned r parts m)) = {}"
  proof -
    have False if "i \<in> set (planned r parts n)" "m \<in> set nodes" "i \<in> set (planned r parts m)" for i m
      using planned_node [of i r parts n] planned_node [of i r parts m] that Cons.prems(1) by auto
    then show ?thesis by blast
  qed
  then show ?case
    using Cons by (simp add: distinct_planned)
qed simp

lemma started_fields:
  fixes r fingerprint nodes es parts g
  defines "s \<equiv> started r fingerprint nodes es parts g"
  shows "s_run_id s = r" "s_plan_fingerprint s = fingerprint" "s_node_order s = nodes"
    "s_edges s = sort es" "s_predecessors s = (\<lambda>n. sort (remdups (predecessors_in es n)))"
    "s_successors s = (\<lambda>n. filter (\<lambda>c. n \<in> set (predecessors_in es c)) nodes)"
    "s_identities_by_node s = (\<lambda>n. if n \<in> set nodes then planned r parts n else [])"
    "s_fences s = []" "s_retry_waits s = []" "s_control_generation s = g" "s_control_state s = RUNNING"
    "s_recovery_reason s = None"
  by (simp_all add: s_def started_def Let_def)

lemma predecessors_in_edges: "set (predecessors_in es n) = {a. (a, n) \<in> set es}"
  by (force simp: predecessors_in_def)

lemma sort_eq_Nil: "sort xs = [] \<longleftrightarrow> xs = []"
  by (metis length_0_conv length_sort)

lemma started_plan:
  assumes start: "start_ok r fingerprint nodes es parts"
  shows "plan_ok (started r fingerprint nodes es parts g)"
proof -
  have ok: "id_text r" "is_fingerprint fingerprint" "nodes \<noteq> []" "distinct nodes"
    "\<forall>n \<in> set nodes. id_text n" "distinct es" "\<forall>(a, b) \<in> set es. a \<in> set nodes \<and> b \<in> set nodes \<and> a \<noteq> b"
    "acyclic (set es)"
    and parts: "\<And>n. n \<in> set nodes \<Longrightarrow> the (map_of parts n) \<noteq> [] \<and> distinct (the (map_of parts n))"
    using start unfolding start_ok_def by blast+
  have "planned r parts n \<noteq> []" "distinct (planned r parts n)" if "n \<in> set nodes" for n
    using parts [OF that] by (simp_all add: distinct_planned) (simp add: planned_def sort_eq_Nil)
  moreover have "set (filter (\<lambda>c. n \<in> set (predecessors_in es c)) nodes) = {c. (n, c) \<in> set es}" for n
    unfolding set_filter predecessors_in_edges using ok(7) by auto
  ultimately show ?thesis
    unfolding plan_ok_def started_fields set_sort set_remdups predecessors_in_edges
    using ok planned_node by (simp del: set_filter)
qed

lemma started_keys:
  assumes start: "start_ok r fingerprint nodes es parts"
  shows "keys_ok (started r fingerprint nodes es parts g)"
proof -
  let ?s = "started r fingerprint nodes es parts g"
  have "distinct nodes" "\<And>n. n \<in> set nodes \<Longrightarrow> distinct (the (map_of parts n))"
    and bound: "sum_list (map (\<lambda>n. length (the (map_of parts n))) nodes) \<le> MAX_FRONTIER_WORK_ITEMS"
    using start unfolding start_ok_def by blast+
  then have d: "distinct (concat (map (planned r parts) nodes))"
    by (intro distinct_concat_planned)
  have "length (s_states ?s) = length (concat (map (planned r parts) nodes))"
    by (metis keys_started length_map)
  also have "\<dots> = sum_list (map (\<lambda>n. length (the (map_of parts n))) nodes)"
    by (simp add: length_concat comp_def planned_def)
  finally show ?thesis
    using bound d unfolding keys_ok_def started_fields keys_started by simp
qed

lemma started_state:
  assumes start: "start_ok r fingerprint nodes es parts"
  shows "map_of (s_states (started r fingerprint nodes es parts g)) i = Some w \<longleftrightarrow>
    (\<exists>n \<in> set nodes. i \<in> set (planned r parts n) \<and>
       w = (if predecessors_in es n \<noteq> [] then BLOCKED else READY))"
proof -
  have "well_keyed (s_states (started r fingerprint nodes es parts g))"
    using started_keys [OF start] unfolding keys_ok_def by blast
  then have "map_of (s_states (started r fingerprint nodes es parts g)) i = Some w \<longleftrightarrow>
      (i, w) \<in> set (s_states (started r fingerprint nodes es parts g))"
    by simp
  then show ?thesis
    by (auto simp: started_def Let_def sort_eq_Nil)
qed

lemma started_ok:
  assumes start: "start_ok r fingerprint nodes es parts" and g: "1 \<le> g" "g \<le> MAX_METRIC_VALUE"
  shows "sched_ok (started r fingerprint nodes es parts g)" (is "sched_ok ?s")
proof -
  note state = started_state [OF start, where g = g]
  have "map_of (s_states ?s) i \<noteq> Some w" if "w \<notin> {BLOCKED, READY}" for i w
    unfolding state using that by auto
  then have "holders_ok ?s" and never: "\<And>i. map_of (s_states ?s) i \<noteq> Some SUCCEEDED"
    by (simp_all add: holders_ok_def holds_ok_def started_fields)
  moreover have "barrier_ok ?s"
  proof (rule barrier_okI)
    fix n i assume "n \<in> set (s_node_order ?s)" "i \<in> set (s_identities_by_node ?s n)"
    then have n: "n \<in> set nodes" "i \<in> set (planned r parts n)"
      by (auto simp: started_fields split: if_splits)
    have only: "m = n" if "i \<in> set (planned r parts m)" for m
      using that n(2) planned_node [of i r parts n] planned_node [of i r parts m] by simp
    have "map_of (s_states ?s) i = Some BLOCKED \<longleftrightarrow> predecessors_in es n \<noteq> []"
      unfolding state
    proof
      assume "\<exists>m \<in> set nodes. i \<in> set (planned r parts m) \<and>
        BLOCKED = (if predecessors_in es m \<noteq> [] then BLOCKED else READY)"
      then show "predecessors_in es n \<noteq> []"
        using only by (auto split: if_splits)
    qed (use n in auto)
    also have "\<dots> \<longleftrightarrow> \<not> permitted ?s n"
    proof -
      have "\<not> node_done ?s p" if p: "p \<in> set (predecessors_in es n)" for p
      proof -
        have "p \<in> set nodes" "the (map_of parts p) \<noteq> []"
          using p start by (auto simp: start_ok_def predecessors_in_edges)
        then obtain j where "j \<in> set (s_identities_by_node ?s p)"
          by (fastforce simp: started_fields planned_def sort_eq_Nil neq_Nil_conv)
        then show ?thesis
          using never [of j] unfolding node_done_def by blast
      qed
      moreover have "set (s_predecessors ?s n) = set (predecessors_in es n)"
        by (simp add: started_fields)
      moreover have "predecessors_in es n \<noteq> [] \<longleftrightarrow> (\<exists>p. p \<in> set (predecessors_in es n))"
        by (simp add: ex_in_conv)
      ultimately show ?thesis
        unfolding permitted_def by blast
    qed
    finally show "map_of (s_states ?s) i = Some BLOCKED \<longleftrightarrow> \<not> permitted ?s n" .
  qed
  ultimately show ?thesis
    using g started_plan [OF start] started_keys [OF start]
    by (simp add: sched_ok_def control_ok_def started_fields FRONTIER_CONTROL_STATES_def)
qed

lemma make_scheduler_ok:
  assumes "make_scheduler r fingerprint nodes es parts g = Inr s" and "1 \<le> g" "g \<le> MAX_METRIC_VALUE"
  shows "sched_ok s"
  using started_ok make_scheduler_Inr [OF assms(1)] assms(2,3) by simp

end
