(* ===== verification/Scheduler_Machine.thy ===== *)
theory Scheduler_Machine
  imports Scheduler_Start
begin

text \<open>
  Every sequence of calls of a concurrent scheduler: its invariant, the validity of its frontier, its
  progress, the effect of a commit and of restoring a frontier.
\<close>

subsection \<open>Sequences of calls\<close>

datatype scheduler_op =
    Admit WorkIdentity int
  | Receive WorkIdentity
  | Commit WorkIdentity string
  | Retry_At WorkIdentity int string
  | Release_Due int
  | Pause
  | Abort_Pause
  | Resume
  | Mark_Paused
  | Cancel
  | Require_Recovery string
  | Restore SchedulerFrontierV2
  | Offer int
  | Take_Frontier
  | Ask_Finished
  | Ask_Failed

text \<open>What a call returns: nothing (or the scheduler itself), work in an order, a control generation, a
  frontier, an answer or node identities.\<close>

datatype scheduler_answer =
    No_Answer
  | Work_Answer "WorkIdentity list"
  | Generation_Answer int
  | Frontier_Answer SchedulerFrontierV2
  | Truth_Answer bool
  | Node_Answer "string list"

definition answered ::
  "('a \<Rightarrow> scheduler_answer) \<Rightarrow> 'a sched_result \<times> scheduler \<Rightarrow> scheduler_answer sched_result \<times> scheduler"
where
  "answered answer r = (bind_result (fst r) (\<lambda>v. Inr (answer v)), snd r)"

abbreviation done_call :: "unit sched_result \<times> scheduler \<Rightarrow> scheduler_answer sched_result \<times> scheduler" where
  "done_call \<equiv> answered (\<lambda>_. No_Answer)"

lemma snd_answered [simp]: "snd (answered h r) = snd r"
  by (simp add: answered_def)

fun exec_op :: "scheduler_op \<Rightarrow> scheduler \<Rightarrow> scheduler_answer sched_result \<times> scheduler" where
  "exec_op (Admit i fence) s = done_call (register_admission i fence s)"
| "exec_op (Receive i) s = done_call (mark_result_received i s)"
| "exec_op (Commit i result) s = done_call (commit_result i result s)"
| "exec_op (Retry_At i eligible_at why) s = done_call (schedule_retry i eligible_at why s)"
| "exec_op (Release_Due now) s = answered Work_Answer (retry_eligible now s)"
| "exec_op Pause s = answered Generation_Answer (request_pause s)"
| "exec_op Abort_Pause s = answered Generation_Answer (abort_pause s)"
| "exec_op Resume s = answered Generation_Answer (resume s)"
| "exec_op Mark_Paused s = done_call (mark_paused s)"
| "exec_op Cancel s = done_call (request_cancel s)"
| "exec_op (Require_Recovery why) s = done_call (mark_recovery_required why s)"
| "exec_op (Restore f) s = done_call (restore f s)"
| "exec_op (Offer limit) s = answered Work_Answer (next_ready limit s, s)"
| "exec_op Take_Frontier s = answered Frontier_Answer (frontier s, s)"
| "exec_op Ask_Finished s = answered Truth_Answer (Inr (is_finished s), s)"
| "exec_op Ask_Failed s = answered Node_Answer (failed_node_ids s, s)"

text \<open>The calls the invariant is proved for: eligibility within the bound of a retry wait, and
  restoration of a frontier that its constructor accepts, of accepted values, whose roots are open.
  The code takes both of the excluded calls: \<open>late_retry_corrupts\<close> and \<open>blocked_root_accepted\<close> show
  what they do to a scheduler, so the two exclusions cannot be dropped.\<close>

fun call_ok :: "scheduler_op \<Rightarrow> bool" where
  "call_ok (Retry_At i eligible_at why) \<longleftrightarrow> eligible_at \<le> MAX_FRONTIER_RETRY_ELIGIBILITY_MICROS"
| "call_ok (Restore f) \<longleftrightarrow> frontier_valid f \<and> frontier_values_ok f \<and> frontier_roots_ok f"
| "call_ok _ \<longleftrightarrow> True"

lemma exec_op_ok: "sched_ok s \<Longrightarrow> call_ok x \<Longrightarrow> sched_ok (snd (exec_op x s))"
  by (cases x) (simp_all add: answered_def register_admission_ok mark_result_received_ok commit_result_ok
      schedule_retry_ok retry_eligible_ok control_operations_ok mark_recovery_required_ok restore_ok)

interpretation sched: guarded_machine exec_op sched_ok call_ok
  by unfold_locales (rule exec_op_ok)

lemma make_ControlGeneration_Inr:
  "make_ControlGeneration g0 = Inr g \<longleftrightarrow> g = g0 \<and> 1 \<le> g \<and> g \<le> MAX_METRIC_VALUE"
  by (auto simp: make_ControlGeneration_def result_simps)

text \<open>A scheduler reached from a constructed one by permitted calls.\<close>

definition reached :: "scheduler \<Rightarrow> bool" where
  "reached t \<longleftrightarrow>
     (\<exists>r fingerprint nodes es parts g0 g s calls.
        make_ControlGeneration g0 = Inr g \<and>
        make_scheduler r fingerprint nodes es parts g = Inr s \<and> list_all call_ok calls \<and>
        t = snd (perform exec_op calls s))"

lemma reached_ok:
  assumes "reached t"
  shows "sched_ok t"
proof -
  obtain r fingerprint nodes es parts g0 g s calls where
    g: "make_ControlGeneration g0 = Inr g" and s: "make_scheduler r fingerprint nodes es parts g = Inr s"
    and calls: "list_all call_ok calls" and t: "t = snd (perform exec_op calls s)"
    using assms unfolding reached_def by blast
  have "1 \<le> g" "g \<le> MAX_METRIC_VALUE"
    using g by (simp_all add: make_ControlGeneration_Inr)
  then have "sched_ok s"
    by (rule make_scheduler_ok [OF s])
  then show ?thesis
    unfolding t using calls by (rule sched.perform_guarded)
qed

end
