(* ===== verification/Scheduler_Restore.thy ===== *)
theory Scheduler_Restore
  imports Scheduler_Machine
begin

text \<open>
  A scheduler restored from a frontier cannot be told from the one that took the frontier: they differ
  in the insertion order of their dictionaries only, and no call depends on it.
\<close>

definition same_fields :: "scheduler \<Rightarrow> scheduler \<Rightarrow> bool" where
  "same_fields s t \<longleftrightarrow>
     s_run_id t = s_run_id s \<and> s_plan_fingerprint t = s_plan_fingerprint s \<and>
     s_node_order t = s_node_order s \<and> s_edges t = s_edges s \<and> s_predecessors t = s_predecessors s \<and>
     s_successors t = s_successors s \<and> s_identities_by_node t = s_identities_by_node s \<and>
     s_control_state t = s_control_state s \<and> s_control_generation t = s_control_generation s \<and>
     s_recovery_reason t = s_recovery_reason s \<and> map_of (s_states t) = map_of (s_states s) \<and>
     map_of (s_fences t) = map_of (s_fences s) \<and> map_of (s_retry_waits t) = map_of (s_retry_waits s)"

definition alike :: "scheduler \<Rightarrow> scheduler \<Rightarrow> bool" where
  "alike s t \<longleftrightarrow> sched_ok s \<and> sched_ok t \<and> same_fields s t"

lemma same_fields_set_state: "same_fields s t \<Longrightarrow> same_fields (set_state i v s) (set_state i v t)"
  by (simp add: same_fields_def set_state_def dict_simps)

lemma node_aggregate_same: "same_fields s t \<Longrightarrow> node_aggregate t n = node_aggregate s n"
  by (simp add: node_aggregate_def node_work_def same_fields_def)

lemma all_permit_same:
  assumes "same_fields s t"
  shows "all_permit t ps = all_permit s ps"
proof (induction ps)
  case (Cons p ps)
  then show ?case
    using node_aggregate_same [OF assms, of p] by (cases "node_aggregate s p") simp_all
qed simp

lemma release_node_same:
  assumes "same_fields s t"
  shows "same_fields (release_node n s) (release_node n t)"
proof -
  let ?step = "\<lambda>i s. if map_of (s_states s) i = Some BLOCKED then set_state i READY s else s"
  have "same_fields (fold ?step js s) (fold ?step js t)" for js
    using assms
  proof (induction js arbitrary: s t)
    case (Cons j js)
    have "map_of (s_states t) = map_of (s_states s)" using Cons.prems by (simp add: same_fields_def)
    then have "same_fields (?step j s) (?step j t)"
      using Cons.prems same_fields_set_state by simp
    from Cons.IH [OF this] show ?case by simp
  qed simp
  then show ?thesis
    using assms by (simp add: release_node_def same_fields_def)
qed

lemma release_loop_same:
  "same_fields s t \<Longrightarrow> fst (release_loop ns s) = fst (release_loop ns t) \<and>
     same_fields (snd (release_loop ns s)) (snd (release_loop ns t))"
proof (induction ns arbitrary: s t)
  case (Cons n ns)
  have "s_predecessors t = s_predecessors s" using Cons.prems by (simp add: same_fields_def)
  then have "all_permit t (s_predecessors t n) = all_permit s (s_predecessors s n)"
    using all_permit_same [OF Cons.prems] by simp
  then show ?case
    using Cons.IH Cons.prems release_node_same [OF Cons.prems, of n]
    by (cases "all_permit s (s_predecessors s n)") simp_all
qed simp

lemma plan_position_inj:
  assumes "sched_ok s"
  shows "inj_on (plan_position s) (set (keys (s_states s)))"
proof (rule inj_onI)
  have ok: "plan_ok s" "keys_ok s" using assms by (simp_all add: sched_ok_def)
  fix i j assume ij: "i \<in> set (keys (s_states s))" "j \<in> set (keys (s_states s))"
    and eq: "plan_position s i = plan_position s j"
  have node: "node_id k \<in> set (s_node_order s)" "run_id k = s_run_id s" if k: "k \<in> set (keys (s_states s))" for k
  proof -
    obtain w where "map_of (s_states s) k = Some w"
      using k unfolding in_keys_iff_map_of by auto
    note at = identity_node [OF ok this]
    show "node_id k \<in> set (s_node_order s)" by (rule at(1))
    show "run_id k = s_run_id s" using ok(1) at unfolding plan_ok_def by metis
  qed
  have "position (s_node_order s) (node_id i) = position (s_node_order s) (node_id j)"
    using eq by (simp add: plan_position_def)
  then have "node_id i = node_id j"
    using nth_position [OF node(1) [OF ij(1)]] nth_position [OF node(1) [OF ij(2)]] by metis
  moreover have "partition_key i = partition_key j"
    using eq by (simp add: plan_position_def)
  moreover have "run_id i = run_id j"
    using node(2) [OF ij(1)] node(2) [OF ij(2)] by simp
  ultimately show "i = j"
    by (intro WorkIdentity.equality) simp_all
qed

lemma sorted_same:
  fixes d e :: "(WorkIdentity, 'v) dict"
  assumes "well_keyed d" "well_keyed e" "map_of d = map_of e" and inj: "inj_on k (set (keys d))"
  shows "sort_key k (map fst (filter P d)) = sort_key k (map fst (filter P e))"
proof -
  have "set d = set e"
    using assms(1-3) by (metis map_of_inject_set)
  then have "set (map fst (filter P d)) = set (map fst (filter P e))" by simp
  moreover have "distinct (map fst (filter P d))" "distinct (map fst (filter P e))"
    using assms(1,2) by (simp_all add: distinct_map_filter)
  ultimately have "mset (map fst (filter P d)) = mset (map fst (filter P e))"
    using set_eq_iff_mset_eq_distinct by blast
  moreover have "inj_on k (set (map fst (filter P d)))"
    by (rule inj_on_subset [OF inj]) auto
  ultimately show ?thesis
    by (intro sort_key_inj_key_eq) simp_all
qed

lemma wait_keys_known:
  assumes "sched_ok s"
  shows "set (keys (s_retry_waits s)) \<subseteq> set (keys (s_states s))"
proof
  fix i assume "i \<in> set (keys (s_retry_waits s))"
  then have "map_of (s_states s) i = Some RETRY_WAIT"
    using holds(3) [OF assms, of i] unfolding in_keys_iff_map_of by (simp add: holds_ok_def)
  then show "i \<in> set (keys (s_states s))" by (rule map_of_eq_Some_in_keys)
qed

lemma next_ready_same:
  assumes "alike s t"
  shows "next_ready limit s = next_ready limit t"
proof -
  have st: "sched_ok s" "sched_ok t" "same_fields s t" using assms by (simp_all add: alike_def)
  have pos: "plan_position t = plan_position s"
    using st(3) by (simp add: plan_position_def same_fields_def fun_eq_iff)
  have "sort_key (plan_position s) (map fst (filter (\<lambda>(_, state). state = READY) (s_states s))) =
      sort_key (plan_position s) (map fst (filter (\<lambda>(_, state). state = READY) (s_states t)))"
    using st plan_position_inj [OF st(1)]
    by (intro sorted_same) (simp_all add: sched_ok_def keys_ok_def same_fields_def)
  then show ?thesis
    using st(3) by (simp add: next_ready_def pos same_fields_def)
qed

lemma retry_due_same:
  assumes "alike s t"
  shows "fst (retry_eligible now s) = fst (retry_eligible now t) \<and>
    same_fields (snd (retry_eligible now s)) (snd (retry_eligible now t))"
proof -
  have st: "sched_ok s" "sched_ok t" "same_fields s t" using assms by (simp_all add: alike_def)
  let ?step = "\<lambda>i s. (set_state i READY s)\<lparr>s_retry_waits := AList.delete i (s_retry_waits s)\<rparr>"
  have fold: "same_fields (fold ?step js s) (fold ?step js t)" for js
    using st(3)
  proof (induction js arbitrary: s t)
    case (Cons j js)
    have "same_fields (?step j s) (?step j t)"
      using Cons.prems by (simp add: same_fields_def set_state_def dict_simps)
    from Cons.IH [OF this] show ?case by simp
  qed simp
  have pos: "plan_position t = plan_position s"
    using st(3) by (simp add: plan_position_def same_fields_def fun_eq_iff)
  have "sort_key (plan_position s) (map fst (filter (\<lambda>(_, w). eligible_at_micros w \<le> now) (s_retry_waits s))) =
      sort_key (plan_position s) (map fst (filter (\<lambda>(_, w). eligible_at_micros w \<le> now) (s_retry_waits t)))"
    using st holds(2) inj_on_subset [OF plan_position_inj [OF st(1)] wait_keys_known [OF st(1)]]
    by (intro sorted_same) (simp_all add: same_fields_def)
  then show ?thesis
    using fold st(3) by (simp add: retry_eligible_def pos Let_def)
qed

lemma change_control_same:
  assumes "same_fields s t"
  shows "fst (change_control e a v s) = fst (change_control e a v t) \<and>
    same_fields (snd (change_control e a v s)) (snd (change_control e a v t))"
proof -
  have "bind_result (require_control e a t) (\<lambda>_. next_generation t) =
      bind_result (require_control e a s) (\<lambda>_. next_generation s)"
    using assms by (simp add: require_control_def next_generation_def same_fields_def)
  then show ?thesis
    using assms
    by (cases "bind_result (require_control e a s) (\<lambda>_. next_generation s)")
      (simp_all add: change_control_def same_fields_def)
qed

lemma restore_state:
  assumes "frontier_valid f"
  shows "snd (restore f s) = (if frontier_matches f s then restored f s else s)"
  using restore_eq [OF assms, of s] by (metis snd_conv)

lemma commit_same:
  assumes same: "same_fields s t"
  shows "fst (commit_result i result s) = fst (commit_result i result t) \<and>
    same_fields (snd (commit_result i result s)) (snd (commit_result i result t))"
proof -
  have m: "map_of (s_states t) = map_of (s_states s)" "s_successors t = s_successors s"
    using same by (simp_all add: same_fields_def)
  have "s_successors (committed i v u) = s_successors u" for v u
    by (simp add: committed_def set_state_def)
  then have commit: "release_successors (node_id i) (committed i v u) =
      release_loop (s_successors u (node_id i)) (committed i v u)" for v u
    by (simp add: release_successors_def)
  have "same_fields (committed i v s) (committed i v t)" for v
    using same by (simp add: committed_def same_fields_def set_state_def dict_simps)
  from release_loop_same [OF this] show ?thesis
    using same m(1)
    unfolding commit_result_def committed_def [symmetric] commit m(2)
    by (auto split: option.splits)
qed

lemma schedule_retry_same:
  assumes same: "same_fields s t"
  shows "fst (schedule_retry i e why s) = fst (schedule_retry i e why t) \<and>
    same_fields (snd (schedule_retry i e why s)) (snd (schedule_retry i e why t))"
proof -
  have m: "map_of (s_states t) = map_of (s_states s)"
    using same by (simp_all add: same_fields_def)
  have "same_fields (committed i v s) (committed i v t)" for v
    using same by (simp add: committed_def same_fields_def set_state_def dict_simps)
  then have "same_fields ((committed i v s)\<lparr>s_retry_waits := AList.update i w (s_retry_waits (committed i v s))\<rparr>)
      ((committed i v t)\<lparr>s_retry_waits := AList.update i w (s_retry_waits (committed i v t))\<rparr>)" for v w
    by (simp add: same_fields_def dict_simps)
  then show ?thesis
    using same \<open>\<And>v. same_fields (committed i v s) (committed i v t)\<close>
    unfolding schedule_retry_def committed_def [symmetric] m Let_def
    by (auto split: option.splits sum.splits)
qed

lemma restore_same:
  assumes st: "alike s t" and v: "frontier_valid f"
  shows "fst (restore f s) = fst (restore f t) \<and> same_fields (snd (restore f s)) (snd (restore f t))"
proof -
  have same: "same_fields s t" using st by (simp add: alike_def)
  have "set (keys (s_states t)) = set (keys (s_states s))"
    using same unfolding same_fields_def set_map dom_map_of_conv_image_fst [symmetric] by simp
  then have "fst (restore f s) = fst (restore f t)"
    using same by (simp add: restore_def same_fields_def split: sum.splits)
  moreover have "frontier_matches f t = frontier_matches f s"
    using same \<open>set (keys (s_states t)) = set (keys (s_states s))\<close>
    by (simp add: frontier_matches_def same_fields_def)
  then have "same_fields (snd (restore f s)) (snd (restore f t))"
    unfolding restore_state [OF v] using same by (simp add: restored_def same_fields_def)
  ultimately show ?thesis by blast
qed

subsection \<open>Frontiers of schedulers that are alike\<close>

lemma entries_same:
  fixes d e :: "(WorkIdentity, 'v) dict"
  assumes "well_keyed d" "well_keyed e" "map_of d = map_of e"
  shows "map (\<lambda>i. h i (map_of d i)) (sort_key identity_sort_key (keys d)) =
    map (\<lambda>i. h i (map_of e i)) (sort_key identity_sort_key (keys e))"
  using sorted_same [OF assms inj_on_subset [OF inj_identity_sort_key subset_UNIV], of "\<lambda>_. True"] assms(3)
  by simp

lemma frontier_of_alike:
  assumes "alike s t"
  shows "frontier_of s = frontier_of t"
proof -
  have st: "sched_ok s" "sched_ok t" "same_fields s t" using assms by (simp_all add: alike_def)
  have k: "well_keyed (s_states s)" "well_keyed (s_states t)"
    using st by (simp_all add: sched_ok_def keys_ok_def)
  have m: "map_of (s_states s) = map_of (s_states t)" "map_of (s_fences s) = map_of (s_fences t)"
    "map_of (s_retry_waits s) = map_of (s_retry_waits t)"
    using st(3) by (simp_all add: same_fields_def)
  show ?thesis
    using st(3) entries_same [OF k m(1), of "\<lambda>i v. (i, the v)"]
      entries_same [OF holds(1) [OF st(1)] holds(1) [OF st(2)] m(2), of "\<lambda>i v. (i, the v)"]
      entries_same [OF holds(2) [OF st(1)] holds(2) [OF st(2)] m(3), of "\<lambda>i v. the v"]
    by (simp add: frontier_of_def same_fields_def)
qed

lemma frontier_same:
  assumes "alike s t"
  shows "frontier s = frontier t"
  using frontier_of_alike [OF assms] unfolding frontier_def frontier_of_def [symmetric] by simp

lemma is_finished_same:
  assumes "alike s t"
  shows "is_finished s = is_finished t"
proof -
  have "well_keyed (s_states s)" "well_keyed (s_states t)" "map_of (s_states s) = map_of (s_states t)"
    using assms by (simp_all add: alike_def sched_ok_def keys_ok_def same_fields_def)
  then have "set (s_states s) = set (s_states t)"
    by (metis map_of_inject_set)
  then show ?thesis
    by (simp add: is_finished_def list_all_iff)
qed

lemma failed_node_ids_same: "same_fields s t \<Longrightarrow> failed_node_ids s = failed_node_ids t"
  using node_aggregate_same [of s t] by (simp add: failed_node_ids_def same_fields_def)

subsection \<open>Calls of schedulers that are alike\<close>

lemma answered_same:
  "fst r = fst r' \<and> same_fields (snd r) (snd r') \<Longrightarrow>
     fst (answered h r) = fst (answered h r') \<and> same_fields (snd (answered h r)) (snd (answered h r'))"
  by (simp add: answered_def)

lemma exec_op_same:
  assumes st: "alike s t" and x: "call_ok x"
  shows "fst (exec_op x s) = fst (exec_op x t) \<and> same_fields (snd (exec_op x s)) (snd (exec_op x t))"
proof -
  have same: "same_fields s t" using st by (simp add: alike_def)
  have m: "map_of (s_states t) = map_of (s_states s)" "s_control_state t = s_control_state s"
    using same by (simp_all add: same_fields_def)
  show ?thesis
  proof (cases x)
    case (Admit i fence)
    show ?thesis
      using same m unfolding Admit exec_op.simps
      by (intro answered_same) (auto simp: register_admission_def same_fields_def set_state_def dict_simps
          split: option.splits)
  next
    case (Receive i)
    show ?thesis
      using same same_fields_set_state m unfolding Receive exec_op.simps
      by (intro answered_same) (auto simp: mark_result_received_def split: option.splits)
  next
    case (Commit i result)
    then show ?thesis using answered_same [OF commit_same [OF same]] by simp
  next
    case (Retry_At i e why)
    then show ?thesis using answered_same [OF schedule_retry_same [OF same]] by simp
  next
    case (Release_Due now)
    then show ?thesis using answered_same [OF retry_due_same [OF st]] by simp
  next
    case (Restore f)
    then show ?thesis using answered_same [OF restore_same [OF st]] x by simp
  next
    case (Offer limit)
    then show ?thesis using same next_ready_same [OF st, of limit] by (simp add: answered_def)
  next
    case Take_Frontier
    then show ?thesis using same frontier_same [OF st] by (simp add: answered_def)
  next
    case Ask_Finished
    then show ?thesis using same is_finished_same [OF st] by (simp add: answered_def)
  next
    case Ask_Failed
    then show ?thesis using same failed_node_ids_same [OF same] by (simp add: answered_def)
  qed (use same m change_control_same [OF same] in
      \<open>auto simp: answered_def request_pause_def abort_pause_def resume_def mark_paused_def
        request_cancel_def mark_recovery_required_def require_control_def require_def same_fields_def
        split: sum.splits\<close>)
qed

interpretation sched_alike: bisimulation exec_op alike call_ok
  by unfold_locales (auto simp: alike_def exec_op_same exec_op_ok dest: exec_op_same [unfolded alike_def])

subsection \<open>What no call changes\<close>

definition kept :: "scheduler \<Rightarrow> scheduler \<Rightarrow> bool" where
  "kept s t \<longleftrightarrow>
     s_run_id t = s_run_id s \<and> s_plan_fingerprint t = s_plan_fingerprint s \<and>
     s_node_order t = s_node_order s \<and> s_edges t = s_edges s \<and> s_predecessors t = s_predecessors s \<and>
     s_successors t = s_successors s \<and> s_identities_by_node t = s_identities_by_node s \<and>
     set (keys (s_states t)) = set (keys (s_states s))"

lemma kept_trans: "kept s t \<Longrightarrow> kept t u \<Longrightarrow> kept s u"
  by (simp add: kept_def)

lemma same_but_states_kept: "same_but_states s t \<Longrightarrow> kept s t"
  by (simp add: kept_def same_but_states_def same_plan_def)

lemma set_state_kept:
  "map_of (s_states s) i = Some w \<Longrightarrow> kept s ((set_state i v s)\<lparr>s_fences := F, s_retry_waits := W\<rparr>)"
  using set_keys_update [of i v "s_states s"] map_of_eq_Some_in_keys [of "s_states s" i w]
  by (auto simp: kept_def set_state_def simp del: set_map)

lemma release_loop_kept: "kept s (snd (release_loop ns s))"
proof (induction ns arbitrary: s)
  case (Cons n ns)
  have "kept s (release_node n s)"
    by (rule same_but_states_kept [OF release_node_effect(1)])
  then show ?case
    using Cons.IH kept_trans [of s "release_node n s"]
    by (auto split: sum.splits simp: kept_def)
qed (simp add: kept_def)

lemma retry_fold_kept:
  "set js \<subseteq> set (keys (s_states s)) \<Longrightarrow>
     kept s (fold (\<lambda>i s. (set_state i READY s)
       \<lparr>s_retry_waits := AList.delete i (s_retry_waits s)\<rparr>) js s)"
proof (induction js arbitrary: s)
  case (Cons j js)
  let ?t = "(set_state j READY s)\<lparr>s_retry_waits := AList.delete j (s_retry_waits s)\<rparr>"
  obtain w where w: "map_of (s_states s) j = Some w"
    using Cons.prems in_keys_iff_map_of [of j "s_states s"] by auto
  have "kept s ?t"
    using set_state_kept [OF w, where v = READY and F = "s_fences s"] by (simp add: set_state_def)
  moreover from this have "set js \<subseteq> set (keys (s_states ?t))"
    using Cons.prems unfolding kept_def by auto
  ultimately show ?case
    using Cons.IH [of ?t] kept_trans [of s ?t] by simp
qed (simp add: kept_def)

lemma retry_eligible_kept:
  assumes "sched_ok s"
  shows "kept s (snd (retry_eligible now s))"
proof (cases "now < 0")
  case False
  let ?due = "map fst (filter (\<lambda>(_, wait). eligible_at_micros wait \<le> now) (s_retry_waits s))"
  have "set (sort_key (plan_position s) ?due) \<subseteq> set (keys (s_states s))"
    using wait_keys_known [OF assms] by auto
  from retry_fold_kept [OF this] show ?thesis
    using False by (simp add: retry_eligible_def Let_def)
qed (simp add: retry_eligible_def kept_def)

lemma commit_result_kept: "kept s (snd (commit_result i result s))"
proof (cases "\<exists>w v. map_of (s_states s) i = Some w \<and> in_flight w \<and>
    work_state_of result = Some v \<and> is_terminal v")
  case True
  then obtain w v where i: "map_of (s_states s) i = Some w" "in_flight w"
    and v: "work_state_of result = Some v" "is_terminal v" by blast
  have "commit_result i result s = release_successors (node_id i) (committed i v s)"
    using i v by (simp add: commit_result_def committed_def)
  moreover have "kept s (committed i v s)"
    using set_state_kept [OF i(1), where v = v and F = "AList.delete i (s_fences s)" and W = "s_retry_waits s"]
    by (simp add: committed_def set_state_def)
  ultimately show ?thesis
    using release_loop_kept kept_trans by (simp add: release_successors_def)
next
  case False
  then have "snd (commit_result i result s) = s"
    by (auto simp: commit_result_def split: option.splits)
  then show ?thesis by (simp add: kept_def)
qed

lemma restore_kept: "kept s (snd (restore f s))"
  by (auto simp: restore_def kept_def result_simps split: sum.splits)

lemma exec_op_kept:
  assumes "sched_ok s"
  shows "kept s (snd (exec_op x s))"
proof (cases x)
  case (Admit i fence)
  show ?thesis
    using set_state_kept [where s = s and i = i and v = ADMITTED and F = "AList.update i fence (s_fences s)" and
        W = "s_retry_waits s"]
    by (auto simp: Admit answered_def register_admission_def set_state_def kept_def split: option.splits)
next
  case (Receive i)
  show ?thesis
    using set_state_kept [where s = s and i = i and v = AWAITING_COMMIT and F = "s_fences s" and W = "s_retry_waits s"]
    by (auto simp: Receive answered_def mark_result_received_def set_state_def kept_def split: option.splits)
next
  case (Retry_At i e why)
  show ?thesis
    using set_state_kept [where s = s and i = i and v = RETRY_WAIT and F = "AList.delete i (s_fences s)"]
    by (auto simp: Retry_At answered_def schedule_retry_def set_state_def kept_def Let_def split: option.splits sum.splits)
qed (simp_all add: answered_def commit_result_kept restore_kept retry_eligible_kept assms,
    auto simp: request_pause_def abort_pause_def resume_def change_control_def mark_paused_def
      request_cancel_def mark_recovery_required_def kept_def split: sum.splits)

interpretation sched_kept: guarded_machine exec_op "\<lambda>t. sched_ok t \<and> kept s t" call_ok for s
  using exec_op_ok exec_op_kept kept_trans by unfold_locales blast

lemma map_pair_zip: "map (\<lambda>w. (h w, w)) ws = zip (map h ws) ws"
  by (induction ws) simp_all

lemma frontier_waits:
  assumes "holders_ok t"
  shows "map (\<lambda>w. (identity w, w)) (retry_waits (frontier_of t)) =
    map (\<lambda>i. (i, the (map_of (s_retry_waits t) i))) (sort_key identity_sort_key (keys (s_retry_waits t)))"
    (is "_ = map ?entry ?L")
proof -
  have "retry_waits (frontier_of t) = map (\<lambda>i. the (map_of (s_retry_waits t) i)) ?L"
    by (simp add: frontier_of_def)
  then have "map (\<lambda>w. (identity w, w)) (retry_waits (frontier_of t)) =
      zip ?L (map (\<lambda>i. the (map_of (s_retry_waits t) i)) ?L)"
    unfolding map_pair_zip wait_identities [OF assms] by simp
  then show ?thesis
    by (simp add: zip_map2 zip_same_conv_map)
qed

lemma frontier_of_values_ok:
  assumes t: "sched_ok t"
  shows "frontier_values_ok (frontier_of t)"
proof -
  have "wait_ok (identity w) w" if w: "w \<in> set (retry_waits (frontier_of t))" for w
  proof -
    obtain i where "i \<in> set (keys (s_retry_waits t))" "w = the (map_of (s_retry_waits t) i)"
      using w by (auto simp: frontier_of_def)
    then have "map_of (s_retry_waits t) i = Some w"
      unfolding in_keys_iff_map_of by auto
    then have "wait_ok i w"
      using holds(3) [OF t, of i] by (simp add: holds_ok_def)
    then show ?thesis by (simp add: wait_ok_def)
  qed
  then show ?thesis
    using t by (simp add: frontier_values_ok_def sched_ok_def control_ok_def) (simp add: frontier_of_def)
qed

lemma frontier_of_roots_ok:
  assumes t: "sched_ok t"
  shows "frontier_roots_ok (frontier_of t)"
proof -
  have ok: "plan_ok t" "keys_ok t" "barrier_ok t" using t by (simp_all add: sched_ok_def)
  have k: "well_keyed (s_states t)" using ok(2) by (simp add: keys_ok_def)
  have "predecessors_in (s_edges t) (node_id i) \<noteq> []" if "(i, BLOCKED) \<in> set (s_states t)" for i
  proof -
    have i: "map_of (s_states t) i = Some BLOCKED" using k that by simp
    then have "\<not> permitted t (node_id i)"
      using barrier_okD [OF ok(3) identity_node [OF ok(1,2) i]] by simp
    then have "set (s_predecessors t (node_id i)) \<noteq> {}" by (auto simp: permitted_def)
    then show ?thesis
      using predecessors_in_set [OF ok(1), of "node_id i"] by auto
  qed
  moreover have "set (work_states (frontier_of t)) = set (s_states t)" "edges (frontier_of t) = s_edges t"
    using entries_set [OF k] by (simp_all add: frontier_of_def)
  ultimately show ?thesis
    unfolding frontier_roots_ok_def by auto
qed

lemma restored_alike:
  assumes s: "sched_ok s" and t: "sched_ok t" and k: "kept s t"
  shows "restore (frontier_of t) s = (Inr (), restored (frontier_of t) s)"
    and "alike t (restored (frontier_of t) s)"
proof -
  let ?f = "frontier_of t" and ?u = "restored (frontier_of t) s"
  have v: "frontier_valid ?f" by (rule frontier_of_valid [OF t])
  have keyed: "well_keyed (s_states t)" and h: "holders_ok t"
    using t by (simp_all add: sched_ok_def keys_ok_def)
  have "set (keys (work_states ?f)) = set (keys (s_states t))"
    by (simp add: frontier_of_def comp_def image_image)
  then have m: "frontier_matches ?f s"
    using k by (simp add: frontier_matches_def kept_def) (simp add: frontier_of_def)
  show restore: "restore ?f s = (Inr (), ?u)"
    using conjunct1 [OF restore_eq [OF v, of s]] m by (simp only: if_True simp_thms)
  have "map_of (work_states ?f) = map_of (s_states t)"
    "map_of (lease_fences ?f) = map_of (s_fences t)"
    "map_of (map (\<lambda>w. (identity w, w)) (retry_waits ?f)) = map_of (s_retry_waits t)"
    using entries_map_of [OF keyed] entries_map_of [OF holds(1) [OF t]] entries_map_of [OF holds(2) [OF t]]
    unfolding frontier_waits [OF h] by (simp_all add: frontier_of_def)
  then have "same_fields t ?u"
    using k by (simp add: same_fields_def restored_def kept_def) (simp add: frontier_of_def)
  moreover have "sched_ok ?u"
    using restore_ok [OF s v frontier_of_values_ok [OF t] frontier_of_roots_ok [OF t]] restore by simp
  ultimately show "alike t ?u"
    using t by (simp add: alike_def)
qed

end
