(* ===== verification/Scheduler_Properties.thy ===== *)
theory Scheduler_Properties
  imports Scheduler_Restore
begin

text \<open>
  What the concurrent scheduler guarantees, and what modelling it showed, on its own and on a small
  plan: node \<open>a\<close> of two partitions before node \<open>b\<close> of one.
\<close>

subsection \<open>A small plan\<close>

definition example_fingerprint :: string where "example_fingerprint = replicate 64 CHR ''0''"

definition example_start :: scheduler where
  "example_start = projr (make_scheduler ''run'' example_fingerprint [''a'', ''b''] [(''a'', ''b'')]
     [(''a'', [''q'', ''p'']), (''b'', [''r''])] 1)"

definition work_at :: "string \<Rightarrow> string \<Rightarrow> WorkIdentity" where
  "work_at n p = \<lparr>run_id = ''run'', node_id = n, partition_key = p\<rparr>"

definition after_calls :: "scheduler_op list \<Rightarrow> scheduler" where
  "after_calls calls = snd (perform exec_op calls example_start)"

lemma example_start_made:
  "make_scheduler ''run'' example_fingerprint [''a'', ''b''] [(''a'', ''b'')]
     [(''a'', [''q'', ''p'']), (''b'', [''r''])] 1 = Inr example_start"
proof -
  have "id_text ''run''" "id_text ''a''" "id_text ''b''" "id_text ''p''" "id_text ''q''" "id_text ''r''"
    by code_simp+
  moreover have "is_fingerprint example_fingerprint"
    by (simp add: is_fingerprint_def example_fingerprint_def is_digit_def list_all_iff)
  ultimately have "start_ok ''run'' example_fingerprint [''a'', ''b''] [(''a'', ''b'')]
      [(''a'', [''q'', ''p'']), (''b'', [''r''])]"
    by (simp add: start_ok_def acyclic_def trancl_insert MAX_FRONTIER_WORK_ITEMS_def)
  then show ?thesis
    unfolding example_start_def by (simp add: make_scheduler_started)
qed

lemma example_start_value [code]:
  "example_start =
     \<lparr>s_run_id = ''run'', s_plan_fingerprint = example_fingerprint, s_node_order = [''a'', ''b''],
      s_edges = [(''a'', ''b'')], s_predecessors = (\<lambda>n. if n = ''b'' then [''a''] else []),
      s_successors = (\<lambda>n. if n = ''a'' then [''b''] else []),
      s_identities_by_node = (\<lambda>n. if n = ''a'' then [work_at ''a'' ''p'', work_at ''a'' ''q'']
        else if n = ''b'' then [work_at ''b'' ''r''] else []),
      s_states = [(work_at ''a'' ''p'', READY), (work_at ''a'' ''q'', READY), (work_at ''b'' ''r'', BLOCKED)],
      s_fences = [], s_retry_waits = [], s_control_generation = 1, s_control_state = RUNNING,
      s_recovery_reason = None\<rparr>"
proof -
  have "sort [''q'', ''p''] = [''p'', ''q'']" by code_simp
  then have "planned ''run'' [(''a'', [''q'', ''p'']), (''b'', [''r''])] ''a'' = [work_at ''a'' ''p'', work_at ''a'' ''q'']"
    "planned ''run'' [(''a'', [''q'', ''p'']), (''b'', [''r''])] ''b'' = [work_at ''b'' ''r'']"
    by (simp_all add: planned_def identity_for_def work_at_def)
  then have ids: "(\<lambda>n. if n \<in> set [''a'', ''b''] then
        planned ''run'' [(''a'', [''q'', ''p'']), (''b'', [''r''])] n else []) =
      (\<lambda>n. if n = ''a'' then [work_at ''a'' ''p'', work_at ''a'' ''q'']
        else if n = ''b'' then [work_at ''b'' ''r''] else [])"
    by (simp add: fun_eq_iff)
  have preds: "(\<lambda>n. sort (remdups (predecessors_in [(''a'', ''b'')] n))) =
      (\<lambda>n. if n = ''b'' then [''a''] else [])"
    and succs: "(\<lambda>n. filter (\<lambda>c. n \<in> set (predecessors_in [(''a'', ''b'')] c)) [''a'', ''b'']) =
      (\<lambda>n. if n = ''a'' then [''b''] else [])"
    by (simp_all add: fun_eq_iff predecessors_in_def)
  have "example_start = started ''run'' example_fingerprint [''a'', ''b''] [(''a'', ''b'')]
     [(''a'', [''q'', ''p'']), (''b'', [''r''])] 1"
    by (rule make_scheduler_Inr(2) [OF example_start_made])
  then show ?thesis
    unfolding started_def Let_def preds succs ids
    using \<open>planned ''run'' _ ''a'' = _\<close> \<open>planned ''run'' _ ''b'' = _\<close> by simp
qed

lemmas scheduler_run_simps =
  register_admission_def commit_result_def set_state_def release_successors_def release_node_def
  node_aggregate_def node_work_def aggregate_built permits_aggregate in_flight_def is_terminal_def
  MAX_FRONTIER_LEASE_FENCE_def MAX_FRONTIER_WORK_ITEMS_def

lemma example_reached:
  assumes "list_all call_ok calls"
  shows "reached (after_calls calls)"
proof -
  have "make_ControlGeneration 1 = Inr 1" by code_simp
  then show ?thesis
    unfolding reached_def after_calls_def using example_start_made assms by blast
qed

subsection \<open>Invariant\<close>

text \<open>
  C1. In every state a concurrent scheduler reaches from its construction by calls that schedule no
  retry beyond 2^53 - 1 microseconds and restore no frontier that blocks a node without predecessors
  (\<open>late_retry_corrupts\<close> and \<open>blocked_root_accepted\<close> show what those two do), work holds a lease fence exactly while it is in
  flight (admitted or awaiting commit), a retry wait exactly while it waits for retry, and is blocked
  exactly while some node its node depends on has work that has not succeeded.
\<close>

theorem scheduler_invariant:
  assumes "reached t" and "map_of (s_states t) i = Some w"
  shows "(map_of (s_fences t) i \<noteq> None \<longleftrightarrow> w = ADMITTED \<or> w = AWAITING_COMMIT) \<and>
    (map_of (s_retry_waits t) i \<noteq> None \<longleftrightarrow> w = RETRY_WAIT) \<and>
    (w = BLOCKED \<longleftrightarrow> (\<exists>p \<in> set (s_predecessors t (node_id i)). \<exists>j \<in> set (s_identities_by_node t p).
       map_of (s_states t) j \<noteq> Some SUCCEEDED))"
proof -
  have ok: "sched_ok t" by (rule reached_ok [OF assms(1)])
  then have s: "plan_ok t" "keys_ok t" "barrier_ok t" by (simp_all add: sched_ok_def)
  have "w = BLOCKED \<longleftrightarrow> \<not> permitted t (node_id i)"
    using barrier_okD [OF s(3) identity_node [OF s(1,2) assms(2)]] assms(2) by simp
  moreover have "holds_ok i (Some w) (map_of (s_fences t) i) (map_of (s_retry_waits t) i)"
    using holds(3) [OF ok, of i] assms(2) by simp
  ultimately show ?thesis
    unfolding holds_ok_def permitted_def node_done_def by simp
qed

theorem scheduler_invariant_witness:
  "map_of (s_states (after_calls [Admit (work_at ''a'' ''p'') 7])) (work_at ''b'' ''r'') = Some BLOCKED \<and>
   (\<exists>p \<in> set (s_predecessors (after_calls [Admit (work_at ''a'' ''p'') 7]) (node_id (work_at ''b'' ''r''))).
      \<exists>j \<in> set (s_identities_by_node (after_calls [Admit (work_at ''a'' ''p'') 7]) p).
        map_of (s_states (after_calls [Admit (work_at ''a'' ''p'') 7])) j \<noteq> Some SUCCEEDED)"
proof -
  have r: "reached (after_calls [Admit (work_at ''a'' ''p'') 7])" by (rule example_reached) simp
  have s: "map_of (s_states (after_calls [Admit (work_at ''a'' ''p'') 7])) (work_at ''b'' ''r'') = Some BLOCKED"
    by code_simp
  show ?thesis
    using s iffD1 [OF conjunct2 [OF conjunct2 [OF scheduler_invariant [OF r s]]] refl] by (rule conjI)
qed

subsection \<open>Frontiers\<close>

text \<open>
  The frontier of every state a concurrent scheduler reaches passes all checks of the frontier's
  constructor: taking the snapshot never raises.
\<close>

theorem scheduler_frontier_valid:
  assumes "reached t"
  shows "frontier t = Inr (frontier_of t)"
  using frontier_of_valid [OF reached_ok [OF assms]] by (simp add: frontier_eq)

theorem scheduler_frontier_valid_witness:
  "frontier (after_calls [Admit (work_at ''a'' ''p'') 7, Retry_At (work_at ''a'' ''p'') 50 ''busy'']) =
     Inr (frontier_of (after_calls [Admit (work_at ''a'' ''p'') 7, Retry_At (work_at ''a'' ''p'') 50 ''busy'']))"
  by (rule scheduler_frontier_valid, rule example_reached)
    (simp add: MAX_FRONTIER_RETRY_ELIGIBILITY_MICROS_def)

text \<open>
  Restoring a valid frontier into a scheduler of the same plan succeeds, and the frontier of the
  restored scheduler is that frontier.
\<close>

theorem restore_round_trip:
  assumes "make_frontier f = Inr f" and "frontier_run_id f = s_run_id s"
    and "plan_fingerprint f = s_plan_fingerprint s" and "node_order f = s_node_order s"
    and "edges f = s_edges s" and "set (keys (work_states f)) = set (keys (s_states s))"
  shows "fst (restore f s) = Inr () \<and> frontier (snd (restore f s)) = Inr f"
proof -
  have v: "frontier_valid f" using assms(1) by (simp add: make_frontier_eq)
  have m: "frontier_matches f s" using assms(2-6) by (simp add: frontier_matches_def)
  have "fst (restore f s) = Inr ()"
    using restore_eq [OF v, of s] m by blast
  moreover have "frontier (snd (restore f s)) = Inr f"
    unfolding restore_state [OF v] using m frontier_of_restored [OF v m] v by (simp add: frontier_eq)
  ultimately show ?thesis by blast
qed

definition example_frontier :: SchedulerFrontierV2 where
  "example_frontier = frontier_of (after_calls [Admit (work_at ''a'' ''p'') 7])"

theorem restore_round_trip_witness:
  "fst (restore example_frontier example_start) = Inr () \<and>
   frontier (snd (restore example_frontier example_start)) = Inr example_frontier"
proof (rule restore_round_trip)
  have "reached (after_calls [Admit (work_at ''a'' ''p'') 7])" by (rule example_reached) simp
  from frontier_of_valid [OF reached_ok [OF this]]
  show "make_frontier example_frontier = Inr example_frontier"
    by (simp add: make_frontier_eq example_frontier_def)
  have "kept example_start (after_calls [Admit (work_at ''a'' ''p'') 7])"
    using example_reached [of "[]"] exec_op_kept [OF reached_ok, of example_start "Admit (work_at ''a'' ''p'') 7"]
    by (simp add: after_calls_def)
  then show "frontier_run_id example_frontier = s_run_id example_start"
    "plan_fingerprint example_frontier = s_plan_fingerprint example_start"
    "node_order example_frontier = s_node_order example_start"
    "edges example_frontier = s_edges example_start"
    "set (keys (work_states example_frontier)) = set (keys (s_states example_start))"
    by (simp_all add: example_frontier_def frontier_of_def kept_def comp_def image_image)
qed

text \<open>
  C13. Recovery is exact: a scheduler rebuilt from the same plan and restored from the frontier of a
  scheduler answers every later sequence of calls as the scheduler that was never interrupted: every
  call returns the same value (the work offered or released in the same order, the same generation,
  frontier, finished flag and failed nodes) or raises the same exception, and afterwards both take the
  same frontier and offer the same work.  The calls before and after are permitted ones: no retry is
  scheduled beyond 2^53 - 1 microseconds, and no frontier that blocks a node without predecessors is
  restored.
\<close>

theorem recovery_is_exact:
  assumes "make_ControlGeneration g0 = Inr g"
    and "make_scheduler r fingerprint nodes es parts g = Inr s"
    and "list_all call_ok before" and "list_all call_ok after"
  shows "\<exists>f u. frontier (snd (perform exec_op before s)) = Inr f \<and> restore f s = (Inr (), u) \<and>
    fst (perform exec_op after u) = fst (perform exec_op after (snd (perform exec_op before s))) \<and>
    frontier (snd (perform exec_op after u)) = frontier (snd (perform exec_op (before @ after) s)) \<and>
    next_ready limit (snd (perform exec_op after u)) =
      next_ready limit (snd (perform exec_op (before @ after) s))"
proof -
  let ?t = "snd (perform exec_op before s)"
  have s: "sched_ok s"
    using assms(1,2) make_scheduler_ok by (auto simp: make_ControlGeneration_Inr)
  then have "sched_ok ?t \<and> kept s ?t"
    by (intro sched_kept.perform_guarded [of s, OF _ assms(3)]) (simp add: kept_def)
  then have t: "sched_ok ?t" "kept s ?t" by simp_all
  let ?f = "frontier_of ?t" and ?u = "restored (frontier_of ?t) s"
  note r = restored_alike [OF s t]
  have later: "fst (perform exec_op after ?t) = fst (perform exec_op after ?u)"
    "alike (snd (perform exec_op after ?t)) (snd (perform exec_op after ?u))"
    using sched_alike.perform_alike [OF r(2) assms(4)] by blast+
  have whole: "snd (perform exec_op (before @ after) s) = snd (perform exec_op after ?t)"
    by (simp add: perform_append case_prod_beta Let_def)
  have "frontier ?t = Inr ?f"
    using frontier_of_valid [OF t(1)] by (simp add: frontier_eq)
  then show ?thesis
    using r(1) later frontier_same [OF later(2)] next_ready_same [OF later(2), of limit] unfolding whole by auto
qed

definition example_before :: "scheduler_op list" where
  "example_before = [Admit (work_at ''a'' ''q'') 7, Admit (work_at ''a'' ''p'') 8,
     Retry_At (work_at ''a'' ''q'') 5 ''busy'', Retry_At (work_at ''a'' ''p'') 6 ''busy'']"

theorem recovery_is_exact_witness:
  "fst (perform exec_op [Release_Due 6] (after_calls example_before)) =
     [Inr (Work_Answer [work_at ''a'' ''p'', work_at ''a'' ''q''])] \<and>
   (\<exists>f u. frontier (snd (perform exec_op example_before example_start)) = Inr f \<and>
    restore f example_start = (Inr (), u) \<and>
    fst (perform exec_op [Release_Due 6] u) =
      fst (perform exec_op [Release_Due 6] (snd (perform exec_op example_before example_start))) \<and>
    frontier (snd (perform exec_op [Release_Due 6] u)) =
      frontier (snd (perform exec_op (example_before @ [Release_Due 6]) example_start)) \<and>
    next_ready 5 (snd (perform exec_op [Release_Due 6] u)) =
      next_ready 5 (snd (perform exec_op (example_before @ [Release_Due 6]) example_start)))"
proof
  show "fst (perform exec_op [Release_Due 6] (after_calls example_before)) =
     [Inr (Work_Answer [work_at ''a'' ''p'', work_at ''a'' ''q''])]"
    by code_simp
  show "\<exists>f u. frontier (snd (perform exec_op example_before example_start)) = Inr f \<and>
    restore f example_start = (Inr (), u) \<and>
    fst (perform exec_op [Release_Due 6] u) =
      fst (perform exec_op [Release_Due 6] (snd (perform exec_op example_before example_start))) \<and>
    frontier (snd (perform exec_op [Release_Due 6] u)) =
      frontier (snd (perform exec_op (example_before @ [Release_Due 6]) example_start)) \<and>
    next_ready 5 (snd (perform exec_op [Release_Due 6] u)) =
      next_ready 5 (snd (perform exec_op (example_before @ [Release_Due 6]) example_start))"
  proof (rule recovery_is_exact [OF _ example_start_made])
    show "make_ControlGeneration 1 = Inr 1" by code_simp
  qed (simp_all add: example_before_def MAX_FRONTIER_RETRY_ELIGIBILITY_MICROS_def)
qed

subsection \<open>Progress\<close>

lemma failed_nodes:
  assumes "plan_ok s" and "keys_ok s"
  shows "failed_node_ids s =
    Inr (filter (\<lambda>n. is_blocked_terminal (aggregate_of n (node_work s n))) (s_node_order s))"
proof -
  have "map_result (\<lambda>n. bind_result (node_aggregate s n) (\<lambda>a. Inr (n, a))) (s_node_order s) =
      Inr (map (\<lambda>n. (n, aggregate_of n (node_work s n))) (s_node_order s))"
    by (rule map_result_map) (simp add: node_aggregate_done(1) [OF assms])
  then show ?thesis
    by (simp add: failed_node_ids_def filter_map comp_def)
qed

lemma blocked_terminal_aggregate:
  "is_blocked_terminal (aggregate_of n ws) \<longleftrightarrow> (\<exists>w \<in> set ws. w \<in> {QUARANTINED, FAILED, CANCELLED})"
proof -
  have "0 < count_list ws x \<longleftrightarrow> x \<in> set ws" for x
    by (metis count_list_0_iff neq0_conv)
  then show ?thesis
    by (auto simp: is_blocked_terminal_def aggregate_of_def)
qed

lemma quiet_states:
  assumes ok: "sched_ok s" and quiet: "s_fences s = []" "s_retry_waits s = []"
    and failed: "failed_node_ids s = Inr []" and i: "map_of (s_states s) i = Some w"
  shows "w \<in> {BLOCKED, READY, SUCCEEDED}"
proof -
  have s: "plan_ok s" "keys_ok s" using ok by (simp_all add: sched_ok_def)
  note n = identity_node [OF s i]
  have "w \<in> set (node_work s (node_id i))"
    using n(2) i by (force simp: node_work_def)
  then have "w \<notin> {QUARANTINED, FAILED, CANCELLED}"
    using failed n(1) unfolding failed_nodes [OF s] by (auto simp: filter_empty_conv blocked_terminal_aggregate)
  moreover have "holds_ok i (Some w) None None"
    using holds(3) [OF ok, of i] i quiet by simp
  ultimately show ?thesis
    by (cases w) (simp_all add: holds_ok_def)
qed

text \<open>Among nodes that are not complete one has all its predecessors complete.\<close>

lemma least_incomplete:
  assumes plan: "plan_ok s" and n: "n \<in> set (s_node_order s)" "\<not> node_done s n"
  obtains m where "m \<in> set (s_node_order s)" "\<not> node_done s m" "permitted s m"
proof -
  have preds: "set (s_predecessors s m) = {a. (a, m) \<in> set (s_edges s)}" for m
    using plan by (simp add: plan_ok_def)
  have "wf (set (s_edges s))"
    using plan by (intro finite_acyclic_wf) (simp_all add: plan_ok_def)
  moreover have "n \<in> {n \<in> set (s_node_order s). \<not> node_done s n}" using n by simp
  ultimately obtain m where m: "m \<in> {n \<in> set (s_node_order s). \<not> node_done s n}"
    "\<And>p. (p, m) \<in> set (s_edges s) \<Longrightarrow> p \<notin> {n \<in> set (s_node_order s). \<not> node_done s n}"
    by (rule wfE_min) (rule that)
  moreover have "p \<in> set (s_node_order s)" if "(p, m) \<in> set (s_edges s)" for p
    using plan that by (auto simp: plan_ok_def)
  ultimately show ?thesis
    using that [of m] unfolding permitted_def preds by blast
qed

lemma ready_exists:
  assumes ok: "sched_ok s" and quiet: "s_fences s = []" "s_retry_waits s = []"
    and failed: "failed_node_ids s = Inr []" and unfinished: "\<not> is_finished s"
  shows "\<exists>i. map_of (s_states s) i = Some READY"
proof (rule ccontr)
  assume none: "\<nexists>i. map_of (s_states s) i = Some READY"
  have s: "plan_ok s" "keys_ok s" "barrier_ok s" "well_keyed (s_states s)"
    using ok by (simp_all add: sched_ok_def keys_ok_def)
  obtain i w where i: "map_of (s_states s) i = Some w" "\<not> is_terminal w"
    using unfinished s(4) by (auto simp: is_finished_def list_all_iff)
  then have "w = BLOCKED"
    using quiet_states [OF ok quiet failed i(1)] none by (auto simp: is_terminal_def)
  note at = identity_node [OF s(1,2) i(1)]
  have "\<not> node_done s (node_id i)"
    using at(2) i by (auto simp: node_done_def is_terminal_def intro!: bexI [of _ i])
  then obtain m where m: "m \<in> set (s_node_order s)" "\<not> node_done s m" "permitted s m"
    using least_incomplete [OF s(1) at(1)] by blast
  then obtain j where j: "j \<in> set (s_identities_by_node s m)" "map_of (s_states s) j \<noteq> Some SUCCEEDED"
    unfolding node_done_def by blast
  obtain v where v: "map_of (s_states s) j = Some v"
    using known_state [OF s(2) m(1) j(1)] by blast
  have "v \<noteq> BLOCKED"
    using barrier_okD [OF s(3) m(1) j(1)] m(3) v by simp
  then show False
    using quiet_states [OF ok quiet failed v] none v j(2) by auto
qed

text \<open>
  C12. The scheduler does not stall: reached by calls that schedule no retry beyond 2^53 - 1
  microseconds and restore no frontier that blocks a node without predecessors (after such a restore it
  does stall: \<open>blocked_root_accepted\<close>), while it runs, if nothing is in flight, nothing waits for retry, no node
  has a failed, quarantined or cancelled partition and work remains, then some work is ready.
\<close>

theorem scheduler_never_stalls:
  assumes "reached t" and "s_control_state t = RUNNING" and "s_fences t = []" and "s_retry_waits t = []"
    and "failed_node_ids t = Inr []" and "\<not> is_finished t"
  shows "\<exists>i. next_ready 1 t = Inr [i]"
proof -
  have ok: "sched_ok t" by (rule reached_ok [OF assms(1)])
  then have k: "well_keyed (s_states t)" by (simp add: sched_ok_def keys_ok_def)
  let ?ready = "map fst (filter (\<lambda>(_, state). state = READY) (s_states t))"
  obtain i where "map_of (s_states t) i = Some READY"
    using ready_exists [OF ok assms(3-6)] by blast
  then have "(i, READY) \<in> set (s_states t)" using k by simp
  then have "?ready \<noteq> []" by (auto simp: filter_empty_conv)
  then have "sort_key (plan_position t) ?ready \<noteq> []"
    by (metis length_0_conv length_sort)
  then show ?thesis
    using assms(2) by (auto simp: next_ready_def neq_Nil_conv)
qed

definition example_half_done :: scheduler where
  "example_half_done = after_calls
     [Admit (work_at ''a'' ''p'') 1, Commit (work_at ''a'' ''p'') ''succeeded'']"

lemma example_half_done_value:
  "example_half_done = example_start\<lparr>s_states :=
     [(work_at ''a'' ''p'', SUCCEEDED), (work_at ''a'' ''q'', READY), (work_at ''b'' ''r'', BLOCKED)]\<rparr>"
proof -
  have "work_state_of ''succeeded'' = Some SUCCEEDED" "id_text ''a''" by code_simp+
  then show ?thesis
    by (simp add: example_half_done_def after_calls_def example_start_value scheduler_run_simps work_at_def)
qed

theorem scheduler_never_stalls_witness:
  "\<not> is_finished example_half_done \<and> (\<exists>i. next_ready 1 example_half_done = Inr [i])"
proof -
  have r: "reached example_half_done" unfolding example_half_done_def by (rule example_reached) simp
  have t: "id_text ''a''" "id_text ''b''" by code_simp+
  have c: "s_control_state example_half_done = RUNNING" and f: "s_fences example_half_done = []"
    and w: "s_retry_waits example_half_done = []"  and u: "\<not> is_finished example_half_done"
    by (simp_all add: example_half_done_value example_start_value is_finished_def is_terminal_def)
  have n: "failed_node_ids example_half_done = Inr []"
    using t by (simp add: failed_node_ids_def scheduler_run_simps blocked_terminal_aggregate
        example_half_done_value example_start_value work_at_def)
  show ?thesis using scheduler_never_stalls [OF r c f w n u] u by blast
qed

subsection \<open>Order of admission\<close>

text \<open>
  The work offered for admission while the scheduler runs is a prefix, of the asked length, of all
  ready work in plan order: by the position of the node, then by partition key, without repetition.
\<close>

theorem next_ready_in_plan_order:
  assumes "reached t" and "s_control_state t = RUNNING" and "1 \<le> limit"
  shows "\<exists>all. next_ready limit t = Inr (take (nat limit) all) \<and>
    set all = {i. map_of (s_states t) i = Some READY} \<and> distinct all \<and>
    sorted_wrt (\<lambda>i j. plan_position t i < plan_position t j) all"
proof -
  have ok: "sched_ok t" by (rule reached_ok [OF assms(1)])
  then have k: "well_keyed (s_states t)" by (simp add: sched_ok_def keys_ok_def)
  let ?ready = "map fst (filter (\<lambda>(_, state). state = READY) (s_states t))"
  let ?all = "sort_key (plan_position t) ?ready"
  have set: "set ?all = {i. map_of (s_states t) i = Some READY}"
    using k by force
  have d: "distinct ?all"
    using k by (simp add: distinct_map_filter)
  have "inj_on (plan_position t) (set ?all)"
    by (rule inj_on_subset [OF plan_position_inj [OF ok]]) auto
  then have "distinct (map (plan_position t) ?all)"
    using d by (simp only: distinct_map simp_thms)
  then have "sorted_wrt (<) (map (plan_position t) ?all)"
    using sorted_sort_key [of "plan_position t" ?ready] by (simp only: strict_sorted_iff simp_thms)
  then have "sorted_wrt (\<lambda>i j. plan_position t i < plan_position t j) ?all"
    by (simp only: sorted_wrt_map)
  moreover have "next_ready limit t = Inr (take (nat limit) ?all)"
    using assms(2,3) by (simp add: next_ready_def)
  ultimately show ?thesis
    using set d by blast
qed

theorem next_ready_in_plan_order_witness:
  "\<exists>all. next_ready 2 example_half_done = Inr (take (nat 2) all) \<and>
    set all = {i. map_of (s_states example_half_done) i = Some READY} \<and> distinct all \<and>
    sorted_wrt (\<lambda>i j. plan_position example_half_done i < plan_position example_half_done j) all"
proof (rule next_ready_in_plan_order)
  show "reached example_half_done" unfolding example_half_done_def by (rule example_reached) simp
  show "s_control_state example_half_done = RUNNING"
    by (simp add: example_half_done_value example_start_value)
qed simp

subsection \<open>Commits\<close>

text \<open>
  C21. Committing a terminal outcome of work in flight sets its state and releases its fence, and makes
  ready exactly the blocked work of the nodes that depend on its node and whose predecessors have now
  all succeeded; nothing else changes state.
\<close>

theorem commit_releases_exactly:
  assumes "reached s" and "map_of (s_states s) i = Some w" and "in_flight w" and "is_terminal v"
  shows "\<exists>t. commit_result i (FrontierWorkState_value v) s = (Inr (), t) \<and>
    map_of (s_fences t) = (map_of (s_fences s))(i := None) \<and>
    map_of (s_states t) j =
      (if j = i then Some v
       else if map_of (s_states s) j = Some BLOCKED \<and> (node_id i, node_id j) \<in> set (s_edges s) \<and>
         (\<forall>p \<in> set (s_predecessors s (node_id j)). node_done t p) then Some READY
       else map_of (s_states s) j)"
proof -
  have ok: "plan_ok s" "keys_ok s" using reached_ok [OF assms(1)] by (simp_all add: sched_ok_def)
  let ?c = "committed i v s"
  let ?N = "{n. (node_id i, n) \<in> set (s_edges s) \<and> permitted ?c n}"
  obtain t where t: "commit_result i (FrontierWorkState_value v) s = (Inr (), t)" "same_but_states ?c t"
    "\<And>j. map_of (s_states t) j = released ?c ?N j"
    using commit_result_effect [OF ok assms(2,3) work_state_of_value assms(4)] by blast
  have p: "same_plan s ?c" by (rule committed_plan [OF assms(2)])
  have permitted: "permitted ?c n \<longleftrightarrow> (\<forall>p \<in> set (s_predecessors s n). node_done t p)" for n
    using node_done_released [OF t(2,3)] p by (simp add: permitted_def same_plan_def)
  have "s_fences t = AList.delete i (s_fences s)"
    using t(2) by (simp add: same_but_states_def committed_def)
  then have fences: "map_of (s_fences t) = (map_of (s_fences s))(i := None)"
    by (simp add: dict_simps)
  have c: "map_of (s_states ?c) = (map_of (s_states s))(i \<mapsto> v)"
    by (simp add: committed_def)
  have ids: "s_identities_by_node ?c = s_identities_by_node s" using p by (simp add: same_plan_def)
  have member: "(\<exists>n \<in> ?N. j \<in> set (s_identities_by_node ?c n)) \<longleftrightarrow> node_id j \<in> ?N"
    if j: "map_of (s_states s) j = Some BLOCKED"
  proof -
    have "node_id j = n" if n: "n \<in> ?N" "j \<in> set (s_identities_by_node s n)" for n
      using n ok(1) by (auto simp: plan_ok_def)
    then show ?thesis unfolding ids using identity_node(2) [OF ok j] by blast
  qed
  have "map_of (s_states t) j =
      (if j = i then Some v
       else if map_of (s_states s) j = Some BLOCKED \<and> node_id j \<in> ?N then Some READY
       else map_of (s_states s) j)"
  proof (cases "j = i")
    case True
    moreover have "v \<noteq> BLOCKED" using assms(4) by (auto simp: is_terminal_def)
    ultimately show ?thesis unfolding t(3) released_def c by simp
  next
    case False
    then show ?thesis
    proof (cases "map_of (s_states s) j = Some BLOCKED")
      case True
      then show ?thesis unfolding t(3) released_def c member [OF True] using False by simp
    qed (unfold t(3) released_def c, simp)
  qed
  then show ?thesis
    using t(1) fences unfolding mem_Collect_eq permitted by blast
qed

text \<open>An admission of the second partition of the small plan.\<close>

definition example_last_admitted :: scheduler where
  "example_last_admitted = after_calls
     [Admit (work_at ''a'' ''p'') 1, Commit (work_at ''a'' ''p'') ''succeeded'', Admit (work_at ''a'' ''q'') 2]"

lemma example_last_admitted_value:
  "example_last_admitted = example_start\<lparr>s_states :=
     [(work_at ''a'' ''p'', SUCCEEDED), (work_at ''a'' ''q'', ADMITTED), (work_at ''b'' ''r'', BLOCKED)],
     s_fences := [(work_at ''a'' ''q'', 2)]\<rparr>"
proof -
  have "example_last_admitted = snd (register_admission (work_at ''a'' ''q'') 2 example_half_done)"
    by (simp add: example_last_admitted_def example_half_done_def after_calls_def)
  then show ?thesis
    by (simp add: example_half_done_value example_start_value scheduler_run_simps work_at_def)
qed

theorem commit_releases_exactly_witness:
  "\<exists>t. commit_result (work_at ''a'' ''q'') (FrontierWorkState_value SUCCEEDED) example_last_admitted = (Inr (), t) \<and>
    map_of (s_fences t) = (map_of (s_fences example_last_admitted))(work_at ''a'' ''q'' := None) \<and>
    map_of (s_states t) (work_at ''b'' ''r'') =
      (if work_at ''b'' ''r'' = work_at ''a'' ''q'' then Some SUCCEEDED
       else if map_of (s_states example_last_admitted) (work_at ''b'' ''r'') = Some BLOCKED \<and>
         (node_id (work_at ''a'' ''q''), node_id (work_at ''b'' ''r'')) \<in> set (s_edges example_last_admitted) \<and>
         (\<forall>p \<in> set (s_predecessors example_last_admitted (node_id (work_at ''b'' ''r''))). node_done t p)
         then Some READY
       else map_of (s_states example_last_admitted) (work_at ''b'' ''r''))"
proof (rule commit_releases_exactly)
  show "reached example_last_admitted"
    unfolding example_last_admitted_def by (rule example_reached) simp
  show "map_of (s_states example_last_admitted) (work_at ''a'' ''q'') = Some ADMITTED"
    by (simp add: example_last_admitted_value work_at_def)
qed (simp_all add: in_flight_def is_terminal_def)

subsection \<open>What modelling showed\<close>

text \<open>
  A retry whose eligibility lies beyond the bound of a retry wait is not refused before the
  scheduler changes: the call raises, but the work has left its lease for a retry wait that was never
  recorded, and from then on the scheduler cannot take its frontier.
\<close>

theorem late_retry_corrupts:
  assumes "reached s" and "map_of (s_states s) i = Some w" and "in_flight w"
    and "eligible_at > MAX_FRONTIER_RETRY_ELIGIBILITY_MICROS" and "reason_ok why"
  shows "fst (schedule_retry i eligible_at why s) =
      Inl (InvalidStateError ''frontier retry wait eligibility is outside the supported range'') \<and>
    map_of (s_states (snd (schedule_retry i eligible_at why s))) i = Some RETRY_WAIT \<and>
    (\<nexists>f. frontier (snd (schedule_retry i eligible_at why s)) = Inr f)"
proof -
  let ?t = "committed i RETRY_WAIT s"
  have pos: "\<not> eligible_at < 0"
    using assms(4) by (simp add: MAX_FRONTIER_RETRY_ELIGIBILITY_MICROS_def)
  have refused: "make_FrontierRetryWait i eligible_at why =
      Inl (InvalidStateError ''frontier retry wait eligibility is outside the supported range'')"
    using assms(4) by (simp add: make_FrontierRetryWait_def require_bounded_int_def)
  have "require_reason_text why ''scheduler retry reason'' = Inr ()"
    using assms(5) by (simp add: result_simps)
  then have t: "schedule_retry i eligible_at why s =
      (Inl (InvalidStateError ''frontier retry wait eligibility is outside the supported range''), ?t)"
    using pos assms(2,3) refused by (simp add: schedule_retry_def committed_def)
  have ok: "sched_ok s" by (rule reached_ok [OF assms(1)])
  have none: "map_of (s_retry_waits ?t) i = None"
    using holds(3) [OF ok, of i] assms(2,3)
    by (auto simp: committed_def set_state_def holds_ok_def in_flight_def)
  have "\<not> frontier_work_ok (frontier_of ?t)"
  proof
    assume "frontier_work_ok (frontier_of ?t)"
    then have waits: "identity ` set (retry_waits (frontier_of ?t)) =
        {j. (j, RETRY_WAIT) \<in> set (work_states (frontier_of ?t))}"
      by (simp only: frontier_work_ok_def)
    have "plan_ok s" "keys_ok s" using ok by (simp_all add: sched_ok_def)
    then have "keys_ok ?t"
      using same_plan_ok(2) [OF committed_plan [OF assms(2), of RETRY_WAIT]] by (simp only:)
    then have k: "well_keyed (s_states ?t)" by (simp only: keys_ok_def)
    have "map_of (s_states ?t) i = Some RETRY_WAIT" by (simp add: committed_def)
    then have "(i, RETRY_WAIT) \<in> set (s_states ?t)" by (rule map_of_SomeD)
    then have "i \<in> identity ` set (retry_waits (frontier_of ?t))"
      unfolding waits using entries_set [OF k, of identity_sort_key] by (simp add: frontier_of_def)
    moreover have "s_retry_waits ?t = s_retry_waits s" by (simp add: committed_def set_state_def)
    then have "retry_waits (frontier_of ?t) = retry_waits (frontier_of s)" by (simp add: frontier_of_def)
    ultimately have "i \<in> set (map identity (retry_waits (frontier_of s)))" by simp
    then have "i \<in> set (keys (s_retry_waits s))"
      using ok unfolding sched_ok_def by (simp only: wait_identities set_sort)
    then show False
      using none unfolding in_keys_iff_map_of by (simp add: committed_def set_state_def)
  qed
  then have "\<nexists>f. frontier ?t = Inr f"
    by (simp add: frontier_eq frontier_valid_def)
  then show ?thesis
    unfolding t by (simp add: committed_def)
qed

theorem late_retry_corrupts_witness:
  "fst (schedule_retry (work_at ''a'' ''q'') (2 ^ 60) ''busy'' example_last_admitted) =
      Inl (InvalidStateError ''frontier retry wait eligibility is outside the supported range'') \<and>
    map_of (s_states (snd (schedule_retry (work_at ''a'' ''q'') (2 ^ 60) ''busy'' example_last_admitted)))
      (work_at ''a'' ''q'') = Some RETRY_WAIT \<and>
    (\<nexists>f. frontier (snd (schedule_retry (work_at ''a'' ''q'') (2 ^ 60) ''busy'' example_last_admitted)) = Inr f)"
proof (rule late_retry_corrupts)
  show "reached example_last_admitted"
    unfolding example_last_admitted_def by (rule example_reached) simp
  show "map_of (s_states example_last_admitted) (work_at ''a'' ''q'') = Some ADMITTED"
    by (simp add: example_last_admitted_value work_at_def)
  show "reason_ok ''busy''" by code_simp
qed (simp_all add: in_flight_def MAX_FRONTIER_RETRY_ELIGIBILITY_MICROS_def)

definition blocked_root_frontier :: SchedulerFrontierV2 where
  "blocked_root_frontier =
     \<lparr>version = 2, plan_fingerprint = example_fingerprint, control_generation = 1,
      frontier_run_id = ''run'', node_order = [''a'', ''b''], edges = [(''a'', ''b'')],
      work_states = [(work_at ''a'' ''p'', BLOCKED), (work_at ''a'' ''q'', BLOCKED), (work_at ''b'' ''r'', BLOCKED)],
      lease_fences = [], retry_waits = [], control_state = RUNNING, recovery_required_reason = None\<rparr>"

lemma blocked_root_valid: "frontier_valid blocked_root_frontier"
proof -
  have "id_text ''run''" "id_text ''a''" "id_text ''b''" by code_simp+
  moreover have "is_fingerprint example_fingerprint"
    by (simp add: is_fingerprint_def example_fingerprint_def is_digit_def list_all_iff)
  moreover have "sorted_unique (keys (work_states blocked_root_frontier))" by code_simp
  moreover have "frontier_barriers_ok blocked_root_frontier"
    by (simp add: frontier_barriers_ok_def blocked_root_frontier_def predecessors_in_def node_states_in_def
        succeeded_in_def work_at_def)
  moreover have "acyclic {(''a'', ''b'')}"
    by (simp add: acyclic_def trancl_insert)
  ultimately show ?thesis
    by (simp add: frontier_valid_def frontier_graph_ok_def frontier_work_ok_def frontier_control_ok_def
        blocked_root_frontier_def SCHEDULER_FRONTIER_VERSION_def FRONTIER_CONTROL_STATES_def
        MAX_FRONTIER_WORK_ITEMS_def sorted_unique_def in_flight_def) (auto simp: work_at_def)
qed

text \<open>
  The check of dependency barriers, which is to reject work states that cannot result from the
  barrier protocol, skips nodes without predecessors: a frontier that blocks such a node is accepted
  and restored, after which no work is ready although nothing failed, waits or is in flight.
\<close>

theorem blocked_root_accepted:
  "make_frontier blocked_root_frontier = Inr blocked_root_frontier \<and>
   fst (restore blocked_root_frontier example_start) = Inr () \<and>
   next_ready 1 (snd (restore blocked_root_frontier example_start)) = Inr [] \<and>
   failed_node_ids (snd (restore blocked_root_frontier example_start)) = Inr [] \<and>
   \<not> is_finished (snd (restore blocked_root_frontier example_start))"
proof -
  have m: "frontier_matches blocked_root_frontier example_start"
    by (simp add: frontier_matches_def blocked_root_frontier_def example_start_value)
  have t: "snd (restore blocked_root_frontier example_start) = example_start\<lparr>s_states :=
      [(work_at ''a'' ''p'', BLOCKED), (work_at ''a'' ''q'', BLOCKED), (work_at ''b'' ''r'', BLOCKED)]\<rparr>"
    unfolding restore_state [OF blocked_root_valid]
    using m by (simp add: restored_def blocked_root_frontier_def example_start_value)
  have ids: "id_text ''a''" "id_text ''b''" by code_simp+
  then have "failed_node_ids (snd (restore blocked_root_frontier example_start)) = Inr []"
    unfolding t by (simp add: failed_node_ids_def scheduler_run_simps blocked_terminal_aggregate
        example_start_value work_at_def)
  moreover have "fst (restore blocked_root_frontier example_start) = Inr ()"
    using restore_eq [OF blocked_root_valid, of example_start] m by blast
  moreover have "next_ready 1 (snd (restore blocked_root_frontier example_start)) = Inr []"
    "\<not> is_finished (snd (restore blocked_root_frontier example_start))"
    unfolding t by (simp_all add: next_ready_def is_finished_def is_terminal_def)
  ultimately show ?thesis
    using blocked_root_valid by (simp add: make_frontier_eq)
qed

end
