(* ===== verification/Frontier_Mapping.thy ===== *)
theory Frontier_Mapping
  imports Frontier_Validity
begin

text \<open>
  The plain mapping a frontier is stored as: \<^verbatim>\<open>to_mapping\<close> and \<^verbatim>\<open>from_mapping\<close> of
  \<^verbatim>\<open>application/execution/concurrent_scheduler.py\<close>.  A stored value is a \<open>payload\<close>, the Python values
  a decoded document holds; its mappings have text keys.
\<close>

subsection \<open>Stored values\<close>

datatype payload =
    PNone
  | PBool bool
  | PInt int
  | PText string
  | PList "payload list"
  | PDict "(string, payload) dict"

definition FRONTIER_MAPPING_KEYS :: "string set" where
  "FRONTIER_MAPPING_KEYS =
     {''control_generation'', ''control_state'', ''edges'', ''lease_fences'', ''node_order'',
      ''plan_fingerprint'', ''recovery_required_reason'', ''retry_waits'', ''run_id'', ''version'',
      ''work_states''}"

subsection \<open>Writing\<close>

definition identity_row :: "WorkIdentity \<Rightarrow> payload list" where
  "identity_row i = [PText (run_id i), PText (node_id i), PText (partition_key i)]"

definition to_mapping :: "SchedulerFrontierV2 \<Rightarrow> payload" where
  "to_mapping f = PDict
     [(''version'', PInt (version f)),
      (''plan_fingerprint'', PText (plan_fingerprint f)),
      (''control_generation'', PInt (control_generation f)),
      (''run_id'', PText (frontier_run_id f)),
      (''node_order'', PList (map PText (node_order f))),
      (''edges'', PList (map (\<lambda>(source, target). PList [PText source, PText target]) (edges f))),
      (''work_states'', PList (map (\<lambda>(i, state).
         PList (identity_row i @ [PText (FrontierWorkState_value state)])) (work_states f))),
      (''lease_fences'', PList (map (\<lambda>(i, fence). PList (identity_row i @ [PInt fence])) (lease_fences f))),
      (''retry_waits'', PList (map (\<lambda>wait. PList (identity_row (identity wait) @
         [PInt (eligible_at_micros wait), PText (reason wait)])) (retry_waits f))),
      (''control_state'', PText (ContractLifecycleState_value (control_state f))),
      (''recovery_required_reason'',
         case recovery_required_reason f of None \<Rightarrow> PNone | Some r \<Rightarrow> PText r)]"

subsection \<open>Reading\<close>

abbreviation corrupt_value :: "string \<Rightarrow> 'a sched_result" where
  "corrupt_value message \<equiv> Inl (FrontierCorruptError message)"

text \<open>\<^verbatim>\<open>_require_frontier_text\<close> on a stored value, and the text it then is.\<close>

fun payload_text :: "payload \<Rightarrow> string \<Rightarrow> nat \<Rightarrow> string sched_result" where
  "payload_text (PText s) subject maximum =
     bind_result (require_frontier_text s subject maximum) (\<lambda>_. Inr s)"
| "payload_text _ subject maximum = corrupt_value (subject @ '' must be text'')"

fun payload_list :: "payload \<Rightarrow> string \<Rightarrow> payload list sched_result" where
  "payload_list (PList ps) message = Inr ps"
| "payload_list _ message = corrupt_value message"

fun payload_int :: "payload \<Rightarrow> string \<Rightarrow> int sched_result" where
  "payload_int (PInt n) message = Inr n"
| "payload_int _ message = corrupt_value message"

text \<open>The entries of a row of a fixed length.\<close>

definition payload_row :: "payload \<Rightarrow> nat \<Rightarrow> string \<Rightarrow> payload list sched_result" where
  "payload_row entry arity message =
     bind_result (payload_list entry message) (\<lambda>parts.
     bind_result (corrupt (length parts = arity) message) (\<lambda>_. Inr parts))"

definition frontier_text_rows :: "payload \<Rightarrow> string \<Rightarrow> string list sched_result" where
  "frontier_text_rows value subject =
     bind_result (payload_list value (subject @ '' must be a list'')) (\<lambda>items.
     map_result (\<lambda>item. payload_text item (subject @ '' entry'') MAX_FRONTIER_IDENTITY_LENGTH) items)"

definition frontier_edge_rows :: "payload \<Rightarrow> string \<Rightarrow> (string \<times> string) list sched_result" where
  "frontier_edge_rows value subject =
     bind_result (payload_list value (subject @ '' must be a list'')) (\<lambda>entries.
     map_result (\<lambda>entry.
       bind_result (payload_row entry 2 (subject @ '' entries must be source-target pairs'')) (\<lambda>parts.
       bind_result (payload_text (parts ! 0) (subject @ '' source'') MAX_FRONTIER_IDENTITY_LENGTH) (\<lambda>s.
       bind_result (payload_text (parts ! 1) (subject @ '' target'') MAX_FRONTIER_IDENTITY_LENGTH) (\<lambda>t.
       Inr (s, t))))) entries)"

definition frontier_identity_from_row :: "payload list \<Rightarrow> string \<Rightarrow> WorkIdentity sched_result" where
  "frontier_identity_from_row parts subject =
     bind_result (payload_text (parts ! 0) (subject @ '' run identity'') MAX_FRONTIER_IDENTITY_LENGTH) (\<lambda>r.
     bind_result (payload_text (parts ! 1) (subject @ '' node identity'') MAX_FRONTIER_IDENTITY_LENGTH) (\<lambda>n.
     bind_result (payload_text (parts ! 2) (subject @ '' partition key'') MAX_FRONTIER_IDENTITY_LENGTH) (\<lambda>p.
     make_WorkIdentity r n p)))"

fun payload_work_state :: "payload \<Rightarrow> string \<Rightarrow> FrontierWorkState sched_result" where
  "payload_work_state (PText raw) subject =
     (case work_state_of raw of
        None \<Rightarrow> corrupt_value (subject @ '' work state is unknown'')
      | Some state \<Rightarrow> Inr state)"
| "payload_work_state _ subject = corrupt_value (subject @ '' work state must be text'')"

definition frontier_work_state_rows ::
  "payload \<Rightarrow> string \<Rightarrow> (WorkIdentity, FrontierWorkState) dict sched_result" where
  "frontier_work_state_rows value subject =
     bind_result (payload_list value (subject @ '' must be a list'')) (\<lambda>entries.
     map_result (\<lambda>entry.
       bind_result (payload_row entry 4 (subject @ '' entries must be identity-state rows'')) (\<lambda>parts.
       bind_result (frontier_identity_from_row parts subject) (\<lambda>i.
       bind_result (payload_work_state (parts ! 3) subject) (\<lambda>state.
       Inr (i, state))))) entries)"

definition frontier_lease_fence_rows :: "payload \<Rightarrow> string \<Rightarrow> (WorkIdentity, int) dict sched_result" where
  "frontier_lease_fence_rows value subject =
     bind_result (payload_list value (subject @ '' must be a list'')) (\<lambda>entries.
     map_result (\<lambda>entry.
       bind_result (payload_row entry 4 (subject @ '' entries must be identity-fence rows'')) (\<lambda>parts.
       bind_result (frontier_identity_from_row parts subject) (\<lambda>i.
       bind_result (payload_int (parts ! 3) (subject @ '' lease fence must be an integer'')) (\<lambda>fence.
       bind_result (corrupt (1 \<le> fence \<and> fence \<le> MAX_FRONTIER_LEASE_FENCE)
          (subject @ '' lease fence is outside the supported range'')) (\<lambda>_.
       Inr (i, fence)))))) entries)"

fun payload_reason :: "payload \<Rightarrow> string \<Rightarrow> string sched_result" where
  "payload_reason (PText r) subject =
     bind_result (corrupt (1 \<le> length r \<and> length r \<le> MAX_FRONTIER_REASON_LENGTH)
        (subject @ '' reason length is unsupported'')) (\<lambda>_.
     bind_result (corrupt (list_all is_printable_ascii r)
        (subject @ '' reason must use printable ASCII characters'')) (\<lambda>_. Inr r))"
| "payload_reason _ subject = corrupt_value (subject @ '' reason must be text'')"

definition frontier_retry_wait_rows :: "payload \<Rightarrow> string \<Rightarrow> FrontierRetryWait list sched_result" where
  "frontier_retry_wait_rows value subject =
     bind_result (payload_list value (subject @ '' must be a list'')) (\<lambda>entries.
     map_result (\<lambda>entry.
       bind_result (payload_row entry 5 (subject @ '' entries must be retry-wait rows'')) (\<lambda>parts.
       bind_result (frontier_identity_from_row parts subject) (\<lambda>i.
       bind_result (payload_int (parts ! 3) (subject @ '' eligibility must be an integer'')) (\<lambda>eligible_at.
       bind_result (corrupt (0 \<le> eligible_at \<and> eligible_at \<le> MAX_FRONTIER_LEASE_FENCE)
          (subject @ '' eligibility is outside the supported range'')) (\<lambda>_.
       bind_result (payload_reason (parts ! 4) subject) (\<lambda>r.
       make_FrontierRetryWait i eligible_at r)))))) entries)"

fun frontier_control_state_value :: "payload \<Rightarrow> string \<Rightarrow> ContractLifecycleState sched_result" where
  "frontier_control_state_value (PText value) subject =
     (case lifecycle_state_of value of
        None \<Rightarrow> corrupt_value (subject @ '' is unknown'')
      | Some state \<Rightarrow>
          bind_result (corrupt (state \<in> FRONTIER_CONTROL_STATES)
            (subject @ '' is not a durable frontier state'')) (\<lambda>_. Inr state))"
| "frontier_control_state_value _ subject = corrupt_value (subject @ '' must be text'')"

fun payload_optional_reason :: "payload \<Rightarrow> string option sched_result" where
  "payload_optional_reason PNone = Inr None"
| "payload_optional_reason p =
     bind_result (payload_text p ''frontier payload recovery reason'' MAX_FRONTIER_REASON_LENGTH)
       (\<lambda>r. Inr (Some r))"

definition frontier_from_fields :: "(string \<Rightarrow> payload) \<Rightarrow> SchedulerFrontierV2 sched_result" where
  "frontier_from_fields field =
     bind_result (payload_int (field ''version'') ''frontier payload version must be an integer'') (\<lambda>v.
     bind_result (require (v = SCHEDULER_FRONTIER_VERSION)
        (FrontierVersionError ''frontier schema version is unsupported'')) (\<lambda>_.
     bind_result (payload_text (field ''plan_fingerprint'') ''frontier payload fingerprint''
        MAX_FRONTIER_IDENTITY_LENGTH) (\<lambda>fingerprint.
     bind_result (corrupt (is_fingerprint fingerprint)
        ''frontier payload fingerprint must use 64 lowercase hexadecimal characters'') (\<lambda>_.
     bind_result (payload_int (field ''control_generation'')
        ''frontier payload control generation must be an integer'') (\<lambda>raw_generation.
     bind_result (case make_ControlGeneration raw_generation of
          Inl _ \<Rightarrow> corrupt_value ''frontier payload control generation is invalid''
        | Inr g \<Rightarrow> Inr g) (\<lambda>generation.
     bind_result (payload_text (field ''run_id'') ''frontier payload run identity''
        MAX_FRONTIER_IDENTITY_LENGTH) (\<lambda>r.
     bind_result (frontier_text_rows (field ''node_order'') ''frontier payload node order'') (\<lambda>nodes.
     bind_result (corrupt (nodes \<noteq> []) ''frontier payload node order must not be empty'') (\<lambda>_.
     bind_result (corrupt (card (set nodes) = length nodes)
        ''frontier payload node order must be unique'') (\<lambda>_.
     bind_result (frontier_edge_rows (field ''edges'') ''frontier payload edges'') (\<lambda>es.
     bind_result (frontier_work_state_rows (field ''work_states'') ''frontier payload work states'') (\<lambda>states.
     bind_result (frontier_lease_fence_rows (field ''lease_fences'') ''frontier payload lease fences'') (\<lambda>fences.
     bind_result (frontier_retry_wait_rows (field ''retry_waits'') ''frontier payload retry waits'') (\<lambda>waits.
     bind_result (frontier_control_state_value (field ''control_state'') ''frontier payload control state'') (\<lambda>control.
     bind_result (payload_optional_reason (field ''recovery_required_reason'')) (\<lambda>why.
     make_frontier
       \<lparr>version = v, plan_fingerprint = fingerprint, control_generation = generation,
        frontier_run_id = r, node_order = nodes, edges = es, work_states = states,
        lease_fences = fences, retry_waits = waits, control_state = control,
        recovery_required_reason = why\<rparr>))))))))))))))))"

fun from_mapping :: "payload \<Rightarrow> SchedulerFrontierV2 sched_result" where
  "from_mapping (PDict d) =
     bind_result (corrupt (set (keys d) = FRONTIER_MAPPING_KEYS)
        ''frontier payload keys are missing or unknown'') (\<lambda>_.
     frontier_from_fields (\<lambda>key. the (map_of d key)))"
| "from_mapping _ = corrupt_value ''frontier payload must be a mapping''"

subsection \<open>Round trip\<close>

text \<open>What the constructors of the parts of a frontier check: identities and waits.\<close>

definition identity_ok :: "WorkIdentity \<Rightarrow> bool" where
  "identity_ok i \<longleftrightarrow> id_text (run_id i) \<and> id_text (node_id i) \<and> id_text (partition_key i)"

definition wait_stored :: "FrontierRetryWait \<Rightarrow> bool" where
  "wait_stored w \<longleftrightarrow> identity_ok (identity w) \<and> 0 \<le> eligible_at_micros w \<and>
     eligible_at_micros w \<le> MAX_FRONTIER_LEASE_FENCE \<and> reason_ok (reason w)"

lemma payload_text_id: "id_text v \<Longrightarrow> payload_text (PText v) subject MAX_FRONTIER_IDENTITY_LENGTH = Inr v"
  by (simp add: bind_result_eq_Inr require_frontier_text_Inr)

lemma fingerprint_text: "is_fingerprint v \<Longrightarrow> id_text v"
  by (auto simp: is_fingerprint_def id_text_def MAX_FRONTIER_IDENTITY_LENGTH_def is_digit_def
      is_printable_ascii_def elim!: list.pred_mono_strong)

lemma row_of_list: "length ps = n \<Longrightarrow> payload_row (PList ps) n message = Inr ps"
  by (simp add: payload_row_def)

lemma identity_of_row:
  "identity_ok i \<Longrightarrow> frontier_identity_from_row (identity_row i @ rest) subject = Inr i"
  by (simp add: frontier_identity_from_row_def identity_row_def identity_ok_def payload_text_id
      make_WorkIdentity_def bind_result_eq_Inr require_identity_text_Inr del: payload_text.simps)

lemma text_rows:
  "\<forall>n \<in> set ns. id_text n \<Longrightarrow> frontier_text_rows (PList (map PText ns)) subject = Inr ns"
  by (simp add: frontier_text_rows_def payload_text_id map_result_rows del: payload_text.simps)

lemma edge_rows:
  "\<forall>(a, b) \<in> set es. id_text a \<and> id_text b \<Longrightarrow>
     frontier_edge_rows (PList (map (\<lambda>(source, target). PList [PText source, PText target]) es)) subject = Inr es"
  by (auto simp: frontier_edge_rows_def row_of_list payload_text_id simp del: payload_text.simps
      intro!: map_result_rows)

lemma identity_row_nth [simp]: "(identity_row i @ [p]) ! 3 = p" "(identity_row i @ [p, q]) ! 3 = p"
  "(identity_row i @ [p, q]) ! 4 = q" "length (identity_row i) = 3"
  by (simp_all add: identity_row_def)

lemma state_rows:
  assumes "\<forall>i \<in> set (keys d). identity_ok i"
  shows "frontier_work_state_rows
    (PList (map (\<lambda>(i, state). PList (identity_row i @ [PText (FrontierWorkState_value state)])) d)) subject = Inr d"
  using assms
  by (auto simp: frontier_work_state_rows_def row_of_list identity_of_row intro!: map_result_rows)

lemma fence_rows:
  assumes "\<forall>i \<in> set (keys d). identity_ok i"
    and "\<forall>(i, x) \<in> set d. 1 \<le> x \<and> x \<le> MAX_FRONTIER_LEASE_FENCE"
  shows "frontier_lease_fence_rows (PList (map (\<lambda>(i, fence). PList (identity_row i @ [PInt fence])) d)) subject
    = Inr d"
  using assms
  by (auto simp: frontier_lease_fence_rows_def row_of_list identity_of_row intro!: map_result_rows
      dest!: bspec)

lemma wait_rows:
  assumes "\<forall>w \<in> set ws. wait_stored w"
  shows "frontier_retry_wait_rows (PList (map (\<lambda>wait. PList (identity_row (identity wait) @
         [PInt (eligible_at_micros wait), PText (reason wait)])) ws)) subject = Inr ws"
proof -
  have "make_FrontierRetryWait (identity w) (eligible_at_micros w) (reason w) = Inr w"
    and "payload_reason (PText (reason w)) subject = Inr (reason w)" if "wait_stored w" for w
    using that
    by (auto simp: wait_stored_def make_FrontierRetryWait_def require_bounded_int_def bind_result_eq_Inr
        require_reason_text_Inr MAX_FRONTIER_LEASE_FENCE_def MAX_FRONTIER_RETRY_ELIGIBILITY_MICROS_def
        reason_ok_def require_eq_Inr)
  then show ?thesis
    using assms
    by (auto simp: frontier_retry_wait_rows_def row_of_list identity_of_row wait_stored_def
        simp del: payload_reason.simps intro!: map_result_rows)
qed

lemma control_value:
  "c \<in> FRONTIER_CONTROL_STATES \<Longrightarrow>
     frontier_control_state_value (PText (ContractLifecycleState_value c)) subject = Inr c"
  by simp

lemma reason_value:
  "(\<And>r. why = Some r \<Longrightarrow> reason_ok r) \<Longrightarrow>
     payload_optional_reason (case why of None \<Rightarrow> PNone | Some r \<Rightarrow> PText r) = Inr why"
  by (cases why) (simp_all add: bind_result_eq_Inr require_frontier_text_Inr)

text \<open>A frontier whose parts were accepted by their own constructors, in the bounds the stored form has.\<close>

definition storable :: "SchedulerFrontierV2 \<Rightarrow> bool" where
  "storable f \<longleftrightarrow>
     1 \<le> control_generation f \<and> control_generation f \<le> MAX_METRIC_VALUE \<and>
     (\<forall>i \<in> set (keys (work_states f)). identity_ok i) \<and> (\<forall>w \<in> set (retry_waits f). wait_stored w)"

definition stored_field :: "SchedulerFrontierV2 \<Rightarrow> string \<Rightarrow> payload" where
  "stored_field f key = the (map_of (case to_mapping f of PDict d \<Rightarrow> d) key)"

lemma stored_fields:
  "stored_field f ''version'' = PInt (version f)"
  "stored_field f ''plan_fingerprint'' = PText (plan_fingerprint f)"
  "stored_field f ''control_generation'' = PInt (control_generation f)"
  "stored_field f ''run_id'' = PText (frontier_run_id f)"
  "stored_field f ''node_order'' = PList (map PText (node_order f))"
  "stored_field f ''edges'' = PList (map (\<lambda>(source, target). PList [PText source, PText target]) (edges f))"
  "stored_field f ''work_states'' = PList (map (\<lambda>(i, state).
     PList (identity_row i @ [PText (FrontierWorkState_value state)])) (work_states f))"
  "stored_field f ''lease_fences'' =
     PList (map (\<lambda>(i, fence). PList (identity_row i @ [PInt fence])) (lease_fences f))"
  "stored_field f ''retry_waits'' = PList (map (\<lambda>wait. PList (identity_row (identity wait) @
     [PInt (eligible_at_micros wait), PText (reason wait)])) (retry_waits f))"
  "stored_field f ''control_state'' = PText (ContractLifecycleState_value (control_state f))"
  "stored_field f ''recovery_required_reason'' =
     (case recovery_required_reason f of None \<Rightarrow> PNone | Some r \<Rightarrow> PText r)"
  by (simp_all add: stored_field_def to_mapping_def)

lemma from_mapping_fields: "from_mapping (to_mapping f) = frontier_from_fields (stored_field f)"
  by (simp add: to_mapping_def stored_field_def [abs_def] FRONTIER_MAPPING_KEYS_def require_def insert_commute)

lemma from_to_mapping:
  assumes v: "frontier_valid f" and s: "storable f"
  shows "from_mapping (to_mapping f) = Inr f"
proof -
  have ids: "\<forall>i \<in> set (keys (work_states f)). identity_ok i" and waits: "\<forall>w \<in> set (retry_waits f). wait_stored w"
    and gen: "make_ControlGeneration (control_generation f) = Inr (control_generation f)"
    using s by (auto simp: storable_def make_ControlGeneration_def require_def)
  have fences: "\<forall>i \<in> set (keys (lease_fences f)). identity_ok i"
    "\<forall>(i, x) \<in> set (lease_fences f). 1 \<le> x \<and> x \<le> MAX_FRONTIER_LEASE_FENCE"
    using v ids by (force simp: frontier_valid_def frontier_work_ok_def)+
  have graph: "node_order f \<noteq> []" "card (set (node_order f)) = length (node_order f)"
      "\<forall>n \<in> set (node_order f). id_text n" "\<forall>(a, b) \<in> set (edges f). id_text a \<and> id_text b"
    using v by (auto simp: frontier_valid_def frontier_graph_ok_def card_eq_length)
  have control: "control_state f \<in> FRONTIER_CONTROL_STATES"
    "\<And>r. recovery_required_reason f = Some r \<Longrightarrow> reason_ok r"
    using v by (auto simp: frontier_valid_def frontier_control_ok_def split: if_splits)
  have fingerprint: "is_fingerprint (plan_fingerprint f)" "id_text (plan_fingerprint f)"
    and head: "version f = SCHEDULER_FRONTIER_VERSION" "id_text (frontier_run_id f)"
    using v by (auto simp: frontier_valid_def fingerprint_text)
  have why: "payload_optional_reason (case recovery_required_reason f of None \<Rightarrow> PNone | Some r \<Rightarrow> PText r) =
      Inr (recovery_required_reason f)"
    by (rule reason_value) (rule control(2))
  have whole: "\<lparr>version = SCHEDULER_FRONTIER_VERSION, plan_fingerprint = plan_fingerprint f,
        control_generation = control_generation f, frontier_run_id = frontier_run_id f,
        node_order = node_order f, edges = edges f, work_states = work_states f,
        lease_fences = lease_fences f, retry_waits = retry_waits f, control_state = control_state f,
        recovery_required_reason = recovery_required_reason f\<rparr> = f"
    by (rule SchedulerFrontierV2.equality) (simp_all add: head(1))
  have "make_frontier f = Inr f" using v by (simp add: make_frontier_eq)
  then show ?thesis
    unfolding from_mapping_fields frontier_from_fields_def stored_fields
      payload_text_id [OF fingerprint(2)] payload_text_id [OF head(2)] text_rows [OF graph(3)]
      edge_rows [OF graph(4)] state_rows [OF ids] fence_rows [OF fences] wait_rows [OF waits]
      control_value [OF control(1)] why
    using head(1) fingerprint(1) gen graph(1,2) by (simp add: whole)
qed

lemma read_wait_bound:
  assumes "frontier_retry_wait_rows (PList (map (\<lambda>wait. PList (identity_row (identity wait) @
         [PInt (eligible_at_micros wait), PText (reason wait)])) ws)) subject = Inr us"
    and w: "w \<in> set ws"
  shows "eligible_at_micros w \<le> MAX_FRONTIER_LEASE_FENCE"
proof -
  let ?row = "\<lambda>wait. PList (identity_row (identity wait) @
    [PInt (eligible_at_micros wait), PText (reason wait)])"
  let ?read = "\<lambda>entry. bind_result (payload_row entry 5 (subject @ '' entries must be retry-wait rows'')) (\<lambda>parts.
       bind_result (frontier_identity_from_row parts subject) (\<lambda>i.
       bind_result (payload_int (parts ! 3) (subject @ '' eligibility must be an integer'')) (\<lambda>eligible_at.
       bind_result (corrupt (0 \<le> eligible_at \<and> eligible_at \<le> MAX_FRONTIER_LEASE_FENCE)
          (subject @ '' eligibility is outside the supported range'')) (\<lambda>_.
       bind_result (payload_reason (parts ! 4) subject) (\<lambda>r.
       make_FrontierRetryWait i eligible_at r)))))"
  have "map ?read (map ?row ws) = map Inr us"
    using assms(1) by (simp only: frontier_retry_wait_rows_def payload_list.simps bind_result.simps
        map_result_eq_Inr)
  then have "?read (?row w) \<in> Inr ` set us"
    using w by (metis (no_types, lifting) image_eqI image_set)
  then obtain u where "?read (?row w) = Inr u" by blast
  then show ?thesis
    by (auto simp: bind_result_eq_Inr row_of_list require_eq_Inr)
qed

text \<open>
  C27. A frontier whose parts their constructors accepted, of retry waits within the bound of a lease fence,
  is read back unchanged from the mapping it was written to.
\<close>

theorem frontier_mapping_round_trip:
  assumes "make_frontier f = Inr f" and "1 \<le> control_generation f"
    and "control_generation f \<le> MAX_METRIC_VALUE"
    and "list_all identity_ok (keys (work_states f))" and "list_all wait_stored (retry_waits f)"
  shows "from_mapping (to_mapping f) = Inr f"
  using from_to_mapping [of f] assms by (simp add: make_frontier_eq storable_def list_all_iff)

text \<open>
  C28. A frontier with a retry wait beyond the bound of a lease fence, which the constructor of a wait
  accepts up to 2 ^ 53 - 1, can be written but never read back: its mapping is always refused.
\<close>

theorem late_wait_not_read_back:
  assumes "w \<in> set (retry_waits f)" and "eligible_at_micros w > MAX_FRONTIER_LEASE_FENCE"
  shows "\<exists>e. from_mapping (to_mapping f) = Inl e"
proof (cases "from_mapping (to_mapping f)")
  case (Inr g)
  then obtain us where "frontier_retry_wait_rows (stored_field f ''retry_waits'')
      ''frontier payload retry waits'' = Inr us"
    unfolding from_mapping_fields frontier_from_fields_def bind_result_eq_Inr by blast
  then show ?thesis
    using read_wait_bound [OF _ assms(1)] assms(2) unfolding stored_fields by fastforce
qed blast

definition example_work :: WorkIdentity where
  "example_work = \<lparr>run_id = ''r'', node_id = ''n'', partition_key = ''p''\<rparr>"

definition waiting_frontier :: "int \<Rightarrow> SchedulerFrontierV2" where
  "waiting_frontier eligible_at =
     \<lparr>version = 2, plan_fingerprint = replicate 64 CHR ''0'', control_generation = 1,
      frontier_run_id = ''r'', node_order = [''n''], edges = [],
      work_states = [(example_work, RETRY_WAIT)], lease_fences = [],
      retry_waits = [\<lparr>identity = example_work, eligible_at_micros = eligible_at, reason = ''busy''\<rparr>],
      control_state = RUNNING, recovery_required_reason = None\<rparr>"

lemma waiting_frontier_valid: "make_frontier (waiting_frontier t) = Inr (waiting_frontier t)"
proof -
  have "id_text ''r''" "id_text ''n''" by code_simp+
  moreover have "is_fingerprint (replicate 64 CHR ''0'')"
    by (simp add: is_fingerprint_def is_digit_def list_all_iff)
  moreover have "frontier_barriers_ok (waiting_frontier t)"
    by (simp add: frontier_barriers_ok_def waiting_frontier_def predecessors_in_def)
  ultimately show ?thesis
    by (simp add: make_frontier_eq frontier_valid_def frontier_graph_ok_def frontier_work_ok_def
        frontier_control_ok_def waiting_frontier_def SCHEDULER_FRONTIER_VERSION_def
        FRONTIER_CONTROL_STATES_def MAX_FRONTIER_WORK_ITEMS_def sorted_unique_def in_flight_def
        acyclic_def example_work_def)
qed

theorem frontier_mapping_round_trip_witness:
  "from_mapping (to_mapping (waiting_frontier 500)) = Inr (waiting_frontier 500)"
proof (rule frontier_mapping_round_trip [OF waiting_frontier_valid])
  have "id_text ''r''" "id_text ''n''" "id_text ''p''" "reason_ok ''busy''" by code_simp+
  then show "list_all identity_ok (keys (work_states (waiting_frontier 500)))"
    "list_all wait_stored (retry_waits (waiting_frontier 500))"
    by (simp_all add: waiting_frontier_def identity_ok_def wait_stored_def example_work_def
        MAX_FRONTIER_LEASE_FENCE_def)
qed (simp_all add: waiting_frontier_def MAX_METRIC_VALUE_def)

theorem late_wait_not_read_back_witness:
  "(make_frontier (waiting_frontier 1700000000000000) = Inr (waiting_frontier 1700000000000000)) \<and>
   (\<exists>e. from_mapping (to_mapping (waiting_frontier 1700000000000000)) = Inl e)"
proof
  show "\<exists>e. from_mapping (to_mapping (waiting_frontier 1700000000000000)) = Inl e"
    by (rule late_wait_not_read_back
        [of "\<lparr>identity = example_work, eligible_at_micros = 1700000000000000, reason = ''busy''\<rparr>"])
      (simp_all add: waiting_frontier_def MAX_FRONTIER_LEASE_FENCE_def)
qed (rule waiting_frontier_valid)

end
