(* ===== verification/Calendar.thy ===== *)
theory Calendar
  imports Temporal
begin

text \<open>
  The text form of \<^verbatim>\<open>UtcTimestamp\<close> (\<^verbatim>\<open>domain/models/temporal.py\<close>).  What the class uses of the standard
  library's \<^verbatim>\<open>datetime\<close> is written out: the proleptic Gregorian calendar of the years 1 to 9999, the
  range checks of the constructor, and the conversion to UTC.  An instant stays the number of
  microseconds since 1970, as in \<open>Temporal\<close>; \<open>fields_of_instant\<close> and \<open>instant_of_fields\<close> convert it to
  and from calendar fields.
\<close>

subsection \<open>The calendar\<close>

definition is_leap :: "int \<Rightarrow> bool" where
  "is_leap y \<longleftrightarrow> y mod 4 = 0 \<and> (y mod 100 \<noteq> 0 \<or> y mod 400 = 0)"

definition days_before_year :: "int \<Rightarrow> int" where
  "days_before_year y = (y - 1) * 365 + (y - 1) div 4 - (y - 1) div 100 + (y - 1) div 400"

definition month_lengths :: "int \<Rightarrow> int list" where
  "month_lengths y = [31, if is_leap y then 29 else 28, 31, 30, 31, 30, 31, 31, 30, 31, 30, 31]"

definition days_in_month :: "int \<Rightarrow> nat \<Rightarrow> int" where
  "days_in_month y m = month_lengths y ! (m - 1)"

definition days_in_year :: "int \<Rightarrow> int" where
  "days_in_year y = (if is_leap y then 366 else 365)"

text \<open>The day number of a date, day 0 being the first of January of year 1.\<close>

definition day_number :: "int \<Rightarrow> nat \<Rightarrow> int \<Rightarrow> int" where
  "day_number y m d = days_before_year y + sum_list (take (m - 1) (month_lengths y)) + d - 1"

text \<open>The inverse: whole 400-year cycles first, then years of the cycle, then months.\<close>

fun find_year :: "nat \<Rightarrow> int \<Rightarrow> int \<Rightarrow> int \<times> int" where
  "find_year 0 y r = (y, r)"
| "find_year (Suc k) y r =
     (if r < days_in_year y then (y, r) else find_year k (y + 1) (r - days_in_year y))"

fun find_month :: "int list \<Rightarrow> nat \<Rightarrow> int \<Rightarrow> nat \<times> int" where
  "find_month [] m r = (m, r)"
| "find_month (n # ns) m r = (if r < n then (m, r) else find_month ns (Suc m) (r - n))"

definition date_of_day :: "int \<Rightarrow> int \<times> nat \<times> int" where
  "date_of_day n =
     (let (y, r) = find_year 400 (400 * (n div 146097) + 1) (n mod 146097);
          (m, q) = find_month (month_lengths y) 1 r
      in (y, m, q + 1))"

lemma div_pred: "0 < k \<Longrightarrow> y div k = (y - 1) div k + (if y mod k = 0 then 1 else 0)" for y k :: int
proof (cases "y mod k = 0")
  case True
  assume "0 < k"
  have "y - 1 = k * (y div k - 1) + (k - 1)"
    using True mult_div_mod_eq [of k y] by (simp add: algebra_simps)
  from int_div_pos_eq [OF this] \<open>0 < k\<close> True show ?thesis by simp
next
  case False
  assume "0 < k"
  have "y - 1 = k * (y div k) + (y mod k - 1)" by simp
  moreover have "0 \<le> y mod k - 1" "y mod k - 1 < k"
    using \<open>0 < k\<close> False pos_mod_bound [of k y] pos_mod_sign [of k y] by linarith+
  ultimately have "(y - 1) div k = y div k" by (rule int_div_pos_eq)
  with False show ?thesis by simp
qed

lemma year_step: "days_before_year (y + 1) = days_before_year y + days_in_year y"
proof -
  have "y mod 100 = 0 \<Longrightarrow> y mod 4 = 0" "y mod 400 = 0 \<Longrightarrow> y mod 100 = 0"
    using dvd_trans [of 4 100 y] dvd_trans [of 100 400 y] by (simp_all add: mod_eq_0_iff_dvd)
  moreover have "days_before_year (y + 1) = y * 365 + y div 4 - y div 100 + y div 400"
    by (simp add: days_before_year_def)
  moreover have "y div 4 = (y - 1) div 4 + (if y mod 4 = 0 then 1 else 0)"
    "y div 100 = (y - 1) div 100 + (if y mod 100 = 0 then 1 else 0)"
    "y div 400 = (y - 1) div 400 + (if y mod 400 = 0 then 1 else 0)"
    by (rule div_pred, simp)+
  ultimately show ?thesis
    unfolding days_before_year_def [of y] days_in_year_def is_leap_def by (smt (verit))
qed

lemma days_before_year_mono: "y \<le> y' \<Longrightarrow> days_before_year y + 365 * (y' - y) \<le> days_before_year y'"
proof (induction y' rule: int_ge_induct)
  case (step y')
  then show ?case
    using year_step [of y'] by (simp add: days_in_year_def split: if_splits)
qed simp

lemma days_before_year_cycle: "days_before_year (400 * c + 1) = 146097 * c"
proof -
  have "400 * c div 4 = 100 * c" "400 * c div 100 = 4 * c"
    using int_div_pos_eq [of "400 * c" 4 "100 * c" 0] int_div_pos_eq [of "400 * c" 100 "4 * c" 0]
    by simp_all
  then show ?thesis by (simp add: days_before_year_def)
qed

lemma find_year_spec:
  assumes "0 \<le> r" and "days_before_year y + r < days_before_year (y + int k)"
  shows "\<exists>y' r'. find_year k y r = (y', r') \<and> y \<le> y' \<and> 0 \<le> r' \<and> r' < days_in_year y' \<and>
    days_before_year y' + r' = days_before_year y + r"
  using assms
proof (induction k arbitrary: y r)
  case (Suc k)
  show ?case
  proof (cases "r < days_in_year y")
    case False
    have "\<exists>y' r'. find_year k (y + 1) (r - days_in_year y) = (y', r') \<and> y + 1 \<le> y' \<and> 0 \<le> r' \<and>
        r' < days_in_year y' \<and>
        days_before_year y' + r' = days_before_year (y + 1) + (r - days_in_year y)"
    proof (rule Suc.IH)
      have "y + 1 + int k = y + int (Suc k)" by simp
      then show "days_before_year (y + 1) + (r - days_in_year y) < days_before_year (y + 1 + int k)"
        unfolding year_step using Suc.prems(2) by (simp only:)
    qed (use False in simp)
    with False show ?thesis using year_step [of y] by fastforce
  qed (use Suc.prems in simp)
qed simp

lemma year_unique:
  assumes "days_before_year y + r = days_before_year y' + r'"
    and "0 \<le> r" "r < days_in_year y" "0 \<le> r'" "r' < days_in_year y'"
  shows "y = y' \<and> r = r'"
proof -
  have "\<not> y < y'" if "days_before_year y + r = days_before_year y' + r'" "r < days_in_year y" "0 \<le> r'"
    for y y' r r'
    using days_before_year_mono [of "y + 1" y'] year_step [of y] that by force
  then have "y = y'" using assms by (metis linorder_neqE)
  with assms(1) show ?thesis by simp
qed

lemma find_month_spec:
  assumes "0 \<le> r" and "r < sum_list ns"
  shows "\<exists>m' q. find_month ns m r = (m + m', q) \<and> m' < length ns \<and> 0 \<le> q \<and> q < ns ! m' \<and>
    sum_list (take m' ns) + q = r"
  using assms
proof (induction ns arbitrary: m r)
  case (Cons n ns)
  show ?case
  proof (cases "r < n")
    case False
    with Cons.prems Cons.IH [of "r - n" "Suc m"] obtain m' q where
      "find_month ns (Suc m) (r - n) = (Suc m + m', q)" "m' < length ns" "0 \<le> q" "q < ns ! m'"
      "sum_list (take m' ns) + q = r - n"
      by auto
    with False show ?thesis by (intro exI [of _ "Suc m'"] exI [of _ q]) simp
  qed (use Cons.prems in auto)
qed simp

lemma find_month_eq:
  assumes "m' < length ns" "0 \<le> q" "q < ns ! m'" "\<forall>n \<in> set ns. 0 \<le> n"
  shows "find_month ns m (sum_list (take m' ns) + q) = (m + m', q)"
  using assms
proof (induction ns arbitrary: m m')
  case (Cons n ns)
  show ?case
  proof (cases m')
    case (Suc k)
    with Cons.prems have "0 \<le> sum_list (take k ns)"
      by (auto intro!: sum_list_nonneg dest: in_set_takeD)
    with Suc Cons show ?thesis by (auto simp: algebra_simps)
  qed (use Cons.prems in simp)
qed simp

lemma sum_month_lengths: "sum_list (month_lengths y) = days_in_year y"
  by (simp add: month_lengths_def days_in_year_def)

lemma length_month_lengths [simp]: "length (month_lengths y) = 12"
  by (simp add: month_lengths_def)

lemma month_lengths_pos: "n \<in> set (month_lengths y) \<Longrightarrow> 0 \<le> n"
  by (auto simp: month_lengths_def)

lemma day_in_year:
  assumes "1 \<le> m" "m \<le> 12" "1 \<le> d" "d \<le> days_in_month y m"
  shows "0 \<le> sum_list (take (m - 1) (month_lengths y)) + d - 1 \<and>
    sum_list (take (m - 1) (month_lengths y)) + d - 1 < days_in_year y"
proof -
  let ?ns = "month_lengths y"
  have "?ns = take (m - 1) ?ns @ ?ns ! (m - 1) # drop m ?ns"
    using id_take_nth_drop [of "m - 1" ?ns] assms by simp
  then have "sum_list (take (m - 1) ?ns) + ?ns ! (m - 1) + sum_list (drop m ?ns) = days_in_year y"
    unfolding sum_month_lengths [symmetric] by (metis add.assoc sum_list.Cons sum_list.append)
  moreover have "0 \<le> sum_list (drop m ?ns)" "0 \<le> sum_list (take (m - 1) ?ns)"
    using in_set_dropD [of _ m ?ns] in_set_takeD [of _ "m - 1" ?ns] month_lengths_pos [of _ y]
    by (blast intro: sum_list_nonneg)+
  ultimately show ?thesis using assms by (simp add: days_in_month_def)
qed

lemma day_number_within:
  assumes "1 \<le> m \<and> m \<le> 12 \<and> 1 \<le> d \<and> d \<le> days_in_month y m \<and> day_number y m d = n"
  shows "days_before_year y \<le> day_number y m d" "day_number y m d < days_before_year (y + 1)"
  using day_in_year [of m d y] assms by (simp_all add: day_number_def year_step)

text \<open>Every day has a date of the calendar, and a date is the date of its day.\<close>

lemma date_of_day_spec:
  assumes "date_of_day n = (y, m, d)"
  shows "1 \<le> m \<and> m \<le> 12 \<and> 1 \<le> d \<and> d \<le> days_in_month y m \<and> day_number y m d = n"
proof -
  let ?c = "n div 146097"
  have "days_before_year (400 * ?c + 1 + 400) = 146097 * (?c + 1)"
    using days_before_year_cycle [of "?c + 1"] by (simp add: algebra_simps)
  then have "days_before_year (400 * ?c + 1) + n mod 146097 < days_before_year (400 * ?c + 1 + int 400)"
    using pos_mod_bound [of 146097 n] by (simp only: days_before_year_cycle) simp
  from find_year_spec [OF _ this] obtain y' r where year: "find_year 400 (400 * ?c + 1) (n mod 146097) = (y', r)"
    "0 \<le> r" "r < days_in_year y'" "days_before_year y' + r = n"
    by (auto simp: days_before_year_cycle)
  from find_month_spec [of r "month_lengths y'" 1] year obtain m' q where month:
    "find_month (month_lengths y') 1 r = (1 + m', q)" "m' < 12" "0 \<le> q" "q < month_lengths y' ! m'"
    "sum_list (take m' (month_lengths y')) + q = r"
    by (auto simp: sum_month_lengths)
  from assms year month have "y = y'" "m = Suc m'" "d = q + 1"
    by (simp_all add: date_of_day_def)
  with year month show ?thesis by (simp add: days_in_month_def day_number_def)
qed

lemma date_of_day_number:
  assumes "1 \<le> m" "m \<le> 12" "1 \<le> d" "d \<le> days_in_month y m"
  shows "date_of_day (day_number y m d) = (y, m, d)"
proof -
  obtain y' m' d' where eq: "date_of_day (day_number y m d) = (y', m', d')"
    by (cases "date_of_day (day_number y m d)")
  note spec = date_of_day_spec [OF eq]
  let ?r = "\<lambda>y m d. sum_list (take (m - 1) (month_lengths y)) + d - 1"
  have month: "find_month (month_lengths y) 1 (?r y m d) = (m, d - 1)"
    if "1 \<le> m" "m \<le> 12" "1 \<le> d" "d \<le> days_in_month y m" for y m d
    using find_month_eq [of "m - 1" "month_lengths y" "d - 1" 1] that
    by (simp add: days_in_month_def month_lengths_pos add_diff_eq)
  have "days_before_year y' + ?r y' m' d' = days_before_year y + ?r y m d"
    using spec by (simp add: day_number_def)
  from year_unique [OF this] day_in_year [of m' d' y'] day_in_year [of m d y] spec assms
  have same: "y' = y \<and> ?r y' m' d' = ?r y m d" by blast
  have "find_month (month_lengths y') 1 (?r y' m' d') = (m', d' - 1)" using spec by (intro month) simp_all
  moreover have "find_month (month_lengths y) 1 (?r y m d) = (m, d - 1)" using assms by (intro month)
  ultimately have "(m', d' - 1) = (m, d - 1)" using same by argo
  then have "m' = m" "d' = d" by simp_all
  with eq same show ?thesis by simp
qed

subsection \<open>Instants and calendar fields\<close>

record datetime =
  dt_year :: int
  dt_month :: nat
  dt_day :: int
  dt_hour :: int
  dt_minute :: int
  dt_second :: int
  dt_microsecond :: int

definition EPOCH_DAY :: int where "EPOCH_DAY = 719162"
definition MICROSECONDS_PER_DAY :: int where "MICROSECONDS_PER_DAY = 86400000000"

text \<open>The range checks of the \<^verbatim>\<open>datetime\<close> constructor.\<close>

definition datetime_ok :: "datetime \<Rightarrow> bool" where
  "datetime_ok t \<longleftrightarrow> 1 \<le> dt_year t \<and> dt_year t \<le> 9999 \<and> 1 \<le> dt_month t \<and> dt_month t \<le> 12 \<and>
     1 \<le> dt_day t \<and> dt_day t \<le> days_in_month (dt_year t) (dt_month t) \<and>
     0 \<le> dt_hour t \<and> dt_hour t < 24 \<and> 0 \<le> dt_minute t \<and> dt_minute t < 60 \<and>
     0 \<le> dt_second t \<and> dt_second t < 60 \<and> 0 \<le> dt_microsecond t \<and> dt_microsecond t < 1000000"

definition instant_of_fields :: "datetime \<Rightarrow> int" where
  "instant_of_fields t =
     (day_number (dt_year t) (dt_month t) (dt_day t) - EPOCH_DAY) * MICROSECONDS_PER_DAY +
     ((dt_hour t * 60 + dt_minute t) * 60 + dt_second t) * 1000000 + dt_microsecond t"

definition fields_of_instant :: "UtcTimestamp \<Rightarrow> datetime" where
  "fields_of_instant t =
     (let (y, m, d) = date_of_day (t div MICROSECONDS_PER_DAY + EPOCH_DAY);
          micros = t mod MICROSECONDS_PER_DAY; seconds = micros div 1000000 in
      \<lparr>dt_year = y, dt_month = m, dt_day = d, dt_hour = seconds div 3600,
       dt_minute = seconds mod 3600 div 60, dt_second = seconds mod 60,
       dt_microsecond = micros mod 1000000\<rparr>)"

subsection \<open>Text\<close>

definition utc_str :: "UtcTimestamp \<Rightarrow> string" where
  "utc_str t =
     (let f = fields_of_instant t in
      zero_padded 4 (nat (dt_year f)) @ ''-'' @ zero_padded 2 (dt_month f) @ ''-'' @
      zero_padded 2 (nat (dt_day f)) @ ''T'' @ zero_padded 2 (nat (dt_hour f)) @ '':'' @
      zero_padded 2 (nat (dt_minute f)) @ '':'' @ zero_padded 2 (nat (dt_second f)) @ ''.'' @
      zero_padded 6 (nat (dt_microsecond f)) @ ''Z'')"

text \<open>The regular expression, group by group: \<^verbatim>\<open>[0-9]{n}\<close> and a literal character.\<close>

definition take_digits :: "nat \<Rightarrow> string \<Rightarrow> (string \<times> string) option" where
  "take_digits n s =
     (if length (take n s) = n \<and> list_all is_digit (take n s) then Some (take n s, drop n s) else None)"

fun take_char :: "char \<Rightarrow> string \<Rightarrow> string option" where
  "take_char c [] = None"
| "take_char c (d # s) = (if d = c then Some s else None)"

definition take_fraction :: "string \<Rightarrow> (string \<times> string) option" where
  "take_fraction s =
     (case take_char CHR ''.'' s of
        None \<Rightarrow> Some ([], s)
      | Some rest \<Rightarrow>
          let digits = takeWhile is_digit rest in
          if 1 \<le> length digits \<and> length digits \<le> 6 then Some (digits, dropWhile is_digit rest) else None)"

definition offset_pattern :: "string \<Rightarrow> bool" where
  "offset_pattern s \<longleftrightarrow> s = ''Z'' \<or>
     (case s of
        [sign, h, h', colon, m, m'] \<Rightarrow> (sign = CHR ''+'' \<or> sign = CHR ''-'') \<and> is_digit h \<and> is_digit h' \<and>
          colon = CHR '':'' \<and> is_digit m \<and> is_digit m'
      | _ \<Rightarrow> False)"

definition timestamp_pattern :: "string \<Rightarrow> (string list \<times> string \<times> string) option" where
  "timestamp_pattern s =
     Option.bind (take_digits 4 s) (\<lambda>(year, s).
     Option.bind (take_char CHR ''-'' s) (\<lambda>s.
     Option.bind (take_digits 2 s) (\<lambda>(month, s).
     Option.bind (take_char CHR ''-'' s) (\<lambda>s.
     Option.bind (take_digits 2 s) (\<lambda>(day, s).
     Option.bind (take_char CHR ''T'' s) (\<lambda>s.
     Option.bind (take_digits 2 s) (\<lambda>(hour, s).
     Option.bind (take_char CHR '':'' s) (\<lambda>s.
     Option.bind (take_digits 2 s) (\<lambda>(minute, s).
     Option.bind (take_char CHR '':'' s) (\<lambda>s.
     Option.bind (take_digits 2 s) (\<lambda>(second, s).
     Option.bind (take_fraction s) (\<lambda>(fraction, offset).
     if offset_pattern offset
     then Some ([year, month, day, hour, minute, second], fraction, offset) else None))))))))))))"

text \<open>The offset in minutes; the errors of \<^verbatim>\<open>_parse_offset\<close> are replaced by the caller.\<close>

definition parse_offset :: "string \<Rightarrow> (py_error, int) result" where
  "parse_offset value =
     (if value = ''-00:00''
      then Inl (ValueError ''timestamp offset must represent a known UTC relationship'')
      else
        let sign = (if hd value = CHR ''+'' then 1 else -1);
            hours = int (nat_of_text (take 2 (drop 1 value)));
            minutes = int (nat_of_text (take 2 (drop 4 value))) in
        if hours > 23 \<or> minutes > 59
        then Inl (ValueError ''timestamp offset is outside the supported range'')
        else Inr (sign * (hours * 60 + minutes)))"

definition normalize_utc :: "datetime \<Rightarrow> int \<Rightarrow> (py_error, UtcTimestamp) result" where
  "normalize_utc value offset_minutes =
     (let t = instant_of_fields value - offset_minutes * 60000000 in
      if valid_utc t then Inr t
      else Inl (ValueError ''timestamp offset exceeds the supported datetime range''))"

definition utc_parse :: "string \<Rightarrow> (py_error, UtcTimestamp) result" where
  "utc_parse value =
     (case timestamp_pattern value of
        None \<Rightarrow> Inl (ValueError ''timestamp must use an ISO-8601 date, time, and explicit offset'')
      | Some (parts, fraction, offset) \<Rightarrow>
          let number = (\<lambda>i. int (nat_of_text (parts ! i)));
              parsed = \<lparr>dt_year = number 0, dt_month = nat (number 1), dt_day = number 2,
                dt_hour = number 3, dt_minute = number 4, dt_second = number 5,
                dt_microsecond = int (nat_of_text (fraction @ replicate (6 - length fraction) CHR ''0''))\<rparr> in
          case (if offset = ''Z'' then Inr 0 else parse_offset offset) of
            Inl e \<Rightarrow> Inl (ValueError ''timestamp contains an invalid date, time, or offset'')
          | Inr minutes \<Rightarrow>
              if datetime_ok parsed then normalize_utc parsed minutes
              else Inl (ValueError ''timestamp contains an invalid date, time, or offset''))"

definition utc_from_bytes :: "bytes \<Rightarrow> (py_error, UtcTimestamp) result" where
  "utc_from_bytes value =
     (case decode_ascii value ''timestamp'' of
        Inl e \<Rightarrow> Inl e
      | Inr t \<Rightarrow> utc_parse t)"

subsection \<open>Round trip\<close>

lemma clock_split: "(s div 3600 * 60 + s mod 3600 div 60) * 60 + s mod 60 = s" for s :: int
proof -
  have "s div 60 div 60 = s div 3600" using zdiv_zmult2_eq [of 60 s 60] by simp
  moreover have "s mod 3600 = 60 * (s div 60 mod 60) + s mod 60"
    using zmod_zmult2_eq [of 60 s 60] by simp
  then have "s mod 3600 div 60 = s div 60 mod 60" by (rule int_div_pos_eq) simp_all
  ultimately have "s div 3600 * 60 + s mod 3600 div 60 = s div 60"
    using div_mult_mod_eq [of "s div 60" 60] by simp
  then show ?thesis using div_mult_mod_eq [of s 60] by simp
qed

lemma clock_bounds:
  fixes s :: int
  assumes "0 \<le> s" "s < 86400"
  shows "0 \<le> s div 3600" "s div 3600 < 24" "0 \<le> s mod 3600 div 60" "s mod 3600 div 60 < 60"
  using assms pos_mod_bound [of 3600 s] pos_mod_sign [of 3600 s]
  by (simp_all add: pos_imp_zdiv_nonneg_iff div_less_iff_less_mult)

lemma fields_of_instant_split:
  assumes "date_of_day (t div MICROSECONDS_PER_DAY + EPOCH_DAY) = (y, m, d)"
  obtains h n s u where "fields_of_instant t = \<lparr>dt_year = y, dt_month = m, dt_day = d, dt_hour = h,
      dt_minute = n, dt_second = s, dt_microsecond = u\<rparr>"
    and "t mod MICROSECONDS_PER_DAY = ((h * 60 + n) * 60 + s) * 1000000 + u"
    and "0 \<le> h" "h < 24" "0 \<le> n" "n < 60" "0 \<le> s" "s < 60" "0 \<le> u" "u < 1000000"
proof -
  define v where "v = t mod MICROSECONDS_PER_DAY"
  define w where "w = v div 1000000"
  have "0 \<le> v" "v < 86400000000" by (simp_all add: v_def MICROSECONDS_PER_DAY_def)
  then have w: "0 \<le> w" "w < 86400"
    by (simp_all add: w_def pos_imp_zdiv_nonneg_iff div_less_iff_less_mult)
  have v: "v = w * 1000000 + v mod 1000000" by (simp add: w_def)
  have eq: "fields_of_instant t = \<lparr>dt_year = y, dt_month = m, dt_day = d, dt_hour = w div 3600,
      dt_minute = w mod 3600 div 60, dt_second = w mod 60, dt_microsecond = v mod 1000000\<rparr>"
    using assms by (simp add: fields_of_instant_def w_def v_def Let_def)
  show thesis
  proof (rule that [OF eq])
    show "t mod MICROSECONDS_PER_DAY =
        ((w div 3600 * 60 + w mod 3600 div 60) * 60 + w mod 60) * 1000000 + v mod 1000000"
      unfolding clock_split using v by (simp only: v_def)
  qed (use clock_bounds [OF w] in simp_all)
qed

lemma instant_of_fields_of_instant: "instant_of_fields (fields_of_instant t) = t"
proof -
  obtain y m d where date: "date_of_day (t div MICROSECONDS_PER_DAY + EPOCH_DAY) = (y, m, d)"
    by (cases "date_of_day (t div MICROSECONDS_PER_DAY + EPOCH_DAY)")
  define q where "q = t div MICROSECONDS_PER_DAY"
  have "day_number y m d = q + EPOCH_DAY" using date_of_day_spec [OF date] q_def by simp
  moreover have "t = q * MICROSECONDS_PER_DAY + t mod MICROSECONDS_PER_DAY" by (simp add: q_def)
  ultimately show ?thesis
    by (rule_tac fields_of_instant_split [OF date]) (simp add: instant_of_fields_def)
qed

lemma fields_of_instant_ok:
  assumes "valid_utc t"
  shows "datetime_ok (fields_of_instant t)"
proof -
  obtain y m d where date: "date_of_day (t div MICROSECONDS_PER_DAY + EPOCH_DAY) = (y, m, d)"
    by (cases "date_of_day (t div MICROSECONDS_PER_DAY + EPOCH_DAY)")
  note spec = date_of_day_spec [OF date]
  have "UTC_MIN div MICROSECONDS_PER_DAY \<le> t div MICROSECONDS_PER_DAY"
    "t div MICROSECONDS_PER_DAY \<le> UTC_MAX div MICROSECONDS_PER_DAY"
    using assms by (simp_all add: valid_utc_def zdiv_mono1 MICROSECONDS_PER_DAY_def)
  then have day: "0 \<le> day_number y m d" "day_number y m d < days_before_year 10000"
    using spec by (simp_all add: UTC_MIN_def UTC_MAX_def MICROSECONDS_PER_DAY_def EPOCH_DAY_def
        days_before_year_def)
  have within: "days_before_year y \<le> day_number y m d" "day_number y m d < days_before_year (y + 1)"
    using spec day_number_within by blast+
  have "1 \<le> y"
    using days_before_year_mono [of "y + 1" 1] within(2) day(1) by (force simp: days_before_year_def)
  moreover have "y \<le> 9999"
    using days_before_year_mono [of 10000 y] within(1) day(2) by force
  ultimately show ?thesis
    using spec by (rule_tac fields_of_instant_split [OF date]) (simp add: datetime_ok_def)
qed

lemma take_digits_zero_padded:
  "n < 10 ^ w \<Longrightarrow> 0 < w \<Longrightarrow> take_digits w (zero_padded w n @ rest) = Some (zero_padded w n, rest)"
  by (simp add: take_digits_def length_zero_padded zero_padded_digits)

lemma month_lengths_le: "n \<in> set (month_lengths y) \<Longrightarrow> n \<le> 31"
  by (auto simp: month_lengths_def)

lemma days_in_month_le: "1 \<le> m \<Longrightarrow> m \<le> 12 \<Longrightarrow> days_in_month y m \<le> 31"
  unfolding days_in_month_def by (rule month_lengths_le [of _ y], rule nth_mem) simp

lemma take_fraction_micros:
  "n < 1000000 \<Longrightarrow> take_fraction (CHR ''.'' # zero_padded 6 n @ ''Z'') = Some (zero_padded 6 n, ''Z'')"
proof -
  assume "n < 1000000"
  then have len: "length (zero_padded 6 n) = 6" by (intro length_zero_padded) simp_all
  have z: "\<not> is_digit CHR ''Z''" by code_simp
  have "\<forall>c \<in> set (zero_padded 6 n). is_digit c" using zero_padded_digits [of 6 n] by (simp add: list_all_iff)
  then show ?thesis using z len by (simp add: take_fraction_def Let_def)
qed

lemma fields_small:
  assumes "datetime_ok f"
  shows "nat (dt_year f) < 10 ^ 4" "dt_month f < 10 ^ 2" "nat (dt_day f) < 10 ^ 2"
    "nat (dt_hour f) < 10 ^ 2" "nat (dt_minute f) < 10 ^ 2" "nat (dt_second f) < 10 ^ 2"
    "nat (dt_microsecond f) < 1000000" "nat (dt_microsecond f) < 10 ^ 6"
  using assms days_in_month_le [of "dt_month f" "dt_year f"] by (simp_all add: datetime_ok_def nat_less_iff)

lemma length_utc_str: "valid_utc t \<Longrightarrow> length (utc_str t) = 27"
  using fields_small [OF fields_of_instant_ok, of t] by (simp add: utc_str_def Let_def length_zero_padded)

lemma utc_parse_str:
  assumes "valid_utc t"
  shows "utc_parse (utc_str t) = Inr t"
proof -
  let ?f = "fields_of_instant t"
  note ok = fields_of_instant_ok [OF assms]
  note small = fields_small [OF ok]
  let ?parts = "[zero_padded 4 (nat (dt_year ?f)), zero_padded 2 (dt_month ?f), zero_padded 2 (nat (dt_day ?f)),
      zero_padded 2 (nat (dt_hour ?f)), zero_padded 2 (nat (dt_minute ?f)), zero_padded 2 (nat (dt_second ?f))]"
  have "offset_pattern ''Z''" by (simp add: offset_pattern_def)
  then have pat: "timestamp_pattern (utc_str t) =
      Some (?parts, zero_padded 6 (nat (dt_microsecond ?f)), ''Z'')"
    unfolding timestamp_pattern_def utc_str_def Let_def
    using small by (simp add: take_digits_zero_padded take_fraction_micros)
  have "\<lparr>dt_year = int (nat_of_text (?parts ! 0)), dt_month = nat (int (nat_of_text (?parts ! 1))),
      dt_day = int (nat_of_text (?parts ! 2)), dt_hour = int (nat_of_text (?parts ! 3)),
      dt_minute = int (nat_of_text (?parts ! 4)), dt_second = int (nat_of_text (?parts ! 5)),
      dt_microsecond = dt_microsecond ?f\<rparr> = ?f"
    using ok by (intro datetime.equality) (simp_all add: datetime_ok_def)
  moreover have "int (nat_of_text (zero_padded 6 (nat (dt_microsecond ?f)) @
      replicate (6 - length (zero_padded 6 (nat (dt_microsecond ?f)))) CHR ''0'')) = dt_microsecond ?f"
    using ok small(8) by (simp add: datetime_ok_def length_zero_padded)
  ultimately show ?thesis
    using ok assms by (simp only: utc_parse_def pat option.case prod.case Let_def if_True sum.case
        normalize_utc_def instant_of_fields_of_instant) simp
qed

lemma utc_parse_valid: "utc_parse s = Inr t \<Longrightarrow> valid_utc t"
  by (auto simp: utc_parse_def normalize_utc_def Let_def split: option.splits if_splits sum.splits)

lemma zero_padded_ascii: "list_all is_ascii (zero_padded w n)"
  using zero_padded_digits [of w n] by (auto simp: list_all_iff is_digit_def is_ascii_def)

lemma utc_str_ascii: "list_all is_ascii (utc_str t)"
proof -
  have "list_all is_ascii ''-T:.Z''" by code_simp
  then show ?thesis using zero_padded_ascii by (simp add: utc_str_def Let_def)
qed

text \<open>
  Every instant of the years 1 to 9999 is read back from its printed text and from its bytes,
  so distinct instants print differently, and whatever text or bytes the parser accepts denotes an
  instant in that range.
\<close>

theorem timestamp_roundtrip:
  "(valid_utc t \<longrightarrow> utc_parse (utc_str t) = Inr t \<and> utc_from_bytes (utc_str t) = Inr t) \<and>
   (valid_utc t \<and> valid_utc t' \<and> utc_str t = utc_str t' \<longrightarrow> t = t') \<and>
   (utc_from_bytes s = Inr u \<longrightarrow> utc_parse s = Inr u \<and> valid_utc u)"
proof (intro conjI impI)
  assume "valid_utc t \<and> valid_utc t' \<and> utc_str t = utc_str t'"
  then show "t = t'" using utc_parse_str by (metis sum.inject(2))
next
  assume "utc_from_bytes s = Inr u"
  then show parse: "utc_parse s = Inr u" by (simp add: utc_from_bytes_def decode_ascii_def split: if_splits)
  show "valid_utc u" by (rule utc_parse_valid [OF parse])
next
  assume "valid_utc t"
  then show parse: "utc_parse (utc_str t) = Inr t" by (rule utc_parse_str)
  then show "utc_from_bytes (utc_str t) = Inr t"
    by (simp only: utc_from_bytes_def decode_ascii_def utc_str_ascii if_True sum.case)
qed

theorem timestamp_roundtrip_witness:
  "utc_parse (utc_str 1709215445000007) = Inr 1709215445000007 \<and>
   utc_str 1709215445000007 = ''2024-02-29T14:04:05.000007Z''"
proof -
  have "valid_utc 1709215445000007" by (simp add: valid_utc_def UTC_MIN_def UTC_MAX_def)
  with timestamp_roundtrip [of 1709215445000007] have parse: "utc_parse (utc_str 1709215445000007) = Inr 1709215445000007"
    by blast
  have "date_of_day 738944 = (2024, 2, 29)"
    using date_of_day_number [of 2 29 2024]
    by (simp add: day_number_def days_before_year_def month_lengths_def days_in_month_def is_leap_def)
  then have "fields_of_instant 1709215445000007 = \<lparr>dt_year = 2024, dt_month = 2, dt_day = 29, dt_hour = 14,
      dt_minute = 4, dt_second = 5, dt_microsecond = 7\<rparr>"
    by (simp add: fields_of_instant_def MICROSECONDS_PER_DAY_def EPOCH_DAY_def)
  moreover have "zero_padded 4 2024 = ''2024''" "zero_padded 2 2 = ''02''" "zero_padded 2 29 = ''29''"
    "zero_padded 2 14 = ''14''" "zero_padded 2 4 = ''04''" "zero_padded 2 5 = ''05''"
    "zero_padded 6 7 = ''000007''" by code_simp+
  ultimately have "utc_str 1709215445000007 = ''2024-02-29T14:04:05.000007Z''"
    by (simp add: utc_str_def)
  with parse show ?thesis by blast
qed

end
