(* ===== verification/Monetary.thy ===== *)
theory Monetary
  imports Temporal
begin

text \<open>
  Exact monetary values (\<^verbatim>\<open>domain/models/money.py\<close>).  A \<^verbatim>\<open>Decimal\<close> is its \<^verbatim>\<open>as_tuple()\<close>: a sign, a
  coefficient and an exponent, or one of the values that are not finite.  Amounts are compared and
  rescaled by powers of ten, as \<^verbatim>\<open>quantize\<close> does with the \<^verbatim>\<open>Inexact\<close> trap; the precision of 32 digits is
  never exceeded, because the magnitude check leaves at most 15.  A canonical amount has exactly the
  exponent of its currency's minor unit and no negative zero, so that equality of \<^verbatim>\<open>Money\<close> values is
  equality of the three fields.
\<close>

subsection \<open>Currencies\<close>

type_synonym CurrencyCode = string

definition validate_currency :: "string \<Rightarrow> (py_error, CurrencyCode) result" where
  "validate_currency value =
     (if length value = 3 \<and> list_all is_upper value then Inr value
      else Inl (ValueError ''currency code must contain exactly three uppercase ASCII letters''))"

definition currency_from_bytes :: "bytes \<Rightarrow> (py_error, CurrencyCode) result" where
  "currency_from_bytes value = bind_result (decode_ascii value ''currency'') validate_currency"

subsection \<open>Amounts\<close>

datatype Decimal =
    Finite (negative: bool) (coefficient: nat) (exponent: int)
  | NotFinite

record Money =
  amount :: Decimal
  currency :: CurrencyCode
  minor_unit_exponent :: int

definition MAX_MINOR_UNIT_EXPONENT :: int where "MAX_MINOR_UNIT_EXPONENT = 6"
definition MAX_ABSOLUTE_MINOR_UNITS :: nat where "MAX_ABSOLUTE_MINOR_UNITS = 999999999999999"

definition validate_minor_unit_exponent :: "int \<Rightarrow> (py_error, int) result" where
  "validate_minor_unit_exponent value =
     (if 0 \<le> value \<and> value \<le> MAX_MINOR_UNIT_EXPONENT then Inr value
      else Inl (ValueError ''minor-unit exponent must be between zero and six''))"

text \<open>\<open>c * 10 ^ k\<close> against a bound, and as an exact integer when it is one.\<close>

definition scaled_exceeds :: "nat \<Rightarrow> int \<Rightarrow> nat \<Rightarrow> bool" where
  "scaled_exceeds c k bound \<longleftrightarrow> (if 0 \<le> k then c * 10 ^ nat k > bound else c > bound * 10 ^ nat (- k))"

definition scaled_exact :: "nat \<Rightarrow> int \<Rightarrow> nat option" where
  "scaled_exact c k =
     (if 0 \<le> k then Some (c * 10 ^ nat k)
      else if c mod 10 ^ nat (- k) = 0 then Some (c div 10 ^ nat (- k)) else None)"

definition canonical_amount :: "Decimal \<Rightarrow> int \<Rightarrow> (py_error, Decimal) result" where
  "canonical_amount value e =
     (case value of
        NotFinite \<Rightarrow> Inl (ValueError ''money amount must be finite'')
      | Finite sign c x \<Rightarrow>
          if scaled_exceeds c (x + e) MAX_ABSOLUTE_MINOR_UNITS
          then Inl (ValueError ''money amount exceeds the supported magnitude'')
          else
            case scaled_exact c (x + e) of
              None \<Rightarrow> Inl (ValueError ''money amount exceeds the declared minor-unit precision'')
            | Some n \<Rightarrow> Inr (Finite (sign \<and> n \<noteq> 0) n (- e)))"

definition make_Money :: "Decimal \<Rightarrow> CurrencyCode \<Rightarrow> int \<Rightarrow> (py_error, Money) result" where
  "make_Money a c e =
     bind_result (validate_minor_unit_exponent e) (\<lambda>e.
     bind_result (canonical_amount a e) (\<lambda>a.
     Inr \<lparr>amount = a, currency = c, minor_unit_exponent = e\<rparr>))"

text \<open>\<^verbatim>\<open>minor_units\<close>: \<^verbatim>\<open>int(amount.scaleb(exponent))\<close>, truncation of the scaled amount.  The amount of a
  constructed value is finite.\<close>

definition minor_units :: "Money \<Rightarrow> int" where
  "minor_units m =
     (case amount m of
        NotFinite \<Rightarrow> 0
      | Finite sign c x \<Rightarrow>
          let k = x + minor_unit_exponent m;
              n = (if 0 \<le> k then c * 10 ^ nat k else c div 10 ^ nat (- k)) in
          if sign then - int n else int n)"

subsection \<open>Text\<close>

text \<open>\<^verbatim>\<open>f"{currency} {amount:.{exponent}f}"\<close> of an amount with that exponent.\<close>

definition Money_str :: "Money \<Rightarrow> string" where
  "Money_str m =
     currency m @ '' '' @
     (case amount m of
        NotFinite \<Rightarrow> []
      | Finite sign c x \<Rightarrow>
          let e = nat (minor_unit_exponent m) in
          (if sign then ''-'' else []) @ nat_str (c div 10 ^ e) @
          (if e = 0 then [] else ''.'' @ zero_padded e (c mod 10 ^ e)))"

definition MAX_MONEY_TEXT_LENGTH :: nat where "MAX_MONEY_TEXT_LENGTH = 21"

text \<open>The groups of \<^verbatim>\<open>_MONEY_PATTERN\<close>: currency, sign, integer digits and fraction.\<close>

definition money_pattern :: "string \<Rightarrow> (string \<times> bool \<times> string \<times> string option) option" where
  "money_pattern s =
     (let cur = take 3 s; rest = drop 4 s; sign = (take 1 rest = ''-'');
          unsigned = (if sign then drop 1 rest else rest);
          whole = takeWhile is_digit unsigned; tail = dropWhile is_digit unsigned in
      if length cur = 3 \<and> list_all is_upper cur \<and> take 1 (drop 3 s) = '' '' \<and>
         (whole = ''0'' \<or> sequence_pattern whole)
      then
        if tail = [] then Some (cur, sign, whole, None)
        else if take 1 tail = ''.'' \<and> drop 1 tail \<noteq> [] \<and> list_all is_digit (drop 1 tail)
        then Some (cur, sign, whole, Some (drop 1 tail))
        else None
      else None)"

definition Money_parse :: "string \<Rightarrow> (py_error, Money) result" where
  "Money_parse s =
     bind_result (require (length s \<le> MAX_MONEY_TEXT_LENGTH)
       (ValueError ''money representation exceeds the supported size'')) (\<lambda>_.
     case money_pattern s of
       None \<Rightarrow> Inl (ValueError ''money must use canonical `<currency> <amount>` form'')
     | Some (cur, sign, whole, fraction) \<Rightarrow>
         let frac = (case fraction of None \<Rightarrow> [] | Some f \<Rightarrow> f);
             e = int (length frac) in
         bind_result (validate_currency cur) (\<lambda>c.
         bind_result (make_Money (Finite sign (nat_of_text (whole @ frac)) (- e)) c e) (\<lambda>money.
         bind_result (require (Money_str money = s) (ValueError ''money representation is not canonical'')) (\<lambda>_.
         Inr money))))"

definition Money_from_bytes :: "bytes \<Rightarrow> (py_error, Money) result" where
  "Money_from_bytes value = bind_result (decode_ascii value ''money'') Money_parse"

subsection \<open>Values\<close>

text \<open>What the constructor guarantees: a canonical amount.\<close>

definition money_ok :: "Money \<Rightarrow> bool" where
  "money_ok m \<longleftrightarrow> validate_currency (currency m) = Inr (currency m) \<and>
     0 \<le> minor_unit_exponent m \<and> minor_unit_exponent m \<le> MAX_MINOR_UNIT_EXPONENT \<and>
     (\<exists>sign n. amount m = Finite sign n (- minor_unit_exponent m) \<and> n \<le> MAX_ABSOLUTE_MINOR_UNITS \<and>
        (sign \<longrightarrow> n \<noteq> 0))"

lemma scaled_exact_bound:
  "scaled_exact c k = Some n \<Longrightarrow> \<not> scaled_exceeds c k b \<Longrightarrow> n \<le> b"
  by (auto simp: scaled_exact_def scaled_exceeds_def split: if_splits)

lemma make_Money_ok:
  assumes "make_Money a c e = Inr m" and "validate_currency c = Inr c"
  shows "money_ok m"
  using assms
  by (auto simp: make_Money_def validate_minor_unit_exponent_def canonical_amount_def money_ok_def
      result_simps dest: scaled_exact_bound split: if_splits Decimal.splits option.splits)

lemma make_Money_canonical:
  assumes "money_ok m"
  shows "make_Money (amount m) (currency m) (minor_unit_exponent m) = Inr m"
proof -
  from assms obtain sign n where "amount m = Finite sign n (- minor_unit_exponent m)"
    "n \<le> MAX_ABSOLUTE_MINOR_UNITS" "sign \<longrightarrow> n \<noteq> 0" and "0 \<le> minor_unit_exponent m"
    "minor_unit_exponent m \<le> MAX_MINOR_UNIT_EXPONENT"
    by (auto simp: money_ok_def)
  then show ?thesis
    by (auto simp: make_Money_def validate_minor_unit_exponent_def canonical_amount_def scaled_exact_def
        scaled_exceeds_def intro!: Money.equality)
qed

subsection \<open>Round trip\<close>

lemma nat_of_text_append: "nat_of_text (s @ t) = nat_of_text s * 10 ^ length t + nat_of_text t"
proof (induction t rule: rev_induct)
  case (snoc c t)
  then show ?case
    using nat_of_text_snoc [of "s @ t" c] nat_of_text_snoc [of t c] by simp
qed simp

text \<open>The three parts of the printed amount.\<close>

definition fraction_text :: "nat \<Rightarrow> nat \<Rightarrow> string" where
  "fraction_text e n = (if e = 0 then [] else zero_padded e (n mod 10 ^ e))"

lemma fraction_text:
  "length (fraction_text e n) = e" "list_all is_digit (fraction_text e n)"
  "nat_of_text (fraction_text e n) = n mod 10 ^ e"
  by (simp_all add: fraction_text_def length_zero_padded zero_padded_digits)

lemma Money_str_parts:
  assumes "amount m = Finite sign n x" and "e = nat (minor_unit_exponent m)"
  shows "Money_str m = currency m @ '' '' @ (if sign then ''-'' else []) @ nat_str (n div 10 ^ e) @
    (if e = 0 then [] else ''.'' @ fraction_text e n)"
  using assms by (simp add: Money_str_def fraction_text_def Let_def)

lemma canonical_whole: "nat_str n = ''0'' \<or> sequence_pattern (nat_str n)"
  by (cases "n = 0") (simp_all add: nat_str.simps [of 0] digit_char_0 sequence_pattern_nat_str)

lemma money_pattern_parts:
  assumes cur: "length cur = 3" "list_all is_upper cur"
    and frac: "list_all is_digit frac" "e = length frac"
  shows "money_pattern (cur @ '' '' @ (if sign then ''-'' else []) @ nat_str w @
      (if e = 0 then [] else ''.'' @ frac)) = Some (cur, sign, nat_str w, if e = 0 then None else Some frac)"
proof -
  let ?tail = "if e = 0 then [] else ''.'' @ frac"
  let ?text = "cur @ '' '' @ (if sign then ''-'' else []) @ nat_str w @ ?tail"
  have head: "take 3 ?text = cur" "drop 4 ?text = (if sign then ''-'' else []) @ nat_str w @ ?tail"
    "take 1 (drop 3 ?text) = '' ''" using cur(1) by simp_all
  have dot: "\<not> is_digit CHR ''.''" "\<not> is_digit CHR ''-''" by code_simp+
  have digits: "\<forall>c \<in> set (nat_str w). is_digit c" using nat_str_digits [of w] by (simp add: list_all_iff)
  then have "hd (nat_str w) \<noteq> CHR ''-''" using dot(2) nat_str_nonempty [of w] by (metis hd_in_set)
  then have "take 1 (nat_str w @ ?tail) \<noteq> ''-''" by (cases "nat_str w") simp_all
  then have sign: "take 1 (drop 4 ?text) = ''-'' \<longleftrightarrow> sign"
    "(if sign then drop 1 (drop 4 ?text) else drop 4 ?text) = nat_str w @ ?tail"
    unfolding head by simp_all
  have whole: "takeWhile is_digit (nat_str w @ ?tail) = nat_str w" "dropWhile is_digit (nat_str w @ ?tail) = ?tail"
    using digits dot by simp_all
  show ?thesis
    unfolding money_pattern_def Let_def sign whole head(1,3)
    using cur frac canonical_whole [of w] by simp
qed

lemma length_whole:
  assumes "n \<le> MAX_ABSOLUTE_MINOR_UNITS" "e \<le> 6"
  shows "length (nat_str (n div 10 ^ e)) + e \<le> 15"
proof -
  have "n < 10 ^ (15 - e) * 10 ^ e"
    using assms by (simp add: MAX_ABSOLUTE_MINOR_UNITS_def flip: power_add)
  then have "n div 10 ^ e < 10 ^ (15 - e)" by (simp add: div_less_iff_less_mult)
  then have "length (nat_str (n div 10 ^ e)) \<le> 15 - e" using assms by (intro length_nat_str_le) simp_all
  with assms show ?thesis by simp
qed

lemma Money_parse_str:
  assumes "money_ok m"
  shows "Money_parse (Money_str m) = Inr m"
proof -
  define e where "e = nat (minor_unit_exponent m)"
  from assms obtain sign n where m: "amount m = Finite sign n (- minor_unit_exponent m)"
    and n: "n \<le> MAX_ABSOLUTE_MINOR_UNITS" and cur: "validate_currency (currency m) = Inr (currency m)"
    unfolding money_ok_def by blast
  from assms have e: "minor_unit_exponent m = int e" "e \<le> 6"
    by (simp_all add: money_ok_def e_def MAX_MINOR_UNIT_EXPONENT_def nat_le_iff)
  from cur have cur3: "length (currency m) = 3" "list_all is_upper (currency m)"
    by (simp_all add: validate_currency_def split: if_splits)
  note str = Money_str_parts [OF m e_def]
  let ?w = "nat_str (n div 10 ^ e)" and ?f = "fraction_text e n"
  have len: "length (Money_str m) \<le> MAX_MONEY_TEXT_LENGTH"
    unfolding str using cur3 length_whole [OF n e(2)]
    by (auto simp: MAX_MONEY_TEXT_LENGTH_def fraction_text(1))
  have pat: "money_pattern (Money_str m) = Some (currency m, sign, ?w, if e = 0 then None else Some ?f)"
    unfolding str using money_pattern_parts [OF cur3 fraction_text(2) fraction_text(1) [symmetric]] .
  have frac: "(case if e = 0 then None else Some ?f of None \<Rightarrow> [] | Some f \<Rightarrow> f) = ?f"
    by (simp add: fraction_text_def)
  have num: "nat_of_text (?w @ ?f) = n"
    by (simp only: nat_of_text_append fraction_text nat_of_text_nat_str div_mult_mod_eq)
  have make: "make_Money (Finite sign n (- int e)) (currency m) (int e) = Inr m"
    using make_Money_canonical [OF assms] by (simp only: m e(1))
  show ?thesis
    using len by (simp add: Money_parse_def pat frac num fraction_text(1) cur make Let_def)
qed

lemma Money_parse_Inr:
  assumes "Money_parse s = Inr m"
  shows "Money_str m = s \<and> money_ok m"
proof -
  from assms obtain cur d e where "validate_currency cur = Inr cur" "make_Money d cur e = Inr m" "Money_str m = s"
    by (auto simp: Money_parse_def validate_currency_def result_simps Let_def split: option.splits if_splits)
  then show ?thesis using make_Money_ok by blast
qed

lemma minor_units_inj:
  assumes "money_ok m" "money_ok m'" "minor_units m = minor_units m'"
    and "currency m = currency m'" "minor_unit_exponent m = minor_unit_exponent m'"
  shows "m = m'"
proof -
  from assms(1,2) obtain s n s' n' where
    "amount m = Finite s n (- minor_unit_exponent m)" "s \<longrightarrow> n \<noteq> 0"
    "amount m' = Finite s' n' (- minor_unit_exponent m')" "s' \<longrightarrow> n' \<noteq> 0"
    by (auto simp: money_ok_def)
  with assms(3-) show ?thesis
    by (intro Money.equality) (auto simp: minor_units_def Let_def split: if_splits)
qed

text \<open>
  Money survives its text form and its stored form: a constructed value is parsed from the text it prints,
  every text the parser accepts is the one its value prints (so no value has two accepted texts), and the
  currency, the exponent and the signed integer of minor units determine the value.
\<close>

theorem money_roundtrip:
  "(make_Money a c e = Inr m \<and> validate_currency c = Inr c \<longrightarrow>
      Money_parse (Money_str m) = Inr m \<and>
      (make_Money a' c e = Inr m' \<and> minor_units m' = minor_units m \<longrightarrow> m' = m)) \<and>
   (Money_parse s = Inr m \<longrightarrow> Money_str m = s)"
proof (intro conjI impI)
  assume m: "make_Money a c e = Inr m \<and> validate_currency c = Inr c"
  then have ok: "money_ok m" using make_Money_ok by blast
  then show "Money_parse (Money_str m) = Inr m" by (rule Money_parse_str)
  assume m': "make_Money a' c e = Inr m' \<and> minor_units m' = minor_units m"
  with m have "money_ok m'" using make_Money_ok by blast
  moreover have "currency m = c" "currency m' = c" "minor_unit_exponent m = minor_unit_exponent m'"
    using m m' by (auto simp: make_Money_def validate_minor_unit_exponent_def result_simps split: if_splits)
  ultimately show "m' = m" using ok m' minor_units_inj [of m' m] by simp
qed (use Money_parse_Inr in blast)

theorem money_roundtrip_witness:
  "Money_parse (Money_str \<lparr>amount = Finite True 1250 (-2), currency = ''EUR'', minor_unit_exponent = 2\<rparr>) =
     Inr \<lparr>amount = Finite True 1250 (-2), currency = ''EUR'', minor_unit_exponent = 2\<rparr> \<and>
   make_Money (Finite True 125 (-1)) ''EUR'' 2 =
     Inr \<lparr>amount = Finite True 1250 (-2), currency = ''EUR'', minor_unit_exponent = 2\<rparr>"
proof -
  have "validate_currency ''EUR'' = Inr ''EUR''" by code_simp
  moreover have "make_Money (Finite True 125 (-1)) ''EUR'' 2 =
      Inr \<lparr>amount = Finite True 1250 (-2), currency = ''EUR'', minor_unit_exponent = 2\<rparr>"
    by (simp add: make_Money_def validate_minor_unit_exponent_def canonical_amount_def scaled_exact_def
        scaled_exceeds_def MAX_MINOR_UNIT_EXPONENT_def MAX_ABSOLUTE_MINOR_UNITS_def)
  ultimately show ?thesis using money_roundtrip by blast
qed

end
