(* ===== verification/Inventory.thy ===== *)
theory Inventory
  imports Calendar Monetary
begin

text \<open>
  Canonical inventory records (\<^verbatim>\<open>domain/models/inventory.py\<close>).  Business text is modelled on the code points
  below 256, one character each.  On those the Unicode functions of the standard library are the
  following: \<^verbatim>\<open>normalize("NFC", t)\<close> returns \<open>t\<close> (no such code point combines or decomposes), a code point
  takes one byte of UTF-8 below 128 and two from there on (\<open>utf8_length\<close>), \<^verbatim>\<open>isspace\<close> is \<open>is_space\<close>, and
  the categories that start with C are \<open>is_category_c\<close>: the control characters and the soft hyphen.
\<close>

subsection \<open>Business text\<close>

definition utf8_length :: "string \<Rightarrow> nat" where
  "utf8_length t = sum_list (map (\<lambda>c. if is_ascii c then 1 else 2) t)"

definition is_space :: "char \<Rightarrow> bool" where
  "is_space c \<longleftrightarrow> (9 \<le> code c \<and> code c \<le> 13) \<or> (28 \<le> code c \<and> code c \<le> 32) \<or> code c = 133 \<or> code c = 160"

definition is_category_c :: "char \<Rightarrow> bool" where
  "is_category_c c \<longleftrightarrow> code c \<le> 31 \<or> (127 \<le> code c \<and> code c \<le> 159) \<or> code c = 173"

fun has_double_space :: "string \<Rightarrow> bool" where
  "has_double_space (a # b # s) = ((a = CHR '' '' \<and> b = CHR '' '') \<or> has_double_space (b # s))"
| "has_double_space s = False"

definition normalize_business_text ::
  "string \<Rightarrow> string \<Rightarrow> nat \<Rightarrow> nat \<Rightarrow> bool \<Rightarrow> (py_error, string) result" where
  "normalize_business_text t subject max_characters max_utf8_bytes allow_empty =
     bind_result (require (\<not> (t = [] \<and> \<not> allow_empty)) (ValueError (subject @ '' must not be empty''))) (\<lambda>_.
     bind_result (require (\<not> ((t \<noteq> [] \<and> (hd t = CHR '' '' \<or> last t = CHR '' '')) \<or> has_double_space t))
       (ValueError (subject @ '' must use canonical spacing''))) (\<lambda>_.
     bind_result (require (\<not> list_ex (\<lambda>c. is_space c \<and> c \<noteq> CHR '' '') t)
       (ValueError (subject @ '' contains unsupported whitespace''))) (\<lambda>_.
     bind_result (require (\<not> list_ex is_category_c t)
       (ValueError (subject @ '' contains a control or unsupported code point''))) (\<lambda>_.
     bind_result (require (\<not> (length t > max_characters \<or> utf8_length t > max_utf8_bytes))
       (ValueError (subject @ '' exceeds its size limit''))) (\<lambda>_.
     Inr t)))))"

subsection \<open>Attributes\<close>

type_synonym InventoryAttributes = "(string \<times> string) list"

definition MAX_ITEMS :: nat where "MAX_ITEMS = 32"
definition MAX_TOTAL_UTF8_BYTES :: nat where "MAX_TOTAL_UTF8_BYTES = 4096"

definition ATTRIBUTE_KEY_PATTERN :: "string \<Rightarrow> bool" where
  "ATTRIBUTE_KEY_PATTERN =
     seg_headed is_lower (\<lambda>c. is_lower c \<or> is_digit c) (\<lambda>c. c = CHR ''-'' \<or> c = CHR ''_'')"

text \<open>One iteration of the loop over the items, with the keys seen so far.\<close>

definition attribute_item :: "string set \<Rightarrow> string \<times> string \<Rightarrow> (py_error, string \<times> string) result" where
  "attribute_item seen item =
     (let (key, raw_value) = item in
      bind_result (require (ATTRIBUTE_KEY_PATTERN key)
        (ValueError ''inventory attribute keys must be canonical lowercase ASCII'')) (\<lambda>_.
      bind_result (require (length key \<le> 64)
        (ValueError ''inventory attribute key exceeds 64 characters'')) (\<lambda>_.
      bind_result (require (key \<notin> seen)
        (ValueError ''inventory attribute keys must be unique'')) (\<lambda>_.
      bind_result (normalize_business_text raw_value ''inventory attribute value'' 256 512 True) (\<lambda>v.
      Inr (key, v))))))"

fun attribute_loop ::
  "string set \<Rightarrow> (string \<times> string) list \<Rightarrow> (py_error, (string \<times> string) list) result" where
  "attribute_loop seen [] = Inr []"
| "attribute_loop seen (item # items) =
     bind_result (attribute_item seen item) (\<lambda>kv.
     bind_result (attribute_loop (insert (fst kv) seen) items) (\<lambda>rest.
     Inr (kv # rest)))"

definition canonical_attributes :: "(string \<times> string) list \<Rightarrow> (py_error, InventoryAttributes) result" where
  "canonical_attributes items =
     bind_result (require (length items \<le> MAX_ITEMS)
       (ValueError ''inventory record has too many attributes'')) (\<lambda>_.
     bind_result (attribute_loop {} items) (\<lambda>canonical.
     bind_result (require
         (sum_list (map (\<lambda>(k, v). length k + utf8_length v) canonical) \<le> MAX_TOTAL_UTF8_BYTES)
         (ValueError ''inventory attributes exceed the total encoded-size limit'')) (\<lambda>_.
     Inr (sort canonical))))"

text \<open>\<^verbatim>\<open>from_mapping\<close> stops at the 33rd item of a dict and otherwise copies its items.\<close>

definition attributes_from_mapping :: "(string, string) dict \<Rightarrow> (py_error, InventoryAttributes) result" where
  "attributes_from_mapping values =
     bind_result (require (length values \<le> MAX_ITEMS)
       (ValueError ''inventory record has too many attributes'')) (\<lambda>_.
     canonical_attributes values)"

definition attributes_get :: "InventoryAttributes \<Rightarrow> string \<Rightarrow> string option" where
  "attributes_get items key = map_of items key"

subsection \<open>Records\<close>

record InventoryRecord =
  sku :: string
  name :: string
  quantity :: int
  unit_price :: Money
  updated_at :: UtcTimestamp
  connector_id :: prefixed_id
  source_record_key :: string
  attributes :: InventoryAttributes

definition SKU_PATTERN :: "string \<Rightarrow> bool" where
  "SKU_PATTERN = seg_start (\<lambda>c. is_upper c \<or> is_digit c) (\<lambda>c. c = CHR ''-'')"

definition validate_sku :: "string \<Rightarrow> (py_error, string) result" where
  "validate_sku t =
     bind_result (require (1 \<le> length t \<and> length t \<le> 64)
       (ValueError ''SKU must contain between 1 and 64 characters'')) (\<lambda>_.
     bind_result (require (SKU_PATTERN t)
       (ValueError ''SKU must use canonical uppercase ASCII letters, digits, and hyphens'')) (\<lambda>_.
     Inr t))"

definition validate_quantity :: "int \<Rightarrow> (py_error, int) result" where
  "validate_quantity n =
     bind_result (require (0 \<le> n \<and> n \<le> 2147483647)
       (ValueError ''inventory quantity is outside the supported range'')) (\<lambda>_. Inr n)"

definition amount_negative :: "Decimal \<Rightarrow> bool" where
  "amount_negative a = (case a of NotFinite \<Rightarrow> False | Finite sign n x \<Rightarrow> sign \<and> n \<noteq> 0)"

definition validate_unit_price :: "Money \<Rightarrow> (py_error, Money) result" where
  "validate_unit_price m =
     bind_result (require (\<not> amount_negative (amount m))
       (ValueError ''inventory unit price must not be negative'')) (\<lambda>_. Inr m)"

definition make_InventoryRecord :: "InventoryRecord \<Rightarrow> (py_error, InventoryRecord) result" where
  "make_InventoryRecord r =
     bind_result (validate_sku (sku r)) (\<lambda>_.
     bind_result (normalize_business_text (name r) ''inventory name'' 160 320 False) (\<lambda>_.
     bind_result (validate_quantity (quantity r)) (\<lambda>_.
     bind_result (validate_unit_price (unit_price r)) (\<lambda>_.
     bind_result (normalize_business_text (source_record_key r) ''source record key'' 128 256 False) (\<lambda>_.
     Inr r)))))"

text \<open>\<^verbatim>\<open>InventoryRecord.create\<close>: the attributes are copied from a mapping first.\<close>

definition create_record ::
  "string \<Rightarrow> string \<Rightarrow> int \<Rightarrow> Money \<Rightarrow> UtcTimestamp \<Rightarrow> prefixed_id \<Rightarrow> string \<Rightarrow> (string, string) dict \<Rightarrow>
     (py_error, InventoryRecord) result" where
  "create_record s n q price updated connector key values =
     bind_result (attributes_from_mapping values) (\<lambda>items.
     make_InventoryRecord
       \<lparr>sku = s, name = n, quantity = q, unit_price = price, updated_at = updated,
        connector_id = connector, source_record_key = key, attributes = items\<rparr>)"

subsection \<open>What a constructed record satisfies\<close>

definition attributes_ok :: "InventoryAttributes \<Rightarrow> bool" where
  "attributes_ok items \<longleftrightarrow> well_keyed items \<and> sorted items \<and> length items \<le> MAX_ITEMS \<and>
     (\<forall>(k, v) \<in> set items. ATTRIBUTE_KEY_PATTERN k \<and> length k \<le> 64 \<and> length v \<le> 256)"

lemma normalize_business_text_Inr:
  "normalize_business_text t subject n b allow = Inr t' \<Longrightarrow>
     t' = t \<and> length t \<le> n \<and> utf8_length t \<le> b \<and> (t \<noteq> [] \<or> allow)"
  by (auto simp: normalize_business_text_def result_simps)

lemma attribute_item_Inr:
  "attribute_item seen item = Inr kv \<longleftrightarrow> kv = item \<and> ATTRIBUTE_KEY_PATTERN (fst item) \<and>
     length (fst item) \<le> 64 \<and> fst item \<notin> seen \<and>
     normalize_business_text (snd item) ''inventory attribute value'' 256 512 True = Inr (snd item)"
  by (cases item) (auto simp: attribute_item_def result_simps dest: normalize_business_text_Inr)

lemma attribute_loop_Inr:
  "attribute_loop seen items = Inr canonical \<longleftrightarrow>
     canonical = items \<and> well_keyed items \<and> set (keys items) \<inter> seen = {} \<and>
     (\<forall>(k, v) \<in> set items. ATTRIBUTE_KEY_PATTERN k \<and> length k \<le> 64 \<and>
        normalize_business_text v ''inventory attribute value'' 256 512 True = Inr v)"
proof (induction items arbitrary: seen canonical)
  case (Cons item items)
  then show ?case
    by (cases item) (auto simp: result_simps attribute_item_Inr)
qed auto

lemma canonical_attributes_Inr:
  assumes "canonical_attributes items = Inr canonical"
  shows "canonical = sort items \<and> attributes_ok canonical"
proof -
  from assms have eq: "canonical = sort items" and len: "length items \<le> MAX_ITEMS"
    and loop: "attribute_loop {} items = Inr items"
    by (auto simp: canonical_attributes_def result_simps attribute_loop_Inr)
  have "well_keyed (sort items)" using loop by (simp add: attribute_loop_Inr)
  with loop len eq show ?thesis
    by (auto simp: attributes_ok_def attribute_loop_Inr dest!: normalize_business_text_Inr)
qed

definition record_ok :: "InventoryRecord \<Rightarrow> bool" where
  "record_ok r \<longleftrightarrow> make_InventoryRecord r = Inr r \<and> attributes_ok (attributes r) \<and>
     money_ok (unit_price r) \<and> valid_utc (updated_at r)"

lemma make_InventoryRecord_Inr: "make_InventoryRecord r = Inr r' \<Longrightarrow> r' = r"
  by (auto simp: make_InventoryRecord_def result_simps)

lemma create_record_Inr:
  assumes "create_record s n q price updated connector key values = Inr r"
  shows "r = \<lparr>sku = s, name = n, quantity = q, unit_price = price, updated_at = updated,
      connector_id = connector, source_record_key = key, attributes = sort values\<rparr> \<and>
    attributes_ok (attributes r) \<and> make_InventoryRecord r = Inr r"
proof -
  from assms obtain items where "attributes_from_mapping values = Inr items"
    and make: "make_InventoryRecord \<lparr>sku = s, name = n, quantity = q, unit_price = price,
      updated_at = updated, connector_id = connector, source_record_key = key, attributes = items\<rparr> = Inr r"
    unfolding create_record_def result_simps by blast
  then have items: "items = sort values" and ok: "attributes_ok items"
    by (auto simp: attributes_from_mapping_def result_simps dest: canonical_attributes_Inr)
  from make_InventoryRecord_Inr [OF make] make ok show ?thesis unfolding items by simp
qed

lemma record_ok_facts:
  assumes "record_ok r"
  shows "sku r \<noteq> []" "source_record_key r \<noteq> []" "length (source_record_key r) \<le> 128"
    "length (name r) \<le> 160" "length (sku r) \<le> 64"
proof -
  from assms have "make_InventoryRecord r = Inr r" by (simp add: record_ok_def)
  then have sku: "1 \<le> length (sku r) \<and> length (sku r) \<le> 64"
    and "normalize_business_text (name r) ''inventory name'' 160 320 False = Inr (name r)"
    and "normalize_business_text (source_record_key r) ''source record key'' 128 256 False =
      Inr (source_record_key r)"
    by (auto simp: make_InventoryRecord_def validate_sku_def result_simps dest: normalize_business_text_Inr)
  then show "sku r \<noteq> []" "source_record_key r \<noteq> []" "length (source_record_key r) \<le> 128"
    "length (name r) \<le> 160" "length (sku r) \<le> 64"
    by (auto dest!: normalize_business_text_Inr)
qed

end
