(* ===== verification/Differences.thy ===== *)
theory Differences
  imports Inventory
begin

text \<open>
  Comparison leaves, comparison documents and field differences
  (\<^verbatim>\<open>domain/reconciliation/differences.py\<close>).  A JSON value of a payload is a \<open>json\<close>; a float is kept as the
  text JSON renders it to, its first character and the rest, and the keys of an object are text.
\<close>

subsection \<open>Errors and JSON values\<close>

datatype recon_error =
    PyError py_error
  | ComparisonDocumentError string
  | NormalizationError string
  | MatchingError string

type_synonym 'a recon_result = "(recon_error, 'a) result"

abbreviation value_error :: "string \<Rightarrow> recon_error" where
  "value_error m \<equiv> PyError (ValueError m)"

primrec lift_py :: "(py_error, 'a) result \<Rightarrow> 'a recon_result" where
  "lift_py (Inl e) = Inl (PyError e)"
| "lift_py (Inr a) = Inr a"

lemma lift_py_eq_Inr [result_simps]: "lift_py r = Inr a \<longleftrightarrow> r = Inr a"
  by (cases r) simp_all

datatype json =
    JNull
  | JBool bool
  | JInt int
  | JFloat char string
  | JText string
  | JList "json list"
  | JDict "(string \<times> json) list"

text \<open>\<^verbatim>\<open>json.dumps\<close> with \<^verbatim>\<open>ensure_ascii\<close>: what is not printable ASCII is escaped.\<close>

definition json_char :: "char \<Rightarrow> string" where
  "json_char c =
     (if c = CHR 0x22 then [CHR 0x5C, CHR 0x22]
      else if c = CHR 0x5C then [CHR 0x5C, CHR 0x5C]
      else if is_printable_ascii c then [c]
      else if code c = 10 then [CHR 0x5C, CHR ''n'']
      else if code c = 13 then [CHR 0x5C, CHR ''r'']
      else if code c = 9 then [CHR 0x5C, CHR ''t'']
      else if code c = 12 then [CHR 0x5C, CHR ''f'']
      else if code c = 8 then [CHR 0x5C, CHR ''b'']
      else [CHR 0x5C, CHR ''u'', CHR ''0'', CHR ''0'', hex_char (code c div 16), hex_char (code c mod 16)])"

definition json_text :: "string \<Rightarrow> string" where
  "json_text t = CHR 0x22 # concat (map json_char t) @ [CHR 0x22]"

definition int_str :: "int \<Rightarrow> string" where
  "int_str n = (if n < 0 then ''-'' @ nat_str (nat (- n)) else nat_str (nat n))"

definition comma_separated :: "string list \<Rightarrow> string" where
  "comma_separated parts = concat (case parts of [] \<Rightarrow> [] | p # ps \<Rightarrow> p # concat (map (\<lambda>q. ['','', q]) ps))"

text \<open>\<^verbatim>\<open>sort_keys=True\<close> sorts the items of an object by key; the keys of a dict are distinct.\<close>

fun json_dumps :: "json \<Rightarrow> string" where
  "json_dumps JNull = ''null''"
| "json_dumps (JBool b) = (if b then ''true'' else ''false'')"
| "json_dumps (JInt n) = int_str n"
| "json_dumps (JFloat c t) = c # t"
| "json_dumps (JText t) = json_text t"
| "json_dumps (JList xs) = ''['' @ comma_separated (map json_dumps xs) @ '']''"
| "json_dumps (JDict kvs) =
     CHR 0x7B # comma_separated (map (\<lambda>(k, t). json_text k @ '':'' @ t)
       (sort_key fst (map (\<lambda>(k, v). (k, json_dumps v)) kvs))) @ [CHR 0x7D]"

subsection \<open>Leaves\<close>

datatype ComparisonValueKind =
    Kind_TEXT | Kind_INTEGER | Kind_MONEY_AMOUNT | Kind_TIMESTAMP | Kind_ATTRIBUTE_TEXT
  | Kind_MISSING | Kind_NULL | Kind_WRONG_TYPE

fun ComparisonValueKind_value :: "ComparisonValueKind \<Rightarrow> string" where
  "ComparisonValueKind_value Kind_TEXT = ''text''"
| "ComparisonValueKind_value Kind_INTEGER = ''integer''"
| "ComparisonValueKind_value Kind_MONEY_AMOUNT = ''money_amount''"
| "ComparisonValueKind_value Kind_TIMESTAMP = ''timestamp''"
| "ComparisonValueKind_value Kind_ATTRIBUTE_TEXT = ''attribute_text''"
| "ComparisonValueKind_value Kind_MISSING = ''missing''"
| "ComparisonValueKind_value Kind_NULL = ''null''"
| "ComparisonValueKind_value Kind_WRONG_TYPE = ''wrong_type''"

datatype FieldDifferenceKind =
    VALUE_MISMATCH | MISSING_ON_SOURCE | MISSING_ON_TARGET | NULL_ON_SOURCE | NULL_ON_TARGET
  | TYPE_MISMATCH

record ComparisonValue =
  leaf_kind :: ComparisonValueKind
  leaf_text :: "string option"
  leaf_integer :: "int option"
  leaf_money :: "Money option"
  leaf_timestamp :: "UtcTimestamp option"

definition MAX_FIELD_PATH_BYTES :: nat where "MAX_FIELD_PATH_BYTES = 96"
definition MAX_LEAF_TEXT_CHARACTERS :: nat where "MAX_LEAF_TEXT_CHARACTERS = 512"
definition MAX_LEAF_TEXT_BYTES :: nat where "MAX_LEAF_TEXT_BYTES = 1024"
definition MAX_DIFFERENCES :: nat where "MAX_DIFFERENCES = 128"
definition MAX_PATHS :: nat where "MAX_PATHS = 128"

text \<open>The fields a leaf of a kind carries: exactly those named \<^verbatim>\<open>present\<close>.\<close>

definition require_field :: "ComparisonValueKind \<Rightarrow> string \<Rightarrow> bool \<Rightarrow> bool \<Rightarrow> unit recon_result" where
  "require_field k field present has_value =
     (if present then
        require has_value (value_error (''comparison '' @ ComparisonValueKind_value k @ '' leaf requires '' @ field))
      else
        require (\<not> has_value)
          (value_error (''comparison '' @ ComparisonValueKind_value k @ '' leaf must not carry '' @ field)))"

definition require_leaf :: "ComparisonValue \<Rightarrow> unit recon_result" where
  "require_leaf v =
     (let k = leaf_kind v in
      bind_result (require_field k ''text'' (k \<in> {Kind_TEXT, Kind_ATTRIBUTE_TEXT, Kind_WRONG_TYPE})
        (leaf_text v \<noteq> None)) (\<lambda>_.
      bind_result (require_field k ''integer'' (k = Kind_INTEGER) (leaf_integer v \<noteq> None)) (\<lambda>_.
      bind_result (require_field k ''money'' (k = Kind_MONEY_AMOUNT) (leaf_money v \<noteq> None)) (\<lambda>_.
      bind_result (require_field k ''timestamp'' (k = Kind_TIMESTAMP) (leaf_timestamp v \<noteq> None)) (\<lambda>_.
      bind_result (require (k = Kind_INTEGER \<longrightarrow>
          - 9223372036854775808 \<le> the (leaf_integer v) \<and> the (leaf_integer v) \<le> 9223372036854775807)
        (value_error ''comparison integer leaf is outside the supported range'')) (\<lambda>_.
      require (k = Kind_WRONG_TYPE \<longrightarrow> the (leaf_text v) \<noteq> [])
        (value_error ''comparison wrong-type leaf requires bounded evidence text'')))))))"

definition make_ComparisonValue :: "ComparisonValue \<Rightarrow> ComparisonValue recon_result" where
  "make_ComparisonValue v = bind_result (require_leaf v) (\<lambda>_. Inr v)"

definition leaf_of_kind :: "ComparisonValueKind \<Rightarrow> ComparisonValue" where
  "leaf_of_kind k =
     \<lparr>leaf_kind = k, leaf_text = None, leaf_integer = None, leaf_money = None, leaf_timestamp = None\<rparr>"

definition bounded_raw :: "json \<Rightarrow> string" where
  "bounded_raw raw =
     (let rendered = json_dumps raw in
      if length rendered > MAX_LEAF_TEXT_CHARACTERS
      then take (MAX_LEAF_TEXT_CHARACTERS - 3) rendered @ ''...'' else rendered)"

definition normalized_leaf_text :: "string \<Rightarrow> string recon_result" where
  "normalized_leaf_text t =
     bind_result (require (\<not> (length t > MAX_LEAF_TEXT_CHARACTERS \<or> utf8_length t > MAX_LEAF_TEXT_BYTES))
       (value_error ''comparison text leaf exceeds its size limit'')) (\<lambda>_. Inr t)"

definition missing_value :: "ComparisonValue recon_result" where
  "missing_value = make_ComparisonValue (leaf_of_kind Kind_MISSING)"

definition null_value :: "ComparisonValue recon_result" where
  "null_value = make_ComparisonValue (leaf_of_kind Kind_NULL)"

definition wrong_type :: "json \<Rightarrow> ComparisonValue recon_result" where
  "wrong_type raw =
     make_ComparisonValue ((leaf_of_kind Kind_WRONG_TYPE)\<lparr>leaf_text := Some (bounded_raw raw)\<rparr>)"

definition text_value :: "string \<Rightarrow> ComparisonValue recon_result" where
  "text_value t = bind_result (normalized_leaf_text t) (\<lambda>t.
     make_ComparisonValue ((leaf_of_kind Kind_TEXT)\<lparr>leaf_text := Some t\<rparr>))"

definition attribute_text_value :: "string \<Rightarrow> ComparisonValue recon_result" where
  "attribute_text_value t = bind_result (normalized_leaf_text t) (\<lambda>t.
     make_ComparisonValue ((leaf_of_kind Kind_ATTRIBUTE_TEXT)\<lparr>leaf_text := Some t\<rparr>))"

definition integer_value :: "int \<Rightarrow> ComparisonValue recon_result" where
  "integer_value n = make_ComparisonValue ((leaf_of_kind Kind_INTEGER)\<lparr>leaf_integer := Some n\<rparr>)"

definition money_amount_value :: "Money \<Rightarrow> ComparisonValue recon_result" where
  "money_amount_value m = make_ComparisonValue ((leaf_of_kind Kind_MONEY_AMOUNT)\<lparr>leaf_money := Some m\<rparr>)"

definition timestamp_value :: "UtcTimestamp \<Rightarrow> ComparisonValue recon_result" where
  "timestamp_value t = make_ComparisonValue ((leaf_of_kind Kind_TIMESTAMP)\<lparr>leaf_timestamp := Some t\<rparr>)"

definition canonical_text :: "ComparisonValue \<Rightarrow> string" where
  "canonical_text v =
     (case leaf_kind v of
        Kind_MISSING \<Rightarrow> []
      | Kind_NULL \<Rightarrow> ''null''
      | Kind_INTEGER \<Rightarrow> int_str (the (leaf_integer v))
      | Kind_MONEY_AMOUNT \<Rightarrow> Money_str (the (leaf_money v))
      | Kind_TIMESTAMP \<Rightarrow> utc_str (the (leaf_timestamp v))
      | _ \<Rightarrow> (case leaf_text v of None \<Rightarrow> [] | Some t \<Rightarrow> t))"

definition is_equivalent :: "ComparisonValue \<Rightarrow> ComparisonValue \<Rightarrow> bool" where
  "is_equivalent v w \<longleftrightarrow>
     (if leaf_kind v \<noteq> leaf_kind w then False
      else if leaf_kind v = Kind_INTEGER then leaf_integer v = leaf_integer w
      else if leaf_kind v = Kind_MONEY_AMOUNT then leaf_money v = leaf_money w
      else if leaf_kind v = Kind_TIMESTAMP then leaf_timestamp v = leaf_timestamp w
      else if leaf_kind v \<in> {Kind_MISSING, Kind_NULL} then True
      else leaf_text v = leaf_text w)"

subsection \<open>Paths and documents\<close>

fun split_slash :: "string \<Rightarrow> string list" where
  "split_slash [] = [[]]"
| "split_slash (c # s) =
     (case split_slash s of
        [] \<Rightarrow> [[c]]
      | seg # segs \<Rightarrow> if c = CHR ''/'' then [] # seg # segs else (c # seg) # segs)"

definition TOP_LEVEL_PATHS :: "string list" where
  "TOP_LEVEL_PATHS = [''name'', ''quantity'', ''updated_at'']"

definition require_path :: "string \<Rightarrow> unit recon_result" where
  "require_path path =
     bind_result (require (\<not> (path = [] \<or> utf8_length path > MAX_FIELD_PATH_BYTES))
       (ComparisonDocumentError ''comparison field path is empty or exceeds the byte limit'')) (\<lambda>_.
     let segs = split_slash path in
     if hd segs \<in> set TOP_LEVEL_PATHS \<or> hd segs \<in> {''unit_price'', ''attributes''}
     then require (list_all ATTRIBUTE_KEY_PATTERN (tl segs))
       (ComparisonDocumentError ''comparison field path is not canonical'')
     else Inl (ComparisonDocumentError ''comparison field path is not canonical''))"

definition canonical_attribute_path :: "string \<Rightarrow> string option" where
  "canonical_attribute_path key = (if ATTRIBUTE_KEY_PATTERN key then Some (''attributes/'' @ key) else None)"

type_synonym ComparisonDocument = "(string \<times> ComparisonValue) list"

definition make_ComparisonDocument :: "ComparisonDocument \<Rightarrow> ComparisonDocument recon_result" where
  "make_ComparisonDocument pairs =
     bind_result (require (length pairs \<le> MAX_PATHS)
       (ComparisonDocumentError ''comparison document exceeds the path limit'')) (\<lambda>_.
     bind_result (check_all (require_path \<circ> fst) pairs) (\<lambda>_.
     bind_result (require (distinct (map fst pairs))
       (ComparisonDocumentError ''comparison document paths must be unique'')) (\<lambda>_.
     bind_result (require (sorted (map fst pairs))
       (ComparisonDocumentError ''comparison document paths must be sorted'')) (\<lambda>_.
     Inr pairs))))"

definition document_get :: "ComparisonDocument \<Rightarrow> string \<Rightarrow> ComparisonValue recon_result" where
  "document_get d path = (case map_of d path of Some v \<Rightarrow> Inr v | None \<Rightarrow> missing_value)"

subsection \<open>Differences\<close>

record FieldDifference =
  difference_field :: string
  difference_kind :: FieldDifferenceKind
  source_text :: string
  target_text :: string

definition bounded_difference_text :: "string \<Rightarrow> string \<Rightarrow> unit recon_result" where
  "bounded_difference_text t side =
     require (length t \<le> MAX_LEAF_TEXT_CHARACTERS)
       (value_error (''field difference '' @ side @ '' text exceeds its size limit''))"

definition make_FieldDifference :: "FieldDifference \<Rightarrow> FieldDifference recon_result" where
  "make_FieldDifference d =
     bind_result (require_path (difference_field d)) (\<lambda>_.
     bind_result (bounded_difference_text (source_text d) ''source'') (\<lambda>_.
     bind_result (bounded_difference_text (target_text d) ''target'') (\<lambda>_.
     Inr d)))"

definition difference_kind_of :: "ComparisonValue \<Rightarrow> ComparisonValue \<Rightarrow> FieldDifferenceKind" where
  "difference_kind_of source target =
     (if leaf_kind source = Kind_MISSING then MISSING_ON_SOURCE
      else if leaf_kind target = Kind_MISSING then MISSING_ON_TARGET
      else if leaf_kind source = Kind_NULL then NULL_ON_SOURCE
      else if leaf_kind target = Kind_NULL then NULL_ON_TARGET
      else if leaf_kind source = leaf_kind target then VALUE_MISMATCH
      else TYPE_MISMATCH)"

definition difference_at ::
  "string \<Rightarrow> ComparisonValue \<Rightarrow> ComparisonValue \<Rightarrow> FieldDifference option recon_result" where
  "difference_at path source target =
     (if is_equivalent source target then Inr None
      else bind_result (make_FieldDifference
        \<lparr>difference_field = path, difference_kind = difference_kind_of source target,
         source_text = canonical_text source, target_text = canonical_text target\<rparr>) (\<lambda>d. Inr (Some d)))"

fun difference_loop ::
  "ComparisonDocument \<Rightarrow> ComparisonDocument \<Rightarrow> string list \<Rightarrow> FieldDifference list \<Rightarrow>
     FieldDifference list recon_result" where
  "difference_loop source target [] differences = Inr differences"
| "difference_loop source target (path # paths) differences =
     bind_result (document_get source path) (\<lambda>s.
     bind_result (document_get target path) (\<lambda>t.
     bind_result (difference_at path s t) (\<lambda>difference.
     case difference of
       None \<Rightarrow> difference_loop source target paths differences
     | Some d \<Rightarrow>
         bind_result (require (length (differences @ [d]) \<le> MAX_DIFFERENCES)
           (ComparisonDocumentError ''field comparison exceeds the difference limit'')) (\<lambda>_.
         difference_loop source target paths (differences @ [d])))))"

definition build_field_differences ::
  "ComparisonDocument \<Rightarrow> ComparisonDocument \<Rightarrow> FieldDifference list recon_result" where
  "build_field_differences source target =
     difference_loop source target (sorted_list_of_set (set (map fst source) \<union> set (map fst target))) []"

subsection \<open>Which differences are reported\<close>

definition leaf_ok :: "ComparisonValue \<Rightarrow> bool" where
  "leaf_ok v \<longleftrightarrow> require_leaf v = Inr () \<and> length (canonical_text v) \<le> MAX_LEAF_TEXT_CHARACTERS"

definition document_ok :: "ComparisonDocument \<Rightarrow> bool" where
  "document_ok d \<longleftrightarrow> make_ComparisonDocument d = Inr d \<and> list_all (leaf_ok \<circ> snd) d"

text \<open>The leaf a document has at a path, absent paths included, and the evidence two leaves give.\<close>

definition leaf_at :: "ComparisonDocument \<Rightarrow> string \<Rightarrow> ComparisonValue" where
  "leaf_at d path = (case map_of d path of Some v \<Rightarrow> v | None \<Rightarrow> leaf_of_kind Kind_MISSING)"

definition difference_of :: "ComparisonDocument \<Rightarrow> ComparisonDocument \<Rightarrow> string \<Rightarrow> FieldDifference" where
  "difference_of source target path =
     \<lparr>difference_field = path, difference_kind = difference_kind_of (leaf_at source path) (leaf_at target path),
      source_text = canonical_text (leaf_at source path), target_text = canonical_text (leaf_at target path)\<rparr>"

lemma require_leaf_iff:
  "require_leaf v = Inr x \<longleftrightarrow>
     (leaf_text v \<noteq> None) = (leaf_kind v \<in> {Kind_TEXT, Kind_ATTRIBUTE_TEXT, Kind_WRONG_TYPE}) \<and>
     (leaf_integer v \<noteq> None) = (leaf_kind v = Kind_INTEGER) \<and>
     (leaf_money v \<noteq> None) = (leaf_kind v = Kind_MONEY_AMOUNT) \<and>
     (leaf_timestamp v \<noteq> None) = (leaf_kind v = Kind_TIMESTAMP) \<and>
     (leaf_kind v = Kind_INTEGER \<longrightarrow>
        - 9223372036854775808 \<le> the (leaf_integer v) \<and> the (leaf_integer v) \<le> 9223372036854775807) \<and>
     (leaf_kind v = Kind_WRONG_TYPE \<longrightarrow> the (leaf_text v) \<noteq> [])"
  unfolding require_leaf_def Let_def
  by (cases "leaf_kind v") (auto simp: require_field_def result_simps)

lemma equivalent_iff_eq:
  assumes "leaf_ok v" "leaf_ok w"
  shows "is_equivalent v w \<longleftrightarrow> v = w"
proof
  assume eq: "is_equivalent v w"
  have none: "leaf_text u = None \<or> leaf_kind u \<in> {Kind_TEXT, Kind_ATTRIBUTE_TEXT, Kind_WRONG_TYPE}"
    "leaf_integer u = None \<or> leaf_kind u = Kind_INTEGER" "leaf_money u = None \<or> leaf_kind u = Kind_MONEY_AMOUNT"
    "leaf_timestamp u = None \<or> leaf_kind u = Kind_TIMESTAMP" if "leaf_ok u" for u
    using that by (auto simp: leaf_ok_def require_leaf_iff)
  show "v = w"
    using eq none [OF assms(1)] none [OF assms(2)]
    by (intro ComparisonValue.equality) (auto simp: is_equivalent_def split: if_splits)
qed (auto simp: is_equivalent_def)

lemma missing_leaf_ok: "leaf_ok (leaf_of_kind Kind_MISSING)"
  by (simp add: leaf_ok_def require_leaf_iff leaf_of_kind_def canonical_text_def)

lemma document_get_leaf_at: "document_get d path = Inr (leaf_at d path)"
  using missing_leaf_ok
  by (simp add: document_get_def leaf_at_def missing_value_def make_ComparisonValue_def leaf_ok_def
      split: option.split)

lemma document_ok_facts:
  assumes "document_ok d"
  shows "distinct (map fst d)" "sorted (map fst d)" "leaf_ok (leaf_at d path)"
    "path \<in> set (map fst d) \<Longrightarrow> require_path path = Inr ()" "length d \<le> MAX_PATHS"
proof -
  show "distinct (map fst d)" "sorted (map fst d)" "length d \<le> MAX_PATHS"
    "path \<in> set (map fst d) \<Longrightarrow> require_path path = Inr ()"
    using assms by (auto simp: document_ok_def make_ComparisonDocument_def result_simps)
  show "leaf_ok (leaf_at d path)"
    using assms missing_leaf_ok map_of_SomeD [of d path]
    by (fastforce simp: leaf_at_def document_ok_def list_all_iff split: option.split)
qed

lemma difference_at_eq:
  assumes "leaf_ok (leaf_at s p)" "leaf_ok (leaf_at t p)" "require_path p = Inr ()"
  shows "difference_at p (leaf_at s p) (leaf_at t p) =
    Inr (if leaf_at s p = leaf_at t p then None else Some (difference_of s t p))"
  using assms
  by (simp add: difference_at_def equivalent_iff_eq make_FieldDifference_def bounded_difference_text_def
      difference_of_def) (simp add: leaf_ok_def)

lemma difference_loop_eq:
  assumes "\<And>p. leaf_ok (leaf_at s p)" "\<And>p. leaf_ok (leaf_at t p)" "\<forall>p \<in> set ps. require_path p = Inr ()"
    and "length acc \<le> MAX_DIFFERENCES"
  shows "difference_loop s t ps acc =
    (let ds = acc @ map (difference_of s t) (filter (\<lambda>p. leaf_at s p \<noteq> leaf_at t p) ps) in
     if length ds \<le> MAX_DIFFERENCES then Inr ds
     else Inl (ComparisonDocumentError ''field comparison exceeds the difference limit''))"
  using assms(3,4)
proof (induction ps arbitrary: acc)
  case (Cons p ps)
  have at: "difference_at p (leaf_at s p) (leaf_at t p) =
      Inr (if leaf_at s p = leaf_at t p then None else Some (difference_of s t p))"
    using Cons.prems assms(1,2) by (intro difference_at_eq) auto
  show ?case
  proof (cases "leaf_at s p = leaf_at t p \<or> length acc < MAX_DIFFERENCES")
    case True
    then show ?thesis
      using Cons.IH [of acc] Cons.IH [of "acc @ [difference_of s t p]"] Cons.prems
      by (auto simp: document_get_leaf_at at Let_def)
  next
    case False
    then show ?thesis by (simp add: document_get_leaf_at at Let_def)
  qed
qed simp

text \<open>The paths at which two documents differ, as a set.\<close>

definition differing_paths :: "ComparisonDocument \<Rightarrow> ComparisonDocument \<Rightarrow> string set" where
  "differing_paths s t = {p. leaf_at s p \<noteq> leaf_at t p}"

lemma leaf_at_absent: "p \<notin> set (map fst d) \<Longrightarrow> leaf_at d p = leaf_of_kind Kind_MISSING"
  by (metis leaf_at_def map_of_eq_None_iff option.case(1) list.set_map)

lemma differing_paths_subset: "differing_paths s t \<subseteq> set (map fst s) \<union> set (map fst t)"
  unfolding differing_paths_def using leaf_at_absent [of _ s] leaf_at_absent [of _ t] by fastforce

lemma in_differing_paths [simp]: "p \<in> differing_paths s t \<longleftrightarrow> leaf_at s p \<noteq> leaf_at t p"
  by (simp add: differing_paths_def)

lemma finite_differing_paths [simp]: "finite (differing_paths s t)"
  by (rule finite_subset [OF differing_paths_subset]) simp

lemma sorted_differing:
  "filter (\<lambda>p. leaf_at s p \<noteq> leaf_at t p) (sorted_list_of_set (set (map fst s) \<union> set (map fst t))) =
     sorted_list_of_set (differing_paths s t)"
proof (rule sorted_distinct_set_unique)
  show "set (filter (\<lambda>p. leaf_at s p \<noteq> leaf_at t p) (sorted_list_of_set (set (map fst s) \<union> set (map fst t)))) =
      set (sorted_list_of_set (differing_paths s t))"
    using differing_paths_subset [of s t] by auto
qed (simp_all add: sorted_wrt_filter)

lemma build_field_differences_eq:
  assumes "document_ok s" "document_ok t"
  shows "build_field_differences s t =
    (if card (differing_paths s t) \<le> MAX_DIFFERENCES
     then Inr (map (difference_of s t) (sorted_list_of_set (differing_paths s t)))
     else Inl (ComparisonDocumentError ''field comparison exceeds the difference limit''))"
proof -
  let ?all = "sorted_list_of_set (set (map fst s) \<union> set (map fst t))"
  have "\<forall>p \<in> set ?all. require_path p = Inr ()"
    using document_ok_facts(4) [OF assms(1)] document_ok_facts(4) [OF assms(2)] by auto
  then have "build_field_differences s t =
      (let ds = [] @ map (difference_of s t) (filter (\<lambda>p. leaf_at s p \<noteq> leaf_at t p) ?all) in
       if length ds \<le> MAX_DIFFERENCES then Inr ds
       else Inl (ComparisonDocumentError ''field comparison exceeds the difference limit''))"
    unfolding build_field_differences_def
    by (intro difference_loop_eq document_ok_facts(3) [OF assms(1)] document_ok_facts(3) [OF assms(2)]) simp_all
  then show ?thesis unfolding sorted_differing by simp
qed

text \<open>
  Field comparison of two valid projections reports exactly the paths at which their leaves differ, once each,
  in path order, with the texts of both leaves; it fails only when more than 128 paths differ.  So it
  reports nothing exactly if the projections agree on every path, and comparing the other way round reports the
  same paths.
\<close>

theorem field_differences_exact:
  assumes "document_ok s" "document_ok t"
  shows "build_field_differences s t =
      (if card (differing_paths s t) \<le> MAX_DIFFERENCES
       then Inr (map (difference_of s t) (sorted_list_of_set (differing_paths s t)))
       else Inl (ComparisonDocumentError ''field comparison exceeds the difference limit'')) \<and>
    (build_field_differences s t = Inr [] \<longleftrightarrow> (\<forall>path. leaf_at s path = leaf_at t path)) \<and>
    differing_paths t s = differing_paths s t"
proof -
  have "differing_paths s t = {} \<longleftrightarrow> (\<forall>path. leaf_at s path = leaf_at t path)" by auto
  moreover have "differing_paths t s = differing_paths s t" by (auto simp: differing_paths_def)
  ultimately show ?thesis
    by (simp add: build_field_differences_eq [OF assms] flip: sorted_list_of_set_eq_Nil_iff) auto
qed

definition example_source :: ComparisonDocument where
  "example_source = [(''name'', (leaf_of_kind Kind_TEXT)\<lparr>leaf_text := Some ''bolt''\<rparr>)]"

definition example_target :: ComparisonDocument where
  "example_target = [(''quantity'', (leaf_of_kind Kind_INTEGER)\<lparr>leaf_integer := Some 3\<rparr>)]"

lemma example_documents_ok: "document_ok example_source" "document_ok example_target"
  by (simp_all add: document_ok_def example_source_def example_target_def make_ComparisonDocument_def MAX_PATHS_def
      require_path_def utf8_length_def is_ascii_def MAX_FIELD_PATH_BYTES_def TOP_LEVEL_PATHS_def leaf_ok_def
      require_leaf_iff leaf_of_kind_def canonical_text_def int_str_def nat_str.simps MAX_LEAF_TEXT_CHARACTERS_def)

theorem field_differences_exact_witness:
  "build_field_differences example_source example_target =
     Inr [\<lparr>difference_field = ''name'', difference_kind = MISSING_ON_TARGET, source_text = ''bolt'', target_text = []\<rparr>,
          \<lparr>difference_field = ''quantity'', difference_kind = MISSING_ON_SOURCE, source_text = [], target_text = ''3''\<rparr>]"
proof -
  have paths: "differing_paths example_source example_target = {''name'', ''quantity''}"
    by (auto simp: differing_paths_def leaf_at_def example_source_def example_target_def leaf_of_kind_def
        split: if_splits)
  have "sorted_list_of_set {''name'', ''quantity''} = [''name'', ''quantity'']" by code_simp
  then have "build_field_differences example_source example_target =
      Inr [difference_of example_source example_target ''name'', difference_of example_source example_target ''quantity'']"
    using field_differences_exact [OF example_documents_ok, THEN conjunct1]
    unfolding paths by (simp add: MAX_DIFFERENCES_def)
  moreover have "digit_char 3 = CHR ''3''" by code_simp
  ultimately show ?thesis
    by (simp add: difference_of_def leaf_at_def example_source_def example_target_def
        difference_kind_of_def canonical_text_def leaf_of_kind_def int_str_def nat_str.simps)
qed

end
