(* ===== verification/Json_Text.thy ===== *)
theory Json_Text
  imports Differences
begin

text \<open>
  \<^verbatim>\<open>json.dumps(value, ensure_ascii=True, separators=(",", ":"), sort_keys=True)\<close> determines the value it renders.
  This holds of the values the canonical encoder builds: no floats, and objects whose keys are distinct,
  listed here in the order in which they are rendered.
\<close>

subsection \<open>Text\<close>

text \<open>The character an escape stands for, and what follows it.\<close>

definition hex_value :: "char \<Rightarrow> nat" where
  "hex_value c = (if code c < 58 then code c - 48 else code c - 87)"

definition json_read_char :: "string \<Rightarrow> char \<times> string" where
  "json_read_char s =
     (if hd s \<noteq> CHR 0x5C then (hd s, tl s)
      else if s ! 1 = CHR ''u'' then (char_of (hex_value (s ! 4) * 16 + hex_value (s ! 5)), drop 6 s)
      else
        (let e = s ! 1 in
         if e = CHR ''n'' then char_of (10 :: nat) else if e = CHR ''r'' then char_of (13 :: nat)
         else if e = CHR ''t'' then char_of (9 :: nat) else if e = CHR ''f'' then char_of (12 :: nat)
         else if e = CHR ''b'' then char_of (8 :: nat) else e, drop 2 s))"

lemma hex_value_hex_char: "n < 16 \<Longrightarrow> hex_value (hex_char n) = n"
  by (simp add: hex_value_def hex_char_def)

lemma json_read_json_char: "json_read_char (json_char c @ s) = (c, s)"
proof -
  have "code c div 16 < 16" using nat_of_char_less_256 [of c] by (simp only: div_less_iff_less_mult)
  then have hex: "hex_value (hex_char (code c div 16)) * 16 + hex_value (hex_char (code c mod 16)) = code c"
    by (simp add: hex_value_hex_char)
  have control: "c = char_of n" if "code c = n" for n
    unfolding that [symmetric] by simp
  show ?thesis
  proof (cases "c = CHR 0x22 \<or> c = CHR 0x5C")
    case True
    then show ?thesis by (auto simp: json_char_def json_read_char_def)
  next
    case False
    show ?thesis
    proof (cases "is_printable_ascii c")
      case True
      then show ?thesis using False by (simp add: json_char_def json_read_char_def)
    next
      case nonprintable: False
      have known: "json_read_char (json_char (char_of n) @ s) = (char_of n, s)" if "n \<in> {10, 13, 9, 12, 8}" for n :: nat
        using that by (auto simp: json_char_def json_read_char_def is_printable_ascii_def)
      show ?thesis
      proof (cases "code c \<in> {10, 13, 9, 12, 8}")
        case True
        then show ?thesis using known [of "code c"] by (simp only: char_of_char)
      next
        case other: False
        have "json_char c = [CHR 0x5C, CHR ''u'', CHR ''0'', CHR ''0'', hex_char (code c div 16), hex_char (code c mod 16)]"
          using False nonprintable other by (simp add: json_char_def)
        then show ?thesis by (simp add: json_read_char_def hex)
      qed
    qed
  qed
qed

lemma json_char_unique: "json_char c @ x = json_char d @ y \<Longrightarrow> c = d \<and> x = y"
  by (metis json_read_json_char prod.inject)

lemma json_char_start: "json_char c \<noteq> []" "hd (json_char c) \<noteq> CHR 0x22"
  by (auto simp: json_char_def)

lemma json_char_not_quote: "CHR 0x22 # ys \<noteq> json_char c @ zs" "json_char c @ zs \<noteq> CHR 0x22 # ys"
  using json_char_start [of c] by (cases "json_char c"; auto)+

lemma json_text_unique:
  assumes "json_text t @ x = json_text t' @ y"
  shows "t = t' \<and> x = y"
proof -
  have "concat (map json_char t) @ CHR 0x22 # x = concat (map json_char t') @ CHR 0x22 # y"
    using assms by (simp add: json_text_def)
  then show ?thesis
  proof (induction t arbitrary: t')
    case Nil
    then show ?case by (cases t') (simp_all add: json_char_not_quote)
  next
    case (Cons c t)
    show ?case
    proof (cases t')
      case Nil
      then show ?thesis using Cons.prems by (simp add: json_char_not_quote)
    next
      case t': (Cons d s)
      have "json_char c @ (concat (map json_char t) @ CHR 0x22 # x) = json_char d @ (concat (map json_char s) @ CHR 0x22 # y)"
        using Cons.prems by (simp add: t')
      from json_char_unique [OF this] Cons.IH [of s] show ?thesis by (simp add: t')
    qed
  qed
qed

subsection \<open>Numbers\<close>

text \<open>What may follow a rendered value: nothing, or a delimiter.\<close>

definition ends :: "string \<Rightarrow> bool" where
  "ends s \<longleftrightarrow> s = [] \<or> \<not> is_digit (hd s)"

lemma nat_str_unique:
  assumes "nat_str m @ x = nat_str n @ y" "ends x" "ends y"
  shows "m = n \<and> x = y"
proof -
  have digits: "takeWhile is_digit (nat_str k @ z) = nat_str k" if "ends z" for k z
  proof -
    have "\<forall>c \<in> set (nat_str k). is_digit c" using nat_str_digits [of k] by (simp add: list_all_iff)
    moreover have "takeWhile is_digit z = []" using that by (cases z) (simp_all add: ends_def)
    ultimately show ?thesis by simp
  qed
  have "nat_str m = nat_str n" using digits [OF assms(2), of m] digits [OF assms(3), of n] assms(1) by simp
  moreover from this have "m = n" by (metis nat_of_text_nat_str)
  ultimately show ?thesis using assms(1) by simp
qed

lemma nat_str_start: "nat_str n \<noteq> CHR ''-'' # s" "nat_str n @ z \<noteq> CHR ''-'' # s" "CHR ''-'' # s \<noteq> nat_str n @ z"
proof -
  have minus: "\<not> is_digit CHR ''-''" by code_simp
  obtain d ds where "nat_str n = d # ds" using nat_str_nonempty by (cases "nat_str n") auto
  with nat_str_digits [of n] minus show "nat_str n \<noteq> CHR ''-'' # s" "nat_str n @ z \<noteq> CHR ''-'' # s"
    "CHR ''-'' # s \<noteq> nat_str n @ z"
    by auto
qed

lemma int_str_unique:
  assumes "int_str m @ x = int_str n @ y" "ends x" "ends y"
  shows "m = n \<and> x = y"
proof (cases "m < 0")
  case True
  then have n: "n < 0" using assms(1) by (auto simp: int_str_def nat_str_start split: if_splits)
  then have "nat_str (nat (- m)) @ x = nat_str (nat (- n)) @ y" using True assms(1) by (simp add: int_str_def)
  from nat_str_unique [OF this assms(2,3)] True n show ?thesis by (simp add: eq_nat_nat_iff)
next
  case False
  then have n: "\<not> n < 0" using assms(1) by (auto simp: int_str_def nat_str_start split: if_splits)
  then have "nat_str (nat m) @ x = nat_str (nat n) @ y" using False assms(1) by (simp add: int_str_def)
  from nat_str_unique [OF this assms(2,3)] False n show ?thesis by (auto simp: eq_nat_nat_iff not_less)
qed

lemma int_str_hd: "int_str n \<noteq> [] \<and> (hd (int_str n) = CHR ''-'' \<or> is_digit (hd (int_str n)))"
proof -
  have "is_digit (hd (nat_str k))" for k
    using nat_str_digits [of k] nat_str_nonempty [of k] by (cases "nat_str k") simp_all
  then show ?thesis by (simp add: int_str_def)
qed

subsection \<open>Sequences\<close>

lemma comma_separated_simps [simp]:
  "comma_separated [] = []" "comma_separated [p] = p"
  "comma_separated (p # q # ps) = p @ CHR '','' # comma_separated (q # ps)"
  by (simp_all add: comma_separated_def)

definition delimiter :: "char \<Rightarrow> bool" where
  "delimiter c \<longleftrightarrow> c = CHR '','' \<or> c = CHR '']'' \<or> c = CHR 0x7D"

lemma ends_delimiter: "delimiter c \<Longrightarrow> ends (c # s)"
proof -
  assume "delimiter c"
  moreover have "\<not> is_digit CHR '',''" "\<not> is_digit CHR '']''" "\<not> is_digit CHR 0x7D" by code_simp+
  ultimately show ?thesis by (auto simp: ends_def delimiter_def)
qed

text \<open>A rendering whose elements can be told apart can be told apart as a sequence.\<close>

lemma comma_separated_unique:
  assumes unique: "\<And>a b x y. a \<in> set as \<Longrightarrow> P b \<Longrightarrow> render a @ x = render b @ y \<Longrightarrow> ends x \<Longrightarrow> ends y \<Longrightarrow> a = b \<and> x = y"
    and start: "\<And>a s t. P a \<Longrightarrow> z # s \<noteq> render a @ t"
    and "\<forall>a \<in> set as. P a" "\<forall>b \<in> set bs. P b" and z: "delimiter z" "z \<noteq> CHR '',''"
    and eq: "comma_separated (map render as) @ z # x = comma_separated (map render bs) @ z # y"
  shows "as = bs \<and> x = y"
  using assms(1,3,4) eq
proof (induction as arbitrary: bs)
  case Nil
  show ?case
  proof (cases bs)
    case (Cons b bs')
    then obtain t where "comma_separated (map render bs) @ z # y = render b @ t" by (cases bs') auto
    then show ?thesis using Nil start [of b x t] Cons by simp
  qed (use Nil in simp)
next
  case (Cons a as)
  have tail: "\<exists>c t. comma_separated (map render (d # ds)) @ z # w = render d @ c # t \<and> delimiter c \<and>
      (c = z \<and> ds = [] \<and> t = w \<or> c = CHR '','' \<and> ds \<noteq> [] \<and> t = comma_separated (map render ds) @ z # w)" for d ds w
    using z(1) by (cases ds) (auto simp: delimiter_def)
  show ?case
  proof (cases bs)
    case Nil
    obtain c t where "comma_separated (map render (a # as)) @ z # x = render a @ c # t" using tail by blast
    then show ?thesis using Cons.prems start [of a y "c # t"] Nil by simp
  next
    case bs: (Cons b bs')
    obtain c t where c: "comma_separated (map render (a # as)) @ z # x = render a @ c # t" "delimiter c"
      "c = z \<and> as = [] \<and> t = x \<or> c = CHR '','' \<and> as \<noteq> [] \<and> t = comma_separated (map render as) @ z # x"
      using tail by blast
    obtain d u where d: "comma_separated (map render (b # bs')) @ z # y = render b @ d # u" "delimiter d"
      "d = z \<and> bs' = [] \<and> u = y \<or> d = CHR '','' \<and> bs' \<noteq> [] \<and> u = comma_separated (map render bs') @ z # y"
      using tail by blast
    have "render a @ c # t = render b @ d # u" using Cons.prems(4) bs c(1) d(1) by simp
    from Cons.prems(1) [OF _ _ this ends_delimiter [OF c(2)] ends_delimiter [OF d(2)]]
    have ab: "a = b" "c = d" "t = u" using Cons.prems(3) bs by simp_all
    show ?thesis
    proof (cases "c = z")
      case True
      then show ?thesis using ab bs c(3) d(3) z(2) by auto
    next
      case False
      then have eq: "comma_separated (map render as) @ z # x = comma_separated (map render bs') @ z # y"
        using ab c(3) d(3) by auto
      have "as = bs' \<and> x = y"
      proof (rule Cons.IH [OF _ _ _ eq])
        fix a b r s assume "a \<in> set as" "P b" "render a @ r = render b @ s" "ends r" "ends s"
        then show "a = b \<and> r = s" using Cons.prems(1) [of a b r s] by simp
      qed (use Cons.prems(2,3) bs in simp_all)
      with bs ab show ?thesis by simp
    qed
  qed
qed

subsection \<open>Values\<close>

fun plain :: "json \<Rightarrow> bool" where
  "plain JNull = True"
| "plain (JBool b) = True"
| "plain (JInt n) = True"
| "plain (JFloat c t) = False"
| "plain (JText t) = True"
| "plain (JList xs) = list_all plain xs"
| "plain (JDict kvs) = (sorted (map fst kvs) \<and> distinct (map fst kvs) \<and> list_all (\<lambda>(k, v). plain v) kvs)"

definition render_entry :: "string \<times> json \<Rightarrow> string" where
  "render_entry kv = json_text (fst kv) @ CHR '':'' # json_dumps (snd kv)"

lemma json_dumps_dict:
  assumes "sorted (map fst kvs)"
  shows "json_dumps (JDict kvs) = CHR 0x7B # comma_separated (map render_entry kvs) @ [CHR 0x7D]"
proof -
  have "sort_key fst (map (\<lambda>(k, v). (k, json_dumps v)) kvs) = map (\<lambda>(k, v). (k, json_dumps v)) kvs"
    using assms by (intro sort_key_id_if_sorted) (simp add: comp_def split_def)
  then show ?thesis by (simp add: render_entry_def [abs_def] comp_def split_def)
qed

lemma json_text_start: "json_text t = CHR 0x22 # drop 1 (json_text t)"
  by (simp add: json_text_def)

fun json_start :: "json \<Rightarrow> char \<Rightarrow> bool" where
  "json_start JNull c = (c = CHR ''n'')"
| "json_start (JBool b) c = (c = CHR ''t'' \<or> c = CHR ''f'')"
| "json_start (JInt n) c = (c = CHR ''-'' \<or> is_digit c)"
| "json_start (JFloat d t) c = (c = d)"
| "json_start (JText t) c = (c = CHR 0x22)"
| "json_start (JList xs) c = (c = CHR ''['')"
| "json_start (JDict kvs) c = (c = CHR 0x7B)"

lemma json_dumps_start: "json_dumps v \<noteq> [] \<and> json_start v (hd (json_dumps v))"
  using int_str_hd by (cases v) (auto simp: json_text_def)

lemma digit_not: "is_digit c \<Longrightarrow> c \<notin> set ''ntf-[,]'' \<union> {CHR 0x22, CHR 0x7B, CHR 0x7D}"
  by (auto simp: is_digit_def)

lemma json_dumps_delimiter: "plain v \<Longrightarrow> delimiter z \<Longrightarrow> z # s \<noteq> json_dumps v @ t"
proof
  assume v: "plain v" "delimiter z" "z # s = json_dumps v @ t"
  then have "json_start v z" using json_dumps_start [of v] by (cases "json_dumps v") auto
  with v(1,2) show False by (cases v) (auto simp: delimiter_def dest: digit_not)
qed

lemma render_entry_delimiter: "delimiter z \<Longrightarrow> z # s \<noteq> render_entry kv @ t"
  by (auto simp: render_entry_def json_text_def delimiter_def)

lemma json_dumps_unique:
  assumes "plain v" "plain w" "json_dumps v @ x = json_dumps w @ y" "ends x" "ends y"
  shows "v = w \<and> x = y"
  using assms
proof (induction v arbitrary: w x y rule: json_dumps.induct)
  case (6 xs)
  have "json_start w CHR ''[''" using 6(4) json_dumps_start [of w] by (cases "json_dumps w") auto
  then obtain ys where w: "w = JList ys" using 6(3) by (cases w) (auto dest: digit_not)
  have "xs = ys \<and> x = y"
  proof (rule comma_separated_unique [where P = plain and render = json_dumps and z = "CHR '']''"])
    show "comma_separated (map json_dumps xs) @ CHR '']'' # x = comma_separated (map json_dumps ys) @ CHR '']'' # y"
      using 6(4) by (simp add: w)
  next
    fix a b r s assume "a \<in> set xs" "plain b" "json_dumps a @ r = json_dumps b @ s" "ends r" "ends s"
    then show "a = b \<and> r = s" using 6(1) [of a b r s] 6(2) by (simp add: list_all_iff)
  qed (use 6(2,3) w in \<open>auto simp: list_all_iff delimiter_def json_dumps_delimiter\<close>)
  then show ?case by (simp add: w)
next
  case (7 kvs)
  have "json_start w CHR 0x7B"
    using 7(2,4) json_dumps_start [of w] by (cases "json_dumps w") (auto simp: json_dumps_dict simp del: json_dumps.simps)
  then obtain kws where w: "w = JDict kws" using 7(3) by (cases w) (auto dest: digit_not)
  have "kvs = kws \<and> x = y"
  proof (rule comma_separated_unique [where P = "\<lambda>kv. plain (snd kv)" and render = render_entry and z = "CHR 0x7D"])
    show "comma_separated (map render_entry kvs) @ CHR 0x7D # x = comma_separated (map render_entry kws) @ CHR 0x7D # y"
      using 7(2,3,4) by (simp add: w json_dumps_dict del: json_dumps.simps)
  next
    fix a b r s assume a: "a \<in> set kvs" "plain (snd b)" "render_entry a @ r = render_entry b @ s" "ends r" "ends s"
    then have "json_text (fst a) @ CHR '':'' # json_dumps (snd a) @ r = json_text (fst b) @ CHR '':'' # json_dumps (snd b) @ s"
      by (simp add: render_entry_def)
    from json_text_unique [OF this] have key: "fst a = fst b" and rest: "json_dumps (snd a) @ r = json_dumps (snd b) @ s"
      by simp_all
    have "plain (snd a)" using 7(2) a(1) by (auto simp: list_all_iff)
    from 7(1) [OF a(1) prod.collapse this a(2) rest a(4,5)] key show "a = b \<and> r = s" by (simp add: prod_eq_iff)
  qed (use 7(2,3) w in \<open>auto simp: list_all_iff delimiter_def render_entry_delimiter\<close>)
  then show ?case by (simp add: w)
next
  case (3 n)
  then have "json_start w (hd (int_str n))"
    using json_dumps_start [of w] int_str_hd [of n] by (metis hd_append2 json_dumps.simps(3))
  then obtain m where "w = JInt m" using 3(2) int_str_hd [of n] by (cases w) (auto dest: digit_not)
  with 3(3) have "int_str n @ x = int_str m @ y" by simp
  from int_str_unique [OF this 3(4,5)] \<open>w = JInt m\<close> show ?case by simp
next
  case (5 t)
  then have "json_start w CHR 0x22" using json_dumps_start [of w] by (cases "json_dumps w") (auto simp: json_text_def)
  then obtain t' where "w = JText t'" using 5(2) by (cases w) (auto dest: digit_not)
  with 5(3) have "json_text t @ x = json_text t' @ y" by simp
  from json_text_unique [OF this] \<open>w = JText t'\<close> show ?case by simp
next
  case 1
  then have "json_start w CHR ''n''" using json_dumps_start [of w] by (cases "json_dumps w") auto
  then have "w = JNull" using 1(2) by (cases w) (auto dest: digit_not)
  then show ?case using 1 by simp
next
  case (2 b)
  then have "json_start w (if b then CHR ''t'' else CHR ''f'')"
    using json_dumps_start [of w] by (cases "json_dumps w") (auto split: if_splits)
  then obtain c where "w = JBool c" using 2(2) by (cases w) (auto dest: digit_not split: if_splits)
  then show ?case using 2 by (auto split: if_splits)
qed simp

lemma json_dumps_inj: "plain v \<Longrightarrow> plain w \<Longrightarrow> json_dumps v = json_dumps w \<Longrightarrow> v = w"
  using json_dumps_unique [of v w "[]" "[]"] by (simp add: ends_def)

end
