(* ===== verification/Normalization.thy ===== *)
theory Normalization
  imports Differences
begin

text \<open>
  Versioned normalization of source observations (\<^verbatim>\<open>domain/reconciliation/normalization.py\<close>): a payload is
  projected onto comparison leaves, and an observation becomes either a canonical record with its
  comparison document or bounded quarantine evidence.  A payload and a projection are dicts, that is
  association lists with distinct keys.  Code that catches \<^verbatim>\<open>TypeError\<close> and \<^verbatim>\<open>ValueError\<close> catches every
  error of the model, since the exception classes of the reconciliation domain are value errors.
\<close>

subsection \<open>Values\<close>

definition NORMALIZATION_RULES_VERSION :: int where "NORMALIZATION_RULES_VERSION = 1"
definition MAX_SOURCE_OBSERVATIONS :: nat where "MAX_SOURCE_OBSERVATIONS = 100000"
definition MAX_QUARANTINE_DETAIL_CHARACTERS :: nat where "MAX_QUARANTINE_DETAIL_CHARACTERS = 200"
definition MAX_QUARANTINE_FIELD_BYTES :: nat where "MAX_QUARANTINE_FIELD_BYTES = 96"
definition MAX_PAYLOAD_FIELDS :: nat where "MAX_PAYLOAD_FIELDS = 32"

type_synonym json_object = "(string, json) dict"
type_synonym projection = "(string, ComparisonValue) dict"

datatype QuarantineCode =
    SOURCE_MALFORMED | PAYLOAD_NOT_OBJECT | MISSING_FIELD | NULL_FIELD | WRONG_TYPE | INVALID_VALUE

record SourceObservation =
  obs_position :: int
  obs_connector_id :: prefixed_id
  obs_payload :: "json_object option"
  malformed_reason :: "string option"

definition make_SourceObservation :: "SourceObservation \<Rightarrow> SourceObservation recon_result" where
  "make_SourceObservation ob =
     bind_result (require (\<not> obs_position ob < 0)
       (NormalizationError ''observation position must be a nonnegative integer'')) (\<lambda>_.
     bind_result (case malformed_reason ob of
         None \<Rightarrow> Inr ()
       | Some why \<Rightarrow>
           bind_result (require (why \<noteq> [])
             (NormalizationError ''observation malformed reason must be nonempty text'')) (\<lambda>_.
           require (length why \<le> MAX_QUARANTINE_DETAIL_CHARACTERS)
             (NormalizationError ''observation malformed reason exceeds the size limit''))) (\<lambda>_.
     bind_result (require (\<not> (obs_payload ob = None \<and> malformed_reason ob = None))
       (NormalizationError ''absent payloads require a malformed reason'')) (\<lambda>_.
     bind_result (require (\<not> (obs_payload ob \<noteq> None \<and> malformed_reason ob \<noteq> None))
       (NormalizationError ''present payloads must not carry a malformed reason'')) (\<lambda>_.
     Inr ob))))"

record NormalizedRecord =
  n_position :: int
  n_record :: InventoryRecord
  n_document :: ComparisonDocument

definition make_NormalizedRecord :: "NormalizedRecord \<Rightarrow> NormalizedRecord recon_result" where
  "make_NormalizedRecord n =
     bind_result (require (\<not> n_position n < 0)
       (NormalizationError ''normalized record position must be a nonnegative integer'')) (\<lambda>_. Inr n)"

record QuarantinedObservation =
  q_position :: int
  q_connector_id :: prefixed_id
  q_code :: QuarantineCode
  q_field :: string
  q_detail :: string
  q_source_record_key :: string

definition make_QuarantinedObservation :: "QuarantinedObservation \<Rightarrow> QuarantinedObservation recon_result" where
  "make_QuarantinedObservation q =
     bind_result (require (\<not> q_position q < 0)
       (NormalizationError ''quarantined position must be a nonnegative integer'')) (\<lambda>_.
     bind_result (require (q_field q \<noteq> [] \<and> utf8_length (q_field q) \<le> MAX_QUARANTINE_FIELD_BYTES)
       (NormalizationError ''quarantined field must be bounded nonempty text'')) (\<lambda>_.
     bind_result (require (q_detail q \<noteq> [] \<and> length (q_detail q) \<le> MAX_QUARANTINE_DETAIL_CHARACTERS)
       (NormalizationError ''quarantined detail must be bounded nonempty text'')) (\<lambda>_.
     bind_result (require (utf8_length (q_source_record_key q) \<le> MAX_QUARANTINE_FIELD_BYTES)
       (NormalizationError ''quarantined source record key must be bounded text'')) (\<lambda>_.
     Inr q))))"

record SourceNormalization =
  sn_rules_version :: int
  sn_records :: "NormalizedRecord list"
  sn_quarantined :: "QuarantinedObservation list"

definition ordered_unique :: "int list \<Rightarrow> unit recon_result" where
  "ordered_unique positions =
     require (sorted positions \<and> distinct positions)
       (NormalizationError ''normalization results must use ordered unique positions'')"

definition make_SourceNormalization :: "SourceNormalization \<Rightarrow> SourceNormalization recon_result" where
  "make_SourceNormalization n =
     bind_result (require (sn_rules_version n = NORMALIZATION_RULES_VERSION)
       (NormalizationError ''normalization rules version is unsupported'')) (\<lambda>_.
     bind_result (ordered_unique (map n_position (sn_records n))) (\<lambda>_.
     bind_result (ordered_unique (map q_position (sn_quarantined n))) (\<lambda>_.
     bind_result (require (length (sn_records n) + length (sn_quarantined n) \<le> MAX_SOURCE_OBSERVATIONS)
       (NormalizationError ''normalization batch exceeds the observation limit'')) (\<lambda>_.
     Inr n))))"

subsection \<open>Quarantine evidence\<close>

definition py_strip :: "string \<Rightarrow> string" where
  "py_strip t = rev (dropWhile is_space (rev (dropWhile is_space t)))"

definition bounded_detail_str :: "string \<Rightarrow> string" where
  "bounded_detail_str detail =
     (let normalized = py_strip detail in
      if normalized = [] then ''normalization failed''
      else take MAX_QUARANTINE_DETAIL_CHARACTERS normalized)"

fun error_text :: "recon_error \<Rightarrow> string" where
  "error_text (PyError (TypeError m)) = m"
| "error_text (PyError (ValueError m)) = m"
| "error_text (ComparisonDocumentError m) = m"
| "error_text (NormalizationError m) = m"
| "error_text (MatchingError m) = m"

definition quarantine_key :: "SourceObservation \<Rightarrow> string" where
  "quarantine_key ob =
     (case obs_payload ob of
        None \<Rightarrow> []
      | Some payload \<Rightarrow>
          (case map_of payload ''source_record_key'' of
             Some (JText key) \<Rightarrow> if utf8_length key > MAX_QUARANTINE_FIELD_BYTES then [] else key
           | _ \<Rightarrow> []))"

definition quarantine ::
  "SourceObservation \<Rightarrow> QuarantineCode \<Rightarrow> string \<Rightarrow> string \<Rightarrow> QuarantinedObservation recon_result" where
  "quarantine ob c field detail =
     make_QuarantinedObservation
       \<lparr>q_position = obs_position ob, q_connector_id = obs_connector_id ob, q_code = c, q_field = field,
        q_detail = bounded_detail_str detail, q_source_record_key = quarantine_key ob\<rparr>"

subsection \<open>Projection of a payload\<close>

text \<open>\<^verbatim>\<open>try: text_value(v) except: wrong_type(v)\<close>, with the leaf constructor as argument.\<close>

definition text_or_wrong :: "(string \<Rightarrow> ComparisonValue recon_result) \<Rightarrow> string \<Rightarrow> ComparisonValue recon_result" where
  "text_or_wrong leaf t = (case leaf t of Inl _ \<Rightarrow> wrong_type (JText t) | Inr v \<Rightarrow> Inr v)"

definition put_leaf :: "string \<Rightarrow> ComparisonValue recon_result \<Rightarrow> projection \<Rightarrow> projection recon_result" where
  "put_leaf path leaf proj = bind_result leaf (\<lambda>v. Inr (AList.update path v proj))"

definition project_leaf :: "json_object \<Rightarrow> string \<Rightarrow> projection \<Rightarrow> projection recon_result" where
  "project_leaf payload field proj =
     (case map_of payload field of
        None \<Rightarrow> Inr proj
      | Some v \<Rightarrow>
          if v = JNull then put_leaf field null_value proj
          else if field = ''quantity'' then
            (case v of
               JInt n \<Rightarrow> put_leaf field (integer_value n) proj
             | _ \<Rightarrow> put_leaf field (wrong_type v) proj)
          else
            (case v of
               JText t \<Rightarrow> put_leaf field (text_or_wrong text_value t) proj
             | _ \<Rightarrow> put_leaf field (wrong_type v) proj))"

text \<open>The leaf of one text member of a nested object.\<close>

definition nested_leaf :: "(string \<Rightarrow> ComparisonValue recon_result) \<Rightarrow> json \<Rightarrow> ComparisonValue recon_result" where
  "nested_leaf leaf v =
     (case v of
        JNull \<Rightarrow> null_value
      | JText t \<Rightarrow> text_or_wrong leaf t
      | _ \<Rightarrow> wrong_type v)"

definition project_price_child :: "json_object \<Rightarrow> string \<Rightarrow> projection \<Rightarrow> projection recon_result" where
  "project_price_child price child proj =
     (case map_of price child of
        None \<Rightarrow> Inr proj
      | Some v \<Rightarrow> put_leaf (''unit_price/'' @ child) (nested_leaf text_value v) proj)"

definition project_unit_price :: "json_object \<Rightarrow> projection \<Rightarrow> projection recon_result" where
  "project_unit_price payload proj =
     (case map_of payload ''unit_price'' of
        None \<Rightarrow> Inr proj
      | Some JNull \<Rightarrow> put_leaf ''unit_price'' null_value proj
      | Some (JDict price) \<Rightarrow>
          bind_result (project_price_child price ''currency'' proj) (project_price_child price ''amount'')
      | Some v \<Rightarrow> put_leaf ''unit_price'' (wrong_type v) proj)"

fun attribute_leaves ::
  "json_object \<Rightarrow> string list \<Rightarrow> projection \<Rightarrow> string option \<Rightarrow> (projection \<times> string option) recon_result" where
  "attribute_leaves items [] proj invalid_key = Inr (proj, invalid_key)"
| "attribute_leaves items (key # ks) proj invalid_key =
     (case canonical_attribute_path key of
        None \<Rightarrow> attribute_leaves items ks proj
          (case invalid_key of None \<Rightarrow> Some key | Some k \<Rightarrow> if key < k then Some key else Some k)
      | Some path \<Rightarrow>
          bind_result (put_leaf path (nested_leaf attribute_text_value (the (map_of items key))) proj) (\<lambda>proj.
          attribute_leaves items ks proj invalid_key))"

definition project_attributes :: "json_object \<Rightarrow> projection \<Rightarrow> (projection \<times> string option) recon_result" where
  "project_attributes payload proj =
     (case map_of payload ''attributes'' of
        None \<Rightarrow> Inr (proj, None)
      | Some JNull \<Rightarrow> bind_result (put_leaf ''attributes'' null_value proj) (\<lambda>p. Inr (p, None))
      | Some (JDict items) \<Rightarrow> attribute_leaves items (sort (map fst items)) proj None
      | Some v \<Rightarrow> bind_result (put_leaf ''attributes'' (wrong_type v) proj) (\<lambda>p. Inr (p, None)))"

definition project_payload :: "json_object \<Rightarrow> (projection \<times> string option) recon_result" where
  "project_payload payload =
     bind_result (project_leaf payload ''name'' []) (\<lambda>p.
     bind_result (project_leaf payload ''quantity'' p) (\<lambda>p.
     bind_result (project_leaf payload ''updated_at'' p) (\<lambda>p.
     bind_result (project_unit_price payload p) (\<lambda>p.
     project_attributes payload p))))"

subsection \<open>Rules\<close>

definition provenance_quarantine :: "SourceObservation \<Rightarrow> json_object \<Rightarrow> QuarantinedObservation option recon_result" where
  "provenance_quarantine ob payload =
     (let check = (\<lambda>field next.
        case map_of payload field of
          None \<Rightarrow> bind_result (quarantine ob MISSING_FIELD field (field @ '' is absent'')) (\<lambda>q. Inr (Some q))
        | Some JNull \<Rightarrow> bind_result (quarantine ob NULL_FIELD field (field @ '' is null'')) (\<lambda>q. Inr (Some q))
        | Some (JText t) \<Rightarrow> next
        | Some v \<Rightarrow> bind_result (quarantine ob WRONG_TYPE field (field @ '' must be text'')) (\<lambda>q. Inr (Some q)))
      in check ''sku'' (check ''source_record_key'' (Inr None)))"

definition EXPECTED_TYPES :: "(string, string) dict" where
  "EXPECTED_TYPES =
     [(''name'', ''canonical text''), (''quantity'', ''an integer''), (''updated_at'', ''canonical text''),
      (''unit_price'', ''an object''), (''unit_price/currency'', ''canonical text''),
      (''unit_price/amount'', ''canonical text''), (''attributes'', ''an object'')]"

definition is_attribute_path :: "string \<Rightarrow> bool" where
  "is_attribute_path path \<longleftrightarrow> take 11 path = ''attributes/''"

fun marker_loop :: "SourceObservation \<Rightarrow> projection \<Rightarrow> string list \<Rightarrow> QuarantinedObservation option recon_result" where
  "marker_loop ob proj [] = Inr None"
| "marker_loop ob proj (path # paths) =
     (let k = leaf_kind (the (map_of proj path)) in
      if k \<notin> {Kind_NULL, Kind_WRONG_TYPE} then marker_loop ob proj paths
      else if k = Kind_NULL
      then bind_result (quarantine ob NULL_FIELD path (path @ '' is null'')) (\<lambda>q. Inr (Some q))
      else
        let expected = (if is_attribute_path path then Some ''canonical text'' else map_of EXPECTED_TYPES path);
            detail = (case expected of
                Some what \<Rightarrow> path @ '' must be '' @ what
              | None \<Rightarrow> path @ '' must be a supported canonical type'') in
        bind_result (quarantine ob WRONG_TYPE path detail) (\<lambda>q. Inr (Some q)))"

definition marker_quarantine :: "SourceObservation \<Rightarrow> projection \<Rightarrow> QuarantinedObservation option recon_result" where
  "marker_quarantine ob proj = marker_loop ob proj (sort (keys proj))"

fun required_loop :: "SourceObservation \<Rightarrow> projection \<Rightarrow> string list \<Rightarrow> QuarantinedObservation option recon_result" where
  "required_loop ob proj [] = Inr None"
| "required_loop ob proj (path # paths) =
     (if path \<notin> set (keys proj)
      then bind_result (quarantine ob MISSING_FIELD path (path @ '' is absent'')) (\<lambda>q. Inr (Some q))
      else required_loop ob proj paths)"

definition required_quarantine :: "SourceObservation \<Rightarrow> projection \<Rightarrow> QuarantinedObservation option recon_result" where
  "required_quarantine ob proj =
     bind_result (required_loop ob proj [''name'', ''quantity'', ''updated_at'']) (\<lambda>q.
     if q \<noteq> None then Inr q
     else if ''unit_price'' \<notin> set (keys proj) \<and> ''unit_price/currency'' \<notin> set (keys proj)
     then bind_result (quarantine ob MISSING_FIELD ''unit_price'' ''unit_price is absent'') (\<lambda>q. Inr (Some q))
     else required_loop ob proj [''unit_price/currency'', ''unit_price/amount''])"

text \<open>\<^verbatim>\<open>try: Money.parse(t) except: None\<close>.\<close>

definition try_money :: "string \<Rightarrow> Money option" where
  "try_money t = (case Money_parse t of Inl _ \<Rightarrow> None | Inr m \<Rightarrow> Some m)"

definition parse_money :: "string \<Rightarrow> string \<Rightarrow> Money option \<times> Money option" where
  "parse_money cur amt =
     (let currency_money = try_money (cur @ '' 1.00''); amount_money = try_money (''USD '' @ amt) in
      if currency_money = None \<or> amount_money = None then (currency_money, amount_money)
      else (currency_money, try_money (cur @ '' '' @ amt)))"

definition PROBE_TIMESTAMP :: UtcTimestamp where "PROBE_TIMESTAMP = 1704164645000006"
definition PROBE_MONEY :: Money where
  "PROBE_MONEY = \<lparr>amount = Finite False 100 (-2), currency = ''USD'', minor_unit_exponent = 2\<rparr>"

definition probe_record :: "prefixed_id \<Rightarrow> string \<Rightarrow> string \<Rightarrow> int \<Rightarrow> string \<Rightarrow> (string, string) dict \<Rightarrow> bool" where
  "probe_record connector s n q key values =
     (case create_record s n q PROBE_MONEY PROBE_TIMESTAMP connector key values of Inl _ \<Rightarrow> False | Inr _ \<Rightarrow> True)"

definition probe_invalid_field :: "prefixed_id \<Rightarrow> string \<Rightarrow> string \<Rightarrow> int \<Rightarrow> string \<Rightarrow> (string, string) dict \<Rightarrow> string" where
  "probe_invalid_field connector s n q key values =
     (if \<not> probe_record connector s ''Probe value'' 1 ''probe-key'' [] then ''sku''
      else if \<not> probe_record connector ''PROBE-1'' n 1 ''probe-key'' [] then ''name''
      else if \<not> probe_record connector ''PROBE-1'' ''Probe value'' q ''probe-key'' [] then ''quantity''
      else if \<not> probe_record connector ''PROBE-1'' ''Probe value'' 1 key [] then ''source_record_key''
      else if \<not> probe_record connector ''PROBE-1'' ''Probe value'' 1 ''probe-key'' values then ''attributes''
      else ''record'')"

subsection \<open>Observations\<close>

datatype normalized = Normalized NormalizedRecord | Quarantined QuarantinedObservation

abbreviation quarantined :: "QuarantinedObservation recon_result \<Rightarrow> normalized recon_result" where
  "quarantined q \<equiv> bind_result q (\<lambda>q. Inr (Quarantined q))"

definition leaf_string :: "projection \<Rightarrow> string \<Rightarrow> string" where
  "leaf_string proj path = the (leaf_text (the (map_of proj path)))"

definition projected_attributes :: "projection \<Rightarrow> (string, string) dict" where
  "projected_attributes proj =
     map (\<lambda>(path, v). (drop 11 path, the (leaf_text v)))
       (filter (\<lambda>(path, v). is_attribute_path path \<and> leaf_kind v = Kind_ATTRIBUTE_TEXT) proj)"

text \<open>The last step: the canonical record and its document, or the evidence that the record's own
  contract refused a field.  The arguments are the leaves the checks before have established.\<close>

definition normalized_record ::
  "SourceObservation \<Rightarrow> string \<Rightarrow> string \<Rightarrow> projection \<Rightarrow> Money \<Rightarrow> UtcTimestamp \<Rightarrow> normalized recon_result" where
  "normalized_record ob s key proj price updated =
     (let n = leaf_string proj ''name'';
          q = the (leaf_integer (the (map_of proj ''quantity'')));
          values = projected_attributes proj in
      case create_record s n q price updated (obs_connector_id ob) key values of
        Inl e \<Rightarrow> quarantined (quarantine ob INVALID_VALUE
          (probe_invalid_field (obs_connector_id ob) s n q key values) (error_text (PyError e)))
      | Inr record \<Rightarrow>
          bind_result (make_ComparisonDocument (sort_key fst proj)) (\<lambda>document.
          bind_result (make_NormalizedRecord
            \<lparr>n_position = obs_position ob, n_record = record, n_document = document\<rparr>) (\<lambda>n.
          Inr (Normalized n))))"

text \<open>The price and the timestamp are text leaves here: markers and absent leaves were quarantined.\<close>

definition normalize_values ::
  "SourceObservation \<Rightarrow> string \<Rightarrow> string \<Rightarrow> projection \<Rightarrow> normalized recon_result" where
  "normalize_values ob s key proj =
     (let cur = leaf_string proj ''unit_price/currency''; amt = leaf_string proj ''unit_price/amount'';
          stamp = leaf_string proj ''updated_at'' in
      case parse_money cur amt of
        (None, _) \<Rightarrow> quarantined (quarantine ob INVALID_VALUE ''unit_price/currency''
          (''unit_price/currency is not a canonical currency: '' @ cur))
      | (Some _, None) \<Rightarrow> quarantined (quarantine ob INVALID_VALUE ''unit_price/amount''
          (''unit_price/amount is not a canonical amount: '' @ amt))
      | (Some _, Some price) \<Rightarrow>
          bind_result (put_leaf ''unit_price/amount'' (money_amount_value price) proj) (\<lambda>proj.
          case utc_parse stamp of
            Inl _ \<Rightarrow> quarantined (quarantine ob INVALID_VALUE ''updated_at''
              (''updated_at is not a canonical timestamp: '' @ stamp))
          | Inr updated \<Rightarrow>
              bind_result (put_leaf ''updated_at'' (timestamp_value updated) proj) (\<lambda>proj.
              normalized_record ob s key proj price updated)))"

definition payload_text :: "json_object \<Rightarrow> string \<Rightarrow> string" where
  "payload_text payload field = (case map_of payload field of Some (JText t) \<Rightarrow> t | _ \<Rightarrow> [])"

definition normalize_observation :: "SourceObservation \<Rightarrow> normalized recon_result" where
  "normalize_observation ob =
     (case obs_payload ob of
        None \<Rightarrow> quarantined (quarantine ob SOURCE_MALFORMED ''payload''
          (case malformed_reason ob of Some why \<Rightarrow> why | None \<Rightarrow> ''the connector rejected the record''))
      | Some payload \<Rightarrow>
          if length payload > MAX_PAYLOAD_FIELDS
          then quarantined (quarantine ob WRONG_TYPE ''payload'' ''payload exceeds the field limit'')
          else
            bind_result (project_payload payload) (\<lambda>(proj, invalid_attribute_key).
            case invalid_attribute_key of
              Some key \<Rightarrow> quarantined (quarantine ob INVALID_VALUE ''attributes''
                (''attribute keys must be canonical lowercase ASCII: '' @ key))
            | None \<Rightarrow>
                bind_result (provenance_quarantine ob payload) (\<lambda>provenance.
                bind_result (marker_quarantine ob proj) (\<lambda>marker.
                bind_result (required_quarantine ob proj) (\<lambda>required.
                case filter (\<lambda>q. q \<noteq> None) [provenance, marker, required] of
                  Some q # _ \<Rightarrow> Inr (Quarantined q)
                | _ \<Rightarrow> normalize_values ob (payload_text payload ''sku'')
                    (payload_text payload ''source_record_key'') proj)))))"

subsection \<open>Batches\<close>

fun normalize_loop ::
  "SourceObservation list \<Rightarrow> int set \<Rightarrow> NormalizedRecord list \<Rightarrow> QuarantinedObservation list \<Rightarrow>
     (NormalizedRecord list \<times> QuarantinedObservation list) recon_result" where
  "normalize_loop [] seen records quarantined_list = Inr (records, quarantined_list)"
| "normalize_loop (ob # obs) seen records quarantined_list =
     bind_result (require (obs_position ob \<notin> seen)
       (NormalizationError ''normalization positions must be unique'')) (\<lambda>_.
     let seen = insert (obs_position ob) seen in
     bind_result (require (card seen \<le> MAX_SOURCE_OBSERVATIONS)
       (NormalizationError ''normalization batch exceeds the observation limit'')) (\<lambda>_.
     bind_result (normalize_observation ob) (\<lambda>result.
     case result of
       Normalized n \<Rightarrow> normalize_loop obs seen (records @ [n]) quarantined_list
     | Quarantined q \<Rightarrow> normalize_loop obs seen records (quarantined_list @ [q]))))"

definition normalize_source_observations :: "SourceObservation list \<Rightarrow> SourceNormalization recon_result" where
  "normalize_source_observations obs =
     bind_result (normalize_loop obs {} [] []) (\<lambda>(records, quarantined_list).
     make_SourceNormalization
       \<lparr>sn_rules_version = NORMALIZATION_RULES_VERSION, sn_records = sort_key n_position records,
        sn_quarantined = sort_key q_position quarantined_list\<rparr>)"

end
