(* ===== verification/Normalization_Facts.thy ===== *)
theory Normalization_Facts
  imports Normalization
begin

text \<open>
  What normalization returns: when it returns at all, which leaves a projection holds, and that the comparison
  document of a normalized record is the projection of the record itself (\<open>document_of\<close>).
\<close>

subsection \<open>Leaves that a projection can hold\<close>

definition text_leaf :: "string \<Rightarrow> ComparisonValue" where
  "text_leaf t = (leaf_of_kind Kind_TEXT)\<lparr>leaf_text := Some t\<rparr>"

definition attribute_leaf :: "string \<Rightarrow> ComparisonValue" where
  "attribute_leaf t = (leaf_of_kind Kind_ATTRIBUTE_TEXT)\<lparr>leaf_text := Some t\<rparr>"

definition integer_leaf :: "int \<Rightarrow> ComparisonValue" where
  "integer_leaf n = (leaf_of_kind Kind_INTEGER)\<lparr>leaf_integer := Some n\<rparr>"

definition money_leaf :: "Money \<Rightarrow> ComparisonValue" where
  "money_leaf m = (leaf_of_kind Kind_MONEY_AMOUNT)\<lparr>leaf_money := Some m\<rparr>"

definition timestamp_leaf :: "UtcTimestamp \<Rightarrow> ComparisonValue" where
  "timestamp_leaf t = (leaf_of_kind Kind_TIMESTAMP)\<lparr>leaf_timestamp := Some t\<rparr>"

lemmas leaf_defs = text_leaf_def attribute_leaf_def integer_leaf_def money_leaf_def timestamp_leaf_def
  leaf_of_kind_def

abbreviation marker :: "ComparisonValue \<Rightarrow> bool" where
  "marker v \<equiv> leaf_kind v = Kind_NULL \<or> leaf_kind v = Kind_WRONG_TYPE"

abbreviation int64 :: "int \<Rightarrow> bool" where
  "int64 n \<equiv> - 9223372036854775808 \<le> n \<and> n \<le> 9223372036854775807"

definition TEXT_PATHS :: "string set" where
  "TEXT_PATHS = {''name'', ''updated_at'', ''unit_price/currency'', ''unit_price/amount''}"

text \<open>A leaf of a projected payload: a marker, or the typed leaf of its path.\<close>

definition allowed_leaf :: "string set \<Rightarrow> string \<Rightarrow> ComparisonValue \<Rightarrow> bool" where
  "allowed_leaf K p v \<longleftrightarrow>
     (p \<in> TEXT_PATHS \<and> (marker v \<or> (\<exists>t. v = text_leaf t \<and> length t \<le> MAX_LEAF_TEXT_CHARACTERS))) \<or>
     (p = ''quantity'' \<and> (marker v \<or> (\<exists>n. v = integer_leaf n \<and> int64 n))) \<or>
     (p \<in> {''unit_price'', ''attributes''} \<and> marker v) \<or>
     (\<exists>k \<in> K. ATTRIBUTE_KEY_PATTERN k \<and> p = ''attributes/'' @ k \<and>
        (marker v \<or> (\<exists>t. v = attribute_leaf t \<and> length t \<le> MAX_LEAF_TEXT_CHARACTERS)))"

definition proj_ok :: "string set \<Rightarrow> projection \<Rightarrow> bool" where
  "proj_ok K proj \<longleftrightarrow> well_keyed proj \<and> (\<forall>(p, v) \<in> set proj. allowed_leaf K p v)"

lemma proj_ok_Nil [simp]: "proj_ok K []"
  by (simp add: proj_ok_def)

lemma put_leaf_Inr:
  assumes "put_leaf p leaf proj = Inr proj'" "proj_ok K proj" "\<And>v. leaf = Inr v \<Longrightarrow> allowed_leaf K p v"
  shows "proj_ok K proj'"
proof -
  from assms(1) obtain v where v: "leaf = Inr v" "proj' = AList.update p v proj"
    by (auto simp: put_leaf_def result_simps)
  have "set proj' \<subseteq> insert (p, v) (set proj)"
    unfolding v(2) by (induction proj) auto
  with assms(2,3) v show ?thesis by (auto simp: proj_ok_def intro: distinct_update)
qed

lemma make_value_Inr [result_simps]: "make_ComparisonValue v = Inr w \<longleftrightarrow> w = v \<and> require_leaf v = Inr ()"
  by (auto simp: make_ComparisonValue_def result_simps)

lemma null_leaf: "null_value = Inr (leaf_of_kind Kind_NULL)"
  by (simp add: null_value_def result_simps require_leaf_iff leaf_of_kind_def)

lemma comma_separated_dumps: "json_dumps v \<noteq> []"
  by (cases v) (simp_all add: json_text_def int_str_def)

lemma wrong_type_leaf: "wrong_type v = Inr ((leaf_of_kind Kind_WRONG_TYPE)\<lparr>leaf_text := Some (bounded_raw v)\<rparr>)"
  using comma_separated_dumps [of v]
  by (auto simp: wrong_type_def result_simps require_leaf_iff leaf_of_kind_def bounded_raw_def Let_def)

lemma wrong_type_marker: "wrong_type v = Inr w \<Longrightarrow> marker w"
  by (auto simp: wrong_type_leaf leaf_of_kind_def)

lemma null_marker: "null_value = Inr w \<Longrightarrow> marker w"
  by (auto simp: null_leaf leaf_of_kind_def)

lemma text_value_Inr: "text_value t = Inr v \<Longrightarrow> v = text_leaf t \<and> length t \<le> MAX_LEAF_TEXT_CHARACTERS"
  by (auto simp: text_value_def normalized_leaf_text_def result_simps text_leaf_def)

lemma attribute_text_value_Inr:
  "attribute_text_value t = Inr v \<Longrightarrow> v = attribute_leaf t \<and> length t \<le> MAX_LEAF_TEXT_CHARACTERS"
  by (auto simp: attribute_text_value_def normalized_leaf_text_def result_simps attribute_leaf_def)

lemma integer_value_Inr: "integer_value n = Inr v \<longleftrightarrow> v = integer_leaf n \<and> int64 n"
  by (auto simp: integer_value_def result_simps integer_leaf_def require_leaf_iff leaf_of_kind_def)

lemma text_or_wrong_Inr: "text_or_wrong leaf t = Inr v \<Longrightarrow> leaf t = Inr v \<or> marker v"
  by (auto simp: text_or_wrong_def dest: wrong_type_marker split: sum.splits)

lemma nested_leaf_Inr: "nested_leaf leaf w = Inr v \<Longrightarrow> marker v \<or> (\<exists>t. w = JText t \<and> leaf t = Inr v)"
  by (cases w) (auto simp: nested_leaf_def dest: wrong_type_marker null_marker text_or_wrong_Inr)

lemma project_leaf_Inr:
  assumes "project_leaf payload f proj = Inr proj'" "proj_ok K proj" "f \<in> {''name'', ''quantity'', ''updated_at''}"
  shows "proj_ok K proj'"
proof -
  have put: "proj_ok K proj'" if "put_leaf f leaf proj = Inr proj'" "\<And>v. leaf = Inr v \<Longrightarrow> allowed_leaf K f v" for leaf
    using put_leaf_Inr [OF that(1) assms(2)] that(2) by blast
  have f: "f = ''quantity'' \<or> (f \<noteq> ''quantity'' \<and> f \<in> TEXT_PATHS)" using assms(3) by (auto simp: TEXT_PATHS_def)
  have mark: "allowed_leaf K f v" if "marker v" for v using that f by (auto simp: allowed_leaf_def)
  have num: "allowed_leaf K f v" if "f = ''quantity''" "integer_value n = Inr v" for v n
    using that by (auto simp: allowed_leaf_def integer_value_Inr)
  have words: "allowed_leaf K f v" if n: "f \<noteq> ''quantity''" "text_or_wrong text_value t = Inr v" for v t
    using text_or_wrong_Inr [OF n(2)] f n(1) text_value_Inr [of t v] mark by (auto simp: allowed_leaf_def)
  show ?thesis
  proof (cases "map_of payload f")
    case (Some v)
    with assms(1) have "\<exists>leaf. put_leaf f leaf proj = Inr proj' \<and>
        (leaf = null_value \<or> leaf = wrong_type v \<or> (f = ''quantity'' \<and> (\<exists>n. leaf = integer_value n)) \<or>
         (f \<noteq> ''quantity'' \<and> (\<exists>t. leaf = text_or_wrong text_value t)))"
      by (cases v; cases "f = ''quantity''") (auto simp: project_leaf_def)
    then show ?thesis using put mark num words wrong_type_marker null_marker by blast
  qed (use assms in \<open>simp add: project_leaf_def\<close>)
qed

lemma project_unit_price_Inr:
  assumes "project_unit_price payload proj = Inr proj'" "proj_ok K proj"
  shows "proj_ok K proj'"
proof -
  have child: "proj_ok K proj2" if "project_price_child price c proj1 = Inr proj2" "proj_ok K proj1"
      "c \<in> {''currency'', ''amount''}" for price c proj1 proj2
  proof (cases "map_of price c")
    case (Some v)
    with that(1) have "put_leaf (''unit_price/'' @ c) (nested_leaf text_value v) proj1 = Inr proj2"
      by (simp add: project_price_child_def)
    then show ?thesis
    proof (rule put_leaf_Inr [OF _ that(2)])
      fix w
      assume "nested_leaf text_value v = Inr w"
      moreover have "''unit_price/'' @ c \<in> TEXT_PATHS" using that(3) by (auto simp: TEXT_PATHS_def)
      ultimately show "allowed_leaf K (''unit_price/'' @ c) w"
        by (auto simp: allowed_leaf_def dest!: nested_leaf_Inr text_value_Inr)
    qed
  qed (use that in \<open>simp add: project_price_child_def\<close>)
  have mark: "allowed_leaf K ''unit_price'' v" if "marker v" for v using that by (simp add: allowed_leaf_def)
  have put: "proj_ok K proj'" if "put_leaf ''unit_price'' leaf proj = Inr proj'" "\<And>v. leaf = Inr v \<Longrightarrow> marker v" for leaf
    using put_leaf_Inr [OF that(1) assms(2)] that(2) mark by blast
  show ?thesis
  proof (cases "map_of payload ''unit_price''")
    case (Some v)
    then show ?thesis
    proof (cases v)
      case (JDict price)
      with Some assms(1) obtain proj1 where "project_price_child price ''currency'' proj = Inr proj1"
        "project_price_child price ''amount'' proj1 = Inr proj'"
        by (auto simp: project_unit_price_def result_simps)
      then show ?thesis using child assms(2) by blast
    qed (use Some assms(1) wrong_type_marker null_marker in \<open>auto simp: project_unit_price_def elim!: put\<close>)
  qed (use assms in \<open>simp add: project_unit_price_def\<close>)
qed

lemma attribute_leaves_Inr:
  assumes "attribute_leaves items ks proj bad = Inr (proj', bad')" "proj_ok K proj" "set ks \<subseteq> K"
  shows "proj_ok K proj'"
  using assms
proof (induction items ks proj bad rule: attribute_leaves.induct)
  case (2 items key ks proj bad)
  show ?case
  proof (cases "canonical_attribute_path key")
    case None
    with 2 show ?thesis by simp
  next
    case (Some path)
    then have path: "ATTRIBUTE_KEY_PATTERN key" "path = ''attributes/'' @ key"
      by (auto simp: canonical_attribute_path_def split: if_splits)
    from 2(3) Some obtain proj1 where
      put: "put_leaf path (nested_leaf attribute_text_value (the (map_of items key))) proj = Inr proj1"
      and rest: "attribute_leaves items ks proj1 bad = Inr (proj', bad')"
      by (auto simp: result_simps)
    have "proj_ok K proj1"
    proof (rule put_leaf_Inr [OF put 2(4)])
      fix v
      assume "nested_leaf attribute_text_value (the (map_of items key)) = Inr v"
      with path 2(5) show "allowed_leaf K path v"
        by (auto simp: allowed_leaf_def dest!: nested_leaf_Inr attribute_text_value_Inr)
    qed
    with 2(2) [OF Some] rest 2(5) show ?thesis by simp
  qed
qed simp

text \<open>The attribute keys of a payload.\<close>

definition attribute_keys :: "json_object \<Rightarrow> string set" where
  "attribute_keys payload =
     (case map_of payload ''attributes'' of Some (JDict items) \<Rightarrow> set (keys items) | _ \<Rightarrow> {})"

lemma project_payload_Inr:
  assumes "project_payload payload = Inr (proj, bad)"
  shows "proj_ok (attribute_keys payload) proj"
proof -
  let ?K = "attribute_keys payload"
  from assms obtain p1 p2 p3 p4 where steps: "project_leaf payload ''name'' [] = Inr p1"
    "project_leaf payload ''quantity'' p1 = Inr p2" "project_leaf payload ''updated_at'' p2 = Inr p3"
    "project_unit_price payload p3 = Inr p4" and last: "project_attributes payload p4 = Inr (proj, bad)"
    by (auto simp: project_payload_def result_simps)
  have "proj_ok ?K p1" by (rule project_leaf_Inr [OF steps(1)]) simp_all
  from project_leaf_Inr [OF steps(2) this] have "proj_ok ?K p2" by simp
  from project_leaf_Inr [OF steps(3) this] have "proj_ok ?K p3" by simp
  from project_unit_price_Inr [OF steps(4) this] have p4: "proj_ok ?K p4" .
  have put: "proj_ok ?K proj" if "put_leaf ''attributes'' leaf p4 = Inr proj" "\<And>v. leaf = Inr v \<Longrightarrow> marker v" for leaf
    using put_leaf_Inr [OF that(1) p4] that(2) by (auto simp: allowed_leaf_def)
  show ?thesis
  proof (cases "map_of payload ''attributes''")
    case (Some v)
    then show ?thesis
    proof (cases v)
      case (JDict items)
      with Some last have "attribute_leaves items (sort (map fst items)) p4 None = Inr (proj, bad)"
        by (simp add: project_attributes_def)
      then show ?thesis by (rule attribute_leaves_Inr [OF _ p4]) (simp add: attribute_keys_def Some JDict)
    qed (use Some last wrong_type_marker null_marker in
        \<open>auto simp: project_attributes_def result_simps elim!: put\<close>)
  qed (use last p4 in \<open>simp add: project_attributes_def\<close>)
qed

subsection \<open>When projection returns\<close>

lemma text_or_wrong_total: "\<exists>v. text_or_wrong leaf t = Inr v"
  by (simp add: text_or_wrong_def wrong_type_leaf split: sum.split)

lemma nested_leaf_total: "\<exists>v. nested_leaf leaf w = Inr v"
  by (cases w) (simp_all add: nested_leaf_def wrong_type_leaf null_leaf text_or_wrong_total)

lemma put_leaf_total: "\<exists>v. leaf = Inr v \<Longrightarrow> \<exists>proj'. put_leaf p leaf proj = Inr proj'"
  by (auto simp: put_leaf_def)

lemma project_leaf_total:
  "(f = ''quantity'' \<Longrightarrow> \<forall>n. map_of payload f = Some (JInt n) \<longrightarrow> int64 n) \<Longrightarrow>
   \<exists>proj'. project_leaf payload f proj = Inr proj'"
  unfolding project_leaf_def
  by (auto intro!: put_leaf_total text_or_wrong_total simp: wrong_type_leaf null_leaf integer_value_Inr
      split: option.split json.split)

lemma project_unit_price_total: "\<exists>proj'. project_unit_price payload proj = Inr proj'"
proof -
  have child: "\<exists>proj'. project_price_child price c proj = Inr proj'" for price c proj
    by (auto simp: project_price_child_def intro!: put_leaf_total nested_leaf_total split: option.split)
  show ?thesis
  proof (cases "map_of payload ''unit_price''")
    case (Some v)
    show ?thesis
    proof (cases v)
      case (JDict price)
      obtain proj1 where "project_price_child price ''currency'' proj = Inr proj1" using child by blast
      with child [of price "''amount''" proj1] Some JDict show ?thesis by (simp add: project_unit_price_def)
    qed (use Some in \<open>simp_all add: project_unit_price_def wrong_type_leaf null_leaf put_leaf_def\<close>)
  qed (simp add: project_unit_price_def)
qed

lemma attribute_leaves_total: "\<exists>proj' bad'. attribute_leaves items ks proj bad = Inr (proj', bad')"
proof (induction items ks proj bad rule: attribute_leaves.induct)
  case (2 items key ks proj bad)
  show ?case
  proof (cases "canonical_attribute_path key")
    case (Some path)
    obtain proj1 where
      "put_leaf path (nested_leaf attribute_text_value (the (map_of items key))) proj = Inr proj1"
      using put_leaf_total [OF nested_leaf_total] by blast
    with Some 2(2) [OF Some] show ?thesis by simp
  qed (use 2 in simp)
qed simp

lemma project_attributes_total: "\<exists>r. project_attributes payload proj = Inr r"
  by (auto simp: project_attributes_def wrong_type_leaf null_leaf put_leaf_def attribute_leaves_total
      split: option.split json.split)

lemma project_payload_total:
  assumes "\<forall>n. map_of payload ''quantity'' = Some (JInt n) \<longrightarrow> int64 n"
  obtains proj bad where "project_payload payload = Inr (proj, bad)"
proof -
  obtain p1 where 1: "project_leaf payload ''name'' [] = Inr p1"
    using project_leaf_total [of "''name''" payload "[]"] by auto
  obtain p2 where 2: "project_leaf payload ''quantity'' p1 = Inr p2"
    using project_leaf_total [of "''quantity''" payload p1] assms by blast
  obtain p3 where 3: "project_leaf payload ''updated_at'' p2 = Inr p3"
    using project_leaf_total [of "''updated_at''" payload p2] by auto
  obtain p4 where 4: "project_unit_price payload p3 = Inr p4" using project_unit_price_total by blast
  obtain r where "project_attributes payload p4 = Inr r" using project_attributes_total by blast
  with 1 2 3 4 have "project_payload payload = Inr (fst r, snd r)" by (simp add: project_payload_def)
  then show thesis by (rule that)
qed

lemma project_payload_huge:
  assumes "map_of payload ''quantity'' = Some (JInt n)" "\<not> int64 n"
  shows "project_payload payload = Inl (value_error ''comparison integer leaf is outside the supported range'')"
proof -
  obtain p1 where 1: "project_leaf payload ''name'' [] = Inr p1"
    using project_leaf_total [of "''name''" payload "[]"] by auto
  have "integer_value n = Inl (value_error ''comparison integer leaf is outside the supported range'')"
    using assms(2) by (auto simp: integer_value_def make_ComparisonValue_def require_leaf_def require_field_def
        leaf_of_kind_def Let_def)
  then show ?thesis using 1 assms(1) by (simp add: project_payload_def project_leaf_def put_leaf_def)
qed

subsection \<open>Quarantine evidence\<close>

lemma bounded_detail: "bounded_detail_str d \<noteq> []" "length (bounded_detail_str d) \<le> MAX_QUARANTINE_DETAIL_CHARACTERS"
  by (auto simp: bounded_detail_str_def Let_def MAX_QUARANTINE_DETAIL_CHARACTERS_def)

lemma bounded_key: "utf8_length (quarantine_key ob) \<le> MAX_QUARANTINE_FIELD_BYTES"
  by (auto simp: quarantine_key_def utf8_length_def not_less split: option.split json.split)

lemma quarantine_Inr: "quarantine ob c field detail = Inr q \<Longrightarrow> q_position q = obs_position ob"
  by (auto simp: quarantine_def make_QuarantinedObservation_def result_simps)

lemma quarantine_total:
  assumes "0 \<le> obs_position ob" "field \<noteq> []" "utf8_length field \<le> MAX_QUARANTINE_FIELD_BYTES"
  shows "\<exists>q. quarantine ob c field detail = Inr q \<and> q_position q = obs_position ob \<and> q_code q = c \<and> q_field q = field"
  using assms bounded_detail bounded_key
  by (simp add: quarantine_def make_QuarantinedObservation_def)

text \<open>The paths the rules name.\<close>

lemma utf8_length_ascii: "list_all is_ascii t \<Longrightarrow> utf8_length t = length t"
  by (induction t) (auto simp: utf8_length_def)

lemma utf8_length_append [simp]: "utf8_length (s @ t) = utf8_length s + utf8_length t"
  by (simp add: utf8_length_def)

lemma seg_tail_chars: "seg_tail body sep s \<Longrightarrow> c \<in> set s \<Longrightarrow> body c \<or> sep c"
  and seg_start_chars: "seg_start body sep s \<Longrightarrow> c \<in> set s \<Longrightarrow> body c \<or> sep c"
  by (induction body sep s and body sep s rule: seg_tail_seg_start.induct) (auto split: if_splits)

lemma attribute_key_chars:
  assumes "ATTRIBUTE_KEY_PATTERN k"
  shows "list_all is_ascii k" "CHR ''/'' \<notin> set k" "k \<noteq> []"
proof -
  have chars: "is_lower c \<or> is_digit c \<or> c = CHR ''-'' \<or> c = CHR ''_''" if "c \<in> set k" for c
    using assms that unfolding ATTRIBUTE_KEY_PATTERN_def
    by (cases k) (auto dest: seg_tail_chars)
  then show "list_all is_ascii k"
    by (fastforce simp: list_all_iff is_ascii_def is_lower_def is_digit_def)
  show "CHR ''/'' \<notin> set k" using chars [of "CHR ''/''"] by (auto simp: is_lower_def is_digit_def)
  show "k \<noteq> []" using assms by (auto simp: ATTRIBUTE_KEY_PATTERN_def)
qed

lemma attribute_path_length:
  "ATTRIBUTE_KEY_PATTERN k \<Longrightarrow> utf8_length (''attributes/'' @ k) = 11 + length k"
proof -
  assume "ATTRIBUTE_KEY_PATTERN k"
  then have "utf8_length k = length k" by (intro utf8_length_ascii attribute_key_chars)
  moreover have "utf8_length ''attributes/'' = 11" by (simp add: utf8_length_def is_ascii_def)
  ultimately show ?thesis by (simp only: utf8_length_append)
qed

lemma allowed_path_bounded:
  assumes "allowed_leaf K p v" "\<And>k. k \<in> K \<Longrightarrow> ATTRIBUTE_KEY_PATTERN k \<Longrightarrow> length k \<le> 85"
  shows "p \<noteq> [] \<and> utf8_length p \<le> MAX_QUARANTINE_FIELD_BYTES"
proof -
  consider "p \<in> TEXT_PATHS \<union> {''quantity'', ''unit_price'', ''attributes''}"
    | k where "k \<in> K" "ATTRIBUTE_KEY_PATTERN k" "p = ''attributes/'' @ k"
    using assms(1) by (auto simp: allowed_leaf_def)
  then show ?thesis
  proof cases
    case 1
    then show ?thesis
      by (auto simp: TEXT_PATHS_def utf8_length_def is_ascii_def MAX_QUARANTINE_FIELD_BYTES_def)
  next
    case 2
    then show ?thesis
      using assms(2) [of k] attribute_path_length [of k] by (simp add: MAX_QUARANTINE_FIELD_BYTES_def)
  qed
qed

text \<open>Each rule returns nothing, or evidence for the observation it was given.\<close>

definition evidence_for :: "SourceObservation \<Rightarrow> QuarantinedObservation option \<Rightarrow> bool" where
  "evidence_for ob found \<longleftrightarrow> (\<forall>q. found = Some q \<longrightarrow> q_position q = obs_position ob)"

lemma evidence_quarantine:
  "bind_result (quarantine ob c field detail) (\<lambda>q. Inr (Some q)) = Inr found \<Longrightarrow>
     evidence_for ob found \<and> found \<noteq> None"
  by (auto simp: result_simps evidence_for_def dest: quarantine_Inr)

lemma evidence_total:
  "0 \<le> obs_position ob \<Longrightarrow> field \<noteq> [] \<Longrightarrow> utf8_length field \<le> MAX_QUARANTINE_FIELD_BYTES \<Longrightarrow>
   \<exists>found. bind_result (quarantine ob c field detail) (\<lambda>q. Inr (Some q)) = Inr found"
  using quarantine_total [of ob field c detail] by (auto simp: result_simps)

lemma marker_loop_Inr:
  "marker_loop ob proj ps = Inr found \<Longrightarrow>
     evidence_for ob found \<and> (found = None \<longrightarrow> (\<forall>p \<in> set ps. \<not> marker (the (map_of proj p))))"
proof (induction ps)
  case (Cons p ps)
  then show ?case
    by (cases "marker (the (map_of proj p))") (auto simp: Let_def dest: evidence_quarantine split: if_splits)
qed (simp add: evidence_for_def)

lemma marker_loop_total:
  assumes "0 \<le> obs_position ob" "\<forall>p \<in> set ps. p \<noteq> [] \<and> utf8_length p \<le> MAX_QUARANTINE_FIELD_BYTES"
  shows "\<exists>found. marker_loop ob proj ps = Inr found"
  using assms(2)
proof (induction ps)
  case (Cons p ps)
  then show ?case using assms(1) by (auto simp: Let_def intro!: evidence_total)
qed simp

lemma required_loop_Inr:
  "required_loop ob proj ps = Inr found \<Longrightarrow> evidence_for ob found \<and> (found = None \<longrightarrow> set ps \<subseteq> set (keys proj))"
proof (induction ps)
  case (Cons p ps)
  then show ?case by (cases "p \<in> set (keys proj)") (auto dest: evidence_quarantine)
qed (simp add: evidence_for_def)

lemma required_loop_total:
  assumes "0 \<le> obs_position ob" "\<forall>p \<in> set ps. p \<noteq> [] \<and> utf8_length p \<le> MAX_QUARANTINE_FIELD_BYTES"
  shows "\<exists>found. required_loop ob proj ps = Inr found"
  using assms(2)
proof (induction ps)
  case (Cons p ps)
  then show ?case using assms(1) by (auto intro!: evidence_total)
qed simp

definition REQUIRED_PATHS :: "string set" where
  "REQUIRED_PATHS = {''name'', ''quantity'', ''updated_at'', ''unit_price/currency'', ''unit_price/amount''}"

lemma required_quarantine_Inr:
  assumes "required_quarantine ob proj = Inr found"
  shows "evidence_for ob found \<and> (found = None \<longrightarrow> REQUIRED_PATHS \<subseteq> set (keys proj))"
proof -
  from assms obtain q where first: "required_loop ob proj [''name'', ''quantity'', ''updated_at''] = Inr q"
    and rest: "(if q \<noteq> None then Inr q
      else if ''unit_price'' \<notin> set (keys proj) \<and> ''unit_price/currency'' \<notin> set (keys proj)
      then bind_result (quarantine ob MISSING_FIELD ''unit_price'' ''unit_price is absent'') (\<lambda>q. Inr (Some q))
      else required_loop ob proj [''unit_price/currency'', ''unit_price/amount'']) = Inr found"
    unfolding required_quarantine_def bind_result_eq_Inr by blast
  note q = required_loop_Inr [OF first]
  from rest consider "q \<noteq> None" "found = q"
    | "bind_result (quarantine ob MISSING_FIELD ''unit_price'' ''unit_price is absent'') (\<lambda>q. Inr (Some q)) = Inr found"
    | "q = None" "required_loop ob proj [''unit_price/currency'', ''unit_price/amount''] = Inr found"
    by (metis sum.inject(2))
  then show ?thesis
  proof cases
    case 3
    from required_loop_Inr [OF 3(2)] q 3(1) show ?thesis by (auto simp: REQUIRED_PATHS_def)
  qed (use q evidence_quarantine in blast)+
qed

lemma required_quarantine_total:
  assumes "0 \<le> obs_position ob"
  shows "\<exists>found. required_quarantine ob proj = Inr found"
proof -
  have short: "utf8_length p \<le> MAX_QUARANTINE_FIELD_BYTES" "p \<noteq> []" if "p \<in> insert ''unit_price'' REQUIRED_PATHS" for p
    using that by (auto simp: REQUIRED_PATHS_def utf8_length_def is_ascii_def MAX_QUARANTINE_FIELD_BYTES_def)
  obtain q where "required_loop ob proj [''name'', ''quantity'', ''updated_at''] = Inr q"
    using required_loop_total [OF assms, of "[''name'', ''quantity'', ''updated_at'']" proj] short
    by (auto simp: REQUIRED_PATHS_def)
  moreover obtain r where "required_loop ob proj [''unit_price/currency'', ''unit_price/amount''] = Inr r"
    using required_loop_total [OF assms, of "[''unit_price/currency'', ''unit_price/amount'']" proj] short
    by (auto simp: REQUIRED_PATHS_def)
  moreover obtain u where
    "bind_result (quarantine ob MISSING_FIELD ''unit_price'' ''unit_price is absent'') (\<lambda>q. Inr (Some q)) = Inr u"
    using evidence_total [OF assms] short by blast
  ultimately show ?thesis unfolding required_quarantine_def by (auto simp only: bind_result.simps split: if_split)
qed

text \<open>Provenance: the record key and the SKU of an accepted payload are text.\<close>

definition provenance_check where
  "provenance_check ob payload field next =
     (case map_of payload field of
        None \<Rightarrow> bind_result (quarantine ob MISSING_FIELD field (field @ '' is absent'')) (\<lambda>q. Inr (Some q))
      | Some JNull \<Rightarrow> bind_result (quarantine ob NULL_FIELD field (field @ '' is null'')) (\<lambda>q. Inr (Some q))
      | Some (JText t) \<Rightarrow> next
      | Some v \<Rightarrow> bind_result (quarantine ob WRONG_TYPE field (field @ '' must be text'')) (\<lambda>q. Inr (Some q)))"

lemma provenance_quarantine_check:
  "provenance_quarantine ob payload =
     provenance_check ob payload ''sku'' (provenance_check ob payload ''source_record_key'' (Inr None))"
  by (simp only: provenance_quarantine_def Let_def provenance_check_def)

lemma provenance_check_Inr:
  assumes "provenance_check ob payload field next = Inr found"
  shows "(evidence_for ob found \<and> found \<noteq> None) \<or> (next = Inr found \<and> (\<exists>t. map_of payload field = Some (JText t)))"
proof (cases "map_of payload field")
  case None
  with assms show ?thesis by (auto simp: provenance_check_def dest: evidence_quarantine)
next
  case (Some v)
  with assms show ?thesis by (cases v) (auto simp: provenance_check_def dest: evidence_quarantine)
qed

lemma provenance_quarantine_Inr:
  assumes "provenance_quarantine ob payload = Inr found"
  shows "evidence_for ob found"
proof -
  have none: "evidence_for ob None" by (simp add: evidence_for_def)
  show ?thesis
    using provenance_check_Inr [OF assms [unfolded provenance_quarantine_check]] none
      provenance_check_Inr [of ob payload "''source_record_key''" "Inr None" found] by auto
qed

lemma provenance_quarantine_total:
  assumes "0 \<le> obs_position ob"
  shows "\<exists>found. provenance_quarantine ob payload = Inr found"
proof -
  have short: "utf8_length p \<le> MAX_QUARANTINE_FIELD_BYTES" "p \<noteq> []" if "p \<in> {''sku'', ''source_record_key''}" for p
    using that by (auto simp: utf8_length_def is_ascii_def MAX_QUARANTINE_FIELD_BYTES_def)
  have check: "\<exists>found. provenance_check ob payload f rest = Inr found"
    if "f \<in> {''sku'', ''source_record_key''}" "\<exists>found. rest = Inr found" for f rest
    using evidence_total [OF assms short(2) short(1), OF that(1) that(1)] that(2)
    unfolding provenance_check_def by (auto split: option.split json.split)
  show ?thesis unfolding provenance_quarantine_check by (intro check) simp_all
qed

end
