(* ===== verification/Normalization_Properties.thy ===== *)
theory Normalization_Properties
  imports Normalization_Facts
begin

text \<open>
  The document of a normalized record is the projection of the record (\<open>document_of\<close>), every bounded batch is
  normalized with each observation in exactly one of the two results, and what breaks a batch.
\<close>

subsection \<open>The projection of a record\<close>

definition fixed_leaves :: "InventoryRecord \<Rightarrow> projection" where
  "fixed_leaves r =
     [(''name'', text_leaf (name r)), (''quantity'', integer_leaf (quantity r)),
      (''updated_at'', timestamp_leaf (updated_at r)),
      (''unit_price/currency'', text_leaf (currency (unit_price r))),
      (''unit_price/amount'', money_leaf (unit_price r))]"

definition attribute_entries :: "(string, string) dict \<Rightarrow> projection" where
  "attribute_entries values = map (\<lambda>(k, t). (''attributes/'' @ k, attribute_leaf t)) values"

definition document_of :: "InventoryRecord \<Rightarrow> ComparisonDocument" where
  "document_of r = sort_key fst (fixed_leaves r @ attribute_entries (attributes r))"

text \<open>A projection that passed the rules.\<close>

definition typed_proj :: "projection \<Rightarrow> bool" where
  "typed_proj proj \<longleftrightarrow> (\<exists>K. proj_ok K proj) \<and> (\<forall>(p, v) \<in> set proj. \<not> marker v) \<and> REQUIRED_PATHS \<subseteq> set (keys proj)"

lemma marker_quarantine_Inr:
  assumes "marker_quarantine ob proj = Inr found" "well_keyed proj"
  shows "evidence_for ob found \<and> (found = None \<longrightarrow> (\<forall>(p, v) \<in> set proj. \<not> marker v))"
proof -
  note loop = marker_loop_Inr [OF assms(1) [unfolded marker_quarantine_def]]
  have "\<not> marker v" if m: "found = None" "(p, v) \<in> set proj" for p v
  proof -
    have "map_of proj p = Some v" using assms(2) m(2) by simp
    moreover have "p \<in> set (sort (keys proj))" using m(2) by force
    ultimately show ?thesis using loop m(1) by fastforce
  qed
  with loop show ?thesis by blast
qed

lemma typed_leaf:
  assumes "typed_proj proj" "map_of proj p = Some v"
  shows "p \<in> TEXT_PATHS \<Longrightarrow> \<exists>t. v = text_leaf t \<and> length t \<le> MAX_LEAF_TEXT_CHARACTERS"
    and "p = ''quantity'' \<Longrightarrow> \<exists>n. v = integer_leaf n \<and> int64 n"
    and "p \<notin> REQUIRED_PATHS \<Longrightarrow> \<exists>k t. ATTRIBUTE_KEY_PATTERN k \<and> p = ''attributes/'' @ k \<and> v = attribute_leaf t \<and>
      length t \<le> MAX_LEAF_TEXT_CHARACTERS"
proof -
  from assms obtain K where allowed: "allowed_leaf K p v" and unmarked: "\<not> marker v"
    by (fastforce simp: typed_proj_def proj_ok_def dest: map_of_SomeD)
  have prefix: "take 11 (''attributes/'' @ k) = ''attributes/''" for k by simp
  show "p \<in> TEXT_PATHS \<Longrightarrow> \<exists>t. v = text_leaf t \<and> length t \<le> MAX_LEAF_TEXT_CHARACTERS"
    and "p = ''quantity'' \<Longrightarrow> \<exists>n. v = integer_leaf n \<and> int64 n"
    using allowed unmarked by (auto simp: allowed_leaf_def TEXT_PATHS_def)
  assume "p \<notin> REQUIRED_PATHS"
  then have "p \<notin> TEXT_PATHS" "p \<noteq> ''quantity''" by (auto simp: REQUIRED_PATHS_def TEXT_PATHS_def)
  then show "\<exists>k t. ATTRIBUTE_KEY_PATTERN k \<and> p = ''attributes/'' @ k \<and> v = attribute_leaf t \<and>
      length t \<le> MAX_LEAF_TEXT_CHARACTERS"
    using allowed unmarked unfolding allowed_leaf_def by blast
qed

lemma typed_required:
  assumes "typed_proj proj"
  shows "\<exists>n q u c a. map_of proj ''name'' = Some (text_leaf n) \<and> map_of proj ''quantity'' = Some (integer_leaf q) \<and>
    int64 q \<and> map_of proj ''updated_at'' = Some (text_leaf u) \<and>
    map_of proj ''unit_price/currency'' = Some (text_leaf c) \<and> length c \<le> MAX_LEAF_TEXT_CHARACTERS \<and>
    map_of proj ''unit_price/amount'' = Some (text_leaf a) \<and> length n \<le> MAX_LEAF_TEXT_CHARACTERS"
proof -
  have present: "\<exists>v. map_of proj p = Some v" if "p \<in> REQUIRED_PATHS" for p
    using assms that by (metis in_keys_iff_map_of not_None_eq subset_iff typed_proj_def)
  have words: "\<exists>t. map_of proj p = Some (text_leaf t) \<and> length t \<le> MAX_LEAF_TEXT_CHARACTERS"
    if p: "p \<in> TEXT_PATHS" for p
  proof -
    from p have "p \<in> REQUIRED_PATHS" by (auto simp: REQUIRED_PATHS_def TEXT_PATHS_def)
    then obtain v where "map_of proj p = Some v" using present by blast
    with typed_leaf(1) [OF assms this p] show ?thesis by blast
  qed
  have "\<exists>q. map_of proj ''quantity'' = Some (integer_leaf q) \<and> int64 q"
  proof -
    obtain v where "map_of proj ''quantity'' = Some v"
      using present [of "''quantity''"] by (auto simp: REQUIRED_PATHS_def)
    with typed_leaf(2) [OF assms this refl] show ?thesis by blast
  qed
  moreover have "''name'' \<in> TEXT_PATHS" "''updated_at'' \<in> TEXT_PATHS" "''unit_price/currency'' \<in> TEXT_PATHS"
    "''unit_price/amount'' \<in> TEXT_PATHS" by (simp_all add: TEXT_PATHS_def)
  ultimately show ?thesis using words by meson
qed

lemma projected_attributes_iff:
  assumes "well_keyed proj" and attrs: "\<And>p v. map_of proj p = Some v \<Longrightarrow> p \<notin> REQUIRED_PATHS \<Longrightarrow>
      \<exists>k t. p = ''attributes/'' @ k \<and> v = attribute_leaf t"
  shows "(k, t) \<in> set (projected_attributes proj) \<longleftrightarrow> map_of proj (''attributes/'' @ k) = Some (attribute_leaf t)"
proof
  assume "(k, t) \<in> set (projected_attributes proj)"
  then obtain p v where pv: "(p, v) \<in> set proj" "is_attribute_path p" "k = drop 11 p" "t = the (leaf_text v)"
    by (auto simp: projected_attributes_def)
  have "p \<notin> REQUIRED_PATHS" using pv(2) by (auto simp: REQUIRED_PATHS_def is_attribute_path_def)
  moreover have "map_of proj p = Some v" using assms(1) pv(1) by simp
  ultimately obtain k' t' where "p = ''attributes/'' @ k'" "v = attribute_leaf t'" using attrs by blast
  with pv \<open>map_of proj p = Some v\<close> show "map_of proj (''attributes/'' @ k) = Some (attribute_leaf t)"
    by (simp add: leaf_defs)
next
  assume "map_of proj (''attributes/'' @ k) = Some (attribute_leaf t)"
  then have "(''attributes/'' @ k, attribute_leaf t) \<in> set proj" by (rule map_of_SomeD)
  then show "(k, t) \<in> set (projected_attributes proj)"
    unfolding projected_attributes_def set_map
    by (intro image_eqI [where x = "(''attributes/'' @ k, attribute_leaf t)"])
      (simp_all add: is_attribute_path_def leaf_defs)
qed

subsection \<open>Prices\<close>

lemma Money_str_spaces:
  assumes "money_ok m"
  obtains rest where "Money_str m = currency m @ CHR '' '' # rest" "CHR '' '' \<notin> set (currency m)" "CHR '' '' \<notin> set rest"
proof -
  from assms obtain sign n x where a: "amount m = Finite sign n x" by (auto simp: money_ok_def)
  define e where "e = nat (minor_unit_exponent m)"
  have digits: "\<not> is_digit CHR '' ''" "\<not> is_upper CHR '' ''" by code_simp+
  have "CHR '' '' \<notin> set (nat_str k)" "CHR '' '' \<notin> set (fraction_text e n)" for k
    using nat_str_digits [of k] fraction_text(2) [of e n] digits by (auto simp: list_all_iff)
  moreover have "CHR '' '' \<notin> set (currency m)"
    using assms digits by (auto simp: money_ok_def validate_currency_def list_all_iff split: if_splits)
  ultimately show thesis
    using Money_str_parts [OF a e_def]
    by (intro that [of "(if sign then ''-'' else []) @ nat_str (n div 10 ^ e) @
        (if e = 0 then [] else ''.'' @ fraction_text e n)"]) auto
qed

lemma Money_parse_currency:
  assumes "Money_parse (c @ '' '' @ a) = Inr m"
  shows "currency m = c"
proof -
  from Money_parse_Inr [OF assms] have str: "Money_str m = c @ CHR '' '' # a" and ok: "money_ok m" by simp_all
  from ok obtain rest where "Money_str m = currency m @ CHR '' '' # rest"
    "CHR '' '' \<notin> set (currency m)" "CHR '' '' \<notin> set rest"
    by (rule Money_str_spaces)
  with str show ?thesis by (metis append_Cons_eq_iff)
qed

lemma parse_money_Some:
  assumes "parse_money c a = (cm, Some price)" "cm \<noteq> None"
  shows "currency price = c" "money_ok price"
proof -
  from assms have "try_money (c @ '' '' @ a) = Some price"
    by (auto simp: parse_money_def Let_def split: if_splits)
  then have "Money_parse (c @ '' '' @ a) = Inr price" by (auto simp: try_money_def split: sum.splits)
  from Money_parse_currency [OF this] Money_parse_Inr [OF this]
  show "currency price = c" "money_ok price" by blast+
qed

subsection \<open>The document of a record is valid\<close>

lemma split_slash_nonempty [simp]: "split_slash s \<noteq> []"
  by (induction s) (auto split: list.splits)

lemma split_slash_plain: "CHR ''/'' \<notin> set s \<Longrightarrow> split_slash s = [s]"
  by (induction s) auto

lemma split_slash_nested: "CHR ''/'' \<notin> set s \<Longrightarrow> split_slash (s @ CHR ''/'' # t) = s # split_slash t"
  by (induction s) (auto split: list.splits)

lemma attribute_path_ok:
  assumes "ATTRIBUTE_KEY_PATTERN k" "length k \<le> 85"
  shows "require_path (''attributes/'' @ k) = Inr ()"
proof -
  have "split_slash (''attributes'' @ CHR ''/'' # k) = [''attributes'', k]"
    using split_slash_nested [of "''attributes''" k] split_slash_plain [OF attribute_key_chars(2) [OF assms(1)]] by simp
  then show ?thesis
    using attribute_path_length [OF assms(1)] assms by (simp add: require_path_def MAX_FIELD_PATH_BYTES_def)
qed

lemma required_path_ok: "p \<in> REQUIRED_PATHS \<Longrightarrow> require_path p = Inr ()"
proof -
  have *: "ATTRIBUTE_KEY_PATTERN ''currency''" "ATTRIBUTE_KEY_PATTERN ''amount''" by code_simp+
  assume "p \<in> REQUIRED_PATHS"
  then show ?thesis
    by (auto simp: REQUIRED_PATHS_def require_path_def TOP_LEVEL_PATHS_def utf8_length_def is_ascii_def
        MAX_FIELD_PATH_BYTES_def *)
qed

lemma keys_fixed: "set (keys (fixed_leaves r)) = REQUIRED_PATHS" "distinct (keys (fixed_leaves r))"
  by (simp_all add: fixed_leaves_def REQUIRED_PATHS_def)

lemma keys_attribute_entries: "keys (attribute_entries values) = map (\<lambda>k. ''attributes/'' @ k) (keys values)"
  by (simp add: attribute_entries_def split_def)

lemma attribute_not_required: "''attributes/'' @ k \<notin> REQUIRED_PATHS"
  by (simp add: REQUIRED_PATHS_def)

lemma document_keys_distinct:
  "well_keyed values \<Longrightarrow> distinct (keys (fixed_leaves r @ attribute_entries values))"
  using keys_fixed [of r] attribute_not_required
  by (auto simp: keys_attribute_entries distinct_map inj_on_def)

lemma length_int_str: "0 \<le> n \<Longrightarrow> n < 10 ^ w \<Longrightarrow> 0 < w \<Longrightarrow> length (int_str n) \<le> w"
  using length_nat_str_le [of "nat n" w] by (simp add: int_str_def nat_less_iff)

lemma document_leaves_ok:
  assumes "record_ok r" "(p, v) \<in> set (fixed_leaves r @ attribute_entries (attributes r))"
  shows "leaf_ok v"
proof -
  have money: "money_ok (unit_price r)" and utc: "valid_utc (updated_at r)" and attrs: "attributes_ok (attributes r)"
    and q: "0 \<le> quantity r" "quantity r \<le> 2147483647"
    using assms(1)
    by (auto simp: record_ok_def make_InventoryRecord_def validate_quantity_def result_simps)
  have "length (Money_str (unit_price r)) \<le> 21"
    using Money_parse_str [OF money] by (auto simp: Money_parse_def MAX_MONEY_TEXT_LENGTH_def result_simps)
  moreover have "length (currency (unit_price r)) = 3"
    using money by (auto simp: money_ok_def validate_currency_def split: if_splits)
  moreover have "length (int_str (quantity r)) \<le> 10"
    using q by (intro length_int_str) simp_all
  moreover have "length v \<le> 512" if "(k, v) \<in> set (attributes r)" for k v
    using attrs that by (fastforce simp: attributes_ok_def)
  ultimately show ?thesis
    using assms(2) record_ok_facts(4) [OF assms(1)] length_utc_str [OF utc] q
    by (auto simp: fixed_leaves_def attribute_entries_def leaf_ok_def require_leaf_iff leaf_defs canonical_text_def
        MAX_LEAF_TEXT_CHARACTERS_def)
qed

lemma document_of_ok:
  assumes "record_ok r"
  shows "document_ok (document_of r)"
proof -
  have attrs: "well_keyed (attributes r)" "length (attributes r) \<le> 32"
    "\<forall>(k, v) \<in> set (attributes r). ATTRIBUTE_KEY_PATTERN k \<and> length k \<le> 64"
    using assms by (auto simp: record_ok_def attributes_ok_def MAX_ITEMS_def)
  have path: "require_path p = Inr ()" if in_keys: "p \<in> set (keys (document_of r))" for p
  proof -
    have "p \<in> REQUIRED_PATHS \<or> (\<exists>k v. (k, v) \<in> set (attributes r) \<and> p = ''attributes/'' @ k)"
      using in_keys unfolding keys_fixed(1) [of r, symmetric]
      by (force simp: document_of_def attribute_entries_def)
    then show ?thesis
    proof (elim disjE exE conjE)
      fix k v
      assume "(k, v) \<in> set (attributes r)" and p: "p = ''attributes/'' @ k"
      with attrs(3) have "ATTRIBUTE_KEY_PATTERN k" "length k \<le> 85" by fastforce+
      then show ?thesis unfolding p by (rule attribute_path_ok)
    qed (rule required_path_ok)
  qed
  moreover have "length (document_of r) \<le> MAX_PATHS"
    using attrs(2) by (simp add: document_of_def fixed_leaves_def attribute_entries_def MAX_PATHS_def)
  moreover have "distinct (keys (document_of r))"
    using document_keys_distinct [OF attrs(1), of r] by (simp only: document_of_def distinct_map_sort_key)
  moreover have "sorted (keys (document_of r))" by (simp add: document_of_def)
  ultimately have "make_ComparisonDocument (document_of r) = Inr (document_of r)"
    using path by (simp add: make_ComparisonDocument_def result_simps)
  moreover have "list_all (leaf_ok \<circ> snd) (document_of r)"
    unfolding list_all_iff document_of_def set_sort using document_leaves_ok [OF assms] by (metis comp_apply prod.collapse)
  ultimately show ?thesis by (simp add: document_ok_def)
qed

subsection \<open>A projection that passed the rules is the document of its record\<close>

definition final_proj :: "projection \<Rightarrow> Money \<Rightarrow> UtcTimestamp \<Rightarrow> projection" where
  "final_proj proj price u =
     AList.update ''updated_at'' (timestamp_leaf u) (AList.update ''unit_price/amount'' (money_leaf price) proj)"

lemma final_proj_map_of:
  "map_of (final_proj proj price u) =
     (map_of proj)(''unit_price/amount'' \<mapsto> money_leaf price, ''updated_at'' \<mapsto> timestamp_leaf u)"
  by (simp add: final_proj_def dict_simps)

lemma final_proj_well_keyed: "typed_proj proj \<Longrightarrow> well_keyed (final_proj proj price u)"
  by (auto simp: final_proj_def typed_proj_def proj_ok_def intro!: distinct_update)

lemma final_proj_attribute:
  assumes "typed_proj proj" "map_of (final_proj proj price u) p = Some v" "p \<notin> REQUIRED_PATHS"
  shows "\<exists>k t. p = ''attributes/'' @ k \<and> v = attribute_leaf t"
proof -
  have "map_of proj p = Some v" using assms(2,3) by (auto simp: final_proj_map_of REQUIRED_PATHS_def split: if_splits)
  with typed_leaf(3) [OF assms(1) this assms(3)] show ?thesis by blast
qed

lemma entries_of_map:
  assumes "\<forall>(p, v) \<in> set d. m p = Some v"
  shows "(p, v) \<in> set d \<longleftrightarrow> p \<in> set (keys d) \<and> m p = Some v"
  using assms by force

lemma final_proj_set:
  assumes "typed_proj proj" and "map_of proj ''name'' = Some (text_leaf (name r))"
    and "map_of proj ''quantity'' = Some (integer_leaf (quantity r))"
    and "map_of proj ''unit_price/currency'' = Some (text_leaf (currency (unit_price r)))"
  shows "set (final_proj proj (unit_price r) (updated_at r)) =
    set (fixed_leaves r @ attribute_entries (projected_attributes (final_proj proj (unit_price r) (updated_at r))))"
proof -
  let ?P = "final_proj proj (unit_price r) (updated_at r)"
  have keyed: "well_keyed ?P" by (rule final_proj_well_keyed [OF assms(1)])
  have attrs: "(k, t) \<in> set (projected_attributes ?P) \<longleftrightarrow>
      map_of ?P (''attributes/'' @ k) = Some (attribute_leaf t)" for k t
    by (rule projected_attributes_iff [OF keyed]) (rule final_proj_attribute [OF assms(1)])
  have fixed: "(p, v) \<in> set (fixed_leaves r) \<longleftrightarrow> p \<in> REQUIRED_PATHS \<and> map_of ?P p = Some v" for p v
  proof -
    have "map_of ?P ''name'' = Some (text_leaf (name r))" "map_of ?P ''quantity'' = Some (integer_leaf (quantity r))"
      "map_of ?P ''updated_at'' = Some (timestamp_leaf (updated_at r))"
      "map_of ?P ''unit_price/currency'' = Some (text_leaf (currency (unit_price r)))"
      "map_of ?P ''unit_price/amount'' = Some (money_leaf (unit_price r))"
      using assms(2-4) by (simp_all add: final_proj_map_of)
    then have "\<forall>(p, v) \<in> set (fixed_leaves r). map_of ?P p = Some v" by (simp add: fixed_leaves_def)
    from entries_of_map [OF this] show ?thesis by (simp only: keys_fixed)
  qed
  have extra: "(p, v) \<in> set (attribute_entries (projected_attributes ?P)) \<longleftrightarrow>
      p \<notin> REQUIRED_PATHS \<and> map_of ?P p = Some v" for p v
  proof
    assume "(p, v) \<in> set (attribute_entries (projected_attributes ?P))"
    then obtain k t where "(k, t) \<in> set (projected_attributes ?P)" "p = ''attributes/'' @ k" "v = attribute_leaf t"
      unfolding attribute_entries_def by auto
    with attrs attribute_not_required show "p \<notin> REQUIRED_PATHS \<and> map_of ?P p = Some v" by blast
  next
    assume pv: "p \<notin> REQUIRED_PATHS \<and> map_of ?P p = Some v"
    then obtain k t where "p = ''attributes/'' @ k" "v = attribute_leaf t"
      using final_proj_attribute [OF assms(1)] by blast
    with pv attrs show "(p, v) \<in> set (attribute_entries (projected_attributes ?P))"
      unfolding attribute_entries_def set_map by (intro image_eqI [where x = "(k, t)"]) auto
  qed
  have "(p, v) \<in> set ?P \<longleftrightarrow> map_of ?P p = Some v" for p v using keyed by simp
  with fixed extra show ?thesis unfolding set_append set_eq_iff split_paired_All Un_iff by blast
qed

lemma final_proj_document:
  assumes "typed_proj proj" and "map_of proj ''name'' = Some (text_leaf (name r))"
    and "map_of proj ''quantity'' = Some (integer_leaf (quantity r))"
    and "map_of proj ''unit_price/currency'' = Some (text_leaf (currency (unit_price r)))"
    and "attributes r = sort (projected_attributes (final_proj proj (unit_price r) (updated_at r)))"
    and "well_keyed (attributes r)"
  shows "sort_key fst (final_proj proj (unit_price r) (updated_at r)) = document_of r"
  unfolding document_of_def
proof (rule sort_key_unique)
  let ?P = "final_proj proj (unit_price r) (updated_at r)"
  show "distinct (keys ?P)" by (rule final_proj_well_keyed [OF assms(1)])
  show "distinct (keys (fixed_leaves r @ attribute_entries (attributes r)))"
    by (rule document_keys_distinct [OF assms(6)])
  show "set ?P = set (fixed_leaves r @ attribute_entries (attributes r))"
    unfolding final_proj_set [OF assms(1-4)] assms(5) by (simp add: attribute_entries_def)
qed

text \<open>Every observation becomes a record or evidence, at its own position.\<close>

definition faithful_result :: "SourceObservation \<Rightarrow> normalized \<Rightarrow> bool" where
  "faithful_result ob result \<longleftrightarrow>
     (case result of
        Quarantined q \<Rightarrow> q_position q = obs_position ob
      | Normalized n \<Rightarrow> n_position n = obs_position ob \<and> record_ok (n_record n) \<and>
          n_document n = document_of (n_record n))"

lemma quarantined_faithful: "quarantined (quarantine ob c f d) = Inr result \<Longrightarrow> faithful_result ob result"
  by (auto simp: result_simps faithful_result_def dest: quarantine_Inr)

definition short_field :: "string \<Rightarrow> bool" where
  "short_field f \<longleftrightarrow> f \<noteq> [] \<and> utf8_length f \<le> MAX_QUARANTINE_FIELD_BYTES"

lemma quarantined_total:
  assumes "0 \<le> obs_position ob" "short_field f"
  shows "\<exists>result. quarantined (quarantine ob c f d) = Inr result \<and> faithful_result ob result"
  using quarantine_total [OF assms(1), of f c d] assms(2) by (auto simp: short_field_def faithful_result_def)

lemma short_fields:
  "short_field ''unit_price/currency''" "short_field ''unit_price/amount''" "short_field ''updated_at''"
  "short_field ''payload''" "short_field ''attributes''" "short_field (probe_invalid_field con s n q k vs)"
  by (simp_all add: short_field_def probe_invalid_field_def utf8_length_def is_ascii_def MAX_QUARANTINE_FIELD_BYTES_def)

lemma normalized_record_total:
  assumes "0 \<le> obs_position ob" "typed_proj proj"
    and "map_of proj ''name'' = Some (text_leaf n)" "map_of proj ''quantity'' = Some (integer_leaf q)"
    and "map_of proj ''unit_price/currency'' = Some (text_leaf (currency price))"
    and "money_ok price" "valid_utc u"
  shows "\<exists>result. normalized_record ob s key (final_proj proj price u) price u = Inr result \<and> faithful_result ob result"
proof -
  let ?P = "final_proj proj price u"
  let ?create = "create_record s n q price u (obs_connector_id ob) key (projected_attributes ?P)"
  have n: "leaf_string ?P ''name'' = n" and q: "the (leaf_integer (the (map_of ?P ''quantity''))) = q"
    using assms(3,4) by (simp_all add: leaf_string_def final_proj_map_of leaf_defs)
  show ?thesis
  proof (cases ?create)
    case (Inl e)
    then show ?thesis
      unfolding normalized_record_def Let_def n q
      using quarantined_total [OF assms(1) short_fields(6)] by simp
  next
    case (Inr r)
    note made = create_record_Inr [OF Inr]
    from made have r: "name r = n" "quantity r = q" "unit_price r = price" "updated_at r = u"
      "attributes r = sort (projected_attributes ?P)" by simp_all
    from made have "attributes_ok (attributes r)" by blast
    then have keyed: "well_keyed (sort (projected_attributes ?P))" by (simp add: attributes_ok_def r(5))
    from made have ok: "record_ok r" unfolding record_ok_def r(3,4) using assms(6,7) by blast
    have doc: "sort_key fst ?P = document_of r"
      unfolding r(3,4) [symmetric]
      by (rule final_proj_document [OF assms(2)]) (simp_all only: r assms(3-5) keyed)
    have "make_ComparisonDocument (document_of r) = Inr (document_of r)"
      using document_of_ok [OF ok] by (simp add: document_ok_def)
    then show ?thesis
      unfolding normalized_record_def Let_def n q
      using Inr doc assms(1) ok by (simp add: make_NormalizedRecord_def faithful_result_def)
  qed
qed

lemma normalize_values_total:
  assumes "0 \<le> obs_position ob" "typed_proj proj"
  shows "\<exists>result. normalize_values ob s key proj = Inr result \<and> faithful_result ob result"
proof -
  from typed_required [OF assms(2)] obtain n q u c a where
    leaves: "map_of proj ''name'' = Some (text_leaf n)" "map_of proj ''quantity'' = Some (integer_leaf q)"
    "map_of proj ''updated_at'' = Some (text_leaf u)" "map_of proj ''unit_price/currency'' = Some (text_leaf c)"
    "map_of proj ''unit_price/amount'' = Some (text_leaf a)" by blast
  have strings: "leaf_string proj ''unit_price/currency'' = c" "leaf_string proj ''unit_price/amount'' = a"
    "leaf_string proj ''updated_at'' = u"
    using leaves by (simp_all add: leaf_string_def leaf_defs)
  have money: "money_amount_value m = Inr (money_leaf m)" and stamp: "timestamp_value t = Inr (timestamp_leaf t)" for m t
    by (simp_all add: money_amount_value_def timestamp_value_def result_simps require_leaf_iff leaf_defs)
  note total = quarantined_total [OF assms(1)]
  show ?thesis
  proof (cases "parse_money c a")
    case (Pair cm am)
    show ?thesis
    proof (cases "cm = None \<or> am = None")
      case True
      then show ?thesis
        unfolding normalize_values_def Let_def strings Pair
        using total [OF short_fields(1)] total [OF short_fields(2)] by (cases cm) auto
    next
      case False
      then obtain m price where some: "cm = Some m" "am = Some price" by auto
      from parse_money_Some [of c a cm price] Pair some have price: "currency price = c" "money_ok price" by simp_all
      show ?thesis
      proof (cases "utc_parse u")
        case (Inl e)
        then show ?thesis
          unfolding normalize_values_def Let_def strings Pair
          using some total [OF short_fields(3)] by (simp add: put_leaf_def money)
      next
        case (Inr t)
        with utc_parse_valid have "valid_utc t" by blast
        from normalized_record_total [OF assms leaves(1,2) _ price(2) this] leaves(4) price(1)
        show ?thesis
          unfolding normalize_values_def Let_def strings Pair
          using some Inr by (simp add: put_leaf_def money stamp final_proj_def)
      qed
    qed
  qed
qed

definition payload_bounded :: "json_object \<Rightarrow> bool" where
  "payload_bounded payload \<longleftrightarrow>
     (\<forall>n. map_of payload ''quantity'' = Some (JInt n) \<longrightarrow> int64 n) \<and>
     (\<forall>k \<in> attribute_keys payload. ATTRIBUTE_KEY_PATTERN k \<longrightarrow> length k \<le> 85)"

lemma normalize_observation_total:
  assumes pos: "0 \<le> obs_position ob" and bounded: "\<And>payload. obs_payload ob = Some payload \<Longrightarrow> payload_bounded payload"
  shows "\<exists>result. normalize_observation ob = Inr result \<and> faithful_result ob result"
proof (cases "obs_payload ob")
  case None
  then show ?thesis using quarantined_total [OF pos short_fields(4)] by (simp add: normalize_observation_def)
next
  case (Some payload)
  from bounded [OF Some] have b: "payload_bounded payload" .
  obtain proj bad where proj: "project_payload payload = Inr (proj, bad)"
    by (rule project_payload_total [of payload]) (use b in \<open>simp add: payload_bounded_def\<close>)
  note ok = project_payload_Inr [OF proj]
  have paths: "p \<noteq> [] \<and> utf8_length p \<le> MAX_QUARANTINE_FIELD_BYTES" if "p \<in> set (sort (keys proj))" for p
  proof -
    from that obtain v where "(p, v) \<in> set proj" by auto
    with ok have "allowed_leaf (attribute_keys payload) p v" by (auto simp: proj_ok_def)
    then show ?thesis by (rule allowed_path_bounded) (use b in \<open>simp add: payload_bounded_def\<close>)
  qed
  obtain f1 where f1: "provenance_quarantine ob payload = Inr f1" using provenance_quarantine_total [OF pos] by blast
  obtain f2 where f2: "marker_quarantine ob proj = Inr f2"
    using marker_loop_total [OF pos] paths unfolding marker_quarantine_def by blast
  obtain f3 where f3: "required_quarantine ob proj = Inr f3" using required_quarantine_total [OF pos] by blast
  have evidence: "evidence_for ob f1" "evidence_for ob f2" "evidence_for ob f3"
    using provenance_quarantine_Inr [OF f1] marker_quarantine_Inr [OF f2] required_quarantine_Inr [OF f3] ok
    by (auto simp: proj_ok_def)
  have typed: "typed_proj proj" if "f2 = None" "f3 = None"
    using marker_quarantine_Inr [OF f2] required_quarantine_Inr [OF f3] ok that
    by (auto simp: typed_proj_def proj_ok_def)
  note total = normalize_values_total [OF pos typed]
  show ?thesis
  proof (cases "length payload > MAX_PAYLOAD_FIELDS \<or> bad \<noteq> None")
    case True
    then show ?thesis
      using Some proj quarantined_total [OF pos short_fields(4)] quarantined_total [OF pos short_fields(5)]
      by (auto simp: normalize_observation_def)
  next
    case False
    with Some proj f1 f2 f3 have eq: "normalize_observation ob =
        (case filter (\<lambda>q. q \<noteq> None) [f1, f2, f3] of
           Some q # _ \<Rightarrow> Inr (Quarantined q)
         | _ \<Rightarrow> normalize_values ob (payload_text payload ''sku'') (payload_text payload ''source_record_key'') proj)"
      by (simp add: normalize_observation_def)
    show ?thesis
      unfolding eq using evidence total
      by (cases f1; cases f2; cases f3) (simp_all add: evidence_for_def faithful_result_def)
  qed
qed

text \<open>Whatever the payload, a result that is returned is faithful.\<close>

lemma normalize_observation_faithful:
  assumes pos: "0 \<le> obs_position ob" and result: "normalize_observation ob = Inr result"
  shows "faithful_result ob result"
proof (cases "obs_payload ob")
  case None
  then show ?thesis using result quarantined_faithful by (auto simp: normalize_observation_def)
next
  case (Some payload)
  show ?thesis
  proof (cases "length payload > MAX_PAYLOAD_FIELDS")
    case True
    then show ?thesis using result Some quarantined_faithful by (auto simp: normalize_observation_def)
  next
    case False
    with Some result obtain proj bad where proj: "project_payload payload = Inr (proj, bad)"
      by (auto simp: normalize_observation_def bind_result_eq_Inr)
    note ok = project_payload_Inr [OF proj]
    show ?thesis
    proof (cases bad)
      case (Some key)
      then show ?thesis
        using result \<open>obs_payload ob = Some payload\<close> False proj quarantined_faithful by (auto simp: normalize_observation_def)
    next
      case None
      then obtain f1 f2 f3 where found: "provenance_quarantine ob payload = Inr f1" "marker_quarantine ob proj = Inr f2"
        "required_quarantine ob proj = Inr f3" and rest: "(case filter (\<lambda>q. q \<noteq> None) [f1, f2, f3] of
           Some q # _ \<Rightarrow> Inr (Quarantined q)
         | _ \<Rightarrow> normalize_values ob (payload_text payload ''sku'') (payload_text payload ''source_record_key'') proj) = Inr result"
        using result \<open>obs_payload ob = Some payload\<close> False proj by (auto simp: normalize_observation_def bind_result_eq_Inr)
      have evidence: "evidence_for ob f1" "evidence_for ob f2" "evidence_for ob f3"
        using provenance_quarantine_Inr [OF found(1)] marker_quarantine_Inr [OF found(2)] required_quarantine_Inr [OF found(3)] ok
        by (auto simp: proj_ok_def)
      have typed: "typed_proj proj" if "f2 = None" "f3 = None"
        using marker_quarantine_Inr [OF found(2)] required_quarantine_Inr [OF found(3)] ok that
        by (auto simp: typed_proj_def proj_ok_def)
      have total: "faithful_result ob result" if "f2 = None" "f3 = None" "normalize_values ob s key proj = Inr result" for s key
        using normalize_values_total [OF pos typed [OF that(1,2)], of s key] that(3) by auto
      show ?thesis
        using rest evidence total
        by (cases f1; cases f2; cases f3) (auto simp: evidence_for_def faithful_result_def)
    qed
  qed
qed

subsection \<open>Batches\<close>

text \<open>The two results of a list of outcomes, in the order of the observations.\<close>

definition accepted :: "normalized list \<Rightarrow> NormalizedRecord list" where
  "accepted results = concat (map (\<lambda>r. case r of Normalized n \<Rightarrow> [n] | Quarantined q \<Rightarrow> []) results)"

definition refused :: "normalized list \<Rightarrow> QuarantinedObservation list" where
  "refused results = concat (map (\<lambda>r. case r of Normalized n \<Rightarrow> [] | Quarantined q \<Rightarrow> [q]) results)"

lemma accepted_refused_simps [simp]:
  "accepted [] = []" "refused [] = []"
  "accepted (Normalized n # rs) = n # accepted rs" "refused (Normalized n # rs) = refused rs"
  "accepted (Quarantined q # rs) = accepted rs" "refused (Quarantined q # rs) = q # refused rs"
  by (simp_all add: accepted_def refused_def)

lemma normalize_loop_eq:
  assumes "map_result normalize_observation obs = Inr results" "distinct (map obs_position obs)"
    "set (map obs_position obs) \<inter> seen = {}" "finite seen" "card seen + length obs \<le> MAX_SOURCE_OBSERVATIONS"
  shows "normalize_loop obs seen rs qs = Inr (rs @ accepted results, qs @ refused results)"
  using assms
proof (induction obs arbitrary: results seen rs qs)
  case (Cons ob obs)
  from Cons.prems(1) obtain r rest where r: "normalize_observation ob = Inr r"
    and rest: "map_result normalize_observation obs = Inr rest" "results = r # rest"
    by (auto simp: result_simps)
  have "normalize_loop obs (insert (obs_position ob) seen) rs' qs' = Inr (rs' @ accepted rest, qs' @ refused rest)" for rs' qs'
    using Cons.prems(2-) by (intro Cons.IH rest(1)) auto
  then show ?case
    using Cons.prems(2-) r rest(2) by (cases r) (simp_all add: Let_def)
qed simp

lemma positions_partition:
  assumes "list_all2 faithful_result obs results"
  shows "mset (map n_position (accepted results)) + mset (map q_position (refused results)) = mset (map obs_position obs)"
    and "set (map n_position (accepted results)) \<union> set (map q_position (refused results)) = set (map obs_position obs)"
    and "\<forall>n \<in> set (accepted results). record_ok (n_record n) \<and> n_document n = document_of (n_record n)"
  using assms
  by (induction rule: list_all2_induct) (auto simp: faithful_result_def split: normalized.splits)

lemma map_result_faithful:
  assumes "\<forall>ob \<in> set obs. \<exists>result. normalize_observation ob = Inr result \<and> faithful_result ob result"
  shows "\<exists>results. map_result normalize_observation obs = Inr results \<and> list_all2 faithful_result obs results"
  using assms by (induction obs) (auto simp: result_simps)

definition batch_ok :: "SourceObservation list \<Rightarrow> bool" where
  "batch_ok obs \<longleftrightarrow> distinct (map obs_position obs) \<and> length obs \<le> MAX_SOURCE_OBSERVATIONS \<and>
     (\<forall>ob \<in> set obs. 0 \<le> obs_position ob \<and> (case obs_payload ob of None \<Rightarrow> True | Some p \<Rightarrow> payload_bounded p))"

lemma normalize_batch:
  assumes "batch_ok obs"
  obtains results where "map_result normalize_observation obs = Inr results" "list_all2 faithful_result obs results"
    "normalize_source_observations obs = Inr \<lparr>sn_rules_version = NORMALIZATION_RULES_VERSION,
       sn_records = sort_key n_position (accepted results), sn_quarantined = sort_key q_position (refused results)\<rparr>"
proof -
  have "\<forall>ob \<in> set obs. \<exists>result. normalize_observation ob = Inr result \<and> faithful_result ob result"
    using assms by (auto intro!: normalize_observation_total simp: batch_ok_def split: option.splits)
  then obtain results where results: "map_result normalize_observation obs = Inr results"
    "list_all2 faithful_result obs results"
    using map_result_faithful by blast
  have loop: "normalize_loop obs {} [] [] = Inr (accepted results, refused results)"
    using normalize_loop_eq [OF results(1), of "{}" "[]" "[]"] assms by (simp add: batch_ok_def)
  note parts = positions_partition [OF results(2)]
  have "distinct (map n_position (accepted results) @ map q_position (refused results)) = distinct (map obs_position obs)"
    by (rule mset_eq_imp_distinct_iff) (simp add: parts(1) del: mset_map)
  moreover have "length (map n_position (accepted results) @ map q_position (refused results)) = length (map obs_position obs)"
    by (rule mset_eq_length) (simp add: parts(1) del: mset_map)
  ultimately have "normalize_source_observations obs = Inr \<lparr>sn_rules_version = NORMALIZATION_RULES_VERSION,
       sn_records = sort_key n_position (accepted results), sn_quarantined = sort_key q_position (refused results)\<rparr>"
    using assms
    by (simp add: normalize_source_observations_def loop make_SourceNormalization_def ordered_unique_def batch_ok_def)
  with results show thesis by (rule that)
qed

text \<open>
  C24.  A batch of at most 100000 observations at distinct positions, whose integer quantities fit in 64 bits and whose
  attribute keys have at most 85 characters, is always normalized: every observation is in exactly one of
  the two results, each result is in position order, and each record satisfies the record contract and carries as its
  comparison document exactly the projection of its own fields.
\<close>

theorem batch_normalized:
  assumes "batch_ok obs"
  shows "\<exists>batch. normalize_source_observations obs = Inr batch \<and>
    mset (map n_position (sn_records batch)) + mset (map q_position (sn_quarantined batch)) = mset (map obs_position obs) \<and>
    sorted (map n_position (sn_records batch)) \<and> sorted (map q_position (sn_quarantined batch)) \<and>
    (\<forall>n \<in> set (sn_records batch). record_ok (n_record n) \<and> n_document n = document_of (n_record n))"
proof -
  from normalize_batch [OF assms] obtain results where faithful: "list_all2 faithful_result obs results"
    and batch: "normalize_source_observations obs = Inr \<lparr>sn_rules_version = NORMALIZATION_RULES_VERSION,
       sn_records = sort_key n_position (accepted results), sn_quarantined = sort_key q_position (refused results)\<rparr>"
    by blast
  show ?thesis unfolding batch using positions_partition [OF faithful] by simp
qed

text \<open>A batch of a complete payload and of a payload with nothing in it.\<close>

definition example_payload :: json_object where
  "example_payload =
     [(''sku'', JText ''AB-1''), (''name'', JText ''bolt''), (''quantity'', JInt 7),
      (''unit_price'', JDict [(''currency'', JText ''EUR''), (''amount'', JText ''1.50'')]),
      (''updated_at'', JText ''2024-02-29T14:04:05.000007Z''), (''source_record_key'', JText ''r1''),
      (''attributes'', JDict [(''color'', JText ''red'')])]"

definition example_batch :: "SourceObservation list" where
  "example_batch =
     [\<lparr>obs_position = 4, obs_connector_id = Identifier ConnectorId ''con_one'',
       obs_payload = Some example_payload, malformed_reason = None\<rparr>,
      \<lparr>obs_position = 2, obs_connector_id = Identifier ConnectorId ''con_one'',
       obs_payload = Some [], malformed_reason = None\<rparr>]"

lemma example_batch_ok: "batch_ok example_batch"
proof -
  have "ATTRIBUTE_KEY_PATTERN ''color''" by code_simp
  then show ?thesis
    by (simp add: batch_ok_def example_batch_def example_payload_def payload_bounded_def attribute_keys_def
        MAX_SOURCE_OBSERVATIONS_def)
qed

theorem batch_normalized_witness:
  "\<exists>batch. normalize_source_observations example_batch = Inr batch \<and>
     mset (map n_position (sn_records batch)) + mset (map q_position (sn_quarantined batch)) = {#2, 4#} \<and>
     sorted (map n_position (sn_records batch))"
  using batch_normalized [OF example_batch_ok] by (auto simp: example_batch_def add_mset_commute)

lemma normalize_loop_fails:
  assumes "ob \<in> set obs" "normalize_observation ob = Inl e"
  shows "\<exists>e. normalize_loop obs seen rs qs = Inl e"
  using assms(1)
proof (induction obs arbitrary: seen rs qs)
  case (Cons o' obs)
  show ?case
  proof (cases "normalize_loop (o' # obs) seen rs qs")
    case (Inr r)
    then obtain result where result: "normalize_observation o' = Inr result"
      and rest: "(case result of
         Normalized n \<Rightarrow> normalize_loop obs (insert (obs_position o') seen) (rs @ [n]) qs
       | Quarantined q \<Rightarrow> normalize_loop obs (insert (obs_position o') seen) rs (qs @ [q])) = Inr r"
      unfolding normalize_loop.simps Let_def bind_result_eq_Inr by blast
    from result Cons.prems assms(2) have "ob \<in> set obs" by auto
    from Cons.IH [OF this] rest show ?thesis by (cases result) (simp_all, (metis sum.distinct(1))+)
  qed blast
qed simp

text \<open>
  One observation whose integer quantity does not fit in 64 bits is not quarantined: normalizing it raises, and so
  does every batch it is part of.
\<close>

theorem huge_quantity_breaks_batch:
  assumes "ob \<in> set obs" "obs_payload ob = Some payload" "length payload \<le> MAX_PAYLOAD_FIELDS"
    and "map_of payload ''quantity'' = Some (JInt n)" "n < - (2 ^ 63) \<or> 2 ^ 63 \<le> n"
  shows "\<exists>e. normalize_source_observations obs = Inl e"
proof -
  have "normalize_observation ob = Inl (value_error ''comparison integer leaf is outside the supported range'')"
    using assms(2-) project_payload_huge [OF assms(4)] by (simp add: normalize_observation_def) auto
  from normalize_loop_fails [OF assms(1) this, of "{}" "[]" "[]"]
  show ?thesis by (auto simp: normalize_source_observations_def)
qed

theorem huge_quantity_breaks_batch_witness:
  "\<exists>e. normalize_source_observations
     [\<lparr>obs_position = 0, obs_connector_id = Identifier ConnectorId ''con_one'',
       obs_payload = Some [(''quantity'', JInt 9223372036854775808)], malformed_reason = None\<rparr>] = Inl e"
  by (rule huge_quantity_breaks_batch [where n = 9223372036854775808
        and payload = "[(''quantity'', JInt 9223372036854775808)]"])
    (rule list.set_intros(1), simp_all add: MAX_PAYLOAD_FIELDS_def)

text \<open>Nor is an absent value of an attribute whose key is canonical but long: the path of the evidence is too long.\<close>

lemma long_null_attribute_raises:
  assumes "ATTRIBUTE_KEY_PATTERN k" "85 < length k"
    and "obs_payload ob = Some [(''sku'', JText s), (''source_record_key'', JText key), (''attributes'', JDict [(k, JNull)])]"
  shows "\<exists>e. normalize_observation ob = Inl e"
proof -
  have put: "put_leaf (''attributes/'' @ k) null_value [] = Inr [(''attributes/'' @ k, leaf_of_kind Kind_NULL)]"
    by (simp add: put_leaf_def null_leaf)
  have "project_payload [(''sku'', JText s), (''source_record_key'', JText key), (''attributes'', JDict [(k, JNull)])] =
      Inr ([(''attributes/'' @ k, leaf_of_kind Kind_NULL)], None)"
    using assms(1) put
    by (simp add: project_payload_def project_leaf_def project_unit_price_def project_attributes_def
        canonical_attribute_path_def nested_leaf_def)
  moreover have "\<exists>e. quarantine ob c (''attributes/'' @ k) d = Inl e" for c d
  proof (cases "quarantine ob c (''attributes/'' @ k) d")
    case (Inr q)
    then have "utf8_length (''attributes/'' @ k) \<le> MAX_QUARANTINE_FIELD_BYTES"
      by (auto simp: quarantine_def make_QuarantinedObservation_def result_simps)
    then show ?thesis using assms(2) attribute_path_length [OF assms(1)] by (simp add: MAX_QUARANTINE_FIELD_BYTES_def)
  qed blast
  then have "\<exists>e. marker_quarantine ob [(''attributes/'' @ k, leaf_of_kind Kind_NULL)] = Inl e"
    by (simp add: marker_quarantine_def leaf_of_kind_def) (metis bind_result.simps(1))
  ultimately show ?thesis
    using assms(3) by (auto simp: normalize_observation_def MAX_PAYLOAD_FIELDS_def provenance_quarantine_def)
qed

end
