(* ===== verification/Outcomes.thy ===== *)
theory Outcomes
  imports Normalization_Properties
begin

text \<open>
  The outcome of one canonical inventory key (\<^verbatim>\<open>domain/reconciliation/outcomes.py\<close>): the records both sides hold
  for a SKU, their one classification, and the fields in which a pair of records differs.  The records are
  \<^verbatim>\<open>InventoryRecord\<close> values, which are equal when their fields are.
\<close>

subsection \<open>Classifications and fields\<close>

datatype ReconciliationClassification =
    MATCH | MISSING_FROM_TARGET | MISSING_FROM_SOURCE | FIELD_MISMATCH
  | DUPLICATE_SOURCE | DUPLICATE_TARGET | DUPLICATE_BOTH

fun ReconciliationClassification_value :: "ReconciliationClassification \<Rightarrow> string" where
  "ReconciliationClassification_value MATCH = ''match''"
| "ReconciliationClassification_value MISSING_FROM_TARGET = ''missing_from_target''"
| "ReconciliationClassification_value MISSING_FROM_SOURCE = ''missing_from_source''"
| "ReconciliationClassification_value FIELD_MISMATCH = ''field_mismatch''"
| "ReconciliationClassification_value DUPLICATE_SOURCE = ''duplicate_source''"
| "ReconciliationClassification_value DUPLICATE_TARGET = ''duplicate_target''"
| "ReconciliationClassification_value DUPLICATE_BOTH = ''duplicate_both''"

datatype ReconciliationField = Field_NAME | Field_QUANTITY | Field_UNIT_PRICE | Field_UPDATED_AT | Field_ATTRIBUTES

fun ReconciliationField_value :: "ReconciliationField \<Rightarrow> string" where
  "ReconciliationField_value Field_NAME = ''name''"
| "ReconciliationField_value Field_QUANTITY = ''quantity''"
| "ReconciliationField_value Field_UNIT_PRICE = ''unit_price''"
| "ReconciliationField_value Field_UPDATED_AT = ''updated_at''"
| "ReconciliationField_value Field_ATTRIBUTES = ''attributes''"

text \<open>A comparable value with its exact type.\<close>

datatype ComparableInventoryValue =
    Text_Value string
  | Integer_Value int
  | Money_Value Money
  | Timestamp_Value UtcTimestamp
  | Attributes_Value InventoryAttributes

fun is_exact_value_type :: "ComparableInventoryValue \<Rightarrow> ReconciliationField \<Rightarrow> bool" where
  "is_exact_value_type (Text_Value t) f = (f = Field_NAME)"
| "is_exact_value_type (Integer_Value n) f = (f = Field_QUANTITY)"
| "is_exact_value_type (Money_Value m) f = (f = Field_UNIT_PRICE)"
| "is_exact_value_type (Timestamp_Value t) f = (f = Field_UPDATED_AT)"
| "is_exact_value_type (Attributes_Value a) f = (f = Field_ATTRIBUTES)"

subsection \<open>Mismatches\<close>

record FieldMismatch =
  mismatch_field :: ReconciliationField
  source_value :: ComparableInventoryValue
  target_value :: ComparableInventoryValue

definition make_FieldMismatch :: "FieldMismatch \<Rightarrow> FieldMismatch recon_result" where
  "make_FieldMismatch m =
     (let f = mismatch_field m in
      bind_result (require (is_exact_value_type (source_value m) f)
        (PyError (TypeError (''source value for '' @ ReconciliationField_value f @ '' has the wrong type'')))) (\<lambda>_.
      bind_result (require (is_exact_value_type (target_value m) f)
        (PyError (TypeError (''target value for '' @ ReconciliationField_value f @ '' has the wrong type'')))) (\<lambda>_.
      bind_result (require (source_value m \<noteq> target_value m)
        (value_error ''mismatch values must differ'')) (\<lambda>_.
      Inr m))))"

text \<open>The compared pairs, in the order in which the source lists them.\<close>

definition compared_values ::
  "InventoryRecord \<Rightarrow> (ReconciliationField \<times> ComparableInventoryValue) list" where
  "compared_values r =
     [(Field_NAME, Text_Value (name r)), (Field_QUANTITY, Integer_Value (quantity r)),
      (Field_UNIT_PRICE, Money_Value (unit_price r)), (Field_UPDATED_AT, Timestamp_Value (updated_at r)),
      (Field_ATTRIBUTES, Attributes_Value (attributes r))]"

definition differences_between :: "InventoryRecord \<Rightarrow> InventoryRecord \<Rightarrow> FieldMismatch list recon_result" where
  "differences_between source target =
     bind_result (require (sku source = sku target)
       (value_error ''reconciliation comparison requires matching SKUs'')) (\<lambda>_.
     map_result (\<lambda>((f, s), (_, t)). make_FieldMismatch \<lparr>mismatch_field = f, source_value = s, target_value = t\<rparr>)
       (filter (\<lambda>((_, s), (_, t)). s \<noteq> t) (zip (compared_values source) (compared_values target))))"

subsection \<open>Outcomes\<close>

definition MAX_RECORDS_PER_SIDE :: nat where "MAX_RECORDS_PER_SIDE = 1024"

type_synonym record_key =
  "string \<times> string \<times> int \<times> string \<times> string \<times> string \<times> string \<times> InventoryAttributes"

definition record_order_key :: "InventoryRecord \<Rightarrow> record_key" where
  "record_order_key r =
     (sku r, name r, quantity r, Money_str (unit_price r), utc_str (updated_at r),
      id_value (connector_id r), source_record_key r, attributes r)"

definition canonical_records :: "InventoryRecord list \<Rightarrow> string \<Rightarrow> InventoryRecord list recon_result" where
  "canonical_records records side =
     bind_result (require (length records \<le> MAX_RECORDS_PER_SIDE)
       (value_error (side @ '' records must contain at most 1024 values''))) (\<lambda>_.
     Inr (sort_key record_order_key records))"

definition classify_records ::
  "InventoryRecord list \<Rightarrow> InventoryRecord list \<Rightarrow>
     (ReconciliationClassification \<times> FieldMismatch list) recon_result" where
  "classify_records sources targets =
     (if length sources > 1 \<and> length targets > 1 then Inr (DUPLICATE_BOTH, [])
      else if length sources > 1 then Inr (DUPLICATE_SOURCE, [])
      else if length targets > 1 then Inr (DUPLICATE_TARGET, [])
      else if sources = [] then Inr (MISSING_FROM_SOURCE, [])
      else if targets = [] then Inr (MISSING_FROM_TARGET, [])
      else bind_result (differences_between (hd sources) (hd targets)) (\<lambda>mismatches.
        Inr (if mismatches \<noteq> [] then FIELD_MISMATCH else MATCH, mismatches)))"

record ReconciliationOutcome =
  source_records :: "InventoryRecord list"
  target_records :: "InventoryRecord list"
  outcome_sku :: string
  classification :: ReconciliationClassification
  mismatches :: "FieldMismatch list"

definition make_outcome :: "InventoryRecord list \<Rightarrow> InventoryRecord list \<Rightarrow> ReconciliationOutcome recon_result" where
  "make_outcome source_recs target_recs =
     bind_result (canonical_records source_recs ''source'') (\<lambda>sources.
     bind_result (canonical_records target_recs ''target'') (\<lambda>targets.
     let records = sources @ targets in
     bind_result (require (records \<noteq> [])
       (value_error ''reconciliation outcome requires at least one record'')) (\<lambda>_.
     let s = sku (hd records) in
     bind_result (require (\<not> list_ex (\<lambda>r. sku r \<noteq> s) records)
       (value_error ''reconciliation outcome records must share one SKU'')) (\<lambda>_.
     bind_result (classify_records sources targets) (\<lambda>(c, ms).
     Inr \<lparr>source_records = sources, target_records = targets, outcome_sku = s,
          classification = c, mismatches = ms\<rparr>)))))"

definition is_repairable :: "ReconciliationOutcome \<Rightarrow> bool" where
  "is_repairable outcome \<longleftrightarrow> classification outcome \<in> {MISSING_FROM_TARGET, FIELD_MISMATCH}"

subsection \<open>What an outcome says\<close>

text \<open>The business content of a record, and the classification a pair of sides must get.\<close>

type_synonym content = "string \<times> int \<times> Money \<times> UtcTimestamp \<times> InventoryAttributes"

definition business_content :: "InventoryRecord \<Rightarrow> content" where
  "business_content r = (name r, quantity r, unit_price r, updated_at r, attributes r)"

definition classification_of :: "InventoryRecord list \<Rightarrow> InventoryRecord list \<Rightarrow> ReconciliationClassification" where
  "classification_of sources targets =
     (case (sources, targets) of
        ([], []) \<Rightarrow> MISSING_FROM_SOURCE
      | ([], [t]) \<Rightarrow> MISSING_FROM_SOURCE
      | ([s], []) \<Rightarrow> MISSING_FROM_TARGET
      | ([s], [t]) \<Rightarrow> if business_content s = business_content t then MATCH else FIELD_MISMATCH
      | (_ # _ # _, _ # _ # _) \<Rightarrow> DUPLICATE_BOTH
      | (_ # _ # _, _) \<Rightarrow> DUPLICATE_SOURCE
      | (_, _ # _ # _) \<Rightarrow> DUPLICATE_TARGET)"

definition mismatched :: "InventoryRecord \<Rightarrow> InventoryRecord \<Rightarrow> FieldMismatch list" where
  "mismatched source target =
     map (\<lambda>((f, s), (_, t)). \<lparr>mismatch_field = f, source_value = s, target_value = t\<rparr>)
       (filter (\<lambda>((_, s), (_, t)). s \<noteq> t) (zip (compared_values source) (compared_values target)))"

lemma differences_between_eq:
  assumes "sku source = sku target"
  shows "differences_between source target = Inr (mismatched source target)"
  using assms unfolding differences_between_def mismatched_def
  by (auto intro!: map_result_map simp: make_FieldMismatch_def compared_values_def)

lemma mismatched_eq_Nil: "mismatched source target = [] \<longleftrightarrow> business_content source = business_content target"
  by (auto simp: mismatched_def compared_values_def business_content_def)

lemma classify_records_eq:
  assumes "list_all (\<lambda>r. sku r = s) (sources @ targets)"
  shows "classify_records sources targets =
    Inr (classification_of sources targets,
         if length sources = 1 \<and> length targets = 1 then mismatched (hd sources) (hd targets) else [])"
  using assms
  by (cases sources rule: list.exhaust [case_product list.exhaust [of "tl sources"]];
      cases targets rule: list.exhaust [case_product list.exhaust [of "tl targets"]])
    (auto simp: classify_records_def classification_of_def differences_between_eq mismatched_eq_Nil)

datatype multiplicity = Absent | Single | Several

fun how_many :: "'a list \<Rightarrow> multiplicity" where
  "how_many [] = Absent"
| "how_many [x] = Single"
| "how_many (x # y # xs) = Several"

lemma multiplicity_length:
  "how_many xs = (if length xs = 0 then Absent else if length xs = 1 then Single else Several)"
  by (cases xs rule: how_many.cases) simp_all

lemma classification_of_multiplicity:
  "classification_of sources targets =
    (case (how_many sources, how_many targets) of
       (Several, Several) \<Rightarrow> DUPLICATE_BOTH
     | (Several, _) \<Rightarrow> DUPLICATE_SOURCE
     | (_, Several) \<Rightarrow> DUPLICATE_TARGET
     | (Absent, _) \<Rightarrow> MISSING_FROM_SOURCE
     | (Single, Absent) \<Rightarrow> MISSING_FROM_TARGET
     | (Single, Single) \<Rightarrow>
         if business_content (hd sources) = business_content (hd targets) then MATCH else FIELD_MISMATCH)"
  by (cases sources rule: how_many.cases; cases targets rule: how_many.cases)
    (simp_all add: classification_of_def)

lemma hd_sort_single: "length xs = 1 \<Longrightarrow> hd (sort_key f xs) = hd xs"
  by (cases xs rule: how_many.cases) simp_all

lemma classification_of_sort:
  "classification_of (sort_key f sources) (sort_key g targets) = classification_of sources targets"
  by (simp add: classification_of_multiplicity multiplicity_length hd_sort_single split: multiplicity.split)

text \<open>When an outcome can be built, and what it is.\<close>

definition outcome_of :: "InventoryRecord list \<Rightarrow> InventoryRecord list \<Rightarrow> ReconciliationOutcome" where
  "outcome_of sources targets =
     \<lparr>source_records = sort_key record_order_key sources, target_records = sort_key record_order_key targets,
      outcome_sku = sku (hd (sources @ targets)), classification = classification_of sources targets,
      mismatches = (if length sources = 1 \<and> length targets = 1 then mismatched (hd sources) (hd targets) else [])\<rparr>"

lemma make_outcome_eq:
  assumes "list_all (\<lambda>r. sku r = s) (sources @ targets)" "sources @ targets \<noteq> []"
    and "length sources \<le> MAX_RECORDS_PER_SIDE" "length targets \<le> MAX_RECORDS_PER_SIDE"
  shows "make_outcome sources targets = Inr (outcome_of sources targets)"
proof -
  let ?s = "sort_key record_order_key sources" and ?t = "sort_key record_order_key targets"
  have same: "\<forall>r \<in> set (?s @ ?t). sku r = s" using assms(1) by (simp add: list_all_iff)
  have nonempty: "?s @ ?t \<noteq> []" using assms(2) by (metis append_is_Nil_conv length_0_conv length_sort)
  then have first: "sku (hd (?s @ ?t)) = s" "sku (hd (sources @ targets)) = s"
    using same assms(1,2) hd_in_set [of "?s @ ?t"] hd_in_set [of "sources @ targets"] by (auto simp only: list_all_iff)
  have canonical: "canonical_records sources side = Inr ?s" "canonical_records targets side = Inr ?t" for side
    using assms(3,4) by (simp_all add: canonical_records_def)
  have none: "\<not> list_ex (\<lambda>r. sku r \<noteq> s) (?s @ ?t)" using same by (simp only: list_ex_iff) blast
  have classified: "classify_records ?s ?t =
      Inr (classification_of sources targets,
           if length sources = 1 \<and> length targets = 1 then mismatched (hd sources) (hd targets) else [])"
    using classify_records_eq [of s ?s ?t] same
    by (simp only: list_all_iff classification_of_sort length_sort) (simp add: hd_sort_single)
  show ?thesis
    unfolding make_outcome_def canonical bind_result.simps Let_def first(1) outcome_of_def first(2)
    using nonempty none by (simp only: classified) simp
qed

lemma make_outcome_too_many:
  assumes "MAX_RECORDS_PER_SIDE < length sources \<or> MAX_RECORDS_PER_SIDE < length targets"
  shows "\<exists>side. make_outcome sources targets = Inl (value_error (side @ '' records must contain at most 1024 values''))"
  using assms by (auto simp: make_outcome_def canonical_records_def require_def)

end
