(* ===== verification/Matching.thy ===== *)
theory Matching
  imports Outcomes
begin

text \<open>
  Matching by canonical key and duplicate detection (\<^verbatim>\<open>domain/reconciliation/matching.py\<close>).  A bucket of the
  \<^verbatim>\<open>grouped\<close> dict, itself a dict with the two sides as its keys, is a function of the side.
\<close>

subsection \<open>Values\<close>

definition MAX_MATCHED_KEYS :: nat where "MAX_MATCHED_KEYS = 2 * MAX_SOURCE_OBSERVATIONS"

datatype RecordSide = SOURCE | TARGET

fun RecordSide_value :: "RecordSide \<Rightarrow> string" where
  "RecordSide_value SOURCE = ''source''"
| "RecordSide_value TARGET = ''target''"

abbreviation n_sku :: "NormalizedRecord \<Rightarrow> string" where
  "n_sku n \<equiv> sku (n_record n)"

record CanonicalKeyMatch =
  match_sku :: string
  match_source :: "NormalizedRecord list"
  match_target :: "NormalizedRecord list"

fun match_records :: "CanonicalKeyMatch \<Rightarrow> RecordSide \<Rightarrow> NormalizedRecord list" where
  "match_records m SOURCE = match_source m"
| "match_records m TARGET = match_target m"

definition record_count :: "CanonicalKeyMatch \<Rightarrow> RecordSide \<Rightarrow> nat" where
  "record_count m side = length (match_records m side)"

definition check_members :: "string \<Rightarrow> NormalizedRecord list \<Rightarrow> unit recon_result" where
  "check_members s members =
     bind_result (require (length members \<le> MAX_RECORDS_PER_SIDE)
       (MatchingError ''canonical key match exceeds the per-side record limit'')) (\<lambda>_.
     let positions = map n_position members in
     bind_result (require (positions = sort positions \<and> card (set positions) = length positions)
       (MatchingError ''canonical key match members must use ordered unique positions'')) (\<lambda>_.
     check_all (\<lambda>n. require (n_sku n = s)
       (MatchingError ''canonical key match members must share one SKU'')) members))"

definition make_CanonicalKeyMatch :: "CanonicalKeyMatch \<Rightarrow> CanonicalKeyMatch recon_result" where
  "make_CanonicalKeyMatch m =
     bind_result (require (match_sku m \<noteq> [])
       (MatchingError ''canonical key match requires a nonempty SKU'')) (\<lambda>_.
     bind_result (check_all (check_members (match_sku m)) [match_source m, match_target m]) (\<lambda>_.
     Inr m))"

subsection \<open>Grouping\<close>

type_synonym bucket = "RecordSide \<Rightarrow> NormalizedRecord list"
type_synonym grouped = "(string, bucket) dict"

definition fresh_bucket :: bucket where "fresh_bucket = (\<lambda>_. [])"

text \<open>One iteration of the inner loop: a new key gets a fresh bucket, then the record joins its side.\<close>

definition group_record :: "RecordSide \<Rightarrow> NormalizedRecord \<Rightarrow> grouped \<Rightarrow> grouped recon_result" where
  "group_record side n grouped =
     bind_result
       (case map_of grouped (n_sku n) of
          Some bucket \<Rightarrow> Inr bucket
        | None \<Rightarrow>
            bind_result (require (length grouped \<noteq> MAX_MATCHED_KEYS)
              (MatchingError ''matching exceeds the canonical key limit'')) (\<lambda>_. Inr fresh_bucket)) (\<lambda>existing.
     let members = existing side in
     bind_result (require (length members \<noteq> MAX_RECORDS_PER_SIDE)
       (MatchingError ''matching exceeds the per-side duplicate record limit'')) (\<lambda>_.
     Inr (AList.update (n_sku n) (existing(side := members @ [n])) grouped)))"

fun group_side :: "RecordSide \<Rightarrow> NormalizedRecord list \<Rightarrow> grouped \<Rightarrow> grouped recon_result" where
  "group_side side [] grouped = Inr grouped"
| "group_side side (n # ns) grouped =
     bind_result (group_record side n grouped) (\<lambda>grouped. group_side side ns grouped)"

text \<open>\<^verbatim>\<open>sorted(grouped.items())\<close> compares the keys, which are distinct.\<close>

definition match_by_canonical_key ::
  "NormalizedRecord list \<Rightarrow> NormalizedRecord list \<Rightarrow> CanonicalKeyMatch list recon_result" where
  "match_by_canonical_key source target =
     bind_result (group_side SOURCE source []) (\<lambda>grouped.
     bind_result (group_side TARGET target grouped) (\<lambda>grouped.
     map_result (\<lambda>(s, bucket). make_CanonicalKeyMatch
         \<lparr>match_sku = s, match_source = bucket SOURCE, match_target = bucket TARGET\<rparr>)
       (sort_key fst grouped)))"

subsection \<open>Collisions and duplicates\<close>

record CanonicalKeyCollision =
  collision_side :: RecordSide
  collision_sku :: string
  collision_count :: nat
  member_keys :: "string list"

definition make_CanonicalKeyCollision :: "CanonicalKeyCollision \<Rightarrow> CanonicalKeyCollision recon_result" where
  "make_CanonicalKeyCollision c =
     bind_result (require (collision_sku c \<noteq> [])
       (MatchingError ''canonical key collision requires a nonempty SKU'')) (\<lambda>_.
     bind_result (require (\<not> collision_count c < 2)
       (MatchingError ''canonical key collision requires at least two records'')) (\<lambda>_.
     bind_result (require (\<not> collision_count c > MAX_RECORDS_PER_SIDE)
       (MatchingError ''canonical key collision exceeds the member limit'')) (\<lambda>_.
     bind_result (require (length (member_keys c) = collision_count c)
       (MatchingError ''canonical key collision member keys must match the record count'')) (\<lambda>_.
     bind_result (require (\<not> list_ex (\<lambda>k. k = []) (member_keys c))
       (MatchingError ''canonical key collision member keys must be nonempty text'')) (\<lambda>_.
     bind_result (require (member_keys c = sort (member_keys c))
       (MatchingError ''canonical key collision member keys must be sorted'')) (\<lambda>_.
     Inr c))))))"

record DuplicateRecordGroup =
  group_side_of :: RecordSide
  group_sku :: string
  group_members :: "NormalizedRecord list"
  distinct_contents :: nat
  identical_members :: bool

definition make_DuplicateRecordGroup :: "DuplicateRecordGroup \<Rightarrow> DuplicateRecordGroup recon_result" where
  "make_DuplicateRecordGroup g =
     bind_result (require (group_sku g \<noteq> [])
       (MatchingError ''duplicate record group requires a nonempty SKU'')) (\<lambda>_.
     bind_result (require (\<not> length (group_members g) < 2)
       (MatchingError ''duplicate record group requires at least two members'')) (\<lambda>_.
     bind_result (require (\<not> length (group_members g) > MAX_RECORDS_PER_SIDE)
       (MatchingError ''duplicate record group exceeds the per-side record limit'')) (\<lambda>_.
     bind_result (require (\<not> list_ex (\<lambda>n. n_sku n \<noteq> group_sku g) (group_members g))
       (MatchingError ''duplicate record group members must share one SKU'')) (\<lambda>_.
     bind_result (require (1 \<le> distinct_contents g \<and> distinct_contents g \<le> length (group_members g))
       (MatchingError ''duplicate record group content count is invalid'')) (\<lambda>_.
     bind_result (require (identical_members g = (distinct_contents g = 1))
       (MatchingError ''duplicate record group identity flag disagrees with content count'')) (\<lambda>_.
     Inr g))))))"

text \<open>Both detectors visit the two sides of each match and skip those with fewer than two members.\<close>

definition match_sides :: "CanonicalKeyMatch list \<Rightarrow> (CanonicalKeyMatch \<times> RecordSide) list" where
  "match_sides matches =
     filter (\<lambda>(m, side). \<not> length (match_records m side) < 2)
       (concat (map (\<lambda>m. [(m, SOURCE), (m, TARGET)]) matches))"

definition detect_canonical_key_collisions :: "CanonicalKeyMatch list \<Rightarrow> CanonicalKeyCollision list recon_result" where
  "detect_canonical_key_collisions matches =
     map_result (\<lambda>(m, side).
       let members = match_records m side in
       make_CanonicalKeyCollision
         \<lparr>collision_side = side, collision_sku = match_sku m, collision_count = length members,
          member_keys = sort (map (\<lambda>n. source_record_key (n_record n)) members)\<rparr>)
       (match_sides matches)"

definition detect_duplicate_record_groups :: "CanonicalKeyMatch list \<Rightarrow> DuplicateRecordGroup list recon_result" where
  "detect_duplicate_record_groups matches =
     map_result (\<lambda>(m, side).
       let members = match_records m side;
           distinct_count = card (set (map (\<lambda>n. business_content (n_record n)) members)) in
       make_DuplicateRecordGroup
         \<lparr>group_side_of = side, group_sku = match_sku m, group_members = members,
          distinct_contents = distinct_count, identical_members = (distinct_count = 1)\<rparr>)
       (match_sides matches)"

subsection \<open>The grouping invariant\<close>

text \<open>The records of a SKU, and the keys of what both sides have contributed so far.\<close>

definition of_sku :: "string \<Rightarrow> NormalizedRecord list \<Rightarrow> NormalizedRecord list" where
  "of_sku s ns = filter (\<lambda>n. n_sku n = s) ns"

definition skus :: "NormalizedRecord list \<Rightarrow> string set" where
  "skus ns = n_sku ` set ns"

definition seen_skus :: "bucket \<Rightarrow> string set" where
  "seen_skus b = skus (b SOURCE) \<union> skus (b TARGET)"

definition groups :: "grouped \<Rightarrow> bucket \<Rightarrow> bool" where
  "groups g b \<longleftrightarrow> well_keyed g \<and>
     (\<forall>s. map_of g s = (if s \<in> seen_skus b then Some (\<lambda>side. of_sku s (b side)) else None))"

lemma of_sku_simps [simp]:
  "of_sku s [] = []" "of_sku s (ns @ ms) = of_sku s ns @ of_sku s ms"
  "of_sku s (n # ns) = (if n_sku n = s then n # of_sku s ns else of_sku s ns)"
  by (simp_all add: of_sku_def)

lemma of_sku_Nil_iff: "of_sku s ns = [] \<longleftrightarrow> s \<notin> skus ns"
  by (auto simp: of_sku_def skus_def filter_empty_conv)

lemma skus_append [simp]: "skus (ns @ ms) = skus ns \<union> skus ms" and skus_Nil [simp]: "skus [] = {}"
  and skus_Cons [simp]: "skus (n # ns) = insert (n_sku n) (skus ns)" and finite_skus [simp]: "finite (skus ns)"
  by (auto simp: skus_def)

lemma finite_seen [simp]: "finite (seen_skus b)"
  by (simp add: seen_skus_def)

lemma seen_skus_update [simp]: "seen_skus (b(side := b side @ [n])) = insert (n_sku n) (seen_skus b)"
  by (cases side) (auto simp: seen_skus_def)

lemma groups_keys: "groups g b \<Longrightarrow> set (keys g) = seen_skus b"
  unfolding groups_def set_eq_iff by (metis in_keys_iff_map_of option.distinct(1))

lemma groups_entry:
  assumes "groups g b" "(s, bucket) \<in> set g"
  shows "s \<in> seen_skus b" "bucket = (\<lambda>side. of_sku s (b side))"
proof -
  have "well_keyed g" using assms(1) unfolding groups_def by blast
  from map_of_is_SomeI [OF this assms(2)] have "map_of g s = Some bucket" .
  moreover have "map_of g s = (if s \<in> seen_skus b then Some (\<lambda>side. of_sku s (b side)) else None)"
    using assms(1) unfolding groups_def by blast
  ultimately show "s \<in> seen_skus b" "bucket = (\<lambda>side. of_sku s (b side))" by (auto split: if_splits)
qed

lemma groups_length: "groups g b \<Longrightarrow> length g = card (seen_skus b)"
  by (metis groups_keys groups_def distinct_card length_map)

lemma not_seen_empty: "s \<notin> seen_skus b \<Longrightarrow> of_sku s (b side) = []"
  by (cases side) (auto simp: seen_skus_def of_sku_Nil_iff)

lemma group_record_eq:
  assumes "groups g b" "card (insert (n_sku n) (seen_skus b)) \<le> MAX_MATCHED_KEYS"
  shows "(if length (of_sku (n_sku n) (b side)) = MAX_RECORDS_PER_SIDE
      then group_record side n g = Inl (MatchingError ''matching exceeds the per-side duplicate record limit'')
      else \<exists>g'. group_record side n g = Inr g' \<and> groups g' (b(side := b side @ [n])))"
proof -
  let ?s = "n_sku n" and ?b = "\<lambda>side. of_sku (n_sku n) (b side)"
  have existing: "(case map_of g ?s of
        Some bucket \<Rightarrow> Inr bucket
      | None \<Rightarrow> bind_result (require (length g \<noteq> MAX_MATCHED_KEYS)
          (MatchingError ''matching exceeds the canonical key limit'')) (\<lambda>_. Inr fresh_bucket)) = Inr ?b"
  proof (cases "?s \<in> seen_skus b")
    case True
    then show ?thesis using assms(1) by (simp add: groups_def)
  next
    case False
    then have "length g < MAX_MATCHED_KEYS" using assms groups_length [OF assms(1)] by simp
    moreover have "?b = fresh_bucket" using not_seen_empty [OF False] by (simp add: fresh_bucket_def fun_eq_iff)
    ultimately show ?thesis using False assms(1) by (simp add: groups_def)
  qed
  have "groups (AList.update ?s (?b(side := ?b side @ [n])) g) (b(side := b side @ [n]))"
    using assms(1) not_seen_empty [of ?s b] by (auto simp: groups_def dict_simps fun_eq_iff)
  then show ?thesis unfolding group_record_def existing by (simp add: Let_def)
qed

text \<open>Whether some SKU has more records on a side than one outcome may hold.\<close>

definition overfull :: "NormalizedRecord list \<Rightarrow> bool" where
  "overfull ns \<longleftrightarrow> (\<exists>s. MAX_RECORDS_PER_SIDE < length (of_sku s ns))"

lemma overfull_append: "overfull ns \<Longrightarrow> overfull (ns @ ms)"
  unfolding overfull_def by (metis of_sku_simps(2) length_append trans_less_add1)

lemma group_side_eq:
  assumes "groups g b" "card (skus ns \<union> seen_skus b) \<le> MAX_MATCHED_KEYS" "\<not> overfull (b side)"
  shows "(if overfull (b side @ ns)
      then group_side side ns g = Inl (MatchingError ''matching exceeds the per-side duplicate record limit'')
      else \<exists>g'. group_side side ns g = Inr g' \<and> groups g' (b(side := b side @ ns)))"
  using assms
proof (induction ns arbitrary: g b)
  case (Cons n ns)
  let ?b = "b(side := b side @ [n])"
  have "card (insert (n_sku n) (seen_skus b)) \<le> card (skus (n # ns) \<union> seen_skus b)"
    by (rule card_mono) auto
  with Cons.prems have step: "if length (of_sku (n_sku n) (b side)) = MAX_RECORDS_PER_SIDE
      then group_record side n g = Inl (MatchingError ''matching exceeds the per-side duplicate record limit'')
      else \<exists>g'. group_record side n g = Inr g' \<and> groups g' ?b"
    by (intro group_record_eq) simp_all
  show ?case
  proof (cases "length (of_sku (n_sku n) (b side)) = MAX_RECORDS_PER_SIDE")
    case True
    then have "overfull (b side @ [n])" by (auto simp: overfull_def intro: exI [of _ "n_sku n"])
    then have "overfull (b side @ n # ns)" using overfull_append [of "b side @ [n]" ns] by simp
    with step True show ?thesis by simp
  next
    case False
    then obtain g' where g': "group_record side n g = Inr g'" "groups g' ?b" using step by auto
    have fits: "\<not> overfull (?b side)"
      using Cons.prems(3) False unfolding overfull_def by (auto simp: not_less) (metis le_antisym not_less_eq_eq)
    have "card (skus ns \<union> seen_skus ?b) \<le> MAX_MATCHED_KEYS" using Cons.prems(2) by simp
    note IH = Cons.IH [OF g'(2) this fits]
    have upd: "?b side @ ns = b side @ n # ns" "?b(side := b side @ n # ns) = b(side := b side @ n # ns)"
      by simp_all
    show ?thesis using IH unfolding upd group_side.simps g'(1) bind_result.simps .
  qed
qed (simp add: fun_upd_idem)

subsection \<open>The result of matching\<close>

definition positions_ok :: "NormalizedRecord list \<Rightarrow> bool" where
  "positions_ok ns \<longleftrightarrow> sorted (map n_position ns) \<and> distinct (map n_position ns)"

lemma positions_ok_of_sku: "positions_ok ns \<Longrightarrow> positions_ok (of_sku s ns)"
  by (auto simp: positions_ok_def of_sku_def sorted_wrt_map sorted_wrt_filter distinct_map_filter)

text \<open>What matching should give: for every SKU, in order, the records of each side, in order.\<close>

definition match_at :: "NormalizedRecord list \<Rightarrow> NormalizedRecord list \<Rightarrow> string \<Rightarrow> CanonicalKeyMatch" where
  "match_at source target s = \<lparr>match_sku = s, match_source = of_sku s source, match_target = of_sku s target\<rparr>"

definition matches_of :: "NormalizedRecord list \<Rightarrow> NormalizedRecord list \<Rightarrow> CanonicalKeyMatch list" where
  "matches_of source target = map (match_at source target) (sorted_list_of_set (skus source \<union> skus target))"

lemma make_match_at:
  assumes "s \<noteq> []" "positions_ok source" "positions_ok target" "\<not> overfull source" "\<not> overfull target"
  shows "make_CanonicalKeyMatch (match_at source target s) = Inr (match_at source target s)"
proof -
  have "check_members s (of_sku s ns) = Inr ()" if ns: "positions_ok ns" "\<not> overfull ns" for ns
  proof -
    let ?ps = "map n_position (of_sku s ns)"
    have "?ps = sort ?ps" "card (set ?ps) = length ?ps"
      using positions_ok_of_sku [OF ns(1), of s] distinct_card [of ?ps]
      by (simp_all only: positions_ok_def sorted_sort_id)
    moreover have "length (of_sku s ns) \<le> MAX_RECORDS_PER_SIDE" using ns(2) by (simp add: overfull_def not_less)
    moreover have "\<forall>n \<in> set (of_sku s ns). n_sku n = s" by (simp add: of_sku_def)
    ultimately show ?thesis unfolding check_members_def Let_def by (simp only: result_simps) simp
  qed
  then show ?thesis using assms by (simp add: make_CanonicalKeyMatch_def match_at_def)
qed

lemma match_by_canonical_key_eq:
  assumes positions: "positions_ok source" "positions_ok target"
    and skus: "[] \<notin> skus source \<union> skus target" "card (skus source \<union> skus target) \<le> MAX_MATCHED_KEYS"
  shows "match_by_canonical_key source target =
    (if overfull source \<or> overfull target
     then Inl (MatchingError ''matching exceeds the per-side duplicate record limit'')
     else Inr (matches_of source target))"
proof -
  let ?b0 = fresh_bucket
  have start: "groups [] ?b0" "\<not> overfull (?b0 side)" "?b0 side = []" "seen_skus ?b0 = {}" for side
    by (simp_all add: groups_def fresh_bucket_def seen_skus_def overfull_def)
  have "card (skus source) \<le> MAX_MATCHED_KEYS" using skus(2) card_mono [of "skus source \<union> skus target" "skus source"] by simp
  then have first: "if overfull source
      then group_side SOURCE source [] = Inl (MatchingError ''matching exceeds the per-side duplicate record limit'')
      else \<exists>g. group_side SOURCE source [] = Inr g \<and> groups g (?b0(SOURCE := source))"
    using group_side_eq [OF start(1), of source SOURCE] start(2) [of SOURCE]
    unfolding start(3,4) Un_empty_right append_Nil by simp
  show ?thesis
  proof (cases "overfull source")
    case True
    then show ?thesis using first by (simp add: match_by_canonical_key_def)
  next
    case False
    then obtain g where g: "group_side SOURCE source [] = Inr g" "groups g (?b0(SOURCE := source))" using first by auto
    have seen: "seen_skus (?b0(SOURCE := source)) = skus source" by (simp add: seen_skus_def fresh_bucket_def)
    have second: "if overfull target
      then group_side TARGET target g = Inl (MatchingError ''matching exceeds the per-side duplicate record limit'')
      else \<exists>g'. group_side TARGET target g = Inr g' \<and> groups g' (?b0(SOURCE := source, TARGET := target))"
    proof -
      have other: "(?b0(SOURCE := source)) TARGET = []" using start(3) by simp
      show ?thesis
        using group_side_eq [OF g(2), of target TARGET] skus(2) start(2) [of TARGET]
        unfolding other seen start(3) append_Nil Un_commute [of "skus target"] by simp
    qed
    show ?thesis
    proof (cases "overfull target")
      case True
      then show ?thesis using second by (simp add: match_by_canonical_key_def g(1))
    next
      case full: False
      let ?b = "?b0(SOURCE := source, TARGET := target)" and ?S = "skus source \<union> skus target"
      obtain g' where g': "group_side TARGET target g = Inr g'" "groups g' ?b" using full second by auto
      have S: "seen_skus ?b = ?S" by (simp add: seen_skus_def)
      have keys: "keys (sort_key fst g') = sorted_list_of_set ?S"
      proof (rule sorted_distinct_set_unique)
        show "set (keys (sort_key fst g')) = set (sorted_list_of_set ?S)" using groups_keys [OF g'(2)] by (simp add: S)
        show "distinct (keys (sort_key fst g'))" using g'(2) by (simp add: groups_def)
      qed simp_all
      have entry: "bucket = (\<lambda>side. of_sku s (?b side))" "s \<in> ?S" if "(s, bucket) \<in> set (sort_key fst g')" for s bucket
        using groups_entry [OF g'(2), of s bucket] that S by simp_all
      have made: "(\<lambda>(s, bucket). make_CanonicalKeyMatch
            \<lparr>match_sku = s, match_source = bucket SOURCE, match_target = bucket TARGET\<rparr>) kv =
          Inr (match_at source target (fst kv))" if kv: "kv \<in> set (sort_key fst g')" for kv
      proof -
        obtain s bucket where eq: "kv = (s, bucket)" by fastforce
        have b: "bucket = (\<lambda>side. of_sku s (?b side))" and s: "s \<in> ?S" using entry kv eq by blast+
        have "s \<noteq> []" using s skus(1) by blast
        from make_match_at [OF this positions False full] show ?thesis unfolding eq b by (simp add: match_at_def)
      qed
      have "match_by_canonical_key source target = Inr (map (\<lambda>kv. match_at source target (fst kv)) (sort_key fst g'))"
        unfolding match_by_canonical_key_def g(1) g'(1) bind_result.simps by (rule map_result_map) (rule made)
      also have "map (\<lambda>kv. match_at source target (fst kv)) (sort_key fst g') = matches_of source target"
        unfolding matches_of_def keys [symmetric] by simp
      finally show ?thesis using False full by simp
    qed
  qed
qed

end
