(* ===== verification/Classification.thy ===== *)
theory Classification
  imports Matching
begin

text \<open>
  The exclusive classification of every normalized record (\<^verbatim>\<open>domain/reconciliation/classification.py\<close>), with its
  secondary evidence and the suggested resolution.
\<close>

subsection \<open>Values\<close>

definition MAX_SECONDARY_VALUE_CHARACTERS :: nat where "MAX_SECONDARY_VALUE_CHARACTERS = 256"

datatype SuggestedResolution =
    Resolution_NONE | Resolution_CREATE_TARGET | Resolution_UPDATE_TARGET
  | Resolution_REVIEW_TARGET_ONLY | Resolution_REVIEW_DUPLICATES

datatype SecondaryEvidenceKind =
    MISMATCH_FIELDS | IDENTICAL_DUPLICATE_CONTENT | DISTINCT_DUPLICATE_CONTENT
  | OPPONENT_CONTENT_MATCHES_MEMBER

record SecondaryEvidence =
  evidence_kind :: SecondaryEvidenceKind
  evidence_value :: string

definition make_SecondaryEvidence :: "SecondaryEvidence \<Rightarrow> SecondaryEvidence recon_result" where
  "make_SecondaryEvidence e =
     bind_result (require (evidence_value e \<noteq> [])
       (value_error ''secondary evidence value must be nonempty text'')) (\<lambda>_.
     bind_result (require (\<not> length (evidence_value e) > MAX_SECONDARY_VALUE_CHARACTERS)
       (value_error ''secondary evidence value exceeds its size limit'')) (\<lambda>_.
     Inr e))"

record RecordClassification =
  rc_side :: RecordSide
  rc_position :: int
  rc_sku :: string
  rc_source_record_key :: string
  rc_classification :: ReconciliationClassification
  rc_secondary :: "SecondaryEvidence list"

definition make_RecordClassification :: "RecordClassification \<Rightarrow> RecordClassification recon_result" where
  "make_RecordClassification r =
     bind_result (require (\<not> rc_position r < 0)
       (value_error ''record classification position must be a nonnegative integer'')) (\<lambda>_.
     bind_result (require (rc_sku r \<noteq> [])
       (value_error ''record classification requires a nonempty SKU'')) (\<lambda>_.
     bind_result (require (rc_source_record_key r \<noteq> [])
       (value_error ''record classification requires a source record key'')) (\<lambda>_.
     Inr r)))"

definition suggested_resolution_for :: "ReconciliationClassification \<Rightarrow> SuggestedResolution" where
  "suggested_resolution_for c =
     (if c = MISSING_FROM_TARGET then Resolution_CREATE_TARGET
      else if c = FIELD_MISMATCH then Resolution_UPDATE_TARGET
      else if c = MISSING_FROM_SOURCE then Resolution_REVIEW_TARGET_ONLY
      else if c = MATCH then Resolution_NONE
      else Resolution_REVIEW_DUPLICATES)"

record ClassifiedKey =
  key_outcome :: ReconciliationOutcome
  key_differences :: "FieldDifference list"
  key_secondary_evidence :: "SecondaryEvidence list"
  suggested_resolution :: SuggestedResolution

definition make_ClassifiedKey :: "ClassifiedKey \<Rightarrow> ClassifiedKey recon_result" where
  "make_ClassifiedKey k =
     bind_result (require (suggested_resolution k = suggested_resolution_for (classification (key_outcome k)))
       (value_error ''classified key resolution does not match its classification'')) (\<lambda>_. Inr k)"

record ClassificationResult =
  classified_keys :: "ClassifiedKey list"
  classified_records :: "RecordClassification list"

abbreviation key_sku :: "ClassifiedKey \<Rightarrow> string" where
  "key_sku k \<equiv> outcome_sku (key_outcome k)"

definition identity_order :: "RecordSide \<times> int \<Rightarrow> string \<times> int" where
  "identity_order i = (RecordSide_value (fst i), snd i)"

definition check_classified_record :: "(string, ClassifiedKey) dict \<Rightarrow> RecordClassification \<Rightarrow> unit recon_result" where
  "check_classified_record by_sku r =
     (case map_of by_sku (rc_sku r) of
        None \<Rightarrow> Inl (value_error ''classification records must agree with their key'')
      | Some k \<Rightarrow>
          bind_result (require (rc_classification r = classification (key_outcome k))
            (value_error ''classification records must agree with their key'')) (\<lambda>_.
          let members = (if rc_side r = SOURCE then source_records (key_outcome k) else target_records (key_outcome k)) in
          require (list_ex (\<lambda>m. sku m = rc_sku r \<and> source_record_key m = rc_source_record_key r) members)
            (value_error ''classification record provenance is not part of its key'')))"

definition make_ClassificationResult :: "ClassificationResult \<Rightarrow> ClassificationResult recon_result" where
  "make_ClassificationResult result =
     (let key_skus = map key_sku (classified_keys result) in
      bind_result (require (key_skus = sort key_skus \<and> card (set key_skus) = length key_skus)
        (value_error ''classification keys must use sorted unique SKUs'')) (\<lambda>_.
      let identities = map (\<lambda>r. (rc_side r, rc_position r)) (classified_records result) in
      bind_result (require (identities = sort_key identity_order identities)
        (value_error ''classification records must be sorted by side and position'')) (\<lambda>_.
      bind_result (require (card (set identities) = length identities)
        (value_error ''classification records must have unique identities'')) (\<lambda>_.
      let by_sku = map (\<lambda>k. (key_sku k, k)) (classified_keys result);
          expected = sum_list (map (\<lambda>k. length (source_records (key_outcome k)) + length (target_records (key_outcome k)))
            (classified_keys result)) in
      bind_result (require (expected = length (classified_records result))
        (value_error ''classification must cover every in-scope record exactly once'')) (\<lambda>_.
      bind_result (check_all (check_classified_record by_sku) (classified_records result)) (\<lambda>_.
      Inr result))))))"

definition classification_count :: "ClassificationResult \<Rightarrow> ReconciliationClassification \<Rightarrow> nat" where
  "classification_count result c =
     length (filter (\<lambda>k. classification (key_outcome k) = c) (classified_keys result))"

subsection \<open>Secondary evidence\<close>

definition opponent_content_member :: "ReconciliationOutcome \<Rightarrow> string" where
  "opponent_content_member outcome =
     (let matching = (\<lambda>single members.
        case find (\<lambda>m. business_content m = business_content single) members of
          Some m \<Rightarrow> source_record_key m
        | None \<Rightarrow> ''none'') in
      if classification outcome = DUPLICATE_SOURCE \<and> length (target_records outcome) = 1
      then matching (hd (target_records outcome)) (source_records outcome)
      else if classification outcome = DUPLICATE_TARGET \<and> length (source_records outcome) = 1
      then matching (hd (source_records outcome)) (target_records outcome)
      else ''none'')"

definition duplicate_evidence :: "InventoryRecord list \<Rightarrow> SecondaryEvidence recon_result" where
  "duplicate_evidence records =
     (let distinct_count = card (set (map business_content records)) in
      make_SecondaryEvidence
        \<lparr>evidence_kind = (if distinct_count = 1 then IDENTICAL_DUPLICATE_CONTENT else DISTINCT_DUPLICATE_CONTENT),
         evidence_value = nat_str distinct_count\<rparr>)"

definition key_secondary :: "ReconciliationOutcome \<Rightarrow> SecondaryEvidence list recon_result" where
  "key_secondary outcome =
     (if classification outcome = FIELD_MISMATCH then
        bind_result (make_SecondaryEvidence
          \<lparr>evidence_kind = MISMATCH_FIELDS,
           evidence_value = comma_separated (map (ReconciliationField_value \<circ> mismatch_field) (mismatches outcome))\<rparr>) (\<lambda>e.
        Inr [e])
      else if classification outcome \<in> {DUPLICATE_SOURCE, DUPLICATE_TARGET, DUPLICATE_BOTH} then
        bind_result (map_result duplicate_evidence
          (filter (\<lambda>records. \<not> length records < 2) [source_records outcome, target_records outcome])) (\<lambda>evidence.
        bind_result (make_SecondaryEvidence
          \<lparr>evidence_kind = OPPONENT_CONTENT_MATCHES_MEMBER, evidence_value = opponent_content_member outcome\<rparr>) (\<lambda>e.
        Inr (evidence @ [e])))
      else Inr [])"

definition key_differences_of :: "CanonicalKeyMatch \<Rightarrow> FieldDifference list recon_result" where
  "key_differences_of m =
     (if length (match_source m) \<noteq> 1 \<or> length (match_target m) \<noteq> 1 then Inr []
      else build_field_differences (n_document (hd (match_source m))) (n_document (hd (match_target m))))"

subsection \<open>Classification\<close>

definition classify_member ::
  "CanonicalKeyMatch \<Rightarrow> ReconciliationOutcome \<Rightarrow> SecondaryEvidence list \<Rightarrow> RecordSide \<times> NormalizedRecord \<Rightarrow>
     RecordClassification recon_result" where
  "classify_member m outcome secondary member =
     (let (side, n) = member in
      make_RecordClassification
        \<lparr>rc_side = side, rc_position = n_position n, rc_sku = match_sku m,
         rc_source_record_key = source_record_key (n_record n),
         rc_classification = classification outcome, rc_secondary = secondary\<rparr>)"

definition classify_match :: "CanonicalKeyMatch \<Rightarrow> (ClassifiedKey \<times> RecordClassification list) recon_result" where
  "classify_match m =
     bind_result (make_outcome (map n_record (match_source m)) (map n_record (match_target m))) (\<lambda>outcome.
     bind_result (key_secondary outcome) (\<lambda>secondary.
     bind_result (key_differences_of m) (\<lambda>differences.
     bind_result (make_ClassifiedKey
       \<lparr>key_outcome = outcome, key_differences = differences, key_secondary_evidence = secondary,
        suggested_resolution = suggested_resolution_for (classification outcome)\<rparr>) (\<lambda>key.
     bind_result (map_result (classify_member m outcome secondary)
       (map (Pair SOURCE) (match_source m) @ map (Pair TARGET) (match_target m))) (\<lambda>members.
     Inr (key, members))))))"

fun classify_loop ::
  "CanonicalKeyMatch list \<Rightarrow> ClassifiedKey list \<Rightarrow> RecordClassification list \<Rightarrow>
     (ClassifiedKey list \<times> RecordClassification list) recon_result" where
  "classify_loop [] ks records = Inr (ks, records)"
| "classify_loop (m # ms) ks records =
     bind_result (classify_match m) (\<lambda>(key, members).
     classify_loop ms (ks @ [key]) (records @ members))"

definition record_identity :: "RecordClassification \<Rightarrow> RecordSide \<times> int" where
  "record_identity r = (rc_side r, rc_position r)"

definition classify_matches :: "CanonicalKeyMatch list \<Rightarrow> ClassificationResult recon_result" where
  "classify_matches matches =
     bind_result (classify_loop matches [] []) (\<lambda>(ks, records).
     make_ClassificationResult
       \<lparr>classified_keys = ks,
        classified_records = sort_key (\<lambda>r. identity_order (record_identity r)) records\<rparr>)"

subsection \<open>No evidence is refused\<close>

lemma classify_loop_eq:
  "classify_loop ms ks records =
     bind_result (map_result classify_match ms) (\<lambda>rs. Inr (ks @ map fst rs, records @ concat (map snd rs)))"
proof (induction ms arbitrary: ks records)
  case (Cons m ms)
  show ?case by (cases "classify_match m"; cases "map_result classify_match ms") (auto simp: Cons.IH)
qed simp

lemma comma_separated_nonempty: "ps \<noteq> [] \<Longrightarrow> hd ps \<noteq> [] \<Longrightarrow> comma_separated ps \<noteq> []"
  by (cases ps) (auto simp: comma_separated_def)

lemma length_comma_separated:
  assumes "\<forall>p \<in> set ps. length p \<le> n"
  shows "length (comma_separated ps) \<le> length ps * Suc n"
proof -
  have tail: "length (concat (concat (map (\<lambda>q. ['','', q]) qs))) \<le> length qs * Suc n"
    if "\<forall>q \<in> set qs. length q \<le> n" for qs
    using that by (induction qs) auto
  show ?thesis
  proof (cases ps)
    case (Cons p qs)
    then have "length p \<le> n" "length (concat (concat (map (\<lambda>q. ['','', q]) qs))) \<le> length qs * Suc n"
      using assms tail [of qs] by simp_all
    then show ?thesis by (simp add: comma_separated_def Cons)
  qed (simp add: comma_separated_def)
qed

lemma make_SecondaryEvidence_Inr:
  "t \<noteq> [] \<Longrightarrow> length t \<le> 256 \<Longrightarrow>
     make_SecondaryEvidence \<lparr>evidence_kind = k, evidence_value = t\<rparr> = Inr \<lparr>evidence_kind = k, evidence_value = t\<rparr>"
  by (simp add: make_SecondaryEvidence_def MAX_SECONDARY_VALUE_CHARACTERS_def)

lemma field_value_length: "ReconciliationField_value f \<noteq> []" "length (ReconciliationField_value f) \<le> 10"
  by (cases f; simp)+

lemma mismatched_length: "length (mismatched s t) \<le> 5"
  unfolding mismatched_def length_map
  by (rule order_trans [OF length_filter_le]) (simp add: compared_values_def)

lemma duplicate_evidence_Inr:
  assumes "length records \<le> MAX_RECORDS_PER_SIDE"
  shows "\<exists>e. duplicate_evidence records = Inr e"
proof -
  let ?n = "card (set (map business_content records))"
  have "?n \<le> length records" by (metis card_length length_map)
  then have "?n < 10 ^ 4" using assms by (simp add: MAX_RECORDS_PER_SIDE_def)
  then have "length (nat_str ?n) \<le> 4" by (intro length_nat_str_le) simp_all
  moreover have "nat_str ?n \<noteq> []" by (rule nat_str_nonempty)
  ultimately show ?thesis by (simp add: duplicate_evidence_def Let_def make_SecondaryEvidence_Inr)
qed

lemma opponent_content_member_text:
  assumes "\<forall>r \<in> set (source_records outcome @ target_records outcome). record_ok r"
  shows "opponent_content_member outcome \<noteq> [] \<and> length (opponent_content_member outcome) \<le> 128"
proof -
  have "source_record_key r \<noteq> [] \<and> length (source_record_key r) \<le> 128"
    if "find P (source_records outcome) = Some r \<or> find P (target_records outcome) = Some r" for P r
    using that assms record_ok_facts(2,3) [of r] by (auto simp: find_Some_iff)
  then show ?thesis by (auto simp: opponent_content_member_def Let_def split: option.split)
qed

lemma mismatch_text:
  assumes "ms \<noteq> []" "length ms \<le> 5"
  shows "comma_separated (map (ReconciliationField_value \<circ> mismatch_field) ms) \<noteq> []"
    and "length (comma_separated (map (ReconciliationField_value \<circ> mismatch_field) ms)) \<le> 256"
proof -
  show "comma_separated (map (ReconciliationField_value \<circ> mismatch_field) ms) \<noteq> []"
    using assms(1) field_value_length(1) by (intro comma_separated_nonempty) (simp_all add: hd_map)
  have "length (comma_separated (map (ReconciliationField_value \<circ> mismatch_field) ms)) \<le> length ms * Suc 10"
    using length_comma_separated [of "map (ReconciliationField_value \<circ> mismatch_field) ms" 10] field_value_length(2)
    by simp
  with assms(2) show "length (comma_separated (map (ReconciliationField_value \<circ> mismatch_field) ms)) \<le> 256" by simp
qed

lemma key_secondary_total:
  assumes "\<forall>r \<in> set (sources @ targets). record_ok r"
    and "length sources \<le> MAX_RECORDS_PER_SIDE" "length targets \<le> MAX_RECORDS_PER_SIDE"
  shows "\<exists>secondary. key_secondary (outcome_of sources targets) = Inr secondary"
proof -
  let ?o = "outcome_of sources targets" and ?s = "sort_key record_order_key sources"
    and ?t = "sort_key record_order_key targets"
  have duplicates: "\<exists>es. map_result duplicate_evidence (filter P [?s, ?t]) = Inr es" for P
    using duplicate_evidence_Inr [of ?s] duplicate_evidence_Inr [of ?t] assms(2,3) by auto
  have opponent: "make_SecondaryEvidence \<lparr>evidence_kind = k, evidence_value = opponent_content_member ?o\<rparr> =
      Inr \<lparr>evidence_kind = k, evidence_value = opponent_content_member ?o\<rparr>" for k
    using opponent_content_member_text [of ?o] assms(1) by (intro make_SecondaryEvidence_Inr) (simp_all add: outcome_of_def)
  have mismatch: "\<exists>e. make_SecondaryEvidence \<lparr>evidence_kind = k, evidence_value =
      comma_separated (map (ReconciliationField_value \<circ> mismatch_field) (mismatches ?o))\<rparr> = Inr e"
    if field: "classification ?o = FIELD_MISMATCH" for k
  proof -
    from field have "length sources = 1 \<and> length targets = 1 \<and>
        business_content (hd sources) \<noteq> business_content (hd targets)"
      by (cases sources rule: how_many.cases; cases targets rule: how_many.cases)
        (auto simp: outcome_of_def classification_of_def split: if_splits)
    then have "mismatches ?o \<noteq> []" "length (mismatches ?o) \<le> 5"
      using mismatched_length by (simp_all add: outcome_of_def mismatched_eq_Nil)
    from make_SecondaryEvidence_Inr [OF mismatch_text [OF this]] show ?thesis by (rule exI)
  qed
  show ?thesis
    using duplicates [of "\<lambda>rs. \<not> length rs < 2"] mismatch [of MISMATCH_FIELDS]
    unfolding key_secondary_def opponent
    by (auto simp: outcome_of_def bind_result_eq_Inr)
qed

subsection \<open>Differences of normalized records\<close>

lemma document_of_length: "record_ok r \<Longrightarrow> length (document_of r) \<le> 37"
  by (simp add: document_of_def fixed_leaves_def attribute_entries_def record_ok_def attributes_ok_def MAX_ITEMS_def)

lemma document_differences:
  assumes "record_ok s" "record_ok t"
  shows "build_field_differences (document_of s) (document_of t) =
    Inr (map (difference_of (document_of s) (document_of t))
      (sorted_list_of_set (differing_paths (document_of s) (document_of t))))"
proof -
  let ?s = "document_of s" and ?t = "document_of t"
  have "card (differing_paths ?s ?t) \<le> card (set (map fst ?s) \<union> set (map fst ?t))"
    by (rule card_mono [OF _ differing_paths_subset]) simp
  also have "\<dots> \<le> card (set (map fst ?s)) + card (set (map fst ?t))" by (rule card_Un_le)
  also have "\<dots> \<le> length ?s + length ?t"
    using card_length [of "map fst ?s"] card_length [of "map fst ?t"] by simp
  also have "\<dots> \<le> MAX_DIFFERENCES"
    using document_of_length [OF assms(1)] document_of_length [OF assms(2)] by (simp add: MAX_DIFFERENCES_def)
  finally show ?thesis
    by (simp add: build_field_differences_eq [OF document_of_ok [OF assms(1)] document_of_ok [OF assms(2)]])
qed

text \<open>The leaf of a record at a path, read off its fields.\<close>

definition field_leaf :: "InventoryRecord \<Rightarrow> string \<Rightarrow> ComparisonValue option" where
  "field_leaf r p = map_of (fixed_leaves r @ attribute_entries (attributes r)) p"

lemma leaf_at_document:
  assumes "well_keyed (attributes r)"
  shows "leaf_at (document_of r) p = (case field_leaf r p of Some v \<Rightarrow> v | None \<Rightarrow> leaf_of_kind Kind_MISSING)"
proof -
  let ?d = "fixed_leaves r @ attribute_entries (attributes r)"
  have keyed: "well_keyed ?d" by (rule document_keys_distinct [OF assms])
  then have "well_keyed (document_of r)" by (simp only: document_of_def distinct_map_sort_key)
  moreover have "set (document_of r) = set ?d" by (simp only: document_of_def set_sort)
  ultimately have "map_of (document_of r) = map_of ?d" using keyed by (metis map_of_inject_set)
  then show ?thesis by (simp add: leaf_at_def field_leaf_def)
qed

lemma map_of_attribute_entries:
  "map_of (attribute_entries vs) (''attributes/'' @ k) = map_option attribute_leaf (map_of vs k)"
  by (induction vs) (auto simp: attribute_entries_def)

lemma sorted_attributes_eq:
  assumes "well_keyed xs" "well_keyed ys" "sorted xs" "sorted ys" "map_of xs = map_of ys"
  shows "xs = (ys :: InventoryAttributes)"
proof -
  have "set xs = set ys" using assms by (metis map_of_inject_set)
  with assms show ?thesis by (intro sorted_distinct_set_unique) (auto simp: distinct_map)
qed

lemma leaf_inj:
  "text_leaf t = text_leaf t' \<longleftrightarrow> t = t'" "integer_leaf n = integer_leaf n' \<longleftrightarrow> n = n'"
  "timestamp_leaf u = timestamp_leaf u' \<longleftrightarrow> u = u'" "money_leaf m = money_leaf m' \<longleftrightarrow> m = m'"
  "attribute_leaf t = attribute_leaf t' \<longleftrightarrow> t = t'" "attribute_leaf t \<noteq> leaf_of_kind Kind_MISSING"
  "leaf_of_kind Kind_MISSING \<noteq> attribute_leaf t"
  by (auto simp: leaf_of_kind_def leaf_defs)

lemma field_leaf_attribute: "field_leaf x (''attributes/'' @ k) = map_option attribute_leaf (map_of (attributes x) k)"
proof -
  have "map_of (fixed_leaves x) (''attributes/'' @ k) = None"
    using attribute_not_required [of k] keys_fixed(1) [of x] by (metis map_of_eq_None_iff list.set_map)
  then show ?thesis
    unfolding field_leaf_def by (simp only: map_of_append map_add_def map_of_attribute_entries) (auto split: option.split)
qed

lemma document_leaves_inj:
  assumes "record_ok r" "record_ok r'" "\<forall>p. leaf_at (document_of r) p = leaf_at (document_of r') p"
  shows "business_content r = business_content r'"
proof -
  have attrs: "well_keyed (attributes r)" "well_keyed (attributes r')" "sorted (attributes r)" "sorted (attributes r')"
    using assms(1,2) by (simp_all add: record_ok_def attributes_ok_def)
  have same: "(case field_leaf r p of Some v \<Rightarrow> v | None \<Rightarrow> leaf_of_kind Kind_MISSING) =
      (case field_leaf r' p of Some v \<Rightarrow> v | None \<Rightarrow> leaf_of_kind Kind_MISSING)" for p
    using assms(3) by (simp only: leaf_at_document [OF attrs(1)] leaf_at_document [OF attrs(2)])
  have fixed: "name r = name r' \<and> quantity r = quantity r' \<and> updated_at r = updated_at r' \<and> unit_price r = unit_price r'"
    using same [of "''name''"] same [of "''quantity''"] same [of "''updated_at''"] same [of "''unit_price/amount''"]
    by (simp add: field_leaf_def fixed_leaves_def leaf_inj)
  have "map_of (attributes r) k = map_of (attributes r') k" for k
  proof -
    show ?thesis
      using field_leaf_attribute same [of "''attributes/'' @ k"]
      by (cases "map_of (attributes r) k"; cases "map_of (attributes r') k") (auto simp only: leaf_inj option.map option.case)
  qed
  then have "attributes r = attributes r'" using sorted_attributes_eq [OF attrs] by blast
  with fixed show ?thesis by (simp add: business_content_def)
qed

lemma document_of_content:
  assumes "business_content r = business_content r'"
  shows "document_of r = document_of r'"
  using assms by (simp add: business_content_def document_of_def fixed_leaves_def)

end
