(* ===== verification/Digest.thy ===== *)
theory Digest
  imports Text_Forms "HOL-Library.Word"
begin

unbundle bit_operations_syntax

text \<open>
  SHA-256 as \<^verbatim>\<open>hashlib.sha256\<close> computes it (FIPS 180-4), on byte strings, with \<^verbatim>\<open>digest()\<close> and \<^verbatim>\<open>hexdigest()\<close>; state
  fingerprints (\<^verbatim>\<open>domain/models/fingerprints.py\<close>); and the eight-byte length frame that the fingerprint modules
  share.  Nothing below depends on the strength of the digest: what is proved of fingerprints holds of the
  bytes that are hashed.
\<close>

subsection \<open>SHA-256\<close>

type_synonym word32 = "32 word"

text \<open>
  The constants of the standard are the first 32 bits of the fractional parts of the square roots of the first eight
  primes and of the cube roots of the first 64 primes; they are computed from that description.
\<close>

definition SHA_PRIMES :: "int list" where
  "SHA_PRIMES =
     [2, 3, 5, 7, 11, 13, 17, 19] @ [23, 29, 31, 37, 41, 43, 47, 53] @ [59, 61, 67, 71, 73, 79, 83, 89] @
     [97, 101, 103, 107, 109, 113, 127, 131] @ [137, 139, 149, 151, 157, 163, 167, 173] @
     [179, 181, 191, 193, 197, 199, 211, 223] @ [227, 229, 233, 239, 241, 251, 257, 263] @
     [269, 271, 277, 281, 283, 293, 307, 311]"

text \<open>The integer \<open>k\<close>-th root, bit by bit from bit 37 down: enough for the cube root of 311 with 32 binary places.\<close>

definition integer_root :: "nat \<Rightarrow> int \<Rightarrow> int" where
  "integer_root k n = foldr (\<lambda>i r. if (r + 2 ^ i) ^ k \<le> n then r + 2 ^ i else r) [0..<38] 0"

definition root_fraction :: "nat \<Rightarrow> int \<Rightarrow> word32" where
  "root_fraction k p = of_int (integer_root k (p * 2 ^ (32 * k)))"

definition SHA_INITIAL :: "word32 list" where
  "SHA_INITIAL = map (root_fraction 2) (take 8 SHA_PRIMES)"

definition SHA_CONSTANTS :: "word32 list" where
  "SHA_CONSTANTS = map (root_fraction 3) SHA_PRIMES"

definition rotr :: "nat \<Rightarrow> word32 \<Rightarrow> word32" where
  "rotr n w = drop_bit n w OR push_bit (32 - n) w"

definition to_big_endian :: "nat \<Rightarrow> int \<Rightarrow> string" where
  "to_big_endian n k = map (\<lambda>i. char_of (k div 256 ^ (n - Suc i))) [0..<n]"

definition word_bytes :: "word32 \<Rightarrow> string" where
  "word_bytes w = to_big_endian 4 (uint w)"

fun bytes_words :: "string \<Rightarrow> word32 list" where
  "bytes_words (a # b # c # d # rest) =
     word_of_int (((of_char a * 256 + of_char b) * 256 + of_char c) * 256 + of_char d) # bytes_words rest"
| "bytes_words rest = []"

definition sha_padded :: "string \<Rightarrow> string" where
  "sha_padded message =
     message @ CHR 0x80 # replicate ((119 - length message mod 64) mod 64) (CHR 0x00) @
     to_big_endian 8 (8 * int (length message))"

text \<open>The message schedule, kept in reverse: the next word from the sixteen before it.\<close>

definition schedule_next :: "word32 list \<Rightarrow> word32" where
  "schedule_next ws =
     (let s0 = (let x = ws ! 14 in rotr 7 x XOR rotr 18 x XOR drop_bit 3 x);
          s1 = (let x = ws ! 1 in rotr 17 x XOR rotr 19 x XOR drop_bit 10 x) in
      ws ! 15 + s0 + ws ! 6 + s1)"

fun schedule_extend :: "nat \<Rightarrow> word32 list \<Rightarrow> word32 list" where
  "schedule_extend 0 ws = ws"
| "schedule_extend (Suc n) ws = schedule_extend n (schedule_next ws # ws)"

definition schedule :: "word32 list \<Rightarrow> word32 list" where
  "schedule block = rev (schedule_extend 48 (rev block))"

fun sha_round :: "word32 \<times> word32 \<Rightarrow> word32 list \<Rightarrow> word32 list" where
  "sha_round (k, w) [a, b, c, d, e, f, g, h] =
     (let s1 = rotr 6 e XOR rotr 11 e XOR rotr 25 e;
          ch = (e AND f) XOR (NOT e AND g);
          t1 = h + s1 + ch + k + w;
          s0 = rotr 2 a XOR rotr 13 a XOR rotr 22 a;
          maj = (a AND b) XOR (a AND c) XOR (b AND c);
          t2 = s0 + maj in
      [t1 + t2, a, b, c, d + t1, e, f, g])"
| "sha_round kw state = state"

definition sha_compress :: "word32 list \<Rightarrow> word32 list \<Rightarrow> word32 list" where
  "sha_compress state block = map2 (+) state (fold sha_round (zip SHA_CONSTANTS (schedule block)) state)"

function sha_blocks :: "word32 list \<Rightarrow> word32 list \<Rightarrow> word32 list" where
  "sha_blocks state ws =
     (if ws = [] then state else sha_blocks (sha_compress state (take 16 ws)) (drop 16 ws))"
  by pat_completeness auto
termination
  by (relation "measure (\<lambda>(state, ws). length ws)") auto

declare sha_blocks.simps [simp del]

definition sha256_digest :: "string \<Rightarrow> string" where
  "sha256_digest message = concat (map word_bytes (sha_blocks SHA_INITIAL (bytes_words (sha_padded message))))"

definition sha256_hexdigest :: "string \<Rightarrow> string" where
  "sha256_hexdigest message =
     concat (map (\<lambda>c. [hex_char (of_char c div 16), hex_char (of_char c mod 16)]) (sha256_digest message))"

lemma length_concat_const: "\<forall>x \<in> set xs. length x = k \<Longrightarrow> length (concat xs) = k * length xs"
  by (induction xs) auto

lemma sha_round_length: "length state = 8 \<Longrightarrow> length (sha_round kw state) = 8"
  by (cases "(kw, state)" rule: sha_round.cases) (auto simp: Let_def)

lemma fold_sha_round_length: "length state = 8 \<Longrightarrow> length (fold sha_round kws state) = 8"
  by (induction kws arbitrary: state) (auto intro: sha_round_length)

lemma sha_blocks_length: "length state = 8 \<Longrightarrow> length (sha_blocks state ws) = 8"
proof (induction state ws rule: sha_blocks.induct)
  case (1 state ws)
  then show ?case
    by (subst sha_blocks.simps) (auto simp: sha_compress_def fold_sha_round_length)
qed

lemma sha256_digest_length: "length (sha256_digest message) = 32"
proof -
  have "length (sha_blocks SHA_INITIAL ws) = 8" for ws by (rule sha_blocks_length) (simp add: SHA_INITIAL_def SHA_PRIMES_def)
  then show ?thesis
    unfolding sha256_digest_def by (subst length_concat_const [of _ 4]) (auto simp: word_bytes_def to_big_endian_def)
qed

subsection \<open>Fingerprints\<close>

type_synonym StateFingerprint = string

definition is_lower_hex :: "char \<Rightarrow> bool" where
  "is_lower_hex c \<longleftrightarrow> c \<in> set ''0123456789abcdef''"

definition SHA256_PATTERN :: "string \<Rightarrow> bool" where
  "SHA256_PATTERN value \<longleftrightarrow> length value = 64 \<and> list_all is_lower_hex value"

definition validate_fingerprint :: "string \<Rightarrow> (py_error, StateFingerprint) result" where
  "validate_fingerprint value =
     bind_result (require (SHA256_PATTERN value)
       (ValueError ''state fingerprint must be exactly 64 lowercase hexadecimal characters'')) (\<lambda>_. Inr value)"

definition fingerprint_from_bytes :: "string \<Rightarrow> (py_error, StateFingerprint) result" where
  "fingerprint_from_bytes value =
     bind_result (require (list_all is_ascii value)
       (ValueError ''state fingerprint encoding must contain only ASCII'')) (\<lambda>_. validate_fingerprint value)"

lemma sha256_hexdigest_pattern: "SHA256_PATTERN (sha256_hexdigest message)"
proof -
  let ?hex = "\<lambda>c. [hex_char (of_char c div 16), hex_char (of_char c mod 16)]"
  have hex: "is_lower_hex (hex_char (of_char c div 16)) \<and> is_lower_hex (hex_char (of_char c mod 16))" for c :: char
  proof -
    have "code c div 16 < 16" using nat_of_char_less_256 [of c] by (simp only: div_less_iff_less_mult)
    moreover have "code c mod 16 < 16" by simp
    moreover note hex_char_cases
    ultimately show ?thesis by (simp only: is_lower_hex_def)
  qed
  have "length (concat (map ?hex (sha256_digest message))) = 2 * length (map ?hex (sha256_digest message))"
    by (rule length_concat_const) simp
  moreover have "list_all is_lower_hex (concat (map ?hex s))" for s
    using hex by (induction s) auto
  ultimately show ?thesis
    unfolding SHA256_PATTERN_def sha256_hexdigest_def by (simp add: sha256_digest_length)
qed

lemma validate_hexdigest [simp]: "validate_fingerprint (sha256_hexdigest message) = Inr (sha256_hexdigest message)"
  by (simp add: validate_fingerprint_def sha256_hexdigest_pattern)

subsection \<open>Frames\<close>

definition LENGTH_BYTES :: nat where "LENGTH_BYTES = 8"

definition frame :: "string \<Rightarrow> string" where
  "frame value = to_big_endian LENGTH_BYTES (int (length value)) @ value"

lemma length_to_big_endian [simp]: "length (to_big_endian n k) = n"
  by (simp add: to_big_endian_def)

lemma frame_inj: "frame b = frame c \<longleftrightarrow> b = c"
  by (auto simp: frame_def append_eq_append_conv)

lemma concat_const_inj:
  assumes "\<forall>x \<in> set xs \<union> set ys. length x = k" "0 < k" "concat xs = concat ys"
  shows "xs = ys"
  using assms(1,3)
proof (induction xs arbitrary: ys)
  case Nil
  then show ?case using assms(2) by (cases ys) auto
next
  case (Cons x xs)
  show ?case
  proof (cases ys)
    case Nil
    then show ?thesis using Cons.prems assms(2) by auto
  next
    case ys: (Cons y ys')
    then have "x = y \<and> concat xs = concat ys'"
      using Cons.prems append_eq_append_conv [of x y "concat xs" "concat ys'"] by auto
    then show ?thesis using Cons.IH [of ys'] Cons.prems(1) ys by auto
  qed
qed

lemma sha256_hexdigest_eq: "sha256_hexdigest m = sha256_hexdigest m' \<longleftrightarrow> sha256_digest m = sha256_digest m'"
proof
  let ?hex = "\<lambda>c. [hex_char (of_char c div 16), hex_char (of_char c mod 16)]"
  assume "sha256_hexdigest m = sha256_hexdigest m'"
  then have "map ?hex (sha256_digest m) = map ?hex (sha256_digest m')"
    unfolding sha256_hexdigest_def by (rule concat_const_inj [where k = 2, rotated 2]) auto
  moreover have "inj ?hex"
  proof (rule injI)
    fix c d :: char
    assume eq: "?hex c = ?hex d"
    have "code e div 16 < 16" for e using nat_of_char_less_256 [of e] by (simp only: div_less_iff_less_mult)
    then have "code c div 16 = code d div 16" "code c mod 16 = code d mod 16"
      using eq hex_char_inj by simp_all
    then have "code c = code d" by (metis div_mult_mod_eq)
    then show "c = d" by simp
  qed
  ultimately show "sha256_digest m = sha256_digest m'" by (simp only: inj_map_eq_map)
qed (simp add: sha256_hexdigest_def)

end
