(* ===== verification/Repair_Plans.thy ===== *)
theory Repair_Plans
  imports Classification Digest
begin

text \<open>
  Safe repair actions and plans bound to an exact reconciliation state (\<^verbatim>\<open>domain/repair/plans.py\<close>).  An identifier
  of the model carries its kind, so the type checks of the source are checks of the kind.
\<close>

subsection \<open>Errors\<close>

datatype CanonicalErrorCode =
    UNSUPPORTED_CANONICAL_VERSION | UNSUPPORTED_CANONICAL_TYPE | INVALID_CANONICAL_VALUE

datatype repair_error =
    ReconError recon_error
  | StaleRepairPlanError (stale_expected: StateFingerprint) (stale_actual: StateFingerprint)
  | CanonicalEncodingError CanonicalErrorCode string

type_synonym 'a repair_result = "(repair_error, 'a) result"

primrec lift_recon :: "'a recon_result \<Rightarrow> 'a repair_result" where
  "lift_recon (Inl e) = Inl (ReconError e)"
| "lift_recon (Inr a) = Inr a"

lemma lift_recon_eq_Inr [result_simps]: "lift_recon r = Inr a \<longleftrightarrow> r = Inr a"
  by (cases r) simp_all

lemma lift_recon_eq_Inl [result_simps]: "lift_recon r = Inl e \<longleftrightarrow> (\<exists>e'. r = Inl e' \<and> e = ReconError e')"
  by (cases r) auto

definition require_id_kind :: "id_kind \<Rightarrow> prefixed_id \<Rightarrow> string \<Rightarrow> unit recon_result" where
  "require_id_kind k i field =
     require (id_kind_of i = k) (PyError (TypeError (field @ '' has the wrong identifier type'')))"

subsection \<open>Bindings\<close>

definition MAX_ACTIONS :: nat where "MAX_ACTIONS = 10000"

record RepairPlanBinding =
  binding_run_id :: prefixed_id
  reconciliation_fingerprint :: StateFingerprint
  source_input_identity :: string
  target_input_identity :: string
  policy_version :: int
  generation_version :: int
  binding_rules_version :: int
  binding_analysis_version :: int
  binding_analytical_query_version :: int
  action_count :: nat

definition make_RepairPlanBinding :: "RepairPlanBinding \<Rightarrow> RepairPlanBinding recon_result" where
  "make_RepairPlanBinding b =
     bind_result (require_id_kind RunId (binding_run_id b) ''run_id'') (\<lambda>_.
     bind_result (check_all (\<lambda>v. require (SHA256_PATTERN v)
         (value_error ''repair-plan binding input identity is invalid''))
       [source_input_identity b, target_input_identity b]) (\<lambda>_.
     bind_result (check_all (\<lambda>v. require (\<not> v < 1) (value_error ''repair-plan binding version is invalid''))
       [policy_version b, generation_version b, binding_rules_version b, binding_analysis_version b,
        binding_analytical_query_version b]) (\<lambda>_.
     bind_result (require (action_count b \<le> MAX_ACTIONS)
       (value_error ''repair-plan binding action count is invalid'')) (\<lambda>_.
     Inr b))))"

subsection \<open>Actions\<close>

datatype RepairActionKind = CREATE_TARGET | UPDATE_TARGET

fun RepairActionKind_value :: "RepairActionKind \<Rightarrow> string" where
  "RepairActionKind_value CREATE_TARGET = ''create_target''"
| "RepairActionKind_value UPDATE_TARGET = ''update_target''"

record RepairAction =
  action_id :: prefixed_id
  conflict_id :: prefixed_id
  action_fingerprint :: StateFingerprint
  action_kind :: RepairActionKind
  proposed_record :: InventoryRecord
  expected_target_record :: "InventoryRecord option"
  action_mismatches :: "FieldMismatch list"

definition make_RepairAction ::
  "prefixed_id \<Rightarrow> prefixed_id \<Rightarrow> StateFingerprint \<Rightarrow> RepairActionKind \<Rightarrow> InventoryRecord \<Rightarrow> InventoryRecord option \<Rightarrow>
     RepairAction recon_result" where
  "make_RepairAction action conflict fingerprint kind proposed expected =
     bind_result (require_id_kind RepairActionId action ''action_id'') (\<lambda>_.
     bind_result (require_id_kind ConflictId conflict ''conflict_id'') (\<lambda>_.
     bind_result
       (case kind of
          CREATE_TARGET \<Rightarrow>
            bind_result (require (expected = None)
              (value_error ''create action requires the target record to be absent'')) (\<lambda>_. Inr [])
        | UPDATE_TARGET \<Rightarrow>
            (case expected of
               None \<Rightarrow> Inl (PyError (TypeError ''update action requires an expected target InventoryRecord''))
             | Some target \<Rightarrow>
                 bind_result (differences_between proposed target) (\<lambda>ms.
                 bind_result (require (ms \<noteq> [])
                   (value_error ''update action requires at least one field mismatch'')) (\<lambda>_. Inr ms)))) (\<lambda>ms.
     Inr \<lparr>action_id = action, conflict_id = conflict, action_fingerprint = fingerprint, action_kind = kind,
          proposed_record = proposed, expected_target_record = expected, action_mismatches = ms\<rparr>)))"

definition action_from_outcome ::
  "prefixed_id \<Rightarrow> prefixed_id \<Rightarrow> StateFingerprint \<Rightarrow> ReconciliationOutcome \<Rightarrow> RepairAction recon_result" where
  "action_from_outcome action conflict fingerprint outcome =
     (if classification outcome = MISSING_FROM_TARGET then
        make_RepairAction action conflict fingerprint CREATE_TARGET (hd (source_records outcome)) None
      else if classification outcome = FIELD_MISMATCH then
        make_RepairAction action conflict fingerprint UPDATE_TARGET (hd (source_records outcome))
          (Some (hd (target_records outcome)))
      else Inl (value_error (ReconciliationClassification_value (classification outcome) @
        '' outcome is not safely repairable'')))"

definition action_sku :: "RepairAction \<Rightarrow> string" where
  "action_sku a = sku (proposed_record a)"

subsection \<open>Plans\<close>

record RepairPlan =
  plan_id :: prefixed_id
  plan_fingerprint :: StateFingerprint
  plan_actions :: "RepairAction list"
  plan_binding :: "RepairPlanBinding option"

definition action_order_key :: "RepairAction \<Rightarrow> string \<times> string \<times> string" where
  "action_order_key a = (action_sku a, RepairActionKind_value (action_kind a), id_value (action_id a))"

definition require_unique_plan :: "'a list \<Rightarrow> string \<Rightarrow> unit recon_result" where
  "require_unique_plan xs subject =
     require (card (set xs) = length xs) (value_error (''repair plan '' @ subject @ '' must be unique''))"

definition make_RepairPlan :: "RepairPlan \<Rightarrow> RepairPlan recon_result" where
  "make_RepairPlan p =
     bind_result (require_id_kind RepairPlanId (plan_id p) ''plan_id'') (\<lambda>_.
     bind_result (require (length (plan_actions p) \<le> MAX_ACTIONS)
       (value_error ''repair plan must contain at most 10000 actions'')) (\<lambda>_.
     bind_result (require (plan_actions p \<noteq> [])
       (value_error ''repair plan requires at least one action'')) (\<lambda>_.
     bind_result (require (\<not> list_ex (\<lambda>a. action_fingerprint a \<noteq> plan_fingerprint p) (plan_actions p))
       (value_error ''every repair action must reference the plan state fingerprint'')) (\<lambda>_.
     bind_result (require_unique_plan (map action_id (plan_actions p)) ''action identities'') (\<lambda>_.
     bind_result (require_unique_plan (map conflict_id (plan_actions p)) ''conflict identities'') (\<lambda>_.
     bind_result (require_unique_plan (map action_sku (plan_actions p)) ''inventory keys'') (\<lambda>_.
     bind_result (case plan_binding p of
         None \<Rightarrow> Inr ()
       | Some b \<Rightarrow> require (\<not> (reconciliation_fingerprint b \<noteq> plan_fingerprint p \<or>
             action_count b \<noteq> length (plan_actions p)))
           (value_error ''repair-plan binding does not match plan contents'')) (\<lambda>_.
     Inr (p\<lparr>plan_actions := sort_key action_order_key (plan_actions p)\<rparr>)))))))))"

definition is_current :: "RepairPlan \<Rightarrow> StateFingerprint \<Rightarrow> bool" where
  "is_current p current \<longleftrightarrow> plan_fingerprint p = current"

definition require_current :: "RepairPlan \<Rightarrow> StateFingerprint \<Rightarrow> unit repair_result" where
  "require_current p current =
     (if \<not> is_current p current then Inl (StaleRepairPlanError (plan_fingerprint p) current) else Inr ())"

subsection \<open>Which outcomes give an action\<close>

text \<open>The one action a repairable outcome stands for.\<close>

definition action_for ::
  "prefixed_id \<Rightarrow> prefixed_id \<Rightarrow> StateFingerprint \<Rightarrow> InventoryRecord list \<Rightarrow> InventoryRecord list \<Rightarrow> RepairAction" where
  "action_for action conflict fingerprint sources targets =
     \<lparr>action_id = action, conflict_id = conflict, action_fingerprint = fingerprint,
      action_kind = (if targets = [] then CREATE_TARGET else UPDATE_TARGET), proposed_record = hd sources,
      expected_target_record = (if targets = [] then None else Some (hd targets)),
      action_mismatches = (if targets = [] then [] else mismatched (hd sources) (hd targets))\<rparr>"

lemma action_from_outcome_eq:
  assumes "id_kind_of action = RepairActionId" "id_kind_of conflict = ConflictId"
    and "list_all (\<lambda>r. sku r = s) (sources @ targets)"
  shows "action_from_outcome action conflict fingerprint (outcome_of sources targets) =
    (if is_repairable (outcome_of sources targets) then Inr (action_for action conflict fingerprint sources targets)
     else Inl (value_error (ReconciliationClassification_value (classification_of sources targets) @
        '' outcome is not safely repairable'')))"
  using assms
  by (cases sources rule: how_many.cases; cases targets rule: how_many.cases)
    (auto simp: action_from_outcome_def outcome_of_def classification_of_def is_repairable_def make_RepairAction_def
      require_id_kind_def action_for_def differences_between_eq mismatched_eq_Nil)

end
