(* ===== verification/Canonical.thy ===== *)
theory Canonical
  imports Pipeline Retry Json_Text Repair_Plans
begin

text \<open>
  The canonical byte encoding of trusted domain values and the order-independent fingerprints of states
  (\<^verbatim>\<open>domain/canonical/encoding.py\<close>, \<^verbatim>\<open>domain/canonical/fingerprints.py\<close>).  The only protocol version is 1.  The
  members of an object are listed in the order of their keys, in which \<^verbatim>\<open>sort_keys\<close> renders them.
\<close>

subsection \<open>Values\<close>

record PipelineNode =
  pn_id :: string
  pn_kind :: string
  pn_inputs :: "string list"
  pn_outputs :: "string list"

datatype canonical_value =
    V_Identifier prefixed_id
  | V_PipelineVersion int
  | V_AttemptNumber int
  | V_UtcTimestamp UtcTimestamp
  | V_Duration Duration
  | V_CurrencyCode CurrencyCode
  | V_Money Money
  | V_InventoryAttributes InventoryAttributes
  | V_InventoryRecord InventoryRecord
  | V_StateFingerprint StateFingerprint
  | V_NodeKind string
  | V_PortName string
  | V_PartitionKey string
  | V_PipelineNode PipelineNode
  | V_PipelineEdge PipelineEdge
  | V_RunState RunState
  | V_WorkItemState WorkItemState
  | V_FailureClassification FailureClassification
  | V_FailureDisposition FailureDisposition
  | V_ReconciliationClassification ReconciliationClassification
  | V_ReconciliationField ReconciliationField
  | V_FieldMismatch FieldMismatch
  | V_ReconciliationOutcome ReconciliationOutcome
  | V_RepairActionKind RepairActionKind
  | V_RepairAction RepairAction
  | V_RepairPlan RepairPlan

fun FailureDisposition_value :: "FailureDisposition \<Rightarrow> string" where
  "FailureDisposition_value RETRY = ''retry''"
| "FailureDisposition_value QUARANTINE = ''quarantine''"
| "FailureDisposition_value CONFLICT = ''conflict''"
| "FailureDisposition_value CANCEL = ''cancel''"
| "FailureDisposition_value PERMANENT = ''permanent''"

subsection \<open>Primitives\<close>

definition money_primitive :: "Money \<Rightarrow> json" where
  "money_primitive m =
     JDict [(''currency'', JText (currency m)), (''minor_unit_exponent'', JInt (minor_unit_exponent m)),
            (''minor_units'', JInt (minor_units m))]"

definition attributes_primitive :: "InventoryAttributes \<Rightarrow> json" where
  "attributes_primitive items = JList (map (\<lambda>(k, v). JList [JText k, JText v]) items)"

definition inventory_record_primitive :: "InventoryRecord \<Rightarrow> json" where
  "inventory_record_primitive r =
     JDict [(''attributes'', attributes_primitive (attributes r)), (''connector_id'', JText (id_value (connector_id r))),
            (''name'', JText (name r)), (''quantity'', JInt (quantity r)), (''sku'', JText (sku r)),
            (''source_record_key'', JText (source_record_key r)), (''unit_price'', money_primitive (unit_price r)),
            (''updated_at'', JText (utc_str (updated_at r)))]"

definition inventory_effect_primitive :: "InventoryRecord \<Rightarrow> json" where
  "inventory_effect_primitive r =
     JDict [(''attributes'', attributes_primitive (attributes r)), (''name'', JText (name r)),
            (''quantity'', JInt (quantity r)), (''sku'', JText (sku r)),
            (''unit_price'', money_primitive (unit_price r)), (''updated_at'', JText (utc_str (updated_at r)))]"

definition pipeline_node_primitive :: "PipelineNode \<Rightarrow> json" where
  "pipeline_node_primitive n =
     JDict [(''id'', JText (pn_id n)), (''inputs'', JList (map JText (pn_inputs n))), (''kind'', JText (pn_kind n)),
            (''outputs'', JList (map JText (pn_outputs n)))]"

definition pipeline_edge_primitive :: "PipelineEdge \<Rightarrow> json" where
  "pipeline_edge_primitive e =
     JDict [(''source'', JDict [(''node_id'', JText (source_node_id e)), (''port'', JText (source_port e))]),
            (''target'', JDict [(''node_id'', JText (target_node_id e)), (''port'', JText (target_port e))])]"

text \<open>The value of a mismatch has the type of its field, so its own type selects the primitive.\<close>

fun comparable_primitive :: "ComparableInventoryValue \<Rightarrow> json" where
  "comparable_primitive (Text_Value t) = JText t"
| "comparable_primitive (Integer_Value n) = JInt n"
| "comparable_primitive (Money_Value m) = money_primitive m"
| "comparable_primitive (Timestamp_Value t) = JText (utc_str t)"
| "comparable_primitive (Attributes_Value a) = attributes_primitive a"

definition field_mismatch_primitive :: "FieldMismatch \<Rightarrow> json" where
  "field_mismatch_primitive m =
     JDict [(''field'', JText (ReconciliationField_value (mismatch_field m))),
            (''source'', comparable_primitive (source_value m)), (''target'', comparable_primitive (target_value m))]"

definition outcome_primitive :: "ReconciliationOutcome \<Rightarrow> json" where
  "outcome_primitive outcome =
     JDict [(''classification'', JText (ReconciliationClassification_value (classification outcome))),
            (''mismatches'', JList (map field_mismatch_primitive (mismatches outcome))),
            (''sku'', JText (outcome_sku outcome)),
            (''source_records'', JList (map inventory_record_primitive (source_records outcome))),
            (''target_records'', JList (map inventory_record_primitive (target_records outcome)))]"

definition repair_action_primitive :: "RepairAction \<Rightarrow> bool \<Rightarrow> bool \<Rightarrow> bool \<Rightarrow> json" where
  "repair_action_primitive a include_identity include_record_provenance include_state_fingerprint =
     (let record_value = (if include_record_provenance then inventory_record_primitive else inventory_effect_primitive) in
      JDict (
        (if include_identity
         then [(''action_id'', JText (id_value (action_id a))), (''conflict_id'', JText (id_value (conflict_id a)))] else []) @
        [(''expected_target_record'', case expected_target_record a of None \<Rightarrow> JNull | Some r \<Rightarrow> record_value r),
         (''kind'', JText (RepairActionKind_value (action_kind a))),
         (''mismatches'', JList (map field_mismatch_primitive (action_mismatches a))),
         (''proposed_record'', record_value (proposed_record a))] @
        (if include_state_fingerprint then [(''state_fingerprint'', JText (action_fingerprint a))] else [])))"

definition repair_plan_primitive :: "RepairPlan \<Rightarrow> json" where
  "repair_plan_primitive p =
     JDict [(''actions'', JList (map (\<lambda>a. repair_action_primitive a True True True) (plan_actions p))),
            (''plan_id'', JText (id_value (plan_id p))), (''state_fingerprint'', JText (plan_fingerprint p))]"

definition binding_primitive :: "RepairPlanBinding \<Rightarrow> json" where
  "binding_primitive b =
     JDict [(''action_count'', JInt (int (action_count b))), (''analysis_version'', JInt (binding_analysis_version b)),
            (''analytical_query_version'', JInt (binding_analytical_query_version b)),
            (''generation_version'', JInt (generation_version b)), (''policy_version'', JInt (policy_version b)),
            (''reconciliation_fingerprint'', JText (reconciliation_fingerprint b)),
            (''rules_version'', JInt (binding_rules_version b)), (''run_id'', JText (id_value (binding_run_id b))),
            (''source_input_identity'', JText (source_input_identity b)),
            (''target_input_identity'', JText (target_input_identity b))]"

definition repair_plan_content_primitive :: "RepairPlan \<Rightarrow> json" where
  "repair_plan_content_primitive p =
     JDict (
       [(''actions'', JList (map (\<lambda>a. repair_action_primitive a False False False) (plan_actions p)))] @
       (case plan_binding p of None \<Rightarrow> [] | Some b \<Rightarrow> [(''binding'', binding_primitive b)]) @
       [(''state_fingerprint'', JText (plan_fingerprint p))])"

subsection \<open>Encoding\<close>

text \<open>The registry: a type tag and a primitive for every supported type.\<close>

fun identifier_tag :: "id_kind \<Rightarrow> string option" where
  "identifier_tag PipelineId = Some ''pipeline-id''"
| "identifier_tag NodeId = Some ''node-id''"
| "identifier_tag ConnectorId = Some ''connector-id''"
| "identifier_tag RunId = Some ''run-id''"
| "identifier_tag WorkItemId = Some ''work-item-id''"
| "identifier_tag ArtifactId = Some ''artifact-id''"
| "identifier_tag ConflictId = Some ''conflict-id''"
| "identifier_tag RepairPlanId = Some ''repair-plan-id''"
| "identifier_tag RepairActionId = Some ''repair-action-id''"
| "identifier_tag TargetVerificationId = None"

fun canonical_adapter :: "canonical_value \<Rightarrow> (string \<times> json) option" where
  "canonical_adapter (V_Identifier i) = map_option (\<lambda>tag. (tag, JText (id_value i))) (identifier_tag (id_kind_of i))"
| "canonical_adapter (V_PipelineVersion n) = Some (''pipeline-version'', JInt n)"
| "canonical_adapter (V_AttemptNumber n) = Some (''attempt-number'', JInt n)"
| "canonical_adapter (V_UtcTimestamp t) = Some (''utc-timestamp'', JText (utc_str t))"
| "canonical_adapter (V_Duration d) = Some (''duration'', JInt d)"
| "canonical_adapter (V_CurrencyCode c) = Some (''currency-code'', JText c)"
| "canonical_adapter (V_Money m) = Some (''money'', money_primitive m)"
| "canonical_adapter (V_InventoryAttributes a) = Some (''inventory-attributes'', attributes_primitive a)"
| "canonical_adapter (V_InventoryRecord r) = Some (''inventory-record'', inventory_record_primitive r)"
| "canonical_adapter (V_StateFingerprint f) = Some (''state-fingerprint'', JText f)"
| "canonical_adapter (V_NodeKind t) = Some (''node-kind'', JText t)"
| "canonical_adapter (V_PortName t) = Some (''port-name'', JText t)"
| "canonical_adapter (V_PartitionKey t) = Some (''partition-key'', JText t)"
| "canonical_adapter (V_PipelineNode n) = Some (''pipeline-node'', pipeline_node_primitive n)"
| "canonical_adapter (V_PipelineEdge e) = Some (''pipeline-edge'', pipeline_edge_primitive e)"
| "canonical_adapter (V_RunState s) = Some (''run-state'', JText (RunState_value s))"
| "canonical_adapter (V_WorkItemState s) = Some (''work-item-state'', JText (WorkItemState_value s))"
| "canonical_adapter (V_FailureClassification c) =
     Some (''failure-classification'', JText (FailureClassification_value c))"
| "canonical_adapter (V_FailureDisposition d) = Some (''failure-disposition'', JText (FailureDisposition_value d))"
| "canonical_adapter (V_ReconciliationClassification c) =
     Some (''reconciliation-classification'', JText (ReconciliationClassification_value c))"
| "canonical_adapter (V_ReconciliationField f) = Some (''reconciliation-field'', JText (ReconciliationField_value f))"
| "canonical_adapter (V_FieldMismatch m) = Some (''field-mismatch'', field_mismatch_primitive m)"
| "canonical_adapter (V_ReconciliationOutcome outcome) = Some (''reconciliation-outcome'', outcome_primitive outcome)"
| "canonical_adapter (V_RepairActionKind k) = Some (''repair-action-kind'', JText (RepairActionKind_value k))"
| "canonical_adapter (V_RepairAction a) = Some (''repair-action'', repair_action_primitive a True True True)"
| "canonical_adapter (V_RepairPlan p) = Some (''repair-plan'', repair_plan_primitive p)"

definition encode_envelope :: "string \<Rightarrow> json \<Rightarrow> bytes" where
  "encode_envelope type_tag v =
     json_dumps (JDict [(''format'', JText ''paritygrid-canonical''), (''type'', JText type_tag), (''value'', v),
       (''version'', JInt 1)])"

definition encode_canonical :: "canonical_value \<Rightarrow> bytes repair_result" where
  "encode_canonical v =
     (case canonical_adapter v of
        None \<Rightarrow> Inl (CanonicalEncodingError UNSUPPORTED_CANONICAL_TYPE
          ''paritygrid.domain.models.identifiers.TargetVerificationId'')
      | Some (tag, primitive) \<Rightarrow> Inr (encode_envelope tag primitive))"

definition encode_repair_plan_content :: "RepairPlan \<Rightarrow> bytes" where
  "encode_repair_plan_content p = encode_envelope ''repair-plan-content'' (repair_plan_content_primitive p)"

definition encode_inventory_observation :: "InventoryRecord \<Rightarrow> bytes" where
  "encode_inventory_observation r = encode_envelope ''inventory-observation'' (inventory_effect_primitive r)"

subsection \<open>Fingerprints\<close>

definition MAX_FINGERPRINT_ITEMS :: nat where "MAX_FINGERPRINT_ITEMS = 10000"
definition LEAF_DOMAIN :: bytes where "LEAF_DOMAIN = ''paritygrid:canonical-leaf:v1'' @ [CHR 0x00]"
definition ROOT_DOMAIN :: bytes where "ROOT_DOMAIN = ''paritygrid:canonical-state:v1'' @ [CHR 0x00]"

datatype FingerprintScope = INVENTORY_STATE | RECONCILIATION_STATE | REPAIR_PLAN_CONTENT | TARGET_OBSERVATION_STATE

fun FingerprintScope_value :: "FingerprintScope \<Rightarrow> string" where
  "FingerprintScope_value INVENTORY_STATE = ''inventory_state''"
| "FingerprintScope_value RECONCILIATION_STATE = ''reconciliation_state''"
| "FingerprintScope_value REPAIR_PLAN_CONTENT = ''repair_plan_content''"
| "FingerprintScope_value TARGET_OBSERVATION_STATE = ''target_observation_state''"

definition encode_state_value :: "FingerprintScope \<Rightarrow> canonical_value \<Rightarrow> bytes repair_result" where
  "encode_state_value scope v =
     (let unsupported =
        Inl (CanonicalEncodingError UNSUPPORTED_CANONICAL_TYPE (''fingerprint.'' @ FingerprintScope_value scope)) in
      case scope of
        INVENTORY_STATE \<Rightarrow> (case v of V_InventoryRecord r \<Rightarrow> encode_canonical v | _ \<Rightarrow> unsupported)
      | RECONCILIATION_STATE \<Rightarrow> (case v of V_ReconciliationOutcome outcome \<Rightarrow> encode_canonical v | _ \<Rightarrow> unsupported)
      | TARGET_OBSERVATION_STATE \<Rightarrow>
          (case v of V_InventoryRecord r \<Rightarrow> Inr (encode_inventory_observation r) | _ \<Rightarrow> unsupported)
      | REPAIR_PLAN_CONTENT \<Rightarrow> (case v of V_RepairPlan p \<Rightarrow> Inr (encode_repair_plan_content p) | _ \<Rightarrow> unsupported))"

fun fingerprint_leaves :: "FingerprintScope \<Rightarrow> canonical_value list \<Rightarrow> bytes list \<Rightarrow> bytes list repair_result" where
  "fingerprint_leaves scope [] leaves = Inr leaves"
| "fingerprint_leaves scope (v # vs) leaves =
     bind_result (require (length leaves \<noteq> MAX_FINGERPRINT_ITEMS)
       (CanonicalEncodingError INVALID_CANONICAL_VALUE ''fingerprint.item-count'')) (\<lambda>_.
     bind_result (encode_state_value scope v) (\<lambda>canonical_bytes.
     fingerprint_leaves scope vs (leaves @ [sha256_digest (LEAF_DOMAIN @ frame canonical_bytes)])))"

definition root_preimage :: "FingerprintScope \<Rightarrow> bytes list \<Rightarrow> bytes" where
  "root_preimage scope leaves =
     ROOT_DOMAIN @ frame (FingerprintScope_value scope) @ to_big_endian LENGTH_BYTES (int (length leaves)) @
     concat (sort leaves)"

definition fingerprint_state :: "canonical_value list \<Rightarrow> FingerprintScope \<Rightarrow> StateFingerprint repair_result" where
  "fingerprint_state vs scope =
     bind_result (fingerprint_leaves scope vs []) (\<lambda>leaves.
     lift_recon (lift_py (validate_fingerprint (sha256_hexdigest (root_preimage scope leaves)))))"

end
