(* ===== verification/Classification_Properties.thy ===== *)
theory Classification_Properties
  imports Classification
begin

text \<open>
  What matching and classification give on normalized records: no check of a constructor fires, the result is
  determined by the records of each SKU, every record appears exactly once, and the typed and the
  path-level comparison agree.
\<close>

subsection \<open>The two comparisons\<close>

text \<open>
  C26.  The two comparisons of the analysis agree.  For two normalized records of one SKU, the field-level comparison
  of their documents never fails, and it reports nothing exactly when the typed comparison of the records
  reports nothing, that is when their business content is the same; so a pair is classified as a field
  mismatch exactly when it carries path-level evidence.
\<close>

theorem evidence_agrees:
  assumes "record_ok s" "record_ok t" "sku s = sku t"
  shows "\<exists>ds. build_field_differences (document_of s) (document_of t) = Inr ds \<and>
    differences_between s t = Inr (mismatched s t) \<and>
    (ds = [] \<longleftrightarrow> business_content s = business_content t) \<and>
    (mismatched s t = [] \<longleftrightarrow> business_content s = business_content t) \<and>
    (classification_of [s] [t] = FIELD_MISMATCH \<longleftrightarrow> ds \<noteq> [])"
proof -
  let ?s = "document_of s" and ?t = "document_of t"
  have ds: "build_field_differences ?s ?t = Inr (map (difference_of ?s ?t) (sorted_list_of_set (differing_paths ?s ?t)))"
    by (rule document_differences [OF assms(1,2)])
  have "differing_paths ?s ?t = {} \<longleftrightarrow> business_content s = business_content t"
  proof
    assume "differing_paths ?s ?t = {}"
    then show "business_content s = business_content t"
      by (intro document_leaves_inj [OF assms(1,2)]) (auto simp: differing_paths_def)
  next
    assume "business_content s = business_content t"
    from document_of_content [OF this] show "differing_paths ?s ?t = {}" by (simp add: differing_paths_def)
  qed
  then show ?thesis
    unfolding ds using differences_between_eq [OF assms(3)] mismatched_eq_Nil [of s t]
    by (simp add: classification_of_def)
qed

text \<open>Two records of one SKU that differ in their quantity.\<close>

definition example_record :: "int \<Rightarrow> string \<Rightarrow> InventoryRecord" where
  "example_record q key =
     \<lparr>sku = ''AB-1'', name = ''bolt'', quantity = q, unit_price = PROBE_MONEY, updated_at = PROBE_TIMESTAMP,
      connector_id = Identifier ConnectorId ''con_one'', source_record_key = key, attributes = [(''color'', ''red'')]\<rparr>"

lemma example_record_ok: "0 \<le> q \<Longrightarrow> q \<le> 100 \<Longrightarrow> record_ok (example_record q ''r1'')"
proof -
  assume q: "0 \<le> q" "q \<le> 100"
  have "ATTRIBUTE_KEY_PATTERN ''color''" "validate_sku ''AB-1'' = Inr ''AB-1''"
    "normalize_business_text ''bolt'' ''inventory name'' 160 320 False = Inr ''bolt''"
    "normalize_business_text ''r1'' ''source record key'' 128 256 False = Inr ''r1''"
    "validate_currency ''USD'' = Inr ''USD''" "valid_utc PROBE_TIMESTAMP"
    by code_simp+
  moreover from this(5) have "money_ok PROBE_MONEY"
    by (auto simp: money_ok_def PROBE_MONEY_def MAX_MINOR_UNIT_EXPONENT_def MAX_ABSOLUTE_MINOR_UNITS_def)
  ultimately show ?thesis
    using q by (simp add: record_ok_def example_record_def make_InventoryRecord_def validate_quantity_def
        validate_unit_price_def amount_negative_def attributes_ok_def MAX_ITEMS_def) (simp add: PROBE_MONEY_def)
qed

theorem evidence_agrees_witness:
  "classification_of [example_record 1 ''r1''] [example_record 2 ''r1''] = FIELD_MISMATCH \<and>
   (\<exists>ds. build_field_differences (document_of (example_record 1 ''r1'')) (document_of (example_record 2 ''r1'')) = Inr ds \<and>
     ds \<noteq> [])"
  using evidence_agrees [OF example_record_ok [of 1] example_record_ok [of 2]]
  by (auto simp: example_record_def business_content_def classification_of_def)

subsection \<open>One key\<close>

text \<open>A side of the analysis: normalized records at distinct positions in order.\<close>

definition side_ok :: "NormalizedRecord list \<Rightarrow> bool" where
  "side_ok ns \<longleftrightarrow> positions_ok ns \<and> length ns \<le> MAX_SOURCE_OBSERVATIONS \<and>
     (\<forall>n \<in> set ns. 0 \<le> n_position n \<and> record_ok (n_record n) \<and> n_document n = document_of (n_record n))"

lemma side_ok_record:
  assumes "side_ok ns" "n \<in> set ns"
  shows "0 \<le> n_position n" "record_ok (n_record n)" "n_document n = document_of (n_record n)"
  using assms by (simp_all add: side_ok_def)

lemma in_of_sku: "n \<in> set (of_sku s ns) \<longleftrightarrow> n \<in> set ns \<and> n_sku n = s"
  by (auto simp: of_sku_def)

definition outcome_at :: "NormalizedRecord list \<Rightarrow> NormalizedRecord list \<Rightarrow> string \<Rightarrow> ReconciliationOutcome" where
  "outcome_at source target s = outcome_of (map n_record (of_sku s source)) (map n_record (of_sku s target))"

definition record_at ::
  "NormalizedRecord list \<Rightarrow> NormalizedRecord list \<Rightarrow> (string \<Rightarrow> SecondaryEvidence list) \<Rightarrow>
     RecordSide \<times> NormalizedRecord \<Rightarrow> RecordClassification" where
  "record_at source target secondary member =
     (let (side, n) = member in
      \<lparr>rc_side = side, rc_position = n_position n, rc_sku = n_sku n,
       rc_source_record_key = source_record_key (n_record n),
       rc_classification = classification (outcome_at source target (n_sku n)), rc_secondary = secondary (n_sku n)\<rparr>)"

definition key_at ::
  "NormalizedRecord list \<Rightarrow> NormalizedRecord list \<Rightarrow> (string \<Rightarrow> SecondaryEvidence list) \<Rightarrow>
     (string \<Rightarrow> FieldDifference list) \<Rightarrow> string \<Rightarrow> ClassifiedKey" where
  "key_at source target secondary differences s =
     \<lparr>key_outcome = outcome_at source target s, key_differences = differences s,
      key_secondary_evidence = secondary s,
      suggested_resolution = suggested_resolution_for (classification (outcome_at source target s))\<rparr>"

lemma key_differences_total:
  assumes "side_ok source" "side_ok target"
  shows "\<exists>ds. key_differences_of (match_at source target s) = Inr ds"
proof (cases "length (of_sku s source) = 1 \<and> length (of_sku s target) = 1")
  case True
  then have "hd (of_sku s source) \<in> set (of_sku s source)" "hd (of_sku s target) \<in> set (of_sku s target)"
    by (metis hd_in_set length_0_conv zero_neq_one)+
  then have "hd (of_sku s source) \<in> set source" "hd (of_sku s target) \<in> set target" by (simp_all add: in_of_sku)
  from side_ok_record [OF assms(1) this(1)] side_ok_record [OF assms(2) this(2)] True show ?thesis
    by (simp add: key_differences_of_def match_at_def document_differences)
next
  case False
  then show ?thesis by (auto simp: key_differences_of_def match_at_def)
qed

lemma classify_match_eq:
  assumes sides: "side_ok source" "side_ok target" "\<not> overfull source" "\<not> overfull target"
    and s: "s \<in> skus source \<union> skus target"
    and secondary: "key_secondary (outcome_at source target s) = Inr (secondary s)"
    and differences: "key_differences_of (match_at source target s) = Inr (differences s)"
  shows "classify_match (match_at source target s) =
    Inr (key_at source target secondary differences s,
         map (record_at source target secondary) (map (Pair SOURCE) (of_sku s source) @ map (Pair TARGET) (of_sku s target)))"
proof -
  let ?m = "match_at source target s"
  have outcome: "make_outcome (map n_record (match_source ?m)) (map n_record (match_target ?m)) = Inr (outcome_at source target s)"
    unfolding outcome_at_def match_at_def CanonicalKeyMatch.simps
  proof (rule make_outcome_eq)
    show "list_all (\<lambda>r. sku r = s) (map n_record (of_sku s source) @ map n_record (of_sku s target))"
      by (auto simp: list_all_iff of_sku_def)
    show "map n_record (of_sku s source) @ map n_record (of_sku s target) \<noteq> []"
      using s by (simp add: of_sku_Nil_iff)
    show "length (map n_record (of_sku s source)) \<le> MAX_RECORDS_PER_SIDE"
      "length (map n_record (of_sku s target)) \<le> MAX_RECORDS_PER_SIDE"
      using sides(3,4) by (simp_all add: overfull_def not_less)
  qed
  have members: "map_result (classify_member ?m (outcome_at source target s) (secondary s))
      (map (Pair SOURCE) (match_source ?m) @ map (Pair TARGET) (match_target ?m)) =
    Inr (map (record_at source target secondary) (map (Pair SOURCE) (of_sku s source) @ map (Pair TARGET) (of_sku s target)))"
    unfolding match_at_def CanonicalKeyMatch.simps
  proof (rule map_result_map)
    fix member assume "member \<in> set (map (Pair SOURCE) (of_sku s source) @ map (Pair TARGET) (of_sku s target))"
    then obtain side n where member: "member = (side, n)" and n: "n \<in> set source \<union> set target" "n_sku n = s"
      by (auto simp: in_of_sku)
    then have "0 \<le> n_position n" "record_ok (n_record n)" using side_ok_record sides(1,2) by blast+
    then show "classify_member \<lparr>match_sku = s, match_source = of_sku s source, match_target = of_sku s target\<rparr>
        (outcome_at source target s) (secondary s) member = Inr (record_at source target secondary member)"
      using n(2) record_ok_facts(1,2) [of "n_record n"]
      by (auto simp: classify_member_def make_RecordClassification_def record_at_def member)
  qed
  show ?thesis
    unfolding classify_match_def outcome bind_result.simps secondary differences make_ClassifiedKey_def members key_at_def
    by simp
qed

subsection \<open>All keys\<close>

lemma mset_of_sku:
  assumes "finite S" "skus ns \<subseteq> S"
  shows "(\<Sum>s \<in> S. mset (of_sku s ns)) = mset ns"
  using assms(2)
proof (induction ns)
  case (Cons n ns)
  have "(\<Sum>s \<in> S. mset (of_sku s (n # ns))) = (\<Sum>s \<in> S. (if s = n_sku n then {#n#} else {#}) + mset (of_sku s ns))"
    by (rule sum.cong) auto
  also have "\<dots> = {#n#} + mset ns" using Cons assms(1) by (simp add: sum.distrib)
  finally show ?case by simp
qed simp

lemma image_mset_sum_set: "finite S \<Longrightarrow> image_mset f (\<Sum>s \<in> S. g s) = (\<Sum>s \<in> S. image_mset f (g s))"
  by (induction rule: finite_induct) simp_all

text \<open>The members of all groups are the records of both sides.\<close>

definition both_sides :: "NormalizedRecord list \<Rightarrow> NormalizedRecord list \<Rightarrow> (RecordSide \<times> NormalizedRecord) list" where
  "both_sides source target = map (Pair SOURCE) source @ map (Pair TARGET) target"

lemma mset_both_sides:
  assumes "S = skus source \<union> skus target"
  shows "mset (concat (map (\<lambda>s. both_sides (of_sku s source) (of_sku s target)) (sorted_list_of_set S))) =
    mset (both_sides source target)"
proof -
  have fin: "finite S" and sub: "skus source \<subseteq> S" "skus target \<subseteq> S" by (auto simp: assms)
  have "mset (concat (map (\<lambda>s. both_sides (of_sku s source) (of_sku s target)) (sorted_list_of_set S))) =
      (\<Sum>s \<in> S. mset (both_sides (of_sku s source) (of_sku s target)))"
    using fin by (simp add: mset_concat sum_list_distinct_conv_sum_set comp_def)
  also have "\<dots> = image_mset (Pair SOURCE) (\<Sum>s \<in> S. mset (of_sku s source)) + image_mset (Pair TARGET) (\<Sum>s \<in> S. mset (of_sku s target))"
    by (simp add: both_sides_def sum.distrib image_mset_sum_set [OF fin])
  also have "\<dots> = mset (both_sides source target)"
    by (simp add: mset_of_sku [OF fin sub(1)] mset_of_sku [OF fin sub(2)] both_sides_def)
  finally show ?thesis .
qed

definition member_order :: "RecordSide \<times> NormalizedRecord \<Rightarrow> string \<times> int" where
  "member_order member = identity_order (fst member, n_position (snd member))"

lemma both_sides_ordered:
  assumes "positions_ok source" "positions_ok target"
  shows "sorted (map member_order (both_sides source target))" "distinct (map member_order (both_sides source target))"
proof -
  have order: "member_order (SOURCE, n) < member_order (TARGET, m)" for n m
    by (simp add: member_order_def identity_order_def)
  then show "sorted (map member_order (both_sides source target))"
    using assms by (auto simp: positions_ok_def both_sides_def sorted_append member_order_def identity_order_def
        sorted_wrt_map less_eq_prod_def intro: less_imp_le)
  show "distinct (map member_order (both_sides source target))"
    using assms by (auto simp: positions_ok_def both_sides_def member_order_def identity_order_def distinct_map inj_on_def)
qed

lemma sort_key_unique_sorted:
  assumes "mset xs = mset ys" "sorted (map f ys)" "distinct (map f ys)"
  shows "sort_key f xs = ys"
proof -
  have "distinct (map f xs)" using assms(1,3) by (metis mset_eq_imp_distinct_iff mset_map)
  then have "sort_key f xs = sort_key f ys" using assms(3) mset_eq_setD [OF assms(1)] by (rule sort_key_unique)
  also have "\<dots> = ys" using assms(2) by (rule sort_key_id_if_sorted)
  finally show ?thesis .
qed

lemma record_at_identity: "record_identity (record_at source target secondary member) = (fst member, n_position (snd member))"
  by (simp add: record_identity_def record_at_def split_def)

lemma record_at_order:
  "(\<lambda>r. identity_order (record_identity r)) \<circ> record_at source target secondary = member_order"
  by (simp add: fun_eq_iff record_at_identity member_order_def)

text \<open>The result of classification, given the evidence of each key.\<close>

definition result_of ::
  "NormalizedRecord list \<Rightarrow> NormalizedRecord list \<Rightarrow> (string \<Rightarrow> SecondaryEvidence list) \<Rightarrow>
     (string \<Rightarrow> FieldDifference list) \<Rightarrow> ClassificationResult" where
  "result_of source target secondary differences =
     \<lparr>classified_keys = map (key_at source target secondary differences) (sorted_list_of_set (skus source \<union> skus target)),
      classified_records = map (record_at source target secondary) (both_sides source target)\<rparr>"

lemma outcome_at_sku:
  assumes "s \<in> skus source \<union> skus target"
  shows "outcome_sku (outcome_at source target s) = s"
proof -
  let ?rs = "of_sku s source @ of_sku s target"
  have "?rs \<noteq> []" using assms by (simp add: of_sku_Nil_iff)
  then have "hd ?rs \<in> set ?rs" by (rule hd_in_set)
  then have "n_sku (hd ?rs) = s" by (auto simp: in_of_sku)
  with \<open>?rs \<noteq> []\<close> show ?thesis
    by (simp add: outcome_at_def outcome_of_def hd_map flip: map_append)
qed

lemma key_at_sku: "s \<in> skus source \<union> skus target \<Longrightarrow> key_sku (key_at source target secondary differences s) = s"
  by (simp add: key_at_def outcome_at_sku)

lemma result_of_skus:
  "map key_sku (classified_keys (result_of source target secondary differences)) =
     sorted_list_of_set (skus source \<union> skus target)"
  unfolding result_of_def ClassificationResult.simps map_map by (rule map_idI) (simp add: key_at_sku)

lemma result_of_lookup:
  assumes "s \<in> skus source \<union> skus target"
  shows "map_of (map (\<lambda>k. (key_sku k, k)) (classified_keys (result_of source target secondary differences))) s =
    Some (key_at source target secondary differences s)"
proof -
  let ?L = "sorted_list_of_set (skus source \<union> skus target)"
  have "map (\<lambda>k. (key_sku k, k)) (classified_keys (result_of source target secondary differences)) =
      map (\<lambda>s. (s, key_at source target secondary differences s)) ?L"
    by (simp add: result_of_def key_at_sku)
  with assms show ?thesis by (simp add: map_of_map_restrict restrict_map_def)
qed

lemma check_result_record:
  assumes keys: "well_keyed by_sku" "\<And>s. s \<in> skus source \<union> skus target \<Longrightarrow>
      map_of by_sku s = Some (key_at source target secondary differences s)"
    and member: "member \<in> set (both_sides source target)"
  shows "check_classified_record by_sku (record_at source target secondary member) = Inr ()"
proof -
  obtain side n where m: "member = (side, n)" by fastforce
  let ?s = "n_sku n" and ?o = "outcome_at source target (n_sku n)"
  have n: "n \<in> set (if side = SOURCE then source else target)" using member by (auto simp: m both_sides_def)
  then have s: "?s \<in> skus source \<union> skus target" by (auto simp: skus_def split: if_splits)
  have records: "set (if side = SOURCE then source_records ?o else target_records ?o) =
      n_record ` set (of_sku ?s (if side = SOURCE then source else target))"
    by (simp add: outcome_at_def outcome_of_def)
  moreover have "n_record n \<in> n_record ` set (of_sku ?s (if side = SOURCE then source else target))"
    using n by (auto simp: in_of_sku)
  ultimately have "list_ex (\<lambda>r. sku r = ?s \<and> source_record_key r = source_record_key (n_record n))
      (if side = SOURCE then source_records ?o else target_records ?o)"
    unfolding list_ex_iff by (metis (no_types, lifting))
  then show ?thesis
    unfolding check_classified_record_def m record_at_def prod.case RecordClassification.simps keys(2) [OF s] option.case
      key_at_def ClassifiedKey.simps Let_def
    by simp
qed

lemma make_ClassificationResult_eq:
  assumes "positions_ok source" "positions_ok target"
  shows "make_ClassificationResult (result_of source target secondary differences) =
    Inr (result_of source target secondary differences)"
proof -
  let ?S = "skus source \<union> skus target" and ?K = "key_at source target secondary differences"
    and ?B = "both_sides source target" and ?r = "result_of source target secondary differences"
  let ?L = "sorted_list_of_set ?S"
  note skus = result_of_skus [of source target secondary differences]
  have ids: "map (\<lambda>r. (rc_side r, rc_position r)) (classified_records ?r) = map (\<lambda>m. (fst m, n_position (snd m))) ?B"
    by (simp add: result_of_def record_at_def split_def)
  have ordered: "sorted (map identity_order (map (\<lambda>m. (fst m, n_position (snd m))) ?B))"
    "distinct (map identity_order (map (\<lambda>m. (fst m, n_position (snd m))) ?B))"
    using both_sides_ordered [OF assms] by (simp_all add: member_order_def [abs_def] comp_def)
  note keyed = result_of_lookup [of _ source target secondary differences]
  have count: "sum_list (map (\<lambda>k. length (source_records (key_outcome k)) + length (target_records (key_outcome k)))
      (classified_keys ?r)) = length (classified_records ?r)"
  proof -
    have "sum_list (map (\<lambda>k. length (source_records (key_outcome k)) + length (target_records (key_outcome k))) (classified_keys ?r)) =
        length (concat (map (\<lambda>s. both_sides (of_sku s source) (of_sku s target)) ?L))"
      by (simp add: result_of_def key_at_def outcome_at_def outcome_of_def both_sides_def length_concat comp_def)
    also have "\<dots> = length ?B" using mset_eq_length [OF mset_both_sides [OF refl]] .
    finally show ?thesis by (simp add: result_of_def)
  qed
  have checks: "\<forall>r \<in> set (classified_records ?r).
      check_classified_record (map (\<lambda>k. (key_sku k, k)) (classified_keys ?r)) r = Inr ()"
    using check_result_record [OF _ keyed] skus by (auto simp: result_of_def comp_def)
  let ?ids = "map (\<lambda>m. (fst m, n_position (snd m))) ?B"
  have "?L = sort ?L" "card (set ?L) = length ?L" by (simp_all add: sorted_sort_id)
  moreover have "?ids = sort_key identity_order ?ids" using ordered(1) by (simp only: sort_key_id_if_sorted)
  moreover have "card (set ?ids) = length ?ids" using ordered(2) by (intro distinct_card) (simp only: distinct_map)
  moreover have "check_all (check_classified_record (map (\<lambda>k. (key_sku k, k)) (classified_keys ?r)))
      (classified_records ?r) = Inr ()"
    using checks by (simp only: check_all_eq_Inr)
  ultimately show ?thesis
    unfolding make_ClassificationResult_def skus ids count Let_def by (simp only: simp_thms require_True bind_result.simps)
qed

lemma card_skus_le: "side_ok source \<Longrightarrow> side_ok target \<Longrightarrow> card (skus source \<union> skus target) \<le> MAX_MATCHED_KEYS"
proof -
  assume sides: "side_ok source" "side_ok target"
  have "card (skus source \<union> skus target) \<le> card (skus source) + card (skus target)" by (rule card_Un_le)
  also have "\<dots> \<le> length source + length target"
    unfolding skus_def by (intro add_mono order_trans [OF card_image_le card_length]) simp_all
  finally show ?thesis using sides by (simp add: side_ok_def MAX_MATCHED_KEYS_def)
qed

lemma match_sides_ok:
  assumes "side_ok source" "side_ok target"
  shows "match_by_canonical_key source target =
    (if overfull source \<or> overfull target
     then Inl (MatchingError ''matching exceeds the per-side duplicate record limit'')
     else Inr (matches_of source target))"
proof (rule match_by_canonical_key_eq)
  show "positions_ok source" "positions_ok target" using assms by (simp_all add: side_ok_def)
  have "n_sku n \<noteq> []" if "n \<in> set source \<union> set target" for n
    using that side_ok_record(2) [OF assms(1)] side_ok_record(2) [OF assms(2)] record_ok_facts(1) by blast
  then show "[] \<notin> skus source \<union> skus target" unfolding skus_def by force
  show "card (skus source \<union> skus target) \<le> MAX_MATCHED_KEYS" using assms by (rule card_skus_le)
qed

lemma pair_evidence_total:
  assumes "side_ok source" "side_ok target" "\<not> overfull source" "\<not> overfull target"
  obtains secondary differences where
    "\<And>s. s \<in> skus source \<union> skus target \<Longrightarrow> key_secondary (outcome_at source target s) = Inr (secondary s)"
    "\<And>s. key_differences_of (match_at source target s) = Inr (differences s)"
proof -
  have "\<exists>secondary. key_secondary (outcome_at source target s) = Inr secondary" for s
    unfolding outcome_at_def
  proof (rule key_secondary_total)
    show "\<forall>r \<in> set (map n_record (of_sku s source) @ map n_record (of_sku s target)). record_ok r"
      using side_ok_record(2) [OF assms(1)] side_ok_record(2) [OF assms(2)] by (auto simp: of_sku_def)
  qed (use assms(3,4) in \<open>simp_all add: overfull_def not_less\<close>)
  then obtain secondary where "\<And>s. key_secondary (outcome_at source target s) = Inr (secondary s)" by metis
  moreover obtain differences where "\<And>s. key_differences_of (match_at source target s) = Inr (differences s)"
    using key_differences_total [OF assms(1,2)] by metis
  ultimately show thesis using that by blast
qed

lemma classify_matches_eq:
  assumes "side_ok source" "side_ok target" "\<not> overfull source" "\<not> overfull target"
    and secondary: "\<And>s. s \<in> skus source \<union> skus target \<Longrightarrow> key_secondary (outcome_at source target s) = Inr (secondary s)"
    and differences: "\<And>s. key_differences_of (match_at source target s) = Inr (differences s)"
  shows "classify_matches (matches_of source target) = Inr (result_of source target secondary differences)"
proof -
  let ?L = "sorted_list_of_set (skus source \<union> skus target)"
  let ?group = "\<lambda>s. both_sides (of_sku s source) (of_sku s target)"
  let ?R = "record_at source target secondary"
  have "map_result classify_match (matches_of source target) =
      Inr (map (\<lambda>s. (key_at source target secondary differences s, map ?R (?group s))) ?L)"
  proof -
    have "classify_match (match_at source target s) = Inr (key_at source target secondary differences s, map ?R (?group s))"
      if "s \<in> set ?L" for s
      using that classify_match_eq [where secondary = secondary and differences = differences,
        OF assms(1-4) _ secondary differences] by (simp add: both_sides_def)
    then have "map_result (\<lambda>s. classify_match (match_at source target s)) ?L =
        Inr (map (\<lambda>s. (key_at source target secondary differences s, map ?R (?group s))) ?L)"
      by (rule map_result_map)
    moreover have "map_result classify_match (map (match_at source target) xs) =
        map_result (\<lambda>s. classify_match (match_at source target s)) xs" for xs
      by (induction xs) simp_all
    ultimately show ?thesis by (simp add: matches_of_def)
  qed
  moreover have "sort_key (\<lambda>r. identity_order (record_identity r)) (concat (map (\<lambda>s. map ?R (?group s)) ?L)) =
      map ?R (both_sides source target)"
  proof (rule sort_key_unique_sorted)
    have "concat (map (\<lambda>s. map ?R (?group s)) ?L) = map ?R (concat (map ?group ?L))"
      by (simp add: map_concat comp_def)
    then show "mset (concat (map (\<lambda>s. map ?R (?group s)) ?L)) = mset (map ?R (both_sides source target))"
      using mset_both_sides [OF refl, of source target] by simp
    show "sorted (map (\<lambda>r. identity_order (record_identity r)) (map ?R (both_sides source target)))"
      "distinct (map (\<lambda>r. identity_order (record_identity r)) (map ?R (both_sides source target)))"
      using both_sides_ordered [of source target] assms(1,2)
      unfolding map_map record_at_order by (simp_all add: side_ok_def)
  qed
  ultimately show ?thesis
    using make_ClassificationResult_eq [of source target secondary differences] assms(1,2)
    by (simp add: classify_matches_def classify_loop_eq comp_def side_ok_def) (simp add: result_of_def comp_def)
qed

text \<open>
  C3.  Matching and classifying two sides of normalized records either reports that some SKU has more than 1024
  records on a side, or succeeds, whatever the records: no check of any constructor fires.  Then every SKU of
  either side is classified once, in order, every record appears exactly once, in side and position order, and the
  one classification of a key and of each of its records is determined by the records both sides hold for
  the SKU: present on one side only, equal or different in business content, or duplicated.
\<close>

theorem classification_exact:
  assumes "side_ok source" "side_ok target"
  shows "if overfull source \<or> overfull target
    then bind_result (match_by_canonical_key source target) classify_matches =
      Inl (MatchingError ''matching exceeds the per-side duplicate record limit'')
    else \<exists>result. bind_result (match_by_canonical_key source target) classify_matches = Inr result \<and>
      map key_sku (classified_keys result) = sorted_list_of_set (skus source \<union> skus target) \<and>
      map (\<lambda>k. classification (key_outcome k)) (classified_keys result) =
        map (\<lambda>s. classification_of (map n_record (of_sku s source)) (map n_record (of_sku s target)))
          (sorted_list_of_set (skus source \<union> skus target)) \<and>
      map (\<lambda>r. (record_identity r, rc_sku r, rc_source_record_key r)) (classified_records result) =
        map (\<lambda>n. ((SOURCE, n_position n), n_sku n, source_record_key (n_record n))) source @
        map (\<lambda>n. ((TARGET, n_position n), n_sku n, source_record_key (n_record n))) target \<and>
      map rc_classification (classified_records result) =
        map (\<lambda>n. classification_of (map n_record (of_sku (n_sku n) source)) (map n_record (of_sku (n_sku n) target)))
          (source @ target)"
proof (cases "overfull source \<or> overfull target")
  case True
  then show ?thesis by (simp add: match_sides_ok [OF assms])
next
  case False
  then have full: "\<not> overfull source" "\<not> overfull target" by simp_all
  from pair_evidence_total [OF assms full] obtain secondary differences where evidence:
    "\<And>s. s \<in> skus source \<union> skus target \<Longrightarrow> key_secondary (outcome_at source target s) = Inr (secondary s)"
    "\<And>s. key_differences_of (match_at source target s) = Inr (differences s)" by blast
  let ?r = "result_of source target secondary differences"
  have "bind_result (match_by_canonical_key source target) classify_matches = Inr ?r"
    using classify_matches_eq [OF assms full evidence] False by (simp add: match_sides_ok [OF assms])
  moreover have "map key_sku (classified_keys ?r) = sorted_list_of_set (skus source \<union> skus target)"
    by (rule result_of_skus)
  ultimately show ?thesis
    using False by (auto simp: result_of_def both_sides_def record_at_def key_at_def record_identity_def outcome_at_def
        outcome_of_def)
qed

text \<open>A SKU the source holds twice and the target once.\<close>

definition example_normalized :: "int \<Rightarrow> InventoryRecord \<Rightarrow> NormalizedRecord" where
  "example_normalized p r = \<lparr>n_position = p, n_record = r, n_document = document_of r\<rparr>"

definition example_sources :: "NormalizedRecord list" where
  "example_sources = [example_normalized 0 (example_record 1 ''r1''), example_normalized 3 (example_record 2 ''r1'')]"

definition example_targets :: "NormalizedRecord list" where
  "example_targets = [example_normalized 1 (example_record 1 ''r1'')]"

lemma example_sides_ok: "side_ok example_sources" "side_ok example_targets"
  using example_record_ok [of 1] example_record_ok [of 2]
  by (simp_all add: side_ok_def positions_ok_def example_sources_def example_targets_def example_normalized_def
      MAX_SOURCE_OBSERVATIONS_def)

lemma example_not_overfull: "\<not> overfull example_sources" "\<not> overfull example_targets"
  by (auto simp: overfull_def example_sources_def example_targets_def of_sku_def MAX_RECORDS_PER_SIDE_def not_less)

theorem classification_exact_witness:
  "\<exists>result. bind_result (match_by_canonical_key example_sources example_targets) classify_matches = Inr result \<and>
     map rc_classification (classified_records result) = [DUPLICATE_SOURCE, DUPLICATE_SOURCE, DUPLICATE_SOURCE]"
proof -
  have "map (\<lambda>n. classification_of (map n_record (of_sku (n_sku n) example_sources))
      (map n_record (of_sku (n_sku n) example_targets))) (example_sources @ example_targets) =
    [DUPLICATE_SOURCE, DUPLICATE_SOURCE, DUPLICATE_SOURCE]"
    by (simp add: example_sources_def example_targets_def example_normalized_def example_record_def classification_of_def)
  with classification_exact [OF example_sides_ok] example_not_overfull show ?thesis by auto
qed

end
