(* ===== verification/Canonical_Properties.thy ===== *)
theory Canonical_Properties
  imports Canonical Classification_Properties
begin

text \<open>
  The canonical encoding tells values apart, and a fingerprint depends on the multiset of its values only and
  determines it unless the digest collides on the bytes at hand.
\<close>

subsection \<open>Primitives are plain\<close>

lemma plain_dictI:
  "map fst kvs = ks \<Longrightarrow> sorted ks \<and> distinct ks \<Longrightarrow> \<forall>v \<in> set (map snd kvs). plain v \<Longrightarrow> plain (JDict kvs)"
  by (auto simp: list_all_iff)

lemma plain_texts [simp]: "plain (JList (map f xs)) \<longleftrightarrow> (\<forall>x \<in> set xs. plain (f x))"
  by (simp add: list_all_iff)

lemma money_plain [simp]: "plain (money_primitive m)"
  unfolding money_primitive_def
  by (rule plain_dictI [where ks = "[''currency'', ''minor_unit_exponent'', ''minor_units'']"]) (simp, code_simp, simp)

lemma attributes_plain [simp]: "plain (attributes_primitive items)"
  by (auto simp: attributes_primitive_def list_all_iff)

lemma record_plain [simp]: "plain (inventory_record_primitive r)"
  unfolding inventory_record_primitive_def
  by (rule plain_dictI [where ks = "[''attributes'', ''connector_id'', ''name'', ''quantity'', ''sku'',
        ''source_record_key'', ''unit_price'', ''updated_at'']"]) (simp, code_simp, simp)

lemma effect_plain [simp]: "plain (inventory_effect_primitive r)"
  unfolding inventory_effect_primitive_def
  by (rule plain_dictI [where ks = "[''attributes'', ''name'', ''quantity'', ''sku'', ''unit_price'', ''updated_at'']"])
    (simp, code_simp, simp)

lemma node_plain [simp]: "plain (pipeline_node_primitive n)"
  unfolding pipeline_node_primitive_def
  by (rule plain_dictI [where ks = "[''id'', ''inputs'', ''kind'', ''outputs'']"]) (simp, code_simp, simp add: list_all_iff)

lemma edge_plain [simp]: "plain (pipeline_edge_primitive e)"
proof -
  have "plain (JDict [(''node_id'', JText a), (''port'', JText b)])" for a b
    by (rule plain_dictI [where ks = "[''node_id'', ''port'']"]) (simp, code_simp, simp)
  moreover have "sorted [''source'', ''target''] \<and> distinct [''source'', ''target'']" by code_simp
  ultimately show ?thesis unfolding pipeline_edge_primitive_def by (intro plain_dictI [OF refl]) simp_all
qed

lemma comparable_plain [simp]: "plain (comparable_primitive v)"
  by (cases v) simp_all

lemma mismatch_plain [simp]: "plain (field_mismatch_primitive m)"
  unfolding field_mismatch_primitive_def
  by (rule plain_dictI [where ks = "[''field'', ''source'', ''target'']"]) (simp, code_simp, simp)

lemma outcome_plain [simp]: "plain (outcome_primitive outcome)"
  unfolding outcome_primitive_def
  by (rule plain_dictI [where ks = "[''classification'', ''mismatches'', ''sku'', ''source_records'', ''target_records'']"])
    (simp, code_simp, simp add: list_all_iff)

lemma action_plain [simp]: "plain (repair_action_primitive a True True True)" "plain (repair_action_primitive a False False False)"
proof -
  show "plain (repair_action_primitive a True True True)"
    unfolding repair_action_primitive_def Let_def
    by (rule plain_dictI [where ks = "[''action_id'', ''conflict_id'', ''expected_target_record'', ''kind'', ''mismatches'',
          ''proposed_record'', ''state_fingerprint'']"])
      (simp, code_simp, simp add: list_all_iff split: option.split)
  show "plain (repair_action_primitive a False False False)"
    unfolding repair_action_primitive_def Let_def
    by (rule plain_dictI [where ks = "[''expected_target_record'', ''kind'', ''mismatches'', ''proposed_record'']"])
      (simp, code_simp, simp add: list_all_iff split: option.split)
qed

lemma plan_plain [simp]: "plain (repair_plan_primitive p)"
  unfolding repair_plan_primitive_def
  by (rule plain_dictI [where ks = "[''actions'', ''plan_id'', ''state_fingerprint'']"])
    (simp, code_simp, simp add: list_all_iff)

lemma binding_plain [simp]: "plain (binding_primitive b)"
  unfolding binding_primitive_def
  by (rule plain_dictI [where ks = "[''action_count'', ''analysis_version'', ''analytical_query_version'',
        ''generation_version'', ''policy_version'', ''reconciliation_fingerprint'', ''rules_version'', ''run_id'',
        ''source_input_identity'', ''target_input_identity'']"]) (simp, code_simp, simp)

lemma plan_content_plain [simp]: "plain (repair_plan_content_primitive p)"
proof -
  have "sorted [''actions'', ''binding'', ''state_fingerprint''] \<and> distinct [''actions'', ''binding'', ''state_fingerprint'']"
    "sorted [''actions'', ''state_fingerprint''] \<and> distinct [''actions'', ''state_fingerprint'']"
    by code_simp+
  then show ?thesis
    unfolding repair_plan_content_primitive_def
    by (intro plain_dictI [OF refl]) (auto simp: list_all_iff split: option.split)
qed

lemma adapter_plain: "canonical_adapter v = Some (tag, primitive) \<Longrightarrow> plain primitive"
  by (cases v) auto

lemma envelope_inj:
  assumes "plain v" "plain w" "encode_envelope tag v = encode_envelope tag' w"
  shows "tag = tag' \<and> v = w"
proof -
  have "plain (JDict [(''format'', JText ''paritygrid-canonical''), (''type'', JText t), (''value'', x), (''version'', JInt 1)])"
    if "plain x" for t x
    using that by (intro plain_dictI [where ks = "[''format'', ''type'', ''value'', ''version'']"]) (simp, code_simp, simp)
  from json_dumps_inj [OF this [OF assms(1)] this [OF assms(2)] assms(3) [unfolded encode_envelope_def]]
  show ?thesis by simp
qed

subsection \<open>Primitives determine their values\<close>

lemma money_primitive_inj: "money_ok m \<Longrightarrow> money_ok m' \<Longrightarrow> money_primitive m = money_primitive m' \<longleftrightarrow> m = m'"
  using minor_units_inj [of m m'] by (auto simp: money_primitive_def)

lemma utc_str_inj: "valid_utc t \<Longrightarrow> valid_utc t' \<Longrightarrow> utc_str t = utc_str t' \<longleftrightarrow> t = t'"
  by (metis utc_parse_str sum.inject(2))

lemma attributes_primitive_inj: "attributes_primitive a = attributes_primitive b \<longleftrightarrow> a = b"
  unfolding attributes_primitive_def json.inject by (rule inj_map_eq_map) (auto simp: inj_def)

text \<open>Values as their constructors build them.\<close>

definition observed_ok :: "InventoryRecord \<Rightarrow> bool" where
  "observed_ok r \<longleftrightarrow> money_ok (unit_price r) \<and> valid_utc (updated_at r) \<and> id_kind_of (connector_id r) = ConnectorId"

fun comparable_ok :: "ComparableInventoryValue \<Rightarrow> bool" where
  "comparable_ok (Money_Value m) = money_ok m"
| "comparable_ok (Timestamp_Value t) = valid_utc t"
| "comparable_ok v = True"

definition mismatch_ok :: "FieldMismatch \<Rightarrow> bool" where
  "mismatch_ok m \<longleftrightarrow> is_exact_value_type (source_value m) (mismatch_field m) \<and> comparable_ok (source_value m) \<and>
     is_exact_value_type (target_value m) (mismatch_field m) \<and> comparable_ok (target_value m)"

definition outcome_ok :: "ReconciliationOutcome \<Rightarrow> bool" where
  "outcome_ok outcome \<longleftrightarrow> list_all mismatch_ok (mismatches outcome) \<and>
     list_all observed_ok (source_records outcome) \<and> list_all observed_ok (target_records outcome)"

definition action_ok :: "RepairAction \<Rightarrow> bool" where
  "action_ok a \<longleftrightarrow> id_kind_of (action_id a) = RepairActionId \<and> id_kind_of (conflict_id a) = ConflictId \<and>
     observed_ok (proposed_record a) \<and> list_all mismatch_ok (action_mismatches a) \<and>
     (\<forall>r. expected_target_record a = Some r \<longrightarrow> observed_ok r)"

lemma id_eqI: "id_kind_of i = id_kind_of j \<Longrightarrow> id_value i = id_value j \<Longrightarrow> i = j"
  by (cases i; cases j) simp

lemma record_primitive_inj:
  assumes "observed_ok r" "observed_ok r'" "inventory_record_primitive r = inventory_record_primitive r'"
  shows "r = r'"
  using assms
  by (intro InventoryRecord.equality)
    (auto simp: inventory_record_primitive_def observed_ok_def money_primitive_inj utc_str_inj attributes_primitive_inj
      intro: id_eqI)

lemma enum_inj:
  "ReconciliationField_value f = ReconciliationField_value f' \<longleftrightarrow> f = f'"
  "ReconciliationClassification_value c = ReconciliationClassification_value c' \<longleftrightarrow> c = c'"
  "RepairActionKind_value k = RepairActionKind_value k' \<longleftrightarrow> k = k'"
  by ((cases f; cases f'; simp), (cases c; cases c'; simp), (cases k; cases k'; simp))

lemma comparable_primitive_inj:
  "comparable_ok v \<Longrightarrow> comparable_ok w \<Longrightarrow> is_exact_value_type v f \<Longrightarrow> is_exact_value_type w f \<Longrightarrow>
     comparable_primitive v = comparable_primitive w \<longleftrightarrow> v = w"
  by (cases v; cases w) (auto simp: money_primitive_inj utc_str_inj attributes_primitive_inj)

lemma mismatch_primitive_inj:
  assumes "mismatch_ok m" "mismatch_ok m'" "field_mismatch_primitive m = field_mismatch_primitive m'"
  shows "m = m'"
proof -
  have f: "mismatch_field m = mismatch_field m'"
    using assms(3) by (simp add: field_mismatch_primitive_def enum_inj)
  then show ?thesis
    using assms comparable_primitive_inj [of "source_value m" "source_value m'" "mismatch_field m"]
      comparable_primitive_inj [of "target_value m" "target_value m'" "mismatch_field m"]
    by (intro FieldMismatch.equality) (simp_all add: field_mismatch_primitive_def mismatch_ok_def)
qed

lemma map_inj_eqI:
  assumes "\<And>x y. P x \<Longrightarrow> P y \<Longrightarrow> f x = f y \<Longrightarrow> x = y" "list_all P xs" "list_all P ys" "map f xs = map f ys"
  shows "xs = ys"
  using assms(2-4)
proof (induction xs arbitrary: ys)
  case (Cons x xs)
  then show ?case using assms(1) by (cases ys) auto
qed simp

lemma outcome_primitive_inj:
  assumes "outcome_ok outcome" "outcome_ok outcome'" "outcome_primitive outcome = outcome_primitive outcome'"
  shows "outcome = outcome'"
proof (rule ReconciliationOutcome.equality)
  note eq = assms(3) [unfolded outcome_primitive_def json.inject list.inject prod.inject]
  show "classification outcome = classification outcome'" "outcome_sku outcome = outcome_sku outcome'"
    using eq by (simp_all add: enum_inj)
  show "source_records outcome = source_records outcome'"
    by (rule map_inj_eqI [of observed_ok inventory_record_primitive]) (use eq assms(1,2) record_primitive_inj in \<open>simp_all add: outcome_ok_def\<close>)
  show "target_records outcome = target_records outcome'"
    by (rule map_inj_eqI [of observed_ok inventory_record_primitive]) (use eq assms(1,2) record_primitive_inj in \<open>simp_all add: outcome_ok_def\<close>)
  show "mismatches outcome = mismatches outcome'"
    by (rule map_inj_eqI [of mismatch_ok field_mismatch_primitive]) (use eq assms(1,2) mismatch_primitive_inj in \<open>simp_all add: outcome_ok_def\<close>)
qed simp

lemma record_primitive_not_null: "inventory_record_primitive r \<noteq> JNull" "JNull \<noteq> inventory_record_primitive r"
  by (simp_all add: inventory_record_primitive_def)

lemma action_primitive_inj:
  assumes "action_ok a" "action_ok b" "repair_action_primitive a True True True = repair_action_primitive b True True True"
  shows "a = b"
proof (rule RepairAction.equality)
  note eq = assms(3) [unfolded repair_action_primitive_def Let_def if_True append.simps json.inject list.inject prod.inject]
  show "action_id a = action_id b" "conflict_id a = conflict_id b"
    using eq assms(1,2) by (auto simp: action_ok_def intro: id_eqI)
  show "action_fingerprint a = action_fingerprint b" "action_kind a = action_kind b"
    using eq by (simp_all add: enum_inj)
  show "proposed_record a = proposed_record b"
    using eq assms(1,2) record_primitive_inj by (simp add: action_ok_def)
  show "expected_target_record a = expected_target_record b"
    using eq assms(1,2) record_primitive_inj
    by (auto simp: action_ok_def record_primitive_not_null split: option.splits)
  show "action_mismatches a = action_mismatches b"
    by (rule map_inj_eqI [of mismatch_ok field_mismatch_primitive]) (use eq assms(1,2) mismatch_primitive_inj in \<open>simp_all add: action_ok_def\<close>)
qed simp

text \<open>The values as their constructors accept them.\<close>

fun value_ok :: "canonical_value \<Rightarrow> bool" where
  "value_ok (V_UtcTimestamp t) = valid_utc t"
| "value_ok (V_Money m) = money_ok m"
| "value_ok (V_InventoryRecord r) = observed_ok r"
| "value_ok (V_FieldMismatch m) = mismatch_ok m"
| "value_ok (V_ReconciliationOutcome outcome) = outcome_ok outcome"
| "value_ok (V_RepairAction a) = action_ok a"
| "value_ok (V_RepairPlan p) =
     (id_kind_of (plan_id p) = RepairPlanId \<and> list_all action_ok (plan_actions p))"
| "value_ok v = True"

text \<open>The encoding of a plan leaves out its binding, which only the content encoding holds.\<close>

fun without_binding :: "canonical_value \<Rightarrow> canonical_value" where
  "without_binding (V_RepairPlan p) = V_RepairPlan (p\<lparr>plan_binding := None\<rparr>)"
| "without_binding v = v"

lemma adapter_without_binding: "canonical_adapter (without_binding v) = canonical_adapter v"
  by (cases v) (simp_all add: repair_plan_primitive_def)

lemma plan_primitive_inj:
  assumes "value_ok (V_RepairPlan p)" "value_ok (V_RepairPlan q)"
  shows "repair_plan_primitive p = repair_plan_primitive q \<longleftrightarrow> p\<lparr>plan_binding := None\<rparr> = q\<lparr>plan_binding := None\<rparr>"
proof
  assume "repair_plan_primitive p = repair_plan_primitive q"
  note eq = this [unfolded repair_plan_primitive_def json.inject list.inject prod.inject]
  have "plan_id p = plan_id q" using eq assms by (auto intro: id_eqI)
  moreover have "plan_fingerprint p = plan_fingerprint q" using eq by simp
  moreover have "plan_actions p = plan_actions q"
    by (rule map_inj_eqI [of action_ok "\<lambda>a. repair_action_primitive a True True True"])
      (use eq assms action_primitive_inj in simp_all)
  ultimately show "p\<lparr>plan_binding := None\<rparr> = q\<lparr>plan_binding := None\<rparr>" by (intro RepairPlan.equality) simp_all
next
  assume "p\<lparr>plan_binding := None\<rparr> = q\<lparr>plan_binding := None\<rparr>"
  then have "plan_id p = plan_id q" "plan_fingerprint p = plan_fingerprint q" "plan_actions p = plan_actions q"
    by (cases p; cases q; simp)+
  then show "repair_plan_primitive p = repair_plan_primitive q" by (simp add: repair_plan_primitive_def)
qed

lemma node_primitive_inj: "pipeline_node_primitive n = pipeline_node_primitive n' \<longleftrightarrow> n = n'"
  by (auto simp: pipeline_node_primitive_def inj_map_eq_map inj_def intro: PipelineNode.equality)

lemma edge_primitive_inj: "pipeline_edge_primitive e = pipeline_edge_primitive e' \<longleftrightarrow> e = e'"
  by (auto simp: pipeline_edge_primitive_def intro: PipelineEdge.equality)

lemma state_enum_inj:
  "RunState_value s = RunState_value s' \<longleftrightarrow> s = s'" "WorkItemState_value w = WorkItemState_value w' \<longleftrightarrow> w = w'"
  "FailureDisposition_value d = FailureDisposition_value d' \<longleftrightarrow> d = d'"
  "FailureClassification_value c = FailureClassification_value c' \<longleftrightarrow> c = c'"
  by ((cases s; cases s'; simp), (cases w; cases w'; simp), (cases d; cases d'; simp), (cases c; cases c'; simp))

text \<open>The tag tells the types apart.\<close>

fun type_tag :: "canonical_value \<Rightarrow> nat" where
  "type_tag (V_Identifier i) = 0" | "type_tag (V_PipelineVersion n) = 1" | "type_tag (V_AttemptNumber n) = 2"
| "type_tag (V_UtcTimestamp t) = 3" | "type_tag (V_Duration d) = 4" | "type_tag (V_CurrencyCode c) = 5"
| "type_tag (V_Money m) = 6" | "type_tag (V_InventoryAttributes a) = 7" | "type_tag (V_InventoryRecord r) = 8"
| "type_tag (V_StateFingerprint f) = 9" | "type_tag (V_NodeKind t) = 10" | "type_tag (V_PortName t) = 11"
| "type_tag (V_PartitionKey t) = 12" | "type_tag (V_PipelineNode n) = 13" | "type_tag (V_PipelineEdge e) = 14"
| "type_tag (V_RunState s) = 15" | "type_tag (V_WorkItemState w) = 16" | "type_tag (V_FailureClassification k) = 17"
| "type_tag (V_FailureDisposition d) = 18" | "type_tag (V_ReconciliationClassification k) = 19"
| "type_tag (V_ReconciliationField f) = 20" | "type_tag (V_FieldMismatch m) = 21"
| "type_tag (V_ReconciliationOutcome x) = 22" | "type_tag (V_RepairActionKind k) = 23"
| "type_tag (V_RepairAction a) = 24" | "type_tag (V_RepairPlan p) = 25"

definition TAGS :: "string list list" where
  "TAGS =
     [[''pipeline-id'', ''node-id'', ''connector-id'', ''run-id'', ''work-item-id'', ''artifact-id'', ''conflict-id'',
       ''repair-plan-id'', ''repair-action-id''],
      [''pipeline-version''], [''attempt-number''], [''utc-timestamp''], [''duration''], [''currency-code''],
      [''money''], [''inventory-attributes''], [''inventory-record''], [''state-fingerprint''], [''node-kind''],
      [''port-name''], [''partition-key''], [''pipeline-node''], [''pipeline-edge''], [''run-state''],
      [''work-item-state''], [''failure-classification''], [''failure-disposition''],
      [''reconciliation-classification''], [''reconciliation-field''], [''field-mismatch''],
      [''reconciliation-outcome''], [''repair-action-kind''], [''repair-action''], [''repair-plan'']]"

lemma identifier_tag_in: "identifier_tag k = Some tag \<Longrightarrow> tag \<in> set (hd TAGS)"
  by (cases k) (auto simp: TAGS_def)

lemma adapter_tag:
  assumes "canonical_adapter v = Some (tag, primitive)"
  shows "type_tag v < length TAGS \<and> tag \<in> set (TAGS ! type_tag v)"
proof (cases v)
  case (V_Identifier i)
  with assms identifier_tag_in [of "id_kind_of i" tag] show ?thesis by (auto simp: TAGS_def)
qed (use assms in \<open>simp_all add: TAGS_def\<close>)

lemma concat_distinct_index:
  assumes "distinct (concat xss)" "i < length xss" "j < length xss" "x \<in> set (xss ! i)" "x \<in> set (xss ! j)"
  shows "i = j"
  using assms
proof (induction xss arbitrary: i j)
  case (Cons xs xss)
  then show ?case by (cases i; cases j) (auto simp: disjoint_iff dest: nth_mem)
qed simp

lemma TAGS_distinct: "distinct (concat TAGS)"
  unfolding TAGS_def by code_simp

lemma adapter_inj:
  assumes "value_ok v" "value_ok w" "canonical_adapter v = Some (tag, primitive)" "canonical_adapter w = Some (tag, primitive)"
  shows "without_binding v = without_binding w"
proof -
  have "type_tag v = type_tag w"
    by (rule concat_distinct_index [OF TAGS_distinct]) (use adapter_tag [OF assms(3)] adapter_tag [OF assms(4)] in auto)
  moreover have "canonical_adapter v = canonical_adapter w" "canonical_adapter w \<noteq> None" using assms(3,4) by simp_all
  moreover have "i = j" if "canonical_adapter (V_Identifier i) = canonical_adapter (V_Identifier j)"
    "canonical_adapter (V_Identifier j) \<noteq> None" for i j
    using that by (intro id_eqI) (cases "id_kind_of i"; cases "id_kind_of j"; auto)+
  ultimately show ?thesis
    using assms(1,2)
    by (cases v; cases w;
        simp add: money_primitive_inj utc_str_inj attributes_primitive_inj record_primitive_inj mismatch_primitive_inj
          outcome_primitive_inj action_primitive_inj plan_primitive_inj node_primitive_inj edge_primitive_inj
          state_enum_inj enum_inj del: canonical_adapter.simps(1))
qed

lemma encode_canonical_inj:
  assumes "value_ok v" "value_ok w" "encode_canonical v = Inr b" "encode_canonical w = Inr b"
  shows "without_binding v = without_binding w"
proof -
  from assms(3,4) obtain tag primitive tag' primitive' where
    adapters: "canonical_adapter v = Some (tag, primitive)" "canonical_adapter w = Some (tag', primitive')"
    and eq: "encode_envelope tag primitive = encode_envelope tag' primitive'"
    by (auto simp: encode_canonical_def split: option.splits)
  from envelope_inj [OF adapter_plain [OF adapters(1)] adapter_plain [OF adapters(2)] eq] adapters
  have "canonical_adapter w = Some (tag, primitive)" by simp
  from adapter_inj [OF assms(1,2) adapters(1) this] show ?thesis .
qed

text \<open>
  C23.  The canonical bytes of a value determine its type and the value, except the binding of a repair plan, which the
  encoding leaves out: two values of the registry as their constructors accept them, of any of its types, are encoded
  alike exactly when they are equal once a plan's binding is taken away.
\<close>

theorem canonical_encoding_injective:
  assumes "value_ok v" "value_ok w" and "encode_canonical v = Inr b"
  shows "encode_canonical v = encode_canonical w \<longleftrightarrow> without_binding v = without_binding w"
proof
  assume "encode_canonical v = encode_canonical w"
  with assms(3) show "without_binding v = without_binding w"
    by (intro encode_canonical_inj [OF assms]) simp
next
  assume "without_binding v = without_binding w"
  then have "canonical_adapter v = canonical_adapter w"
    using adapter_without_binding [of v] adapter_without_binding [of w] by simp
  then show "encode_canonical v = encode_canonical w" by (simp add: encode_canonical_def)
qed

definition empty_plan :: "RepairPlanBinding option \<Rightarrow> RepairPlan" where
  "empty_plan binding = \<lparr>plan_id = Identifier RepairPlanId ''plan_one'', plan_fingerprint = replicate 64 CHR ''a'',
     plan_actions = [], plan_binding = binding\<rparr>"

theorem canonical_encoding_injective_witness:
  "encode_canonical (V_NodeKind ''source'') \<noteq> encode_canonical (V_PortName ''source'') \<and>
   (\<forall>binding. encode_canonical (V_RepairPlan (empty_plan (Some binding))) = encode_canonical (V_RepairPlan (empty_plan None)))"
proof (intro conjI allI)
  show "encode_canonical (V_NodeKind ''source'') \<noteq> encode_canonical (V_PortName ''source'')"
    using canonical_encoding_injective [of "V_NodeKind ''source''" "V_PortName ''source''"]
    by (auto simp: encode_canonical_def)
  fix binding
  show "encode_canonical (V_RepairPlan (empty_plan (Some binding))) = encode_canonical (V_RepairPlan (empty_plan None))"
    using canonical_encoding_injective [of "V_RepairPlan (empty_plan (Some binding))" "V_RepairPlan (empty_plan None)"]
    by (simp add: empty_plan_def encode_canonical_def)
qed

subsection \<open>Fingerprints\<close>

definition leaf_preimage :: "bytes \<Rightarrow> bytes" where
  "leaf_preimage b = LEAF_DOMAIN @ frame b"

lemma fingerprint_leaves_eq:
  assumes "list_all2 (\<lambda>v b. encode_state_value scope v = Inr b) vs bs" "length leaves \<le> MAX_FINGERPRINT_ITEMS"
  shows "fingerprint_leaves scope vs leaves =
    (if length leaves + length bs \<le> MAX_FINGERPRINT_ITEMS
     then Inr (leaves @ map (\<lambda>b. sha256_digest (leaf_preimage b)) bs)
     else Inl (CanonicalEncodingError INVALID_CANONICAL_VALUE ''fingerprint.item-count''))"
  using assms
proof (induction vs bs arbitrary: leaves rule: list_all2_induct)
  case (Cons v vs b bs)
  show ?case
  proof (cases "length leaves = MAX_FINGERPRINT_ITEMS")
    case False
    then show ?thesis
      using Cons.IH [of "leaves @ [sha256_digest (leaf_preimage b)]"] Cons.hyps(1) Cons.prems
      by (simp add: leaf_preimage_def)
  qed simp
qed simp

lemma fingerprint_state_eq:
  assumes "list_all2 (\<lambda>v b. encode_state_value scope v = Inr b) vs bs"
  shows "fingerprint_state vs scope =
    (if length bs \<le> MAX_FINGERPRINT_ITEMS
     then Inr (sha256_hexdigest (root_preimage scope (map (\<lambda>b. sha256_digest (leaf_preimage b)) bs)))
     else Inl (CanonicalEncodingError INVALID_CANONICAL_VALUE ''fingerprint.item-count''))"
  using fingerprint_leaves_eq [OF assms, of "[]"] by (simp add: fingerprint_state_def)

lemma root_preimage_mset:
  assumes "mset leaves = mset leaves'"
  shows "root_preimage scope leaves = root_preimage scope leaves'"
proof -
  have "sort leaves = sort leaves'" using assms by (metis properties_for_sort sorted_sort mset_sort)
  with mset_eq_length [OF assms] show ?thesis by (simp add: root_preimage_def)
qed

lemma root_preimage_inj:
  assumes "root_preimage scope leaves = root_preimage scope leaves'" "\<forall>l \<in> set leaves \<union> set leaves'. length l = 32"
  shows "mset leaves = mset leaves'"
proof -
  have "concat (sort leaves) = concat (sort leaves')" using assms(1) by (simp add: root_preimage_def)
  then have "sort leaves = sort leaves'" by (rule concat_const_inj [where k = 32, rotated 2]) (use assms(2) in auto)
  then show ?thesis by (metis mset_sort)
qed

text \<open>The byte strings that a fingerprint hashes.\<close>

definition hashed :: "FingerprintScope \<Rightarrow> bytes list \<Rightarrow> bytes set" where
  "hashed scope bs =
     insert (root_preimage scope (map (\<lambda>b. sha256_digest (leaf_preimage b)) bs)) (leaf_preimage ` set bs)"

lemma fingerprint_bytes:
  assumes vs: "list_all2 (\<lambda>v b. encode_state_value scope v = Inr b) vs bs" "length bs \<le> MAX_FINGERPRINT_ITEMS"
    and ws: "list_all2 (\<lambda>v b. encode_state_value scope v = Inr b) ws cs" "length cs \<le> MAX_FINGERPRINT_ITEMS"
  shows "mset bs = mset cs \<Longrightarrow> fingerprint_state vs scope = fingerprint_state ws scope"
    and "fingerprint_state vs scope = fingerprint_state ws scope \<Longrightarrow>
      inj_on sha256_digest (hashed scope bs \<union> hashed scope cs) \<Longrightarrow> mset bs = mset cs"
proof -
  let ?leaf = "\<lambda>b. sha256_digest (leaf_preimage b)"
  let ?r = "\<lambda>bs. root_preimage scope (map ?leaf bs)"
  have eq: "fingerprint_state vs scope = Inr (sha256_hexdigest (?r bs))" "fingerprint_state ws scope = Inr (sha256_hexdigest (?r cs))"
    using fingerprint_state_eq [OF vs(1)] fingerprint_state_eq [OF ws(1)] vs(2) ws(2) by simp_all
  show "fingerprint_state vs scope = fingerprint_state ws scope" if "mset bs = mset cs"
    unfolding eq using that root_preimage_mset [of "map ?leaf bs" "map ?leaf cs" scope] by simp
  assume same: "fingerprint_state vs scope = fingerprint_state ws scope"
    and inj: "inj_on sha256_digest (hashed scope bs \<union> hashed scope cs)"
  from same have "sha256_digest (?r bs) = sha256_digest (?r cs)" unfolding eq by (simp add: sha256_hexdigest_eq)
  from inj_onD [OF inj this] have "?r bs = ?r cs" by (simp add: hashed_def)
  moreover have "\<forall>l \<in> set (map ?leaf bs) \<union> set (map ?leaf cs). length l = 32" by (auto simp: sha256_digest_length)
  ultimately have "mset (map ?leaf bs) = mset (map ?leaf cs)" by (rule root_preimage_inj)
  then have "image_mset ?leaf (mset bs) = image_mset ?leaf (mset cs)" by simp
  moreover have "b = c" if "b \<in># mset bs" "c \<in># mset cs" "?leaf b = ?leaf c" for b c
  proof -
    from inj_onD [OF inj that(3)] that(1,2) have "leaf_preimage b = leaf_preimage c" by (simp add: hashed_def)
    then show ?thesis by (simp add: leaf_preimage_def frame_inj)
  qed
  ultimately show "mset bs = mset cs" by (rule multiset.inj_map_strong [rotated])
qed

text \<open>The state of a reconciliation is the multiset of its outcomes.\<close>

definition outcome_bytes :: "ReconciliationOutcome list \<Rightarrow> bytes list" where
  "outcome_bytes outcomes = map (\<lambda>x. encode_envelope ''reconciliation-outcome'' (outcome_primitive x)) outcomes"

lemma outcome_states:
  "list_all2 (\<lambda>v b. encode_state_value RECONCILIATION_STATE v = Inr b) (map V_ReconciliationOutcome outcomes) (outcome_bytes outcomes)"
  by (induction outcomes) (simp_all add: outcome_bytes_def encode_state_value_def encode_canonical_def)

lemma outcome_bytes_mset:
  assumes "list_all outcome_ok xs" "list_all outcome_ok ys"
  shows "mset (outcome_bytes xs) = mset (outcome_bytes ys) \<longleftrightarrow> mset xs = mset ys"
proof
  let ?enc = "\<lambda>x. encode_envelope ''reconciliation-outcome'' (outcome_primitive x)"
  assume "mset (outcome_bytes xs) = mset (outcome_bytes ys)"
  then have "image_mset ?enc (mset xs) = image_mset ?enc (mset ys)" by (simp add: outcome_bytes_def)
  moreover have "x = y" if "x \<in># mset xs" "y \<in># mset ys" "?enc x = ?enc y" for x y
  proof -
    have "outcome_ok x" "outcome_ok y" using that(1,2) assms by (simp_all add: list_all_iff)
    then show ?thesis using envelope_inj [OF outcome_plain outcome_plain that(3)] outcome_primitive_inj by blast
  qed
  ultimately show "mset xs = mset ys" by (rule multiset.inj_map_strong [rotated])
qed (simp add: outcome_bytes_def)

text \<open>
  C20.  The fingerprint of a reconciliation state identifies it.  It exists exactly for at most 10000 outcomes; it does not
  depend on their order; and two states with the same fingerprint are the same multiset of outcomes, duplicates
  counted, as long as SHA-256 does not collide on the byte strings that these two fingerprints hash.
\<close>

theorem fingerprint_identifies_state:
  assumes "list_all outcome_ok xs" "list_all outcome_ok ys"
  shows "((\<exists>f. fingerprint_state (map V_ReconciliationOutcome xs) RECONCILIATION_STATE = Inr f) \<longleftrightarrow> length xs \<le> 10000) \<and>
    (length xs \<le> 10000 \<and> length ys \<le> 10000 \<and>
      inj_on sha256_digest (hashed RECONCILIATION_STATE (outcome_bytes xs) \<union> hashed RECONCILIATION_STATE (outcome_bytes ys)) \<longrightarrow>
     (fingerprint_state (map V_ReconciliationOutcome xs) RECONCILIATION_STATE =
        fingerprint_state (map V_ReconciliationOutcome ys) RECONCILIATION_STATE \<longleftrightarrow> mset xs = mset ys)) \<and>
    (mset xs = mset ys \<longrightarrow> fingerprint_state (map V_ReconciliationOutcome xs) RECONCILIATION_STATE =
        fingerprint_state (map V_ReconciliationOutcome ys) RECONCILIATION_STATE)"
proof (intro conjI impI)
  have len: "length (outcome_bytes zs) = length zs" for zs by (simp add: outcome_bytes_def)
  show "(\<exists>f. fingerprint_state (map V_ReconciliationOutcome xs) RECONCILIATION_STATE = Inr f) \<longleftrightarrow> length xs \<le> 10000"
    by (simp add: fingerprint_state_eq [OF outcome_states] len MAX_FINGERPRINT_ITEMS_def)
  note bytes = fingerprint_bytes [OF outcome_states [of xs] _ outcome_states [of ys], unfolded len MAX_FINGERPRINT_ITEMS_def]
  show perm: "fingerprint_state (map V_ReconciliationOutcome xs) RECONCILIATION_STATE =
      fingerprint_state (map V_ReconciliationOutcome ys) RECONCILIATION_STATE" if same: "mset xs = mset ys"
  proof (cases "length xs \<le> 10000")
    case True
    then show ?thesis using bytes(1) mset_eq_length [OF same] outcome_bytes_mset [OF assms] same by simp
  next
    case False
    then show ?thesis using mset_eq_length [OF same]
      by (simp add: fingerprint_state_eq [OF outcome_states] len MAX_FINGERPRINT_ITEMS_def)
  qed
  assume *: "length xs \<le> 10000 \<and> length ys \<le> 10000 \<and>
      inj_on sha256_digest (hashed RECONCILIATION_STATE (outcome_bytes xs) \<union> hashed RECONCILIATION_STATE (outcome_bytes ys))"
  then show "fingerprint_state (map V_ReconciliationOutcome xs) RECONCILIATION_STATE =
        fingerprint_state (map V_ReconciliationOutcome ys) RECONCILIATION_STATE \<longleftrightarrow> mset xs = mset ys"
    using bytes(2) outcome_bytes_mset [OF assms] perm by blast
qed

text \<open>Two outcomes in either order, and the empty state.\<close>

definition example_outcomes :: "ReconciliationOutcome list" where
  "example_outcomes = [outcome_of [example_record 1 ''r1''] [], outcome_of [] [example_record 2 ''r1'']]"

lemma example_outcomes_ok: "list_all outcome_ok example_outcomes"
  using example_record_ok [of 1] example_record_ok [of 2]
  by (simp add: example_outcomes_def outcome_of_def outcome_ok_def observed_ok_def record_ok_def)
    (simp add: example_record_def)

theorem fingerprint_identifies_state_witness:
  "fingerprint_state (map V_ReconciliationOutcome example_outcomes) RECONCILIATION_STATE =
     fingerprint_state (map V_ReconciliationOutcome (rev example_outcomes)) RECONCILIATION_STATE \<and>
   (\<exists>f. fingerprint_state (map V_ReconciliationOutcome []) RECONCILIATION_STATE = Inr f) \<and>
   inj_on sha256_digest (hashed RECONCILIATION_STATE (outcome_bytes []) \<union> hashed RECONCILIATION_STATE (outcome_bytes []))"
proof (intro conjI)
  have "list_all outcome_ok (rev example_outcomes)" using example_outcomes_ok by (simp add: list_all_iff)
  from fingerprint_identifies_state [OF example_outcomes_ok this]
  show "fingerprint_state (map V_ReconciliationOutcome example_outcomes) RECONCILIATION_STATE =
     fingerprint_state (map V_ReconciliationOutcome (rev example_outcomes)) RECONCILIATION_STATE"
    by (simp only: mset_rev)
  from fingerprint_identifies_state [of "[]" "[]"]
  show "\<exists>f. fingerprint_state (map V_ReconciliationOutcome []) RECONCILIATION_STATE = Inr f" by simp
  show "inj_on sha256_digest (hashed RECONCILIATION_STATE (outcome_bytes []) \<union> hashed RECONCILIATION_STATE (outcome_bytes []))"
    by (simp add: hashed_def outcome_bytes_def)
qed

end
