(* ===== verification/Analysis.thy ===== *)
theory Analysis
  imports Canonical_Properties
begin

text \<open>
  Reconciliation summaries with their fingerprint (\<^verbatim>\<open>domain/reconciliation/summaries.py\<close>), conflict rows
  (\<^verbatim>\<open>ReconciliationConflictRow\<close> of \<^verbatim>\<open>application/ports/parquet.py\<close>) and the analysis that composes
  normalization, matching, classification, fingerprint and summary (\<^verbatim>\<open>application/reconciliation/analysis.py\<close>).
\<close>

subsection \<open>Counts\<close>

fun QuarantineCode_value :: "QuarantineCode \<Rightarrow> string" where
  "QuarantineCode_value SOURCE_MALFORMED = ''source_malformed''"
| "QuarantineCode_value PAYLOAD_NOT_OBJECT = ''payload_not_object''"
| "QuarantineCode_value MISSING_FIELD = ''missing_field''"
| "QuarantineCode_value NULL_FIELD = ''null_field''"
| "QuarantineCode_value WRONG_TYPE = ''wrong_type''"
| "QuarantineCode_value INVALID_VALUE = ''invalid_value''"

record QuarantineCount =
  qc_side :: RecordSide
  qc_code :: QuarantineCode
  qc_count :: nat

definition make_QuarantineCount :: "QuarantineCount \<Rightarrow> QuarantineCount recon_result" where
  "make_QuarantineCount c =
     bind_result (require (\<not> qc_count c < 1) (value_error ''quarantine count must be a positive integer'')) (\<lambda>_. Inr c)"

record ReconciliationCountSummary =
  by_classification :: "(ReconciliationClassification \<times> nat) list"
  source_record_count :: nat
  target_record_count :: nat
  canonical_key_count :: nat
  source_quarantined_count :: nat
  target_quarantined_count :: nat
  quarantine_breakdown :: "QuarantineCount list"

text \<open>\<^verbatim>\<open>sorted(ReconciliationClassification, key=value)\<close>.\<close>

definition CLASSIFICATIONS :: "ReconciliationClassification list" where
  "CLASSIFICATIONS =
     sort_key ReconciliationClassification_value
       [MATCH, MISSING_FROM_TARGET, MISSING_FROM_SOURCE, FIELD_MISMATCH, DUPLICATE_SOURCE, DUPLICATE_TARGET, DUPLICATE_BOTH]"

definition breakdown_key :: "QuarantineCount \<Rightarrow> string \<times> string" where
  "breakdown_key c = (RecordSide_value (qc_side c), QuarantineCode_value (qc_code c))"

definition make_ReconciliationCountSummary ::
  "ReconciliationCountSummary \<Rightarrow> ReconciliationCountSummary recon_result" where
  "make_ReconciliationCountSummary s =
     bind_result (require (map fst (by_classification s) = CLASSIFICATIONS)
       (value_error ''classification counts must list every classification exactly once'')) (\<lambda>_.
     let breakdown_order = map breakdown_key (quarantine_breakdown s) in
     bind_result (require (breakdown_order = sort breakdown_order \<and> card (set breakdown_order) = length breakdown_order)
       (value_error ''quarantine breakdown must be sorted and unique'')) (\<lambda>_.
     bind_result (require (sum_list (map qc_count (quarantine_breakdown s)) =
         source_quarantined_count s + target_quarantined_count s)
       (value_error ''quarantine breakdown must cover every quarantined observation'')) (\<lambda>_.
     Inr s)))"

definition classification_counts :: "ClassificationResult \<Rightarrow> (ReconciliationClassification \<times> nat) list" where
  "classification_counts result = map (\<lambda>c. (c, classification_count result c)) CLASSIFICATIONS"

text \<open>The dict of counts: each quarantined observation adds one to its side and code.\<close>

definition count_quarantined ::
  "(RecordSide \<times> QuarantineCode) list \<Rightarrow> (RecordSide \<times> QuarantineCode, nat) dict" where
  "count_quarantined entries =
     foldl (\<lambda>counts key. AList.update key ((case map_of counts key of None \<Rightarrow> 0 | Some n \<Rightarrow> n) + 1) counts) [] entries"

definition quarantine_entries :: "SourceNormalization \<Rightarrow> SourceNormalization \<Rightarrow> (RecordSide \<times> QuarantineCode) list" where
  "quarantine_entries source target =
     map (\<lambda>q. (SOURCE, q_code q)) (sn_quarantined source) @ map (\<lambda>q. (TARGET, q_code q)) (sn_quarantined target)"

definition breakdown_of ::
  "SourceNormalization \<Rightarrow> SourceNormalization \<Rightarrow> QuarantineCount list recon_result" where
  "breakdown_of source target =
     (let counts = count_quarantined (quarantine_entries source target) in
      map_result (\<lambda>(side, c). make_QuarantineCount
          \<lparr>qc_side = side, qc_code = c, qc_count = the (map_of counts (side, c))\<rparr>)
        (sort_key (\<lambda>(side, c). (RecordSide_value side, QuarantineCode_value c)) (keys counts)))"

subsection \<open>The summary and its fingerprint\<close>

definition RECONCILIATION_FINGERPRINT_VERSION :: int where "RECONCILIATION_FINGERPRINT_VERSION = 1"
definition RECONCILIATION_ANALYSIS_VERSION :: int where "RECONCILIATION_ANALYSIS_VERSION = 1"
definition FINGERPRINT_DOMAIN :: bytes where
  "FINGERPRINT_DOMAIN = ''paritygrid:reconciliation-fingerprint:v1'' @ [CHR 0x00]"

record ReconciliationSummary =
  fingerprint_kind :: string
  fingerprint_version :: int
  analysis_version :: int
  summary_rules_version :: int
  summary_counts :: ReconciliationCountSummary
  summary_source_identity :: string
  summary_target_identity :: string
  analytical_query_version :: int
  summary_fingerprint :: StateFingerprint

definition make_ReconciliationSummary :: "ReconciliationSummary \<Rightarrow> ReconciliationSummary recon_result" where
  "make_ReconciliationSummary s =
     bind_result (require (fingerprint_kind s = ''reconciliation'')
       (value_error ''reconciliation summary fingerprint kind is invalid'')) (\<lambda>_.
     bind_result (require (fingerprint_version s = RECONCILIATION_FINGERPRINT_VERSION)
       (value_error ''reconciliation summary fingerprint version is unsupported'')) (\<lambda>_.
     bind_result (require (analysis_version s = RECONCILIATION_ANALYSIS_VERSION)
       (value_error ''reconciliation summary analysis version is unsupported'')) (\<lambda>_.
     bind_result (require (summary_rules_version s = NORMALIZATION_RULES_VERSION)
       (value_error ''reconciliation summary rules version is unsupported'')) (\<lambda>_.
     bind_result (check_all (\<lambda>v. require (SHA256_PATTERN v)
         (value_error ''reconciliation input identity must be lowercase SHA-256''))
       [summary_source_identity s, summary_target_identity s]) (\<lambda>_.
     bind_result (require (\<not> analytical_query_version s < 1)
       (value_error ''reconciliation analytical query version is invalid'')) (\<lambda>_.
     Inr s))))))"

definition counts_header :: "ReconciliationCountSummary \<Rightarrow> json" where
  "counts_header s =
     JDict [(''by_classification'',
              JDict (map (\<lambda>(c, n). (ReconciliationClassification_value c, JInt (int n))) (by_classification s))),
            (''canonical_key_count'', JInt (int (canonical_key_count s))),
            (''quarantine'',
              JDict (map (\<lambda>q. (RecordSide_value (qc_side q) @ '':'' @ QuarantineCode_value (qc_code q),
                JInt (int (qc_count q)))) (quarantine_breakdown s))),
            (''source_quarantined_count'', JInt (int (source_quarantined_count s))),
            (''source_record_count'', JInt (int (source_record_count s))),
            (''target_quarantined_count'', JInt (int (target_quarantined_count s))),
            (''target_record_count'', JInt (int (target_record_count s)))]"

definition compute_reconciliation_fingerprint ::
  "string \<Rightarrow> string \<Rightarrow> int \<Rightarrow> ReconciliationCountSummary \<Rightarrow> StateFingerprint \<Rightarrow> StateFingerprint recon_result" where
  "compute_reconciliation_fingerprint source_identity target_identity query_version counts digest =
     bind_result (check_all (\<lambda>v. require (SHA256_PATTERN v)
         (value_error ''reconciliation input identity must be lowercase SHA-256''))
       [source_identity, target_identity]) (\<lambda>_.
     bind_result (require (\<not> query_version < 1)
       (value_error ''reconciliation analytical query version is invalid'')) (\<lambda>_.
     let header = json_dumps (JDict
           [(''analytical_query_version'', JInt query_version), (''counts'', counts_header counts),
            (''fingerprint_kind'', JText ''reconciliation''),
            (''fingerprint_version'', JInt RECONCILIATION_FINGERPRINT_VERSION),
            (''source_input_identity'', JText source_identity), (''target_input_identity'', JText target_identity)]);
         preimage = FINGERPRINT_DOMAIN @ frame header @ frame digest in
     lift_py (validate_fingerprint (sha256_hexdigest preimage))))"

definition build_reconciliation_summary ::
  "ClassificationResult \<Rightarrow> SourceNormalization \<Rightarrow> SourceNormalization \<Rightarrow> string \<Rightarrow> string \<Rightarrow> int \<Rightarrow> StateFingerprint \<Rightarrow>
     ReconciliationSummary recon_result" where
  "build_reconciliation_summary result source target source_identity target_identity query_version digest =
     bind_result (breakdown_of source target) (\<lambda>breakdown.
     bind_result (make_ReconciliationCountSummary
       \<lparr>by_classification = classification_counts result, source_record_count = length (sn_records source),
        target_record_count = length (sn_records target), canonical_key_count = length (classified_keys result),
        source_quarantined_count = length (sn_quarantined source),
        target_quarantined_count = length (sn_quarantined target), quarantine_breakdown = breakdown\<rparr>) (\<lambda>counts.
     bind_result (compute_reconciliation_fingerprint source_identity target_identity query_version counts digest) (\<lambda>fingerprint.
     make_ReconciliationSummary
       \<lparr>fingerprint_kind = ''reconciliation'', fingerprint_version = RECONCILIATION_FINGERPRINT_VERSION,
        analysis_version = RECONCILIATION_ANALYSIS_VERSION, summary_rules_version = NORMALIZATION_RULES_VERSION,
        summary_counts = counts, summary_source_identity = source_identity, summary_target_identity = target_identity,
        analytical_query_version = query_version, summary_fingerprint = fingerprint\<rparr>)))"

subsection \<open>Conflict rows\<close>

definition MAX_CONFLICT_CONFLICT_INDEX :: int where "MAX_CONFLICT_CONFLICT_INDEX = 9223372036854775807"
definition MAX_CONFLICT_MEMBER_KEYS :: nat where "MAX_CONFLICT_MEMBER_KEYS = 1024"
definition MAX_CONFLICT_DIFFERENCES :: nat where "MAX_CONFLICT_DIFFERENCES = 64"
definition MAX_CONFLICT_SECONDARY :: nat where "MAX_CONFLICT_SECONDARY = 8"

record ReconciliationConflictRow =
  conflict_index :: int
  conflict_sku :: string
  conflict_classification :: ReconciliationClassification
  conflict_resolution :: SuggestedResolution
  source_positions :: "int list"
  target_positions :: "int list"
  source_record_keys :: "string list"
  target_record_keys :: "string list"
  conflict_differences :: "FieldDifference list"
  conflict_secondary :: "SecondaryEvidence list"

definition check_provenance :: "int list \<times> string list \<Rightarrow> unit recon_result" where
  "check_provenance side =
     (let (positions, ks) = side in
      bind_result (require (length positions = length ks)
        (value_error ''conflict provenance must be parallel tuples'')) (\<lambda>_.
      bind_result (require (\<not> length ks > MAX_CONFLICT_MEMBER_KEYS)
        (value_error ''conflict provenance exceeds the member limit'')) (\<lambda>_.
      bind_result (require (\<not> list_ex (\<lambda>p. p < 0) positions)
        (value_error ''conflict positions must be nonnegative integers'')) (\<lambda>_.
      bind_result (require (\<not> list_ex (\<lambda>k. k = []) ks)
        (value_error ''conflict record keys must be nonempty text'')) (\<lambda>_.
      require (positions = sort positions \<and> card (set positions) = length positions)
        (value_error ''conflict positions must be sorted and unique''))))))"

definition make_ReconciliationConflictRow :: "ReconciliationConflictRow \<Rightarrow> ReconciliationConflictRow recon_result" where
  "make_ReconciliationConflictRow row =
     bind_result (require (0 \<le> conflict_index row \<and> conflict_index row \<le> MAX_CONFLICT_CONFLICT_INDEX)
       (value_error ''conflict index is outside the supported range'')) (\<lambda>_.
     bind_result (require (conflict_sku row \<noteq> [])
       (PyError (TypeError ''conflict SKU must be nonempty text''))) (\<lambda>_.
     bind_result (require (conflict_classification row \<noteq> MATCH)
       (value_error ''conflict rows cannot carry the match classification'')) (\<lambda>_.
     bind_result (require (conflict_resolution row = suggested_resolution_for (conflict_classification row))
       (value_error ''conflict resolution does not match its classification'')) (\<lambda>_.
     bind_result (check_all check_provenance
       [(source_positions row, source_record_keys row), (target_positions row, target_record_keys row)]) (\<lambda>_.
     bind_result (require (\<not> (source_record_keys row = [] \<and> target_record_keys row = []))
       (value_error ''conflict rows must reference at least one member record'')) (\<lambda>_.
     bind_result (require (length (conflict_differences row) \<le> MAX_CONFLICT_DIFFERENCES)
       (value_error ''conflict differences exceed the limit'')) (\<lambda>_.
     bind_result (require (length (conflict_secondary row) \<le> MAX_CONFLICT_SECONDARY)
       (value_error ''conflict secondary evidence exceeds the limit'')) (\<lambda>_.
     Inr row))))))))"

subsection \<open>The analysis\<close>

record ReconciliationAnalysisRequest =
  source_observations :: "SourceObservation list"
  target_observations :: "SourceObservation list"
  request_source_identity :: string
  request_target_identity :: string
  request_query_version :: int

record ReconciliationAnalysis =
  analysis_summary :: ReconciliationSummary
  analysis_classification :: ClassificationResult
  analysis_conflicts :: "ReconciliationConflictRow list"
  analysis_matches :: "CanonicalKeyMatch list"
  analysis_collisions :: "CanonicalKeyCollision list"
  analysis_duplicates :: "DuplicateRecordGroup list"
  analysis_source_quarantined :: "QuarantinedObservation list"
  analysis_target_quarantined :: "QuarantinedObservation list"

definition ordered_members :: "CanonicalKeyMatch \<Rightarrow> RecordSide \<Rightarrow> NormalizedRecord list" where
  "ordered_members m side = sort_key n_position (match_records m side)"

definition member_provenance :: "CanonicalKeyMatch \<Rightarrow> RecordSide \<Rightarrow> int list \<times> string list" where
  "member_provenance m side =
     (let members = ordered_members m side in
      (map n_position members, map (\<lambda>n. source_record_key (n_record n)) members))"

definition conflict_row :: "CanonicalKeyMatch \<Rightarrow> ClassifiedKey \<Rightarrow> nat \<Rightarrow> ReconciliationConflictRow recon_result" where
  "conflict_row m key index =
     (let (source_pos, source_keys) = member_provenance m SOURCE;
          (target_pos, target_keys) = member_provenance m TARGET in
      make_ReconciliationConflictRow
        \<lparr>conflict_index = int index, conflict_sku = match_sku m,
         conflict_classification = classification (key_outcome key), conflict_resolution = suggested_resolution key,
         source_positions = source_pos, target_positions = target_pos, source_record_keys = source_keys,
         target_record_keys = target_keys, conflict_differences = key_differences key,
         conflict_secondary = key_secondary_evidence key\<rparr>)"

text \<open>\<^verbatim>\<open>classified[match.sku]\<close> is a key of the dict: both lists hold the same SKUs.\<close>

fun conflict_rows ::
  "(string, ClassifiedKey) dict \<Rightarrow> CanonicalKeyMatch list \<Rightarrow> ReconciliationConflictRow list \<Rightarrow>
     ReconciliationConflictRow list recon_result" where
  "conflict_rows classified [] rows = Inr rows"
| "conflict_rows classified (m # ms) rows =
     (let key = the (map_of classified (match_sku m)) in
      if classification (key_outcome key) = MATCH then conflict_rows classified ms rows
      else bind_result (conflict_row m key (length rows)) (\<lambda>row. conflict_rows classified ms (rows @ [row])))"

definition analyze_reconciliation :: "ReconciliationAnalysisRequest \<Rightarrow> ReconciliationAnalysis repair_result" where
  "analyze_reconciliation request =
     bind_result (lift_recon (normalize_source_observations (source_observations request))) (\<lambda>source.
     bind_result (lift_recon (normalize_source_observations (target_observations request))) (\<lambda>target.
     bind_result (lift_recon (match_by_canonical_key (sn_records source) (sn_records target))) (\<lambda>matches.
     bind_result (lift_recon (classify_matches matches)) (\<lambda>result.
     bind_result (fingerprint_state (map (\<lambda>k. V_ReconciliationOutcome (key_outcome k)) (classified_keys result))
       RECONCILIATION_STATE) (\<lambda>digest.
     bind_result (lift_recon (build_reconciliation_summary result source target (request_source_identity request)
       (request_target_identity request) (request_query_version request) digest)) (\<lambda>summary.
     bind_result (lift_recon (conflict_rows (map (\<lambda>k. (key_sku k, k)) (classified_keys result)) matches [])) (\<lambda>conflicts.
     bind_result (lift_recon (detect_canonical_key_collisions matches)) (\<lambda>collisions.
     bind_result (lift_recon (detect_duplicate_record_groups matches)) (\<lambda>duplicates.
     Inr \<lparr>analysis_summary = summary, analysis_classification = result, analysis_conflicts = conflicts,
          analysis_matches = matches, analysis_collisions = collisions, analysis_duplicates = duplicates,
          analysis_source_quarantined = sn_quarantined source,
          analysis_target_quarantined = sn_quarantined target\<rparr>)))))))))"

end
