(* ===== verification/Analysis_Properties.thy ===== *)
theory Analysis_Properties
  imports Analysis
begin

text \<open>
  When the analysis of two batches of observations succeeds, and what stops it: more than 1024 records of a SKU on a
  side, more than 10000 SKUs, or a pair of records that differ at more than 64 paths.
\<close>

subsection \<open>Quarantine counts\<close>

lemma count_quarantined_append:
  "count_quarantined (xs @ [k]) =
     AList.update k ((case map_of (count_quarantined xs) k of None \<Rightarrow> 0 | Some n \<Rightarrow> n) + 1) (count_quarantined xs)"
  by (simp add: count_quarantined_def)

lemma count_quarantined_map:
  "map_of (count_quarantined xs) k = (if k \<in> set xs then Some (count_list xs k) else None)"
proof (induction xs rule: rev_induct)
  case (snoc x xs)
  then show ?case by (auto simp: count_quarantined_append dict_simps)
qed (simp add: count_quarantined_def)

lemma count_quarantined_keyed: "well_keyed (count_quarantined xs)"
proof (induction xs rule: rev_induct)
  case (snoc x xs)
  then show ?case by (simp add: count_quarantined_append well_keyed_update)
qed (simp add: count_quarantined_def)

lemma count_quarantined_keys: "set (keys (count_quarantined xs)) = set xs"
proof -
  have "k \<in> set (keys (count_quarantined xs)) \<longleftrightarrow> k \<in> set xs" for k
    using count_quarantined_map [of xs k] in_keys_iff_map_of [of k "count_quarantined xs"] by (simp split: if_splits)
  then show ?thesis by blast
qed

lemma sum_count_list: "set xs \<subseteq> set ks \<Longrightarrow> distinct ks \<Longrightarrow> sum_list (map (count_list xs) ks) = length xs"
proof -
  assume sub: "set xs \<subseteq> set ks" and dist: "distinct ks"
  have "sum_list (map (count_list xs) ks) = (\<Sum>k \<in> set ks. count_list xs k)"
    using dist by (simp add: sum_list_distinct_conv_sum_set)
  also have "\<dots> = (\<Sum>k \<in> set xs. count_list xs k)"
    by (rule sum.mono_neutral_right) (use sub in \<open>auto simp: count_list_0_iff\<close>)
  also have "\<dots> = length xs" by (rule sum_count_set) simp_all
  finally show ?thesis .
qed

definition entry_order :: "RecordSide \<times> QuarantineCode \<Rightarrow> string \<times> string" where
  "entry_order e = (RecordSide_value (fst e), QuarantineCode_value (snd e))"

lemma entry_order_inj: "entry_order e = entry_order f \<longleftrightarrow> e = f"
proof -
  have "RecordSide_value s = RecordSide_value t \<longleftrightarrow> s = t" "QuarantineCode_value c = QuarantineCode_value d \<longleftrightarrow> c = d" for s t c d
    by ((cases s; cases t; simp), (cases c; cases d; simp))
  then show ?thesis by (simp add: entry_order_def prod_eq_iff)
qed

lemma breakdown_total:
  obtains breakdown where "breakdown_of source target = Inr breakdown"
    "sorted (map breakdown_key breakdown)" "distinct (map breakdown_key breakdown)"
    "sum_list (map qc_count breakdown) = length (sn_quarantined source) + length (sn_quarantined target)"
proof -
  let ?xs = "quarantine_entries source target"
  let ?ks = "sort_key entry_order (keys (count_quarantined ?xs))"
  let ?count = "\<lambda>e. \<lparr>qc_side = fst e, qc_code = snd e, qc_count = count_list ?xs e\<rparr>"
  have keys: "set ?ks = set ?xs" "distinct ?ks"
    using count_quarantined_keys [of ?xs] count_quarantined_keyed [of ?xs] by simp_all
  have order: "(\<lambda>(side, c). (RecordSide_value side, QuarantineCode_value c)) = entry_order"
    by (simp add: fun_eq_iff entry_order_def)
  have "breakdown_of source target = Inr (map ?count ?ks)"
    unfolding breakdown_of_def Let_def order
  proof (rule map_result_map)
    fix e assume "e \<in> set ?ks"
    then have e: "e \<in> set ?xs" using keys by simp
    then have "count_list ?xs e \<noteq> 0" by (simp add: count_list_0_iff)
    then show "(\<lambda>(side, c). make_QuarantineCount
        \<lparr>qc_side = side, qc_code = c, qc_count = the (map_of (count_quarantined ?xs) (side, c))\<rparr>) e = Inr (?count e)"
      using e by (simp add: split_def count_quarantined_map make_QuarantineCount_def)
  qed
  then show thesis
  proof (rule that)
    have order: "map breakdown_key (map ?count ?ks) = map entry_order ?ks"
      by (simp add: breakdown_key_def entry_order_def)
    show "sorted (map breakdown_key (map ?count ?ks))" unfolding order by (rule sorted_sort_key)
    show "distinct (map breakdown_key (map ?count ?ks))"
      unfolding order using keys(2) by (simp add: distinct_map inj_on_def entry_order_inj)
    have "sum_list (map qc_count (map ?count ?ks)) = sum_list (map (count_list ?xs) ?ks)"
      unfolding map_map by (rule arg_cong [where f = sum_list], rule map_cong) simp_all
    also have "\<dots> = length ?xs" using sum_count_list [of ?xs ?ks] keys by simp
    finally show "sum_list (map qc_count (map ?count ?ks)) = length (sn_quarantined source) + length (sn_quarantined target)"
      by (simp add: quarantine_entries_def)
  qed
qed

lemma summary_total:
  assumes "SHA256_PATTERN source_identity" "SHA256_PATTERN target_identity" "1 \<le> query_version"
  shows "\<exists>summary. build_reconciliation_summary result source target source_identity target_identity query_version digest =
      Inr summary \<and> by_classification (summary_counts summary) = classification_counts result \<and>
    canonical_key_count (summary_counts summary) = length (classified_keys result)"
proof -
  obtain breakdown where b: "breakdown_of source target = Inr breakdown"
    "sorted (map breakdown_key breakdown)" "distinct (map breakdown_key breakdown)"
    "sum_list (map qc_count breakdown) = length (sn_quarantined source) + length (sn_quarantined target)"
    by (rule breakdown_total)
  have order: "map breakdown_key breakdown = sort (map breakdown_key breakdown)"
    "card (set (map breakdown_key breakdown)) = length (map breakdown_key breakdown)"
    using b(2,3) by (simp_all only: sorted_sort_id distinct_card)
  show ?thesis
    unfolding build_reconciliation_summary_def b(1) bind_result.simps make_ReconciliationCountSummary_def Let_def
      ReconciliationCountSummary.simps order(2) order(1) [symmetric] b(4)
    using assms
    by (simp add: classification_counts_def compute_reconciliation_fingerprint_def Let_def make_ReconciliationSummary_def comp_def)
qed

subsection \<open>Conflict rows\<close>

lemma key_secondary_length: "key_secondary outcome = Inr es \<Longrightarrow> length es \<le> 3"
proof -
  assume es: "key_secondary outcome = Inr es"
  have "length (filter (\<lambda>records. \<not> length records < 2) [source_records outcome, target_records outcome]) \<le> 2"
    by (rule order_trans [OF length_filter_le]) simp
  with es show ?thesis
    by (auto simp: key_secondary_def bind_result_eq_Inr map_result_list_all2 dest!: list_all2_lengthD split: if_splits)
qed

lemma skus_nonempty: "side_ok ns \<Longrightarrow> [] \<notin> skus ns"
  unfolding skus_def side_ok_def using record_ok_facts(1) by force

text \<open>The number of paths at which the two records of a SKU differ; none unless each side has one record.\<close>

definition differing_count :: "NormalizedRecord list \<Rightarrow> NormalizedRecord list \<Rightarrow> string \<Rightarrow> nat" where
  "differing_count source target s =
     (case (of_sku s source, of_sku s target) of
        ([n], [m]) \<Rightarrow> card (differing_paths (document_of (n_record n)) (document_of (n_record m)))
      | _ \<Rightarrow> 0)"

lemma key_differences_length:
  assumes "side_ok source" "side_ok target" "key_differences_of (match_at source target s) = Inr ds"
  shows "length ds = differing_count source target s"
proof (cases "length (of_sku s source) = 1 \<and> length (of_sku s target) = 1")
  case True
  then obtain n m where nm: "of_sku s source = [n]" "of_sku s target = [m]"
    by (auto simp: length_Suc_conv)
  then have "n \<in> set source" "m \<in> set target" by (metis in_of_sku list.set_intros(1))+
  note n = side_ok_record [OF assms(1) this(1)] and m = side_ok_record [OF assms(2) this(2)]
  from assms(3) have "ds = map (difference_of (document_of (n_record n)) (document_of (n_record m)))
      (sorted_list_of_set (differing_paths (document_of (n_record n)) (document_of (n_record m))))"
    by (simp add: key_differences_of_def match_at_def nm n(3) m(3) document_differences [OF n(2) m(2)])
  then show ?thesis by (simp add: differing_count_def nm)
next
  case False
  then have "ds = []" using assms(3) by (auto simp: key_differences_of_def match_at_def)
  moreover have "differing_count source target s = 0"
    using False by (auto simp: differing_count_def split: list.split)
  ultimately show ?thesis by simp
qed

lemma differing_count_present: "0 < differing_count source target s \<Longrightarrow> s \<in> skus source \<union> skus target"
  using of_sku_Nil_iff [of s source] by (auto simp: differing_count_def split: list.splits)

lemma match_no_difference:
  assumes "side_ok source" "side_ok target" "classification (outcome_at source target s) = MATCH"
  shows "differing_count source target s = 0"
proof (cases "length (of_sku s source) = 1 \<and> length (of_sku s target) = 1")
  case True
  then obtain n m where nm: "of_sku s source = [n]" "of_sku s target = [m]"
    by (auto simp: length_Suc_conv)
  with assms(3) have "business_content (n_record n) = business_content (n_record m)"
    by (simp add: outcome_at_def outcome_of_def classification_of_def split: if_splits)
  from document_of_content [OF this] show ?thesis by (simp add: differing_count_def nm differing_paths_def)
qed (auto simp: differing_count_def split: list.split)

lemma provenance_ok:
  assumes "side_ok ns" "\<not> overfull ns"
  shows "check_provenance (map n_position (sort_key n_position (of_sku s ns)),
      map (\<lambda>n. source_record_key (n_record n)) (sort_key n_position (of_sku s ns))) = Inr ()"
proof -
  have pos: "positions_ok (of_sku s ns)" using assms(1) positions_ok_of_sku by (simp add: side_ok_def)
  then have eq: "sort_key n_position (of_sku s ns) = of_sku s ns"
    by (simp add: positions_ok_def sort_key_id_if_sorted)
  let ?ps = "map n_position (of_sku s ns)"
  have "?ps = sort ?ps" "card (set ?ps) = length ?ps"
    using pos distinct_card [of ?ps] by (simp_all only: positions_ok_def sorted_sort_id)
  moreover have "\<forall>n \<in> set (of_sku s ns). 0 \<le> n_position n \<and> source_record_key (n_record n) \<noteq> []"
    using side_ok_record(1,2) [OF assms(1)] record_ok_facts(2) by (auto simp: in_of_sku)
  then have "\<not> list_ex (\<lambda>p. p < 0) ?ps" "\<not> list_ex (\<lambda>k. k = []) (map (\<lambda>n. source_record_key (n_record n)) (of_sku s ns))"
    by (force simp: list_ex_iff)+
  moreover have "\<not> MAX_CONFLICT_MEMBER_KEYS < length (of_sku s ns)"
    using assms(2) by (simp add: overfull_def MAX_RECORDS_PER_SIDE_def MAX_CONFLICT_MEMBER_KEYS_def)
  ultimately show ?thesis unfolding eq check_provenance_def prod.case Let_def length_map by simp
qed

definition row_at ::
  "NormalizedRecord list \<Rightarrow> NormalizedRecord list \<Rightarrow> (string \<Rightarrow> SecondaryEvidence list) \<Rightarrow>
     (string \<Rightarrow> FieldDifference list) \<Rightarrow> nat \<Rightarrow> string \<Rightarrow> ReconciliationConflictRow" where
  "row_at source target secondary differences index s =
     \<lparr>conflict_index = int index, conflict_sku = s,
      conflict_classification = classification (outcome_at source target s),
      conflict_resolution = suggested_resolution_for (classification (outcome_at source target s)),
      source_positions = map n_position (sort_key n_position (of_sku s source)),
      target_positions = map n_position (sort_key n_position (of_sku s target)),
      source_record_keys = map (\<lambda>n. source_record_key (n_record n)) (sort_key n_position (of_sku s source)),
      target_record_keys = map (\<lambda>n. source_record_key (n_record n)) (sort_key n_position (of_sku s target)),
      conflict_differences = differences s, conflict_secondary = secondary s\<rparr>"

lemma conflict_row_eq:
  assumes sides: "side_ok source" "side_ok target" "\<not> overfull source" "\<not> overfull target"
    and s: "s \<in> skus source \<union> skus target" "classification (outcome_at source target s) \<noteq> MATCH"
    and "length (secondary s) \<le> 3" "length (differences s) = differing_count source target s" "index \<le> MAX_MATCHED_KEYS"
  shows "conflict_row (match_at source target s) (key_at source target secondary differences s) index =
    (if differing_count source target s \<le> 64 then Inr (row_at source target secondary differences index s)
     else Inl (value_error ''conflict differences exceed the limit''))"
proof -
  let ?row = "row_at source target secondary differences index s"
  have "s \<noteq> []" using s(1) skus_nonempty [OF sides(1)] skus_nonempty [OF sides(2)] by blast
  moreover have "check_all check_provenance [(source_positions ?row, source_record_keys ?row), (target_positions ?row, target_record_keys ?row)] = Inr ()"
    using provenance_ok [OF sides(1,3)] provenance_ok [OF sides(2,4)] by (simp add: row_at_def)
  moreover have "\<not> (source_record_keys ?row = [] \<and> target_record_keys ?row = [])"
    using s(1) by (simp add: row_at_def sort_key_eq_Nil of_sku_Nil_iff)
  moreover have "0 \<le> conflict_index ?row \<and> conflict_index ?row \<le> MAX_CONFLICT_CONFLICT_INDEX"
    using assms(9) by (simp add: row_at_def MAX_CONFLICT_CONFLICT_INDEX_def MAX_MATCHED_KEYS_def MAX_SOURCE_OBSERVATIONS_def)
  moreover have "conflict_row (match_at source target s) (key_at source target secondary differences s) index =
      make_ReconciliationConflictRow ?row"
    by (simp add: conflict_row_def member_provenance_def ordered_members_def match_at_def key_at_def row_at_def Let_def)
  moreover have "conflict_sku ?row = s" "conflict_classification ?row \<noteq> MATCH"
    "conflict_resolution ?row = suggested_resolution_for (conflict_classification ?row)"
    "length (conflict_differences ?row) = differing_count source target s" "length (conflict_secondary ?row) \<le> 3"
    using s(2) assms(7,8) by (simp_all add: row_at_def)
  ultimately show ?thesis
    by (simp add: make_ReconciliationConflictRow_def MAX_CONFLICT_DIFFERENCES_def MAX_CONFLICT_SECONDARY_def)
qed

lemma conflict_rows_eq:
  assumes sides: "side_ok source" "side_ok target" "\<not> overfull source" "\<not> overfull target"
    and classified: "\<And>s. s \<in> skus source \<union> skus target \<Longrightarrow>
        map_of classified s = Some (key_at source target secondary differences s)"
    and evidence: "\<And>s. s \<in> skus source \<union> skus target \<Longrightarrow> length (secondary s) \<le> 3"
      "\<And>s. length (differences s) = differing_count source target s"
    and "set ss \<subseteq> skus source \<union> skus target" "length rows + length ss \<le> MAX_MATCHED_KEYS"
  shows "if \<exists>s \<in> set ss. 64 < differing_count source target s
    then conflict_rows classified (map (match_at source target) ss) rows =
      Inl (value_error ''conflict differences exceed the limit'')
    else \<exists>new. conflict_rows classified (map (match_at source target) ss) rows = Inr (rows @ new) \<and>
      map conflict_sku new = filter (\<lambda>s. classification (outcome_at source target s) \<noteq> MATCH) ss \<and>
      (\<forall>row \<in> set new. conflict_differences row = differences (conflict_sku row))"
  using assms(8,9)
proof (induction ss arbitrary: rows)
  case (Cons s ss)
  let ?c = "classification (outcome_at source target s)"
  have s: "s \<in> skus source \<union> skus target" using Cons.prems(1) by simp
  have key: "the (map_of classified (match_sku (match_at source target s))) = key_at source target secondary differences s"
    using classified [OF s] by (simp add: match_at_def)
  have kc: "classification (key_outcome (key_at source target secondary differences s)) = ?c" by (simp add: key_at_def)
  show ?case
  proof (cases "?c = MATCH")
    case True
    then have "differing_count source target s = 0" by (rule match_no_difference [OF sides(1,2)])
    then show ?thesis using Cons.IH [of rows] Cons.prems True by (simp add: key kc)
  next
    case False
    have row: "conflict_row (match_at source target s) (key_at source target secondary differences s) (length rows) =
      (if differing_count source target s \<le> 64 then Inr (row_at source target secondary differences (length rows) s)
       else Inl (value_error ''conflict differences exceed the limit''))"
      using Cons.prems(2) by (intro conflict_row_eq sides s False evidence) simp_all
    show ?thesis
    proof (cases "differing_count source target s \<le> 64")
      case wide: False
      then show ?thesis using False by (auto simp: key kc row)
    next
      case True
      let ?row = "row_at source target secondary differences (length rows) s"
      have "set ss \<subseteq> skus source \<union> skus target" "length (rows @ [?row]) + length ss \<le> MAX_MATCHED_KEYS"
        using Cons.prems by simp_all
      note IH = Cons.IH [OF this]
      have step: "conflict_rows classified (map (match_at source target) (s # ss)) rows =
          conflict_rows classified (map (match_at source target) ss) (rows @ [?row])"
        using False True by (simp add: key kc row)
      have row_facts: "conflict_sku ?row = s" "conflict_differences ?row = differences s" by (simp_all add: row_at_def)
      show ?thesis
      proof (cases "\<exists>t \<in> set ss. 64 < differing_count source target t")
        case True
        then show ?thesis using IH unfolding step by simp
      next
        case narrow: False
        then obtain new where "conflict_rows classified (map (match_at source target) ss) (rows @ [?row]) = Inr ((rows @ [?row]) @ new)"
          "map conflict_sku new = filter (\<lambda>s. classification (outcome_at source target s) \<noteq> MATCH) ss"
          "\<forall>row \<in> set new. conflict_differences row = differences (conflict_sku row)"
          using IH by auto
        then show ?thesis unfolding step using narrow True False row_facts by (simp add: exI [of _ "?row # new"] not_le)
      qed
    qed
  qed
qed simp

subsection \<open>Collisions and duplicates\<close>

lemma match_side_members:
  assumes sides: "side_ok source" "side_ok target" "\<not> overfull source" "\<not> overfull target"
    and "(m, side) \<in> set (match_sides (matches_of source target))"
  shows "match_sku m \<noteq> []" "2 \<le> length (match_records m side)" "length (match_records m side) \<le> MAX_RECORDS_PER_SIDE"
    "\<forall>n \<in> set (match_records m side). n_sku n = match_sku m \<and> source_record_key (n_record n) \<noteq> []"
proof -
  from assms(5) have "m \<in> set (matches_of source target)" and two: "2 \<le> length (match_records m side)"
    by (auto simp: match_sides_def)
  then obtain s where s: "s \<in> skus source \<union> skus target" "m = match_at source target s"
    unfolding matches_of_def by auto
  define ns where "ns = (if side = SOURCE then source else target)"
  have records: "match_records m side = of_sku s ns" by (cases side) (simp_all add: s(2) match_at_def ns_def)
  have ns: "side_ok ns" "\<not> overfull ns" using sides by (simp_all add: ns_def)
  show "match_sku m \<noteq> []" using s skus_nonempty [OF sides(1)] skus_nonempty [OF sides(2)] by (auto simp: match_at_def)
  show "2 \<le> length (match_records m side)" by (rule two)
  show "length (match_records m side) \<le> MAX_RECORDS_PER_SIDE" using ns(2) by (simp add: records overfull_def not_less)
  show "\<forall>n \<in> set (match_records m side). n_sku n = match_sku m \<and> source_record_key (n_record n) \<noteq> []"
    using side_ok_record(2) [OF ns(1)] record_ok_facts(2) unfolding records by (auto simp: in_of_sku s(2) match_at_def)
qed

lemma map_result_total: "(\<And>x. x \<in> set xs \<Longrightarrow> \<exists>y. f x = Inr y) \<Longrightarrow> \<exists>ys. map_result f xs = Inr ys"
  by (induction xs) fastforce+

lemma collisions_total:
  assumes "side_ok source" "side_ok target" "\<not> overfull source" "\<not> overfull target"
  shows "\<exists>cs. detect_canonical_key_collisions (matches_of source target) = Inr cs"
  unfolding detect_canonical_key_collisions_def
proof (rule map_result_total, clarify)
  fix m side assume "(m, side) \<in> set (match_sides (matches_of source target))"
  note facts = match_side_members [OF assms this]
  let ?keys = "sort (map (\<lambda>n. source_record_key (n_record n)) (match_records m side))"
  have "\<not> list_ex (\<lambda>k. k = []) ?keys" using facts(4) by (auto simp: list_ex_iff)
  moreover have "?keys = sort ?keys" by (simp only: sorted_sort_id sorted_sort)
  moreover have "length ?keys = length (match_records m side)" by simp
  ultimately show "\<exists>y. (let members = match_records m side in make_CanonicalKeyCollision
      \<lparr>collision_side = side, collision_sku = match_sku m, collision_count = length members,
       member_keys = sort (map (\<lambda>n. source_record_key (n_record n)) members)\<rparr>) = Inr y"
    using facts(1-3) unfolding Let_def make_CanonicalKeyCollision_def CanonicalKeyCollision.simps by simp
qed

lemma duplicates_total:
  assumes "side_ok source" "side_ok target" "\<not> overfull source" "\<not> overfull target"
  shows "\<exists>gs. detect_duplicate_record_groups (matches_of source target) = Inr gs"
  unfolding detect_duplicate_record_groups_def
proof (rule map_result_total, clarify)
  fix m side assume "(m, side) \<in> set (match_sides (matches_of source target))"
  note facts = match_side_members [OF assms this]
  let ?contents = "map (\<lambda>n. business_content (n_record n)) (match_records m side)"
  have "card (set ?contents) \<le> length (match_records m side)" by (metis card_length length_map)
  moreover have "1 \<le> card (set ?contents)"
    using facts(2) by (simp add: Suc_le_eq card_gt_0_iff) auto
  moreover have "\<not> list_ex (\<lambda>n. n_sku n \<noteq> match_sku m) (match_records m side)" using facts(4) by (auto simp: list_ex_iff)
  ultimately show "\<exists>y. (let members = match_records m side;
      distinct_count = card (set (map (\<lambda>n. business_content (n_record n)) members)) in
      make_DuplicateRecordGroup
       \<lparr>group_side_of = side, group_sku = match_sku m, group_members = members, distinct_contents = distinct_count,
        identical_members = (distinct_count = 1)\<rparr>) = Inr y"
    using facts(1-3) unfolding Let_def make_DuplicateRecordGroup_def DuplicateRecordGroup.simps by simp
qed

subsection \<open>The analysis\<close>

lemma normalize_loop_records:
  assumes "normalize_loop obs seen rs qs = Inr (rs', qs')" and "\<forall>ob \<in> set obs. 0 \<le> obs_position ob"
    and "\<forall>n \<in> set rs. 0 \<le> n_position n \<and> record_ok (n_record n) \<and> n_document n = document_of (n_record n)"
  shows "\<forall>n \<in> set rs'. 0 \<le> n_position n \<and> record_ok (n_record n) \<and> n_document n = document_of (n_record n)"
  using assms
proof (induction obs arbitrary: seen rs qs)
  case (Cons ob obs)
  from Cons.prems(1) obtain r where r: "normalize_observation ob = Inr r"
    and rest: "(case r of
         Normalized n \<Rightarrow> normalize_loop obs (insert (obs_position ob) seen) (rs @ [n]) qs
       | Quarantined q \<Rightarrow> normalize_loop obs (insert (obs_position ob) seen) rs (qs @ [q])) = Inr (rs', qs')"
    unfolding normalize_loop.simps Let_def bind_result_eq_Inr by blast
  have "faithful_result ob r" using normalize_observation_faithful [OF _ r] Cons.prems(2) by simp
  note faithful = this
  have obs: "\<forall>ob \<in> set obs. 0 \<le> obs_position ob" using Cons.prems(2) by simp
  show ?case
  proof (cases r)
    case (Normalized n)
    have "\<forall>n \<in> set (rs @ [n]). 0 \<le> n_position n \<and> record_ok (n_record n) \<and> n_document n = document_of (n_record n)"
      using faithful Cons.prems(2,3) unfolding Normalized by (auto simp: faithful_result_def)
    with rest [unfolded Normalized normalized.case] obs show ?thesis by (rule Cons.IH)
  next
    case (Quarantined q)
    from rest [unfolded Quarantined normalized.case] obs Cons.prems(3) show ?thesis by (rule Cons.IH)
  qed
qed simp

text \<open>The records of a batch that is normalized are a side of a comparison.\<close>

lemma normalized_side:
  assumes pos: "\<forall>ob \<in> set obs. 0 \<le> obs_position ob" and batch: "normalize_source_observations obs = Inr batch"
  shows "side_ok (sn_records batch)"
proof -
  from batch obtain rs qs where loop: "normalize_loop obs {} [] [] = Inr (rs, qs)"
    and made: "make_SourceNormalization \<lparr>sn_rules_version = NORMALIZATION_RULES_VERSION, sn_records = sort_key n_position rs,
        sn_quarantined = sort_key q_position qs\<rparr> = Inr batch"
    by (auto simp: normalize_source_observations_def bind_result_eq_Inr)
  have "sn_records batch = sort_key n_position rs" "distinct (map n_position (sort_key n_position rs))"
    "length rs \<le> MAX_SOURCE_OBSERVATIONS"
    using made by (auto simp: make_SourceNormalization_def ordered_unique_def result_simps)
  then show ?thesis
    using normalize_loop_records [OF loop pos] by (simp add: side_ok_def positions_ok_def)
qed

lemma normalized_side_ok:
  assumes "batch_ok obs" "normalize_source_observations obs = Inr batch"
  shows "side_ok (sn_records batch)"
  using assms by (intro normalized_side [OF _ assms(2)]) (simp add: batch_ok_def)

text \<open>The steps of an analysis whose sides match: what is computed, and where it may fail.\<close>

lemma analysis_steps:
  assumes sides: "side_ok source" "side_ok target" and full: "\<not> overfull source" "\<not> overfull target"
  obtains result cs gs where
    "match_by_canonical_key source target = Inr (matches_of source target)" "classify_matches (matches_of source target) = Inr result"
    "(\<exists>digest. fingerprint_state (map (\<lambda>k. V_ReconciliationOutcome (key_outcome k)) (classified_keys result))
        RECONCILIATION_STATE = Inr digest) \<longleftrightarrow> card (skus source \<union> skus target) \<le> 10000"
    "if \<exists>s. 64 < differing_count source target s
     then conflict_rows (map (\<lambda>k. (key_sku k, k)) (classified_keys result)) (matches_of source target) [] =
       Inl (value_error ''conflict differences exceed the limit'')
     else \<exists>rows. conflict_rows (map (\<lambda>k. (key_sku k, k)) (classified_keys result)) (matches_of source target) [] = Inr rows \<and>
       map conflict_sku rows = filter (\<lambda>s. classification (outcome_at source target s) \<noteq> MATCH)
         (sorted_list_of_set (skus source \<union> skus target))"
    "detect_canonical_key_collisions (matches_of source target) = Inr cs"
    "detect_duplicate_record_groups (matches_of source target) = Inr gs"
proof -
  let ?S = "skus source \<union> skus target"
  from pair_evidence_total [OF sides full] obtain secondary differences where evidence:
    "\<And>s. s \<in> ?S \<Longrightarrow> key_secondary (outcome_at source target s) = Inr (secondary s)"
    "\<And>s. key_differences_of (match_at source target s) = Inr (differences s)" by blast
  let ?r = "result_of source target secondary differences" and ?L = "sorted_list_of_set ?S"
  let ?keys = "map (\<lambda>k. (key_sku k, k)) (classified_keys ?r)"
  have lookup: "map_of ?keys s = Some (key_at source target secondary differences s)" if "s \<in> ?S" for s
    using that by (rule result_of_lookup)
  have rows: "if \<exists>s \<in> set ?L. 64 < differing_count source target s
    then conflict_rows ?keys (matches_of source target) [] = Inl (value_error ''conflict differences exceed the limit'')
    else \<exists>new. conflict_rows ?keys (matches_of source target) [] = Inr ([] @ new) \<and>
      map conflict_sku new = filter (\<lambda>s. classification (outcome_at source target s) \<noteq> MATCH) ?L \<and>
      (\<forall>row \<in> set new. conflict_differences row = differences (conflict_sku row))"
    unfolding matches_of_def
    by (rule conflict_rows_eq [where secondary = secondary, OF sides full lookup])
      (use evidence key_secondary_length key_differences_length [OF sides] card_skus_le [OF sides] in auto)
  have "s \<in> set ?L" if "64 < differing_count source target s" for s
    using that differing_count_present [of source target s] by simp
  then have wide: "(\<exists>s \<in> set ?L. 64 < differing_count source target s) \<longleftrightarrow> (\<exists>s. 64 < differing_count source target s)"
    by blast
  have fingerprint: "(\<exists>digest. fingerprint_state (map (\<lambda>k. V_ReconciliationOutcome (key_outcome k)) (classified_keys ?r))
      RECONCILIATION_STATE = Inr digest) \<longleftrightarrow> card ?S \<le> 10000"
    using fingerprint_state_eq [OF outcome_states [of "map key_outcome (classified_keys ?r)"]]
    by (simp add: comp_def MAX_FINGERPRINT_ITEMS_def outcome_bytes_def result_of_def)
  obtain cs gs where detected: "detect_canonical_key_collisions (matches_of source target) = Inr cs"
    "detect_duplicate_record_groups (matches_of source target) = Inr gs"
    using collisions_total [OF sides full] duplicates_total [OF sides full] by blast
  show thesis
  proof (rule that [OF _ _ fingerprint _ detected])
    show "match_by_canonical_key source target = Inr (matches_of source target)" using match_sides_ok [OF sides] full by simp
    show "classify_matches (matches_of source target) = Inr ?r" by (rule classify_matches_eq [OF sides full evidence])
  qed (use rows [unfolded wide] in \<open>auto split: if_splits\<close>)
qed

lemma analysis_success:
  assumes sides: "side_ok (sn_records source)" "side_ok (sn_records target)"
    and normalized: "normalize_source_observations (source_observations request) = Inr source"
      "normalize_source_observations (target_observations request) = Inr target"
    and identities: "SHA256_PATTERN (request_source_identity request)" "SHA256_PATTERN (request_target_identity request)"
      "1 \<le> request_query_version request"
    and full: "\<not> overfull (sn_records source)" "\<not> overfull (sn_records target)"
    and few: "card (skus (sn_records source) \<union> skus (sn_records target)) \<le> 10000"
    and narrow: "\<forall>s. differing_count (sn_records source) (sn_records target) s \<le> 64"
  shows "\<exists>analysis. analyze_reconciliation request = Inr analysis \<and>
    map conflict_sku (analysis_conflicts analysis) =
      filter (\<lambda>s. classification (outcome_at (sn_records source) (sn_records target) s) \<noteq> MATCH)
        (sorted_list_of_set (skus (sn_records source) \<union> skus (sn_records target))) \<and>
    by_classification (summary_counts (analysis_summary analysis)) =
      classification_counts (analysis_classification analysis)"
proof -
  let ?s = "sn_records source" and ?t = "sn_records target"
  obtain result cs gs where steps:
    "match_by_canonical_key ?s ?t = Inr (matches_of ?s ?t)" "classify_matches (matches_of ?s ?t) = Inr result"
    "detect_canonical_key_collisions (matches_of ?s ?t) = Inr cs" "detect_duplicate_record_groups (matches_of ?s ?t) = Inr gs"
    and fingerprint: "(\<exists>digest. fingerprint_state (map (\<lambda>k. V_ReconciliationOutcome (key_outcome k)) (classified_keys result))
        RECONCILIATION_STATE = Inr digest) \<longleftrightarrow> card (skus ?s \<union> skus ?t) \<le> 10000"
    and conflicts: "if \<exists>s. 64 < differing_count ?s ?t s
     then conflict_rows (map (\<lambda>k. (key_sku k, k)) (classified_keys result)) (matches_of ?s ?t) [] =
       Inl (value_error ''conflict differences exceed the limit'')
     else \<exists>rows. conflict_rows (map (\<lambda>k. (key_sku k, k)) (classified_keys result)) (matches_of ?s ?t) [] = Inr rows \<and>
       map conflict_sku rows = filter (\<lambda>s. classification (outcome_at ?s ?t s) \<noteq> MATCH)
         (sorted_list_of_set (skus ?s \<union> skus ?t))"
    by (rule analysis_steps [OF sides full])
  from fingerprint few obtain digest where digest:
    "fingerprint_state (map (\<lambda>k. V_ReconciliationOutcome (key_outcome k)) (classified_keys result)) RECONCILIATION_STATE = Inr digest"
    by blast
  have "\<not> (\<exists>s. 64 < differing_count ?s ?t s)" using narrow by (simp add: not_less)
  with conflicts obtain rows where rows:
    "conflict_rows (map (\<lambda>k. (key_sku k, k)) (classified_keys result)) (matches_of ?s ?t) [] = Inr rows"
    "map conflict_sku rows = filter (\<lambda>s. classification (outcome_at ?s ?t s) \<noteq> MATCH) (sorted_list_of_set (skus ?s \<union> skus ?t))"
    by auto
  from summary_total [OF identities, of result source target digest] obtain summary where
    "build_reconciliation_summary result source target (request_source_identity request)
       (request_target_identity request) (request_query_version request) digest = Inr summary"
    "by_classification (summary_counts summary) = classification_counts result" by blast
  then show ?thesis using steps digest rows by (simp add: analyze_reconciliation_def normalized)
qed

lemma summary_identities:
  assumes "build_reconciliation_summary result source target source_identity target_identity query_version digest = Inr summary"
  shows "SHA256_PATTERN source_identity" "SHA256_PATTERN target_identity" "1 \<le> query_version"
  using assms unfolding build_reconciliation_summary_def make_ReconciliationSummary_def Let_def bind_result_eq_Inr
  by (auto simp: result_simps)

text \<open>
  C14.  The analysis of two batches succeeds exactly when both batches can be normalized, the two input identities are
  SHA-256 digests and the query version is positive, no SKU has more than 1024 records on a side, there are at most 10000
  SKUs (the limit of the fingerprint, a twentieth of what matching accepts), and no pair of records differs at more than 64
  paths (the limit of a conflict row, below the 69 paths at which two valid records can differ).  Then its conflict rows are
  exactly the SKUs that are not a match, in order, and the counts of its summary are those of the classification.
  (Positions are nonnegative by the constructor of an observation.)
\<close>

theorem analysis_succeeds_iff:
  assumes positions: "\<forall>ob \<in> set (source_observations request) \<union> set (target_observations request). 0 \<le> obs_position ob"
  shows "((\<exists>analysis. analyze_reconciliation request = Inr analysis) \<longleftrightarrow>
      (\<exists>source target. normalize_source_observations (source_observations request) = Inr source \<and>
         normalize_source_observations (target_observations request) = Inr target \<and>
         \<not> overfull (sn_records source) \<and> \<not> overfull (sn_records target) \<and>
         card (skus (sn_records source) \<union> skus (sn_records target)) \<le> 10000 \<and>
         (\<forall>s. differing_count (sn_records source) (sn_records target) s \<le> 64)) \<and>
      SHA256_PATTERN (request_source_identity request) \<and> SHA256_PATTERN (request_target_identity request) \<and>
      1 \<le> request_query_version request) \<and>
    (\<forall>analysis source target. analyze_reconciliation request = Inr analysis \<and>
        normalize_source_observations (source_observations request) = Inr source \<and>
        normalize_source_observations (target_observations request) = Inr target \<longrightarrow>
      map conflict_sku (analysis_conflicts analysis) =
        filter (\<lambda>s. classification_of (map n_record (of_sku s (sn_records source)))
            (map n_record (of_sku s (sn_records target))) \<noteq> MATCH)
          (sorted_list_of_set (skus (sn_records source) \<union> skus (sn_records target))) \<and>
      by_classification (summary_counts (analysis_summary analysis)) =
        classification_counts (analysis_classification analysis))"
proof (cases "\<exists>source target. normalize_source_observations (source_observations request) = Inr source \<and>
    normalize_source_observations (target_observations request) = Inr target")
  case False
  then have "analyze_reconciliation request \<noteq> Inr analysis" for analysis
    by (auto simp: analyze_reconciliation_def result_simps)
  then show ?thesis using False by blast
next
  case True
  then obtain source target where normalized: "normalize_source_observations (source_observations request) = Inr source"
    "normalize_source_observations (target_observations request) = Inr target" by blast
  let ?s = "sn_records source" and ?t = "sn_records target"
  let ?limits = "\<not> overfull ?s \<and> \<not> overfull ?t \<and> card (skus ?s \<union> skus ?t) \<le> 10000 \<and> (\<forall>s. differing_count ?s ?t s \<le> 64)"
  let ?identities = "SHA256_PATTERN (request_source_identity request) \<and> SHA256_PATTERN (request_target_identity request) \<and>
    1 \<le> request_query_version request"
  have sides: "side_ok ?s" "side_ok ?t" using normalized_side positions normalized by blast+
  have outcome: "classification (outcome_at ?s ?t s) =
      classification_of (map n_record (of_sku s ?s)) (map n_record (of_sku s ?t))" for s
    by (simp add: outcome_at_def outcome_of_def)
  show ?thesis
  proof (cases "?limits \<and> ?identities")
    case True
    then have "?limits" "?identities" by blast+
    with analysis_success [OF sides normalized] show ?thesis unfolding outcome using normalized by auto
  next
    case False
    have "analyze_reconciliation request \<noteq> Inr analysis" for analysis
    proof (cases "?identities")
      case False
      show ?thesis
      proof
        assume "analyze_reconciliation request = Inr analysis"
        then obtain result digest summary where "build_reconciliation_summary result source target (request_source_identity request)
            (request_target_identity request) (request_query_version request) digest = Inr summary"
          by (auto simp: analyze_reconciliation_def normalized result_simps)
        from summary_identities [OF this] False show False by blast
      qed
    next
      case identities: True
      show ?thesis
      proof (cases "overfull ?s \<or> overfull ?t")
        case True
        then show ?thesis by (simp add: analyze_reconciliation_def normalized match_sides_ok [OF sides])
      next
        case full: False
        then have "\<not> overfull ?s" "\<not> overfull ?t" by simp_all
        then show ?thesis
          by (rule analysis_steps [OF sides])
            (use full False identities in \<open>auto simp: analyze_reconciliation_def normalized not_le result_simps split: if_splits\<close>)
      qed
    qed
    then show ?thesis using False normalized by auto
  qed
qed

text \<open>A batch compared with itself.\<close>

definition example_request :: ReconciliationAnalysisRequest where
  "example_request =
     \<lparr>source_observations = example_batch, target_observations = example_batch,
      request_source_identity = replicate 64 CHR ''a'', request_target_identity = replicate 64 CHR ''a'',
      request_query_version = 1\<rparr>"

theorem analysis_succeeds_iff_witness:
  "\<exists>analysis. analyze_reconciliation example_request = Inr analysis"
proof -
  from normalize_batch [OF example_batch_ok] obtain results where
    faithful: "list_all2 faithful_result example_batch results"
    and normalized: "normalize_source_observations example_batch = Inr \<lparr>sn_rules_version = NORMALIZATION_RULES_VERSION,
       sn_records = sort_key n_position (accepted results), sn_quarantined = sort_key q_position (refused results)\<rparr>"
    by blast
  define batch where "batch = \<lparr>sn_rules_version = NORMALIZATION_RULES_VERSION,
       sn_records = sort_key n_position (accepted results), sn_quarantined = sort_key q_position (refused results)\<rparr>"
  note batch = normalized [folded batch_def]
  let ?ns = "sn_records batch"
  have "size (mset (map n_position (accepted results))) \<le> size (mset (map obs_position example_batch))"
    unfolding positions_partition(1) [OF faithful, symmetric] by simp
  then have few: "length ?ns \<le> 2" by (simp add: batch_def example_batch_def)
  have "length (of_sku s ?ns) \<le> 1024" for s
    unfolding of_sku_def by (rule order_trans [OF order_trans [OF length_filter_le few]]) simp
  then have full: "\<not> overfull ?ns" by (simp add: overfull_def MAX_RECORDS_PER_SIDE_def not_less)
  have "card (skus ?ns \<union> skus ?ns) \<le> 10000"
    using few card_image_le [of "set ?ns" n_sku] card_length [of ?ns] by (simp add: skus_def)
  moreover have "differing_count ?ns ?ns s \<le> 64" for s
    by (simp add: differing_count_def differing_paths_def split: list.split)
  moreover have "SHA256_PATTERN (replicate 64 CHR ''a'')" by code_simp
  ultimately show ?thesis
    using analysis_succeeds_iff [of example_request] full batch
    by (simp add: example_request_def example_batch_def)
qed

text \<open>Two valid records that differ at 65 paths: their names, and 32 attributes that only one of them has.\<close>

definition wide_attributes :: "char \<Rightarrow> InventoryAttributes" where
  "wide_attributes c = map (\<lambda>i. ([c, digit_char (i div 10), digit_char (i mod 10)], ''x'')) [0..<32]"

definition wide_record :: "char \<Rightarrow> InventoryRecord" where
  "wide_record c = (example_record 1 ''r1'')\<lparr>name := [c], attributes := wide_attributes c\<rparr>"

lemma wide_record_ok: "c \<in> {CHR ''a'', CHR ''b''} \<Longrightarrow> record_ok (wide_record c)"
proof -
  have "attributes_ok (wide_attributes CHR ''a'')" "attributes_ok (wide_attributes CHR ''b'')"
    "normalize_business_text [CHR ''a''] ''inventory name'' 160 320 False = Inr [CHR ''a'']"
    "normalize_business_text [CHR ''b''] ''inventory name'' 160 320 False = Inr [CHR ''b'']"
    by code_simp+
  then show "c \<in> {CHR ''a'', CHR ''b''} \<Longrightarrow> record_ok (wide_record c)"
    using example_record_ok [of 1]
    by (auto simp: record_ok_def make_InventoryRecord_def wide_record_def bind_result_eq_Inr)
qed

lemma wide_pair_differs:
  "64 < card (differing_paths (document_of (wide_record CHR ''a'')) (document_of (wide_record CHR ''b'')))"
proof -
  let ?r = "wide_record CHR ''a''" and ?r' = "wide_record CHR ''b''"
  let ?a = "keys (wide_attributes CHR ''a'')" and ?b = "keys (wide_attributes CHR ''b'')"
  let ?ps = "''name'' # map ((@) ''attributes/'') (?a @ ?b)"
  have ps: "distinct ?ps" "length ?ps = 65" "set ?a \<inter> set ?b = {}" by code_simp+
  have attrs: "attributes ?r = wide_attributes CHR ''a''" "attributes ?r' = wide_attributes CHR ''b''"
    "well_keyed (attributes ?r)" "well_keyed (attributes ?r')"
    using wide_record_ok [of "CHR ''a''"] wide_record_ok [of "CHR ''b''"]
    by (simp_all add: record_ok_def attributes_ok_def) (simp_all add: wide_record_def)
  have leaf: "leaf_at (document_of x) (''attributes/'' @ k) = leaf_of_kind Kind_MISSING \<longleftrightarrow> k \<notin> set (keys (attributes x))"
    if "well_keyed (attributes x)" for x k
  proof (cases "map_of (attributes x) k")
    case None
    then show ?thesis
      unfolding leaf_at_document [OF that] field_leaf_attribute in_keys_iff_map_of by simp
  next
    case (Some v)
    then show ?thesis
      unfolding leaf_at_document [OF that] field_leaf_attribute in_keys_iff_map_of by (simp add: leaf_inj)
  qed
  have "p \<in> differing_paths (document_of ?r) (document_of ?r')" if p: "p \<in> set ?ps" for p
  proof (cases "p = ''name''")
    case True
    then show ?thesis
      by (simp add: leaf_at_document attrs(3,4) field_leaf_def fixed_leaves_def leaf_inj) (simp add: wide_record_def)
  next
    case False
    then obtain k where k: "p = ''attributes/'' @ k" "k \<in> set ?a \<or> k \<in> set ?b" using p by auto
    then have "leaf_at (document_of ?r) p = leaf_of_kind Kind_MISSING \<longleftrightarrow> leaf_at (document_of ?r') p \<noteq> leaf_of_kind Kind_MISSING"
      using leaf [OF attrs(3), of k] leaf [OF attrs(4), of k] ps(3) unfolding attrs(1,2) k(1) by blast
    then show ?thesis by auto
  qed
  then have "set ?ps \<subseteq> differing_paths (document_of ?r) (document_of ?r')" by (rule subsetI)
  then have "card (set ?ps) \<le> card (differing_paths (document_of ?r) (document_of ?r'))"
    by (rule card_mono [OF finite_differing_paths])
  then show ?thesis using distinct_card [OF ps(1)] ps(2) by simp
qed

end
