(* ===== verification/Repair_Planning.thy ===== *)
theory Repair_Planning
  imports Analysis_Properties
begin

text \<open>
  Derived identities of the repair workflow (\<^verbatim>\<open>application/repair/identities.py\<close>) and the generation of the one
  repair plan of an analysis (\<^verbatim>\<open>application/repair/planning.py\<close>, with \<^verbatim>\<open>RepairActionKeyMap\<close> of
  \<^verbatim>\<open>application/ports/repair_audit.py\<close>).  The texts are ASCII, so \<^verbatim>\<open>lower\<close> acts on the letters A to Z.
\<close>

subsection \<open>Slugs\<close>

definition ID_PAYLOAD_MAXIMUM :: nat where "ID_PAYLOAD_MAXIMUM = 64"
definition IDEMPOTENCY_KEY_MAXIMUM :: nat where "IDEMPOTENCY_KEY_MAXIMUM = 128"

definition lower_char :: "char \<Rightarrow> char" where
  "lower_char c = (if is_upper c then char_of (code c + 32) else c)"

definition lower :: "string \<Rightarrow> string" where
  "lower = map lower_char"

definition run_slug :: "prefixed_id \<Rightarrow> string" where
  "run_slug run = lower (if take 4 (id_value run) = ''run_'' then drop 4 (id_value run) else id_value run)"

fun hyphenated :: "string list \<Rightarrow> string" where
  "hyphenated [] = []"
| "hyphenated [p] = p"
| "hyphenated (p # ps) = p @ CHR ''-'' # hyphenated ps"

definition rstrip_hyphen :: "string \<Rightarrow> string" where
  "rstrip_hyphen t = rev (dropWhile (\<lambda>c. c = CHR ''-'') (rev t))"

definition slug :: "string list \<Rightarrow> string" where
  "slug parts =
     (let joined = hyphenated (filter (\<lambda>part. part \<noteq> []) parts) in
      if length joined \<le> ID_PAYLOAD_MAXIMUM then joined
      else
        let digest = take 16 (sha256_hexdigest joined);
            truncated = take (ID_PAYLOAD_MAXIMUM - 17) joined in
        rstrip_hyphen truncated @ CHR ''-'' # digest)"

subsection \<open>Identities\<close>

definition policy_text :: "RepairPlanBinding \<Rightarrow> string" where
  "policy_text b =
     (let parts = map int_str [policy_version b, generation_version b, binding_rules_version b,
        binding_analysis_version b, binding_analytical_query_version b] in
      hd parts @ concat (map (\<lambda>p. CHR ''.'' # p) (tl parts)))"

definition derive_plan_id :: "prefixed_id \<Rightarrow> StateFingerprint \<Rightarrow> RepairPlanBinding option \<Rightarrow> prefixed_id recon_result" where
  "derive_plan_id run reconciliation binding =
     bind_result
       (case binding of
          None \<Rightarrow> Inr []
        | Some b \<Rightarrow>
            bind_result (require (\<not> (binding_run_id b \<noteq> run \<or> reconciliation_fingerprint b \<noteq> reconciliation))
              (value_error ''repair plan binding does not match plan identity'')) (\<lambda>_.
            Inr [take 12 (source_input_identity b), take 12 (target_input_identity b), policy_text b])) (\<lambda>pieces.
     lift_py (identifier_parse RepairPlanId
       (''rpl_'' @ slug ([run_slug run, take 24 reconciliation] @ pieces))))"

definition derive_conflict_id :: "prefixed_id \<Rightarrow> string \<Rightarrow> prefixed_id recon_result" where
  "derive_conflict_id run canonical_key =
     lift_py (identifier_parse ConflictId (''cnf_'' @ slug [run_slug run, lower canonical_key]))"

definition derive_action_id ::
  "prefixed_id \<Rightarrow> StateFingerprint \<Rightarrow> string \<Rightarrow> RepairPlanBinding option \<Rightarrow> prefixed_id recon_result" where
  "derive_action_id run reconciliation canonical_key binding =
     bind_result
       (case binding of
          None \<Rightarrow> Inr []
        | Some b \<Rightarrow> bind_result (derive_plan_id run reconciliation binding) (\<lambda>plan. Inr [drop 4 (id_value plan)])) (\<lambda>pieces.
     lift_py (identifier_parse RepairActionId
       (''rac_'' @ slug ([run_slug run, take 16 reconciliation, lower canonical_key] @ pieces))))"

definition derive_action_idempotency_key :: "prefixed_id \<Rightarrow> StateFingerprint \<Rightarrow> string \<Rightarrow> string" where
  "derive_action_idempotency_key run content canonical_key =
     (let key = ''repair.'' @ run_slug run @ ''.'' @ take 24 content @ ''.'' @ canonical_key in
      if length key > IDEMPOTENCY_KEY_MAXIMUM
      then ''repair.'' @ run_slug run @ ''.'' @ take 32 (sha256_hexdigest key)
      else key)"

definition derive_verification_id :: "prefixed_id \<Rightarrow> StateFingerprint \<Rightarrow> StateFingerprint \<Rightarrow> prefixed_id recon_result" where
  "derive_verification_id run reconciliation observed =
     lift_py (identifier_parse TargetVerificationId
       (''tgv_'' @ slug [run_slug run, take 16 reconciliation, take 24 observed]))"

subsection \<open>Generation\<close>

definition REPAIR_GENERATION_POLICY_VERSION :: int where "REPAIR_GENERATION_POLICY_VERSION = 1"
definition REPAIR_GENERATION_VERSION :: int where "REPAIR_GENERATION_VERSION = 1"

definition REPAIRABLE_CLASSIFICATIONS :: "ReconciliationClassification set" where
  "REPAIRABLE_CLASSIFICATIONS = {MISSING_FROM_TARGET, FIELD_MISMATCH}"

type_synonym RepairActionKeyMap = "(prefixed_id \<times> string) list"

definition make_RepairActionKeyMap :: "(prefixed_id, string) dict \<Rightarrow> RepairActionKeyMap recon_result" where
  "make_RepairActionKeyMap pairs =
     bind_result (require (card (set (map fst pairs)) = length pairs)
       (value_error ''repair action identities must be unique'')) (\<lambda>_.
     bind_result (require (card (set (map snd pairs)) = length pairs)
       (value_error ''external repair keys must be unique'')) (\<lambda>_.
     Inr (sort_key (\<lambda>p. id_value (fst p)) pairs)))"

record GeneratedRepairPlan =
  generated_plan :: "RepairPlan option"
  content_fingerprint :: "StateFingerprint option"
  action_keys :: "RepairActionKeyMap option"
  generated_binding :: RepairPlanBinding
  repairable_keys :: "string list"
  review_only_keys :: "string list"

definition make_GeneratedRepairPlan :: "GeneratedRepairPlan \<Rightarrow> GeneratedRepairPlan recon_result" where
  "make_GeneratedRepairPlan g =
     (let empty = (generated_plan g = None) in
      bind_result (require (\<not> (empty \<noteq> (content_fingerprint g = None) \<or> empty \<noteq> (action_keys g = None)))
        (value_error ''generated plan parts must be present together'')) (\<lambda>_.
      bind_result (require (action_count (generated_binding g) = length (repairable_keys g))
        (value_error ''generated plan binding must cover every repairable key'')) (\<lambda>_.
      Inr g)))"

text \<open>The loop over the keys, with the three lists it fills.\<close>

fun split_outcomes ::
  "ClassifiedKey list \<Rightarrow> ReconciliationOutcome list \<Rightarrow> string list \<Rightarrow> string list \<Rightarrow>
     ReconciliationOutcome list \<times> string list \<times> string list" where
  "split_outcomes [] outcomes repairable review_only = (outcomes, repairable, review_only)"
| "split_outcomes (k # ks) outcomes repairable review_only =
     (let outcome = key_outcome k in
      if classification outcome \<notin> REPAIRABLE_CLASSIFICATIONS
      then split_outcomes ks outcomes repairable (review_only @ [outcome_sku outcome])
      else split_outcomes ks (outcomes @ [outcome]) (repairable @ [outcome_sku outcome]) review_only)"

definition replace_count :: "RepairPlanBinding \<Rightarrow> nat \<Rightarrow> RepairPlanBinding recon_result" where
  "replace_count binding n = make_RepairPlanBinding (binding\<lparr>action_count := n\<rparr>)"

definition plan_action ::
  "prefixed_id \<Rightarrow> StateFingerprint \<Rightarrow> RepairPlanBinding \<Rightarrow> ReconciliationOutcome \<Rightarrow> RepairAction recon_result" where
  "plan_action run fingerprint bound outcome =
     bind_result (derive_action_id run fingerprint (outcome_sku outcome) (Some bound)) (\<lambda>action.
     bind_result (derive_conflict_id run (outcome_sku outcome)) (\<lambda>conflict.
     action_from_outcome action conflict fingerprint outcome))"

definition generate_repair_plan :: "prefixed_id \<Rightarrow> ReconciliationAnalysis \<Rightarrow> GeneratedRepairPlan repair_result" where
  "generate_repair_plan run analysis =
     (let summary = analysis_summary analysis; fingerprint = summary_fingerprint summary in
      bind_result (lift_recon (require_id_kind RunId run ''repair generation'')) (\<lambda>_.
      bind_result (lift_recon (make_RepairPlanBinding
        \<lparr>binding_run_id = run, reconciliation_fingerprint = fingerprint,
         source_input_identity = summary_source_identity summary,
         target_input_identity = summary_target_identity summary,
         policy_version = REPAIR_GENERATION_POLICY_VERSION, generation_version = REPAIR_GENERATION_VERSION,
         binding_rules_version = summary_rules_version summary, binding_analysis_version = analysis_version summary,
         binding_analytical_query_version = analytical_query_version summary, action_count = 0\<rparr>)) (\<lambda>binding.
      let (outcomes, repairable, review_only) = split_outcomes (classified_keys (analysis_classification analysis)) [] [] [] in
      if outcomes = [] then
        bind_result (lift_recon (replace_count binding 0)) (\<lambda>bound.
        lift_recon (make_GeneratedRepairPlan
          \<lparr>generated_plan = None, content_fingerprint = None, action_keys = None, generated_binding = bound,
           repairable_keys = [], review_only_keys = sort review_only\<rparr>))
      else
        bind_result (lift_recon (replace_count binding (length outcomes))) (\<lambda>bound.
        bind_result (lift_recon (map_result (plan_action run fingerprint bound) outcomes)) (\<lambda>actions.
        bind_result (lift_recon (derive_plan_id run fingerprint (Some bound))) (\<lambda>plan.
        bind_result (lift_recon (make_RepairPlan
          \<lparr>plan_id = plan, plan_fingerprint = fingerprint, plan_actions = actions, plan_binding = Some bound\<rparr>)) (\<lambda>plan.
        bind_result (fingerprint_state [V_RepairPlan plan] REPAIR_PLAN_CONTENT) (\<lambda>content.
        let ks = foldl (\<lambda>d a. AList.update (action_id a) (derive_action_idempotency_key run content (action_sku a)) d) []
          (plan_actions plan) in
        bind_result (lift_recon (make_RepairActionKeyMap ks)) (\<lambda>key_map.
        lift_recon (make_GeneratedRepairPlan
          \<lparr>generated_plan = Some plan, content_fingerprint = Some content, action_keys = Some key_map,
           generated_binding = bound, repairable_keys = sort repairable, review_only_keys = sort review_only\<rparr>)))))))))) "

text \<open>\<^verbatim>\<open>validate_safe_action_matrix\<close>: whether the policy agrees with the safe-resolution mapping.\<close>

definition safe_action_matrix :: bool where
  "safe_action_matrix =
     list_all (\<lambda>c. (c \<in> REPAIRABLE_CLASSIFICATIONS) =
         (suggested_resolution_for c \<in> {Resolution_CREATE_TARGET, Resolution_UPDATE_TARGET}))
       [MATCH, MISSING_FROM_TARGET, MISSING_FROM_SOURCE, FIELD_MISMATCH, DUPLICATE_SOURCE, DUPLICATE_TARGET, DUPLICATE_BOTH]"

end
