(* ===== verification/Repair_Identities.thy ===== *)
theory Repair_Identities
  imports Repair_Planning
begin

text \<open>
  Which derived identities are valid identifiers, and which of them are different.
\<close>

subsection \<open>Segmented text\<close>

abbreviation id_body :: "char \<Rightarrow> bool" where "id_body c \<equiv> is_lower c \<or> is_digit c"
abbreviation id_sep :: "char \<Rightarrow> bool" where "id_sep c \<equiv> c = CHR ''-''"

lemma id_disjoint: "id_body c \<Longrightarrow> \<not> id_sep c"
proof -
  have "\<not> is_lower CHR ''-'' \<and> \<not> is_digit CHR ''-''" by code_simp
  then show "id_body c \<Longrightarrow> \<not> id_sep c" by blast
qed

lemma payload_pattern_segments: "payload_pattern s \<longleftrightarrow> segments id_body id_sep s"
  unfolding payload_pattern_def by (rule seg_start_iff) (rule id_disjoint)

lemma segments_append: "segments body sep s \<Longrightarrow> sep c \<Longrightarrow> segments body sep t \<Longrightarrow> segments body sep (s @ c # t)"
proof (induction rule: segments.induct)
  case (one s)
  then show ?case using segments.more [of s body sep c t] by simp
next
  case (more s d u)
  then have "segments body sep (s @ d # (u @ c # t))"
    using segments.more [of s body sep d "u @ c # t"] by simp
  then show ?case by simp
qed

lemma segments_nonempty: "segments body sep s \<Longrightarrow> s \<noteq> []"
  by (induction rule: segments.induct) simp_all

lemma segments_chars: "segments body sep s \<Longrightarrow> c \<in> set s \<Longrightarrow> body c \<or> sep c"
  by (induction rule: segments.induct) (auto simp: list_all_iff)

lemma segments_last: "segments body sep s \<Longrightarrow> body (last s)"
proof (induction rule: segments.induct)
  case (one s)
  then show ?case by (simp add: list_all_iff)
next
  case (more s c t)
  then show ?case using segments_nonempty by auto
qed

text \<open>A prefix of segmented text is segmented, or is so without its last character, a separator.\<close>

lemma segments_take:
  assumes "segments body sep s" "0 < n"
  shows "segments body sep (take n s) \<or> (\<exists>t c. take n s = t @ [c] \<and> sep c \<and> segments body sep t)"
  using assms
proof (induction arbitrary: n rule: segments.induct)
  case (one s)
  then show ?case by (intro disjI1 segments.one) (auto simp: list_all_iff dest: in_set_takeD)
next
  case (more s c t)
  consider "n \<le> length s" | "n = Suc (length s)" | m where "n = Suc (length s) + m" "0 < m"
    by (metis Suc_leI add_0_right le_add_diff_inverse linorder_not_le neq0_conv le_SucE)
  then show ?case
  proof cases
    case 1
    then have "segments body sep (take n s)"
      using more.prems more.hyps(1,2) by (intro segments.one) (auto simp: list_all_iff dest: in_set_takeD)
    with 1 show ?thesis by simp
  next
    case 2
    then have "take n (s @ c # t) = s @ [c]" by simp
    then show ?thesis using more.hyps(1,2,3) segments.one [of s body sep] by blast
  next
    case (3 m)
    have eq: "take n (s @ c # t) = s @ c # take m t" using 3(1) by simp
    from more.IH [OF 3(2)] show ?thesis
    proof
      assume "segments body sep (take m t)"
      then show ?thesis unfolding eq using more.hyps(1,2,3) by (intro disjI1 segments.more)
    next
      assume "\<exists>t' d. take m t = t' @ [d] \<and> sep d \<and> segments body sep t'"
      then obtain t' d where t': "take m t = t' @ [d]" "sep d" "segments body sep t'" by blast
      from more.hyps(1,2,3) t'(3) have "segments body sep (s @ c # t')" by (rule segments.more)
      then show ?thesis unfolding eq t'(1) using t'(2) by (intro disjI2 exI [of _ "s @ c # t'"]) auto
    qed
  qed
qed

lemma rstrip_segments:
  assumes "segments id_body id_sep s" "0 < n"
  shows "segments id_body id_sep (rstrip_hyphen (take n s))"
proof -
  have keep: "rstrip_hyphen t = t" if "segments id_body id_sep t" for t
  proof -
    have "t \<noteq> []" "last t \<noteq> CHR ''-''"
      using segments_nonempty [OF that] segments_last [OF that] id_disjoint by auto
    then show ?thesis by (cases t rule: rev_cases) (simp_all add: rstrip_hyphen_def)
  qed
  from segments_take [OF assms] show ?thesis
  proof
    assume "\<exists>t c. take n s = t @ [c] \<and> id_sep c \<and> segments id_body id_sep t"
    then obtain t where "take n s = t @ [CHR ''-'']" "segments id_body id_sep t" by blast
    moreover have "rstrip_hyphen (t @ [CHR ''-'']) = rstrip_hyphen t" by (simp add: rstrip_hyphen_def)
    ultimately show ?thesis using keep by simp
  qed (simp add: keep)
qed

lemma rstrip_length: "length (rstrip_hyphen t) \<le> length t"
  unfolding rstrip_hyphen_def by (metis length_dropWhile_le length_rev)

lemma hyphenated_segments:
  "ps \<noteq> [] \<Longrightarrow> \<forall>p \<in> set ps. segments id_body id_sep p \<Longrightarrow> segments id_body id_sep (hyphenated ps)"
proof (induction ps rule: hyphenated.induct)
  case (3 p q ps)
  then show ?case by (auto intro!: segments_append)
qed simp_all

lemma hyphenated_append: "ps \<noteq> [] \<Longrightarrow> qs \<noteq> [] \<Longrightarrow> hyphenated (ps @ qs) = hyphenated ps @ CHR ''-'' # hyphenated qs"
proof (induction ps rule: hyphenated.induct)
  case (2 p)
  then show ?case by (cases qs) auto
qed simp_all

lemma hex_segments: "list_all is_lower_hex t \<Longrightarrow> t \<noteq> [] \<Longrightarrow> segments id_body id_sep t"
proof (rule segments.one)
  assume t: "list_all is_lower_hex t"
  have "list_all id_body ''0123456789abcdef''" by code_simp
  then have "id_body c" if "is_lower_hex c" for c
    using that unfolding is_lower_hex_def list_all_iff by blast
  with t show "list_all id_body t" unfolding list_all_iff by blast
qed

lemma pattern_take_segments: "SHA256_PATTERN f \<Longrightarrow> 0 < n \<Longrightarrow> segments id_body id_sep (take n f)"
  by (intro hex_segments) (auto simp: SHA256_PATTERN_def list_all_iff dest: in_set_takeD)

lemma pattern_take_length: "SHA256_PATTERN f \<Longrightarrow> n \<le> 64 \<Longrightarrow> length (take n f) = n"
  by (simp add: SHA256_PATTERN_def)

subsection \<open>Valid identifiers\<close>

lemma segments_ascii: "segments id_body id_sep s \<Longrightarrow> list_all is_ascii s"
proof -
  have "is_ascii CHR ''-''" by code_simp
  moreover have "is_ascii c" if "is_lower c" for c using that unfolding is_ascii_def is_lower_def by linarith
  moreover have "is_ascii c" if "is_digit c" for c using that unfolding is_ascii_def is_digit_def by linarith
  ultimately have char: "is_ascii c" if "id_body c \<or> id_sep c" for c using that by blast
  assume s: "segments id_body id_sep s"
  show "list_all is_ascii s" unfolding list_all_iff using segments_chars [OF s] char by blast
qed

lemma identifier_from_payload:
  assumes "segments id_body id_sep payload" "3 \<le> length payload" "length payload \<le> 64"
  shows "identifier_parse k (id_prefix k @ ''_'' @ payload) = Inr (Identifier k (id_prefix k @ ''_'' @ payload))"
proof -
  have "list_all is_ascii (id_prefix k @ ''_'')" by (cases k) (simp_all, code_simp+)
  then have "validate_identifier (id_prefix k) (id_prefix k @ ''_'' @ payload) = Inr (id_prefix k @ ''_'' @ payload)"
    unfolding validate_identifier_Inr
    using assms segments_ascii [OF assms(1)] by (auto simp: MIN_PAYLOAD_LENGTH_def MAX_PAYLOAD_LENGTH_def payload_pattern_segments)
  then show ?thesis by (simp add: identifier_parse_Inr)
qed

text \<open>A slug is a valid payload when what it keeps of the joined parts is.\<close>

definition joined :: "string list \<Rightarrow> string" where
  "joined parts = hyphenated (filter (\<lambda>part. part \<noteq> []) parts)"

lemma slug_segments:
  assumes "length (joined parts) \<le> 64 \<Longrightarrow> segments id_body id_sep (joined parts)"
    and "64 < length (joined parts) \<Longrightarrow> segments id_body id_sep (take 47 (joined parts)) \<or>
      (\<exists>a. segments id_body id_sep a \<and> take 47 (joined parts) = take 47 a)"
    and "3 \<le> length (joined parts)"
  shows "segments id_body id_sep (slug parts) \<and> 3 \<le> length (slug parts) \<and> length (slug parts) \<le> 64"
proof (cases "length (joined parts) \<le> 64")
  case True
  then show ?thesis using assms(1,3) by (simp add: slug_def joined_def ID_PAYLOAD_MAXIMUM_def Let_def)
next
  case False
  let ?t = "take 47 (joined parts)" and ?d = "take 16 (sha256_hexdigest (joined parts))"
  have "segments id_body id_sep (rstrip_hyphen ?t)"
    using assms(2) False rstrip_segments [of "?t" 47] rstrip_segments [of _ 47] by (auto simp: not_le)
  moreover have d: "segments id_body id_sep ?d" "length ?d = 16"
    using pattern_take_segments [OF sha256_hexdigest_pattern] pattern_take_length [OF sha256_hexdigest_pattern] by simp_all
  ultimately have "segments id_body id_sep (rstrip_hyphen ?t @ CHR ''-'' # ?d)" by (intro segments_append) simp_all
  moreover have "slug parts = rstrip_hyphen ?t @ CHR ''-'' # ?d"
    using False by (simp add: slug_def joined_def ID_PAYLOAD_MAXIMUM_def Let_def)
  moreover have "length (rstrip_hyphen ?t) \<le> 47" using rstrip_length [of ?t] by simp
  ultimately show ?thesis using d(2) by simp
qed

lemma slug_identifier:
  assumes "\<forall>p \<in> set parts. segments id_body id_sep p" "parts \<noteq> []" "3 \<le> length (joined parts)"
  shows "identifier_parse k (id_prefix k @ ''_'' @ slug parts) = Inr (Identifier k (id_prefix k @ ''_'' @ slug parts))"
proof -
  have "filter (\<lambda>part. part \<noteq> []) parts = parts" using assms(1) segments_nonempty by (auto simp: filter_id_conv)
  then have "segments id_body id_sep (joined parts)"
    unfolding joined_def using hyphenated_segments [OF assms(2,1)] by simp
  then have "segments id_body id_sep (slug parts) \<and> 3 \<le> length (slug parts) \<and> length (slug parts) \<le> 64"
    using assms(3) by (intro slug_segments) auto
  then show ?thesis by (intro identifier_from_payload) simp_all
qed

subsection \<open>The parts of the derived identities\<close>

lemma lower_char_id: "id_body c \<or> id_sep c \<Longrightarrow> lower_char c = c"
proof -
  assume c: "id_body c \<or> id_sep c"
  have "\<not> is_upper CHR ''-''" by code_simp
  moreover have "\<not> is_upper c" if "is_lower c" using that unfolding is_lower_def is_upper_def by linarith
  moreover have "\<not> is_upper c" if "is_digit c" using that unfolding is_digit_def is_upper_def by linarith
  ultimately have "\<not> is_upper c" using c by blast
  then show ?thesis by (simp add: lower_char_def)
qed

lemma lower_char_upper: "is_upper c \<Longrightarrow> is_lower (lower_char c)"
  by (simp add: lower_char_def is_lower_def) (simp add: is_upper_def)

lemma run_slug_eq:
  assumes "identifier_parse RunId t = Inr run"
  shows "id_value run = ''run_'' @ run_slug run" "segments id_body id_sep (run_slug run)"
    "3 \<le> length (run_slug run)" "length (run_slug run) \<le> 64"
proof -
  from assms obtain payload where run: "id_value run = ''run_'' @ payload"
    and payload: "segments id_body id_sep payload" "3 \<le> length payload" "length payload \<le> 64"
    by (auto simp: identifier_parse_Inr validate_identifier_Inr payload_pattern_segments
        MIN_PAYLOAD_LENGTH_def MAX_PAYLOAD_LENGTH_def)
  have "lower payload = payload"
    unfolding lower_def by (rule map_idI) (use segments_chars [OF payload(1)] lower_char_id in blast)
  then have "run_slug run = payload" by (simp add: run_slug_def run)
  with run payload show "id_value run = ''run_'' @ run_slug run" "segments id_body id_sep (run_slug run)"
    "3 \<le> length (run_slug run)" "length (run_slug run) \<le> 64" by simp_all
qed

lemma lower_sku_segments: "SKU_PATTERN s \<Longrightarrow> segments id_body id_sep (lower s)"
proof -
  assume "SKU_PATTERN s"
  have hyphen: "\<not> is_upper CHR ''-'' \<and> \<not> is_digit CHR ''-''" by code_simp
  then have "segments (\<lambda>c. is_upper c \<or> is_digit c) id_sep s"
    using \<open>SKU_PATTERN s\<close> seg_start_iff [of "\<lambda>c. is_upper c \<or> is_digit c" id_sep s]
    unfolding SKU_PATTERN_def by blast
  then show ?thesis
  proof (induction s rule: segments.induct)
    case (one s)
    have "id_body (lower_char c)" if "c \<in> set s" for c
      using that one(2) lower_char_upper lower_char_id [of c] by (auto simp: list_all_iff)
    then show ?case using one(1) by (intro segments.one) (simp_all add: lower_def list_all_iff)
  next
    case (more s c t)
    have "segments id_body id_sep (lower s)"
    proof (rule segments.one)
      have "id_body (lower_char c)" if "c \<in> set s" for c
        using that more.hyps(2) lower_char_upper lower_char_id [of c] by (auto simp: list_all_iff)
      then show "list_all id_body (lower s)" by (simp add: lower_def list_all_iff)
    qed (use more.hyps(1) in \<open>simp add: lower_def\<close>)
    moreover have "id_sep (lower_char c)" using more.hyps(3) lower_char_id [of c] by simp
    ultimately have "segments id_body id_sep (lower s @ lower_char c # lower t)"
      using more.IH by (intro segments_append)
    then show ?case by (simp add: lower_def)
  qed
qed

lemma length_hyphenated: "ps \<noteq> [] \<Longrightarrow> Suc (length (hyphenated ps)) = sum_list (map (\<lambda>p. Suc (length p)) ps)"
  by (induction ps rule: hyphenated.induct) simp_all

lemma joined_segments: "\<forall>p \<in> set ps. p \<noteq> [] \<Longrightarrow> joined ps = hyphenated ps"
  by (simp add: joined_def filter_id_conv)

subsection \<open>Which identities are accepted\<close>

lemma conflict_id_accepted:
  assumes "identifier_parse RunId t = Inr run" "SKU_PATTERN s"
  shows "derive_conflict_id run s = Inr (Identifier ConflictId (''cnf_'' @ slug [run_slug run, lower s]))"
proof -
  note run = run_slug_eq [OF assms(1)] and key = lower_sku_segments [OF assms(2)]
  have "3 \<le> length (joined [run_slug run, lower s])"
    using run(3) segments_nonempty [OF run(2)] segments_nonempty [OF key] by (simp add: joined_segments)
  then show ?thesis
    using slug_identifier [of "[run_slug run, lower s]" ConflictId] run(2) key by (simp add: derive_conflict_id_def)
qed

text \<open>The plan identity holds the versions with dots, which no identifier may contain; they have to be cut off.\<close>

definition plan_parts :: "prefixed_id \<Rightarrow> RepairPlanBinding \<Rightarrow> string list" where
  "plan_parts run b =
     [run_slug run, take 24 (reconciliation_fingerprint b), take 12 (source_input_identity b), take 12 (target_input_identity b)]"

definition binding_for :: "prefixed_id \<Rightarrow> StateFingerprint \<Rightarrow> RepairPlanBinding \<Rightarrow> bool" where
  "binding_for run f b \<longleftrightarrow> binding_run_id b = run \<and> reconciliation_fingerprint b = f \<and> SHA256_PATTERN f \<and>
     SHA256_PATTERN (source_input_identity b) \<and> SHA256_PATTERN (target_input_identity b)"

lemma derive_plan_id_eq:
  assumes "binding_for run f b"
  shows "derive_plan_id run f (Some b) = lift_py (identifier_parse RepairPlanId (''rpl_'' @ slug (plan_parts run b @ [policy_text b])))"
  using assms by (simp add: derive_plan_id_def plan_parts_def binding_for_def)

lemma plan_parts_segments:
  assumes "identifier_parse RunId t = Inr run" "binding_for run f b"
  shows "\<forall>p \<in> set (plan_parts run b). segments id_body id_sep p" "plan_parts run b \<noteq> []"
    "length (hyphenated (plan_parts run b)) = length (run_slug run) + 51"
proof -
  note f = assms(2) [unfolded binding_for_def]
  then have "segments id_body id_sep (take 24 f)" "segments id_body id_sep (take 12 (source_input_identity b))"
    "segments id_body id_sep (take 12 (target_input_identity b))" by (simp_all add: pattern_take_segments)
  then show "\<forall>p \<in> set (plan_parts run b). segments id_body id_sep p"
    using run_slug_eq(2) [OF assms(1)] f by (simp add: plan_parts_def)
  show "plan_parts run b \<noteq> []" by (simp add: plan_parts_def)
  show "length (hyphenated (plan_parts run b)) = length (run_slug run) + 51"
    using f pattern_take_length [of f 24] pattern_take_length [of "source_input_identity b" 12]
      pattern_take_length [of "target_input_identity b" 12] by (simp add: plan_parts_def)
qed

lemma plan_joined:
  assumes "identifier_parse RunId t = Inr run" "binding_for run f b"
  shows "joined (plan_parts run b @ [policy_text b]) = hyphenated (plan_parts run b) @ CHR ''-'' # policy_text b"
proof -
  have "policy_text b \<noteq> []" by (simp add: policy_text_def Let_def)
  moreover have "\<forall>p \<in> set (plan_parts run b). p \<noteq> []" using plan_parts_segments(1) [OF assms] segments_nonempty by blast
  ultimately show ?thesis using plan_parts_segments(2) [OF assms] by (simp add: joined_segments hyphenated_append)
qed

lemma plan_id_accepted:
  assumes run: "identifier_parse RunId t = Inr run" and b: "binding_for run f b"
    and long: "13 \<le> length (run_slug run) + length (policy_text b)"
  shows "derive_plan_id run f (Some b) = Inr (Identifier RepairPlanId (''rpl_'' @ slug (plan_parts run b @ [policy_text b])))"
    "segments id_body id_sep (slug (plan_parts run b @ [policy_text b]))"
proof -
  note parts = plan_parts_segments [OF run b] and joined = plan_joined [OF run b]
  have "64 < length (joined (plan_parts run b @ [policy_text b]))" using parts(3) long by (simp add: joined)
  moreover have "segments id_body id_sep (hyphenated (plan_parts run b))" using parts(2,1) by (rule hyphenated_segments)
  moreover have "take 47 (joined (plan_parts run b @ [policy_text b])) = take 47 (hyphenated (plan_parts run b))"
    using parts(3) by (simp add: joined)
  ultimately have slug: "segments id_body id_sep (slug (plan_parts run b @ [policy_text b])) \<and>
      3 \<le> length (slug (plan_parts run b @ [policy_text b])) \<and> length (slug (plan_parts run b @ [policy_text b])) \<le> 64"
    by (intro slug_segments) auto
  then show "segments id_body id_sep (slug (plan_parts run b @ [policy_text b]))" by blast
  from slug identifier_from_payload [of _ RepairPlanId] show
    "derive_plan_id run f (Some b) = Inr (Identifier RepairPlanId (''rpl_'' @ slug (plan_parts run b @ [policy_text b])))"
    by (simp add: derive_plan_id_eq [OF b])
qed

lemma action_id_accepted:
  assumes run: "identifier_parse RunId t = Inr run" and b: "binding_for run f b" and s: "SKU_PATTERN s"
    and long: "13 \<le> length (run_slug run) + length (policy_text b)"
  shows "\<exists>i. derive_action_id run f s (Some b) = Inr i"
proof -
  let ?parts = "[run_slug run, take 16 f, lower s, slug (plan_parts run b @ [policy_text b])]"
  have segs: "\<forall>p \<in> set ?parts. segments id_body id_sep p"
    using run_slug_eq(2) [OF run] pattern_take_segments [of f 16] b lower_sku_segments [OF s] plan_id_accepted(2) [OF run b long]
    by (simp add: binding_for_def)
  then have "joined ?parts = hyphenated ?parts" using segments_nonempty by (intro joined_segments) blast
  then have "3 \<le> length (joined ?parts)" using run_slug_eq(3) [OF run] by simp
  from slug_identifier [OF segs _ this, of RepairActionId] show ?thesis
    by (simp add: derive_action_id_def plan_id_accepted(1) [OF run b long])
qed

lemma policy_text_chars: "list_all is_ascii (policy_text b)" "CHR ''.'' \<in> set (policy_text b)"
proof -
  have "is_ascii CHR ''-''" "is_ascii CHR ''.''" by code_simp+
  moreover have "list_all is_ascii (int_str n)" for n
    using \<open>is_ascii CHR ''-''\<close> digits_ascii [OF nat_str_digits] by (simp add: int_str_def)
  ultimately show "list_all is_ascii (policy_text b)" by (simp add: policy_text_def Let_def)
  show "CHR ''.'' \<in> set (policy_text b)" by (simp add: policy_text_def Let_def)
qed

lemma plan_id_refused:
  assumes run: "identifier_parse RunId t = Inr run" and b: "binding_for run f b"
    and short: "length (run_slug run) + length (policy_text b) \<le> 12"
  shows "derive_plan_id run f (Some b) = Inl (value_error ''identifier payload must be canonical lowercase ASCII'')"
proof -
  let ?slug = "slug (plan_parts run b @ [policy_text b])"
  let ?h = "hyphenated (plan_parts run b)"
  note parts = plan_parts_segments [OF run b] and joined = plan_joined [OF run b]
  have slug: "?slug = ?h @ CHR ''-'' # policy_text b"
    using parts(3) short joined unfolding slug_def Let_def joined_def by (simp add: ID_PAYLOAD_MAXIMUM_def)
  have "segments id_body id_sep ?h" using parts(2,1) by (rule hyphenated_segments)
  moreover have "is_ascii CHR ''-''" by code_simp
  ultimately have ascii: "list_all is_ascii ?slug"
    unfolding slug list_all_append list.pred_inject using segments_ascii policy_text_chars(1) by blast
  have dot: "\<not> id_body CHR ''.'' \<and> \<not> id_sep CHR ''.''" by code_simp
  have "CHR ''.'' \<in> set ?slug" unfolding slug using policy_text_chars(2) by simp
  then have "\<not> segments id_body id_sep ?slug" using segments_chars dot by blast
  moreover have "3 \<le> length ?slug" "length ?slug \<le> 64" using parts(3) short by (simp_all add: slug)
  moreover have "list_all is_ascii ''rpl_''" by code_simp
  ultimately have "validate_identifier ''rpl'' (''rpl_'' @ ?slug) = Inl (ValueError ''identifier payload must be canonical lowercase ASCII'')"
    using ascii by (simp add: validate_identifier_def Let_def payload_pattern_segments MIN_PAYLOAD_LENGTH_def MAX_PAYLOAD_LENGTH_def)
  then show ?thesis by (simp add: derive_plan_id_eq [OF b] identifier_parse_def)
qed

text \<open>
  Joining with hyphens is not injective on pairs of a run and a key: two runs share a conflict identity, although the
  module promises an injective derivation.
\<close>

lemma conflict_ids_coincide:
  "derive_conflict_id (Identifier RunId ''run_abc-d'') ''EF'' = derive_conflict_id (Identifier RunId ''run_abc'') ''D-EF''"
  by code_simp

end
