(* ===== verification/Example_Analysis.thy ===== *)
theory Example_Analysis
  imports Analysis_Properties
begin

text \<open>
  A concrete analysis: the source reports one valid record, the target nothing.  The witnesses of the repair properties
  use it.
\<close>

text \<open>One observation, of the record \<open>example_record 7 ''r1''\<close>.\<close>

definition plain_payload :: json_object where
  "plain_payload =
     [(''sku'', JText ''AB-1''), (''name'', JText ''bolt''), (''quantity'', JInt 7),
      (''unit_price'', JDict [(''currency'', JText ''USD''), (''amount'', JText ''1.00'')]),
      (''updated_at'', JText ''2024-01-02T03:04:05.000006Z''), (''source_record_key'', JText ''r1''),
      (''attributes'', JDict [(''color'', JText ''red'')])]"

definition plain_observation :: SourceObservation where
  "plain_observation =
     \<lparr>obs_position = 0, obs_connector_id = Identifier ConnectorId ''con_one'', obs_payload = Some plain_payload,
      malformed_reason = None\<rparr>"

lemma PROBE_MONEY_ok: "money_ok PROBE_MONEY"
  using example_record_ok [of 1] by (simp add: record_ok_def example_record_def)

lemma parse_PROBE: "parse_money ''USD'' ''1.00'' = (Some PROBE_MONEY, Some PROBE_MONEY)"
proof -
  have "Money_str PROBE_MONEY = ''USD 1.00''" by code_simp
  then have "Money_parse ''USD 1.00'' = Inr PROBE_MONEY" using Money_parse_str [OF PROBE_MONEY_ok] by simp
  then show ?thesis by (simp add: parse_money_def try_money_def Let_def)
qed


definition plain_projection :: projection where
  "plain_projection = (case project_payload plain_payload of Inl _ \<Rightarrow> [] | Inr (proj, _) \<Rightarrow> proj)"

definition priced_projection :: projection where
  "priced_projection =
     (case put_leaf ''unit_price/amount'' (money_amount_value PROBE_MONEY) plain_projection of Inl _ \<Rightarrow> [] | Inr proj \<Rightarrow> proj)"

definition final_projection :: projection where
  "final_projection =
     (case put_leaf ''updated_at'' (timestamp_value PROBE_TIMESTAMP) priced_projection of Inl _ \<Rightarrow> [] | Inr proj \<Rightarrow> proj)"

lemma plain_checks:
  "project_payload plain_payload = Inr (plain_projection, None)"
  "provenance_quarantine plain_observation plain_payload = Inr None"
  "marker_quarantine plain_observation plain_projection = Inr None"
  "required_quarantine plain_observation plain_projection = Inr None"
  by code_simp+

lemma plain_leaves:
  "leaf_string plain_projection ''unit_price/currency'' = ''USD''"
  "leaf_string plain_projection ''unit_price/amount'' = ''1.00''"
  "leaf_string plain_projection ''updated_at'' = ''2024-01-02T03:04:05.000006Z''"
  "payload_text plain_payload ''sku'' = ''AB-1''" "payload_text plain_payload ''source_record_key'' = ''r1''"
  by code_simp+

lemma plain_money:
  "put_leaf ''unit_price/amount'' (money_amount_value PROBE_MONEY) plain_projection = Inr priced_projection"
  "put_leaf ''updated_at'' (timestamp_value PROBE_TIMESTAMP) priced_projection = Inr final_projection"
  by code_simp+

lemma plain_stamp: "utc_parse ''2024-01-02T03:04:05.000006Z'' = Inr PROBE_TIMESTAMP"
  by code_simp

lemma plain_final:
  "leaf_string final_projection ''name'' = ''bolt''"
  "the (leaf_integer (the (map_of final_projection ''quantity''))) = 7"
  "projected_attributes final_projection = [(''color'', ''red'')]"
  by code_simp+

lemma plain_created:
  "create_record ''AB-1'' ''bolt'' 7 PROBE_MONEY PROBE_TIMESTAMP (Identifier ConnectorId ''con_one'') ''r1'' [(''color'', ''red'')] =
     Inr (example_record 7 ''r1'')"
proof -
  have "attributes_from_mapping [(''color'', ''red'')] = Inr [(''color'', ''red'')]" by code_simp
  moreover have "make_InventoryRecord (example_record 7 ''r1'') = Inr (example_record 7 ''r1'')"
    using example_record_ok [of 7] by (simp add: record_ok_def)
  ultimately show ?thesis by (simp add: create_record_def example_record_def)
qed

lemma plain_normalized:
  obtains n where "normalize_observation plain_observation = Inr (Normalized n)" "n_record n = example_record 7 ''r1''"
proof -
  have "normalize_observation plain_observation =
      normalized_record plain_observation ''AB-1'' ''r1'' final_projection PROBE_MONEY PROBE_TIMESTAMP"
  proof -
    have "length plain_payload \<le> MAX_PAYLOAD_FIELDS" by (simp add: plain_payload_def MAX_PAYLOAD_FIELDS_def)
    moreover have "obs_payload plain_observation = Some plain_payload" by (simp add: plain_observation_def)
    ultimately show ?thesis
      by (simp add: normalize_observation_def plain_checks plain_leaves normalize_values_def parse_PROBE plain_money plain_stamp)
  qed
  also have "\<dots> = bind_result (make_ComparisonDocument (sort_key fst final_projection)) (\<lambda>document.
      bind_result (make_NormalizedRecord \<lparr>n_position = 0, n_record = example_record 7 ''r1'', n_document = document\<rparr>) (\<lambda>n.
      Inr (Normalized n)))"
    by (simp add: normalized_record_def Let_def plain_final plain_created plain_observation_def)
  finally have eq: "normalize_observation plain_observation = \<dots>" .
  have "\<exists>result. normalize_observation plain_observation = Inr result \<and> faithful_result plain_observation result"
  proof (rule normalize_observation_total)
    have "ATTRIBUTE_KEY_PATTERN ''color''" by code_simp
    then show "payload_bounded payload" if "obs_payload plain_observation = Some payload" for payload
      using that by (auto simp: plain_observation_def plain_payload_def payload_bounded_def attribute_keys_def)
  qed (simp add: plain_observation_def)
  then show thesis using that by (auto simp: eq result_simps make_NormalizedRecord_def)
qed

definition plain_request :: ReconciliationAnalysisRequest where
  "plain_request =
     \<lparr>source_observations = [plain_observation], target_observations = [],
      request_source_identity = replicate 64 CHR ''a'', request_target_identity = replicate 64 CHR ''b'',
      request_query_version = 1\<rparr>"

definition nothing_normalized :: SourceNormalization where
  "nothing_normalized = \<lparr>sn_rules_version = NORMALIZATION_RULES_VERSION, sn_records = [], sn_quarantined = []\<rparr>"

lemma plain_batches: "batch_ok (source_observations plain_request)" "batch_ok (target_observations plain_request)"
proof -
  have "ATTRIBUTE_KEY_PATTERN ''color''" by code_simp
  then show "batch_ok (source_observations plain_request)" "batch_ok (target_observations plain_request)"
    by (simp_all add: batch_ok_def plain_request_def plain_observation_def plain_payload_def payload_bounded_def
        attribute_keys_def MAX_SOURCE_OBSERVATIONS_def)
qed

lemma plain_positions:
  "\<forall>ob \<in> set (source_observations plain_request) \<union> set (target_observations plain_request). 0 \<le> obs_position ob"
  using plain_batches by (auto simp: batch_ok_def)

lemma plain_analysis:
  obtains n source analysis where "normalize_source_observations (source_observations plain_request) = Inr source"
    "normalize_source_observations (target_observations plain_request) = Inr nothing_normalized"
    "sn_records source = [n]" "n_record n = example_record 7 ''r1''" "analyze_reconciliation plain_request = Inr analysis"
proof -
  from plain_normalized obtain n where n: "normalize_observation plain_observation = Inr (Normalized n)"
    "n_record n = example_record 7 ''r1''" .
  from normalize_batch [OF plain_batches(1)] obtain results where
    results: "map_result normalize_observation (source_observations plain_request) = Inr results"
    and source: "normalize_source_observations (source_observations plain_request) = Inr
      \<lparr>sn_rules_version = NORMALIZATION_RULES_VERSION, sn_records = sort_key n_position (accepted results),
       sn_quarantined = sort_key q_position (refused results)\<rparr>" .
  have "results = [Normalized n]" using results n(1) by (simp add: plain_request_def)
  then have source: "normalize_source_observations (source_observations plain_request) = Inr
      \<lparr>sn_rules_version = NORMALIZATION_RULES_VERSION, sn_records = [n], sn_quarantined = []\<rparr>"
    using source by simp
  have "normalize_source_observations (target_observations plain_request) = Inr nothing_normalized"
    using normalize_batch [OF plain_batches(2)] by (auto simp: plain_request_def nothing_normalized_def)
  note target = this
  have "SHA256_PATTERN (replicate 64 CHR ''a'')" "SHA256_PATTERN (replicate 64 CHR ''b'')" by code_simp+
  moreover have "\<not> overfull [n]" "\<not> overfull []" by (auto simp: overfull_def of_sku_def MAX_RECORDS_PER_SIDE_def)
  moreover have "differing_count [n] [] s = 0" for s by (simp add: differing_count_def of_sku_def split: list.split)
  moreover have "card (skus [n] \<union> skus []) \<le> 10000" by (simp add: skus_def)
  ultimately have "\<exists>analysis. analyze_reconciliation plain_request = Inr analysis"
    using analysis_success [OF normalized_side_ok [OF plain_batches(1) source] normalized_side_ok [OF plain_batches(2) target] source target]
    by (simp add: plain_request_def nothing_normalized_def) blast
  then show thesis using that source target n(2) by auto
qed

end
