(* ===== verification/Repair_Plan_Properties.thy ===== *)
theory Repair_Plan_Properties
  imports Repair_Identities Example_Analysis
begin

text \<open>
  What the generation of a repair plan promises: which SKUs a plan repairs and how, when generation returns, and
  the run identities for which it cannot.
\<close>

subsection \<open>What a finished analysis holds\<close>

definition key_classification :: "NormalizedRecord list \<Rightarrow> NormalizedRecord list \<Rightarrow> string \<Rightarrow> ReconciliationClassification" where
  "key_classification source target s =
     classification_of (map n_record (of_sku s source)) (map n_record (of_sku s target))"

definition repairable_skus :: "NormalizedRecord list \<Rightarrow> NormalizedRecord list \<Rightarrow> string list" where
  "repairable_skus source target =
     filter (\<lambda>s. key_classification source target s \<in> REPAIRABLE_CLASSIFICATIONS)
       (sorted_list_of_set (skus source \<union> skus target))"

definition review_skus :: "NormalizedRecord list \<Rightarrow> NormalizedRecord list \<Rightarrow> string list" where
  "review_skus source target =
     filter (\<lambda>s. key_classification source target s \<notin> REPAIRABLE_CLASSIFICATIONS)
       (sorted_list_of_set (skus source \<union> skus target))"

lemma outcome_at_classification: "classification (outcome_at source target s) = key_classification source target s"
  by (simp add: outcome_at_def outcome_of_def key_classification_def)

lemma summary_facts:
  assumes "build_reconciliation_summary result source target source_identity target_identity query_version digest = Inr summary"
  shows "SHA256_PATTERN (summary_source_identity summary)" "SHA256_PATTERN (summary_target_identity summary)"
    "SHA256_PATTERN (summary_fingerprint summary)" "summary_rules_version summary = 1" "analysis_version summary = 1"
    "analytical_query_version summary = query_version" "1 \<le> query_version"
  using assms
  by (auto simp: build_reconciliation_summary_def compute_reconciliation_fingerprint_def Let_def result_simps
      make_ReconciliationSummary_def sha256_hexdigest_pattern NORMALIZATION_RULES_VERSION_def
      RECONCILIATION_ANALYSIS_VERSION_def)

lemma analysis_parts:
  assumes positions: "\<forall>ob \<in> set (source_observations request) \<union> set (target_observations request). 0 \<le> obs_position ob"
    and normalized: "normalize_source_observations (source_observations request) = Inr source"
      "normalize_source_observations (target_observations request) = Inr target"
    and analysis: "analyze_reconciliation request = Inr analysis"
  obtains digest secondary differences where
    "side_ok (sn_records source)" "side_ok (sn_records target)"
    "card (skus (sn_records source) \<union> skus (sn_records target)) \<le> 10000"
    "analysis_classification analysis = result_of (sn_records source) (sn_records target) secondary differences"
    "build_reconciliation_summary (analysis_classification analysis) source target (request_source_identity request)
       (request_target_identity request) (request_query_version request) digest = Inr (analysis_summary analysis)"
proof -
  let ?s = "sn_records source" and ?t = "sn_records target"
  have sides: "side_ok ?s" "side_ok ?t" using normalized_side positions normalized by blast+
  from analysis obtain matches result digest where
    matches: "match_by_canonical_key ?s ?t = Inr matches" and result: "classify_matches matches = Inr result"
    and digest: "fingerprint_state (map (\<lambda>k. V_ReconciliationOutcome (key_outcome k)) (classified_keys result))
       RECONCILIATION_STATE = Inr digest"
    and classification: "analysis_classification analysis = result"
    and summary: "build_reconciliation_summary result source target (request_source_identity request)
       (request_target_identity request) (request_query_version request) digest = Inr (analysis_summary analysis)"
    by (auto simp: analyze_reconciliation_def normalized result_simps)
  from matches have full: "\<not> overfull ?s" "\<not> overfull ?t" and m: "matches = matches_of ?s ?t"
    by (auto simp: match_sides_ok [OF sides] split: if_splits)
  from pair_evidence_total [OF sides full] obtain secondary differences where evidence:
    "\<And>s. s \<in> skus ?s \<union> skus ?t \<Longrightarrow> key_secondary (outcome_at ?s ?t s) = Inr (secondary s)"
    "\<And>s. key_differences_of (match_at ?s ?t s) = Inr (differences s)" by blast
  have r: "result = result_of ?s ?t secondary differences"
    using classify_matches_eq [OF sides full evidence] result by (simp add: m)
  have "length (classified_keys result) \<le> 10000"
    using digest fingerprint_state_eq [OF outcome_states [of "map key_outcome (classified_keys result)"]]
    by (simp add: comp_def MAX_FINGERPRINT_ITEMS_def outcome_bytes_def split: if_splits)
  then have "card (skus ?s \<union> skus ?t) \<le> 10000" by (simp add: r result_of_def)
  with sides summary show thesis
    by (intro that [where secondary = secondary and differences = differences and digest = digest])
      (simp_all add: classification r)
qed

subsection \<open>The keys of a plan\<close>

lemma split_outcomes_eq:
  "split_outcomes ks outcomes repairable review =
    (outcomes @ filter (\<lambda>x. classification x \<in> REPAIRABLE_CLASSIFICATIONS) (map key_outcome ks),
     repairable @ map outcome_sku (filter (\<lambda>x. classification x \<in> REPAIRABLE_CLASSIFICATIONS) (map key_outcome ks)),
     review @ map outcome_sku (filter (\<lambda>x. classification x \<notin> REPAIRABLE_CLASSIFICATIONS) (map key_outcome ks)))"
  by (induction ks arbitrary: outcomes repairable review) (simp_all add: Let_def)

lemma outcomes_of_skus:
  assumes "set ss \<subseteq> skus source \<union> skus target"
  shows "map outcome_sku (map (outcome_at source target) ss) = ss"
  using assms by (induction ss) (simp_all add: outcome_at_sku)

lemma split_result:
  "split_outcomes (classified_keys (result_of source target secondary differences)) [] [] [] =
     (map (outcome_at source target) (repairable_skus source target), repairable_skus source target, review_skus source target)"
proof -
  let ?L = "sorted_list_of_set (skus source \<union> skus target)"
  have outcomes: "map key_outcome (classified_keys (result_of source target secondary differences)) =
      map (outcome_at source target) ?L"
    by (simp add: result_of_def key_at_def)
  have "set (filter P ?L) \<subseteq> skus source \<union> skus target" for P by auto
  note skus = outcomes_of_skus [OF this]
  show ?thesis
    unfolding split_outcomes_eq outcomes filter_map comp_def outcome_at_classification
    by (simp add: skus repairable_skus_def review_skus_def flip: map_map)
qed

lemma sort_skus: "sort (repairable_skus source target) = repairable_skus source target"
  "sort (review_skus source target) = review_skus source target"
  unfolding repairable_skus_def review_skus_def by (intro sort_key_id_if_sorted, simp add: sorted_wrt_filter)+

lemma repairable_skus_facts:
  "sorted_wrt (<) (repairable_skus source target)" "set (repairable_skus source target) \<subseteq> skus source \<union> skus target"
  "distinct (repairable_skus source target)"
  by (auto simp: repairable_skus_def sorted_wrt_filter)

subsection \<open>The actions of a plan\<close>

text \<open>The one effect a SKU may get: the source holds one record of it, and the target none, or one with other content.\<close>

definition safe_action :: "NormalizedRecord list \<Rightarrow> NormalizedRecord list \<Rightarrow> RepairAction \<Rightarrow> bool" where
  "safe_action source target a \<longleftrightarrow>
     (\<exists>n. of_sku (action_sku a) source = [n] \<and> proposed_record a = n_record n \<and>
       (of_sku (action_sku a) target = [] \<and> action_kind a = CREATE_TARGET \<and>
          expected_target_record a = None \<and> action_mismatches a = [] \<or>
        (\<exists>m. of_sku (action_sku a) target = [m] \<and> action_kind a = UPDATE_TARGET \<and>
          expected_target_record a = Some (n_record m) \<and>
          business_content (n_record n) \<noteq> business_content (n_record m) \<and>
          action_mismatches a = mismatched (n_record n) (n_record m))))"

lemma repairable_records:
  assumes "classification_of sources targets \<in> REPAIRABLE_CLASSIFICATIONS"
  obtains (create) r where "sources = [r]" "targets = []"
    | (update) r t where "sources = [r]" "targets = [t]" "business_content r \<noteq> business_content t"
  using assms that
  by (cases sources rule: how_many.cases; cases targets rule: how_many.cases)
    (auto simp: classification_of_def REPAIRABLE_CLASSIFICATIONS_def split: if_splits)

abbreviation sku_action ::
  "NormalizedRecord list \<Rightarrow> NormalizedRecord list \<Rightarrow> prefixed_id \<Rightarrow> prefixed_id \<Rightarrow> StateFingerprint \<Rightarrow> string \<Rightarrow> RepairAction" where
  "sku_action source target action conflict fingerprint s \<equiv>
     action_for action conflict fingerprint (map n_record (of_sku s source)) (map n_record (of_sku s target))"

lemma sku_action_safe:
  assumes "s \<in> set (repairable_skus source target)"
  shows "action_sku (sku_action source target action conflict fingerprint s) = s"
    "safe_action source target (sku_action source target action conflict fingerprint s)"
proof -
  have "classification_of (map n_record (of_sku s source)) (map n_record (of_sku s target)) \<in> REPAIRABLE_CLASSIFICATIONS"
    using assms by (simp add: repairable_skus_def key_classification_def)
  then obtain n where n: "of_sku s source = [n]"
    and rest: "of_sku s target = [] \<or> (\<exists>m. of_sku s target = [m] \<and> business_content (n_record n) \<noteq> business_content (n_record m))"
    by (cases rule: repairable_records) auto
  have "n_sku n = s" using n in_of_sku [of n s source] by simp
  with n rest show "action_sku (sku_action source target action conflict fingerprint s) = s"
    "safe_action source target (sku_action source target action conflict fingerprint s)"
    by (auto simp: action_for_def action_sku_def safe_action_def)
qed

lemma derived_kinds:
  "derive_action_id run f s b = Inr i \<Longrightarrow> id_kind_of i = RepairActionId"
  "derive_conflict_id run s = Inr i \<Longrightarrow> id_kind_of i = ConflictId"
  "derive_plan_id run f b = Inr i \<Longrightarrow> id_kind_of i = RepairPlanId"
  by (auto simp: derive_action_id_def derive_conflict_id_def derive_plan_id_def result_simps identifier_parse_Inr)

lemma plan_action_eq:
  assumes "s \<in> set (repairable_skus source target)"
    and "derive_action_id run f s (Some b) = Inr action" "derive_conflict_id run s = Inr conflict"
  shows "plan_action run f b (outcome_at source target s) = Inr (sku_action source target action conflict f s)"
proof -
  have s: "s \<in> skus source \<union> skus target" "key_classification source target s \<in> REPAIRABLE_CLASSIFICATIONS"
    using assms(1) by (auto simp: repairable_skus_def)
  have "list_all (\<lambda>r. sku r = s) (map n_record (of_sku s source) @ map n_record (of_sku s target))"
    by (auto simp: list_all_iff in_of_sku)
  moreover have "is_repairable (outcome_at source target s)"
    using s(2) by (simp add: is_repairable_def outcome_at_classification REPAIRABLE_CLASSIFICATIONS_def)
  ultimately show ?thesis
    using action_from_outcome_eq [OF derived_kinds(1) [OF assms(2)] derived_kinds(2) [OF assms(3)], of s] assms(2,3)
    by (simp add: plan_action_def outcome_at_sku [OF s(1)]) (simp add: outcome_at_def)
qed

lemma plan_action_Inr:
  assumes "s \<in> set (repairable_skus source target)" "plan_action run f b (outcome_at source target s) = Inr a"
  obtains action conflict where "a = sku_action source target action conflict f s"
    "derive_action_id run f s (Some b) = Inr action" "derive_conflict_id run s = Inr conflict"
proof -
  have "outcome_sku (outcome_at source target s) = s"
    using assms(1) repairable_skus_facts(2) outcome_at_sku by blast
  with assms(2) obtain action conflict where ids:
    "derive_action_id run f s (Some b) = Inr action" "derive_conflict_id run s = Inr conflict"
    by (auto simp: plan_action_def result_simps)
  with assms show thesis by (intro that [OF _ ids]) (simp add: plan_action_eq)
qed

lemma plan_actions_Inr:
  assumes "map_result (plan_action run f b) (map (outcome_at source target) ss) = Inr actions"
    and "set ss \<subseteq> set (repairable_skus source target)"
  shows "map action_sku actions = ss \<and> (\<forall>a \<in> set actions. safe_action source target a \<and> action_fingerprint a = f)"
  using assms
proof (induction ss arbitrary: actions)
  case (Cons s ss)
  then obtain a as where "actions = a # as" and a: "plan_action run f b (outcome_at source target s) = Inr a"
    and "map_result (plan_action run f b) (map (outcome_at source target) ss) = Inr as"
    by (auto simp: result_simps)
  moreover have "action_sku a = s \<and> safe_action source target a \<and> action_fingerprint a = f"
    using plan_action_Inr [OF _ a] Cons.prems(2) sku_action_safe [of s source target]
    by (metis RepairAction.simps(3) action_for_def list.set_intros(1) subsetD)
  ultimately show ?case using Cons.IH Cons.prems(2) by simp
qed (simp add: result_simps)

lemma actions_sorted:
  assumes "sorted_wrt (<) (map action_sku actions)"
  shows "sort_key action_order_key actions = actions"
proof (rule sort_key_id_if_sorted)
  show "sorted (map action_order_key actions)"
    using assms unfolding sorted_wrt_map
    by (rule sorted_wrt_mono_rel [rotated]) (auto simp: action_order_key_def)
qed

subsection \<open>Generation\<close>

lemma update_append: "k \<notin> set (keys d) \<Longrightarrow> AList.update k v d = d @ [(k, v)]"
  by (induction d) auto

lemma foldl_update_distinct:
  "distinct (map f xs) \<Longrightarrow> foldl (\<lambda>d x. AList.update (f x) (g x) d) [] xs = map (\<lambda>x. (f x, g x)) xs"
  by (induction xs rule: rev_induct) (simp_all add: update_append comp_def)

text \<open>The binding of the plan that repairs a number of SKUs.\<close>

definition bound_for :: "prefixed_id \<Rightarrow> ReconciliationSummary \<Rightarrow> nat \<Rightarrow> RepairPlanBinding" where
  "bound_for run summary n =
     \<lparr>binding_run_id = run, reconciliation_fingerprint = summary_fingerprint summary,
      source_input_identity = summary_source_identity summary, target_input_identity = summary_target_identity summary,
      policy_version = 1, generation_version = 1, binding_rules_version = summary_rules_version summary,
      binding_analysis_version = analysis_version summary,
      binding_analytical_query_version = analytical_query_version summary, action_count = n\<rparr>"

lemma bound_count: "action_count (bound_for run summary n) = n"
  by (simp add: bound_for_def)

definition summary_ok :: "ReconciliationSummary \<Rightarrow> bool" where
  "summary_ok summary \<longleftrightarrow> SHA256_PATTERN (summary_source_identity summary) \<and>
     SHA256_PATTERN (summary_target_identity summary) \<and> SHA256_PATTERN (summary_fingerprint summary) \<and>
     summary_rules_version summary = 1 \<and> analysis_version summary = 1 \<and> 1 \<le> analytical_query_version summary"

lemma bound_for_valid:
  assumes "summary_ok summary" "id_kind_of run = RunId"
  shows "make_RepairPlanBinding (bound_for run summary n) =
    bind_result (require (n \<le> MAX_ACTIONS) (value_error ''repair-plan binding action count is invalid''))
      (\<lambda>_. Inr (bound_for run summary n))"
  using assms by (simp add: make_RepairPlanBinding_def bound_for_def require_id_kind_def summary_ok_def)

text \<open>The plan of an analysis, once its actions and its own identity are there.\<close>

definition plan_for :: "StateFingerprint \<Rightarrow> RepairPlanBinding \<Rightarrow> prefixed_id \<Rightarrow> RepairAction list \<Rightarrow> RepairPlan" where
  "plan_for f bound plan actions =
     \<lparr>plan_id = plan, plan_fingerprint = f, plan_actions = actions, plan_binding = Some bound\<rparr>"

definition content_of :: "RepairPlan \<Rightarrow> StateFingerprint" where
  "content_of plan =
     sha256_hexdigest (root_preimage REPAIR_PLAN_CONTENT [sha256_digest (LEAF_DOMAIN @ frame (encode_repair_plan_content plan))])"

lemma content_fingerprint_eq: "fingerprint_state [V_RepairPlan plan] REPAIR_PLAN_CONTENT = Inr (content_of plan)"
  by (simp add: fingerprint_state_def content_of_def encode_state_value_def MAX_FINGERPRINT_ITEMS_def)

definition key_pairs :: "prefixed_id \<Rightarrow> RepairPlan \<Rightarrow> RepairActionKeyMap" where
  "key_pairs run plan =
     foldl (\<lambda>d a. AList.update (action_id a) (derive_action_idempotency_key run (content_of plan) (action_sku a)) d) []
       (plan_actions plan)"

lemma key_pairs_eq:
  "distinct (map action_id (plan_actions plan)) \<Longrightarrow> key_pairs run plan =
     map (\<lambda>a. (action_id a, derive_action_idempotency_key run (content_of plan) (action_sku a))) (plan_actions plan)"
  unfolding key_pairs_def by (rule foldl_update_distinct)

lemma lift_recon_bind: "lift_recon (bind_result r f) = bind_result (lift_recon r) (\<lambda>x. lift_recon (f x))"
  by (cases r) simp_all

text \<open>Generation in terms of the two sides: the binding is valid, and the rest depends on the derived identities.\<close>

lemma generate_repair_plan_eq:
  fixes source target
  defines "ss \<equiv> repairable_skus source target"
  assumes result: "analysis_classification analysis = result_of source target secondary differences"
    and summary: "summary_ok (analysis_summary analysis)" and run: "id_kind_of run = RunId"
    and few: "length ss \<le> 10000"
  shows "generate_repair_plan run analysis =
    (let summary = analysis_summary analysis; f = summary_fingerprint summary; bound = bound_for run summary (length ss) in
     if ss = [] then Inr \<lparr>generated_plan = None, content_fingerprint = None, action_keys = None, generated_binding = bound,
        repairable_keys = [], review_only_keys = review_skus source target\<rparr>
     else lift_recon (
       bind_result (map_result (plan_action run f bound) (map (outcome_at source target) ss)) (\<lambda>actions.
       bind_result (derive_plan_id run f (Some bound)) (\<lambda>plan.
       bind_result (make_RepairPlan (plan_for f bound plan actions)) (\<lambda>plan.
       bind_result (make_RepairActionKeyMap (key_pairs run plan)) (\<lambda>key_map.
       Inr \<lparr>generated_plan = Some plan, content_fingerprint = Some (content_of plan), action_keys = Some key_map,
          generated_binding = bound, repairable_keys = ss, review_only_keys = review_skus source target\<rparr>))))))"
proof -
  let ?summary = "analysis_summary analysis"
  let ?f = "summary_fingerprint ?summary"
  have binding: "make_RepairPlanBinding
      \<lparr>binding_run_id = run, reconciliation_fingerprint = ?f, source_input_identity = summary_source_identity ?summary,
       target_input_identity = summary_target_identity ?summary, policy_version = REPAIR_GENERATION_POLICY_VERSION,
       generation_version = REPAIR_GENERATION_VERSION, binding_rules_version = summary_rules_version ?summary,
       binding_analysis_version = analysis_version ?summary,
       binding_analytical_query_version = analytical_query_version ?summary, action_count = 0\<rparr> = Inr (bound_for run ?summary 0)"
    using bound_for_valid [OF summary run, of 0]
    by (simp add: bound_for_def REPAIR_GENERATION_POLICY_VERSION_def REPAIR_GENERATION_VERSION_def)
  have count: "replace_count (bound_for run ?summary 0) (length ss) = Inr (bound_for run ?summary (length ss))"
    using bound_for_valid [OF summary run, of "length ss"] few
    by (simp add: replace_count_def bound_for_def MAX_ACTIONS_def)
  have outcomes: "map (outcome_at source target) ss = [] \<longleftrightarrow> ss = []" by simp
  have sorted: "sort ss = ss" unfolding ss_def by (rule sort_skus)
  have steps: "require_id_kind RunId run ''repair generation'' = Inr ()" using run by (simp add: require_id_kind_def)
  note unfolded = generate_repair_plan_def Let_def steps binding result split_result case_prod_conv lift_recon.simps
    bind_result.simps sort_skus content_fingerprint_eq make_GeneratedRepairPlan_def
  show ?thesis
  proof (cases "ss = []")
    case True
    with count show ?thesis unfolding unfolded ss_def [symmetric] by (simp add: bound_for_def)
  next
    case False
    with count show ?thesis unfolding unfolded ss_def [symmetric] outcomes lift_recon_bind
      by (simp add: sorted bound_count plan_for_def key_pairs_def)
  qed
qed

lemma make_RepairPlan_Inr:
  assumes "make_RepairPlan p = Inr plan" "sorted_wrt (<) (map action_sku (plan_actions p))"
  shows "plan = p" "distinct (map action_id (plan_actions p))"
  using assms by (auto simp: make_RepairPlan_def result_simps require_unique_plan_def actions_sorted card_distinct)

lemma make_RepairActionKeyMap_Inr:
  assumes "make_RepairActionKeyMap pairs = Inr ks"
  shows "mset ks = mset pairs" "distinct (map fst ks)" "distinct (map snd ks)"
proof -
  from assms have ks: "ks = sort_key (\<lambda>p. id_value (fst p)) pairs" "distinct (map fst pairs)" "distinct (map snd pairs)"
    unfolding make_RepairActionKeyMap_def by (auto simp: result_simps intro: card_distinct)
  then show m: "mset ks = mset pairs" by simp
  show "distinct (map fst ks)" "distinct (map snd ks)"
    using ks(2,3) mset_eq_imp_distinct_iff [of "map fst ks" "map fst pairs"]
      mset_eq_imp_distinct_iff [of "map snd ks" "map snd pairs"] by (simp_all add: m)
qed

lemma summary_okI:
  assumes "build_reconciliation_summary result source target source_identity target_identity query_version digest = Inr summary"
  shows "summary_ok summary" "analytical_query_version summary = query_version"
  using summary_facts [OF assms] by (simp_all add: summary_ok_def)

lemma repairable_few: "card (skus source \<union> skus target) \<le> 10000 \<Longrightarrow> length (repairable_skus source target) \<le> 10000"
proof -
  assume "card (skus source \<union> skus target) \<le> 10000"
  moreover have "length (repairable_skus source target) \<le> length (sorted_list_of_set (skus source \<union> skus target))"
    unfolding repairable_skus_def by (rule length_filter_le)
  ultimately show ?thesis by simp
qed

text \<open>
  C2.  A generated repair plan is safe.  Its repairable SKUs are, in order, exactly those that the source holds once
  and the target not at all or once with other content; every other SKU is listed for review.  There is a plan
  exactly if something is repairable; it has one action per repairable SKU, which creates the missing record
  or updates the one target record it expects, never deletes, and is bound to the fingerprint of the analysis.  Every
  action has its own external effect key.
\<close>

theorem plan_is_safe:
  assumes "\<forall>ob \<in> set (source_observations request) \<union> set (target_observations request). 0 \<le> obs_position ob"
    and "normalize_source_observations (source_observations request) = Inr source"
      "normalize_source_observations (target_observations request) = Inr target"
    and "analyze_reconciliation request = Inr analysis" "generate_repair_plan run analysis = Inr g"
  shows "repairable_keys g = repairable_skus (sn_records source) (sn_records target) \<and>
    review_only_keys g = review_skus (sn_records source) (sn_records target) \<and>
    (case generated_plan g of
       None \<Rightarrow> repairable_keys g = []
     | Some plan \<Rightarrow> repairable_keys g \<noteq> [] \<and> map action_sku (plan_actions plan) = repairable_keys g \<and>
         list_all (safe_action (sn_records source) (sn_records target)) (plan_actions plan) \<and>
         require_current plan (summary_fingerprint (analysis_summary analysis)) = Inr () \<and>
         (\<exists>ks. action_keys g = Some ks \<and> mset (map fst ks) = mset (map action_id (plan_actions plan)) \<and>
           distinct (map fst ks) \<and> distinct (map snd ks)))"
proof -
  let ?s = "sn_records source" and ?t = "sn_records target" and ?summary = "analysis_summary analysis"
  let ?ss = "repairable_skus ?s ?t"
  from analysis_parts [OF assms(1-4)] obtain digest secondary differences where
    few: "card (skus ?s \<union> skus ?t) \<le> 10000"
    and result: "analysis_classification analysis = result_of ?s ?t secondary differences"
    and summary: "build_reconciliation_summary (analysis_classification analysis) source target (request_source_identity request)
       (request_target_identity request) (request_query_version request) digest = Inr ?summary" by metis
  have run: "id_kind_of run = RunId"
    using assms(5) by (auto simp: generate_repair_plan_def Let_def result_simps require_id_kind_def)
  note eq = generate_repair_plan_eq [OF result summary_okI(1) [OF summary] run repairable_few [OF few]]
  show ?thesis
  proof (cases "?ss = []")
    case True
    then show ?thesis using assms(5) by (auto simp: eq Let_def)
  next
    case False
    then obtain actions plan_id plan ks where
      actions: "map_result (plan_action run (summary_fingerprint ?summary) (bound_for run ?summary (length ?ss)))
        (map (outcome_at ?s ?t) ?ss) = Inr actions"
      and plan: "make_RepairPlan (plan_for (summary_fingerprint ?summary) (bound_for run ?summary (length ?ss)) plan_id actions) = Inr plan"
      and ks: "make_RepairActionKeyMap (key_pairs run plan) = Inr ks"
      and g: "generated_plan g = Some plan" "action_keys g = Some ks" "repairable_keys g = ?ss" "review_only_keys g = review_skus ?s ?t"
      using assms(5) by (auto simp: eq Let_def result_simps)
    from plan_actions_Inr [OF actions order_refl] have safe:
      "map action_sku actions = ?ss" "\<forall>a \<in> set actions. safe_action ?s ?t a" by simp_all
    have "sorted_wrt (<) (map action_sku actions)" unfolding safe(1) by (rule repairable_skus_facts(1))
    then have plan_eq: "plan = plan_for (summary_fingerprint ?summary) (bound_for run ?summary (length ?ss)) plan_id actions"
      and ids: "distinct (map action_id actions)"
      using make_RepairPlan_Inr [OF plan] by (simp_all add: plan_for_def)
    have "map fst (key_pairs run plan) = map action_id actions"
      using ids by (simp add: key_pairs_eq plan_eq plan_for_def comp_def)
    moreover note make_RepairActionKeyMap_Inr [OF ks]
    ultimately have "mset (map fst ks) = mset (map action_id actions)" by (metis mset_map)
    with make_RepairActionKeyMap_Inr [OF ks] show ?thesis
      using False safe by (simp add: g plan_eq plan_for_def list_all_iff require_current_def is_current_def)
  qed
qed

subsection \<open>When generation returns\<close>

lemma analysis_skus_valid:
  assumes "side_ok source" "side_ok target" "s \<in> set (repairable_skus source target)"
  shows "SKU_PATTERN s"
proof -
  from assms(3) obtain n where n: "n \<in> set source \<union> set target" "n_sku n = s"
    using repairable_skus_facts(2) [of source target] by (auto simp: skus_def)
  then have "record_ok (n_record n)" using side_ok_record(2) assms(1,2) by blast
  with n(2) show ?thesis
    by (auto simp: record_ok_def make_InventoryRecord_def validate_sku_def result_simps)
qed

lemma bound_for_binding: "summary_ok summary \<Longrightarrow> binding_for run (summary_fingerprint summary) (bound_for run summary n)"
  by (simp add: binding_for_def bound_for_def summary_ok_def)

lemma bound_policy_length:
  assumes "summary_ok summary"
  shows "length (policy_text (bound_for run summary n)) = 8 + length (int_str (analytical_query_version summary))"
proof -
  have "int_str 1 = ''1''" by code_simp
  with assms show ?thesis by (simp add: policy_text_def bound_for_def summary_ok_def Let_def)
qed

lemma int_str_length: "1 \<le> n \<Longrightarrow> 1 \<le> length (int_str n)" "1 \<le> n \<Longrightarrow> n < 10 \<Longrightarrow> length (int_str n) = 1"
proof -
  assume n: "1 \<le> n"
  have "nat_str (nat n) \<noteq> []" by (rule nat_str_nonempty)
  then show long: "1 \<le> length (int_str n)" using n by (simp add: int_str_def Suc_le_eq)
  assume "n < 10"
  then have "length (nat_str (nat n)) \<le> 1" using length_nat_str_le [of "nat n" 1] n by simp
  with long n show "length (int_str n) = 1" by (simp add: int_str_def)
qed

text \<open>The actions of a plan, given what the identities are derived as.\<close>

lemma plan_actions_total:
  assumes "\<And>s. s \<in> set ss \<Longrightarrow> derive_action_id run f s (Some b) = Inr (A s) \<and> derive_conflict_id run s = Inr (C s)"
    and "set ss \<subseteq> set (repairable_skus source target)"
  shows "map_result (plan_action run f b) (map (outcome_at source target) ss) =
    Inr (map (\<lambda>s. sku_action source target (A s) (C s) f s) ss)"
  using assms
proof (induction ss)
  case (Cons s ss)
  then have "plan_action run f b (outcome_at source target s) = Inr (sku_action source target (A s) (C s) f s)"
    by (intro plan_action_eq) simp_all
  moreover have "map_result (plan_action run f b) (map (outcome_at source target) ss) =
      Inr (map (\<lambda>s. sku_action source target (A s) (C s) f s) ss)"
    using Cons by simp
  ultimately show ?case by simp
qed simp

lemma make_plan_total:
  fixes source target
  defines "ss \<equiv> repairable_skus source target"
  assumes "id_kind_of plan = RepairPlanId" "ss \<noteq> []" "length ss \<le> 10000" "inj_on A (set ss)" "inj_on C (set ss)"
    and "reconciliation_fingerprint b = f" "action_count b = length ss"
  shows "make_RepairPlan (plan_for f b plan (map (\<lambda>s. sku_action source target (A s) (C s) f s) ss)) =
    Inr (plan_for f b plan (map (\<lambda>s. sku_action source target (A s) (C s) f s) ss))"
proof -
  let ?actions = "map (\<lambda>s. sku_action source target (A s) (C s) f s) ss"
  have ids: "map action_id ?actions = map A ss" "map conflict_id ?actions = map C ss"
    "\<not> list_ex (\<lambda>a. action_fingerprint a \<noteq> f) ?actions"
    by (auto simp: action_for_def list_ex_iff)
  have skus: "map action_sku ?actions = ss"
    unfolding map_map comp_def by (rule map_idI) (simp add: sku_action_safe(1) ss_def)
  have distinct: "distinct ss" unfolding ss_def by (rule repairable_skus_facts(3))
  have "sorted_wrt (<) (map action_sku ?actions)" unfolding skus unfolding ss_def by (rule repairable_skus_facts(1))
  then have sorted: "sort_key action_order_key ?actions = ?actions" by (rule actions_sorted)
  have "card (set ss) = length ss" "card (A ` set ss) = length ss" "card (C ` set ss) = length ss"
    using assms(5,6) by (simp_all add: card_image distinct_card [OF distinct])
  then show ?thesis
    using assms(2-4,7,8) ids(3) unfolding make_RepairPlan_def plan_for_def RepairPlan.simps ids(1,2) skus sorted
    by (simp add: require_id_kind_def MAX_ACTIONS_def require_unique_plan_def)
qed

lemma key_map_total:
  assumes "distinct (map action_id (plan_actions plan))"
    and "distinct (map (derive_action_idempotency_key run (content_of plan)) (map action_sku (plan_actions plan)))"
  shows "\<exists>ks. make_RepairActionKeyMap (key_pairs run plan) = Inr ks"
proof -
  have "map fst (key_pairs run plan) = map action_id (plan_actions plan)"
    "map snd (key_pairs run plan) = map (derive_action_idempotency_key run (content_of plan)) (map action_sku (plan_actions plan))"
    by (simp_all add: key_pairs_eq [OF assms(1)] comp_def)
  then have "distinct (map fst (key_pairs run plan))" "distinct (map snd (key_pairs run plan))" using assms by simp_all
  then show ?thesis unfolding make_RepairActionKeyMap_def by (simp only: distinct_card length_map) simp
qed

lemma generation_total:
  fixes source target
  defines "ss \<equiv> repairable_skus source target"
  assumes sides: "side_ok source" "side_ok target" and few: "card (skus source \<union> skus target) \<le> 10000"
    and result: "analysis_classification analysis = result_of source target secondary differences"
    and ok: "summary_ok (analysis_summary analysis)"
    and run: "identifier_parse RunId t = Inr run" "8 \<le> length t"
    and conflicts: "inj_on (derive_conflict_id run) (set ss)"
    and actions: "inj_on (\<lambda>s. derive_action_id run (summary_fingerprint (analysis_summary analysis)) s
        (Some (bound_for run (analysis_summary analysis) (length ss)))) (set ss)"
    and keys: "\<forall>content. inj_on (derive_action_idempotency_key run content) (set ss)"
  shows "\<exists>g. generate_repair_plan run analysis = Inr g"
proof -
  let ?summary = "analysis_summary analysis"
  let ?f = "summary_fingerprint ?summary" and ?b = "bound_for run (analysis_summary analysis) (length ss)"
  have length_ss: "length ss \<le> 10000" unfolding ss_def by (rule repairable_few [OF few])
  have kind: "id_kind_of run = RunId" "id_value run = t" using run(1) by (auto simp: identifier_parse_Inr)
  have long: "13 \<le> length (run_slug run) + length (policy_text ?b)"
    using run(2) run_slug_eq(1) [OF run(1)] kind(2) bound_policy_length [OF ok]
      int_str_length(1) [of "analytical_query_version ?summary"] ok
    by (simp add: summary_ok_def)
  note b = bound_for_binding [OF ok, of run "length ss"]
  note eq = generate_repair_plan_eq [OF result ok kind(1) length_ss [unfolded ss_def], folded ss_def]
  show ?thesis
  proof (cases "ss = []")
    case False
    have valid: "SKU_PATTERN s" if "s \<in> set ss" for s
      using analysis_skus_valid [OF sides] that by (simp add: ss_def)
    have "\<forall>s. \<exists>i. s \<in> set ss \<longrightarrow> derive_action_id run ?f s (Some ?b) = Inr i"
      using action_id_accepted [OF run(1) b valid long] by blast
    then obtain A where A: "\<And>s. s \<in> set ss \<Longrightarrow> derive_action_id run ?f s (Some ?b) = Inr (A s)" by metis
    have "\<forall>s. \<exists>i. s \<in> set ss \<longrightarrow> derive_conflict_id run s = Inr i"
      using conflict_id_accepted [OF run(1) valid] by blast
    then obtain C where C: "\<And>s. s \<in> set ss \<Longrightarrow> derive_conflict_id run s = Inr (C s)" by metis
    have inj: "inj_on A (set ss)" "inj_on C (set ss)"
      using actions conflicts A C by (simp_all add: inj_on_def)
    let ?actions = "map (\<lambda>s. sku_action source target (A s) (C s) ?f s) ss"
    from plan_actions_total [of ss run ?f ?b A C source target] A C have
      actions: "map_result (plan_action run ?f ?b) (map (outcome_at source target) ss) = Inr ?actions"
      by (simp add: ss_def)
    obtain plan where plan: "derive_plan_id run ?f (Some ?b) = Inr plan" "id_kind_of plan = RepairPlanId"
      using plan_id_accepted(1) [OF run(1) b long] by simp
    have made: "make_RepairPlan (plan_for ?f ?b plan ?actions) = Inr (plan_for ?f ?b plan ?actions)"
      unfolding ss_def by (rule make_plan_total)
        (use plan(2) False length_ss inj in \<open>simp_all add: ss_def bound_for_def\<close>)
    have skus: "map action_sku ?actions = ss"
      unfolding map_map comp_def by (rule map_idI) (simp add: sku_action_safe(1) ss_def)
    have ids: "map action_id ?actions = map A ss" by (simp add: action_for_def)
    have "distinct ss" unfolding ss_def by (rule repairable_skus_facts(3))
    then have "distinct (map action_id ?actions)"
      "distinct (map (derive_action_idempotency_key run content) (map action_sku ?actions))" for content
      unfolding skus ids using keys inj(1) by (simp_all add: distinct_map)
    moreover have "plan_actions (plan_for ?f ?b plan ?actions) = ?actions" by (simp add: plan_for_def)
    ultimately obtain ks where "make_RepairActionKeyMap (key_pairs run (plan_for ?f ?b plan ?actions)) = Inr ks"
      using key_map_total [of "plan_for ?f ?b plan ?actions" run] by metis
    with actions plan(1) made False show ?thesis by (simp add: eq Let_def)
  qed (simp add: eq Let_def)
qed

text \<open>
  C22.  Generation returns for every finished analysis and every run identity whose payload has at least four
  characters, as long as the repairable SKUs get different conflict identities, action identities and effect keys:
  the derived identities are always valid, whatever the SKUs and fingerprints, and no check of a constructor fires.
\<close>

theorem plan_generation_total:
  fixes source target
  defines "ss \<equiv> repairable_skus (sn_records source) (sn_records target)"
  assumes "\<forall>ob \<in> set (source_observations request) \<union> set (target_observations request). 0 \<le> obs_position ob"
    and "normalize_source_observations (source_observations request) = Inr source"
      "normalize_source_observations (target_observations request) = Inr target"
    and "analyze_reconciliation request = Inr analysis"
    and run: "identifier_parse RunId t = Inr run" "8 \<le> length t"
    and conflicts: "inj_on (derive_conflict_id run) (set ss)"
    and actions: "inj_on (\<lambda>s. derive_action_id run (summary_fingerprint (analysis_summary analysis)) s
        (Some (bound_for run (analysis_summary analysis) (length ss)))) (set ss)"
    and keys: "\<forall>content. inj_on (derive_action_idempotency_key run content) (set ss)"
  shows "\<exists>g. generate_repair_plan run analysis = Inr g"
proof -
  from analysis_parts [OF assms(2-5)] obtain digest secondary differences where
    "side_ok (sn_records source)" "side_ok (sn_records target)" "card (skus (sn_records source) \<union> skus (sn_records target)) \<le> 10000"
    "analysis_classification analysis = result_of (sn_records source) (sn_records target) secondary differences"
    "build_reconciliation_summary (analysis_classification analysis) source target (request_source_identity request)
       (request_target_identity request) (request_query_version request) digest = Inr (analysis_summary analysis)" by metis
  then show ?thesis
    using generation_total [OF _ _ _ _ summary_okI(1) run] conflicts actions keys unfolding ss_def by metis
qed

text \<open>
  C36.  As long as the analytical query version is below ten, a run whose identity has the shortest payload that
  identifiers allow, three characters, gets no repair plan: its plan identity would have at most 64 characters, so the
  dotted versions are not cut off and the identifier check refuses them.  Whenever something is repairable, generation
  raises.
\<close>

theorem short_run_has_no_plan:
  assumes "\<forall>ob \<in> set (source_observations request) \<union> set (target_observations request). 0 \<le> obs_position ob"
    and "normalize_source_observations (source_observations request) = Inr source"
      "normalize_source_observations (target_observations request) = Inr target"
    and "analyze_reconciliation request = Inr analysis"
    and run: "identifier_parse RunId t = Inr run" "length t = 7" and query: "request_query_version request < 10"
    and repairable: "repairable_skus (sn_records source) (sn_records target) \<noteq> []"
  shows "generate_repair_plan run analysis =
    Inl (ReconError (PyError (ValueError ''identifier payload must be canonical lowercase ASCII'')))"
proof -
  let ?s = "sn_records source" and ?t = "sn_records target" and ?summary = "analysis_summary analysis"
  let ?ss = "repairable_skus ?s ?t"
  let ?f = "summary_fingerprint ?summary" and ?b = "bound_for run (analysis_summary analysis) (length ?ss)"
  from analysis_parts [OF assms(1-4)] obtain digest secondary differences where
    few: "card (skus ?s \<union> skus ?t) \<le> 10000"
    and result: "analysis_classification analysis = result_of ?s ?t secondary differences"
    and summary: "build_reconciliation_summary (analysis_classification analysis) source target (request_source_identity request)
       (request_target_identity request) (request_query_version request) digest = Inr ?summary" by metis
  note ok = summary_okI(1) [OF summary]
  have kind: "id_kind_of run = RunId" "id_value run = t" using run(1) by (auto simp: identifier_parse_Inr)
  note eq = generate_repair_plan_eq [OF result ok kind(1) repairable_few [OF few]]
  have "length (int_str (analytical_query_version ?summary)) = 1"
    using ok query summary_okI(2) [OF summary] by (intro int_str_length(2)) (simp_all add: summary_ok_def)
  then have "length (run_slug run) + length (policy_text ?b) \<le> 12"
    using run(2) run_slug_eq(1) [OF run(1)] kind(2) bound_policy_length [OF ok] by simp
  then have refused: "derive_plan_id run ?f (Some ?b) = Inl (value_error ''identifier payload must be canonical lowercase ASCII'')"
    by (rule plan_id_refused [OF run(1) bound_for_binding [OF ok]])
  obtain s ss where ss: "?ss = s # ss" using repairable by (cases ?ss) auto
  have "plan_action run ?f ?b outcome = Inl (value_error ''identifier payload must be canonical lowercase ASCII'')" for outcome
    by (simp add: plan_action_def derive_action_id_def refused)
  then show ?thesis using ss by (simp add: eq Let_def)
qed

text \<open>The analysis of one record that the target misses.\<close>

lemma plain_repairable:
  assumes "n_record n = example_record 7 ''r1''"
  shows "repairable_skus [n] [] = [''AB-1'']" "review_skus [n] [] = []"
proof -
  have n: "n_sku n = ''AB-1''" using assms by (simp add: example_record_def)
  have "key_classification [n] [] ''AB-1'' = MISSING_FROM_TARGET"
    by (simp add: key_classification_def of_sku_def n classification_of_def)
  with n show "repairable_skus [n] [] = [''AB-1'']" "review_skus [n] [] = []"
    by (simp_all add: repairable_skus_def review_skus_def skus_def REPAIRABLE_CLASSIFICATIONS_def)
qed

lemma demo_run: "identifier_parse RunId ''run_demo-1'' = Inr (Identifier RunId ''run_demo-1'')"
  "identifier_parse RunId ''run_abc'' = Inr (Identifier RunId ''run_abc'')"
  by code_simp+

theorem plan_generation_total_witness:
  "\<exists>analysis g. analyze_reconciliation plain_request = Inr analysis \<and>
     generate_repair_plan (Identifier RunId ''run_demo-1'') analysis = Inr g"
proof -
  obtain n source analysis where a: "normalize_source_observations (source_observations plain_request) = Inr source"
    "normalize_source_observations (target_observations plain_request) = Inr nothing_normalized"
    "sn_records source = [n]" "n_record n = example_record 7 ''r1''" "analyze_reconciliation plain_request = Inr analysis"
    by (rule plain_analysis)
  then have "repairable_skus (sn_records source) (sn_records nothing_normalized) = [''AB-1'']"
    by (simp add: nothing_normalized_def plain_repairable)
  then have "\<exists>g. generate_repair_plan (Identifier RunId ''run_demo-1'') analysis = Inr g"
    using plan_generation_total [OF plain_positions a(1,2,5) demo_run(1)] by simp
  with a(5) show ?thesis by blast
qed

theorem short_run_has_no_plan_witness:
  "\<exists>analysis. analyze_reconciliation plain_request = Inr analysis \<and>
     generate_repair_plan (Identifier RunId ''run_abc'') analysis =
       Inl (ReconError (PyError (ValueError ''identifier payload must be canonical lowercase ASCII'')))"
proof -
  obtain n source analysis where a: "normalize_source_observations (source_observations plain_request) = Inr source"
    "normalize_source_observations (target_observations plain_request) = Inr nothing_normalized"
    "sn_records source = [n]" "n_record n = example_record 7 ''r1''" "analyze_reconciliation plain_request = Inr analysis"
    by (rule plain_analysis)
  then have "repairable_skus (sn_records source) (sn_records nothing_normalized) \<noteq> []"
    by (simp add: nothing_normalized_def plain_repairable)
  then show ?thesis
    using short_run_has_no_plan [OF plain_positions a(1,2,5) demo_run(2)] a(5) by (simp add: plain_request_def)
qed

theorem plan_is_safe_witness:
  "\<exists>analysis g plan. analyze_reconciliation plain_request = Inr analysis \<and>
     generate_repair_plan (Identifier RunId ''run_demo-1'') analysis = Inr g \<and>
     generated_plan g = Some plan \<and> map action_sku (plan_actions plan) = [''AB-1'']"
proof -
  obtain n source analysis where a: "normalize_source_observations (source_observations plain_request) = Inr source"
    "normalize_source_observations (target_observations plain_request) = Inr nothing_normalized"
    "sn_records source = [n]" "n_record n = example_record 7 ''r1''" "analyze_reconciliation plain_request = Inr analysis"
    by (rule plain_analysis)
  have one: "repairable_skus (sn_records source) (sn_records nothing_normalized) = [''AB-1'']"
    using a(3,4) by (simp add: nothing_normalized_def plain_repairable)
  obtain g where g: "generate_repair_plan (Identifier RunId ''run_demo-1'') analysis = Inr g"
  proof (rule analysis_parts [OF plain_positions a(1,2,5)])
    fix digest secondary differences
    assume parts: "side_ok (sn_records source)" "side_ok (sn_records nothing_normalized)"
      "card (skus (sn_records source) \<union> skus (sn_records nothing_normalized)) \<le> 10000"
      "analysis_classification analysis = result_of (sn_records source) (sn_records nothing_normalized) secondary differences"
      "build_reconciliation_summary (analysis_classification analysis) source nothing_normalized
         (request_source_identity plain_request) (request_target_identity plain_request)
         (request_query_version plain_request) digest = Inr (analysis_summary analysis)"
    show thesis
      using generation_total [OF parts(1-4) summary_okI(1) [OF parts(5)] demo_run(1)] one that by auto
  qed
  from plan_is_safe [OF plain_positions a(1,2,5) g] have "repairable_keys g = [''AB-1'']"
    "case generated_plan g of None \<Rightarrow> repairable_keys g = []
     | Some plan \<Rightarrow> map action_sku (plan_actions plan) = repairable_keys g"
    by (auto simp: one split: option.splits)
  with a(5) g show ?thesis by (cases "generated_plan g") auto
qed

end
