(* ===== verification/Target_State.thy ===== *)
theory Target_State
  imports Canonical_Properties
begin

text \<open>
  The identity of an independently observed target state (\<^verbatim>\<open>domain/repair/verification.py\<close>): a fingerprint of the
  digest of the observed inventory, framed with the version and the number of records.
\<close>

definition TARGET_STATE_FINGERPRINT_KIND :: string where "TARGET_STATE_FINGERPRINT_KIND = ''target_state''"
definition TARGET_STATE_FINGERPRINT_VERSION :: int where "TARGET_STATE_FINGERPRINT_VERSION = 1"
definition TARGET_OBSERVATION_VERSION :: int where "TARGET_OBSERVATION_VERSION = 1"
definition MAX_TARGET_RECORDS :: int where "MAX_TARGET_RECORDS = 10000000"
definition TARGET_FINGERPRINT_DOMAIN :: bytes where
  "TARGET_FINGERPRINT_DOMAIN = ''paritygrid:target-state-fingerprint:v1'' @ [CHR 0x00]"

record TargetStateIdentity =
  target_fingerprint_kind :: string
  target_fingerprint_version :: int
  target_observation_version :: int
  target_record_count :: int
  target_fingerprint :: StateFingerprint

definition make_TargetStateIdentity :: "TargetStateIdentity \<Rightarrow> TargetStateIdentity recon_result" where
  "make_TargetStateIdentity i =
     bind_result (require (target_fingerprint_kind i = TARGET_STATE_FINGERPRINT_KIND)
       (value_error ''target-state fingerprint kind is invalid'')) (\<lambda>_.
     bind_result (require (target_fingerprint_version i = TARGET_STATE_FINGERPRINT_VERSION)
       (value_error ''target-state fingerprint version is unsupported'')) (\<lambda>_.
     bind_result (require (target_observation_version i = TARGET_OBSERVATION_VERSION)
       (value_error ''target-state observation version is unsupported'')) (\<lambda>_.
     bind_result (require (0 \<le> target_record_count i \<and> target_record_count i \<le> MAX_TARGET_RECORDS)
       (value_error ''target-state record count is outside the supported range'')) (\<lambda>_.
     Inr i))))"

definition target_header :: "int \<Rightarrow> int \<Rightarrow> json" where
  "target_header observation_version records =
     JDict [(''fingerprint_kind'', JText TARGET_STATE_FINGERPRINT_KIND),
            (''fingerprint_version'', JInt TARGET_STATE_FINGERPRINT_VERSION),
            (''observation_version'', JInt observation_version), (''record_count'', JInt records)]"

definition target_preimage :: "int \<Rightarrow> int \<Rightarrow> StateFingerprint \<Rightarrow> bytes" where
  "target_preimage observation_version records inventory_digest =
     TARGET_FINGERPRINT_DOMAIN @ frame (json_dumps (target_header observation_version records)) @ frame inventory_digest"

definition compute_target_state_fingerprint :: "int \<Rightarrow> int \<Rightarrow> StateFingerprint \<Rightarrow> StateFingerprint recon_result" where
  "compute_target_state_fingerprint observation_version records inventory_digest =
     bind_result (require (\<not> observation_version < 1)
       (value_error ''target-state observation version is invalid'')) (\<lambda>_.
     bind_result (require (0 \<le> records \<and> records \<le> MAX_TARGET_RECORDS)
       (value_error ''target-state record count is outside the supported range'')) (\<lambda>_.
     lift_py (validate_fingerprint (sha256_hexdigest (target_preimage observation_version records inventory_digest)))))"

text \<open>The hashed bytes determine the version, the number of records and the digest.\<close>

lemma target_preimage_inj:
  assumes "SHA256_PATTERN digest" "SHA256_PATTERN digest'"
  shows "target_preimage v n digest = target_preimage v' n' digest' \<longleftrightarrow> v = v' \<and> n = n' \<and> digest = digest'"
proof
  assume eq: "target_preimage v n digest = target_preimage v' n' digest'"
  have "length (frame digest) = length (frame digest')"
    using assms by (simp add: frame_def SHA256_PATTERN_def)
  then have "digest = digest'" and "json_dumps (target_header v n) = json_dumps (target_header v' n')"
    using eq by (simp_all add: target_preimage_def append_eq_append_conv frame_inj)
  moreover have "plain (target_header v n)" for v n by (simp add: target_header_def)
  ultimately have "target_header v n = target_header v' n'" by (intro json_dumps_inj)
  with \<open>digest = digest'\<close> show "v = v' \<and> n = n' \<and> digest = digest'" by (simp add: target_header_def)
qed simp

text \<open>
  A fingerprint of a target state is always accepted by the identity; two observations get the same one only if they
  agree in version, number of records and inventory digest, or SHA-256 collides on the two hashed strings.
\<close>

lemma target_fingerprint_total:
  assumes "1 \<le> v" "0 \<le> n" "n \<le> 10000000"
  shows "compute_target_state_fingerprint v n digest = Inr (sha256_hexdigest (target_preimage v n digest))"
  using assms by (simp add: compute_target_state_fingerprint_def MAX_TARGET_RECORDS_def)

lemma target_fingerprint_Inr:
  "compute_target_state_fingerprint v n digest = Inr f \<Longrightarrow> f = sha256_hexdigest (target_preimage v n digest)"
  unfolding compute_target_state_fingerprint_def validate_hexdigest lift_py.simps
  by (cases "v < 1"; cases "0 \<le> n \<and> n \<le> MAX_TARGET_RECORDS") (simp_all only: require_def bind_result.simps if_True if_False simp_thms sum.inject sum.distinct)

lemma target_fingerprint_identifies:
  assumes "SHA256_PATTERN digest" "SHA256_PATTERN digest'"
    and "compute_target_state_fingerprint v n digest = Inr f" "compute_target_state_fingerprint v' n' digest' = Inr f"
    and "inj_on sha256_digest {target_preimage v n digest, target_preimage v' n' digest'}"
  shows "v = v' \<and> n = n' \<and> digest = digest'"
proof -
  have "f = sha256_hexdigest (target_preimage v n digest)" "f = sha256_hexdigest (target_preimage v' n' digest')"
    using target_fingerprint_Inr [OF assms(3)] target_fingerprint_Inr [OF assms(4)] .
  then have "sha256_digest (target_preimage v n digest) = sha256_digest (target_preimage v' n' digest')"
    by (metis sha256_hexdigest_eq)
  then have "target_preimage v n digest = target_preimage v' n' digest'"
    by (rule inj_onD [OF assms(5)]) simp_all
  then show ?thesis unfolding target_preimage_inj [OF assms(1,2)] .
qed

end
