(* ===== verification/Tracker.thy ===== *)
theory Tracker
  imports Execution_Plan
begin

text \<open>
  The sequential dependency tracker (\<^verbatim>\<open>application/execution/scheduler.py\<close>): immutable scheduler states and the
  operations that move one execution plan through them.  A method that changes the tracker returns the changed
  tracker; when it raises, nothing has been assigned yet.  The fingerprint of a plan is a parameter.
\<close>

subsection \<open>States\<close>

datatype tracker_error =
    SchedulerInvalidStateError string
  | SchedulerTransitionError string
  | SchedulerUnknownNodeError string
  | SchedulerDeadlockError string

type_synonym 'a tracker_result = "(tracker_error, 'a) result"

definition SCHEDULER_STATE_VERSION :: int where "SCHEDULER_STATE_VERSION = 1"
definition MAX_SCHEDULER_DEPENDENCIES :: nat where "MAX_SCHEDULER_DEPENDENCIES = MAX_EXECUTION_PLAN_NODES - 1"

datatype SchedulerStatus = Tracker_ACTIVE | Tracker_SUCCEEDED | Tracker_FAILED

definition SchedulerStatus_is_terminal :: "SchedulerStatus \<Rightarrow> bool" where
  "SchedulerStatus_is_terminal s \<longleftrightarrow> s \<noteq> Tracker_ACTIVE"

datatype ScheduledNodeStatus = Node_BLOCKED | Node_READY | Node_RUNNING | Node_SUCCEEDED | Node_FAILED

definition ScheduledNodeStatus_is_terminal :: "ScheduledNodeStatus \<Rightarrow> bool" where
  "ScheduledNodeStatus_is_terminal s \<longleftrightarrow> s \<in> {Node_SUCCEEDED, Node_FAILED}"

record ScheduledNode =
  sched_node_id :: string
  sched_status :: ScheduledNodeStatus
  remaining_dependency_ids :: "string list"

definition invalid_state :: "bool \<Rightarrow> string \<Rightarrow> unit tracker_result" where
  "invalid_state ok message = require ok (SchedulerInvalidStateError message)"

definition make_ScheduledNode :: "string \<Rightarrow> ScheduledNodeStatus \<Rightarrow> string list \<Rightarrow> ScheduledNode tracker_result" where
  "make_ScheduledNode n status remaining =
     bind_result (invalid_state (card (set remaining) = length remaining)
       ''remaining scheduler dependencies must be unique'') (\<lambda>_.
     bind_result (invalid_state (length remaining \<le> MAX_SCHEDULER_DEPENDENCIES)
       ''scheduled node exceeds the dependency limit'') (\<lambda>_.
     bind_result (invalid_state (n \<notin> set remaining) ''a scheduled node cannot depend on itself'') (\<lambda>_.
     bind_result (invalid_state (\<not> (status = Node_BLOCKED \<and> remaining = []))
       ''a blocked scheduler node requires a dependency'') (\<lambda>_.
     bind_result (invalid_state (\<not> (status \<noteq> Node_BLOCKED \<and> remaining \<noteq> []))
       ''an unblocked scheduler node cannot retain a dependency'') (\<lambda>_.
     Inr \<lparr>sched_node_id = n, sched_status = status, remaining_dependency_ids = sort remaining\<rparr>)))))"

record SchedulerState =
  tracker_status :: SchedulerStatus
  tracker_nodes :: "ScheduledNode list"
  tracker_fingerprint :: string
  tracker_version :: int

definition with_status :: "ScheduledNodeStatus \<Rightarrow> ScheduledNode list \<Rightarrow> string list" where
  "with_status status ns = map sched_node_id (filter (\<lambda>n. sched_status n = status) ns)"

definition make_SchedulerState :: "SchedulerState \<Rightarrow> SchedulerState tracker_result" where
  "make_SchedulerState s =
     (let ns = tracker_nodes s; ids = map sched_node_id ns in
      bind_result (invalid_state (tracker_version s = SCHEDULER_STATE_VERSION)
        ''scheduler state version is unsupported'') (\<lambda>_.
      bind_result (invalid_state (ns \<noteq> []) ''scheduler state requires at least one node'') (\<lambda>_.
      bind_result (invalid_state (length ns \<le> MAX_EXECUTION_PLAN_NODES) ''scheduler state exceeds the node limit'') (\<lambda>_.
      bind_result (invalid_state (card (set ids) = length ids) ''scheduled node identities must be unique'') (\<lambda>_.
      bind_result (invalid_state (\<not> list_ex (\<lambda>n. list_ex (\<lambda>d. d \<notin> set ids) (remaining_dependency_ids n)) ns)
        ''scheduler dependency must identify a known scheduled node'') (\<lambda>_.
      let running = with_status Node_RUNNING ns; failed = with_status Node_FAILED ns in
      bind_result (invalid_state (length running \<le> 1) ''sequential scheduler permits one running node'') (\<lambda>_.
      case tracker_status s of
        Tracker_ACTIVE \<Rightarrow>
          bind_result (invalid_state (failed = []) ''active scheduler state cannot contain failure'') (\<lambda>_.
          bind_result (invalid_state (\<not> list_all (\<lambda>n. sched_status n = Node_SUCCEEDED) ns)
            ''completed scheduler state must be succeeded'') (\<lambda>_.
          bind_result (require (\<not> (running = [] \<and> \<not> list_ex (\<lambda>n. sched_status n = Node_READY) ns))
            (SchedulerDeadlockError ''active scheduler state has no running or ready node'')) (\<lambda>_. Inr s)))
      | Tracker_SUCCEEDED \<Rightarrow>
          bind_result (invalid_state (\<not> list_ex (\<lambda>n. sched_status n \<noteq> Node_SUCCEEDED) ns)
            ''succeeded scheduler state requires every node to succeed'') (\<lambda>_. Inr s)
      | Tracker_FAILED \<Rightarrow>
          bind_result (invalid_state (\<not> (length failed \<noteq> 1 \<or> running \<noteq> []))
            ''failed scheduler state requires one failed node and no running node'') (\<lambda>_. Inr s))))))))"

definition first_with :: "ScheduledNodeStatus \<Rightarrow> SchedulerState \<Rightarrow> string option" where
  "first_with status s = (case with_status status (tracker_nodes s) of [] \<Rightarrow> None | n # _ \<Rightarrow> Some n)"

definition active_node_id :: "SchedulerState \<Rightarrow> string option" where "active_node_id = first_with Node_RUNNING"
definition failed_node_id :: "SchedulerState \<Rightarrow> string option" where "failed_node_id = first_with Node_FAILED"

definition ready_node_ids :: "SchedulerState \<Rightarrow> string list" where
  "ready_node_ids s = with_status Node_READY (tracker_nodes s)"

definition succeeded_node_ids :: "SchedulerState \<Rightarrow> string list" where
  "succeeded_node_ids s = with_status Node_SUCCEEDED (tracker_nodes s)"

subsection \<open>The tracker\<close>

record tracker =
  t_order :: "string list"
  t_nodes_by_id :: "(string, ExecutionPlanNode) dict"
  t_fingerprint :: string
  t_dependencies :: "(string, string list) dict"
  t_state :: SchedulerState

definition dependency_ids :: "PipelineEdge list \<Rightarrow> string \<Rightarrow> string list" where
  "dependency_ids es n = sort (remdups (map source_node_id (filter (\<lambda>e. target_node_id e = n) es)))"

definition dependencies_of :: "tracker \<Rightarrow> string \<Rightarrow> string list" where
  "dependencies_of t n = the (map_of (t_dependencies t) n)"

definition status_of :: "SchedulerState \<Rightarrow> string \<Rightarrow> ScheduledNodeStatus" where
  "status_of s n = the (map_of (map (\<lambda>x. (sched_node_id x, sched_status x)) (tracker_nodes s)) n)"

text \<open>\<^verbatim>\<open>_replace_status\<close>: every node gets its new status and what it still waits for.\<close>

definition replaced_node :: "tracker \<Rightarrow> (string \<Rightarrow> ScheduledNodeStatus) \<Rightarrow> string \<Rightarrow> ScheduledNode tracker_result" where
  "replaced_node t statuses n =
     (let remaining = filter (\<lambda>d. statuses d \<noteq> Node_SUCCEEDED) (dependencies_of t n);
          status = (if statuses n \<in> {Node_BLOCKED, Node_READY}
                    then (if remaining \<noteq> [] then Node_BLOCKED else Node_READY) else statuses n) in
      make_ScheduledNode n status (if status = Node_BLOCKED then remaining else []))"

definition replace_status :: "tracker \<Rightarrow> string \<Rightarrow> ScheduledNodeStatus \<Rightarrow> SchedulerState tracker_result" where
  "replace_status t n target =
     (let statuses = (status_of (t_state t))(n := target) in
      bind_result (map_result (replaced_node t statuses) (t_order t)) (\<lambda>ns.
      make_SchedulerState
        \<lparr>tracker_status =
           (if target = Node_FAILED then Tracker_FAILED
            else if list_all (\<lambda>x. sched_status x = Node_SUCCEEDED) ns then Tracker_SUCCEEDED else Tracker_ACTIVE),
         tracker_nodes = ns, tracker_fingerprint = t_fingerprint t, tracker_version = SCHEDULER_STATE_VERSION\<rparr>))"

definition require_known_node :: "tracker \<Rightarrow> string \<Rightarrow> unit tracker_result" where
  "require_known_node t n = require (n \<in> set (keys (t_nodes_by_id t))) (SchedulerUnknownNodeError ''scheduler node is unknown'')"

definition require_active_node :: "tracker \<Rightarrow> string \<Rightarrow> unit tracker_result" where
  "require_active_node t n =
     bind_result (require_known_node t n) (\<lambda>_.
     bind_result (require (tracker_status (t_state t) = Tracker_ACTIVE)
       (SchedulerTransitionError ''terminal scheduler state cannot complete a node'')) (\<lambda>_.
     require (active_node_id (t_state t) = Some n)
       (SchedulerTransitionError ''scheduler completion does not match the running node'')))"

subsection \<open>Restored states\<close>

fun restored_nodes ::
  "(string \<Rightarrow> string list) \<Rightarrow> (string \<Rightarrow> ScheduledNodeStatus) \<Rightarrow> ScheduledNode list \<Rightarrow> bool \<Rightarrow> unit tracker_result" where
  "restored_nodes deps statuses [] seen_frontier = Inr ()"
| "restored_nodes deps statuses (n # ns) seen_frontier =
     bind_result (invalid_state (\<not> (sched_status n = Node_SUCCEEDED \<and> seen_frontier))
       ''restored scheduler successes must form a deterministic prefix'') (\<lambda>_.
     let remaining = filter (\<lambda>d. statuses d \<noteq> Node_SUCCEEDED) (deps (sched_node_id n)) in
     bind_result (invalid_state (\<not> (remaining \<noteq> [] \<and> sched_status n \<noteq> Node_BLOCKED))
       ''restored scheduler node violates dependency completion'') (\<lambda>_.
     bind_result (invalid_state (remaining_dependency_ids n = sort remaining)
       ''restored scheduler dependencies do not match execution plan'') (\<lambda>_.
     restored_nodes deps statuses ns (seen_frontier \<or> sched_status n \<noteq> Node_SUCCEEDED))))"

definition validate_restored_state :: "tracker \<Rightarrow> SchedulerState \<Rightarrow> unit tracker_result" where
  "validate_restored_state t s =
     bind_result (invalid_state (tracker_fingerprint s = t_fingerprint t)
       ''restored scheduler plan fingerprint does not match execution plan'') (\<lambda>_.
     bind_result (invalid_state (map sched_node_id (tracker_nodes s) = t_order t)
       ''restored scheduler nodes must exactly match execution-plan order'') (\<lambda>_.
     bind_result (restored_nodes (dependencies_of t) (status_of s) (tracker_nodes s) False) (\<lambda>_.
     let frontier = length (succeeded_node_ids s) in
     if frontier = length (t_order t) then Inr ()
     else
       let frontier_status = sched_status (tracker_nodes s ! frontier) in
       bind_result (invalid_state (\<not> (active_node_id s \<noteq> None \<and> frontier_status \<noteq> Node_RUNNING))
         ''restored running node must be the deterministic frontier'') (\<lambda>_.
       invalid_state (\<not> (failed_node_id s \<noteq> None \<and> frontier_status \<noteq> Node_FAILED))
         ''restored failed node must be the deterministic frontier''))))"

definition tracker_of :: "(ExecutionPlan \<Rightarrow> string) \<Rightarrow> ExecutionPlan \<Rightarrow> SchedulerState \<Rightarrow> tracker" where
  "tracker_of fingerprint plan s =
     (let order = map plan_node_id (plan_nodes plan) in
      \<lparr>t_order = order, t_nodes_by_id = map (\<lambda>x. (plan_node_id x, x)) (plan_nodes plan),
       t_fingerprint = fingerprint plan,
       t_dependencies = map (\<lambda>n. (n, dependency_ids (plan_edges plan) n)) order, t_state = s\<rparr>)"

definition make_tracker :: "(ExecutionPlan \<Rightarrow> string) \<Rightarrow> ExecutionPlan \<Rightarrow> SchedulerState option \<Rightarrow> tracker tracker_result" where
  "make_tracker fingerprint plan restored =
     (case restored of
        None \<Rightarrow>
          bind_result (map_result (\<lambda>n.
             let ds = dependency_ids (plan_edges plan) n in
             make_ScheduledNode n (if ds \<noteq> [] then Node_BLOCKED else Node_READY) ds)
             (map plan_node_id (plan_nodes plan))) (\<lambda>ns.
          bind_result (make_SchedulerState
            \<lparr>tracker_status = Tracker_ACTIVE, tracker_nodes = ns, tracker_fingerprint = fingerprint plan,
             tracker_version = SCHEDULER_STATE_VERSION\<rparr>) (\<lambda>s. Inr (tracker_of fingerprint plan s)))
      | Some s \<Rightarrow>
          bind_result (validate_restored_state (tracker_of fingerprint plan s) s) (\<lambda>_.
          Inr (tracker_of fingerprint plan s)))"

subsection \<open>Operations\<close>

definition tracker_node :: "tracker \<Rightarrow> string \<Rightarrow> ScheduledNode tracker_result" where
  "tracker_node t n =
     bind_result (require_known_node t n) (\<lambda>_. Inr (hd (filter (\<lambda>x. sched_node_id x = n) (tracker_nodes (t_state t)))))"

definition next_ready_node :: "tracker \<Rightarrow> ExecutionPlanNode option" where
  "next_ready_node t =
     (if tracker_status (t_state t) \<noteq> Tracker_ACTIVE then None
      else if active_node_id (t_state t) \<noteq> None then None
      else map_of (t_nodes_by_id t) (hd (ready_node_ids (t_state t))))"

definition start_node :: "tracker \<Rightarrow> string \<Rightarrow> tracker tracker_result" where
  "start_node t n =
     bind_result (require_known_node t n) (\<lambda>_.
     bind_result (require (tracker_status (t_state t) = Tracker_ACTIVE)
       (SchedulerTransitionError ''terminal scheduler state cannot start a node'')) (\<lambda>_.
     bind_result (require (active_node_id (t_state t) = None)
       (SchedulerTransitionError ''sequential scheduler already has a running node'')) (\<lambda>_.
     bind_result (require (map_option plan_node_id (next_ready_node t) = Some n)
       (SchedulerTransitionError ''scheduler node is not next in deterministic order'')) (\<lambda>_.
     bind_result (replace_status t n Node_RUNNING) (\<lambda>s. Inr (t\<lparr>t_state := s\<rparr>))))))"

definition succeed_node :: "tracker \<Rightarrow> string \<Rightarrow> tracker tracker_result" where
  "succeed_node t n =
     bind_result (require_active_node t n) (\<lambda>_.
     bind_result (replace_status t n Node_SUCCEEDED) (\<lambda>s. Inr (t\<lparr>t_state := s\<rparr>)))"

definition fail_node :: "tracker \<Rightarrow> string \<Rightarrow> tracker tracker_result" where
  "fail_node t n =
     bind_result (require_active_node t n) (\<lambda>_.
     bind_result (replace_status t n Node_FAILED) (\<lambda>s. Inr (t\<lparr>t_state := s\<rparr>)))"

definition pause_node :: "tracker \<Rightarrow> string \<Rightarrow> tracker tracker_result" where
  "pause_node t n =
     bind_result (require (tracker_status (t_state t) = Tracker_ACTIVE)
       (SchedulerTransitionError ''terminal scheduler cannot pause a node'')) (\<lambda>_.
     bind_result (require (active_node_id (t_state t) = Some n)
       (SchedulerTransitionError ''only the active scheduler node can pause'')) (\<lambda>_.
     bind_result (map_result (\<lambda>x. make_ScheduledNode (sched_node_id x)
         (if sched_node_id x = n then Node_READY else sched_status x) (remaining_dependency_ids x))
       (tracker_nodes (t_state t))) (\<lambda>ns.
     bind_result (make_SchedulerState
       \<lparr>tracker_status = Tracker_ACTIVE, tracker_nodes = ns, tracker_fingerprint = t_fingerprint t,
        tracker_version = SCHEDULER_STATE_VERSION\<rparr>) (\<lambda>s. Inr (t\<lparr>t_state := s\<rparr>)))))"

end
