(* ===== verification/Tracker_Cursor.thy ===== *)
theory Tracker_Cursor
  imports Tracker
begin

text \<open>
  What a dependency tracker is: the plan's nodes in order, how many of them have succeeded, and what the next one does.
  A tracker of a plan stays in the state such a cursor describes, and every operation answers as the cursor does.
\<close>

subsection \<open>Cursors\<close>

datatype cursor_phase = Cursor_IDLE | Cursor_BUSY | Cursor_BROKEN

record cursor =
  c_order :: "string list"
  c_position :: nat
  c_phase :: cursor_phase

definition plan_tracker :: "tracker \<Rightarrow> bool" where
  "plan_tracker t \<longleftrightarrow>
     distinct (t_order t) \<and> t_order t \<noteq> [] \<and> length (t_order t) \<le> MAX_EXECUTION_PLAN_NODES \<and>
     keys (t_nodes_by_id t) = t_order t \<and> (\<forall>(n, x) \<in> set (t_nodes_by_id t). plan_node_id x = n) \<and>
     (\<forall>n \<in> set (t_order t). sorted (dependencies_of t n) \<and> distinct (dependencies_of t n) \<and>
        set (dependencies_of t n) \<subseteq> set (take (position (t_order t) n) (t_order t)))"

definition cursor_ok :: "tracker \<Rightarrow> cursor \<Rightarrow> bool" where
  "cursor_ok t c \<longleftrightarrow> c_order c = t_order t \<and> c_position c \<le> length (c_order c) \<and>
     (c_phase c \<noteq> Cursor_IDLE \<longrightarrow> c_position c < length (c_order c))"

definition completed :: "cursor \<Rightarrow> string set" where "completed c = set (take (c_position c) (c_order c))"

definition waits :: "tracker \<Rightarrow> cursor \<Rightarrow> string \<Rightarrow> string list" where
  "waits t c n = filter (\<lambda>d. d \<notin> completed c) (dependencies_of t n)"

definition node_status :: "tracker \<Rightarrow> cursor \<Rightarrow> string \<Rightarrow> ScheduledNodeStatus" where
  "node_status t c n =
     (if n \<in> completed c then Node_SUCCEEDED
      else if c_phase c \<noteq> Cursor_IDLE \<and> n = c_order c ! c_position c
        then (if c_phase c = Cursor_BUSY then Node_RUNNING else Node_FAILED)
      else if waits t c n = [] then Node_READY else Node_BLOCKED)"

definition cursor_node :: "tracker \<Rightarrow> cursor \<Rightarrow> string \<Rightarrow> ScheduledNode" where
  "cursor_node t c n =
     \<lparr>sched_node_id = n, sched_status = node_status t c n,
      remaining_dependency_ids = (if node_status t c n = Node_BLOCKED then waits t c n else [])\<rparr>"

definition cursor_status :: "cursor \<Rightarrow> SchedulerStatus" where
  "cursor_status c =
     (if c_position c = length (c_order c) then Tracker_SUCCEEDED
      else if c_phase c = Cursor_BROKEN then Tracker_FAILED else Tracker_ACTIVE)"

definition cursor_state :: "tracker \<Rightarrow> cursor \<Rightarrow> SchedulerState" where
  "cursor_state t c =
     \<lparr>tracker_status = cursor_status c, tracker_nodes = map (cursor_node t c) (c_order c),
      tracker_fingerprint = t_fingerprint t, tracker_version = SCHEDULER_STATE_VERSION\<rparr>"

subsection \<open>The statuses of a cursor\<close>

lemma position_nth: "distinct xs \<Longrightarrow> i < length xs \<Longrightarrow> position xs (xs ! i) = i"
  by (metis nth_mem nth_position position_less nth_eq_iff_index_eq)

lemma in_take_iff:
  assumes n: "n \<in> set xs"
  shows "n \<in> set (take i xs) \<longleftrightarrow> position xs n < i"
proof
  assume less: "position xs n < i"
  have "take i xs ! position xs n = n" "position xs n < length (take i xs)"
    using n less by (simp_all add: nth_position position_less)
  then show "n \<in> set (take i xs)" by (metis nth_mem)
qed (rule position_take)

lemma filter_single: "distinct xs \<Longrightarrow> filter (\<lambda>y. y = x) xs = (if x \<in> set xs then [x] else [])"
  by (induction xs) auto

lemma plan_trackerD:
  assumes "plan_tracker t"
  shows "distinct (t_order t)" "t_order t \<noteq> []" "length (t_order t) \<le> MAX_EXECUTION_PLAN_NODES"
    "keys (t_nodes_by_id t) = t_order t"
    "n \<in> set (t_order t) \<Longrightarrow> sorted (dependencies_of t n)" "n \<in> set (t_order t) \<Longrightarrow> distinct (dependencies_of t n)"
    "n \<in> set (t_order t) \<Longrightarrow> d \<in> set (dependencies_of t n) \<Longrightarrow>
       d \<in> set (t_order t) \<and> position (t_order t) d < position (t_order t) n"
proof -
  have *: "\<forall>n \<in> set (t_order t). sorted (dependencies_of t n) \<and> distinct (dependencies_of t n) \<and>
      set (dependencies_of t n) \<subseteq> set (take (position (t_order t) n) (t_order t))"
    using assms unfolding plan_tracker_def by blast
  show "n \<in> set (t_order t) \<Longrightarrow> sorted (dependencies_of t n)" "n \<in> set (t_order t) \<Longrightarrow> distinct (dependencies_of t n)"
    using * by blast+
  show "n \<in> set (t_order t) \<Longrightarrow> d \<in> set (dependencies_of t n) \<Longrightarrow>
       d \<in> set (t_order t) \<and> position (t_order t) d < position (t_order t) n"
    using * by (meson in_set_takeD position_take subsetD)
qed (use assms in \<open>simp_all add: plan_tracker_def\<close>)

lemma completed_iff:
  "plan_tracker t \<Longrightarrow> cursor_ok t c \<Longrightarrow> n \<in> set (t_order t) \<Longrightarrow>
     n \<in> completed c \<longleftrightarrow> position (t_order t) n < c_position c"
  by (simp add: completed_def cursor_ok_def in_take_iff)

lemma completed_subset: "cursor_ok t c \<Longrightarrow> n \<in> completed c \<Longrightarrow> n \<in> set (t_order t)"
  by (auto simp: completed_def cursor_ok_def dest: in_set_takeD)

text \<open>The node at the cursor waits for nothing.\<close>

lemma waits_at_cursor:
  assumes "plan_tracker t" "cursor_ok t c" "c_position c < length (t_order t)"
  shows "waits t c (t_order t ! c_position c) = []"
proof -
  have at: "position (t_order t) (t_order t ! c_position c) = c_position c"
    by (rule position_nth [OF plan_trackerD(1) [OF assms(1)] assms(3)])
  have "d \<in> completed c" if "d \<in> set (dependencies_of t (t_order t ! c_position c))" for d
    using plan_trackerD(7) [OF assms(1) nth_mem [OF assms(3)] that] completed_iff [OF assms(1,2)] at by auto
  then show ?thesis by (simp add: waits_def filter_empty_conv)
qed

lemma at_cursor_incomplete:
  assumes "plan_tracker t" "cursor_ok t c" "c_position c < length (t_order t)"
  shows "t_order t ! c_position c \<notin> completed c"
  using assms by (simp add: completed_iff position_nth plan_trackerD)

lemma node_status_at_cursor:
  assumes "plan_tracker t" "cursor_ok t c" "c_position c < length (t_order t)"
  shows "node_status t c (t_order t ! c_position c) =
    (case c_phase c of Cursor_IDLE \<Rightarrow> Node_READY | Cursor_BUSY \<Rightarrow> Node_RUNNING | Cursor_BROKEN \<Rightarrow> Node_FAILED)"
  using waits_at_cursor [OF assms] at_cursor_incomplete [OF assms] assms
  by (auto simp: node_status_def cursor_ok_def split: cursor_phase.splits)

lemma node_status_iff:
  "node_status t c n = Node_SUCCEEDED \<longleftrightarrow> n \<in> completed c"
  "node_status t c n = Node_RUNNING \<longleftrightarrow> n \<notin> completed c \<and> c_phase c = Cursor_BUSY \<and> n = c_order c ! c_position c"
  "node_status t c n = Node_FAILED \<longleftrightarrow> n \<notin> completed c \<and> c_phase c = Cursor_BROKEN \<and> n = c_order c ! c_position c"
  by (cases "c_phase c"; auto simp: node_status_def)+

lemma with_status_cursor: "with_status st (map (cursor_node t c) ns) = filter (\<lambda>n. node_status t c n = st) ns"
  by (induction ns) (auto simp: with_status_def cursor_node_def)

lemma running_cursor:
  assumes "plan_tracker t" "cursor_ok t c"
  shows "with_status Node_RUNNING (map (cursor_node t c) (t_order t)) =
    (if c_phase c = Cursor_BUSY then [t_order t ! c_position c] else [])"
proof (cases "c_phase c = Cursor_BUSY")
  case True
  with assms have c: "c_order c = t_order t" "c_position c < length (t_order t)" by (auto simp: cursor_ok_def)
  have "with_status Node_RUNNING (map (cursor_node t c) (t_order t)) = filter (\<lambda>n. n = t_order t ! c_position c) (t_order t)"
    unfolding with_status_cursor node_status_iff using at_cursor_incomplete [OF assms c(2)] True c
    by (intro filter_cong) auto
  with c True show ?thesis using plan_trackerD(1) [OF assms(1)] by (simp add: filter_single)
qed (simp add: with_status_cursor node_status_iff filter_empty_conv)

lemma failed_cursor:
  assumes "plan_tracker t" "cursor_ok t c"
  shows "with_status Node_FAILED (map (cursor_node t c) (t_order t)) =
    (if c_phase c = Cursor_BROKEN then [t_order t ! c_position c] else [])"
proof (cases "c_phase c = Cursor_BROKEN")
  case True
  with assms have c: "c_order c = t_order t" "c_position c < length (t_order t)" by (auto simp: cursor_ok_def)
  have "with_status Node_FAILED (map (cursor_node t c) (t_order t)) = filter (\<lambda>n. n = t_order t ! c_position c) (t_order t)"
    unfolding with_status_cursor node_status_iff using at_cursor_incomplete [OF assms c(2)] True c
    by (intro filter_cong) auto
  with c True show ?thesis using plan_trackerD(1) [OF assms(1)] by (simp add: filter_single)
qed (simp add: with_status_cursor node_status_iff filter_empty_conv)

lemma all_succeeded_cursor:
  assumes "plan_tracker t" "cursor_ok t c"
  shows "(\<forall>n \<in> set (t_order t). node_status t c n = Node_SUCCEEDED) \<longleftrightarrow> c_position c = length (t_order t)"
proof
  assume *: "\<forall>n \<in> set (t_order t). node_status t c n = Node_SUCCEEDED"
  show "c_position c = length (t_order t)"
  proof (rule ccontr)
    assume "c_position c \<noteq> length (t_order t)"
    then have "c_position c < length (t_order t)" using assms by (auto simp: cursor_ok_def)
    then show False using * node_status_at_cursor [OF assms] by (force split: cursor_phase.splits)
  qed
next
  assume "c_position c = length (t_order t)"
  then show "\<forall>n \<in> set (t_order t). node_status t c n = Node_SUCCEEDED"
    using assms by (auto simp: node_status_iff completed_def cursor_ok_def)
qed

lemma ready_cursor:
  assumes "plan_tracker t" "cursor_ok t c" "c_position c < length (t_order t)" "c_phase c = Cursor_IDLE"
  shows "\<exists>ns. with_status Node_READY (map (cursor_node t c) (t_order t)) = t_order t ! c_position c # ns"
proof -
  let ?i = "c_position c"
  have o: "t_order t = take ?i (t_order t) @ t_order t ! ?i # drop (Suc ?i) (t_order t)"
    using assms(3) by (simp add: id_take_nth_drop)
  have "filter (\<lambda>n. node_status t c n = Node_READY) (take ?i (t_order t)) = []"
    using assms(2) by (auto simp: filter_empty_conv node_status_def completed_def cursor_ok_def)
  then show ?thesis
    unfolding with_status_cursor using node_status_at_cursor [OF assms(1-3)] assms(4) by (subst o) simp
qed

subsection \<open>Cursor states are valid\<close>

lemma with_status_empty: "with_status st ns = [] \<longleftrightarrow> \<not> list_ex (\<lambda>n. sched_status n = st) ns"
  by (auto simp: with_status_def filter_empty_conv list_ex_iff)

lemma cursor_ids [simp]: "map sched_node_id (map (cursor_node t c) ns) = ns"
  by (induction ns) (simp_all add: cursor_node_def)

lemma make_ScheduledNode_cursor:
  assumes t: "plan_tracker t" and c: "cursor_ok t c" and n: "n \<in> set (t_order t)"
  shows "make_ScheduledNode n (node_status t c n) (if node_status t c n = Node_BLOCKED then waits t c n else []) =
    Inr (cursor_node t c n)"
proof -
  have w: "distinct (waits t c n)" "sorted (waits t c n)" "n \<notin> set (waits t c n)"
    using plan_trackerD(5-7) [OF t n] by (auto simp: waits_def intro: sorted_wrt_filter)
  have "set (waits t c n) \<subseteq> set (t_order t) - {n}" using plan_trackerD(7) [OF t n] by (auto simp: waits_def)
  then have "card (set (waits t c n)) \<le> card (set (t_order t) - {n})" by (intro card_mono) simp_all
  then have "length (waits t c n) \<le> MAX_SCHEDULER_DEPENDENCIES"
    using plan_trackerD(1,3) [OF t] n w(1) by (simp add: distinct_card MAX_SCHEDULER_DEPENDENCIES_def)
  moreover have "node_status t c n = Node_BLOCKED \<Longrightarrow> waits t c n \<noteq> []" by (auto simp: node_status_def split: if_splits)
  ultimately show ?thesis
    using w by (simp add: make_ScheduledNode_def invalid_state_def distinct_card cursor_node_def sorted_sort_id)
qed

lemma remaining_known:
  assumes t: "plan_tracker t"
  shows "\<not> list_ex (\<lambda>n. list_ex (\<lambda>d. d \<notin> set (t_order t)) (remaining_dependency_ids n)) (map (cursor_node t c) (t_order t))"
  using plan_trackerD(7) [OF t] by (auto simp: list_ex_iff cursor_node_def waits_def)

lemma make_SchedulerState_cursor:
  assumes t: "plan_tracker t" and c: "cursor_ok t c"
  shows "make_SchedulerState (cursor_state t c) = Inr (cursor_state t c)"
proof -
  let ?ns = "map (cursor_node t c) (t_order t)"
  have order: "c_order c = t_order t" using c by (simp add: cursor_ok_def)
  note d = plan_trackerD [OF t]
  have checks: "card (set (t_order t)) = length (t_order t)" "\<not> list_ex (\<lambda>n. list_ex (\<lambda>d. d \<notin> set (t_order t)) (remaining_dependency_ids n)) ?ns"
    using d(1) by (rule distinct_card, intro remaining_known [OF t])
  have all: "list_all (\<lambda>n. sched_status n = Node_SUCCEEDED) ?ns \<longleftrightarrow> c_position c = length (t_order t)"
    using all_succeeded_cursor [OF t c] by (simp add: list_all_iff cursor_node_def)
  have ex: "list_ex (\<lambda>n. sched_status n \<noteq> Node_SUCCEEDED) ?ns \<longleftrightarrow> c_position c \<noteq> length (t_order t)"
    using all by (auto simp: list_all_iff list_ex_iff)
  have idle: "c_position c < length (t_order t)" if "c_phase c \<noteq> Cursor_IDLE" using that c order by (simp add: cursor_ok_def)
  have ready: "list_ex (\<lambda>n. sched_status n = Node_READY) ?ns"
    if "c_position c \<noteq> length (t_order t)" "c_phase c = Cursor_IDLE"
  proof -
    have "c_position c < length (t_order t)" using that c order by (simp add: cursor_ok_def)
    from ready_cursor [OF t c this that(2)] have "with_status Node_READY ?ns \<noteq> []" by auto
    then show ?thesis by (simp add: with_status_empty)
  qed
  show ?thesis
    using d(2,3) checks all ex running_cursor [OF t c] failed_cursor [OF t c] idle ready
    by (cases "c_phase c")
       (simp_all add: make_SchedulerState_def invalid_state_def cursor_state_def cursor_status_def order Let_def
          del: map_map set_map)
qed

lemma status_of_cursor: "n \<in> set (c_order c) \<Longrightarrow> status_of (cursor_state t c) n = node_status t c n"
  by (simp add: status_of_def cursor_state_def cursor_node_def comp_def map_of_map_restrict)

subsection \<open>Moving the cursor\<close>

lemma replaced_node_cursor:
  assumes t: "plan_tracker t" and c: "cursor_ok t c" and n: "n \<in> set (t_order t)"
    and succeeded: "\<And>d. d \<in> set (t_order t) \<Longrightarrow> statuses d = Node_SUCCEEDED \<longleftrightarrow> d \<in> completed c"
    and status: "statuses n = node_status t c n \<or> {statuses n, node_status t c n} \<subseteq> {Node_BLOCKED, Node_READY}"
  shows "replaced_node t statuses n = Inr (cursor_node t c n)"
proof -
  have w: "filter (\<lambda>d. statuses d \<noteq> Node_SUCCEEDED) (dependencies_of t n) = waits t c n"
    unfolding waits_def using plan_trackerD(7) [OF t n] succeeded by (intro filter_cong) auto
  have "(if statuses n \<in> {Node_BLOCKED, Node_READY} then (if waits t c n \<noteq> [] then Node_BLOCKED else Node_READY)
      else statuses n) = node_status t c n"
    using status by (auto simp: node_status_def split: if_splits)
  then show ?thesis using make_ScheduledNode_cursor [OF t c n] by (simp add: replaced_node_def Let_def w)
qed

lemma replace_status_cursor:
  assumes t: "plan_tracker t" and c: "cursor_ok t c" and state: "t_state t = cursor_state t c'" and n: "n \<in> set (t_order t)"
    and c': "c_order c' = t_order t"
    and target: "target = node_status t c n" "target = Node_FAILED \<longleftrightarrow> c_phase c = Cursor_BROKEN"
    and others: "\<And>m. m \<in> set (t_order t) \<Longrightarrow> m \<noteq> n \<Longrightarrow> m \<in> completed c' \<longleftrightarrow> m \<in> completed c"
      "\<And>m. m \<in> set (t_order t) \<Longrightarrow> m \<noteq> n \<Longrightarrow> node_status t c' m = node_status t c m \<or>
         {node_status t c' m, node_status t c m} \<subseteq> {Node_BLOCKED, Node_READY}"
  shows "replace_status t n target = Inr (cursor_state t c)"
proof -
  let ?statuses = "(status_of (t_state t))(n := target)"
  have order: "c_order c = t_order t" using c by (simp add: cursor_ok_def)
  have s: "?statuses m = (if m = n then target else node_status t c' m)" if "m \<in> set (t_order t)" for m
    using that state by (simp add: status_of_cursor c')
  have nodes: "map_result (replaced_node t ?statuses) (t_order t) = Inr (map (cursor_node t c) (t_order t))"
  proof (rule map_result_map, rule replaced_node_cursor [OF t c])
    fix m d assume m: "m \<in> set (t_order t)"
    show "m \<in> set (t_order t)" by (rule m)
    show "d \<in> set (t_order t) \<Longrightarrow> ?statuses d = Node_SUCCEEDED \<longleftrightarrow> d \<in> completed c"
      using s [of d] target(1) others(1) [of d] by (auto simp: node_status_iff)
    show "?statuses m = node_status t c m \<or> {?statuses m, node_status t c m} \<subseteq> {Node_BLOCKED, Node_READY}"
      using s [OF m] target(1) others(2) [OF m] by auto
  qed
  have all: "list_all (\<lambda>x. sched_status x = Node_SUCCEEDED) (map (cursor_node t c) (t_order t)) \<longleftrightarrow> c_position c = length (t_order t)"
    using all_succeeded_cursor [OF t c] by (simp add: list_all_iff cursor_node_def)
  have failed: "c_phase c = Cursor_BROKEN \<Longrightarrow> c_position c \<noteq> length (t_order t)" using c order by (auto simp: cursor_ok_def)
  show ?thesis
    unfolding replace_status_def Let_def nodes bind_result.simps all
    using make_SchedulerState_cursor [OF t c] target(2) failed
    by (cases "c_phase c = Cursor_BROKEN"; cases "c_position c = length (t_order t)")
       (simp_all add: cursor_state_def cursor_status_def order)
qed

end
