(* ===== verification/Refinement.thy ===== *)
theory Refinement
  imports Prelude
begin

text \<open>
  The interface between an object and its specification: every call is answered as the specification answers it, and
  object and specification stay related.
\<close>

locale refinement =
  fixes exec :: "'op \<Rightarrow> 's \<Rightarrow> 'out \<times> 's"
    and spec :: "'op \<Rightarrow> 'a \<Rightarrow> 'out \<times> 'a"
    and implements :: "'s \<Rightarrow> 'a \<Rightarrow> bool"
  assumes step_refines: "implements s a \<Longrightarrow>
    fst (exec x s) = fst (spec x a) \<and> implements (snd (exec x s)) (snd (spec x a))"
begin

lemma perform_refines:
  "implements s a \<Longrightarrow> fst (perform exec xs s) = fst (perform spec xs a) \<and>
     implements (snd (perform exec xs s)) (snd (perform spec xs a))"
proof (induction xs arbitrary: s a)
  case (Cons x xs)
  then show ?case using step_refines [of s a x] by simp
qed simp

end

end
