(* ===== verification/Tracker_Properties.thy ===== *)
theory Tracker_Properties
  imports Tracker_Cursor Refinement
begin

text \<open>
  The dependency tracker refines the cursor: whatever is called, its answers are the cursor's, so a plan is run node by
  node in its order and no state check ever fails; and a saved state is restored exactly if calls can reach it.
\<close>

subsection \<open>The calls\<close>

datatype tracker_op = Op_next | Op_start string | Op_succeed string | Op_fail string | Op_pause string

definition moved :: "tracker \<Rightarrow> tracker tracker_result \<Rightarrow> string option tracker_result \<times> tracker" where
  "moved t r = (case r of Inl e \<Rightarrow> (Inl e, t) | Inr t' \<Rightarrow> (Inr None, t'))"

fun tracker_call :: "tracker_op \<Rightarrow> tracker \<Rightarrow> string option tracker_result \<times> tracker" where
  "tracker_call Op_next t = (Inr (map_option plan_node_id (next_ready_node t)), t)"
| "tracker_call (Op_start n) t = moved t (start_node t n)"
| "tracker_call (Op_succeed n) t = moved t (succeed_node t n)"
| "tracker_call (Op_fail n) t = moved t (fail_node t n)"
| "tracker_call (Op_pause n) t = moved t (pause_node t n)"

text \<open>The specification: one plan, one position.\<close>

definition finished :: "cursor \<Rightarrow> bool" where
  "finished c \<longleftrightarrow> c_position c = length (c_order c) \<or> c_phase c = Cursor_BROKEN"

definition at_cursor :: "cursor \<Rightarrow> string" where "at_cursor c = c_order c ! c_position c"

definition refusal_to_complete :: "cursor \<Rightarrow> string \<Rightarrow> tracker_error option" where
  "refusal_to_complete c n =
     (if n \<notin> set (c_order c) then Some (SchedulerUnknownNodeError ''scheduler node is unknown'')
      else if finished c then Some (SchedulerTransitionError ''terminal scheduler state cannot complete a node'')
      else if c_phase c = Cursor_IDLE \<or> n \<noteq> at_cursor c
        then Some (SchedulerTransitionError ''scheduler completion does not match the running node'')
      else None)"

definition cursor_moved ::
  "cursor \<Rightarrow> tracker_error option \<Rightarrow> cursor \<Rightarrow> string option tracker_result \<times> cursor" where
  "cursor_moved c refusal c' = (case refusal of Some e \<Rightarrow> (Inl e, c) | None \<Rightarrow> (Inr None, c'))"

fun cursor_call :: "tracker_op \<Rightarrow> cursor \<Rightarrow> string option tracker_result \<times> cursor" where
  "cursor_call Op_next c = (Inr (if finished c \<or> c_phase c = Cursor_BUSY then None else Some (at_cursor c)), c)"
| "cursor_call (Op_start n) c =
     cursor_moved c
       (if n \<notin> set (c_order c) then Some (SchedulerUnknownNodeError ''scheduler node is unknown'')
        else if finished c then Some (SchedulerTransitionError ''terminal scheduler state cannot start a node'')
        else if c_phase c = Cursor_BUSY
          then Some (SchedulerTransitionError ''sequential scheduler already has a running node'')
        else if n \<noteq> at_cursor c
          then Some (SchedulerTransitionError ''scheduler node is not next in deterministic order'') else None)
       (c\<lparr>c_phase := Cursor_BUSY\<rparr>)"
| "cursor_call (Op_succeed n) c =
     cursor_moved c (refusal_to_complete c n) (c\<lparr>c_position := Suc (c_position c), c_phase := Cursor_IDLE\<rparr>)"
| "cursor_call (Op_fail n) c = cursor_moved c (refusal_to_complete c n) (c\<lparr>c_phase := Cursor_BROKEN\<rparr>)"
| "cursor_call (Op_pause n) c =
     cursor_moved c
       (if finished c then Some (SchedulerTransitionError ''terminal scheduler cannot pause a node'')
        else if c_phase c = Cursor_IDLE \<or> n \<noteq> at_cursor c
          then Some (SchedulerTransitionError ''only the active scheduler node can pause'') else None)
       (c\<lparr>c_phase := Cursor_IDLE\<rparr>)"

definition tracks :: "tracker \<Rightarrow> cursor \<Rightarrow> bool" where
  "tracks t c \<longleftrightarrow> plan_tracker t \<and> cursor_ok t c \<and> t_state t = cursor_state t c"

subsection \<open>One call\<close>

lemma tracks_order: "tracks t c \<Longrightarrow> c_order c = t_order t"
  by (simp add: tracks_def cursor_ok_def)

lemma dependencies_of_state [simp]: "dependencies_of (t\<lparr>t_state := s\<rparr>) = dependencies_of t"
  by (simp add: dependencies_of_def fun_eq_iff)

lemma tracks_moved:
  assumes "tracks t c'" "cursor_ok t c"
  shows "tracks (t\<lparr>t_state := cursor_state t c\<rparr>) c"
proof -
  have "plan_tracker (t\<lparr>t_state := cursor_state t c\<rparr>)" using assms by (simp add: tracks_def plan_tracker_def)
  moreover have "cursor_state (t\<lparr>t_state := cursor_state t c\<rparr>) c = cursor_state t c"
    by (simp add: cursor_state_def cursor_node_def node_status_def waits_def fun_eq_iff)
  ultimately show ?thesis using assms(2) by (auto simp: tracks_def cursor_ok_def)
qed

lemma tracks_status:
  assumes "tracks t c"
  shows "tracker_status (t_state t) = Tracker_ACTIVE \<longleftrightarrow> \<not> finished c"
    and "active_node_id (t_state t) = (if c_phase c = Cursor_BUSY then Some (at_cursor c) else None)"
proof -
  have s: "t_state t = cursor_state t c" using assms by (simp add: tracks_def)
  have running: "with_status Node_RUNNING (map (cursor_node t c) (t_order t)) =
      (if c_phase c = Cursor_BUSY then [t_order t ! c_position c] else [])"
    using assms by (intro running_cursor) (simp_all add: tracks_def)
  show "tracker_status (t_state t) = Tracker_ACTIVE \<longleftrightarrow> \<not> finished c"
    unfolding s by (simp add: cursor_state_def cursor_status_def finished_def)
  show "active_node_id (t_state t) = (if c_phase c = Cursor_BUSY then Some (at_cursor c) else None)"
    unfolding s active_node_id_def first_with_def at_cursor_def tracks_order [OF assms]
    by (simp add: cursor_state_def tracks_order [OF assms] running)
qed

lemma tracks_known:
  assumes "tracks t c"
  shows "require_known_node t n =
    (if n \<in> set (c_order c) then Inr () else Inl (SchedulerUnknownNodeError ''scheduler node is unknown''))"
proof -
  have "plan_tracker t" using assms by (simp add: tracks_def)
  then have "keys (t_nodes_by_id t) = c_order c" using plan_trackerD(4) tracks_order [OF assms] by metis
  then show ?thesis unfolding require_known_node_def require_def by (rule ssubst) (rule refl)
qed

lemma tracks_position: "tracks t c \<Longrightarrow> \<not> finished c \<Longrightarrow> c_position c < length (t_order t)"
  by (auto simp: tracks_def finished_def cursor_ok_def)

lemma tracks_next:
  assumes "tracks t c"
  shows "map_option plan_node_id (next_ready_node t) =
    (if finished c \<or> c_phase c = Cursor_BUSY then None else Some (at_cursor c))"
proof (cases "finished c \<or> c_phase c = Cursor_BUSY")
  case False
  have t: "plan_tracker t" "cursor_ok t c" and s: "t_state t = cursor_state t c" using assms by (simp_all add: tracks_def)
  have k: "c_position c < length (t_order t)" using False tracks_position [OF assms] by blast
  have "c_phase c = Cursor_IDLE" using False by (cases "c_phase c") (simp_all add: finished_def)
  from ready_cursor [OF t k this] have "hd (ready_node_ids (t_state t)) = at_cursor c"
    by (auto simp: ready_node_ids_def s cursor_state_def at_cursor_def tracks_order [OF assms])
  moreover have "at_cursor c \<in> set (keys (t_nodes_by_id t))"
    using k by (simp add: plan_trackerD(4) [OF t(1)] at_cursor_def tracks_order [OF assms] del: set_map)
  then obtain x where x: "map_of (t_nodes_by_id t) (at_cursor c) = Some x"
    by (metis in_keys_iff_map_of not_None_eq)
  moreover have "plan_node_id x = at_cursor c" using t(1) map_of_SomeD [OF x] by (auto simp: plan_tracker_def)
  ultimately show ?thesis using False tracks_status [OF assms] by (simp add: next_ready_node_def)
qed (use tracks_status [OF assms] in \<open>auto simp: next_ready_node_def\<close>)

lemma tracks_start:
  assumes t: "tracks t c" and go: "\<not> finished c" "c_phase c \<noteq> Cursor_BUSY"
  shows "replace_status t (at_cursor c) Node_RUNNING = Inr (cursor_state t (c\<lparr>c_phase := Cursor_BUSY\<rparr>))"
    and "cursor_ok t (c\<lparr>c_phase := Cursor_BUSY\<rparr>)"
proof -
  let ?c = "c\<lparr>c_phase := Cursor_BUSY\<rparr>"
  have p: "plan_tracker t" "cursor_ok t c" and s: "t_state t = cursor_state t c" using t by (simp_all add: tracks_def)
  have k: "c_position c < length (t_order t)" by (rule tracks_position [OF t go(1)])
  have idle: "c_phase c = Cursor_IDLE" using go by (cases "c_phase c") (simp_all add: finished_def)
  show ok: "cursor_ok t ?c" using p(2) k by (simp add: cursor_ok_def)
  have comp: "completed ?c = completed c" by (simp add: completed_def)
  show "replace_status t (at_cursor c) Node_RUNNING = Inr (cursor_state t ?c)"
    unfolding at_cursor_def tracks_order [OF t]
  proof (rule replace_status_cursor [OF p(1) ok s _ tracks_order [OF t]])
    show "Node_RUNNING = node_status t ?c (t_order t ! c_position c)"
      using node_status_at_cursor [OF p(1) ok] k by simp
    fix m assume "m \<in> set (t_order t)" "m \<noteq> t_order t ! c_position c"
    then show "node_status t c m = node_status t ?c m \<or> {node_status t c m, node_status t ?c m} \<subseteq> {Node_BLOCKED, Node_READY}"
      by (simp add: node_status_def comp waits_def tracks_order [OF t])
  qed (use k comp in simp_all)
qed

lemma tracks_fail:
  assumes t: "tracks t c" and go: "\<not> finished c" "c_phase c = Cursor_BUSY"
  shows "replace_status t (at_cursor c) Node_FAILED = Inr (cursor_state t (c\<lparr>c_phase := Cursor_BROKEN\<rparr>))"
    and "cursor_ok t (c\<lparr>c_phase := Cursor_BROKEN\<rparr>)"
proof -
  let ?c = "c\<lparr>c_phase := Cursor_BROKEN\<rparr>"
  have p: "plan_tracker t" "cursor_ok t c" and s: "t_state t = cursor_state t c" using t by (simp_all add: tracks_def)
  have k: "c_position c < length (t_order t)" by (rule tracks_position [OF t go(1)])
  show ok: "cursor_ok t ?c" using p(2) k by (simp add: cursor_ok_def)
  have comp: "completed ?c = completed c" by (simp add: completed_def)
  show "replace_status t (at_cursor c) Node_FAILED = Inr (cursor_state t ?c)"
    unfolding at_cursor_def tracks_order [OF t]
  proof (rule replace_status_cursor [OF p(1) ok s _ tracks_order [OF t]])
    show "Node_FAILED = node_status t ?c (t_order t ! c_position c)"
      using node_status_at_cursor [OF p(1) ok] k by simp
    fix m assume "m \<in> set (t_order t)" "m \<noteq> t_order t ! c_position c"
    then show "node_status t c m = node_status t ?c m \<or> {node_status t c m, node_status t ?c m} \<subseteq> {Node_BLOCKED, Node_READY}"
      by (simp add: node_status_def comp waits_def tracks_order [OF t])
  qed (use k comp in simp_all)
qed

lemma tracks_succeed:
  assumes t: "tracks t c" and go: "\<not> finished c" "c_phase c = Cursor_BUSY"
  defines "c' \<equiv> c\<lparr>c_position := Suc (c_position c), c_phase := Cursor_IDLE\<rparr>"
  shows "replace_status t (at_cursor c) Node_SUCCEEDED = Inr (cursor_state t c')"
    and "cursor_ok t c'"
proof -
  have p: "plan_tracker t" "cursor_ok t c" and s: "t_state t = cursor_state t c" using t by (simp_all add: tracks_def)
  have k: "c_position c < length (t_order t)" by (rule tracks_position [OF t go(1)])
  show ok: "cursor_ok t c'" using p(2) k by (simp add: cursor_ok_def c'_def)
  have comp: "completed c' = insert (t_order t ! c_position c) (completed c)"
    using k by (simp add: completed_def c'_def tracks_order [OF t] take_Suc_conv_app_nth)
  have phase: "c_phase c' = Cursor_IDLE" by (simp add: c'_def)
  show "replace_status t (at_cursor c) Node_SUCCEEDED = Inr (cursor_state t c')"
    unfolding at_cursor_def tracks_order [OF t]
  proof (rule replace_status_cursor [OF p(1) ok s _ tracks_order [OF t]])
    show "Node_SUCCEEDED = node_status t c' (t_order t ! c_position c)" by (simp add: node_status_def comp)
    fix m assume "m \<in> set (t_order t)" and other: "m \<noteq> t_order t ! c_position c"
    then show "node_status t c m = node_status t c' m \<or> {node_status t c m, node_status t c' m} \<subseteq> {Node_BLOCKED, Node_READY}"
      by (simp add: node_status_def comp phase tracks_order [OF t])
  qed (use k comp phase in simp_all)
qed

lemma tracks_pause:
  assumes t: "tracks t c" and go: "\<not> finished c" "c_phase c = Cursor_BUSY"
  shows "pause_node t (at_cursor c) = Inr (t\<lparr>t_state := cursor_state t (c\<lparr>c_phase := Cursor_IDLE\<rparr>)\<rparr>)"
    and "cursor_ok t (c\<lparr>c_phase := Cursor_IDLE\<rparr>)"
proof -
  let ?c = "c\<lparr>c_phase := Cursor_IDLE\<rparr>" and ?n = "t_order t ! c_position c"
  have p: "plan_tracker t" "cursor_ok t c" and s: "t_state t = cursor_state t c" using t by (simp_all add: tracks_def)
  have k: "c_position c < length (t_order t)" by (rule tracks_position [OF t go(1)])
  show ok: "cursor_ok t ?c" using p(2) by (auto simp: cursor_ok_def)
  have comp: "completed ?c = completed c" and w: "waits t ?c = waits t c" by (simp_all add: completed_def waits_def fun_eq_iff)
  have status: "node_status t ?c m = (if m = ?n then Node_READY else node_status t c m)" for m
  proof (cases "m = ?n")
    case True
    then show ?thesis using node_status_at_cursor [OF p(1) ok] k by simp
  qed (simp add: node_status_def comp w tracks_order [OF t])
  have at: "node_status t c ?n = Node_RUNNING" using node_status_at_cursor [OF p k] go(2) by simp
  have "map_result (\<lambda>x. make_ScheduledNode (sched_node_id x) (if sched_node_id x = ?n then Node_READY else sched_status x)
      (remaining_dependency_ids x)) (map (cursor_node t c) (t_order t)) = Inr (map (cursor_node t ?c) (t_order t))"
  proof (unfold map_result_eq_Inr map_map, intro map_cong refl, unfold comp_apply)
    fix m assume "m \<in> set (t_order t)"
    from make_ScheduledNode_cursor [OF p(1) ok this] at
    show "make_ScheduledNode (sched_node_id (cursor_node t c m))
        (if sched_node_id (cursor_node t c m) = ?n then Node_READY else sched_status (cursor_node t c m))
        (remaining_dependency_ids (cursor_node t c m)) = Inr (cursor_node t ?c m)"
      by (auto simp: cursor_node_def status w)
  qed
  moreover have "cursor_status ?c = Tracker_ACTIVE" using go by (simp add: cursor_status_def finished_def)
  ultimately show "pause_node t (at_cursor c) = Inr (t\<lparr>t_state := cursor_state t ?c\<rparr>)"
    using make_SchedulerState_cursor [OF p(1) ok] tracks_status [OF t] go
    by (simp add: pause_node_def s at_cursor_def tracks_order [OF t] cursor_state_def)
qed

lemmas tracks_simps = tracks_status tracks_known tracks_next tracks_start tracks_fail tracks_succeed tracks_pause

lemma require_active_node_tracks:
  assumes "tracks t c"
  shows "require_active_node t n = (case refusal_to_complete c n of None \<Rightarrow> Inr () | Some e \<Rightarrow> Inl e)"
  using tracks_status [OF assms] tracks_known [OF assms]
  by (auto simp: require_active_node_def refusal_to_complete_def finished_def require_def intro: cursor_phase.exhaust [of "c_phase c"])

lemma refusal_to_complete_None:
  "refusal_to_complete c n = None \<Longrightarrow> \<not> finished c \<and> c_phase c = Cursor_BUSY \<and> n = at_cursor c"
  by (cases "c_phase c") (auto simp: refusal_to_complete_def finished_def split: if_splits)

lemma tracker_call_refines:
  assumes t: "tracks t c"
  shows "fst (tracker_call x t) = fst (cursor_call x c) \<and> tracks (snd (tracker_call x t)) (snd (cursor_call x c))"
proof (cases x)
  case Op_next
  then show ?thesis using t tracks_next [OF t] by simp
next
  case (Op_start n)
  show ?thesis
  proof (cases "n \<in> set (c_order c) \<and> \<not> finished c \<and> c_phase c \<noteq> Cursor_BUSY \<and> n = at_cursor c")
    case True
    then have n: "n = at_cursor c" "at_cursor c \<in> set (c_order c)" and go: "\<not> finished c" "c_phase c \<noteq> Cursor_BUSY" by auto
    show ?thesis
      using n(2) go tracks_start [OF t go] tracks_moved [OF t tracks_start(2) [OF t go]]
      by (simp add: Op_start n(1) start_node_def moved_def cursor_moved_def tracks_status [OF t] tracks_known [OF t]
          tracks_next [OF t])
  next
    case False
    then show ?thesis
      using t tracks_status [OF t] tracks_known [OF t] tracks_next [OF t]
      by (auto simp: Op_start start_node_def moved_def cursor_moved_def require_def)
  qed
next
  case (Op_succeed n)
  show ?thesis
  proof (cases "refusal_to_complete c n")
    case None
    then have r: "\<not> finished c" "c_phase c = Cursor_BUSY" "n = at_cursor c" using refusal_to_complete_None by blast+
    show ?thesis
      using None tracks_succeed [OF t r(1,2)] tracks_moved [OF t tracks_succeed(2) [OF t r(1,2)]]
      by (simp add: Op_succeed r(3) succeed_node_def require_active_node_tracks [OF t] moved_def cursor_moved_def)
  qed (use t in \<open>simp add: Op_succeed succeed_node_def require_active_node_tracks [OF t] moved_def cursor_moved_def\<close>)
next
  case (Op_fail n)
  show ?thesis
  proof (cases "refusal_to_complete c n")
    case None
    then have r: "\<not> finished c" "c_phase c = Cursor_BUSY" "n = at_cursor c" using refusal_to_complete_None by blast+
    show ?thesis
      using None tracks_fail [OF t r(1,2)] tracks_moved [OF t tracks_fail(2) [OF t r(1,2)]]
      by (simp add: Op_fail r(3) fail_node_def require_active_node_tracks [OF t] moved_def cursor_moved_def)
  qed (use t in \<open>simp add: Op_fail fail_node_def require_active_node_tracks [OF t] moved_def cursor_moved_def\<close>)
next
  case (Op_pause n)
  show ?thesis
  proof (cases "\<not> finished c \<and> c_phase c = Cursor_BUSY \<and> n = at_cursor c")
    case True
    then have r: "\<not> finished c" "c_phase c = Cursor_BUSY" "n = at_cursor c" by blast+
    show ?thesis
      using r(1,2) tracks_pause(1) [OF t r(1,2)] tracks_moved [OF t tracks_pause(2) [OF t r(1,2)]]
      by (simp add: Op_pause r(3) moved_def cursor_moved_def)
  next
    case False
    then show ?thesis
      using t tracks_status [OF t]
      by (cases "c_phase c") (auto simp: Op_pause pause_node_def moved_def cursor_moved_def require_def finished_def)
  qed
qed

interpretation tracker_refinement: refinement tracker_call cursor_call tracks
  by unfold_locales (rule tracker_call_refines)

subsection \<open>The tracker of a plan\<close>

definition starting_cursor :: "ExecutionPlan \<Rightarrow> cursor" where
  "starting_cursor plan = \<lparr>c_order = map plan_node_id (plan_nodes plan), c_position = 0, c_phase = Cursor_IDLE\<rparr>"

lemma in_dependency_ids: "d \<in> set (dependency_ids es n) \<longleftrightarrow> (\<exists>e \<in> set es. source_node_id e = d \<and> target_node_id e = n)"
  by (auto simp: dependency_ids_def)

lemma dependencies_of_tracker:
  "n \<in> set (map plan_node_id (plan_nodes plan)) \<Longrightarrow>
     dependencies_of (tracker_of fp plan s) n = dependency_ids (plan_edges plan) n"
  by (simp add: dependencies_of_def tracker_of_def Let_def map_of_map_restrict del: map_map set_map)

lemma plan_tracker_of:
  assumes "make_ExecutionPlan ns es policy bindings version = Inr plan"
  shows "plan_tracker (tracker_of fp plan s)"
proof -
  let ?ids = "map plan_node_id ns"
  from assms have p: "plan_nodes plan = ns" "set (plan_edges plan) = set es" "ns \<noteq> []" "length ns \<le> MAX_EXECUTION_PLAN_NODES"
    and d: "card (set ?ids) = length ?ids"
    and e: "\<And>x. x \<in> set es \<Longrightarrow> source_node_id x \<in> set ?ids \<and> position ?ids (source_node_id x) < position ?ids (target_node_id x)"
    by (auto simp: make_ExecutionPlan_def result_simps Let_def list_ex_iff not_le)
  have deps: "sorted (dependencies_of (tracker_of fp plan s) n) \<and> distinct (dependencies_of (tracker_of fp plan s) n) \<and>
      set (dependencies_of (tracker_of fp plan s) n) \<subseteq> set (take (position ?ids n) ?ids)" if n: "n \<in> set ?ids" for n
  proof -
    have "dependencies_of (tracker_of fp plan s) n = dependency_ids (plan_edges plan) n"
      using n p(1) by (intro dependencies_of_tracker) simp
    moreover have "d \<in> set (take (position ?ids n) ?ids)" if "d \<in> set (dependency_ids (plan_edges plan) n)" for d
    proof -
      from that obtain x where x: "x \<in> set es" "source_node_id x = d" "target_node_id x = n"
        by (auto simp: in_dependency_ids p(2))
      from e [OF x(1)] x(2,3) have "d \<in> set ?ids" "position ?ids d < position ?ids n" by blast+
      then show ?thesis by (simp only: in_take_iff)
    qed
    ultimately show ?thesis by (auto simp: dependency_ids_def)
  qed
  have "t_order (tracker_of fp plan s) = ?ids" "t_nodes_by_id (tracker_of fp plan s) = map (\<lambda>x. (plan_node_id x, x)) ns"
    by (simp_all add: tracker_of_def Let_def p(1))
  with deps d p(3,4) show ?thesis unfolding plan_tracker_def by (auto simp: card_distinct comp_def)
qed

lemma make_tracker_starts:
  assumes plan: "make_ExecutionPlan ns es policy bindings version = Inr plan"
  shows "\<exists>t. make_tracker fp plan None = Inr t \<and> tracks t (starting_cursor plan) \<and> (\<exists>s. t = tracker_of fp plan s)"
proof -
  let ?c = "starting_cursor plan"
  define s where "s = cursor_state (tracker_of fp plan undefined) ?c"
  define t where "t = tracker_of fp plan s"
  have order: "c_order ?c = map plan_node_id (plan_nodes plan)" "t_order t = map plan_node_id (plan_nodes plan)"
    by (simp_all add: starting_cursor_def t_def tracker_of_def Let_def)
  have state: "s = cursor_state t ?c" unfolding s_def t_def
    by (simp add: cursor_state_def cursor_node_def node_status_def waits_def dependencies_of_tracker order tracker_of_def
        dependencies_of_def Let_def)
  have t: "plan_tracker t" unfolding t_def by (rule plan_tracker_of [OF plan])
  have ok: "cursor_ok t ?c" by (simp add: cursor_ok_def order) (simp add: starting_cursor_def)
  have node: "make_ScheduledNode n (if dependency_ids (plan_edges plan) n \<noteq> [] then Node_BLOCKED else Node_READY)
      (dependency_ids (plan_edges plan) n) = Inr (cursor_node t ?c n)" if n: "n \<in> set (map plan_node_id (plan_nodes plan))" for n
  proof -
    have "completed ?c = {}" "c_phase ?c = Cursor_IDLE" by (simp_all add: completed_def starting_cursor_def)
    moreover from this have "waits t ?c n = dependency_ids (plan_edges plan) n"
      using dependencies_of_tracker [OF n] by (simp add: waits_def t_def)
    ultimately have "node_status t ?c n = (if dependency_ids (plan_edges plan) n \<noteq> [] then Node_BLOCKED else Node_READY)"
      and "(if node_status t ?c n = Node_BLOCKED then waits t ?c n else []) = dependency_ids (plan_edges plan) n"
      by (simp_all add: node_status_def)
    with make_ScheduledNode_cursor [OF t ok, of n] n order(2) show ?thesis by simp
  qed
  have "cursor_status ?c = Tracker_ACTIVE" using plan_trackerD(2) [OF t] order
    by (simp add: cursor_status_def starting_cursor_def)
  then have "make_SchedulerState \<lparr>tracker_status = Tracker_ACTIVE,
      tracker_nodes = map (cursor_node t ?c) (map plan_node_id (plan_nodes plan)), tracker_fingerprint = fp plan,
      tracker_version = SCHEDULER_STATE_VERSION\<rparr> = Inr s"
    using make_SchedulerState_cursor [OF t ok] unfolding state [symmetric]
    by (simp add: state cursor_state_def order) (simp add: t_def tracker_of_def Let_def)
  moreover have "map_result (\<lambda>n. make_ScheduledNode n
      (if dependency_ids (plan_edges plan) n \<noteq> [] then Node_BLOCKED else Node_READY) (dependency_ids (plan_edges plan) n))
      (map plan_node_id (plan_nodes plan)) = Inr (map (cursor_node t ?c) (map plan_node_id (plan_nodes plan)))"
    by (rule map_result_map) (rule node)
  ultimately have "make_tracker fp plan None = Inr t"
    unfolding make_tracker_def Let_def option.case by (simp only: bind_result.simps t_def [symmetric])
  moreover have "t_state t = s" by (simp add: t_def tracker_of_def Let_def)
  then have "tracks t ?c" unfolding tracks_def using t ok state by blast
  ultimately show ?thesis using t_def by (intro exI [of _ t] conjI exI [of _ s])
qed

subsection \<open>Restored states\<close>

text \<open>The states the constructors return.\<close>

definition scheduler_state_value :: "SchedulerState \<Rightarrow> bool" where
  "scheduler_state_value s \<longleftrightarrow> make_SchedulerState s = Inr s \<and>
     (\<forall>x \<in> set (tracker_nodes s).
        make_ScheduledNode (sched_node_id x) (sched_status x) (remaining_dependency_ids x) = Inr x)"

definition restored_node_ok :: "(string \<Rightarrow> string list) \<Rightarrow> (string \<Rightarrow> ScheduledNodeStatus) \<Rightarrow> ScheduledNode \<Rightarrow> bool" where
  "restored_node_ok deps statuses x \<longleftrightarrow>
     (let remaining = filter (\<lambda>d. statuses d \<noteq> Node_SUCCEEDED) (deps (sched_node_id x)) in
      (remaining \<noteq> [] \<longrightarrow> sched_status x = Node_BLOCKED) \<and> remaining_dependency_ids x = sort remaining)"

lemma restored_nodes_iff:
  "restored_nodes deps statuses xs seen = Inr () \<longleftrightarrow>
     (\<forall>x \<in> set xs. restored_node_ok deps statuses x) \<and>
     (\<forall>x \<in> set (if seen then xs else dropWhile (\<lambda>x. sched_status x = Node_SUCCEEDED) xs). sched_status x \<noteq> Node_SUCCEEDED)"
proof (induction xs arbitrary: seen)
  case (Cons x xs)
  show ?case
    by (cases "sched_status x = Node_SUCCEEDED"; cases seen)
       (auto simp: Cons.IH restored_node_ok_def Let_def invalid_state_def bind_result_eq_Inr require_eq_Inr)
qed simp

lemma status_of_node:
  "distinct (map sched_node_id (tracker_nodes s)) \<Longrightarrow> x \<in> set (tracker_nodes s) \<Longrightarrow> status_of s (sched_node_id x) = sched_status x"
proof -
  assume d: "distinct (map sched_node_id (tracker_nodes s))" and x: "x \<in> set (tracker_nodes s)"
  have "map_of (map (\<lambda>x. (sched_node_id x, sched_status x)) (tracker_nodes s)) (sched_node_id x) = Some (sched_status x)"
    using d x by (intro map_of_is_SomeI) (auto simp: comp_def)
  then show ?thesis by (simp add: status_of_def)
qed

lemma cursor_state_value:
  assumes "plan_tracker t" "cursor_ok t c"
  shows "scheduler_state_value (cursor_state t c)"
  using make_SchedulerState_cursor [OF assms] make_ScheduledNode_cursor [OF assms] assms(2)
  by (auto simp: scheduler_state_value_def cursor_state_def cursor_node_def cursor_ok_def)

lemma tracks_value: "tracks t c \<Longrightarrow> scheduler_state_value (t_state t)"
  by (simp add: tracks_def cursor_state_value)

lemma cursor_state_restored:
  assumes t: "plan_tracker t" and c: "cursor_ok t c"
  shows "validate_restored_state t (cursor_state t c) = Inr ()"
proof -
  let ?s = "cursor_state t c" and ?k = "c_position c"
  have order: "c_order c = t_order t" "?k \<le> length (t_order t)" using c by (auto simp: cursor_ok_def)
  have nodes: "tracker_nodes ?s = map (cursor_node t c) (t_order t)" by (simp add: cursor_state_def order)
  have statuses: "d \<in> set (t_order t) \<Longrightarrow> status_of ?s d = node_status t c d" for d by (simp add: status_of_cursor order)
  have node: "restored_node_ok (dependencies_of t) (status_of ?s) (cursor_node t c n)" if n: "n \<in> set (t_order t)" for n
  proof -
    have w: "filter (\<lambda>d. status_of ?s d \<noteq> Node_SUCCEEDED) (dependencies_of t n) = waits t c n"
      unfolding waits_def using plan_trackerD(7) [OF t n] statuses by (intro filter_cong) (auto simp: node_status_iff)
    have sorted: "sorted (waits t c n)" using plan_trackerD(5) [OF t n] by (auto simp: waits_def intro: sorted_wrt_filter)
    have blocked: "node_status t c n = Node_BLOCKED" if w': "waits t c n \<noteq> []"
    proof -
      obtain d where d: "d \<in> set (dependencies_of t n)" "d \<notin> completed c" using w' by (auto simp: waits_def filter_empty_conv)
      note less = plan_trackerD(7) [OF t n d(1)]
      have "n \<notin> completed c" using d(2) less completed_iff [OF t c] n by force
      moreover have "n \<noteq> t_order t ! ?k" if "?k < length (t_order t)" using waits_at_cursor [OF t c that] w' by auto
      ultimately show ?thesis using w' c by (auto simp: node_status_def cursor_ok_def order)
    qed
    show ?thesis
      using w sorted blocked
      by (cases "waits t c n = []") (auto simp: restored_node_ok_def Let_def cursor_node_def sorted_sort_id)
  qed
  have succ: "sched_status (cursor_node t c n) = Node_SUCCEEDED \<longleftrightarrow> n \<in> set (take ?k (t_order t))" for n
    by (simp add: cursor_node_def node_status_iff completed_def order)
  have split: "map (cursor_node t c) (t_order t) =
      map (cursor_node t c) (take ?k (t_order t)) @ map (cursor_node t c) (drop ?k (t_order t))"
    by (metis append_take_drop_id map_append)
  have rest: "set (take ?k (t_order t)) \<inter> set (drop ?k (t_order t)) = {}"
    using plan_trackerD(1) [OF t] by (rule set_take_disj_set_drop_if_distinct) simp
  have drop: "dropWhile (\<lambda>x. sched_status x = Node_SUCCEEDED) (map (cursor_node t c) (t_order t)) =
      map (cursor_node t c) (drop ?k (t_order t))"
  proof -
    have "dropWhile (\<lambda>x. sched_status x = Node_SUCCEEDED) (map (cursor_node t c) (drop ?k (t_order t))) =
        map (cursor_node t c) (drop ?k (t_order t))"
      using rest by (cases "drop ?k (t_order t)") (auto simp: succ)
    then show ?thesis unfolding split by (subst dropWhile_append2) (auto simp: succ)
  qed
  have "restored_nodes (dependencies_of t) (status_of ?s) (tracker_nodes ?s) False = Inr ()"
    unfolding restored_nodes_iff nodes using node drop rest by (auto simp: succ)
  moreover have "succeeded_node_ids ?s = take ?k (t_order t)"
    unfolding succeeded_node_ids_def nodes with_status_cursor node_status_iff completed_def order
    using rest by (subst append_take_drop_id [of ?k "t_order t", symmetric], unfold filter_append) (auto simp: filter_id_conv filter_empty_conv)
  moreover have "?k \<noteq> length (t_order t) \<Longrightarrow> sched_status (tracker_nodes ?s ! ?k) =
      (case c_phase c of Cursor_IDLE \<Rightarrow> Node_READY | Cursor_BUSY \<Rightarrow> Node_RUNNING | Cursor_BROKEN \<Rightarrow> Node_FAILED)"
    using node_status_at_cursor [OF t c] order(2) by (simp add: nodes cursor_node_def)
  moreover have "active_node_id ?s = None \<longleftrightarrow> c_phase c \<noteq> Cursor_BUSY" "failed_node_id ?s = None \<longleftrightarrow> c_phase c \<noteq> Cursor_BROKEN"
    unfolding active_node_id_def failed_node_id_def first_with_def nodes running_cursor [OF t c] failed_cursor [OF t c] by simp_all
  ultimately show ?thesis
    using order(2) by (cases "c_phase c")
      (simp_all add: validate_restored_state_def invalid_state_def nodes Let_def del: map_map, simp_all add: cursor_state_def)
qed

text \<open>The cursor a restored state stands at.\<close>

definition restored_cursor :: "tracker \<Rightarrow> SchedulerState \<Rightarrow> cursor" where
  "restored_cursor t s =
     \<lparr>c_order = t_order t, c_position = length (succeeded_node_ids s),
      c_phase = (if active_node_id s \<noteq> None then Cursor_BUSY
                 else if failed_node_id s \<noteq> None then Cursor_BROKEN else Cursor_IDLE)\<rparr>"

lemma first_with_iff: "first_with st s = None \<longleftrightarrow> (\<forall>x \<in> set (tracker_nodes s). sched_status x \<noteq> st)"
proof -
  have "first_with st s = None \<longleftrightarrow> with_status st (tracker_nodes s) = []" by (simp add: first_with_def split: list.split)
  then show ?thesis by (simp add: with_status_empty list_ex_iff)
qed

lemma make_SchedulerStateD:
  assumes "make_SchedulerState s = Inr s"
  shows "distinct (map sched_node_id (tracker_nodes s))" "tracker_version s = SCHEDULER_STATE_VERSION"
    and "length (with_status Node_RUNNING (tracker_nodes s)) \<le> 1"
    and "tracker_status s = Tracker_ACTIVE \<Longrightarrow> failed_node_id s = None \<and> (\<exists>x \<in> set (tracker_nodes s). sched_status x \<noteq> Node_SUCCEEDED)"
    and "tracker_status s = Tracker_SUCCEEDED \<Longrightarrow> \<forall>x \<in> set (tracker_nodes s). sched_status x = Node_SUCCEEDED"
    and "tracker_status s = Tracker_FAILED \<Longrightarrow>
      length (with_status Node_FAILED (tracker_nodes s)) = 1 \<and> active_node_id s = None"
  using assms
  by (auto simp: make_SchedulerState_def invalid_state_def Let_def result_simps failed_node_id_def active_node_id_def first_with_def
      list_all_iff list_ex_iff card_distinct split: list.splits)

lemma with_status_single:
  assumes "length (with_status st xs) \<le> 1" "x \<in> set xs" "sched_status x = st" "y \<in> set xs" "sched_status y = st"
  shows "sched_node_id x = sched_node_id y"
  using assms unfolding with_status_def
  by (cases "filter (\<lambda>n. sched_status n = st) xs") (auto simp: filter_eq_Cons_iff dest!: arg_cong [where f = set])

lemma restored_is_cursor_state:
  assumes t: "plan_tracker t" and v: "scheduler_state_value s" and r: "validate_restored_state t s = Inr ()"
  shows "cursor_ok t (restored_cursor t s)" and "s = cursor_state t (restored_cursor t s)"
proof -
  let ?c = "restored_cursor t s" and ?ns = "tracker_nodes s" and ?succ = "\<lambda>x. sched_status x = Node_SUCCEEDED"
  define k where "k = length (succeeded_node_ids s)"
  from v have vs: "make_SchedulerState s = Inr s"
    and vn: "\<And>x. x \<in> set ?ns \<Longrightarrow> make_ScheduledNode (sched_node_id x) (sched_status x) (remaining_dependency_ids x) = Inr x"
    by (simp_all add: scheduler_state_value_def)
  note d = make_SchedulerStateD [OF vs]
  from r have r': "tracker_fingerprint s = t_fingerprint t" "map sched_node_id ?ns = t_order t"
    "restored_nodes (dependencies_of t) (status_of s) ?ns False = Inr ()"
    and at: "k \<noteq> length (t_order t) \<Longrightarrow> active_node_id s \<noteq> None \<Longrightarrow> sched_status (?ns ! k) = Node_RUNNING"
      "k \<noteq> length (t_order t) \<Longrightarrow> failed_node_id s \<noteq> None \<Longrightarrow> sched_status (?ns ! k) = Node_FAILED"
    by (auto simp: validate_restored_state_def invalid_state_def result_simps Let_def k_def split: if_splits)
  have len: "length ?ns = length (t_order t)" using r'(2) by (metis length_map)
  have ok: "\<And>x. x \<in> set ?ns \<Longrightarrow> restored_node_ok (dependencies_of t) (status_of s) x"
    and tail: "\<And>x. x \<in> set (dropWhile ?succ ?ns) \<Longrightarrow> \<not> ?succ x"
    using r'(3) unfolding restored_nodes_iff if_False by blast+
  have pre: "takeWhile ?succ ?ns = filter ?succ ?ns"
  proof -
    have "filter ?succ (takeWhile ?succ ?ns) = takeWhile ?succ ?ns" by (rule filter_True) (blast dest: set_takeWhileD)
    moreover have "filter ?succ (dropWhile ?succ ?ns) = []" by (rule filter_False) (use tail in blast)
    ultimately show ?thesis by (metis append_Nil2 filter_append takeWhile_dropWhile_id)
  qed
  have kt: "k = length (takeWhile ?succ ?ns)" by (simp add: k_def succeeded_node_ids_def with_status_def pre)
  then have k: "k \<le> length (t_order t)" using length_takeWhile_le [of ?succ ?ns] len by simp
  have succ_at: "?succ (?ns ! i) \<longleftrightarrow> i < k" if "i < length ?ns" for i
  proof
    assume s: "?succ (?ns ! i)"
    show "i < k"
    proof (rule ccontr)
      assume "\<not> i < k"
      then have "drop k ?ns ! (i - k) = ?ns ! i" "i - k < length (drop k ?ns)" using that by simp_all
      then have "?ns ! i \<in> set (drop k ?ns)" by (metis nth_mem)
      moreover have "drop k ?ns = dropWhile ?succ ?ns" unfolding kt by (rule dropWhile_eq_drop [symmetric])
      ultimately show False using tail s by metis
    qed
  next
    assume i: "i < k"
    then have "takeWhile ?succ ?ns ! i \<in> set (takeWhile ?succ ?ns)" by (intro nth_mem) (simp add: kt)
    moreover have "takeWhile ?succ ?ns ! i = ?ns ! i" using i by (intro takeWhile_nth) (simp add: kt)
    ultimately show "?succ (?ns ! i)" by (metis set_takeWhileD)
  qed
  have c: "c_order ?c = t_order t" "c_position ?c = k" by (simp_all add: restored_cursor_def k_def)
  have phase: "c_phase ?c = Cursor_BUSY \<longleftrightarrow> active_node_id s \<noteq> None" "c_phase ?c = Cursor_BROKEN \<longleftrightarrow> active_node_id s = None \<and> failed_node_id s \<noteq> None"
    by (auto simp: restored_cursor_def)
  have ids: "distinct (t_order t)" by (rule plan_trackerD(1) [OF t])
  have all: "k = length (t_order t) \<longleftrightarrow> (\<forall>x \<in> set ?ns. ?succ x)"
  proof
    assume "\<forall>x \<in> set ?ns. ?succ x"
    then have "\<not> k < length ?ns" using succ_at [of k] nth_mem [of k ?ns] by auto
    then show "k = length (t_order t)" using k len by simp
  qed (use succ_at len in \<open>auto simp: all_set_conv_all_nth\<close>)
  have closed: "active_node_id s = None \<and> failed_node_id s = None" if "k = length (t_order t)"
    using that all by (simp add: active_node_id_def failed_node_id_def first_with_iff)
  show okc: "cursor_ok t ?c"
    unfolding cursor_ok_def c using k closed by (auto simp: restored_cursor_def order.order_iff_strict)
  have id_at: "sched_node_id (?ns ! i) = t_order t ! i" if "i < length ?ns" for i using r'(2) that by (metis nth_map)
  have comp: "sched_node_id x \<in> completed ?c \<longleftrightarrow> ?succ x" if x: "x \<in> set ?ns" for x
  proof -
    from x obtain i where i: "i < length ?ns" "x = ?ns ! i" by (auto simp: in_set_conv_nth)
    have "sched_node_id x \<in> completed ?c \<longleftrightarrow> i < k"
      unfolding completed_iff [OF t okc nth_mem [OF i(1) [unfolded len]], folded id_at [OF i(1)] i(2)] c
      using position_nth [OF ids i(1) [unfolded len]] by (simp add: i(2) id_at [OF i(1)])
    then show ?thesis using succ_at [OF i(1)] i(2) by simp
  qed
  have status: "node_status t ?c (sched_node_id x) = sched_status x \<and>
      remaining_dependency_ids x = (if sched_status x = Node_BLOCKED then waits t ?c (sched_node_id x) else [])"
    if x: "x \<in> set ?ns" for x
  proof -
    let ?n = "sched_node_id x"
    have n: "?n \<in> set (t_order t)" using x r'(2) by (metis image_eqI set_map)
    have w: "filter (\<lambda>d. status_of s d \<noteq> Node_SUCCEEDED) (dependencies_of t ?n) = waits t ?c ?n"
      unfolding waits_def
    proof (intro filter_cong refl)
      fix e assume "e \<in> set (dependencies_of t ?n)"
      then have "e \<in> set (map sched_node_id ?ns)" using plan_trackerD(7) [OF t n] r'(2) by simp
      then obtain y where "y \<in> set ?ns" "e = sched_node_id y" by auto
      then show "status_of s e \<noteq> Node_SUCCEEDED \<longleftrightarrow> e \<notin> completed ?c" using comp status_of_node [OF d(1)] by simp
    qed
    have "sorted (waits t ?c ?n)" using plan_trackerD(5) [OF t n] by (auto simp: waits_def intro: sorted_wrt_filter)
    then have rem: "remaining_dependency_ids x = waits t ?c ?n" "waits t ?c ?n \<noteq> [] \<Longrightarrow> sched_status x = Node_BLOCKED"
      using ok [OF x] by (simp_all add: restored_node_ok_def w Let_def sorted_sort_id)
    have blocked: "sched_status x = Node_BLOCKED \<longleftrightarrow> waits t ?c ?n \<noteq> []"
      using vn [OF x] rem by (auto simp: make_ScheduledNode_def invalid_state_def result_simps)
    have phase_at: "k < length ?ns \<and> sched_status (?ns ! k) = (if c_phase ?c = Cursor_BUSY then Node_RUNNING else Node_FAILED)"
      if "c_phase ?c \<noteq> Cursor_IDLE"
    proof -
      have "k \<noteq> length (t_order t)" using that closed phase by (cases "c_phase ?c") blast+
      then show ?thesis using that at phase k len by (cases "c_phase ?c") simp_all
    qed
    have same: "x = ?ns ! k" if "?n = t_order t ! k" "k < length ?ns"
      using that id_at [of k] d(1) x by (metis distinct_map inj_onD nth_mem)
    have running: "c_phase ?c = Cursor_BUSY \<and> ?n = t_order t ! k" if "sched_status x = Node_RUNNING"
    proof -
      have "active_node_id s \<noteq> None" using that x by (auto simp: active_node_id_def first_with_iff simp del: not_None_eq)
      then have b: "c_phase ?c = Cursor_BUSY" using phase by simp
      then have "sched_node_id (?ns ! k) = ?n" using phase_at that x d(3) by (intro with_status_single [OF d(3)]) auto
      then show ?thesis using b id_at phase_at by simp
    qed
    have failed: "c_phase ?c = Cursor_BROKEN \<and> ?n = t_order t ! k" if "sched_status x = Node_FAILED"
    proof -
      have f: "failed_node_id s \<noteq> None" using that x by (auto simp: failed_node_id_def first_with_iff simp del: not_None_eq)
      then have "tracker_status s = Tracker_FAILED" using d(4,5) that x by (cases "tracker_status s") auto
      then have l: "length (with_status Node_FAILED ?ns) \<le> 1" and b: "c_phase ?c = Cursor_BROKEN" using d(6) f phase by auto
      then have "sched_node_id (?ns ! k) = ?n" using phase_at that x by (intro with_status_single [OF l]) auto
      then show ?thesis using b id_at phase_at by simp
    qed
    show ?thesis
      using comp [OF x] blocked rem running failed same phase_at
      by (cases "sched_status x") (auto simp: node_status_def c)
  qed
  have "x = cursor_node t ?c (sched_node_id x)" if "x \<in> set ?ns" for x using status [OF that] by (simp add: cursor_node_def)
  then have "map (cursor_node t ?c) (map sched_node_id ?ns) = ?ns" by (simp add: map_idI)
  moreover have "tracker_status s = cursor_status ?c"
    using all d(4-6) phase closed unfolding cursor_status_def c
    by (cases "tracker_status s") (auto simp: failed_node_id_def first_with_def split: list.splits)
  ultimately show "s = cursor_state t ?c" using r'(1,2) d(2) by (simp add: cursor_state_def c)
qed

lemma restored_iff_cursor_state:
  assumes "plan_tracker t" "scheduler_state_value s"
  shows "validate_restored_state t s = Inr () \<longleftrightarrow> (\<exists>c. cursor_ok t c \<and> s = cursor_state t c)"
  using restored_is_cursor_state [OF assms] cursor_state_restored [OF assms(1)] by blast

subsection \<open>Reachable cursors\<close>

lemma perform_cursor_run:
  "c_phase c = Cursor_IDLE \<Longrightarrow> c_position c + k \<le> length (c_order c) \<Longrightarrow>
     \<exists>xs. snd (perform cursor_call xs c) = c\<lparr>c_position := c_position c + k\<rparr>"
proof (induction k arbitrary: c)
  case 0
  show ?case by (rule exI [of _ "[]"]) simp
next
  case (Suc k)
  let ?n = "at_cursor c" and ?c = "c\<lparr>c_position := Suc (c_position c)\<rparr>"
  have n: "?n \<in> set (c_order c)" "\<not> finished c" using Suc.prems by (simp_all add: at_cursor_def finished_def)
  then have "snd (perform cursor_call [Op_start ?n, Op_succeed ?n] c) = ?c"
    using Suc.prems(1) by (simp add: cursor_moved_def refusal_to_complete_def finished_def at_cursor_def)
  moreover obtain xs where "snd (perform cursor_call xs ?c) = ?c\<lparr>c_position := c_position ?c + k\<rparr>"
    using Suc.IH [of ?c] Suc.prems by auto
  ultimately have "snd (perform cursor_call ([Op_start ?n, Op_succeed ?n] @ xs) c) = c\<lparr>c_position := c_position c + Suc k\<rparr>"
    by simp
  then show ?case by blast
qed

lemma cursor_reachable:
  assumes "c_order c = c_order c0" "c_position c \<le> length (c_order c)" "c_phase c \<noteq> Cursor_IDLE \<Longrightarrow> c_position c < length (c_order c)"
    and c0: "c_position c0 = 0" "c_phase c0 = Cursor_IDLE"
  shows "\<exists>xs. snd (perform cursor_call xs c0) = c"
proof -
  let ?c = "c\<lparr>c_phase := Cursor_IDLE\<rparr>" and ?n = "at_cursor c"
  have "c0\<lparr>c_position := c_position c0 + c_position c\<rparr> = ?c" by (rule cursor.equality) (simp_all add: assms(1) c0)
  moreover have "\<exists>xs. snd (perform cursor_call xs c0) = c0\<lparr>c_position := c_position c0 + c_position c\<rparr>"
    by (rule perform_cursor_run) (use assms in simp_all)
  ultimately obtain xs where xs: "snd (perform cursor_call xs c0) = ?c" by metis
  define ys where "ys = (case c_phase c of Cursor_IDLE \<Rightarrow> [] | Cursor_BUSY \<Rightarrow> [Op_start ?n] | Cursor_BROKEN \<Rightarrow> [Op_start ?n, Op_fail ?n])"
  have "snd (perform cursor_call ys ?c) = c"
    using assms(3)
    by (cases "c_phase c") (simp_all add: ys_def cursor_moved_def refusal_to_complete_def finished_def at_cursor_def)
  then have "snd (perform cursor_call (xs @ ys) c0) = c"
    using xs by (simp add: perform_append split_beta)
  then show ?thesis by blast
qed

text \<open>Calls change the state and nothing else.\<close>

lemma tracker_call_fixes: "snd (tracker_call x t) = t\<lparr>t_state := t_state (snd (tracker_call x t))\<rparr>"
  by (cases x)
     (auto simp: moved_def start_node_def succeed_node_def fail_node_def pause_node_def result_simps split: sum.splits)

lemma perform_fixes: "snd (perform tracker_call xs t) = t\<lparr>t_state := t_state (snd (perform tracker_call xs t))\<rparr>"
proof (induction xs arbitrary: t)
  case (Cons x xs)
  show ?case using Cons [of "snd (tracker_call x t)"] tracker_call_fixes [of x t]
    by (metis perform_Cons snd_conv tracker.surjective tracker.update_convs(5))
qed simp

lemma tracker_of_state [simp]:
  "(tracker_of fp plan s)\<lparr>t_state := s'\<rparr> = tracker_of fp plan s'" "t_state (tracker_of fp plan s) = s"
  by (simp_all add: tracker_of_def Let_def)

text \<open>A state of the plan's tracker that a cursor describes, and only such a state, is reached by calls.\<close>

lemma reached_states:
  assumes t: "tracks (tracker_of fp plan s0) (starting_cursor plan)"
  shows "(\<exists>xs. tracker_of fp plan s = snd (perform tracker_call xs (tracker_of fp plan s0))) \<longleftrightarrow>
    (\<exists>c. cursor_ok (tracker_of fp plan s) c \<and> s = cursor_state (tracker_of fp plan s) c)"
proof
  assume "\<exists>xs. tracker_of fp plan s = snd (perform tracker_call xs (tracker_of fp plan s0))"
  then obtain xs where "tracker_of fp plan s = snd (perform tracker_call xs (tracker_of fp plan s0))" by blast
  with tracker_refinement.perform_refines [OF t, of xs]
  have "tracks (tracker_of fp plan s) (snd (perform cursor_call xs (starting_cursor plan)))" by simp
  then show "\<exists>c. cursor_ok (tracker_of fp plan s) c \<and> s = cursor_state (tracker_of fp plan s) c"
    by (auto simp: tracks_def)
next
  let ?t = "tracker_of fp plan s0"
  assume "\<exists>c. cursor_ok (tracker_of fp plan s) c \<and> s = cursor_state (tracker_of fp plan s) c"
  then obtain c where c: "cursor_ok (tracker_of fp plan s) c" "s = cursor_state (tracker_of fp plan s) c" by blast
  have "c_order c = c_order (starting_cursor plan)"
    using c(1) by (simp add: cursor_ok_def starting_cursor_def tracker_of_def Let_def)
  then have "\<exists>xs. snd (perform cursor_call xs (starting_cursor plan)) = c"
    by (rule cursor_reachable) (use c(1) in \<open>auto simp: cursor_ok_def starting_cursor_def\<close>)
  then obtain xs where xs: "snd (perform cursor_call xs (starting_cursor plan)) = c" by blast
  define t' where "t' = snd (perform tracker_call xs ?t)"
  have t': "t' = tracker_of fp plan (t_state t')" unfolding t'_def by (subst perform_fixes) simp
  have "tracks t' c" using tracker_refinement.perform_refines [OF t, of xs] xs by (simp add: t'_def)
  then have "t_state t' = cursor_state t' c" by (simp add: tracks_def)
  also have "\<dots> = cursor_state (tracker_of fp plan s) c"
    by (subst t') (simp add: cursor_state_def cursor_node_def node_status_def waits_def dependencies_of_def tracker_of_def Let_def)
  finally have "t_state t' = s" using c(2) by simp
  then have "tracker_of fp plan s = t'" using t' by metis
  then show "\<exists>xs. tracker_of fp plan s = snd (perform tracker_call xs ?t)" unfolding t'_def by blast
qed

subsection \<open>Properties\<close>

text \<open>
  C4.  The tracker of every accepted execution plan exists and answers every sequence of calls as a cursor does that
  only holds the plan's nodes, the number of finished ones and what the next one is doing.  So nodes start in plan
  order, one at a time, each only after all nodes it depends on have succeeded; a failure ends the plan; and no
  operation ever raises the invalid-state or deadlock error.
\<close>

theorem tracker_refines_cursor:
  assumes "make_ExecutionPlan ns es policy bindings version = Inr plan"
  shows "\<exists>t. make_tracker fp plan None = Inr t \<and>
    (\<forall>xs. fst (perform tracker_call xs t) = fst (perform cursor_call xs (starting_cursor plan)))"
proof -
  obtain t where "make_tracker fp plan None = Inr t" "tracks t (starting_cursor plan)"
    using make_tracker_starts [OF assms] by blast
  then show ?thesis using tracker_refinement.perform_refines by blast
qed

text \<open>Two nodes and an edge.\<close>

definition example_node :: "string \<Rightarrow> ExecutionPlanNode" where
  "example_node n =
     \<lparr>plan_node_id = n, plan_kind = ''source.csv'', plan_configuration_version = 1, plan_configuration = [],
      plan_connector_id = None, plan_role = Role_SOURCE, plan_connector_requirement = Connector_NONE,
      plan_supported_runners = [], plan_retry_behavior = Retry_NEVER, plan_requires_idempotency = False,
      partition_strategy = SINGLE_PARTITION_STRATEGY\<rparr>"

definition example_edge :: PipelineEdge where
  "example_edge = \<lparr>source_node_id = ''node_aaa'', source_port = ''out'', target_node_id = ''node_bbb'', target_port = ''in''\<rparr>"

definition example_two_nodes :: ExecutionPlan where
  "example_two_nodes =
     \<lparr>plan_nodes = [example_node ''node_aaa'', example_node ''node_bbb''], plan_edges = [example_edge],
      plan_resource_policy = DEFAULT_RESOURCE_POLICY, plan_connector_bindings = [], plan_version = EXECUTION_PLAN_VERSION\<rparr>"

lemma example_two_nodes_made:
  "make_ExecutionPlan [example_node ''node_aaa'', example_node ''node_bbb''] [example_edge] DEFAULT_RESOURCE_POLICY []
     EXECUTION_PLAN_VERSION = Inr example_two_nodes"
  by code_simp

theorem tracker_refines_cursor_witness:
  "\<exists>t. make_tracker (\<lambda>_. ''f'') example_two_nodes None = Inr t \<and>
    fst (perform tracker_call [Op_next, Op_start ''node_bbb'', Op_start ''node_aaa'', Op_succeed ''node_aaa'', Op_next] t) =
      [Inr (Some ''node_aaa''), Inl (SchedulerTransitionError ''scheduler node is not next in deterministic order''),
       Inr None, Inr None, Inr (Some ''node_bbb'')]"
proof -
  have "fst (perform cursor_call [Op_next, Op_start ''node_bbb'', Op_start ''node_aaa'', Op_succeed ''node_aaa'', Op_next]
      (starting_cursor example_two_nodes)) =
      [Inr (Some ''node_aaa''), Inl (SchedulerTransitionError ''scheduler node is not next in deterministic order''),
       Inr None, Inr None, Inr (Some ''node_bbb'')]"
    by code_simp
  then show ?thesis using tracker_refines_cursor [OF example_two_nodes_made, of "\<lambda>_. ''f''"] by metis
qed

text \<open>
  C5.  A tracker accepts a saved state exactly if some calls on the plan's tracker lead to it, and the restored tracker
  is then the tracker those calls leave.
\<close>

theorem tracker_restores_reached:
  assumes plan: "make_ExecutionPlan ns es policy bindings version = Inr plan"
    and start: "make_tracker fp plan None = Inr t" and "value": "scheduler_state_value s"
  shows "make_tracker fp plan (Some s) = Inr t' \<longleftrightarrow>
    t_state t' = s \<and> (\<exists>xs. t' = snd (perform tracker_call xs t))"
proof -
  obtain s0 where t: "t = tracker_of fp plan s0" "tracks (tracker_of fp plan s0) (starting_cursor plan)"
    using make_tracker_starts [OF plan] start by (metis sum.inject(2))
  have restored: "make_tracker fp plan (Some s) = Inr t' \<longleftrightarrow>
      validate_restored_state (tracker_of fp plan s) s = Inr () \<and> t' = tracker_of fp plan s"
    by (auto simp: make_tracker_def bind_result_eq_Inr)
  have same: "t' = tracker_of fp plan s" if "t_state t' = s" "t' = snd (perform tracker_call xs t)" for xs
    using that perform_fixes [of xs t] by (simp add: t(1))
  show ?thesis
    unfolding restored restored_iff_cursor_state [OF plan_tracker_of [OF plan] "value"] reached_states [OF t(2), symmetric]
      t(1) [symmetric]
    using same tracker_of_state(2) by metis
qed

theorem tracker_restores_reached_witness:
  "\<exists>t t'. make_tracker (\<lambda>_. ''f'') example_two_nodes None = Inr t \<and>
    t' = snd (perform tracker_call [Op_start ''node_aaa''] t) \<and>
    make_tracker (\<lambda>_. ''f'') example_two_nodes (Some (t_state t')) = Inr t'"
proof -
  obtain t where t: "make_tracker (\<lambda>_. ''f'') example_two_nodes None = Inr t" "tracks t (starting_cursor example_two_nodes)"
    using make_tracker_starts [OF example_two_nodes_made] by blast
  let ?t' = "snd (perform tracker_call [Op_start ''node_aaa''] t)"
  have "tracks ?t' (snd (perform cursor_call [Op_start ''node_aaa''] (starting_cursor example_two_nodes)))"
    using tracker_refinement.perform_refines [OF t(2)] by blast
  then have "scheduler_state_value (t_state ?t')" by (rule tracks_value)
  then have "make_tracker (\<lambda>_. ''f'') example_two_nodes (Some (t_state ?t')) = Inr ?t'"
    by (rule tracker_restores_reached [OF example_two_nodes_made t(1), THEN iffD2])
       (intro conjI refl exI [of _ "[Op_start ''node_aaa'']"])
  then show ?thesis by (intro exI [of _ t] exI [of _ ?t'] conjI t(1) refl)
qed

end
