(* ===== verification/Clock_Policy.thy ===== *)
theory Clock_Policy
  imports Temporal
begin

text \<open>
  Injected clocks, delays and the token bucket (\<^verbatim>\<open>application/execution/clock_policy.py\<close>).  The spacing of two tokens, which
  the code rounds from a floating-point rate, is a parameter of the bucket.
\<close>

subsection \<open>Delays and the manual clock\<close>

definition CLOCK_POLICY_VERSION :: int where "CLOCK_POLICY_VERSION = 1"
definition MAX_DELAY_MICROSECONDS :: int where "MAX_DELAY_MICROSECONDS = 86400000000"
definition MAX_BURST :: int where "MAX_BURST = 1000"

datatype clock_error =
    DelayValueError string
  | DelayPolicyExceededError string
  | RatePolicyError string
  | ClockProtocolError string
  | ClockPolicyVersionError string

type_synonym 'a clock_result = "(clock_error, 'a) result"

definition clock_advance :: "UtcTimestamp \<Rightarrow> int \<Rightarrow> UtcTimestamp clock_result" where
  "clock_advance now microseconds =
     bind_result (require (\<not> microseconds < 0) (DelayValueError ''manual clock advance must be non-negative'')) (\<lambda>_.
     case utc_add now microseconds of
       Inl _ \<Rightarrow> Inl (DelayValueError ''manual clock advance overflows the timestamp bounds'')
     | Inr later \<Rightarrow> Inr later)"

definition clock_advance_to :: "UtcTimestamp \<Rightarrow> UtcTimestamp \<Rightarrow> UtcTimestamp clock_result" where
  "clock_advance_to now timestamp =
     bind_result (require (\<not> timestamp < now) (ClockProtocolError ''manual clock cannot move backwards'')) (\<lambda>_. Inr timestamp)"

record DelayValue =
  delay_microseconds :: int
  delay_version :: int

definition make_DelayValue :: "int \<Rightarrow> int \<Rightarrow> DelayValue clock_result" where
  "make_DelayValue microseconds version =
     bind_result (require (\<not> microseconds < 0) (DelayValueError ''delay microseconds must be non-negative'')) (\<lambda>_.
     bind_result (require (\<not> microseconds > MAX_DELAY_MICROSECONDS)
       (DelayValueError ''delay overflows the supported maximum'')) (\<lambda>_.
     bind_result (require (version = CLOCK_POLICY_VERSION) (ClockPolicyVersionError ''delay version must equal 1'')) (\<lambda>_.
     Inr \<lparr>delay_microseconds = microseconds, delay_version = version\<rparr>)))"

definition UNIT_FACTORS :: "(string, int) dict" where
  "UNIT_FACTORS = [(''microseconds'', 1), (''milliseconds'', 1000), (''seconds'', 1000000), (''minutes'', 60000000)]"

definition unit_factor :: "string \<Rightarrow> int clock_result" where
  "unit_factor unit =
     (case map_of UNIT_FACTORS unit of None \<Rightarrow> Inl (DelayValueError ''delay unit is ambiguous'') | Some f \<Rightarrow> Inr f)"

text \<open>An integer magnitude.\<close>

definition delay_parse_integer :: "int \<Rightarrow> string \<Rightarrow> DelayValue clock_result" where
  "delay_parse_integer magnitude unit =
     bind_result (unit_factor unit) (\<lambda>factor.
     bind_result (require (\<not> magnitude < 0) (DelayValueError ''delay integer must be non-negative'')) (\<lambda>_.
     bind_result (require (\<not> magnitude * factor > MAX_DELAY_MICROSECONDS)
       (DelayValueError ''delay conversion overflows the supported maximum'')) (\<lambda>_.
     make_DelayValue (magnitude * factor) CLOCK_POLICY_VERSION)))"

definition delay_plus :: "DelayValue \<Rightarrow> DelayValue \<Rightarrow> DelayValue clock_result" where
  "delay_plus d e =
     (let total = delay_microseconds d + delay_microseconds e in
      bind_result (require (\<not> total > MAX_DELAY_MICROSECONDS)
        (DelayValueError ''delay addition overflows the supported maximum'')) (\<lambda>_.
      make_DelayValue total CLOCK_POLICY_VERSION))"

definition delay_against :: "DelayValue \<Rightarrow> UtcTimestamp \<Rightarrow> UtcTimestamp clock_result" where
  "delay_against d clock_now =
     (case utc_add clock_now (delay_microseconds d) of
        Inl _ \<Rightarrow> Inl (DelayValueError ''delay addition overflows the timestamp bounds'')
      | Inr later \<Rightarrow> Inr later)"

subsection \<open>The token bucket\<close>

record TokenBucket =
  bucket_burst :: int
  interval_micros :: int
  bucket_tokens :: int
  last_seen_micros :: "int option"

definition make_TokenBucket :: "int \<Rightarrow> int \<Rightarrow> int option \<Rightarrow> TokenBucket clock_result" where
  "make_TokenBucket burst interval initial_tokens =
     bind_result (case initial_tokens of
         None \<Rightarrow> Inr burst
       | Some n \<Rightarrow> bind_result (require (0 \<le> n \<and> n \<le> burst)
           (RatePolicyError ''token bucket initial tokens are outside the burst bound'')) (\<lambda>_. Inr n)) (\<lambda>tokens.
     Inr \<lparr>bucket_burst = burst, interval_micros = interval, bucket_tokens = tokens, last_seen_micros = None\<rparr>)"

definition refilled :: "TokenBucket \<Rightarrow> int \<Rightarrow> (int \<times> int) clock_result" where
  "refilled b now =
     (case last_seen_micros b of
        None \<Rightarrow> Inr (bucket_tokens b, now)
      | Some last_seen \<Rightarrow>
          bind_result (require (\<not> now < last_seen)
            (RatePolicyError ''token bucket instant precedes the last observed instant'')) (\<lambda>_.
          let refills = (now - last_seen) div interval_micros b in
          Inr (min (bucket_burst b) (bucket_tokens b + refills), last_seen + refills * interval_micros b)))"

definition bucket_state :: "TokenBucket \<Rightarrow> UtcTimestamp \<Rightarrow> (int \<times> int) clock_result" where
  "bucket_state b now = bind_result (refilled b now) (\<lambda>(tokens, _). Inr (tokens, now))"

definition validate_token_count :: "int \<Rightarrow> unit clock_result" where
  "validate_token_count n = require (\<not> n < 1) (RatePolicyError ''token count must be at least one token'')"

definition bucket_try_acquire :: "UtcTimestamp \<Rightarrow> int \<Rightarrow> TokenBucket \<Rightarrow> bool clock_result \<times> TokenBucket" where
  "bucket_try_acquire now requested b =
     (case bind_result (validate_token_count requested) (\<lambda>_. refilled b now) of
        Inl e \<Rightarrow> (Inl e, b)
      | Inr (available, advanced) \<Rightarrow>
          if available \<ge> requested
          then (Inr True, b\<lparr>bucket_tokens := available - requested, last_seen_micros := Some advanced\<rparr>)
          else (Inr False, b\<lparr>bucket_tokens := available, last_seen_micros := Some advanced\<rparr>))"

definition timestamp_from_epoch_micros :: "int \<Rightarrow> UtcTimestamp clock_result" where
  "timestamp_from_epoch_micros micros =
     bind_result (require (valid_utc micros) (RatePolicyError ''token acquisition time exceeds the timestamp bounds''))
       (\<lambda>_. Inr micros)"

definition bucket_acquire_at :: "TokenBucket \<Rightarrow> UtcTimestamp \<Rightarrow> int \<Rightarrow> UtcTimestamp clock_result" where
  "bucket_acquire_at b now requested =
     bind_result (validate_token_count requested) (\<lambda>_.
     bind_result (require (\<not> requested > bucket_burst b)
       (RatePolicyError ''token request exceeds the burst bound and can never succeed'')) (\<lambda>_.
     bind_result (refilled b now) (\<lambda>(available, advanced).
     if available \<ge> requested then Inr now
     else timestamp_from_epoch_micros (advanced + (requested - available) * interval_micros b))))"

subsection \<open>The rate is kept\<close>

definition bucket_ok :: "TokenBucket \<Rightarrow> bool" where
  "bucket_ok b \<longleftrightarrow> 0 < interval_micros b \<and> 0 \<le> bucket_tokens b \<and> bucket_tokens b \<le> bucket_burst b"

definition bucket_call :: "UtcTimestamp \<times> int \<Rightarrow> TokenBucket \<Rightarrow> int \<times> TokenBucket" where
  "bucket_call c b =
     (case bucket_try_acquire (fst c) (snd c) b of (answer, b') \<Rightarrow> (if answer = Inr True then snd c else 0, b'))"

lemma bucket_call_ok:
  assumes "bucket_ok b"
  shows "bucket_ok (snd (bucket_call c b))" "interval_micros (snd (bucket_call c b)) = interval_micros b"
    "bucket_burst (snd (bucket_call c b)) = bucket_burst b"
proof -
  have nonneg: "0 \<le> (fst c - l) div interval_micros b" if "\<not> fst c < l" for l
    using assms that by (intro pos_imp_zdiv_nonneg_iff [THEN iffD2]) (auto simp: bucket_ok_def)
  show "bucket_ok (snd (bucket_call c b))" "interval_micros (snd (bucket_call c b)) = interval_micros b"
    "bucket_burst (snd (bucket_call c b)) = bucket_burst b"
    using assms nonneg
    by (auto simp: bucket_call_def bucket_try_acquire_def bucket_ok_def refilled_def validate_token_count_def require_def Let_def
        split: option.splits sum.splits)
qed

interpretation bucket_machine: object_machine bucket_call bucket_ok
  by unfold_locales (rule bucket_call_ok)

text \<open>Tokens taken and tokens left never exceed what was there and what the elapsed intervals brought.\<close>

lemma bucket_call_balance:
  assumes ok: "bucket_ok b" and last: "last_seen_micros b = Some l"
  shows "\<exists>r \<ge> 0. last_seen_micros (snd (bucket_call c b)) = Some (l + r * interval_micros b) \<and>
    l + r * interval_micros b \<le> max l (fst c) \<and>
    fst (bucket_call c b) + bucket_tokens (snd (bucket_call c b)) \<le> bucket_tokens b + r"
proof (cases "fst c < l \<or> snd c < 1")
  case True
  then show ?thesis using last
    by (intro exI [of _ 0])
       (auto simp: bucket_call_def bucket_try_acquire_def refilled_def validate_token_count_def require_def)
next
  case False
  let ?r = "(fst c - l) div interval_micros b"
  have i: "0 < interval_micros b" using ok by (simp add: bucket_ok_def)
  have r: "0 \<le> ?r" using False i by (simp add: pos_imp_zdiv_nonneg_iff)
  have "?r * interval_micros b \<le> fst c - l"
    using i by (metis div_mult_mod_eq le_add_same_cancel1 pos_mod_sign)
  then show ?thesis using r False last
    by (intro exI [of _ ?r])
       (auto simp: bucket_call_def bucket_try_acquire_def refilled_def validate_token_count_def require_def Let_def)
qed

lemma bucket_balance:
  assumes "bucket_ok b" "last_seen_micros b = Some l" "\<And>c. c \<in> set cs \<Longrightarrow> fst c \<le> z" "l \<le> z"
  shows "sum_list (fst (perform bucket_call cs b)) \<le> bucket_tokens b + (z - l) div interval_micros b"
  using assms
proof (induction cs arbitrary: b l)
  case Nil
  then have "0 < interval_micros b" "0 \<le> bucket_tokens b" by (simp_all add: bucket_ok_def)
  then show ?case using Nil.prems(4) by (simp add: pos_imp_zdiv_nonneg_iff)
next
  case (Cons c cs)
  let ?b = "snd (bucket_call c b)" and ?i = "interval_micros b"
  have i: "0 < ?i" using Cons.prems(1) by (simp add: bucket_ok_def)
  obtain r where r: "0 \<le> r" "last_seen_micros ?b = Some (l + r * ?i)" "l + r * ?i \<le> max l (fst c)"
    "fst (bucket_call c b) + bucket_tokens ?b \<le> bucket_tokens b + r"
    using bucket_call_balance [OF Cons.prems(1,2)] by blast
  have z: "l + r * ?i \<le> z" using r(3) Cons.prems(3) [of c] Cons.prems(4) by (simp add: max_def split: if_splits)
  have "sum_list (fst (perform bucket_call cs ?b)) \<le> bucket_tokens ?b + (z - (l + r * ?i)) div ?i"
    using Cons.IH [OF bucket_call_ok(1) [OF Cons.prems(1)] r(2) _ z] Cons.prems(3) bucket_call_ok(2) [OF Cons.prems(1)] by simp
  also have "(z - (l + r * ?i)) div ?i = (z - l) div ?i - r"
  proof -
    have "z - (l + r * ?i) = (z - l) + (- r) * ?i" by simp
    then show ?thesis using i div_mult_self1 [of ?i "z - l" "- r"] by (simp only:)
  qed
  finally show ?case using r(4) by simp
qed

lemma make_TokenBucket_ok:
  assumes "make_TokenBucket burst interval initial = Inr b" "1 \<le> burst" "1 \<le> interval"
  shows "bucket_ok b" "last_seen_micros b = None" "interval_micros b = interval" "bucket_tokens b = (case initial of None \<Rightarrow> burst | Some n \<Rightarrow> n)"
  using assms by (auto simp: make_TokenBucket_def bucket_ok_def result_simps split: option.splits)

text \<open>
  C39.  A token bucket keeps its rate: from its first call on, the tokens granted up to any instant are at most the
  initial tokens and one token per whole interval elapsed, whatever is requested and in whatever order the instants come.
\<close>

theorem bucket_keeps_rate:
  assumes made: "make_TokenBucket burst interval initial = Inr b" and bounds: "1 \<le> burst" "1 \<le> interval"
    and first: "c = (a, n)" "1 \<le> n" and instants: "\<And>x. x \<in> set (c # cs) \<Longrightarrow> fst x \<le> z"
  shows "sum_list (fst (perform bucket_call (c # cs) b)) \<le>
    (case initial of None \<Rightarrow> burst | Some i \<Rightarrow> i) + (z - a) div interval"
proof -
  let ?b = "snd (bucket_call c b)"
  note b = make_TokenBucket_ok [OF made bounds]
  have start: "last_seen_micros ?b = Some a" "fst (bucket_call c b) + bucket_tokens ?b = bucket_tokens b"
    using b(2) first by (auto simp: bucket_call_def bucket_try_acquire_def refilled_def validate_token_count_def)
  have "sum_list (fst (perform bucket_call cs ?b)) \<le> bucket_tokens ?b + (z - a) div interval_micros ?b"
    using instants instants [of c] first(1)
    by (intro bucket_balance [OF bucket_call_ok(1) [OF b(1)] start(1)]) auto
  then show ?thesis using start(2) b(3,4) bucket_call_ok(2) [OF b(1), of c] by simp
qed

theorem bucket_keeps_rate_witness:
  "\<exists>b. make_TokenBucket 2 1000000 None = Inr b \<and>
     sum_list (fst (perform bucket_call [(0, 2), (500000, 1), (1000000, 1), (1500000, 1), (2000000, 1)] b)) \<le> 2 + 2"
proof -
  obtain b where b: "make_TokenBucket 2 1000000 None = Inr b" by (simp add: make_TokenBucket_def)
  have "sum_list (fst (perform bucket_call [(0, 2), (500000, 1), (1000000, 1), (1500000, 1), (2000000, 1)] b)) \<le>
      (case None of None \<Rightarrow> 2 | Some i \<Rightarrow> i) + (2000000 - 0) div 1000000"
    by (rule bucket_keeps_rate [OF b, of "(0, 2)" 0 2]) auto
  with b show ?thesis by auto
qed

subsection \<open>The promised instant\<close>

lemma refilled_Some:
  assumes "last_seen_micros b = Some l" "l \<le> x"
  shows "refilled b x = Inr (min (bucket_burst b) (bucket_tokens b + (x - l) div interval_micros b),
    l + (x - l) div interval_micros b * interval_micros b)"
  using assms by (simp add: refilled_def Let_def)

lemma available_iff:
  fixes l x i k :: int
  assumes "0 < i"
  shows "k \<le> (x - l) div i \<longleftrightarrow> l + k * i \<le> x"
proof -
  have "k * i \<le> x - l" if "k \<le> (x - l) div i"
  proof -
    have "k * i \<le> (x - l) div i * i" using that assms by (intro mult_right_mono) simp_all
    also have "\<dots> \<le> x - l" using assms by (metis div_mult_mod_eq le_add_same_cancel1 pos_mod_sign)
    finally show ?thesis .
  qed
  moreover have "k \<le> (x - l) div i" if "k * i \<le> x - l" using zdiv_mono1 [OF that, of i] assms by simp
  ultimately show ?thesis by linarith
qed

text \<open>
  The instant that a bucket in use names for a request is exact: from now on the request succeeds at that instant
  and later ones, and at no earlier one.
\<close>

theorem acquire_at_exact:
  assumes ok: "bucket_ok b" and used: "last_seen_micros b = Some l" "l \<le> now"
    and promise: "bucket_acquire_at b now n = Inr target" and x: "now \<le> x"
  shows "fst (bucket_try_acquire x n b) = Inr (target \<le> x)"
proof -
  let ?i = "interval_micros b" and ?t = "bucket_tokens b"
  let ?r = "(now - l) div ?i"
  have i: "0 < ?i" and t: "?t \<le> bucket_burst b" using ok by (simp_all add: bucket_ok_def)
  from promise have n: "1 \<le> n" "n \<le> bucket_burst b"
    by (auto simp: bucket_acquire_at_def validate_token_count_def result_simps)
  have succeed: "fst (bucket_try_acquire x n b) = Inr (n - ?t \<le> (x - l) div ?i)"
    using n used(2) x refilled_Some [OF used(1), of x] by (auto simp: bucket_try_acquire_def validate_token_count_def)
  show ?thesis
  proof (cases "n - ?t \<le> ?r")
    case True
    then have "target = now"
      using promise n refilled_Some [OF used] by (auto simp: bucket_acquire_at_def validate_token_count_def)
    moreover have "?r \<le> (x - l) div ?i" using i x by (intro zdiv_mono1) simp_all
    ultimately show ?thesis using True succeed x by simp
  next
    case False
    then have "min (bucket_burst b) (?t + ?r) = ?t + ?r" "\<not> n \<le> ?t + ?r" using n by auto
    then have "timestamp_from_epoch_micros (l + ?r * ?i + (n - (?t + ?r)) * ?i) = Inr target"
      using promise n refilled_Some [OF used] by (simp add: bucket_acquire_at_def validate_token_count_def)
    then have "target = l + (n - ?t) * ?i"
      by (auto simp: timestamp_from_epoch_micros_def result_simps algebra_simps)
    then show ?thesis using succeed available_iff [OF i, of "n - ?t" x l] by simp
  qed
qed

text \<open>A bucket that was never used promises an instant at which it then refuses.\<close>

definition unused_bucket :: TokenBucket where
  "unused_bucket = \<lparr>bucket_burst = 1, interval_micros = 1000000, bucket_tokens = 0, last_seen_micros = None\<rparr>"

lemma unused_bucket_promise:
  "make_TokenBucket 1 1000000 (Some 0) = Inr unused_bucket"
  "bucket_acquire_at unused_bucket 0 1 = Inr 1000000"
  "fst (bucket_try_acquire 1000000 1 unused_bucket) = Inr False"
  by code_simp+

theorem acquire_at_exact_witness:
  "fst (bucket_try_acquire 1999999 1 \<lparr>bucket_burst = 1, interval_micros = 1000000, bucket_tokens = 0, last_seen_micros = Some 1000000\<rparr>) =
     Inr (2000000 \<le> (1999999 :: int))"
  by (rule acquire_at_exact [of _ 1000000 1500000]) (code_simp, code_simp, simp, code_simp, simp)

end
