(* ===== verification/Capacity.thy ===== *)
theory Capacity
  imports Clock_Policy
begin

text \<open>
  Capacity ledgers (\<^verbatim>\<open>application/execution/capacity.py\<close>): the coordinator of scheduled work with its three levels, and
  the connector or CPU-pool limiter subordinate to it.

  A call that has to wait leaves the lock inside its loop, so it is two kinds of atomic steps: the call itself
  up to its first wait, and one resumption per awakening.  \<open>asleep\<close> holds what such a call keeps on its stack, and
  whether \<^verbatim>\<open>notify_all\<close> has awakened it since it went to sleep.  Every reading of the clock is an argument.
\<close>

subsection \<open>Values\<close>

definition CAPACITY_CATEGORY_CONNECTOR :: string where "CAPACITY_CATEGORY_CONNECTOR = ''connector''"
definition CAPACITY_CATEGORY_CPU_POOL :: string where "CAPACITY_CATEGORY_CPU_POOL = ''cpu_pool''"
definition CAPACITY_CATEGORY_GLOBAL :: string where "CAPACITY_CATEGORY_GLOBAL = ''global''"
definition CAPACITY_CATEGORY_NODE :: string where "CAPACITY_CATEGORY_NODE = ''node''"
definition CAPACITY_CATEGORY_STRATEGY :: string where "CAPACITY_CATEGORY_STRATEGY = ''strategy''"
definition MAX_WAIT_MICROSECONDS :: int where "MAX_WAIT_MICROSECONDS = 60000000"
definition MIN_PERMIT_LIMIT :: nat where "MIN_PERMIT_LIMIT = 1"
definition MAX_OWNER_LENGTH :: nat where "MAX_OWNER_LENGTH = 128"
definition MAX_CAPTURED_LIMIT :: nat where "MAX_CAPTURED_LIMIT = 65536"
definition MAX_STRATEGY_ID_LENGTH :: nat where "MAX_STRATEGY_ID_LENGTH = 64"

definition captured_limit :: "nat \<Rightarrow> bool" where
  "captured_limit n \<longleftrightarrow> MIN_PERMIT_LIMIT \<le> n \<and> n \<le> MAX_CAPTURED_LIMIT"

lemma captured_limit_code [code]: "captured_limit n \<longleftrightarrow> 1 \<le> int n \<and> int n \<le> 65536"
  by (auto simp: captured_limit_def MIN_PERMIT_LIMIT_def MAX_CAPTURED_LIMIT_def)

definition SCHEDULED_CATEGORIES :: "string list" where
  "SCHEDULED_CATEGORIES = [CAPACITY_CATEGORY_GLOBAL, CAPACITY_CATEGORY_STRATEGY, CAPACITY_CATEGORY_NODE]"

definition SUBORDINATE_CATEGORIES :: "string list" where
  "SUBORDINATE_CATEGORIES = [CAPACITY_CATEGORY_CONNECTOR, CAPACITY_CATEGORY_CPU_POOL]"

datatype capacity_error =
    CapacityValidationError string
  | CapacityOrderError string
  | CapacityOwnershipError string
  | CapacityTimeoutError string
  | CapacityClosedError string
  | CapacityRateDeferredError UtcTimestamp
  | Capacity_clock_error clock_error

type_synonym 'a capacity_result = "(capacity_error, 'a) result"

definition invalid_capacity :: "bool \<Rightarrow> string \<Rightarrow> unit capacity_result" where
  "invalid_capacity ok message = require ok (CapacityValidationError message)"

definition validate_owner_key :: "string \<Rightarrow> string \<Rightarrow> unit capacity_result" where
  "validate_owner_key owner subject =
     bind_result (invalid_capacity (1 \<le> length owner \<and> length owner \<le> MAX_OWNER_LENGTH)
       (subject @ '' length is outside the supported range'')) (\<lambda>_.
     invalid_capacity (list_all is_printable_ascii owner) (subject @ '' must use printable ASCII characters''))"

definition validate_strategy_id :: "string \<Rightarrow> unit capacity_result" where
  "validate_strategy_id s =
     bind_result (invalid_capacity (1 \<le> length s \<and> length s \<le> MAX_STRATEGY_ID_LENGTH)
       ''capacity strategy identifier length is outside the supported range'') (\<lambda>_.
     invalid_capacity (is_lower (hd s) \<and> list_all (\<lambda>c. is_lower c \<or> is_digit c \<or> c = CHR ''-'') (tl s))
       ''capacity strategy identifier must use a lowercase strategy name'')"

definition validate_node_id :: "string \<Rightarrow> unit capacity_result" where
  "validate_node_id n =
     bind_result (validate_owner_key n ''node identifier'') (\<lambda>_.
     invalid_capacity (n \<notin> set SCHEDULED_CATEGORIES) ''node identifier must not collide with a scheduled-work level'')"

record CapacityPermit =
  permit_category :: string
  permit_limit :: nat
  permit_owner :: string
  permit_slot :: nat

definition make_CapacityPermit :: "CapacityPermit \<Rightarrow> CapacityPermit capacity_result" where
  "make_CapacityPermit p =
     bind_result (invalid_capacity (permit_category p \<in> set (SCHEDULED_CATEGORIES @ SUBORDINATE_CATEGORIES))
       ''permit category must be a known capacity category'') (\<lambda>_.
     bind_result (invalid_capacity (captured_limit (permit_limit p))
       ''permit limit is outside the supported range'') (\<lambda>_.
     bind_result (validate_owner_key (permit_owner p) ''permit owner'') (\<lambda>_.
     bind_result (invalid_capacity (1 \<le> permit_slot p \<and> permit_slot p \<le> permit_limit p)
       ''permit slot is outside the permit limit'') (\<lambda>_. Inr p))))"

text \<open>\<^verbatim>\<open>limit: int = field(compare=False)\<close>: two permits are equal by their category, owner and slot.\<close>

definition permit_key :: "CapacityPermit \<Rightarrow> string \<times> string \<times> nat" where
  "permit_key p = (permit_category p, permit_owner p, permit_slot p)"

record CapacitySnapshot =
  snapshot_category :: string
  snapshot_limit :: nat
  snapshot_in_use :: nat
  snapshot_waiting :: nat
  snapshot_max :: nat

definition make_CapacitySnapshot :: "CapacitySnapshot \<Rightarrow> CapacitySnapshot capacity_result" where
  "make_CapacitySnapshot s =
     bind_result (invalid_capacity (snapshot_category s \<in> set (SCHEDULED_CATEGORIES @ SUBORDINATE_CATEGORIES))
       ''snapshot category must be a known capacity category'') (\<lambda>_.
     bind_result (invalid_capacity (captured_limit (snapshot_limit s))
       ''snapshot limit is outside the supported range'') (\<lambda>_.
     bind_result (invalid_capacity (snapshot_in_use s \<le> snapshot_limit s)
       ''snapshot in-use count is outside the limit'') (\<lambda>_.
     bind_result (invalid_capacity (snapshot_in_use s \<le> snapshot_max s \<and> snapshot_max s \<le> snapshot_limit s)
       ''snapshot maximum in-use count is outside the limit'') (\<lambda>_. Inr s))))"

subsection \<open>One ledger\<close>

record ledger =
  l_category :: string
  l_limit :: nat
  held :: "(string, nat) dict"
  free_slots :: "nat set"
  waiters :: "string list"
  max_observed_in_use :: nat

definition new_ledger :: "string \<Rightarrow> nat \<Rightarrow> ledger" where
  "new_ledger category limit =
     \<lparr>l_category = category, l_limit = limit, held = [], free_slots = set [1..<Suc limit], waiters = [],
      max_observed_in_use = 0\<rparr>"

definition ledger_in_use :: "ledger \<Rightarrow> nat" where "ledger_in_use l = length (held l)"
definition ledger_holds :: "ledger \<Rightarrow> string \<Rightarrow> bool" where "ledger_holds l owner \<longleftrightarrow> owner \<in> set (keys (held l))"
definition has_waiter :: "ledger \<Rightarrow> string \<Rightarrow> bool" where "has_waiter l owner \<longleftrightarrow> owner \<in> set (waiters l)"
definition enqueue :: "string \<Rightarrow> ledger \<Rightarrow> ledger" where "enqueue owner l = l\<lparr>waiters := waiters l @ [owner]\<rparr>"
definition dequeue :: "string \<Rightarrow> ledger \<Rightarrow> ledger" where "dequeue owner l = l\<lparr>waiters := remove1 owner (waiters l)\<rparr>"

definition may_grant :: "ledger \<Rightarrow> string \<Rightarrow> bool" where
  "may_grant l owner \<longleftrightarrow> free_slots l \<noteq> {} \<and> \<not> (waiters l \<noteq> [] \<and> hd (waiters l) \<noteq> owner)"

definition next_slot :: "ledger \<Rightarrow> nat" where "next_slot l = Min (free_slots l)"

definition ledger_grant :: "string \<Rightarrow> ledger \<Rightarrow> ledger" where
  "ledger_grant owner l =
     (let slot = next_slot l; h = AList.update owner slot (held l) in
      dequeue owner (l\<lparr>free_slots := free_slots l - {slot}, held := h,
        max_observed_in_use := (if length h > max_observed_in_use l then length h else max_observed_in_use l)\<rparr>))"

definition ungrant :: "string \<Rightarrow> ledger \<Rightarrow> ledger" where
  "ungrant owner l =
     l\<lparr>held := AList.delete owner (held l), free_slots := insert (the (map_of (held l) owner)) (free_slots l)\<rparr>"

definition ledger_release :: "string \<Rightarrow> ledger \<Rightarrow> ledger" where "ledger_release owner l = dequeue owner (ungrant owner l)"

definition ledger_snapshot :: "ledger \<Rightarrow> CapacitySnapshot capacity_result" where
  "ledger_snapshot l =
     make_CapacitySnapshot
       \<lparr>snapshot_category = l_category l, snapshot_limit = l_limit l, snapshot_in_use = ledger_in_use l,
        snapshot_waiting = length (waiters l), snapshot_max = max_observed_in_use l\<rparr>"

definition granted_permit :: "string \<Rightarrow> ledger \<Rightarrow> CapacityPermit capacity_result" where
  "granted_permit owner l =
     make_CapacityPermit
       \<lparr>permit_category = l_category l, permit_limit = l_limit l, permit_owner = owner, permit_slot = next_slot l\<rparr>"

subsection \<open>The coordinator of scheduled work\<close>

record sleeper =
  sleeper_node :: string
  sleeper_deadline :: UtcTimestamp
  notified :: bool

record limiters =
  global_ledger :: ledger
  strategy_ledger :: ledger
  node_ledgers :: "(string, ledger) dict"
  subordinates :: "(string, (string \<times> string \<times> nat) set) dict"
  limiters_closed :: bool
  asleep :: "(string, sleeper) dict"

datatype level = Level_GLOBAL | Level_STRATEGY | Level_NODE string

fun ledger_at :: "level \<Rightarrow> limiters \<Rightarrow> ledger" where
  "ledger_at Level_GLOBAL s = global_ledger s"
| "ledger_at Level_STRATEGY s = strategy_ledger s"
| "ledger_at (Level_NODE n) s = the (map_of (node_ledgers s) n)"

fun on_ledger :: "level \<Rightarrow> (ledger \<Rightarrow> ledger) \<Rightarrow> limiters \<Rightarrow> limiters" where
  "on_ledger Level_GLOBAL f s = s\<lparr>global_ledger := f (global_ledger s)\<rparr>"
| "on_ledger Level_STRATEGY f s = s\<lparr>strategy_ledger := f (strategy_ledger s)\<rparr>"
| "on_ledger (Level_NODE n) f s = s\<lparr>node_ledgers := AList.map_entry n f (node_ledgers s)\<rparr>"

definition make_limiters :: "nat \<Rightarrow> nat \<Rightarrow> nat \<Rightarrow> string \<Rightarrow> string list \<Rightarrow> limiters capacity_result" where
  "make_limiters global_work strategy_work node_work strategy_id node_ids =
     bind_result (validate_strategy_id strategy_id) (\<lambda>_.
     bind_result (invalid_capacity (captured_limit (length node_ids))
       ''scheduled-work node identifier count is outside the supported range'') (\<lambda>_.
     bind_result (check_all (\<lambda>i. bind_result (validate_node_id (node_ids ! i)) (\<lambda>_.
         invalid_capacity (node_ids ! i \<notin> set (take i node_ids)) ''scheduled-work node identifiers must be unique''))
       [0..<length node_ids]) (\<lambda>_.
     Inr \<lparr>global_ledger = new_ledger CAPACITY_CATEGORY_GLOBAL global_work,
          strategy_ledger = new_ledger CAPACITY_CATEGORY_STRATEGY strategy_work,
          node_ledgers = map (\<lambda>n. (n, new_ledger CAPACITY_CATEGORY_NODE node_work)) node_ids,
          subordinates = [], limiters_closed = False, asleep = []\<rparr>)))"

definition any_node_holds :: "limiters \<Rightarrow> string \<Rightarrow> bool" where
  "any_node_holds s owner \<longleftrightarrow> list_ex (\<lambda>(_, l). ledger_holds l owner) (node_ledgers s)"

definition holds_all :: "limiters \<Rightarrow> string \<Rightarrow> bool" where
  "holds_all s owner \<longleftrightarrow> ledger_holds (global_ledger s) owner \<and> ledger_holds (strategy_ledger s) owner \<and> any_node_holds s owner"

definition is_pending :: "limiters \<Rightarrow> string \<Rightarrow> bool" where
  "is_pending s owner \<longleftrightarrow> has_waiter (global_ledger s) owner \<or> has_waiter (strategy_ledger s) owner"

definition is_pending_or_holding :: "limiters \<Rightarrow> string \<Rightarrow> bool" where
  "is_pending_or_holding s owner \<longleftrightarrow>
     has_waiter (global_ledger s) owner \<or> ledger_holds (global_ledger s) owner \<or>
     has_waiter (strategy_ledger s) owner \<or> ledger_holds (strategy_ledger s) owner"

definition held_levels :: "limiters \<Rightarrow> string \<Rightarrow> string set" where
  "held_levels s owner =
     (if ledger_holds (global_ledger s) owner then {CAPACITY_CATEGORY_GLOBAL} else {}) \<union>
     (if ledger_holds (strategy_ledger s) owner then {CAPACITY_CATEGORY_STRATEGY} else {}) \<union>
     (if any_node_holds s owner then {CAPACITY_CATEGORY_NODE} else {})"

definition require_no_subordinates :: "limiters \<Rightarrow> string \<Rightarrow> unit capacity_result" where
  "require_no_subordinates s owner =
     require (case map_of (subordinates s) owner of None \<Rightarrow> True | Some ps \<Rightarrow> ps = {})
       (CapacityOwnershipError ''subordinate permits must be released before scheduled-work capacity'')"

definition notify_all :: "limiters \<Rightarrow> limiters" where
  "notify_all s = s\<lparr>asleep := map (\<lambda>(owner, w). (owner, w\<lparr>notified := True\<rparr>)) (asleep s)\<rparr>"

definition require_node :: "limiters \<Rightarrow> string \<Rightarrow> unit capacity_result" where
  "require_node s n =
     invalid_capacity (n \<in> set (keys (node_ledgers s))) ''node identifier is not registered with this coordinator''"

text \<open>\<^verbatim>\<open>_grant\<close>: the ledger has changed before the permit is built.\<close>

definition grant_level :: "level \<Rightarrow> string \<Rightarrow> limiters \<Rightarrow> CapacityPermit capacity_result \<times> limiters" where
  "grant_level lv owner s = (granted_permit owner (ledger_at lv s), on_ledger lv (ledger_grant owner) s)"

definition dequeue_all :: "string \<Rightarrow> string \<Rightarrow> limiters \<Rightarrow> limiters" where
  "dequeue_all owner node s =
     on_ledger (Level_NODE node) (dequeue owner) (on_ledger Level_STRATEGY (dequeue owner)
       (on_ledger Level_GLOBAL (dequeue owner) (s\<lparr>asleep := AList.delete owner (asleep s)\<rparr>)))"

subsection \<open>Acquiring and releasing scheduled work\<close>

datatype acquisition = Granted "CapacityPermit list" | Waiting

definition enqueue_all :: "string \<Rightarrow> string \<Rightarrow> limiters \<Rightarrow> limiters" where
  "enqueue_all owner node s =
     on_ledger (Level_NODE node) (enqueue owner) (on_ledger Level_STRATEGY (enqueue owner)
       (on_ledger Level_GLOBAL (enqueue owner) s))"

text \<open>The tuple of the three grants; a permit that cannot be built ends it.\<close>

definition grant_all :: "string \<Rightarrow> string \<Rightarrow> limiters \<Rightarrow> acquisition capacity_result \<times> limiters" where
  "grant_all owner node s =
     (case grant_level Level_GLOBAL owner s of
        (Inl e, s1) \<Rightarrow> (Inl e, s1)
      | (Inr p1, s1) \<Rightarrow> (case grant_level Level_STRATEGY owner s1 of
          (Inl e, s2) \<Rightarrow> (Inl e, s2)
        | (Inr p2, s2) \<Rightarrow> (case grant_level (Level_NODE node) owner s2 of
            (Inl e, s3) \<Rightarrow> (Inl e, s3)
          | (Inr p3, s3) \<Rightarrow> (Inr (Granted [p1, p2, p3]), s3))))"

text \<open>One round of the loop; \<^verbatim>\<open>finally\<close> takes the owner out of the queues unless it goes to sleep.\<close>

definition acquire_round ::
  "string \<Rightarrow> string \<Rightarrow> UtcTimestamp option \<Rightarrow> UtcTimestamp \<Rightarrow> limiters \<Rightarrow> acquisition capacity_result \<times> limiters" where
  "acquire_round owner node deadline now s =
     (if limiters_closed s
      then (Inl (CapacityClosedError ''scheduled-work coordinator closed while waiting''), dequeue_all owner node s)
      else if (case deadline of None \<Rightarrow> False | Some d \<Rightarrow> now \<ge> d)
      then (Inl (CapacityTimeoutError ''scheduled-work wait deadline elapsed before capacity became available''),
            dequeue_all owner node s)
      else if may_grant (global_ledger s) owner \<and> may_grant (strategy_ledger s) owner \<and>
        may_grant (ledger_at (Level_NODE node) s) owner
      then (case grant_all owner node s of (answer, s') \<Rightarrow> (answer, dequeue_all owner node s'))
      else case deadline of
        None \<Rightarrow> (Inl (CapacityTimeoutError ''scheduled-work capacity is saturated and no wait deadline was given''),
                  dequeue_all owner node s)
      | Some d \<Rightarrow> (Inr Waiting,
          s\<lparr>asleep := AList.update owner \<lparr>sleeper_node = node, sleeper_deadline = d, notified = False\<rparr> (asleep s)\<rparr>))"

definition acquire_admission :: "string \<Rightarrow> string \<Rightarrow> UtcTimestamp option \<Rightarrow> UtcTimestamp \<Rightarrow> limiters \<Rightarrow> unit capacity_result" where
  "acquire_admission owner node deadline now s =
        bind_result (validate_owner_key owner ''acquisition owner'') (\<lambda>_.
        bind_result (validate_node_id node) (\<lambda>_.
        bind_result (require_node s node) (\<lambda>_.
        bind_result (require (\<not> limiters_closed s) (CapacityClosedError ''scheduled-work coordinator is closed'')) (\<lambda>_.
        bind_result (require (\<not> is_pending_or_holding s owner)
          (CapacityOwnershipError ''owner key already holds or awaits scheduled-work capacity'')) (\<lambda>_.
        invalid_capacity (case deadline of None \<Rightarrow> True | Some d \<Rightarrow> \<not> d - now > MAX_WAIT_MICROSECONDS)
          ''wait deadline exceeds the maximum bounded wait'')))))"

definition limiters_acquire ::
  "string \<Rightarrow> string \<Rightarrow> UtcTimestamp option \<Rightarrow> UtcTimestamp \<Rightarrow> UtcTimestamp \<Rightarrow> limiters \<Rightarrow>
     acquisition capacity_result \<times> limiters" where
  "limiters_acquire owner node deadline now1 now2 s =
     (case acquire_admission owner node deadline now1 s of
         Inl e \<Rightarrow> (Inl e, s)
       | Inr _ \<Rightarrow> acquire_round owner node deadline now2 (enqueue_all owner node s))"

text \<open>A sleeping call goes on when it was notified or its wait timed out.\<close>

definition limiters_resume :: "string \<Rightarrow> bool \<Rightarrow> UtcTimestamp \<Rightarrow> limiters \<Rightarrow> acquisition capacity_result \<times> limiters" where
  "limiters_resume owner timed_out now s =
     (case map_of (asleep s) owner of
        None \<Rightarrow> (Inr Waiting, s)
      | Some w \<Rightarrow>
          if notified w \<or> timed_out then acquire_round owner (sleeper_node w) (Some (sleeper_deadline w)) now s
          else (Inr Waiting, s))"

definition release_admission :: "string \<Rightarrow> string \<Rightarrow> limiters \<Rightarrow> unit capacity_result" where
  "release_admission owner node s =
     (let levels = [global_ledger s, strategy_ledger s, ledger_at (Level_NODE node) s] in
        bind_result (validate_owner_key owner ''release owner'') (\<lambda>_.
        bind_result (validate_node_id node) (\<lambda>_.
        bind_result (require_node s node) (\<lambda>_.
        bind_result (require (list_ex (\<lambda>l. ledger_holds l owner) levels)
          (CapacityOwnershipError ''owner holds no scheduled-work reservation'')) (\<lambda>_.
        bind_result (require (list_all (\<lambda>l. ledger_holds l owner) levels)
          (CapacityOwnershipError ''release requires the complete global, strategy, and node reservation'')) (\<lambda>_.
        require_no_subordinates s owner))))))"

definition release_reservation :: "string \<Rightarrow> string \<Rightarrow> limiters \<Rightarrow> unit capacity_result \<times> limiters" where
  "release_reservation owner node s =
     (case release_admission owner node s of
         Inl e \<Rightarrow> (Inl e, s)
       | Inr _ \<Rightarrow> (Inr (), notify_all
           (on_ledger Level_GLOBAL (ledger_release owner) (on_ledger Level_STRATEGY (ledger_release owner)
             (on_ledger (Level_NODE node) (ledger_release owner) s)))))"

definition require_scheduled :: "string \<Rightarrow> string \<Rightarrow> unit capacity_result" where
  "require_scheduled category message =
     bind_result (invalid_capacity (category \<in> set (SCHEDULED_CATEGORIES @ SUBORDINATE_CATEGORIES))
       ''category must name a known capacity category'') (\<lambda>_.
     require (category \<notin> set SUBORDINATE_CATEGORIES) (CapacityOwnershipError message))"

definition resolve_level_node :: "string \<Rightarrow> string option \<Rightarrow> unit capacity_result" where
  "resolve_level_node category node =
     (if category = CAPACITY_CATEGORY_NODE
      then case node of
          None \<Rightarrow> Inl (CapacityValidationError ''node-level capacity requires the node identifier'')
        | Some n \<Rightarrow> validate_node_id n
      else invalid_capacity (node = None) ''global and strategy capacity take no node identifier'')"

definition level_ledger :: "limiters \<Rightarrow> string \<Rightarrow> string option \<Rightarrow> level capacity_result" where
  "level_ledger s category node =
     (if category = CAPACITY_CATEGORY_NODE then bind_result (require_node s (the node)) (\<lambda>_. Inr (Level_NODE (the node)))
      else if category = CAPACITY_CATEGORY_GLOBAL then Inr Level_GLOBAL else Inr Level_STRATEGY)"

definition acquire_level_admission :: "string \<Rightarrow> string \<Rightarrow> string option \<Rightarrow> limiters \<Rightarrow> level capacity_result" where
  "acquire_level_admission category owner node s =
        bind_result (require_scheduled category
          ''subordinate capacity cannot be acquired through the scheduled-work coordinator'') (\<lambda>_.
        bind_result (validate_owner_key owner ''acquisition owner'') (\<lambda>_.
        bind_result (resolve_level_node category node) (\<lambda>_.
        bind_result (require (\<not> limiters_closed s) (CapacityClosedError ''scheduled-work coordinator is closed'')) (\<lambda>_.
        bind_result (level_ledger s category node) (\<lambda>lv.
        let holding = held_levels s owner in
        bind_result (require (category \<notin> holding)
          (CapacityOrderError ''each scheduled-work level is acquired at most once per admission'')) (\<lambda>_.
        bind_result (require (\<not> (holding \<noteq> set (takeWhile (\<lambda>c. c \<noteq> category) SCHEDULED_CATEGORIES) \<or> is_pending s owner))
          (CapacityOrderError ''scheduled-work levels must be acquired global, strategy, then node'')) (\<lambda>_.
        bind_result (require (may_grant (ledger_at lv s) owner)
          (CapacityTimeoutError ''scheduled-work level is saturated and incremental acquisition does not wait'')) (\<lambda>_.
        Inr lv))))))))"

definition acquire_level :: "string \<Rightarrow> string \<Rightarrow> string option \<Rightarrow> limiters \<Rightarrow> CapacityPermit capacity_result \<times> limiters" where
  "acquire_level category owner node s =
     (case acquire_level_admission category owner node s of Inl e \<Rightarrow> (Inl e, s) | Inr lv \<Rightarrow> grant_level lv owner s)"

definition release_level_admission :: "string \<Rightarrow> string \<Rightarrow> string option \<Rightarrow> limiters \<Rightarrow> level capacity_result" where
  "release_level_admission category owner node s =
        bind_result (require_scheduled category
          ''subordinate capacity cannot be released through the scheduled-work coordinator'') (\<lambda>_.
        bind_result (validate_owner_key owner ''release owner'') (\<lambda>_.
        bind_result (resolve_level_node category node) (\<lambda>_.
        bind_result (level_ledger s category node) (\<lambda>lv.
        bind_result (require (\<not> list_ex (\<lambda>later. later \<in> held_levels s owner)
            (tl (dropWhile (\<lambda>c. c \<noteq> category) SCHEDULED_CATEGORIES)))
          (CapacityOrderError ''scheduled-work levels must be released node, strategy, then global'')) (\<lambda>_.
        bind_result (require (ledger_holds (ledger_at lv s) owner)
          (CapacityOwnershipError ''owner holds no capacity at this scheduled-work level'')) (\<lambda>_.
        bind_result (require_no_subordinates s owner) (\<lambda>_. Inr lv)))))))"

definition release_level :: "string \<Rightarrow> string \<Rightarrow> string option \<Rightarrow> limiters \<Rightarrow> unit capacity_result \<times> limiters" where
  "release_level category owner node s =
     (case release_level_admission category owner node s of
         Inl e \<Rightarrow> (Inl e, s) | Inr lv \<Rightarrow> (Inr (), notify_all (on_ledger lv (ledger_release owner) s)))"

definition parent_holds :: "string \<Rightarrow> limiters \<Rightarrow> bool capacity_result" where
  "parent_holds owner s = bind_result (validate_owner_key owner ''ownership owner'') (\<lambda>_. Inr (holds_all s owner))"

definition subordinates_of :: "limiters \<Rightarrow> string \<Rightarrow> (string \<times> string \<times> nat) set" where
  "subordinates_of s owner = (case map_of (subordinates s) owner of None \<Rightarrow> {} | Some ps \<Rightarrow> ps)"

definition register_subordinate :: "string \<Rightarrow> CapacityPermit \<Rightarrow> limiters \<Rightarrow> unit capacity_result \<times> limiters" where
  "register_subordinate owner p s =
     (case
        bind_result (validate_owner_key owner ''subordinate owner'') (\<lambda>_.
        bind_result (require (permit_category p \<in> set SUBORDINATE_CATEGORIES)
          (CapacityOwnershipError ''subordinate registration accepts only connector or cpu-pool permits'')) (\<lambda>_.
        bind_result (require (permit_owner p = owner)
          (CapacityOwnershipError ''subordinate permit must belong to the same owner key'')) (\<lambda>_.
        require (holds_all s owner)
          (CapacityOwnershipError ''subordinate capacity requires a held scheduled-work reservation''))))
      of Inl e \<Rightarrow> (Inl e, s)
       | Inr _ \<Rightarrow> (Inr (), s\<lparr>subordinates :=
           AList.update owner (insert (permit_key p) (subordinates_of s owner)) (subordinates s)\<rparr>))"

definition unregister_subordinate :: "string \<Rightarrow> CapacityPermit \<Rightarrow> limiters \<Rightarrow> unit capacity_result \<times> limiters" where
  "unregister_subordinate owner p s =
     (case
        bind_result (validate_owner_key owner ''subordinate owner'') (\<lambda>_.
        require (permit_key p \<in> subordinates_of s owner)
          (CapacityOwnershipError ''subordinate permit is not registered for this owner''))
      of Inl e \<Rightarrow> (Inl e, s)
       | Inr _ \<Rightarrow>
           let rest = subordinates_of s owner - {permit_key p} in
           (Inr (), s\<lparr>subordinates :=
              (if rest = {} then AList.delete owner (subordinates s) else AList.update owner rest (subordinates s))\<rparr>))"

definition limiters_in_use :: "string \<Rightarrow> string option \<Rightarrow> limiters \<Rightarrow> nat capacity_result" where
  "limiters_in_use category node s =
     bind_result (invalid_capacity (category \<in> set SCHEDULED_CATEGORIES) ''category must name a scheduled-work level'') (\<lambda>_.
     bind_result (resolve_level_node category node) (\<lambda>_.
     bind_result (level_ledger s category node) (\<lambda>lv. Inr (ledger_in_use (ledger_at lv s)))))"

definition all_ledgers :: "limiters \<Rightarrow> ledger list" where
  "all_ledgers s = global_ledger s # strategy_ledger s # map snd (node_ledgers s)"

definition limiters_snapshot :: "limiters \<Rightarrow> CapacitySnapshot list capacity_result" where
  "limiters_snapshot s = map_result ledger_snapshot (all_ledgers s)"

definition limiters_max_observed :: "limiters \<Rightarrow> (string, nat) dict" where
  "limiters_max_observed s =
     [(CAPACITY_CATEGORY_GLOBAL, max_observed_in_use (global_ledger s)),
      (CAPACITY_CATEGORY_STRATEGY, max_observed_in_use (strategy_ledger s))] @
     map (\<lambda>(n, l). (n, max_observed_in_use l)) (node_ledgers s)"

definition limiters_close :: "limiters \<Rightarrow> limiters" where
  "limiters_close s = (if limiters_closed s then s else notify_all (s\<lparr>limiters_closed := True\<rparr>))"

subsection \<open>Subordinate limiters\<close>

record sub_sleeper =
  sub_deadline :: UtcTimestamp
  sub_notified :: bool

record sub_limiter =
  sub_category :: string
  sub_ledger :: ledger
  sub_bucket :: "TokenBucket option"
  sub_closed :: bool
  sub_asleep :: "(string, sub_sleeper) dict"

definition make_sub_limiter :: "string \<Rightarrow> nat \<Rightarrow> TokenBucket option \<Rightarrow> sub_limiter capacity_result" where
  "make_sub_limiter category limit bucket =
     bind_result (invalid_capacity (category \<in> set SUBORDINATE_CATEGORIES)
       ''subordinate category must be connector or cpu_pool'') (\<lambda>_.
     bind_result (invalid_capacity (captured_limit limit)
       ''subordinate limit is outside the supported range'') (\<lambda>_.
     Inr \<lparr>sub_category = category, sub_ledger = new_ledger category limit, sub_bucket = bucket, sub_closed = False,
          sub_asleep = []\<rparr>))"

definition sub_notify_all :: "sub_limiter \<Rightarrow> sub_limiter" where
  "sub_notify_all l = l\<lparr>sub_asleep := map (\<lambda>(owner, w). (owner, w\<lparr>sub_notified := True\<rparr>)) (sub_asleep l)\<rparr>"

definition on_sub :: "(ledger \<Rightarrow> ledger) \<Rightarrow> sub_limiter \<Rightarrow> sub_limiter" where
  "on_sub f l = l\<lparr>sub_ledger := f (sub_ledger l)\<rparr>"

definition sub_dequeue :: "string \<Rightarrow> sub_limiter \<Rightarrow> sub_limiter" where
  "sub_dequeue owner l = on_sub (dequeue owner) (l\<lparr>sub_asleep := AList.delete owner (sub_asleep l)\<rparr>)"

text \<open>The bucket, when there is one.\<close>

definition take_token :: "UtcTimestamp \<Rightarrow> sub_limiter \<Rightarrow> bool capacity_result \<times> sub_limiter" where
  "take_token now l =
     (case sub_bucket l of
        None \<Rightarrow> (Inr True, l)
      | Some b \<Rightarrow> (case bucket_try_acquire now 1 b of
          (Inl e, b') \<Rightarrow> (Inl (Capacity_clock_error e), l\<lparr>sub_bucket := Some b'\<rparr>)
        | (Inr ok, b') \<Rightarrow> (Inr ok, l\<lparr>sub_bucket := Some b'\<rparr>)))"

definition register_with_parent ::
  "string \<Rightarrow> CapacityPermit \<Rightarrow> limiters \<times> sub_limiter \<Rightarrow> unit capacity_result \<times> limiters \<times> sub_limiter" where
  "register_with_parent owner p s =
     (case register_subordinate owner p (fst s) of
        (Inl e, parent) \<Rightarrow> (Inl e, parent, sub_notify_all (on_sub (ungrant owner) (snd s)))
      | (Inr _, parent) \<Rightarrow> (Inr (), parent, snd s))"

datatype sub_acquisition = Sub_granted CapacityPermit | Sub_waiting | Sub_refused

definition rate_refusal :: "TokenBucket option \<Rightarrow> UtcTimestamp \<Rightarrow> UtcTimestamp option \<Rightarrow> capacity_error" where
  "rate_refusal bucket now deadline =
     (case bucket_acquire_at (the bucket) now 1 of
        Inl e \<Rightarrow> Capacity_clock_error e
      | Inr retry_at \<Rightarrow> (case deadline of
          None \<Rightarrow> CapacityTimeoutError ''subordinate rate policy is saturated and no wait deadline was given''
        | Some d \<Rightarrow> if retry_at > d then CapacityTimeoutError ''subordinate rate retry exceeds the wait deadline''
                      else CapacityRateDeferredError retry_at))"

text \<open>\<^verbatim>\<open>_grant_checked\<close>.  A clock that runs backwards makes the bucket raise while the grant stays.\<close>

definition grant_checked ::
  "string \<Rightarrow> UtcTimestamp option \<Rightarrow> UtcTimestamp \<Rightarrow> limiters \<times> sub_limiter \<Rightarrow>
     sub_acquisition capacity_result \<times> limiters \<times> sub_limiter" where
  "grant_checked owner deadline now s =
     (let l = on_sub (ledger_grant owner) (snd s) in
      case granted_permit owner (sub_ledger (snd s)) of
        Inl e \<Rightarrow> (Inl e, fst s, l)
      | Inr p \<Rightarrow> (case take_token now l of
          (Inl e, l') \<Rightarrow> (Inl e, fst s, l')
        | (Inr False, l') \<Rightarrow>
            (Inl (rate_refusal (sub_bucket l') now deadline), fst s, sub_notify_all (on_sub (ungrant owner) l'))
        | (Inr True, l') \<Rightarrow> (case register_with_parent owner p (fst s, l') of
            (Inl e, s') \<Rightarrow> (Inl e, s') | (Inr _, s') \<Rightarrow> (Inr (Sub_granted p), s'))))"

definition sub_round ::
  "string \<Rightarrow> UtcTimestamp option \<Rightarrow> UtcTimestamp \<Rightarrow> UtcTimestamp \<Rightarrow> limiters \<times> sub_limiter \<Rightarrow>
     sub_acquisition capacity_result \<times> limiters \<times> sub_limiter" where
  "sub_round owner deadline now1 now2 s =
     (let finish = (\<lambda>(answer, parent, l). (answer, parent, sub_dequeue owner l)) in
      if sub_closed (snd s)
      then finish (Inl (CapacityClosedError ''subordinate capacity limiter closed while waiting''), s)
      else if (case deadline of None \<Rightarrow> False | Some d \<Rightarrow> now1 \<ge> d)
      then finish (Inl (CapacityTimeoutError ''subordinate wait deadline elapsed before capacity became available''), s)
      else if may_grant (sub_ledger (snd s)) owner then finish (grant_checked owner deadline now2 s)
      else case deadline of
        None \<Rightarrow> finish (Inl (CapacityTimeoutError ''subordinate capacity is saturated and no wait deadline was given''), s)
      | Some d \<Rightarrow> (Inr Sub_waiting, fst s,
          (snd s)\<lparr>sub_asleep := AList.update owner \<lparr>sub_deadline = d, sub_notified = False\<rparr> (sub_asleep (snd s))\<rparr>))"

definition validate_parent_triple :: "string \<Rightarrow> CapacityPermit list \<Rightarrow> unit capacity_result" where
  "validate_parent_triple owner parent =
     bind_result (invalid_capacity (length parent = 3)
       ''scheduled-work parent evidence must carry exactly three permits'') (\<lambda>_.
     check_all (\<lambda>(entry, expected).
       bind_result (require (permit_category entry = expected)
         (CapacityOrderError ''parent evidence must be ordered global, strategy, then node'')) (\<lambda>_.
       require (permit_owner entry = owner)
         (CapacityOwnershipError ''parent evidence permits must belong to the acquiring owner'')))
       (zip parent SCHEDULED_CATEGORIES))"

definition sub_admission :: "string \<Rightarrow> limiters \<times> sub_limiter \<Rightarrow> unit capacity_result" where
  "sub_admission owner s =
     bind_result (require (\<not> sub_closed (snd s)) (CapacityClosedError ''subordinate capacity limiter is closed'')) (\<lambda>_.
     bind_result (parent_holds owner (fst s)) (\<lambda>holds.
     bind_result (require holds
       (CapacityOwnershipError ''subordinate capacity requires a held scheduled-work reservation'')) (\<lambda>_.
     require (\<not> (ledger_holds (sub_ledger (snd s)) owner \<or> has_waiter (sub_ledger (snd s)) owner))
       (CapacityOwnershipError ''owner key already holds or awaits subordinate capacity''))))"

definition sub_acquire ::
  "string \<Rightarrow> CapacityPermit list \<Rightarrow> UtcTimestamp option \<Rightarrow> UtcTimestamp \<Rightarrow> UtcTimestamp \<Rightarrow> UtcTimestamp \<Rightarrow>
     limiters \<times> sub_limiter \<Rightarrow> sub_acquisition capacity_result \<times> limiters \<times> sub_limiter" where
  "sub_acquire owner parent deadline now1 now2 now3 s =
     (case
        bind_result (validate_owner_key owner ''acquisition owner'') (\<lambda>_.
        bind_result (validate_parent_triple owner parent) (\<lambda>_.
        bind_result (sub_admission owner s) (\<lambda>_.
        invalid_capacity (case deadline of None \<Rightarrow> True | Some d \<Rightarrow> \<not> d - now1 > MAX_WAIT_MICROSECONDS)
          ''wait deadline exceeds the maximum bounded wait'')))
      of Inl e \<Rightarrow> (Inl e, s)
       | Inr _ \<Rightarrow> sub_round owner deadline now2 now3 (fst s, on_sub (enqueue owner) (snd s)))"

definition sub_resume ::
  "string \<Rightarrow> bool \<Rightarrow> UtcTimestamp \<Rightarrow> UtcTimestamp \<Rightarrow> limiters \<times> sub_limiter \<Rightarrow>
     sub_acquisition capacity_result \<times> limiters \<times> sub_limiter" where
  "sub_resume owner timed_out now1 now2 s =
     (case map_of (sub_asleep (snd s)) owner of
        None \<Rightarrow> (Inr Sub_waiting, s)
      | Some w \<Rightarrow> if sub_notified w \<or> timed_out then sub_round owner (Some (sub_deadline w)) now1 now2 s
                  else (Inr Sub_waiting, s))"

definition sub_try_acquire ::
  "string \<Rightarrow> UtcTimestamp \<Rightarrow> limiters \<times> sub_limiter \<Rightarrow> sub_acquisition capacity_result \<times> limiters \<times> sub_limiter" where
  "sub_try_acquire owner now s =
     (case bind_result (validate_owner_key owner ''acquisition owner'') (\<lambda>_. sub_admission owner s) of
        Inl e \<Rightarrow> (Inl e, s)
      | Inr _ \<Rightarrow>
          if \<not> may_grant (sub_ledger (snd s)) owner then (Inr Sub_refused, s)
          else case take_token now (snd s) of
            (Inl e, l) \<Rightarrow> (Inl e, fst s, l)
          | (Inr False, l) \<Rightarrow> (Inr Sub_refused, fst s, l)
          | (Inr True, l) \<Rightarrow> (case granted_permit owner (sub_ledger l) of
              Inl e \<Rightarrow> (Inl e, fst s, on_sub (ledger_grant owner) l)
            | Inr p \<Rightarrow> (case register_with_parent owner p (fst s, on_sub (ledger_grant owner) l) of
                (Inl e, s') \<Rightarrow> (Inl e, s') | (Inr _, s') \<Rightarrow> (Inr (Sub_granted p), s'))))"

definition sub_release :: "CapacityPermit \<Rightarrow> limiters \<times> sub_limiter \<Rightarrow> unit capacity_result \<times> limiters \<times> sub_limiter" where
  "sub_release p s =
     (case
        bind_result (require (permit_category p = sub_category (snd s))
          (CapacityOwnershipError ''permit belongs to a different capacity category'')) (\<lambda>_.
        require (map_of (held (sub_ledger (snd s))) (permit_owner p) = Some (permit_slot p))
          (CapacityOwnershipError ''permit is not currently held at this subordinate limiter''))
      of Inl e \<Rightarrow> (Inl e, s)
       | Inr _ \<Rightarrow> (case unregister_subordinate (permit_owner p) p (fst s) of
           (Inl e, parent) \<Rightarrow> (Inl e, parent, snd s)
         | (Inr _, parent) \<Rightarrow> (Inr (), parent, sub_notify_all (on_sub (ledger_release (permit_owner p)) (snd s)))))"

definition sub_close :: "sub_limiter \<Rightarrow> sub_limiter" where
  "sub_close l = (if sub_closed l then l else sub_notify_all (l\<lparr>sub_closed := True\<rparr>))"

definition sub_snapshot :: "sub_limiter \<Rightarrow> CapacitySnapshot capacity_result" where
  "sub_snapshot l = ledger_snapshot (sub_ledger l)"

end
