(* ===== verification/Capacity_Facts.thy ===== *)
theory Capacity_Facts
  imports Capacity
begin

text \<open>
  The invariant of a capacity ledger and of the coordinator of scheduled work: slots are neither lost nor doubled, who
  holds a level holds the levels before it, and the queues of all levels are one queue of the sleeping calls.
\<close>

subsection \<open>Ledgers\<close>

definition ledger_ok :: "ledger \<Rightarrow> bool" where
  "ledger_ok l \<longleftrightarrow>
     well_keyed (held l) \<and> distinct (map snd (held l)) \<and> set (map snd (held l)) \<inter> free_slots l = {} \<and>
     set (map snd (held l)) \<union> free_slots l = {1..l_limit l} \<and>
     length (held l) \<le> max_observed_in_use l \<and> max_observed_in_use l \<le> l_limit l \<and> distinct (waiters l) \<and>
     MIN_PERMIT_LIMIT \<le> l_limit l \<and> l_limit l \<le> MAX_CAPTURED_LIMIT"

lemma update_absent: "k \<notin> set (keys d) \<Longrightarrow> AList.update k v d = d @ [(k, v)]"
  by (induction d) auto

lemma keys_delete: "keys (AList.delete k d) = filter (\<lambda>j. j \<noteq> k) (keys d)"
  by (induction d) (auto simp: AList.delete_eq)

lemma ledger_ok_length: "ledger_ok l \<Longrightarrow> length (held l) \<le> l_limit l"
  by (simp add: ledger_ok_def)

lemma new_ledger_ok:
  "MIN_PERMIT_LIMIT \<le> limit \<Longrightarrow> limit \<le> MAX_CAPTURED_LIMIT \<Longrightarrow> ledger_ok (new_ledger c limit)"
  by (auto simp: ledger_ok_def new_ledger_def)

lemma ledger_simps [simp]:
  "l_category (enqueue o1 l) = l_category l" "l_category (dequeue o1 l) = l_category l"
  "l_category (ledger_grant o1 l) = l_category l" "l_category (ledger_release o1 l) = l_category l"
  "held (enqueue o1 l) = held l" "held (dequeue o1 l) = held l"
  "waiters (enqueue o1 l) = waiters l @ [o1]" "waiters (dequeue o1 l) = remove1 o1 (waiters l)"
  "waiters (ledger_grant o1 l) = remove1 o1 (waiters l)" "waiters (ledger_release o1 l) = remove1 o1 (waiters l)"
  "held (ledger_release o1 l) = AList.delete o1 (held l)"
  "held (ledger_grant o1 l) = AList.update o1 (next_slot l) (held l)"
  "free_slots (enqueue o1 l) = free_slots l" "free_slots (dequeue o1 l) = free_slots l"
  "l_limit (enqueue o1 l) = l_limit l" "l_limit (dequeue o1 l) = l_limit l"
  by (simp_all add: enqueue_def dequeue_def ledger_grant_def ledger_release_def ungrant_def Let_def)

lemma ledger_holds_simps [simp]:
  "ledger_holds (enqueue o1 l) q = ledger_holds l q" "ledger_holds (dequeue o1 l) q = ledger_holds l q"
  "ledger_holds (ledger_grant o1 l) q \<longleftrightarrow> q = o1 \<or> ledger_holds l q"
  "ledger_holds (ledger_release o1 l) q \<longleftrightarrow> q \<noteq> o1 \<and> ledger_holds l q"
  by (auto simp: ledger_holds_def dict_simps simp del: set_map)

lemma ledger_ok_enqueue: "ledger_ok l \<Longrightarrow> o1 \<notin> set (waiters l) \<Longrightarrow> ledger_ok (enqueue o1 l)"
  by (simp add: ledger_ok_def enqueue_def)

lemma ledger_ok_dequeue: "ledger_ok l \<Longrightarrow> ledger_ok (dequeue o1 l)"
  by (simp add: ledger_ok_def dequeue_def)

lemma next_slot:
  assumes "ledger_ok l" "free_slots l \<noteq> {}"
  shows "next_slot l \<in> free_slots l" "1 \<le> next_slot l" "next_slot l \<le> l_limit l"
proof -
  have "finite (free_slots l)" using assms(1) by (metis ledger_ok_def finite_Un finite_atLeastAtMost)
  then show *: "next_slot l \<in> free_slots l" using assms(2) by (simp add: next_slot_def)
  then have "next_slot l \<in> {1..l_limit l}" using assms(1) unfolding ledger_ok_def by blast
  then show "1 \<le> next_slot l" "next_slot l \<le> l_limit l" by simp_all
qed

lemma card_slots:
  assumes "ledger_ok l"
  shows "length (held l) + card (free_slots l) = l_limit l"
proof -
  have "finite (free_slots l)" using assms by (metis ledger_ok_def finite_Un finite_atLeastAtMost)
  then have "card (set (map snd (held l)) \<union> free_slots l) = card (set (map snd (held l))) + card (free_slots l)"
    using assms by (intro card_Un_disjoint) (simp_all add: ledger_ok_def)
  moreover have "card (set (map snd (held l))) = length (held l)"
    using assms distinct_card [of "map snd (held l)"] by (simp add: ledger_ok_def)
  moreover have "card (set (map snd (held l)) \<union> free_slots l) = l_limit l" using assms by (simp add: ledger_ok_def)
  ultimately show ?thesis by simp
qed

lemma ledger_ok_grant:
  assumes ok: "ledger_ok l" and free: "free_slots l \<noteq> {}" and new: "\<not> ledger_holds l o1"
  shows "ledger_ok (ledger_grant o1 l)"
proof -
  have h: "AList.update o1 (next_slot l) (held l) = held l @ [(o1, next_slot l)]"
    using new by (intro update_absent) (simp add: ledger_holds_def)
  note n = next_slot [OF ok free]
  have fin: "finite (free_slots l)" using ok by (metis ledger_ok_def finite_Un finite_atLeastAtMost)
  then have "0 < card (free_slots l)" using free by (simp add: card_gt_0_iff)
  then have len: "Suc (length (held l)) \<le> l_limit l" using card_slots [OF ok] by simp
  have slots: "snd ` set (held l) \<union> free_slots l = {1..l_limit l}" "snd ` set (held l) \<inter> free_slots l = {}"
    using ok by (simp_all add: ledger_ok_def)
  have "insert (next_slot l) (snd ` set (held l)) \<union> (free_slots l - {next_slot l}) = {1..l_limit l}"
    using slots(1) n(1) by blast
  moreover have "next_slot l \<notin> snd ` set (held l)" using slots(2) n(1) by blast
  moreover have "insert (next_slot l) (snd ` set (held l)) \<inter> (free_slots l - {next_slot l}) = {}" using slots(2) by blast
  moreover have "o1 \<notin> fst ` set (held l)" using new by (simp add: ledger_holds_def)
  ultimately show ?thesis
    using ok len by (simp add: ledger_ok_def ledger_grant_def Let_def h dequeue_def)
qed

lemma ledger_ok_release:
  assumes ok: "ledger_ok l" and holds: "ledger_holds l o1"
  shows "ledger_ok (ledger_release o1 l)"
proof -
  obtain v where v: "map_of (held l) o1 = Some v" using holds by (metis in_keys_iff_map_of ledger_holds_def not_None_eq)
  have d: "well_keyed (held l)" "distinct (map snd (held l))" using ok by (simp_all add: ledger_ok_def)
  have del: "AList.delete o1 (held l) = filter (\<lambda>p. snd p \<noteq> v) (held l)"
  proof -
    have iff: "fst p \<noteq> o1 \<longleftrightarrow> snd p \<noteq> v" if p: "p \<in> set (held l)" for p
    proof -
      have inj: "inj_on snd (set (held l))" using d(2) by (simp add: distinct_map)
      have "fst p = o1" if "snd p = v" using inj_onD [OF inj _ p map_of_SomeD [OF v]] that by simp
      moreover have "snd p = v" if "fst p = o1"
        using map_of_is_SomeI [OF d(1), of "fst p" "snd p"] p v that by (metis option.inject prod.collapse)
      ultimately show ?thesis by blast
    qed
    show ?thesis unfolding AList.delete_eq
    proof (intro filter_cong refl)
      fix p assume "p \<in> set (held l)"
      from iff [OF this] show "(case p of (k, _) \<Rightarrow> o1 \<noteq> k) = (snd p \<noteq> v)" by (cases p) auto
    qed
  qed
  have slots: "snd ` set (AList.delete o1 (held l)) = snd ` set (held l) - {v}" unfolding del by auto
  have "v \<in> snd ` set (held l)" using map_of_SomeD [OF v] by force
  moreover have "snd ` set (held l) \<union> free_slots l = {1..l_limit l}" "snd ` set (held l) \<inter> free_slots l = {}"
    using ok by (simp_all add: ledger_ok_def)
  ultimately have "snd ` set (AList.delete o1 (held l)) \<union> insert v (free_slots l) = {1..l_limit l}"
    and "snd ` set (AList.delete o1 (held l)) \<inter> insert v (free_slots l) = {}"
    unfolding slots by blast+
  moreover have "distinct (map snd (AList.delete o1 (held l)))" unfolding del using d(2) by (simp add: distinct_map_filter)
  moreover have "length (AList.delete o1 (held l)) \<le> length (held l)" by (rule length_delete_le)
  ultimately show ?thesis
    using ok v by (simp add: ledger_ok_def ledger_release_def ungrant_def dequeue_def well_keyed_delete del: set_map)
      (simp add: well_keyed_delete)
qed

lemma granted_permit_ok:
  assumes "ledger_ok l" "free_slots l \<noteq> {}" "validate_owner_key o1 ''permit owner'' = Inr ()"
    and "l_category l \<in> set (SCHEDULED_CATEGORIES @ SUBORDINATE_CATEGORIES)"
  shows "granted_permit o1 l =
    Inr \<lparr>permit_category = l_category l, permit_limit = l_limit l, permit_owner = o1, permit_slot = next_slot l\<rparr>"
  using assms next_slot [OF assms(1,2)]
  by (simp add: granted_permit_def make_CapacityPermit_def invalid_capacity_def ledger_ok_def captured_limit_def)

subsection \<open>Levels\<close>

definition levels :: "limiters \<Rightarrow> level set" where
  "levels s = insert Level_GLOBAL (insert Level_STRATEGY (Level_NODE ` set (keys (node_ledgers s))))"

fun level_category :: "level \<Rightarrow> string" where
  "level_category Level_GLOBAL = CAPACITY_CATEGORY_GLOBAL"
| "level_category Level_STRATEGY = CAPACITY_CATEGORY_STRATEGY"
| "level_category (Level_NODE n) = CAPACITY_CATEGORY_NODE"

definition holds_level :: "limiters \<Rightarrow> level \<Rightarrow> string \<Rightarrow> bool" where
  "holds_level s lv owner \<longleftrightarrow> ledger_holds (ledger_at lv s) owner"

text \<open>The sleeping calls that wait for a level, in the order they came.\<close>

definition sleeps_for :: "level \<Rightarrow> (string, sleeper) dict \<Rightarrow> string list" where
  "sleeps_for lv ws = keys (filter (\<lambda>(owner, w). lv \<in> {Level_GLOBAL, Level_STRATEGY, Level_NODE (sleeper_node w)}) ws)"

definition owner_key :: "string \<Rightarrow> bool" where
  "owner_key v \<longleftrightarrow> 1 \<le> length v \<and> length v \<le> MAX_OWNER_LENGTH \<and> list_all is_printable_ascii v"

lemma validate_owner_key_iff: "validate_owner_key v subject = Inr () \<longleftrightarrow> owner_key v"
  by (simp add: validate_owner_key_def owner_key_def invalid_capacity_def result_simps)

definition limiters_ok :: "limiters \<Rightarrow> bool" where
  "limiters_ok s \<longleftrightarrow>
     well_keyed (node_ledgers s) \<and> well_keyed (asleep s) \<and> well_keyed (subordinates s) \<and>
     (\<forall>lv \<in> levels s. ledger_ok (ledger_at lv s) \<and> l_category (ledger_at lv s) = level_category lv \<and>
        waiters (ledger_at lv s) = sleeps_for lv (asleep s)) \<and>
     (\<forall>(owner, w) \<in> set (asleep s). sleeper_node w \<in> set (keys (node_ledgers s)) \<and> owner_key owner \<and>
        \<not> holds_level s Level_GLOBAL owner) \<and>
     (\<forall>owner. holds_level s Level_STRATEGY owner \<longrightarrow> holds_level s Level_GLOBAL owner) \<and>
     (\<forall>n owner. Level_NODE n \<in> levels s \<longrightarrow> holds_level s (Level_NODE n) owner \<longrightarrow>
        holds_level s Level_STRATEGY owner \<and>
        (\<forall>m. Level_NODE m \<in> levels s \<longrightarrow> holds_level s (Level_NODE m) owner \<longrightarrow> m = n)) \<and>
     (\<forall>(owner, ps) \<in> set (subordinates s). ps \<noteq> {} \<and>
        (\<exists>n. Level_NODE n \<in> levels s \<and> holds_level s (Level_NODE n) owner))"

lemma keys_map_entry [simp]: "keys (AList.map_entry k f d) = keys d"
  by (induction d) auto

lemma on_ledger_fields [simp]:
  "asleep (on_ledger lv f s) = asleep s" "subordinates (on_ledger lv f s) = subordinates s"
  "limiters_closed (on_ledger lv f s) = limiters_closed s" "keys (node_ledgers (on_ledger lv f s)) = keys (node_ledgers s)"
  "levels (on_ledger lv f s) = levels s"
  by (cases lv; simp add: levels_def del: set_map)+

lemma ledger_at_on_ledger [simp]:
  "lv' \<in> levels s \<Longrightarrow> ledger_at lv (on_ledger lv' f s) = (if lv = lv' then f (ledger_at lv s) else ledger_at lv s)"
proof -
  assume lv': "lv' \<in> levels s"
  have "map_of (node_ledgers s) n \<noteq> None" if "lv' = Level_NODE n" for n
    using that lv' by (auto simp: levels_def in_keys_iff_map_of simp del: set_map)
  then show ?thesis by (cases lv; cases lv') (auto simp: AList.map_of_map_entry split: option.splits)
qed

lemma ledger_at_asleep [simp]: "ledger_at lv (s\<lparr>asleep := ws\<rparr>) = ledger_at lv s" "levels (s\<lparr>asleep := ws\<rparr>) = levels s"
  by (cases lv; simp) (simp add: levels_def)

lemma ledger_at_subordinates [simp]:
  "ledger_at lv (s\<lparr>subordinates := d\<rparr>) = ledger_at lv s" "levels (s\<lparr>subordinates := d\<rparr>) = levels s"
  by (cases lv; simp) (simp add: levels_def)

lemma ledger_at_closed [simp]:
  "ledger_at lv (s\<lparr>limiters_closed := c\<rparr>) = ledger_at lv s" "levels (s\<lparr>limiters_closed := c\<rparr>) = levels s"
  by (cases lv; simp) (simp add: levels_def)

declare ledger_at.simps [simp del] on_ledger.simps [simp del]

lemma fixed_levels [simp]: "Level_GLOBAL \<in> levels s" "Level_STRATEGY \<in> levels s"
  by (simp_all add: levels_def)

lemma node_level_iff: "Level_NODE n \<in> levels s \<longleftrightarrow> n \<in> set (keys (node_ledgers s))"
  by (auto simp: levels_def)

lemma any_node_holds_iff:
  assumes "well_keyed (node_ledgers s)"
  shows "any_node_holds s owner \<longleftrightarrow> (\<exists>n. Level_NODE n \<in> levels s \<and> holds_level s (Level_NODE n) owner)"
proof
  assume "any_node_holds s owner"
  then obtain n l where "(n, l) \<in> set (node_ledgers s)" "ledger_holds l owner" by (auto simp: any_node_holds_def list_ex_iff)
  then show "\<exists>n. Level_NODE n \<in> levels s \<and> holds_level s (Level_NODE n) owner"
    using assms by (intro exI [of _ n]) (force simp: holds_level_def node_level_iff ledger_at.simps)
next
  assume "\<exists>n. Level_NODE n \<in> levels s \<and> holds_level s (Level_NODE n) owner"
  then obtain n where n: "n \<in> set (keys (node_ledgers s))" "ledger_holds (the (map_of (node_ledgers s) n)) owner"
    by (auto simp: holds_level_def node_level_iff ledger_at.simps simp del: set_map)
  then obtain l where "map_of (node_ledgers s) n = Some l" by (metis in_keys_iff_map_of not_None_eq)
  then show "any_node_holds s owner" using n(2) map_of_SomeD by (force simp: any_node_holds_def list_ex_iff)
qed

text \<open>Operations on the three levels of one admission.\<close>

definition on_three :: "string \<Rightarrow> (ledger \<Rightarrow> ledger) \<Rightarrow> limiters \<Rightarrow> limiters" where
  "on_three node f s = on_ledger (Level_NODE node) f (on_ledger Level_STRATEGY f (on_ledger Level_GLOBAL f s))"

definition three :: "string \<Rightarrow> level set" where "three node = {Level_GLOBAL, Level_STRATEGY, Level_NODE node}"

lemma on_three_simps [simp]:
  "asleep (on_three n f s) = asleep s" "subordinates (on_three n f s) = subordinates s"
  "limiters_closed (on_three n f s) = limiters_closed s" "keys (node_ledgers (on_three n f s)) = keys (node_ledgers s)"
  "levels (on_three n f s) = levels s"
  by (simp_all only: on_three_def on_ledger_fields)

lemma ledger_at_on_three [simp]:
  "Level_NODE n \<in> levels s \<Longrightarrow>
     ledger_at lv (on_three n f s) = (if lv \<in> three n then f (ledger_at lv s) else ledger_at lv s)"
  by (simp add: on_three_def three_def)

lemma well_keyed_asleep: "well_keyed ws \<Longrightarrow> distinct (sleeps_for lv ws)"
  by (simp add: sleeps_for_def distinct_map_filter)

lemma in_sleeps_for: "owner \<in> set (sleeps_for lv ws) \<Longrightarrow> owner \<in> set (keys ws)"
  by (auto simp: sleeps_for_def)

lemma sleeps_for_delete: "sleeps_for lv (AList.delete k ws) = filter (\<lambda>j. j \<noteq> k) (sleeps_for lv ws)"
  by (induction ws) (auto simp: sleeps_for_def AList.delete_eq)

lemma sleeps_for_notified [simp]:
  "sleeps_for lv (map (\<lambda>(owner, w). (owner, w\<lparr>notified := True\<rparr>)) ws) = sleeps_for lv ws"
  by (induction ws) (auto simp: sleeps_for_def)

lemma limiters_okD:
  assumes "limiters_ok s"
  shows "well_keyed (node_ledgers s)" "well_keyed (asleep s)" "well_keyed (subordinates s)"
    "lv \<in> levels s \<Longrightarrow> ledger_ok (ledger_at lv s)" "lv \<in> levels s \<Longrightarrow> l_category (ledger_at lv s) = level_category lv"
    "lv \<in> levels s \<Longrightarrow> waiters (ledger_at lv s) = sleeps_for lv (asleep s)"
    "map_of (asleep s) owner = Some w \<Longrightarrow> Level_NODE (sleeper_node w) \<in> levels s \<and> owner_key owner"
    "owner \<in> set (keys (asleep s)) \<Longrightarrow> \<not> holds_level s Level_GLOBAL owner"
    "holds_level s Level_STRATEGY owner \<Longrightarrow> holds_level s Level_GLOBAL owner"
    "Level_NODE n \<in> levels s \<Longrightarrow> holds_level s (Level_NODE n) owner \<Longrightarrow> holds_level s Level_STRATEGY owner"
    "Level_NODE n \<in> levels s \<Longrightarrow> holds_level s (Level_NODE n) owner \<Longrightarrow>
       Level_NODE m \<in> levels s \<Longrightarrow> holds_level s (Level_NODE m) owner \<Longrightarrow> m = n"
    "(owner, ps) \<in> set (subordinates s) \<Longrightarrow> ps \<noteq> {} \<and> (\<exists>n. Level_NODE n \<in> levels s \<and> holds_level s (Level_NODE n) owner)"
proof -
  show "well_keyed (node_ledgers s)" "well_keyed (asleep s)" "well_keyed (subordinates s)"
    using assms unfolding limiters_ok_def by blast+
  show "lv \<in> levels s \<Longrightarrow> ledger_ok (ledger_at lv s)" "lv \<in> levels s \<Longrightarrow> l_category (ledger_at lv s) = level_category lv"
    "lv \<in> levels s \<Longrightarrow> waiters (ledger_at lv s) = sleeps_for lv (asleep s)"
    using assms unfolding limiters_ok_def by blast+
  have *: "\<forall>(owner, w) \<in> set (asleep s). sleeper_node w \<in> set (keys (node_ledgers s)) \<and> owner_key owner \<and>
        \<not> holds_level s Level_GLOBAL owner"
    using assms unfolding limiters_ok_def by blast
  show "map_of (asleep s) owner = Some w \<Longrightarrow> Level_NODE (sleeper_node w) \<in> levels s \<and> owner_key owner"
    using * unfolding node_level_iff by (auto dest!: map_of_SomeD)
  show "owner \<in> set (keys (asleep s)) \<Longrightarrow> \<not> holds_level s Level_GLOBAL owner" using * by auto
  show "holds_level s Level_STRATEGY owner \<Longrightarrow> holds_level s Level_GLOBAL owner"
    "Level_NODE n \<in> levels s \<Longrightarrow> holds_level s (Level_NODE n) owner \<Longrightarrow> holds_level s Level_STRATEGY owner"
    "Level_NODE n \<in> levels s \<Longrightarrow> holds_level s (Level_NODE n) owner \<Longrightarrow>
       Level_NODE m \<in> levels s \<Longrightarrow> holds_level s (Level_NODE m) owner \<Longrightarrow> m = n"
    "(owner, ps) \<in> set (subordinates s) \<Longrightarrow> ps \<noteq> {} \<and> (\<exists>n. Level_NODE n \<in> levels s \<and> holds_level s (Level_NODE n) owner)"
    using assms unfolding limiters_ok_def by blast+
qed

subsection \<open>The invariant is kept\<close>

lemma dequeue_all_three: "dequeue_all o1 n s = on_three n (dequeue o1) (s\<lparr>asleep := AList.delete o1 (asleep s)\<rparr>)"
  by (simp add: dequeue_all_def on_three_def)

lemma enqueue_all_three: "enqueue_all o1 n s = on_three n (enqueue o1) s"
  by (simp add: enqueue_all_def on_three_def)

lemma node_ledgers_asleep [simp]: "keys (node_ledgers (s\<lparr>asleep := ws\<rparr>)) = keys (node_ledgers s)" by simp

lemma sleeps_for_other:
  assumes "well_keyed ws" "map_of ws o1 = Some w" "lv \<notin> three (sleeper_node w)"
  shows "o1 \<notin> set (sleeps_for lv ws)"
  using assms by (auto simp: sleeps_for_def three_def map_of_eq_Some_iff dest: eq_key_imp_eq_value)

lemma sleeps_for_own:
  assumes "map_of ws o1 = Some w" "lv \<in> three (sleeper_node w)"
  shows "o1 \<in> set (sleeps_for lv ws)"
  using map_of_SomeD [OF assms(1)] assms(2) by (force simp: sleeps_for_def three_def)

text \<open>A sleeping call leaves the queues, with or without the slots.\<close>

lemma leave_queues:
  assumes ok: "limiters_ok s" and w: "map_of (asleep s) o1 = Some w" and f: "f = id \<or>
      f = ledger_grant o1 \<and> (\<forall>lv \<in> three (sleeper_node w). free_slots (ledger_at lv s) \<noteq> {})"
  shows "limiters_ok (dequeue_all o1 (sleeper_node w) (on_three (sleeper_node w) f s))"
    and "\<And>lv q. lv \<in> levels s \<Longrightarrow> holds_level (dequeue_all o1 (sleeper_node w) (on_three (sleeper_node w) f s)) lv q \<longleftrightarrow>
      f \<noteq> id \<and> q = o1 \<and> lv \<in> three (sleeper_node w) \<or> holds_level s lv q"
proof -
  let ?n = "sleeper_node w" and ?s = "dequeue_all o1 (sleeper_node w) (on_three (sleeper_node w) f s)"
  note d = limiters_okD [OF ok]
  have n: "Level_NODE ?n \<in> levels s" using d(7) [OF w] by blast
  have at: "ledger_at lv ?s = (if lv \<in> three ?n then dequeue o1 (f (ledger_at lv s)) else ledger_at lv s)" for lv
    using n by (simp add: dequeue_all_three)
  have sleeping: "asleep ?s = AList.delete o1 (asleep s)" by (simp add: dequeue_all_three)
  have own: "o1 \<in> set (keys (asleep s))" using w by (rule map_of_eq_Some_in_keys)
  have sub: "three ?n \<subseteq> levels s" using n by (simp add: three_def)
  have fid: "f = id \<longleftrightarrow> \<not> (f = ledger_grant o1)"
  proof
    assume "f = id"
    then show "\<not> f = ledger_grant o1"
      by (metis append_Cons append_Nil id_apply ledger_holds_simps(3) ledger_holds_def list.simps(8) list.set(1) empty_iff ledger.select_convs(3))
  qed (use f in blast)
  show holds: "holds_level ?s lv q \<longleftrightarrow> f \<noteq> id \<and> q = o1 \<and> lv \<in> three ?n \<or> holds_level s lv q" if "lv \<in> levels s" for lv q
    using fid by (auto simp: holds_level_def at)
  have none: "\<not> holds_level s lv o1" if "lv \<in> levels s" for lv
    using d(8) [OF own] d(9,10) that by (cases lv) blast+
  have led: "ledger_ok (ledger_at lv ?s) \<and> l_category (ledger_at lv ?s) = level_category lv \<and>
      waiters (ledger_at lv ?s) = sleeps_for lv (asleep ?s)" if lv: "lv \<in> levels s" for lv
  proof -
    have "ledger_ok (f (ledger_at lv s))" if "lv \<in> three ?n"
      using f that d(4) [OF lv] none [OF lv] by (auto intro: ledger_ok_grant simp: holds_level_def)
    moreover have "l_category (f (ledger_at lv s)) = l_category (ledger_at lv s)" using f by auto
    moreover have "remove1 o1 (waiters (f (ledger_at lv s))) = filter (\<lambda>j. j \<noteq> o1) (waiters (ledger_at lv s))"
      using f well_keyed_asleep [OF d(2), of lv] d(6) [OF lv] by (auto simp: distinct_remove1_removeAll removeAll_filter_not_eq eq_commute [of o1])
    moreover have "filter (\<lambda>j. j \<noteq> o1) (sleeps_for lv (asleep s)) = sleeps_for lv (asleep s)" if "lv \<notin> three ?n"
      using sleeps_for_other [OF d(2) w that] by (simp add: filter_id_conv) metis
    ultimately show ?thesis
      using d(4-6) [OF lv] by (simp add: at sleeping sleeps_for_delete ledger_ok_dequeue)
  qed
  show "limiters_ok ?s"
    unfolding limiters_ok_def
  proof (intro conjI)
    show "well_keyed (node_ledgers ?s)" "well_keyed (asleep ?s)" "well_keyed (subordinates ?s)"
      using d(1-3) by (simp_all add: dequeue_all_three well_keyed_delete del: set_map)
    have lev: "levels ?s = levels s" by (simp add: dequeue_all_three)
    show "\<forall>lv\<in>levels ?s. ledger_ok (ledger_at lv ?s) \<and> l_category (ledger_at lv ?s) = level_category lv \<and>
        waiters (ledger_at lv ?s) = sleeps_for lv (asleep ?s)"
      using led lev by blast
    show "\<forall>(owner, v)\<in>set (asleep ?s). sleeper_node v \<in> set (keys (node_ledgers ?s)) \<and> owner_key owner \<and>
        \<not> holds_level ?s Level_GLOBAL owner"
    proof (clarify, intro conjI)
      fix q v assume "(q, v) \<in> set (asleep ?s)"
      then have q: "(q, v) \<in> set (asleep s)" "q \<noteq> o1" by (auto simp: dequeue_all_three AList.delete_eq)
      then have m: "map_of (asleep s) q = Some v" using d(2) by (simp add: map_of_eq_Some_iff)
      show "sleeper_node v \<in> set (keys (node_ledgers ?s))" "owner_key q"
        using d(7) [OF m] by (simp_all add: node_level_iff dequeue_all_three del: set_map)
      show "\<not> holds_level ?s Level_GLOBAL q"
        using d(8) [of q] map_of_eq_Some_in_keys [OF m] q(2) holds [OF fixed_levels(1)] by blast
    qed
    show "\<forall>owner. holds_level ?s Level_STRATEGY owner \<longrightarrow> holds_level ?s Level_GLOBAL owner"
      using d(9) holds by (simp add: three_def)
    show "\<forall>m owner. Level_NODE m \<in> levels ?s \<longrightarrow> holds_level ?s (Level_NODE m) owner \<longrightarrow>
        holds_level ?s Level_STRATEGY owner \<and>
        (\<forall>k. Level_NODE k \<in> levels ?s \<longrightarrow> holds_level ?s (Level_NODE k) owner \<longrightarrow> k = m)"
      unfolding lev using d(10,11) holds none by (simp add: three_def)
    show "\<forall>(owner, ps)\<in>set (subordinates ?s). ps \<noteq> {} \<and>
        (\<exists>m. Level_NODE m \<in> levels ?s \<and> holds_level ?s (Level_NODE m) owner)"
      unfolding lev using d(12) holds by (simp add: dequeue_all_three) blast
  qed
qed

text \<open>A state that differs in its ledgers, and in which sleepers are notified.\<close>

lemma limiters_ok_ledgers:
  assumes ok: "limiters_ok s"
    and same: "levels s' = levels s" "keys (node_ledgers s') = keys (node_ledgers s)" "subordinates s' = subordinates s"
      "keys (asleep s') = keys (asleep s)" "map (sleeper_node \<circ> snd) (asleep s') = map (sleeper_node \<circ> snd) (asleep s)"
    and ledgers: "\<And>lv. lv \<in> levels s \<Longrightarrow> ledger_ok (ledger_at lv s') \<and>
      l_category (ledger_at lv s') = l_category (ledger_at lv s) \<and> waiters (ledger_at lv s') = waiters (ledger_at lv s)"
    and idle: "\<And>q. q \<in> set (keys (asleep s)) \<Longrightarrow> \<not> holds_level s' Level_GLOBAL q"
    and nested: "\<And>q. holds_level s' Level_STRATEGY q \<Longrightarrow> holds_level s' Level_GLOBAL q"
      "\<And>n q. Level_NODE n \<in> levels s \<Longrightarrow> holds_level s' (Level_NODE n) q \<Longrightarrow> holds_level s' Level_STRATEGY q \<and>
        (\<forall>m. Level_NODE m \<in> levels s \<longrightarrow> holds_level s' (Level_NODE m) q \<longrightarrow> m = n)"
    and subs: "\<And>q ps. (q, ps) \<in> set (subordinates s) \<Longrightarrow> \<exists>n. Level_NODE n \<in> levels s \<and> holds_level s' (Level_NODE n) q"
  shows "limiters_ok s'"
proof -
  note d = limiters_okD [OF ok]
  have pairs: "map (\<lambda>(q, w). (q, sleeper_node w)) (asleep s') = map (\<lambda>(q, w). (q, sleeper_node w)) (asleep s)"
  proof -
    have z: "map (\<lambda>(q, w). (q, sleeper_node w)) ws = zip (keys ws) (map (sleeper_node \<circ> snd) ws)" for ws
      by (induction ws) auto
    show ?thesis unfolding z same(4,5) ..
  qed
  have sleeps: "sleeps_for lv (asleep s') = sleeps_for lv (asleep s)" for lv
  proof -
    have z: "sleeps_for lv ws =
        keys (filter (\<lambda>(q, n). lv \<in> {Level_GLOBAL, Level_STRATEGY, Level_NODE n}) (map (\<lambda>(q, w). (q, sleeper_node w)) ws))" for ws
      by (induction ws) (auto simp: sleeps_for_def)
    show ?thesis unfolding z pairs ..
  qed
  have sleeper: "sleeper_node w \<in> set (keys (node_ledgers s')) \<and> owner_key q \<and> \<not> holds_level s' Level_GLOBAL q"
    if "(q, w) \<in> set (asleep s')" for q w
  proof -
    have "(q, sleeper_node w) \<in> set (map (\<lambda>(q, w). (q, sleeper_node w)) (asleep s'))" using that by force
    then obtain v where v: "(q, v) \<in> set (asleep s)" "sleeper_node v = sleeper_node w" unfolding pairs by auto
    then have m: "map_of (asleep s) q = Some v" using d(2) by (simp add: map_of_eq_Some_iff)
    show ?thesis using d(7) [OF m] v(2) idle [OF map_of_eq_Some_in_keys [OF m]] by (simp add: node_level_iff same(2))
  qed
  show ?thesis
    unfolding limiters_ok_def same(1) same(3)
  proof (intro conjI)
    show "well_keyed (node_ledgers s')" "well_keyed (asleep s')" "well_keyed (subordinates s)"
      using d(1-3) by (simp_all only: same)
    show "\<forall>lv\<in>levels s. ledger_ok (ledger_at lv s') \<and> l_category (ledger_at lv s') = level_category lv \<and>
        waiters (ledger_at lv s') = sleeps_for lv (asleep s')"
      using ledgers d(5,6) sleeps by simp
    show "\<forall>(owner, w)\<in>set (asleep s'). sleeper_node w \<in> set (keys (node_ledgers s')) \<and> owner_key owner \<and>
        \<not> holds_level s' Level_GLOBAL owner"
      using sleeper by blast
    show "\<forall>owner. holds_level s' Level_STRATEGY owner \<longrightarrow> holds_level s' Level_GLOBAL owner" using nested(1) by blast
    show "\<forall>n owner. Level_NODE n \<in> levels s \<longrightarrow> holds_level s' (Level_NODE n) owner \<longrightarrow>
        holds_level s' Level_STRATEGY owner \<and>
        (\<forall>m. Level_NODE m \<in> levels s \<longrightarrow> holds_level s' (Level_NODE m) owner \<longrightarrow> m = n)"
      using nested(2) by blast
    show "\<forall>(owner, ps)\<in>set (subordinates s). ps \<noteq> {} \<and>
        (\<exists>n. Level_NODE n \<in> levels s \<and> holds_level s' (Level_NODE n) owner)"
      using subs d(12) by blast
  qed
qed

lemma notify_all_simps [simp]:
  "ledger_at lv (notify_all s) = ledger_at lv s" "levels (notify_all s) = levels s"
  "keys (node_ledgers (notify_all s)) = keys (node_ledgers s)" "subordinates (notify_all s) = subordinates s"
  "keys (asleep (notify_all s)) = keys (asleep s)" "limiters_closed (notify_all s) = limiters_closed s"
  "map (sleeper_node \<circ> snd) (asleep (notify_all s)) = map (sleeper_node \<circ> snd) (asleep s)"
  by (auto simp: notify_all_def comp_def split_beta)

lemma released_ok:
  assumes ok: "limiters_ok s" and L: "L \<subseteq> levels s" "L \<noteq> {}" and holds: "\<And>lv. lv \<in> L \<Longrightarrow> holds_level s lv o1"
    and same: "levels s' = levels s" "keys (node_ledgers s') = keys (node_ledgers s)" "subordinates s' = subordinates s"
      "asleep s' = asleep s"
    and at: "\<And>lv. lv \<in> levels s \<Longrightarrow> ledger_at lv s' = (if lv \<in> L then ledger_release o1 (ledger_at lv s) else ledger_at lv s)"
    and order: "Level_GLOBAL \<in> L \<Longrightarrow> Level_STRATEGY \<in> L \<or> \<not> holds_level s Level_STRATEGY o1"
      "\<And>n. Level_STRATEGY \<in> L \<Longrightarrow> Level_NODE n \<in> levels s \<Longrightarrow> holds_level s (Level_NODE n) o1 \<Longrightarrow> Level_NODE n \<in> L"
    and subs: "require_no_subordinates s o1 = Inr ()"
  shows "limiters_ok (notify_all s')"
proof -
  note d = limiters_okD [OF ok]
  have glob: "holds_level s Level_GLOBAL o1"
  proof -
    obtain lv where "lv \<in> L" using L(2) by blast
    then show ?thesis using holds [of lv] L(1) d(9,10) by (cases lv) blast+
  qed
  then have awake: "o1 \<notin> set (keys (asleep s))" using d(8) by blast
  have h: "holds_level (notify_all s') lv q \<longleftrightarrow> holds_level s lv q \<and> (lv \<in> L \<longrightarrow> q \<noteq> o1)" if "lv \<in> levels s" for lv q
    using at [OF that] by (auto simp: holds_level_def)
  have none: "q \<noteq> o1" if "(q, ps) \<in> set (subordinates s)" for q ps
  proof
    assume "q = o1"
    then have "map_of (subordinates s) o1 = Some ps" using that d(3) by (simp add: map_of_eq_Some_iff)
    then show False using subs d(12) [OF that] by (simp add: require_no_subordinates_def require_def)
  qed
  show ?thesis
  proof (rule limiters_ok_ledgers [OF ok])
    fix lv assume lv: "lv \<in> levels s"
    have "o1 \<notin> set (waiters (ledger_at lv s))" using awake in_sleeps_for d(6) [OF lv] by metis
    then show "ledger_ok (ledger_at lv (notify_all s')) \<and> l_category (ledger_at lv (notify_all s')) = l_category (ledger_at lv s) \<and>
        waiters (ledger_at lv (notify_all s')) = waiters (ledger_at lv s)"
      using at [OF lv] d(4) [OF lv] holds [of lv] by (simp add: ledger_ok_release holds_level_def remove1_idem)
  next
    fix q ps assume "(q, ps) \<in> set (subordinates s)"
    then show "\<exists>n. Level_NODE n \<in> levels s \<and> holds_level (notify_all s') (Level_NODE n) q"
      using d(12) h none by blast
  next
    fix q assume "q \<in> set (keys (asleep s))"
    then show "\<not> holds_level (notify_all s') Level_GLOBAL q" using d(8) h [OF fixed_levels(1)] by blast
  next
    fix q assume "holds_level (notify_all s') Level_STRATEGY q"
    then show "holds_level (notify_all s') Level_GLOBAL q"
      using h [OF fixed_levels(1)] h [OF fixed_levels(2)] d(9) order(1) by blast
  next
    fix n q assume n: "Level_NODE n \<in> levels s" and q: "holds_level (notify_all s') (Level_NODE n) q"
    then have "holds_level s (Level_NODE n) q" "Level_NODE n \<in> L \<longrightarrow> q \<noteq> o1" using h by blast+
    then show "holds_level (notify_all s') Level_STRATEGY q \<and>
        (\<forall>m. Level_NODE m \<in> levels s \<longrightarrow> holds_level (notify_all s') (Level_NODE m) q \<longrightarrow> m = n)"
      using n h d(10,11) order(2) h [OF fixed_levels(2)] by blast
  qed (simp_all only: same notify_all_simps)
qed

end
