(* ===== verification/Capacity_Calls.thy ===== *)
theory Capacity_Calls
  imports Capacity_Facts
begin

text \<open>Every call on the coordinator keeps its invariant; what the calls answer.\<close>

subsection \<open>Calls\<close>

datatype limiter_op =
    Do_acquire string string "UtcTimestamp option" UtcTimestamp UtcTimestamp
  | Do_resume string bool UtcTimestamp
  | Do_release string string
  | Do_acquire_level string string "string option"
  | Do_release_level string string "string option"
  | Do_register string CapacityPermit
  | Do_unregister string CapacityPermit
  | Do_close

datatype limiter_answer = Acquired acquisition | One_permit CapacityPermit | Completed

definition answered :: "('a \<Rightarrow> limiter_answer) \<Rightarrow> 'a capacity_result \<times> limiters \<Rightarrow> limiter_answer capacity_result \<times> limiters" where
  "answered f r = (map_sum id f (fst r), snd r)"

fun limiter_call :: "limiter_op \<Rightarrow> limiters \<Rightarrow> limiter_answer capacity_result \<times> limiters" where
  "limiter_call (Do_acquire owner node deadline now1 now2) s = answered Acquired (limiters_acquire owner node deadline now1 now2 s)"
| "limiter_call (Do_resume owner timed_out now) s = answered Acquired (limiters_resume owner timed_out now s)"
| "limiter_call (Do_release owner node) s = answered (\<lambda>_. Completed) (release_reservation owner node s)"
| "limiter_call (Do_acquire_level category owner node) s = answered One_permit (acquire_level category owner node s)"
| "limiter_call (Do_release_level category owner node) s = answered (\<lambda>_. Completed) (release_level category owner node s)"
| "limiter_call (Do_register owner p) s = answered (\<lambda>_. Completed) (register_subordinate owner p s)"
| "limiter_call (Do_unregister owner p) s = answered (\<lambda>_. Completed) (unregister_subordinate owner p s)"
| "limiter_call Do_close s = (Inr Completed, limiters_close s)"

subsection \<open>The three grants\<close>

definition permit_for :: "string \<Rightarrow> level \<Rightarrow> limiters \<Rightarrow> CapacityPermit" where
  "permit_for owner lv s =
     \<lparr>permit_category = level_category lv, permit_limit = l_limit (ledger_at lv s), permit_owner = owner,
      permit_slot = next_slot (ledger_at lv s)\<rparr>"

lemma level_category_scheduled: "level_category lv \<in> set (SCHEDULED_CATEGORIES @ SUBORDINATE_CATEGORIES)"
  by (cases lv) (simp_all add: SCHEDULED_CATEGORIES_def)

lemma grant_level_ok:
  assumes ok: "ledger_ok (ledger_at lv s)" "l_category (ledger_at lv s) = level_category lv"
    and free: "free_slots (ledger_at lv s) \<noteq> {}" and key: "owner_key owner"
  shows "grant_level lv owner s = (Inr (permit_for owner lv s), on_ledger lv (ledger_grant owner) s)"
  using granted_permit_ok [OF ok(1) free] key ok(2) level_category_scheduled [of lv]
  by (simp add: grant_level_def permit_for_def validate_owner_key_iff)

lemma grant_all_ok:
  assumes ok: "\<And>lv. lv \<in> three n \<Longrightarrow> ledger_ok (ledger_at lv s) \<and> l_category (ledger_at lv s) = level_category lv"
    and n: "Level_NODE n \<in> levels s" and key: "owner_key owner"
    and free: "\<And>lv. lv \<in> three n \<Longrightarrow> free_slots (ledger_at lv s) \<noteq> {}"
  shows "grant_all owner n s =
    (Inr (Granted [permit_for owner Level_GLOBAL s, permit_for owner Level_STRATEGY s, permit_for owner (Level_NODE n) s]),
     on_three n (ledger_grant owner) s)"
proof -
  let ?s1 = "on_ledger Level_GLOBAL (ledger_grant owner) s" and ?s2 = "on_ledger Level_STRATEGY (ledger_grant owner)
    (on_ledger Level_GLOBAL (ledger_grant owner) s)"
  have 1: "grant_level Level_GLOBAL owner s = (Inr (permit_for owner Level_GLOBAL s), ?s1)"
    using ok [of Level_GLOBAL] free [of Level_GLOBAL] key by (intro grant_level_ok) (simp_all add: three_def)
  have 2: "grant_level Level_STRATEGY owner ?s1 = (Inr (permit_for owner Level_STRATEGY s), ?s2)"
  proof -
    have "permit_for owner Level_STRATEGY ?s1 = permit_for owner Level_STRATEGY s" by (simp add: permit_for_def)
    then show ?thesis
      using ok [of Level_STRATEGY] free [of Level_STRATEGY] key grant_level_ok [of Level_STRATEGY ?s1 owner]
      by (simp add: three_def)
  qed
  have 3: "grant_level (Level_NODE n) owner ?s2 = (Inr (permit_for owner (Level_NODE n) s), on_three n (ledger_grant owner) s)"
  proof -
    have "permit_for owner (Level_NODE n) ?s2 = permit_for owner (Level_NODE n) s" by (simp add: permit_for_def)
    then show ?thesis
      using ok [of "Level_NODE n"] n free [of "Level_NODE n"] key grant_level_ok [of "Level_NODE n" ?s2 owner]
      by (simp add: three_def on_three_def)
  qed
  show ?thesis by (simp add: grant_all_def 1 2 3)
qed

subsection \<open>One round\<close>

text \<open>A round of a call that stands in the queues: as if it were asleep already.\<close>

definition as_asleep :: "string \<Rightarrow> string \<Rightarrow> UtcTimestamp \<Rightarrow> limiters \<Rightarrow> limiters" where
  "as_asleep owner node d s =
     s\<lparr>asleep := AList.update owner \<lparr>sleeper_node = node, sleeper_deadline = d, notified = False\<rparr> (asleep s)\<rparr>"

lemma delete_update: "AList.delete k (AList.update k v d) = AList.delete k d"
  by (induction d) (auto simp: AList.delete_eq)

lemma on_ledger_asleep: "on_ledger lv f (s\<lparr>asleep := ws\<rparr>) = (on_ledger lv f s)\<lparr>asleep := ws\<rparr>"
  by (cases lv) (simp_all add: on_ledger.simps)

lemma on_three_asleep: "on_three n f (s\<lparr>asleep := ws\<rparr>) = (on_three n f s)\<lparr>asleep := ws\<rparr>"
  by (simp add: on_three_def on_ledger_asleep)

lemma dequeue_as_asleep:
  "dequeue_all owner n (on_three n f (as_asleep owner m d s)) = dequeue_all owner n (on_three n f s)"
  by (simp add: dequeue_all_three as_asleep_def on_three_asleep delete_update)

lemma on_three_id [simp]: "on_three n id s = s"
proof -
  have "AList.map_entry n id d = d" for d :: "(string, ledger) dict" by (induction d) auto
  then show ?thesis by (simp add: on_three_def on_ledger.simps)
qed

lemma queue_head:
  assumes ok: "limiters_ok s" and lv: "lv \<in> levels s" and grant: "may_grant (ledger_at lv s) owner"
  shows "free_slots (ledger_at lv s) \<noteq> {}" "sleeps_for lv (asleep s) \<noteq> [] \<Longrightarrow> hd (sleeps_for lv (asleep s)) = owner"
  using grant limiters_okD(6) [OF ok lv] by (auto simp: may_grant_def)

definition round_grants :: "string \<Rightarrow> string \<Rightarrow> limiters \<Rightarrow> bool" where
  "round_grants owner node s \<longleftrightarrow> (\<forall>lv \<in> three node. may_grant (ledger_at lv s) owner)"

lemma acquire_round_cases:
  assumes ok: "limiters_ok (as_asleep owner node d s)" and key: "owner_key owner"
  shows "acquire_round owner node deadline now s =
    (if limiters_closed s
     then (Inl (CapacityClosedError ''scheduled-work coordinator closed while waiting''), dequeue_all owner node s)
     else if (case deadline of None \<Rightarrow> False | Some d \<Rightarrow> now \<ge> d)
     then (Inl (CapacityTimeoutError ''scheduled-work wait deadline elapsed before capacity became available''), dequeue_all owner node s)
     else if round_grants owner node s
     then (Inr (Granted (map (\<lambda>lv. permit_for owner lv s) [Level_GLOBAL, Level_STRATEGY, Level_NODE node])),
           dequeue_all owner node (on_three node (ledger_grant owner) s))
     else case deadline of
       None \<Rightarrow> (Inl (CapacityTimeoutError ''scheduled-work capacity is saturated and no wait deadline was given''),
                dequeue_all owner node s)
     | Some d \<Rightarrow> (Inr Waiting, as_asleep owner node d s))"
proof (cases "round_grants owner node s")
  case True
  let ?a = "as_asleep owner node d s"
  have n: "Level_NODE node \<in> levels s"
    using limiters_okD(7) [OF ok, of owner] by (simp add: as_asleep_def dict_simps)
  have n3: "lv \<in> levels ?a" if "lv \<in> three node" for lv using n that by (auto simp: three_def as_asleep_def)
  have lev: "ledger_at lv ?a = ledger_at lv s" for lv by (simp add: as_asleep_def)
  have "grant_all owner node s = (Inr (Granted (map (\<lambda>lv. permit_for owner lv s) [Level_GLOBAL, Level_STRATEGY, Level_NODE node])),
      on_three node (ledger_grant owner) s)"
    using grant_all_ok [of node s owner] n key True limiters_okD(4,5) [OF ok n3] lev
    by (auto simp: round_grants_def may_grant_def)
  then show ?thesis
    using True by (auto simp: acquire_round_def round_grants_def three_def ledger_at.simps split: option.splits)
next
  case False
  then show ?thesis
    by (auto simp: acquire_round_def round_grants_def three_def as_asleep_def ledger_at.simps split: option.splits)
qed

lemma acquire_round_ok:
  assumes ok: "\<And>d. limiters_ok (as_asleep owner node d s)" and key: "owner_key owner"
  shows "limiters_ok (snd (acquire_round owner node deadline now s))"
proof -
  let ?a = "as_asleep owner node 0 s"
  have w: "map_of (asleep ?a) owner = Some \<lparr>sleeper_node = node, sleeper_deadline = 0, notified = False\<rparr>"
    by (simp add: as_asleep_def dict_simps)
  have lev: "ledger_at lv ?a = ledger_at lv s" for lv by (simp add: as_asleep_def)
  have left: "limiters_ok (dequeue_all owner node s)"
    using leave_queues(1) [OF ok w, of id] dequeue_as_asleep [of owner node id node 0 s] by simp
  have granted: "limiters_ok (dequeue_all owner node (on_three node (ledger_grant owner) s))" if "round_grants owner node s"
    using leave_queues(1) [OF ok w, of "ledger_grant owner"] that dequeue_as_asleep [of owner node "ledger_grant owner" node 0 s] lev
    by (auto simp: round_grants_def may_grant_def)
  show ?thesis
    unfolding acquire_round_cases [OF ok [of 0] key] using left granted ok by (auto split: option.splits)
qed

subsection \<open>Every call keeps the invariant\<close>

lemma sleeps_for_append:
  "sleeps_for lv (ws @ [(q, w)]) = sleeps_for lv ws @ (if lv \<in> three (sleeper_node w) then [q] else [])"
  by (auto simp: sleeps_for_def three_def)

lemma keys_asleep:
  assumes "limiters_ok s"
  shows "waiters (global_ledger s) = keys (asleep s)" "waiters (strategy_ledger s) = keys (asleep s)"
  using limiters_okD(6) [OF assms fixed_levels(1)] limiters_okD(6) [OF assms fixed_levels(2)]
  by (simp_all add: sleeps_for_def ledger_at.simps split_beta)

lemma join_queues:
  assumes ok: "limiters_ok s" and n: "Level_NODE node \<in> levels s" and key: "owner_key owner"
    and fresh: "owner \<notin> set (keys (asleep s))" "\<not> holds_level s Level_GLOBAL owner"
  shows "limiters_ok (as_asleep owner node d (enqueue_all owner node s))"
proof -
  let ?s = "as_asleep owner node d (enqueue_all owner node s)"
  let ?w = "\<lparr>sleeper_node = node, sleeper_deadline = d, notified = False\<rparr>"
  note o = limiters_okD [OF ok]
  have asleep: "asleep ?s = asleep s @ [(owner, ?w)]"
    using fresh(1) by (simp add: as_asleep_def enqueue_all_three update_absent)
  have lev: "levels ?s = levels s" by (simp add: as_asleep_def enqueue_all_three)
  have at: "ledger_at lv ?s = (if lv \<in> three node then enqueue owner (ledger_at lv s) else ledger_at lv s)" for lv
    using n by (simp add: as_asleep_def enqueue_all_three)
  have h: "holds_level ?s lv q = holds_level s lv q" for lv q by (simp add: holds_level_def at)
  have led: "ledger_ok (ledger_at lv ?s) \<and> l_category (ledger_at lv ?s) = level_category lv \<and>
      waiters (ledger_at lv ?s) = sleeps_for lv (asleep ?s)" if lv: "lv \<in> levels s" for lv
  proof -
    have "owner \<notin> set (waiters (ledger_at lv s))" using fresh(1) in_sleeps_for o(6) [OF lv] by metis
    then show ?thesis using o(4-6) [OF lv] by (simp add: at asleep sleeps_for_append ledger_ok_enqueue)
  qed
  show ?thesis
    unfolding limiters_ok_def lev h
  proof (intro conjI)
    show "well_keyed (node_ledgers ?s)" "well_keyed (asleep ?s)" "well_keyed (subordinates ?s)"
      using o(1-3) fresh(1) unfolding asleep by (simp_all add: as_asleep_def enqueue_all_three del: set_map)
    show "\<forall>lv\<in>levels s. ledger_ok (ledger_at lv ?s) \<and> l_category (ledger_at lv ?s) = level_category lv \<and>
        waiters (ledger_at lv ?s) = sleeps_for lv (asleep ?s)"
      using led by blast
    show "\<forall>(q, w)\<in>set (asleep ?s). sleeper_node w \<in> set (keys (node_ledgers ?s)) \<and> owner_key q \<and>
        \<not> holds_level s Level_GLOBAL q"
    proof (clarify, intro conjI)
      fix q w assume "(q, w) \<in> set (asleep ?s)"
      then have "map_of (asleep s) q = Some w \<or> q = owner \<and> w = ?w" using o(2) by (auto simp: asleep map_of_eq_Some_iff)
      then show "sleeper_node w \<in> set (keys (node_ledgers ?s))" "owner_key q" "\<not> holds_level s Level_GLOBAL q"
        using o(7,8) n key fresh(2) map_of_eq_Some_in_keys [of "asleep s" q w]
        by (auto simp: node_level_iff as_asleep_def enqueue_all_three simp del: set_map)
    qed
    show "\<forall>q. holds_level s Level_STRATEGY q \<longrightarrow> holds_level s Level_GLOBAL q" using o(9) by blast
    show "\<forall>n q. Level_NODE n \<in> levels s \<longrightarrow> holds_level s (Level_NODE n) q \<longrightarrow>
        holds_level s Level_STRATEGY q \<and>
        (\<forall>m. Level_NODE m \<in> levels s \<longrightarrow> holds_level s (Level_NODE m) q \<longrightarrow> m = n)"
      using o(10,11) by blast
    show "\<forall>(q, ps)\<in>set (subordinates ?s). ps \<noteq> {} \<and> (\<exists>n. Level_NODE n \<in> levels s \<and> holds_level s (Level_NODE n) q)"
      using o(12) by (simp add: as_asleep_def enqueue_all_three) blast
  qed
qed

lemma stay_asleep:
  assumes ok: "limiters_ok s" and w: "map_of (asleep s) owner = Some w"
  shows "limiters_ok (as_asleep owner (sleeper_node w) d s)"
proof -
  note o = limiters_okD [OF ok]
  have own: "owner \<in> set (keys (asleep s))" using w by (rule map_of_eq_Some_in_keys)
  have upd: "map (sleeper_node \<circ> snd) (AList.update owner v ws) = map (sleeper_node \<circ> snd) ws"
    if "map_of ws owner = Some w" "sleeper_node v = sleeper_node w" for v ws
    using that by (induction ws) auto
  have h: "holds_level (as_asleep owner (sleeper_node w) d s) lv q = holds_level s lv q" for lv q
    by (simp add: holds_level_def as_asleep_def)
  show ?thesis
  proof (rule limiters_ok_ledgers [OF ok])
    show "keys (asleep (as_asleep owner (sleeper_node w) d s)) = keys (asleep s)"
      using own by (simp add: as_asleep_def keys_update_present)
    show "map (sleeper_node \<circ> snd) (asleep (as_asleep owner (sleeper_node w) d s)) = map (sleeper_node \<circ> snd) (asleep s)"
      using upd [OF w] by (simp add: as_asleep_def)
  qed (use o h in \<open>auto simp: as_asleep_def simp del: set_map\<close>)
qed

lemma acquire_admitted:
  assumes ok: "limiters_ok s" and free: "\<not> is_pending_or_holding s owner"
  shows "owner \<notin> set (keys (asleep s))" "\<not> holds_level s Level_GLOBAL owner"
  using free keys_asleep [OF ok] by (auto simp: is_pending_or_holding_def has_waiter_def holds_level_def ledger_at.simps)

lemma limiters_acquire_ok:
  assumes ok: "limiters_ok s"
  shows "limiters_ok (snd (limiters_acquire owner node deadline now1 now2 s))"
proof (cases "acquire_admission owner node deadline now1 s")
  case (Inr x)
  then have c: "owner_key owner" "Level_NODE node \<in> levels s" "\<not> is_pending_or_holding s owner"
    by (auto simp: acquire_admission_def result_simps validate_owner_key_iff node_level_iff require_node_def invalid_capacity_def
        simp del: set_map)
  show ?thesis
    using acquire_round_ok [OF join_queues [OF ok c(2,1) acquire_admitted [OF ok c(3)]] c(1)]
    by (simp add: limiters_acquire_def Inr)
qed (simp add: limiters_acquire_def ok)

lemma limiters_resume_ok:
  assumes ok: "limiters_ok s"
  shows "limiters_ok (snd (limiters_resume owner timed_out now s))"
proof (cases "map_of (asleep s) owner")
  case (Some w)
  have "limiters_ok (snd (acquire_round owner (sleeper_node w) (Some (sleeper_deadline w)) now s))"
    using limiters_okD(7) [OF ok Some] by (intro acquire_round_ok stay_asleep [OF ok Some]) blast
  then show ?thesis using ok Some by (simp add: limiters_resume_def)
qed (use ok in \<open>simp add: limiters_resume_def\<close>)

lemma release_reservation_ok:
  assumes ok: "limiters_ok s"
  shows "limiters_ok (snd (release_reservation owner node s))"
proof (cases "release_admission owner node s")
  case (Inr x)
  then have c: "Level_NODE node \<in> levels s" "\<And>lv. lv \<in> three node \<Longrightarrow> holds_level s lv owner"
    "require_no_subordinates s owner = Inr ()"
    by (auto simp: release_admission_def result_simps node_level_iff require_node_def invalid_capacity_def Let_def holds_level_def
        three_def ledger_at.simps simp del: set_map)
  let ?s = "on_ledger Level_GLOBAL (ledger_release owner) (on_ledger Level_STRATEGY (ledger_release owner)
    (on_ledger (Level_NODE node) (ledger_release owner) s))"
  have "limiters_ok (notify_all ?s)"
  proof (rule released_ok [OF ok _ _ c(2) _ _ _ _ _ _ _ c(3)])
    show "three node \<subseteq> levels s" "three node \<noteq> {}" using c(1) by (simp_all add: three_def)
    show "Level_GLOBAL \<in> three node \<Longrightarrow> Level_STRATEGY \<in> three node \<or> \<not> holds_level s Level_STRATEGY owner"
      by (simp add: three_def)
    show "Level_NODE n \<in> three node" if "Level_NODE n \<in> levels s" "holds_level s (Level_NODE n) owner" for n
      using limiters_okD(11) [OF ok c(1) c(2) that] by (simp add: three_def)
    show "ledger_at lv ?s = (if lv \<in> three node then ledger_release owner (ledger_at lv s) else ledger_at lv s)"
      if "lv \<in> levels s" for lv
      using c(1) by (simp add: three_def)
  qed (simp_all del: set_map)
  then show ?thesis by (simp add: release_reservation_def Inr)
qed (simp add: release_reservation_def ok)

lemma level_ledger_levels: "level_ledger s category node = Inr lv \<Longrightarrow> lv \<in> levels s"
  by (auto simp: level_ledger_def result_simps require_node_def invalid_capacity_def node_level_iff simp del: set_map split: if_splits)

lemma level_ledger_category:
  "level_ledger s category node = Inr lv \<Longrightarrow> category \<in> set SCHEDULED_CATEGORIES \<Longrightarrow> level_category lv = category"
  by (auto simp: level_ledger_def result_simps SCHEDULED_CATEGORIES_def split: if_splits)

lemmas categories = CAPACITY_CATEGORY_GLOBAL_def CAPACITY_CATEGORY_STRATEGY_def CAPACITY_CATEGORY_NODE_def
  CAPACITY_CATEGORY_CONNECTOR_def CAPACITY_CATEGORY_CPU_POOL_def

lemma require_scheduled_iff: "require_scheduled category m = Inr () \<longleftrightarrow> category \<in> set SCHEDULED_CATEGORIES"
  by (auto simp: require_scheduled_def result_simps invalid_capacity_def SCHEDULED_CATEGORIES_def SUBORDINATE_CATEGORIES_def
      categories)

lemma held_levels_iff:
  assumes ok: "limiters_ok s"
  shows "CAPACITY_CATEGORY_GLOBAL \<in> held_levels s q \<longleftrightarrow> holds_level s Level_GLOBAL q"
    "CAPACITY_CATEGORY_STRATEGY \<in> held_levels s q \<longleftrightarrow> holds_level s Level_STRATEGY q"
    "CAPACITY_CATEGORY_NODE \<in> held_levels s q \<longleftrightarrow> (\<exists>n. Level_NODE n \<in> levels s \<and> holds_level s (Level_NODE n) q)"
  unfolding held_levels_def any_node_holds_iff [OF limiters_okD(1) [OF ok]]
  by (auto simp: categories holds_level_def ledger_at.simps)

lemma release_level_ok:
  assumes ok: "limiters_ok s"
  shows "limiters_ok (snd (release_level category owner node s))"
proof (cases "release_level_admission category owner node s")
  case (Inr lv)
  then have c: "category \<in> set SCHEDULED_CATEGORIES" "level_ledger s category node = Inr lv" "holds_level s lv owner"
    "require_no_subordinates s owner = Inr ()"
    "\<forall>later \<in> set (tl (dropWhile (\<lambda>c. c \<noteq> category) SCHEDULED_CATEGORIES)). later \<notin> held_levels s owner"
    by (auto simp: release_level_admission_def result_simps require_scheduled_iff holds_level_def list_ex_iff)
  have lv: "lv \<in> levels s" "level_category lv = category"
    using level_ledger_levels [OF c(2)] level_ledger_category [OF c(2,1)] by blast+
  have "limiters_ok (notify_all (on_ledger lv (ledger_release owner) s))"
  proof (rule released_ok [OF ok _ _ _ _ _ _ _ _ _ _ c(4)])
    show "{lv} \<subseteq> levels s" "{lv} \<noteq> {}" "\<And>v. v \<in> {lv} \<Longrightarrow> holds_level s v owner" using lv c(3) by simp_all
    show "Level_STRATEGY \<in> {lv} \<or> \<not> holds_level s Level_STRATEGY owner" if "Level_GLOBAL \<in> {lv}"
    proof -
      have "CAPACITY_CATEGORY_STRATEGY \<notin> held_levels s owner"
        using c(5) that lv(2) [symmetric] by (simp add: SCHEDULED_CATEGORIES_def)
      then show ?thesis using held_levels_iff(2) [OF ok] by blast
    qed
    show "Level_NODE n \<in> {lv}" if "Level_STRATEGY \<in> {lv}" "Level_NODE n \<in> levels s" "holds_level s (Level_NODE n) owner" for n
    proof -
      have "CAPACITY_CATEGORY_NODE \<notin> held_levels s owner"
        using c(5) that(1) lv(2) [symmetric] by (simp add: SCHEDULED_CATEGORIES_def categories)
      then show ?thesis using held_levels_iff(3) [OF ok] that by blast
    qed
  qed (use lv in \<open>simp_all del: set_map\<close>)
  then show ?thesis by (simp add: release_level_def Inr)
qed (simp add: release_level_def ok)

lemma acquire_level_admitted:
  assumes ok: "limiters_ok s" and adm: "acquire_level_admission category owner node s = Inr lv"
  shows "lv \<in> levels s" "owner_key owner" "free_slots (ledger_at lv s) \<noteq> {}" "owner \<notin> set (keys (asleep s))"
    "level_category lv = category"
    and "\<And>v. v \<in> levels s \<Longrightarrow> holds_level s v owner \<longleftrightarrow> v = Level_GLOBAL \<and> lv \<noteq> Level_GLOBAL \<or> v = Level_STRATEGY \<and> (\<exists>n. lv = Level_NODE n)"
proof -
  from adm have c: "category \<in> set SCHEDULED_CATEGORIES" "level_ledger s category node = Inr lv" "may_grant (ledger_at lv s) owner"
    "\<not> is_pending s owner" "held_levels s owner = set (takeWhile (\<lambda>c. c \<noteq> category) SCHEDULED_CATEGORIES)" "owner_key owner"
    by (auto simp: acquire_level_admission_def result_simps require_scheduled_iff validate_owner_key_iff Let_def)
  show lv: "lv \<in> levels s" "owner_key owner" "free_slots (ledger_at lv s) \<noteq> {}" "owner \<notin> set (keys (asleep s))"
    using level_ledger_levels [OF c(2)] c(3,4,6) keys_asleep [OF ok] by (auto simp: may_grant_def is_pending_def has_waiter_def)
  show cat: "level_category lv = category" by (rule level_ledger_category [OF c(2,1)])
  show "holds_level s v owner \<longleftrightarrow> v = Level_GLOBAL \<and> lv \<noteq> Level_GLOBAL \<or> v = Level_STRATEGY \<and> (\<exists>n. lv = Level_NODE n)"
    if v: "v \<in> levels s" for v
  proof -
    have "holds_level s Level_GLOBAL owner \<longleftrightarrow> lv \<noteq> Level_GLOBAL"
      "holds_level s Level_STRATEGY owner \<longleftrightarrow> (\<exists>n. lv = Level_NODE n)"
      "\<not> (\<exists>n. Level_NODE n \<in> levels s \<and> holds_level s (Level_NODE n) owner)"
      unfolding held_levels_iff [OF ok, symmetric] c(5) cat [symmetric]
      by (cases lv; simp add: SCHEDULED_CATEGORIES_def categories)+
    then show ?thesis using v by (cases v) auto
  qed
qed

lemma acquire_level_result:
  assumes ok: "limiters_ok s" and adm: "acquire_level_admission category owner node s = Inr lv"
  shows "acquire_level category owner node s = (Inr (permit_for owner lv s), on_ledger lv (ledger_grant owner) s)"
  using grant_level_ok limiters_okD(4,5) [OF ok] acquire_level_admitted(1-3) [OF ok adm] by (simp add: acquire_level_def adm)

lemma acquire_level_ok:
  assumes ok: "limiters_ok s"
  shows "limiters_ok (snd (acquire_level category owner node s))"
proof (cases "acquire_level_admission category owner node s")
  case (Inr lv)
  note a = acquire_level_admitted [OF ok Inr] and o = limiters_okD [OF ok]
  let ?s = "on_ledger lv (ledger_grant owner) s"
  have h: "holds_level ?s v q \<longleftrightarrow> holds_level s v q \<or> q = owner \<and> v = lv" if "v \<in> levels s" for v q
    using a(1) by (auto simp: holds_level_def)
  have "limiters_ok ?s"
  proof (rule limiters_ok_ledgers [OF ok])
    fix v assume v: "v \<in> levels s"
    have "owner \<notin> set (waiters (ledger_at v s))" using a(4) in_sleeps_for o(6) [OF v] by metis
    moreover have "\<not> holds_level s lv owner" using a(6) [OF a(1)] by auto
    ultimately show "ledger_ok (ledger_at v ?s) \<and> l_category (ledger_at v ?s) = l_category (ledger_at v s) \<and>
        waiters (ledger_at v ?s) = waiters (ledger_at v s)"
      using a(1,3) o(4) [OF v] by (cases "v = lv") (simp_all add: remove1_idem ledger_ok_grant holds_level_def)
  next
    fix q assume "q \<in> set (keys (asleep s))"
    then show "\<not> holds_level ?s Level_GLOBAL q" using o(8) a(4) h [OF fixed_levels(1)] by blast
  next
    fix q assume "holds_level ?s Level_STRATEGY q"
    then show "holds_level ?s Level_GLOBAL q"
      using h [OF fixed_levels(1)] h [OF fixed_levels(2)] o(9) a(6) [OF fixed_levels(1)] by auto
  next
    fix n q assume n: "Level_NODE n \<in> levels s" "holds_level ?s (Level_NODE n) q"
    show "holds_level ?s Level_STRATEGY q \<and>
        (\<forall>m. Level_NODE m \<in> levels s \<longrightarrow> holds_level ?s (Level_NODE m) q \<longrightarrow> m = n)"
    proof (cases "q = owner")
      case True
      then show ?thesis using n h a(6) by auto
    next
      case False
      then show ?thesis using n h h [OF fixed_levels(2)] o(10,11) by auto
    qed
  next
    fix q ps assume "(q, ps) \<in> set (subordinates s)"
    then show "\<exists>n. Level_NODE n \<in> levels s \<and> holds_level ?s (Level_NODE n) q" using o(12) h by blast
  qed (simp_all del: set_map)
  then show ?thesis by (simp add: acquire_level_result [OF ok Inr])
qed (simp add: acquire_level_def ok)

lemma limiters_ok_subordinates:
  assumes ok: "limiters_ok s" and wk: "well_keyed d"
    and d: "\<And>q ps. (q, ps) \<in> set d \<Longrightarrow> ps \<noteq> {} \<and> (\<exists>n. Level_NODE n \<in> levels s \<and> holds_level s (Level_NODE n) q)"
  shows "limiters_ok (s\<lparr>subordinates := d\<rparr>)"
proof -
  have "holds_level (s\<lparr>subordinates := d\<rparr>) lv q = holds_level s lv q" for lv q by (simp add: holds_level_def)
  moreover have "\<forall>(q, ps) \<in> set d. ps \<noteq> {} \<and> (\<exists>n. Level_NODE n \<in> levels s \<and> holds_level s (Level_NODE n) q)"
    using d by blast
  ultimately show ?thesis using ok wk unfolding limiters_ok_def by simp
qed

lemma subordinates_of_delete:
  assumes "limiters_ok s" "(q, ps) \<in> set (AList.delete owner (subordinates s))"
  shows "ps \<noteq> {} \<and> (\<exists>n. Level_NODE n \<in> levels s \<and> holds_level s (Level_NODE n) q)"
  using limiters_okD(12) [OF assms(1), of q ps] assms(2) by (auto simp: AList.delete_eq)

lemma in_update: "(q, ps) \<in> set (AList.update k v d) \<Longrightarrow> well_keyed d \<Longrightarrow> q = k \<and> ps = v \<or> (q, ps) \<in> set (AList.delete k d)"
proof -
  assume i: "(q, ps) \<in> set (AList.update k v d)" and wk: "well_keyed d"
  then have "map_of (AList.update k v d) q = Some ps" by (intro map_of_is_SomeI well_keyed_update)
  then show ?thesis by (auto simp: dict_simps AList.delete_eq dest: map_of_SomeD split: if_splits)
qed

lemma register_subordinate_ok:
  assumes ok: "limiters_ok s"
  shows "limiters_ok (snd (register_subordinate owner p s))"
proof (cases "snd (register_subordinate owner p s) = s")
  case False
  then have holds: "holds_all s owner"
    and s: "snd (register_subordinate owner p s) =
      s\<lparr>subordinates := AList.update owner (insert (permit_key p) (subordinates_of s owner)) (subordinates s)\<rparr>"
    by (auto simp: register_subordinate_def result_simps split: sum.splits)
  show ?thesis
    unfolding s
  proof (rule limiters_ok_subordinates [OF ok])
    fix q ps assume "(q, ps) \<in> set (AList.update owner (insert (permit_key p) (subordinates_of s owner)) (subordinates s))"
    from in_update [OF this limiters_okD(3) [OF ok]]
    show "ps \<noteq> {} \<and> (\<exists>n. Level_NODE n \<in> levels s \<and> holds_level s (Level_NODE n) q)"
      using subordinates_of_delete [OF ok] holds any_node_holds_iff [OF limiters_okD(1) [OF ok]] by (auto simp: holds_all_def)
  qed (rule well_keyed_update [OF limiters_okD(3) [OF ok]])
qed (use ok in simp)

lemma unregister_subordinate_ok:
  assumes ok: "limiters_ok s"
  shows "limiters_ok (snd (unregister_subordinate owner p s))"
proof (cases "snd (unregister_subordinate owner p s) = s")
  case False
  let ?rest = "subordinates_of s owner - {permit_key p}"
  from False have member: "permit_key p \<in> subordinates_of s owner"
    and s: "snd (unregister_subordinate owner p s) = s\<lparr>subordinates :=
      (if ?rest = {} then AList.delete owner (subordinates s) else AList.update owner ?rest (subordinates s))\<rparr>"
    by (auto simp: unregister_subordinate_def result_simps Let_def split: sum.splits)
  then obtain ps where ps: "map_of (subordinates s) owner = Some ps" by (auto simp: subordinates_of_def split: option.splits)
  note holder = limiters_okD(12) [OF ok map_of_SomeD [OF ps]]
  show ?thesis
    unfolding s
  proof (rule limiters_ok_subordinates [OF ok])
    show "well_keyed (if ?rest = {} then AList.delete owner (subordinates s) else AList.update owner ?rest (subordinates s))"
      using limiters_okD(3) [OF ok] by (simp add: well_keyed_update well_keyed_delete)
    fix q qs assume "(q, qs) \<in> set (if ?rest = {} then AList.delete owner (subordinates s) else AList.update owner ?rest (subordinates s))"
    then have "(q, qs) \<in> set (AList.delete owner (subordinates s)) \<or> q = owner \<and> qs = ?rest \<and> ?rest \<noteq> {}"
      using in_update [OF _ limiters_okD(3) [OF ok], of q qs owner ?rest] by (cases "?rest = {}") auto
    then show "qs \<noteq> {} \<and> (\<exists>n. Level_NODE n \<in> levels s \<and> holds_level s (Level_NODE n) q)"
      using subordinates_of_delete [OF ok] holder by blast
  qed
qed (use ok in simp)

lemma limiters_close_ok:
  assumes ok: "limiters_ok s"
  shows "limiters_ok (limiters_close s)"
proof -
  have "limiters_ok (notify_all (s\<lparr>limiters_closed := True\<rparr>))"
  proof (rule limiters_ok_ledgers [OF ok])
    have "holds_level (notify_all (s\<lparr>limiters_closed := True\<rparr>)) lv q = holds_level s lv q" for lv q by (simp add: holds_level_def)
    then show "\<And>q. q \<in> set (keys (asleep s)) \<Longrightarrow> \<not> holds_level (notify_all (s\<lparr>limiters_closed := True\<rparr>)) Level_GLOBAL q"
      "\<And>q. holds_level (notify_all (s\<lparr>limiters_closed := True\<rparr>)) Level_STRATEGY q \<Longrightarrow>
        holds_level (notify_all (s\<lparr>limiters_closed := True\<rparr>)) Level_GLOBAL q"
      "\<And>n q. Level_NODE n \<in> levels s \<Longrightarrow> holds_level (notify_all (s\<lparr>limiters_closed := True\<rparr>)) (Level_NODE n) q \<Longrightarrow>
        holds_level (notify_all (s\<lparr>limiters_closed := True\<rparr>)) Level_STRATEGY q \<and>
        (\<forall>m. Level_NODE m \<in> levels s \<longrightarrow> holds_level (notify_all (s\<lparr>limiters_closed := True\<rparr>)) (Level_NODE m) q \<longrightarrow> m = n)"
      "\<And>q ps. (q, ps) \<in> set (subordinates s) \<Longrightarrow>
        \<exists>n. Level_NODE n \<in> levels s \<and> holds_level (notify_all (s\<lparr>limiters_closed := True\<rparr>)) (Level_NODE n) q"
      using limiters_okD(8-12) [OF ok] by blast+
  qed (use limiters_okD(4) [OF ok] in \<open>simp_all del: set_map add: notify_all_simps(7) [of "s\<lparr>limiters_closed := True\<rparr>", simplified]\<close>)
  then show ?thesis using ok by (simp add: limiters_close_def)
qed

lemma limiter_call_ok: "limiters_ok s \<Longrightarrow> limiters_ok (snd (limiter_call x s))"
  by (cases x) (simp_all add: answered_def limiters_acquire_ok limiters_resume_ok release_reservation_ok acquire_level_ok
      release_level_ok register_subordinate_ok unregister_subordinate_ok limiters_close_ok)

interpretation limiter_machine: object_machine limiter_call limiters_ok
  by unfold_locales (rule limiter_call_ok)

end
