(* ===== verification/Capacity_Properties.thy ===== *)
theory Capacity_Properties
  imports Capacity_Calls
begin

text \<open>What the capacity ledgers promise, and two ways in which they do less.\<close>

subsection \<open>Limits\<close>

definition limits :: "limiters \<Rightarrow> nat list" where "limits s = map l_limit (all_ledgers s)"

lemma limits_on_ledger: "(\<And>l. l_limit (f l) = l_limit l) \<Longrightarrow> limits (on_ledger lv f s) = limits s"
proof -
  assume f: "\<And>l. l_limit (f l) = l_limit l"
  have "map l_limit (map snd (AList.map_entry n f d)) = map l_limit (map snd d)" for n and d :: "(string, ledger) dict"
    using f by (induction d) auto
  then show ?thesis using f by (cases lv) (simp_all add: limits_def all_ledgers_def on_ledger.simps)
qed

lemma limits_simps [simp]:
  "limits (on_ledger lv (enqueue q) s) = limits s" "limits (on_ledger lv (dequeue q) s) = limits s"
  "limits (on_ledger lv (ledger_grant q) s) = limits s" "limits (on_ledger lv (ledger_release q) s) = limits s"
  "limits (s\<lparr>asleep := ws\<rparr>) = limits s" "limits (s\<lparr>subordinates := d\<rparr>) = limits s" "limits (s\<lparr>limiters_closed := c\<rparr>) = limits s"
  "limits (notify_all s) = limits s"
  by (auto intro!: limits_on_ledger simp: ledger_grant_def ledger_release_def ungrant_def dequeue_def Let_def)
    (simp_all add: limits_def all_ledgers_def notify_all_def)

lemma limits_acquire_round: "limits (snd (acquire_round owner node deadline now s)) = limits s"
proof -
  have grant: "limits (snd (grant_level lv owner s)) = limits s" for lv s by (simp add: grant_level_def)
  have "limits (snd (grant_all owner node s)) = limits s"
    using grant [of Level_GLOBAL s] grant [of Level_STRATEGY "snd (grant_level Level_GLOBAL owner s)"]
      grant [of "Level_NODE node" "snd (grant_level Level_STRATEGY owner (snd (grant_level Level_GLOBAL owner s)))"]
    by (auto simp: grant_all_def split: prod.splits sum.splits)
  then show ?thesis by (auto simp: acquire_round_def dequeue_all_def split: prod.splits option.splits)
qed

lemma limits_call: "limits (snd (limiter_call x s)) = limits s"
  by (cases x) (auto simp: answered_def limiters_acquire_def limiters_resume_def limits_acquire_round enqueue_all_def
      release_reservation_def acquire_level_def grant_level_def release_level_def register_subordinate_def
      unregister_subordinate_def limiters_close_def Let_def split: sum.splits option.splits)

interpretation limits_machine: object_machine limiter_call "\<lambda>s. limits s = k"
  by unfold_locales (simp add: limits_call)

lemma make_limiters_ok:
  assumes made: "make_limiters g st nd strategy ids = Inr s"
    and bounds: "g \<in> {1..MAX_CAPTURED_LIMIT}" "st \<in> {1..MAX_CAPTURED_LIMIT}" "nd \<in> {1..MAX_CAPTURED_LIMIT}"
  shows "limiters_ok s" "limits s = g # st # replicate (length ids) nd" "keys (node_ledgers s) = ids"
proof -
  from made have ids: "\<And>i. i < length ids \<Longrightarrow> ids ! i \<notin> set (take i ids)"
    and s: "s = \<lparr>global_ledger = new_ledger CAPACITY_CATEGORY_GLOBAL g, strategy_ledger = new_ledger CAPACITY_CATEGORY_STRATEGY st,
      node_ledgers = map (\<lambda>n. (n, new_ledger CAPACITY_CATEGORY_NODE nd)) ids, subordinates = [], limiters_closed = False, asleep = []\<rparr>"
    by (auto simp: make_limiters_def result_simps invalid_capacity_def)
  have dist: "distinct ids"
  proof (unfold distinct_conv_nth, intro allI impI)
    fix i j assume ij: "i < length ids" "j < length ids" "i \<noteq> j"
    have "ids ! a \<noteq> ids ! b" if "a < b" "b < length ids" for a b
    proof -
      have "ids ! a \<in> set (take b ids)" using that by (force simp: in_set_conv_nth)
      then show ?thesis using ids [OF that(2)] by metis
    qed
    then show "ids ! i \<noteq> ids ! j" using ij by (metis linorder_neqE_nat)
  qed
  show "keys (node_ledgers s) = ids" by (simp add: s comp_def)
  show "limits s = g # st # replicate (length ids) nd"
    by (simp add: s limits_def all_ledgers_def new_ledger_def comp_def map_replicate_const)
  have lev: "levels s = {Level_GLOBAL, Level_STRATEGY} \<union> Level_NODE ` set ids" by (auto simp: levels_def s)
  have at: "\<exists>limit \<in> {1..MAX_CAPTURED_LIMIT}. ledger_at lv s = new_ledger (level_category lv) limit" if lv: "lv \<in> levels s" for lv
  proof (cases lv)
    case (Level_NODE n)
    then have "map_of (node_ledgers s) n = Some (new_ledger CAPACITY_CATEGORY_NODE nd)"
      using lv lev dist by (auto simp: s map_of_map_restrict)
    then show ?thesis using bounds(3) Level_NODE by (auto simp: ledger_at.simps)
  qed (use bounds in \<open>auto simp: s ledger_at.simps\<close>)
  have fresh: "ledger_ok (ledger_at lv s) \<and> l_category (ledger_at lv s) = level_category lv \<and> waiters (ledger_at lv s) = [] \<and>
      (\<forall>q. \<not> holds_level s lv q)" if lv: "lv \<in> levels s" for lv
  proof -
    obtain limit where l: "limit \<in> {1..MAX_CAPTURED_LIMIT}" "ledger_at lv s = new_ledger (level_category lv) limit"
      using at [OF lv] by blast
    have "ledger_ok (new_ledger (level_category lv) limit)" using l(1) by (intro new_ledger_ok) (simp_all add: MIN_PERMIT_LIMIT_def)
    moreover have "\<not> holds_level s lv q" for q by (simp add: holds_level_def ledger_holds_def l(2) new_ledger_def)
    ultimately show ?thesis using l(2) by (simp add: new_ledger_def)
  qed
  have empty: "asleep s = []" "subordinates s = []" by (simp_all add: s)
  have "well_keyed (node_ledgers s)" using dist by (simp add: s comp_def)
  then show "limiters_ok s"
    using fresh fresh [OF fixed_levels(2)] by (simp add: limiters_ok_def empty sleeps_for_def)
qed

lemma levels_ledgers: "well_keyed (node_ledgers s) \<Longrightarrow> l \<in> set (all_ledgers s) \<Longrightarrow> \<exists>lv \<in> levels s. l = ledger_at lv s"
  unfolding all_ledgers_def levels_def by (auto simp: ledger_at.simps) (force simp: ledger_at.simps)

definition holders :: "ledger \<Rightarrow> string set" where "holders l = fst ` set (held l)"

lemma limiters_ok_safe:
  assumes ok: "limiters_ok s"
  shows "(\<forall>l \<in> set (all_ledgers s). card (holders l) = length (held l) \<and> length (held l) \<le> l_limit l \<and>
      distinct (map snd (held l)) \<and> snd ` set (held l) \<subseteq> {1..l_limit l}) \<and>
    holders (strategy_ledger s) \<subseteq> holders (global_ledger s) \<and>
    (\<forall>(n, l) \<in> set (node_ledgers s). holders l \<subseteq> holders (strategy_ledger s))"
proof (intro conjI ballI)
  note d = limiters_okD [OF ok]
  have holds: "q \<in> holders (ledger_at lv s) \<longleftrightarrow> holds_level s lv q" for q lv by (simp add: holders_def holds_level_def ledger_holds_def)
  fix l assume "l \<in> set (all_ledgers s)"
  then obtain lv where lv: "lv \<in> levels s" "l = ledger_at lv s" using levels_ledgers [OF d(1)] by blast
  have l: "ledger_ok l" using d(4) [OF lv(1)] lv(2) by simp
  show "card (holders l) = length (held l)" using l distinct_card [of "keys (held l)"] by (simp add: ledger_ok_def holders_def)
  show "length (held l) \<le> l_limit l" by (rule ledger_ok_length [OF l])
  show "distinct (map snd (held l))" "snd ` set (held l) \<subseteq> {1..l_limit l}" using l by (auto simp: ledger_ok_def)
next
  note d = limiters_okD [OF ok]
  have holds: "q \<in> holders (ledger_at lv s) \<longleftrightarrow> holds_level s lv q" for q lv by (simp add: holders_def holds_level_def ledger_holds_def)
  show "holders (strategy_ledger s) \<subseteq> holders (global_ledger s)"
    using d(9) holds [of _ Level_STRATEGY] holds [of _ Level_GLOBAL] by (auto simp: ledger_at.simps)
  show "\<And>x. x \<in> set (node_ledgers s) \<Longrightarrow> case x of (n, l) \<Rightarrow> holders l \<subseteq> holders (strategy_ledger s)"
  proof (clarify)
    fix n l q assume l: "(n, l) \<in> set (node_ledgers s)" and q: "q \<in> holders l"
    have "Level_NODE n \<in> levels s" "ledger_at (Level_NODE n) s = l"
      using l d(1) by (force simp: node_level_iff, simp add: ledger_at.simps)
    then show "q \<in> holders (strategy_ledger s)"
      using d(10) q holds [of q "Level_NODE n"] holds [of q Level_STRATEGY] by (simp add: ledger_at.simps)
  qed
qed

text \<open>
  C8.  Whatever calls the threads interleave, each level keeps its configured limit, has at most that many holders, gives
  each of them a slot of its own within the limit, and whoever holds a level holds the levels before it.
\<close>

theorem capacity_never_exceeded:
  assumes made: "make_limiters g st nd strategy ids = Inr s0"
    and bounds: "g \<in> {1..MAX_CAPTURED_LIMIT}" "st \<in> {1..MAX_CAPTURED_LIMIT}" "nd \<in> {1..MAX_CAPTURED_LIMIT}"
    and s: "s = snd (perform limiter_call xs s0)"
  shows "limits s = g # st # replicate (length ids) nd \<and>
    (\<forall>l \<in> set (all_ledgers s). card (holders l) = length (held l) \<and> length (held l) \<le> l_limit l \<and>
      distinct (map snd (held l)) \<and> snd ` set (held l) \<subseteq> {1..l_limit l}) \<and>
    holders (strategy_ledger s) \<subseteq> holders (global_ledger s) \<and>
    (\<forall>(n, l) \<in> set (node_ledgers s). holders l \<subseteq> holders (strategy_ledger s))"
  unfolding s
  using limits_machine.perform_inv [OF make_limiters_ok(2) [OF made bounds], of xs]
    limiters_ok_safe [OF limiter_machine.perform_inv [OF make_limiters_ok(1) [OF made bounds], of xs]]
  by blast

definition example_limiters :: limiters where
  "example_limiters = the (map_option id (case make_limiters 2 2 1 ''threaded'' [''a'', ''b''] of Inl _ \<Rightarrow> None | Inr s \<Rightarrow> Some s))"

lemma example_limiters_made: "make_limiters 2 2 1 ''threaded'' [''a'', ''b''] = Inr example_limiters"
  by code_simp

lemma small_limits: "1 \<in> {1..MAX_CAPTURED_LIMIT}" "2 \<in> {1..MAX_CAPTURED_LIMIT}"
  by (simp_all add: MAX_CAPTURED_LIMIT_def)

theorem capacity_never_exceeded_witness:
  "limits (snd (perform limiter_call [Do_acquire ''x'' ''a'' None 0 0, Do_acquire ''y'' ''a'' (Some 10) 0 0] example_limiters)) = [2, 2, 1, 1]"
proof -
  have "limits (snd (perform limiter_call [Do_acquire ''x'' ''a'' None 0 0, Do_acquire ''y'' ''a'' (Some 10) 0 0] example_limiters)) =
      2 # 2 # replicate (length [''a'', ''b'']) 1"
    by (rule capacity_never_exceeded [OF example_limiters_made small_limits(2,2,1) refl, THEN conjunct1])
  then show ?thesis by (simp add: numeral_2_eq_2)
qed

subsection \<open>Acquiring\<close>

lemma permit_slots:
  assumes "limiters_ok s" "lv \<in> levels s" "Level_NODE n \<in> levels s" "lv \<in> three n" "\<not> holds_level s lv owner"
    "s' = dequeue_all owner n (on_three n (ledger_grant owner) s)"
  shows "map_of (held (ledger_at lv s')) owner = Some (permit_slot (permit_for owner lv s))"
  using assms by (simp add: dequeue_all_three dict_simps permit_for_def)

text \<open>What a round does to the holders.\<close>

lemma acquire_round_holders:
  assumes ok: "limiters_ok (as_asleep owner node d s)" and key: "owner_key owner"
    and r: "acquire_round owner node deadline now s = (answer, s')" and lv: "lv \<in> levels s"
  shows "holds_level s' lv q \<longleftrightarrow> holds_level s lv q \<or> q = owner \<and> lv \<in> three node \<and> (\<exists>ps. answer = Inr (Granted ps))"
    and "answer = Inr (Granted ps) \<Longrightarrow> map permit_owner ps = [owner, owner, owner] \<and>
      map permit_category ps = SCHEDULED_CATEGORIES \<and>
      map (\<lambda>lv. map_of (held (ledger_at lv s')) owner) [Level_GLOBAL, Level_STRATEGY, Level_NODE node] = map (Some \<circ> permit_slot) ps"
proof -
  have n: "Level_NODE node \<in> levels s"
    using limiters_okD(7) [OF ok, of owner] by (simp add: as_asleep_def dict_simps)
  have h1: "holds_level (dequeue_all owner node s) lv q = holds_level s lv q"
    using n by (simp add: holds_level_def dequeue_all_three)
  have h2: "holds_level (dequeue_all owner node (on_three node (ledger_grant owner) s)) lv q \<longleftrightarrow>
      holds_level s lv q \<or> q = owner \<and> lv \<in> three node"
    using n by (auto simp: holds_level_def dequeue_all_three)
  have h3: "holds_level (as_asleep owner node d' s) lv q = holds_level s lv q" for d' by (simp add: holds_level_def as_asleep_def)
  show "holds_level s' lv q \<longleftrightarrow> holds_level s lv q \<or> q = owner \<and> lv \<in> three node \<and> (\<exists>ps. answer = Inr (Granted ps))"
    using r h1 h2 h3 unfolding acquire_round_cases [OF ok key]
    by (auto split: if_splits option.splits)
  show "map permit_owner ps = [owner, owner, owner] \<and> map permit_category ps = SCHEDULED_CATEGORIES \<and>
      map (\<lambda>lv. map_of (held (ledger_at lv s')) owner) [Level_GLOBAL, Level_STRATEGY, Level_NODE node] = map (Some \<circ> permit_slot) ps"
    if g: "answer = Inr (Granted ps)"
  proof -
    from r g have "ps = map (\<lambda>lv. permit_for owner lv s) [Level_GLOBAL, Level_STRATEGY, Level_NODE node]"
      and "s' = dequeue_all owner node (on_three node (ledger_grant owner) s)"
      unfolding acquire_round_cases [OF ok key] by (auto split: if_splits option.splits)
    then show ?thesis
      using n by (simp add: permit_for_def SCHEDULED_CATEGORIES_def dequeue_all_three three_def dict_simps)
  qed
qed

text \<open>
  C18.  An acquisition takes all three levels or none: whatever happened before, it changes who holds a level only by
  adding the owner to its global, strategy and node level, and does so exactly when it answers with three permits, whose
  slots are then the owner's.
\<close>

theorem acquire_all_or_nothing:
  assumes made: "make_limiters g st nd strategy ids = Inr s0"
    and bounds: "g \<in> {1..MAX_CAPTURED_LIMIT}" "st \<in> {1..MAX_CAPTURED_LIMIT}" "nd \<in> {1..MAX_CAPTURED_LIMIT}"
    and s: "s = snd (perform limiter_call xs s0)"
    and r: "limiters_acquire owner node deadline now1 now2 s = (answer, s')"
  shows "(\<forall>lv q. lv \<in> levels s \<longrightarrow> holds_level s' lv q =
      (holds_level s lv q \<or> q = owner \<and> lv \<in> three node \<and> (\<exists>ps. answer = Inr (Granted ps)))) \<and>
    (\<forall>ps. answer = Inr (Granted ps) \<longrightarrow> map permit_category ps = SCHEDULED_CATEGORIES \<and> map permit_owner ps = [owner, owner, owner] \<and>
      map (\<lambda>lv. map_of (held (ledger_at lv s')) owner) [Level_GLOBAL, Level_STRATEGY, Level_NODE node] = map (Some \<circ> permit_slot) ps)"
proof (cases "acquire_admission owner node deadline now1 s")
  case (Inl e)
  then have "answer = Inl e" "s' = s" using r by (simp_all add: limiters_acquire_def)
  then show ?thesis by simp
next
  case (Inr x)
  have ok: "limiters_ok s" unfolding s by (rule limiter_machine.perform_inv [OF make_limiters_ok(1) [OF made bounds]])
  from Inr have c: "owner_key owner" "Level_NODE node \<in> levels s" "\<not> is_pending_or_holding s owner"
    by (auto simp: acquire_admission_def result_simps validate_owner_key_iff node_level_iff require_node_def invalid_capacity_def
        simp del: set_map)
  let ?s = "enqueue_all owner node s"
  note j = join_queues [OF ok c(2,1) acquire_admitted [OF ok c(3)], of 0]
  have round: "acquire_round owner node deadline now2 ?s = (answer, s')" using r Inr by (simp add: limiters_acquire_def)
  have same: "levels ?s = levels s" "holds_level ?s lv q = holds_level s lv q" for lv q
    using c(2) by (simp_all add: enqueue_all_three holds_level_def)
  show ?thesis
    using acquire_round_holders(1) [OF j c(1) round, unfolded same]
      acquire_round_holders(2) [OF j c(1) round, unfolded same, OF fixed_levels(1)]
    by (intro conjI allI impI) blast+
qed

theorem acquire_all_or_nothing_witness:
  "\<exists>ps s'. limiters_acquire ''x'' ''a'' None 0 0 example_limiters = (Inr (Granted ps), s') \<and>
     map (\<lambda>lv. map_of (held (ledger_at lv s')) ''x'') [Level_GLOBAL, Level_STRATEGY, Level_NODE ''a''] = map (Some \<circ> permit_slot) ps"
proof -
  have "(case fst (limiters_acquire ''x'' ''a'' None 0 0 example_limiters) of Inr (Granted ps) \<Rightarrow> True | _ \<Rightarrow> False) = True"
    by code_simp
  then obtain ps s' where r: "limiters_acquire ''x'' ''a'' None 0 0 example_limiters = (Inr (Granted ps), s')"
    by (cases "limiters_acquire ''x'' ''a'' None 0 0 example_limiters") (auto split: sum.splits acquisition.splits)
  have "example_limiters = snd (perform limiter_call [] example_limiters)" by simp
  from acquire_all_or_nothing [OF example_limiters_made small_limits(2,2,1) this r] r show ?thesis by blast
qed

subsection \<open>Waiting\<close>

lemma resume_grants_iff:
  assumes ok: "limiters_ok s"
    and waits: "map_of (asleep s) owner = Some w" "notified w \<or> timed_out" and time: "now < sleeper_deadline w" "\<not> limiters_closed s"
  shows "(\<exists>ps. fst (limiters_resume owner timed_out now s) = Inr (Granted ps)) \<longleftrightarrow>
    owner = fst (hd (asleep s)) \<and> (\<forall>lv \<in> three (sleeper_node w). length (held (ledger_at lv s)) < l_limit (ledger_at lv s))"
proof -
  note d = limiters_okD [OF ok]
  have n: "three (sleeper_node w) \<subseteq> levels s" and key: "owner_key owner" using d(7) [OF waits(1)] by (auto simp: three_def)
  have own: "owner \<in> set (sleeps_for lv (asleep s))" if "lv \<in> three (sleeper_node w)" for lv
    by (rule sleeps_for_own [OF waits(1) that])
  have all: "sleeps_for Level_GLOBAL (asleep s) = keys (asleep s)" by (simp add: sleeps_for_def split_beta)
  have nonempty: "asleep s \<noteq> []" using waits(1) by auto
  have hd: "hd (sleeps_for lv (asleep s)) = owner" if lv: "lv \<in> three (sleeper_node w)" and first: "owner = fst (hd (asleep s))" for lv
  proof -
    obtain v rest where "asleep s = (owner, v) # rest" using nonempty first by (cases "asleep s") auto
    moreover from this have "v = w" using waits(1) by simp
    ultimately show ?thesis using lv by (auto simp: sleeps_for_def three_def)
  qed
  have free: "free_slots (ledger_at lv s) \<noteq> {} \<longleftrightarrow> length (held (ledger_at lv s)) < l_limit (ledger_at lv s)"
    if "lv \<in> levels s" for lv
  proof -
    have "finite (free_slots (ledger_at lv s))" using d(4) [OF that] by (metis ledger_ok_def finite_Un finite_atLeastAtMost)
    then have "free_slots (ledger_at lv s) \<noteq> {} \<longleftrightarrow> 0 < card (free_slots (ledger_at lv s))" by (simp add: card_gt_0_iff)
    then show ?thesis using card_slots [OF d(4) [OF that]] by linarith
  qed
  have grants: "round_grants owner (sleeper_node w) s \<longleftrightarrow> owner = fst (hd (asleep s)) \<and>
      (\<forall>lv \<in> three (sleeper_node w). length (held (ledger_at lv s)) < l_limit (ledger_at lv s))"
  proof
    assume g: "round_grants owner (sleeper_node w) s"
    then have "hd (waiters (ledger_at Level_GLOBAL s)) = owner \<or> waiters (ledger_at Level_GLOBAL s) = []"
      by (auto simp: round_grants_def three_def may_grant_def)
    then have "owner = fst (hd (asleep s))" using nonempty d(6) [OF fixed_levels(1)] all by (simp add: hd_map)
    moreover have "length (held (ledger_at lv s)) < l_limit (ledger_at lv s)" if "lv \<in> three (sleeper_node w)" for lv
      using g that n free [of lv] by (auto simp: round_grants_def may_grant_def)
    ultimately show "owner = fst (hd (asleep s)) \<and>
        (\<forall>lv \<in> three (sleeper_node w). length (held (ledger_at lv s)) < l_limit (ledger_at lv s))" by blast
  next
    assume a: "owner = fst (hd (asleep s)) \<and>
        (\<forall>lv \<in> three (sleeper_node w). length (held (ledger_at lv s)) < l_limit (ledger_at lv s))"
    then have "may_grant (ledger_at lv s) owner" if "lv \<in> three (sleeper_node w)" for lv
      using that n free [of lv] hd [of lv] d(6) [of lv] by (auto simp: may_grant_def)
    then show "round_grants owner (sleeper_node w) s" by (simp add: round_grants_def)
  qed
  have "fst (limiters_resume owner timed_out now s) = fst (acquire_round owner (sleeper_node w) (Some (sleeper_deadline w)) now s)"
    using waits by (auto simp: limiters_resume_def)
  then show ?thesis
    unfolding acquire_round_cases [OF stay_asleep [OF ok waits(1), of 0] key] using time grants by auto
qed



lemma delete_absent: "k \<notin> set (keys d) \<Longrightarrow> AList.delete k d = d"
  by (induction d) (auto simp: AList.delete_eq)

text \<open>A call that goes on leaves the queues or goes back to sleep; in neither case it notifies.\<close>

lemma asleep_dequeue_all: "asleep (dequeue_all owner node s) = AList.delete owner (asleep s)"
  by (simp add: dequeue_all_def)

lemma asleep_grant_all: "asleep (snd (grant_all owner node s)) = asleep s" "fst (grant_all owner node s) \<noteq> Inr Waiting"
proof -
  have grant: "asleep (snd (grant_level lv owner s)) = asleep s" for lv s by (simp add: grant_level_def)
  show "asleep (snd (grant_all owner node s)) = asleep s"
    using grant [of Level_GLOBAL s] grant [of Level_STRATEGY "snd (grant_level Level_GLOBAL owner s)"]
      grant [of "Level_NODE node" "snd (grant_level Level_STRATEGY owner (snd (grant_level Level_GLOBAL owner s)))"]
    by (auto simp: grant_all_def split: prod.splits sum.splits)
  show "fst (grant_all owner node s) \<noteq> Inr Waiting"
    by (auto simp: grant_all_def split: prod.splits sum.splits)
qed

lemma asleep_round:
  shows "fst (acquire_round owner node deadline now s) \<noteq> Inr Waiting \<Longrightarrow>
      asleep (snd (acquire_round owner node deadline now s)) = AList.delete owner (asleep s)"
    and "b \<noteq> owner \<Longrightarrow> map_of (asleep (snd (acquire_round owner node deadline now s))) b = map_of (asleep s) b"
  using asleep_grant_all [of owner node s]
  by (auto simp: acquire_round_def asleep_dequeue_all dict_simps split: prod.splits option.splits)

lemma closed_round: "limiters_closed (snd (acquire_round owner node deadline now s)) = limiters_closed s"
proof -
  have grant: "limiters_closed (snd (grant_level lv owner s)) = limiters_closed s" for lv s by (simp add: grant_level_def)
  have "limiters_closed (snd (grant_all owner node s)) = limiters_closed s"
    using grant [of Level_GLOBAL s] grant [of Level_STRATEGY "snd (grant_level Level_GLOBAL owner s)"]
      grant [of "Level_NODE node" "snd (grant_level Level_STRATEGY owner (snd (grant_level Level_GLOBAL owner s)))"]
    by (auto simp: grant_all_def split: prod.splits sum.splits)
  then show ?thesis by (auto simp: acquire_round_def dequeue_all_def split: prod.splits option.splits)
qed

text \<open>The calls that can end the sleep of a call: a release, a close, and its own deadline.\<close>

fun awakens :: "string \<Rightarrow> limiter_op \<Rightarrow> bool" where
  "awakens b (Do_resume owner timed_out _) = (owner = b \<and> timed_out)"
| "awakens b (Do_release _ _) = True"
| "awakens b (Do_release_level _ _ _) = True"
| "awakens b Do_close = True"
| "awakens b _ = False"

lemma sleeps_on:
  assumes ok: "limiters_ok s" and b: "map_of (asleep s) b = Some w" "\<not> notified w" and x: "\<not> awakens b x"
  shows "map_of (asleep (snd (limiter_call x s))) b = Some w" "limiters_closed (snd (limiter_call x s)) = limiters_closed s"
proof -
  have queued: "acquire_admission b node deadline now s \<noteq> Inr ()" for node deadline now
    using acquire_admitted(1) [OF ok, of b] map_of_eq_Some_in_keys [OF b(1)]
    by (auto simp: acquire_admission_def result_simps simp del: set_map)
  have queue: "asleep (enqueue_all owner node s) = asleep s" "limiters_closed (enqueue_all owner node s) = limiters_closed s" for owner node
    by (simp_all add: enqueue_all_def)
  show "map_of (asleep (snd (limiter_call x s))) b = Some w"
  proof (cases x)
    case (Do_acquire owner node deadline now1 now2)
    then show ?thesis
      using queued asleep_round(2) [of b owner node deadline now2 "enqueue_all owner node s"] b(1)
      by (cases "owner = b") (auto simp: answered_def limiters_acquire_def queue split: sum.splits)
  next
    case (Do_resume owner timed_out now)
    then show ?thesis
      using asleep_round(2) [of b owner _ _ now s] b x
      by (cases "owner = b") (auto simp: answered_def limiters_resume_def split: option.splits)
  qed (use x b(1) in \<open>auto simp: answered_def acquire_level_def grant_level_def register_subordinate_def
      unregister_subordinate_def Let_def split: sum.splits option.splits\<close>)
  show "limiters_closed (snd (limiter_call x s)) = limiters_closed s"
    using x by (cases x) (auto simp: answered_def limiters_acquire_def limiters_resume_def closed_round queue
      acquire_level_def grant_level_def register_subordinate_def unregister_subordinate_def Let_def split: sum.splits option.splits)
qed

interpretation sleeping: guarded_machine limiter_call
  "\<lambda>s. limiters_ok s \<and> map_of (asleep s) b = Some w \<and> \<not> notified w \<and> \<not> limiters_closed s" "\<lambda>x. \<not> awakens b x" for b w
  by unfold_locales (auto simp: limiter_call_ok sleeps_on)

text \<open>
  C37.  A wake-up can be lost.  Whenever the oldest waiting call leaves the queues, served or not, nobody is notified: if the
  call behind it is asleep and, now the oldest, has a free slot on all its levels, a look at any time before its deadline would
  serve it, but it sleeps through all calls of others that are no release and no close, and at its deadline it fails.
\<close>

theorem wakeup_lost:
  assumes made: "make_limiters g st nd strategy ids = Inr s0"
    and bounds: "g \<in> {1..MAX_CAPTURED_LIMIT}" "st \<in> {1..MAX_CAPTURED_LIMIT}" "nd \<in> {1..MAX_CAPTURED_LIMIT}"
    and s: "s = snd (perform limiter_call xs s0)"
    and waiting: "asleep s = (a, v) # (b, w) # rest" "\<not> notified w" "\<not> limiters_closed s"
    and left: "limiters_resume a timed_out now s = (answer, s')" "answer \<noteq> Inr Waiting"
    and free: "\<forall>lv \<in> three (sleeper_node w). length (held (ledger_at lv s')) < l_limit (ledger_at lv s')"
    and others: "list_all (\<lambda>x. \<not> awakens b x) ys" and u: "u = snd (perform limiter_call ys s')"
  shows "(\<forall>t < sleeper_deadline w. \<exists>ps. fst (limiters_resume b True t s') = Inr (Granted ps)) \<and>
    (\<forall>t. limiters_resume b False t u = (Inr Waiting, u)) \<and>
    (\<forall>t \<ge> sleeper_deadline w. fst (limiters_resume b True t u) =
       Inl (CapacityTimeoutError ''scheduled-work wait deadline elapsed before capacity became available''))"
proof -
  have ok: "limiters_ok s" unfolding s by (rule limiter_machine.perform_inv [OF make_limiters_ok(1) [OF made bounds]])
  have a: "map_of (asleep s) a = Some v" and ab: "a \<noteq> b" "a \<notin> set (keys rest)"
    using waiting(1) limiters_okD(2) [OF ok] by auto
  have round: "acquire_round a (sleeper_node v) (Some (sleeper_deadline v)) now s = (answer, s')"
    using left a by (auto simp: limiters_resume_def split: if_splits)
  have "asleep s' = AList.delete a (asleep s)"
    using asleep_round(1) [of a "sleeper_node v" "Some (sleeper_deadline v)" now s] left(2) unfolding round by simp
  then have s': "asleep s' = (b, w) # rest"
    using ab delete_absent [of a rest] by (simp add: waiting(1) AList.delete_eq)
  have ok': "limiters_ok s'" using limiters_resume_ok [OF ok, of a timed_out now] left(1) by simp
  have closed: "\<not> limiters_closed s'"
    using closed_round [of a "sleeper_node v" "Some (sleeper_deadline v)" now s] waiting(3) unfolding round by simp
  have "\<exists>ps. fst (limiters_resume b True t s') = Inr (Granted ps)" if "t < sleeper_deadline w" for t
    using resume_grants_iff [OF ok' _ _ that closed, of b True] s' free by simp
  moreover have "limiters_ok u \<and> map_of (asleep u) b = Some w \<and> \<not> notified w \<and> \<not> limiters_closed u"
    unfolding u using ok' s' waiting(2) closed by (intro sleeping.perform_guarded [OF _ others]) simp
  ultimately show ?thesis
    by (auto simp: limiters_resume_def acquire_round_def)
qed

definition abandoned :: limiters where
  "abandoned = snd (perform limiter_call
     [Do_acquire ''A'' ''a'' None 0 0, Do_acquire ''B'' ''a'' (Some 10) 0 0, Do_acquire ''C'' ''b'' (Some 50) 0 0] example_limiters)"

text \<open>\<open>A\<close> holds node \<open>a\<close>, \<open>B\<close> waits for it until 10, \<open>C\<close> behind it waits for the free node \<open>b\<close> until 50.\<close>

theorem wakeup_lost_witness:
  "fst (limiters_resume ''C'' True 50 (snd (limiters_resume ''B'' True 10 abandoned))) =
     Inl (CapacityTimeoutError ''scheduled-work wait deadline elapsed before capacity became available'')"
proof -
  let ?r = "limiters_resume ''B'' True 10 abandoned"
  let ?w = "\<lparr>sleeper_node = ''b'', sleeper_deadline = 50, notified = False\<rparr>"
  have asleep: "asleep abandoned = [(''B'', \<lparr>sleeper_node = ''a'', sleeper_deadline = 10, notified = False\<rparr>), (''C'', ?w)]"
    and closed: "\<not> limiters_closed abandoned" and left: "fst ?r \<noteq> Inr Waiting"
    unfolding abandoned_def by code_simp+
  have "length (held (global_ledger (snd ?r))) < l_limit (global_ledger (snd ?r))"
    "length (held (strategy_ledger (snd ?r))) < l_limit (strategy_ledger (snd ?r))"
    "length (held (ledger_at (Level_NODE ''b'') (snd ?r))) < l_limit (ledger_at (Level_NODE ''b'') (snd ?r))"
    unfolding abandoned_def by code_simp+
  then have free: "\<forall>lv \<in> three (sleeper_node ?w). length (held (ledger_at lv (snd ?r))) < l_limit (ledger_at lv (snd ?r))"
    by (simp add: three_def ledger_at.simps)
  have "sleeper_deadline ?w = 50" by simp
  then show ?thesis
    using wakeup_lost [OF example_limiters_made small_limits(2,2,1) abandoned_def asleep _ closed prod.collapse [symmetric] left free, of "[]"]
    by simp
qed

subsection \<open>Two limiters of one category\<close>

definition one_connector :: sub_limiter where
  "one_connector =
     \<lparr>sub_category = CAPACITY_CATEGORY_CONNECTOR, sub_ledger = new_ledger CAPACITY_CATEGORY_CONNECTOR 1, sub_bucket = None,
      sub_closed = False, sub_asleep = []\<rparr>"

definition connector_permit :: CapacityPermit where
  "connector_permit =
     \<lparr>permit_category = CAPACITY_CATEGORY_CONNECTOR, permit_limit = 1, permit_owner = ''A'', permit_slot = 1\<rparr>"

text \<open>What a granted attempt has done.\<close>

lemma sub_try_granted:
  assumes "sub_try_acquire owner now (p, l) = (Inr (Sub_granted q), p', l')"
  shows "owner_key owner" "permit_key q = (l_category (sub_ledger l), owner, next_slot (sub_ledger l))"
    "sub_ledger l' = ledger_grant owner (sub_ledger l)" "sub_category l' = sub_category l"
    "p' = p\<lparr>subordinates := AList.update owner (insert (permit_key q) (subordinates_of p owner)) (subordinates p)\<rparr>"
proof -
  have key: "owner_key owner"
    using assms by (auto simp: sub_try_acquire_def result_simps validate_owner_key_iff split: sum.splits)
  obtain l1 where t: "take_token now l = (Inr True, l1)" and g: "granted_permit owner (sub_ledger l1) = Inr q"
    and reg: "register_with_parent owner q (p, on_sub (ledger_grant owner) l1) = (Inr (), p', l')"
    using assms by (auto simp: sub_try_acquire_def split: sum.splits if_splits prod.splits bool.splits)
  have l1: "sub_ledger l1 = sub_ledger l" "sub_category l1 = sub_category l"
    using t by (auto simp: take_token_def split: option.splits prod.splits sum.splits)
  have q: "permit_key q = (l_category (sub_ledger l), owner, next_slot (sub_ledger l))"
    using g by (auto simp: granted_permit_def make_CapacityPermit_def result_simps l1 permit_key_def)
  have "l' = on_sub (ledger_grant owner) l1" and r: "register_subordinate owner q p = (Inr (), p')"
    using reg by (auto simp: register_with_parent_def split: prod.splits sum.splits)
  then show "sub_ledger l' = ledger_grant owner (sub_ledger l)" "sub_category l' = sub_category l"
    using l1 by (simp_all add: on_sub_def)
  show "p' = p\<lparr>subordinates := AList.update owner (insert (permit_key q) (subordinates_of p owner)) (subordinates p)\<rparr>"
    using r by (auto simp: register_subordinate_def split: sum.splits)
  show "owner_key owner" "permit_key q = (l_category (sub_ledger l), owner, next_slot (sub_ledger l))"
    by (fact key, fact q)
qed

text \<open>
  C38.  Two limiters of one category under one coordinator, whose lowest free slots have the same number, give an owner two
  permits that are equal, since a permit is its category, owner and slot, and the coordinator registers them as one.  After the
  first is released the release of the second raises, its slot stays held, and the scheduled work of an owner without
  other subordinate permits is released under it as if it held none, until an equal permit is registered again.
\<close>

theorem equal_permits_leak:
  assumes category: "l_category (sub_ledger l1) = sub_category l1" "l_category (sub_ledger l2) = sub_category l2"
      "sub_category l1 = sub_category l2"
    and slot: "next_slot (sub_ledger l1) = next_slot (sub_ledger l2)"
    and first: "sub_try_acquire owner now1 (p, l1) = (Inr (Sub_granted g1), p1, l1')"
    and second: "sub_try_acquire owner now2 (p1, l2) = (Inr (Sub_granted g2), p2, l2')"
    and none: "subordinates_of p owner = {}"
  shows "permit_key g1 = permit_key g2 \<and>
    (\<exists>q l1''. sub_release g1 (p2, l1') = (Inr (), q, l1'') \<and>
       sub_release g2 (q, l2') = (Inl (CapacityOwnershipError ''subordinate permit is not registered for this owner''), q, l2') \<and>
       map_of (held (sub_ledger l2')) owner = Some (permit_slot g2) \<and>
       (\<forall>n. fst (release_reservation owner n q) = fst (release_reservation owner n p)))"
proof -
  note f = sub_try_granted [OF first] and s = sub_try_granted [OF second]
  have key: "permit_key g1 = permit_key g2" using f(2) s(2) category slot by simp
  have p2: "p2 = p\<lparr>subordinates := subordinates p2\<rparr>" using f(5) s(5) by simp
  have regs: "subordinates_of p2 owner = {permit_key g2}"
    using f(5) s(5) key none by (simp add: subordinates_of_def dict_simps)
  have v: "validate_owner_key owner ''subordinate owner'' = Inr ()" using f(1) by (simp add: validate_owner_key_iff)
  have g: "permit_owner g1 = owner" "permit_owner g2 = owner" "permit_slot g1 = next_slot (sub_ledger l1)"
      "permit_slot g2 = next_slot (sub_ledger l2)" "permit_category g1 = sub_category l1'" "permit_category g2 = sub_category l2'"
    using f(2,4) s(2,4) category by (simp_all add: permit_key_def)
  have held: "map_of (held (sub_ledger l1')) owner = Some (permit_slot g1)" "map_of (held (sub_ledger l2')) owner = Some (permit_slot g2)"
    using f(3) s(3) g by (simp_all add: dict_simps)
  let ?q = "p2\<lparr>subordinates := AList.delete owner (subordinates p2)\<rparr>"
  have un: "unregister_subordinate owner g1 p2 = (Inr (), ?q)"
    by (simp add: unregister_subordinate_def v regs key)
  have gone: "subordinates_of ?q owner = {}" by (simp add: subordinates_of_def dict_simps)
  have again: "unregister_subordinate owner g2 ?q =
      (Inl (CapacityOwnershipError ''subordinate permit is not registered for this owner''), ?q)"
    by (simp add: unregister_subordinate_def v gone)
  have 1: "sub_release g1 (p2, l1') = (Inr (), ?q, sub_notify_all (on_sub (ledger_release owner) l1'))"
    using held(1) g(1,5) by (simp add: sub_release_def un)
  have 2: "sub_release g2 (?q, l2') = (Inl (CapacityOwnershipError ''subordinate permit is not registered for this owner''), ?q, l2')"
    using held(2) g(2,6) by (simp add: sub_release_def again)
  have "?q = p\<lparr>subordinates := AList.delete owner (subordinates p2)\<rparr>" using p2 by (metis limiters.surjective limiters.update_convs(4))
  moreover have "require_no_subordinates p owner = Inr ()" "require_no_subordinates ?q owner = Inr ()"
    using none gone by (auto simp: require_no_subordinates_def subordinates_of_def require_def split: option.splits)
  ultimately have "release_admission owner n ?q = release_admission owner n p" for n
    by (simp add: release_admission_def require_node_def ledger_at.simps)
  then have "fst (release_reservation owner n ?q) = fst (release_reservation owner n p)" for n
    by (simp add: release_reservation_def split: sum.splits)
  then show ?thesis using key 1 2 held(2) by blast
qed

definition example_parent :: limiters where "example_parent = snd (limiters_acquire ''A'' ''a'' None 0 0 example_limiters)"

definition first_try :: "sub_acquisition capacity_result \<times> limiters \<times> sub_limiter" where
  "first_try = sub_try_acquire ''A'' 0 (example_parent, one_connector)"

definition second_try :: "sub_acquisition capacity_result \<times> limiters \<times> sub_limiter" where
  "second_try = sub_try_acquire ''A'' 0 (fst (snd first_try), one_connector)"

theorem equal_permits_leak_witness:
  "\<exists>q l. sub_release connector_permit (fst (snd second_try), snd (snd first_try)) = (Inr (), q, l) \<and>
     sub_release connector_permit (q, snd (snd second_try)) =
       (Inl (CapacityOwnershipError ''subordinate permit is not registered for this owner''), q, snd (snd second_try)) \<and>
     fst (release_reservation ''A'' ''a'' q) = Inr ()"
proof -
  have "fst first_try = Inr (Sub_granted connector_permit)" "fst second_try = Inr (Sub_granted connector_permit)"
    "fst (release_reservation ''A'' ''a'' example_parent) = Inr ()"
    unfolding second_try_def first_try_def example_parent_def by code_simp+
  moreover from this have "sub_try_acquire ''A'' 0 (example_parent, one_connector) =
      (Inr (Sub_granted connector_permit), fst (snd first_try), snd (snd first_try))"
    "sub_try_acquire ''A'' 0 (fst (snd first_try), one_connector) =
      (Inr (Sub_granted connector_permit), fst (snd second_try), snd (snd second_try))"
    by (metis first_try_def prod.collapse, metis second_try_def prod.collapse)
  moreover have "l_category (sub_ledger one_connector) = sub_category one_connector"
    by (simp add: one_connector_def new_ledger_def)
  moreover have "subordinates example_parent = []" unfolding example_parent_def by code_simp
  then have "subordinates_of example_parent ''A'' = {}" by (simp add: subordinates_of_def)
  ultimately show ?thesis
    using equal_permits_leak [of one_connector one_connector "''A''" 0 example_parent connector_permit] by metis
qed

end
