(* ===== verification/Subordinate_Properties.thy ===== *)
theory Subordinate_Properties
  imports Capacity_Properties
begin

text \<open>
  One subordinate limiter without a rate bucket under its coordinator, at which others register and release permits of
  other categories as they like: what the limiter holds is what the coordinator has registered of its category, so
  scheduled work is never released under a permit of the limiter, and every such permit can be released.  A second
  limiter of the same category breaks this: a permit is registered by category, owner and slot (\<open>equal_permits_leak\<close>).
\<close>

subsection \<open>The shared invariant\<close>

definition permits_held :: "sub_limiter \<Rightarrow> string \<Rightarrow> (string \<times> string \<times> nat) set" where
  "permits_held l owner =
     (case map_of (held (sub_ledger l)) owner of None \<Rightarrow> {} | Some k \<Rightarrow> {(sub_category l, owner, k)})"

text \<open>What the coordinator has registered of one category.\<close>

definition registered :: "limiters \<Rightarrow> string \<Rightarrow> string \<Rightarrow> (string \<times> string \<times> nat) set" where
  "registered p category owner = {k \<in> subordinates_of p owner. fst k = category}"

definition sub_limiter_ok :: "sub_limiter \<Rightarrow> bool" where
  "sub_limiter_ok l \<longleftrightarrow>
     sub_bucket l = None \<and> sub_category l \<in> set SUBORDINATE_CATEGORIES \<and> l_category (sub_ledger l) = sub_category l \<and>
     ledger_ok (sub_ledger l) \<and> well_keyed (sub_asleep l) \<and> waiters (sub_ledger l) = keys (sub_asleep l) \<and>
     (\<forall>q \<in> set (keys (sub_asleep l)). owner_key q \<and> \<not> ledger_holds (sub_ledger l) q) \<and>
     (\<forall>q. ledger_holds (sub_ledger l) q \<longrightarrow> owner_key q)"

definition sub_ok :: "limiters \<times> sub_limiter \<Rightarrow> bool" where
  "sub_ok s \<longleftrightarrow> limiters_ok (fst s) \<and> sub_limiter_ok (snd s) \<and>
     (\<forall>q. registered (fst s) (sub_category (snd s)) q = permits_held (snd s) q)"

lemma sub_limiter_okD:
  assumes "sub_limiter_ok l"
  shows "sub_bucket l = None" "sub_category l \<in> set SUBORDINATE_CATEGORIES" "l_category (sub_ledger l) = sub_category l"
    "ledger_ok (sub_ledger l)" "well_keyed (sub_asleep l)" "waiters (sub_ledger l) = keys (sub_asleep l)"
    "q \<in> set (keys (sub_asleep l)) \<Longrightarrow> owner_key q \<and> \<not> ledger_holds (sub_ledger l) q"
    "ledger_holds (sub_ledger l) q \<Longrightarrow> owner_key q"
  using assms by (simp_all add: sub_limiter_ok_def del: set_map)

lemma sub_okD: "sub_ok (p, l) \<Longrightarrow> limiters_ok p" "sub_ok (p, l) \<Longrightarrow> sub_limiter_ok l"
    "sub_ok (p, l) \<Longrightarrow> registered p (sub_category l) q = permits_held l q"
  by (simp_all add: sub_ok_def)

lemma on_sub_fields [simp]:
  "sub_bucket (on_sub f l) = sub_bucket l" "sub_category (on_sub f l) = sub_category l" "sub_asleep (on_sub f l) = sub_asleep l"
  "sub_ledger (on_sub f l) = f (sub_ledger l)" "sub_closed (on_sub f l) = sub_closed l"
  by (simp_all add: on_sub_def)

lemma sub_dequeue_category [simp]: "sub_category (sub_dequeue owner l) = sub_category l"
  by (simp add: sub_dequeue_def on_sub_def)

lemma sub_notify_fields [simp]:
  "sub_bucket (sub_notify_all l) = sub_bucket l" "sub_category (sub_notify_all l) = sub_category l"
  "keys (sub_asleep (sub_notify_all l)) = keys (sub_asleep l)" "sub_ledger (sub_notify_all l) = sub_ledger l"
  "permits_held (sub_notify_all l) q = permits_held l q" "sub_limiter_ok (sub_notify_all l) = sub_limiter_ok l"
proof -
  show *: "sub_bucket (sub_notify_all l) = sub_bucket l" "sub_category (sub_notify_all l) = sub_category l"
    "keys (sub_asleep (sub_notify_all l)) = keys (sub_asleep l)" "sub_ledger (sub_notify_all l) = sub_ledger l"
    by (auto simp: sub_notify_all_def)
  show "permits_held (sub_notify_all l) q = permits_held l q" unfolding permits_held_def * ..
  show "sub_limiter_ok (sub_notify_all l) = sub_limiter_ok l" unfolding sub_limiter_ok_def * ..
qed

lemma ungrant_fields [simp]:
  "held (ungrant q l) = AList.delete q (held l)" "waiters (ungrant q l) = waiters l" "l_category (ungrant q l) = l_category l"
  by (simp_all add: ungrant_def)

lemma ledger_ok_ungrant: "ledger_ok l \<Longrightarrow> ledger_holds l q \<Longrightarrow> ledger_ok (ungrant q l)"
  using ledger_ok_release [of l q] by (simp add: ledger_ok_def ledger_release_def dequeue_def ungrant_def)

lemma grant_neq:
  "ledger_grant q \<noteq> id" "id \<noteq> ledger_grant q" "ledger_grant q \<noteq> ungrant q \<circ> ledger_grant q"
  "ungrant q \<circ> ledger_grant q \<noteq> ledger_grant q"
proof -
  let ?l = "new_ledger ''x'' 1"
  have "ledger_holds (ledger_grant q ?l) q" by simp
  moreover have "\<not> ledger_holds ?l q" by (simp add: ledger_holds_def new_ledger_def)
  moreover have "\<not> ledger_holds ((ungrant q \<circ> ledger_grant q) ?l) q" by (simp add: ledger_holds_def keys_delete del: set_map)
  ultimately show "ledger_grant q \<noteq> id" "id \<noteq> ledger_grant q" "ledger_grant q \<noteq> ungrant q \<circ> ledger_grant q"
    "ungrant q \<circ> ledger_grant q \<noteq> ledger_grant q"
    by (metis id_apply)+
qed

definition sub_as_asleep :: "string \<Rightarrow> UtcTimestamp \<Rightarrow> sub_limiter \<Rightarrow> sub_limiter" where
  "sub_as_asleep owner d l =
     l\<lparr>sub_asleep := AList.update owner \<lparr>sub_deadline = d, sub_notified = False\<rparr> (sub_asleep l)\<rparr>"

lemma sub_as_asleep_fields [simp]:
  "sub_bucket (sub_as_asleep q d l) = sub_bucket l" "sub_category (sub_as_asleep q d l) = sub_category l"
  "sub_ledger (sub_as_asleep q d l) = sub_ledger l" "sub_closed (sub_as_asleep q d l) = sub_closed l"
  "set (keys (sub_asleep (sub_as_asleep q d l))) = insert q (set (keys (sub_asleep l)))"
  by (simp_all add: sub_as_asleep_def set_keys_update del: set_map)

lemma permits_held_asleep [simp]: "permits_held (sub_as_asleep owner d l) q = permits_held l q"
  unfolding permits_held_def sub_as_asleep_fields ..

text \<open>Leaving the queue, with a slot or without.\<close>

lemma sub_leave:
  assumes ok: "sub_limiter_ok (sub_as_asleep owner d l)"
    and f: "f = id \<or> free_slots (sub_ledger l) \<noteq> {} \<and> (f = ledger_grant owner \<or> f = ungrant owner \<circ> ledger_grant owner)"
  shows "sub_limiter_ok (sub_dequeue owner (on_sub f l))"
    and "permits_held (sub_dequeue owner (on_sub f l)) q =
      (if q = owner \<and> f = ledger_grant owner then {(sub_category l, owner, next_slot (sub_ledger l))} else permits_held l q)"
proof -
  note o = sub_limiter_okD [OF ok]
  have own: "\<not> ledger_holds (sub_ledger l) owner" using o(7) [of owner] by (simp del: set_map)
  then have abs: "owner \<notin> set (keys (held (sub_ledger l)))" by (simp add: ledger_holds_def)
  have wait: "waiters (sub_ledger l) = keys (AList.update owner \<lparr>sub_deadline = d, sub_notified = False\<rparr> (sub_asleep l))"
    using o(6) by (simp add: sub_as_asleep_def)
  have dist: "distinct (waiters (sub_ledger l))" using o(4) by (simp add: ledger_ok_def)
  let ?l = "sub_dequeue owner (on_sub f l)"
  have asleep: "sub_asleep ?l = AList.delete owner (sub_asleep (sub_as_asleep owner d l))"
    by (simp add: sub_dequeue_def on_sub_def sub_as_asleep_def delete_update)
  have cat: "sub_category ?l = sub_category l" by (simp add: sub_dequeue_def on_sub_def)
  have ledger: "sub_ledger ?l = dequeue owner (f (sub_ledger l))" by (simp add: sub_dequeue_def on_sub_def)
  have lok: "ledger_ok (f (sub_ledger l))" "l_category (f (sub_ledger l)) = l_category (sub_ledger l)"
    "remove1 owner (waiters (f (sub_ledger l))) = filter (\<lambda>j. j \<noteq> owner) (waiters (sub_ledger l))"
    "held (f (sub_ledger l)) = (if f = ledger_grant owner then AList.update owner (next_slot (sub_ledger l)) (held (sub_ledger l))
       else held (sub_ledger l))"
  proof -
    have del: "AList.delete owner (AList.update owner (next_slot (sub_ledger l)) (held (sub_ledger l))) = held (sub_ledger l)"
      by (simp add: delete_update delete_absent [OF abs])
    show "ledger_ok (f (sub_ledger l))"
      using f o(4) own by (auto intro!: ledger_ok_grant ledger_ok_ungrant)
    show "l_category (f (sub_ledger l)) = l_category (sub_ledger l)" using f by auto
    show "remove1 owner (waiters (f (sub_ledger l))) = filter (\<lambda>j. j \<noteq> owner) (waiters (sub_ledger l))"
      using f dist by (auto simp: distinct_remove1_removeAll removeAll_filter_not_eq eq_commute [of owner])
    show "held (f (sub_ledger l)) = (if f = ledger_grant owner then AList.update owner (next_slot (sub_ledger l)) (held (sub_ledger l))
       else held (sub_ledger l))"
      using f del by (auto simp: grant_neq)
  qed
  show "permits_held ?l q =
      (if q = owner \<and> f = ledger_grant owner then {(sub_category l, owner, next_slot (sub_ledger l))} else permits_held l q)"
    unfolding permits_held_def ledger cat by (simp add: lok(4) dict_simps)
  show "sub_limiter_ok ?l"
    unfolding sub_limiter_ok_def
  proof (intro conjI)
    show "sub_bucket ?l = None" "sub_category ?l \<in> set SUBORDINATE_CATEGORIES" "l_category (sub_ledger ?l) = sub_category ?l"
      using o(1-3) lok(2) by (simp_all add: ledger) (simp_all add: sub_dequeue_def)
    show "ledger_ok (sub_ledger ?l)" unfolding ledger by (rule ledger_ok_dequeue [OF lok(1)])
    show "well_keyed (sub_asleep ?l)" unfolding asleep by (rule well_keyed_delete [OF o(5)])
    show "waiters (sub_ledger ?l) = keys (sub_asleep ?l)"
      unfolding asleep ledger keys_delete using lok(3) o(6) by simp
    show "\<forall>q. ledger_holds (sub_ledger ?l) q \<longrightarrow> owner_key q"
      using o(7) [of owner] o(8) by (auto simp: ledger ledger_holds_def lok(4) set_keys_update simp del: set_map)
    show "\<forall>q\<in>set (keys (sub_asleep ?l)). owner_key q \<and> \<not> ledger_holds (sub_ledger ?l) q"
    proof
      fix q assume "q \<in> set (keys (sub_asleep ?l))"
      then have q: "q \<in> set (keys (sub_asleep (sub_as_asleep owner d l)))" "q \<noteq> owner" unfolding asleep keys_delete by auto
      have "ledger_holds (f (sub_ledger l)) q = ledger_holds (sub_ledger l) q"
        using q(2) by (simp add: ledger_holds_def lok(4) set_keys_update del: set_map)
      then show "owner_key q \<and> \<not> ledger_holds (sub_ledger ?l) q" using o(7) [OF q(1)] by (simp add: ledger)
    qed
  qed
qed

subsection \<open>Registering\<close>

lemma register_result:
  assumes p: "permit_category q \<in> set SUBORDINATE_CATEGORIES" "permit_owner q = owner" "owner_key owner"
  shows "register_subordinate owner q p =
    (if holds_all p owner
     then (Inr (), p\<lparr>subordinates := AList.update owner (insert (permit_key q) (subordinates_of p owner)) (subordinates p)\<rparr>)
     else (Inl (CapacityOwnershipError ''subordinate capacity requires a held scheduled-work reservation''), p))"
proof -
  have "validate_owner_key owner ''subordinate owner'' = Inr ()" using p(3) by (simp add: validate_owner_key_iff)
  then show ?thesis using p by (simp add: register_subordinate_def require_def)
qed

lemma subordinates_of_update:
  "subordinates_of (p\<lparr>subordinates := AList.update owner ps (subordinates p)\<rparr>) q = (if q = owner then ps else subordinates_of p q)"
  by (simp add: subordinates_of_def dict_simps)

lemma registered_insert:
  "registered (p\<lparr>subordinates := AList.update owner (insert k (subordinates_of p owner)) (subordinates p)\<rparr>) c q =
     (if q = owner \<and> fst k = c then insert k (registered p c q) else registered p c q)"
  by (auto simp: registered_def subordinates_of_update)

lemma take_token_none: "sub_bucket l = None \<Longrightarrow> take_token now l = (Inr True, l)"
  by (simp add: take_token_def)

lemma grant_and_register:
  assumes ok: "limiters_ok p" "sub_limiter_ok (sub_as_asleep owner d l)" "\<And>q. registered p (sub_category l) q = permits_held l q"
    and key: "owner_key owner" and free: "free_slots (sub_ledger l) \<noteq> {}"
  defines "g \<equiv> \<lparr>permit_category = sub_category l, permit_limit = l_limit (sub_ledger l), permit_owner = owner,
      permit_slot = next_slot (sub_ledger l)\<rparr>"
  shows "granted_permit owner (sub_ledger l) = Inr g"
    and "case register_with_parent owner g (p, on_sub (ledger_grant owner) l) of
      (answer, p', l') \<Rightarrow> sub_ok (p', sub_dequeue owner l')"
proof -
  note o = sub_limiter_okD [OF ok(2)]
  show "granted_permit owner (sub_ledger l) = Inr g"
    using granted_permit_ok [of "sub_ledger l" owner] o(2-4) free key
    by (auto simp: g_def validate_owner_key_iff SUBORDINATE_CATEGORIES_def)
  have g: "permit_category g \<in> set SUBORDINATE_CATEGORIES" "permit_owner g = owner" using o(2) by (simp_all add: g_def)
  have none: "registered p (sub_category l) owner = {}"
  proof -
    have "owner \<notin> set (keys (held (sub_ledger l)))" using o(7) [of owner] by (simp add: ledger_holds_def del: set_map)
    then show ?thesis using ok(3) [of owner] by (auto simp: permits_held_def in_keys_iff_map_of simp del: set_map split: option.splits)
  qed
  show "case register_with_parent owner g (p, on_sub (ledger_grant owner) l) of
      (answer, p', l') \<Rightarrow> sub_ok (p', sub_dequeue owner l')"
  proof (cases "holds_all p owner")
    case True
    have "limiters_ok (p\<lparr>subordinates := AList.update owner (insert (permit_key g) (subordinates_of p owner)) (subordinates p)\<rparr>)"
      using register_subordinate_ok [OF ok(1), of owner g] True by (simp add: register_result [OF g key])
    moreover note sub_leave [OF ok(2), of "ledger_grant owner"]
    ultimately show ?thesis
      using True free none ok(3)
      by (simp add: register_with_parent_def register_result [OF g key] sub_ok_def registered_insert)
        (simp add: g_def permit_key_def)
  next
    case False
    have eq: "sub_dequeue owner (sub_notify_all (on_sub (ungrant owner) (on_sub (ledger_grant owner) l))) =
        sub_notify_all (sub_dequeue owner (on_sub (ungrant owner \<circ> ledger_grant owner) l))"
    proof -
      have "AList.delete owner (map (\<lambda>(q, w). (q, w\<lparr>sub_notified := True\<rparr>)) ws) =
          map (\<lambda>(q, w). (q, w\<lparr>sub_notified := True\<rparr>)) (AList.delete owner ws)" for ws :: "(string, sub_sleeper) dict"
        by (induction ws) (auto simp: AList.delete_eq)
      then show ?thesis by (simp add: sub_dequeue_def sub_notify_all_def on_sub_def)
    qed
    show ?thesis
      using False sub_leave [OF ok(2), of "ungrant owner \<circ> ledger_grant owner"] free ok(1,3)
      by (simp add: register_with_parent_def register_result [OF g key] sub_ok_def eq grant_neq)
  qed
qed

subsection \<open>Every call keeps the shared invariant\<close>

lemma sub_dequeue_asleep: "sub_dequeue owner (sub_as_asleep owner d l) = sub_dequeue owner l"
  by (simp add: sub_dequeue_def sub_as_asleep_def on_sub_def delete_update)

lemma on_sub_id [simp]: "on_sub id l = l"
  by (simp add: on_sub_def)

lemma may_grant_free: "may_grant l owner \<Longrightarrow> free_slots l \<noteq> {}"
  by (simp add: may_grant_def)

lemma sub_round_ok:
  assumes ok: "limiters_ok p" "\<And>d. sub_limiter_ok (sub_as_asleep owner d l)" "\<And>q. registered p (sub_category l) q = permits_held l q"
    and key: "owner_key owner"
  shows "sub_ok (snd (sub_round owner deadline now1 now2 (p, l)))"
proof -
  have left: "sub_ok (p, sub_dequeue owner l)"
    using sub_leave [OF ok(2), of id] ok(1,3)
    by (simp add: sub_ok_def grant_neq)
  have granted: "sub_ok (case grant_checked owner deadline now2 (p, l) of (answer, p', l') \<Rightarrow> (p', sub_dequeue owner l'))"
    if "may_grant (sub_ledger l) owner"
  proof -
    note g = grant_and_register [OF ok(1) ok(2) ok(3) key may_grant_free [OF that]]
    have "sub_bucket l = None" using sub_limiter_okD(1) [OF ok(2)] by simp
    then show ?thesis
      using g by (auto simp: grant_checked_def Let_def take_token_none split: prod.splits sum.splits)
  qed
  have asleep: "sub_ok (p, sub_as_asleep owner d l)" for d
    using ok by (simp add: sub_ok_def)
  show ?thesis
    using left granted asleep
    by (auto simp: sub_round_def Let_def sub_as_asleep_def split: prod.splits option.splits)
qed

lemma sub_admitted:
  assumes ok: "sub_ok (p, l)" and adm: "sub_admission owner (p, l) = Inr ()" and key: "owner_key owner"
  shows "owner \<notin> set (keys (sub_asleep l))" "\<not> ledger_holds (sub_ledger l) owner"
  using adm sub_limiter_okD(6) [OF sub_okD(2) [OF ok]]
  by (auto simp: sub_admission_def result_simps has_waiter_def simp del: set_map)

lemma sub_join:
  assumes ok: "sub_limiter_ok l" and key: "owner_key owner"
    and fresh: "owner \<notin> set (keys (sub_asleep l))" "\<not> ledger_holds (sub_ledger l) owner"
  shows "sub_limiter_ok (sub_as_asleep owner d (on_sub (enqueue owner) l))"
proof -
  note o = sub_limiter_okD [OF ok]
  have asleep: "sub_asleep (sub_as_asleep owner d (on_sub (enqueue owner) l)) =
      sub_asleep l @ [(owner, \<lparr>sub_deadline = d, sub_notified = False\<rparr>)]"
    using fresh(1) by (simp add: sub_as_asleep_def update_absent)
  show ?thesis
    using o(1-6) o(7,8) fresh key ledger_ok_enqueue [of "sub_ledger l" owner]
    unfolding sub_limiter_ok_def asleep by (auto simp del: set_map)
qed

lemma sub_stay:
  assumes ok: "sub_limiter_ok l" and w: "map_of (sub_asleep l) owner = Some w"
  shows "sub_limiter_ok (sub_as_asleep owner d l)"
proof -
  have own: "owner \<in> set (keys (sub_asleep l))" using w by (rule map_of_eq_Some_in_keys)
  have "keys (sub_asleep (sub_as_asleep owner d l)) = keys (sub_asleep l)"
    using own by (simp add: sub_as_asleep_def keys_update_present)
  then show ?thesis using ok unfolding sub_limiter_ok_def by (simp del: set_map)
qed

lemma sub_acquire_ok:
  assumes ok: "sub_ok (p, l)"
  shows "sub_ok (snd (sub_acquire owner parent deadline now1 now2 now3 (p, l)))"
proof -
  let ?adm = "bind_result (validate_owner_key owner ''acquisition owner'') (\<lambda>_.
        bind_result (validate_parent_triple owner parent) (\<lambda>_.
        bind_result (sub_admission owner (p, l)) (\<lambda>_.
        invalid_capacity (case deadline of None \<Rightarrow> True | Some d \<Rightarrow> \<not> d - now1 > MAX_WAIT_MICROSECONDS)
          ''wait deadline exceeds the maximum bounded wait'')))"
  show ?thesis
  proof (cases ?adm)
    case (Inr x)
    then have key: "owner_key owner" and adm: "sub_admission owner (p, l) = Inr ()"
      by (auto simp: result_simps validate_owner_key_iff)
    have "sub_ok (snd (sub_round owner deadline now2 now3 (p, on_sub (enqueue owner) l)))"
    proof (rule sub_round_ok [OF sub_okD(1) [OF ok] sub_join [OF sub_okD(2) [OF ok] key sub_admitted [OF ok adm key]] _ key])
      have "permits_held (on_sub (enqueue owner) l) q = permits_held l q" for q
        unfolding permits_held_def on_sub_fields ledger_simps ..
      then show "registered p (sub_category (on_sub (enqueue owner) l)) q = permits_held (on_sub (enqueue owner) l) q" for q
        using sub_okD(3) [OF ok] by simp
    qed
    then show ?thesis unfolding sub_acquire_def Inr by simp
  next
    case (Inl e)
    show ?thesis unfolding sub_acquire_def Inl using ok by simp
  qed
qed

lemma sub_resume_ok:
  assumes ok: "sub_ok (p, l)"
  shows "sub_ok (snd (sub_resume owner timed_out now1 now2 (p, l)))"
proof (cases "map_of (sub_asleep l) owner")
  case (Some w)
  have "owner_key owner" using sub_limiter_okD(7) [OF sub_okD(2) [OF ok] map_of_eq_Some_in_keys [OF Some]] by blast
  then have "sub_ok (snd (sub_round owner (Some (sub_deadline w)) now1 now2 (p, l)))"
    using sub_okD [OF ok] by (intro sub_round_ok sub_stay [OF _ Some])
  then show ?thesis using ok Some by (simp add: sub_resume_def)
qed (use ok in \<open>simp add: sub_resume_def\<close>)

lemma sub_try_acquire_ok:
  assumes ok: "sub_ok (p, l)"
  shows "sub_ok (snd (sub_try_acquire owner now (p, l)))"
proof (cases "bind_result (validate_owner_key owner ''acquisition owner'') (\<lambda>_. sub_admission owner (p, l))")
  case (Inr x)
  then have key: "owner_key owner" and adm: "sub_admission owner (p, l) = Inr ()"
    by (auto simp: result_simps validate_owner_key_iff)
  note o = sub_okD [OF ok]
  note fresh = sub_admitted [OF ok adm key]
  show ?thesis
  proof (cases "may_grant (sub_ledger l) owner")
    case True
    have idle: "sub_dequeue owner l' = l'" if "owner \<notin> set (keys (sub_asleep l'))" "owner \<notin> set (waiters (sub_ledger l'))" for l'
      using that by (simp add: sub_dequeue_def on_sub_def delete_absent dequeue_def remove1_idem)
    let ?q = "on_sub (enqueue owner) l" and ?l = "on_sub (ledger_grant owner) l"
    have wait: "owner \<notin> set (waiters (sub_ledger l))" using fresh(1) sub_limiter_okD(6) [OF o(2)] by simp
    then have same: "on_sub (ledger_grant owner) ?q = ?l"
      by (simp add: on_sub_def ledger_grant_def enqueue_def dequeue_def next_slot_def Let_def remove1_append remove1_idem)
    have held_q: "permits_held ?q v = permits_held l v" for v unfolding permits_held_def on_sub_fields ledger_simps ..
    have none: "sub_bucket l = None" using sub_limiter_okD(1) [OF o(2)] .
    have free: "free_slots (sub_ledger ?q) \<noteq> {}" using may_grant_free [OF True] by simp
    define g where "g = \<lparr>permit_category = sub_category l, permit_limit = l_limit (sub_ledger l), permit_owner = owner,
      permit_slot = next_slot (sub_ledger l)\<rparr>"
    have "registered p (sub_category ?q) v = permits_held ?q v" for v using o(3) held_q by simp
    note reg = grant_and_register [OF o(1) sub_join [OF o(2) key fresh] this key free]
    have g: "\<lparr>permit_category = sub_category ?q, permit_limit = l_limit (sub_ledger ?q), permit_owner = owner,
      permit_slot = next_slot (sub_ledger ?q)\<rparr> = g" "granted_permit owner (sub_ledger ?q) = granted_permit owner (sub_ledger l)"
      by (simp_all add: g_def next_slot_def granted_permit_def)
    obtain answer p' l' where r: "register_with_parent owner g (p, ?l) = (answer, p', l')" by (metis prod_cases3)
    have "owner \<notin> set (keys (sub_asleep l'))" "owner \<notin> set (waiters (sub_ledger l'))"
      using r fresh(1) wait
      by (auto simp: register_with_parent_def remove1_idem simp del: set_map split: prod.splits sum.splits)
    then have "sub_dequeue owner l' = l'" by (rule idle)
    moreover have "sub_ok (p', sub_dequeue owner l')" using reg(2) unfolding g(1) same r by simp
    ultimately have "sub_ok (p', l')" by simp
    moreover have "granted_permit owner (sub_ledger l) = Inr g" using reg(1) unfolding g .
    ultimately show ?thesis
      using True r by (auto simp: sub_try_acquire_def Inr take_token_none none split: sum.splits)
  next
    case False
    show ?thesis unfolding sub_try_acquire_def Inr using ok False by simp
  qed
next
  case (Inl e)
  then show ?thesis using ok by (simp add: sub_try_acquire_def)
qed

lemma held_subordinate:
  assumes ok: "sub_ok (p, l)" and k: "map_of (held (sub_ledger l)) owner = Some k"
  shows "(sub_category l, owner, k) \<in> subordinates_of p owner" "owner_key owner" "holds_all p owner"
    "owner \<notin> set (keys (sub_asleep l))"
proof -
  note o = sub_okD [OF ok]
  show s: "(sub_category l, owner, k) \<in> subordinates_of p owner"
    using o(3) [of owner] k by (auto simp: permits_held_def registered_def)
  have h: "ledger_holds (sub_ledger l) owner" using map_of_eq_Some_in_keys [OF k] by (simp add: ledger_holds_def)
  show "owner_key owner" by (rule sub_limiter_okD(8) [OF o(2) h])
  show "owner \<notin> set (keys (sub_asleep l))" using sub_limiter_okD(7) [OF o(2)] h by blast
  obtain ps where "map_of (subordinates p) owner = Some ps" using s by (auto simp: subordinates_of_def split: option.splits)
  from limiters_okD(12) [OF o(1) map_of_SomeD [OF this]]
  obtain n where n: "Level_NODE n \<in> levels p" "holds_level p (Level_NODE n) owner" by blast
  have "holds_level p Level_STRATEGY owner" using limiters_okD(10) [OF o(1) n] .
  moreover from this have "holds_level p Level_GLOBAL owner" using limiters_okD(9) [OF o(1)] by blast
  ultimately show "holds_all p owner"
    using n any_node_holds_iff [OF limiters_okD(1) [OF o(1)]] by (auto simp: holds_all_def holds_level_def ledger_at.simps)
qed

text \<open>What the coordinator has registered after a call of its own.\<close>

lemma unregister_effect:
  assumes "owner_key owner" and "permit_key q \<in> subordinates_of p owner"
  shows "\<exists>p'. unregister_subordinate owner q p = (Inr (), p') \<and>
    (\<forall>v. subordinates_of p' v = (if v = owner then subordinates_of p v - {permit_key q} else subordinates_of p v))"
proof -
  have "validate_owner_key owner ''subordinate owner'' = Inr ()" using assms(1) by (simp add: validate_owner_key_iff)
  then show ?thesis
    using assms(2) by (auto simp: unregister_subordinate_def Let_def subordinates_of_def dict_simps)
qed

lemma sub_release_result:
  assumes ok: "sub_ok (p, l)" and k: "map_of (held (sub_ledger l)) (permit_owner q) = Some (permit_slot q)"
    and c: "permit_category q = sub_category l"
  shows "\<exists>p'. sub_release q (p, l) = (Inr (), p', sub_notify_all (on_sub (ledger_release (permit_owner q)) l)) \<and>
    limiters_ok p' \<and> (\<forall>v. subordinates_of p' v =
      (if v = permit_owner q then subordinates_of p v - {permit_key q} else subordinates_of p v))"
proof -
  note h = held_subordinate [OF ok k]
  have "permit_key q \<in> subordinates_of p (permit_owner q)" using h(1) by (simp add: permit_key_def c)
  from unregister_effect [OF h(2) this] obtain p' where p': "unregister_subordinate (permit_owner q) q p = (Inr (), p')"
    "\<forall>v. subordinates_of p' v = (if v = permit_owner q then subordinates_of p v - {permit_key q} else subordinates_of p v)"
    by blast
  have "limiters_ok p'" using unregister_subordinate_ok [OF sub_okD(1) [OF ok], of "permit_owner q" q] p'(1) by simp
  then show ?thesis
    using p' unfolding sub_release_def fst_conv snd_conv c k p'(1) by simp
qed

lemma sub_release_ok:
  assumes ok: "sub_ok (p, l)"
  shows "sub_ok (snd (sub_release q (p, l)))"
proof (cases "map_of (held (sub_ledger l)) (permit_owner q) = Some (permit_slot q) \<and> permit_category q = sub_category l")
  case True
  let ?o = "permit_owner q"
  note o = sub_okD [OF ok] and h = held_subordinate [OF ok True [THEN conjunct1]]
  note l = sub_limiter_okD [OF o(2)]
  let ?l = "on_sub (ledger_release ?o) l"
  obtain p' where p': "sub_release q (p, l) = (Inr (), p', sub_notify_all ?l)" "limiters_ok p'"
    "\<And>v. subordinates_of p' v = (if v = ?o then subordinates_of p v - {permit_key q} else subordinates_of p v)"
    using sub_release_result [OF ok] True by blast
  have holds: "ledger_holds (sub_ledger l) ?o"
    using map_of_eq_Some_in_keys True by (metis ledger_holds_def)
  have "sub_limiter_ok ?l"
    using l(1-8) h(4) ledger_ok_release [OF l(4) holds] unfolding sub_limiter_ok_def on_sub_fields
    by (simp add: remove1_idem del: set_map)
  moreover have "registered p' (sub_category l) v = permits_held ?l v" for v
  proof -
    have "registered p' (sub_category l) v =
        (if v = ?o then registered p (sub_category l) v - {permit_key q} else registered p (sub_category l) v)"
      using p'(3) [of v] by (auto simp: registered_def)
    also have "\<dots> = permits_held ?l v"
      unfolding o(3) using True by (simp add: permits_held_def dict_simps permit_key_def cong: option.case_cong)
    finally show ?thesis .
  qed
  ultimately show ?thesis
    using p' by (simp add: sub_ok_def)
next
  case False
  then have "snd (sub_release q (p, l)) = (p, l)" by (auto simp: sub_release_def require_def)
  then show ?thesis using ok by simp
qed

lemma sub_close_ok: "sub_limiter_ok l \<Longrightarrow> sub_limiter_ok (sub_close l) \<and> permits_held (sub_close l) q = permits_held l q"
proof -
  assume ok: "sub_limiter_ok l"
  have "sub_limiter_ok (l\<lparr>sub_closed := True\<rparr>)" using ok by (simp add: sub_limiter_ok_def)
  moreover have "permits_held (l\<lparr>sub_closed := True\<rparr>) q = permits_held l q"
    unfolding permits_held_def by (simp cong: option.case_cong)
  ultimately show ?thesis using ok by (simp add: sub_close_def)
qed

subsection \<open>Both objects under all calls\<close>

datatype shared_op =
    On_parent limiter_op
  | Sub_acquire string "CapacityPermit list" "UtcTimestamp option" UtcTimestamp UtcTimestamp UtcTimestamp
  | Sub_resume string bool UtcTimestamp UtcTimestamp
  | Sub_try string UtcTimestamp
  | Sub_release CapacityPermit
  | Sub_close

datatype shared_answer =
    From_parent "limiter_answer capacity_result" | From_sub "sub_acquisition capacity_result" | From_release "unit capacity_result"

fun shared_call :: "shared_op \<Rightarrow> limiters \<times> sub_limiter \<Rightarrow> shared_answer \<times> limiters \<times> sub_limiter" where
  "shared_call (On_parent x) s = (case limiter_call x (fst s) of (r, p) \<Rightarrow> (From_parent r, p, snd s))"
| "shared_call (Sub_acquire owner parent deadline now1 now2 now3) s =
     (case sub_acquire owner parent deadline now1 now2 now3 s of (r, s') \<Rightarrow> (From_sub r, s'))"
| "shared_call (Sub_resume owner timed_out now1 now2) s =
     (case sub_resume owner timed_out now1 now2 s of (r, s') \<Rightarrow> (From_sub r, s'))"
| "shared_call (Sub_try owner now) s = (case sub_try_acquire owner now s of (r, s') \<Rightarrow> (From_sub r, s'))"
| "shared_call (Sub_release p) s = (case sub_release p s of (r, s') \<Rightarrow> (From_release r, s'))"
| "shared_call Sub_close s = (From_release (Inr ()), fst s, sub_close (snd s))"

text \<open>Who registers or unregisters permits of the limiter's category, other than the limiter itself.\<close>

fun interferes :: "string \<Rightarrow> shared_op \<Rightarrow> bool" where
  "interferes c (On_parent (Do_register _ p)) = (permit_category p = c)"
| "interferes c (On_parent (Do_unregister _ p)) = (permit_category p = c)"
| "interferes c _ = False"

lemma subordinates_acquire_round: "subordinates (snd (acquire_round owner node deadline now s)) = subordinates s"
proof -
  have grant: "subordinates (snd (grant_level lv owner s)) = subordinates s" for lv s by (simp add: grant_level_def)
  have "subordinates (snd (grant_all owner node s)) = subordinates s"
    using grant [of Level_GLOBAL s] grant [of Level_STRATEGY "snd (grant_level Level_GLOBAL owner s)"]
      grant [of "Level_NODE node" "snd (grant_level Level_STRATEGY owner (snd (grant_level Level_GLOBAL owner s)))"]
    by (auto simp: grant_all_def split: prod.splits sum.splits)
  then show ?thesis by (auto simp: acquire_round_def dequeue_all_def split: prod.splits option.splits)
qed

lemma subordinates_call:
  "\<forall>owner p. x \<noteq> Do_register owner p \<and> x \<noteq> Do_unregister owner p \<Longrightarrow> subordinates (snd (limiter_call x s)) = subordinates s"
  by (cases x) (auto simp: answered_def limiters_acquire_def limiters_resume_def subordinates_acquire_round enqueue_all_def
      release_reservation_def acquire_level_def grant_level_def release_level_def limiters_close_def split: sum.splits option.splits)

lemma registered_register:
  assumes "permit_category q \<noteq> c"
  shows "registered (snd (register_subordinate owner q p)) c v = registered p c v"
proof -
  have "snd (register_subordinate owner q p) = p \<or> snd (register_subordinate owner q p) =
      p\<lparr>subordinates := AList.update owner (insert (permit_key q) (subordinates_of p owner)) (subordinates p)\<rparr>"
    by (auto simp: register_subordinate_def split: sum.splits)
  then show ?thesis
  proof
    assume same: "snd (register_subordinate owner q p) =
      p\<lparr>subordinates := AList.update owner (insert (permit_key q) (subordinates_of p owner)) (subordinates p)\<rparr>"
    show ?thesis unfolding same registered_insert using assms by (simp add: permit_key_def)
  qed simp
qed

lemma registered_unregister:
  assumes "permit_category q \<noteq> c"
  shows "registered (snd (unregister_subordinate owner q p)) c v = registered p c v"
proof (cases "owner_key owner \<and> permit_key q \<in> subordinates_of p owner")
  case True
  then obtain p' where p': "unregister_subordinate owner q p = (Inr (), p')"
    "\<forall>v. subordinates_of p' v = (if v = owner then subordinates_of p v - {permit_key q} else subordinates_of p v)"
    using unregister_effect [of owner q p] by blast
  have "subordinates_of p' v = (if v = owner then subordinates_of p v - {permit_key q} else subordinates_of p v)"
    using p'(2) by blast
  then show ?thesis
    using p'(1) assms by (auto simp: registered_def permit_key_def)
next
  case False
  then have "snd (unregister_subordinate owner q p) = p"
    by (auto simp: unregister_subordinate_def result_simps validate_owner_key_iff split: sum.splits)
  then show ?thesis by simp
qed

lemma registered_call:
  assumes "\<not> interferes c (On_parent x)"
  shows "registered (snd (limiter_call x s)) c q = registered s c q"
proof (cases "\<exists>owner p. x = Do_register owner p \<or> x = Do_unregister owner p")
  case True
  then show ?thesis
    using assms registered_register registered_unregister by (auto simp: answered_def)
next
  case False
  then have "subordinates (snd (limiter_call x s)) = subordinates s" by (intro subordinates_call) blast
  then show ?thesis by (simp add: registered_def subordinates_of_def)
qed

lemma take_token_category [simp]: "sub_category (snd (take_token now l)) = sub_category l"
  by (auto simp: take_token_def split: option.splits prod.splits sum.splits)

lemma register_category [simp]: "sub_category (snd (snd (register_with_parent owner q s))) = sub_category (snd s)"
  by (auto simp: register_with_parent_def split: prod.splits sum.splits)

lemma grant_category: "sub_category (snd (snd (grant_checked owner deadline now s))) = sub_category (snd s)"
proof -
  let ?l = "on_sub (ledger_grant owner) (snd s)"
  obtain r l' where t: "take_token now ?l = (r, l')" by (rule prod.exhaust)
  then have c: "sub_category l' = sub_category (snd s)" using take_token_category [of now ?l] by simp
  have "sub_category b = sub_category (snd s)" if "register_with_parent owner q (fst s, l') = (x, a, b)" for q x a b
    using register_category [of owner q "(fst s, l')"] c that by simp
  then show ?thesis
    using c by (auto simp: grant_checked_def Let_def t split: sum.splits bool.splits prod.splits)
qed

lemma sub_round_category: "sub_category (snd (snd (sub_round owner deadline now1 now2 s))) = sub_category (snd s)"
  using grant_category [of owner deadline now2 s]
  by (auto simp: sub_round_def Let_def split: prod.splits option.splits)

lemma sub_category_call: "sub_category (snd (snd (shared_call x s))) = sub_category (snd s)"
  by (cases x) (auto simp: sub_acquire_def sub_resume_def sub_round_category sub_try_acquire_def take_token_def
      register_with_parent_def sub_release_def sub_close_def split_beta split: prod.splits sum.splits option.splits bool.splits)

lemma shared_call_ok:
  assumes ok: "sub_ok s" and x: "\<not> interferes (sub_category (snd s)) x"
  shows "sub_ok (snd (shared_call x s))"
proof (cases s)
  case (Pair p l)
  note o = ok [unfolded Pair]
  show ?thesis
  proof (cases x)
    case (On_parent y)
    have "sub_ok (snd (limiter_call y p), l)"
      using sub_okD [OF o] limiter_call_ok [of p y] registered_call [of "sub_category l" y p] x On_parent Pair
      by (simp add: sub_ok_def)
    then show ?thesis by (simp add: On_parent Pair split_beta)
  next
    case Sub_close
    have "sub_category (sub_close l) = sub_category l" by (simp add: sub_close_def)
    then show ?thesis using sub_okD [OF o] sub_close_ok [of l] Sub_close by (simp add: Pair sub_ok_def)
  qed (use sub_acquire_ok [OF o] sub_resume_ok [OF o] sub_try_acquire_ok [OF o] sub_release_ok [OF o] in
      \<open>simp_all add: Pair split_beta\<close>)
qed

interpretation shared_machine: guarded_machine shared_call "\<lambda>s. sub_ok s \<and> sub_category (snd s) = c" "\<lambda>x. \<not> interferes c x" for c
  by unfold_locales (auto simp: sub_category_call shared_call_ok)

lemma make_sub_limiter_ok:
  assumes ok: "limiters_ok p" and none: "subordinates p = []" and made: "make_sub_limiter category limit None = Inr l"
  shows "sub_ok (p, l)"
proof -
  from made have l: "l = \<lparr>sub_category = category, sub_ledger = new_ledger category limit, sub_bucket = None, sub_closed = False,
      sub_asleep = []\<rparr>" "category \<in> set SUBORDINATE_CATEGORIES" "captured_limit limit"
    by (auto simp: make_sub_limiter_def result_simps invalid_capacity_def)
  have "ledger_ok (new_ledger category limit)" using l(3) by (intro new_ledger_ok) (simp_all add: captured_limit_def)
  moreover have "held (new_ledger category limit) = []" "waiters (new_ledger category limit) = []"
    "l_category (new_ledger category limit) = category"
    by (simp_all add: new_ledger_def)
  ultimately show ?thesis
    using ok l(2) none by (simp add: sub_ok_def sub_limiter_ok_def l(1) permits_held_def registered_def
        subordinates_of_def ledger_holds_def)
qed

definition pool_permit :: CapacityPermit where
  "pool_permit = \<lparr>permit_category = CAPACITY_CATEGORY_CPU_POOL, permit_limit = 1, permit_owner = ''A'', permit_slot = 1\<rparr>"

text \<open>
  C11.  A permit of a subordinate limiter pins the scheduled work it belongs to.  Take one limiter without a rate bucket
  under its coordinator, and any calls on the two in which nobody else registers or unregisters permits of the limiter's
  category (another limiter of another category may).  As long as an owner holds a slot of the limiter it holds all three
  levels, neither the reservation nor one of its levels can be released, and the permit itself can.
\<close>

theorem subordinate_pins_parent:
  assumes made: "make_limiters g st nd strategy ids = Inr s0"
    and bounds: "g \<in> {1..MAX_CAPTURED_LIMIT}" "st \<in> {1..MAX_CAPTURED_LIMIT}" "nd \<in> {1..MAX_CAPTURED_LIMIT}"
    and sub: "make_sub_limiter category limit None = Inr l0"
    and calls: "list_all (\<lambda>x. \<not> interferes category x) xs" and s: "(p, l) = snd (perform shared_call xs (s0, l0))"
    and k: "map_of (held (sub_ledger l)) owner = Some k"
  shows "holds_all p owner \<and> (\<forall>n. fst (release_reservation owner n p) \<noteq> Inr ()) \<and>
    (\<forall>c n. fst (release_level c owner n p) \<noteq> Inr ()) \<and>
    fst (sub_release \<lparr>permit_category = category, permit_limit = limit, permit_owner = owner, permit_slot = k\<rparr> (p, l)) = Inr ()"
proof -
  have none: "subordinates s0 = []" using made by (auto simp: make_limiters_def result_simps)
  have "sub_category l0 = category" using sub by (auto simp: make_sub_limiter_def result_simps)
  then have "sub_ok (p, l) \<and> sub_category (snd (p, l)) = category"
    unfolding s using make_sub_limiter_ok [OF make_limiters_ok(1) [OF made bounds] none sub]
    by (intro shared_machine.perform_guarded [OF _ calls]) simp
  then have ok: "sub_ok (p, l)" and c: "sub_category l = category" by simp_all
  note h = held_subordinate [OF ok k]
  have "require_no_subordinates p owner \<noteq> Inr ()"
    using h(1) by (auto simp: require_no_subordinates_def require_def subordinates_of_def split: option.splits)
  then have "release_admission owner n p \<noteq> Inr ()" "release_level_admission c owner m p \<noteq> Inr lv" for n c m lv
    by (auto simp: release_admission_def release_level_admission_def result_simps Let_def)
  then have "fst (release_reservation owner n p) \<noteq> Inr ()" "fst (release_level c owner m p) \<noteq> Inr ()" for n c m
    by (auto simp: release_reservation_def release_level_def split: sum.splits)
  then show ?thesis
    using h(3) sub_release_result [OF ok, of "\<lparr>permit_category = category, permit_limit = limit, permit_owner = owner, permit_slot = k\<rparr>"] k c
    by auto
qed

theorem subordinate_pins_parent_witness:
  "\<exists>p l. (p, l) = snd (perform shared_call
       [On_parent (Do_acquire ''A'' ''a'' None 0 0), Sub_try ''A'' 0, On_parent (Do_register ''A'' pool_permit)] (example_limiters, one_connector)) \<and>
     map_of (held (sub_ledger l)) ''A'' = Some 1 \<and> fst (release_reservation ''A'' ''a'' p) \<noteq> Inr ()"
proof -
  let ?xs = "[On_parent (Do_acquire ''A'' ''a'' None 0 0), Sub_try ''A'' 0, On_parent (Do_register ''A'' pool_permit)]"
  let ?r = "snd (perform shared_call ?xs (example_limiters, one_connector))"
  have l: "make_sub_limiter CAPACITY_CATEGORY_CONNECTOR 1 None = Inr one_connector" by code_simp
  have k: "map_of (held (sub_ledger (snd ?r))) ''A'' = Some 1" by code_simp
  have c: "list_all (\<lambda>x. \<not> interferes CAPACITY_CATEGORY_CONNECTOR x) ?xs" by code_simp
  have "(fst ?r, snd ?r) = ?r" by (rule prod.collapse)
  from subordinate_pins_parent [OF example_limiters_made small_limits(2,2,1) l c this k] k prod.collapse [of ?r]
  show ?thesis by (intro exI [of _ "fst ?r"] exI [of _ "snd ?r"]) blast
qed

end
