(* ===== verification/Pause_Token.thy ===== *)
theory Pause_Token
  imports Tracker
begin

text \<open>
  The pause signal a coordinator and a sequential runner share (\<^verbatim>\<open>application/execution/pause.py\<close>,
  \<^verbatim>\<open>PauseAcknowledgement\<close> and \<^verbatim>\<open>PauseToken\<close>).  Every method holds the token's lock; the runner's acknowledgement
  takes it twice, with only a copy of its argument between the two, and the authority it checks in both is assigned
  once, so it is one step here.  The identity of an acknowledgement object is a number, the count of acknowledgements
  before it; the authority of a runner is a number the runner is created with.
\<close>

datatype pause_error =
    PauseCoordinatorBusyError string
  | PauseCoordinatorInvalidRequestError string

type_synonym 'a pause_result = "(pause_error, 'a) result"

record PauseAcknowledgement =
  ack_identity :: nat
  ack_scheduler_state :: SchedulerState
  ack_generation :: int

record PauseToken =
  pause_generation :: int
  pause_requested :: bool
  pause_acknowledgement :: "PauseAcknowledgement option"
  pause_acknowledged_state :: "SchedulerState option"
  pause_authority :: "nat option"
  pause_issued :: nat

definition new_PauseToken :: PauseToken where
  "new_PauseToken =
     \<lparr>pause_generation = 0, pause_requested = False, pause_acknowledgement = None, pause_acknowledged_state = None,
      pause_authority = None, pause_issued = 0\<rparr>"

text \<open>\<^verbatim>\<open>_snapshot_scheduler\<close> builds the state again, with the checks of its constructors.\<close>

definition snapshot_scheduler :: "SchedulerState \<Rightarrow> SchedulerState pause_result" where
  "snapshot_scheduler s =
     (case bind_result (map_result (\<lambda>x. make_ScheduledNode (sched_node_id x) (sched_status x) (remaining_dependency_ids x))
             (tracker_nodes s)) (\<lambda>ns.
           make_SchedulerState
             \<lparr>tracker_status = tracker_status s, tracker_nodes = ns, tracker_fingerprint = tracker_fingerprint s,
              tracker_version = tracker_version s\<rparr>) of
        Inl _ \<Rightarrow> Inl (PauseCoordinatorInvalidRequestError ''pause scheduler evidence is invalid'')
      | Inr clean \<Rightarrow> Inr clean)"

definition bind_runner :: "nat \<Rightarrow> PauseToken \<Rightarrow> nat pause_result \<times> PauseToken" where
  "bind_runner authority t =
     (if pause_authority t \<noteq> None
      then (Inl (PauseCoordinatorBusyError ''pause token is already bound to a sequential runner''), t)
      else (Inr authority, t\<lparr>pause_authority := Some authority\<rparr>))"

definition request_for_coordinator :: "PauseToken \<Rightarrow> int \<times> PauseToken" where
  "request_for_coordinator t =
     (pause_generation t + 1,
      t\<lparr>pause_generation := pause_generation t + 1, pause_requested := True, pause_acknowledgement := None,
        pause_acknowledged_state := None\<rparr>)"

definition acknowledge_for_runner ::
  "SchedulerState \<Rightarrow> nat \<Rightarrow> PauseToken \<Rightarrow> PauseAcknowledgement option pause_result \<times> PauseToken" where
  "acknowledge_for_runner state authority t =
     (if pause_authority t \<noteq> Some authority
      then (Inl (PauseCoordinatorInvalidRequestError ''pause acknowledgement runner authority is foreign''), t)
      else case snapshot_scheduler state of
        Inl e \<Rightarrow> (Inl e, t)
      | Inr clean \<Rightarrow>
          if active_node_id clean \<noteq> None \<or> tracker_status clean \<noteq> Tracker_ACTIVE
          then (Inl (PauseCoordinatorInvalidRequestError
                  ''runner pause acknowledgement requires a stable active scheduler''), t)
          else if \<not> pause_requested t then (Inr None, t)
          else case snapshot_scheduler clean of
            Inl e \<Rightarrow> (Inl e, t)
          | Inr again \<Rightarrow>
              let a = \<lparr>ack_identity = pause_issued t, ack_scheduler_state = clean, ack_generation = pause_generation t\<rparr> in
              (Inr (Some a),
               t\<lparr>pause_acknowledgement := Some a, pause_acknowledged_state := Some again,
                 pause_issued := Suc (pause_issued t)\<rparr>))"

definition snapshot_acknowledgement :: "PauseAcknowledgement \<Rightarrow> int \<Rightarrow> PauseToken \<Rightarrow> SchedulerState option" where
  "snapshot_acknowledgement a generation t =
     (if \<not> pause_requested t \<or> pause_generation t \<noteq> generation \<or> pause_acknowledgement t \<noteq> Some a \<or>
         ack_generation a \<noteq> generation
      then None
      else case pause_acknowledged_state t of
        None \<Rightarrow> None
      | Some acknowledged \<Rightarrow>
          (case snapshot_scheduler (ack_scheduler_state a) of
             Inl _ \<Rightarrow> None
           | Inr observed \<Rightarrow>
               if observed \<noteq> acknowledged then None
               else (case snapshot_scheduler acknowledged of Inl _ \<Rightarrow> None | Inr s \<Rightarrow> Some s)))"

definition cleared :: "PauseToken \<Rightarrow> PauseToken" where
  "cleared t = t\<lparr>pause_requested := False, pause_acknowledgement := None, pause_acknowledged_state := None\<rparr>"

definition clear_for_coordinator :: "int \<Rightarrow> PauseToken \<Rightarrow> bool \<times> PauseToken" where
  "clear_for_coordinator generation t =
     (if pause_generation t \<noteq> generation then (False, t) else (True, cleared t))"

definition abort_for_coordinator :: "int \<Rightarrow> PauseToken \<Rightarrow> bool \<times> PauseToken" where
  "abort_for_coordinator generation t =
     (if pause_generation t \<noteq> generation \<or> pause_acknowledgement t \<noteq> None then (False, t) else (True, cleared t))"

subsection \<open>Calls on a token\<close>

datatype token_call =
    Call_bind nat
  | Call_request
  | Call_acknowledge SchedulerState nat
  | Call_snapshot PauseAcknowledgement int
  | Call_clear int
  | Call_abort int

datatype token_answer =
    Answer_bound "nat pause_result"
  | Answer_generation int
  | Answer_acknowledged "PauseAcknowledgement option pause_result"
  | Answer_snapshot "SchedulerState option"
  | Answer_bool bool

fun call_token :: "token_call \<Rightarrow> PauseToken \<Rightarrow> token_answer \<times> PauseToken" where
  "call_token (Call_bind authority) t = apfst Answer_bound (bind_runner authority t)"
| "call_token Call_request t = apfst Answer_generation (request_for_coordinator t)"
| "call_token (Call_acknowledge s authority) t = apfst Answer_acknowledged (acknowledge_for_runner s authority t)"
| "call_token (Call_snapshot a generation) t = (Answer_snapshot (snapshot_acknowledgement a generation t), t)"
| "call_token (Call_clear generation) t = apfst Answer_bool (clear_for_coordinator generation t)"
| "call_token (Call_abort generation) t = apfst Answer_bool (abort_for_coordinator generation t)"

end
