(* ===== verification/Pause_Properties.thy ===== *)
theory Pause_Properties
  imports Pause_Token
begin

text \<open>
  An acknowledgement of a pause and its abort race for the same generation, and one of them wins.
\<close>

text \<open>What is left for a generation once it has been acknowledged, and once it has been aborted.\<close>

definition acknowledged :: "int \<Rightarrow> PauseToken \<Rightarrow> bool" where
  "acknowledged g t \<longleftrightarrow> g < pause_generation t \<or> g = pause_generation t \<and> pause_acknowledgement t \<noteq> None"

definition aborted :: "int \<Rightarrow> PauseToken \<Rightarrow> bool" where
  "aborted g t \<longleftrightarrow> g < pause_generation t \<or> g = pause_generation t \<and> \<not> pause_requested t"

lemmas token_defs = bind_runner_def request_for_coordinator_def acknowledge_for_runner_def clear_for_coordinator_def
  abort_for_coordinator_def cleared_def

interpretation acknowledged_token: guarded_machine call_token "acknowledged g" "\<lambda>x. x \<noteq> Call_clear g" for g
proof (unfold_locales, goal_cases)
  case (1 t x)
  then show ?case by (cases x) (auto simp: acknowledged_def token_defs Let_def split: sum.splits)
qed

interpretation aborted_token: object_machine call_token "aborted g" for g
proof (unfold_locales, goal_cases)
  case (1 t x)
  then show ?case by (cases x) (auto simp: aborted_def token_defs Let_def split: sum.splits)
qed

lemma acknowledgement_generation:
  "fst (call_token x t) = Answer_acknowledged (Inr (Some a)) \<Longrightarrow>
     ack_generation a = pause_generation t \<and> pause_requested t \<and> acknowledged (ack_generation a) (snd (call_token x t))"
  by (cases x) (auto simp: acknowledged_def token_defs Let_def split: sum.splits if_splits)

lemma abort_wins:
  "fst (call_token (Call_abort g) t) = Answer_bool True \<Longrightarrow> \<not> acknowledged g t \<and> aborted g (snd (call_token (Call_abort g) t))"
  by (auto simp: acknowledged_def aborted_def token_defs split: if_splits)

lemma no_abort_after_acknowledgement:
  "acknowledged g t \<Longrightarrow> Call_clear g \<notin> set xs \<Longrightarrow>
     (Call_abort g, Answer_bool True) \<notin> set (zip xs (fst (perform call_token xs t)))"
proof (induction xs arbitrary: t)
  case (Cons x xs)
  then show ?case using acknowledged_token.guarded_inv [of g t x] abort_wins [of g t] by force
qed simp

lemma no_acknowledgement_after_abort:
  "aborted g t \<Longrightarrow> Answer_acknowledged (Inr (Some a)) \<in> set (fst (perform call_token xs t)) \<Longrightarrow> ack_generation a \<noteq> g"
proof (induction xs arbitrary: t)
  case (Cons x xs)
  then show ?case
    using aborted_token.exec_inv [of g t x] acknowledgement_generation [of x t a] by (auto simp: aborted_def)
qed simp

subsection \<open>Properties\<close>

text \<open>
  C16.  Whatever the threads that share a pause token call, in whatever order: as long as a pause generation is not
  cleared, it is not both acknowledged by the runner and aborted by the coordinator.
\<close>

theorem pause_race_has_one_winner:
  assumes "Call_clear (ack_generation a) \<notin> set xs"
    and "Answer_acknowledged (Inr (Some a)) \<in> set (fst (perform call_token xs t))"
  shows "(Call_abort (ack_generation a), Answer_bool True) \<notin> set (zip xs (fst (perform call_token xs t)))"
  using assms
proof (induction xs arbitrary: t)
  case (Cons x xs)
  let ?t = "snd (call_token x t)" and ?g = "ack_generation a"
  show ?case
  proof (cases "fst (call_token x t) = Answer_acknowledged (Inr (Some a))")
    case True
    then have "(Call_abort ?g, Answer_bool True) \<notin> set (zip xs (fst (perform call_token xs ?t)))"
      using acknowledgement_generation [OF True] Cons.prems by (intro no_abort_after_acknowledgement) auto
    then show ?thesis using True by auto
  next
    case False
    then have later: "Answer_acknowledged (Inr (Some a)) \<in> set (fst (perform call_token xs ?t))" using Cons.prems by auto
    have "\<not> (x = Call_abort ?g \<and> fst (call_token x t) = Answer_bool True)"
      using no_acknowledgement_after_abort [OF _ later] abort_wins [of ?g t] by blast
    then show ?thesis using Cons.IH [OF _ later] Cons.prems by auto
  qed
qed simp

definition example_frontier :: SchedulerState where
  "example_frontier =
     \<lparr>tracker_status = Tracker_ACTIVE,
      tracker_nodes = [\<lparr>sched_node_id = ''node_aaa'', sched_status = Node_READY, remaining_dependency_ids = []\<rparr>],
      tracker_fingerprint = ''f'', tracker_version = 1\<rparr>"

theorem pause_race_has_one_winner_witness:
  "fst (perform call_token [Call_bind 7, Call_request, Call_acknowledge example_frontier 7, Call_abort 1] new_PauseToken) =
     [Answer_bound (Inr 7), Answer_generation 1,
      Answer_acknowledged (Inr (Some \<lparr>ack_identity = 0, ack_scheduler_state = example_frontier, ack_generation = 1\<rparr>)),
      Answer_bool False] \<and>
   (Call_abort 1, Answer_bool True) \<notin> set (zip [Call_bind 7, Call_request, Call_acknowledge example_frontier 7, Call_abort 1]
     (fst (perform call_token [Call_bind 7, Call_request, Call_acknowledge example_frontier 7, Call_abort 1] new_PauseToken)))"
proof (rule conjI)
  let ?a = "\<lparr>ack_identity = 0, ack_scheduler_state = example_frontier, ack_generation = 1\<rparr>"
  show run: "fst (perform call_token [Call_bind 7, Call_request, Call_acknowledge example_frontier 7, Call_abort 1] new_PauseToken) =
     [Answer_bound (Inr 7), Answer_generation 1, Answer_acknowledged (Inr (Some ?a)), Answer_bool False]"
    by code_simp
  show "(Call_abort 1, Answer_bool True) \<notin> set (zip [Call_bind 7, Call_request, Call_acknowledge example_frontier 7, Call_abort 1]
     (fst (perform call_token [Call_bind 7, Call_request, Call_acknowledge example_frontier 7, Call_abort 1] new_PauseToken)))"
    using pause_race_has_one_winner [of ?a "[Call_bind 7, Call_request, Call_acknowledge example_frontier 7, Call_abort 1]"
        new_PauseToken] unfolding run by simp
qed

end
