(* ===== verification/Runner.thy ===== *)
theory Runner
  imports Pause_Token Tracker_Properties
begin

text \<open>
  The sequential runner (\<^verbatim>\<open>application/execution/runner.py\<close>): limits, requests, results, reports, and the loop that
  takes a plan through its tracker one node at a time.  The node executor is code the repository's users supply, so it
  is a parameter: what it does at its n-th call with the request it is given.  The cancellation and pause tokens are
  shared with other threads; what these do before the runner's n-th look at a token is a parameter too.  A run is a
  partial function of the runner, with \<open>None\<close> for a run that does not return.
\<close>

definition SEQUENTIAL_RUNNER_CONTRACT_VERSION :: int where "SEQUENTIAL_RUNNER_CONTRACT_VERSION = 1"
definition SEQUENTIAL_RUNNER_MAX_CONCURRENCY :: int where "SEQUENTIAL_RUNNER_MAX_CONCURRENCY = 1"
definition SEQUENTIAL_RUNNER_MAX_IN_FLIGHT :: int where "SEQUENTIAL_RUNNER_MAX_IN_FLIGHT = 1"
definition SEQUENTIAL_RUNNER_QUEUE_CAPACITY :: int where "SEQUENTIAL_RUNNER_QUEUE_CAPACITY = 1"

datatype runner_error =
    RunnerClosedError string
  | RunnerBusyError string
  | RunnerUnsupportedPlanError string
  | RunnerUnsafeResumeError string
  | RunnerProtocolError string
  | RunnerExecutionError string
  | RunnerCleanupError string
  | Runner_TypeError string
  | Raised_by_scheduler tracker_error
  | Raised_by_pause pause_error

type_synonym 'a runner_result = "(runner_error, 'a) result"

definition protocol :: "bool \<Rightarrow> string \<Rightarrow> unit runner_result" where
  "protocol ok message = require ok (RunnerProtocolError message)"

datatype RunnerStatus = Runner_SUCCEEDED | Runner_FAILED | Runner_CANCELLED | Runner_PAUSED
datatype RunnerNodeOutcome = Outcome_SUCCEEDED | Outcome_FAILED | Outcome_CANCELLED | Outcome_PAUSED

subsection \<open>Limits, requests and results\<close>

record SequentialRunnerLimits =
  limits_memory_limit_bytes :: int
  limits_operation_timeout_seconds :: int
  limits_max_concurrency :: int
  limits_max_in_flight :: int
  limits_queue_capacity :: int
  limits_version :: int

definition validate_bounded_integer :: "int \<Rightarrow> int \<Rightarrow> int \<Rightarrow> string \<Rightarrow> unit runner_result" where
  "validate_bounded_integer i minimum maximum subject =
     protocol (minimum \<le> i \<and> i \<le> maximum) (subject @ '' is outside the supported range'')"

text \<open>Every expected value is 1.\<close>

definition require_exact_integer :: "int \<Rightarrow> int \<Rightarrow> string \<Rightarrow> unit runner_result" where
  "require_exact_integer i expected subject = protocol (i = expected) (subject @ '' must equal 1'')"

definition make_SequentialRunnerLimits :: "SequentialRunnerLimits \<Rightarrow> SequentialRunnerLimits runner_result" where
  "make_SequentialRunnerLimits l =
     bind_result (validate_bounded_integer (limits_memory_limit_bytes l) MIN_RESOURCE_MEMORY_BYTES
       MAX_RESOURCE_MEMORY_BYTES ''sequential runner memory limit'') (\<lambda>_.
     bind_result (validate_bounded_integer (limits_operation_timeout_seconds l) MIN_RESOURCE_TIMEOUT_SECONDS
       MAX_RESOURCE_TIMEOUT_SECONDS ''sequential runner operation timeout'') (\<lambda>_.
     bind_result (require_exact_integer (limits_max_concurrency l) SEQUENTIAL_RUNNER_MAX_CONCURRENCY
       ''sequential runner concurrency'') (\<lambda>_.
     bind_result (require_exact_integer (limits_max_in_flight l) SEQUENTIAL_RUNNER_MAX_IN_FLIGHT
       ''sequential runner in-flight limit'') (\<lambda>_.
     bind_result (require_exact_integer (limits_queue_capacity l) SEQUENTIAL_RUNNER_QUEUE_CAPACITY
       ''sequential runner queue capacity'') (\<lambda>_.
     bind_result (require_exact_integer (limits_version l) SEQUENTIAL_RUNNER_CONTRACT_VERSION
       ''sequential runner contract version'') (\<lambda>_. Inr l))))))"

definition limits_from_resource_policy :: "ResourcePolicy \<Rightarrow> SequentialRunnerLimits runner_result" where
  "limits_from_resource_policy policy =
     make_SequentialRunnerLimits
       \<lparr>limits_memory_limit_bytes = memory_limit_bytes policy,
        limits_operation_timeout_seconds = operation_timeout_seconds policy,
        limits_max_concurrency = SEQUENTIAL_RUNNER_MAX_CONCURRENCY, limits_max_in_flight = SEQUENTIAL_RUNNER_MAX_IN_FLIGHT,
        limits_queue_capacity = SEQUENTIAL_RUNNER_QUEUE_CAPACITY, limits_version = SEQUENTIAL_RUNNER_CONTRACT_VERSION\<rparr>"

record RunnerNodeRequest =
  request_node :: ExecutionPlanNode
  request_plan_fingerprint :: string
  request_limits :: SequentialRunnerLimits

record RunnerNodeResult =
  result_node_id :: string
  result_outcome :: RunnerNodeOutcome

subsection \<open>Reports\<close>

record RunnerReport =
  report_status :: RunnerStatus
  report_scheduler_state :: SchedulerState
  report_started :: "string list"
  report_acknowledgement :: "PauseAcknowledgement option"

definition check_report_nodes :: "RunnerReport \<Rightarrow> unit runner_result" where
  "check_report_nodes r =
     (let started = report_started r; order = map sched_node_id (tracker_nodes (report_scheduler_state r)) in
      bind_result (protocol (length started \<le> MAX_EXECUTION_PLAN_NODES) ''runner report exceeds the node limit'') (\<lambda>_.
      bind_result (protocol (card (set started) = length started) ''runner report started nodes must be unique'') (\<lambda>_.
      bind_result (protocol (\<not> list_ex (\<lambda>n. n \<notin> set order) started)
        ''runner report contains an unknown started node'') (\<lambda>_.
      protocol (filter (\<lambda>n. n \<in> set started) order = started) ''runner report started nodes violate plan order''))))"

definition check_report_status :: "RunnerReport \<Rightarrow> unit runner_result" where
  "check_report_status r =
     (let s = report_scheduler_state r in
      case report_status r of
        Runner_SUCCEEDED \<Rightarrow>
          protocol (tracker_status s = Tracker_SUCCEEDED) ''successful runner report requires successful scheduler''
      | Runner_FAILED \<Rightarrow> protocol (tracker_status s = Tracker_FAILED) ''failed runner report requires failed scheduler''
      | Runner_CANCELLED \<Rightarrow>
          protocol (tracker_status s = Tracker_ACTIVE) ''cancelled runner report requires active scheduler''
      | Runner_PAUSED \<Rightarrow>
          protocol (\<not> (tracker_status s \<noteq> Tracker_ACTIVE \<or> active_node_id s \<noteq> None))
            ''paused runner report requires a stable active scheduler'')"

definition check_report_acknowledgement :: "RunnerReport \<Rightarrow> unit runner_result" where
  "check_report_acknowledgement r =
     (if report_status r = Runner_PAUSED then
        (case report_acknowledgement r of
           None \<Rightarrow> Inl (Runner_TypeError ''paused runner report acknowledgement must use PauseAcknowledgement'')
         | Some a \<Rightarrow> protocol (ack_scheduler_state a = report_scheduler_state r)
             ''paused runner report acknowledgement does not match its scheduler'')
      else protocol (report_acknowledgement r = None)
        ''non-paused runner report cannot carry a pause acknowledgement'')"

definition consumed_frontier :: "RunnerReport \<Rightarrow> string list" where
  "consumed_frontier r =
     (let s = report_scheduler_state r; succeeded = succeeded_node_ids s; started = report_started r in
      case active_node_id s of
        Some n \<Rightarrow> succeeded @ [n]
      | None \<Rightarrow>
          (case failed_node_id s of
             Some n \<Rightarrow> succeeded @ [n]
           | None \<Rightarrow>
               if report_status r = Runner_PAUSED \<and> started \<noteq> [] \<and> last started \<notin> set succeeded
               then succeeded @ [last started] else succeeded))"

definition check_report_frontier :: "RunnerReport \<Rightarrow> unit runner_result" where
  "check_report_frontier r =
     (let s = report_scheduler_state r; order = map sched_node_id (tracker_nodes s);
          consumed = consumed_frontier r; started = report_started r in
      bind_result (protocol (consumed = take (length consumed) order)
        ''runner report scheduler nodes violate the execution frontier'') (\<lambda>_.
      bind_result (protocol (\<not> (started \<noteq> [] \<and> drop (length consumed - length started) consumed \<noteq> started))
        ''runner report started nodes do not match the invocation frontier'') (\<lambda>_.
      protocol (case active_node_id s of None \<Rightarrow> True | Some n \<Rightarrow> started \<noteq> [] \<and> last started = n)
        ''runner report active node was not started by this invocation'')))"

definition make_RunnerReport ::
  "RunnerStatus \<Rightarrow> SchedulerState \<Rightarrow> string list \<Rightarrow> PauseAcknowledgement option \<Rightarrow> RunnerReport runner_result" where
  "make_RunnerReport status state started acknowledgement =
     (let r = \<lparr>report_status = status, report_scheduler_state = state, report_started = started,
               report_acknowledgement = acknowledgement\<rparr> in
      bind_result (check_report_nodes r) (\<lambda>_.
      bind_result (check_report_status r) (\<lambda>_.
      bind_result (check_report_acknowledgement r) (\<lambda>_.
      bind_result (check_report_frontier r) (\<lambda>_. Inr r)))))"

subsection \<open>The runner\<close>

datatype signal = Signal_cancel | Signal_request | Signal_clear int | Signal_abort int

datatype executor_answer = Executor_raises | Executor_malformed | Executor_returns RunnerNodeResult

record environment =
  others_do :: "nat \<Rightarrow> signal list"
  execute :: "nat \<Rightarrow> RunnerNodeRequest \<Rightarrow> executor_answer"
  close_executor :: bool

text \<open>The last two fields are history: how often the runner looked at a token, and what it asked of its executor.\<close>

record runner =
  runner_cancelled :: bool
  runner_pause :: PauseToken
  runner_authority :: nat
  runner_owns_executor :: bool
  runner_closed :: bool
  runner_running :: bool
  runner_state :: "SchedulerState option"
  runner_looks :: nat
  runner_requests :: "RunnerNodeRequest list"

definition make_runner :: "bool \<Rightarrow> PauseToken \<Rightarrow> nat \<Rightarrow> bool \<Rightarrow> runner runner_result" where
  "make_runner cancelled token authority owns_executor =
     (case bind_runner authority token of
        (Inl e, _) \<Rightarrow> Inl (Raised_by_pause e)
      | (Inr a, token') \<Rightarrow>
          Inr \<lparr>runner_cancelled = cancelled, runner_pause = token', runner_authority = a,
               runner_owns_executor = owns_executor, runner_closed = False, runner_running = False, runner_state = None,
               runner_looks = 0, runner_requests = []\<rparr>)"

fun receive :: "signal \<Rightarrow> runner \<Rightarrow> runner" where
  "receive Signal_cancel r = r\<lparr>runner_cancelled := True\<rparr>"
| "receive Signal_request r = r\<lparr>runner_pause := snd (request_for_coordinator (runner_pause r))\<rparr>"
| "receive (Signal_clear g) r = r\<lparr>runner_pause := snd (clear_for_coordinator g (runner_pause r))\<rparr>"
| "receive (Signal_abort g) r = r\<lparr>runner_pause := snd (abort_for_coordinator g (runner_pause r))\<rparr>"

definition look :: "environment \<Rightarrow> runner \<Rightarrow> runner" where
  "look env r = (fold receive (others_do env (runner_looks r)) r)\<lparr>runner_looks := Suc (runner_looks r)\<rparr>"

datatype turn =
    Stop "RunnerReport runner_result" runner
  | Continue tracker "string list" runner

definition acknowledge ::
  "environment \<Rightarrow> tracker \<Rightarrow> runner \<Rightarrow> PauseAcknowledgement option pause_result \<times> runner" where
  "acknowledge env t r0 =
     (let r = look env r0;
          (answer, token) = acknowledge_for_runner (t_state t) (runner_authority r) (runner_pause r) in
      (answer, r\<lparr>runner_pause := token\<rparr>))"

text \<open>The top of the loop: the stable boundary at which a run is cancelled or paused.\<close>

definition at_boundary :: "environment \<Rightarrow> tracker \<Rightarrow> string list \<Rightarrow> runner \<Rightarrow> turn" where
  "at_boundary env t started r0 =
     (let r1 = look env r0 in
      if runner_cancelled r1 then Stop (make_RunnerReport Runner_CANCELLED (t_state t) started None) r1
      else let r2 = look env r1 in
        if \<not> pause_requested (runner_pause r2) then Continue t started r2
        else case acknowledge env t r2 of
          (Inl e, r3) \<Rightarrow> Stop (Inl (Raised_by_pause e)) r3
        | (Inr None, r3) \<Rightarrow> Continue t started r3
        | (Inr (Some a), r3) \<Rightarrow> Stop (make_RunnerReport Runner_PAUSED (t_state t) started (Some a)) r3)"

definition scheduler_stop :: "tracker_error \<Rightarrow> runner \<Rightarrow> turn" where
  "scheduler_stop e r = Stop (Inl (Raised_by_scheduler e)) r"

text \<open>What the runner makes of a node's outcome.\<close>

definition settle_node :: "environment \<Rightarrow> tracker \<Rightarrow> string list \<Rightarrow> string \<Rightarrow> RunnerNodeOutcome \<Rightarrow> runner \<Rightarrow> turn" where
  "settle_node env t started n outcome r =
     (case outcome of
        Outcome_SUCCEEDED \<Rightarrow>
          (case succeed_node t n of
             Inl e \<Rightarrow> scheduler_stop e r
           | Inr t' \<Rightarrow>
               let r' = r\<lparr>runner_state := Some (t_state t')\<rparr> in
               if tracker_status (t_state t') = Tracker_SUCCEEDED
               then Stop (make_RunnerReport Runner_SUCCEEDED (t_state t') started None) r'
               else Continue t' started r')
      | Outcome_FAILED \<Rightarrow>
          (case fail_node t n of
             Inl e \<Rightarrow> scheduler_stop e r
           | Inr t' \<Rightarrow> Stop (make_RunnerReport Runner_FAILED (t_state t') started None) (r\<lparr>runner_state := Some (t_state t')\<rparr>))
      | Outcome_CANCELLED \<Rightarrow>
          let r' = look env r in
          if \<not> runner_cancelled r'
          then Stop (Inl (RunnerProtocolError ''cancelled node result requires requested cancellation'')) r'
          else Stop (make_RunnerReport Runner_CANCELLED (t_state t) started None) r'
      | Outcome_PAUSED \<Rightarrow>
          (case pause_node t n of
             Inl e \<Rightarrow> scheduler_stop e r
           | Inr t' \<Rightarrow>
               let r1 = look env (r\<lparr>runner_state := Some (t_state t')\<rparr>) in
               if \<not> pause_requested (runner_pause r1)
               then Stop (Inl (RunnerProtocolError ''paused node result requires requested pause'')) r1
               else (case acknowledge env t' r1 of
                   (Inl e, r2) \<Rightarrow> Stop (Inl (Raised_by_pause e)) r2
                 | (Inr None, r2) \<Rightarrow>
                     Stop (Inl (RunnerProtocolError ''paused node acknowledgement lost an aborted pause'')) r2
                 | (Inr (Some a), r2) \<Rightarrow> Stop (make_RunnerReport Runner_PAUSED (t_state t') started (Some a)) r2)))"

definition run_node :: "environment \<Rightarrow> string \<Rightarrow> SequentialRunnerLimits \<Rightarrow> tracker \<Rightarrow> string list \<Rightarrow> runner \<Rightarrow> turn" where
  "run_node env fingerprint limits t started r =
     (case next_ready_node t of
        None \<Rightarrow> Stop (Inl (RunnerProtocolError ''active scheduler has no admissible node'')) r
      | Some node \<Rightarrow>
          (case start_node t (plan_node_id node) of
             Inl e \<Rightarrow> scheduler_stop e r
           | Inr t' \<Rightarrow>
               let request = \<lparr>request_node = node, request_plan_fingerprint = fingerprint, request_limits = limits\<rparr>;
                   answer = execute env (length (runner_requests r)) request;
                   r' = r\<lparr>runner_state := Some (t_state t'), runner_requests := runner_requests r @ [request]\<rparr> in
               (case answer of
                  Executor_raises \<Rightarrow> Stop (Inl (RunnerExecutionError ''node executor failed'')) r'
                | Executor_malformed \<Rightarrow> Stop (Inl (RunnerProtocolError ''node executor returned an invalid result'')) r'
                | Executor_returns result \<Rightarrow>
                    if result_node_id result \<noteq> plan_node_id node
                    then Stop (Inl (RunnerProtocolError ''node executor result does not match active node'')) r'
                    else settle_node env t' (started @ [plan_node_id node]) (plan_node_id node) (result_outcome result) r')))"

definition runner_turn ::
  "environment \<Rightarrow> string \<Rightarrow> SequentialRunnerLimits \<Rightarrow> tracker \<Rightarrow> string list \<Rightarrow> runner \<Rightarrow> turn" where
  "runner_turn env fingerprint limits t started r =
     (case at_boundary env t started r of
        Stop outcome r' \<Rightarrow> Stop outcome r'
      | Continue t' started' r' \<Rightarrow> run_node env fingerprint limits t' started' r')"

partial_function (option) runner_loop ::
  "environment \<Rightarrow> string \<Rightarrow> SequentialRunnerLimits \<Rightarrow> tracker \<Rightarrow> string list \<Rightarrow> runner \<Rightarrow>
     (RunnerReport runner_result \<times> runner) option" where
  "runner_loop env fingerprint limits t started r =
     (case runner_turn env fingerprint limits t started r of
        Stop outcome r' \<Rightarrow> Some (outcome, r')
      | Continue t' started' r' \<Rightarrow> runner_loop env fingerprint limits t' started' r')"

declare runner_loop.simps [code]

definition run_admitted ::
  "environment \<Rightarrow> (ExecutionPlan \<Rightarrow> string) \<Rightarrow> ExecutionPlan \<Rightarrow> SchedulerState option \<Rightarrow> runner \<Rightarrow>
     (RunnerReport runner_result \<times> runner) option" where
  "run_admitted env fingerprint plan restored r0 =
     (if list_ex (\<lambda>x. Runner_SEQUENTIAL \<notin> set (plan_supported_runners x)) (plan_nodes plan)
      then Some (Inl (RunnerUnsupportedPlanError ''execution plan contains a non-sequential node''), r0)
      else case make_tracker fingerprint plan restored of
        Inl e \<Rightarrow> Some (Inl (Raised_by_scheduler e), r0)
      | Inr t \<Rightarrow>
          let r = r0\<lparr>runner_state := Some (t_state t)\<rparr> in
          if SchedulerStatus_is_terminal (tracker_status (t_state t))
          then Some (make_RunnerReport
              (if tracker_status (t_state t) = Tracker_SUCCEEDED then Runner_SUCCEEDED else Runner_FAILED)
              (t_state t) [] None, r)
          else if active_node_id (t_state t) \<noteq> None
          then Some (Inl (RunnerUnsafeResumeError
            ''in-flight scheduler state requires durable recovery classification''), r)
          else case limits_from_resource_policy (plan_resource_policy plan) of
            Inl e \<Rightarrow> Some (Inl e, r)
          | Inr limits \<Rightarrow> runner_loop env (fingerprint plan) limits t [] r)"

definition run ::
  "environment \<Rightarrow> (ExecutionPlan \<Rightarrow> string) \<Rightarrow> ExecutionPlan \<Rightarrow> SchedulerState option \<Rightarrow> runner \<Rightarrow>
     (RunnerReport runner_result \<times> runner) option" where
  "run env fingerprint plan restored r =
     (if runner_closed r then Some (Inl (RunnerClosedError ''closed sequential runner cannot execute a plan''), r)
      else if runner_running r
      then Some (Inl (RunnerBusyError ''sequential runner already has an active invocation''), r)
      else map_option (apsnd (\<lambda>r'. r'\<lparr>runner_running := False\<rparr>))
        (run_admitted env fingerprint plan restored (r\<lparr>runner_running := True\<rparr>)))"

definition close_runner :: "environment \<Rightarrow> runner \<Rightarrow> unit runner_result \<times> runner" where
  "close_runner env r =
     (if runner_closed r then (Inr (), r)
      else if runner_running r then (Inl (RunnerBusyError ''active sequential runner cannot close''), r)
      else
        let r' = r\<lparr>runner_closed := True\<rparr> in
        if runner_owns_executor r \<and> \<not> close_executor env
        then (Inl (RunnerCleanupError ''owned runner executor cleanup failed''), r')
        else (Inr (), r'))"

definition enter_runner :: "runner \<Rightarrow> unit runner_result" where
  "enter_runner r = require (\<not> runner_closed r) (RunnerClosedError ''closed sequential runner cannot be entered'')"

end
