(* ===== verification/Runner_Properties.thy ===== *)
theory Runner_Properties
  imports Runner
begin

text \<open>
  Every run of an accepted plan returns; the nodes it executes are the next nodes of the plan; it reports unless the
  answer of the executor is at fault; and the reported state is one the next run resumes from.
\<close>

subsection \<open>Slices of the plan\<close>

lemma filter_middle: "distinct (xs @ ys @ zs) \<Longrightarrow> filter (\<lambda>x. x \<in> set ys) (xs @ ys @ zs) = ys"
  by (auto simp: filter_empty_conv filter_id_conv disjoint_iff)

lemma filter_slice:
  assumes "distinct xs"
  shows "filter (\<lambda>x. x \<in> set (drop i (take m xs))) xs = drop i (take m xs)"
proof -
  have "xs = take i (take m xs) @ drop i (take m xs) @ drop m xs"
    by (metis append_assoc append_take_drop_id)
  then show ?thesis using assms filter_middle [of "take i (take m xs)" "drop i (take m xs)" "drop m xs"] by metis
qed

lemma last_slice:
  assumes "i < m" "m \<le> length xs"
  shows "last (drop i (take m xs)) = xs ! (m - 1)"
proof -
  have "take m xs \<noteq> []" "length (take m xs) = m" using assms by auto
  then show ?thesis using assms by (simp add: last_drop last_conv_nth)
qed

lemma slice_Suc: "i \<le> p \<Longrightarrow> p < length xs \<Longrightarrow> drop i (take (Suc p) xs) = drop i (take p xs) @ [xs ! p]"
  by (simp add: take_Suc_conv_app_nth)

lemma succeeded_cursor:
  assumes "plan_tracker t" "cursor_ok t c"
  shows "succeeded_node_ids (cursor_state t c) = take (c_position c) (t_order t)"
proof -
  have order: "c_order c = t_order t" using assms by (simp add: cursor_ok_def)
  have "succeeded_node_ids (cursor_state t c) = filter (\<lambda>n. n \<in> set (drop 0 (take (c_position c) (t_order t)))) (t_order t)"
    by (simp add: succeeded_node_ids_def cursor_state_def with_status_cursor node_status_iff completed_def order)
  then show ?thesis using filter_slice [OF plan_trackerD(1) [OF assms(1)], of 0] by simp
qed

lemma tracks_frontier:
  assumes "tracks t c"
  shows "succeeded_node_ids (t_state t) = take (c_position c) (c_order c)"
    and "failed_node_id (t_state t) = (if c_phase c = Cursor_BROKEN then Some (at_cursor c) else None)"
    and "map sched_node_id (tracker_nodes (t_state t)) = c_order c"
    and "distinct (c_order c)" "length (c_order c) \<le> MAX_EXECUTION_PLAN_NODES" "c_position c \<le> length (c_order c)"
    and "c_phase c \<noteq> Cursor_IDLE \<Longrightarrow> c_position c < length (c_order c)"
proof -
  have t: "plan_tracker t" "cursor_ok t c" "t_state t = cursor_state t c" using assms by (simp_all add: tracks_def)
  note order = tracks_order [OF assms]
  show "succeeded_node_ids (t_state t) = take (c_position c) (c_order c)"
    using succeeded_cursor [OF t(1,2)] t(3) order by simp
  show "failed_node_id (t_state t) = (if c_phase c = Cursor_BROKEN then Some (at_cursor c) else None)"
    using failed_cursor [OF t(1,2)]
    by (simp add: t(3) failed_node_id_def first_with_def cursor_state_def order at_cursor_def)
  show "map sched_node_id (tracker_nodes (t_state t)) = c_order c"
    by (simp add: t(3) cursor_state_def del: map_map)
  show "distinct (c_order c)" "length (c_order c) \<le> MAX_EXECUTION_PLAN_NODES"
    using plan_trackerD(1,3) [OF t(1)] order by simp_all
  show "c_position c \<le> length (c_order c)" "c_phase c \<noteq> Cursor_IDLE \<Longrightarrow> c_position c < length (c_order c)"
    using t(2) order by (auto simp: cursor_ok_def)
qed

subsection \<open>Reports\<close>

text \<open>The report of a run from node \<open>i\<close> to node \<open>m\<close> of the plan is made whenever its status agrees with the cursor.\<close>

definition status_agrees :: "RunnerStatus \<Rightarrow> cursor \<Rightarrow> bool" where
  "status_agrees status c \<longleftrightarrow>
     (case status of
        Runner_SUCCEEDED \<Rightarrow> c_position c = length (c_order c)
      | Runner_FAILED \<Rightarrow> c_phase c = Cursor_BROKEN
      | Runner_CANCELLED \<Rightarrow> \<not> finished c
      | Runner_PAUSED \<Rightarrow> \<not> finished c \<and> c_phase c = Cursor_IDLE)"

lemma consumed_cursor:
  assumes t: "tracks t c" and m: "i \<le> m" "m = c_position c \<or> m = Suc (c_position c) \<and> c_position c < length (c_order c)"
    and busy: "c_phase c = Cursor_BUSY \<Longrightarrow> m = Suc (c_position c)"
    and idle: "c_phase c = Cursor_IDLE \<Longrightarrow> m = Suc (c_position c) \<Longrightarrow> status = Runner_PAUSED \<and> i < m"
  shows "consumed_frontier \<lparr>report_status = status, report_scheduler_state = t_state t,
      report_started = drop i (take m (c_order c)), report_acknowledgement = a\<rparr> =
    take (if c_phase c = Cursor_IDLE then m else Suc (c_position c)) (c_order c)"
proof -
  note f = tracks_frontier [OF t]
  have at: "c_position c < length (c_order c) \<Longrightarrow>
      take (Suc (c_position c)) (c_order c) = take (c_position c) (c_order c) @ [at_cursor c]"
    by (simp add: at_cursor_def take_Suc_conv_app_nth)
  show ?thesis
  proof (cases "c_phase c = Cursor_IDLE")
    case True
    show ?thesis
    proof (cases "m = c_position c")
      case same: True
      have "drop i (take m (c_order c)) = [] \<or> last (drop i (take m (c_order c))) \<in> set (take m (c_order c))"
        by (metis in_set_dropD last_in_set)
      then show ?thesis
        using True same tracks_status(2) [OF t] f(1,2) by (auto simp: consumed_frontier_def Let_def simp del: drop_eq_Nil)
    next
      case False
      then have m': "m = Suc (c_position c)" "c_position c < length (c_order c)" "status = Runner_PAUSED" "i < m"
        using m idle [OF True] by auto
      have "last (drop i (take m (c_order c))) = at_cursor c" using last_slice [OF m'(4), of "c_order c"] m'(1,2) by (simp add: at_cursor_def)
      moreover have "at_cursor c \<notin> set (take (c_position c) (c_order c))"
        using f(4) m'(2) by (simp add: at_cursor_def in_take_iff position_nth)
      moreover have "drop i (take m (c_order c)) \<noteq> []" using m' by simp
      ultimately show ?thesis
        using True m'(1,3) at [OF m'(2)] tracks_status(2) [OF t] f(1,2) by (simp add: consumed_frontier_def Let_def)
    qed
  next
    case False
    then show ?thesis
      using at f(1,2,7) tracks_status(2) [OF t] by (cases "c_phase c") (simp_all add: consumed_frontier_def Let_def)
  qed
qed

lemma report_made:
  assumes t: "tracks t c" and m: "i \<le> m" "m = c_position c \<or> m = Suc (c_position c) \<and> c_position c < length (c_order c)"
    and busy: "c_phase c = Cursor_BUSY \<Longrightarrow> m = Suc (c_position c) \<and> i < m"
    and broken: "c_phase c = Cursor_BROKEN \<Longrightarrow> m = Suc (c_position c) \<or> i = m"
    and idle: "c_phase c = Cursor_IDLE \<Longrightarrow> m = Suc (c_position c) \<Longrightarrow> status = Runner_PAUSED \<and> i < m"
    and status: "status_agrees status c"
    and a: "if status = Runner_PAUSED then \<exists>x. a = Some x \<and> ack_scheduler_state x = t_state t else a = None"
  shows "make_RunnerReport status (t_state t) (drop i (take m (c_order c))) a =
    Inr \<lparr>report_status = status, report_scheduler_state = t_state t, report_started = drop i (take m (c_order c)),
         report_acknowledgement = a\<rparr>"
proof -
  note f = tracks_frontier [OF t]
  let ?started = "drop i (take m (c_order c))"
  let ?r = "\<lparr>report_status = status, report_scheduler_state = t_state t, report_started = ?started, report_acknowledgement = a\<rparr>"
  have le: "m \<le> length (c_order c)" using m f(6) by auto
  have "length ?started \<le> MAX_EXECUTION_PLAN_NODES" "card (set ?started) = length ?started"
    "\<not> list_ex (\<lambda>n. n \<notin> set (c_order c)) ?started"
    using f(4,5) le by (auto simp del: length_drop length_take intro!: distinct_card simp: list_ex_iff
        dest: in_set_takeD in_set_dropD) (simp add: min_def)
  then have "check_report_nodes ?r = Inr ()"
    using f(3) filter_slice [OF f(4)] by (simp add: check_report_nodes_def protocol_def Let_def)
  moreover have "check_report_status ?r = Inr ()"
    using status tracks_status [OF t] f(7) t
    by (cases status)
       (auto simp: check_report_status_def protocol_def status_agrees_def Let_def tracks_def cursor_state_def cursor_status_def)
  moreover have "check_report_acknowledgement ?r = Inr ()"
    using a by (auto simp: check_report_acknowledgement_def protocol_def split: if_splits)
  moreover have "check_report_frontier ?r = Inr ()"
  proof -
    have "i < m \<Longrightarrow> c_phase c = Cursor_BUSY \<Longrightarrow> last ?started = at_cursor c"
      using last_slice [OF _ le] busy by (simp add: at_cursor_def)
    moreover have "consumed_frontier ?r = take (if c_phase c = Cursor_IDLE then m else Suc (c_position c)) (c_order c)"
      using busy idle by (intro consumed_cursor [OF t m]) blast+
    ultimately show ?thesis
      using m busy broken le tracks_status(2) [OF t] f(3,7)
      by (cases "c_phase c") (auto simp: check_report_frontier_def protocol_def Let_def min_def)
  qed
  ultimately show ?thesis by (simp add: make_RunnerReport_def Let_def)
qed

subsection \<open>One turn of the loop\<close>

definition plan_order :: "ExecutionPlan \<Rightarrow> string list" where
  "plan_order plan = map plan_node_id (plan_nodes plan)"

definition asked :: "runner \<Rightarrow> string list" where
  "asked r = map (\<lambda>q. plan_node_id (request_node q)) (runner_requests r)"

definition last_answer :: "environment \<Rightarrow> runner \<Rightarrow> executor_answer" where
  "last_answer env r = execute env (length (runner_requests r) - 1) (last (runner_requests r))"

text \<open>What a run raises because of the executor's answer about a node.\<close>

definition faults :: "executor_answer \<Rightarrow> string \<Rightarrow> runner_error set" where
  "faults answer n =
     (case answer of
        Executor_raises \<Rightarrow> {RunnerExecutionError ''node executor failed''}
      | Executor_malformed \<Rightarrow> {RunnerProtocolError ''node executor returned an invalid result''}
      | Executor_returns result \<Rightarrow>
          if result_node_id result \<noteq> n then {RunnerProtocolError ''node executor result does not match active node''}
          else if result_outcome result = Outcome_CANCELLED
          then {RunnerProtocolError ''cancelled node result requires requested cancellation''}
          else if result_outcome result = Outcome_PAUSED
          then {RunnerProtocolError ''paused node result requires requested pause'',
                RunnerProtocolError ''paused node acknowledgement lost an aborted pause''}
          else {})"

text \<open>Why a run that executed something reports what it reports.\<close>

definition accounted :: "environment \<Rightarrow> RunnerReport \<Rightarrow> runner \<Rightarrow> runner \<Rightarrow> bool" where
  "accounted env report r0 r \<longleftrightarrow>
     (case report_status report of
        Runner_SUCCEEDED \<Rightarrow> tracker_status (report_scheduler_state report) = Tracker_SUCCEEDED
      | Runner_FAILED \<Rightarrow> (\<exists>n. last_answer env r = Executor_returns \<lparr>result_node_id = n, result_outcome = Outcome_FAILED\<rparr>)
      | Runner_CANCELLED \<Rightarrow> runner_cancelled r0 \<or> (\<exists>k. Signal_cancel \<in> set (others_do env k))
      | Runner_PAUSED \<Rightarrow>
          (pause_requested (runner_pause r0) \<or> (\<exists>k. Signal_request \<in> set (others_do env k))) \<and>
          report_acknowledgement report \<noteq> None \<and> pause_acknowledgement (runner_pause r) = report_acknowledgement report)"

definition reports :: "(ExecutionPlan \<Rightarrow> string) \<Rightarrow> ExecutionPlan \<Rightarrow> nat \<Rightarrow> nat \<Rightarrow> RunnerReport \<Rightarrow> bool" where
  "reports fp plan i m report \<longleftrightarrow>
     report_started report = drop i (take m (plan_order plan)) \<and>
     (\<exists>c. tracks (tracker_of fp plan (report_scheduler_state report)) c \<and> i \<le> c_position c \<and>
        (m = c_position c \<or> m = Suc (c_position c)))"

definition stopped ::
  "environment \<Rightarrow> (ExecutionPlan \<Rightarrow> string) \<Rightarrow> ExecutionPlan \<Rightarrow> nat \<Rightarrow> runner \<Rightarrow> RunnerReport runner_result \<Rightarrow> runner \<Rightarrow> bool"
  where
  "stopped env fp plan i r0 outcome r \<longleftrightarrow>
     (\<exists>m \<ge> i. m \<le> length (plan_order plan) \<and> asked r = asked r0 @ drop i (take m (plan_order plan)) \<and>
       (case outcome of
          Inl e \<Rightarrow> i < m \<and> e \<in> faults (last_answer env r) (plan_order plan ! (m - 1))
        | Inr report \<Rightarrow> reports fp plan i m report \<and> accounted env report r0 r))"

definition bound :: "runner \<Rightarrow> bool" where
  "bound r \<longleftrightarrow> pause_authority (runner_pause r) = Some (runner_authority r)"

text \<open>Other threads leave a runner's own fields alone.\<close>

definition signalled :: "environment \<Rightarrow> runner \<Rightarrow> runner \<Rightarrow> bool" where
  "signalled env r r' \<longleftrightarrow>
     (runner_cancelled r' \<longrightarrow> runner_cancelled r \<or> (\<exists>k. Signal_cancel \<in> set (others_do env k))) \<and>
     (pause_requested (runner_pause r') \<longrightarrow>
        pause_requested (runner_pause r) \<or> (\<exists>k. Signal_request \<in> set (others_do env k)))"

definition alike :: "environment \<Rightarrow> runner \<Rightarrow> runner \<Rightarrow> bool" where
  "alike env r r' \<longleftrightarrow> runner_requests r' = runner_requests r \<and> (bound r \<longrightarrow> bound r') \<and> signalled env r r'"

lemma alike_trans: "alike env r r' \<Longrightarrow> alike env r' r'' \<Longrightarrow> alike env r r''" by (auto simp: alike_def signalled_def)

lemma state_alike: "alike env r (r\<lparr>runner_state := s\<rparr>)" by (simp add: alike_def bound_def signalled_def)

lemma receive_alike: "x \<in> set (others_do env k) \<Longrightarrow> alike env r (receive x r)"
  by (cases x)
     (auto simp: alike_def bound_def signalled_def request_for_coordinator_def clear_for_coordinator_def
        abort_for_coordinator_def cleared_def)

lemma look_alike: "alike env r (look env r)"
proof -
  have "set xs \<subseteq> set (others_do env k) \<Longrightarrow> alike env r (fold receive xs r)" for xs k
  proof (induction xs arbitrary: r)
    case (Cons x xs)
    then show ?case using alike_trans [OF receive_alike [of x env k r] Cons.IH] by simp
  qed (simp add: alike_def signalled_def)
  then show ?thesis unfolding look_def by (fastforce simp: alike_def bound_def signalled_def)
qed

definition between_nodes ::
  "environment \<Rightarrow> (ExecutionPlan \<Rightarrow> string) \<Rightarrow> ExecutionPlan \<Rightarrow> nat \<Rightarrow> runner \<Rightarrow> tracker \<Rightarrow> cursor \<Rightarrow> string list \<Rightarrow> runner \<Rightarrow> bool" where
  "between_nodes env fp plan i r0 t c started r \<longleftrightarrow>
     tracks t c \<and> t = tracker_of fp plan (t_state t) \<and> c_phase c = Cursor_IDLE \<and> c_position c < length (c_order c) \<and>
     i \<le> c_position c \<and> started = drop i (take (c_position c) (plan_order plan)) \<and> bound r \<and> asked r = asked r0 @ started \<and> signalled env r0 r"

lemma tracks_plan_order: "tracks t c \<Longrightarrow> t = tracker_of fp plan s \<Longrightarrow> c_order c = plan_order plan"
  by (simp add: tracks_order plan_order_def tracker_of_def Let_def)

text \<open>Acknowledging at a stable boundary never raises.\<close>

lemma snapshot_value:
  assumes "scheduler_state_value s"
  shows "snapshot_scheduler s = Inr s"
proof -
  have "\<lparr>tracker_status = tracker_status s, tracker_nodes = tracker_nodes s, tracker_fingerprint = tracker_fingerprint s,
      tracker_version = tracker_version s\<rparr> = s"
    by simp
  moreover have "map_result (\<lambda>x. make_ScheduledNode (sched_node_id x) (sched_status x) (remaining_dependency_ids x))
      (tracker_nodes s) = Inr (tracker_nodes s)"
    using assms by (simp add: scheduler_state_value_def map_result_map [where g = "\<lambda>x. x"])
  ultimately show ?thesis using assms by (simp only: snapshot_scheduler_def scheduler_state_value_def bind_result.simps sum.case)
qed

lemma acknowledge_answers:
  assumes "tracks t c" "\<not> finished c" "c_phase c = Cursor_IDLE" "bound r"
  shows "\<exists>answer r'. acknowledge env t r = (Inr answer, r') \<and> alike env r r' \<and>
    (\<forall>a. answer = Some a \<longrightarrow> ack_scheduler_state a = t_state t \<and> pause_acknowledgement (runner_pause r') = Some a \<and>
       pause_requested (runner_pause r'))"
proof -
  let ?r = "look env r"
  have b: "bound ?r" using look_alike [of env r] assms(4) by (simp add: alike_def)
  have "snapshot_scheduler (t_state t) = Inr (t_state t)" by (rule snapshot_value [OF tracks_value [OF assms(1)]])
  then show ?thesis
    using b tracks_status [OF assms(1)] assms(2,3) look_alike [of env r]
    by (cases "pause_requested (runner_pause ?r)")
       (auto simp: acknowledge_def acknowledge_for_runner_def bound_def alike_def signalled_def Let_def)
qed

lemma alike_asked: "alike env r r' \<Longrightarrow> asked r' = asked r" "alike env r r' \<Longrightarrow> last_answer env r' = last_answer env r"
  by (simp_all add: alike_def asked_def last_answer_def)

lemma alike_bound: "alike env r r' \<Longrightarrow> bound r \<Longrightarrow> bound r'" by (simp add: alike_def)

lemma alike_signalled: "signalled env r0 r \<Longrightarrow> alike env r r' \<Longrightarrow> signalled env r0 r'"
  by (auto simp: alike_def signalled_def)

lemma between_alike: "between_nodes env fp plan i r0 t c started r \<Longrightarrow> alike env r r' \<Longrightarrow> between_nodes env fp plan i r0 t c started r'"
  by (auto simp: between_nodes_def alike_asked alike_bound intro: alike_signalled)

lemma stop_report:
  assumes t: "tracks t c" "t = tracker_of fp plan (t_state t)"
    and m: "i \<le> c_position c" "m = c_position c \<or> m = Suc (c_position c) \<and> c_position c < length (c_order c)"
    and busy: "c_phase c \<noteq> Cursor_IDLE \<Longrightarrow> m = Suc (c_position c)"
    and idle: "c_phase c = Cursor_IDLE \<Longrightarrow> m = Suc (c_position c) \<Longrightarrow> status = Runner_PAUSED"
    and status: "status_agrees status c"
    and a: "if status = Runner_PAUSED then \<exists>x. a = Some x \<and> ack_scheduler_state x = t_state t else a = None"
    and asked: "asked r = asked r0 @ drop i (take m (plan_order plan))"
    and accounted: "accounted env \<lparr>report_status = status, report_scheduler_state = t_state t,
      report_started = drop i (take m (plan_order plan)), report_acknowledgement = a\<rparr> r0 r"
  shows "stopped env fp plan i r0 (make_RunnerReport status (t_state t) (drop i (take m (plan_order plan))) a) r"
proof -
  have order: "c_order c = plan_order plan" by (rule tracks_plan_order [OF t])
  have "make_RunnerReport status (t_state t) (drop i (take m (c_order c))) a =
      Inr \<lparr>report_status = status, report_scheduler_state = t_state t, report_started = drop i (take m (c_order c)),
           report_acknowledgement = a\<rparr>"
    using m busy idle by (intro report_made [OF t(1)] status a) auto
  moreover have "reports fp plan i m \<lparr>report_status = status, report_scheduler_state = t_state t,
      report_started = drop i (take m (plan_order plan)), report_acknowledgement = a\<rparr>"
    unfolding reports_def using t m by auto
  ultimately show ?thesis
    unfolding stopped_def order using m asked accounted tracks_frontier(6) [OF t(1)] order by (intro exI [of _ m]) auto
qed

lemma boundary_turn:
  assumes b: "between_nodes env fp plan i r0 t c started r"
  shows "case at_boundary env t started r of
      Stop outcome r' \<Rightarrow> stopped env fp plan i r0 outcome r'
    | Continue t' started' r' \<Rightarrow> t' = t \<and> started' = started \<and> between_nodes env fp plan i r0 t c started r'"
proof -
  let ?r1 = "look env r"
  let ?r2 = "look env ?r1"
  have b1: "between_nodes env fp plan i r0 t c started ?r1" by (rule between_alike [OF b look_alike])
  then have cancel: "runner_cancelled ?r1 \<Longrightarrow> runner_cancelled r0 \<or> (\<exists>k. Signal_cancel \<in> set (others_do env k))"
    by (simp add: between_nodes_def signalled_def)
  have b2: "between_nodes env fp plan i r0 t c started ?r2" by (rule between_alike [OF b1 look_alike])
  have t: "tracks t c" "t = tracker_of fp plan (t_state t)" "c_phase c = Cursor_IDLE" "i \<le> c_position c" "\<not> finished c"
    and started: "started = drop i (take (c_position c) (plan_order plan))"
    using b by (auto simp: between_nodes_def finished_def)
  have stop: "stopped env fp plan i r0 (make_RunnerReport status (t_state t) started a) r'"
    if "between_nodes env fp plan i r0 t c started r'" "status_agrees status c"
      "if status = Runner_PAUSED then \<exists>x. a = Some x \<and> ack_scheduler_state x = t_state t else a = None"
      "accounted env \<lparr>report_status = status, report_scheduler_state = t_state t, report_started = started,
         report_acknowledgement = a\<rparr> r0 r'" for status a r'
    unfolding started
    by (rule stop_report [OF t(1,2,4)]) (use that t(3) in \<open>simp_all add: between_nodes_def started\<close>)
  show ?thesis
  proof (cases "runner_cancelled ?r1 \<or> \<not> pause_requested (runner_pause ?r2)")
    case True
    then show ?thesis
      using b2 stop [OF b1, of Runner_CANCELLED None] t(5) cancel
      by (auto simp: at_boundary_def Let_def status_agrees_def accounted_def)
  next
    case False
    obtain answer r3 where a: "acknowledge env t ?r2 = (Inr answer, r3)" "alike env ?r2 r3"
      "\<forall>a. answer = Some a \<longrightarrow> ack_scheduler_state a = t_state t \<and> pause_acknowledgement (runner_pause r3) = Some a \<and>
         pause_requested (runner_pause r3)"
      using acknowledge_answers [OF t(1,5,3), of ?r2 env] b2 unfolding between_nodes_def by blast
    have b3: "between_nodes env fp plan i r0 t c started r3" by (rule between_alike [OF b2 a(2)])
    then have pause: "pause_requested (runner_pause r3) \<Longrightarrow>
        pause_requested (runner_pause r0) \<or> (\<exists>k. Signal_request \<in> set (others_do env k))"
      by (simp add: between_nodes_def signalled_def)
    show ?thesis
      using False b3 stop [OF b3, of Runner_PAUSED answer] t(3,5) a(3) pause
      by (cases answer) (simp_all add: at_boundary_def Let_def a(1) status_agrees_def accounted_def)
  qed
qed

text \<open>The tracker's calls about the node at the cursor, read off its refinement of the cursor.\<close>

lemma plan_tracker_moves:
  assumes t: "tracks t c" "t = tracker_of fp plan (t_state t)"
    and call: "moved t r = tracker_call x t" and ok: "fst (cursor_call x c) = Inr None"
  obtains t' where "r = Inr t'" "tracks t' (snd (cursor_call x c))" "t' = tracker_of fp plan (t_state t')"
proof (cases r)
  case (Inl e)
  then show ?thesis using tracker_call_refines [OF t(1), of x] ok unfolding call [symmetric] by (simp add: moved_def)
next
  case (Inr t')
  then have t': "t' = snd (tracker_call x t)" unfolding call [symmetric] by (simp add: moved_def)
  then have "tracks t' (snd (cursor_call x c))" using tracker_call_refines [OF t(1), of x] by simp
  moreover have "t' = tracker_of fp plan (t_state t')"
    using tracker_call_fixes [of x t] t(2) unfolding t' by (metis tracker_of_state(1))
  ultimately show ?thesis using Inr that by blast
qed

lemma settle_turn:
  fixes c
  defines "n \<equiv> at_cursor c"
  assumes t: "tracks t c" "t = tracker_of fp plan (t_state t)" and busy: "c_phase c = Cursor_BUSY" and i: "i \<le> c_position c"
    and started: "started = drop i (take (Suc (c_position c)) (plan_order plan))" and r: "bound r" "asked r = asked r0 @ started" "signalled env r0 r"
    and answer: "last_answer env r = Executor_returns \<lparr>result_node_id = n, result_outcome = outcome\<rparr>"
  shows "case settle_node env t started n outcome r of
      Stop answered r' \<Rightarrow> stopped env fp plan i r0 answered r'
    | Continue t' started' r' \<Rightarrow>
        between_nodes env fp plan i r0 t' (c\<lparr>c_position := Suc (c_position c), c_phase := Cursor_IDLE\<rparr>) started' r'"
proof -
  have order: "c_order c = plan_order plan" by (rule tracks_plan_order [OF t])
  have pos: "c_position c < length (c_order c)" using tracks_frontier(7) [OF t(1)] busy by simp
  have go: "n \<in> set (c_order c)" "\<not> finished c" using pos busy by (simp_all add: n_def at_cursor_def finished_def)
  have node: "plan_order plan ! c_position c = n" by (simp add: n_def at_cursor_def order)
  have refusal: "refusal_to_complete c n = None" using go busy by (simp add: refusal_to_complete_def n_def)
  have error: "stopped env fp plan i r0 (Inl e) r'" if "e \<in> faults (last_answer env r) n" "alike env r r'" for e r'
    unfolding stopped_def using that r(2) i pos order started
    by (intro exI [of _ "Suc (c_position c)"]) (simp add: alike_asked [OF that(2)] node)
  show ?thesis
  proof (cases outcome)
    case Outcome_SUCCEEDED
    let ?c = "c\<lparr>c_position := Suc (c_position c), c_phase := Cursor_IDLE\<rparr>"
    obtain t' where t': "succeed_node t n = Inr t'" "tracks t' ?c" "t' = tracker_of fp plan (t_state t')"
      by (rule plan_tracker_moves [OF t, of "succeed_node t n" "Op_succeed n"]) (simp_all add: refusal cursor_moved_def)
    have same: "alike env r (r\<lparr>runner_state := Some (t_state t')\<rparr>)" by (rule state_alike)
    have status: "tracker_status (t_state t') = Tracker_SUCCEEDED \<longleftrightarrow> Suc (c_position c) = length (c_order c)"
      using t'(2) by (simp add: tracks_def cursor_state_def cursor_status_def)
    have "stopped env fp plan i r0 (make_RunnerReport Runner_SUCCEEDED (t_state t') started None) (r\<lparr>runner_state := Some (t_state t')\<rparr>)"
      if "Suc (c_position c) = length (c_order c)"
      unfolding started
      by (rule stop_report [OF t'(2,3)])
         (use that status i r started in \<open>simp_all add: status_agrees_def alike_asked [OF same] accounted_def\<close>)
    moreover have "between_nodes env fp plan i r0 t' ?c started (r\<lparr>runner_state := Some (t_state t')\<rparr>)"
      if "Suc (c_position c) \<noteq> length (c_order c)"
      unfolding between_nodes_def using that t'(2,3) i pos started r by (simp add: alike_asked [OF same] alike_bound [OF same] alike_signalled [OF _ same])
    ultimately show ?thesis by (simp add: Outcome_SUCCEEDED settle_node_def t'(1) Let_def status)
  next
    case Outcome_FAILED
    obtain t' where t': "fail_node t n = Inr t'" "tracks t' (c\<lparr>c_phase := Cursor_BROKEN\<rparr>)" "t' = tracker_of fp plan (t_state t')"
      by (rule plan_tracker_moves [OF t, of "fail_node t n" "Op_fail n"]) (simp_all add: refusal cursor_moved_def)
    have same: "alike env r (r\<lparr>runner_state := Some (t_state t')\<rparr>)" by (rule state_alike)
    have "stopped env fp plan i r0 (make_RunnerReport Runner_FAILED (t_state t') started None) (r\<lparr>runner_state := Some (t_state t')\<rparr>)"
      unfolding started
      by (rule stop_report [OF t'(2,3)])
         (use pos i r started answer Outcome_FAILED in \<open>simp_all add: status_agrees_def alike_asked [OF same] accounted_def\<close>)
    then show ?thesis by (simp add: Outcome_FAILED settle_node_def t'(1))
  next
    case Outcome_CANCELLED
    have same: "alike env r (look env r)" by (rule look_alike)
    have cancel: "runner_cancelled (look env r) \<Longrightarrow> runner_cancelled r0 \<or> (\<exists>k. Signal_cancel \<in> set (others_do env k))"
      using alike_signalled [OF r(3) same] by (simp add: signalled_def)
    have "stopped env fp plan i r0 (make_RunnerReport Runner_CANCELLED (t_state t) started None) (look env r)"
      if "runner_cancelled (look env r)"
      unfolding started
      by (rule stop_report [OF t])
         (use that cancel pos i r go busy started in \<open>simp_all add: status_agrees_def alike_asked [OF same] accounted_def\<close>)
    then show ?thesis
      using error [OF _ same] answer by (simp add: Outcome_CANCELLED settle_node_def Let_def faults_def)
  next
    case Outcome_PAUSED
    let ?c = "c\<lparr>c_phase := Cursor_IDLE\<rparr>"
    obtain t' where t': "pause_node t n = Inr t'" "tracks t' ?c" "t' = tracker_of fp plan (t_state t')"
      by (rule plan_tracker_moves [OF t, of "pause_node t n" "Op_pause n"])
        (use go busy in \<open>simp_all add: cursor_moved_def n_def\<close>)
    define r1 where "r1 = look env (r\<lparr>runner_state := Some (t_state t')\<rparr>)"
    have same: "alike env r r1" unfolding r1_def by (rule alike_trans [OF state_alike look_alike])
    have idle: "\<not> finished ?c" "c_phase ?c = Cursor_IDLE" using go by (simp_all add: finished_def)
    obtain a r2 where a: "acknowledge env t' r1 = (Inr a, r2)" "alike env r1 r2"
      "\<forall>x. a = Some x \<longrightarrow> ack_scheduler_state x = t_state t' \<and> pause_acknowledgement (runner_pause r2) = Some x \<and>
         pause_requested (runner_pause r2)"
      using acknowledge_answers [OF t'(2) idle alike_bound [OF same r(1)], of env] by blast
    have same2: "alike env r r2" by (rule alike_trans [OF same a(2)])
    have pause: "pause_requested (runner_pause r2) \<Longrightarrow>
        pause_requested (runner_pause r0) \<or> (\<exists>k. Signal_request \<in> set (others_do env k))"
      using alike_signalled [OF r(3) same2] by (simp add: signalled_def)
    have "stopped env fp plan i r0 (make_RunnerReport Runner_PAUSED (t_state t') started (Some x)) r2" if "a = Some x" for x
      unfolding started
      by (rule stop_report [OF t'(2,3)])
         (use that a(3) pause pos i r idle started in \<open>simp_all add: status_agrees_def alike_asked [OF same2] accounted_def\<close>)
    then show ?thesis
      using error [OF _ same] error [OF _ same2] answer
      by (cases a) (simp_all add: Outcome_PAUSED settle_node_def t'(1) Let_def r1_def [symmetric] a(1) faults_def)
  qed
qed

lemma node_turn:
  assumes b: "between_nodes env fp plan i r0 t c started r"
  shows "case run_node env fingerprint limits t started r of
      Stop outcome r' \<Rightarrow> stopped env fp plan i r0 outcome r'
    | Continue t' started' r' \<Rightarrow>
        between_nodes env fp plan i r0 t' (c\<lparr>c_position := Suc (c_position c), c_phase := Cursor_IDLE\<rparr>) started' r'"
proof -
  have t: "tracks t c" "t = tracker_of fp plan (t_state t)" and idle: "c_phase c = Cursor_IDLE" and i: "i \<le> c_position c"
    and pos: "c_position c < length (c_order c)" and started: "started = drop i (take (c_position c) (plan_order plan))"
    and r: "bound r" "asked r = asked r0 @ started" "signalled env r0 r"
    using b by (auto simp: between_nodes_def)
  have order: "c_order c = plan_order plan" by (rule tracks_plan_order [OF t])
  let ?c = "c\<lparr>c_phase := Cursor_BUSY\<rparr>" and ?n = "at_cursor c"
  have go: "\<not> finished c" "?n \<in> set (c_order c)" using pos idle by (simp_all add: finished_def at_cursor_def)
  obtain node where node: "next_ready_node t = Some node" "plan_node_id node = ?n"
    using tracks_next [OF t(1)] go idle by auto
  obtain t' where t': "start_node t ?n = Inr t'" "tracks t' ?c" "t' = tracker_of fp plan (t_state t')"
    by (rule plan_tracker_moves [OF t, of "start_node t ?n" "Op_start ?n"]) (use go idle in \<open>simp_all add: cursor_moved_def\<close>)
  define request where "request = \<lparr>request_node = node, request_plan_fingerprint = fingerprint, request_limits = limits\<rparr>"
  define r' where "r' = r\<lparr>runner_state := Some (t_state t'), runner_requests := runner_requests r @ [request]\<rparr>"
  let ?started = "started @ [?n]"
  have started': "?started = drop i (take (Suc (c_position c)) (plan_order plan))"
    using slice_Suc [OF i, of "plan_order plan"] pos order started by (simp add: at_cursor_def)
  have r': "bound r'" "asked r' = asked r0 @ ?started" "signalled env r0 r'" "last_answer env r' = execute env (length (runner_requests r)) request"
    using r node(2) by (simp_all add: r'_def request_def bound_def asked_def last_answer_def signalled_def)
  have error: "stopped env fp plan i r0 (Inl e) r'" if "e \<in> faults (last_answer env r') ?n" for e
    unfolding stopped_def using that r'(2) i pos order started'
    by (intro exI [of _ "Suc (c_position c)"]) (simp add: at_cursor_def)
  show ?thesis
  proof (cases "last_answer env r'")
    case (Executor_returns result)
    show ?thesis
    proof (cases "result_node_id result = ?n")
      case True
      have "result = \<lparr>result_node_id = at_cursor ?c, result_outcome = result_outcome result\<rparr>" using True by (simp add: at_cursor_def)
      then have "last_answer env r' = Executor_returns \<lparr>result_node_id = at_cursor ?c, result_outcome = result_outcome result\<rparr>"
        using Executor_returns by simp
      from settle_turn [OF t'(2,3) _ _ _ r'(1) _ r'(3) this, of i ?started]
      have "case settle_node env t' ?started ?n (result_outcome result) r' of
          Stop answered r' \<Rightarrow> stopped env fp plan i r0 answered r'
        | Continue t' started' r' \<Rightarrow>
            between_nodes env fp plan i r0 t' (?c\<lparr>c_position := Suc (c_position ?c), c_phase := Cursor_IDLE\<rparr>) started' r'"
        using i started' r'(2) by (simp add: at_cursor_def)
      moreover have "?c\<lparr>c_position := Suc (c_position ?c), c_phase := Cursor_IDLE\<rparr> =
          c\<lparr>c_position := Suc (c_position c), c_phase := Cursor_IDLE\<rparr>"
        by simp
      ultimately have "case settle_node env t' ?started ?n (result_outcome result) r' of
          Stop answered r' \<Rightarrow> stopped env fp plan i r0 answered r'
        | Continue t' started' r' \<Rightarrow>
            between_nodes env fp plan i r0 t' (c\<lparr>c_position := Suc (c_position c), c_phase := Cursor_IDLE\<rparr>) started' r'"
        by (simp only:)
      then show ?thesis
        using True Executor_returns
        by (simp add: run_node_def node t'(1) Let_def request_def [symmetric] r'_def [symmetric] r'(4))
    next
      case False
      then show ?thesis
        using error Executor_returns
        by (simp add: run_node_def node t'(1) Let_def request_def [symmetric] r'_def [symmetric] r'(4) faults_def)
    qed
  qed (use error in \<open>simp_all add: run_node_def node t'(1) Let_def request_def [symmetric] r'_def [symmetric] r'(4) faults_def\<close>)
qed

subsection \<open>The loop\<close>

lemma runner_loop_stops:
  "between_nodes env fp plan i r0 t c started r \<Longrightarrow>
     \<exists>outcome r'. runner_loop env fingerprint limits t started r = Some (outcome, r') \<and> stopped env fp plan i r0 outcome r'"
proof (induction "length (c_order c) - c_position c" arbitrary: t c started r rule: less_induct)
  case less
  have pos: "c_position c < length (c_order c)" using less.prems by (simp add: between_nodes_def)
  show ?case
  proof (cases "at_boundary env t started r")
    case (Stop outcome r')
    then show ?thesis using boundary_turn [OF less.prems] by (simp add: runner_loop.simps runner_turn_def)
  next
    case (Continue t1 started1 r1)
    then have b: "t1 = t" "started1 = started" "between_nodes env fp plan i r0 t c started r1"
      using boundary_turn [OF less.prems] by simp_all
    note turn = node_turn [OF b(3), of fingerprint limits]
    show ?thesis
    proof (cases "run_node env fingerprint limits t started r1")
      case (Stop outcome r')
      then show ?thesis using turn Continue b by (simp add: runner_loop.simps runner_turn_def)
    next
      case next_node: (Continue t2 started2 r2)
      let ?c = "c\<lparr>c_position := Suc (c_position c), c_phase := Cursor_IDLE\<rparr>"
      have "between_nodes env fp plan i r0 t2 ?c started2 r2" using turn next_node by simp
      from less.hyps [OF _ this] diff_less_mono2 [OF lessI pos]
      obtain outcome r' where "runner_loop env fingerprint limits t2 started2 r2 = Some (outcome, r')"
        "stopped env fp plan i r0 outcome r'"
        by auto
      then show ?thesis
        using Continue b next_node
        by (subst runner_loop.simps) (simp add: runner_turn_def)
    qed
  qed
qed

text \<open>A tracker of an accepted plan, new or restored, stands at a cursor.\<close>

definition finished_before :: "SchedulerState option \<Rightarrow> nat" where
  "finished_before restored = (case restored of None \<Rightarrow> 0 | Some s \<Rightarrow> length (succeeded_node_ids s))"

lemma made_tracker_tracks:
  assumes plan: "make_ExecutionPlan ns es policy bindings version = Inr plan"
    and restored: "case restored of None \<Rightarrow> True | Some s \<Rightarrow> scheduler_state_value s"
    and made: "make_tracker fp plan restored = Inr t"
  obtains c where "tracks t c" "t = tracker_of fp plan (t_state t)" "c_position c = finished_before restored"
proof (cases restored)
  case None
  then show ?thesis
    using that make_tracker_starts [OF plan, of fp] made
    by (fastforce simp: starting_cursor_def finished_before_def)
next
  case (Some s)
  have t: "t = tracker_of fp plan s" "validate_restored_state t s = Inr ()"
    using made by (auto simp: Some make_tracker_def result_simps)
  have p: "plan_tracker t" unfolding t(1) by (rule plan_tracker_of [OF plan])
  have "tracks t (restored_cursor t s)"
    using restored_is_cursor_state [OF p _ t(2)] p restored Some by (simp add: tracks_def) (simp add: t(1))
  then show ?thesis by (rule that) (simp_all add: t(1) Some finished_before_def restored_cursor_def)
qed

lemma limits_made:
  "make_ResourcePolicy p = Inr policy \<Longrightarrow> \<exists>limits. limits_from_resource_policy policy = Inr limits"
  by (auto simp: make_ResourcePolicy_def validate_integer_def limits_from_resource_policy_def make_SequentialRunnerLimits_def
      validate_bounded_integer_def require_exact_integer_def protocol_def result_simps)

lemma run_loops:
  assumes plan: "make_ExecutionPlan ns es policy bindings version = Inr plan"
    and restored: "case restored of None \<Rightarrow> True | Some s \<Rightarrow> scheduler_state_value s"
    and made: "make_tracker fp plan restored = Inr t" and c: "tracks t c" "t = tracker_of fp plan (t_state t)"
      "\<not> finished c" "c_phase c = Cursor_IDLE"
    and r: "bound r"
  shows "\<exists>outcome r'. runner_loop env f limits t [] (r\<lparr>runner_running := True, runner_state := s\<rparr>) = Some (outcome, r') \<and>
    stopped env fp plan (c_position c) r outcome r'"
proof (rule runner_loop_stops)
  have "c_position c < length (c_order c)" using c(3) tracks_frontier(6) [OF c(1)] by (auto simp: finished_def)
  then show "between_nodes env fp plan (c_position c) r t c [] (r\<lparr>runner_running := True, runner_state := s\<rparr>)"
    using c r by (simp add: between_nodes_def bound_def signalled_def asked_def)
qed

lemma run_stops:
  assumes plan: "make_ExecutionPlan ns es policy bindings version = Inr plan" and policy: "make_ResourcePolicy p = Inr policy"
    and runners: "\<forall>x \<in> set ns. Runner_SEQUENTIAL \<in> set (plan_supported_runners x)"
    and restored: "case restored of None \<Rightarrow> True | Some s \<Rightarrow> scheduler_state_value s"
    and made: "make_tracker fp plan restored = Inr t"
      "tracker_status (t_state t) = Tracker_ACTIVE" "active_node_id (t_state t) = None"
    and r: "bound r" "\<not> runner_running r" "\<not> runner_closed r"
  shows "\<exists>outcome r'. run env fp plan restored r = Some (outcome, r') \<and>
    stopped env fp plan (finished_before restored) r outcome r'"
proof -
  obtain c where c: "tracks t c" "t = tracker_of fp plan (t_state t)" "c_position c = finished_before restored"
    using made_tracker_tracks [OF plan restored made(1)] .
  have idle: "\<not> finished c" "c_phase c = Cursor_IDLE"
    using made(2,3) tracks_status [OF c(1)] by (cases "c_phase c"; auto simp: finished_def split: if_splits)+
  have nodes: "plan_nodes plan = ns" "plan_resource_policy plan = policy"
    using plan by (auto simp: make_ExecutionPlan_def result_simps Let_def)
  obtain limits where limits: "limits_from_resource_policy (plan_resource_policy plan) = Inr limits"
    using limits_made [OF policy] nodes(2) by auto
  from run_loops [OF plan restored made(1) c(1,2) idle r(1)]
  obtain outcome r' where loop: "runner_loop env (fp plan) limits t [] (r\<lparr>runner_running := True, runner_state := Some (t_state t)\<rparr>) =
      Some (outcome, r')" and stopped: "stopped env fp plan (finished_before restored) r outcome r'"
    unfolding c(3) by blast
  have same: "asked (r'\<lparr>runner_running := False\<rparr>) = asked r'" "last_answer env (r'\<lparr>runner_running := False\<rparr>) = last_answer env r'"
    "accounted env report r (r'\<lparr>runner_running := False\<rparr>) = accounted env report r r'" for report
    by (simp_all add: asked_def last_answer_def accounted_def split: RunnerStatus.split)
  have "stopped env fp plan (finished_before restored) r outcome (r'\<lparr>runner_running := False\<rparr>)"
    using stopped unfolding stopped_def same .
  moreover have "run env fp plan restored r = Some (outcome, r'\<lparr>runner_running := False\<rparr>)"
    using r(2,3) runners made loop limits
    by (simp add: run_def run_admitted_def nodes(1) list_ex_iff Let_def SchedulerStatus_is_terminal_def)
  ultimately show ?thesis by blast
qed

text \<open>What a stopped run reports is a state trackers accept.\<close>

lemma reported_state:
  assumes "reports fp plan i m report"
  shows "succeeded_node_ids (report_scheduler_state report) \<in> {take m (plan_order plan), take (m - 1) (plan_order plan)}"
    and "\<exists>t. make_tracker fp plan (Some (report_scheduler_state report)) = Inr t"
    and "tracker_status (report_scheduler_state report) = Tracker_SUCCEEDED \<Longrightarrow> length (plan_order plan) \<le> m"
proof -
  let ?t = "tracker_of fp plan (report_scheduler_state report)"
  from assms obtain d where d: "tracks ?t d" "m = c_position d \<or> m = Suc (c_position d)" unfolding reports_def by blast
  have order: "c_order d = plan_order plan" by (rule tracks_plan_order [OF d(1) refl])
  have t: "plan_tracker ?t" "cursor_ok ?t d" "report_scheduler_state report = cursor_state ?t d"
    using d(1) by (simp_all add: tracks_def)
  show "succeeded_node_ids (report_scheduler_state report) \<in> {take m (plan_order plan), take (m - 1) (plan_order plan)}"
    using tracks_frontier(1) [OF d(1)] d(2) order by auto
  show "\<exists>t. make_tracker fp plan (Some (report_scheduler_state report)) = Inr t"
    using cursor_state_restored [OF t(1,2)] t(3) by (simp add: make_tracker_def)
  assume "tracker_status (report_scheduler_state report) = Tracker_SUCCEEDED"
  then have "c_position d = length (plan_order plan)"
    by (subst (asm) t(3)) (simp add: cursor_state_def cursor_status_def order split: if_splits)
  then show "length (plan_order plan) \<le> m" using d(2) by auto
qed

text \<open>Two nodes for a sequential runner, an executor for which nodes succeed, and one for which the second fails.\<close>

definition example_sequential_node :: "string \<Rightarrow> ExecutionPlanNode" where
  "example_sequential_node n = (example_node n)\<lparr>plan_supported_runners := [Runner_SEQUENTIAL]\<rparr>"

definition example_sequential_plan :: ExecutionPlan where
  "example_sequential_plan =
     example_two_nodes\<lparr>plan_nodes := [example_sequential_node ''node_aaa'', example_sequential_node ''node_bbb'']\<rparr>"

definition example_executor :: "nat \<Rightarrow> environment" where
  "example_executor failing =
     \<lparr>others_do = \<lambda>_. [],
      execute = \<lambda>k q. Executor_returns \<lparr>result_node_id = plan_node_id (request_node q),
        result_outcome = (if failing = Suc k then Outcome_FAILED else Outcome_SUCCEEDED)\<rparr>,
      close_executor = True\<rparr>"

definition example_runner :: runner where
  "example_runner =
     \<lparr>runner_cancelled = False, runner_pause = new_PauseToken\<lparr>pause_authority := Some 7\<rparr>, runner_authority = 7,
      runner_owns_executor = True, runner_closed = False, runner_running = False, runner_state = None,
      runner_looks = 0, runner_requests = []\<rparr>"

definition started_and_asked :: "(RunnerReport runner_result \<times> runner) option \<Rightarrow> (RunnerStatus \<times> string list \<times> string list) option" where
  "started_and_asked outcome =
     (case outcome of Some (Inr report, r) \<Rightarrow> Some (report_status report, report_started report, asked r) | _ \<Rightarrow> None)"

lemma example_sequential_plan_made:
  "make_ExecutionPlan [example_sequential_node ''node_aaa'', example_sequential_node ''node_bbb''] [example_edge]
     DEFAULT_RESOURCE_POLICY [] EXECUTION_PLAN_VERSION = Inr example_sequential_plan"
  by code_simp

lemma example_tracker_made:
  "\<exists>t. make_tracker (\<lambda>_. ''f'') example_sequential_plan None = Inr t \<and> tracker_status (t_state t) = Tracker_ACTIVE \<and>
     active_node_id (t_state t) = None"
proof -
  have "case make_tracker (\<lambda>_. ''f'') example_sequential_plan None of Inl _ \<Rightarrow> False
    | Inr t \<Rightarrow> tracker_status (t_state t) = Tracker_ACTIVE \<and> active_node_id (t_state t) = None"
    by code_simp
  then show ?thesis by (simp split: sum.splits)
qed

lemma example_runner_ready:
  "make_runner False new_PauseToken 7 True = Inr example_runner" "bound example_runner" "\<not> runner_running example_runner"
  "\<not> runner_closed example_runner" "\<not> runner_cancelled example_runner" "\<not> pause_requested (runner_pause example_runner)"
  by code_simp+

lemma example_sequential_facts:
  "make_ResourcePolicy DEFAULT_RESOURCE_POLICY = Inr DEFAULT_RESOURCE_POLICY"
  "\<forall>x \<in> set [example_sequential_node ''node_aaa'', example_sequential_node ''node_bbb''].
     Runner_SEQUENTIAL \<in> set (plan_supported_runners x)"
  "plan_order example_sequential_plan = [''node_aaa'', ''node_bbb'']"
  by code_simp+

subsection \<open>Properties\<close>

text \<open>
  C7.  A run of an accepted plan, from the start or from any saved state, always returns, whatever the executor answers
  and whatever other threads do to the tokens, and the runner it leaves is not running.
\<close>

theorem run_returns:
  assumes plan: "make_ExecutionPlan ns es policy bindings version = Inr plan"
    and restored: "case restored of None \<Rightarrow> True | Some s \<Rightarrow> scheduler_state_value s"
    and r: "bound r" "\<not> runner_running r"
  shows "\<exists>outcome r'. run env fp plan restored r = Some (outcome, r') \<and> \<not> runner_running r'"
proof -
  let ?r = "r\<lparr>runner_running := True\<rparr>"
  have "\<exists>outcome r'. run_admitted env fp plan restored ?r = Some (outcome, r')"
  proof (cases "make_tracker fp plan restored")
    case (Inr t)
    obtain c where c: "tracks t c" "t = tracker_of fp plan (t_state t)" using made_tracker_tracks [OF plan restored Inr] .
    show ?thesis
    proof (cases "tracker_status (t_state t) = Tracker_ACTIVE \<and> active_node_id (t_state t) = None")
      case True
      then have "\<not> finished c" "c_phase c = Cursor_IDLE"
        using tracks_status [OF c(1)] by (cases "c_phase c"; auto simp: finished_def split: if_splits)+
      from run_loops [OF plan restored Inr c this r(1)] show ?thesis
        by (fastforce simp: run_admitted_def Inr Let_def split: sum.split)
    qed (auto simp: run_admitted_def Inr Let_def SchedulerStatus_is_terminal_def)
  qed (simp add: run_admitted_def)
  then show ?thesis using r(2) by (auto simp: run_def)
qed

theorem run_returns_witness:
  "\<exists>outcome r'. run (example_executor 2) (\<lambda>_. ''f'') example_sequential_plan None example_runner = Some (outcome, r') \<and>
     \<not> runner_running r'"
  by (rule run_returns [OF example_sequential_plan_made _ example_runner_ready(2,3)]) simp

text \<open>
  C6.  A run of an accepted plan that stands between two nodes executes the next nodes of the plan in order, each once.
  It raises only for what the executor answered about the last of them; otherwise its report names exactly the
  executed nodes, the reported state has all of them succeeded, or all but the last, a new tracker accepts it, and the
  status is accounted for by that last answer, by a cancellation or by a pause request.
\<close>

theorem run_executes_next_nodes:
  assumes plan: "make_ExecutionPlan ns es policy bindings version = Inr plan" and policy: "make_ResourcePolicy p = Inr policy"
    and runners: "\<forall>x \<in> set ns. Runner_SEQUENTIAL \<in> set (plan_supported_runners x)"
    and restored: "case restored of None \<Rightarrow> True | Some s \<Rightarrow> scheduler_state_value s"
    and made: "make_tracker fp plan restored = Inr t"
      "tracker_status (t_state t) = Tracker_ACTIVE" "active_node_id (t_state t) = None"
    and r: "bound r" "\<not> runner_running r" "\<not> runner_closed r"
  shows "\<exists>outcome r' m. run env fp plan restored r = Some (outcome, r') \<and>
    asked r' = asked r @ drop (finished_before restored) (take m (plan_order plan)) \<and>
    (case outcome of
       Inl e \<Rightarrow> asked r' \<noteq> asked r \<and> e \<in> faults (last_answer env r') (last (asked r'))
     | Inr report \<Rightarrow>
         report_started report = drop (finished_before restored) (take m (plan_order plan)) \<and>
         succeeded_node_ids (report_scheduler_state report) \<in> {take m (plan_order plan), take (m - 1) (plan_order plan)} \<and>
         (\<exists>t'. make_tracker fp plan (Some (report_scheduler_state report)) = Inr t') \<and>
         accounted env report r r')"
proof -
  let ?order = "plan_order plan" and ?i = "finished_before restored"
  obtain outcome r' where run: "run env fp plan restored r = Some (outcome, r')" and "stopped env fp plan ?i r outcome r'"
    using run_stops [OF assms] by blast
  then obtain m where m: "?i \<le> m" "m \<le> length ?order" "asked r' = asked r @ drop ?i (take m ?order)"
    and outcome: "case outcome of Inl e \<Rightarrow> ?i < m \<and> e \<in> faults (last_answer env r') (?order ! (m - 1))
      | Inr report \<Rightarrow> reports fp plan ?i m report \<and> accounted env report r r'"
    unfolding stopped_def by blast
  have "?i < m \<Longrightarrow> asked r' \<noteq> asked r \<and> last (asked r') = ?order ! (m - 1)"
    using m last_slice [of ?i m ?order] by auto
  then have "case outcome of Inl e \<Rightarrow> asked r' \<noteq> asked r \<and> e \<in> faults (last_answer env r') (last (asked r'))
    | Inr report \<Rightarrow> report_started report = drop ?i (take m ?order) \<and>
        succeeded_node_ids (report_scheduler_state report) \<in> {take m ?order, take (m - 1) ?order} \<and>
        (\<exists>t'. make_tracker fp plan (Some (report_scheduler_state report)) = Inr t') \<and> accounted env report r r'"
    using outcome reported_state(1,2) [of fp plan ?i m] by (cases outcome) (simp_all add: reports_def)
  then show ?thesis using run m(3) by blast
qed

theorem run_executes_next_nodes_witness:
  "started_and_asked (run (example_executor 2) (\<lambda>_. ''f'') example_sequential_plan None example_runner) =
     Some (Runner_FAILED, [''node_aaa'', ''node_bbb''], [''node_aaa'', ''node_bbb'']) \<and>
   (\<exists>outcome r' m. run (example_executor 2) (\<lambda>_. ''f'') example_sequential_plan None example_runner = Some (outcome, r') \<and>
      asked r' = asked example_runner @ drop (finished_before None) (take m (plan_order example_sequential_plan)) \<and>
      (case outcome of
         Inl e \<Rightarrow> asked r' \<noteq> asked example_runner \<and> e \<in> faults (last_answer (example_executor 2) r') (last (asked r'))
       | Inr report \<Rightarrow>
           report_started report = drop (finished_before None) (take m (plan_order example_sequential_plan)) \<and>
           succeeded_node_ids (report_scheduler_state report) \<in>
             {take m (plan_order example_sequential_plan), take (m - 1) (plan_order example_sequential_plan)} \<and>
           (\<exists>t'. make_tracker (\<lambda>_. ''f'') example_sequential_plan (Some (report_scheduler_state report)) = Inr t') \<and>
           accounted (example_executor 2) report example_runner r'))"
proof (rule conjI)
  obtain t where "make_tracker (\<lambda>_. ''f'') example_sequential_plan None = Inr t" "tracker_status (t_state t) = Tracker_ACTIVE"
    "active_node_id (t_state t) = None"
    using example_tracker_made by blast
  note * = run_executes_next_nodes [OF example_sequential_plan_made example_sequential_facts(1,2) _ this
      example_runner_ready(2-4), of "example_executor 2"]
  show "\<exists>outcome r' m. run (example_executor 2) (\<lambda>_. ''f'') example_sequential_plan None example_runner = Some (outcome, r') \<and>
      asked r' = asked example_runner @ drop (finished_before None) (take m (plan_order example_sequential_plan)) \<and>
      (case outcome of
         Inl e \<Rightarrow> asked r' \<noteq> asked example_runner \<and> e \<in> faults (last_answer (example_executor 2) r') (last (asked r'))
       | Inr report \<Rightarrow>
           report_started report = drop (finished_before None) (take m (plan_order example_sequential_plan)) \<and>
           succeeded_node_ids (report_scheduler_state report) \<in>
             {take m (plan_order example_sequential_plan), take (m - 1) (plan_order example_sequential_plan)} \<and>
           (\<exists>t'. make_tracker (\<lambda>_. ''f'') example_sequential_plan (Some (report_scheduler_state report)) = Inr t') \<and>
           accounted (example_executor 2) report example_runner r')"
    by (rule *) simp
qed code_simp

text \<open>
  C15.  If every node succeeds, nothing has been signalled and nothing is, then a run of an accepted plan from any state
  between two nodes executes every remaining node, in plan order and once, and reports success.
\<close>

theorem undisturbed_run_succeeds:
  assumes plan: "make_ExecutionPlan ns es policy bindings version = Inr plan" and policy: "make_ResourcePolicy p = Inr policy"
    and runners: "\<forall>x \<in> set ns. Runner_SEQUENTIAL \<in> set (plan_supported_runners x)"
    and restored: "case restored of None \<Rightarrow> True | Some s \<Rightarrow> scheduler_state_value s"
    and made: "make_tracker fp plan restored = Inr t"
      "tracker_status (t_state t) = Tracker_ACTIVE" "active_node_id (t_state t) = None"
    and r: "bound r" "\<not> runner_running r" "\<not> runner_closed r"
    and quiet: "\<not> runner_cancelled r" "\<not> pause_requested (runner_pause r)" "\<forall>k. others_do env k = []"
    and succeeds: "\<forall>k q. execute env k q =
      Executor_returns \<lparr>result_node_id = plan_node_id (request_node q), result_outcome = Outcome_SUCCEEDED\<rparr>"
  shows "\<exists>report r'. run env fp plan restored r = Some (Inr report, r') \<and> report_status report = Runner_SUCCEEDED \<and>
    asked r' = asked r @ drop (finished_before restored) (plan_order plan)"
proof -
  let ?order = "plan_order plan" and ?i = "finished_before restored"
  obtain outcome r' where run: "run env fp plan restored r = Some (outcome, r')" and "stopped env fp plan ?i r outcome r'"
    using run_stops [OF plan policy runners restored made r] by blast
  then obtain m where m: "?i \<le> m" "m \<le> length ?order" "asked r' = asked r @ drop ?i (take m ?order)"
    and outcome: "case outcome of Inl e \<Rightarrow> ?i < m \<and> e \<in> faults (last_answer env r') (?order ! (m - 1))
      | Inr report \<Rightarrow> reports fp plan ?i m report \<and> accounted env report r r'"
    unfolding stopped_def by blast
  have answer: "last_answer env r' = Executor_returns \<lparr>result_node_id = last (asked r'), result_outcome = Outcome_SUCCEEDED\<rparr>"
    if "asked r' \<noteq> []"
    using succeeds that by (simp add: last_answer_def asked_def last_map)
  show ?thesis
  proof (cases outcome)
    case (Inl e)
    then have "?i < m" "e \<in> faults (last_answer env r') (?order ! (m - 1))" using outcome by simp_all
    moreover from this have "asked r' \<noteq> []" "last (asked r') = ?order ! (m - 1)" using m last_slice [of ?i m ?order] by auto
    ultimately show ?thesis using answer by (simp add: faults_def)
  next
    case (Inr report)
    then have report: "reports fp plan ?i m report" "accounted env report r r'" using outcome by simp_all
    have "report_status report \<notin> {Runner_CANCELLED, Runner_PAUSED, Runner_FAILED}"
      using report(2) quiet by (auto simp: accounted_def last_answer_def succeeds)
    then have success: "report_status report = Runner_SUCCEEDED" by (cases "report_status report") simp_all
    then have "length ?order \<le> m" using reported_state(3) [OF report(1)] report(2) by (simp add: accounted_def)
    then show ?thesis using run Inr success m by auto
  qed
qed

theorem undisturbed_run_succeeds_witness:
  "\<exists>report r'. run (example_executor 0) (\<lambda>_. ''f'') example_sequential_plan None example_runner = Some (Inr report, r') \<and>
     report_status report = Runner_SUCCEEDED \<and> asked r' = [''node_aaa'', ''node_bbb'']"
proof -
  obtain t where "make_tracker (\<lambda>_. ''f'') example_sequential_plan None = Inr t" "tracker_status (t_state t) = Tracker_ACTIVE"
    "active_node_id (t_state t) = None"
    using example_tracker_made by blast
  note * = undisturbed_run_succeeds [OF example_sequential_plan_made example_sequential_facts(1,2) _ this
      example_runner_ready(2-), of "example_executor 0"]
  have "asked example_runner @ drop (finished_before None) (plan_order example_sequential_plan) = [''node_aaa'', ''node_bbb'']"
    by code_simp
  then show ?thesis using * by (simp add: example_executor_def)
qed

end
