(* ===== verification/Durable_Runs.thy ===== *)
theory Durable_Runs
  imports Lifecycle Temporal Text_Forms
begin

text \<open>
  The durable side of a run: its row, its event counter and its events, and the one writer command that moves a run
  (\<^verbatim>\<open>TransitionRun\<close>), as the repositories under \<^verbatim>\<open>adapters/persistence\<close> execute it.  A row of a table is a record, the
  tables of one run a \<open>durable_run\<close>, the database a function from run identities.  A command runs in one transaction:
  if it raises, nothing is changed.  The two SQL updates compare the values just read in the same transaction, so
  they find their row.  Events are about the run itself; pipeline parents, which a transition only reads, are left out.
  So are the checks of a command alone that the writer makes first (\<^verbatim>\<open>_validate_run_command\<close>: positive versions, an event
  of the kind and the time of the transition): the model executes more commands than the code, and what is shown of all
  of them holds of those.
\<close>

datatype storage_error =
    ExecutionRecordNotFoundError string
  | ExecutionStaleRowVersionError string
  | ExecutionStateConflictError string
  | ExecutionInvalidRequestError string
  | ExecutionCorruptionError string
  | ConsistencyRecordNotFoundError string
  | ConsistencyStaleRowVersionError string
  | ConsistencyStateConflictError string
  | EventSequenceConflictError string
  | ConsistencyInvalidRequestError string
  | ConsistencyCorruptionError string
  | Raised_by_state InvalidTransitionError

type_synonym 'a storage_result = "(storage_error, 'a) result"

definition MAX_PERSISTED_INTEGER :: int where "MAX_PERSISTED_INTEGER = 2147483647"
definition MAX_CONSISTENCY_SEQUENCE :: int where "MAX_CONSISTENCY_SEQUENCE = 2147483647"
definition EVIDENCE_STORAGE_VERSION :: int where "EVIDENCE_STORAGE_VERSION = 2"

subsection \<open>Rows\<close>

record RunRow =
  row_state :: RunState
  row_version :: int
  row_created_at :: UtcTimestamp
  row_started_at :: "UtcTimestamp option"
  row_finished_at :: "UtcTimestamp option"
  row_cancellation_requested_at :: "UtcTimestamp option"
  row_recovery_started_at :: "UtcTimestamp option"
  row_recovered_at :: "UtcTimestamp option"
  row_evidence_fingerprint :: "string option"
  row_evidence_version :: "int option"

record PendingExecutionEvent =
  event_kind :: string
  event_occurred_at :: UtcTimestamp
  event_subject :: string
  event_correlation :: "string option"
  event_schema_version :: int
  event_payload :: "(string \<times> string) list"

record EventAppendRequest =
  expected_next_sequence :: int
  expected_counter_row_version :: int
  appended_event :: PendingExecutionEvent

record durable_run =
  durable_row :: RunRow
  next_sequence :: int
  counter_row_version :: int
  durable_events :: "(int \<times> PendingExecutionEvent) list"

type_synonym database = "string \<Rightarrow> durable_run option"

definition earlier :: "UtcTimestamp option \<Rightarrow> UtcTimestamp option \<Rightarrow> bool" where
  "earlier t u = (case (t, u) of (Some x, Some y) \<Rightarrow> x < y | _ \<Rightarrow> False)"

definition ACTIVE_STARTED :: "RunState list" where
  "ACTIVE_STARTED = [Run_RUNNING, Run_PAUSING, Run_PAUSED, Run_RESUMING, Run_CANCELLING, Run_SUCCEEDED,
     Run_PARTIALLY_SUCCEEDED, Run_FAILED]"

definition successful_state :: "RunState \<Rightarrow> bool" where
  "successful_state s \<longleftrightarrow> s = Run_SUCCEEDED \<or> s = Run_PARTIALLY_SUCCEEDED"

definition validate_run_chronology :: "RunRow \<Rightarrow> unit storage_result" where
  "validate_run_chronology r =
     (let corrupt = \<lambda>bad message. require (\<not> bad) (ExecutionCorruptionError message);
          times = [row_started_at r, row_finished_at r, row_cancellation_requested_at r, row_recovery_started_at r,
                   row_recovered_at r] in
      bind_result (corrupt (list_ex (\<lambda>t. earlier t (Some (row_created_at r))) times) ''run timestamps are corrupt'') (\<lambda>_.
      bind_result (corrupt (earlier (row_finished_at r) (row_started_at r)) ''run timestamps are corrupt'') (\<lambda>_.
      bind_result (corrupt (row_recovered_at r \<noteq> None \<and>
          (row_recovery_started_at r = None \<or> earlier (row_recovered_at r) (row_recovery_started_at r)))
        ''run recovery timestamps are corrupt'') (\<lambda>_.
      bind_result (corrupt (RunState_is_terminal (row_state r) \<noteq> (row_finished_at r \<noteq> None))
        ''run terminal timestamp is corrupt'') (\<lambda>_.
      bind_result (corrupt (successful_state (row_state r) \<noteq> (row_evidence_fingerprint r \<noteq> None))
        ''run final fingerprint is corrupt'') (\<lambda>_.
      bind_result (corrupt (row_evidence_version r \<noteq> None \<and> row_evidence_version r \<noteq> Some EVIDENCE_STORAGE_VERSION)
        ''run execution-evidence version is unsupported'') (\<lambda>_.
      bind_result (corrupt (row_state r \<in> set ACTIVE_STARTED \<and> row_started_at r = None) ''run start time is corrupt'') (\<lambda>_.
      bind_result (corrupt (row_state r = Run_QUEUED \<and> row_started_at r \<noteq> None)
        ''queued run start time is corrupt'') (\<lambda>_.
      bind_result (corrupt ((row_state r \<in> {Run_CANCELLING, Run_CANCELLED}) \<noteq> (row_cancellation_requested_at r \<noteq> None))
        ''run cancellation time is corrupt'') (\<lambda>_.
      corrupt (earlier (row_finished_at r) (row_cancellation_requested_at r))
        ''run cancellation chronology is corrupt''))))))))))"

subsection \<open>Moving a run\<close>

definition positive_execution_int :: "int \<Rightarrow> string \<Rightarrow> unit storage_result" where
  "positive_execution_int i subject =
     require (1 \<le> i \<and> i \<le> MAX_PERSISTED_INTEGER)
       (ExecutionInvalidRequestError (subject @ '' must be an integer within the supported range''))"

definition require_run :: "database \<Rightarrow> string \<Rightarrow> int \<Rightarrow> durable_run storage_result" where
  "require_run db run_id expected =
     (case db run_id of
        None \<Rightarrow> Inl (ExecutionRecordNotFoundError ''run does not exist'')
      | Some d \<Rightarrow>
          bind_result (validate_run_chronology (durable_row d)) (\<lambda>_.
          bind_result (require (row_version (durable_row d) = expected)
            (ExecutionStaleRowVersionError ''run row version is stale'')) (\<lambda>_. Inr d)))"

definition evidence_checks :: "RunState \<Rightarrow> string option \<Rightarrow> int option \<Rightarrow> unit storage_result" where
  "evidence_checks target fingerprint version =
     bind_result (require ((fingerprint = None) = (version = None))
       (ExecutionInvalidRequestError ''execution-evidence fingerprint and version must be present together'')) (\<lambda>_.
     if successful_state target then
       bind_result (require (fingerprint \<noteq> None)
         (ExecutionInvalidRequestError ''successful run transition requires an execution-evidence fingerprint'')) (\<lambda>_.
       bind_result (require (case version of None \<Rightarrow> False | Some v \<Rightarrow> 1 \<le> v \<and> v \<le> 2147483647)
         (ExecutionInvalidRequestError ''execution-evidence fingerprint version is outside the supported range'')) (\<lambda>_.
       require (version = Some 2)
         (ExecutionInvalidRequestError ''execution-evidence fingerprint version is unsupported'')))
     else require (fingerprint = None)
       (ExecutionInvalidRequestError ''execution-evidence fingerprint is allowed for successful runs only''))"

definition transition_values ::
  "RunRow \<Rightarrow> RunState \<Rightarrow> UtcTimestamp \<Rightarrow> string option \<Rightarrow> int option \<Rightarrow> RunRow storage_result" where
  "transition_values current target at fingerprint version =
     bind_result (require (\<not> at < row_created_at current)
       (ExecutionInvalidRequestError ''run transition cannot precede creation'')) (\<lambda>_.
     bind_result (require (\<not> list_ex (earlier (Some at))
         [row_started_at current, row_cancellation_requested_at current, row_recovery_started_at current,
          row_recovered_at current])
       (ExecutionInvalidRequestError ''run transition time is not monotonic'')) (\<lambda>_.
     Inr (current\<lparr>row_state := target, row_version := row_version current + 1,
       row_started_at := (if row_state current = Run_QUEUED \<and> target = Run_RUNNING then Some at else row_started_at current),
       row_cancellation_requested_at :=
         (if target = Run_CANCELLING \<or> row_state current = Run_QUEUED \<and> target = Run_CANCELLED then Some at
          else row_cancellation_requested_at current),
       row_finished_at := (if RunState_is_terminal target then Some at else row_finished_at current),
       row_evidence_fingerprint := (if fingerprint \<noteq> None then fingerprint else row_evidence_fingerprint current),
       row_evidence_version := (if fingerprint \<noteq> None then version else row_evidence_version current)\<rparr>)))"

record TransitionRun =
  command_run_id :: string
  expected_run_row_version :: int
  target_state :: RunState
  transitioned_at :: UtcTimestamp
  command_evidence_fingerprint :: "string option"
  command_evidence_version :: "int option"
  command_event :: EventAppendRequest

definition transition_row :: "TransitionRun \<Rightarrow> database \<Rightarrow> durable_run storage_result" where
  "transition_row c db =
     bind_result (positive_execution_int (expected_run_row_version c) ''expected run row version'') (\<lambda>_.
     bind_result (require_run db (command_run_id c) (expected_run_row_version c)) (\<lambda>d.
     bind_result (map_sum Raised_by_state id (RunState_transition_to (row_state (durable_row d)) (target_state c))) (\<lambda>_.
     bind_result (evidence_checks (target_state c) (command_evidence_fingerprint c) (command_evidence_version c)) (\<lambda>_.
     bind_result (require (\<not> MAX_PERSISTED_INTEGER \<le> expected_run_row_version c)
       (ExecutionStateConflictError ''run row version cannot advance beyond the supported maximum'')) (\<lambda>_.
     bind_result (transition_values (durable_row d) (target_state c) (transitioned_at c)
       (command_evidence_fingerprint c) (command_evidence_version c)) (\<lambda>row.
     bind_result (validate_run_chronology row) (\<lambda>_. Inr (d\<lparr>durable_row := row\<rparr>))))))))"

subsection \<open>Appending an event\<close>

definition is_alphanumeric :: "char \<Rightarrow> bool" where
  "is_alphanumeric c \<longleftrightarrow> (CHR ''0'' \<le> c \<and> c \<le> CHR ''9'') \<or> (CHR ''A'' \<le> c \<and> c \<le> CHR ''Z'') \<or> (CHR ''a'' \<le> c \<and> c \<le> CHR ''z'')"

definition portable_identity :: "string \<Rightarrow> string \<Rightarrow> nat \<Rightarrow> unit storage_result" where
  "portable_identity t subject maximum =
     bind_result (require (1 \<le> length t \<and> length t \<le> maximum)
       (ConsistencyInvalidRequestError (subject @ '' has an invalid length''))) (\<lambda>_.
     require (is_alphanumeric (hd t) \<and> list_all (\<lambda>c. is_alphanumeric c \<or> c \<in> set ''._:-'') (tl t))
       (ConsistencyInvalidRequestError (subject @ '' must use portable ASCII'')))"

text \<open>Words of lowercase letters and digits, the first starting with a letter, joined by single underscores.\<close>

fun kind_word :: "bool \<Rightarrow> string \<Rightarrow> bool" where
  "kind_word started [] = started"
| "kind_word started (c # cs) =
     (if c = CHR ''_'' then started \<and> kind_word False cs
      else ((CHR ''a'' \<le> c \<and> c \<le> CHR ''z'') \<or> (CHR ''0'' \<le> c \<and> c \<le> CHR ''9'')) \<and> kind_word True cs)"

definition check_event_kind :: "string \<Rightarrow> unit storage_result" where
  "check_event_kind kind =
     bind_result (require (1 \<le> length kind \<and> length kind \<le> 96)
       (ConsistencyInvalidRequestError ''event kind has an invalid length'')) (\<lambda>_.
     require (CHR ''a'' \<le> hd kind \<and> hd kind \<le> CHR ''z'' \<and> kind_word False kind)
       (ConsistencyInvalidRequestError ''event kind must use canonical lowercase snake_case''))"

definition encode_event :: "PendingExecutionEvent \<Rightarrow> string \<Rightarrow> UtcTimestamp \<Rightarrow> unit storage_result" where
  "encode_event e run_id created =
     bind_result (check_event_kind (event_kind e)) (\<lambda>_.
     bind_result (require (event_subject e = run_id)
       (ConsistencyInvalidRequestError ''event subject does not belong to its run'')) (\<lambda>_.
     bind_result (case event_correlation e of None \<Rightarrow> Inr ()
       | Some t \<Rightarrow> portable_identity t ''correlation identifier'' 96) (\<lambda>_.
     bind_result (require (1 \<le> event_schema_version e \<and> event_schema_version e \<le> MAX_CONSISTENCY_SEQUENCE)
       (ConsistencyInvalidRequestError ''event payload schema version must be an integer within the supported range'')) (\<lambda>_.
     require (\<not> event_occurred_at e < created)
       (ConsistencyInvalidRequestError ''event occurrence cannot precede its run'')))))"

definition validate_event_frontier :: "durable_run \<Rightarrow> unit storage_result" where
  "validate_event_frontier d =
     (let numbers = map fst (durable_events d); expected_count = next_sequence d - 1 in
      if expected_count = 0
      then require (numbers = []) (ConsistencyCorruptionError ''event history exceeds its counter'')
      else require (numbers \<noteq> [] \<and> int (length numbers) = expected_count \<and> Min (set numbers) = 1 \<and>
               Max (set numbers) = expected_count)
             (ConsistencyCorruptionError ''event history is not contiguous''))"

definition load_event_state :: "database \<Rightarrow> string \<Rightarrow> durable_run storage_result" where
  "load_event_state db run_id =
     (case db run_id of
        None \<Rightarrow> Inl (ConsistencyRecordNotFoundError ''event run does not exist'')
      | Some d \<Rightarrow>
          bind_result (require (\<not> next_sequence d < counter_row_version d)
            (ConsistencyCorruptionError ''event counter row version is corrupt'')) (\<lambda>_.
          bind_result (validate_event_frontier d) (\<lambda>_. Inr d)))"

definition replay_append :: "durable_run \<Rightarrow> int \<Rightarrow> int \<Rightarrow> PendingExecutionEvent \<Rightarrow> durable_run storage_result" where
  "replay_append d expected_next expected_row e =
     bind_result (require (counter_row_version d = expected_row + 1)
       (ConsistencyStaleRowVersionError ''event append frontier is stale'')) (\<lambda>_.
     let stored = filter (\<lambda>(k, _). expected_next \<le> k \<and> k < next_sequence d) (durable_events d) in
     bind_result (require (length stored = 1) (ConsistencyCorruptionError ''event replay range is incomplete'')) (\<lambda>_.
     bind_result (require (stored = [(expected_next, e)])
       (EventSequenceConflictError ''event append conflicts with durable history'')) (\<lambda>_. Inr d)))"

definition append_event :: "string \<Rightarrow> EventAppendRequest \<Rightarrow> database \<Rightarrow> durable_run storage_result" where
  "append_event run_id q db =
     (let expected_next = expected_next_sequence q; expected_row = expected_counter_row_version q; e = appended_event q in
      bind_result (require (1 \<le> expected_row \<and> expected_row \<le> MAX_CONSISTENCY_SEQUENCE)
        (ConsistencyInvalidRequestError ''expected counter row version must be an integer within the supported range'')) (\<lambda>_.
      bind_result (require (\<not> MAX_CONSISTENCY_SEQUENCE \<le> expected_row)
        (ConsistencyStateConflictError ''event counter row version cannot advance beyond the supported maximum'')) (\<lambda>_.
      bind_result (require (\<not> MAX_CONSISTENCY_SEQUENCE < expected_next + 1)
        (EventSequenceConflictError ''event sequence cannot advance beyond the supported maximum'')) (\<lambda>_.
      bind_result (load_event_state db run_id) (\<lambda>d.
      bind_result (encode_event e run_id (row_created_at (durable_row d))) (\<lambda>_.
      if next_sequence d = expected_next + 1 then replay_append d expected_next expected_row e
      else
        bind_result (require (counter_row_version d = expected_row)
          (ConsistencyStaleRowVersionError ''event counter row version is stale'')) (\<lambda>_.
        bind_result (require (next_sequence d = expected_next)
          (EventSequenceConflictError ''event sequence frontier has changed'')) (\<lambda>_.
        Inr (d\<lparr>next_sequence := expected_next + 1, counter_row_version := expected_row + 1,
          durable_events := durable_events d @ [(expected_next, e)]\<rparr>)))))))))"

text \<open>The dispatch of the command, in its transaction.\<close>

definition execute_transition_run :: "TransitionRun \<Rightarrow> database \<Rightarrow> RunRow storage_result \<times> database" where
  "execute_transition_run c db =
     (case bind_result (transition_row c db) (\<lambda>d.
           append_event (command_run_id c) (command_event c) (db(command_run_id c \<mapsto> d))) of
        Inl e \<Rightarrow> (Inl e, db)
      | Inr d \<Rightarrow> (Inr (durable_row d), db(command_run_id c \<mapsto> d)))"

record PauseDurableState =
  durable_state_run :: RunRow
  durable_state_next_sequence :: int
  durable_state_counter_row_version :: int

definition read_durable_state :: "string \<Rightarrow> database \<Rightarrow> PauseDurableState storage_result" where
  "read_durable_state run_id db =
     (case db run_id of
        None \<Rightarrow> Inl (ExecutionRecordNotFoundError ''pause durable run frontier does not exist'')
      | Some d \<Rightarrow>
          bind_result (validate_run_chronology (durable_row d)) (\<lambda>_.
          Inr \<lparr>durable_state_run = durable_row d, durable_state_next_sequence = next_sequence d,
               durable_state_counter_row_version = counter_row_version d\<rparr>))"

end
