(* ===== verification/Concurrent_Lifecycle.thy ===== *)
theory Concurrent_Lifecycle
  imports Durable_Runs
begin

text \<open>
  Pause, resume and cancellation of concurrent runs (\<^verbatim>\<open>application/execution/concurrent_lifecycle.py\<close>): the pause signal
  and the coordinator that moves the durable run.  The clock, what the writer does with a submission (execute it,
  refuse it, or execute it and lose the answer), whether the reader works and what others commit to the database
  before the coordinator's n-th access are parameters.  Of the lease service the admission gates of paused runs are
  modelled, a reservation being a number.
\<close>

definition MAX_LIFECYCLE_CORRELATION_ID_LENGTH :: nat where "MAX_LIFECYCLE_CORRELATION_ID_LENGTH = 96"
definition PAUSE_EVENT_PAYLOAD_SCHEMA_VERSION :: int where "PAUSE_EVENT_PAYLOAD_SCHEMA_VERSION = 1"

datatype lifecycle_error =
    ConcurrentLifecycleInvalidRequestError string
  | ConcurrentLifecycleStateReadError string
  | ConcurrentLifecycleRejectedError string
  | ConcurrentLifecycleAdmissionError string
  | ConcurrentLifecycleOutcomeUnknownError string
  | ConcurrentLifecycleIncompleteError string
  | ConcurrentLifecycleBusyError string
  | Lifecycle_TypeError string
  | Lifecycle_KeyError
  | Raised_by_leases string

type_synonym 'a lifecycle_result = "(lifecycle_error, 'a) result"

subsection \<open>The pause signal\<close>

datatype SignalState = Signal_IDLE | Signal_REQUESTED | Signal_ACKNOWLEDGED

record pause_signal =
  signal_generation :: "int option"
  signal_state :: SignalState

definition new_pause_signal :: pause_signal where
  "new_pause_signal = \<lparr>signal_generation = None, signal_state = Signal_IDLE\<rparr>"

definition require_generation :: "int \<Rightarrow> unit lifecycle_result" where
  "require_generation g =
     require (1 \<le> g \<and> g \<le> 2147483647)
       (Lifecycle_TypeError ''control generation must be an integer in the supported range'')"

definition signal_requested_generation :: "pause_signal \<Rightarrow> int option" where
  "signal_requested_generation s = (if signal_state s = Signal_REQUESTED then signal_generation s else None)"

definition signal_request :: "int \<Rightarrow> pause_signal \<Rightarrow> unit lifecycle_result \<times> pause_signal" where
  "signal_request g s =
     (case require_generation g of
        Inl e \<Rightarrow> (Inl e, s)
      | Inr _ \<Rightarrow>
          if signal_state s = Signal_REQUESTED
          then (Inl (ConcurrentLifecycleBusyError ''a pause request is already pending''), s)
          else if signal_state s = Signal_ACKNOWLEDGED
          then (Inl (ConcurrentLifecycleBusyError ''an acknowledged pause awaits an explicit resume''), s)
          else (Inr (), \<lparr>signal_generation = Some g, signal_state = Signal_REQUESTED\<rparr>))"

text \<open>\<open>try_acknowledge\<close>, \<open>try_abort\<close> and \<open>clear\<close> move a generation from one state to another.\<close>

definition signal_move :: "SignalState \<Rightarrow> pause_signal \<Rightarrow> int \<Rightarrow> pause_signal \<Rightarrow> bool lifecycle_result \<times> pause_signal" where
  "signal_move before after g s =
     (case require_generation g of
        Inl e \<Rightarrow> (Inl e, s)
      | Inr _ \<Rightarrow>
          if signal_state s = before \<and> signal_generation s = Some g then (Inr True, after) else (Inr False, s))"

definition try_acknowledge :: "int \<Rightarrow> pause_signal \<Rightarrow> bool lifecycle_result \<times> pause_signal" where
  "try_acknowledge g s = signal_move Signal_REQUESTED (s\<lparr>signal_state := Signal_ACKNOWLEDGED\<rparr>) g s"

definition try_abort :: "int \<Rightarrow> pause_signal \<Rightarrow> bool lifecycle_result \<times> pause_signal" where
  "try_abort g s = signal_move Signal_REQUESTED new_pause_signal g s"

definition clear_signal :: "int \<Rightarrow> pause_signal \<Rightarrow> bool lifecycle_result \<times> pause_signal" where
  "clear_signal g s = signal_move Signal_ACKNOWLEDGED new_pause_signal g s"

subsection \<open>Admission gates\<close>

type_synonym pause_gates = "(string, nat) dict"

definition reserve_pause :: "string \<Rightarrow> nat \<Rightarrow> pause_gates \<Rightarrow> nat lifecycle_result \<times> pause_gates" where
  "reserve_pause run_id reservation gates =
     (if run_id \<in> set (keys gates)
      then (Inl (Raised_by_leases ''run already has a pause admission reservation''), gates)
      else (Inr reservation, AList.update run_id reservation gates))"

definition registered_pause_run_id :: "nat \<Rightarrow> pause_gates \<Rightarrow> string option" where
  "registered_pause_run_id reservation gates = map_option fst (find (\<lambda>(_, r). r = reservation) gates)"

definition release_pause :: "nat \<Rightarrow> pause_gates \<Rightarrow> unit lifecycle_result \<times> pause_gates" where
  "release_pause reservation gates =
     (case registered_pause_run_id reservation gates of
        None \<Rightarrow> (Inl (Raised_by_leases ''pause reservation is not active''), gates)
      | Some run_id \<Rightarrow> (Inr (), AList.delete run_id gates))"

subsection \<open>The coordinator\<close>

datatype writer_behaviour = Writer_executes | Writer_refuses | Writer_loses_answer

record lifecycle_environment =
  interfering :: "nat \<Rightarrow> database \<Rightarrow> database"
  writer_does :: "nat \<Rightarrow> writer_behaviour"
  reader_works :: "nat \<Rightarrow> bool"
  clock_now :: "nat \<Rightarrow> UtcTimestamp"

record ConcurrentLifecycleReport =
  report_action :: string
  report_from_state :: RunState
  report_to_state :: RunState
  report_submissions :: "nat list"

record ConcurrentPausedProof =
  proof_run_id :: string
  proof_generation :: int

record coordinator =
  correlation :: "string option"
  last_report :: "ConcurrentLifecycleReport option"
  uncertain :: bool
  stored :: database
  accesses :: nat

definition require_correlation_id :: "string option \<Rightarrow> string option lifecycle_result" where
  "require_correlation_id t =
     (case t of
        None \<Rightarrow> Inr None
      | Some x \<Rightarrow>
          bind_result (require (1 \<le> length x \<and> length x \<le> MAX_LIFECYCLE_CORRELATION_ID_LENGTH)
            (ConcurrentLifecycleInvalidRequestError ''lifecycle correlation id length is outside the range'')) (\<lambda>_.
          bind_result (require (list_all is_printable_ascii x)
            (ConcurrentLifecycleInvalidRequestError ''lifecycle correlation id must use printable ASCII'')) (\<lambda>_.
          Inr (Some x))))"

definition set_correlation_id :: "string option \<Rightarrow> coordinator \<Rightarrow> unit lifecycle_result \<times> coordinator" where
  "set_correlation_id t c =
     (case require_correlation_id t of Inl e \<Rightarrow> (Inl e, c) | Inr x \<Rightarrow> (Inr (), c\<lparr>correlation := x\<rparr>))"

text \<open>What others commit before the next access.\<close>

definition access :: "lifecycle_environment \<Rightarrow> coordinator \<Rightarrow> coordinator" where
  "access env c = c\<lparr>stored := interfering env (accesses c) (stored c), accesses := Suc (accesses c)\<rparr>"

definition read_state :: "lifecycle_environment \<Rightarrow> string \<Rightarrow> coordinator \<Rightarrow> PauseDurableState lifecycle_result \<times> coordinator" where
  "read_state env run_id c0 =
     (let c = access env c0;
          failed = Inl (ConcurrentLifecycleStateReadError ''durable lifecycle state could not be read'') in
      if \<not> reader_works env (accesses c0) then (failed, c)
      else (case read_durable_state run_id (stored c) of Inl _ \<Rightarrow> failed | Inr s \<Rightarrow> Inr s, c))"

fun EVENT_KINDS :: "RunState \<Rightarrow> string option" where
  "EVENT_KINDS Run_RUNNING = Some ''run_started''"
| "EVENT_KINDS Run_PAUSING = Some ''run_pausing''"
| "EVENT_KINDS Run_PAUSED = Some ''run_paused''"
| "EVENT_KINDS Run_RESUMING = Some ''run_resuming''"
| "EVENT_KINDS Run_CANCELLING = Some ''run_cancelling''"
| "EVENT_KINDS Run_CANCELLED = Some ''run_cancelled''"
| "EVENT_KINDS _ = None"

definition transition_command ::
  "coordinator \<Rightarrow> string \<Rightarrow> PauseDurableState \<Rightarrow> RunState \<Rightarrow> string \<Rightarrow> UtcTimestamp \<Rightarrow> TransitionRun" where
  "transition_command c run_id s target kind at =
     \<lparr>command_run_id = run_id, expected_run_row_version = row_version (durable_state_run s), target_state = target,
      transitioned_at = at, command_evidence_fingerprint = None, command_evidence_version = None,
      command_event =
        \<lparr>expected_next_sequence = durable_state_next_sequence s,
         expected_counter_row_version = durable_state_counter_row_version s,
         appended_event =
           \<lparr>event_kind = kind, event_occurred_at = at, event_subject = run_id, event_correlation = correlation c,
            event_schema_version = PAUSE_EVENT_PAYLOAD_SCHEMA_VERSION,
            event_payload = [(''from_state'', RunState_value (row_state (durable_state_run s))),
                             (''to_state'', RunState_value target)]\<rparr>\<rparr>\<rparr>"

text \<open>Submitting and waiting: whatever the writer raises is an unknown outcome.\<close>

definition submit :: "lifecycle_environment \<Rightarrow> TransitionRun \<Rightarrow> coordinator \<Rightarrow> nat lifecycle_result \<times> coordinator" where
  "submit env command c0 =
     (let c = access env c0;
          unknown = Inl (ConcurrentLifecycleOutcomeUnknownError ''lifecycle writer outcome is unknown'') in
      if writer_does env (accesses c0) = Writer_refuses then (unknown, c\<lparr>uncertain := True\<rparr>)
      else case execute_transition_run command (stored c) of
        (Inl _, _) \<Rightarrow> (unknown, c\<lparr>uncertain := True\<rparr>)
      | (Inr _, db) \<Rightarrow>
          if writer_does env (accesses c0) = Writer_loses_answer then (unknown, c\<lparr>stored := db, uncertain := True\<rparr>)
          else (Inr (accesses c0), c\<lparr>stored := db\<rparr>))"

definition transition :: "lifecycle_environment \<Rightarrow> string \<Rightarrow> RunState \<Rightarrow> coordinator \<Rightarrow> nat lifecycle_result \<times> coordinator" where
  "transition env run_id target c0 =
     (case read_state env run_id c0 of
        (Inl e, c) \<Rightarrow> (Inl e, c)
      | (Inr s, c) \<Rightarrow>
          let current = row_state (durable_state_run s) in
          if \<not> RunState_can_transition_to current target
          then (Inl (ConcurrentLifecycleRejectedError
                  (''durable run state '' @ RunState_value current @ '' rejects '' @ RunState_value target)), c)
          else case EVENT_KINDS target of
            None \<Rightarrow> (Inl Lifecycle_KeyError, c)
          | Some kind \<Rightarrow> submit env (transition_command c run_id s target kind (clock_now env (accesses c))) c)"

definition transition_pair ::
  "lifecycle_environment \<Rightarrow> string \<Rightarrow> RunState \<Rightarrow> RunState \<Rightarrow> coordinator \<Rightarrow>
     (RunState \<times> RunState \<times> nat list) lifecycle_result \<times> coordinator" where
  "transition_pair env run_id target1 target2 c0 =
     (case transition env run_id target1 c0 of
        (Inl e, c) \<Rightarrow> (Inl e, c)
      | (Inr first, c) \<Rightarrow>
          (case transition env run_id target2 c of
             (Inl e, c') \<Rightarrow> (Inl e, c')
           | (Inr second, c') \<Rightarrow> (Inr (target1, target2, [first, second]), c')))"

definition reported :: "string \<Rightarrow> RunState \<Rightarrow> RunState \<Rightarrow> nat list \<Rightarrow> ConcurrentLifecycleReport" where
  "reported action s t ids = \<lparr>report_action = action, report_from_state = s, report_to_state = t, report_submissions = ids\<rparr>"

definition complete_pause ::
  "lifecycle_environment \<Rightarrow> string \<Rightarrow> int \<Rightarrow> coordinator \<times> pause_signal \<Rightarrow>
     ConcurrentPausedProof lifecycle_result \<times> coordinator \<times> pause_signal" where
  "complete_pause env run_id g cs =
     (let (c, s) = cs in
      case try_acknowledge g s of
        (Inl e, _) \<Rightarrow> (Inl e, c, s)
      | (Inr False, s') \<Rightarrow>
          (Inl (ConcurrentLifecycleRejectedError
             ''pause acknowledgement lost the compare-and-set; the pause was aborted''), c, s')
      | (Inr True, s') \<Rightarrow>
          (case transition_pair env run_id Run_PAUSING Run_PAUSED c of
             (Inl e, c') \<Rightarrow> (Inl e, c', s')
           | (Inr (from_state, to_state, ids), c') \<Rightarrow>
               (Inr \<lparr>proof_run_id = run_id, proof_generation = g\<rparr>,
                c'\<lparr>last_report := Some (reported ''paused'' from_state to_state ids)\<rparr>, s')))"

definition resume_run ::
  "lifecycle_environment \<Rightarrow> ConcurrentPausedProof \<Rightarrow> nat \<Rightarrow> coordinator \<times> pause_signal \<times> pause_gates \<Rightarrow>
     ConcurrentLifecycleReport lifecycle_result \<times> coordinator \<times> pause_signal \<times> pause_gates" where
  "resume_run env p reservation csg =
     (let (c, s, gates) = csg in
      case transition_pair env (proof_run_id p) Run_RESUMING Run_RUNNING c of
        (Inl e, c') \<Rightarrow> (Inl e, c', s, gates)
      | (Inr (from_state, to_state, ids), c') \<Rightarrow>
          let report = reported ''resumed'' from_state to_state ids;
              c'' = c'\<lparr>last_report := Some report\<rparr> in
          (case clear_signal (proof_generation p) s of
             (Inl e, _) \<Rightarrow> (Inl e, c'', s, gates)
           | (Inr _, s') \<Rightarrow>
               (case release_pause reservation gates of
                  (Inl e, _) \<Rightarrow> (Inl e, c'', s', gates)
                | (Inr _, gates') \<Rightarrow> (Inr report, c'', s', gates'))))"

definition begin_cancellation ::
  "lifecycle_environment \<Rightarrow> string \<Rightarrow> coordinator \<Rightarrow> ConcurrentLifecycleReport lifecycle_result \<times> coordinator" where
  "begin_cancellation env run_id c0 =
     (case read_state env run_id c0 of
        (Inl e, c) \<Rightarrow> (Inl e, c)
      | (Inr s, c) \<Rightarrow>
          let current = row_state (durable_state_run s);
              begun = \<lambda>target. (case transition env run_id target c of
                (Inl e, c') \<Rightarrow> (Inl e, c')
              | (Inr k, c') \<Rightarrow>
                  let report = reported ''cancellation_begun'' current target [k] in
                  (Inr report, c'\<lparr>last_report := Some report\<rparr>)) in
          (case current of
             Run_QUEUED \<Rightarrow> begun Run_CANCELLED
           | Run_RUNNING \<Rightarrow> begun Run_CANCELLING
           | Run_CANCELLING \<Rightarrow>
               let report = reported ''cancelling'' current current [] in (Inr report, c\<lparr>last_report := Some report\<rparr>)
           | _ \<Rightarrow> (Inl (ConcurrentLifecycleRejectedError ''run state does not admit a cancellation request''), c)))"

definition finish_cancellation ::
  "lifecycle_environment \<Rightarrow> string \<Rightarrow> coordinator \<Rightarrow> ConcurrentLifecycleReport lifecycle_result \<times> coordinator" where
  "finish_cancellation env run_id c0 =
     (case read_state env run_id c0 of
        (Inl e, c) \<Rightarrow> (Inl e, c)
      | (Inr s, c) \<Rightarrow>
          let current = row_state (durable_state_run s) in
          if current = Run_CANCELLED
          then let report = reported ''already_cancelled'' current current [] in (Inr report, c\<lparr>last_report := Some report\<rparr>)
          else if current \<noteq> Run_CANCELLING
          then (Inl (ConcurrentLifecycleRejectedError ''only a cancelling run can finish cancellation''), c)
          else case transition env run_id Run_CANCELLED c of
            (Inl e, c') \<Rightarrow> (Inl e, c')
          | (Inr k, c') \<Rightarrow>
              let report = reported ''cancelled'' current Run_CANCELLED [k] in
              (Inr report, c'\<lparr>last_report := Some report\<rparr>))"

end
