(* ===== verification/Lifecycle_Properties.thy ===== *)
theory Lifecycle_Properties
  imports Concurrent_Lifecycle
begin

text \<open>
  What transitions keep of the durable runs, and what the coordinator's pause, resume and cancellation come to.
\<close>

subsection \<open>The durable runs\<close>

definition durable_ok :: "durable_run \<Rightarrow> bool" where
  "durable_ok d \<longleftrightarrow>
     validate_run_chronology (durable_row d) = Inr () \<and> 1 \<le> counter_row_version d \<and> counter_row_version d \<le> next_sequence d \<and>
     map fst (durable_events d) = [1..next_sequence d - 1]"

definition database_ok :: "database \<Rightarrow> bool" where
  "database_ok db \<longleftrightarrow> (\<forall>run_id d. db run_id = Some d \<longrightarrow> durable_ok d)"

lemma transition_row_chronology:
  assumes "transition_row c db = Inr d'" "db (command_run_id c) = Some d"
  shows "validate_run_chronology (durable_row d') = Inr ()"
    and "target_state c \<in> RUN_TRANSITIONS (row_state (durable_row d))" "row_state (durable_row d') = target_state c"
    and "row_version (durable_row d') = row_version (durable_row d) + 1" "d' = d\<lparr>durable_row := durable_row d'\<rparr>"
    and "row_created_at (durable_row d') = row_created_at (durable_row d)"
  using assms
  by (auto simp: transition_row_def require_run_def RunState_transition_to_def RunState_can_transition_to_def result_simps
      transition_values_def split: if_splits sum.splits)

lemma append_event_keeps:
  assumes "append_event run_id q db = Inr d'" "db run_id = Some d"
  shows "durable_row d' = durable_row d" "durable_ok d \<Longrightarrow> durable_ok d'"
proof -
  from assms have d': "d' = d \<or> next_sequence d = expected_next_sequence q \<and> counter_row_version d = expected_counter_row_version q \<and>
      d' = d\<lparr>next_sequence := expected_next_sequence q + 1, counter_row_version := expected_counter_row_version q + 1,
        durable_events := durable_events d @ [(expected_next_sequence q, appended_event q)]\<rparr>"
    by (auto simp: append_event_def load_event_state_def replay_append_def Let_def result_simps split: if_splits)
  then show "durable_row d' = durable_row d" by auto
  show "durable_ok d'" if "durable_ok d"
  proof -
    have "[1..next_sequence d] = [1..next_sequence d - 1] @ [next_sequence d]" using that by (simp add: durable_ok_def upto_rec2)
    then show ?thesis using that d' by (auto simp: durable_ok_def)
  qed
qed

lemma execute_transition_run_cases:
  assumes "execute_transition_run c db = (answer, db')"
  obtains (refused) e where "answer = Inl e" "db' = db"
  | (moved) d d1 d2 where "db (command_run_id c) = Some d" "transition_row c db = Inr d1"
      "append_event (command_run_id c) (command_event c) (db(command_run_id c \<mapsto> d1)) = Inr d2"
      "answer = Inr (durable_row d2)" "db' = db(command_run_id c \<mapsto> d2)"
proof (cases answer)
  case (Inl e)
  then show ?thesis using assms refused by (auto simp: execute_transition_run_def split: sum.splits)
next
  case (Inr row)
  then obtain d1 d2 where d: "transition_row c db = Inr d1"
      "append_event (command_run_id c) (command_event c) (db(command_run_id c \<mapsto> d1)) = Inr d2"
      "answer = Inr (durable_row d2)" "db' = db(command_run_id c \<mapsto> d2)"
    using assms by (auto simp: execute_transition_run_def result_simps split: sum.splits)
  then obtain d where "db (command_run_id c) = Some d"
    by (auto simp: transition_row_def require_run_def result_simps split: option.splits)
  then show ?thesis using d moved by blast
qed

text \<open>A command keeps every run coherent and moves only its own, along an arrow.\<close>

lemma execute_transition_run_keeps:
  assumes "database_ok db"
  shows "database_ok (snd (execute_transition_run c db))"
    and "db run_id = Some d \<Longrightarrow> \<exists>d'. snd (execute_transition_run c db) run_id = Some d' \<and>
      run.arrow\<^sup>*\<^sup>* (row_state (durable_row d)) (row_state (durable_row d'))"
proof -
  obtain answer db' where e: "execute_transition_run c db = (answer, db')" by fastforce
  have "database_ok db' \<and> (db run_id = Some d \<longrightarrow> (\<exists>d'. db' run_id = Some d' \<and>
      run.arrow\<^sup>*\<^sup>* (row_state (durable_row d)) (row_state (durable_row d'))))"
    using e
  proof (cases rule: execute_transition_run_cases)
    case (moved d0 d1 d2)
    note t = transition_row_chronology [OF moved(2,1)]
    have a: "durable_row d2 = durable_row d1" "durable_ok d1 \<Longrightarrow> durable_ok d2"
      using append_event_keeps [OF moved(3)] by simp_all
    have "durable_ok d0" using assms moved(1) by (simp add: database_ok_def)
    then have "durable_ok d1" using t(1) by (subst t(5)) (simp add: durable_ok_def)
    then have "database_ok db'" using assms a(2) moved(5) by (simp add: database_ok_def)
    moreover have "run.arrow (row_state (durable_row d0)) (row_state (durable_row d2))"
      using t(2,3) a(1) by (simp add: run.arrow_def)
    ultimately show ?thesis using moved(1,5) by auto
  qed (use assms in auto)
  then show "database_ok (snd (execute_transition_run c db))"
    and "db run_id = Some d \<Longrightarrow> \<exists>d'. snd (execute_transition_run c db) run_id = Some d' \<and>
      run.arrow\<^sup>*\<^sup>* (row_state (durable_row d)) (row_state (durable_row d'))"
    by (simp_all add: e)
qed

interpretation durable_machine: object_machine execute_transition_run database_ok
  by unfold_locales (rule execute_transition_run_keeps(1))

subsection \<open>One transition of the coordinator\<close>

text \<open>A run with this event just appended.\<close>

definition last_event :: "durable_run \<Rightarrow> string \<Rightarrow> bool" where
  "last_event d kind \<longleftrightarrow> (\<exists>e. (next_sequence d - 1, e) \<in> set (durable_events d) \<and> event_kind e = kind)"

lemma append_event_last:
  assumes "append_event run_id q db = Inr d'"
  shows "last_event d' (event_kind (appended_event q))"
proof -
  obtain d where d: "db run_id = Some d"
    using assms by (auto simp: append_event_def load_event_state_def Let_def result_simps split: option.splits)
  have stored: "(expected_next_sequence q, appended_event q) \<in> set (durable_events d)"
    if "filter (\<lambda>(k, _). expected_next_sequence q \<le> k \<and> k < next_sequence d) (durable_events d) =
      [(expected_next_sequence q, appended_event q)]"
    using arg_cong [OF that, of set] by auto
  show ?thesis
    using assms d stored
    by (auto simp: append_event_def load_event_state_def replay_append_def Let_def result_simps last_event_def split: if_splits)
qed

lemma submit_commits:
  assumes "submit env command c = (Inr k, c')"
  shows "\<exists>d. stored c' (command_run_id command) = Some d \<and> row_state (durable_row d) = target_state command \<and>
    last_event d (event_kind (appended_event (command_event command))) \<and> last_report c' = last_report c"
proof -
  let ?c = "access env c"
  obtain answer db where e: "execute_transition_run command (stored ?c) = (answer, db)" by fastforce
  then have a: "\<exists>row. answer = Inr row" "stored c' = db" "last_report c' = last_report c"
    using assms by (auto simp: submit_def Let_def access_def split: sum.splits if_splits)
  show ?thesis
    using e
  proof (cases rule: execute_transition_run_cases)
    case (moved d d1 d2)
    then show ?thesis
      using a(2,3) append_event_last [OF moved(3)] append_event_keeps(1) [OF moved(3)] transition_row_chronology(3) [OF moved(2,1)]
      by simp
  qed (use a in auto)
qed

lemma transition_commits:
  assumes "transition env run_id target c = (Inr k, c')"
  shows "\<exists>d kind. stored c' run_id = Some d \<and> row_state (durable_row d) = target \<and> EVENT_KINDS target = Some kind \<and> last_event d kind"
proof -
  from assms obtain s c1 kind at where "EVENT_KINDS target = Some kind"
      and "submit env (transition_command c1 run_id s target kind at) c1 = (Inr k, c')"
    by (auto simp: transition_def Let_def split: prod.splits sum.splits if_splits option.splits)
  from submit_commits [OF this(2)] this(1) show ?thesis by (auto simp: transition_command_def)
qed

lemma transition_pair_commits:
  assumes "transition_pair env run_id target1 target2 c = (Inr x, c')"
  shows "(\<exists>d kind. stored c' run_id = Some d \<and> row_state (durable_row d) = target2 \<and> EVENT_KINDS target2 = Some kind \<and>
      last_event d kind) \<and> (\<exists>ids. x = (target1, target2, ids))"
  using assms transition_commits [of env run_id target2]
  by (auto simp: transition_pair_def split: prod.splits sum.splits)

text \<open>A state from which the first arrow is not legal: nothing is submitted.\<close>

lemma transition_rejected:
  assumes "reader_works env (accesses c)" "stored (access env c) run_id = Some d"
    and "validate_run_chronology (durable_row d) = Inr ()" "target \<notin> RUN_TRANSITIONS (row_state (durable_row d))"
  shows "transition env run_id target c =
    (Inl (ConcurrentLifecycleRejectedError
       (''durable run state '' @ RunState_value (row_state (durable_row d)) @ '' rejects '' @ RunState_value target)), access env c)"
  using assms by (simp add: transition_def read_state_def read_durable_state_def Let_def RunState_can_transition_to_def)

lemma acknowledged_signal:
  assumes "signal_state s = Signal_REQUESTED" "signal_generation s = Some g" "1 \<le> g" "g \<le> 2147483647"
  shows "try_acknowledge g s = (Inr True, s\<lparr>signal_state := Signal_ACKNOWLEDGED\<rparr>)"
  using assms by (simp add: try_acknowledge_def signal_move_def require_generation_def)

lemma acknowledged_stays:
  "signal_state s = Signal_ACKNOWLEDGED \<Longrightarrow> (\<exists>e. fst (signal_request h s) = Inl e) \<and> snd (signal_request h s) = s \<and>
     fst (try_abort h s) \<noteq> Inr True \<and> snd (try_abort h s) = s \<and> fst (try_acknowledge h s) \<noteq> Inr True"
  by (auto simp: signal_request_def try_abort_def try_acknowledge_def signal_move_def split: sum.split)

subsection \<open>Undisturbed transitions\<close>

definition undisturbed :: "lifecycle_environment \<Rightarrow> bool" where
  "undisturbed env \<longleftrightarrow> (\<forall>k db. interfering env k db = db) \<and> (\<forall>k. writer_does env k = Writer_executes) \<and>
     (\<forall>k. reader_works env k) \<and> mono (clock_now env)"

definition settled :: "RunRow \<Rightarrow> UtcTimestamp \<Rightarrow> bool" where
  "settled r at \<longleftrightarrow> row_created_at r \<le> at \<and>
     \<not> list_ex (earlier (Some at))
       [row_started_at r, row_cancellation_requested_at r, row_recovery_started_at r, row_recovered_at r]"

text \<open>A run on which the coordinator can make \<open>n\<close> transitions before a number leaves its range.\<close>

definition ready :: "lifecycle_environment \<Rightarrow> string \<Rightarrow> coordinator \<Rightarrow> durable_run \<Rightarrow> int \<Rightarrow> bool" where
  "ready env run_id c d n \<longleftrightarrow>
     stored c run_id = Some d \<and> durable_ok d \<and> settled (durable_row d) (clock_now env (accesses c)) \<and>
     1 \<le> row_version (durable_row d) \<and> row_version (durable_row d) + n \<le> MAX_PERSISTED_INTEGER \<and>
     next_sequence d + n \<le> MAX_CONSISTENCY_SEQUENCE \<and>
     (case correlation c of None \<Rightarrow> True | Some t \<Rightarrow> portable_identity t ''correlation identifier'' 96 = Inr ())"

abbreviation kinds :: "durable_run \<Rightarrow> string list" where "kinds d \<equiv> map (\<lambda>x. event_kind (snd x)) (durable_events d)"

lemma not_earlier_mono: "\<not> earlier (Some at) t \<Longrightarrow> at \<le> at' \<Longrightarrow> \<not> earlier (Some at') t"
  by (auto simp: earlier_def split: option.splits)

lemma settled_mono: "settled r at \<Longrightarrow> at \<le> at' \<Longrightarrow> settled r at'"
  by (auto simp: settled_def dest: not_earlier_mono)

lemma earlier_simps [simp]: "earlier (Some x) (Some y) \<longleftrightarrow> x < y" "\<not> earlier None t" "\<not> earlier t None"
  by (simp_all add: earlier_def split: option.split)

lemma chronology_iff:
  "validate_run_chronology r = Inr () \<longleftrightarrow>
     \<not> list_ex (\<lambda>t. earlier t (Some (row_created_at r))) [row_started_at r, row_finished_at r, row_cancellation_requested_at r,
        row_recovery_started_at r, row_recovered_at r] \<and>
     \<not> earlier (row_finished_at r) (row_started_at r) \<and>
     \<not> (row_recovered_at r \<noteq> None \<and>
        (row_recovery_started_at r = None \<or> earlier (row_recovered_at r) (row_recovery_started_at r))) \<and>
     RunState_is_terminal (row_state r) = (row_finished_at r \<noteq> None) \<and>
     successful_state (row_state r) = (row_evidence_fingerprint r \<noteq> None) \<and>
     \<not> (row_evidence_version r \<noteq> None \<and> row_evidence_version r \<noteq> Some EVIDENCE_STORAGE_VERSION) \<and>
     \<not> (row_state r \<in> set ACTIVE_STARTED \<and> row_started_at r = None) \<and>
     \<not> (row_state r = Run_QUEUED \<and> row_started_at r \<noteq> None) \<and>
     (row_state r \<in> {Run_CANCELLING, Run_CANCELLED}) = (row_cancellation_requested_at r \<noteq> None) \<and>
     \<not> earlier (row_finished_at r) (row_cancellation_requested_at r)"
  by (simp only: validate_run_chronology_def Let_def bind_result_eq_Inr require_eq_Inr simp_thms)

lemma transition_values_ok:
  assumes r: "validate_run_chronology r = Inr ()" "settled r at" and t: "t \<in> RUN_TRANSITIONS (row_state r)" "\<not> successful_state t"
  obtains r' where "transition_values r t at None None = Inr r'" "validate_run_chronology r' = Inr ()" "settled r' at"
    "row_state r' = t" "row_version r' = row_version r + 1" "row_created_at r' = row_created_at r"
proof -
  obtain r' where r': "transition_values r t at None None = Inr r'"
    using r(2) by (simp add: transition_values_def settled_def not_less)
  have pairs: "(row_state r, t) \<in> {(Run_QUEUED, Run_RUNNING), (Run_QUEUED, Run_CANCELLED), (Run_RUNNING, Run_PAUSING),
      (Run_RUNNING, Run_FAILED), (Run_RUNNING, Run_CANCELLING), (Run_PAUSING, Run_PAUSED), (Run_PAUSED, Run_RESUMING),
      (Run_RESUMING, Run_RUNNING), (Run_CANCELLING, Run_CANCELLED)}"
    using t by (cases "row_state r") (auto simp: successful_state_def)
  have "validate_run_chronology r' = Inr ()"
    using pairs r r' unfolding chronology_iff
    by (elim insertE emptyE)
       (simp_all add: transition_values_def settled_def successful_state_def ACTIVE_STARTED_def RunState_is_terminal_def
          result_simps not_less del: not_None_eq, (clarsimp simp del: not_None_eq)+)
  moreover have "settled r' at" using r(2) r' by (auto simp: settled_def transition_values_def result_simps split: if_splits)
  ultimately show ?thesis using that r' by (auto simp: transition_values_def result_simps)
qed

lemma numbered_frontier:
  assumes "durable_ok d"
  shows "validate_event_frontier d = Inr ()"
proof (cases "next_sequence d = 1")
  case False
  then have n: "1 \<le> next_sequence d - 1" using assms by (simp add: durable_ok_def)
  then have "Min {1..next_sequence d - 1} = 1" "Max {1..next_sequence d - 1} = next_sequence d - 1"
    by (auto intro: Min_eqI Max_eqI)
  then show ?thesis
    using assms n by (simp add: durable_ok_def validate_event_frontier_def Let_def length_map [of fst, symmetric] del: length_map)
qed (use assms in \<open>simp add: durable_ok_def validate_event_frontier_def\<close>)

lemma transition_works:
  assumes env: "undisturbed env" and r: "ready env run_id c d (n + 1)" "0 \<le> n"
    and t: "t \<in> RUN_TRANSITIONS (row_state (durable_row d))" "EVENT_KINDS t = Some kind"
  obtains k c' d' where "transition env run_id t c = (Inr k, c')" "ready env run_id c' d' n" "row_state (durable_row d') = t"
    "kinds d' = kinds d @ [kind]"
proof -
  define at where "at = clock_now env (Suc (accesses c))"
  have d: "stored c run_id = Some d" "durable_ok d" "1 \<le> row_version (durable_row d)"
      "row_version (durable_row d) < MAX_PERSISTED_INTEGER" "next_sequence d < MAX_CONSISTENCY_SEQUENCE"
    using r by (simp_all add: ready_def)
  have chron: "validate_run_chronology (durable_row d) = Inr ()" using d(2) by (simp add: durable_ok_def)
  have clock: "mono (clock_now env)" using env by (simp add: undisturbed_def)
  have "settled (durable_row d) at"
    using r(1) settled_mono monoD [OF clock, of "accesses c" "Suc (accesses c)"] unfolding at_def ready_def by auto
  moreover have plain: "\<not> successful_state t" using t(2) by (cases t) (simp_all add: successful_state_def)
  ultimately obtain row where row: "transition_values (durable_row d) t at None None = Inr row" "validate_run_chronology row = Inr ()"
      "settled row at" "row_state row = t" "row_version row = row_version (durable_row d) + 1"
      "row_created_at row = row_created_at (durable_row d)"
    using transition_values_ok [OF chron _ t(1)] by blast
  define e where "e = \<lparr>event_kind = kind, event_occurred_at = at, event_subject = run_id, event_correlation = correlation c,
      event_schema_version = PAUSE_EVENT_PAYLOAD_SCHEMA_VERSION,
      event_payload = [(''from_state'', RunState_value (row_state (durable_row d))), (''to_state'', RunState_value t)]\<rparr>"
  define d1 where "d1 = d\<lparr>durable_row := row\<rparr>"
  define d2 where "d2 = d1\<lparr>next_sequence := next_sequence d + 1, counter_row_version := counter_row_version d + 1,
      durable_events := durable_events d @ [(next_sequence d, e)]\<rparr>"
  define c' where "c' = c\<lparr>accesses := Suc (Suc (accesses c)), stored := (stored c)(run_id \<mapsto> d2)\<rparr>"
  have ok1: "durable_ok d1" using d(2) row(2) by (simp add: d1_def durable_ok_def)
  have "check_event_kind kind = Inr ()" using t(2) by (cases t) (auto simp: check_event_kind_def)
  moreover have "row_created_at (durable_row d) \<le> at" using row(3,6) by (simp add: settled_def)
  ultimately have encoded: "encode_event e run_id (row_created_at (durable_row d1)) = Inr ()"
    using r(1) row(6)
    by (auto simp: encode_event_def e_def d1_def ready_def PAUSE_EVENT_PAYLOAD_SCHEMA_VERSION_def MAX_CONSISTENCY_SEQUENCE_def
        split: option.splits)
  have counter: "1 \<le> counter_row_version d" "counter_row_version d \<le> next_sequence d" using d(2) by (simp_all add: durable_ok_def)
  have appended: "append_event run_id \<lparr>expected_next_sequence = next_sequence d, expected_counter_row_version = counter_row_version d,
      appended_event = e\<rparr> ((stored c)(run_id \<mapsto> d1)) = Inr d2"
    using counter d(5) encoded numbered_frontier [OF ok1]
    by (simp add: append_event_def load_event_state_def Let_def d2_def) (simp add: d1_def)
  have "transition env run_id t c = (Inr (Suc (accesses c)), c')"
    using env d chron t plain row appended
    by (simp add: transition_def read_state_def read_durable_state_def access_def undisturbed_def submit_def
        RunState_can_transition_to_def RunState_transition_to_def execute_transition_run_def transition_command_def transition_row_def
        positive_execution_int_def require_run_def evidence_checks_def at_def [symmetric] e_def [symmetric] d1_def [symmetric]
        c'_def Let_def)
  moreover have "ready env run_id c' d2 n"
  proof -
    have "durable_ok d2" using append_event_keeps(2) [OF appended] ok1 by simp
    moreover have "settled row (clock_now env (Suc (Suc (accesses c))))"
      using settled_mono [OF row(3)] monoD [OF clock, of "Suc (accesses c)" "Suc (Suc (accesses c))"] by (simp add: at_def)
    ultimately show ?thesis using r row(5) by (simp add: ready_def c'_def) (simp add: d2_def d1_def)
  qed
  moreover have "row_state (durable_row d2) = t" "kinds d2 = kinds d @ [kind]" using row(4) by (simp_all add: d2_def d1_def e_def)
  ultimately show ?thesis using that by blast
qed

lemma transition_pair_works:
  assumes env: "undisturbed env" and r: "ready env run_id c d (n + 2)" "0 \<le> n"
    and t: "t \<in> RUN_TRANSITIONS (row_state (durable_row d))" "EVENT_KINDS t = Some kind"
      "u \<in> RUN_TRANSITIONS t" "EVENT_KINDS u = Some kind2"
  obtains x c' d' where "transition_pair env run_id t u c = (Inr (t, u, x), c')" "ready env run_id c' d' n"
    "row_state (durable_row d') = u" "kinds d' = kinds d @ [kind, kind2]"
proof -
  obtain k c1 d1 where 1: "transition env run_id t c = (Inr k, c1)" "ready env run_id c1 d1 (n + 1)" "row_state (durable_row d1) = t"
      "kinds d1 = kinds d @ [kind]"
    using transition_works [OF env, of run_id c d "n + 1" t kind] r t by (auto simp: add.assoc)
  obtain k2 c2 d2 where 2: "transition env run_id u c1 = (Inr k2, c2)" "ready env run_id c2 d2 n" "row_state (durable_row d2) = u"
      "kinds d2 = kinds d1 @ [kind2]"
    using transition_works [OF env 1(2) r(2), of u kind2] t(3,4) 1(3) by blast
  show ?thesis by (rule that [of "[k, k2]" c2 d2]) (use 1 2 in \<open>simp_all add: transition_pair_def\<close>)
qed

text \<open>A running run, the coordinator that holds it, and a quiet environment.\<close>

definition example_row :: "RunState \<Rightarrow> RunRow" where
  "example_row state =
     \<lparr>row_state = state, row_version = 2, row_created_at = 0,
      row_started_at = (if state = Run_QUEUED then None else Some 10), row_finished_at = None,
      row_cancellation_requested_at = None, row_recovery_started_at = None, row_recovered_at = None,
      row_evidence_fingerprint = None, row_evidence_version = None\<rparr>"

definition example_durable :: "RunState \<Rightarrow> durable_run" where
  "example_durable state =
     \<lparr>durable_row = example_row state, next_sequence = 1, counter_row_version = 1, durable_events = []\<rparr>"

definition example_database :: "RunState \<Rightarrow> database" where
  "example_database state = (\<lambda>run_id. if run_id = ''run_one'' then Some (example_durable state) else None)"

definition example_coordinator :: "RunState \<Rightarrow> coordinator" where
  "example_coordinator state =
     \<lparr>correlation = None, last_report = None, uncertain = False, stored = example_database state, accesses = 0\<rparr>"

definition quiet_environment :: lifecycle_environment where
  "quiet_environment =
     \<lparr>interfering = \<lambda>_ db. db, writer_does = \<lambda>_. Writer_executes, reader_works = \<lambda>_. True, clock_now = \<lambda>_. 20\<rparr>"

definition example_requested :: pause_signal where
  "example_requested = \<lparr>signal_generation = Some 7, signal_state = Signal_REQUESTED\<rparr>"

definition example_move :: "RunState \<Rightarrow> RunState \<Rightarrow> TransitionRun" where
  "example_move s t =
     transition_command (example_coordinator s) ''run_one''
       \<lparr>durable_state_run = example_row s, durable_state_next_sequence = 1, durable_state_counter_row_version = 1\<rparr> t ''run_moved'' 20"

lemma example_database_ok: "database_ok (example_database Run_RUNNING)"
proof -
  have "durable_ok (example_durable Run_RUNNING)" by code_simp
  then show ?thesis by (simp add: database_ok_def example_database_def)
qed

lemma quiet_undisturbed: "undisturbed quiet_environment"
  by (simp add: undisturbed_def quiet_environment_def mono_def)

subsection \<open>Properties\<close>

text \<open>
  C10.  Whatever commands are executed on the durable runs: every run stays coherent, its events are numbered from one
  without a gap, and its state only moves along the arrows of the run lifecycle.
\<close>

theorem durable_runs_stay_coherent:
  assumes "database_ok db" "db run_id = Some d"
  shows "\<exists>d'. snd (perform execute_transition_run cs db) run_id = Some d' \<and> durable_ok d' \<and>
    run.arrow\<^sup>*\<^sup>* (row_state (durable_row d)) (row_state (durable_row d'))"
proof -
  have "database_ok (snd (perform execute_transition_run cs db))" by (rule durable_machine.perform_inv [OF assms(1)])
  moreover have "\<exists>d'. snd (perform execute_transition_run cs db) run_id = Some d' \<and>
      run.arrow\<^sup>*\<^sup>* (row_state (durable_row d)) (row_state (durable_row d'))"
    using assms
  proof (induction cs arbitrary: db d)
    case (Cons c cs)
    then obtain d1 where d1: "snd (execute_transition_run c db) run_id = Some d1"
        "run.arrow\<^sup>*\<^sup>* (row_state (durable_row d)) (row_state (durable_row d1))"
      using execute_transition_run_keeps(2) by blast
    from Cons.IH [OF execute_transition_run_keeps(1) [OF Cons.prems(1)] d1(1)] d1(2)
    show ?case by (auto intro: rtranclp_trans)
  qed auto
  ultimately show ?thesis by (auto simp: database_ok_def)
qed

theorem durable_runs_stay_coherent_witness:
  "map isl (fst (perform execute_transition_run [example_move Run_RUNNING Run_CANCELLED, example_move Run_RUNNING Run_PAUSING]
     (example_database Run_RUNNING))) = [True, False] \<and>
   (\<exists>d'. snd (perform execute_transition_run [example_move Run_RUNNING Run_CANCELLED, example_move Run_RUNNING Run_PAUSING]
        (example_database Run_RUNNING)) ''run_one'' = Some d' \<and> durable_ok d' \<and>
      run.arrow\<^sup>*\<^sup>* Run_RUNNING (row_state (durable_row d')))"
proof (rule conjI)
  have "example_database Run_RUNNING ''run_one'' = Some (example_durable Run_RUNNING)" by (simp add: example_database_def)
  moreover have "row_state (durable_row (example_durable Run_RUNNING)) = Run_RUNNING" by (simp add: example_durable_def example_row_def)
  ultimately show "\<exists>d'. snd (perform execute_transition_run [example_move Run_RUNNING Run_CANCELLED, example_move Run_RUNNING Run_PAUSING]
        (example_database Run_RUNNING)) ''run_one'' = Some d' \<and> durable_ok d' \<and>
      run.arrow\<^sup>*\<^sup>* Run_RUNNING (row_state (durable_row d'))"
    using durable_runs_stay_coherent [OF example_database_ok] by metis
qed code_simp

text \<open>
  C9.  A proof that a run is paused is only given out when the run is: the pause was requested and is acknowledged in
  its generation, the database has the run paused with that as its last event, and the report says so, whatever others
  commit in between.
\<close>

theorem paused_proof_is_durable:
  assumes "complete_pause env run_id g (c, s) = (Inr p, c', s')"
  shows "signal_state s = Signal_REQUESTED \<and> signal_generation s = Some g \<and> s' = s\<lparr>signal_state := Signal_ACKNOWLEDGED\<rparr> \<and>
    p = \<lparr>proof_run_id = run_id, proof_generation = g\<rparr> \<and>
    (\<exists>d. stored c' run_id = Some d \<and> row_state (durable_row d) = Run_PAUSED \<and> last_event d ''run_paused'') \<and>
    (\<exists>ids. last_report c' = Some (reported ''paused'' Run_PAUSING Run_PAUSED ids))"
proof -
  have s: "signal_state s = Signal_REQUESTED \<and> signal_generation s = Some g \<and> s' = s\<lparr>signal_state := Signal_ACKNOWLEDGED\<rparr>"
    and p: "p = \<lparr>proof_run_id = run_id, proof_generation = g\<rparr>"
    and pair: "\<exists>c1 from_state to_state ids. transition_pair env run_id Run_PAUSING Run_PAUSED c = (Inr (from_state, to_state, ids), c1) \<and>
      c' = c1\<lparr>last_report := Some (reported ''paused'' from_state to_state ids)\<rparr>"
    using assms
    by (auto simp: complete_pause_def Let_def try_acknowledge_def signal_move_def split: prod.splits sum.splits if_splits bool.splits)
  from pair obtain c1 x where c1: "transition_pair env run_id Run_PAUSING Run_PAUSED c = (Inr x, c1)" "stored c' = stored c1"
      "last_report c' = Some (reported ''paused'' (fst x) (fst (snd x)) (snd (snd x)))"
    by fastforce
  from transition_pair_commits [OF c1(1)] show ?thesis unfolding c1(2,3) using s p by force
qed

theorem paused_proof_is_durable_witness:
  "\<exists>p c' s'. complete_pause quiet_environment ''run_one'' 7 (example_coordinator Run_RUNNING, example_requested) = (Inr p, c', s') \<and>
     (\<exists>d. stored c' ''run_one'' = Some d \<and> row_state (durable_row d) = Run_PAUSED \<and> last_event d ''run_paused'')"
proof -
  obtain r c' s' where pause: "complete_pause quiet_environment ''run_one'' 7 (example_coordinator Run_RUNNING, example_requested) = (r, c', s')"
    by (metis surj_pair)
  have "\<not> isl (fst (complete_pause quiet_environment ''run_one'' 7 (example_coordinator Run_RUNNING, example_requested)))"
    by code_simp
  then obtain p where "r = Inr p" unfolding pause by (cases r) simp_all
  with pause have "complete_pause quiet_environment ''run_one'' 7 (example_coordinator Run_RUNNING, example_requested) = (Inr p, c', s')"
    by simp
  from paused_proof_is_durable [OF this] this show ?thesis by blast
qed

text \<open>
  C40.  A pause whose run cannot begin to pause is rejected with nothing written, but its generation stays acknowledged:
  no later request is taken, and nothing can be aborted or acknowledged.
\<close>

theorem rejected_pause_stays_acknowledged:
  assumes signal: "signal_state s = Signal_REQUESTED" "signal_generation s = Some g" "1 \<le> g" "g \<le> 2147483647"
    and read: "reader_works env (accesses c)" "stored (access env c) run_id = Some d"
      "validate_run_chronology (durable_row d) = Inr ()"
    and state: "row_state (durable_row d) \<noteq> Run_RUNNING"
  shows "\<exists>message s'. complete_pause env run_id g (c, s) =
      (Inl (ConcurrentLifecycleRejectedError message), access env c, s') \<and>
    (\<forall>h. (\<exists>e. fst (signal_request h s') = Inl e) \<and> snd (signal_request h s') = s' \<and>
       fst (try_abort h s') \<noteq> Inr True \<and> snd (try_abort h s') = s' \<and> fst (try_acknowledge h s') \<noteq> Inr True)"
proof -
  have "Run_PAUSING \<notin> RUN_TRANSITIONS (row_state (durable_row d))" using state by (cases "row_state (durable_row d)") simp_all
  from transition_rejected [OF read this]
  have "complete_pause env run_id g (c, s) =
      (Inl (ConcurrentLifecycleRejectedError
         (''durable run state '' @ RunState_value (row_state (durable_row d)) @ '' rejects '' @ RunState_value Run_PAUSING)),
       access env c, s\<lparr>signal_state := Signal_ACKNOWLEDGED\<rparr>)"
    by (simp add: complete_pause_def acknowledged_signal [OF signal] transition_pair_def)
  then show ?thesis using acknowledged_stays [of "s\<lparr>signal_state := Signal_ACKNOWLEDGED\<rparr>"] by auto
qed

theorem rejected_pause_stays_acknowledged_witness:
  "\<exists>message s'. complete_pause quiet_environment ''run_one'' 7 (example_coordinator Run_QUEUED, example_requested) =
      (Inl (ConcurrentLifecycleRejectedError message), access quiet_environment (example_coordinator Run_QUEUED), s') \<and>
    (\<exists>e. fst (signal_request 8 s') = Inl e)"
proof -
  have read: "reader_works quiet_environment (accesses (example_coordinator Run_QUEUED))"
    "stored (access quiet_environment (example_coordinator Run_QUEUED)) ''run_one'' = Some (example_durable Run_QUEUED)"
    by (simp_all add: quiet_environment_def access_def example_coordinator_def example_database_def)
  have chronology: "validate_run_chronology (durable_row (example_durable Run_QUEUED)) = Inr ()" by code_simp
  have state: "row_state (durable_row (example_durable Run_QUEUED)) \<noteq> Run_RUNNING" by (simp add: example_durable_def example_row_def)
  have "signal_state example_requested = Signal_REQUESTED" "signal_generation example_requested = Some 7"
    by (simp_all add: example_requested_def)
  from rejected_pause_stays_acknowledged [OF this _ _ read chronology state] show ?thesis by fastforce
qed

text \<open>
  C19.  A running run whose pause is requested is paused and resumed again, when nobody interferes (the
  writer executes every command, every read works, the clock does not run backwards), the clock is not behind the times of
  the stored run, the reservation is the one the admission gates have for the run, its version and its event sequence have room for four more, and the coordinator's
  correlation identity, if it has one, is portable text as the event repository demands (the coordinator itself takes
  any printable ASCII; \<open>spaced_correlation_fails_pause\<close> below is a pause that fails for it): both calls return, the run is
  running, four events tell what happened, the signal is idle and the admission gate is open.
\<close>

theorem pause_and_resume_round_trip:
  assumes env: "undisturbed env"
    and run: "stored c run_id = Some d" "durable_ok d" "row_state (durable_row d) = Run_RUNNING"
    and clock: "settled (durable_row d) (clock_now env (accesses c))"
    and room: "1 \<le> row_version (durable_row d)" "row_version (durable_row d) + 4 \<le> MAX_PERSISTED_INTEGER"
      "next_sequence d + 4 \<le> MAX_CONSISTENCY_SEQUENCE"
    and portable: "correlation c = None \<or> portable_identity (the (correlation c)) ''correlation identifier'' 96 = Inr ()"
    and signal: "signal_state s = Signal_REQUESTED" "signal_generation s = Some g" "1 \<le> g" "g \<le> 2147483647"
    and gate: "registered_pause_run_id reservation gates = Some run_id"
  shows "\<exists>p c' s' report c'' d'. complete_pause env run_id g (c, s) = (Inr p, c', s') \<and>
    resume_run env p reservation (c', s', gates) = (Inr report, c'', new_pause_signal, AList.delete run_id gates) \<and>
    stored c'' run_id = Some d' \<and> durable_ok d' \<and> row_state (durable_row d') = Run_RUNNING \<and>
    kinds d' = kinds d @ [''run_pausing'', ''run_paused'', ''run_resuming'', ''run_started'']"
proof -
  have r: "ready env run_id c d 4" using run clock room portable by (auto simp: ready_def split: option.splits)
  obtain x c1 d1 where 1: "transition_pair env run_id Run_PAUSING Run_PAUSED c = (Inr (Run_PAUSING, Run_PAUSED, x), c1)"
      "ready env run_id c1 d1 2" "row_state (durable_row d1) = Run_PAUSED" "kinds d1 = kinds d @ [''run_pausing'', ''run_paused'']"
    using transition_pair_works [OF env, of run_id c d 2 Run_PAUSING "''run_pausing''" Run_PAUSED "''run_paused''"] r run(3) by auto
  define c1' where "c1' = c1\<lparr>last_report := Some (reported ''paused'' Run_PAUSING Run_PAUSED x)\<rparr>"
  define s1 where "s1 = s\<lparr>signal_state := Signal_ACKNOWLEDGED\<rparr>"
  have pause: "complete_pause env run_id g (c, s) = (Inr \<lparr>proof_run_id = run_id, proof_generation = g\<rparr>, c1', s1)"
    by (simp add: complete_pause_def acknowledged_signal [OF signal] 1(1) c1'_def s1_def)
  have "ready env run_id c1' d1 2" using 1(2) by (simp add: ready_def c1'_def)
  then obtain y c2 d2 where 2: "transition_pair env run_id Run_RESUMING Run_RUNNING c1' = (Inr (Run_RESUMING, Run_RUNNING, y), c2)"
      "ready env run_id c2 d2 0" "row_state (durable_row d2) = Run_RUNNING" "kinds d2 = kinds d1 @ [''run_resuming'', ''run_started'']"
    using transition_pair_works [OF env, of run_id c1' d1 0 Run_RESUMING "''run_resuming''" Run_RUNNING "''run_started''"] 1(3) by auto
  have "clear_signal g s1 = (Inr True, new_pause_signal)"
    using signal by (simp add: clear_signal_def signal_move_def require_generation_def s1_def)
  then have "resume_run env \<lparr>proof_run_id = run_id, proof_generation = g\<rparr> reservation (c1', s1, gates) =
      (Inr (reported ''resumed'' Run_RESUMING Run_RUNNING y),
       c2\<lparr>last_report := Some (reported ''resumed'' Run_RESUMING Run_RUNNING y)\<rparr>, new_pause_signal, AList.delete run_id gates)"
    by (simp add: resume_run_def 2(1) release_pause_def gate Let_def)
  moreover have "stored c2 run_id = Some d2" "durable_ok d2" using 2(2) by (simp_all add: ready_def)
  ultimately show ?thesis using pause 1(4) 2(3,4) by force
qed

theorem pause_and_resume_round_trip_witness:
  "\<exists>p c' s' report c'' d'.
     complete_pause quiet_environment ''run_one'' 7 (example_coordinator Run_RUNNING, example_requested) = (Inr p, c', s') \<and>
     resume_run quiet_environment p 3 (c', s', [(''run_one'', 3)]) = (Inr report, c'', new_pause_signal, []) \<and>
     stored c'' ''run_one'' = Some d' \<and> row_state (durable_row d') = Run_RUNNING \<and>
     kinds d' = [''run_pausing'', ''run_paused'', ''run_resuming'', ''run_started'']"
proof -
  have "durable_ok (example_durable Run_RUNNING)" by code_simp
  moreover have "stored (example_coordinator Run_RUNNING) ''run_one'' = Some (example_durable Run_RUNNING)"
    "settled (durable_row (example_durable Run_RUNNING)) (clock_now quiet_environment (accesses (example_coordinator Run_RUNNING)))"
    "1 \<le> row_version (durable_row (example_durable Run_RUNNING))"
    "row_version (durable_row (example_durable Run_RUNNING)) + 4 \<le> MAX_PERSISTED_INTEGER"
    "next_sequence (example_durable Run_RUNNING) + 4 \<le> MAX_CONSISTENCY_SEQUENCE"
    "correlation (example_coordinator Run_RUNNING) = None \<or>
       portable_identity (the (correlation (example_coordinator Run_RUNNING))) ''correlation identifier'' 96 = Inr ()"
    by (simp_all add: example_coordinator_def example_database_def quiet_environment_def settled_def example_durable_def
        example_row_def MAX_PERSISTED_INTEGER_def MAX_CONSISTENCY_SEQUENCE_def)
  moreover have "row_state (durable_row (example_durable Run_RUNNING)) = Run_RUNNING" "durable_events (example_durable Run_RUNNING) = []"
    by (simp_all add: example_durable_def example_row_def)
  moreover have "signal_state example_requested = Signal_REQUESTED" "signal_generation example_requested = Some 7"
    by (simp_all add: example_requested_def)
  moreover have "registered_pause_run_id 3 [(''run_one'', 3)] = Some ''run_one''" by (simp add: registered_pause_run_id_def)
  ultimately show ?thesis
    using pause_and_resume_round_trip [OF quiet_undisturbed, where run_id = "''run_one''" and c = "example_coordinator Run_RUNNING"
        and d = "example_durable Run_RUNNING" and s = example_requested and g = 7 and reservation = 3 and gates = "[(''run_one'', 3)]"]
    by fastforce
qed

text \<open>
  The coordinator takes a correlation identity with a space, which the event repository refuses: the pause fails with an
  unknown outcome although nothing was written, and its generation stays acknowledged.
\<close>

lemma spaced_correlation_fails_pause:
  "require_correlation_id (Some ''a b'') = Inr (Some ''a b'')"
  "(case complete_pause quiet_environment ''run_one'' 7 ((example_coordinator Run_RUNNING)\<lparr>correlation := Some ''a b''\<rparr>, example_requested) of
      (Inl e, c, s) \<Rightarrow> e = ConcurrentLifecycleOutcomeUnknownError ''lifecycle writer outcome is unknown'' \<and> uncertain c \<and>
        stored c ''run_one'' = Some (example_durable Run_RUNNING) \<and> signal_state s = Signal_ACKNOWLEDGED
    | _ \<Rightarrow> False)"
  by code_simp+

end
