(* ===== verification/Spec2Isabelle.thy ===== *)
theory Spec2Isabelle
  imports Retry Channels Execution_Plan Lifecycle Scheduler_Properties Frontier_Mapping Repair_Plan_Properties Target_State Tracker_Properties
    Subordinate_Properties Pause_Properties Runner_Properties Lifecycle_Properties
begin

text \<open>
  \<^bold>\<open>The program.\<close>  ParityGrid reconciles an inventory held by several sources with a warehouse and
  repairs the differences.  A user publishes a pipeline document; the planner checks and compiles it
  into an execution plan; a runner drives the work items of the plan through a concurrent scheduler,
  bounded channels and a retry policy; the reconciliation domain compares the records and proposes
  repairs.  The Python package is \<^verbatim>\<open>src/src/paritygrid\<close>; file names below are relative to it.

  \<^bold>\<open>Theories and the code they model.\<close>
  \<^item> \<open>Prelude\<close>: results (\<open>Inl\<close> an error, \<open>Inr\<close> a value), \<open>bind_result\<close>, checks over lists, Python
    dicts as association lists, and the interfaces: \<open>guarded_machine\<close> (operations under a guard keep
    an invariant), \<open>object_machine\<close> (calls that return an answer and a new state), \<open>bisimulation\<close>,
    \<open>queue_machine\<close>.  \<open>Text_Forms\<close>: decimal text, zero padding, character classes.
  \<^item> \<open>Identifiers\<close> (\<^verbatim>\<open>domain/models/identifiers.py\<close>), \<open>Temporal\<close> (\<^verbatim>\<open>domain/models/temporal.py\<close>),
    \<open>Lifecycle\<close> (\<^verbatim>\<open>domain/execution/states.py\<close>, \<^verbatim>\<open>failures.py\<close>): the values every other part uses.
  \<^item> \<open>Retry\<close> (\<^verbatim>\<open>application/execution/retry_policy.py\<close>): requests, decisions, the bounded exponential
    policy and the seeded jitter source.
  \<^item> \<open>Channels\<close> (\<^verbatim>\<open>application/execution/channels.py\<close>): the bounded channel with the wait set of its condition
    variable, blocking and cooperative sends and receives, the channel set.
  \<^item> \<open>Pipeline\<close>, \<open>Registry\<close>, \<open>Kahn\<close>, \<open>Graph\<close>, \<open>Repair_Safety\<close>, \<open>Execution_Plan\<close>: the planner
    (\<^verbatim>\<open>domain/pipeline/values.py\<close>, \<^verbatim>\<open>application/planner/*.py\<close>).
  \<^item> \<open>Frontier\<close>, \<open>Frontier_Validity\<close>, \<open>Frontier_Mapping\<close>, \<open>Scheduler\<close> and the theories
    \<open>Scheduler_*\<close>: \<^verbatim>\<open>application/execution/concurrent_scheduler.py\<close>, all of it.

  \<^item> \<open>Tracker\<close>, \<open>Tracker_Cursor\<close>, \<open>Tracker_Properties\<close>: \<^verbatim>\<open>application/execution/scheduler.py\<close>, the sequential
    dependency tracker, with \<open>Refinement\<close>, the interface between an object and its specification.
  \<^item> \<open>Pause_Token\<close> and \<open>Pause_Properties\<close> (\<^verbatim>\<open>PauseToken\<close> of \<^verbatim>\<open>application/execution/pause.py\<close>), \<open>Runner\<close> and
    \<open>Runner_Properties\<close> (\<^verbatim>\<open>application/execution/runner.py\<close>): the sequential runner drives the tracker; its loop is a
    \<open>partial_function\<close>, shown to return for every executor and every interference.
  \<^item> \<open>Clock_Policy\<close> (\<^verbatim>\<open>application/execution/clock_policy.py\<close>: delays, the manual clock, the token bucket) and \<open>Capacity\<close>
    (\<^verbatim>\<open>application/execution/capacity.py\<close>: the three-level coordinator of scheduled work and the limiters subordinate to
    it).  \<open>Capacity_Facts\<close> has the invariant, \<open>Capacity_Calls\<close> shows that every call keeps it, \<open>Capacity_Properties\<close> and
    \<open>Subordinate_Properties\<close> what it gives.
  \<^item> \<open>Durable_Runs\<close> (the transition command and the rows it changes, \<^verbatim>\<open>adapters/persistence/repositories\<close>,
    \<^verbatim>\<open>writer/dispatch.py\<close>), \<open>Concurrent_Lifecycle\<close> (\<^verbatim>\<open>application/execution/concurrent_lifecycle.py\<close>) and
    \<open>Lifecycle_Properties\<close>: pause, resume and cancellation of concurrent runs over the run lifecycle of \<open>Lifecycle\<close>.
  \<^item> \<open>Calendar\<close> (the ISO-8601 text of \<^verbatim>\<open>temporal.py\<close>), \<open>Monetary\<close> (\<^verbatim>\<open>domain/models/money.py\<close>), \<open>Inventory\<close>
    (\<^verbatim>\<open>domain/models/inventory.py\<close>), \<open>Differences\<close> (\<^verbatim>\<open>domain/reconciliation/differences.py\<close>), \<open>Normalization\<close>
    with \<open>Normalization_Facts\<close> and \<open>Normalization_Properties\<close> (\<^verbatim>\<open>domain/reconciliation/normalization.py\<close>).
  \<^item> \<open>Outcomes\<close>, \<open>Matching\<close>, \<open>Classification\<close>, \<open>Classification_Properties\<close> (the modules of
    \<^verbatim>\<open>domain/reconciliation\<close> with these names): one outcome per SKU, what its classification is and why.
  \<^item> \<open>Digest\<close> (SHA-256 and \<^verbatim>\<open>domain/models/fingerprints.py\<close>), \<open>Json_Text\<close> (JSON text determines the value),
    \<open>Canonical\<close> and \<open>Canonical_Properties\<close> (\<^verbatim>\<open>domain/canonical/encoding.py\<close>, \<^verbatim>\<open>fingerprints.py\<close>).
  \<^item> \<open>Analysis\<close> and \<open>Analysis_Properties\<close> (\<^verbatim>\<open>domain/reconciliation/summaries.py\<close>,
    \<^verbatim>\<open>application/reconciliation/analysis.py\<close>, the conflict row of \<^verbatim>\<open>application/ports/parquet.py\<close>).
  \<^item> \<open>Repair_Plans\<close> (\<^verbatim>\<open>domain/repair/plans.py\<close>), \<open>Repair_Planning\<close> (\<^verbatim>\<open>application/repair/planning.py\<close>,
    \<^verbatim>\<open>identities.py\<close>), \<open>Repair_Identities\<close> (which derived identities are valid), \<open>Repair_Plan_Properties\<close>,
    \<open>Example_Analysis\<close> (the analysis its witnesses use), \<open>Target_State\<close> (\<^verbatim>\<open>domain/repair/verification.py\<close>).

  \<^bold>\<open>What is shown.\<close>  For the scheduler: an invariant of every reached state, that it does not stall, that a commit
  releases exactly the permitted work, that frontiers are valid, restore and are equivalent to the scheduler they come
  from: every later call returns the same value.  Reached states are those reached by calls that schedule no retry beyond
  2^53 - 1 microseconds and restore no frontier that blocks a node without predecessors (\<open>call_ok\<close> of
  \<open>Scheduler_Machine\<close>); \<open>late_retry_corrupts\<close> and \<open>blocked_root_accepted\<close> show what those two calls do.  For the tracker: it answers as a cursor over the plan does and restores exactly the states it can reach.  For the
  sequential runner: a run returns, executes the next nodes of the plan once each and reports what it did; a pause is
  acknowledged or aborted, not both.  For the concurrent lifecycle: durable runs stay coherent, a paused proof means a
  paused run, pause and resume come back to a running run when the correlation identity is portable; a run ends in one of
  four states and in no other.  For capacity: limits hold under every interleaving, an acquisition takes all levels
  or none, the oldest waiter is served, a subordinate permit pins the scheduled work of its owner as long as no second
  limiter of its category interferes, a token bucket keeps its rate; two defects are shown in general
  (\<open>wakeup_lost\<close>, \<open>equal_permits_leak\<close>).  For channels: nothing is lost, duplicated or reordered under any interleaving,
  and no sender is left asleep by a close, a mark or room in the buffer.  For the planner: the order
  is the least topological one, the reachability and repair-safety checks mean what they say, compilation is total.  For
  reconciliation: a batch is always normalized (apart from the named exceptions), matching and classification are exact
  and total, field evidence and typed comparison agree, an analysis succeeds exactly when its batches are normalized and
  three limits hold.  For repair: the canonical encoding is injective up to the binding of a plan, a fingerprint identifies its state up to collisions of SHA-256, a plan
  has exactly the safe actions, and its generation returns.  Where the code does something else than it says, a
  property states what it does: late retry waits (\<open>late_wait_not_read_back\<close>, \<open>late_retry_corrupts\<close>), blocked roots,
  quantities beyond 64 bits, the limits of the analysis, runs with the shortest identity.

  \<^bold>\<open>Conventions.\<close>  A constructor with checks in \<^verbatim>\<open>__post_init__\<close> is a function \<open>make_X\<close> into a result;
  the checks stand in the order of the code with its messages.  Checks of the dynamic type of an
  argument (\<^verbatim>\<open>isinstance\<close>, \<^verbatim>\<open>type(x) is int\<close>) have no counterpart where the HOL type already rules
  them out; they are modelled where a value comes from outside (\<open>payload\<close>, \<open>DocumentValue\<close>, observations).
  Text is a list of characters, the code points below 256; \<open>utf8_length\<close> counts the bytes of a text where the code
  limits them, and for such text NFC is the identity.  Methods that change an object take and return its
  state; when they raise, the returned state shows what had already changed.  Dicts that are iterated are association
  lists in insertion order; dicts that are only looked up are functions.  JSON objects whose keys the code sorts are
  written with their keys in that order.  Kahn's loop carries the fuel \<open>Suc (length nodes)\<close>: every
  iteration removes one node, and the loop is shown to return \<open>Some\<close> with that fuel.  Clocks, waits, jitter
  sources and the connector catalog are parameters, and so are the hash of the jitter source and the plan fingerprint;
  the fingerprints of the repair domain use SHA-256 as written out in \<open>Digest\<close>.

  \<^bold>\<open>Not modelled.\<close>  The services over repositories and transactions (leasing, pause coordination, finalisation, publication and
  application of repairs), the persistence, connector, analytics and HTTP adapters, the demo and quality harnesses:
  they are I/O through third-party libraries or scripts over the parts above.  Reading and writing the JSON text
  of pipeline documents and stored plans, the contract documents of the runner, and the floating-point rates and the
  jitter schedule of \<^verbatim>\<open>clock_policy.py\<close> are left out as well.
\<close>

end
